(* ===== verification/Ldp_Prelude.thy ===== *)
theory Ldp_Prelude
  imports Main "HOL-Library.Word" "HOL-Library.RBT"
begin

unbundle bit_operations_syntax

text \<open>
  What the theories of the development share: the machine integers of the C sources, the faults a
  C statement can end in and the sequencing of statements that may fault, the byte order of the
  host and of the network, bounds-checked reads of a received buffer, and the red-black trees of
  \<^verbatim>\<open>sys/tree.h\<close> as an interface with the laws the daemon relies on.

  The host is little-endian (as amd64 and arm64 are): \<^verbatim>\<open>memcpy\<close> of two or four bytes into a
  \<^verbatim>\<open>uint16_t\<close> or \<^verbatim>\<open>uint32_t\<close> is \<open>load16\<close> or \<open>load32\<close>, the reverse is \<open>store16\<close> or
  \<open>store32\<close>, and \<^verbatim>\<open>htons\<close>, \<^verbatim>\<open>ntohs\<close>, \<^verbatim>\<open>htonl\<close>, \<^verbatim>\<open>ntohl\<close> swap bytes.
\<close>

section \<open>Types and collections of rules\<close>

type_synonym u8 = "8 word"
type_synonym u16 = "16 word"
type_synonym u32 = "32 word"
type_synonym bytes = "8 word list"

named_theorems fault_simps \<open>sequencing of statements that may fault\<close>
named_theorems wire_simps \<open>byte order, loads and stores\<close>
named_theorems const_defs \<open>the constants of the C headers\<close>

section \<open>Faults and sequencing\<close>

text \<open>
  A statement that does not fault yields \<open>Inr\<close>. The faults are the calls of \<^verbatim>\<open>fatalx\<close> (with
  their message), the dereference of a null pointer or of an object already freed, an access outside
  the object pointed to, a
  shift by a negative amount or by the width of the operand, a loop that never ends, and a search in a
  tree of \<^verbatim>\<open>sys/tree.h\<close> whose comparison function does not order the keys, which may miss an element
  that is in the tree.
\<close>

datatype fault = Fatalx string | NullDeref | UseAfterFree | OutOfBounds | BadShift | Diverges | Unordered

type_synonym 'a res = "fault + 'a"

definition bindE :: "'a res \<Rightarrow> ('a \<Rightarrow> 'b res) \<Rightarrow> 'b res" where
  "bindE m f = (case m of Inl e \<Rightarrow> Inl e | Inr x \<Rightarrow> f x)"

text \<open>A loop over a list whose body may fault, and a search whose test may fault.\<close>

fun foldE :: "('s \<Rightarrow> 'x \<Rightarrow> 's res) \<Rightarrow> 'x list \<Rightarrow> 's \<Rightarrow> 's res" where
  "foldE f [] s = Inr s"
| "foldE f (x # xs) s = bindE (f s x) (foldE f xs)"

fun findE :: "('x \<Rightarrow> bool res) \<Rightarrow> 'x list \<Rightarrow> 'x option res" where
  "findE p [] = Inr None"
| "findE p (x # xs) = bindE (p x) (\<lambda>b. if b then Inr (Some x) else findE p xs)"

lemma bindE_simps [simp, fault_simps]:
  "bindE (Inr x) f = f x"
  "bindE (Inl e) f = Inl e"
  by (simp_all add: bindE_def)

lemma bindE_assoc: "bindE (bindE m f) g = bindE m (\<lambda>x. bindE (f x) g)"
  by (cases m) simp_all

lemma bindE_Inr_iff: "bindE m f = Inr y \<longleftrightarrow> (\<exists>x. m = Inr x \<and> f x = Inr y)"
  by (cases m) simp_all

lemma bindE_cong [fundef_cong]:
  "m = m' \<Longrightarrow> (\<And>x. m' = Inr x \<Longrightarrow> f x = g x) \<Longrightarrow> bindE m f = bindE m' g"
  by (cases m') simp_all

lemma foldE_append: "foldE f (xs @ ys) s = bindE (foldE f xs s) (foldE f ys)"
  by (induction xs arbitrary: s) (auto simp: bindE_assoc intro: bindE_cong)

lemma foldE_total:
  assumes "\<And>s x. x \<in> set xs \<Longrightarrow> f s x = Inr (g s x)"
  shows "foldE f xs s = Inr (foldl g s xs)"
  using assms by (induction xs arbitrary: s) simp_all

lemma findE_total:
  assumes "\<And>x. x \<in> set xs \<Longrightarrow> p x = Inr (q x)"
  shows "findE p xs = Inr (find q xs)"
  using assms by (induction xs) simp_all

text \<open>
  \<open>okE r P\<close>: the statement does not fault and its result satisfies \<open>P\<close>. The rules below are the
  total-correctness rules for sequencing, choice and loops; the rule for loops asks for an
  invariant under which no iteration faults and which every iteration keeps.
\<close>

definition okE :: "'a res \<Rightarrow> ('a \<Rightarrow> bool) \<Rightarrow> bool" where
  "okE r P \<longleftrightarrow> (\<exists>x. r = Inr x \<and> P x)"

lemma okE_Inr [simp]: "okE (Inr x) P = P x"
  by (simp add: okE_def)

lemma okE_Inl [simp]: "\<not> okE (Inl e) P"
  by (simp add: okE_def)

lemma okE_bind: "okE m Q \<Longrightarrow> (\<And>x. Q x \<Longrightarrow> okE (f x) P) \<Longrightarrow> okE (bindE m f) P"
  by (auto simp: okE_def)

lemma okE_mono: "okE m Q \<Longrightarrow> (\<And>x. Q x \<Longrightarrow> P x) \<Longrightarrow> okE m P"
  by (auto simp: okE_def)

lemma okE_bind_iff: "okE (bindE m f) P = okE m (\<lambda>x. okE (f x) P)"
  by (cases m) simp_all

lemma okE_conjI: "okE m P \<Longrightarrow> okE m Q \<Longrightarrow> okE m (\<lambda>x. P x \<and> Q x)"
  by (auto simp: okE_def)

lemma okE_foldE:
  assumes "P s" and "\<And>s x. x \<in> set xs \<Longrightarrow> P s \<Longrightarrow> okE (f s x) P"
  shows "okE (foldE f xs s) P"
  using assms
proof (induction xs arbitrary: s)
  case Nil
  then show ?case by simp
next
  case (Cons x xs)
  have "okE (f s x) P" using Cons.prems by simp
  then show ?case
    using Cons.IH Cons.prems(2) by (auto intro: okE_bind)
qed

text \<open>\<open>partE r P\<close>: the result of the statement, if it ends without a fault, satisfies \<open>P\<close>.\<close>

definition partE :: "'a res \<Rightarrow> ('a \<Rightarrow> bool) \<Rightarrow> bool" where
  "partE r P \<longleftrightarrow> (\<forall>x. r = Inr x \<longrightarrow> P x)"

lemma partE_simps [simp]: "partE (Inr x) P = P x" "partE (Inl e) P"
  by (simp_all add: partE_def)

lemma partE_bind: "partE r Q \<Longrightarrow> (\<And>x. Q x \<Longrightarrow> partE (f x) P) \<Longrightarrow> partE (bindE r f) P"
  by (cases r) auto

lemma partE_any: "(\<And>x. r = Inr x \<Longrightarrow> partE (f x) P) \<Longrightarrow> partE (bindE r f) P"
  by (cases r) auto

lemma partE_fold: "P s \<Longrightarrow> (\<And>s x. P s \<Longrightarrow> partE (f s x) P) \<Longrightarrow> partE (foldE f xs s) P"
  by (induction xs arbitrary: s) (auto intro: partE_bind)

lemma partE_okE: "partE r P \<Longrightarrow> okE r Q \<Longrightarrow> okE r (\<lambda>x. Q x \<and> P x)"
  by (auto simp: okE_def partE_def)

section \<open>Byte order\<close>

definition lo8 :: "u16 \<Rightarrow> u8" where "lo8 w = ucast w"
definition hi8 :: "u16 \<Rightarrow> u8" where "hi8 w = ucast (drop_bit 8 w)"
definition lo16 :: "u32 \<Rightarrow> u16" where "lo16 w = ucast w"
definition hi16 :: "u32 \<Rightarrow> u16" where "hi16 w = ucast (drop_bit 16 w)"

text \<open>\<open>load16 a b\<close> is the \<^verbatim>\<open>uint16_t\<close> whose bytes in memory are \<open>a\<close> then \<open>b\<close>.\<close>

definition load16 :: "u8 \<Rightarrow> u8 \<Rightarrow> u16" where
  "load16 a b = ucast a OR push_bit 8 (ucast b)"

definition join32 :: "u16 \<Rightarrow> u16 \<Rightarrow> u32" where
  "join32 x y = ucast x OR push_bit 16 (ucast y)"

definition load32 :: "u8 \<Rightarrow> u8 \<Rightarrow> u8 \<Rightarrow> u8 \<Rightarrow> u32" where
  "load32 a b c d = join32 (load16 a b) (load16 c d)"

definition store16 :: "u16 \<Rightarrow> bytes" where
  "store16 w = [lo8 w, hi8 w]"

definition store32 :: "u32 \<Rightarrow> bytes" where
  "store32 w = store16 (lo16 w) @ store16 (hi16 w)"

definition ntohs :: "u16 \<Rightarrow> u16" where
  "ntohs w = load16 (hi8 w) (lo8 w)"

definition ntohl :: "u32 \<Rightarrow> u32" where
  "ntohl w = join32 (ntohs (hi16 w)) (ntohs (lo16 w))"

abbreviation (input) htons :: "u16 \<Rightarrow> u16" where "htons \<equiv> ntohs"
abbreviation (input) htonl :: "u32 \<Rightarrow> u32" where "htonl \<equiv> ntohl"

lemmas byte_order_defs =
  lo8_def hi8_def lo16_def hi16_def load16_def join32_def load32_def store16_def store32_def
  ntohs_def ntohl_def

lemma load16_lo8_hi8 [simp, wire_simps]: "load16 (lo8 w) (hi8 w) = w"
  unfolding load16_def lo8_def hi8_def by (rule bit_word_eqI) (auto simp: bit_simps)

lemma lo8_load16 [simp, wire_simps]: "lo8 (load16 a b) = a"
  unfolding load16_def lo8_def by (rule bit_word_eqI) (auto simp: bit_simps)

lemma hi8_load16 [simp, wire_simps]: "hi8 (load16 a b) = b"
  unfolding load16_def hi8_def
  by (rule bit_word_eqI) (auto simp: bit_simps dest: bit_imp_le_length)

lemma join32_lo16_hi16 [simp, wire_simps]: "join32 (lo16 w) (hi16 w) = w"
  unfolding join32_def lo16_def hi16_def by (rule bit_word_eqI) (auto simp: bit_simps)

lemma lo16_join32 [simp, wire_simps]: "lo16 (join32 x y) = x"
  unfolding join32_def lo16_def by (rule bit_word_eqI) (auto simp: bit_simps)

lemma hi16_join32 [simp, wire_simps]: "hi16 (join32 x y) = y"
  unfolding join32_def hi16_def
  by (rule bit_word_eqI) (auto simp: bit_simps dest: bit_imp_le_length)

lemma ntohs_ntohs [simp, wire_simps]: "ntohs (ntohs w) = w"
  by (simp add: ntohs_def)

lemma ntohl_ntohl [simp, wire_simps]: "ntohl (ntohl w) = w"
  by (simp add: ntohl_def)

lemma ntohs_inject [simp]: "ntohs v = ntohs w \<longleftrightarrow> v = w"
  by (metis ntohs_ntohs)

lemma ntohl_inject [simp]: "ntohl v = ntohl w \<longleftrightarrow> v = w"
  by (metis ntohl_ntohl)

lemma length_store [simp, wire_simps]: "length (store16 w) = 2" "length (store32 v) = 4"
  by (simp_all add: store16_def store32_def)

lemma store32_load32 [simp, wire_simps]: "store32 (load32 a b c d) = [a, b, c, d]"
  by (simp add: store32_def load32_def store16_def)

lemma store16_load16 [simp, wire_simps]: "store16 (load16 a b) = [a, b]"
  by (simp add: store16_def)

section \<open>Bounds-checked reads of a received buffer\<close>

text \<open>
  \<open>bs\<close> is the memory from the pointer to the end of the object it points into, so a read at an
  offset beyond it is a fault. \<^verbatim>\<open>memcpy\<close> of \<open>n\<close> bytes is \<open>rdn\<close>.
\<close>

definition rd8 :: "bytes \<Rightarrow> nat \<Rightarrow> u8 res" where
  "rd8 bs i = (if i < length bs then Inr (bs ! i) else Inl OutOfBounds)"

definition rd16 :: "bytes \<Rightarrow> nat \<Rightarrow> u16 res" where
  "rd16 bs i = (if i + 2 \<le> length bs then Inr (load16 (bs ! i) (bs ! (i + 1)))
                else Inl OutOfBounds)"

definition rd32 :: "bytes \<Rightarrow> nat \<Rightarrow> u32 res" where
  "rd32 bs i = (if i + 4 \<le> length bs
                then Inr (load32 (bs ! i) (bs ! (i + 1)) (bs ! (i + 2)) (bs ! (i + 3)))
                else Inl OutOfBounds)"

definition rdn :: "bytes \<Rightarrow> nat \<Rightarrow> nat \<Rightarrow> bytes res" where
  "rdn bs i n = (if i + n \<le> length bs then Inr (take n (drop i bs)) else Inl OutOfBounds)"

lemmas rd_defs = rd8_def rd16_def rd32_def rdn_def

lemma rd_append:
  "i < length xs \<Longrightarrow> rd8 (xs @ ys) i = rd8 xs i"
  "i + 2 \<le> length xs \<Longrightarrow> rd16 (xs @ ys) i = rd16 xs i"
  "i + 4 \<le> length xs \<Longrightarrow> rd32 (xs @ ys) i = rd32 xs i"
  "i + n \<le> length xs \<Longrightarrow> rdn (xs @ ys) i n = rdn xs i n"
  by (simp_all add: rd_defs nth_append)

lemma rd_in_bounds:
  "i < length bs \<Longrightarrow> \<exists>v. rd8 bs i = Inr v"
  "i + 2 \<le> length bs \<Longrightarrow> \<exists>w. rd16 bs i = Inr w"
  "i + 4 \<le> length bs \<Longrightarrow> \<exists>d. rd32 bs i = Inr d"
  "i + n \<le> length bs \<Longrightarrow> \<exists>ds. rdn bs i n = Inr ds"
  by (simp_all add: rd_defs)

text \<open>A write of one byte into an object of which \<open>bs\<close> is the contents.\<close>

definition wr8 :: "bytes \<Rightarrow> nat \<Rightarrow> u8 \<Rightarrow> bytes res" where
  "wr8 bs i v = (if i < length bs then Inr (bs[i := v]) else Inl OutOfBounds)"

text \<open>Subtraction on \<^verbatim>\<open>uint16_t\<close>, where nothing before it rules out a borrow.\<close>

definition sub16 :: "nat \<Rightarrow> nat \<Rightarrow> nat" where
  "sub16 a b = (a + 65536 - b) mod 65536"

lemma sub16_eq: "b \<le> a \<Longrightarrow> a < 65536 \<Longrightarrow> sub16 a b = a - b"
proof -
  assume le: "b \<le> a" and lt: "a < 65536"
  have "a + 65536 - b = (a - b) + 65536" using le by simp
  moreover have "((a - b) + 65536) mod 65536 = a - b" using lt by simp
  ultimately show ?thesis by (simp only: sub16_def)
qed

section \<open>Flag words\<close>

definition has_flag :: "'a::len word \<Rightarrow> 'a word \<Rightarrow> bool" where
  "has_flag w f \<longleftrightarrow> w AND f \<noteq> 0"

definition set_flag :: "'a::len word \<Rightarrow> 'a word \<Rightarrow> 'a word" where
  "set_flag w f = w OR f"

definition clear_flag :: "'a::len word \<Rightarrow> 'a word \<Rightarrow> 'a word" where
  "clear_flag w f = w AND NOT f"

lemma has_flag_set_same: "f \<noteq> 0 \<Longrightarrow> has_flag (set_flag w f) f"
  by (simp add: has_flag_def set_flag_def word_ao_absorbs)

lemma has_flag_set_other: "f AND g = 0 \<Longrightarrow> has_flag (set_flag w f) g = has_flag w g"
  by (simp add: has_flag_def set_flag_def word_ao_dist)

lemma has_flag_clear_same: "\<not> has_flag (clear_flag w f) f"
  by (simp add: has_flag_def clear_flag_def and.assoc)

lemma has_flag_clear_other:
  fixes w f g :: "'a::len word"
  assumes "f AND g = 0"
  shows "has_flag (clear_flag w f) g = has_flag w g"
proof -
  have "NOT f AND g = g"
  proof (rule bit_word_eqI)
    fix n assume "n < LENGTH('a)"
    with assms have "\<not> (bit f n \<and> bit g n)"
      by (metis bit_and_iff bit_0_eq bot_apply bot_bool_def)
    with \<open>n < LENGTH('a)\<close> show "bit (NOT f AND g) n = bit g n"
      by (auto simp: bit_simps)
  qed
  then show ?thesis by (simp add: has_flag_def clear_flag_def and.assoc)
qed

lemma has_flag_zero [simp]: "\<not> has_flag 0 f"
  by (simp add: has_flag_def)

end
