(* ===== verification/Ldp_Addr.thy ===== *)
theory Ldp_Addr
  imports Ldp_Prelude
begin

text \<open>
  The address utilities of \<^verbatim>\<open>util.c\<close>. A \<^verbatim>\<open>struct in_addr\<close> is the \<^verbatim>\<open>uint32_t\<close> it holds, in network
  byte order; a \<^verbatim>\<open>struct in6_addr\<close> is its sixteen bytes; a \<^verbatim>\<open>union ldpd_addr\<close> is the sixteen bytes of
  the union, whose member \<open>v4\<close> is the first four. The macros of \<^verbatim>\<open>netinet/in.h\<close> and
  \<^verbatim>\<open>netinet6/in6.h\<close> that the code uses are defined where they are used. An address family other
  than the two the daemon handles is \<open>AF_UNSPEC\<close>, on which the C switches fall into
  \<^verbatim>\<open>default: fatalx\<close>.
\<close>

section \<open>Addresses\<close>

type_synonym in_addr = u32
type_synonym in6_addr = bytes
type_synonym ldpd_addr = bytes

datatype af = AF_UNSPEC | AF_INET | AF_INET6

definition v4 :: "ldpd_addr \<Rightarrow> in_addr" where
  "v4 a = load32 (a ! 0) (a ! 1) (a ! 2) (a ! 3)"

definition of_v4 :: "in_addr \<Rightarrow> ldpd_addr" where
  "of_v4 s_addr = store32 s_addr @ replicate 12 0"

definition wf_addr :: "ldpd_addr \<Rightarrow> bool" where
  "wf_addr a \<longleftrightarrow> length a = 16"

lemma v4_of_v4 [simp]: "v4 (of_v4 a) = a"
  by (simp add: v4_def of_v4_def store32_def store16_def load32_def)

lemma wf_of_v4 [simp]: "wf_addr (of_v4 a)"
  by (simp add: wf_addr_def of_v4_def)

text \<open>\<^verbatim>\<open>memcmp\<close> of two objects of the same size: the difference of the first bytes that differ.\<close>

fun memcmp :: "bytes \<Rightarrow> bytes \<Rightarrow> int" where
  "memcmp [] [] = 0"
| "memcmp [] (y # ys) = -1"
| "memcmp (x # xs) [] = 1"
| "memcmp (x # xs) (y # ys) = (if x = y then memcmp xs ys else uint x - uint y)"

section \<open>Netmasks and prefix lengths\<close>

text \<open>\<^verbatim>\<open>ffs\<close>: one more than the index of the least significant set bit, 0 if there is none.\<close>

definition ffs :: "u32 \<Rightarrow> nat" where
  "ffs w = (case find (bit w) [0..<32] of None \<Rightarrow> 0 | Some n \<Rightarrow> n + 1)"

definition mask2prefixlen :: "u32 \<Rightarrow> nat" where
  "mask2prefixlen ina = (if ina = 0 then 0 else 33 - ffs (ntohl ina))"

text \<open>The loop over the bytes of a possibly truncated \<^verbatim>\<open>sin6_addr\<close>; \<open>l\<close> is the \<^verbatim>\<open>uint8_t\<close> sum.\<close>

fun mask2prefixlen6 :: "u8 \<Rightarrow> bytes \<Rightarrow> u8 res" where
  "mask2prefixlen6 l [] = Inr l"
| "mask2prefixlen6 l (b # bs) =
     (if b = 0xff then mask2prefixlen6 (l + 8) bs
      else if b = 0xfe then Inr (l + 7)
      else if b = 0xfc then Inr (l + 6)
      else if b = 0xf8 then Inr (l + 5)
      else if b = 0xf0 then Inr (l + 4)
      else if b = 0xe0 then Inr (l + 3)
      else if b = 0xc0 then Inr (l + 2)
      else if b = 0x80 then Inr (l + 1)
      else if b = 0x00 then Inr l
      else Inl (Fatalx ''non contiguous inet6 netmask''))"

definition prefixlen2mask :: "nat \<Rightarrow> u32 res" where
  "prefixlen2mask prefixlen =
     (if prefixlen = 0 then Inr 0
      else if prefixlen > 32 then Inl BadShift
      else Inr (htonl (push_bit (32 - prefixlen) 0xffffffff)))"

definition prefixlen2mask6 :: "nat \<Rightarrow> in6_addr res" where
  "prefixlen2mask6 prefixlen =
     bindE (foldE (\<lambda>mask i. wr8 mask i 0xff) [0..<prefixlen div 8] (replicate 16 0)) (\<lambda>mask.
     let i = prefixlen mod 8 in
     if i \<noteq> 0 then wr8 mask (prefixlen div 8) (ucast (drop_bit i (0xff00 :: u16)))
     else Inr mask)"

definition ldp_applymask :: "af \<Rightarrow> ldpd_addr \<Rightarrow> ldpd_addr \<Rightarrow> nat \<Rightarrow> ldpd_addr res" where
  "ldp_applymask af dest src prefixlen =
     (case af of
        AF_INET \<Rightarrow>
          bindE (prefixlen2mask prefixlen) (\<lambda>m.
          Inr (store32 (v4 src AND m) @ drop 4 dest))
      | AF_INET6 \<Rightarrow>
          bindE (prefixlen2mask6 prefixlen) (\<lambda>mask. Inr (map2 (AND) src mask))
      | AF_UNSPEC \<Rightarrow> Inl (Fatalx ''ldp_applymask: unknown af''))"

section \<open>Comparisons\<close>

definition ldp_addrcmp :: "af \<Rightarrow> ldpd_addr \<Rightarrow> ldpd_addr \<Rightarrow> int res" where
  "ldp_addrcmp af a b =
     (case af of
        AF_INET \<Rightarrow>
          if v4 a = v4 b then Inr 0
          else Inr (if ntohl (v4 a) > ntohl (v4 b) then 1 else -1)
      | AF_INET6 \<Rightarrow> Inr (memcmp a b)
      | AF_UNSPEC \<Rightarrow> Inl (Fatalx ''ldp_addrcmp: unknown af''))"

definition ldp_addrisset :: "af \<Rightarrow> ldpd_addr \<Rightarrow> bool" where
  "ldp_addrisset af addr =
     (case af of
        AF_UNSPEC \<Rightarrow> False
      | AF_INET \<Rightarrow> v4 addr \<noteq> 0
      | AF_INET6 \<Rightarrow> addr \<noteq> replicate 16 0)"

text \<open>The loop over the whole bytes of the prefix, then the last partial byte.\<close>

fun prefixcmp6_bytes :: "bytes \<Rightarrow> bytes \<Rightarrow> nat \<Rightarrow> int" where
  "prefixcmp6_bytes (x # xs) (y # ys) (Suc n) =
     (if x \<noteq> y then uint x - uint y else prefixcmp6_bytes xs ys n)"
| "prefixcmp6_bytes _ _ _ = 0"

definition ldp_prefixcmp :: "af \<Rightarrow> ldpd_addr \<Rightarrow> ldpd_addr \<Rightarrow> nat \<Rightarrow> int res" where
  "ldp_prefixcmp af a b prefixlen =
     (case af of
        AF_INET \<Rightarrow>
          if prefixlen = 0 then Inr 0
          else if prefixlen > 32 then Inl (Fatalx ''ldp_prefixcmp: bad IPv4 prefixlen'')
          else bindE (prefixlen2mask prefixlen) (\<lambda>m.
            let mask = htonl m; aa = htonl (v4 a) AND mask; ba = htonl (v4 b) AND mask
            in Inr (sint (aa - ba)))
      | AF_INET6 \<Rightarrow>
          if prefixlen = 0 then Inr 0
          else if prefixlen > 128 then Inl (Fatalx ''ldp_prefixcmp: bad IPv6 prefixlen'')
          else
            let c = prefixcmp6_bytes a b (prefixlen div 8); i = prefixlen mod 8;
                m = ucast (drop_bit i (0xff00 :: u16)) :: u8
            in if c \<noteq> 0 then Inr c
               else if i \<noteq> 0 \<and> (a ! (prefixlen div 8)) AND m \<noteq> (b ! (prefixlen div 8)) AND m
               then Inr (uint ((a ! (prefixlen div 8)) AND m) - uint ((b ! (prefixlen div 8)) AND m))
               else Inr 0
      | AF_UNSPEC \<Rightarrow> Inl (Fatalx ''ldp_prefixcmp: unknown af''))"

section \<open>Unusable addresses\<close>

definition IN_MULTICAST :: "u32 \<Rightarrow> bool" where
  "IN_MULTICAST a \<longleftrightarrow> a AND 0xf0000000 = 0xe0000000"

definition IN_BADCLASS :: "u32 \<Rightarrow> bool" where
  "IN_BADCLASS a \<longleftrightarrow> a AND 0xf0000000 = 0xf0000000"

definition bad_addr_v4 :: "in_addr \<Rightarrow> bool" where
  "bad_addr_v4 addr =
     (let a = ntohl addr in
      drop_bit 24 a = 0 \<or> drop_bit 24 a = 127 \<or> IN_MULTICAST a \<or> IN_BADCLASS a)"

definition IN6_IS_ADDR_LINKLOCAL :: "in6_addr \<Rightarrow> bool" where
  "IN6_IS_ADDR_LINKLOCAL a \<longleftrightarrow> a ! 0 = 0xfe \<and> a ! 1 AND 0xc0 = 0x80"

definition IN6_IS_ADDR_MULTICAST :: "in6_addr \<Rightarrow> bool" where
  "IN6_IS_ADDR_MULTICAST a \<longleftrightarrow> a ! 0 = 0xff"

definition bad_addr_v6 :: "in6_addr \<Rightarrow> bool" where
  "bad_addr_v6 a \<longleftrightarrow>
     a = replicate 16 0 \<or>
     a = replicate 15 0 @ [1] \<or>
     IN6_IS_ADDR_MULTICAST a \<or>
     (a ! 0 = 0xfe \<and> a ! 1 AND 0xc0 = 0xc0) \<or>
     take 12 a = replicate 10 0 @ [0xff, 0xff] \<or>
     (take 12 a = replicate 12 0 \<and> drop 12 a \<noteq> [0, 0, 0, 0] \<and> drop 12 a \<noteq> [0, 0, 0, 1])"

definition bad_addr :: "af \<Rightarrow> ldpd_addr \<Rightarrow> bool res" where
  "bad_addr af addr =
     (case af of
        AF_INET \<Rightarrow> Inr (bad_addr_v4 (v4 addr))
      | AF_INET6 \<Rightarrow> Inr (bad_addr_v6 addr)
      | AF_UNSPEC \<Rightarrow> Inl (Fatalx ''bad_addr: unknown af''))"

section \<open>Scoped addresses\<close>

record sockaddr_in6 =
  sin6_addr :: in6_addr
  sin6_scope_id :: u32

definition IN6_IS_SCOPE_EMBED :: "in6_addr \<Rightarrow> bool" where
  "IN6_IS_SCOPE_EMBED a \<longleftrightarrow>
     IN6_IS_ADDR_LINKLOCAL a \<or>
     (a ! 0 = 0xff \<and> a ! 1 AND 0x0f = 0x02) \<or>
     (a ! 0 = 0xff \<and> a ! 1 AND 0x0f = 0x01)"

definition embedscope :: "sockaddr_in6 \<Rightarrow> sockaddr_in6" where
  "embedscope sin6 =
     (if IN6_IS_SCOPE_EMBED (sin6_addr sin6) then
        let tmp16 = htons (ucast (sin6_scope_id sin6)) in
        sin6\<lparr>sin6_addr := (sin6_addr sin6)[2 := lo8 tmp16, 3 := hi8 tmp16], sin6_scope_id := 0\<rparr>
      else sin6)"

definition recoverscope :: "sockaddr_in6 \<Rightarrow> sockaddr_in6" where
  "recoverscope sin6 =
     (if IN6_IS_SCOPE_EMBED (sin6_addr sin6) then
        let tmp16 = load16 (sin6_addr sin6 ! 2) (sin6_addr sin6 ! 3) in
        sin6\<lparr>sin6_scope_id := ucast (ntohs tmp16), sin6_addr := (sin6_addr sin6)[2 := 0, 3 := 0]\<rparr>
      else sin6)"

definition addscope :: "sockaddr_in6 \<Rightarrow> u32 \<Rightarrow> sockaddr_in6" where
  "addscope sin6 id' =
     (if IN6_IS_SCOPE_EMBED (sin6_addr sin6) then sin6\<lparr>sin6_scope_id := id'\<rparr> else sin6)"

definition clearscope :: "in6_addr \<Rightarrow> in6_addr" where
  "clearscope in6 = (if IN6_IS_SCOPE_EMBED in6 then in6[2 := 0, 3 := 0] else in6)"

section \<open>Socket addresses\<close>

datatype sockaddr =
    Sockaddr_in in_addr u16
  | Sockaddr_in6 in6_addr u16
  | Sockaddr_other

definition addr2sa :: "af \<Rightarrow> ldpd_addr \<Rightarrow> u16 \<Rightarrow> sockaddr res" where
  "addr2sa af addr port =
     (case af of
        AF_INET \<Rightarrow> Inr (Sockaddr_in (v4 addr) (htons port))
      | AF_INET6 \<Rightarrow> Inr (Sockaddr_in6 addr (htons port))
      | AF_UNSPEC \<Rightarrow> Inl (Fatalx ''addr2sa: unknown af''))"

definition sa2addr :: "sockaddr \<Rightarrow> (af \<times> ldpd_addr) res" where
  "sa2addr sa =
     (case sa of
        Sockaddr_in a _ \<Rightarrow> Inr (AF_INET, of_v4 a)
      | Sockaddr_in6 a _ \<Rightarrow> Inr (AF_INET6, a)
      | Sockaddr_other \<Rightarrow> Inl (Fatalx ''sa2addr: unknown af''))"

section \<open>Lemmas\<close>

lemma wf_addr_cases:
  assumes "wf_addr a"
  obtains b0 b1 b2 b3 r where "a = b0 # b1 # b2 # b3 # r" "length r = 12"
proof -
  from assms have "length a = 16" by (simp add: wf_addr_def)
  then obtain b0 a1 where 1: "a = b0 # a1" "length a1 = 15" by (cases a) auto
  from 1(2) obtain b1 a2 where 2: "a1 = b1 # a2" "length a2 = 14" by (cases a1) auto
  from 2(2) obtain b2 a3 where 3: "a2 = b2 # a3" "length a3 = 13" by (cases a2) auto
  from 3(2) obtain b3 r where 4: "a3 = b3 # r" "length r = 12" by (cases a3) auto
  from 1 2 3 4 that show thesis by blast
qed

lemma v4_store32 [simp]: "v4 (store32 w @ r) = w"
  by (simp add: v4_def store32_def store16_def load32_def)

lemma memcmp_refl [simp]: "memcmp xs xs = 0"
  by (induction xs) simp_all

lemma memcmp_eq_0: "memcmp xs ys = 0 \<longleftrightarrow> xs = ys"
  by (induction xs ys rule: memcmp.induct) (auto simp: word_uint_eq_iff)

lemma memcmp_antisym: "0 < memcmp xs ys \<longleftrightarrow> memcmp ys xs < 0"
  by (induction xs ys rule: memcmp.induct) auto

lemma memcmp_trans: "memcmp xs ys < 0 \<Longrightarrow> memcmp ys zs < 0 \<Longrightarrow> memcmp xs zs < 0"
proof (induction xs ys arbitrary: zs rule: memcmp.induct)
  case (4 x xs y ys)
  then show ?case by (cases zs) (auto split: if_splits)
next
  case (2 y ys)
  then show ?case by (cases zs) auto
qed simp_all

lemma ntohs_and: "ntohs (v AND w) = ntohs v AND ntohs w"
  unfolding ntohs_def load16_def hi8_def lo8_def
  by (rule bit_word_eqI) (auto simp: bit_simps)

lemma ntohl_and: "ntohl (v AND w) = ntohl v AND ntohl w"
proof -
  have "lo16 (v AND w) = lo16 v AND lo16 w" "hi16 (v AND w) = hi16 v AND hi16 w"
    unfolding lo16_def hi16_def by (rule bit_word_eqI, auto simp: bit_simps)+
  moreover have "join32 (a AND c) (b AND d) = join32 a b AND join32 c d" for a b c d
    unfolding join32_def by (rule bit_word_eqI) (auto simp: bit_simps dest: bit_imp_le_length)
  ultimately show ?thesis by (simp add: ntohl_def ntohs_and)
qed

lemma ldp_addrcmp_eq_0:
  "af \<noteq> AF_UNSPEC \<Longrightarrow>
   \<exists>c. ldp_addrcmp af a b = Inr c \<and> (c = 0 \<longleftrightarrow> (if af = AF_INET then v4 a = v4 b else a = b))"
  by (cases af) (auto simp: ldp_addrcmp_def memcmp_eq_0)

lemma ldp_addrcmp_refl: "af \<noteq> AF_UNSPEC \<Longrightarrow> ldp_addrcmp af a a = Inr 0"
  by (cases af) (auto simp: ldp_addrcmp_def)

subsection \<open>The IPv6 mask\<close>

definition mask6_byte :: "nat \<Rightarrow> nat \<Rightarrow> u8" where
  "mask6_byte p i =
     (if i < p div 8 then 0xff
      else if i = p div 8 \<and> p mod 8 \<noteq> 0 then ucast (drop_bit (p mod 8) (0xff00 :: u16)) else 0)"

lemma foldE_wr8_ones:
  "n \<le> length m \<Longrightarrow>
   foldE (\<lambda>mask i. wr8 mask i 0xff) [0..<n] m = Inr (replicate n 0xff @ drop n m)"
proof (induction n)
  case 0
  then show ?case by simp
next
  case (Suc n)
  then have "foldE (\<lambda>mask i. wr8 mask i 0xff) [0..<n] m = Inr (replicate n 0xff @ drop n m)"
    by simp
  moreover have "(replicate n 0xff @ drop n m)[n := 0xff] = replicate (Suc n) 0xff @ drop (Suc n) m"
    using Suc.prems by (simp add: list_update_append replicate_append_same [symmetric]
        Cons_nth_drop_Suc [symmetric] del: replicate_append_same)
  ultimately show ?case using Suc.prems by (simp add: foldE_append wr8_def)
qed

lemma prefixlen2mask6_eq:
  assumes "p \<le> 128"
  shows "prefixlen2mask6 p = Inr (map (mask6_byte p) [0..<16])"
proof -
  have n: "p div 8 \<le> 16" using assms by simp
  let ?m = "replicate (p div 8) 0xff @ replicate (16 - p div 8) (0 :: u8)"
  have loop: "foldE (\<lambda>mask i. wr8 mask i 0xff) [0..<p div 8] (replicate 16 0) = Inr ?m"
    using foldE_wr8_ones [of "p div 8" "replicate 16 0"] n by simp
  show ?thesis
  proof (cases "p mod 8 = 0")
    case True
    have "?m = map (mask6_byte p) [0..<16]"
      using n True by (intro nth_equalityI) (auto simp: nth_append mask6_byte_def)
    with loop True show ?thesis by (simp add: prefixlen2mask6_def)
  next
    case False
    with assms have lt: "p div 8 < 16" by presburger
    have "?m[p div 8 := ucast (drop_bit (p mod 8) (0xff00 :: u16))] = map (mask6_byte p) [0..<16]"
      using lt False by (intro nth_equalityI) (auto simp: nth_append nth_list_update mask6_byte_def)
    with loop False lt show ?thesis by (simp add: prefixlen2mask6_def wr8_def Let_def)
  qed
qed

lemma foldE_wr8_overflow:
  "length m < n \<Longrightarrow> foldE (\<lambda>mask i. wr8 mask i 0xff) [0..<n] m = Inl OutOfBounds"
proof -
  assume lt: "length m < n"
  then have "[0..<n] = [0..<length m] @ length m # [Suc (length m)..<n]"
    by (metis append_Cons append_Nil le0 less_imp_le_nat upt_add_eq_append upt_conv_Cons
        le_add_diff_inverse)
  moreover have "wr8 (replicate (length m) 0xff) (length m) 0xff = Inl OutOfBounds"
    by (simp add: wr8_def)
  ultimately show ?thesis by (simp add: foldE_append foldE_wr8_ones)
qed

lemma prefixlen2mask6_overflow:
  assumes "p > 128"
  shows "prefixlen2mask6 p = Inl OutOfBounds"
proof (cases "p div 8 = 16")
  case True
  then have "p mod 8 \<noteq> 0" using assms by presburger
  moreover have "foldE (\<lambda>mask i. wr8 mask i 0xff) [0..<16] (replicate 16 (0::u8)) =
      Inr (replicate 16 0xff)"
    using foldE_wr8_ones [of 16 "replicate 16 0"] by simp
  ultimately show ?thesis using True by (simp add: prefixlen2mask6_def wr8_def Let_def)
next
  case False
  with assms have "16 < p div 8" by presburger
  then show ?thesis
    using foldE_wr8_overflow [of "replicate 16 0" "p div 8"] by (simp add: prefixlen2mask6_def)
qed

subsection \<open>Properties\<close>

lemma ffs_eq:
  assumes "n < 32" "bit w n" "\<And>k. k < n \<Longrightarrow> \<not> bit w k"
  shows "ffs w = n + 1"
proof -
  have "find (bit w) [0..<32] = Some n"
    using assms by (auto simp: find_Some_iff intro!: exI [of _ n])
  then show ?thesis by (simp add: ffs_def)
qed

lemma mask2prefixlen_mask:
  assumes "0 < p" "p \<le> 32"
  shows "mask2prefixlen (ntohl (push_bit (32 - p) 0xffffffff)) = p"
proof -
  let ?w = "push_bit (32 - p) (0xffffffff :: u32)"
  have w: "?w = push_bit (32 - p) (mask 32)" by (simp add: mask_eq_exp_minus_1)
  have b: "bit ?w k \<longleftrightarrow> 32 - p \<le> k \<and> k < 32" for k
    unfolding w by (auto simp: bit_push_bit_iff bit_mask_iff)
  have "ffs ?w = (32 - p) + 1"
    using assms by (intro ffs_eq) (auto simp: b)
  moreover have "?w \<noteq> 0"
  proof
    assume "?w = 0"
    then show False using b [of "32 - p"] assms by simp
  qed
  moreover have "ntohl ?w = 0 \<longleftrightarrow> ?w = 0"
  proof -
    have "ntohl 0 = (0 :: u32)" by (simp add: byte_order_defs)
    then show ?thesis by (metis ntohl_inject)
  qed
  ultimately show ?thesis using assms by (simp add: mask2prefixlen_def)
qed

text \<open>
  For every IPv4 prefix length, the mask that \<^verbatim>\<open>prefixlen2mask\<close> builds is the one
  \<^verbatim>\<open>mask2prefixlen\<close> maps back to that length; a length above 32 is a shift by a negative amount.
\<close>

lemma prefixlen_mask_roundtrip:
  "(if p \<le> 32 then \<exists>m. prefixlen2mask p = Inr m \<and> mask2prefixlen m = p
    else prefixlen2mask p = Inl BadShift)"
proof (cases "p = 0 \<or> 32 < p")
  case True
  then show ?thesis by (auto simp: prefixlen2mask_def mask2prefixlen_def)
next
  case False
  then have "mask2prefixlen (ntohl (push_bit (32 - p) 0xffffffff)) = p"
    by (intro mask2prefixlen_mask) simp_all
  with False show ?thesis by (simp add: prefixlen2mask_def)
qed

lemma mask6_all_lengths:
  "list_all (\<lambda>p. mask2prefixlen6 0 (map (mask6_byte p) [0..<16]) = Inr (of_nat p)) [0..<129]"
  by code_simp

text \<open>
  for every IPv6 prefix length up to 128, \<^verbatim>\<open>prefixlen2mask6\<close> stays inside the sixteen bytes of
  its mask and \<^verbatim>\<open>mask2prefixlen6\<close> reads the length back; every larger length writes past the mask.
\<close>

theorem prefixlen_mask6_roundtrip:
  "(if p \<le> 128 then \<exists>m. prefixlen2mask6 p = Inr m \<and> mask2prefixlen6 0 m = Inr (of_nat p)
    else prefixlen2mask6 p = Inl OutOfBounds)"
proof (cases "p \<le> 128")
  case True
  then have "p \<in> set [0..<129]" by simp
  with mask6_all_lengths have "mask2prefixlen6 0 (map (mask6_byte p) [0..<16]) = Inr (of_nat p)"
    unfolding list_all_iff by blast
  with True show ?thesis by (simp add: prefixlen2mask6_eq)
next
  case False
  then show ?thesis by (simp add: prefixlen2mask6_overflow)
qed

lemma prefixcmp6_bytes_eq_0:
  "n \<le> length xs \<Longrightarrow> length xs = length ys \<Longrightarrow>
   prefixcmp6_bytes xs ys n = 0 \<longleftrightarrow> take n xs = take n ys"
  by (induction xs ys n rule: prefixcmp6_bytes.induct) (auto simp: word_uint_eq_iff)

lemma masked6_eq_iff:
  assumes "length a = 16" "length b = 16" "p \<le> 128"
  shows "map2 (AND) a (map (mask6_byte p) [0..<16]) = map2 (AND) b (map (mask6_byte p) [0..<16]) \<longleftrightarrow>
    take (p div 8) a = take (p div 8) b \<and>
    (p mod 8 \<noteq> 0 \<longrightarrow> a ! (p div 8) AND mask6_byte p (p div 8) = b ! (p div 8) AND mask6_byte p (p div 8))"
    (is "?l \<longleftrightarrow> ?r")
proof -
  let ?n = "p div 8"
  have n: "?n \<le> 16" "p mod 8 \<noteq> 0 \<Longrightarrow> ?n < 16" using assms(3) by presburger+
  have full: "mask6_byte p i = - 1" if "i < ?n" for i
    using that by (simp add: mask6_byte_def)
  have zero: "mask6_byte p i = 0" if "?n \<le> i" "\<not> (i = ?n \<and> p mod 8 \<noteq> 0)" for i
    using that by (auto simp: mask6_byte_def)
  have "?l \<longleftrightarrow> (\<forall>i<16. a ! i AND mask6_byte p i = b ! i AND mask6_byte p i)"
    using assms by (simp add: list_eq_iff_nth_eq)
  also have "\<dots> \<longleftrightarrow> (\<forall>i<?n. a ! i = b ! i) \<and>
      (p mod 8 \<noteq> 0 \<longrightarrow> a ! ?n AND mask6_byte p ?n = b ! ?n AND mask6_byte p ?n)"
  proof
    assume h: "\<forall>i<16. a ! i AND mask6_byte p i = b ! i AND mask6_byte p i"
    have "a ! i = b ! i" if "i < ?n" for i
      using h [rule_format, of i] full [OF that] n(1) that by simp
    with h n(2) show "(\<forall>i<?n. a ! i = b ! i) \<and>
        (p mod 8 \<noteq> 0 \<longrightarrow> a ! ?n AND mask6_byte p ?n = b ! ?n AND mask6_byte p ?n)"
      by blast
  next
    assume h: "(\<forall>i<?n. a ! i = b ! i) \<and>
        (p mod 8 \<noteq> 0 \<longrightarrow> a ! ?n AND mask6_byte p ?n = b ! ?n AND mask6_byte p ?n)"
    show "\<forall>i<16. a ! i AND mask6_byte p i = b ! i AND mask6_byte p i"
    proof (intro allI impI)
      fix i :: nat
      show "a ! i AND mask6_byte p i = b ! i AND mask6_byte p i"
        using h zero [of i] by (cases "i < ?n"; cases "i = ?n \<and> p mod 8 \<noteq> 0") auto
    qed
  qed
  also have "(\<forall>i<?n. a ! i = b ! i) \<longleftrightarrow> take ?n a = take ?n b"
    using assms n by (simp add: list_eq_iff_nth_eq)
  finally show ?thesis .
qed

text \<open>
  C33: \<^verbatim>\<open>ldp_prefixcmp\<close>, which compares two addresses without building a mask, finds them equal
  exactly when \<^verbatim>\<open>ldp_applymask\<close> maps both to the same network address.
\<close>

theorem ldp_prefixcmp_iff_applymask:
  assumes "wf_addr a" "wf_addr b"
    and "af = AF_INET \<and> p \<le> 32 \<or> af = AF_INET6 \<and> p \<le> 128"
  shows "\<exists>c ma mb. ldp_prefixcmp af a b p = Inr c \<and>
    ldp_applymask af a a p = Inr ma \<and> ldp_applymask af b b p = Inr mb \<and>
    (c = 0 \<longleftrightarrow> ldp_addrcmp af ma mb = Inr 0)"
  using assms(3)
proof
  assume v4: "af = AF_INET \<and> p \<le> 32"
  show ?thesis
  proof (cases "p = 0")
    case True
    with v4 show ?thesis by (simp add: ldp_prefixcmp_def ldp_applymask_def prefixlen2mask_def
          ldp_addrcmp_def)
  next
    case False
    with v4 obtain m where m: "prefixlen2mask p = Inr m" by (simp add: prefixlen2mask_def)
    have "sint ((ntohl x AND ntohl m) - (ntohl y AND ntohl m)) = 0 \<longleftrightarrow> x AND m = y AND m" for x y
      by (simp add: signed_eq_0_iff flip: ntohl_and)
    with v4 False m show ?thesis
      by (simp add: ldp_prefixcmp_def ldp_applymask_def ldp_addrcmp_def Let_def)
  qed
next
  assume v6: "af = AF_INET6 \<and> p \<le> 128"
  from assms have len: "length a = 16" "length b = 16" by (simp_all add: wf_addr_def)
  have byte: "mask6_byte p (p div 8) = ucast (drop_bit (p mod 8) (0xff00 :: u16))" if "p mod 8 \<noteq> 0"
    using that by (simp add: mask6_byte_def)
  from v6 have "p \<le> 128" by simp
  then have n: "p div 8 \<le> 16" by presburger
  show ?thesis
    using v6 len n byte
    by (auto simp: ldp_prefixcmp_def ldp_applymask_def ldp_addrcmp_def prefixlen2mask6_eq Let_def
        memcmp_eq_0 masked6_eq_iff prefixcmp6_bytes_eq_0 word_uint_eq_iff [symmetric])
qed

theorem ldp_prefixcmp_iff_applymask_witness:
  "\<exists>c ma mb.
     ldp_prefixcmp AF_INET6 (0x20 # 0x01 # replicate 14 7) (0x20 # 0x01 # replicate 14 6) 23 = Inr c \<and>
     ldp_applymask AF_INET6 (0x20 # 0x01 # replicate 14 7) (0x20 # 0x01 # replicate 14 7) 23 = Inr ma \<and>
     ldp_applymask AF_INET6 (0x20 # 0x01 # replicate 14 6) (0x20 # 0x01 # replicate 14 6) 23 = Inr mb \<and>
     (c = 0 \<longleftrightarrow> ldp_addrcmp AF_INET6 ma mb = Inr 0)"
  by (rule ldp_prefixcmp_iff_applymask) (simp_all add: wf_addr_def)

lemma v4_top_nibble: "(a :: u32) AND 0xf0000000 = push_bit 28 (drop_bit 28 a)"
proof -
  have "(0xf0000000 :: u32) = push_bit 28 (mask 4)" by (simp add: mask_eq_exp_minus_1 push_bit_eq_mult)
  moreover have "a AND push_bit 28 (mask 4) = push_bit 28 (drop_bit 28 a)"
    by (rule bit_word_eqI) (auto simp: bit_simps)
  ultimately show ?thesis by (simp only:)
qed

lemma push_bit_28_inj:
  fixes x y :: u32
  assumes "unat x < 16" "unat y < 16"
  shows "push_bit 28 x = push_bit 28 y \<longleftrightarrow> x = y"
proof
  assume "push_bit 28 x = push_bit 28 y"
  then have "unat (push_bit 28 x) = unat (push_bit 28 y)" by simp
  then show "x = y"
    using assms by (simp add: push_bit_eq_mult unat_word_ariths word_unat_eq_iff)
qed simp

text \<open>
  \<^verbatim>\<open>bad_addr_v4\<close> accepts exactly the addresses whose first octet is 1 to 126 or 128 to 223: it
  refuses this-network, loopback, multicast and reserved addresses.
\<close>

lemma bad_addr_v4_octet:
  "bad_addr_v4 addr \<longleftrightarrow>
     (let octet = unat (ntohl addr) div 2 ^ 24 in octet = 0 \<or> octet = 127 \<or> 224 \<le> octet)"
proof -
  let ?a = "ntohl addr"
  let ?o = "unat ?a div 2 ^ 24"
  have lt: "unat ?a < 2 ^ 32" using unsigned_less [of ?a, where ?'a = nat] by simp
  have u24: "unat (drop_bit 24 ?a) = ?o"
    by (simp only: unat_drop_bit_eq) (simp add: drop_bit_eq_div)
  have o: "drop_bit 24 ?a = of_nat n \<longleftrightarrow> ?o = n" if "n < 256" for n
    using that by (simp add: word_unat_eq_iff u24 unat_of_nat)
  have u28: "unat (drop_bit 28 ?a) = unat ?a div 2 ^ 28"
    by (simp only: unat_drop_bit_eq) (simp add: drop_bit_eq_div)
  have nib: "?a AND 0xf0000000 = push_bit 28 y \<longleftrightarrow> unat ?a div 2 ^ 28 = unat y" if "unat y < 16" for y
    unfolding v4_top_nibble
    using lt that by (subst push_bit_28_inj) (auto simp: u28 word_unat_eq_iff)
  have "(0xe0000000 :: u32) = push_bit 28 14" "(0xf0000000 :: u32) = push_bit 28 15"
    by (simp_all add: push_bit_eq_mult)
  then have "IN_MULTICAST ?a \<longleftrightarrow> unat ?a div 2 ^ 28 = 14" "IN_BADCLASS ?a \<longleftrightarrow> unat ?a div 2 ^ 28 = 15"
    using nib [of 14] nib [of 15] by (simp_all only: IN_MULTICAST_def IN_BADCLASS_def) simp_all
  moreover have "unat ?a div 2 ^ 28 = ?o div 16" by (simp add: div_mult2_eq [symmetric])
  ultimately show ?thesis
    using o [of 0] o [of 127] lt by (auto simp: bad_addr_v4_def Let_def)
qed

text \<open>
  \<^verbatim>\<open>recoverscope\<close> undoes \<^verbatim>\<open>embedscope\<close> on every scoped address whose scope id fits the sixteen
  bits the address has for it and whose scope bytes were clear.
\<close>

lemma embedscope_roundtrip:
  assumes "length (sin6_addr s) = 16" "sin6_addr s ! 2 = 0" "sin6_addr s ! 3 = 0"
    and "IN6_IS_SCOPE_EMBED (sin6_addr s)" "unat (sin6_scope_id s) < 65536"
  shows "recoverscope (embedscope s) = s"
proof -
  have scope: "ucast (ucast (sin6_scope_id s) :: u16) = sin6_scope_id s"
    using assms(5) by (simp add: word_unat_eq_iff unsigned_ucast_eq unsigned_take_bit_eq take_bit_nat_eq_self)
  have upd: "(sin6_addr s)[2 := 0, 3 := 0] = sin6_addr s"
    using assms(2,3) by (metis list_update_id)
  have emb: "IN6_IS_SCOPE_EMBED ((sin6_addr s)[2 := x, 3 := y])" for x y
    using assms(4) by (simp add: IN6_IS_SCOPE_EMBED_def IN6_IS_ADDR_LINKLOCAL_def)
  have w: "(sin6_addr s)[2 := x, 3 := y, 2 := 0, 3 := 0] = sin6_addr s" for x y
    using upd by (metis list_update_overwrite list_update_swap numeral_eq_iff semiring_norm(89,90))
  show ?thesis
    using assms(1,4) emb scope w
    by (simp add: embedscope_def recoverscope_def Let_def nth_list_update)
qed

end
