(* ===== verification/Rb_Tree.thy ===== *)
theory Rb_Tree
  imports Ldp_Prelude
begin

text \<open>
  The red-black trees of \<^verbatim>\<open>sys/tree.h\<close>, as the daemon uses them: \<^verbatim>\<open>RB_FIND\<close>, \<^verbatim>\<open>RB_INSERT\<close> (which
  leaves the tree alone and reports the element already there), \<^verbatim>\<open>RB_REMOVE\<close> and \<^verbatim>\<open>RB_FOREACH\<close> in
  key order. An element is stored with its key, so a change made through a pointer to an element
  of the tree is \<open>rb_update\<close>. The interface \<open>rb_tree\<close> states what its clients rely on; it is
  interpreted on the red-black trees of \<open>HOL-Library.RBT\<close>.
\<close>

definition rb_find :: "('k::linorder, 'v) rbt \<Rightarrow> 'k \<Rightarrow> 'v option" where
  "rb_find t k = RBT.lookup t k"

definition rb_insert :: "('k::linorder, 'v) rbt \<Rightarrow> 'k \<Rightarrow> 'v \<Rightarrow> ('k, 'v) rbt \<times> 'v option" where
  "rb_insert t k v =
     (case RBT.lookup t k of Some old \<Rightarrow> (t, Some old) | None \<Rightarrow> (RBT.insert k v t, None))"

definition rb_remove :: "('k::linorder, 'v) rbt \<Rightarrow> 'k \<Rightarrow> ('k, 'v) rbt" where
  "rb_remove t k = RBT.delete k t"

definition rb_update :: "('k::linorder, 'v) rbt \<Rightarrow> 'k \<Rightarrow> ('v \<Rightarrow> 'v) \<Rightarrow> ('k, 'v) rbt" where
  "rb_update t k f = (case RBT.lookup t k of None \<Rightarrow> t | Some v \<Rightarrow> RBT.insert k (f v) t)"

definition rb_keys :: "('k::linorder, 'v) rbt \<Rightarrow> 'k list" where
  "rb_keys t = RBT.keys t"

abbreviation rb_init :: "('k::linorder, 'v) rbt" where
  "rb_init \<equiv> RBT.empty"

section \<open>The interface\<close>

locale rb_tree =
  fixes find :: "'t \<Rightarrow> 'k::linorder \<Rightarrow> 'v option"
    and ins :: "'t \<Rightarrow> 'k \<Rightarrow> 'v \<Rightarrow> 't \<times> 'v option"
    and remove :: "'t \<Rightarrow> 'k \<Rightarrow> 't"
    and update :: "'t \<Rightarrow> 'k \<Rightarrow> ('v \<Rightarrow> 'v) \<Rightarrow> 't"
    and keys :: "'t \<Rightarrow> 'k list"
    and init :: 't
  assumes find_init: "find init k = None"
    and find_ins: "find (fst (ins t k v)) x =
      (if x = k \<and> find t k = None then Some v else find t x)"
    and snd_ins: "snd (ins t k v) = find t k"
    and find_remove: "find (remove t k) x = (if x = k then None else find t x)"
    and find_update: "find (update t k f) x =
      (if x = k then map_option f (find t k) else find t x)"
    and set_keys: "set (keys t) = {k. find t k \<noteq> None}"
    and keys_ordered: "sorted (keys t) \<and> distinct (keys t)"
begin

text \<open>The loop \<^verbatim>\<open>while ((x = RB_ROOT(t)) != NULL) RB_REMOVE(t, x)\<close> removes every element.\<close>

lemma find_foldl_remove:
  "find (foldl remove t ks) x = (if x \<in> set ks then None else find t x)"
  by (induction ks arbitrary: t) (auto simp: find_remove)

lemma find_clear: "find (foldl remove t (keys t)) x = None"
  using set_keys [of t] by (cases "find t x") (auto simp: find_foldl_remove)

lemma keys_clear: "keys (foldl remove t (keys t)) = []"
  using set_keys [of "foldl remove t (keys t)"] by (simp add: find_clear)

lemma in_keys_iff: "k \<in> set (keys t) \<longleftrightarrow> find t k \<noteq> None"
  by (simp add: set_keys)

lemma find_ins_same: "find (fst (ins t k v)) k = Some (case find t k of None \<Rightarrow> v | Some w \<Rightarrow> w)"
  by (cases "find t k") (simp_all add: find_ins)

lemma remove_ins: "find t k = None \<Longrightarrow> find (remove (fst (ins t k v)) k) x = find t x"
  by (auto simp: find_ins find_remove)

lemma keys_ins: "set (keys (fst (ins t k v))) = insert k (set (keys t))"
  by (auto simp: set_keys find_ins)

lemma keys_remove: "set (keys (remove t k)) = set (keys t) - {k}"
  by (auto simp: set_keys find_remove)

lemma keys_update: "set (keys (update t k f)) = set (keys t)"
  by (auto simp: set_keys find_update)

end

interpretation rb: rb_tree rb_find rb_insert rb_remove rb_update rb_keys rb_init
proof unfold_locales
  fix t :: "('a::linorder, 'b) rbt" and k x :: 'a and v :: 'b and f :: "'b \<Rightarrow> 'b"
  show "rb_find RBT.empty k = None" by (simp add: rb_find_def)
  show "rb_find (fst (rb_insert t k v)) x = (if x = k \<and> rb_find t k = None then Some v else rb_find t x)"
    by (simp add: rb_find_def rb_insert_def split: option.split)
  show "snd (rb_insert t k v) = rb_find t k"
    by (simp add: rb_find_def rb_insert_def split: option.split)
  show "rb_find (rb_remove t k) x = (if x = k then None else rb_find t x)"
    by (simp add: rb_find_def rb_remove_def)
  show "rb_find (rb_update t k f) x = (if x = k then map_option f (rb_find t k) else rb_find t x)"
    by (simp add: rb_find_def rb_update_def split: option.split)
  show "set (rb_keys t) = {k. rb_find t k \<noteq> None}"
    by (simp add: rb_keys_def rb_find_def lookup_keys [symmetric] dom_def)
  show "sorted (rb_keys t) \<and> distinct (rb_keys t)"
    by (simp add: rb_keys_def)
qed

lemmas rb_simps [simp] =
  rb.find_init rb.find_ins rb.snd_ins rb.find_remove rb.find_update rb.in_keys_iff

end
