(* ===== verification/Ldp_Fec.thy ===== *)
theory Ldp_Fec
  imports Ldp_Addr Rb_Tree
begin

text \<open>
  Forwarding equivalence classes (\<^verbatim>\<open>struct fec\<close> of \<^verbatim>\<open>lde.h\<close>), their order \<^verbatim>\<open>fec_compare\<close> and the trees
  of \<^verbatim>\<open>lde_lib.c\<close> keyed by it; the messages between the engines (\<^verbatim>\<open>struct map\<close> and
  \<^verbatim>\<open>struct notify_msg\<close> of \<^verbatim>\<open>ldpd.h\<close>); and the conversions \<^verbatim>\<open>lde_fec2map\<close> and \<^verbatim>\<open>lde_map2fec\<close> of
  \<^verbatim>\<open>lde.c\<close>. The two members of the union in \<^verbatim>\<open>struct map\<close> are separate fields here: every access
  in the sources selects the member by \<^verbatim>\<open>map.type\<close>.
\<close>

section \<open>Constants\<close>

definition NO_LABEL :: u32 where [const_defs]: "NO_LABEL = 0xffffffff"
definition MPLS_LABEL_IPV4NULL :: u32 where [const_defs]: "MPLS_LABEL_IPV4NULL = 0"
definition MPLS_LABEL_IPV6NULL :: u32 where [const_defs]: "MPLS_LABEL_IPV6NULL = 2"
definition MPLS_LABEL_IMPLNULL :: u32 where [const_defs]: "MPLS_LABEL_IMPLNULL = 3"
definition MPLS_LABEL_RESERVED_MAX :: u32 where [const_defs]: "MPLS_LABEL_RESERVED_MAX = 15"
definition MPLS_LABEL_MAX :: u32 where [const_defs]: "MPLS_LABEL_MAX = 0xfffff"

definition MAP_TYPE_WILDCARD :: u8 where [const_defs]: "MAP_TYPE_WILDCARD = 0x01"
definition MAP_TYPE_PREFIX :: u8 where [const_defs]: "MAP_TYPE_PREFIX = 0x02"
definition MAP_TYPE_PWID :: u8 where [const_defs]: "MAP_TYPE_PWID = 0x80"
definition MAP_TYPE_GENPWID :: u8 where [const_defs]: "MAP_TYPE_GENPWID = 0x81"

definition F_MAP_REQ_ID :: u8 where [const_defs]: "F_MAP_REQ_ID = 0x01"
definition F_MAP_STATUS :: u8 where [const_defs]: "F_MAP_STATUS = 0x02"
definition F_MAP_PW_CWORD :: u8 where [const_defs]: "F_MAP_PW_CWORD = 0x04"
definition F_MAP_PW_ID :: u8 where [const_defs]: "F_MAP_PW_ID = 0x08"
definition F_MAP_PW_IFMTU :: u8 where [const_defs]: "F_MAP_PW_IFMTU = 0x10"
definition F_MAP_PW_STATUS :: u8 where [const_defs]: "F_MAP_PW_STATUS = 0x20"

definition F_NOTIF_PW_STATUS :: u8 where [const_defs]: "F_NOTIF_PW_STATUS = 0x01"
definition F_NOTIF_FEC :: u8 where [const_defs]: "F_NOTIF_FEC = 0x02"

section \<open>Classes and their order\<close>

datatype fec =
    FEC_IPV4 in_addr u8          \<comment> \<open>prefix, prefixlen\<close>
  | FEC_IPV6 in6_addr u8         \<comment> \<open>prefix, prefixlen\<close>
  | FEC_PWID u16 u32 in_addr     \<comment> \<open>type, pwid, lsr-id\<close>

datatype fec_type = FEC_TYPE_IPV4 | FEC_TYPE_IPV6 | FEC_TYPE_PWID

fun fec_get_type :: "fec \<Rightarrow> fec_type" where
  "fec_get_type (FEC_IPV4 _ _) = FEC_TYPE_IPV4"
| "fec_get_type (FEC_IPV6 _ _) = FEC_TYPE_IPV6"
| "fec_get_type (FEC_PWID _ _ _) = FEC_TYPE_PWID"

fun fec_type_num :: "fec_type \<Rightarrow> int" where
  "fec_type_num FEC_TYPE_IPV4 = 0"
| "fec_type_num FEC_TYPE_IPV6 = 1"
| "fec_type_num FEC_TYPE_PWID = 2"

definition fec_compare :: "fec \<Rightarrow> fec \<Rightarrow> int" where
  "fec_compare a b =
     (if fec_type_num (fec_get_type a) < fec_type_num (fec_get_type b) then -1
      else if fec_type_num (fec_get_type a) > fec_type_num (fec_get_type b) then 1
      else (case (a, b) of
        (FEC_IPV4 pa la, FEC_IPV4 pb lb) \<Rightarrow>
          if ntohl pa < ntohl pb then -1
          else if ntohl pa > ntohl pb then 1
          else if la < lb then -1
          else if la > lb then 1
          else 0
      | (FEC_IPV6 pa la, FEC_IPV6 pb lb) \<Rightarrow>
          if memcmp pa pb < 0 then -1
          else if memcmp pa pb > 0 then 1
          else if la < lb then -1
          else if la > lb then 1
          else 0
      | (FEC_PWID ta ia ra, FEC_PWID tb ib rb) \<Rightarrow>
          if ta < tb then -1
          else if ta > tb then 1
          else if ia < ib then -1
          else if ia > ib then 1
          else if ntohl ra < ntohl rb then -1
          else if ntohl ra > ntohl rb then 1
          else 0
      | _ \<Rightarrow> -1))"

lemma fec_compare_eq_0: "fec_compare a b = 0 \<longleftrightarrow> a = b"
  by (cases a; cases b) (auto simp: fec_compare_def memcmp_eq_0)

lemma fec_compare_antisym: "0 < fec_compare a b \<longleftrightarrow> fec_compare b a < 0"
  by (cases a; cases b) (auto simp: fec_compare_def memcmp_antisym not_less_iff_gr_or_eq memcmp_eq_0)

lemma fec_compare_trans:
  "fec_compare a b < 0 \<Longrightarrow> fec_compare b c < 0 \<Longrightarrow> fec_compare a c < 0"
  by (cases a; cases b; cases c)
    (auto simp: fec_compare_def memcmp_antisym not_less_iff_gr_or_eq memcmp_eq_0
      dest: memcmp_trans split: if_splits)

instantiation fec :: linorder
begin

definition less_eq_fec :: "fec \<Rightarrow> fec \<Rightarrow> bool" where
  "less_eq_fec a b \<longleftrightarrow> fec_compare a b \<le> 0"

definition less_fec :: "fec \<Rightarrow> fec \<Rightarrow> bool" where
  "less_fec a b \<longleftrightarrow> fec_compare a b < 0"

instance
proof
  fix x y z :: fec
  show "x < y \<longleftrightarrow> x \<le> y \<and> \<not> y \<le> x"
    using fec_compare_antisym [of y x] fec_compare_antisym [of x y]
    by (auto simp: less_eq_fec_def less_fec_def)
  show "x \<le> x" by (simp add: less_eq_fec_def fec_compare_eq_0 [THEN iffD2])
  show "x \<le> y \<Longrightarrow> y \<le> z \<Longrightarrow> x \<le> z"
    using fec_compare_trans [of x y z] fec_compare_eq_0 [of x y] fec_compare_eq_0 [of y z]
    by (auto simp: less_eq_fec_def le_less)
  show "x \<le> y \<Longrightarrow> y \<le> x \<Longrightarrow> x = y"
    using fec_compare_antisym [of x y] fec_compare_eq_0 [of x y] fec_compare_antisym [of y x]
    by (auto simp: less_eq_fec_def le_less)
  show "x \<le> y \<or> y \<le> x"
    using fec_compare_antisym [of x y] by (auto simp: less_eq_fec_def not_le)
qed

end

section \<open>Trees of classes\<close>

text \<open>
  The functions of \<^verbatim>\<open>lde_lib.c\<close> on a \<^verbatim>\<open>struct fec_tree\<close>. \<open>fec_insert\<close> and \<open>fec_remove\<close> return the
  new tree with the C result.
\<close>

type_synonym 'v fec_tree = "(fec, 'v) rbt"

definition fec_init :: "'v fec_tree" where
  "fec_init = rb_init"

definition fec_find :: "'v fec_tree \<Rightarrow> fec \<Rightarrow> 'v option" where
  "fec_find fh f = rb_find fh f"

definition fec_insert :: "'v fec_tree \<Rightarrow> fec \<Rightarrow> 'v \<Rightarrow> 'v fec_tree \<times> int" where
  "fec_insert fh f v =
     (let (fh', old) = rb_insert fh f v in (fh', if old \<noteq> None then -1 else 0))"

definition fec_remove :: "'v fec_tree \<Rightarrow> fec \<Rightarrow> 'v fec_tree \<times> int" where
  "fec_remove fh f =
     (if rb_find fh f = None then (fh, -1) else (rb_remove fh f, 0))"

text \<open>\<open>fec_clear\<close> removes the elements one by one; \<open>free_cb\<close> acts on the rest of the state.\<close>

definition fec_clear :: "'v fec_tree \<Rightarrow> (fec \<Rightarrow> 's \<Rightarrow> 's) \<Rightarrow> 's \<Rightarrow> 'v fec_tree \<times> 's" where
  "fec_clear fh free_cb s =
     foldl (\<lambda>(t, s) f. (fst (fec_remove t f), free_cb f s)) (fh, s) (rb_keys fh)"

lemma fec_find_simps [simp]:
  "fec_find fec_init f = None"
  "fec_find (fst (fec_insert t k v)) f =
     (if f = k \<and> fec_find t k = None then Some v else fec_find t f)"
  "fec_find (fst (fec_remove t k)) f = (if f = k then None else fec_find t f)"
  by (simp_all add: fec_init_def fec_find_def fec_insert_def fec_remove_def split_beta Let_def)

lemma fec_insert_code: "snd (fec_insert t k v) = (if fec_find t k = None then 0 else -1)"
  by (simp add: fec_insert_def fec_find_def split_beta Let_def)

lemma fec_remove_code: "snd (fec_remove t k) = (if fec_find t k = None then -1 else 0)"
  by (simp add: fec_remove_def fec_find_def)

lemma fec_clear_eq:
  "fec_clear t cb s = (foldl (\<lambda>t f. fst (fec_remove t f)) t (rb_keys t),
                       foldl (\<lambda>s f. cb f s) s (rb_keys t))"
proof -
  have "foldl (\<lambda>(t, s) f. (fst (fec_remove t f), cb f s)) (t, s) fs =
      (foldl (\<lambda>t f. fst (fec_remove t f)) t fs, foldl (\<lambda>s f. cb f s) s fs)" for t s fs
    by (induction fs arbitrary: t s) simp_all
  then show ?thesis by (simp add: fec_clear_def)
qed

lemma fec_find_clear [simp]: "fec_find (fst (fec_clear t cb s)) f = None"
proof -
  have "fec_find (foldl (\<lambda>t f. fst (fec_remove t f)) t fs) f =
      (if f \<in> set fs then None else fec_find t f)" for fs and t :: "'a fec_tree"
    by (induction fs arbitrary: t) auto
  then show ?thesis by (simp add: fec_clear_eq fec_find_def)
qed

section \<open>Messages between the engines\<close>

record status_tlv =
  st_status_code :: u32
  st_msg_id :: u32
  st_msg_type :: u16

record map_msg =
  map_type :: u8
  map_msg_id :: u32
  map_prefix_af :: af
  map_prefix :: ldpd_addr
  map_prefixlen :: u8
  map_pwid_type :: u16
  map_pwid :: u32
  map_group_id :: u32
  map_ifmtu :: u16
  map_st :: status_tlv
  map_label :: u32
  map_requestid :: u32
  map_pw_status :: u32
  map_flags :: u8

definition zero_map :: map_msg where
  "zero_map = \<lparr>map_type = 0, map_msg_id = 0, map_prefix_af = AF_UNSPEC,
     map_prefix = replicate 16 0, map_prefixlen = 0, map_pwid_type = 0, map_pwid = 0,
     map_group_id = 0, map_ifmtu = 0,
     map_st = \<lparr>st_status_code = 0, st_msg_id = 0, st_msg_type = 0\<rparr>,
     map_label = 0, map_requestid = 0, map_pw_status = 0, map_flags = 0\<rparr>"

record notify_msg =
  nm_status_code :: u32
  nm_msg_id :: u32
  nm_msg_type :: u16
  nm_pw_status :: u32
  nm_fec :: map_msg
  nm_flags :: u8

definition zero_notify_msg :: notify_msg where
  "zero_notify_msg = \<lparr>nm_status_code = 0, nm_msg_id = 0, nm_msg_type = 0, nm_pw_status = 0,
     nm_fec = zero_map, nm_flags = 0\<rparr>"

definition lde_fec2map :: "fec \<Rightarrow> map_msg" where
  "lde_fec2map fec =
     (case fec of
        FEC_IPV4 prefix prefixlen \<Rightarrow>
          zero_map\<lparr>map_type := MAP_TYPE_PREFIX, map_prefix_af := AF_INET,
            map_prefix := of_v4 prefix, map_prefixlen := prefixlen\<rparr>
      | FEC_IPV6 prefix prefixlen \<Rightarrow>
          zero_map\<lparr>map_type := MAP_TYPE_PREFIX, map_prefix_af := AF_INET6,
            map_prefix := prefix, map_prefixlen := prefixlen\<rparr>
      | FEC_PWID type pwid _ \<Rightarrow>
          zero_map\<lparr>map_type := MAP_TYPE_PWID, map_pwid_type := type, map_group_id := 0,
            map_flags := set_flag 0 F_MAP_PW_ID, map_pwid := pwid\<rparr>)"

text \<open>
  A map of another type leaves the \<^verbatim>\<open>memset\<close> class, which is the IPv4 class of prefix 0.0.0.0/0.
\<close>

definition lde_map2fec :: "map_msg \<Rightarrow> in_addr \<Rightarrow> fec res" where
  "lde_map2fec m lsr_id =
     (if map_type m = MAP_TYPE_PREFIX then
        (case map_prefix_af m of
           AF_INET \<Rightarrow> Inr (FEC_IPV4 (v4 (map_prefix m)) (map_prefixlen m))
         | AF_INET6 \<Rightarrow> Inr (FEC_IPV6 (map_prefix m) (map_prefixlen m))
         | AF_UNSPEC \<Rightarrow> Inl (Fatalx ''lde_map2fec: unknown af''))
      else if map_type m = MAP_TYPE_PWID then
        Inr (FEC_PWID (map_pwid_type m) (map_pwid m) lsr_id)
      else Inr (FEC_IPV4 0 0))"

text \<open>
  a class sent to a neighbour as a map and read back by that neighbour's identifier is the
  same class; a pseudowire class keeps its identity because its lsr-id is the neighbour's.
\<close>

theorem fec_map_roundtrip:
  "lde_map2fec (lde_fec2map f) r =
     Inr (case f of FEC_PWID t i _ \<Rightarrow> FEC_PWID t i r | _ \<Rightarrow> f)"
  by (cases f) (simp_all add: lde_fec2map_def lde_map2fec_def const_defs)

text \<open>
  \<^verbatim>\<open>fec_compare\<close> is a total order on classes, so that the trees keyed by it find every element:
  it is zero only on equal classes, reverses its sign when its arguments are swapped and is
  transitive.
\<close>

theorem fec_compare_total_order:
  "(fec_compare a b = 0 \<longleftrightarrow> a = b) \<and>
   (fec_compare a b > 0 \<longleftrightarrow> fec_compare b a < 0) \<and>
   (fec_compare a b < 0 \<and> fec_compare b c < 0 \<longrightarrow> fec_compare a c < 0)"
  using fec_compare_eq_0 fec_compare_antisym fec_compare_trans by blast

theorem fec_compare_total_order_witness:
  "fec_compare (FEC_IPV4 0 0) (FEC_IPV6 [] 1) < 0 \<and> fec_compare (FEC_IPV6 [] 1) (FEC_PWID 5 1 2) < 0 \<and>
   fec_compare (FEC_IPV4 0 0) (FEC_PWID 5 1 2) < 0"
  using fec_compare_total_order [of "FEC_IPV4 0 0" "FEC_IPV6 [] 1" "FEC_PWID 5 1 2"]
  by (simp add: fec_compare_def)

end
