(* ===== verification/Lde_State.thy ===== *)
theory Lde_State
  imports Ldp_Fec
begin

text \<open>
  The state of the label decision engine (\<^verbatim>\<open>lde.h\<close>, \<^verbatim>\<open>lde.c\<close>, \<^verbatim>\<open>lde_lib.c\<close>): the tree \<^verbatim>\<open>ft\<close> of known
  classes, the tree \<^verbatim>\<open>lde_nbrs\<close> of neighbours, the pseudowires of the configuration, the label
  counter and the messages sent so far to the parent and to the protocol engine.

  A pointer to a neighbour is its key \<^verbatim>\<open>peerid\<close>, a pointer to a class node is its class, and a
  pointer to a next hop is the class with the position in its list (no list of next hops grows or
  shrinks while a loop runs over it). A \<^verbatim>\<open>struct lde_map\<close> sits in one tree of its neighbour and in
  one list of its class node: the tree holds the message, the list holds the neighbour. The
  pseudowires and layer-2 VPNs, which class nodes and lists point to, live in stores addressed by
  numbers.
\<close>

section \<open>Data\<close>

record lde_addr =
  la_af :: af
  la_addr :: ldpd_addr

record lde_nbr =
  ln_id :: in_addr
  ln_v4_enabled :: bool
  ln_v6_enabled :: bool
  ln_recv_req :: "u32 fec_tree"       \<comment> \<open>\<^verbatim>\<open>struct lde_req\<close>: message id\<close>
  ln_sent_req :: "u32 fec_tree"
  ln_recv_map :: "map_msg fec_tree"   \<comment> \<open>\<^verbatim>\<open>struct lde_map\<close>: message\<close>
  ln_sent_map :: "map_msg fec_tree"
  ln_sent_wdraw :: "u32 fec_tree"     \<comment> \<open>\<^verbatim>\<open>struct lde_wdraw\<close>: label\<close>
  ln_addr_list :: "lde_addr list"

record fec_nh =
  nh_af :: af
  nh_nexthop :: ldpd_addr
  nh_remote_label :: u32
  nh_priority :: u8

record fec_node =
  fn_nexthops :: "fec_nh list"
  fn_downstream :: "u32 list"         \<comment> \<open>received mappings, by neighbour\<close>
  fn_upstream :: "u32 list"           \<comment> \<open>sent mappings, by neighbour\<close>
  fn_local_label :: u32
  fn_data :: "nat option"             \<comment> \<open>pseudowire of the class\<close>

record l2vpn_pw =
  pw_l2vpn :: nat
  pw_lsr_id :: in_addr
  pw_af :: af
  pw_addr :: ldpd_addr
  pw_pwid :: u32
  pw_ifname :: string
  pw_ifindex :: u32
  pw_remote_group :: u32
  pw_remote_mtu :: u16
  pw_remote_status :: u32
  pw_flags :: u8

record l2vpn =
  l2_name :: string
  l2_pw_type :: int
  l2_mtu :: int
  l2_pw_list :: "nat list"

definition F_PW_STATUSTLV_CONF :: u8 where [const_defs]: "F_PW_STATUSTLV_CONF = 0x01"
definition F_PW_STATUSTLV :: u8 where [const_defs]: "F_PW_STATUSTLV = 0x02"
definition F_PW_CWORD_CONF :: u8 where [const_defs]: "F_PW_CWORD_CONF = 0x04"
definition F_PW_CWORD :: u8 where [const_defs]: "F_PW_CWORD = 0x08"
definition F_PW_STATUS_UP :: u8 where [const_defs]: "F_PW_STATUS_UP = 0x10"

definition PW_FORWARDING :: u32 where [const_defs]: "PW_FORWARDING = 0"
definition F_LDPD_AF_EXPNULL :: u32 where [const_defs]: "F_LDPD_AF_EXPNULL = 0x0004"
definition S_NO_ROUTE :: u32 where [const_defs]: "S_NO_ROUTE = 0x0000000D"
definition S_LOOP_DETECTED :: u32 where [const_defs]: "S_LOOP_DETECTED = 0x0000000B"
definition S_WRONG_CBIT :: u32 where [const_defs]: "S_WRONG_CBIT = 0x00000025"
definition S_PW_STATUS :: u32 where [const_defs]: "S_PW_STATUS = 0x00000028"
definition MSG_TYPE_LABELMAPPING :: u16 where [const_defs]: "MSG_TYPE_LABELMAPPING = 0x0400"
definition MSG_TYPE_LABELREQUEST :: u16 where [const_defs]: "MSG_TYPE_LABELREQUEST = 0x0401"

record kroute =
  kr_af :: af
  kr_prefix :: ldpd_addr
  kr_prefixlen :: u8
  kr_nexthop :: ldpd_addr
  kr_local_label :: u32
  kr_remote_label :: u32
  kr_priority :: u8

record kpw =
  kpw_ifindex :: u16
  kpw_pw_type :: u16
  kpw_af :: af
  kpw_nexthop :: ldpd_addr
  kpw_local_label :: u32
  kpw_remote_label :: u32
  kpw_flags :: u8

record ctl_rt =
  rt_af :: af
  rt_prefix :: ldpd_addr
  rt_prefixlen :: u8
  rt_nexthop :: in_addr
  rt_local_label :: u32
  rt_remote_label :: u32
  rt_in_use :: bool

record ctl_pw =
  ctlpw_type :: u16
  ctlpw_ifname :: string
  ctlpw_pwid :: u32
  ctlpw_lsr_id :: in_addr
  ctlpw_local_label :: u32
  ctlpw_local_gid :: u32
  ctlpw_local_ifmtu :: u16
  ctlpw_remote_label :: u32
  ctlpw_remote_gid :: u32
  ctlpw_remote_ifmtu :: u16
  ctlpw_status :: u32

text \<open>Messages of the engine: to the parent (first four) and to the protocol engine.\<close>

datatype lde_imsg =
    IMSG_KLABEL_CHANGE kroute
  | IMSG_KLABEL_DELETE kroute
  | IMSG_KPWLABEL_CHANGE kpw
  | IMSG_KPWLABEL_DELETE kpw
  | IMSG_MAPPING_ADD u32 map_msg
  | IMSG_MAPPING_ADD_END u32
  | IMSG_WITHDRAW_ADD u32 map_msg
  | IMSG_WITHDRAW_ADD_END u32
  | IMSG_RELEASE_ADD u32 map_msg
  | IMSG_RELEASE_ADD_END u32
  | IMSG_NOTIFICATION_SEND u32 notify_msg
  | IMSG_CTL_SHOW_LIB ctl_rt
  | IMSG_CTL_SHOW_L2VPN_PW ctl_pw
  | IMSG_CTL_SHOW_L2VPN_BINDING ctl_pw
  | IMSG_CTL_END

record lde =
  ft :: "fec_node fec_tree"
  lde_nbrs :: "(u32, lde_nbr) rbt"
  pws :: "nat \<Rightarrow> l2vpn_pw option"
  l2vpns :: "nat \<Rightarrow> l2vpn option"
  l2vpn_list :: "nat list"
  ipv4_flags :: u32
  ipv6_flags :: u32
  last_label :: u32
  out :: "lde_imsg list"

section \<open>Access through pointers\<close>

definition get_ln :: "lde \<Rightarrow> u32 \<Rightarrow> lde_nbr res" where
  "get_ln s p = (case rb_find (lde_nbrs s) p of None \<Rightarrow> Inl NullDeref | Some ln \<Rightarrow> Inr ln)"

definition get_fn :: "lde \<Rightarrow> fec \<Rightarrow> fec_node res" where
  "get_fn s f = (case fec_find (ft s) f of None \<Rightarrow> Inl NullDeref | Some fn \<Rightarrow> Inr fn)"

definition get_nh :: "lde \<Rightarrow> fec \<Rightarrow> nat \<Rightarrow> fec_nh res" where
  "get_nh s f i = bindE (get_fn s f) (\<lambda>fn.
     if i < length (fn_nexthops fn) then Inr (fn_nexthops fn ! i) else Inl OutOfBounds)"

definition get_pw :: "lde \<Rightarrow> nat \<Rightarrow> l2vpn_pw res" where
  "get_pw s d = (case pws s d of None \<Rightarrow> Inl NullDeref | Some pw \<Rightarrow> Inr pw)"

definition get_l2vpn :: "lde \<Rightarrow> nat \<Rightarrow> l2vpn res" where
  "get_l2vpn s d = (case l2vpns s d of None \<Rightarrow> Inl NullDeref | Some l \<Rightarrow> Inr l)"

text \<open>\<open>(struct l2vpn_pw *)fn->data\<close>, dereferenced.\<close>

definition fn_pw :: "lde \<Rightarrow> fec_node \<Rightarrow> (nat \<times> l2vpn_pw) res" where
  "fn_pw s fn = (case fn_data fn of None \<Rightarrow> Inl NullDeref | Some d \<Rightarrow>
     bindE (get_pw s d) (\<lambda>pw. Inr (d, pw)))"

definition upd_ln :: "lde \<Rightarrow> u32 \<Rightarrow> (lde_nbr \<Rightarrow> lde_nbr) \<Rightarrow> lde" where
  "upd_ln s p g = s\<lparr>lde_nbrs := rb_update (lde_nbrs s) p g\<rparr>"

definition upd_fn :: "lde \<Rightarrow> fec \<Rightarrow> (fec_node \<Rightarrow> fec_node) \<Rightarrow> lde" where
  "upd_fn s f g = s\<lparr>ft := rb_update (ft s) f g\<rparr>"

definition upd_pw :: "lde \<Rightarrow> nat \<Rightarrow> (l2vpn_pw \<Rightarrow> l2vpn_pw) \<Rightarrow> lde" where
  "upd_pw s d g = s\<lparr>pws := (pws s)(d := map_option g (pws s d))\<rparr>"

definition upd_nh :: "lde \<Rightarrow> fec \<Rightarrow> nat \<Rightarrow> (fec_nh \<Rightarrow> fec_nh) \<Rightarrow> lde" where
  "upd_nh s f i g = upd_fn s f (\<lambda>fn. fn\<lparr>fn_nexthops := (fn_nexthops fn)[i := g (fn_nexthops fn ! i)]\<rparr>)"

definition set_remote_label :: "lde \<Rightarrow> fec \<Rightarrow> nat \<Rightarrow> u32 \<Rightarrow> lde" where
  "set_remote_label s f i l = upd_nh s f i (\<lambda>nh. nh\<lparr>nh_remote_label := l\<rparr>)"

definition emit :: "lde \<Rightarrow> lde_imsg \<Rightarrow> lde" where
  "emit s m = s\<lparr>out := out s @ [m]\<rparr>"

text \<open>The positions of the next hops of a class, for \<^verbatim>\<open>LIST_FOREACH(fnh, &fn->nexthops, entry)\<close>.\<close>

definition nh_positions :: "lde \<Rightarrow> fec \<Rightarrow> nat list" where
  "nh_positions s f = (case fec_find (ft s) f of None \<Rightarrow> [] | Some fn \<Rightarrow> [0..<length (fn_nexthops fn)])"

lemma find_upd_simps [simp]:
  "rb_find (lde_nbrs (upd_ln s p g)) q =
     (if q = p then map_option g (rb_find (lde_nbrs s) p) else rb_find (lde_nbrs s) q)"
  "fec_find (ft (upd_fn s f h)) x =
     (if x = f then map_option h (fec_find (ft s) f) else fec_find (ft s) x)"
  "pws (upd_pw s d k) e = (if e = d then map_option k (pws s d) else pws s e)"
  by (simp_all add: upd_ln_def upd_fn_def upd_pw_def fec_find_def)

lemma upd_other_simps [simp]:
  "ft (upd_ln s p g) = ft s" "pws (upd_ln s p g) = pws s" "l2vpns (upd_ln s p g) = l2vpns s"
  "l2vpn_list (upd_ln s p g) = l2vpn_list s" "last_label (upd_ln s p g) = last_label s"
  "out (upd_ln s p g) = out s"
  "lde_nbrs (upd_fn s f h) = lde_nbrs s" "pws (upd_fn s f h) = pws s" "l2vpns (upd_fn s f h) = l2vpns s"
  "l2vpn_list (upd_fn s f h) = l2vpn_list s" "last_label (upd_fn s f h) = last_label s"
  "out (upd_fn s f h) = out s"
  "lde_nbrs (upd_pw s d k) = lde_nbrs s" "ft (upd_pw s d k) = ft s" "l2vpns (upd_pw s d k) = l2vpns s"
  "l2vpn_list (upd_pw s d k) = l2vpn_list s" "last_label (upd_pw s d k) = last_label s"
  "out (upd_pw s d k) = out s"
  "lde_nbrs (emit s m) = lde_nbrs s" "ft (emit s m) = ft s" "l2vpns (emit s m) = l2vpns s"
  "l2vpn_list (emit s m) = l2vpn_list s" "pws (emit s m) = pws s" "last_label (emit s m) = last_label s"
  "out (emit s m) = out s @ [m]"
  by (simp_all add: upd_ln_def upd_fn_def upd_pw_def emit_def)

lemma get_simps [simp]:
  "get_ln s p = Inr ln \<longleftrightarrow> rb_find (lde_nbrs s) p = Some ln"
  "get_fn s f = Inr fn \<longleftrightarrow> fec_find (ft s) f = Some fn"
  "get_pw s d = Inr pw \<longleftrightarrow> pws s d = Some pw"
  "get_l2vpn s d = Inr l \<longleftrightarrow> l2vpns s d = Some l"
  by (auto simp: get_ln_def get_fn_def get_pw_def get_l2vpn_def split: option.split)

section \<open>Neighbour addresses and look-ups\<close>

definition lde_address_find :: "lde_nbr \<Rightarrow> af \<Rightarrow> ldpd_addr \<Rightarrow> lde_addr option res" where
  "lde_address_find ln af addr =
     findE (\<lambda>la. if la_af la = af then bindE (ldp_addrcmp af (la_addr la) addr) (\<lambda>c. Inr (c = 0))
                 else Inr False) (ln_addr_list ln)"

definition lde_nbr_find :: "lde \<Rightarrow> u32 \<Rightarrow> lde_nbr option" where
  "lde_nbr_find s peerid = rb_find (lde_nbrs s) peerid"

definition lde_nbr_find_by_lsrid :: "lde \<Rightarrow> in_addr \<Rightarrow> u32 option" where
  "lde_nbr_find_by_lsrid s addr =
     find (\<lambda>p. case rb_find (lde_nbrs s) p of None \<Rightarrow> False | Some ln \<Rightarrow> ln_id ln = addr)
       (rb_keys (lde_nbrs s))"

definition lde_nbr_find_by_addr :: "lde \<Rightarrow> af \<Rightarrow> ldpd_addr \<Rightarrow> u32 option res" where
  "lde_nbr_find_by_addr s af addr =
     findE (\<lambda>p. bindE (get_ln s p) (\<lambda>ln. bindE (lde_address_find ln af addr) (\<lambda>r. Inr (r \<noteq> None))))
       (rb_keys (lde_nbrs s))"

definition fec_nh_find :: "fec_node \<Rightarrow> af \<Rightarrow> ldpd_addr \<Rightarrow> u8 \<Rightarrow> nat option res" where
  "fec_nh_find fn af nexthop priority =
     findE (\<lambda>i. let fnh = fn_nexthops fn ! i in
              if nh_af fnh = af then
                bindE (ldp_addrcmp af (nh_nexthop fnh) nexthop) (\<lambda>c.
                Inr (c = 0 \<and> nh_priority fnh = priority))
              else Inr False) [0..<length (fn_nexthops fn)]"

definition lde_nbr_is_nexthop :: "fec_node \<Rightarrow> lde_nbr \<Rightarrow> bool res" where
  "lde_nbr_is_nexthop fn ln =
     bindE (findE (\<lambda>fnh. bindE (lde_address_find ln (nh_af fnh) (nh_nexthop fnh)) (\<lambda>r. Inr (r \<noteq> None)))
              (fn_nexthops fn)) (\<lambda>r. Inr (r \<noteq> None))"

text \<open>
  What these searches compute when the address families are known: equality of addresses of a
  family, membership in the neighbour's list, position in the list of next hops.
\<close>

definition addr_eq :: "af \<Rightarrow> ldpd_addr \<Rightarrow> ldpd_addr \<Rightarrow> bool" where
  "addr_eq af a b \<longleftrightarrow> (if af = AF_INET then v4 a = v4 b else a = b)"

definition has_address :: "lde_nbr \<Rightarrow> af \<Rightarrow> ldpd_addr \<Rightarrow> bool" where
  "has_address ln af addr \<longleftrightarrow> (\<exists>la\<in>set (ln_addr_list ln). la_af la = af \<and> addr_eq af (la_addr la) addr)"

lemma ldp_addrcmp_addr_eq:
  "af \<noteq> AF_UNSPEC \<Longrightarrow> bindE (ldp_addrcmp af a b) (\<lambda>c. f (c = 0)) = f (addr_eq af a b)"
  using ldp_addrcmp_eq_0 [of af a b] by (auto simp: addr_eq_def)

lemma addr_eq_refl [simp]: "addr_eq af a a"
  by (simp add: addr_eq_def)

lemma lde_address_find_total:
  assumes "af \<noteq> AF_UNSPEC"
  shows "lde_address_find ln af addr =
    Inr (find (\<lambda>la. la_af la = af \<and> addr_eq af (la_addr la) addr) (ln_addr_list ln))"
  unfolding lde_address_find_def
  by (rule findE_total) (simp add: ldp_addrcmp_addr_eq [OF assms])

lemma lde_address_find_has_address:
  assumes "af \<noteq> AF_UNSPEC"
  shows "bindE (lde_address_find ln af addr) (\<lambda>r. f (r \<noteq> None)) = f (has_address ln af addr)"
proof -
  have "find P xs \<noteq> None \<longleftrightarrow> (\<exists>x\<in>set xs. P x)" for P and xs :: "lde_addr list"
    by (auto simp: find_None_iff simp del: not_None_eq)
  then show ?thesis by (simp add: lde_address_find_total [OF assms] has_address_def del: not_None_eq)
qed

end
