(* ===== verification/Lde_Send.thy ===== *)
theory Lde_Send
  imports Lde_State
begin

text \<open>
  What the label decision engine sends (\<^verbatim>\<open>lde.c\<close>): changes of the forwarding table to the parent,
  label mappings, withdraws, releases and notifications to the protocol engine, with the records
  they leave in the neighbour's trees; and the pseudowire functions of \<^verbatim>\<open>l2vpn.c\<close> that they call.
\<close>

section \<open>Records of mappings, requests and withdraws\<close>

definition lde_map_free :: "lde \<Rightarrow> u32 \<Rightarrow> fec \<Rightarrow> bool \<Rightarrow> lde" where
  "lde_map_free s p f sent =
     (if sent then upd_fn s f (\<lambda>fn. fn\<lparr>fn_upstream := remove1 p (fn_upstream fn)\<rparr>)
      else upd_fn s f (\<lambda>fn. fn\<lparr>fn_downstream := remove1 p (fn_downstream fn)\<rparr>))"

definition lde_map_add :: "lde \<Rightarrow> u32 \<Rightarrow> fec \<Rightarrow> bool \<Rightarrow> lde" where
  "lde_map_add s p f sent =
     (if sent then
        upd_ln (upd_fn s f (\<lambda>fn. fn\<lparr>fn_upstream := p # fn_upstream fn\<rparr>)) p
          (\<lambda>ln. ln\<lparr>ln_sent_map := fst (fec_insert (ln_sent_map ln) f zero_map)\<rparr>)
      else
        upd_ln (upd_fn s f (\<lambda>fn. fn\<lparr>fn_downstream := p # fn_downstream fn\<rparr>)) p
          (\<lambda>ln. ln\<lparr>ln_recv_map := fst (fec_insert (ln_recv_map ln) f zero_map)\<rparr>))"

definition lde_map_del :: "lde \<Rightarrow> u32 \<Rightarrow> fec \<Rightarrow> bool \<Rightarrow> lde" where
  "lde_map_del s p f sent =
     lde_map_free
       (if sent then upd_ln s p (\<lambda>ln. ln\<lparr>ln_sent_map := fst (fec_remove (ln_sent_map ln) f)\<rparr>)
        else upd_ln s p (\<lambda>ln. ln\<lparr>ln_recv_map := fst (fec_remove (ln_recv_map ln) f)\<rparr>)) p f sent"

text \<open>The assignment \<^verbatim>\<open>me->map = map\<close>.\<close>

definition lde_map_set :: "lde \<Rightarrow> u32 \<Rightarrow> fec \<Rightarrow> bool \<Rightarrow> map_msg \<Rightarrow> lde" where
  "lde_map_set s p f sent m =
     (if sent then upd_ln s p (\<lambda>ln. ln\<lparr>ln_sent_map := rb_update (ln_sent_map ln) f (\<lambda>_. m)\<rparr>)
      else upd_ln s p (\<lambda>ln. ln\<lparr>ln_recv_map := rb_update (ln_recv_map ln) f (\<lambda>_. m)\<rparr>))"

text \<open>
  \<open>lde_req_add\<close> returns whether the request was recorded, and \<open>lde_req_set\<close> is the assignment to
  the \<^verbatim>\<open>msg_id\<close> of the record it returned.
\<close>

definition lde_req_add :: "lde \<Rightarrow> u32 \<Rightarrow> fec \<Rightarrow> bool \<Rightarrow> (lde \<times> bool) res" where
  "lde_req_add s p f sent =
     bindE (get_ln s p) (\<lambda>ln.
     let (t, r) = fec_insert (if sent then ln_sent_req ln else ln_recv_req ln) f 0 in
     if r \<noteq> 0 then Inr (s, False)
     else Inr (upd_ln s p (\<lambda>ln. if sent then ln\<lparr>ln_sent_req := t\<rparr> else ln\<lparr>ln_recv_req := t\<rparr>), True))"

definition lde_req_set :: "lde \<Rightarrow> u32 \<Rightarrow> fec \<Rightarrow> u32 \<Rightarrow> lde" where
  "lde_req_set s p f msg_id =
     upd_ln s p (\<lambda>ln. ln\<lparr>ln_recv_req := rb_update (ln_recv_req ln) f (\<lambda>_. msg_id)\<rparr>)"

definition lde_req_del :: "lde \<Rightarrow> u32 \<Rightarrow> fec \<Rightarrow> bool \<Rightarrow> lde" where
  "lde_req_del s p f sent =
     upd_ln s p (\<lambda>ln. if sent then ln\<lparr>ln_sent_req := fst (fec_remove (ln_sent_req ln) f)\<rparr>
                       else ln\<lparr>ln_recv_req := fst (fec_remove (ln_recv_req ln) f)\<rparr>)"

definition lde_wdraw_add :: "lde \<Rightarrow> u32 \<Rightarrow> fec \<Rightarrow> lde" where
  "lde_wdraw_add s p f =
     upd_ln s p (\<lambda>ln. ln\<lparr>ln_sent_wdraw := fst (fec_insert (ln_sent_wdraw ln) f 0)\<rparr>)"

definition lde_wdraw_del :: "lde \<Rightarrow> u32 \<Rightarrow> fec \<Rightarrow> lde" where
  "lde_wdraw_del s p f =
     upd_ln s p (\<lambda>ln. ln\<lparr>ln_sent_wdraw := fst (fec_remove (ln_sent_wdraw ln) f)\<rparr>)"

text \<open>The tail of the withdraw: find the record or add it, then set its label.\<close>

definition lde_wdraw_record :: "lde \<Rightarrow> u32 \<Rightarrow> fec \<Rightarrow> u32 \<Rightarrow> lde res" where
  "lde_wdraw_record s p f label =
     bindE (get_ln s p) (\<lambda>ln.
     let s1 = (if fec_find (ln_sent_wdraw ln) f = None then lde_wdraw_add s p f else s) in
     Inr (upd_ln s1 p (\<lambda>ln. ln\<lparr>ln_sent_wdraw := rb_update (ln_sent_wdraw ln) f (\<lambda>_. label)\<rparr>)))"

section \<open>Pseudowires\<close>

definition l2vpn_pw_fec :: "lde \<Rightarrow> l2vpn_pw \<Rightarrow> fec res" where
  "l2vpn_pw_fec s pw =
     bindE (get_l2vpn s (pw_l2vpn pw)) (\<lambda>l.
     Inr (FEC_PWID (of_int (l2_pw_type l)) (pw_pwid pw) (pw_lsr_id pw)))"

definition pw_reset :: "l2vpn_pw \<Rightarrow> l2vpn_pw" where
  "pw_reset pw =
     (let fl = pw_flags pw;
          fl1 = (if has_flag fl F_PW_CWORD_CONF then set_flag fl F_PW_CWORD else clear_flag fl F_PW_CWORD);
          fl2 = (if has_flag fl1 F_PW_STATUSTLV_CONF then set_flag fl1 F_PW_STATUSTLV
                 else clear_flag fl1 F_PW_STATUSTLV)
      in pw\<lparr>pw_remote_group := 0, pw_remote_mtu := 0, pw_remote_status := 0, pw_flags := fl2\<rparr>)"

definition l2vpn_pw_reset :: "lde \<Rightarrow> nat \<Rightarrow> lde" where
  "l2vpn_pw_reset s d = upd_pw s d pw_reset"

definition l2vpn_pw_ok :: "lde \<Rightarrow> l2vpn_pw \<Rightarrow> fec_nh \<Rightarrow> bool res" where
  "l2vpn_pw_ok s pw fnh =
     (if nh_remote_label fnh = NO_LABEL then Inr False
      else bindE (get_l2vpn s (pw_l2vpn pw)) (\<lambda>l.
        if l2_mtu l \<noteq> uint (pw_remote_mtu pw) then Inr False
        else if has_flag (pw_flags pw) F_PW_STATUSTLV \<and> pw_remote_status pw \<noteq> PW_FORWARDING
        then Inr False
        else bindE (case pw_af pw of
               AF_INET \<Rightarrow> Inr (FEC_IPV4 (v4 (pw_addr pw)) 32)
             | AF_INET6 \<Rightarrow> Inr (FEC_IPV6 (pw_addr pw) 128)
             | AF_UNSPEC \<Rightarrow> Inl (Fatalx ''l2vpn_pw_ok: unknown af'')) (\<lambda>fec.
          case fec_find (ft s) fec of
            None \<Rightarrow> Inr False
          | Some fn \<Rightarrow>
              if fn_local_label fn = NO_LABEL then Inr False
              else if \<exists>nh\<in>set (fn_nexthops fn). nh_remote_label nh = NO_LABEL then Inr False
              else Inr True)))"

text \<open>
  The \<^verbatim>\<open>FEC_TYPE_PWID\<close> branches of \<^verbatim>\<open>lde_send_change_klabel\<close> and \<^verbatim>\<open>lde_send_delete_klabel\<close>, on their
  own: the only ones that \<^verbatim>\<open>l2vpn_sync_pws\<close> and \<^verbatim>\<open>l2vpn_recv_pw_status\<close> reach.
\<close>

definition kpw_of :: "fec \<Rightarrow> fec_node \<Rightarrow> fec_nh \<Rightarrow> l2vpn_pw \<Rightarrow> kpw" where
  "kpw_of f fn fnh pw =
     \<lparr>kpw_ifindex = ucast (pw_ifindex pw),
      kpw_pw_type = (case f of FEC_PWID t _ _ \<Rightarrow> t | _ \<Rightarrow> 0),
      kpw_af = pw_af pw, kpw_nexthop = pw_addr pw, kpw_local_label = fn_local_label fn,
      kpw_remote_label = nh_remote_label fnh, kpw_flags = pw_flags pw\<rparr>"

definition change_klabel_pw :: "lde \<Rightarrow> fec \<Rightarrow> nat \<Rightarrow> lde res" where
  "change_klabel_pw s f i =
     bindE (get_fn s f) (\<lambda>fn. bindE (get_nh s f i) (\<lambda>fnh.
     if fn_local_label fn = NO_LABEL \<or> nh_remote_label fnh = NO_LABEL then Inr s
     else bindE (fn_pw s fn) (\<lambda>(d, pw).
       let pw' = pw\<lparr>pw_flags := set_flag (pw_flags pw) F_PW_STATUS_UP\<rparr> in
       Inr (emit (upd_pw s d (\<lambda>_. pw')) (IMSG_KPWLABEL_CHANGE (kpw_of f fn fnh pw'))))))"

definition delete_klabel_pw :: "lde \<Rightarrow> fec \<Rightarrow> nat \<Rightarrow> lde res" where
  "delete_klabel_pw s f i =
     bindE (get_fn s f) (\<lambda>fn. bindE (get_nh s f i) (\<lambda>fnh.
     bindE (fn_pw s fn) (\<lambda>(d, pw).
       if \<not> has_flag (pw_flags pw) F_PW_STATUS_UP then Inr s
       else let pw' = pw\<lparr>pw_flags := clear_flag (pw_flags pw) F_PW_STATUS_UP\<rparr> in
         Inr (emit (upd_pw s d (\<lambda>_. pw')) (IMSG_KPWLABEL_DELETE (kpw_of f fn fnh pw'))))))"

text \<open>The body of the loops of \<^verbatim>\<open>l2vpn_sync_pws\<close> for one pseudowire.\<close>

definition sync_pw :: "af \<Rightarrow> ldpd_addr \<Rightarrow> lde \<Rightarrow> nat \<Rightarrow> lde res" where
  "sync_pw af addr s d =
     bindE (get_pw s d) (\<lambda>pw.
     if af \<noteq> pw_af pw then Inr s
     else bindE (ldp_addrcmp af (pw_addr pw) addr) (\<lambda>c.
       if c \<noteq> 0 then Inr s
       else bindE (l2vpn_pw_fec s pw) (\<lambda>fec.
         case fec_find (ft s) fec of
           None \<Rightarrow> Inr s
         | Some fn \<Rightarrow>
             bindE (fec_nh_find fn AF_INET (of_v4 (pw_lsr_id pw)) 0) (\<lambda>r.
             case r of
               None \<Rightarrow> Inr s
             | Some i \<Rightarrow>
                 bindE (l2vpn_pw_ok s pw (fn_nexthops fn ! i)) (\<lambda>ok.
                 if ok then change_klabel_pw s fec i else delete_klabel_pw s fec i)))))"

definition l2vpn_sync_pws :: "lde \<Rightarrow> af \<Rightarrow> ldpd_addr \<Rightarrow> lde res" where
  "l2vpn_sync_pws s af addr =
     foldE (\<lambda>s l. bindE (get_l2vpn s l) (\<lambda>l2vpn. foldE (sync_pw af addr) (l2_pw_list l2vpn) s))
       (l2vpn_list s) s"

section \<open>The forwarding table\<close>

definition kroute_of :: "fec \<Rightarrow> fec_node \<Rightarrow> fec_nh \<Rightarrow> kroute" where
  "kroute_of f fn fnh =
     (case f of
        FEC_IPV4 prefix prefixlen \<Rightarrow>
          \<lparr>kr_af = AF_INET, kr_prefix = of_v4 prefix, kr_prefixlen = prefixlen,
           kr_nexthop = of_v4 (v4 (nh_nexthop fnh)), kr_local_label = fn_local_label fn,
           kr_remote_label = nh_remote_label fnh, kr_priority = nh_priority fnh\<rparr>
      | FEC_IPV6 prefix prefixlen \<Rightarrow>
          \<lparr>kr_af = AF_INET6, kr_prefix = prefix, kr_prefixlen = prefixlen,
           kr_nexthop = nh_nexthop fnh, kr_local_label = fn_local_label fn,
           kr_remote_label = nh_remote_label fnh, kr_priority = nh_priority fnh\<rparr>
      | FEC_PWID _ _ _ \<Rightarrow>
          \<lparr>kr_af = AF_UNSPEC, kr_prefix = [], kr_prefixlen = 0, kr_nexthop = [], kr_local_label = 0,
           kr_remote_label = 0, kr_priority = 0\<rparr>)"

definition lde_send_change_klabel :: "lde \<Rightarrow> fec \<Rightarrow> nat \<Rightarrow> lde res" where
  "lde_send_change_klabel s f i =
     (case f of
        FEC_IPV4 prefix prefixlen \<Rightarrow>
          bindE (get_fn s f) (\<lambda>fn. bindE (get_nh s f i) (\<lambda>fnh.
          let s1 = emit s (IMSG_KLABEL_CHANGE (kroute_of f fn fnh)) in
          if prefixlen = 32 then l2vpn_sync_pws s1 AF_INET (of_v4 prefix) else Inr s1))
      | FEC_IPV6 prefix prefixlen \<Rightarrow>
          bindE (get_fn s f) (\<lambda>fn. bindE (get_nh s f i) (\<lambda>fnh.
          let s1 = emit s (IMSG_KLABEL_CHANGE (kroute_of f fn fnh)) in
          if prefixlen = 128 then l2vpn_sync_pws s1 AF_INET6 prefix else Inr s1))
      | FEC_PWID _ _ _ \<Rightarrow> change_klabel_pw s f i)"

definition lde_send_delete_klabel :: "lde \<Rightarrow> fec \<Rightarrow> nat \<Rightarrow> lde res" where
  "lde_send_delete_klabel s f i =
     (case f of
        FEC_IPV4 prefix prefixlen \<Rightarrow>
          bindE (get_fn s f) (\<lambda>fn. bindE (get_nh s f i) (\<lambda>fnh.
          let s1 = emit s (IMSG_KLABEL_DELETE (kroute_of f fn fnh)) in
          if prefixlen = 32 then l2vpn_sync_pws s1 AF_INET (of_v4 prefix) else Inr s1))
      | FEC_IPV6 prefix prefixlen \<Rightarrow>
          bindE (get_fn s f) (\<lambda>fn. bindE (get_nh s f i) (\<lambda>fnh.
          let s1 = emit s (IMSG_KLABEL_DELETE (kroute_of f fn fnh)) in
          if prefixlen = 128 then l2vpn_sync_pws s1 AF_INET6 prefix else Inr s1))
      | FEC_PWID _ _ _ \<Rightarrow> delete_klabel_pw s f i)"

section \<open>Labels\<close>

definition lde_assign_label :: "lde \<Rightarrow> lde \<times> u32" where
  "lde_assign_label s = (let label = last_label s + 1 in (s\<lparr>last_label := label\<rparr>, label))"

definition egress_label :: "lde \<Rightarrow> fec_type \<Rightarrow> u32 res" where
  "egress_label s t =
     (case t of
        FEC_TYPE_IPV4 \<Rightarrow>
          Inr (if has_flag (ipv4_flags s) F_LDPD_AF_EXPNULL then MPLS_LABEL_IPV4NULL
               else MPLS_LABEL_IMPLNULL)
      | FEC_TYPE_IPV6 \<Rightarrow>
          Inr (if has_flag (ipv6_flags s) F_LDPD_AF_EXPNULL then MPLS_LABEL_IPV6NULL
               else MPLS_LABEL_IMPLNULL)
      | FEC_TYPE_PWID \<Rightarrow> Inl (Fatalx ''egress_label: unexpected fec type''))"

section \<open>Label messages\<close>

text \<open>
  The guard shared by the three senders: a neighbour gets messages about the address families it
  is enabled for and about the pseudowires whose remote end it is. For a pseudowire class that is
  to be announced it gives the pseudowire.
\<close>

definition nbr_guard :: "lde \<Rightarrow> lde_nbr \<Rightarrow> fec \<Rightarrow> fec_node \<Rightarrow> (bool \<times> l2vpn_pw option) res" where
  "nbr_guard s ln f fn =
     (case f of
        FEC_IPV4 _ _ \<Rightarrow> Inr (ln_v4_enabled ln, None)
      | FEC_IPV6 _ _ \<Rightarrow> Inr (ln_v6_enabled ln, None)
      | FEC_PWID _ _ _ \<Rightarrow>
          (case fn_data fn of
             None \<Rightarrow> Inr (False, None)
           | Some d \<Rightarrow> bindE (get_pw s d) (\<lambda>pw. Inr (pw_lsr_id pw = ln_id ln, Some pw))))"

definition map_pw_flags :: "lde \<Rightarrow> l2vpn_pw option \<Rightarrow> map_msg \<Rightarrow> map_msg res" where
  "map_pw_flags s pwo m =
     (case pwo of
        None \<Rightarrow> Inr m
      | Some pw \<Rightarrow>
          bindE (get_l2vpn s (pw_l2vpn pw)) (\<lambda>l.
          let m1 = m\<lparr>map_flags := set_flag (map_flags m) F_MAP_PW_IFMTU, map_ifmtu := of_int (l2_mtu l)\<rparr>;
              m2 = (if has_flag (pw_flags pw) F_PW_CWORD
                    then m1\<lparr>map_flags := set_flag (map_flags m1) F_MAP_PW_CWORD\<rparr> else m1);
              m3 = (if has_flag (pw_flags pw) F_PW_STATUSTLV
                    then m2\<lparr>map_flags := set_flag (map_flags m2) F_MAP_PW_STATUS,
                            map_pw_status := PW_FORWARDING\<rparr> else m2)
          in Inr m3))"

definition lde_send_labelmapping :: "lde \<Rightarrow> u32 \<Rightarrow> fec \<Rightarrow> bool \<Rightarrow> lde res" where
  "lde_send_labelmapping s p f single =
     bindE (get_ln s p) (\<lambda>ln. bindE (get_fn s f) (\<lambda>fn.
     bindE (nbr_guard s ln f fn) (\<lambda>(go, pwo).
     if \<not> go then Inr s
     else bindE (map_pw_flags s pwo (lde_fec2map f)) (\<lambda>m0.
       let m1 = m0\<lparr>map_label := fn_local_label fn\<rparr>;
           (s1, m2) =
             (case fec_find (ln_recv_req ln) f of
                Some msg_id \<Rightarrow>
                  (lde_req_del s p f False, m1\<lparr>map_requestid := msg_id, map_flags := F_MAP_REQ_ID\<rparr>)
              | None \<Rightarrow> (s, m1));
           s2 = emit s1 (IMSG_MAPPING_ADD p m2);
           s3 = (if single then emit s2 (IMSG_MAPPING_ADD_END p) else s2);
           s4 = (if fec_find (ln_sent_map ln) f = None then lde_map_add s3 p f True else s3)
       in Inr (lde_map_set s4 p f True m2)))))"

definition add_cword :: "l2vpn_pw option \<Rightarrow> map_msg \<Rightarrow> map_msg" where
  "add_cword pwo m =
     (case pwo of
        Some pw \<Rightarrow> if has_flag (pw_flags pw) F_PW_CWORD
                   then m\<lparr>map_flags := set_flag (map_flags m) F_MAP_PW_CWORD\<rparr> else m
      | None \<Rightarrow> m)"

definition add_status :: "status_tlv option \<Rightarrow> map_msg \<Rightarrow> map_msg" where
  "add_status st m =
     (case st of None \<Rightarrow> m
      | Some x \<Rightarrow> m\<lparr>map_st := x, map_flags := set_flag (map_flags m) F_MAP_STATUS\<rparr>)"

text \<open>\<^verbatim>\<open>fn\<close> is null for the wildcard withdraw, which carries the given label.\<close>

definition lde_send_labelwithdraw ::
    "lde \<Rightarrow> u32 \<Rightarrow> fec option \<Rightarrow> u32 \<Rightarrow> status_tlv option \<Rightarrow> lde res" where
  "lde_send_labelwithdraw s p fo label st =
     bindE (get_ln s p) (\<lambda>ln.
     case fo of
       Some f \<Rightarrow>
         bindE (get_fn s f) (\<lambda>fn. bindE (nbr_guard s ln f fn) (\<lambda>(go, pwo).
         if \<not> go then Inr s
         else let m = add_status st ((add_cword pwo (lde_fec2map f))\<lparr>map_label := fn_local_label fn\<rparr>);
                  s1 = emit (emit s (IMSG_WITHDRAW_ADD p m)) (IMSG_WITHDRAW_ADD_END p)
              in lde_wdraw_record s1 p f (map_label m)))
     | None \<Rightarrow>
         let m = add_status st (zero_map\<lparr>map_type := MAP_TYPE_WILDCARD, map_label := label\<rparr>);
             s1 = emit (emit s (IMSG_WITHDRAW_ADD p m)) (IMSG_WITHDRAW_ADD_END p)
         in foldE (\<lambda>s f. lde_wdraw_record s p f (map_label m)) (rb_keys (ft s1)) s1)"

definition lde_send_labelwithdraw_all :: "lde \<Rightarrow> fec \<Rightarrow> u32 \<Rightarrow> lde res" where
  "lde_send_labelwithdraw_all s f label =
     foldE (\<lambda>s p. lde_send_labelwithdraw s p (Some f) label None) (rb_keys (lde_nbrs s)) s"

definition lde_send_labelrelease :: "lde \<Rightarrow> u32 \<Rightarrow> fec option \<Rightarrow> u32 \<Rightarrow> lde res" where
  "lde_send_labelrelease s p fo label =
     bindE (get_ln s p) (\<lambda>ln.
     case fo of
       Some f \<Rightarrow>
         bindE (get_fn s f) (\<lambda>fn. bindE (nbr_guard s ln f fn) (\<lambda>(go, pwo).
         if \<not> go then Inr s
         else let m = (add_cword pwo (lde_fec2map f))\<lparr>map_label := label\<rparr>
              in Inr (emit (emit s (IMSG_RELEASE_ADD p m)) (IMSG_RELEASE_ADD_END p))))
     | None \<Rightarrow>
         let m = zero_map\<lparr>map_type := MAP_TYPE_WILDCARD, map_label := label\<rparr>
         in Inr (emit (emit s (IMSG_RELEASE_ADD p m)) (IMSG_RELEASE_ADD_END p)))"

definition lde_send_notification :: "lde \<Rightarrow> u32 \<Rightarrow> u32 \<Rightarrow> u32 \<Rightarrow> u16 \<Rightarrow> lde" where
  "lde_send_notification s peerid status_code msg_id msg_type =
     emit s (IMSG_NOTIFICATION_SEND peerid
       (zero_notify_msg\<lparr>nm_status_code := status_code, nm_msg_id := msg_id, nm_msg_type := msg_type\<rparr>))"

definition l2vpn_send_pw_status :: "lde \<Rightarrow> u32 \<Rightarrow> u32 \<Rightarrow> fec \<Rightarrow> lde" where
  "l2vpn_send_pw_status s peerid status f =
     emit s (IMSG_NOTIFICATION_SEND peerid
       (zero_notify_msg\<lparr>nm_status_code := S_PW_STATUS, nm_pw_status := status,
          nm_fec := lde_fec2map f,
          nm_flags := set_flag (set_flag 0 F_NOTIF_PW_STATUS) F_NOTIF_FEC\<rparr>))"

end
