(* ===== verification/Lde_Lib.thy ===== *)
theory Lde_Lib
  imports Lde_Send
begin

text \<open>
  The handlers of the label decision engine: the label information base of \<^verbatim>\<open>lde_lib.c\<close> (routes
  from the kernel, mappings, requests, releases and withdraws from neighbours, the garbage
  collector), the neighbours and their addresses of \<^verbatim>\<open>lde.c\<close>, the pseudowires of \<^verbatim>\<open>l2vpn.c\<close>, and
  the dispatch of the messages from the protocol engine and from the parent.
\<close>

section \<open>Class nodes and next hops\<close>

definition empty_node :: fec_node where
  "empty_node = \<lparr>fn_nexthops = [], fn_downstream = [], fn_upstream = [],
     fn_local_label = NO_LABEL, fn_data = None\<rparr>"

definition fec_add :: "lde \<Rightarrow> fec \<Rightarrow> lde" where
  "fec_add s f = s\<lparr>ft := fst (fec_insert (ft s) f empty_node)\<rparr>"

text \<open>\<^verbatim>\<open>fn = fec_find(&ft, fec); if (fn == NULL) fn = fec_add(fec);\<close>\<close>

definition fec_find_or_add :: "lde \<Rightarrow> fec \<Rightarrow> lde" where
  "fec_find_or_add s f = (if fec_find (ft s) f = None then fec_add s f else s)"

definition fec_nh_add :: "lde \<Rightarrow> fec \<Rightarrow> af \<Rightarrow> ldpd_addr \<Rightarrow> u8 \<Rightarrow> lde" where
  "fec_nh_add s f af nexthop priority =
     upd_fn s f (\<lambda>fn. fn\<lparr>fn_nexthops :=
       \<lparr>nh_af = af, nh_nexthop = nexthop, nh_remote_label = NO_LABEL, nh_priority = priority\<rparr>
       # fn_nexthops fn\<rparr>)"

definition fec_nh_del :: "lde \<Rightarrow> fec \<Rightarrow> nat \<Rightarrow> lde" where
  "fec_nh_del s f i =
     upd_fn s f (\<lambda>fn. fn\<lparr>fn_nexthops := take i (fn_nexthops fn) @ drop (Suc i) (fn_nexthops fn)\<rparr>)"

section \<open>Pseudowire negotiation\<close>

text \<open>\<open>True\<close> is the C result 1: the received mapping is to be ignored.\<close>

definition l2vpn_pw_negotiate :: "lde \<Rightarrow> u32 \<Rightarrow> fec \<Rightarrow> map_msg \<Rightarrow> (lde \<times> bool) res" where
  "l2vpn_pw_negotiate s p f m =
     bindE (get_ln s p) (\<lambda>ln. bindE (get_fn s f) (\<lambda>fn.
     case fn_data fn of
       None \<Rightarrow> Inr (s, False)
     | Some d \<Rightarrow> bindE (get_pw s d) (\<lambda>pw.
         bindE
           (if fec_find (ln_sent_map ln) f \<noteq> None then
              if has_flag (map_flags m) F_MAP_PW_CWORD \<and> \<not> has_flag (pw_flags pw) F_PW_CWORD_CONF
              then Inr (s, True)
              else if \<not> has_flag (map_flags m) F_MAP_PW_CWORD \<and> has_flag (pw_flags pw) F_PW_CWORD_CONF
              then
                bindE (lde_send_labelwithdraw s p (Some f) NO_LABEL
                  (Some \<lparr>st_status_code = S_WRONG_CBIT, st_msg_id = map_msg_id m,
                         st_msg_type = htons MSG_TYPE_LABELMAPPING\<rparr>)) (\<lambda>s1.
                let s2 = upd_pw s1 d (\<lambda>pw. pw\<lparr>pw_flags := clear_flag (pw_flags pw) F_PW_CWORD\<rparr>) in
                bindE (lde_send_labelmapping s2 p f True) (\<lambda>s3. Inr (s3, False)))
              else Inr (s, False)
            else if has_flag (map_flags m) F_MAP_PW_CWORD then
              if has_flag (pw_flags pw) F_PW_CWORD_CONF
              then Inr (upd_pw s d (\<lambda>pw. pw\<lparr>pw_flags := set_flag (pw_flags pw) F_PW_CWORD\<rparr>), False)
              else Inr (s, True)
            else Inr (upd_pw s d (\<lambda>pw. pw\<lparr>pw_flags := clear_flag (pw_flags pw) F_PW_CWORD\<rparr>), False))
           (\<lambda>(s4, ignore).
             if ignore then Inr (s4, True)
             else if fec_find (ln_recv_map ln) f = None \<and> \<not> has_flag (map_flags m) F_MAP_PW_STATUS
             then Inr (upd_pw s4 d (\<lambda>pw. pw\<lparr>pw_flags := clear_flag (pw_flags pw) F_PW_STATUSTLV\<rparr>), False)
             else Inr (s4, False)))))"

section \<open>Label mapping\<close>

text \<open>LMp.10a: the loop that takes the old label out of use.\<close>

definition unuse_nh :: "u32 \<Rightarrow> fec \<Rightarrow> lde \<Rightarrow> nat \<Rightarrow> lde res" where
  "unuse_nh p f s i =
     bindE (get_ln s p) (\<lambda>ln. bindE (get_nh s f i) (\<lambda>fnh.
     bindE (lde_address_find ln (nh_af fnh) (nh_nexthop fnh)) (\<lambda>r.
     if r = None then Inr s
     else bindE (lde_send_delete_klabel s f i) (\<lambda>s1. Inr (set_remote_label s1 f i NO_LABEL)))))"

text \<open>LMp.15: the loop that installs the new label for each next hop.\<close>

definition install_nh :: "map_msg \<Rightarrow> u32 \<Rightarrow> fec \<Rightarrow> lde \<Rightarrow> nat \<Rightarrow> lde res" where
  "install_nh m p f s i =
     bindE (get_nh s f i) (\<lambda>fnh.
     case f of
       FEC_PWID _ _ _ \<Rightarrow>
         bindE (get_fn s f) (\<lambda>fn.
         case fn_data fn of
           None \<Rightarrow> Inr s
         | Some d \<Rightarrow>
             let s1 = upd_pw s d (\<lambda>pw. pw\<lparr>pw_remote_group := map_group_id m\<rparr>);
                 s2 = (if has_flag (map_flags m) F_MAP_PW_IFMTU
                       then upd_pw s1 d (\<lambda>pw. pw\<lparr>pw_remote_mtu := map_ifmtu m\<rparr>) else s1);
                 s3 = (if has_flag (map_flags m) F_MAP_PW_STATUS
                       then upd_pw s2 d (\<lambda>pw. pw\<lparr>pw_remote_status := map_pw_status m\<rparr>) else s2);
                 s4 = set_remote_label s3 f i (map_label m)
             in bindE (get_pw s4 d) (\<lambda>pw. bindE (get_nh s4 f i) (\<lambda>fnh.
                bindE (l2vpn_pw_ok s4 pw fnh) (\<lambda>ok.
                if ok then lde_send_change_klabel s4 f i else Inr s4))))
     | _ \<Rightarrow>
         bindE (get_ln s p) (\<lambda>ln.
         bindE (lde_address_find ln (nh_af fnh) (nh_nexthop fnh)) (\<lambda>r.
         if r = None then Inr s
         else lde_send_change_klabel (set_remote_label s f i (map_label m)) f i)))"

definition lde_check_mapping :: "lde \<Rightarrow> map_msg \<Rightarrow> u32 \<Rightarrow> lde res" where
  "lde_check_mapping s m p =
     bindE (get_ln s p) (\<lambda>ln.
     bindE (lde_map2fec m (ln_id ln)) (\<lambda>f.
     let s1 = fec_find_or_add s f;
         lre = (fec_find (ln_sent_req ln) f \<noteq> None);
         s2 = (if lre then lde_req_del s1 p f True else s1)
     in bindE (if map_type m = MAP_TYPE_PWID then l2vpn_pw_negotiate s2 p f m else Inr (s2, False))
          (\<lambda>(s3, ignore).
        if ignore then Inr s3
        else
          let me = fec_find (ln_recv_map ln) f in
          bindE
            (case me of
               Some old \<Rightarrow>
                 if map_label old \<noteq> map_label m \<and> \<not> lre then
                   bindE (lde_send_labelrelease s3 p (Some f) (map_label old)) (\<lambda>s4.
                   foldE (unuse_nh p f) (nh_positions s4 f) s4)
                 else Inr s3
             | None \<Rightarrow> Inr s3) (\<lambda>s5.
          bindE (foldE (install_nh m p f) (nh_positions s5 f) s5) (\<lambda>s6.
          let s7 = (if me = None then lde_map_add s6 p f False else s6) in
          Inr (lde_map_set s7 p f False m))))))"

section \<open>Routes from the kernel\<close>

definition lde_kernel_insert ::
    "lde \<Rightarrow> fec \<Rightarrow> af \<Rightarrow> ldpd_addr \<Rightarrow> u8 \<Rightarrow> bool \<Rightarrow> nat option \<Rightarrow> lde res" where
  "lde_kernel_insert s f af nexthop priority connected data =
     (let s1 = fec_find_or_add s f in
      bindE (get_fn s1 f) (\<lambda>fn.
      bindE (fec_nh_find fn af nexthop priority) (\<lambda>r.
      if r \<noteq> None then Inr s1
      else
        let s2 = (case f of FEC_PWID _ _ _ \<Rightarrow> upd_fn s1 f (\<lambda>fn. fn\<lparr>fn_data := data\<rparr>) | _ \<Rightarrow> s1) in
        bindE
          (if fn_local_label fn = NO_LABEL then
             bindE (if connected then bindE (egress_label s2 (fec_get_type f)) (\<lambda>l. Inr (s2, l))
                    else Inr (lde_assign_label s2)) (\<lambda>(s3, l).
             let s4 = upd_fn s3 f (\<lambda>fn. fn\<lparr>fn_local_label := l\<rparr>) in
             foldE (\<lambda>s p. lde_send_labelmapping s p f True) (rb_keys (lde_nbrs s4)) s4)
           else Inr s2) (\<lambda>s5.
        let s6 = fec_nh_add s5 f af nexthop priority in
        bindE (lde_send_change_klabel s6 f 0) (\<lambda>s7.
        bindE (case f of
                 FEC_PWID _ _ lsr_id \<Rightarrow> Inr (lde_nbr_find_by_lsrid s7 lsr_id)
               | _ \<Rightarrow> lde_nbr_find_by_addr s7 af nexthop) (\<lambda>lno.
        case lno of
          None \<Rightarrow> Inr s7
        | Some p \<Rightarrow>
            bindE (get_ln s7 p) (\<lambda>ln.
            case fec_find (ln_recv_map ln) f of
              None \<Rightarrow> Inr s7
            | Some m \<Rightarrow> lde_check_mapping s7 m p)))))))"

definition lde_kernel_remove :: "lde \<Rightarrow> fec \<Rightarrow> af \<Rightarrow> ldpd_addr \<Rightarrow> u8 \<Rightarrow> lde res" where
  "lde_kernel_remove s f af nexthop priority =
     (case fec_find (ft s) f of
        None \<Rightarrow> Inr s
      | Some fn \<Rightarrow>
          bindE (fec_nh_find fn af nexthop priority) (\<lambda>r.
          case r of
            None \<Rightarrow> Inr s
          | Some i \<Rightarrow>
              bindE (lde_send_delete_klabel s f i) (\<lambda>s1.
              let s2 = fec_nh_del s1 f i in
              bindE (get_fn s2 f) (\<lambda>fn2.
              if fn_nexthops fn2 = [] then
                bindE (lde_send_labelwithdraw_all s2 f NO_LABEL) (\<lambda>s3.
                let s4 = upd_fn s3 f (\<lambda>fn. fn\<lparr>fn_local_label := NO_LABEL\<rparr>) in
                Inr (case f of FEC_PWID _ _ _ \<Rightarrow> upd_fn s4 f (\<lambda>fn. fn\<lparr>fn_data := None\<rparr>) | _ \<Rightarrow> s4))
              else Inr s2))))"

section \<open>Label request, release and withdraw\<close>

definition lde_check_request :: "lde \<Rightarrow> map_msg \<Rightarrow> u32 \<Rightarrow> lde res" where
  "lde_check_request s m p =
     bindE (get_ln s p) (\<lambda>ln.
     bindE (lde_map2fec m (ln_id ln)) (\<lambda>f.
     case fec_find (ft s) f of
       None \<Rightarrow> Inr (lde_send_notification s p S_NO_ROUTE (map_msg_id m) (htons MSG_TYPE_LABELREQUEST))
     | Some fn \<Rightarrow>
         if fn_nexthops fn = []
         then Inr (lde_send_notification s p S_NO_ROUTE (map_msg_id m) (htons MSG_TYPE_LABELREQUEST))
         else
           bindE (case f of FEC_PWID _ _ _ \<Rightarrow> Inr False | _ \<Rightarrow> lde_nbr_is_nexthop fn ln) (\<lambda>loop.
           if loop
           then Inr (lde_send_notification s p S_LOOP_DETECTED (map_msg_id m) (htons MSG_TYPE_LABELREQUEST))
           else if fec_find (ln_recv_req ln) f \<noteq> None then Inr s
           else
             bindE (lde_req_add s p f False) (\<lambda>(s1, ok).
             let s2 = (if ok then lde_req_set s1 p f (ntohl (map_msg_id m)) else s1) in
             lde_send_labelmapping s2 p f True))))"

text \<open>LRl.3 to LRl.6 for one class.\<close>

definition release_fec :: "map_msg \<Rightarrow> u32 \<Rightarrow> lde \<Rightarrow> fec \<Rightarrow> lde res" where
  "release_fec m p s f =
     bindE (get_ln s p) (\<lambda>ln.
     let s1 = (case fec_find (ln_sent_wdraw ln) f of
                 Some lw_label \<Rightarrow>
                   if map_label m = NO_LABEL \<or> (lw_label \<noteq> NO_LABEL \<and> map_label m = lw_label)
                   then lde_wdraw_del s p f else s
               | None \<Rightarrow> s)
     in Inr (case fec_find (ln_sent_map ln) f of
               Some me \<Rightarrow>
                 if map_label m = NO_LABEL \<or> map_label m = map_label me
                 then lde_map_del s1 p f True else s1
             | None \<Rightarrow> s1))"

definition lde_check_release :: "lde \<Rightarrow> map_msg \<Rightarrow> u32 \<Rightarrow> lde res" where
  "lde_check_release s m p =
     (if map_type m = MAP_TYPE_PWID \<and> \<not> has_flag (map_flags m) F_MAP_PW_ID then Inr s
      else bindE (get_ln s p) (\<lambda>ln.
        bindE (lde_map2fec m (ln_id ln)) (\<lambda>f.
        if fec_find (ft s) f = None then Inr s else release_fec m p s f)))"

definition lde_check_release_wcard :: "lde \<Rightarrow> map_msg \<Rightarrow> u32 \<Rightarrow> lde res" where
  "lde_check_release_wcard s m p = foldE (release_fec m p) (rb_keys (ft s)) s"

text \<open>LWd.1 for one next hop, and LWd.3 and LWd.4 for one class.\<close>

definition withdraw_nh :: "u32 \<Rightarrow> fec \<Rightarrow> lde \<Rightarrow> nat \<Rightarrow> lde res" where
  "withdraw_nh p f s i =
     bindE (get_nh s f i) (\<lambda>fnh.
     bindE (case f of
              FEC_PWID _ _ _ \<Rightarrow> bindE (get_fn s f) (\<lambda>fn. Inr (fn_data fn \<noteq> None))
            | _ \<Rightarrow> bindE (get_ln s p) (\<lambda>ln.
                   bindE (lde_address_find ln (nh_af fnh) (nh_nexthop fnh)) (\<lambda>r. Inr (r \<noteq> None)))) (\<lambda>use.
     if \<not> use then Inr s
     else bindE (lde_send_delete_klabel s f i) (\<lambda>s1. Inr (set_remote_label s1 f i NO_LABEL))))"

definition withdraw_recv_map :: "map_msg \<Rightarrow> u32 \<Rightarrow> fec \<Rightarrow> lde \<Rightarrow> lde res" where
  "withdraw_recv_map m p f s =
     bindE (get_ln s p) (\<lambda>ln.
     Inr (case fec_find (ln_recv_map ln) f of
            Some me \<Rightarrow>
              if map_label m = NO_LABEL \<or> map_label m = map_label me then lde_map_del s p f False else s
          | None \<Rightarrow> s))"

definition lde_check_withdraw :: "lde \<Rightarrow> map_msg \<Rightarrow> u32 \<Rightarrow> lde res" where
  "lde_check_withdraw s m p =
     (if map_type m = MAP_TYPE_PWID \<and> \<not> has_flag (map_flags m) F_MAP_PW_ID then Inr s
      else bindE (get_ln s p) (\<lambda>ln.
        bindE (lde_map2fec m (ln_id ln)) (\<lambda>f.
        let s1 = fec_find_or_add s f in
        bindE (foldE (withdraw_nh p f) (nh_positions s1 f) s1) (\<lambda>s2.
        bindE (lde_send_labelrelease s2 p (Some f) (map_label m)) (\<lambda>s3.
        withdraw_recv_map m p f s3)))))"

text \<open>In the wildcard withdraw and when a neighbour goes, pseudowires are selected by lsr-id.\<close>

definition nbr_uses_nh :: "lde_nbr \<Rightarrow> fec \<Rightarrow> fec_nh \<Rightarrow> bool res" where
  "nbr_uses_nh ln f fnh =
     (case f of
        FEC_PWID _ _ lsr_id \<Rightarrow> Inr (lsr_id = ln_id ln)
      | _ \<Rightarrow> bindE (lde_address_find ln (nh_af fnh) (nh_nexthop fnh)) (\<lambda>r. Inr (r \<noteq> None)))"

definition withdraw_wcard_nh :: "u32 \<Rightarrow> fec \<Rightarrow> lde \<Rightarrow> nat \<Rightarrow> lde res" where
  "withdraw_wcard_nh p f s i =
     bindE (get_nh s f i) (\<lambda>fnh. bindE (get_ln s p) (\<lambda>ln.
     bindE (nbr_uses_nh ln f fnh) (\<lambda>use.
     if \<not> use then Inr s
     else bindE (lde_send_delete_klabel s f i) (\<lambda>s1. Inr (set_remote_label s1 f i NO_LABEL)))))"

definition lde_check_withdraw_wcard :: "lde \<Rightarrow> map_msg \<Rightarrow> u32 \<Rightarrow> lde res" where
  "lde_check_withdraw_wcard s m p =
     bindE (lde_send_labelrelease s p None (map_label m)) (\<lambda>s1.
     foldE (\<lambda>s f. bindE (foldE (withdraw_wcard_nh p f) (nh_positions s f) s) (\<lambda>s2.
                  withdraw_recv_map m p f s2)) (rb_keys (ft s1)) s1)"

section \<open>The garbage collector and the label database\<close>

definition gc_dead :: "fec_node \<Rightarrow> bool" where
  "gc_dead fn \<longleftrightarrow> fn_nexthops fn = [] \<and> fn_downstream fn = [] \<and> fn_upstream fn = []"

definition lde_gc_timer :: "lde \<Rightarrow> lde" where
  "lde_gc_timer s =
     foldl (\<lambda>s f. case fec_find (ft s) f of
                    Some fn \<Rightarrow> if gc_dead fn then s\<lparr>ft := fst (fec_remove (ft s) f)\<rparr> else s
                  | None \<Rightarrow> s) s (rb_keys (ft s))"

definition fec_snap :: "lde \<Rightarrow> u32 \<Rightarrow> lde res" where
  "fec_snap s p =
     bindE (foldE (\<lambda>s f. bindE (get_fn s f) (\<lambda>fn.
              if fn_local_label fn = NO_LABEL then Inr s else lde_send_labelmapping s p f False))
              (rb_keys (ft s)) s) (\<lambda>s1.
     Inr (emit s1 (IMSG_MAPPING_ADD_END p)))"

definition rt_dump_map :: "ctl_rt \<Rightarrow> fec \<Rightarrow> fec_node \<Rightarrow> lde \<Rightarrow> u32 \<Rightarrow> lde res" where
  "rt_dump_map ctl f fn s p =
     bindE (get_ln s p) (\<lambda>ln.
     bindE (lde_nbr_is_nexthop fn ln) (\<lambda>in_use.
     case fec_find (ln_recv_map ln) f of
       None \<Rightarrow> Inl NullDeref
     | Some m \<Rightarrow> Inr (emit s (IMSG_CTL_SHOW_LIB
         (ctl\<lparr>rt_in_use := in_use, rt_nexthop := ln_id ln, rt_remote_label := map_label m\<rparr>)))))"

definition rt_dump :: "lde \<Rightarrow> lde res" where
  "rt_dump s =
     foldE (\<lambda>s f. bindE (get_fn s f) (\<lambda>fn.
       if fn_local_label fn = NO_LABEL \<and> fn_downstream fn = [] then Inr s
       else
         let ctl = \<lparr>rt_af = AF_INET, rt_prefix = [], rt_prefixlen = 0, rt_nexthop = 0,
                    rt_local_label = fn_local_label fn, rt_remote_label = NO_LABEL, rt_in_use = False\<rparr>;
             show_fec = (\<lambda>ctl. bindE (foldE (rt_dump_map ctl f fn) (fn_downstream fn) s) (\<lambda>s1.
               if fn_downstream fn = [] then Inr (emit s1 (IMSG_CTL_SHOW_LIB ctl)) else Inr s1))
         in case f of
              FEC_IPV4 prefix prefixlen \<Rightarrow>
                show_fec (ctl\<lparr>rt_af := AF_INET, rt_prefix := of_v4 prefix, rt_prefixlen := prefixlen\<rparr>)
            | FEC_IPV6 prefix prefixlen \<Rightarrow>
                show_fec (ctl\<lparr>rt_af := AF_INET6, rt_prefix := prefix, rt_prefixlen := prefixlen\<rparr>)
            | FEC_PWID _ _ _ \<Rightarrow> Inr s)) (rb_keys (ft s)) s"

end
