(* ===== verification/Lde_Dispatch.thy ===== *)
theory Lde_Dispatch
  imports Lde_Lib
begin

text \<open>
  The rest of the label decision engine: neighbours and their addresses, the change of the egress
  label (\<^verbatim>\<open>lde.c\<close>), the pseudowires as the configuration and the neighbours drive them
  (\<^verbatim>\<open>l2vpn.c\<close>), and the dispatch of one message from the protocol engine
  (\<^verbatim>\<open>lde_dispatch_imsg\<close>) and of one route from the parent (\<^verbatim>\<open>lde_dispatch_parent\<close>).
\<close>

section \<open>Neighbours\<close>

definition lde_nbr_new :: "lde \<Rightarrow> u32 \<Rightarrow> in_addr \<Rightarrow> bool \<Rightarrow> bool \<Rightarrow> lde res" where
  "lde_nbr_new s peerid lsr_id v4_on v6_on =
     (let ln = \<lparr>ln_id = lsr_id, ln_v4_enabled = v4_on, ln_v6_enabled = v6_on,
                ln_recv_req = fec_init, ln_sent_req = fec_init, ln_recv_map = fec_init,
                ln_sent_map = fec_init, ln_sent_wdraw = fec_init, ln_addr_list = []\<rparr>;
          (t, old) = rb_insert (lde_nbrs s) peerid ln
      in if old \<noteq> None then Inl (Fatalx ''lde_nbr_new: RB_INSERT failed'')
         else Inr (s\<lparr>lde_nbrs := t\<rparr>))"

definition uninstall_nh :: "u32 \<Rightarrow> fec \<Rightarrow> lde \<Rightarrow> nat \<Rightarrow> lde res" where
  "uninstall_nh p f s i =
     bindE (get_nh s f i) (\<lambda>fnh. bindE (get_ln s p) (\<lambda>ln.
     bindE (nbr_uses_nh ln f fnh) (\<lambda>use.
     if \<not> use then Inr s
     else bindE (case f of
                   FEC_PWID _ _ _ \<Rightarrow> bindE (get_fn s f) (\<lambda>fn.
                     Inr (case fn_data fn of None \<Rightarrow> s | Some d \<Rightarrow> l2vpn_pw_reset s d))
                 | _ \<Rightarrow> Inr s) (\<lambda>s1.
          bindE (lde_send_delete_klabel s1 f i) (\<lambda>s2. Inr (set_remote_label s2 f i NO_LABEL))))))"

definition lde_address_list_free :: "lde \<Rightarrow> u32 \<Rightarrow> lde" where
  "lde_address_list_free s p = upd_ln s p (\<lambda>ln. ln\<lparr>ln_addr_list := []\<rparr>)"

text \<open>The three trees whose elements are just freed are cleared in one go.\<close>

definition lde_nbr_clear_trees :: "lde \<Rightarrow> u32 \<Rightarrow> lde res" where
  "lde_nbr_clear_trees s p =
     bindE (get_ln s p) (\<lambda>ln.
     let (t1, s1) = fec_clear (ln_recv_map ln) (\<lambda>f s. lde_map_free s p f False) s;
         s2 = upd_ln s1 p (\<lambda>ln. ln\<lparr>ln_recv_map := t1\<rparr>);
         (t2, s3) = fec_clear (ln_sent_map ln) (\<lambda>f s. lde_map_free s p f True) s2;
         s4 = upd_ln s3 p (\<lambda>ln. ln\<lparr>ln_sent_map := t2\<rparr>)
     in Inr (upd_ln s4 p (\<lambda>ln. ln\<lparr>ln_recv_req := fec_init, ln_sent_req := fec_init,
                                  ln_sent_wdraw := fec_init\<rparr>)))"

definition lde_nbr_del :: "lde \<Rightarrow> u32 \<Rightarrow> lde res" where
  "lde_nbr_del s p =
     (case lde_nbr_find s p of
        None \<Rightarrow> Inr s
      | Some _ \<Rightarrow>
          bindE (foldE (\<lambda>s f. foldE (uninstall_nh p f) (nh_positions s f) s) (rb_keys (ft s)) s) (\<lambda>s1.
          bindE (lde_nbr_clear_trees (lde_address_list_free s1 p) p) (\<lambda>s2.
          Inr (s2\<lparr>lde_nbrs := rb_remove (lde_nbrs s2) p\<rparr>))))"

definition lde_nbr_clear :: "lde \<Rightarrow> lde res" where
  "lde_nbr_clear s = foldE lde_nbr_del (rb_keys (lde_nbrs s)) s"

section \<open>Addresses of a neighbour\<close>

text \<open>The first next hop of the class with the address; \<^verbatim>\<open>break\<close> leaves the loop there.\<close>

definition nh_with_addr :: "fec_node \<Rightarrow> ldpd_addr \<Rightarrow> nat option res" where
  "nh_with_addr fn addr =
     findE (\<lambda>i. let fnh = fn_nexthops fn ! i in
              bindE (ldp_addrcmp (nh_af fnh) (nh_nexthop fnh) addr) (\<lambda>c. Inr (c = 0)))
       [0..<length (fn_nexthops fn)]"

definition addr_update_fec :: "u32 \<Rightarrow> lde_addr \<Rightarrow> bool \<Rightarrow> lde \<Rightarrow> fec \<Rightarrow> lde res" where
  "addr_update_fec p la removed s f =
     (if (case f of FEC_IPV4 _ _ \<Rightarrow> la_af la \<noteq> AF_INET
                  | FEC_IPV6 _ _ \<Rightarrow> la_af la \<noteq> AF_INET6
                  | FEC_PWID _ _ _ \<Rightarrow> True) then Inr s
      else bindE (get_fn s f) (\<lambda>fn.
        bindE (nh_with_addr fn (la_addr la)) (\<lambda>r.
        case r of
          None \<Rightarrow> Inr s
        | Some i \<Rightarrow>
            if removed then
              bindE (lde_send_delete_klabel s f i) (\<lambda>s1. Inr (set_remote_label s1 f i NO_LABEL))
            else bindE (get_ln s p) (\<lambda>ln.
              case fec_find (ln_recv_map ln) f of
                None \<Rightarrow> Inl NullDeref
              | Some m \<Rightarrow> lde_send_change_klabel (set_remote_label s f i (map_label m)) f i))))"

definition lde_nbr_addr_update :: "lde \<Rightarrow> u32 \<Rightarrow> lde_addr \<Rightarrow> bool \<Rightarrow> lde res" where
  "lde_nbr_addr_update s p la removed =
     bindE (get_ln s p) (\<lambda>ln. foldE (addr_update_fec p la removed) (rb_keys (ln_recv_map ln)) s)"

definition lde_address_add :: "lde \<Rightarrow> u32 \<Rightarrow> lde_addr \<Rightarrow> lde res" where
  "lde_address_add s p la =
     bindE (get_ln s p) (\<lambda>ln.
     bindE (lde_address_find ln (la_af la) (la_addr la)) (\<lambda>r.
     if r \<noteq> None then Inr s
     else lde_nbr_addr_update (upd_ln s p (\<lambda>ln. ln\<lparr>ln_addr_list := ln_addr_list ln @ [la]\<rparr>)) p la False))"

definition lde_address_del :: "lde \<Rightarrow> u32 \<Rightarrow> lde_addr \<Rightarrow> lde res" where
  "lde_address_del s p la =
     bindE (get_ln s p) (\<lambda>ln.
     bindE (lde_address_find ln (la_af la) (la_addr la)) (\<lambda>r.
     case r of
       None \<Rightarrow> Inr s
     | Some old \<Rightarrow>
         bindE (lde_nbr_addr_update s p old True) (\<lambda>s1.
         Inr (upd_ln s1 p (\<lambda>ln. ln\<lparr>ln_addr_list := remove1 old (ln_addr_list ln)\<rparr>)))))"

section \<open>The egress label\<close>

definition egress_update_fec :: "af \<Rightarrow> u32 \<Rightarrow> lde \<Rightarrow> fec \<Rightarrow> lde res" where
  "egress_update_fec af p s f =
     bindE (get_fn s f) (\<lambda>fn.
     if fn_local_label fn > MPLS_LABEL_RESERVED_MAX then Inr s
     else bindE (case af of
                   AF_INET \<Rightarrow> Inr (fec_get_type f = FEC_TYPE_IPV4)
                 | AF_INET6 \<Rightarrow> Inr (fec_get_type f = FEC_TYPE_IPV6)
                 | AF_UNSPEC \<Rightarrow> Inl (Fatalx ''lde_change_egress_label: unknown af'')) (\<lambda>go.
       if \<not> go then Inr s
       else bindE (egress_label s (fec_get_type f)) (\<lambda>l.
         lde_send_labelmapping (upd_fn s f (\<lambda>fn. fn\<lparr>fn_local_label := l\<rparr>)) p f False)))"

definition egress_update_nbr :: "af \<Rightarrow> bool \<Rightarrow> lde \<Rightarrow> u32 \<Rightarrow> lde res" where
  "egress_update_nbr af was_implicit s p =
     bindE (get_ln s p) (\<lambda>ln.
     bindE
       (if was_implicit then lde_send_labelwithdraw s p None MPLS_LABEL_IMPLNULL None
        else
          bindE (if ln_v4_enabled ln then lde_send_labelwithdraw s p None MPLS_LABEL_IPV4NULL None
                 else Inr s) (\<lambda>s1.
          if ln_v6_enabled ln then lde_send_labelwithdraw s1 p None MPLS_LABEL_IPV6NULL None
          else Inr s1)) (\<lambda>s2.
     bindE (foldE (egress_update_fec af p) (rb_keys (ft s2)) s2) (\<lambda>s3.
     Inr (emit s3 (IMSG_MAPPING_ADD_END p)))))"

definition lde_change_egress_label :: "lde \<Rightarrow> af \<Rightarrow> bool \<Rightarrow> lde res" where
  "lde_change_egress_label s af was_implicit =
     foldE (egress_update_nbr af was_implicit) (rb_keys (lde_nbrs s)) s"

section \<open>Pseudowires\<close>

definition l2vpn_pw_init :: "lde \<Rightarrow> nat \<Rightarrow> lde res" where
  "l2vpn_pw_init s d =
     (let s1 = l2vpn_pw_reset s d in
      bindE (get_pw s1 d) (\<lambda>pw. bindE (l2vpn_pw_fec s1 pw) (\<lambda>f.
      lde_kernel_insert s1 f AF_INET (of_v4 (pw_lsr_id pw)) 0 False (Some d))))"

definition l2vpn_pw_exit :: "lde \<Rightarrow> nat \<Rightarrow> lde res" where
  "l2vpn_pw_exit s d =
     bindE (get_pw s d) (\<lambda>pw. bindE (l2vpn_pw_fec s pw) (\<lambda>f.
     lde_kernel_remove s f AF_INET (of_v4 (pw_lsr_id pw)) 0))"

definition l2vpn_init :: "lde \<Rightarrow> nat \<Rightarrow> lde res" where
  "l2vpn_init s l = bindE (get_l2vpn s l) (\<lambda>l2vpn. foldE l2vpn_pw_init (l2_pw_list l2vpn) s)"

definition l2vpn_exit :: "lde \<Rightarrow> nat \<Rightarrow> lde res" where
  "l2vpn_exit s l = bindE (get_l2vpn s l) (\<lambda>l2vpn. foldE l2vpn_pw_exit (l2_pw_list l2vpn) s)"

definition l2vpn_recv_pw_status :: "lde \<Rightarrow> u32 \<Rightarrow> notify_msg \<Rightarrow> lde res" where
  "l2vpn_recv_pw_status s p nm =
     (if \<not> has_flag (map_flags (nm_fec nm)) F_MAP_PW_ID then Inr s
      else bindE (get_ln s p) (\<lambda>ln.
        bindE (lde_map2fec (nm_fec nm) (ln_id ln)) (\<lambda>f.
        case fec_find (ft s) f of
          None \<Rightarrow> Inr s
        | Some fn \<Rightarrow>
            (case fn_data fn of
               None \<Rightarrow> Inr s
             | Some d \<Rightarrow>
                 bindE (get_pw s d) (\<lambda>pw.
                 bindE (fec_nh_find fn AF_INET (of_v4 (ln_id ln)) 0) (\<lambda>r.
                 case r of
                   None \<Rightarrow> Inr s
                 | Some i \<Rightarrow>
                     if pw_remote_status pw = nm_pw_status nm then Inr s
                     else
                       let pw' = pw\<lparr>pw_remote_status := nm_pw_status nm\<rparr>;
                           s1 = upd_pw s d (\<lambda>_. pw')
                       in bindE (l2vpn_pw_ok s1 pw' (fn_nexthops fn ! i)) (\<lambda>ok.
                          if ok then lde_send_change_klabel s1 f i
                          else lde_send_delete_klabel s1 f i)))))))"

definition zero_ctl_pw :: ctl_pw where
  "zero_ctl_pw = \<lparr>ctlpw_type = 0, ctlpw_ifname = [], ctlpw_pwid = 0, ctlpw_lsr_id = 0,
     ctlpw_local_label = 0, ctlpw_local_gid = 0, ctlpw_local_ifmtu = 0, ctlpw_remote_label = 0,
     ctlpw_remote_gid = 0, ctlpw_remote_ifmtu = 0, ctlpw_status = 0\<rparr>"

definition l2vpn_pw_ctl :: "lde \<Rightarrow> lde res" where
  "l2vpn_pw_ctl s =
     foldE (\<lambda>s l. bindE (get_l2vpn s l) (\<lambda>l2vpn.
       foldE (\<lambda>s d. bindE (get_pw s d) (\<lambda>pw.
         Inr (emit s (IMSG_CTL_SHOW_L2VPN_PW
           (zero_ctl_pw\<lparr>ctlpw_ifname := pw_ifname pw, ctlpw_pwid := pw_pwid pw,
              ctlpw_lsr_id := pw_lsr_id pw,
              ctlpw_status := ucast (pw_flags pw AND F_PW_STATUS_UP)\<rparr>))))) (l2_pw_list l2vpn) s))
       (l2vpn_list s) s"

definition binding_of_fec :: "lde \<Rightarrow> fec \<Rightarrow> lde res" where
  "binding_of_fec s f =
     (case f of
        FEC_PWID type pwid lsr_id \<Rightarrow>
          bindE (get_fn s f) (\<lambda>fn.
          if fn_local_label fn = NO_LABEL \<and> fn_downstream fn = [] then Inr s
          else
            bindE (case fn_data fn of
                     None \<Rightarrow> Inr (zero_ctl_pw\<lparr>ctlpw_local_label := NO_LABEL\<rparr>)
                   | Some d \<Rightarrow> bindE (get_pw s d) (\<lambda>pw. bindE (get_l2vpn s (pw_l2vpn pw)) (\<lambda>l.
                       Inr (zero_ctl_pw\<lparr>ctlpw_local_label := fn_local_label fn,
                              ctlpw_local_ifmtu := of_int (l2_mtu l)\<rparr>)))) (\<lambda>ctl0.
            let ctl = ctl0\<lparr>ctlpw_type := type, ctlpw_pwid := pwid, ctlpw_lsr_id := lsr_id\<rparr> in
            bindE (findE (\<lambda>p. bindE (get_ln s p) (\<lambda>ln. Inr (lsr_id = ln_id ln))) (fn_downstream fn)) (\<lambda>r.
            case r of
              Some p \<Rightarrow>
                bindE (get_ln s p) (\<lambda>ln.
                case fec_find (ln_recv_map ln) f of
                  None \<Rightarrow> Inl NullDeref
                | Some m \<Rightarrow>
                    let ctl1 = ctl\<lparr>ctlpw_remote_label := map_label m, ctlpw_remote_gid := map_group_id m\<rparr>;
                        ctl2 = (if has_flag (map_flags m) F_MAP_PW_IFMTU
                                then ctl1\<lparr>ctlpw_remote_ifmtu := map_ifmtu m\<rparr> else ctl1)
                    in Inr (emit s (IMSG_CTL_SHOW_L2VPN_BINDING ctl2)))
            | None \<Rightarrow>
                if fn_data fn \<noteq> None
                then Inr (emit s (IMSG_CTL_SHOW_L2VPN_BINDING (ctl\<lparr>ctlpw_remote_label := NO_LABEL\<rparr>)))
                else Inr s)))
      | _ \<Rightarrow> Inr s)"

definition l2vpn_binding_ctl :: "lde \<Rightarrow> lde res" where
  "l2vpn_binding_ctl s = foldE binding_of_fec (rb_keys (ft s)) s"

section \<open>Dispatch\<close>

text \<open>
  The messages of the protocol engine, with their payload; the lengths that
  \<^verbatim>\<open>lde_dispatch_imsg\<close> checks are those of the payload's type.
\<close>

datatype ldpe_imsg =
    LABEL_MAPPING_FULL
  | LABEL_MAPPING map_msg
  | LABEL_REQUEST map_msg
  | LABEL_RELEASE map_msg
  | LABEL_WITHDRAW map_msg
  | LABEL_ABORT map_msg
  | ADDRESS_ADD lde_addr
  | ADDRESS_DEL lde_addr
  | NOTIFICATION notify_msg
  | NEIGHBOR_UP in_addr bool bool
  | NEIGHBOR_DOWN
  | CTL_SHOW_LIB
  | CTL_SHOW_L2VPN_PW
  | CTL_SHOW_L2VPN_BINDING

text \<open>\<^verbatim>\<open>ln = lde_nbr_find(peerid); if (ln == NULL) { log_debug(...); break; }\<close>\<close>

definition with_nbr :: "lde \<Rightarrow> u32 \<Rightarrow> lde res \<Rightarrow> lde res" where
  "with_nbr s peerid r = (if lde_nbr_find s peerid = None then Inr s else r)"

definition lde_dispatch_imsg :: "lde \<Rightarrow> u32 \<Rightarrow> ldpe_imsg \<Rightarrow> lde res" where
  "lde_dispatch_imsg s peerid imsg =
     (case imsg of
        LABEL_MAPPING_FULL \<Rightarrow> with_nbr s peerid (fec_snap s peerid)
      | LABEL_MAPPING m \<Rightarrow> with_nbr s peerid (lde_check_mapping s m peerid)
      | LABEL_REQUEST m \<Rightarrow> with_nbr s peerid (lde_check_request s m peerid)
      | LABEL_RELEASE m \<Rightarrow> with_nbr s peerid
          (if map_type m = MAP_TYPE_WILDCARD then lde_check_release_wcard s m peerid
           else lde_check_release s m peerid)
      | LABEL_WITHDRAW m \<Rightarrow> with_nbr s peerid
          (if map_type m = MAP_TYPE_WILDCARD then lde_check_withdraw_wcard s m peerid
           else lde_check_withdraw s m peerid)
      | LABEL_ABORT m \<Rightarrow> with_nbr s peerid (Inr s)
      | ADDRESS_ADD la \<Rightarrow> with_nbr s peerid (lde_address_add s peerid la)
      | ADDRESS_DEL la \<Rightarrow> with_nbr s peerid (lde_address_del s peerid la)
      | NOTIFICATION nm \<Rightarrow> with_nbr s peerid
          (if nm_status_code nm = S_PW_STATUS then l2vpn_recv_pw_status s peerid nm else Inr s)
      | NEIGHBOR_UP lsr_id v4_on v6_on \<Rightarrow>
          if lde_nbr_find s peerid \<noteq> None
          then Inl (Fatalx ''lde_dispatch_imsg: neighbor already exists'')
          else lde_nbr_new s peerid lsr_id v4_on v6_on
      | NEIGHBOR_DOWN \<Rightarrow> lde_nbr_del s peerid
      | CTL_SHOW_LIB \<Rightarrow> bindE (rt_dump s) (\<lambda>s1. Inr (emit s1 IMSG_CTL_END))
      | CTL_SHOW_L2VPN_PW \<Rightarrow> bindE (l2vpn_pw_ctl s) (\<lambda>s1. Inr (emit s1 IMSG_CTL_END))
      | CTL_SHOW_L2VPN_BINDING \<Rightarrow> bindE (l2vpn_binding_ctl s) (\<lambda>s1. Inr (emit s1 IMSG_CTL_END)))"

definition kroute_fec :: "kroute \<Rightarrow> fec res" where
  "kroute_fec kr =
     (case kr_af kr of
        AF_INET \<Rightarrow> Inr (FEC_IPV4 (v4 (kr_prefix kr)) (kr_prefixlen kr))
      | AF_INET6 \<Rightarrow> Inr (FEC_IPV6 (kr_prefix kr) (kr_prefixlen kr))
      | AF_UNSPEC \<Rightarrow> Inl (Fatalx ''lde_dispatch_parent: unknown af''))"

datatype parent_imsg =
    NETWORK_ADD kroute bool   \<comment> \<open>the route and its flag \<^verbatim>\<open>F_CONNECTED\<close>\<close>
  | NETWORK_DEL kroute

definition lde_dispatch_parent :: "lde \<Rightarrow> parent_imsg \<Rightarrow> lde res" where
  "lde_dispatch_parent s imsg =
     (case imsg of
        NETWORK_ADD kr connected \<Rightarrow>
          bindE (kroute_fec kr) (\<lambda>f.
          lde_kernel_insert s f (kr_af kr) (kr_nexthop kr) (kr_priority kr) connected None)
      | NETWORK_DEL kr \<Rightarrow>
          bindE (kroute_fec kr) (\<lambda>f.
          lde_kernel_remove s f (kr_af kr) (kr_nexthop kr) (kr_priority kr)))"

end
