(* ===== verification/Lde_Inv.thy ===== *)
theory Lde_Inv
  imports Lde_Dispatch
begin

text \<open>
  The invariant of the label decision engine. Its parts: the lists of received and sent mappings
  of a class node agree with the trees of the neighbours, so that an \<^verbatim>\<open>lde_map\<close> is reachable from
  both sides or from none; every class a neighbour has mapped has a node; a received mapping is
  filed under the class it names; every next hop has an
  address family; a pseudowire class with a next hop has its pseudowire; and no pointer of the
  configuration dangles.

  The operations that only send messages keep the shape of the state (everything but labels,
  pending requests and withdraws, pseudowire status and the output). \<open>keeps\<close> is the relation the
  loops over next hops, classes and neighbours are proved with: the invariant is kept and all that
  the loops themselves range over is unchanged.
\<close>

section \<open>The invariant\<close>

definition has_recv_map :: "lde \<Rightarrow> u32 \<Rightarrow> fec \<Rightarrow> bool" where
  "has_recv_map s p f \<longleftrightarrow>
     (\<exists>ln. rb_find (lde_nbrs s) p = Some ln \<and> fec_find (ln_recv_map ln) f \<noteq> None)"

definition has_sent_map :: "lde \<Rightarrow> u32 \<Rightarrow> fec \<Rightarrow> bool" where
  "has_sent_map s p f \<longleftrightarrow>
     (\<exists>ln. rb_find (lde_nbrs s) p = Some ln \<and> fec_find (ln_sent_map ln) f \<noteq> None)"

definition node_ok :: "lde \<Rightarrow> fec \<Rightarrow> fec_node \<Rightarrow> bool" where
  "node_ok s f fn \<longleftrightarrow>
     (\<forall>nh\<in>set (fn_nexthops fn). nh_af nh \<noteq> AF_UNSPEC) \<and>
     (fec_get_type f = FEC_TYPE_PWID \<and> fn_nexthops fn \<noteq> [] \<longrightarrow> fn_data fn \<noteq> None) \<and>
     (\<forall>d. fn_data fn = Some d \<longrightarrow> pws s d \<noteq> None) \<and>
     distinct (fn_downstream fn) \<and> distinct (fn_upstream fn) \<and>
     (\<forall>p. p \<in> set (fn_downstream fn) \<longleftrightarrow> has_recv_map s p f) \<and>
     (\<forall>p. p \<in> set (fn_upstream fn) \<longleftrightarrow> has_sent_map s p f)"

definition conf_ok :: "lde \<Rightarrow> bool" where
  "conf_ok s \<longleftrightarrow>
     (\<forall>d pw. pws s d = Some pw \<longrightarrow> pw_af pw \<noteq> AF_UNSPEC \<and> l2vpns s (pw_l2vpn pw) \<noteq> None) \<and>
     (\<forall>l\<in>set (l2vpn_list s). l2vpns s l \<noteq> None) \<and>
     (\<forall>l l2. l2vpns s l = Some l2 \<longrightarrow> (\<forall>d\<in>set (l2_pw_list l2). pws s d \<noteq> None))"

definition recv_ok :: "lde \<Rightarrow> bool" where
  "recv_ok s \<longleftrightarrow>
     (\<forall>p ln f m. rb_find (lde_nbrs s) p = Some ln \<and> fec_find (ln_recv_map ln) f = Some m \<longrightarrow>
        lde_map2fec m (ln_id ln) = Inr f)"

definition lde_inv :: "lde \<Rightarrow> bool" where
  "lde_inv s \<longleftrightarrow>
     (\<forall>f fn. fec_find (ft s) f = Some fn \<longrightarrow> node_ok s f fn) \<and>
     (\<forall>p f. has_recv_map s p f \<or> has_sent_map s p f \<longrightarrow> fec_find (ft s) f \<noteq> None) \<and>
     recv_ok s \<and> conf_ok s"

section \<open>Shapes\<close>

definition nh_keys :: "fec_node \<Rightarrow> (af \<times> ldpd_addr \<times> u8) list" where
  "nh_keys fn = map (\<lambda>nh. (nh_af nh, nh_nexthop nh, nh_priority nh)) (fn_nexthops fn)"

definition node_core :: "fec_node \<Rightarrow> (af \<times> ldpd_addr \<times> u8) list \<times> u32 list \<times> nat option" where
  "node_core fn = (nh_keys fn, fn_downstream fn, fn_data fn)"

definition nbr_core ::
    "lde_nbr \<Rightarrow> in_addr \<times> bool \<times> bool \<times> (fec \<Rightarrow> map_msg option) \<times> lde_addr list" where
  "nbr_core ln = (ln_id ln, ln_v4_enabled ln, ln_v6_enabled ln, fec_find (ln_recv_map ln), ln_addr_list ln)"

definition sent_fecs :: "lde_nbr \<Rightarrow> fec set" where
  "sent_fecs ln = {f. fec_find (ln_sent_map ln) f \<noteq> None}"

definition pw_core :: "l2vpn_pw \<Rightarrow> nat \<times> in_addr \<times> af \<times> ldpd_addr \<times> u32" where
  "pw_core pw = (pw_l2vpn pw, pw_lsr_id pw, pw_af pw, pw_addr pw, pw_pwid pw)"

definition same_core :: "lde \<Rightarrow> lde \<Rightarrow> bool" where
  "same_core s t \<longleftrightarrow>
     (\<forall>f. map_option node_core (fec_find (ft s) f) = map_option node_core (fec_find (ft t) f)) \<and>
     (\<forall>p. map_option nbr_core (rb_find (lde_nbrs s) p) = map_option nbr_core (rb_find (lde_nbrs t) p)) \<and>
     (\<forall>d. map_option pw_core (pws s d) = map_option pw_core (pws t d)) \<and>
     l2vpns s = l2vpns t \<and> l2vpn_list s = l2vpn_list t"

definition same_shape :: "lde \<Rightarrow> lde \<Rightarrow> bool" where
  "same_shape s t \<longleftrightarrow> same_core s t \<and>
     (\<forall>f. map_option fn_upstream (fec_find (ft s) f) = map_option fn_upstream (fec_find (ft t) f)) \<and>
     (\<forall>p. map_option sent_fecs (rb_find (lde_nbrs s) p) = map_option sent_fecs (rb_find (lde_nbrs t) p))"

definition keeps :: "lde \<Rightarrow> lde \<Rightarrow> bool" where
  "keeps s t \<longleftrightarrow> same_core s t \<and> (lde_inv s \<longrightarrow> lde_inv t)"

lemma same_core_refl [simp]: "same_core s s"
  by (simp add: same_core_def)

lemma same_core_trans [trans]: "same_core s t \<Longrightarrow> same_core t u \<Longrightarrow> same_core s u"
  by (simp add: same_core_def)

lemma keeps_refl [simp, intro]: "keeps s s"
  by (simp add: keeps_def)

lemma keeps_trans [trans]: "keeps s t \<Longrightarrow> keeps t u \<Longrightarrow> keeps s u"
  by (auto simp: keeps_def intro: same_core_trans)

lemma same_shape_refl [simp]: "same_shape s s"
  by (simp add: same_shape_def)

lemma same_shape_trans [trans]: "same_shape s t \<Longrightarrow> same_shape t u \<Longrightarrow> same_shape s u"
  by (auto simp: same_shape_def intro: same_core_trans)

lemma map_option_core_eq:
  "map_option g x = map_option g y \<Longrightarrow> x = Some a \<Longrightarrow> \<exists>b. y = Some b \<and> g b = g a"
  by (cases y) auto

lemma same_core_node:
  assumes "same_core s t" "fec_find (ft s) f = Some fn"
  obtains fn' where "fec_find (ft t) f = Some fn'" "nh_keys fn' = nh_keys fn"
    "length (fn_nexthops fn') = length (fn_nexthops fn)"
    "fn_downstream fn' = fn_downstream fn" "fn_data fn' = fn_data fn"
proof -
  have "map_option node_core (fec_find (ft s) f) = map_option node_core (fec_find (ft t) f)"
    using assms(1) unfolding same_core_def by blast
  then obtain fn' where fn': "fec_find (ft t) f = Some fn'" "node_core fn' = node_core fn"
    using assms(2) map_option_core_eq by metis
  then have k: "nh_keys fn' = nh_keys fn" by (simp add: node_core_def)
  then have "length (nh_keys fn') = length (nh_keys fn)" by simp
  then have "length (fn_nexthops fn') = length (fn_nexthops fn)" by (simp add: nh_keys_def)
  with fn' k that show thesis by (simp add: node_core_def)
qed

lemma same_core_nbr:
  assumes "same_core s t" "rb_find (lde_nbrs s) p = Some ln"
  obtains ln' where "rb_find (lde_nbrs t) p = Some ln'" "ln_id ln' = ln_id ln"
    "ln_v4_enabled ln' = ln_v4_enabled ln" "ln_v6_enabled ln' = ln_v6_enabled ln"
    "ln_addr_list ln' = ln_addr_list ln"
    "\<And>f. fec_find (ln_recv_map ln') f = fec_find (ln_recv_map ln) f"
proof -
  have "map_option nbr_core (rb_find (lde_nbrs s) p) = map_option nbr_core (rb_find (lde_nbrs t) p)"
    using assms(1) unfolding same_core_def by blast
  then obtain ln' where ln': "rb_find (lde_nbrs t) p = Some ln'" "nbr_core ln' = nbr_core ln"
    using assms(2) map_option_core_eq by metis
  with that show thesis by (simp add: nbr_core_def)
qed

lemma same_core_sym: "same_core s t \<Longrightarrow> same_core t s"
  by (simp add: same_core_def)

lemma same_core_recv_ok: "same_core s t \<Longrightarrow> recv_ok s \<Longrightarrow> recv_ok t"
  unfolding recv_ok_def by (metis same_core_nbr same_core_sym)

lemma same_core_has_recv_map: "same_core s t \<Longrightarrow> has_recv_map t p f = has_recv_map s p f"
proof -
  assume "same_core s t"
  then have "map_option nbr_core (rb_find (lde_nbrs s) p) = map_option nbr_core (rb_find (lde_nbrs t) p)"
    unfolding same_core_def by blast
  then show ?thesis
    by (cases "rb_find (lde_nbrs s) p"; cases "rb_find (lde_nbrs t) p")
      (auto simp: has_recv_map_def nbr_core_def set_eq_iff)
qed

lemma same_core_find_None: "same_core s t \<Longrightarrow> fec_find (ft t) f = None \<longleftrightarrow> fec_find (ft s) f = None"
  unfolding same_core_def by (metis map_option_is_None)

lemma same_core_nbr_None:
  "same_core s t \<Longrightarrow> rb_find (lde_nbrs t) p = None \<longleftrightarrow> rb_find (lde_nbrs s) p = None"
  unfolding same_core_def by (metis map_option_is_None)

lemma same_core_pws_None: "same_core s t \<Longrightarrow> pws t d = None \<longleftrightarrow> pws s d = None"
  unfolding same_core_def by (metis map_option_is_None)

lemma same_core_conf_ok: "same_core s t \<Longrightarrow> conf_ok s \<Longrightarrow> conf_ok t"
proof -
  assume core: "same_core s t" and ok: "conf_ok s"
  have pw: "\<exists>pw'. pws s d = Some pw' \<and> pw_core pw' = pw_core pw" if "pws t d = Some pw" for d pw
    using core that map_option_core_eq [of pw_core "pws t d" "pws s d"] by (simp add: same_core_def)
  have l: "l2vpns t = l2vpns s" "l2vpn_list t = l2vpn_list s"
    using core by (simp_all add: same_core_def)
  have "pw_af pw \<noteq> AF_UNSPEC \<and> l2vpns t (pw_l2vpn pw) \<noteq> None" if "pws t d = Some pw" for d pw
  proof -
    from pw [OF that] obtain pw' where "pws s d = Some pw'" "pw_core pw' = pw_core pw" by blast
    moreover from this(1) ok have "pw_af pw' \<noteq> AF_UNSPEC \<and> l2vpns s (pw_l2vpn pw') \<noteq> None"
      unfolding conf_ok_def by blast
    ultimately show ?thesis by (simp add: pw_core_def l)
  qed
  with ok show "conf_ok t"
    by (auto simp: conf_ok_def l same_core_pws_None [OF core] simp del: not_None_eq)
qed

lemma same_shape_has_sent_map: "same_shape s t \<Longrightarrow> has_sent_map t p f = has_sent_map s p f"
proof -
  assume "same_shape s t"
  then have "map_option sent_fecs (rb_find (lde_nbrs s) p) = map_option sent_fecs (rb_find (lde_nbrs t) p)"
    by (simp add: same_shape_def)
  then show ?thesis
    by (cases "rb_find (lde_nbrs s) p"; cases "rb_find (lde_nbrs t) p")
      (auto simp: has_sent_map_def sent_fecs_def set_eq_iff)
qed

lemma nh_keys_af:
  assumes "nh_keys fn' = nh_keys fn"
  shows "nh_af ` set (fn_nexthops fn') = nh_af ` set (fn_nexthops fn)"
proof -
  have "map nh_af (fn_nexthops fn') = map fst (nh_keys fn')" for fn' by (simp add: nh_keys_def)
  from this [of fn'] this [of fn] assms
  have "set (map nh_af (fn_nexthops fn')) = set (map nh_af (fn_nexthops fn))" by (simp only:)
  then show ?thesis by simp
qed

lemma node_ok_transfer:
  assumes core: "same_core s t" and ok: "node_ok s f fn"
    and fn: "nh_keys fn' = nh_keys fn" "fn_downstream fn' = fn_downstream fn" "fn_data fn' = fn_data fn"
    and up: "distinct (fn_upstream fn')" "\<And>p. p \<in> set (fn_upstream fn') \<longleftrightarrow> has_sent_map t p f"
  shows "node_ok t f fn'"
proof -
  have "length (fn_nexthops fn') = length (fn_nexthops fn)"
    using arg_cong [OF fn(1), of length] by (simp add: nh_keys_def)
  then have "fn_nexthops fn' = [] \<longleftrightarrow> fn_nexthops fn = []" by auto
  moreover have "(\<forall>nh\<in>set (fn_nexthops fn'). nh_af nh \<noteq> AF_UNSPEC) \<longleftrightarrow>
      (\<forall>nh\<in>set (fn_nexthops fn). nh_af nh \<noteq> AF_UNSPEC)"
  proof -
    have "(\<forall>nh\<in>set xs. nh_af nh \<noteq> AF_UNSPEC) \<longleftrightarrow> AF_UNSPEC \<notin> nh_af ` set xs" for xs :: "fec_nh list"
      by (metis image_iff)
    then show ?thesis using nh_keys_af [OF fn(1)] by simp
  qed
  ultimately show ?thesis
    using ok fn up same_core_has_recv_map [OF core] same_core_pws_None [OF core]
    by (simp add: node_ok_def)
qed

lemma same_shape_keeps: "same_shape s t \<Longrightarrow> keeps s t"
proof -
  assume sh: "same_shape s t"
  then have core: "same_core s t" by (simp add: same_shape_def)
  have "lde_inv t" if inv: "lde_inv s"
  proof -
    have "node_ok t f fn'" if fn': "fec_find (ft t) f = Some fn'" for f fn'
    proof -
      from same_core_node [OF same_core_sym [OF core] fn'] obtain fn where
        fn: "fec_find (ft s) f = Some fn" "nh_keys fn = nh_keys fn'"
          "fn_downstream fn = fn_downstream fn'" "fn_data fn = fn_data fn'" by metis
      have ok: "node_ok s f fn" using inv fn(1) by (simp add: lde_inv_def)
      have up: "fn_upstream fn' = fn_upstream fn"
        using sh fn(1) fn' unfolding same_shape_def by (metis option.map(2) option.inject)
      show ?thesis
        using ok same_shape_has_sent_map [OF sh] up
        by (intro node_ok_transfer [OF core ok]) (simp_all add: fn node_ok_def)
    qed
    then show ?thesis
      using inv same_core_has_recv_map [OF core] same_shape_has_sent_map [OF sh]
        same_core_find_None [OF core] same_core_conf_ok [OF core] same_core_recv_ok [OF core]
      by (auto simp: lde_inv_def)
  qed
  with core show ?thesis by (simp add: keeps_def)
qed

end
