(* ===== verification/Lde_Frame.thy ===== *)
theory Lde_Frame
  imports Lde_Inv
begin

text \<open>
  No function that sends faults in a state that satisfies the invariant, and each keeps it: the
  forwarding-table messages, the synchronisation of pseudowires, and the label messages with the
  records they leave. These are the lemmas the handlers are proved with.
\<close>

lemma get_Some [simp]:
  "rb_find (lde_nbrs s) p = Some ln \<Longrightarrow> get_ln s p = Inr ln"
  "fec_find (ft s) f = Some fn \<Longrightarrow> get_fn s f = Inr fn"
  "pws s d = Some pw \<Longrightarrow> get_pw s d = Inr pw"
  "l2vpns s l = Some l2 \<Longrightarrow> get_l2vpn s l = Inr l2"
  by simp_all

section \<open>Updates that keep the shape\<close>

lemma same_shape_emit: "same_shape s (emit s m)"
  by (simp add: same_shape_def same_core_def)

lemma same_shape_upd_pw:
  assumes "\<And>pw. pws s d = Some pw \<Longrightarrow> pw_core (g pw) = pw_core pw"
  shows "same_shape s (upd_pw s d g)"
  using assms by (cases "pws s d") (auto simp: same_shape_def same_core_def)

lemma same_shape_upd_fn:
  assumes "\<And>fn. node_core (g fn) = node_core fn \<and> fn_upstream (g fn) = fn_upstream fn"
  shows "same_shape s (upd_fn s f g)"
  using assms by (cases "fec_find (ft s) f") (auto simp: same_shape_def same_core_def)

lemma same_shape_upd_ln:
  assumes "\<And>ln. nbr_core (g ln) = nbr_core ln \<and> sent_fecs (g ln) = sent_fecs ln"
  shows "same_shape s (upd_ln s p g)"
  using assms by (cases "rb_find (lde_nbrs s) p") (auto simp: same_shape_def same_core_def)

lemma same_shape_upd_nh:
  assumes "\<And>nh. nh_af (g nh) = nh_af nh \<and> nh_nexthop (g nh) = nh_nexthop nh \<and> nh_priority (g nh) = nh_priority nh"
  shows "same_shape s (upd_nh s f i g)"
proof -
  have "map (\<lambda>nh. (nh_af nh, nh_nexthop nh, nh_priority nh)) (xs[i := g (xs ! i)]) =
      map (\<lambda>nh. (nh_af nh, nh_nexthop nh, nh_priority nh)) xs" for xs
    using assms by (cases "i < length xs") (simp_all add: map_update list_update_same_conv list_update_beyond)
  then show ?thesis
    unfolding upd_nh_def
    by (intro same_shape_upd_fn) (simp add: node_core_def nh_keys_def)
qed

lemma same_shape_last_label: "same_shape s (s\<lparr>last_label := l\<rparr>)"
  by (simp add: same_shape_def same_core_def)

lemma keeps_step: "keeps s t \<Longrightarrow> same_shape t u \<Longrightarrow> keeps s u"
  using keeps_trans same_shape_keeps by blast

lemma keeps_emit [intro]: "keeps s t \<Longrightarrow> keeps s (emit t m)"
  by (rule keeps_step [OF _ same_shape_emit])

lemma keeps_upd_pw [intro]:
  "keeps s t \<Longrightarrow> (\<And>pw. pws t d = Some pw \<Longrightarrow> pw_core (g pw) = pw_core pw) \<Longrightarrow> keeps s (upd_pw t d g)"
  by (rule keeps_step [OF _ same_shape_upd_pw])

lemma keeps_remote_label [intro]: "keeps s t \<Longrightarrow> keeps s (set_remote_label t f i l)"
  unfolding set_remote_label_def by (rule keeps_step [OF _ same_shape_upd_nh]) simp_all

lemma keeps_local_label [intro]: "keeps s t \<Longrightarrow> keeps s (upd_fn t f (\<lambda>fn. fn\<lparr>fn_local_label := l\<rparr>))"
  by (rule keeps_step [OF _ same_shape_upd_fn]) (simp_all add: node_core_def nh_keys_def)

lemma keeps_assign_label [intro]: "keeps s t \<Longrightarrow> keeps s (fst (lde_assign_label t))"
  unfolding lde_assign_label_def Let_def fst_conv by (rule keeps_step [OF _ same_shape_last_label])

lemma keeps_req_wdraw [intro]:
  "keeps s t \<Longrightarrow> keeps s (lde_req_del t p f b)"
  "keeps s t \<Longrightarrow> keeps s (lde_req_set t p f i)"
  "keeps s t \<Longrightarrow> keeps s (lde_wdraw_add t p f)"
  "keeps s t \<Longrightarrow> keeps s (lde_wdraw_del t p f)"
  unfolding lde_req_del_def lde_req_set_def lde_wdraw_add_def lde_wdraw_del_def
  by (rule keeps_step [OF _ same_shape_upd_ln]; simp add: nbr_core_def sent_fecs_def)+

lemma keeps_pw_reset [intro]: "keeps s t \<Longrightarrow> keeps s (l2vpn_pw_reset t d)"
  unfolding l2vpn_pw_reset_def by (rule keeps_upd_pw) (simp_all add: pw_reset_def Let_def pw_core_def)

section \<open>Rules for sequences and loops\<close>

lemma keeps_inv: "lde_inv s \<Longrightarrow> keeps s t \<Longrightarrow> lde_inv t"
  by (simp add: keeps_def)

lemma okE_keeps_bind:
  assumes "okE m (keeps s)" and "\<And>t. keeps s t \<Longrightarrow> okE (g t) (keeps t)"
  shows "okE (bindE m g) (keeps s)"
  using assms(1)
proof (rule okE_bind)
  fix t assume "keeps s t"
  with assms(2) [OF this] show "okE (g t) (keeps s)" by (blast intro: okE_mono keeps_trans)
qed

lemma okE_keeps_foldE:
  assumes "\<And>t x. x \<in> set xs \<Longrightarrow> keeps s t \<Longrightarrow> okE (f t x) (keeps t)"
  shows "okE (foldE f xs s) (keeps s)"
proof (rule okE_foldE)
  fix t x assume "x \<in> set xs" "keeps s t"
  with assms [OF this] show "okE (f t x) (keeps s)" by (blast intro: okE_mono keeps_trans)
qed simp

lemma okE_keeps_trans: "keeps s t \<Longrightarrow> okE r (keeps t) \<Longrightarrow> okE r (keeps s)"
  by (blast intro: okE_mono keeps_trans)

section \<open>What the loops range over\<close>

definition nh_valid :: "lde \<Rightarrow> fec \<Rightarrow> nat \<Rightarrow> bool" where
  "nh_valid s f i \<longleftrightarrow> (\<exists>fn. fec_find (ft s) f = Some fn \<and> i < length (fn_nexthops fn))"

definition fec_valid :: "lde \<Rightarrow> fec \<Rightarrow> bool" where
  "fec_valid s f \<longleftrightarrow> fec_find (ft s) f \<noteq> None"

definition nbr_valid :: "lde \<Rightarrow> u32 \<Rightarrow> bool" where
  "nbr_valid s p \<longleftrightarrow> rb_find (lde_nbrs s) p \<noteq> None"

definition pw_valid :: "lde \<Rightarrow> nat \<Rightarrow> bool" where
  "pw_valid s d \<longleftrightarrow> pws s d \<noteq> None"

lemma keeps_nh_valid: "keeps s t \<Longrightarrow> nh_valid s f i \<Longrightarrow> nh_valid t f i"
  unfolding nh_valid_def keeps_def by (metis same_core_node)

lemma keeps_valid:
  "keeps s t \<Longrightarrow> fec_valid t f = fec_valid s f"
  "keeps s t \<Longrightarrow> nbr_valid t p = nbr_valid s p"
  "keeps s t \<Longrightarrow> pw_valid t d = pw_valid s d"
  by (simp_all add: keeps_def fec_valid_def nbr_valid_def pw_valid_def same_core_find_None
    same_core_nbr_None same_core_pws_None del: not_None_eq)

lemma nh_validE:
  assumes "nh_valid s f i"
  obtains fn where "fec_find (ft s) f = Some fn" "get_fn s f = Inr fn" "i < length (fn_nexthops fn)"
    "get_nh s f i = Inr (fn_nexthops fn ! i)"
proof -
  from assms obtain fn where fn: "fec_find (ft s) f = Some fn" "i < length (fn_nexthops fn)"
    by (auto simp: nh_valid_def)
  then have "get_nh s f i = Inr (fn_nexthops fn ! i)" by (simp add: get_nh_def)
  with fn that show thesis by simp
qed

lemma nh_positions_valid: "i \<in> set (nh_positions s f) \<Longrightarrow> nh_valid s f i"
  by (cases "fec_find (ft s) f") (auto simp: nh_positions_def nh_valid_def)

lemma keys_valid:
  "f \<in> set (rb_keys (ft s)) \<longleftrightarrow> fec_valid s f"
  "p \<in> set (rb_keys (lde_nbrs s)) \<longleftrightarrow> nbr_valid s p"
  by (simp_all add: fec_valid_def nbr_valid_def fec_find_def del: not_None_eq)

lemma inv_node: "lde_inv s \<Longrightarrow> fec_find (ft s) f = Some fn \<Longrightarrow> node_ok s f fn"
  by (simp add: lde_inv_def)

lemma inv_conf: "lde_inv s \<Longrightarrow> conf_ok s"
  by (simp add: lde_inv_def)

lemma inv_nh_af:
  "lde_inv s \<Longrightarrow> fec_find (ft s) f = Some fn \<Longrightarrow> i < length (fn_nexthops fn) \<Longrightarrow>
   nh_af (fn_nexthops fn ! i) \<noteq> AF_UNSPEC"
  using inv_node [of s f fn] by (auto simp: node_ok_def)

lemma inv_pw:
  assumes "lde_inv s" "pws s d = Some pw"
  obtains l where "pw_af pw \<noteq> AF_UNSPEC" "l2vpns s (pw_l2vpn pw) = Some l"
  using assms inv_conf [OF assms(1)] unfolding conf_ok_def by blast

lemma inv_fn_pw:
  assumes "lde_inv s" "fec_find (ft s) f = Some fn" "fn_nexthops fn \<noteq> []" "fec_get_type f = FEC_TYPE_PWID"
  obtains d pw where "fn_data fn = Some d" "pws s d = Some pw" "fn_pw s fn = Inr (d, pw)"
proof -
  from inv_node [OF assms(1,2)] assms(3,4) obtain d pw where "fn_data fn = Some d" "pws s d = Some pw"
    by (auto simp: node_ok_def)
  with that show thesis by (auto simp: fn_pw_def get_pw_def)
qed

section \<open>Pseudowires\<close>

lemma change_klabel_pw_keeps:
  assumes "lde_inv s" "nh_valid s f i" "fec_get_type f = FEC_TYPE_PWID"
  shows "okE (change_klabel_pw s f i) (keeps s)"
proof -
  from nh_validE [OF assms(2)] obtain fn where fn: "fec_find (ft s) f = Some fn"
    "i < length (fn_nexthops fn)" "get_nh s f i = Inr (fn_nexthops fn ! i)" by metis
  then have "fn_nexthops fn \<noteq> []" by auto
  with inv_fn_pw [OF assms(1) fn(1) _ assms(3)] obtain d pw
    where "pws s d = Some pw" "fn_pw s fn = Inr (d, pw)" by metis
  with fn show ?thesis
    by (auto simp: change_klabel_pw_def Let_def pw_core_def intro!: keeps_emit keeps_upd_pw)
qed

lemma delete_klabel_pw_keeps:
  assumes "lde_inv s" "nh_valid s f i" "fec_get_type f = FEC_TYPE_PWID"
  shows "okE (delete_klabel_pw s f i) (keeps s)"
proof -
  from nh_validE [OF assms(2)] obtain fn where fn: "fec_find (ft s) f = Some fn"
    "i < length (fn_nexthops fn)" "get_nh s f i = Inr (fn_nexthops fn ! i)" by metis
  then have "fn_nexthops fn \<noteq> []" by auto
  with inv_fn_pw [OF assms(1) fn(1) _ assms(3)] obtain d pw
    where "pws s d = Some pw" "fn_pw s fn = Inr (d, pw)" by metis
  with fn show ?thesis
    by (auto simp: delete_klabel_pw_def Let_def pw_core_def intro!: keeps_emit keeps_upd_pw)
qed

lemma l2vpn_pw_ok_total:
  assumes "lde_inv s" "pws s d = Some pw0" "pw_core pw = pw_core pw0"
  shows "okE (l2vpn_pw_ok s pw nh) (\<lambda>_. True)"
proof -
  from inv_pw [OF assms(1,2)] obtain l where "pw_af pw0 \<noteq> AF_UNSPEC" "l2vpns s (pw_l2vpn pw0) = Some l" .
  with assms(3) have "pw_af pw \<noteq> AF_UNSPEC" "l2vpns s (pw_l2vpn pw) = Some l" by (simp_all add: pw_core_def)
  then show ?thesis
    by (cases "pw_af pw") (auto simp: l2vpn_pw_ok_def split: option.split)
qed

lemma fec_nh_find_total:
  assumes "af \<noteq> AF_UNSPEC"
  shows "fec_nh_find fn af nexthop prio =
    Inr (find (\<lambda>i. nh_af (fn_nexthops fn ! i) = af \<and> addr_eq af (nh_nexthop (fn_nexthops fn ! i)) nexthop \<and>
           nh_priority (fn_nexthops fn ! i) = prio) [0..<length (fn_nexthops fn)])"
  unfolding fec_nh_find_def
  by (rule findE_total)
    (simp add: Let_def ldp_addrcmp_addr_eq [OF assms, where f = "\<lambda>b. Inr (b \<and> _)"])

lemma fec_nh_find_valid:
  assumes "af \<noteq> AF_UNSPEC" "fec_find (ft s) f = Some fn"
  shows "okE (fec_nh_find fn af nexthop prio) (\<lambda>r. \<forall>i. r = Some i \<longrightarrow> nh_valid s f i)"
  using assms by (auto simp: fec_nh_find_total nh_valid_def find_Some_iff)

lemma l2vpn_pw_fec_total:
  assumes "lde_inv s" "pws s d = Some pw"
  shows "okE (l2vpn_pw_fec s pw) (\<lambda>f. fec_get_type f = FEC_TYPE_PWID)"
proof -
  from inv_pw [OF assms] obtain l where "l2vpns s (pw_l2vpn pw) = Some l" by metis
  then show ?thesis by (simp add: l2vpn_pw_fec_def)
qed

lemma addrcmp_total: "af \<noteq> AF_UNSPEC \<Longrightarrow> okE (ldp_addrcmp af a b) (\<lambda>_. True)"
  using ldp_addrcmp_eq_0 [of af a b] by auto

lemma okE_True_bind: "okE m (\<lambda>_. True) \<Longrightarrow> (\<And>x. okE (f x) P) \<Longrightarrow> okE (bindE m f) P"
  by (auto simp: okE_def)

lemma sync_pw_keeps:
  assumes inv: "lde_inv s" and af: "af \<noteq> AF_UNSPEC" and d: "pw_valid s d"
  shows "okE (sync_pw af addr s d) (keeps s)"
proof -
  from d obtain pw where pw: "pws s d = Some pw" by (auto simp: pw_valid_def)
  have body: "okE (case fec_find (ft s) fec of None \<Rightarrow> Inr s
      | Some fn \<Rightarrow> bindE (fec_nh_find fn AF_INET (of_v4 (pw_lsr_id pw)) 0) (\<lambda>r.
          case r of None \<Rightarrow> Inr s
          | Some i \<Rightarrow> bindE (l2vpn_pw_ok s pw (fn_nexthops fn ! i)) (\<lambda>ok.
              if ok then change_klabel_pw s fec i else delete_klabel_pw s fec i))) (keeps s)"
    if t: "fec_get_type fec = FEC_TYPE_PWID" for fec
  proof (cases "fec_find (ft s) fec")
    case (Some fn)
    have "okE (case r of None \<Rightarrow> Inr s
          | Some i \<Rightarrow> bindE (l2vpn_pw_ok s pw (fn_nexthops fn ! i)) (\<lambda>ok.
              if ok then change_klabel_pw s fec i else delete_klabel_pw s fec i)) (keeps s)"
      if "\<forall>i. r = Some i \<longrightarrow> nh_valid s fec i" for r
      using that change_klabel_pw_keeps [OF inv _ t] delete_klabel_pw_keeps [OF inv _ t]
      by (cases r) (auto intro!: okE_True_bind [OF l2vpn_pw_ok_total [OF inv pw]])
    note rest = this
    show ?thesis
      unfolding Some option.case
      by (rule okE_bind [OF fec_nh_find_valid [OF _ Some]]) (simp, rule rest)
  qed simp
  show ?thesis
    using af by (auto simp: sync_pw_def pw
        intro!: okE_True_bind [OF addrcmp_total] okE_bind [OF l2vpn_pw_fec_total [OF inv pw] body])
qed

lemma l2vpn_sync_pws_keeps:
  assumes inv: "lde_inv s" and af: "af \<noteq> AF_UNSPEC"
  shows "okE (l2vpn_sync_pws s af addr) (keeps s)"
  unfolding l2vpn_sync_pws_def
proof (rule okE_keeps_foldE)
  fix t l assume l: "l \<in> set (l2vpn_list s)" and t: "keeps s t"
  then have invt: "lde_inv t" and eq: "l2vpn_list t = l2vpn_list s"
    using keeps_inv [OF inv] by (auto simp: keeps_def same_core_def)
  with l inv_conf [OF invt] obtain l2 where l2: "l2vpns t l = Some l2"
    and ds: "\<forall>d\<in>set (l2_pw_list l2). pw_valid t d"
    unfolding conf_ok_def pw_valid_def by (metis not_None_eq)
  have "okE (foldE (sync_pw af addr) (l2_pw_list l2) t) (keeps t)"
  proof (rule okE_keeps_foldE)
    fix u d assume "d \<in> set (l2_pw_list l2)" "keeps t u"
    with ds have "pw_valid u d" "lde_inv u" by (auto simp: keeps_valid intro: keeps_inv [OF invt])
    then show "okE (sync_pw af addr u d) (keeps u)" using sync_pw_keeps af by blast
  qed
  with l2 show "okE (bindE (get_l2vpn t l) (\<lambda>l2vpn. foldE (sync_pw af addr) (l2_pw_list l2vpn) t)) (keeps t)"
    by simp
qed

section \<open>The forwarding table\<close>

lemma lde_send_change_klabel_keeps:
  assumes inv: "lde_inv s" and v: "nh_valid s f i"
  shows "okE (lde_send_change_klabel s f i) (keeps s)"
proof -
  from nh_validE [OF v] obtain fn where fn: "get_fn s f = Inr fn" "get_nh s f i = Inr (fn_nexthops fn ! i)" by metis
  have e: "keeps s (emit s m)" for m by (rule keeps_emit) simp
  have sync: "okE (l2vpn_sync_pws (emit s m) af a) (keeps s)" if "af \<noteq> AF_UNSPEC" for m af a
    by (rule okE_keeps_trans [OF e l2vpn_sync_pws_keeps [OF keeps_inv [OF inv e] that]])
  show ?thesis
    using fn e sync change_klabel_pw_keeps [OF inv v]
    by (cases f) (auto simp: lde_send_change_klabel_def Let_def)
qed

lemma lde_send_delete_klabel_keeps:
  assumes inv: "lde_inv s" and v: "nh_valid s f i"
  shows "okE (lde_send_delete_klabel s f i) (keeps s)"
proof -
  from nh_validE [OF v] obtain fn where fn: "get_fn s f = Inr fn" "get_nh s f i = Inr (fn_nexthops fn ! i)" by metis
  have e: "keeps s (emit s m)" for m by (rule keeps_emit) simp
  have sync: "okE (l2vpn_sync_pws (emit s m) af a) (keeps s)" if "af \<noteq> AF_UNSPEC" for m af a
    by (rule okE_keeps_trans [OF e l2vpn_sync_pws_keeps [OF keeps_inv [OF inv e] that]])
  show ?thesis
    using fn e sync delete_klabel_pw_keeps [OF inv v]
    by (cases f) (auto simp: lde_send_delete_klabel_def Let_def)
qed

section \<open>Label messages\<close>

lemma nbr_guard_total:
  assumes "lde_inv s" "fec_find (ft s) f = Some fn"
  shows "okE (nbr_guard s ln f fn) (\<lambda>(_, pwo). \<forall>pw. pwo = Some pw \<longrightarrow> (\<exists>d. pws s d = Some pw))"
proof -
  have "\<exists>pw. pws s d = Some pw" if "fn_data fn = Some d" for d
    using inv_node [OF assms] that by (auto simp: node_ok_def)
  then show ?thesis
    by (cases "fn_data fn"; cases f) (force simp: nbr_guard_def)+
qed

lemma map_pw_flags_total:
  assumes "lde_inv s" "\<forall>pw. pwo = Some pw \<longrightarrow> (\<exists>d. pws s d = Some pw)"
  shows "okE (map_pw_flags s pwo m) (\<lambda>_. True)"
proof (cases pwo)
  case (Some pw)
  with assms(2) obtain d where "pws s d = Some pw" by auto
  with inv_pw [OF assms(1)] obtain l where "l2vpns s (pw_l2vpn pw) = Some l" by metis
  with Some show ?thesis by (simp add: map_pw_flags_def Let_def)
qed (simp add: map_pw_flags_def)

lemma lde_wdraw_record_keeps:
  assumes "nbr_valid s p"
  shows "okE (lde_wdraw_record s p f l) (keeps s)"
proof -
  have set: "keeps s (upd_ln t p (\<lambda>ln. ln\<lparr>ln_sent_wdraw := rb_update (ln_sent_wdraw ln) f (\<lambda>_. l)\<rparr>))"
    if "keeps s t" for t
    using that by (rule keeps_step [OF _ same_shape_upd_ln]) (simp add: nbr_core_def sent_fecs_def)
  from assms obtain ln where "rb_find (lde_nbrs s) p = Some ln" by (auto simp: nbr_valid_def)
  then show ?thesis by (auto simp: lde_wdraw_record_def Let_def intro!: set keeps_req_wdraw)
qed

lemma lde_send_labelwithdraw_keeps:
  assumes inv: "lde_inv s" and p: "nbr_valid s p" and f: "\<And>f. fo = Some f \<Longrightarrow> fec_valid s f"
  shows "okE (lde_send_labelwithdraw s p fo label st) (keeps s)"
proof -
  from p obtain ln where ln: "rb_find (lde_nbrs s) p = Some ln" by (auto simp: nbr_valid_def)
  have e: "keeps s (emit (emit s m) m')" for m m' by (intro keeps_emit) simp
  have rec: "okE (lde_wdraw_record t p f l) (keeps t)" if "keeps s t" for t f l
    using that p by (intro lde_wdraw_record_keeps) (simp add: keeps_valid)
  show ?thesis
  proof (cases fo)
    case None
    then show ?thesis
      by (auto simp: lde_send_labelwithdraw_def ln Let_def
          intro!: okE_keeps_trans [OF e] okE_keeps_foldE rec keeps_trans [OF e])
  next
    case (Some f)
    with f obtain fn where fn: "fec_find (ft s) f = Some fn" by (auto simp: fec_valid_def)
    show ?thesis
      unfolding lde_send_labelwithdraw_def Some option.case get_Some(1) [OF ln] get_Some(2) [OF fn] bindE_simps
      by (rule okE_bind [OF nbr_guard_total [OF inv fn]])
        (auto simp: Let_def intro!: okE_keeps_trans [OF e rec [OF e]])
  qed
qed

lemma lde_send_labelwithdraw_all_keeps:
  assumes "lde_inv s" "fec_valid s f"
  shows "okE (lde_send_labelwithdraw_all s f label) (keeps s)"
  unfolding lde_send_labelwithdraw_all_def using assms
  by (intro okE_keeps_foldE lde_send_labelwithdraw_keeps) (auto simp: keys_valid keeps_valid simp del: rb_simps intro: keeps_inv)

lemma lde_send_labelrelease_keeps:
  assumes inv: "lde_inv s" and p: "nbr_valid s p" and f: "\<And>f. fo = Some f \<Longrightarrow> fec_valid s f"
  shows "okE (lde_send_labelrelease s p fo label) (keeps s)"
proof -
  from p obtain ln where ln: "rb_find (lde_nbrs s) p = Some ln" by (auto simp: nbr_valid_def)
  have e: "keeps s (emit (emit s m) m')" for m m' by (intro keeps_emit) simp
  show ?thesis
  proof (cases fo)
    case (Some f)
    with f obtain fn where fn: "fec_find (ft s) f = Some fn" by (auto simp: fec_valid_def)
    show ?thesis
      unfolding lde_send_labelrelease_def Some option.case get_Some(1) [OF ln] get_Some(2) [OF fn] bindE_simps
      by (rule okE_bind [OF nbr_guard_total [OF inv fn]]) (auto simp: Let_def e)
  qed (simp add: lde_send_labelrelease_def ln Let_def e)
qed

lemma keeps_notification [intro]:
  "keeps s t \<Longrightarrow> keeps s (lde_send_notification t p c i m)"
  by (simp add: lde_send_notification_def keeps_emit)

lemma sent_map_add_keeps:
  assumes ln: "rb_find (lde_nbrs s) p = Some ln" and fn: "fec_find (ft s) f = Some fn"
    and new: "fec_find (ln_sent_map ln) f = None"
  shows "keeps s (lde_map_add s p f True)"
proof -
  let ?t = "lde_map_add s p f True"
  have core: "same_core s ?t"
    using ln fn by (simp add: same_core_def lde_map_add_def node_core_def nbr_core_def nh_keys_def)
  have sent: "has_sent_map ?t q g \<longleftrightarrow> has_sent_map s q g \<or> (q = p \<and> g = f)" for q g
    using ln by (auto simp: has_sent_map_def lde_map_add_def)
  have "lde_inv ?t" if inv: "lde_inv s"
  proof -
    have notin: "\<not> has_sent_map s p f" using ln new by (simp add: has_sent_map_def)
    have "node_ok ?t g fn'" if fn': "fec_find (ft ?t) g = Some fn'" for g fn'
    proof -
      from fn' fn obtain fn0 where fn0: "fec_find (ft s) g = Some fn0"
        "fn' = (if g = f then fn0\<lparr>fn_upstream := p # fn_upstream fn0\<rparr> else fn0)"
        by (auto simp: lde_map_add_def split: if_splits)
      have ok: "node_ok s g fn0" using inv_node [OF inv fn0(1)] .
      then show ?thesis
        using notin by (intro node_ok_transfer [OF core ok]) (auto simp: fn0(2) nh_keys_def sent node_ok_def)
    qed
    then show ?thesis
      using inv fn same_core_has_recv_map [OF core] same_core_find_None [OF core]
        same_core_conf_ok [OF core] same_core_recv_ok [OF core]
      by (auto simp: lde_inv_def sent simp del: not_None_eq)
  qed
  with core show ?thesis by (simp add: keeps_def)
qed

lemma keeps_map_set: "keeps s t \<Longrightarrow> keeps s (lde_map_set t p f True m)"
  unfolding lde_map_set_def
  by (auto simp: nbr_core_def sent_fecs_def fec_find_def
      intro!: keeps_step [OF _ same_shape_upd_ln] split: if_splits)

lemma lde_send_labelmapping_keeps:
  assumes inv: "lde_inv s" and p: "nbr_valid s p" and f: "fec_valid s f"
  shows "okE (lde_send_labelmapping s p f single) (keeps s)"
proof -
  from p obtain ln where ln: "rb_find (lde_nbrs s) p = Some ln" by (auto simp: nbr_valid_def)
  from f obtain fn where fn: "fec_find (ft s) f = Some fn" by (auto simp: fec_valid_def)
  have rec: "keeps s (lde_map_add t p f True)"
    if t: "keeps s t" "fec_find (ft t) f = Some fn" and "fec_find (ln_sent_map ln) f = None"
      "map_option ln_sent_map (rb_find (lde_nbrs t) p) = Some (ln_sent_map ln)" for t
    using that by (auto intro: keeps_trans [OF t(1) sent_map_add_keeps])
  have "okE (bindE (map_pw_flags s pwo (lde_fec2map f)) (\<lambda>m0.
       let m1 = m0\<lparr>map_label := fn_local_label fn\<rparr>;
           (s1, m2) =
             (case fec_find (ln_recv_req ln) f of
                Some msg_id \<Rightarrow>
                  (lde_req_del s p f False, m1\<lparr>map_requestid := msg_id, map_flags := F_MAP_REQ_ID\<rparr>)
              | None \<Rightarrow> (s, m1));
           s2 = emit s1 (IMSG_MAPPING_ADD p m2);
           s3 = (if single then emit s2 (IMSG_MAPPING_ADD_END p) else s2);
           s4 = (if fec_find (ln_sent_map ln) f = None then lde_map_add s3 p f True else s3)
       in Inr (lde_map_set s4 p f True m2))) (keeps s)"
    if "\<forall>pw. pwo = Some pw \<longrightarrow> (\<exists>d. pws s d = Some pw)" for pwo
    by (rule okE_True_bind [OF map_pw_flags_total [OF inv that]])
      (cases "fec_find (ln_recv_req ln) f";
       auto simp: Let_def ln fn lde_req_del_def
        intro!: keeps_map_set rec keeps_emit keeps_req_wdraw(1) [of _ _ _ _ False, unfolded lde_req_del_def, simplified])
  then show ?thesis
    unfolding lde_send_labelmapping_def get_Some(1) [OF ln] get_Some(2) [OF fn] bindE_simps
    by (intro okE_bind [OF nbr_guard_total [OF inv fn]]) auto
qed

end
