(* ===== verification/Lde_Safe.thy ===== *)
theory Lde_Safe
  imports Lde_Frame
begin

text \<open>
  Every handler of the label decision engine, run in a state that satisfies the invariant, ends
  without a fault in a state that satisfies it again: no null pointer is dereferenced, no list is
  left dangling and no \<^verbatim>\<open>fatalx\<close> is reached.
\<close>

section \<open>Updates of the records of mappings\<close>

lemma lde_invI:
  assumes inv: "lde_inv s"
    and conf: "\<And>d. map_option pw_core (pws t d) = map_option pw_core (pws s d)"
      "l2vpns t = l2vpns s" "l2vpn_list t = l2vpn_list s"
    and recv: "recv_ok t"
    and nodes: "\<And>f. fec_find (ft t) f = map_option (h f) (fec_find (ft s) f)"
    and h: "\<And>f fn. fn_nexthops (h f fn) = fn_nexthops fn" "\<And>f fn. fn_data (h f fn) = fn_data fn"
    and down: "\<And>f fn. fec_find (ft s) f = Some fn \<Longrightarrow> node_ok s f fn \<Longrightarrow>
      distinct (fn_downstream (h f fn)) \<and> (\<forall>p. p \<in> set (fn_downstream (h f fn)) \<longleftrightarrow> has_recv_map t p f)"
    and up: "\<And>f fn. fec_find (ft s) f = Some fn \<Longrightarrow> node_ok s f fn \<Longrightarrow>
      distinct (fn_upstream (h f fn)) \<and> (\<forall>p. p \<in> set (fn_upstream (h f fn)) \<longleftrightarrow> has_sent_map t p f)"
    and maps: "\<And>p f. has_recv_map t p f \<or> has_sent_map t p f \<Longrightarrow> fec_valid s f"
  shows "lde_inv t"
proof -
  have pws: "pws t d = None \<longleftrightarrow> pws s d = None" for d
    using conf(1) [of d] by (cases "pws t d"; cases "pws s d") auto
  have "pw_af pw \<noteq> AF_UNSPEC \<and> l2vpns s (pw_l2vpn pw) \<noteq> None" if pw: "pws t d = Some pw" for d pw
  proof -
    obtain pw' where "pws s d = Some pw'" "pw_core pw' = pw_core pw"
      using map_option_core_eq [OF conf(1) pw] by blast
    moreover from this(1) have "pw_af pw' \<noteq> AF_UNSPEC \<and> l2vpns s (pw_l2vpn pw') \<noteq> None"
      using inv_conf [OF inv] unfolding conf_ok_def by blast
    ultimately show ?thesis by (simp add: pw_core_def)
  qed
  then have "conf_ok t"
    using inv_conf [OF inv] by (auto simp: conf_ok_def conf(2,3) pws simp del: not_None_eq)
  moreover have "node_ok t f fn'" if "fec_find (ft t) f = Some fn'" for f fn'
  proof -
    from that nodes obtain fn where fn: "fec_find (ft s) f = Some fn" "fn' = h f fn" by auto
    with inv_node [OF inv fn(1)] down [OF fn(1)] up [OF fn(1)] show ?thesis
      by (auto simp: node_ok_def h pws simp del: not_None_eq)
  qed
  ultimately show ?thesis
    using recv maps nodes by (auto simp: lde_inv_def fec_valid_def)
qed

lemma fec_find_or_add_inv:
  assumes inv: "lde_inv s"
  shows "lde_inv (fec_find_or_add s f) \<and> fec_valid (fec_find_or_add s f) f"
proof (cases "fec_find (ft s) f")
  case None
  let ?t = "fec_add s f"
  have maps: "has_recv_map ?t p g = has_recv_map s p g" "has_sent_map ?t p g = has_sent_map s p g" for p g
    by (simp_all add: has_recv_map_def has_sent_map_def fec_add_def)
  have none: "\<not> has_recv_map s p f" "\<not> has_sent_map s p f" for p
    using inv None unfolding lde_inv_def by blast+
  have same: "fec_find (ft ?t) g = (if g = f then Some empty_node else fec_find (ft s) g)" for g
    using None by (simp add: fec_add_def)
  have "node_ok ?t g fn" if "fec_find (ft ?t) g = Some fn" for g fn
  proof (cases "g = f")
    case True
    with that show ?thesis by (auto simp: same node_ok_def empty_node_def maps none)
  next
    case False
    then have "node_ok s g fn" using that inv_node [OF inv] by (simp add: same)
    moreover have "pws ?t = pws s" by (simp add: fec_add_def)
    ultimately show ?thesis by (simp add: node_ok_def maps del: not_None_eq)
  qed
  moreover have "recv_ok ?t" "conf_ok ?t"
    using inv by (auto simp: lde_inv_def recv_ok_def conf_ok_def fec_add_def)
  ultimately have "lde_inv ?t" using inv by (auto simp: lde_inv_def maps same)
  with None same show ?thesis by (simp add: fec_find_or_add_def fec_valid_def)
qed (simp add: fec_find_or_add_def inv fec_valid_def)

lemma fec_find_or_add_other [simp]:
  "lde_nbrs (fec_find_or_add s f) = lde_nbrs s" "pws (fec_find_or_add s f) = pws s"
  "l2vpns (fec_find_or_add s f) = l2vpns s" "l2vpn_list (fec_find_or_add s f) = l2vpn_list s"
  "nbr_valid (fec_find_or_add s f) p = nbr_valid s p"
  by (simp_all add: fec_find_or_add_def fec_add_def nbr_valid_def)

lemma recv_map_set_inv:
  assumes inv: "lde_inv s" and ln: "rb_find (lde_nbrs s) p = Some ln" and f: "fec_valid s f"
    and m: "lde_map2fec m (ln_id ln) = Inr f"
  shows "lde_inv (lde_map_set (if fec_find (ln_recv_map ln) f = None then lde_map_add s p f False else s) p f False m)"
    (is "lde_inv ?t")
proof (rule lde_invI [OF inv])
  let ?h = "\<lambda>g fn. if g = f \<and> fec_find (ln_recv_map ln) f = None
     then fn\<lparr>fn_downstream := p # fn_downstream fn\<rparr> else fn"
  define T where "T = rb_update (if fec_find (ln_recv_map ln) f = None
    then fst (fec_insert (ln_recv_map ln) f zero_map) else ln_recv_map ln) f (\<lambda>_. m)"
  have lnt: "rb_find (lde_nbrs ?t) q =
      (if q = p then Some (ln\<lparr>ln_recv_map := T\<rparr>) else rb_find (lde_nbrs s) q)" for q
    using ln by (auto simp: lde_map_set_def lde_map_add_def T_def)
  have find: "fec_find T g = (if g = f then Some m else fec_find (ln_recv_map ln) g)" for g
    by (auto simp: T_def fec_find_def fec_insert_def split_beta Let_def)
  have recv: "has_recv_map ?t q g \<longleftrightarrow> has_recv_map s q g \<or> (q = p \<and> g = f)" for q g
    using ln unfolding has_recv_map_def lnt by (auto simp: find)
  have nd: "has_recv_map s p f \<longleftrightarrow> fec_find (ln_recv_map ln) f \<noteq> None"
    using ln by (simp add: has_recv_map_def)
  have sent: "has_sent_map ?t q g = has_sent_map s q g" for q g
    using ln unfolding has_sent_map_def lnt by auto
  show "recv_ok ?t"
    using inv ln m unfolding lde_inv_def recv_ok_def lnt by (auto simp: find split: if_splits)
  show "fec_find (ft ?t) g = map_option (?h g) (fec_find (ft s) g)" for g
    by (auto simp: lde_map_set_def lde_map_add_def option.map_ident)
  show "distinct (fn_downstream (?h g fn)) \<and> (\<forall>q. q \<in> set (fn_downstream (?h g fn)) \<longleftrightarrow> has_recv_map ?t q g)"
    if "node_ok s g fn" for g fn
    using that nd unfolding recv by (auto simp: node_ok_def)
  show "distinct (fn_upstream (?h g fn)) \<and> (\<forall>q. q \<in> set (fn_upstream (?h g fn)) \<longleftrightarrow> has_sent_map ?t q g)"
    if "node_ok s g fn" for g fn
    using that unfolding sent by (auto simp: node_ok_def)
  show "fec_valid s g" if "has_recv_map ?t q g \<or> has_sent_map ?t q g" for q g
    using that inv f unfolding recv sent by (auto simp: lde_inv_def fec_valid_def)
qed (simp_all add: lde_map_set_def lde_map_add_def)

lemma map_del_inv:
  assumes inv: "lde_inv s" and ln: "rb_find (lde_nbrs s) p = Some ln"
    and present: "fec_find (if sent then ln_sent_map ln else ln_recv_map ln) f \<noteq> None"
  shows "lde_inv (lde_map_del s p f sent)" (is "lde_inv ?t")
proof (rule lde_invI [OF inv])
  let ?h = "\<lambda>g fn. if g \<noteq> f then fn else if sent then fn\<lparr>fn_upstream := remove1 p (fn_upstream fn)\<rparr>
     else fn\<lparr>fn_downstream := remove1 p (fn_downstream fn)\<rparr>"
  have recv: "has_recv_map ?t q g \<longleftrightarrow> has_recv_map s q g \<and> (sent \<or> q \<noteq> p \<or> g \<noteq> f)" for q g
    using ln by (auto simp: has_recv_map_def lde_map_del_def lde_map_free_def)
  have sent': "has_sent_map ?t q g \<longleftrightarrow> has_sent_map s q g \<and> (\<not> sent \<or> q \<noteq> p \<or> g \<noteq> f)" for q g
    using ln by (auto simp: has_sent_map_def lde_map_del_def lde_map_free_def)
  show "recv_ok ?t"
    using inv ln unfolding lde_inv_def recv_ok_def
    by (auto simp: lde_map_del_def lde_map_free_def split: if_splits)
  show "fec_find (ft ?t) g = map_option (?h g) (fec_find (ft s) g)" for g
    by (auto simp: lde_map_del_def lde_map_free_def option.map_ident)
  show "distinct (fn_downstream (?h g fn)) \<and> (\<forall>q. q \<in> set (fn_downstream (?h g fn)) \<longleftrightarrow> has_recv_map ?t q g)"
    if "node_ok s g fn" for g fn
    using that by (auto simp: node_ok_def recv)
  show "distinct (fn_upstream (?h g fn)) \<and> (\<forall>q. q \<in> set (fn_upstream (?h g fn)) \<longleftrightarrow> has_sent_map ?t q g)"
    if "node_ok s g fn" for g fn
    using that by (auto simp: node_ok_def sent')
  show "fec_valid s g" if "has_recv_map ?t q g \<or> has_sent_map ?t q g" for q g
    using that inv by (auto simp: recv sent' lde_inv_def fec_valid_def)
qed (simp_all add: lde_map_del_def lde_map_free_def)

section \<open>Next hops\<close>

lemma lde_address_find_ok: "af \<noteq> AF_UNSPEC \<Longrightarrow> okE (lde_address_find ln af a) (\<lambda>_. True)"
  by (simp add: lde_address_find_total)

lemma drop_label_keeps:
  assumes "lde_inv s" "nh_valid s f i"
  shows "okE (bindE (lde_send_delete_klabel s f i) (\<lambda>s1. Inr (set_remote_label s1 f i NO_LABEL))) (keeps s)"
  by (rule okE_bind [OF lde_send_delete_klabel_keeps [OF assms]]) (auto intro: keeps_remote_label)

lemma set_label_keeps:
  assumes "lde_inv s" "nh_valid s f i"
  shows "okE (lde_send_change_klabel (set_remote_label s f i l) f i) (keeps s)"
proof -
  have k: "keeps s (set_remote_label s f i l)" by (rule keeps_remote_label) simp
  show ?thesis
    by (rule okE_keeps_trans [OF k lde_send_change_klabel_keeps [OF keeps_inv [OF assms(1) k]
          keeps_nh_valid [OF k assms(2)]]])
qed

lemma inv_nbr_nh:
  assumes "lde_inv s" "nbr_valid s p" "nh_valid s f i"
  obtains ln fn where "rb_find (lde_nbrs s) p = Some ln" "fec_find (ft s) f = Some fn"
    "i < length (fn_nexthops fn)" "get_nh s f i = Inr (fn_nexthops fn ! i)"
    "nh_af (fn_nexthops fn ! i) \<noteq> AF_UNSPEC"
proof -
  from assms(2) obtain ln where ln: "rb_find (lde_nbrs s) p = Some ln" by (auto simp: nbr_valid_def)
  from nh_validE [OF assms(3)] obtain fn where "fec_find (ft s) f = Some fn"
    "i < length (fn_nexthops fn)" "get_nh s f i = Inr (fn_nexthops fn ! i)" by metis
  with ln that inv_nh_af [OF assms(1)] show thesis by blast
qed

lemma unuse_nh_keeps:
  assumes "lde_inv s" "nbr_valid s p" "nh_valid s f i"
  shows "okE (unuse_nh p f s i) (keeps s)"
proof -
  obtain ln fn where *: "rb_find (lde_nbrs s) p = Some ln" "fec_find (ft s) f = Some fn"
    "i < length (fn_nexthops fn)" "get_nh s f i = Inr (fn_nexthops fn ! i)"
    "nh_af (fn_nexthops fn ! i) \<noteq> AF_UNSPEC" by (rule inv_nbr_nh [OF assms])
  show ?thesis
    unfolding unuse_nh_def get_Some(1) [OF *(1)] *(4) bindE_simps
    by (rule okE_True_bind [OF lde_address_find_ok [OF *(5)]])
      (simp add: drop_label_keeps [OF assms(1,3)])
qed

lemma withdraw_nh_keeps:
  assumes "lde_inv s" "nbr_valid s p" "nh_valid s f i"
  shows "okE (withdraw_nh p f s i) (keeps s)"
proof -
  obtain ln fn where *: "rb_find (lde_nbrs s) p = Some ln" "fec_find (ft s) f = Some fn"
    "i < length (fn_nexthops fn)" "get_nh s f i = Inr (fn_nexthops fn ! i)"
    "nh_af (fn_nexthops fn ! i) \<noteq> AF_UNSPEC" by (rule inv_nbr_nh [OF assms])
  have "okE (case f of FEC_PWID _ _ _ \<Rightarrow> bindE (get_fn s f) (\<lambda>fn. Inr (fn_data fn \<noteq> None))
      | _ \<Rightarrow> bindE (get_ln s p) (\<lambda>ln. bindE (lde_address_find ln (nh_af (fn_nexthops fn ! i))
               (nh_nexthop (fn_nexthops fn ! i))) (\<lambda>r. Inr (r \<noteq> None)))) (\<lambda>_. True)"
    using * by (auto simp: lde_address_find_total split: fec.split)
  then show ?thesis
    unfolding withdraw_nh_def *(4) bindE_simps
    by (rule okE_True_bind) (simp add: drop_label_keeps [OF assms(1,3)])
qed

lemma nbr_uses_nh_total: "nh_af nh \<noteq> AF_UNSPEC \<Longrightarrow> okE (nbr_uses_nh ln f nh) (\<lambda>_. True)"
  by (auto simp: nbr_uses_nh_def lde_address_find_total split: fec.split)

lemma withdraw_wcard_nh_keeps:
  assumes "lde_inv s" "nbr_valid s p" "nh_valid s f i"
  shows "okE (withdraw_wcard_nh p f s i) (keeps s)"
proof -
  obtain ln fn where *: "rb_find (lde_nbrs s) p = Some ln" "fec_find (ft s) f = Some fn"
    "i < length (fn_nexthops fn)" "get_nh s f i = Inr (fn_nexthops fn ! i)"
    "nh_af (fn_nexthops fn ! i) \<noteq> AF_UNSPEC" by (rule inv_nbr_nh [OF assms])
  show ?thesis
    unfolding withdraw_wcard_nh_def get_Some(1) [OF *(1)] *(4) bindE_simps
    by (rule okE_True_bind [OF nbr_uses_nh_total [OF *(5)]])
      (simp add: drop_label_keeps [OF assms(1,3)])
qed

lemma uninstall_nh_keeps:
  assumes "lde_inv s" "nbr_valid s p" "nh_valid s f i"
  shows "okE (uninstall_nh p f s i) (keeps s)"
proof -
  obtain ln fn where *: "rb_find (lde_nbrs s) p = Some ln" "fec_find (ft s) f = Some fn"
    "i < length (fn_nexthops fn)" "get_nh s f i = Inr (fn_nexthops fn ! i)"
    "nh_af (fn_nexthops fn ! i) \<noteq> AF_UNSPEC" by (rule inv_nbr_nh [OF assms])
  have reset: "okE (case f of FEC_PWID _ _ _ \<Rightarrow> bindE (get_fn s f) (\<lambda>fn.
                     Inr (case fn_data fn of None \<Rightarrow> s | Some d \<Rightarrow> l2vpn_pw_reset s d))
                 | _ \<Rightarrow> Inr s) (keeps s)"
    using * by (auto split: fec.split option.split intro!: keeps_pw_reset)
  have "okE (bindE (case f of FEC_PWID _ _ _ \<Rightarrow> bindE (get_fn s f) (\<lambda>fn.
                     Inr (case fn_data fn of None \<Rightarrow> s | Some d \<Rightarrow> l2vpn_pw_reset s d))
                 | _ \<Rightarrow> Inr s) (\<lambda>s1.
          bindE (lde_send_delete_klabel s1 f i) (\<lambda>s2. Inr (set_remote_label s2 f i NO_LABEL)))) (keeps s)"
    by (rule okE_keeps_bind [OF reset drop_label_keeps])
      (use keeps_inv [OF assms(1)] keeps_nh_valid assms(3) in blast)+
  then show ?thesis
    unfolding uninstall_nh_def get_Some(1) [OF *(1)] *(4) bindE_simps
    by (intro okE_True_bind [OF nbr_uses_nh_total [OF *(5)]]) simp
qed

lemma install_nh_keeps:
  assumes "lde_inv s" "nbr_valid s p" "nh_valid s f i"
  shows "okE (install_nh m p f s i) (keeps s)"
proof -
  obtain ln fn where *: "rb_find (lde_nbrs s) p = Some ln" "fec_find (ft s) f = Some fn"
    "i < length (fn_nexthops fn)" "get_nh s f i = Inr (fn_nexthops fn ! i)"
    "nh_af (fn_nexthops fn ! i) \<noteq> AF_UNSPEC" by (rule inv_nbr_nh [OF assms])
  have pw: "okE (bindE (get_pw t d) (\<lambda>pw. bindE (get_nh t f i) (\<lambda>fnh. bindE (l2vpn_pw_ok t pw fnh) (\<lambda>ok.
       if ok then lde_send_change_klabel t f i else Inr t)))) (keeps t)"
    if t: "keeps s t" and d: "fn_data fn = Some d" for t d
  proof -
    have inv: "lde_inv t" and v: "nh_valid t f i"
      using keeps_inv [OF assms(1) t] keeps_nh_valid [OF t assms(3)] .
    have "pw_valid s d"
      using inv_node [OF assms(1) *(2)] d by (auto simp: node_ok_def pw_valid_def)
    then have "pw_valid t d" by (simp add: keeps_valid(3) [OF t])
    then obtain pw where pw: "pws t d = Some pw" by (auto simp: pw_valid_def)
    obtain nh where "get_nh t f i = Inr nh" using nh_validE [OF v] by metis
    then show ?thesis
      by (auto simp: pw intro!: okE_True_bind [OF l2vpn_pw_ok_total [OF inv pw]]
          lde_send_change_klabel_keeps [OF inv v])
  qed
  have addr: "okE (bindE (lde_address_find ln (nh_af (fn_nexthops fn ! i)) (nh_nexthop (fn_nexthops fn ! i))) (\<lambda>r.
         if r = None then Inr s
         else lde_send_change_klabel (set_remote_label s f i (map_label m)) f i)) (keeps s)"
    by (rule okE_True_bind [OF lde_address_find_ok [OF *(5)]]) (simp add: set_label_keeps [OF assms(1,3)])
  have "okE (let s1 = upd_pw s d (\<lambda>pw. pw\<lparr>pw_remote_group := map_group_id m\<rparr>);
                 s2 = (if has_flag (map_flags m) F_MAP_PW_IFMTU
                       then upd_pw s1 d (\<lambda>pw. pw\<lparr>pw_remote_mtu := map_ifmtu m\<rparr>) else s1);
                 s3 = (if has_flag (map_flags m) F_MAP_PW_STATUS
                       then upd_pw s2 d (\<lambda>pw. pw\<lparr>pw_remote_status := map_pw_status m\<rparr>) else s2);
                 s4 = set_remote_label s3 f i (map_label m)
             in bindE (get_pw s4 d) (\<lambda>pw. bindE (get_nh s4 f i) (\<lambda>fnh.
                bindE (l2vpn_pw_ok s4 pw fnh) (\<lambda>ok.
                if ok then lde_send_change_klabel s4 f i else Inr s4)))) (keeps s)"
    if "fn_data fn = Some d" for d
    unfolding Let_def by (rule okE_keeps_trans [OF _ pw [OF _ that]])
      (auto simp: pw_core_def intro!: keeps_remote_label keeps_upd_pw)
  with addr show ?thesis
    unfolding install_nh_def *(4) get_Some(1) [OF *(1)] get_Some(2) [OF *(2)] bindE_simps
    by (cases f) (simp_all split: option.split)
qed

section \<open>Label mappings\<close>

definition map_ok :: "map_msg \<Rightarrow> bool" where
  "map_ok m \<longleftrightarrow> (map_type m = MAP_TYPE_PREFIX \<longrightarrow> map_prefix_af m \<noteq> AF_UNSPEC)"

lemma map_okE:
  assumes "map_ok m"
  obtains f where "lde_map2fec m r = Inr f"
proof -
  from assms have "\<exists>f. lde_map2fec m r = Inr f"
    by (cases "map_prefix_af m") (auto simp: map_ok_def lde_map2fec_def)
  with that show thesis by blast
qed

lemma l2vpn_pw_negotiate_keeps:
  assumes inv: "lde_inv s" and p: "nbr_valid s p" and f: "fec_valid s f"
  shows "okE (l2vpn_pw_negotiate s p f m) (\<lambda>(t, _). keeps s t)"
proof -
  from p obtain ln where ln: "rb_find (lde_nbrs s) p = Some ln" by (auto simp: nbr_valid_def)
  from f obtain fn where fn: "fec_find (ft s) f = Some fn" by (auto simp: fec_valid_def)
  have flags: "keeps s (upd_pw t d (\<lambda>pw. pw\<lparr>pw_flags := g (pw_flags pw)\<rparr>))" if "keeps s t" for t d g
    using that by (rule keeps_upd_pw) (simp add: pw_core_def)
  have remap: "okE (bindE (lde_send_labelwithdraw s p (Some f) NO_LABEL st) (\<lambda>s1.
       bindE (lde_send_labelmapping
         (upd_pw s1 d (\<lambda>pw. pw\<lparr>pw_flags := clear_flag (pw_flags pw) F_PW_CWORD\<rparr>)) p f True)
         (\<lambda>s3. Inr (s3, False)))) (\<lambda>(t, _). keeps s t)" for st d
  proof (rule okE_bind [OF lde_send_labelwithdraw_keeps [OF inv p]])
    fix t assume "keeps s t"
    then have k: "keeps s (upd_pw t d (\<lambda>pw. pw\<lparr>pw_flags := clear_flag (pw_flags pw) F_PW_CWORD\<rparr>))" (is "keeps s ?u")
      by (rule flags)
    have "okE (lde_send_labelmapping ?u p f True) (keeps ?u)"
      using keeps_inv [OF inv k] p f by (intro lde_send_labelmapping_keeps) (simp_all add: keeps_valid [OF k])
    then show "okE (bindE (lde_send_labelmapping ?u p f True) (\<lambda>s3. Inr (s3, False))) (\<lambda>(t, _). keeps s t)"
      using k by (auto simp: okE_def intro: keeps_trans)
  qed (use f in auto)
  show ?thesis
  proof (cases "fn_data fn")
    case None
    then show ?thesis by (simp add: l2vpn_pw_negotiate_def ln fn)
  next
    case (Some d)
    with inv_node [OF inv fn] obtain pw where pw: "pws s d = Some pw" by (auto simp: node_ok_def)
    show ?thesis
      unfolding l2vpn_pw_negotiate_def get_Some(1) [OF ln] get_Some(2) [OF fn] get_Some(3) [OF pw] Some
        option.case bindE_simps
      by (rule okE_bind [where Q = "\<lambda>(t, _). keeps s t"]) (auto simp: Let_def intro!: remap flags)
  qed
qed

lemma nh_loop_keeps:
  assumes "lde_inv s" "nbr_valid s p"
    and "\<And>t i. lde_inv t \<Longrightarrow> nbr_valid t p \<Longrightarrow> nh_valid t f i \<Longrightarrow> okE (b t i) (keeps t)"
  shows "okE (foldE b (nh_positions s f) s) (keeps s)"
proof (rule okE_keeps_foldE)
  fix t i assume i: "i \<in> set (nh_positions s f)" and k: "keeps s t"
  show "okE (b t i) (keeps t)"
    using assms(2) keeps_inv [OF assms(1) k] keeps_nh_valid [OF k nh_positions_valid [OF i]]
    by (intro assms(3)) (simp_all add: keeps_valid [OF k])
qed

lemma lde_check_mapping_inv:
  assumes inv: "lde_inv s" and p: "nbr_valid s p" and m: "map_ok m"
  shows "okE (lde_check_mapping s m p) lde_inv"
proof -
  from p obtain ln where ln: "rb_find (lde_nbrs s) p = Some ln" by (auto simp: nbr_valid_def)
  from m obtain f where f: "lde_map2fec m (ln_id ln) = Inr f" by (rule map_okE)
  define s1 where "s1 = fec_find_or_add s f"
  have inv1: "lde_inv s1" and f1: "fec_valid s1 f" and p1: "nbr_valid s1 p" and ln1: "rb_find (lde_nbrs s1) p = Some ln"
    using fec_find_or_add_inv [OF inv] p ln by (simp_all add: s1_def)
  have v: "lde_inv t" "fec_valid t f" "nbr_valid t p" if "keeps s1 t" for t
    using keeps_inv [OF inv1 that] keeps_valid [OF that] f1 p1 by simp_all
  have neg: "okE (if map_type m = MAP_TYPE_PWID then l2vpn_pw_negotiate s2 p f m else Inr (s2, False))
      (\<lambda>(t, _). keeps s1 t)" if k: "keeps s1 s2" for s2
    using l2vpn_pw_negotiate_keeps [OF v(1) [OF k] v(3) [OF k] v(2) [OF k], of m] k
    by (auto simp: okE_def intro: keeps_trans)
  have unuse: "okE (bindE (lde_send_labelrelease s3 p (Some f) l) (\<lambda>s4.
      foldE (unuse_nh p f) (nh_positions s4 f) s4)) (keeps s3)" if k: "keeps s1 s3" for s3 l
    using v [OF k] keeps_trans [OF k] v
    by (intro okE_keeps_bind [OF lde_send_labelrelease_keeps] nh_loop_keeps unuse_nh_keeps) auto
  have install: "okE (foldE (install_nh m p f) (nh_positions s5 f) s5) (keeps s5)" if "keeps s1 s5" for s5
    using v [OF that] by (intro nh_loop_keeps install_nh_keeps) auto
  have set: "lde_inv (lde_map_set (if fec_find (ln_recv_map ln) f = None then lde_map_add s6 p f False else s6)
      p f False m)" if k: "keeps s1 s6" for s6
  proof -
    obtain ln' where "rb_find (lde_nbrs s6) p = Some ln'" "ln_id ln' = ln_id ln"
      "fec_find (ln_recv_map ln') f = fec_find (ln_recv_map ln) f"
      using same_core_nbr [OF _ ln1, of s6] k unfolding keeps_def by metis
    then show ?thesis using recv_map_set_inv [OF v(1) [OF k] _ v(2) [OF k], of p ln' m] f by simp
  qed
  define lre where "lre = (fec_find (ln_sent_req ln) f \<noteq> None)"
  have k2: "keeps s1 (if lre then lde_req_del s1 p f True else s1)" by (auto intro!: keeps_req_wdraw)
  have rest: "okE (bindE
            (case me of
               Some old \<Rightarrow>
                 if map_label old \<noteq> map_label m \<and> \<not> lre then
                   bindE (lde_send_labelrelease s3 p (Some f) (map_label old)) (\<lambda>s4.
                   foldE (unuse_nh p f) (nh_positions s4 f) s4)
                 else Inr s3
             | None \<Rightarrow> Inr s3) (\<lambda>s5.
          bindE (foldE (install_nh m p f) (nh_positions s5 f) s5) (\<lambda>s6.
          Inr (lde_map_set (if me = None then lde_map_add s6 p f False else s6) p f False m)))) lde_inv"
    if k: "keeps s1 s3" and me: "me = fec_find (ln_recv_map ln) f" for s3 me
  proof (rule okE_bind [where Q = "keeps s1"])
    show "okE (case me of
               Some old \<Rightarrow>
                 if map_label old \<noteq> map_label m \<and> \<not> lre then
                   bindE (lde_send_labelrelease s3 p (Some f) (map_label old)) (\<lambda>s4.
                   foldE (unuse_nh p f) (nh_positions s4 f) s4)
                 else Inr s3
             | None \<Rightarrow> Inr s3) (keeps s1)"
      using k okE_keeps_trans [OF k unuse [OF k]] by (simp split: option.split)
    show "okE (bindE (foldE (install_nh m p f) (nh_positions s5 f) s5) (\<lambda>s6.
          Inr (lde_map_set (if me = None then lde_map_add s6 p f False else s6) p f False m))) lde_inv"
      if "keeps s1 s5" for s5
      by (rule okE_bind [OF okE_keeps_trans [OF that install [OF that]]]) (simp only: okE_Inr me set)
  qed
  show ?thesis
    unfolding lde_check_mapping_def get_Some(1) [OF ln] f bindE_simps Let_def s1_def [symmetric] lre_def [symmetric]
    by (rule okE_bind [OF neg [OF k2]]) (auto simp only: split: prod.split if_split intro!: rest v(1) simp: okE_Inr)
qed

section \<open>Routes from the kernel\<close>

lemma upd_fn_inv:
  assumes inv: "lde_inv s"
    and g: "\<And>fn. fec_find (ft s) f = Some fn \<Longrightarrow> node_ok s f fn \<Longrightarrow> node_ok s f (g fn)"
  shows "lde_inv (upd_fn s f g)"
proof -
  have maps: "has_recv_map (upd_fn s f g) = has_recv_map s" "has_sent_map (upd_fn s f g) = has_sent_map s"
    by (simp_all add: fun_eq_iff has_recv_map_def has_sent_map_def)
  have ok: "node_ok (upd_fn s f g) = node_ok s"
    by (simp add: fun_eq_iff node_ok_def maps)
  have "recv_ok (upd_fn s f g) = recv_ok s" "conf_ok (upd_fn s f g) = conf_ok s"
    by (simp_all add: recv_ok_def conf_ok_def)
  then show ?thesis
    using inv g by (auto simp: lde_inv_def maps ok)
qed

lemma fec_nh_add_inv:
  assumes "lde_inv s" "af \<noteq> AF_UNSPEC"
    "\<And>fn. fec_find (ft s) f = Some fn \<Longrightarrow> fec_get_type f = FEC_TYPE_PWID \<Longrightarrow> fn_data fn \<noteq> None"
  shows "lde_inv (fec_nh_add s f af nexthop prio)"
  unfolding fec_nh_add_def
  by (rule upd_fn_inv [OF assms(1)]) (use assms(2,3) in \<open>auto simp: node_ok_def\<close>)

lemma fec_nh_del_inv: "lde_inv s \<Longrightarrow> lde_inv (fec_nh_del s f i)"
  unfolding fec_nh_del_def
  by (erule upd_fn_inv) (auto simp: node_ok_def dest: in_set_takeD in_set_dropD)

lemma lde_nbr_find_by_lsrid_valid: "lde_nbr_find_by_lsrid s a = Some p \<Longrightarrow> nbr_valid s p"
  by (auto simp: lde_nbr_find_by_lsrid_def nbr_valid_def find_Some_iff split: option.splits)

lemma lde_nbr_find_by_addr_total:
  assumes "af \<noteq> AF_UNSPEC"
  shows "lde_nbr_find_by_addr s af addr =
    Inr (find (\<lambda>p. case rb_find (lde_nbrs s) p of None \<Rightarrow> False | Some ln \<Rightarrow> has_address ln af addr)
          (rb_keys (lde_nbrs s)))"
  unfolding lde_nbr_find_by_addr_def
proof (rule findE_total)
  fix p assume "p \<in> set (rb_keys (lde_nbrs s))"
  then obtain ln where "rb_find (lde_nbrs s) p = Some ln" by auto
  then show "bindE (get_ln s p) (\<lambda>ln. bindE (lde_address_find ln af addr) (\<lambda>r. Inr (r \<noteq> None))) =
      Inr (case rb_find (lde_nbrs s) p of None \<Rightarrow> False | Some ln \<Rightarrow> has_address ln af addr)"
    using lde_address_find_has_address [OF assms, of ln addr Inr] by simp
qed

lemma recv_map_ok:
  assumes "lde_inv s" "rb_find (lde_nbrs s) p = Some ln" "fec_find (ln_recv_map ln) f = Some m"
  shows "map_ok m"
proof -
  have "lde_map2fec m (ln_id ln) = Inr f"
    using assms unfolding lde_inv_def recv_ok_def by blast
  then show ?thesis by (auto simp: map_ok_def lde_map2fec_def)
qed

lemma reapply_mapping_inv:
  assumes inv: "lde_inv s" and af: "af \<noteq> AF_UNSPEC"
  shows "okE (bindE (case f of FEC_PWID _ _ lsr_id \<Rightarrow> Inr (lde_nbr_find_by_lsrid s lsr_id)
               | _ \<Rightarrow> lde_nbr_find_by_addr s af nexthop) (\<lambda>lno.
        case lno of
          None \<Rightarrow> Inr s
        | Some p \<Rightarrow>
            bindE (get_ln s p) (\<lambda>ln.
            case fec_find (ln_recv_map ln) f of
              None \<Rightarrow> Inr s
            | Some m \<Rightarrow> lde_check_mapping s m p))) lde_inv"
proof (rule okE_bind [where Q = "\<lambda>r. \<forall>p. r = Some p \<longrightarrow> nbr_valid s p"])
  show "okE (case f of FEC_PWID _ _ lsr_id \<Rightarrow> Inr (lde_nbr_find_by_lsrid s lsr_id)
               | _ \<Rightarrow> lde_nbr_find_by_addr s af nexthop) (\<lambda>r. \<forall>p. r = Some p \<longrightarrow> nbr_valid s p)"
    by (auto simp: lde_nbr_find_by_addr_total [OF af] find_Some_iff nbr_valid_def
        dest: lde_nbr_find_by_lsrid_valid split: fec.split option.splits)
  fix r assume v: "\<forall>p. r = Some p \<longrightarrow> nbr_valid s p"
  show "okE (case r of None \<Rightarrow> Inr s
        | Some p \<Rightarrow> bindE (get_ln s p) (\<lambda>ln. case fec_find (ln_recv_map ln) f of
              None \<Rightarrow> Inr s | Some m \<Rightarrow> lde_check_mapping s m p)) lde_inv"
  proof (cases r)
    case (Some p)
    with v obtain ln where ln: "rb_find (lde_nbrs s) p = Some ln" by (auto simp: nbr_valid_def)
    with Some v show ?thesis
      using inv recv_map_ok [OF inv ln] lde_check_mapping_inv [OF inv, of p]
      by (auto split: option.split)
  qed (simp add: inv)
qed

definition insert_ok :: "lde \<Rightarrow> fec \<Rightarrow> af \<Rightarrow> bool \<Rightarrow> nat option \<Rightarrow> bool" where
  "insert_ok s f af connected data \<longleftrightarrow> af \<noteq> AF_UNSPEC \<and>
     (fec_get_type f = FEC_TYPE_PWID \<longrightarrow> \<not> connected \<and> (\<exists>d. data = Some d \<and> pws s d \<noteq> None))"

lemma egress_label_total: "t \<noteq> FEC_TYPE_PWID \<Longrightarrow> okE (egress_label s t) (\<lambda>_. True)"
  by (cases t) (simp_all add: egress_label_def)

lemma announce_keeps:
  assumes inv: "lde_inv s" and f: "fec_valid s f" and c: "connected \<Longrightarrow> fec_get_type f \<noteq> FEC_TYPE_PWID"
  shows "okE (bindE (if connected then bindE (egress_label s (fec_get_type f)) (\<lambda>l. Inr (s, l))
                    else Inr (lde_assign_label s)) (\<lambda>(s3, l).
             let s4 = upd_fn s3 f (\<lambda>fn. fn\<lparr>fn_local_label := l\<rparr>) in
             foldE (\<lambda>s p. lde_send_labelmapping s p f True) (rb_keys (lde_nbrs s4)) s4)) (keeps s)"
proof (rule okE_bind [where Q = "\<lambda>(t, _). keeps s t"])
  show "okE (if connected then bindE (egress_label s (fec_get_type f)) (\<lambda>l. Inr (s, l))
      else Inr (lde_assign_label s)) (\<lambda>(t, _). keeps s t)"
    using keeps_assign_label [OF keeps_refl, of s] c
    by (auto simp: split_beta intro: okE_True_bind [OF egress_label_total])
  have "okE (foldE (\<lambda>s p. lde_send_labelmapping s p f True) (rb_keys (lde_nbrs t)) t) (keeps s)"
    if t: "keeps s t" for t
    using keeps_inv [OF inv t] f
    by (intro okE_keeps_trans [OF t] okE_keeps_foldE lde_send_labelmapping_keeps)
      (auto simp: keys_valid keeps_valid [OF t] keeps_valid simp del: rb_simps intro: keeps_inv)
  then show "okE (case x of (s3, l) \<Rightarrow> let s4 = upd_fn s3 f (\<lambda>fn. fn\<lparr>fn_local_label := l\<rparr>) in
       foldE (\<lambda>s p. lde_send_labelmapping s p f True) (rb_keys (lde_nbrs s4)) s4) (keeps s)"
    if "case x of (t, _) \<Rightarrow> keeps s t" for x
    using that keeps_local_label by (auto simp only: Let_def split: prod.splits)
qed

end
