(* ===== verification/Lde_Handlers.thy ===== *)
theory Lde_Handlers
  imports Lde_Safe
begin

text \<open>
  The handlers that the dispatch functions call: each ends without a fault and keeps the
  invariant. The last sections put them together into the step relation of the engine.
\<close>

section \<open>Routes from the kernel\<close>

lemma lde_kernel_insert_inv:
  assumes inv: "lde_inv s" and ok: "insert_ok s f af connected data"
  shows "okE (lde_kernel_insert s f af nexthop prio connected data) lde_inv"
proof -
  define s1 where "s1 = fec_find_or_add s f"
  have inv1: "lde_inv s1" and f1: "fec_valid s1 f" and pws1: "pws s1 = pws s"
    using fec_find_or_add_inv [OF inv] by (simp_all add: s1_def)
  from f1 obtain fn where fn: "fec_find (ft s1) f = Some fn" by (auto simp: fec_valid_def)
  have af: "af \<noteq> AF_UNSPEC" using ok by (simp add: insert_ok_def)
  define s2 where "s2 = (case f of FEC_PWID _ _ _ \<Rightarrow> upd_fn s1 f (\<lambda>fn. fn\<lparr>fn_data := data\<rparr>) | _ \<Rightarrow> s1)"
  have "lde_inv (upd_fn s1 f (\<lambda>fn. fn\<lparr>fn_data := data\<rparr>))" if "fec_get_type f = FEC_TYPE_PWID"
    using that ok by (intro upd_fn_inv [OF inv1]) (auto simp: node_ok_def insert_ok_def pws1)
  then have inv2: "lde_inv s2" using inv1 by (auto simp: s2_def split: fec.split)
  have f2: "fec_valid s2 f" using f1 by (auto simp: s2_def fec_valid_def split: fec.split)
  have data2: "fn_data fn2 \<noteq> None" if "fec_find (ft s2) f = Some fn2" "fec_get_type f = FEC_TYPE_PWID" for fn2
    using that ok fn by (cases f) (auto simp: s2_def insert_ok_def)
  have announce: "okE (if fn_local_label fn = NO_LABEL then
             bindE (if connected then bindE (egress_label s2 (fec_get_type f)) (\<lambda>l. Inr (s2, l))
                    else Inr (lde_assign_label s2)) (\<lambda>(s3, l).
             let s4 = upd_fn s3 f (\<lambda>fn. fn\<lparr>fn_local_label := l\<rparr>) in
             foldE (\<lambda>s p. lde_send_labelmapping s p f True) (rb_keys (lde_nbrs s4)) s4)
           else Inr s2) (keeps s2)"
    using announce_keeps [OF inv2 f2, of connected] ok by (auto simp: insert_ok_def)
  have install: "okE (lde_send_change_klabel (fec_nh_add s5 f af nexthop prio) f 0) lde_inv"
    if k: "keeps s2 s5" for s5
  proof -
    have "fn_data fn5 \<noteq> None" if fn5: "fec_find (ft s5) f = Some fn5" "fec_get_type f = FEC_TYPE_PWID" for fn5
    proof -
      obtain fn2 where "fec_find (ft s2) f = Some fn2" "fn_data fn2 = fn_data fn5"
        using same_core_node [OF same_core_sym fn5(1), of s2] k unfolding keeps_def by metis
      with data2 fn5(2) show ?thesis by metis
    qed
    then have inv6: "lde_inv (fec_nh_add s5 f af nexthop prio)"
      using keeps_inv [OF inv2 k] af by (intro fec_nh_add_inv) auto
    moreover have "nh_valid (fec_nh_add s5 f af nexthop prio) f 0"
      using keeps_valid(1) [OF k, of f] f2 by (auto simp: nh_valid_def fec_nh_add_def fec_valid_def)
    ultimately show ?thesis
      using lde_send_change_klabel_keeps keeps_inv [OF inv6] by (blast intro: okE_mono)
  qed
  show ?thesis
    unfolding lde_kernel_insert_def Let_def s1_def [symmetric] get_Some(2) [OF fn] bindE_simps s2_def [symmetric]
  proof (rule okE_bind [OF fec_nh_find_valid [OF af fn]], goal_cases)
    case (1 r)
    have "okE (bindE (if fn_local_label fn = NO_LABEL then
             bindE (if connected then bindE (egress_label s2 (fec_get_type f)) (\<lambda>l. Inr (s2, l))
                    else Inr (lde_assign_label s2)) (\<lambda>(s3, l).
             foldE (\<lambda>s p. lde_send_labelmapping s p f True)
               (rb_keys (lde_nbrs (upd_fn s3 f (\<lambda>fn. fn\<lparr>fn_local_label := l\<rparr>))))
               (upd_fn s3 f (\<lambda>fn. fn\<lparr>fn_local_label := l\<rparr>)))
           else Inr s2) (\<lambda>s5. bindE (lde_send_change_klabel (fec_nh_add s5 f af nexthop prio) f 0) (\<lambda>s7.
        bindE (case f of FEC_PWID _ _ lsr_id \<Rightarrow> Inr (lde_nbr_find_by_lsrid s7 lsr_id)
               | _ \<Rightarrow> lde_nbr_find_by_addr s7 af nexthop) (\<lambda>lno.
        case lno of
          None \<Rightarrow> Inr s7
        | Some p \<Rightarrow>
            bindE (get_ln s7 p) (\<lambda>ln.
            case fec_find (ln_recv_map ln) f of
              None \<Rightarrow> Inr s7
            | Some m \<Rightarrow> lde_check_mapping s7 m p))))) lde_inv"
      by (intro okE_bind [OF announce [unfolded Let_def]] okE_bind [OF install] reapply_mapping_inv [OF _ af])
    with inv1 show ?case by (cases r) (simp_all only: okE_Inr if_True if_False simp_thms option.distinct)
  qed
qed

lemma lde_kernel_remove_inv:
  assumes inv: "lde_inv s" and af: "af \<noteq> AF_UNSPEC"
  shows "okE (lde_kernel_remove s f af nexthop prio) lde_inv"
proof (cases "fec_find (ft s) f")
  case (Some fn)
  have last: "okE (bindE (lde_send_labelwithdraw_all s2 f NO_LABEL) (\<lambda>s3.
      Inr (case f of FEC_PWID _ _ _ \<Rightarrow> upd_fn (upd_fn s3 f (\<lambda>fn. fn\<lparr>fn_local_label := NO_LABEL\<rparr>)) f
          (\<lambda>fn. fn\<lparr>fn_data := None\<rparr>)
        | _ \<Rightarrow> upd_fn s3 f (\<lambda>fn. fn\<lparr>fn_local_label := NO_LABEL\<rparr>)))) lde_inv"
    if inv2: "lde_inv s2" and fn2: "fec_find (ft s2) f = Some fn2" "fn_nexthops fn2 = []" for s2 fn2
  proof (rule okE_bind [OF lde_send_labelwithdraw_all_keeps [OF inv2]])
    fix s3 assume k: "keeps s2 s3"
    then have inv4: "lde_inv (upd_fn s3 f (\<lambda>fn. fn\<lparr>fn_local_label := NO_LABEL\<rparr>))"
      using keeps_inv [OF inv2] keeps_local_label by blast
    obtain fn3 where "fec_find (ft s3) f = Some fn3" "fn_nexthops fn3 = []"
      using same_core_node [OF _ fn2(1), of s3] k fn2(2) unfolding keeps_def by (metis length_0_conv)
    then have "lde_inv (upd_fn (upd_fn s3 f (\<lambda>fn. fn\<lparr>fn_local_label := NO_LABEL\<rparr>)) f (\<lambda>fn. fn\<lparr>fn_data := None\<rparr>))"
      by (intro upd_fn_inv [OF inv4]) (auto simp: node_ok_def)
    with inv4 show "okE (Inr (case f of FEC_PWID _ _ _ \<Rightarrow>
          upd_fn (upd_fn s3 f (\<lambda>fn. fn\<lparr>fn_local_label := NO_LABEL\<rparr>)) f (\<lambda>fn. fn\<lparr>fn_data := None\<rparr>)
        | _ \<Rightarrow> upd_fn s3 f (\<lambda>fn. fn\<lparr>fn_local_label := NO_LABEL\<rparr>))) lde_inv"
      by (cases f) simp_all
  qed (simp add: fec_valid_def fn2)
  have del: "okE (bindE (lde_send_delete_klabel s f i) (\<lambda>s1. bindE (get_fn (fec_nh_del s1 f i) f) (\<lambda>fn2.
              if fn_nexthops fn2 = [] then
                bindE (lde_send_labelwithdraw_all (fec_nh_del s1 f i) f NO_LABEL) (\<lambda>s3.
                Inr (case f of FEC_PWID _ _ _ \<Rightarrow> upd_fn (upd_fn s3 f (\<lambda>fn. fn\<lparr>fn_local_label := NO_LABEL\<rparr>)) f
                      (\<lambda>fn. fn\<lparr>fn_data := None\<rparr>)
                  | _ \<Rightarrow> upd_fn s3 f (\<lambda>fn. fn\<lparr>fn_local_label := NO_LABEL\<rparr>)))
              else Inr (fec_nh_del s1 f i)))) lde_inv" if v: "nh_valid s f i" for i
  proof (rule okE_bind [OF lde_send_delete_klabel_keeps [OF inv v]], goal_cases)
    case (1 s1)
    then have inv2: "lde_inv (fec_nh_del s1 f i)" using keeps_inv [OF inv] by (intro fec_nh_del_inv) blast
    obtain fn2 where "fec_find (ft (fec_nh_del s1 f i)) f = Some fn2"
      using keeps_nh_valid [OF 1 v] by (auto simp: nh_valid_def fec_nh_del_def)
    with inv2 last [OF inv2] show ?case by simp
  qed
  show ?thesis
    unfolding lde_kernel_remove_def Some option.case Let_def
    by (rule okE_bind [OF fec_nh_find_valid [OF af Some]]) (auto simp: inv del split: option.split simp del: fec_get_type.simps)
qed (simp add: lde_kernel_remove_def inv)

section \<open>Requests, releases and withdraws\<close>

lemma lde_nbr_is_nexthop_total:
  assumes "lde_inv s" "fec_find (ft s) f = Some fn"
  shows "okE (lde_nbr_is_nexthop fn ln) (\<lambda>_. True)"
proof -
  have "findE (\<lambda>nh. bindE (lde_address_find ln (nh_af nh) (nh_nexthop nh)) (\<lambda>r. Inr (r \<noteq> None))) (fn_nexthops fn) =
      Inr (find (\<lambda>nh. has_address ln (nh_af nh) (nh_nexthop nh)) (fn_nexthops fn))"
    using inv_node [OF assms]
    by (intro findE_total) (simp add: node_ok_def lde_address_find_has_address [where f = Inr] del: not_None_eq)
  then show ?thesis by (simp add: lde_nbr_is_nexthop_def)
qed

lemma lde_req_add_keeps:
  assumes "nbr_valid s p"
  shows "okE (lde_req_add s p f sent) (\<lambda>(t, _). keeps s t)"
proof -
  have upd: "keeps s (upd_ln s p (\<lambda>ln. if sent then ln\<lparr>ln_sent_req := t\<rparr> else ln\<lparr>ln_recv_req := t\<rparr>))" for t
    by (rule keeps_step [OF keeps_refl same_shape_upd_ln]) (simp add: nbr_core_def sent_fecs_def)
  from assms obtain ln where "rb_find (lde_nbrs s) p = Some ln" by (auto simp: nbr_valid_def)
  with upd show ?thesis by (simp add: lde_req_add_def split_beta)
qed

lemma lde_check_request_keeps:
  assumes inv: "lde_inv s" and p: "nbr_valid s p" and m: "map_ok m"
  shows "okE (lde_check_request s m p) (keeps s)"
proof -
  from p obtain ln where ln: "rb_find (lde_nbrs s) p = Some ln" by (auto simp: nbr_valid_def)
  from m obtain f where f: "lde_map2fec m (ln_id ln) = Inr f" by (rule map_okE)
  have send: "okE (bindE (lde_req_add s p f False) (\<lambda>(s1, ok).
       lde_send_labelmapping (if ok then lde_req_set s1 p f (ntohl (map_msg_id m)) else s1) p f True)) (keeps s)"
    if fv: "fec_valid s f"
  proof (rule okE_bind [OF lde_req_add_keeps [OF p]], clarify)
    fix s1 ok assume "keeps s s1"
    then have k: "keeps s (if ok then lde_req_set s1 p f (ntohl (map_msg_id m)) else s1)" (is "keeps s ?u")
      by (auto intro: keeps_req_wdraw)
    have "okE (lde_send_labelmapping ?u p f True) (keeps ?u)"
      using keeps_inv [OF inv k] p fv by (intro lde_send_labelmapping_keeps) (simp_all only: keeps_valid [OF k])
    with k show "okE (lde_send_labelmapping ?u p f True) (keeps s)" by (rule okE_keeps_trans)
  qed
  show ?thesis
  proof (cases "fec_find (ft s) f")
    case None
    then show ?thesis by (auto simp: lde_check_request_def ln f)
  next
    case (Some fn)
    have "okE (case f of FEC_PWID _ _ _ \<Rightarrow> Inr False | _ \<Rightarrow> lde_nbr_is_nexthop fn ln) (\<lambda>_. True)"
      using lde_nbr_is_nexthop_total [OF inv Some] by (simp split: fec.split)
    then have "okE (bindE (case f of FEC_PWID _ _ _ \<Rightarrow> Inr False | _ \<Rightarrow> lde_nbr_is_nexthop fn ln) (\<lambda>loop.
           if loop then Inr (lde_send_notification s p S_LOOP_DETECTED (map_msg_id m) (htons MSG_TYPE_LABELREQUEST))
           else if fec_find (ln_recv_req ln) f \<noteq> None then Inr s
           else bindE (lde_req_add s p f False) (\<lambda>(s1, ok).
             lde_send_labelmapping (if ok then lde_req_set s1 p f (ntohl (map_msg_id m)) else s1) p f True))) (keeps s)"
      by (rule okE_True_bind) (use send Some in \<open>auto simp: fec_valid_def\<close>)
    moreover have "keeps s (lde_send_notification s p c i t)" for c i t by blast
    ultimately show ?thesis
      unfolding lde_check_request_def get_Some(1) [OF ln] f bindE_simps Some option.case Let_def
      by (cases "fn_nexthops fn = []") (simp_all only: simp_thms if_True if_False okE_Inr)
  qed
qed

lemma release_fec_inv:
  assumes inv: "lde_inv s" and p: "nbr_valid s p"
  shows "okE (release_fec m p s f) (\<lambda>t. lde_inv t \<and> nbr_valid t p)"
proof -
  from p obtain ln where ln: "rb_find (lde_nbrs s) p = Some ln" by (auto simp: nbr_valid_def)
  have del: "lde_inv (lde_map_del t p f True) \<and> nbr_valid (lde_map_del t p f True) p"
    if t: "lde_inv t" "map_option ln_sent_map (rb_find (lde_nbrs t) p) = Some (ln_sent_map ln)"
      "fec_find (ln_sent_map ln) f = Some me" for t me
  proof -
    from t obtain ln' where ln': "rb_find (lde_nbrs t) p = Some ln'" "ln_sent_map ln' = ln_sent_map ln" by auto
    with map_del_inv [OF t(1) ln'(1), of True f] t(3) show ?thesis
      by (simp add: nbr_valid_def lde_map_del_def lde_map_free_def)
  qed
  have wd: "lde_inv (lde_wdraw_del s p f)" "nbr_valid (lde_wdraw_del s p f) p"
    "map_option ln_sent_map (rb_find (lde_nbrs (lde_wdraw_del s p f)) p) = Some (ln_sent_map ln)"
    using keeps_inv [OF inv keeps_req_wdraw(4) [OF keeps_refl]] ln
    by (simp_all add: lde_wdraw_del_def nbr_valid_def)
  show ?thesis
    using inv p wd ln del by (auto simp: release_fec_def ln Let_def split: option.split)
qed

lemma lde_check_release_inv:
  assumes "lde_inv s" "nbr_valid s p" "map_ok m"
  shows "okE (lde_check_release s m p) lde_inv"
proof -
  from assms(2) obtain ln where ln: "rb_find (lde_nbrs s) p = Some ln" by (auto simp: nbr_valid_def)
  from assms(3) obtain f where "lde_map2fec m (ln_id ln) = Inr f" by (rule map_okE)
  with ln release_fec_inv [OF assms(1,2), of m f] assms(1) show ?thesis
    by (auto simp: lde_check_release_def okE_def)
qed

lemma lde_check_release_wcard_inv:
  assumes "lde_inv s" "nbr_valid s p"
  shows "okE (lde_check_release_wcard s m p) lde_inv"
proof -
  have "okE (lde_check_release_wcard s m p) (\<lambda>t. lde_inv t \<and> nbr_valid t p)"
    unfolding lde_check_release_wcard_def
    by (rule okE_foldE) (use assms release_fec_inv in auto)
  then show ?thesis by (rule okE_mono) simp
qed

lemma withdraw_recv_map_inv:
  assumes inv: "lde_inv s" and p: "nbr_valid s p"
  shows "okE (withdraw_recv_map m p f s) (\<lambda>t. lde_inv t \<and> nbr_valid t p \<and> fec_valid t = fec_valid s)"
proof -
  from p obtain ln where ln: "rb_find (lde_nbrs s) p = Some ln" by (auto simp: nbr_valid_def)
  have "lde_inv (lde_map_del s p f False)" if "fec_find (ln_recv_map ln) f = Some me" for me
    using map_del_inv [OF inv ln, of False f] that by simp
  moreover have "nbr_valid (lde_map_del s p f False) p" "fec_valid (lde_map_del s p f False) = fec_valid s"
    using ln by (auto simp: nbr_valid_def fec_valid_def lde_map_del_def lde_map_free_def fun_eq_iff)
  ultimately show ?thesis
    using inv p by (auto simp: withdraw_recv_map_def ln split: option.split)
qed

lemma lde_check_withdraw_inv:
  assumes inv: "lde_inv s" and p: "nbr_valid s p" and m: "map_ok m"
  shows "okE (lde_check_withdraw s m p) lde_inv"
proof -
  from p obtain ln where ln: "rb_find (lde_nbrs s) p = Some ln" by (auto simp: nbr_valid_def)
  from m obtain f where f: "lde_map2fec m (ln_id ln) = Inr f" by (rule map_okE)
  define s1 where "s1 = fec_find_or_add s f"
  have inv1: "lde_inv s1" and f1: "fec_valid s1 f" and p1: "nbr_valid s1 p"
    using fec_find_or_add_inv [OF inv] p by (simp_all add: s1_def)
  have v: "lde_inv t" "fec_valid t f" "nbr_valid t p" if "keeps s1 t" for t
    using keeps_inv [OF inv1 that] keeps_valid [OF that] f1 p1 by simp_all
  have rel: "okE (lde_send_labelrelease t p (Some f) l) (keeps s1)" if "keeps s1 t" for t l
    using v [OF that] by (intro okE_keeps_trans [OF that] lde_send_labelrelease_keeps) auto
  have del: "okE (withdraw_recv_map m p f t) lde_inv" if "keeps s1 t" for t
    using okE_mono [OF withdraw_recv_map_inv [OF v(1) [OF that] v(3) [OF that]]] by blast
  have "okE (bindE (foldE (withdraw_nh p f) (nh_positions s1 f) s1) (\<lambda>s2.
      bindE (lde_send_labelrelease s2 p (Some f) (map_label m)) (withdraw_recv_map m p f))) lde_inv"
    by (rule okE_bind [OF nh_loop_keeps [OF inv1 p1 withdraw_nh_keeps] okE_bind [OF rel del]])
  with inv show ?thesis
    by (simp add: lde_check_withdraw_def ln f s1_def Let_def)
qed

lemma lde_check_withdraw_wcard_inv:
  assumes inv: "lde_inv s" and p: "nbr_valid s p"
  shows "okE (lde_check_withdraw_wcard s m p) lde_inv"
proof -
  have "okE (bindE (foldE (withdraw_wcard_nh p f) (nh_positions t f) t) (withdraw_recv_map m p f))
      (\<lambda>u. lde_inv u \<and> nbr_valid u p)" if "lde_inv t" "nbr_valid t p" for t f
  proof (rule okE_bind [OF nh_loop_keeps [OF that withdraw_wcard_nh_keeps]])
    fix u assume k: "keeps t u"
    show "okE (withdraw_recv_map m p f u) (\<lambda>u. lde_inv u \<and> nbr_valid u p)"
      by (rule okE_mono [OF withdraw_recv_map_inv])
        (use keeps_inv [OF that(1) k] that(2) in \<open>auto simp: keeps_valid [OF k]\<close>)
  qed
  then have "okE (foldE (\<lambda>s f. bindE (foldE (withdraw_wcard_nh p f) (nh_positions s f) s)
      (withdraw_recv_map m p f)) fs t) (\<lambda>u. lde_inv u \<and> nbr_valid u p)"
    if "lde_inv t \<and> nbr_valid t p" for t fs
    using that by (intro okE_foldE) auto
  note loop = this
  have loop: "okE (foldE (\<lambda>s f. bindE (foldE (withdraw_wcard_nh p f) (nh_positions s f) s)
      (withdraw_recv_map m p f)) (rb_keys (ft t)) t) lde_inv" if "keeps s t" for t
    using keeps_inv [OF inv that] p by (intro okE_mono [OF loop]) (auto simp: keeps_valid [OF that])
  show ?thesis
    unfolding lde_check_withdraw_wcard_def
    by (rule okE_bind [OF lde_send_labelrelease_keeps [OF inv p] loop]) auto
qed

section \<open>The garbage collector and the label database\<close>

lemma gc_step_inv:
  assumes inv: "lde_inv s" and fn: "fec_find (ft s) f = Some fn" and dead: "gc_dead fn"
  shows "lde_inv (s\<lparr>ft := fst (fec_remove (ft s) f)\<rparr>)" (is "lde_inv ?t")
proof -
  have maps: "has_recv_map ?t = has_recv_map s" "has_sent_map ?t = has_sent_map s"
    by (simp_all add: fun_eq_iff has_recv_map_def has_sent_map_def)
  have ok: "node_ok ?t = node_ok s" by (simp add: fun_eq_iff node_ok_def maps)
  have "recv_ok ?t = recv_ok s" "conf_ok ?t = conf_ok s" by (simp_all add: recv_ok_def conf_ok_def)
  moreover have "\<not> has_recv_map s p f" "\<not> has_sent_map s p f" for p
    using inv_node [OF inv fn] dead by (simp_all add: node_ok_def gc_dead_def)
  ultimately show ?thesis using inv by (auto simp: lde_inv_def maps ok)
qed

lemma lde_gc_timer_inv: "lde_inv s \<Longrightarrow> lde_inv (lde_gc_timer s)"
proof -
  assume "lde_inv s"
  then have "lde_inv (foldl (\<lambda>s f. case fec_find (ft s) f of
      Some fn \<Rightarrow> if gc_dead fn then s\<lparr>ft := fst (fec_remove (ft s) f)\<rparr> else s | None \<Rightarrow> s) s fs)" for fs
    by (induction fs arbitrary: s) (auto simp: gc_step_inv split: option.split)
  then show ?thesis by (simp add: lde_gc_timer_def)
qed

lemma fec_snap_keeps:
  assumes inv: "lde_inv s" and p: "nbr_valid s p"
  shows "okE (fec_snap s p) (keeps s)"
proof -
  have "okE (bindE (get_fn t f) (\<lambda>fn. if fn_local_label fn = NO_LABEL then Inr t
      else lde_send_labelmapping t p f False)) (keeps t)" if "f \<in> set (rb_keys (ft s))" and k: "keeps s t" for t f
  proof -
    have "fec_valid t f" using that by (simp add: keys_valid keeps_valid del: rb_simps)
    moreover from this obtain fn where "fec_find (ft t) f = Some fn" by (auto simp: fec_valid_def)
    ultimately show ?thesis
      using keeps_inv [OF inv k] p by (auto simp: keeps_valid [OF k] intro!: lde_send_labelmapping_keeps)
  qed
  from okE_keeps_foldE [OF this] show ?thesis
    unfolding fec_snap_def by (rule okE_bind) (auto intro: keeps_emit)
qed

lemma rt_dump_map_keeps:
  assumes inv: "lde_inv s" and fn: "fec_find (ft s) f = Some fn" and p: "has_recv_map s p f"
  shows "okE (rt_dump_map ctl f fn s p) (\<lambda>t. keeps s t \<and> ft t = ft s)"
proof -
  from p obtain ln m where ln: "rb_find (lde_nbrs s) p = Some ln" and m: "fec_find (ln_recv_map ln) f = Some m"
    by (auto simp: has_recv_map_def)
  show ?thesis
    unfolding rt_dump_map_def get_Some(1) [OF ln] m bindE_simps option.case
    by (rule okE_True_bind [OF lde_nbr_is_nexthop_total [OF inv fn]]) (simp add: keeps_emit)
qed

lemma rt_dump_fec_keeps:
  assumes inv: "lde_inv s" and fn: "fec_find (ft s) f = Some fn"
  shows "okE (bindE (foldE (rt_dump_map ctl f fn) (fn_downstream fn) s) (\<lambda>s1.
    if fn_downstream fn = [] then Inr (emit s1 (IMSG_CTL_SHOW_LIB ctl)) else Inr s1)) (keeps s)"
proof -
  have "okE (foldE (rt_dump_map ctl f fn) (fn_downstream fn) s) (\<lambda>t. keeps s t \<and> ft t = ft s)"
  proof (rule okE_foldE)
    fix t p assume p: "p \<in> set (fn_downstream fn)" and t: "keeps s t \<and> ft t = ft s"
    then have "has_recv_map t p f"
      using inv_node [OF inv fn] same_core_has_recv_map [of s t] by (simp add: node_ok_def keeps_def)
    with t inv fn have "okE (rt_dump_map ctl f fn t p) (\<lambda>u. keeps t u \<and> ft u = ft t)"
      by (intro rt_dump_map_keeps) (auto intro: keeps_inv)
    with t show "okE (rt_dump_map ctl f fn t p) (\<lambda>u. keeps s u \<and> ft u = ft s)"
      by (auto simp: okE_def intro: keeps_trans)
  qed simp
  then show ?thesis by (rule okE_bind) (auto intro: keeps_emit)
qed

lemma rt_dump_keeps:
  assumes inv: "lde_inv s"
  shows "okE (rt_dump s) (keeps s)"
  unfolding rt_dump_def
proof (rule okE_keeps_foldE, goal_cases)
  case (1 t f)
  then have "fec_valid t f" by (simp add: keys_valid keeps_valid del: rb_simps)
  then obtain fn where fn: "fec_find (ft t) f = Some fn" by (auto simp: fec_valid_def)
  have invt: "lde_inv t" using keeps_inv [OF inv] 1 by blast
  show ?case
  proof (cases "fn_local_label fn = NO_LABEL \<and> fn_downstream fn = []")
    case False
    then show ?thesis
      unfolding get_Some(2) [OF fn] bindE_simps Let_def if_not_P [OF False]
      using rt_dump_fec_keeps [OF invt fn] by (cases f) (simp_all only: fec.case okE_Inr keeps_refl)
  qed (simp add: fn)
qed

section \<open>Neighbours\<close>

lemma lde_nbr_new_inv:
  assumes inv: "lde_inv s" and new: "\<not> nbr_valid s p"
  shows "okE (lde_nbr_new s p lsr_id b4 b6) lde_inv"
proof -
  obtain t where t: "lde_nbr_new s p lsr_id b4 b6 = Inr t" and ft: "ft t = ft s" "pws t = pws s"
      "l2vpns t = l2vpns s" "l2vpn_list t = l2vpn_list s"
    and nbrs: "\<And>q. rb_find (lde_nbrs t) q = (if q = p then Some
       \<lparr>ln_id = lsr_id, ln_v4_enabled = b4, ln_v6_enabled = b6, ln_recv_req = fec_init, ln_sent_req = fec_init,
        ln_recv_map = fec_init, ln_sent_map = fec_init, ln_sent_wdraw = fec_init, ln_addr_list = []\<rparr>
      else rb_find (lde_nbrs s) q)"
    using new by (simp add: lde_nbr_new_def nbr_valid_def split_beta)
  have maps: "has_recv_map t = has_recv_map s" "has_sent_map t = has_sent_map s"
    using new by (auto simp: fun_eq_iff has_recv_map_def has_sent_map_def nbrs nbr_valid_def)
  have "node_ok t = node_ok s" by (simp add: fun_eq_iff node_ok_def maps ft)
  moreover have "recv_ok t" "conf_ok t"
    using inv by (auto simp: lde_inv_def recv_ok_def conf_ok_def ft nbrs)
  ultimately show ?thesis using inv by (simp add: t lde_inv_def maps ft)
qed

lemma foldl_map_free:
  assumes "distinct fs"
  shows "fec_find (ft (foldl (\<lambda>s f. lde_map_free s p f sent) s fs)) g =
      map_option (\<lambda>fn. if g \<notin> set fs then fn else if sent then fn\<lparr>fn_upstream := remove1 p (fn_upstream fn)\<rparr>
        else fn\<lparr>fn_downstream := remove1 p (fn_downstream fn)\<rparr>) (fec_find (ft s) g) \<and>
    lde_nbrs (foldl (\<lambda>s f. lde_map_free s p f sent) s fs) = lde_nbrs s \<and>
    pws (foldl (\<lambda>s f. lde_map_free s p f sent) s fs) = pws s \<and>
    l2vpns (foldl (\<lambda>s f. lde_map_free s p f sent) s fs) = l2vpns s \<and>
    l2vpn_list (foldl (\<lambda>s f. lde_map_free s p f sent) s fs) = l2vpn_list s"
  using assms
proof (induction fs arbitrary: s)
  case (Cons f fs)
  then show ?case
    by (auto simp: lde_map_free_def option.map_comp o_def intro!: option.map_cong)
qed (simp add: option.map_ident)

lemma in_keys_fec: "g \<in> set (rb_keys t) \<longleftrightarrow> fec_find t g \<noteq> None"
  by (simp add: fec_find_def)

lemma lde_nbr_clear_trees_spec:
  assumes p: "rb_find (lde_nbrs s) p = Some ln"
  obtains t ln' where "lde_nbr_clear_trees s p = Inr t" "pws t = pws s" "l2vpns t = l2vpns s"
    "l2vpn_list t = l2vpn_list s"
    "\<And>g. fec_find (ft t) g = map_option (\<lambda>fn. fn\<lparr>
        fn_downstream := (if fec_find (ln_recv_map ln) g \<noteq> None then remove1 p (fn_downstream fn) else fn_downstream fn),
        fn_upstream := (if fec_find (ln_sent_map ln) g \<noteq> None then remove1 p (fn_upstream fn) else fn_upstream fn)\<rparr>)
        (fec_find (ft s) g)"
    "\<And>q. rb_find (lde_nbrs t) q = (if q = p then Some ln' else rb_find (lde_nbrs s) q)"
    "ln_id ln' = ln_id ln" "\<And>f. fec_find (ln_recv_map ln') f = None" "\<And>f. fec_find (ln_sent_map ln') f = None"
proof -
  let ?free = "\<lambda>sent s f. lde_map_free s p f sent"
  define s1 where "s1 = foldl (?free False) s (rb_keys (ln_recv_map ln))"
  define t1 where "t1 = fst (fec_clear (ln_recv_map ln) (\<lambda>f s. lde_map_free s p f False) s)"
  define s2 where "s2 = upd_ln s1 p (\<lambda>ln. ln\<lparr>ln_recv_map := t1\<rparr>)"
  define s3 where "s3 = foldl (?free True) s2 (rb_keys (ln_sent_map ln))"
  define t2 where "t2 = fst (fec_clear (ln_sent_map ln) (\<lambda>f s. lde_map_free s p f True) s2)"
  define g where "g = (\<lambda>ln :: lde_nbr. ln\<lparr>ln_recv_req := fec_init, ln_sent_req := fec_init, ln_sent_wdraw := fec_init\<rparr>)"
  have clear: "fec_clear (ln_recv_map ln) (\<lambda>f s. lde_map_free s p f False) s = (t1, s1)"
    "fec_clear (ln_sent_map ln) (\<lambda>f s. lde_map_free s p f True) s2 = (t2, s3)"
    by (simp_all add: t1_def s1_def t2_def s3_def fec_clear_eq)
  have none: "fec_find t1 f = None" "fec_find t2 f = None" for f by (simp_all add: t1_def t2_def)
  note free1 = foldl_map_free [of "rb_keys (ln_recv_map ln)" p False s, folded s1_def, OF rb.keys_ordered [THEN conjunct2]]
  note free2 = foldl_map_free [of "rb_keys (ln_sent_map ln)" p True s2, folded s3_def, OF rb.keys_ordered [THEN conjunct2]]
  let ?t = "upd_ln (upd_ln s3 p (\<lambda>ln. ln\<lparr>ln_sent_map := t2\<rparr>)) p g"
  have run: "lde_nbr_clear_trees s p = Inr ?t"
    by (simp add: lde_nbr_clear_trees_def p clear s2_def [symmetric] Let_def g_def)
  have nodes: "fec_find (ft ?t) h = map_option (\<lambda>fn. fn\<lparr>
        fn_downstream := (if fec_find (ln_recv_map ln) h \<noteq> None then remove1 p (fn_downstream fn) else fn_downstream fn),
        fn_upstream := (if fec_find (ln_sent_map ln) h \<noteq> None then remove1 p (fn_upstream fn) else fn_upstream fn)\<rparr>)
        (fec_find (ft s) h)" for h
    by (cases "fec_find (ft s) h") (auto simp: free2 s2_def free1 in_keys_fec simp del: rb_simps not_None_eq)
  have nbrs: "rb_find (lde_nbrs ?t) q = (if q = p then Some (g (ln\<lparr>ln_recv_map := t1, ln_sent_map := t2\<rparr>))
      else rb_find (lde_nbrs s) q)" for q
    using p by (simp add: free2 s2_def free1)
  show thesis
    by (rule that [OF run _ _ _ nodes nbrs]) (simp_all add: free2 s2_def free1 g_def none)
qed

lemma lde_nbr_clear_trees_inv:
  assumes inv: "lde_inv s" and p: "rb_find (lde_nbrs s) p = Some ln"
  shows "okE (lde_nbr_clear_trees s p) (\<lambda>t. lde_inv t \<and> (\<forall>f. \<not> has_recv_map t p f \<and> \<not> has_sent_map t p f))"
proof -
  obtain t ln' where t: "lde_nbr_clear_trees s p = Inr t" and same: "pws t = pws s" "l2vpns t = l2vpns s"
      "l2vpn_list t = l2vpn_list s"
    and nodes: "\<And>g. fec_find (ft t) g = map_option (\<lambda>fn. fn\<lparr>
        fn_downstream := (if fec_find (ln_recv_map ln) g \<noteq> None then remove1 p (fn_downstream fn) else fn_downstream fn),
        fn_upstream := (if fec_find (ln_sent_map ln) g \<noteq> None then remove1 p (fn_upstream fn) else fn_upstream fn)\<rparr>)
        (fec_find (ft s) g)"
    and ln': "\<And>q. rb_find (lde_nbrs t) q = (if q = p then Some ln' else rb_find (lde_nbrs s) q)"
      "ln_id ln' = ln_id ln" "\<And>f. fec_find (ln_recv_map ln') f = None" "\<And>f. fec_find (ln_sent_map ln') f = None"
    using lde_nbr_clear_trees_spec [OF p] by blast
  have recv: "has_recv_map t q g \<longleftrightarrow> has_recv_map s q g \<and> q \<noteq> p" for q g
    by (simp add: has_recv_map_def ln')
  have sent: "has_sent_map t q g \<longleftrightarrow> has_sent_map s q g \<and> q \<noteq> p" for q g
    by (simp add: has_sent_map_def ln')
  have keys: "fec_find (ln_recv_map ln) g \<noteq> None \<longleftrightarrow> has_recv_map s p g"
    "fec_find (ln_sent_map ln) g \<noteq> None \<longleftrightarrow> has_sent_map s p g" for g
    using p by (simp_all add: has_recv_map_def has_sent_map_def)
  have "lde_inv t"
  proof (rule lde_invI [OF inv _ same(2,3) _ nodes])
    show "recv_ok t" using inv by (auto simp: lde_inv_def recv_ok_def ln')
    show "fec_valid s g" if "has_recv_map t q g \<or> has_sent_map t q g" for q g
      using that inv by (auto simp: recv sent lde_inv_def fec_valid_def)
  qed (auto simp: same node_ok_def recv sent keys simp del: not_None_eq)
  with t recv sent show ?thesis by simp
qed

lemma nbr_remove_inv:
  assumes inv: "lde_inv s" and none: "\<forall>f. \<not> has_recv_map s p f \<and> \<not> has_sent_map s p f"
  shows "lde_inv (s\<lparr>lde_nbrs := rb_remove (lde_nbrs s) p\<rparr>)" (is "lde_inv ?t")
proof -
  have "has_recv_map ?t q g = has_recv_map s q g" "has_sent_map ?t q g = has_sent_map s q g" for q g
    using none by (auto simp: has_recv_map_def has_sent_map_def)
  then have maps: "has_recv_map ?t = has_recv_map s" "has_sent_map ?t = has_sent_map s" by (simp_all add: fun_eq_iff)
  have "node_ok ?t = node_ok s" by (simp add: fun_eq_iff node_ok_def maps)
  moreover have "recv_ok ?t" "conf_ok ?t"
    using inv by (auto simp: lde_inv_def recv_ok_def conf_ok_def split: if_splits)
  ultimately show ?thesis using inv by (simp add: lde_inv_def maps)
qed

lemma addr_list_inv: "lde_inv s \<Longrightarrow> lde_inv (upd_ln s p (\<lambda>ln. ln\<lparr>ln_addr_list := g ln\<rparr>))"
proof -
  assume inv: "lde_inv s"
  let ?t = "upd_ln s p (\<lambda>ln. ln\<lparr>ln_addr_list := g ln\<rparr>)"
  have "has_recv_map ?t q h = has_recv_map s q h" "has_sent_map ?t q h = has_sent_map s q h" for q h
    by (auto simp: has_recv_map_def has_sent_map_def)
  then have maps: "has_recv_map ?t = has_recv_map s" "has_sent_map ?t = has_sent_map s" by (simp_all add: fun_eq_iff)
  have "node_ok ?t = node_ok s" by (simp add: fun_eq_iff node_ok_def maps)
  moreover have "recv_ok ?t" "conf_ok ?t"
    using inv by (auto simp: lde_inv_def recv_ok_def conf_ok_def split: if_splits)
  ultimately show ?thesis using inv by (simp add: lde_inv_def maps)
qed

lemma uninstall_all_keeps:
  assumes inv: "lde_inv s" and p: "nbr_valid s p"
  shows "okE (foldE (\<lambda>s f. foldE (uninstall_nh p f) (nh_positions s f) s) (rb_keys (ft s)) s) (keeps s)"
proof (rule okE_keeps_foldE)
  fix t f assume k: "keeps s t"
  show "okE (foldE (uninstall_nh p f) (nh_positions t f) t) (keeps t)"
    using keeps_inv [OF inv k] p by (intro nh_loop_keeps uninstall_nh_keeps) (simp_all add: keeps_valid [OF k])
qed

lemma lde_nbr_del_inv:
  assumes inv: "lde_inv s"
  shows "okE (lde_nbr_del s p) lde_inv"
proof (cases "rb_find (lde_nbrs s) p")
  case (Some ln)
  then have v: "nbr_valid s p" by (simp add: nbr_valid_def)
  have "okE (bindE (lde_nbr_clear_trees (lde_address_list_free t p) p) (\<lambda>s2.
          Inr (s2\<lparr>lde_nbrs := rb_remove (lde_nbrs s2) p\<rparr>))) lde_inv" if k: "keeps s t" for t
  proof -
    obtain ln' where "rb_find (lde_nbrs (lde_address_list_free t p)) p = Some ln'"
      using keeps_valid(2) [OF k, of p] v by (auto simp: nbr_valid_def lde_address_list_free_def)
    moreover have "lde_inv (lde_address_list_free t p)"
      using keeps_inv [OF inv k] by (simp add: lde_address_list_free_def addr_list_inv)
    ultimately show ?thesis
      by (intro okE_bind [OF lde_nbr_clear_trees_inv]) (auto intro: nbr_remove_inv)
  qed
  from okE_bind [OF uninstall_all_keeps [OF inv v] this] show ?thesis
    by (simp add: lde_nbr_del_def lde_nbr_find_def Some)
qed (simp add: lde_nbr_del_def lde_nbr_find_def inv)

section \<open>Addresses of a neighbour\<close>

lemma nh_with_addr_valid:
  assumes "lde_inv s" "fec_find (ft s) f = Some fn"
  shows "okE (nh_with_addr fn a) (\<lambda>r. \<forall>i. r = Some i \<longrightarrow> nh_valid s f i)"
proof -
  have "nh_with_addr fn a = Inr (find (\<lambda>i. addr_eq (nh_af (fn_nexthops fn ! i)) (nh_nexthop (fn_nexthops fn ! i)) a)
      [0..<length (fn_nexthops fn)])"
    unfolding nh_with_addr_def
    by (rule findE_total) (use inv_nh_af [OF assms] in \<open>auto simp: Let_def ldp_addrcmp_addr_eq [where f = Inr]\<close>)
  with assms(2) show ?thesis by (auto simp: nh_valid_def find_Some_iff)
qed

lemma addr_update_fec_keeps:
  assumes inv: "lde_inv s" and r: "has_recv_map s p f"
  shows "okE (addr_update_fec p la removed s f) (keeps s)"
proof -
  from r obtain ln m where ln: "rb_find (lde_nbrs s) p = Some ln" "fec_find (ln_recv_map ln) f = Some m"
    by (auto simp: has_recv_map_def)
  from r inv obtain fn where fn: "fec_find (ft s) f = Some fn" unfolding lde_inv_def by (metis not_None_eq)
  have "okE (bindE (nh_with_addr fn (la_addr la)) (\<lambda>r. case r of None \<Rightarrow> Inr s
        | Some i \<Rightarrow>
            if removed then
              bindE (lde_send_delete_klabel s f i) (\<lambda>s1. Inr (set_remote_label s1 f i NO_LABEL))
            else bindE (get_ln s p) (\<lambda>ln.
              case fec_find (ln_recv_map ln) f of
                None \<Rightarrow> Inl NullDeref
              | Some m \<Rightarrow> lde_send_change_klabel (set_remote_label s f i (map_label m)) f i))) (keeps s)"
    by (rule okE_bind [OF nh_with_addr_valid [OF inv fn]])
      (use drop_label_keeps [OF inv] set_label_keeps [OF inv] in \<open>auto simp: ln split: option.split\<close>)
  with fn show ?thesis by (simp add: addr_update_fec_def)
qed

lemma lde_nbr_addr_update_keeps:
  assumes inv: "lde_inv s" and p: "nbr_valid s p"
  shows "okE (lde_nbr_addr_update s p la removed) (keeps s)"
proof -
  from p obtain ln where ln: "rb_find (lde_nbrs s) p = Some ln" by (auto simp: nbr_valid_def)
  have "okE (foldE (addr_update_fec p la removed) (rb_keys (ln_recv_map ln)) s) (keeps s)"
  proof (rule okE_keeps_foldE)
    fix t f assume f: "f \<in> set (rb_keys (ln_recv_map ln))" and k: "keeps s t"
    then have "has_recv_map t p f"
      using same_core_has_recv_map [of s t] ln by (simp add: keeps_def has_recv_map_def fec_find_def)
    then show "okE (addr_update_fec p la removed t f) (keeps t)"
      using keeps_inv [OF inv k] by (intro addr_update_fec_keeps)
  qed
  with ln show ?thesis by (simp add: lde_nbr_addr_update_def)
qed

lemma lde_address_add_inv:
  assumes inv: "lde_inv s" and p: "nbr_valid s p" and la: "la_af la \<noteq> AF_UNSPEC"
  shows "okE (lde_address_add s p la) lde_inv"
proof -
  from p obtain ln where ln: "rb_find (lde_nbrs s) p = Some ln" by (auto simp: nbr_valid_def)
  let ?t = "upd_ln s p (\<lambda>ln. ln\<lparr>ln_addr_list := ln_addr_list ln @ [la]\<rparr>)"
  have t: "lde_inv ?t" "nbr_valid ?t p" using addr_list_inv [OF inv] ln by (simp_all add: nbr_valid_def)
  have "okE (lde_nbr_addr_update ?t p la False) lde_inv"
    using lde_nbr_addr_update_keeps [OF t] keeps_inv [OF t(1)] by (blast intro: okE_mono)
  with inv la ln show ?thesis by (simp add: lde_address_add_def lde_address_find_total)
qed

lemma lde_address_del_inv:
  assumes inv: "lde_inv s" and p: "nbr_valid s p" and la: "la_af la \<noteq> AF_UNSPEC"
  shows "okE (lde_address_del s p la) lde_inv"
proof -
  from p obtain ln where ln: "rb_find (lde_nbrs s) p = Some ln" by (auto simp: nbr_valid_def)
  have "okE (bindE (lde_nbr_addr_update s p old True) (\<lambda>s1.
         Inr (upd_ln s1 p (\<lambda>ln. ln\<lparr>ln_addr_list := remove1 old (ln_addr_list ln)\<rparr>)))) lde_inv" for old
    by (rule okE_bind [OF lde_nbr_addr_update_keeps [OF inv p]])
      (simp add: addr_list_inv keeps_inv [OF inv])
  with inv la ln show ?thesis by (simp add: lde_address_del_def lde_address_find_total split: option.split)
qed

end
