(* ===== verification/Lde_Reach.thy ===== *)
theory Lde_Reach
  imports Lde_Handlers
begin

text \<open>
  The engine as a state machine. The events are the messages of the protocol engine and of the
  parent, the expiry of the garbage-collection timer, the change of the egress label and the start
  and end of a pseudowire. Every state reachable from the start satisfies the invariant, and no
  event that the other processes can send makes the engine fault.
\<close>

section \<open>The remaining handlers\<close>

lemma egress_update_fec_keeps:
  assumes inv: "lde_inv s" and f: "fec_valid s f" and p: "nbr_valid s p" and af: "af \<noteq> AF_UNSPEC"
  shows "okE (egress_update_fec af p s f) (keeps s)"
proof -
  from f obtain fn where fn: "fec_find (ft s) f = Some fn" by (auto simp: fec_valid_def)
  have "okE (lde_send_labelmapping (upd_fn s f (\<lambda>fn. fn\<lparr>fn_local_label := l\<rparr>)) p f False) (keeps s)" for l
  proof -
    have k: "keeps s (upd_fn s f (\<lambda>fn. fn\<lparr>fn_local_label := l\<rparr>))" (is "keeps s ?t") by blast
    have "okE (lde_send_labelmapping ?t p f False) (keeps ?t)"
      using keeps_inv [OF inv k] f p by (intro lde_send_labelmapping_keeps) (simp_all only: keeps_valid [OF k])
    with k show ?thesis by (rule okE_keeps_trans)
  qed
  then have send: "okE (bindE (egress_label s (fec_get_type f)) (\<lambda>l.
      lde_send_labelmapping (upd_fn s f (\<lambda>fn. fn\<lparr>fn_local_label := l\<rparr>)) p f False)) (keeps s)"
    if "fec_get_type f \<noteq> FEC_TYPE_PWID"
    by (rule okE_True_bind [OF egress_label_total [OF that]])
  show ?thesis
    using af send by (cases af) (auto simp: egress_update_fec_def fn)
qed

lemma egress_update_nbr_keeps:
  assumes inv: "lde_inv s" and p: "nbr_valid s p" and af: "af \<noteq> AF_UNSPEC"
  shows "okE (egress_update_nbr af was_implicit s p) (keeps s)"
proof -
  from p obtain ln where ln: "rb_find (lde_nbrs s) p = Some ln" by (auto simp: nbr_valid_def)
  have v: "lde_inv t" "nbr_valid t p" if "keeps s t" for t
    using keeps_inv [OF inv that] keeps_valid(2) [OF that] p by simp_all
  have wd: "okE (lde_send_labelwithdraw t p None l None) (keeps t)" if "keeps s t" for t l
    by (rule lde_send_labelwithdraw_keeps [OF v [OF that]]) simp
  have wds: "okE (if was_implicit then lde_send_labelwithdraw s p None MPLS_LABEL_IMPLNULL None
        else
          bindE (if ln_v4_enabled ln then lde_send_labelwithdraw s p None MPLS_LABEL_IPV4NULL None
                 else Inr s) (\<lambda>s1.
          if ln_v6_enabled ln then lde_send_labelwithdraw s1 p None MPLS_LABEL_IPV6NULL None
          else Inr s1)) (keeps s)"
    using wd by (auto intro!: okE_keeps_bind)
  have loop: "okE (foldE (egress_update_fec af p) (rb_keys (ft t)) t) (keeps t)" if k: "keeps s t" for t
  proof (rule okE_keeps_foldE)
    fix u f assume f: "f \<in> set (rb_keys (ft t))" and u: "keeps t u"
    have "fec_valid u f" using f by (simp add: keys_valid keeps_valid [OF u] del: rb_simps)
    then show "okE (egress_update_fec af p u f) (keeps u)"
      using v [OF keeps_trans [OF k u]] af by (intro egress_update_fec_keeps)
  qed
  show ?thesis
    unfolding egress_update_nbr_def get_Some(1) [OF ln] bindE_simps
    by (rule okE_keeps_bind [OF wds okE_bind [OF loop]]) (auto intro: keeps_emit)
qed

lemma lde_change_egress_label_keeps:
  assumes inv: "lde_inv s" and af: "af \<noteq> AF_UNSPEC"
  shows "okE (lde_change_egress_label s af was_implicit) (keeps s)"
  unfolding lde_change_egress_label_def
  by (rule okE_keeps_foldE, rule egress_update_nbr_keeps [OF _ _ af])
    (auto simp: keys_valid keeps_valid simp del: rb_simps intro: keeps_inv [OF inv])

lemma l2vpn_pw_init_inv:
  assumes inv: "lde_inv s" and d: "pw_valid s d"
  shows "okE (l2vpn_pw_init s d) lde_inv"
proof -
  have k: "keeps s (l2vpn_pw_reset s d)" (is "keeps s ?t") by blast
  have invt: "lde_inv ?t" using keeps_inv [OF inv k] .
  obtain pw where pw: "pws ?t d = Some pw" using d keeps_valid(3) [OF k, of d] by (auto simp: pw_valid_def)
  show ?thesis
    unfolding l2vpn_pw_init_def Let_def get_Some(3) [OF pw] bindE_simps
    by (rule okE_bind [OF l2vpn_pw_fec_total [OF invt pw] lde_kernel_insert_inv [OF invt]])
      (simp add: insert_ok_def pw)
qed

lemma l2vpn_pw_exit_inv:
  assumes inv: "lde_inv s" and d: "pw_valid s d"
  shows "okE (l2vpn_pw_exit s d) lde_inv"
proof -
  obtain pw where pw: "pws s d = Some pw" using d by (auto simp: pw_valid_def)
  show ?thesis
    unfolding l2vpn_pw_exit_def Let_def get_Some(3) [OF pw] bindE_simps
    by (rule okE_bind [OF l2vpn_pw_fec_total [OF inv pw] lde_kernel_remove_inv [OF inv]]) simp
qed

lemma l2vpn_recv_pw_status_keeps:
  assumes inv: "lde_inv s" and p: "nbr_valid s p" and m: "map_ok (nm_fec nm)"
  shows "okE (l2vpn_recv_pw_status s p nm) (keeps s)"
proof -
  from p obtain ln where ln: "rb_find (lde_nbrs s) p = Some ln" by (auto simp: nbr_valid_def)
  from m obtain f where f: "lde_map2fec (nm_fec nm) (ln_id ln) = Inr f" by (rule map_okE)
  have run: "okE (bindE (l2vpn_pw_ok (upd_pw s d (\<lambda>_. pw\<lparr>pw_remote_status := w\<rparr>)) (pw\<lparr>pw_remote_status := w\<rparr>) nh) (\<lambda>ok.
      if ok then lde_send_change_klabel (upd_pw s d (\<lambda>_. pw\<lparr>pw_remote_status := w\<rparr>)) f i
      else lde_send_delete_klabel (upd_pw s d (\<lambda>_. pw\<lparr>pw_remote_status := w\<rparr>)) f i)) (keeps s)"
    if v: "nh_valid s f i" and pw: "pws s d = Some pw" for d pw w nh i
  proof -
    have k: "keeps s (upd_pw s d (\<lambda>_. pw\<lparr>pw_remote_status := w\<rparr>))" (is "keeps s ?t")
      using pw by (intro keeps_upd_pw) (auto simp: pw_core_def)
    have t: "lde_inv ?t" "nh_valid ?t f i" using keeps_inv [OF inv k] keeps_nh_valid [OF k v] .
    have pwt: "pws ?t d = Some (pw\<lparr>pw_remote_status := w\<rparr>)" using pw by simp
    show ?thesis
      using okE_keeps_trans [OF k lde_send_change_klabel_keeps [OF t]]
        okE_keeps_trans [OF k lde_send_delete_klabel_keeps [OF t]]
      by (intro okE_True_bind [OF l2vpn_pw_ok_total [OF t(1) pwt refl]]) simp_all
  qed
  show ?thesis
  proof (cases "fec_find (ft s) f")
    case (Some fn)
    show ?thesis
    proof (cases "fn_data fn")
      case (Some d)
      with inv_node [OF inv \<open>fec_find (ft s) f = Some fn\<close>] obtain pw where pw: "pws s d = Some pw"
        by (auto simp: node_ok_def)
      have "okE (bindE (fec_nh_find fn AF_INET (of_v4 (ln_id ln)) 0) (\<lambda>r. case r of
                   None \<Rightarrow> Inr s
                 | Some i \<Rightarrow>
                     if pw_remote_status pw = nm_pw_status nm then Inr s
                     else bindE (l2vpn_pw_ok (upd_pw s d (\<lambda>_. pw\<lparr>pw_remote_status := nm_pw_status nm\<rparr>))
                         (pw\<lparr>pw_remote_status := nm_pw_status nm\<rparr>) (fn_nexthops fn ! i)) (\<lambda>ok.
                       if ok then lde_send_change_klabel (upd_pw s d (\<lambda>_. pw\<lparr>pw_remote_status := nm_pw_status nm\<rparr>)) f i
                       else lde_send_delete_klabel (upd_pw s d (\<lambda>_. pw\<lparr>pw_remote_status := nm_pw_status nm\<rparr>)) f i))) (keeps s)"
        by (rule okE_bind [OF fec_nh_find_valid [OF _ \<open>fec_find (ft s) f = Some fn\<close>]])
          (auto split: option.split intro!: run pw)
      with Some \<open>fec_find (ft s) f = Some fn\<close> show ?thesis
        unfolding l2vpn_recv_pw_status_def Let_def by (simp add: ln f pw)
    qed (simp add: l2vpn_recv_pw_status_def ln f Some)
  qed (simp add: l2vpn_recv_pw_status_def ln f)
qed

lemma l2vpn_pw_ctl_keeps:
  assumes inv: "lde_inv s"
  shows "okE (l2vpn_pw_ctl s) (keeps s)"
  unfolding l2vpn_pw_ctl_def
proof (rule okE_keeps_foldE, goal_cases)
  case (1 t l)
  have invt: "lde_inv t" and eq: "l2vpn_list t = l2vpn_list s"
    using keeps_inv [OF inv 1(2)] 1(2) by (auto simp: keeps_def same_core_def)
  with 1(1) inv_conf [OF invt] obtain l2 where l2: "l2vpns t l = Some l2"
    and ds: "\<forall>d\<in>set (l2_pw_list l2). pw_valid t d"
    unfolding conf_ok_def pw_valid_def by (metis not_None_eq)
  have "okE (foldE (\<lambda>s d. bindE (get_pw s d) (\<lambda>pw. Inr (emit s (g pw)))) (l2_pw_list l2) t) (keeps t)" for g
  proof (rule okE_keeps_foldE)
    fix u d assume d: "d \<in> set (l2_pw_list l2)" and u: "keeps t u"
    obtain pw where "pws u d = Some pw" using ds d keeps_valid(3) [OF u, of d] by (auto simp: pw_valid_def)
    then show "okE (bindE (get_pw u d) (\<lambda>pw. Inr (emit u (g pw)))) (keeps u)" by (auto simp: keeps_emit)
  qed
  with l2 show ?case by simp
qed

lemma binding_of_fec_keeps:
  assumes inv: "lde_inv s" and f: "fec_valid s f"
  shows "okE (binding_of_fec s f) (keeps s)"
proof -
  from f obtain fn where fn: "fec_find (ft s) f = Some fn" by (auto simp: fec_valid_def)
  have ctl: "okE (case fn_data fn of
       None \<Rightarrow> Inr (zero_ctl_pw\<lparr>ctlpw_local_label := NO_LABEL\<rparr>)
     | Some d \<Rightarrow> bindE (get_pw s d) (\<lambda>pw. bindE (get_l2vpn s (pw_l2vpn pw)) (\<lambda>l.
         Inr (zero_ctl_pw\<lparr>ctlpw_local_label := fn_local_label fn, ctlpw_local_ifmtu := of_int (l2_mtu l)\<rparr>)))) (\<lambda>_. True)"
  proof (cases "fn_data fn")
    case (Some d)
    with inv_node [OF inv fn] obtain pw where pw: "pws s d = Some pw" by (auto simp: node_ok_def)
    with inv_pw [OF inv pw] obtain l where "l2vpns s (pw_l2vpn pw) = Some l" by metis
    with Some pw show ?thesis by simp
  qed simp
  have down: "\<exists>ln m. rb_find (lde_nbrs s) p = Some ln \<and> fec_find (ln_recv_map ln) f = Some m"
    if "p \<in> set (fn_downstream fn)" for p
    using that inv_node [OF inv fn] by (auto simp: node_ok_def has_recv_map_def)
  have find: "findE (\<lambda>p. bindE (get_ln s p) (\<lambda>ln. Inr (r = ln_id ln))) (fn_downstream fn) =
      Inr (find (\<lambda>p. case rb_find (lde_nbrs s) p of None \<Rightarrow> False | Some ln \<Rightarrow> r = ln_id ln) (fn_downstream fn))" for r
    by (rule findE_total) (use down in force)
  have show_binding: "okE (case find P (fn_downstream fn) of
              Some p \<Rightarrow>
                bindE (get_ln s p) (\<lambda>ln.
                case fec_find (ln_recv_map ln) f of
                  None \<Rightarrow> Inl NullDeref
                | Some m \<Rightarrow> Inr (emit s (g m)))
            | None \<Rightarrow> if fn_data fn \<noteq> None then Inr (emit s h) else Inr s) (keeps s)" for P g h
  proof (cases "find P (fn_downstream fn)")
    case (Some p)
    then have "p \<in> set (fn_downstream fn)" by (auto simp: find_Some_iff)
    with down obtain ln m where "rb_find (lde_nbrs s) p = Some ln" "fec_find (ln_recv_map ln) f = Some m" by blast
    with Some show ?thesis by (auto simp: keeps_emit)
  qed (auto simp: keeps_emit)
  show ?thesis
  proof (cases f)
    case (FEC_PWID type pwid lsr_id)
    show ?thesis
    proof (cases "fn_local_label fn = NO_LABEL \<and> fn_downstream fn = []")
      case False
      then show ?thesis
        unfolding binding_of_fec_def FEC_PWID fec.case get_Some(2) [OF fn, unfolded FEC_PWID] bindE_simps
          if_not_P [OF False] Let_def find
        by (intro okE_True_bind [OF ctl] show_binding [unfolded FEC_PWID])
    qed (use fn in \<open>simp add: binding_of_fec_def FEC_PWID\<close>)
  qed (simp_all add: binding_of_fec_def)
qed

lemma l2vpn_binding_ctl_keeps:
  assumes inv: "lde_inv s"
  shows "okE (l2vpn_binding_ctl s) (keeps s)"
  unfolding l2vpn_binding_ctl_def
  by (rule okE_keeps_foldE, rule binding_of_fec_keeps)
    (auto simp: keys_valid keeps_valid simp del: rb_simps intro: keeps_inv [OF inv])

section \<open>Events\<close>

datatype lde_event =
    FromLdpe u32 ldpe_imsg          \<comment> \<open>\<^verbatim>\<open>lde_dispatch_imsg\<close>, with \<^verbatim>\<open>imsg.hdr.peerid\<close>\<close>
  | FromParent parent_imsg          \<comment> \<open>\<^verbatim>\<open>lde_dispatch_parent\<close>\<close>
  | GcTimer
  | EgressChange af u32             \<comment> \<open>\<^verbatim>\<open>merge_af\<close>: the new flags of the family\<close>
  | PwInit nat
  | PwExit nat

definition lde_set_af_flags :: "lde \<Rightarrow> af \<Rightarrow> u32 \<Rightarrow> lde res" where
  "lde_set_af_flags s af fl =
     (let old = (if af = AF_INET then ipv4_flags s else ipv6_flags s);
          s1 = (if af = AF_INET then s\<lparr>ipv4_flags := fl\<rparr> else s\<lparr>ipv6_flags := fl\<rparr>)
      in if old AND F_LDPD_AF_EXPNULL \<noteq> fl AND F_LDPD_AF_EXPNULL
         then lde_change_egress_label s1 af (has_flag fl F_LDPD_AF_EXPNULL)
         else Inr s1)"

definition lde_run :: "lde \<Rightarrow> lde_event \<Rightarrow> lde res" where
  "lde_run s e =
     (case e of
        FromLdpe peerid m \<Rightarrow> lde_dispatch_imsg s peerid m
      | FromParent m \<Rightarrow> lde_dispatch_parent s m
      | GcTimer \<Rightarrow> Inr (lde_gc_timer s)
      | EgressChange af fl \<Rightarrow> lde_set_af_flags s af fl
      | PwInit d \<Rightarrow> l2vpn_pw_init s d
      | PwExit d \<Rightarrow> l2vpn_pw_exit s d)"

definition imsg_ok :: "lde \<Rightarrow> u32 \<Rightarrow> ldpe_imsg \<Rightarrow> bool" where
  "imsg_ok s p m \<longleftrightarrow>
     (case m of
        LABEL_MAPPING m \<Rightarrow> map_ok m
      | LABEL_REQUEST m \<Rightarrow> map_ok m
      | LABEL_RELEASE m \<Rightarrow> map_ok m
      | LABEL_WITHDRAW m \<Rightarrow> map_ok m
      | ADDRESS_ADD la \<Rightarrow> la_af la \<noteq> AF_UNSPEC
      | ADDRESS_DEL la \<Rightarrow> la_af la \<noteq> AF_UNSPEC
      | NOTIFICATION nm \<Rightarrow> map_ok (nm_fec nm)
      | NEIGHBOR_UP _ _ _ \<Rightarrow> rb_find (lde_nbrs s) p = None
      | _ \<Rightarrow> True)"

definition event_ok :: "lde \<Rightarrow> lde_event \<Rightarrow> bool" where
  "event_ok s e \<longleftrightarrow>
     (case e of
        FromLdpe p m \<Rightarrow> imsg_ok s p m
      | FromParent (NETWORK_ADD kr _) \<Rightarrow> kr_af kr \<noteq> AF_UNSPEC
      | FromParent (NETWORK_DEL kr) \<Rightarrow> kr_af kr \<noteq> AF_UNSPEC
      | GcTimer \<Rightarrow> True
      | EgressChange af _ \<Rightarrow> af \<noteq> AF_UNSPEC
      | PwInit d \<Rightarrow> pws s d \<noteq> None
      | PwExit d \<Rightarrow> pws s d \<noteq> None)"

section \<open>No event faults\<close>

lemma keeps_okE_inv: "lde_inv s \<Longrightarrow> okE r (keeps s) \<Longrightarrow> okE r lde_inv"
  by (blast intro: okE_mono keeps_inv)

lemmas handler_invs =
  lde_check_mapping_inv lde_check_release_inv lde_check_release_wcard_inv lde_check_withdraw_inv
  lde_check_withdraw_wcard_inv lde_address_add_inv lde_address_del_inv lde_nbr_new_inv lde_nbr_del_inv

lemma with_nbr_inv:
  "lde_inv s \<Longrightarrow> (nbr_valid s p \<Longrightarrow> okE r lde_inv) \<Longrightarrow> okE (with_nbr s p r) lde_inv"
  by (simp add: with_nbr_def lde_nbr_find_def nbr_valid_def)

lemma with_nbr_keeps:
  "lde_inv s \<Longrightarrow> (nbr_valid s p \<Longrightarrow> okE r (keeps s)) \<Longrightarrow> okE (with_nbr s p r) lde_inv"
  by (blast intro: with_nbr_inv keeps_okE_inv)

lemma ctl_end_inv: "lde_inv s \<Longrightarrow> okE r (keeps s) \<Longrightarrow> okE (bindE r (\<lambda>s1. Inr (emit s1 m))) lde_inv"
  by (rule okE_bind [where Q = "keeps s"]) (auto intro: keeps_emit keeps_inv)

lemma lde_dispatch_imsg_inv:
  assumes inv: "lde_inv s" and ok: "imsg_ok s p m"
  shows "okE (lde_dispatch_imsg s p m) lde_inv"
proof (cases m)
  case LABEL_MAPPING_FULL
  then show ?thesis
    by (auto simp: lde_dispatch_imsg_def intro!: with_nbr_keeps [OF inv] fec_snap_keeps inv)
next
  case (LABEL_REQUEST x)
  with ok show ?thesis
    by (auto simp: lde_dispatch_imsg_def imsg_ok_def
        intro!: with_nbr_keeps [OF inv] lde_check_request_keeps inv)
next
  case (NOTIFICATION nm)
  with ok show ?thesis
    by (auto simp: lde_dispatch_imsg_def imsg_ok_def
        intro!: with_nbr_keeps [OF inv] l2vpn_recv_pw_status_keeps inv)
next
  case (NEIGHBOR_UP r b4 b6)
  with ok show ?thesis
    by (simp add: lde_dispatch_imsg_def imsg_ok_def lde_nbr_find_def lde_nbr_new_inv inv nbr_valid_def)
qed (use inv ok in \<open>auto simp: lde_dispatch_imsg_def imsg_ok_def intro!: with_nbr_inv handler_invs ctl_end_inv
    rt_dump_keeps l2vpn_pw_ctl_keeps l2vpn_binding_ctl_keeps\<close>)

lemma kroute_fec_total: "kr_af kr \<noteq> AF_UNSPEC \<Longrightarrow> okE (kroute_fec kr) (\<lambda>f. fec_get_type f \<noteq> FEC_TYPE_PWID)"
  by (cases "kr_af kr") (simp_all add: kroute_fec_def)

lemma lde_dispatch_parent_inv:
  assumes inv: "lde_inv s" and ok: "event_ok s (FromParent m)"
  shows "okE (lde_dispatch_parent s m) lde_inv"
proof (cases m)
  case (NETWORK_ADD kr c)
  with ok have "kr_af kr \<noteq> AF_UNSPEC" by (simp add: event_ok_def)
  with NETWORK_ADD show ?thesis
    by (auto simp: lde_dispatch_parent_def insert_ok_def intro!: okE_bind [OF kroute_fec_total] lde_kernel_insert_inv [OF inv])
next
  case (NETWORK_DEL kr)
  with ok have "kr_af kr \<noteq> AF_UNSPEC" by (simp add: event_ok_def)
  with NETWORK_DEL show ?thesis
    by (auto simp: lde_dispatch_parent_def intro!: okE_bind [OF kroute_fec_total] lde_kernel_remove_inv [OF inv])
qed

lemma flags_inv: "lde_inv (s\<lparr>ipv4_flags := fl\<rparr>) = lde_inv s" "lde_inv (s\<lparr>ipv6_flags := fl\<rparr>) = lde_inv s"
  by (simp_all add: lde_inv_def node_ok_def conf_ok_def recv_ok_def has_recv_map_def has_sent_map_def)

lemma lde_run_inv:
  assumes inv: "lde_inv s" and ok: "event_ok s e"
  shows "okE (lde_run s e) lde_inv"
proof (cases e)
  case (FromParent m)
  with ok show ?thesis using lde_dispatch_parent_inv [OF inv] by (simp add: lde_run_def)
next
  case (EgressChange af fl)
  with ok have af: "af \<noteq> AF_UNSPEC" by (simp add: event_ok_def)
  have "okE (lde_change_egress_label t af b) lde_inv" if "lde_inv t" for t b
    using keeps_okE_inv [OF that lde_change_egress_label_keeps [OF that af]] .
  with EgressChange inv show ?thesis
    by (simp add: lde_run_def lde_set_af_flags_def Let_def flags_inv)
qed (use inv ok in \<open>auto simp: lde_run_def event_ok_def pw_valid_def
    intro!: lde_dispatch_imsg_inv lde_gc_timer_inv l2vpn_pw_init_inv l2vpn_pw_exit_inv\<close>)

section \<open>Reachable states\<close>

definition lde_start :: "(nat \<Rightarrow> l2vpn_pw option) \<Rightarrow> (nat \<Rightarrow> l2vpn option) \<Rightarrow> nat list \<Rightarrow> u32 \<Rightarrow> u32 \<Rightarrow> lde" where
  "lde_start ps ls ll f4 f6 =
     \<lparr>ft = fec_init, lde_nbrs = rb_init, pws = ps, l2vpns = ls, l2vpn_list = ll, ipv4_flags = f4,
      ipv6_flags = f6, last_label = MPLS_LABEL_RESERVED_MAX, out = []\<rparr>"

inductive lde_reachable :: "lde \<Rightarrow> bool" where
  start: "conf_ok (lde_start ps ls ll f4 f6) \<Longrightarrow> lde_reachable (lde_start ps ls ll f4 f6)"
| step: "lde_reachable s \<Longrightarrow> event_ok s e \<Longrightarrow> lde_run s e = Inr t \<Longrightarrow> lde_reachable t"

inductive_cases lde_reachableE: "lde_reachable s"

lemma lde_start_inv: "conf_ok (lde_start ps ls ll f4 f6) \<Longrightarrow> lde_inv (lde_start ps ls ll f4 f6)"
  by (simp add: lde_inv_def lde_start_def has_recv_map_def has_sent_map_def recv_ok_def)

lemma lde_reachable_inv: "lde_reachable s \<Longrightarrow> lde_inv s"
proof (induction rule: lde_reachable.induct)
  case (step s e t)
  then show ?case using lde_run_inv [of s e] by simp
qed (rule lde_start_inv)

end
