(* ===== verification/Lde_Closed.thy ===== *)
theory Lde_Closed
  imports Lde_Reach
begin

text \<open>
  What no handler of the label decision engine can do. The interface \<open>lde_closed\<close> is a predicate on the state that the
  elementary updates keep: those of a neighbour already there, of the labels and lists of a class, of the
  next hops of a prefix, of a pseudowire without what names its class, the removal of a neighbour and of
  a dead class, a new class, a new label, and a message (one about a pseudowire names the family of a
  configured pseudowire). The handlers of messages keep such a predicate. \<open>lde_closed_pws\<close> adds the
  updates of a pseudowire class that only the start and the end of a pseudowire make.
\<close>

section \<open>Reads\<close>

text \<open>A value that is read, of one of the types the handlers read.\<close>

lemmas read_any =
  partE_any [where 'a = lde_nbr] partE_any [where 'a = fec_node] partE_any [where 'a = fec_nh]
  partE_any [where 'a = l2vpn_pw] partE_any [where 'a = l2vpn] partE_any [where 'a = "nat \<times> l2vpn_pw"]
  partE_any [where 'a = int] partE_any [where 'a = bool] partE_any [where 'a = fec] partE_any [where 'a = u32]
  partE_any [where 'a = "nat option"] partE_any [where 'a = "u32 option"] partE_any [where 'a = "lde_addr option"]
  partE_any [where 'a = map_msg] partE_any [where 'a = "bool \<times> l2vpn_pw option"] partE_any [where 'a = ctl_pw]

definition msg_from :: "lde \<Rightarrow> lde_imsg \<Rightarrow> bool" where
  "msg_from s m \<longleftrightarrow>
     (case m of IMSG_KPWLABEL_CHANGE k \<Rightarrow> \<exists>d pw. pws s d = Some pw \<and> kpw_af k = pw_af pw | _ \<Rightarrow> True)"

lemma fn_pw_Some: "fn_pw s fn = Inr (d, pw) \<Longrightarrow> pws s d = Some pw"
  by (auto simp: fn_pw_def get_pw_def split: option.splits)

lemma nh_keys_upd: "nh_keys (fn\<lparr>fn_nexthops := (fn_nexthops fn)[i := (fn_nexthops fn ! i)\<lparr>nh_remote_label := v\<rparr>]\<rparr>) = nh_keys fn"
  by (cases "i < length (fn_nexthops fn)") (auto simp: nh_keys_def map_update list_update_beyond intro!: list_update_same_conv [THEN iffD2])

text \<open>What is configured of a pseudowire; the engine changes only the rest.\<close>

definition pw_conf_flags :: "u8 \<Rightarrow> u8" where
  "pw_conf_flags fl = fl AND set_flag F_PW_STATUSTLV_CONF F_PW_CWORD_CONF"

definition pw_conf :: "l2vpn_pw \<Rightarrow> (nat \<times> in_addr \<times> af \<times> ldpd_addr \<times> u32) \<times> u32 \<times> u8" where
  "pw_conf pw = (pw_core pw, pw_ifindex pw, pw_conf_flags (pw_flags pw))"

lemma and_disjoint:
  fixes a b c :: "'a::len word"
  assumes "b AND c = 0"
  shows "(a OR b) AND c = a AND c" "(a AND NOT b) AND c = a AND c"
proof -
  have *: "\<not> (bit b n \<and> bit c n)" for n using assms by (metis bit_and_iff bit_0_eq bot_apply bot_bool_def)
  show "(a OR b) AND c = a AND c" by (rule bit_eqI) (use * in \<open>auto simp: bit_simps\<close>)
  show "(a AND NOT b) AND c = a AND c" by (rule bit_eqI) (use * in \<open>auto simp: bit_simps\<close>)
qed

lemma pw_conf_flags_simps [simp]:
  "pw_conf_flags (set_flag fl F_PW_CWORD) = pw_conf_flags fl" "pw_conf_flags (clear_flag fl F_PW_CWORD) = pw_conf_flags fl"
  "pw_conf_flags (set_flag fl F_PW_STATUSTLV) = pw_conf_flags fl" "pw_conf_flags (clear_flag fl F_PW_STATUSTLV) = pw_conf_flags fl"
  "pw_conf_flags (set_flag fl F_PW_STATUS_UP) = pw_conf_flags fl" "pw_conf_flags (clear_flag fl F_PW_STATUS_UP) = pw_conf_flags fl"
  unfolding pw_conf_flags_def set_flag_def clear_flag_def by (rule and_disjoint, simp add: const_defs)+

lemma pw_conf_updates [simp]:
  "pw_conf (pw\<lparr>pw_flags := fl\<rparr>) = pw_conf pw \<longleftrightarrow> pw_conf_flags fl = pw_conf_flags (pw_flags pw)"
  "pw_conf (pw\<lparr>pw_remote_group := g\<rparr>) = pw_conf pw" "pw_conf (pw\<lparr>pw_remote_mtu := mtu\<rparr>) = pw_conf pw"
  "pw_conf (pw\<lparr>pw_remote_status := st\<rparr>) = pw_conf pw" "pw_conf (pw_reset pw) = pw_conf pw"
  by (simp_all add: pw_conf_def pw_core_def pw_reset_def Let_def)

named_theorems closed_intros \<open>what keeps a closed predicate\<close>

section \<open>Closed predicates\<close>

definition node_kept :: "fec \<Rightarrow> fec_node \<Rightarrow> fec_node \<Rightarrow> bool" where
  "node_kept f fn' fn \<longleftrightarrow> fn_data fn' = fn_data fn \<and> (fec_get_type f = FEC_TYPE_PWID \<longrightarrow> nh_keys fn' = nh_keys fn)"

locale lde_closed =
  fixes J :: "lde \<Rightarrow> bool"
  assumes upd_ln [closed_intros]: "J s \<Longrightarrow> J (upd_ln s p g)"
    and upd_fn [closed_intros]: "J s \<Longrightarrow> (\<And>fn. fec_find (ft s) f = Some fn \<Longrightarrow> node_kept f (k fn) fn) \<Longrightarrow> J (upd_fn s f k)"
    and add_fn [closed_intros]: "J s \<Longrightarrow> fec_find (ft s) f = None \<Longrightarrow> J (fec_add s f)"
    and del_fn: "J s \<Longrightarrow> fec_find (ft s) f = Some fn \<Longrightarrow> gc_dead fn \<Longrightarrow> J (s\<lparr>ft := fst (fec_remove (ft s) f)\<rparr>)"
    and upd_pw [closed_intros]: "J s \<Longrightarrow> (\<And>pw. pws s d = Some pw \<Longrightarrow> pw_conf (h pw) = pw_conf pw) \<Longrightarrow> J (upd_pw s d h)"
    and set_label [closed_intros]: "J s \<Longrightarrow> J (s\<lparr>last_label := l\<rparr>)"
    and set_flags [closed_intros]: "J s \<Longrightarrow> J (s\<lparr>ipv4_flags := w\<rparr>)" "J s \<Longrightarrow> J (s\<lparr>ipv6_flags := w\<rparr>)"
    and del_nbr [closed_intros]: "J s \<Longrightarrow> J (s\<lparr>lde_nbrs := rb_remove (lde_nbrs s) p\<rparr>)"
    and send [closed_intros]: "J s \<Longrightarrow> msg_from s m \<Longrightarrow> J (emit s m)"
begin

lemma nh_label [closed_intros]: "J s \<Longrightarrow> J (set_remote_label s f i v)"
  unfolding upd_nh_def set_remote_label_def by (rule upd_fn) (simp_all add: node_kept_def nh_keys_upd)

lemmas bindJ [closed_intros] = partE_bind [where Q = J]

lemma bindJ2 [closed_intros]:
  fixes r :: "(lde \<times> bool) res"
  assumes "partE r (\<lambda>(s, _). J s)" "\<And>s b. J s \<Longrightarrow> partE (f (s, b)) P"
  shows "partE (bindE r f) P"
  by (rule partE_bind [OF assms(1)]) (auto intro: assms(2))

lemma bindJ3 [closed_intros]:
  fixes r :: "(lde \<times> u32) res"
  assumes "partE r (\<lambda>(s, _). J s)" "\<And>s b. J s \<Longrightarrow> partE (f (s, b)) P"
  shows "partE (bindE r f) P"
  by (rule partE_bind [OF assms(1)]) (auto intro: assms(2))

lemmas foldJ [closed_intros] = partE_fold [where P = J]

subsection \<open>Records and messages\<close>

lemma maps [closed_intros]:
  "J s \<Longrightarrow> J (lde_map_free s p f b)" "J s \<Longrightarrow> J (lde_map_add s p f b)" "J s \<Longrightarrow> J (lde_map_del s p f b)"
  "J s \<Longrightarrow> J (lde_map_set s p f b m)" "J s \<Longrightarrow> J (lde_req_set s p f i)" "J s \<Longrightarrow> J (lde_req_del s p f b)"
  "J s \<Longrightarrow> J (lde_wdraw_add s p f)" "J s \<Longrightarrow> J (lde_wdraw_del s p f)" "J s \<Longrightarrow> J (fec_find_or_add s f)"
  "J s \<Longrightarrow> J (l2vpn_pw_reset s d)" "J s \<Longrightarrow> J (lde_address_list_free s p)"
  by (auto simp: lde_map_free_def lde_map_add_def lde_map_del_def lde_map_set_def lde_req_set_def lde_req_del_def
      lde_wdraw_add_def lde_wdraw_del_def fec_find_or_add_def l2vpn_pw_reset_def lde_address_list_free_def node_kept_def nh_keys_def Let_def intro!: closed_intros)

lemma notify [closed_intros]:
  "J s \<Longrightarrow> J (lde_send_notification s p c i t)" "J s \<Longrightarrow> J (l2vpn_send_pw_status s p w f)"
  by (auto simp: lde_send_notification_def l2vpn_send_pw_status_def msg_from_def intro!: closed_intros)

lemma req_add [closed_intros]: "J s \<Longrightarrow> partE (lde_req_add s p f b) (\<lambda>(s, _). J s)"
  by (auto simp: lde_req_add_def Let_def split_beta intro!: closed_intros read_any)

lemma wdraw_record [closed_intros]: "J s \<Longrightarrow> partE (lde_wdraw_record s p f l) J"
  by (auto simp: lde_wdraw_record_def Let_def intro!: closed_intros read_any)

lemma klabel_pw [closed_intros]: "J s \<Longrightarrow> partE (change_klabel_pw s f i) J" "J s \<Longrightarrow> partE (delete_klabel_pw s f i) J"
  by (auto simp: change_klabel_pw_def delete_klabel_pw_def Let_def msg_from_def kpw_of_def
      intro!: closed_intros read_any dest!: fn_pw_Some) blast

lemma sync [closed_intros]: "J s \<Longrightarrow> partE (sync_pw af a s d) J"
  by (auto simp: sync_pw_def intro!: closed_intros read_any split: option.splits)

lemma sync_all [closed_intros]: "J s \<Longrightarrow> partE (l2vpn_sync_pws s af a) J"
  by (auto simp: l2vpn_sync_pws_def intro!: closed_intros read_any)

lemma klabel [closed_intros]: "J s \<Longrightarrow> partE (lde_send_change_klabel s f i) J" "J s \<Longrightarrow> partE (lde_send_delete_klabel s f i) J"
  by (auto simp: lde_send_change_klabel_def lde_send_delete_klabel_def Let_def msg_from_def
      intro!: closed_intros read_any split: fec.splits)

lemma labelmapping [closed_intros]: "J s \<Longrightarrow> partE (lde_send_labelmapping s p f b) J"
  by (auto simp: lde_send_labelmapping_def Let_def split_beta msg_from_def intro!: closed_intros read_any
      split: option.splits)

lemma labelwithdraw [closed_intros]: "J s \<Longrightarrow> partE (lde_send_labelwithdraw s p fo l st) J"
  by (auto simp: lde_send_labelwithdraw_def Let_def split_beta msg_from_def intro!: closed_intros read_any
      split: option.splits)

lemma labelwithdraw_all [closed_intros]: "J s \<Longrightarrow> partE (lde_send_labelwithdraw_all s f l) J"
  by (auto simp: lde_send_labelwithdraw_all_def intro!: closed_intros)

lemma labelrelease [closed_intros]: "J s \<Longrightarrow> partE (lde_send_labelrelease s p fo l) J"
  by (auto simp: lde_send_labelrelease_def Let_def split_beta msg_from_def intro!: closed_intros read_any
      split: option.splits)

subsection \<open>Handlers\<close>

lemma negotiate [closed_intros]: "J s \<Longrightarrow> partE (l2vpn_pw_negotiate s p f m) (\<lambda>(s, _). J s)"
  by (auto simp: l2vpn_pw_negotiate_def Let_def intro!: closed_intros read_any split: option.splits)

lemma unuse [closed_intros]: "J s \<Longrightarrow> partE (unuse_nh p f s i) J"
  by (auto simp: unuse_nh_def intro!: closed_intros read_any)

lemma install [closed_intros]: "J s \<Longrightarrow> partE (install_nh m p f s i) J"
  by (auto simp: install_nh_def Let_def intro!: closed_intros read_any split: fec.splits option.splits)

lemma mapping [closed_intros]: "J s \<Longrightarrow> partE (lde_check_mapping s m p) J"
  by (auto simp: lde_check_mapping_def Let_def intro!: closed_intros read_any split: option.splits)

lemma request [closed_intros]: "J s \<Longrightarrow> partE (lde_check_request s m p) J"
  by (auto simp: lde_check_request_def Let_def intro!: closed_intros read_any split: fec.splits option.splits)

lemma release [closed_intros]: "J s \<Longrightarrow> partE (release_fec m p s f) J"
  by (auto simp: release_fec_def Let_def intro!: closed_intros read_any split: option.splits)

lemma releases [closed_intros]: "J s \<Longrightarrow> partE (lde_check_release s m p) J" "J s \<Longrightarrow> partE (lde_check_release_wcard s m p) J"
  by (auto simp: lde_check_release_def lde_check_release_wcard_def intro!: closed_intros read_any)

lemma withdraw_parts [closed_intros]:
  "J s \<Longrightarrow> partE (withdraw_nh p f s i) J" "J s \<Longrightarrow> partE (withdraw_recv_map m p f s) J"
  "J s \<Longrightarrow> partE (withdraw_wcard_nh p f s i) J"
  by (auto simp: withdraw_nh_def withdraw_recv_map_def withdraw_wcard_nh_def intro!: closed_intros read_any
      split: fec.splits option.splits)

lemma withdraws [closed_intros]: "J s \<Longrightarrow> partE (lde_check_withdraw s m p) J" "J s \<Longrightarrow> partE (lde_check_withdraw_wcard s m p) J"
  by (auto simp: lde_check_withdraw_def lde_check_withdraw_wcard_def Let_def intro!: closed_intros read_any)

lemma gc [closed_intros]: "J s \<Longrightarrow> J (lde_gc_timer s)"
proof -
  have "J t \<Longrightarrow> J (foldl (\<lambda>s f. case fec_find (ft s) f of
      Some fn \<Rightarrow> if gc_dead fn then s\<lparr>ft := fst (fec_remove (ft s) f)\<rparr> else s | None \<Rightarrow> s) t fs)" for t fs
    by (induction fs arbitrary: t) (auto intro!: del_fn split: option.splits)
  then show "J s \<Longrightarrow> J (lde_gc_timer s)" by (simp add: lde_gc_timer_def)
qed

lemma snap [closed_intros]: "J s \<Longrightarrow> partE (fec_snap s p) J"
  by (auto simp: fec_snap_def msg_from_def intro!: closed_intros read_any)

lemma dump_map [closed_intros]: "J s \<Longrightarrow> partE (rt_dump_map ctl f fn s p) J"
  by (auto simp: rt_dump_map_def msg_from_def intro!: closed_intros read_any split: option.splits)

lemma dump [closed_intros]: "J s \<Longrightarrow> partE (rt_dump s) J"
  by (auto simp: rt_dump_def Let_def msg_from_def intro!: closed_intros read_any split: fec.splits)

lemma uninstall [closed_intros]: "J s \<Longrightarrow> partE (uninstall_nh p f s i) J"
  by (auto simp: uninstall_nh_def intro!: closed_intros read_any split: fec.splits option.splits)

lemma clear_maps [closed_intros]: "J s \<Longrightarrow> J (snd (fec_clear t (\<lambda>f s. lde_map_free s p f b) s))"
proof -
  have "J s \<Longrightarrow> J (snd (foldl (\<lambda>(t, s) f. (fst (fec_remove t f), lde_map_free s p f b)) (t, s) fs))"
    for s fs and t :: "'x fec_tree"
    by (induction fs arbitrary: s t) (simp_all add: maps)
  then show "J s \<Longrightarrow> J (snd (fec_clear t (\<lambda>f s. lde_map_free s p f b) s))" by (simp add: fec_clear_def)
qed

lemma clear_trees [closed_intros]: "J s \<Longrightarrow> partE (lde_nbr_clear_trees s p) J"
  by (auto simp: lde_nbr_clear_trees_def Let_def split_beta intro!: closed_intros read_any)

lemma nbr_del [closed_intros]: "J s \<Longrightarrow> partE (lde_nbr_del s p) J"
  by (auto simp: lde_nbr_del_def intro!: closed_intros split: option.splits)

lemma addr_update [closed_intros]: "J s \<Longrightarrow> partE (addr_update_fec p la b s f) J"
  by (auto simp: addr_update_fec_def intro!: closed_intros read_any split: fec.splits option.splits)

lemma addresses [closed_intros]:
  "J s \<Longrightarrow> partE (lde_nbr_addr_update s p la b) J"
  "J s \<Longrightarrow> partE (lde_address_add s p la) J" "J s \<Longrightarrow> partE (lde_address_del s p la) J"
  by (auto simp: lde_nbr_addr_update_def lde_address_add_def lde_address_del_def intro!: closed_intros read_any
      split: option.splits)

lemma pw_status [closed_intros]: "J s \<Longrightarrow> partE (l2vpn_recv_pw_status s p nm) J"
  by (auto simp: l2vpn_recv_pw_status_def Let_def intro!: closed_intros read_any split: option.splits)

lemma pw_ctl [closed_intros]: "J s \<Longrightarrow> partE (l2vpn_pw_ctl s) J"
  by (auto simp: l2vpn_pw_ctl_def msg_from_def intro!: closed_intros read_any)

lemma binding [closed_intros]: "J s \<Longrightarrow> partE (binding_of_fec s f) J" "J s \<Longrightarrow> partE (l2vpn_binding_ctl s) J"
  by (auto simp: binding_of_fec_def l2vpn_binding_ctl_def Let_def msg_from_def intro!: closed_intros read_any
      split: fec.splits option.splits)

subsection \<open>Routes\<close>

lemma prefix_node [closed_intros]:
  "J s \<Longrightarrow> fec_get_type f \<noteq> FEC_TYPE_PWID \<Longrightarrow> J (fec_nh_add s f af nh prio)"
  "J s \<Longrightarrow> fec_get_type f \<noteq> FEC_TYPE_PWID \<Longrightarrow> J (fec_nh_del s f i)"
  by (auto simp: fec_nh_add_def fec_nh_del_def node_kept_def intro!: closed_intros)

lemma assign [closed_intros]: "J s \<Longrightarrow> J (fst (lde_assign_label s))"
  by (simp add: lde_assign_label_def Let_def closed_intros)

lemma kernel_insert [closed_intros]: "J s \<Longrightarrow> fec_get_type f \<noteq> FEC_TYPE_PWID \<Longrightarrow> partE (lde_kernel_insert s f af nh prio c data) J"
  by (auto simp: lde_kernel_insert_def Let_def split_beta node_kept_def nh_keys_def intro!: closed_intros read_any split: fec.splits option.splits)

lemma kernel_remove [closed_intros]: "J s \<Longrightarrow> fec_get_type f \<noteq> FEC_TYPE_PWID \<Longrightarrow> partE (lde_kernel_remove s f af nh prio) J"
  by (auto simp: lde_kernel_remove_def Let_def node_kept_def nh_keys_def intro!: closed_intros read_any split: fec.splits option.splits)

lemma egress [closed_intros]: "J s \<Longrightarrow> partE (egress_update_fec af p s f) J" "J s \<Longrightarrow> partE (egress_update_nbr af b s p) J"
  by (auto simp: egress_update_fec_def egress_update_nbr_def msg_from_def node_kept_def nh_keys_def intro!: closed_intros read_any)

lemma egress_change [closed_intros]: "J s \<Longrightarrow> partE (lde_set_af_flags s af fl) J"
  by (auto simp: lde_set_af_flags_def lde_change_egress_label_def Let_def intro!: closed_intros)

lemma dispatch_parent: "J s \<Longrightarrow> partE (lde_dispatch_parent s m) J"
  by (cases m) (auto simp: lde_dispatch_parent_def kroute_fec_def intro!: closed_intros split: af.splits)

subsection \<open>Events\<close>

lemma with_nbr [closed_intros]: "J s \<Longrightarrow> partE r J \<Longrightarrow> partE (with_nbr s p r) J"
  by (simp add: with_nbr_def)

lemma dispatch_imsg: "J s \<Longrightarrow> (\<forall>a b c. m \<noteq> NEIGHBOR_UP a b c) \<Longrightarrow> partE (lde_dispatch_imsg s p m) J"
  by (cases m) (auto simp: lde_dispatch_imsg_def msg_from_def intro!: closed_intros)

lemma run:
  assumes "J s" "\<forall>p a b c. e \<noteq> FromLdpe p (NEIGHBOR_UP a b c)" "\<forall>d. e \<noteq> PwInit d \<and> e \<noteq> PwExit d"
  shows "partE (lde_run s e) J"
  using assms by (cases e) (auto simp: lde_run_def intro!: closed_intros dispatch_imsg dispatch_parent)

end

section \<open>Pseudowires\<close>

locale lde_closed_pws = lde_closed +
  assumes set_node [closed_intros]: "J s \<Longrightarrow> J (upd_fn s f k)"
begin

lemma kernel_insert_pw [closed_intros]: "J s \<Longrightarrow> partE (lde_kernel_insert s f af nh prio c data) J"
  by (auto simp: lde_kernel_insert_def fec_nh_add_def Let_def split_beta intro!: closed_intros read_any split: fec.splits option.splits)

lemma kernel_remove_pw [closed_intros]: "J s \<Longrightarrow> partE (lde_kernel_remove s f af nh prio) J"
  by (auto simp: lde_kernel_remove_def fec_nh_del_def Let_def intro!: closed_intros read_any split: fec.splits option.splits)


lemma pw_events [closed_intros]: "J s \<Longrightarrow> partE (l2vpn_pw_init s d) J" "J s \<Longrightarrow> partE (l2vpn_pw_exit s d) J"
  by (auto simp: l2vpn_pw_init_def l2vpn_pw_exit_def Let_def intro!: closed_intros read_any)

lemma run_pw:
  assumes "J s" "\<forall>p a b c. e \<noteq> FromLdpe p (NEIGHBOR_UP a b c)"
  shows "partE (lde_run s e) J"
  using assms by (cases e) (auto simp: lde_run_def intro!: closed_intros dispatch_imsg dispatch_parent)

end

end
