(* ===== verification/Ldp_Wire.thy ===== *)
theory Ldp_Wire
  imports Lde_Dispatch
begin

text \<open>
  Messages of the protocol on the wire: the output buffers of \<^verbatim>\<open>ibuf_open\<close> and \<^verbatim>\<open>ibuf_add\<close>, the
  headers and TLVs that every message is built from (\<^verbatim>\<open>packet.c\<close>, \<^verbatim>\<open>labelmapping.c\<close>,
  \<^verbatim>\<open>notification.c\<close>), and the decoding of a FEC element (\<^verbatim>\<open>tlv_decode_fec_elm\<close>).

  A received message is the list of its bytes; a read beyond its end is the fault
  \<open>OutOfBounds\<close>. Lengths are natural numbers: a subtraction on \<^verbatim>\<open>uint16_t\<close> that no check guards is
  \<open>sub16\<close>. The actions of a decoder on its neighbour (shutting the session down, sending a
  notification, passing a message to the label decision engine) are collected in order.
\<close>

section \<open>Constants\<close>

definition LDP_VERSION :: u16 where [const_defs]: "LDP_VERSION = 1"
definition TLV_TYPE_FEC :: u16 where [const_defs]: "TLV_TYPE_FEC = 0x0100"
definition TLV_TYPE_ADDRLIST :: u16 where [const_defs]: "TLV_TYPE_ADDRLIST = 0x0101"
definition TLV_TYPE_HOPCOUNT :: u16 where [const_defs]: "TLV_TYPE_HOPCOUNT = 0x0103"
definition TLV_TYPE_PATHVECTOR :: u16 where [const_defs]: "TLV_TYPE_PATHVECTOR = 0x0104"
definition TLV_TYPE_GENERICLABEL :: u16 where [const_defs]: "TLV_TYPE_GENERICLABEL = 0x0200"
definition TLV_TYPE_ATMLABEL :: u16 where [const_defs]: "TLV_TYPE_ATMLABEL = 0x0201"
definition TLV_TYPE_FRLABEL :: u16 where [const_defs]: "TLV_TYPE_FRLABEL = 0x0202"
definition TLV_TYPE_STATUS :: u16 where [const_defs]: "TLV_TYPE_STATUS = 0x0300"
definition TLV_TYPE_EXTSTATUS :: u16 where [const_defs]: "TLV_TYPE_EXTSTATUS = 0x0301"
definition TLV_TYPE_RETURNEDPDU :: u16 where [const_defs]: "TLV_TYPE_RETURNEDPDU = 0x0302"
definition TLV_TYPE_RETURNEDMSG :: u16 where [const_defs]: "TLV_TYPE_RETURNEDMSG = 0x0303"
definition TLV_TYPE_COMMONSESSION :: u16 where [const_defs]: "TLV_TYPE_COMMONSESSION = 0x0500"
definition TLV_TYPE_ATMSESSIONPAR :: u16 where [const_defs]: "TLV_TYPE_ATMSESSIONPAR = 0x0501"
definition TLV_TYPE_FRSESSION :: u16 where [const_defs]: "TLV_TYPE_FRSESSION = 0x0502"
definition TLV_TYPE_LABELREQUEST :: u16 where [const_defs]: "TLV_TYPE_LABELREQUEST = 0x0600"
definition TLV_TYPE_PW_STATUS :: u16 where [const_defs]: "TLV_TYPE_PW_STATUS = 0x096A"
definition UNKNOWN_FLAG :: u16 where [const_defs]: "UNKNOWN_FLAG = 0x8000"
definition CONTROL_WORD_FLAG :: u16 where [const_defs]: "CONTROL_WORD_FLAG = 0x8000"
definition SUBTLV_IFMTU :: u8 where [const_defs]: "SUBTLV_IFMTU = 0x01"

definition MSG_TYPE_NOTIFICATION :: u16 where [const_defs]: "MSG_TYPE_NOTIFICATION = 0x0001"
definition MSG_TYPE_INIT :: u16 where [const_defs]: "MSG_TYPE_INIT = 0x0200"
definition MSG_TYPE_KEEPALIVE :: u16 where [const_defs]: "MSG_TYPE_KEEPALIVE = 0x0201"
definition MSG_TYPE_ADDR :: u16 where [const_defs]: "MSG_TYPE_ADDR = 0x0300"
definition MSG_TYPE_ADDRWITHDRAW :: u16 where [const_defs]: "MSG_TYPE_ADDRWITHDRAW = 0x0301"
definition MSG_TYPE_LABELWITHDRAW :: u16 where [const_defs]: "MSG_TYPE_LABELWITHDRAW = 0x0402"
definition MSG_TYPE_LABELRELEASE :: u16 where [const_defs]: "MSG_TYPE_LABELRELEASE = 0x0403"
definition MSG_TYPE_LABELABORTREQ :: u16 where [const_defs]: "MSG_TYPE_LABELABORTREQ = 0x0404"

definition S_BAD_LDP_ID :: u32 where [const_defs]: "S_BAD_LDP_ID = 0x80000001"
definition S_BAD_PROTO_VER :: u32 where [const_defs]: "S_BAD_PROTO_VER = 0x80000002"
definition S_BAD_PDU_LEN :: u32 where [const_defs]: "S_BAD_PDU_LEN = 0x80000003"
definition S_UNKNOWN_MSG :: u32 where [const_defs]: "S_UNKNOWN_MSG = 0x00000004"
definition S_BAD_MSG_LEN :: u32 where [const_defs]: "S_BAD_MSG_LEN = 0x80000005"
definition S_UNKNOWN_TLV :: u32 where [const_defs]: "S_UNKNOWN_TLV = 0x00000006"
definition S_BAD_TLV_LEN :: u32 where [const_defs]: "S_BAD_TLV_LEN = 0x80000007"
definition S_BAD_TLV_VAL :: u32 where [const_defs]: "S_BAD_TLV_VAL = 0x80000008"
definition S_SHUTDOWN :: u32 where [const_defs]: "S_SHUTDOWN = 0x8000000A"
definition S_UNKNOWN_FEC :: u32 where [const_defs]: "S_UNKNOWN_FEC = 0x0000000C"
definition S_NO_HELLO :: u32 where [const_defs]: "S_NO_HELLO = 0x80000010"
definition S_MISS_MSG :: u32 where [const_defs]: "S_MISS_MSG = 0x00000016"
definition S_UNSUP_ADDR :: u32 where [const_defs]: "S_UNSUP_ADDR = 0x00000017"
definition S_KEEPALIVE_BAD :: u32 where [const_defs]: "S_KEEPALIVE_BAD = 0x80000018"
definition STATUS_FATAL :: u32 where [const_defs]: "STATUS_FATAL = 0x80000000"

abbreviation (input) "LDP_HDR_SIZE \<equiv> 10 :: nat"
abbreviation (input) "LDP_HDR_PDU_LEN \<equiv> 6 :: nat"
abbreviation (input) "LDP_HDR_DEAD_LEN \<equiv> 4 :: nat"
abbreviation (input) "LDP_MSG_SIZE \<equiv> 8 :: nat"
abbreviation (input) "LDP_MSG_LEN \<equiv> 4 :: nat"
abbreviation (input) "LDP_MSG_DEAD_LEN \<equiv> 4 :: nat"
abbreviation (input) "TLV_HDR_SIZE \<equiv> 4 :: nat"
abbreviation (input) "FEC_ELM_WCARD_LEN \<equiv> 1 :: nat"
abbreviation (input) "FEC_ELM_PREFIX_MIN_LEN \<equiv> 4 :: nat"
abbreviation (input) "FEC_PWID_ELM_MIN_LEN \<equiv> 8 :: nat"
abbreviation (input) "FEC_SUBTLV_IFMTU_SIZE \<equiv> 4 :: nat"
abbreviation (input) "PW_STATUS_TLV_SIZE \<equiv> 8 :: nat"
abbreviation (input) "PW_STATUS_TLV_LEN \<equiv> 4 :: nat"
abbreviation (input) "LABEL_TLV_SIZE \<equiv> 8 :: nat"
abbreviation (input) "LABEL_TLV_LEN \<equiv> 4 :: nat"
abbreviation (input) "REQID_TLV_SIZE \<equiv> 8 :: nat"
abbreviation (input) "REQID_TLV_LEN \<equiv> 4 :: nat"
abbreviation (input) "STATUS_SIZE \<equiv> 14 :: nat"
abbreviation (input) "STATUS_TLV_LEN \<equiv> 10 :: nat"
abbreviation (input) "SESS_PRMS_SIZE \<equiv> 18 :: nat"
abbreviation (input) "SESS_PRMS_LEN \<equiv> 14 :: nat"
abbreviation (input) "ADDR_LIST_SIZE \<equiv> 6 :: nat"
abbreviation (input) "LDP_MAX_LEN \<equiv> 4096 :: nat"

definition PREFIX_SIZE :: "u8 \<Rightarrow> nat" where
  "PREFIX_SIZE l = (unat l + 7) div 8"

section \<open>Output buffers\<close>

text \<open>
  \<^verbatim>\<open>ibuf_add\<close> fails when the data does not fit the size given to \<^verbatim>\<open>ibuf_open\<close>; the generators
  accumulate the failures in \<^verbatim>\<open>err\<close>. \<open>ibuf_adds\<close> is a sequence of \<^verbatim>\<open>err |= ibuf_add(...)\<close>.
\<close>

record ibuf =
  ib_max :: nat
  ib_data :: bytes

definition ibuf_open :: "nat \<Rightarrow> ibuf" where
  "ibuf_open n = \<lparr>ib_max = n, ib_data = []\<rparr>"

definition ibuf_add :: "ibuf \<times> bool \<Rightarrow> bytes \<Rightarrow> ibuf \<times> bool" where
  "ibuf_add be bs =
     (let (b, err) = be in
      if length (ib_data b) + length bs \<le> ib_max b then (b\<lparr>ib_data := ib_data b @ bs\<rparr>, err)
      else (b, True))"

definition ibuf_adds :: "ibuf \<times> bool \<Rightarrow> bytes list \<Rightarrow> ibuf \<times> bool" where
  "ibuf_adds be ps = foldl ibuf_add be ps"

lemma ibuf_adds_fit:
  "length (ib_data b) + length (concat ps) \<le> ib_max b \<Longrightarrow>
   ibuf_adds (b, err) ps = (b\<lparr>ib_data := ib_data b @ concat ps\<rparr>, err)"
  unfolding ibuf_adds_def by (induction ps arbitrary: b) (simp_all add: ibuf_add_def)

definition hton16 :: "nat \<Rightarrow> bytes" where
  "hton16 n = store16 (htons (of_nat n))"

lemma length_hton16 [simp]: "length (hton16 n) = 2"
  by (simp add: hton16_def)

section \<open>Headers and TLVs\<close>

text \<open>\<open>rtr_id\<close> is \<^verbatim>\<open>leconf->rtr_id\<close>, \<open>msgcnt\<close> the static counter of \<^verbatim>\<open>gen_msg_hdr\<close>.\<close>

definition gen_ldp_hdr :: "in_addr \<Rightarrow> nat \<Rightarrow> bytes list" where
  "gen_ldp_hdr rtr_id n =
     [store16 (htons LDP_VERSION) @ hton16 (sub16 n LDP_HDR_DEAD_LEN) @ store32 rtr_id @ store16 0]"

definition gen_msg_hdr :: "u32 \<Rightarrow> u16 \<Rightarrow> nat \<Rightarrow> u32 \<times> bytes list" where
  "gen_msg_hdr msgcnt type n =
     (msgcnt + 1,
      [store16 (htons type) @ hton16 (sub16 n LDP_MSG_DEAD_LEN) @ store32 (htonl (msgcnt + 1))])"

definition tlv_hdr :: "u16 \<Rightarrow> nat \<Rightarrow> bytes" where
  "tlv_hdr type len = store16 (htons type) @ hton16 len"

definition gen_label_tlv :: "u32 \<Rightarrow> bytes list" where
  "gen_label_tlv label = [tlv_hdr TLV_TYPE_GENERICLABEL LABEL_TLV_LEN @ store32 (htonl label)]"

definition gen_reqid_tlv :: "u32 \<Rightarrow> bytes list" where
  "gen_reqid_tlv reqid = [tlv_hdr TLV_TYPE_LABELREQUEST REQID_TLV_LEN @ store32 (htonl reqid)]"

definition gen_pw_status_tlv :: "u32 \<Rightarrow> bytes list" where
  "gen_pw_status_tlv status = [tlv_hdr TLV_TYPE_PW_STATUS PW_STATUS_TLV_LEN @ store32 (htonl status)]"

definition gen_status_tlv :: "u32 \<Rightarrow> u32 \<Rightarrow> u16 \<Rightarrow> bytes list" where
  "gen_status_tlv status_code msg_id msg_type =
     [tlv_hdr TLV_TYPE_STATUS STATUS_TLV_LEN @ store32 (htonl status_code) @ store32 msg_id @ store16 msg_type]"

definition gen_fec_tlv :: "map_msg \<Rightarrow> bytes list res" where
  "gen_fec_tlv m =
     (if map_type m = MAP_TYPE_WILDCARD then Inr [tlv_hdr TLV_TYPE_FEC 1, [map_type m]]
      else if map_type m = MAP_TYPE_PREFIX then
        let len = PREFIX_SIZE (map_prefixlen m) in
        bindE (case map_prefix_af m of
                 AF_INET \<Rightarrow> Inr (hton16 1)
               | AF_INET6 \<Rightarrow> Inr (hton16 2)
               | AF_UNSPEC \<Rightarrow> Inl (Fatalx ''gen_fec_tlv: unknown af'')) (\<lambda>family.
        bindE (if len = 0 then Inr [] else rdn (map_prefix m) 0 len) (\<lambda>prefix.
        Inr [tlv_hdr TLV_TYPE_FEC (1 + 2 + 1 + len), [map_type m], family, [map_prefixlen m], prefix]))
      else if map_type m = MAP_TYPE_PWID then
        let pw_len = (if has_flag (map_flags m) F_MAP_PW_ID then PW_STATUS_TLV_LEN else 0) +
                     (if has_flag (map_flags m) F_MAP_PW_IFMTU then FEC_SUBTLV_IFMTU_SIZE else 0);
            pw_type = (if has_flag (map_flags m) F_MAP_PW_CWORD
                       then set_flag (map_pwid_type m) CONTROL_WORD_FLAG else map_pwid_type m)
        in Inr ([tlv_hdr TLV_TYPE_FEC (FEC_PWID_ELM_MIN_LEN + pw_len), [map_type m],
                 store16 (htons pw_type), [of_nat pw_len], store32 (htonl (map_group_id m))] @
                (if has_flag (map_flags m) F_MAP_PW_ID then [store32 (htonl (map_pwid m))] else []) @
                (if has_flag (map_flags m) F_MAP_PW_IFMTU
                 then [[SUBTLV_IFMTU, of_nat FEC_SUBTLV_IFMTU_SIZE], store16 (htons (map_ifmtu m))] else []))
      else Inr [])"

section \<open>Decoding\<close>

record ldp_msg =
  msg_type :: u16
  msg_length :: u16
  msg_id :: u32

definition rd_msg :: "bytes \<Rightarrow> ldp_msg res" where
  "rd_msg bs = bindE (rd16 bs 0) (\<lambda>t. bindE (rd16 bs 2) (\<lambda>l. bindE (rd32 bs 4) (\<lambda>i.
     Inr \<lparr>msg_type = t, msg_length = l, msg_id = i\<rparr>)))"

datatype ldpe_act =
    Session_shutdown u32 u32 u16
  | Send_notification_nbr u32 u32 u16
  | Compose_lde ldpe_imsg
  | Compose_none map_msg  \<comment> \<open>a message of type \<^verbatim>\<open>IMSG_NONE\<close>\<close>

text \<open>\<open>None\<close> is the C result \<open>-1\<close>.\<close>

type_synonym 'a dec = "(ldpe_act list \<times> 'a option) res"

definition shutdown :: "u32 \<Rightarrow> ldp_msg \<Rightarrow> 'a dec" where
  "shutdown status msg = Inr ([Session_shutdown status (msg_id msg) (msg_type msg)], None)"

definition notify :: "u32 \<Rightarrow> ldp_msg \<Rightarrow> 'a dec" where
  "notify status msg = Inr ([Send_notification_nbr status (msg_id msg) (msg_type msg)], None)"

text \<open>
  The loop over the interface parameters of a pseudowire. A parameter of length 0 that is not an
  MTU leaves the offset and the remaining length as they are, so the loop never ends.
\<close>

function subtlv_loop :: "ldp_msg \<Rightarrow> bytes \<Rightarrow> nat \<Rightarrow> nat \<Rightarrow> map_msg \<Rightarrow> (nat \<times> map_msg) dec" where
  "subtlv_loop msg bs off pw_len m =
     (if pw_len = 0 then Inr ([], Some (off, m))
      else if pw_len < 2 then shutdown S_BAD_TLV_LEN msg
      else bindE (rd8 bs off) (\<lambda>type. bindE (rd8 bs (off + 1)) (\<lambda>l.
        if unat l > pw_len then shutdown S_BAD_TLV_LEN msg
        else if type = SUBTLV_IFMTU then
          if unat l \<noteq> FEC_SUBTLV_IFMTU_SIZE then shutdown S_BAD_TLV_LEN msg
          else bindE (rd16 bs (off + 2)) (\<lambda>ifmtu.
            subtlv_loop msg bs (off + 4) (pw_len - 4)
              (m\<lparr>map_ifmtu := ntohs ifmtu, map_flags := set_flag (map_flags m) F_MAP_PW_IFMTU\<rparr>))
        else if unat l = 0 then Inl Diverges
        else subtlv_loop msg bs (off + unat l) (pw_len - unat l) m)))"
  by pat_completeness auto
termination
  by (relation "measure (\<lambda>(msg, bs, off, pw_len, m). pw_len)") auto

declare subtlv_loop.simps [simp del]

definition decode_prefix :: "ldp_msg \<Rightarrow> bytes \<Rightarrow> nat \<Rightarrow> map_msg \<Rightarrow> (nat \<times> map_msg) dec" where
  "decode_prefix msg bs len m =
     (if len < FEC_ELM_PREFIX_MIN_LEN then shutdown S_BAD_TLV_LEN msg
      else bindE (rd16 bs 1) (\<lambda>family.
        let af = (if ntohs family = 1 then AF_INET else if ntohs family = 2 then AF_INET6 else AF_UNSPEC) in
        if af = AF_UNSPEC then notify S_UNSUP_ADDR msg
        else bindE (rd8 bs 3) (\<lambda>prefixlen.
          if len < 4 + PREFIX_SIZE prefixlen then shutdown S_BAD_TLV_LEN msg
          else bindE (rdn bs 4 (PREFIX_SIZE prefixlen)) (\<lambda>src.
            if PREFIX_SIZE prefixlen > 16 then Inl OutOfBounds
            else let buf = src @ replicate (16 - length src) 0 in
              bindE (ldp_applymask af buf buf (unat prefixlen)) (\<lambda>prefix.
              Inr ([], Some (4 + PREFIX_SIZE prefixlen,
                m\<lparr>map_prefix_af := af, map_prefixlen := prefixlen, map_prefix := prefix\<rparr>)))))))"

definition decode_pwid :: "ldp_msg \<Rightarrow> bytes \<Rightarrow> nat \<Rightarrow> map_msg \<Rightarrow> (nat \<times> map_msg) dec" where
  "decode_pwid msg bs len m =
     (if len < FEC_PWID_ELM_MIN_LEN then shutdown S_BAD_TLV_LEN msg
      else bindE (rd16 bs 1) (\<lambda>t.
        let pw_type = ntohs t;
            m1 = (if has_flag pw_type CONTROL_WORD_FLAG
                  then m\<lparr>map_flags := set_flag (map_flags m) F_MAP_PW_CWORD,
                         map_pwid_type := clear_flag pw_type CONTROL_WORD_FLAG\<rparr>
                  else m\<lparr>map_pwid_type := pw_type\<rparr>)
        in bindE (rd8 bs 3) (\<lambda>pl.
        let pw_len = unat pl in
        if len \<noteq> FEC_PWID_ELM_MIN_LEN + pw_len then shutdown S_BAD_TLV_LEN msg
        else bindE (rd32 bs 4) (\<lambda>g.
          let m2 = m1\<lparr>map_group_id := ntohl g\<rparr> in
          if pw_len = 0 then Inr ([], Some (8, m2))
          else if pw_len < 4 then shutdown S_BAD_TLV_LEN msg
          else bindE (rd32 bs 8) (\<lambda>i.
            subtlv_loop msg bs 12 (pw_len - 4)
              (m2\<lparr>map_pwid := ntohl i, map_flags := set_flag (map_flags m2) F_MAP_PW_ID\<rparr>))))))"

definition tlv_decode_fec_elm :: "ldp_msg \<Rightarrow> bytes \<Rightarrow> nat \<Rightarrow> map_msg \<Rightarrow> (nat \<times> map_msg) dec" where
  "tlv_decode_fec_elm msg bs len m =
     bindE (rd8 bs 0) (\<lambda>t.
     let m1 = m\<lparr>map_type := t\<rparr> in
     if t = MAP_TYPE_WILDCARD then
       if len = FEC_ELM_WCARD_LEN then Inr ([], Some (1, m1)) else shutdown S_BAD_TLV_VAL msg
     else if t = MAP_TYPE_PREFIX then decode_prefix msg bs len m1
     else if t = MAP_TYPE_PWID then decode_pwid msg bs len m1
     else notify S_UNKNOWN_FEC msg)"

definition tlv_decode_label :: "ldp_msg \<Rightarrow> bytes \<Rightarrow> nat \<Rightarrow> (nat \<times> u32) dec" where
  "tlv_decode_label msg bs len =
     (if len < 8 then shutdown S_BAD_TLV_LEN msg
      else bindE (rd16 bs 0) (\<lambda>t. bindE (rd16 bs 2) (\<lambda>l. bindE (rd32 bs 4) (\<lambda>lab.
        if ntohs t AND TLV_TYPE_GENERICLABEL = 0 then notify S_MISS_MSG msg
        else if htons t = TLV_TYPE_GENERICLABEL then
          if unat (ntohs l) \<noteq> 8 - TLV_HDR_SIZE then shutdown S_BAD_TLV_LEN msg
          else let label = ntohl lab in
            if label > MPLS_LABEL_MAX \<or>
               (label \<le> MPLS_LABEL_RESERVED_MAX \<and> label \<noteq> MPLS_LABEL_IPV4NULL \<and>
                label \<noteq> MPLS_LABEL_IPV6NULL \<and> label \<noteq> MPLS_LABEL_IMPLNULL)
            then shutdown S_BAD_TLV_VAL msg
            else Inr ([], Some (8, label))
        else shutdown S_BAD_TLV_VAL msg))))"

section \<open>Sequencing of decoders\<close>

text \<open>
  The second decoder runs only when the first one did not return \<open>-1\<close>; its actions follow those
  of the first.
\<close>

definition bindD :: "'a dec \<Rightarrow> ('a \<Rightarrow> 'b dec) \<Rightarrow> 'b dec" where
  "bindD d f = bindE d (\<lambda>(acts, r).
     case r of None \<Rightarrow> Inr (acts, None)
     | Some x \<Rightarrow> bindE (f x) (\<lambda>(acts', r'). Inr (acts @ acts', r')))"

lemma bindD_simps [simp, fault_simps]:
  "bindD (Inl e) f = Inl e"
  "bindD (Inr (acts, None)) f = Inr (acts, None)"
  "bindD (Inr ([], Some x)) f = f x"
  "bindD (Inr (acts, Some x)) f = bindE (f x) (\<lambda>(acts', r). Inr (acts @ acts', r))"
  "bindD (shutdown st msg) f = shutdown st msg"
  "bindD (notify st msg) f = notify st msg"
  by (simp_all add: bindD_def shutdown_def notify_def) (cases "f x"; simp add: split_beta)

lemma bindD_cong [fundef_cong]:
  "d = d' \<Longrightarrow> (\<And>acts x. d' = Inr (acts, Some x) \<Longrightarrow> f x = g x) \<Longrightarrow> bindD d f = bindD d' g"
  by (cases d') (auto simp: bindD_def split: option.split)

lemma bindD_InrE:
  assumes "bindD d f = Inr (acts, r)"
  obtains "d = Inr (acts, None)" "r = None"
  | acts1 acts2 x where "d = Inr (acts1, Some x)" "f x = Inr (acts2, r)" "acts = acts1 @ acts2"
proof -
  from assms obtain acts1 o1 where d: "d = Inr (acts1, o1)" by (cases d) (auto simp: bindD_def)
  with assms that show thesis by (cases o1) (auto simp: bindD_def bindE_Inr_iff)
qed

text \<open>
  \<open>okD d A P\<close>: the decoder does not fault, all its actions satisfy \<open>A\<close>, and its result, when it
  has one, satisfies \<open>P\<close>.
\<close>

definition okD :: "'a dec \<Rightarrow> (ldpe_act \<Rightarrow> bool) \<Rightarrow> ('a \<Rightarrow> bool) \<Rightarrow> bool" where
  "okD d A P \<longleftrightarrow> (\<exists>acts r. d = Inr (acts, r) \<and> list_all A acts \<and> pred_option P r)"

lemma okD_simps [simp]:
  "\<not> okD (Inl e) A P"
  "okD (Inr (acts, r)) A P \<longleftrightarrow> list_all A acts \<and> pred_option P r"
  "okD (shutdown st msg) A P \<longleftrightarrow> A (Session_shutdown st (msg_id msg) (msg_type msg))"
  "okD (notify st msg) A P \<longleftrightarrow> A (Send_notification_nbr st (msg_id msg) (msg_type msg))"
  by (simp_all add: okD_def shutdown_def notify_def)

lemma okD_bindD: "okD d A Q \<Longrightarrow> (\<And>x. Q x \<Longrightarrow> okD (f x) A P) \<Longrightarrow> okD (bindD d f) A P"
  by (fastforce simp: okD_def bindD_def split: option.splits)

lemma okD_bindE: "okE m Q \<Longrightarrow> (\<And>x. Q x \<Longrightarrow> okD (f x) A P) \<Longrightarrow> okD (bindE m f) A P"
  by (auto simp: okE_def)

end
