(* ===== verification/Ldp_LabelMsg.thy ===== *)
theory Ldp_LabelMsg
  imports Ldp_Wire
begin

text \<open>
  Label messages of \<^verbatim>\<open>labelmapping.c\<close>: \<^verbatim>\<open>send_labelmessage\<close>, which packs a list of mappings into as
  few PDUs as the negotiated maximum length allows, and \<^verbatim>\<open>recv_labelmessage\<close>, which decodes a
  message and passes one message per FEC element to the label decision engine.

  The neighbour enters as the fields the functions read: \<open>max_pdu_len\<close>, \<open>v4_enabled\<close>,
  \<open>v6_enabled\<close>. The PDUs that \<^verbatim>\<open>evbuf_enqueue\<close> gets are returned in order.
\<close>

section \<open>Sending\<close>

definition enqueue_pdu :: "ibuf \<Rightarrow> nat \<Rightarrow> bytes res" where
  "enqueue_pdu buf n =
     (if length (ib_data buf) < LDP_HDR_SIZE then Inl NullDeref
      else Inr (take 2 (ib_data buf) @ hton16 n @ drop 4 (ib_data buf)))"

definition label_msg_size :: "map_msg \<Rightarrow> nat" where
  "label_msg_size m =
     LDP_MSG_SIZE + TLV_HDR_SIZE +
     (if map_type m = MAP_TYPE_WILDCARD then FEC_ELM_WCARD_LEN
      else if map_type m = MAP_TYPE_PREFIX then FEC_ELM_PREFIX_MIN_LEN + PREFIX_SIZE (map_prefixlen m)
      else if map_type m = MAP_TYPE_PWID then
        FEC_PWID_ELM_MIN_LEN +
        (if has_flag (map_flags m) F_MAP_PW_ID then PW_STATUS_TLV_LEN else 0) +
        (if has_flag (map_flags m) F_MAP_PW_IFMTU then FEC_SUBTLV_IFMTU_SIZE else 0) +
        (if has_flag (map_flags m) F_MAP_PW_STATUS then PW_STATUS_TLV_SIZE else 0)
      else 0) +
     (if map_label m \<noteq> NO_LABEL then LABEL_TLV_SIZE else 0) +
     (if has_flag (map_flags m) F_MAP_REQ_ID then REQID_TLV_SIZE else 0) +
     (if has_flag (map_flags m) F_MAP_STATUS then STATUS_SIZE else 0)"

definition label_msg_tlvs :: "map_msg \<Rightarrow> bytes list res" where
  "label_msg_tlvs m = bindE (gen_fec_tlv m) (\<lambda>fec.
     Inr (fec @
       (if map_label m \<noteq> NO_LABEL then gen_label_tlv (map_label m) else []) @
       (if has_flag (map_flags m) F_MAP_REQ_ID then gen_reqid_tlv (map_requestid m) else []) @
       (if has_flag (map_flags m) F_MAP_PW_STATUS then gen_pw_status_tlv (map_pw_status m) else []) @
       (if has_flag (map_flags m) F_MAP_STATUS
        then gen_status_tlv (st_status_code (map_st m)) (st_msg_id (map_st m)) (st_msg_type (map_st m))
        else [])))"

text \<open>
  The loop over the mappings. \<open>cur\<close> is the PDU under construction with its size, \<open>None\<close> while
  \<open>first\<close> is set; a mapping that does not fit a PDU of its own would make the loop emit empty
  PDUs forever.
\<close>

datatype send_result =
    Sent u32 "ibuf \<times> nat" "bytes list"
  | Send_err u32 "bytes list"

function send_loop ::
    "nat \<Rightarrow> in_addr \<Rightarrow> u16 \<Rightarrow> map_msg list \<Rightarrow> u32 \<Rightarrow> (ibuf \<times> nat) option \<Rightarrow> bool \<Rightarrow> bytes list \<Rightarrow> send_result res" where
  "send_loop max_pdu_len rtr_id type [] cnt cur err pdus =
     (case cur of None \<Rightarrow> Inl NullDeref | Some c \<Rightarrow> Inr (Sent cnt c pdus))"
| "send_loop max_pdu_len rtr_id type (me # mh) cnt cur err pdus =
     (let ((buf, n), err1) =
            (case cur of
               None \<Rightarrow> (let (b, e) = ibuf_adds (ibuf_open (max_pdu_len + LDP_HDR_DEAD_LEN), err) (gen_ldp_hdr rtr_id 0)
                       in ((b, LDP_HDR_PDU_LEN), e))
             | Some c \<Rightarrow> (c, err));
          msg_size = label_msg_size me
      in if n + msg_size > max_pdu_len then
           (case cur of
              None \<Rightarrow> Inl Diverges
            | Some _ \<Rightarrow> bindE (enqueue_pdu buf n) (\<lambda>pdu.
                send_loop max_pdu_len rtr_id type (me # mh) cnt None err1 (pdus @ [pdu])))
         else
           let (cnt1, hdr) = gen_msg_hdr cnt type msg_size in
           bindE (label_msg_tlvs me) (\<lambda>tlvs.
           let (buf1, err2) = ibuf_adds (buf, err1) (hdr @ tlvs) in
           if err2 then Inr (Send_err cnt1 pdus)
           else send_loop max_pdu_len rtr_id type mh cnt1 (Some (buf1, n + msg_size)) err2 pdus))"
  by pat_completeness auto
termination
  by (relation "measure (\<lambda>(max, rtr, type, mh, cnt, cur, err, pdus). 2 * length mh + (if cur = None then 0 else 1))")
    auto

declare send_loop.simps [simp del]

text \<open>
  The result is the message counter, the PDUs enqueued and whether \<^verbatim>\<open>NBR_EVT_PDU_SENT\<close> was raised.
\<close>

definition send_labelmessage ::
    "nat \<Rightarrow> in_addr \<Rightarrow> u32 \<Rightarrow> u16 \<Rightarrow> map_msg list \<Rightarrow> (u32 \<times> bytes list \<times> bool) res" where
  "send_labelmessage max_pdu_len rtr_id cnt type mh =
     (if mh = [] then Inr (cnt, [], False)
      else bindE (send_loop max_pdu_len rtr_id type mh cnt None False []) (\<lambda>r.
        case r of
          Send_err cnt' pdus \<Rightarrow> Inr (cnt', pdus, False)
        | Sent cnt' (buf, n) pdus \<Rightarrow>
            bindE (enqueue_pdu buf n) (\<lambda>pdu. Inr (cnt', pdus @ [pdu], True))))"

section \<open>Receiving\<close>

lemma subtlv_loop_off:
  "subtlv_loop msg bs off pw_len m = Inr (acts, Some (off', m')) \<Longrightarrow> off' = off + pw_len"
proof (induction msg bs off pw_len m rule: subtlv_loop.induct)
  case (1 msg bs off pw_len m)
  from "1.prems" show ?case
    by (subst (asm) subtlv_loop.simps)
      (auto simp: bindE_Inr_iff shutdown_def dest!: "1.IH"(2) [simplified] "1.IH"(1) [simplified, rotated -1]
        split: if_splits)
qed

lemma tlv_decode_fec_elm_tlen:
  assumes "tlv_decode_fec_elm msg bs len m = Inr (acts, Some (tlen, m'))"
  shows "0 < tlen" "tlen \<le> len"
  using assms
  by (auto simp: tlv_decode_fec_elm_def decode_prefix_def decode_pwid_def shutdown_def notify_def
      Let_def bindE_Inr_iff dest!: subtlv_loop_off split: if_splits)

text \<open>
  The loop over the FEC elements, the same for every message type but for the checks on it. The
  result is the list of maps and the rest of the buffer.
\<close>

function fec_loop ::
    "ldp_msg \<Rightarrow> u16 \<Rightarrow> bytes \<Rightarrow> nat \<Rightarrow> nat \<Rightarrow> map_msg list \<Rightarrow> (bytes \<times> nat \<times> map_msg list) dec" where
  "fec_loop msg type bs len feclen mh =
     bindD (tlv_decode_fec_elm msg bs feclen (zero_map\<lparr>map_msg_id := msg_id msg\<rparr>)) (\<lambda>(tlen, m).
       if map_type m = MAP_TYPE_PWID \<and> \<not> has_flag (map_flags m) F_MAP_PW_ID \<and>
          type \<noteq> MSG_TYPE_LABELWITHDRAW \<and> type \<noteq> MSG_TYPE_LABELRELEASE
       then notify S_MISS_MSG msg
       else if map_type m = MAP_TYPE_WILDCARD \<and>
               (type = MSG_TYPE_LABELMAPPING \<or> type = MSG_TYPE_LABELREQUEST \<or> type = MSG_TYPE_LABELABORTREQ)
       then shutdown S_UNKNOWN_FEC msg
       else if type \<noteq> MSG_TYPE_LABELMAPPING \<and> tlen \<noteq> feclen
       then shutdown S_BAD_TLV_VAL msg
       else if feclen - tlen > 0
       then fec_loop msg type (drop tlen bs) (len - tlen) (feclen - tlen) (mh @ [m])
       else Inr ([], Some (drop tlen bs, len - tlen, mh @ [m])))"
  by pat_completeness auto
termination
  by (relation "measure (\<lambda>(msg, type, bs, len, feclen, mh). feclen)")
    (auto dest: tlv_decode_fec_elm_tlen)

declare fec_loop.simps [simp del]

record opt_params =
  op_label :: u32
  op_reqid :: u32
  op_pw_status :: u32
  op_flags :: u8

text \<open>One optional parameter; \<open>bs\<close> points behind its header.\<close>

definition opt_param :: "ldp_msg \<Rightarrow> u16 \<Rightarrow> u16 \<Rightarrow> nat \<Rightarrow> bytes \<Rightarrow> opt_params \<Rightarrow> opt_params dec" where
  "opt_param msg type tlv_type tlv_len bs op =
     (if tlv_type = TLV_TYPE_LABELREQUEST then
        if type = MSG_TYPE_LABELMAPPING \<or> type = MSG_TYPE_LABELREQUEST then
          if tlv_len \<noteq> REQID_TLV_LEN then shutdown S_BAD_TLV_LEN msg
          else bindE (rd32 bs 0) (\<lambda>reqbuf.
            Inr ([], Some (op\<lparr>op_flags := set_flag (op_flags op) F_MAP_REQ_ID, op_reqid := ntohl reqbuf\<rparr>)))
        else Inr ([], Some op)
      else if tlv_type = TLV_TYPE_HOPCOUNT \<or> tlv_type = TLV_TYPE_PATHVECTOR then Inr ([], Some op)
      else if tlv_type = TLV_TYPE_GENERICLABEL then
        if type = MSG_TYPE_LABELWITHDRAW \<or> type = MSG_TYPE_LABELRELEASE then
          if tlv_len \<noteq> LABEL_TLV_LEN then shutdown S_BAD_TLV_LEN msg
          else bindE (rd32 bs 0) (\<lambda>labelbuf. Inr ([], Some (op\<lparr>op_label := ntohl labelbuf\<rparr>)))
        else Inr ([], Some op)
      else if tlv_type = TLV_TYPE_ATMLABEL \<or> tlv_type = TLV_TYPE_FRLABEL then
        if type = MSG_TYPE_LABELWITHDRAW \<or> type = MSG_TYPE_LABELRELEASE then shutdown S_BAD_TLV_VAL msg
        else Inr ([], Some op)
      else if tlv_type = TLV_TYPE_STATUS then
        if tlv_len \<noteq> STATUS_TLV_LEN then shutdown S_BAD_TLV_LEN msg else Inr ([], Some op)
      else if tlv_type = TLV_TYPE_PW_STATUS then
        if type = MSG_TYPE_LABELMAPPING then
          if tlv_len \<noteq> PW_STATUS_TLV_LEN then shutdown S_BAD_TLV_LEN msg
          else bindE (rd32 bs 0) (\<lambda>statusbuf.
            Inr ([], Some (op\<lparr>op_flags := set_flag (op_flags op) F_MAP_PW_STATUS, op_pw_status := ntohl statusbuf\<rparr>)))
        else Inr ([], Some op)
      else Inr (if has_flag tlv_type UNKNOWN_FLAG then []
                else [Send_notification_nbr S_UNKNOWN_TLV (msg_id msg) (msg_type msg)], Some op))"

function opt_loop :: "ldp_msg \<Rightarrow> u16 \<Rightarrow> bytes \<Rightarrow> nat \<Rightarrow> opt_params \<Rightarrow> opt_params dec" where
  "opt_loop msg type bs len op =
     (if len = 0 then Inr ([], Some op)
      else if len < 4 then shutdown S_BAD_TLV_LEN msg
      else bindE (rd16 bs 0) (\<lambda>t. bindE (rd16 bs 2) (\<lambda>l.
        let tlv_len = unat (ntohs l) in
        if tlv_len + TLV_HDR_SIZE > len then shutdown S_BAD_TLV_LEN msg
        else bindD (opt_param msg type (ntohs t) tlv_len (drop TLV_HDR_SIZE bs) op) (\<lambda>op1.
          opt_loop msg type (drop (TLV_HDR_SIZE + tlv_len) bs) (len - TLV_HDR_SIZE - tlv_len) op1))))"
  by pat_completeness auto
termination
  by (relation "measure (\<lambda>(msg, type, bs, len, op). len)") auto

declare opt_loop.simps [simp del]

definition label_imsg :: "u16 \<Rightarrow> map_msg \<Rightarrow> ldpe_act" where
  "label_imsg type m =
     (if type = MSG_TYPE_LABELMAPPING then Compose_lde (LABEL_MAPPING m)
      else if type = MSG_TYPE_LABELREQUEST then Compose_lde (LABEL_REQUEST m)
      else if type = MSG_TYPE_LABELWITHDRAW then Compose_lde (LABEL_WITHDRAW m)
      else if type = MSG_TYPE_LABELRELEASE then Compose_lde (LABEL_RELEASE m)
      else if type = MSG_TYPE_LABELABORTREQ then Compose_lde (LABEL_ABORT m)
      else Compose_none m)"

fun notify_lde_loop ::
    "ldp_msg \<Rightarrow> u16 \<Rightarrow> bool \<Rightarrow> bool \<Rightarrow> opt_params \<Rightarrow> map_msg list \<Rightarrow> unit dec" where
  "notify_lde_loop msg type v4_enabled v6_enabled op [] = Inr ([], Some ())"
| "notify_lde_loop msg type v4_enabled v6_enabled op (me # mh) =
     (let m = me\<lparr>map_flags := set_flag (map_flags me) (op_flags op)\<rparr>;
          rest = notify_lde_loop msg type v4_enabled v6_enabled op mh;
          send = (\<lambda>m. let m1 = m\<lparr>map_label := op_label op\<rparr>;
                          m2 = (if has_flag (map_flags m) F_MAP_REQ_ID
                                then m1\<lparr>map_requestid := op_reqid op\<rparr> else m1)
                      in bindD (Inr ([label_imsg type m2], Some ())) (\<lambda>_. rest))
      in if map_type m = MAP_TYPE_PREFIX then
           (case map_prefix_af m of
              AF_INET \<Rightarrow>
                if op_label op = MPLS_LABEL_IPV6NULL then shutdown S_BAD_TLV_VAL msg
                else if \<not> v4_enabled then rest else send m
            | AF_INET6 \<Rightarrow>
                if op_label op = MPLS_LABEL_IPV4NULL then shutdown S_BAD_TLV_VAL msg
                else if \<not> v6_enabled then rest else send m
            | AF_UNSPEC \<Rightarrow> Inl (Fatalx ''recv_labelmessage: unknown af''))
         else if map_type m = MAP_TYPE_PWID then
           if op_label op \<le> MPLS_LABEL_RESERVED_MAX then shutdown S_BAD_TLV_VAL msg
           else send (if has_flag (map_flags m) F_MAP_PW_STATUS then m\<lparr>map_pw_status := op_pw_status op\<rparr> else m)
         else send m)"

definition recv_labelmessage :: "bool \<Rightarrow> bool \<Rightarrow> bytes \<Rightarrow> nat \<Rightarrow> u16 \<Rightarrow> unit dec" where
  "recv_labelmessage v4_enabled v6_enabled bs0 len0 type =
     bindE (rd_msg bs0) (\<lambda>msg.
     let bs = drop LDP_MSG_SIZE bs0; len = sub16 len0 LDP_MSG_SIZE in
     if len < 4 then shutdown S_BAD_TLV_LEN msg
     else bindE (rd16 bs 0) (\<lambda>t. bindE (rd16 bs 2) (\<lambda>l.
       if ntohs t \<noteq> TLV_TYPE_FEC then notify S_MISS_MSG msg
       else if unat (ntohs l) > len - TLV_HDR_SIZE then shutdown S_BAD_TLV_LEN msg
       else bindD (fec_loop msg type (drop TLV_HDR_SIZE bs) (len - TLV_HDR_SIZE) (unat (ntohs l)) []) (\<lambda>(bs1, len1, mh).
         bindD (if type = MSG_TYPE_LABELMAPPING then tlv_decode_label msg bs1 len1
                else Inr ([], Some (0, NO_LABEL))) (\<lambda>(lbllen, label).
         bindD (opt_loop msg type (drop lbllen bs1) (len1 - lbllen)
                  \<lparr>op_label = label, op_reqid = 0, op_pw_status = 0, op_flags = 0\<rparr>) (\<lambda>op.
         notify_lde_loop msg type v4_enabled v6_enabled op mh))))))"

end
