(* ===== verification/Ldpe_State.thy ===== *)
theory Ldpe_State
  imports Ldp_LabelMsg
begin

text \<open>
  The state of the protocol engine (\<^verbatim>\<open>ldpe.h\<close>, \<^verbatim>\<open>ldpd.h\<close>): its configuration, interfaces, targeted
  neighbours, hello adjacencies, neighbours with their sessions and timers, pending connections,
  and what it has sent so far.

  A pointer to a neighbour is its key in the tree \<^verbatim>\<open>nbrs_by_id\<close>, the lsr-id in host byte order; the
  trees by transport address and by peer identifier hold such pointers. Adjacencies, interfaces and
  targeted neighbours live in stores addressed by numbers, next to the lists that the code keeps
  of them. A timer is the number of seconds it was armed with, or \<open>None\<close> while it is not pending.
  The answers of the system (sockets, the key socket) to the calls made while one event is handled
  are the fields of \<open>sys\<close>.
\<close>

section \<open>Constants\<close>

definition MIN_HOLDTIME :: u16 where [const_defs]: "MIN_HOLDTIME = 3"
definition INFINITE_HOLDTIME :: u16 where [const_defs]: "INFINITE_HOLDTIME = 0xffff"
definition LINK_DFLT_HOLDTIME :: u16 where [const_defs]: "LINK_DFLT_HOLDTIME = 15"
definition TARGETED_DFLT_HOLDTIME :: u16 where [const_defs]: "TARGETED_DFLT_HOLDTIME = 45"
definition MIN_KEEPALIVE :: u16 where [const_defs]: "MIN_KEEPALIVE = 3"
definition KEEPALIVE_PER_PERIOD :: nat where [const_defs]: "KEEPALIVE_PER_PERIOD = 3"
definition INIT_FSM_TIMEOUT :: nat where [const_defs]: "INIT_FSM_TIMEOUT = 15"
definition INIT_DELAY_TMR :: nat where [const_defs]: "INIT_DELAY_TMR = 15"
definition MAX_DELAY_TMR :: nat where [const_defs]: "MAX_DELAY_TMR = 120"
definition PENDING_CONN_TIMEOUT :: nat where [const_defs]: "PENDING_CONN_TIMEOUT = 5"

definition S_HOLDTIME_EXP :: u32 where [const_defs]: "S_HOLDTIME_EXP = 0x80000009"
definition S_KEEPALIVE_TMR :: u32 where [const_defs]: "S_KEEPALIVE_TMR = 0x80000014"
definition S_TRANS_MISMTCH :: u32 where [const_defs]: "S_TRANS_MISMTCH = 0x80000032"
definition S_DS_NONCMPLNCE :: u32 where [const_defs]: "S_DS_NONCMPLNCE = 0x80000033"
definition MSG_TYPE_HELLO :: u16 where [const_defs]: "MSG_TYPE_HELLO = 0x0100"

definition F_LDPD_AF_ENABLED :: u32 where [const_defs]: "F_LDPD_AF_ENABLED = 0x0001"
definition F_LDPD_AF_THELLO_ACCEPT :: u32 where [const_defs]: "F_LDPD_AF_THELLO_ACCEPT = 0x0002"
definition F_LDPD_AF_NO_GTSM :: u32 where [const_defs]: "F_LDPD_AF_NO_GTSM = 0x0008"
definition F_LDPD_DS_CISCO_INTEROP :: u32 where [const_defs]: "F_LDPD_DS_CISCO_INTEROP = 0x0002"
definition F_TNBR_CONFIGURED :: u8 where [const_defs]: "F_TNBR_CONFIGURED = 0x01"
definition F_TNBR_DYNAMIC :: u8 where [const_defs]: "F_TNBR_DYNAMIC = 0x02"
definition F_NBRP_KEEPALIVE :: u8 where [const_defs]: "F_NBRP_KEEPALIVE = 0x01"
definition F_NBRP_GTSM :: u8 where [const_defs]: "F_NBRP_GTSM = 0x02"
definition F_NBRP_GTSM_HOPS :: u8 where [const_defs]: "F_NBRP_GTSM_HOPS = 0x04"
definition F_NBR_GTSM_NEGOTIATED :: u32 where [const_defs]: "F_NBR_GTSM_NEGOTIATED = 0x01"

section \<open>Configuration, interfaces and adjacencies\<close>

record ldpd_af_conf =
  ac_keepalive :: u16
  ac_thello_holdtime :: u16
  ac_thello_interval :: u16
  ac_trans_addr :: ldpd_addr
  ac_flags :: u32

record if_addr =
  ifa_af :: af
  ifa_addr :: ldpd_addr
  ifa_prefixlen :: u8
  ifa_dstbrd :: ldpd_addr

datatype iface_type = IF_TYPE_POINTOPOINT | IF_TYPE_BROADCAST

record iface_af =
  ia_enabled :: bool
  ia_active :: bool             \<comment> \<open>\<^verbatim>\<open>state == IF_STA_ACTIVE\<close>\<close>
  ia_adj_list :: "nat list"
  ia_hello_timer :: "nat option"
  ia_hello_holdtime :: u16
  ia_hello_interval :: u16

record iface =
  if_name :: string
  if_ifindex :: u32
  if_addr_list :: "if_addr list"
  if_linklocal :: in6_addr
  if_kind :: iface_type
  if_if_type :: u8
  if_flags :: u16
  if_linkstate :: u8
  if_ipv4 :: iface_af
  if_ipv6 :: iface_af

record tnbr =
  t_hello_timer :: "nat option"
  t_adj :: "nat option"
  t_af :: af
  t_addr :: ldpd_addr
  t_active :: bool              \<comment> \<open>\<^verbatim>\<open>state == TNBR_STA_ACTIVE\<close>\<close>
  t_hello_holdtime :: u16
  t_hello_interval :: u16
  t_pw_count :: u16
  t_flags :: u8

datatype auth_method = AUTH_NONE | AUTH_MD5SIG

record nbr_params =
  np_lsr_id :: in_addr
  np_keepalive :: u16
  np_gtsm_enabled :: bool
  np_gtsm_hops :: u8
  np_auth_method :: auth_method
  np_md5key :: string
  np_flags :: u8

text \<open>\<^verbatim>\<open>ia\<close> points to the \<^verbatim>\<open>struct iface_af\<close> of an interface for an address family.\<close>

datatype hello_source =
    HELLO_LINK nat af ldpd_addr   \<comment> \<open>\<^verbatim>\<open>link.ia\<close>, \<^verbatim>\<open>link.src_addr\<close>\<close>
  | HELLO_TARGETED nat            \<comment> \<open>\<^verbatim>\<open>target\<close>\<close>

record adj =
  a_lsr_id :: in_addr
  a_nbr :: "u32 option"
  a_ds_tlv :: bool
  a_source :: hello_source
  a_inactivity_timer :: "nat option"
  a_holdtime :: u16
  a_trans_addr :: ldpd_addr

section \<open>Neighbours\<close>

datatype nbr_state =
    NBR_STA_PRESENT | NBR_STA_INITIAL | NBR_STA_OPENREC | NBR_STA_OPENSENT | NBR_STA_OPER

datatype nbr_event =
    NBR_EVT_NOTHING | NBR_EVT_MATCH_ADJ | NBR_EVT_CONNECT_UP | NBR_EVT_CLOSE_SESSION
  | NBR_EVT_INIT_RCVD | NBR_EVT_KEEPALIVE_RCVD | NBR_EVT_PDU_RCVD | NBR_EVT_PDU_SENT
  | NBR_EVT_INIT_SENT

datatype nbr_action =
    NBR_ACT_NOTHING | NBR_ACT_RST_KTIMEOUT | NBR_ACT_SESSION_EST | NBR_ACT_RST_KTIMER
  | NBR_ACT_CONNECT_SETUP | NBR_ACT_PASSIVE_INIT | NBR_ACT_KEEPALIVE_SEND | NBR_ACT_CLOSE_SESSION

record tcp_conn =
  tcp_fd :: int
  tcp_rbuf :: bytes

record nbr_auth =
  au_established :: bool
  au_spi_in :: u32
  au_spi_out :: u32
  au_method :: auth_method
  au_md5key :: string

record nbr =
  n_tcp :: "tcp_conn option"
  n_adj_list :: "nat list"
  n_ev_connect :: bool
  n_keepalive_timer :: "nat option"
  n_keepalive_timeout :: "nat option"
  n_init_timeout :: "nat option"
  n_initdelay_timer :: "nat option"
  n_mapping_list :: "map_msg list"
  n_withdraw_list :: "map_msg list"
  n_request_list :: "map_msg list"
  n_release_list :: "map_msg list"
  n_abortreq_list :: "map_msg list"
  n_peerid :: u32
  n_af :: af
  n_ds_tlv :: bool
  n_v4_enabled :: bool
  n_v6_enabled :: bool
  n_id :: in_addr
  n_laddr :: ldpd_addr
  n_raddr :: ldpd_addr
  n_raddr_scope :: u32
  n_fd :: int
  n_state :: nbr_state
  n_conf_seqnum :: u32
  n_idtimer_cnt :: nat
  n_keepalive :: u16
  n_max_pdu_len :: u16
  n_auth :: nbr_auth
  n_flags :: u32

record pending_conn =
  pc_fd :: int
  pc_af :: af
  pc_addr :: ldpd_addr

section \<open>The engine\<close>

text \<open>
  What leaves the engine, in order: a PDU enqueued on a connection, a message to the label decision
  engine with its peer identifier, a hello packet passed to \<^verbatim>\<open>send_packet\<close>, a descriptor closed, the
  minimum and the outgoing TTL or hop limit set on a descriptor, the request for new sockets to
  the parent, and the multicast group joined or left on an interface.
\<close>

datatype ldpe_out =
    Out_pdu int bytes
  | Out_lde u32 ldpe_imsg
  | Out_lde_none u32 map_msg
  | Out_hello int af ldpd_addr bytes
  | Out_close int
  | Out_minttl int af int
  | Out_ucast_ttl int af int
  | Out_request_sockets af
  | Out_join nat af
  | Out_leave nat af

record ldpd_af_global =
  ag_disc_socket :: int
  ag_edisc_socket :: int
  ag_session_socket :: int

record accept_queue =
  aq_queue :: "(int \<times> bool) list"   \<comment> \<open>descriptor, and whether its event is added\<close>
  aq_paused :: bool

record ldpe =
  e_rtr_id :: in_addr
  e_ipv4 :: ldpd_af_conf
  e_ipv6 :: ldpd_af_conf
  e_iface_list :: "nat list"
  e_tnbr_list :: "nat list"
  e_nbrp_list :: "nbr_params list"
  e_trans_pref :: u16
  e_conf_flags :: u32
  e_ifaces :: "nat \<Rightarrow> iface option"
  e_tnbrs :: "nat \<Rightarrow> tnbr option"
  e_global4 :: ldpd_af_global
  e_global6 :: ldpd_af_global
  e_new_disc :: int                    \<comment> \<open>the static variables of \<^verbatim>\<open>ldpe_dispatch_main\<close>\<close>
  e_new_edisc :: int
  e_new_session :: int
  e_conf_seqnum :: u32
  e_addr_list :: "if_addr list"
  e_adj_list :: "nat list"
  e_adjs :: "nat \<Rightarrow> adj option"
  e_pending_conns :: "pending_conn list"
  e_detached :: "int list"             \<comment> \<open>connections of no neighbour, see \<^verbatim>\<open>pending_conn_timeout\<close>\<close>
  e_accept :: accept_queue
  e_nbrs :: "(u32, nbr) rbt"           \<comment> \<open>\<^verbatim>\<open>nbrs_by_id\<close>\<close>
  e_nbrs_by_addr :: "(nat, u32) rbt"
  e_nbrs_by_pid :: "(u32, u32) rbt"
  e_peercnt :: u32
  e_msgcnt :: u32
  e_no_pfkey :: bool
  e_no_md5sig :: bool
  e_out :: "ldpe_out list"

section \<open>The system\<close>

text \<open>
  The answers to system calls made for a neighbour (by its key) or on a descriptor: \<^verbatim>\<open>socket\<close> (the
  descriptor or \<open>-1\<close>), \<^verbatim>\<open>setsockopt\<close> for signatures and for the two TTLs, \<^verbatim>\<open>bind\<close>, \<^verbatim>\<open>connect\<close>, the joining of a
  multicast group on an interface, \<^verbatim>\<open>getsockopt\<close> for
  signatures (\<open>None\<close> when it fails), and the exchanges over the key socket of \<^verbatim>\<open>pfkey_sa_add\<close> (the new
  index, for the outgoing or incoming direction) and \<^verbatim>\<open>pfkey_sa_remove\<close>.
\<close>

datatype conn_res = Connected | In_progress | Conn_error

record sys =
  sys_socket :: "u32 \<Rightarrow> int"
  sys_set_md5 :: "u32 \<Rightarrow> bool"
  sys_bind :: "u32 \<Rightarrow> bool"
  sys_minttl :: "int \<Rightarrow> bool"
  sys_ucast_ttl :: "int \<Rightarrow> bool"
  sys_connect :: "u32 \<Rightarrow> conn_res"
  sys_join :: "nat \<Rightarrow> af \<Rightarrow> bool"
  sys_get_md5 :: "int \<Rightarrow> bool option"
  sys_sa_add :: "u32 \<Rightarrow> bool \<Rightarrow> u32 option"
  sys_sa_remove :: "u32 \<Rightarrow> bool \<Rightarrow> bool"

section \<open>Access\<close>

definition eout :: "ldpe \<Rightarrow> ldpe_out \<Rightarrow> ldpe" where
  "eout s x = s\<lparr>e_out := e_out s @ [x]\<rparr>"

definition get_nbr :: "ldpe \<Rightarrow> u32 \<Rightarrow> nbr res" where
  "get_nbr s p = (case rb_find (e_nbrs s) p of None \<Rightarrow> Inl NullDeref | Some n \<Rightarrow> Inr n)"

definition upd_n :: "ldpe \<Rightarrow> u32 \<Rightarrow> (nbr \<Rightarrow> nbr) \<Rightarrow> ldpe" where
  "upd_n s p f = s\<lparr>e_nbrs := rb_update (e_nbrs s) p f\<rparr>"

definition get_tcp :: "nbr \<Rightarrow> tcp_conn res" where
  "get_tcp n = (case n_tcp n of None \<Rightarrow> Inl NullDeref | Some t \<Rightarrow> Inr t)"

definition ldp_af_conf_get :: "ldpe \<Rightarrow> af \<Rightarrow> ldpd_af_conf res" where
  "ldp_af_conf_get s af =
     (case af of AF_INET \<Rightarrow> Inr (e_ipv4 s) | AF_INET6 \<Rightarrow> Inr (e_ipv6 s)
      | AF_UNSPEC \<Rightarrow> Inl (Fatalx ''ldp_af_conf_get: unknown af''))"

definition ldp_af_global_get :: "ldpe \<Rightarrow> af \<Rightarrow> ldpd_af_global res" where
  "ldp_af_global_get s af =
     (case af of AF_INET \<Rightarrow> Inr (e_global4 s) | AF_INET6 \<Rightarrow> Inr (e_global6 s)
      | AF_UNSPEC \<Rightarrow> Inl (Fatalx ''ldp_af_global_get: unknown af''))"

definition ldp_is_dual_stack :: "ldpe \<Rightarrow> bool" where
  "ldp_is_dual_stack s \<longleftrightarrow>
     has_flag (ac_flags (e_ipv4 s)) F_LDPD_AF_ENABLED \<and> has_flag (ac_flags (e_ipv6 s)) F_LDPD_AF_ENABLED"

text \<open>
  The trees. \<^verbatim>\<open>nbr_addr_compare\<close> orders by address family and then by \<^verbatim>\<open>ldp_addrcmp\<close>, which is the
  order of the addresses as numbers in network byte order; \<open>addr_key\<close> is that number, with the
  family above it.
\<close>

definition be_nat :: "bytes \<Rightarrow> nat" where
  "be_nat bs = foldl (\<lambda>x b. 256 * x + unat b) 0 bs"

definition addr_key :: "af \<Rightarrow> ldpd_addr \<Rightarrow> nat" where
  "addr_key af a = (case af of AF_INET \<Rightarrow> unat (ntohl (v4 a)) | AF_INET6 \<Rightarrow> 2 ^ 128 + be_nat a | AF_UNSPEC \<Rightarrow> 0)"

text \<open>
  \<^verbatim>\<open>nbr_id_compare\<close> subtracts two identifiers (in host byte order, which are the keys of \<open>e_nbrs\<close>) as
  \<^verbatim>\<open>uint32_t\<close> and returns the difference as an \<^verbatim>\<open>int\<close>. That is no order of all identifiers: it says
  \<open>0 < 0x60000000 < 0xc0000000 < 0\<close>. \<^verbatim>\<open>sys/tree.h\<close> finds an element only if the comparison orders the
  keys of the tree and the key it looks for, so a lookup with other keys is a fault of its own. On keys
  that are ordered \<^verbatim>\<open>RB_FOREACH\<close> visits the neighbours in the order of the comparison.
\<close>

definition nbr_id_compare :: "u32 \<Rightarrow> u32 \<Rightarrow> int" where
  "nbr_id_compare a b = sint (a - b)"

definition ids_ordered :: "u32 set \<Rightarrow> bool" where
  "ids_ordered K \<longleftrightarrow>
     (\<forall>p\<in>K. \<forall>q\<in>K. p = q \<or> nbr_id_compare p q < 0 \<and> 0 < nbr_id_compare q p \<or>
                        nbr_id_compare q p < 0 \<and> 0 < nbr_id_compare p q) \<and>
     (\<forall>p\<in>K. \<forall>q\<in>K. \<forall>r\<in>K. nbr_id_compare p q < 0 \<longrightarrow> nbr_id_compare q r < 0 \<longrightarrow> nbr_id_compare p r < 0)"

definition nbr_ids :: "ldpe \<Rightarrow> u32 set" where
  "nbr_ids s = set (rb_keys (e_nbrs s))"

definition ids_fit :: "ldpe \<Rightarrow> in_addr \<Rightarrow> bool" where
  "ids_fit s lsr_id \<longleftrightarrow> ids_ordered (insert (ntohl lsr_id) (nbr_ids s))"

fun id_insert :: "u32 \<Rightarrow> u32 list \<Rightarrow> u32 list" where
  "id_insert p [] = [p]"
| "id_insert p (q # qs) = (if nbr_id_compare p q < 0 then p # q # qs else q # id_insert p qs)"

definition nbrs_by_id :: "ldpe \<Rightarrow> u32 list" where
  "nbrs_by_id s = foldr id_insert (rb_keys (e_nbrs s)) []"

definition nbr_find_ldpid :: "ldpe \<Rightarrow> in_addr \<Rightarrow> u32 option res" where
  "nbr_find_ldpid s lsr_id =
     (if \<not> ids_fit s lsr_id then Inl Unordered
      else Inr (if rb_find (e_nbrs s) (ntohl lsr_id) = None then None else Some (ntohl lsr_id)))"

definition nbr_find_addr :: "ldpe \<Rightarrow> af \<Rightarrow> ldpd_addr \<Rightarrow> u32 option" where
  "nbr_find_addr s af addr = rb_find (e_nbrs_by_addr s) (addr_key af addr)"

definition nbr_find_peerid :: "ldpe \<Rightarrow> u32 \<Rightarrow> u32 option" where
  "nbr_find_peerid s peerid = rb_find (e_nbrs_by_pid s) peerid"

definition nbr_params_find :: "ldpe \<Rightarrow> in_addr \<Rightarrow> nbr_params option" where
  "nbr_params_find s lsr_id = find (\<lambda>np. np_lsr_id np = lsr_id) (e_nbrp_list s)"

definition nbr_get_keepalive :: "ldpe \<Rightarrow> af \<Rightarrow> in_addr \<Rightarrow> u16 res" where
  "nbr_get_keepalive s af lsr_id =
     (case nbr_params_find s lsr_id of
        Some np \<Rightarrow> if has_flag (np_flags np) F_NBRP_KEEPALIVE then Inr (np_keepalive np)
                   else bindE (ldp_af_conf_get s af) (\<lambda>c. Inr (ac_keepalive c))
      | None \<Rightarrow> bindE (ldp_af_conf_get s af) (\<lambda>c. Inr (ac_keepalive c)))"

section \<open>The order of the identifiers\<close>

lemma ids_ordered_mono: "ids_ordered K \<Longrightarrow> L \<subseteq> K \<Longrightarrow> ids_ordered L"
  unfolding ids_ordered_def by (blast intro: subsetD)

lemma ids_fit_mono: "ids_fit s lsr_id \<Longrightarrow> nbr_ids t \<subseteq> nbr_ids s \<Longrightarrow> ids_fit t lsr_id"
  unfolding ids_fit_def by (erule ids_ordered_mono) blast

lemma nbr_ids_iff [simp]: "p \<in> nbr_ids s \<longleftrightarrow> rb_find (e_nbrs s) p \<noteq> None"
  by (simp add: nbr_ids_def)

lemma nbr_find_ldpid_fit:
  "ids_fit s lsr_id \<Longrightarrow>
   nbr_find_ldpid s lsr_id = Inr (if rb_find (e_nbrs s) (ntohl lsr_id) = None then None else Some (ntohl lsr_id))"
  by (simp add: nbr_find_ldpid_def)

text \<open>
  Identifiers that all lie within half of the range of \<^verbatim>\<open>uint32_t\<close> from each other are ordered, as are any
  two that are not half of it apart; the three of the remark above are not.
\<close>

lemma nbr_id_compare_near:
  assumes "\<bar>uint p - uint q\<bar> < 2 ^ 31"
  shows "nbr_id_compare p q = uint p - uint q"
proof -
  have "sint (p - q) = signed_take_bit 31 (uint p - uint q)"
    by (simp add: sint_uint uint_word_ariths signed_take_bit_eq_iff_take_bit_eq take_bit_eq_mod)
  also have "\<dots> = uint p - uint q" using assms by (intro signed_take_bit_int_eq_self) auto
  finally show ?thesis by (simp add: nbr_id_compare_def)
qed

lemma ids_ordered_near:
  assumes "\<forall>p\<in>K. \<forall>q\<in>K. \<bar>uint p - uint q\<bar> < 2 ^ 31"
  shows "ids_ordered K"
proof -
  have c: "nbr_id_compare p q = uint p - uint q" if "p \<in> K" "q \<in> K" for p q
    using that assms by (intro nbr_id_compare_near) simp
  show ?thesis
    unfolding ids_ordered_def
  proof (intro conjI ballI impI)
    fix p q assume pq: "p \<in> K" "q \<in> K"
    have "p = q \<or> uint p < uint q \<or> uint q < uint p" by (metis linorder_neqE word_of_int_uint)
    then show "p = q \<or> nbr_id_compare p q < 0 \<and> 0 < nbr_id_compare q p \<or> nbr_id_compare q p < 0 \<and> 0 < nbr_id_compare p q"
      using pq by (auto simp: c)
  next
    fix p q r assume "p \<in> K" "q \<in> K" "r \<in> K" "nbr_id_compare p q < 0" "nbr_id_compare q r < 0"
    then show "nbr_id_compare p r < 0" by (simp add: c)
  qed
qed

lemma ids_unordered: "\<not> ids_ordered {0, 0x60000000, 0xc0000000}"
  by (simp add: ids_ordered_def nbr_id_compare_def)

text \<open>What \<^verbatim>\<open>RB_FOREACH\<close> visits: every neighbour once, in the order of the comparison.\<close>

lemma set_id_insert [simp]: "set (id_insert p qs) = insert p (set qs)"
  by (induction qs) auto

lemma set_foldr_id_insert: "set (foldr id_insert ps []) = set ps"
  by (induction ps) auto

lemma in_nbrs_by_id [simp]: "p \<in> set (nbrs_by_id s) \<longleftrightarrow> rb_find (e_nbrs s) p \<noteq> None"
  by (simp add: nbrs_by_id_def set_foldr_id_insert)

lemma id_insert_sorted:
  assumes "ids_ordered (insert p (set qs))" "p \<notin> set qs" "sorted_wrt (\<lambda>p q. nbr_id_compare p q < 0) qs"
  shows "sorted_wrt (\<lambda>p q. nbr_id_compare p q < 0) (id_insert p qs)"
  using assms
proof (induction qs)
  case (Cons q qs)
  have ord: "nbr_id_compare a c < 0" if "nbr_id_compare a b < 0" "nbr_id_compare b c < 0"
    "{a, b, c} \<subseteq> insert p (set (q # qs))" for a b c
    using Cons.prems(1) that unfolding ids_ordered_def by (meson insert_subset)
  show ?case
  proof (cases "nbr_id_compare p q < 0")
    case True
    then show ?thesis using Cons.prems(3) ord [OF True] by auto
  next
    case False
    then have "nbr_id_compare q p < 0" using Cons.prems(1,2) unfolding ids_ordered_def by (metis insertCI list.set_intros(1))
    moreover have "ids_ordered (insert p (set qs))" by (rule ids_ordered_mono [OF Cons.prems(1)]) auto
    ultimately show ?thesis using Cons.IH Cons.prems(2,3) False by simp
  qed
qed simp

lemma nbrs_by_id_ordered:
  assumes "ids_ordered (nbr_ids s)"
  shows "sorted_wrt (\<lambda>p q. nbr_id_compare p q < 0) (nbrs_by_id s)"
proof -
  have "sorted_wrt (\<lambda>p q. nbr_id_compare p q < 0) (foldr id_insert ps [])"
    if "distinct ps" "ids_ordered (set ps)" for ps
    using that
  proof (induction ps)
    case (Cons p ps)
    have "ids_ordered (set ps)" by (rule ids_ordered_mono [OF Cons.prems(2)]) auto
    then show ?case using Cons by (auto simp: set_foldr_id_insert intro!: id_insert_sorted)
  qed simp
  then show ?thesis using assms rb.keys_ordered [of "e_nbrs s"] by (simp add: nbrs_by_id_def nbr_ids_def)
qed

end
