(* ===== verification/Ldpe_Send.thy ===== *)
theory Ldpe_Send
  imports Ldpe_State
begin

text \<open>
  The session messages that the protocol engine sends (\<^verbatim>\<open>notification.c\<close>, \<^verbatim>\<open>keepalive.c\<close>, \<^verbatim>\<open>init.c\<close>,
  \<^verbatim>\<open>address.c\<close>, \<^verbatim>\<open>send_labelmessage\<close> on a neighbour) and its hello packets (\<^verbatim>\<open>send_hello\<close> of
  \<^verbatim>\<open>hello.c\<close>). Where a sender raises an event of the neighbour's state machine, which itself may send
  messages, the state machine is the parameter \<open>fsm\<close>.
\<close>

type_synonym fsm = "ldpe \<Rightarrow> u32 \<Rightarrow> nbr_event \<Rightarrow> ldpe res"

section \<open>Notifications\<close>

definition notification_size :: "notify_msg \<Rightarrow> nat" where
  "notification_size nm =
     LDP_HDR_SIZE + LDP_MSG_SIZE + STATUS_SIZE +
     (if has_flag (nm_flags nm) F_NOTIF_PW_STATUS then PW_STATUS_TLV_SIZE else 0) +
     (if has_flag (nm_flags nm) F_NOTIF_FEC then
        TLV_HDR_SIZE +
        (if map_type (nm_fec nm) = MAP_TYPE_PWID then
           FEC_PWID_ELM_MIN_LEN + (if has_flag (map_flags (nm_fec nm)) F_MAP_PW_ID then 4 else 0)
         else 0)
      else 0)"

definition send_notification_full :: "ldpe \<Rightarrow> int \<Rightarrow> notify_msg \<Rightarrow> ldpe res" where
  "send_notification_full s fd nm =
     (let n = notification_size nm;
          (cnt, hdr) = gen_msg_hdr (e_msgcnt s) MSG_TYPE_NOTIFICATION (n - LDP_HDR_SIZE)
      in bindE (if has_flag (nm_flags nm) F_NOTIF_FEC then gen_fec_tlv (nm_fec nm) else Inr []) (\<lambda>fec.
         let (buf, err) = ibuf_adds (ibuf_open n, False)
               (gen_ldp_hdr (e_rtr_id s) n @ hdr @
                gen_status_tlv (nm_status_code nm) (nm_msg_id nm) (nm_msg_type nm) @
                (if has_flag (nm_flags nm) F_NOTIF_PW_STATUS then gen_pw_status_tlv (nm_pw_status nm) else []) @
                fec);
             s1 = s\<lparr>e_msgcnt := cnt\<rparr>
         in Inr (if err then s1 else eout s1 (Out_pdu fd (ib_data buf)))))"

definition send_notification :: "ldpe \<Rightarrow> u32 \<Rightarrow> int \<Rightarrow> u32 \<Rightarrow> u16 \<Rightarrow> ldpe res" where
  "send_notification s status_code fd mid type =
     send_notification_full s fd
       (zero_notify_msg\<lparr>nm_status_code := status_code, nm_msg_id := mid, nm_msg_type := type\<rparr>)"

definition send_notification_nbr :: "fsm \<Rightarrow> ldpe \<Rightarrow> u32 \<Rightarrow> u32 \<Rightarrow> u32 \<Rightarrow> u16 \<Rightarrow> ldpe res" where
  "send_notification_nbr fsm s p status_code mid type =
     bindE (get_nbr s p) (\<lambda>n. bindE (get_tcp n) (\<lambda>tcp.
     bindE (send_notification s status_code (tcp_fd tcp) mid type) (\<lambda>s1.
     fsm s1 p NBR_EVT_PDU_SENT)))"

section \<open>Keepalive and initialization\<close>

definition send_keepalive :: "ldpe \<Rightarrow> u32 \<Rightarrow> ldpe res" where
  "send_keepalive s p =
     (let n = LDP_HDR_SIZE + LDP_MSG_SIZE;
          (cnt, hdr) = gen_msg_hdr (e_msgcnt s) MSG_TYPE_KEEPALIVE (n - LDP_HDR_SIZE);
          (buf, _) = ibuf_adds (ibuf_open n, False) (gen_ldp_hdr (e_rtr_id s) n @ hdr)
      in bindE (get_nbr s p) (\<lambda>nb. bindE (get_tcp nb) (\<lambda>tcp.
         Inr (eout (s\<lparr>e_msgcnt := cnt\<rparr>) (Out_pdu (tcp_fd tcp) (ib_data buf))))))"

definition gen_init_prms_tlv :: "ldpe \<Rightarrow> nbr \<Rightarrow> bytes list res" where
  "gen_init_prms_tlv s nb =
     bindE (nbr_get_keepalive s (n_af nb) (n_id nb)) (\<lambda>keepalive.
     Inr [tlv_hdr TLV_TYPE_COMMONSESSION SESS_PRMS_LEN @ store16 (htons LDP_VERSION) @
          store16 (htons keepalive) @ [0, 0] @ store16 0 @ store32 (n_id nb) @ store16 0])"

definition send_init :: "ldpe \<Rightarrow> u32 \<Rightarrow> ldpe res" where
  "send_init s p =
     (let n = LDP_HDR_SIZE + LDP_MSG_SIZE + SESS_PRMS_SIZE;
          (cnt, hdr) = gen_msg_hdr (e_msgcnt s) MSG_TYPE_INIT (n - LDP_HDR_SIZE)
      in bindE (get_nbr s p) (\<lambda>nb. bindE (gen_init_prms_tlv s nb) (\<lambda>prms.
         let (buf, err) = ibuf_adds (ibuf_open n, False) (gen_ldp_hdr (e_rtr_id s) n @ hdr @ prms);
             s1 = s\<lparr>e_msgcnt := cnt\<rparr>
         in if err then Inr s1
            else bindE (get_tcp nb) (\<lambda>tcp. Inr (eout s1 (Out_pdu (tcp_fd tcp) (ib_data buf)))))))"

section \<open>Addresses\<close>

definition addr_size_of :: "af \<Rightarrow> string \<Rightarrow> nat res" where
  "addr_size_of af f =
     (case af of AF_INET \<Rightarrow> Inr 4 | AF_INET6 \<Rightarrow> Inr 16 | AF_UNSPEC \<Rightarrow> Inl (Fatalx (f @ '': unknown af'')))"

text \<open>
  The loops over the first \<open>c\<close> elements of a list end when a counter, decremented after each
  element, is zero: a counter that starts at zero does not end them before the list.
\<close>

definition upto_count :: "u32 \<Rightarrow> 'a list \<Rightarrow> 'a list \<times> 'a list" where
  "upto_count c xs = (if c = 0 then (xs, []) else (take (unat c) xs, drop (unat c) xs))"

lemma upto_count_shorter: "xs \<noteq> [] \<Longrightarrow> length (snd (upto_count c xs)) < length xs"
  by (cases "unat c") (auto simp: upto_count_def unat_eq_zero)

definition gen_address_list_tlv :: "nat \<Rightarrow> af \<Rightarrow> if_addr list \<Rightarrow> u32 \<Rightarrow> bytes list res" where
  "gen_address_list_tlv n af addr_list tlv_addr_count =
     bindE (addr_size_of af ''gen_address_list_tlv'') (\<lambda>addr_size.
     bindE (foldE (\<lambda>ps ifa. bindE (rdn (ifa_addr ifa) 0 addr_size) (\<lambda>a. Inr (ps @ [a])))
              (fst (upto_count tlv_addr_count addr_list)) []) (\<lambda>addrs.
     Inr ((store16 TLV_TYPE_ADDRLIST @ hton16 (sub16 n TLV_HDR_SIZE) @
           hton16 (if af = AF_INET then 1 else 2)) # addrs)))"

text \<open>How many of \<open>addr_count\<close> addresses go into the next message.\<close>

definition tlv_addr_count_of :: "u16 \<Rightarrow> nat \<Rightarrow> u32 \<Rightarrow> u32" where
  "tlv_addr_count_of max_pdu_len addr_size addr_count =
     (if 24 + addr_count * of_nat addr_size \<le> ucast max_pdu_len then addr_count
      else if 24 \<le> unat max_pdu_len then of_nat ((unat max_pdu_len - 24) div addr_size)
      else - of_nat ((24 - unat max_pdu_len) div addr_size))"

function send_address_loop ::
    "ldpe \<Rightarrow> u16 \<Rightarrow> int \<Rightarrow> u16 \<Rightarrow> af \<Rightarrow> nat \<Rightarrow> if_addr list \<Rightarrow> u32 \<Rightarrow> (ldpe \<times> bool) res" where
  "send_address_loop s max_pdu_len fd type af addr_size addr_list addr_count =
     (if addr_list = [] then Inr (s, True)
      else
        let c = tlv_addr_count_of max_pdu_len addr_size addr_count;
            n = (24 + unat (c * of_nat addr_size :: u32)) mod 65536;
            (cnt, hdr) = gen_msg_hdr (e_msgcnt s) type (sub16 n LDP_HDR_SIZE)
        in bindE (gen_address_list_tlv (sub16 (sub16 n LDP_HDR_SIZE) LDP_MSG_SIZE) af addr_list c) (\<lambda>tlv.
           let (buf, err) = ibuf_adds (ibuf_open n, False) (gen_ldp_hdr (e_rtr_id s) n @ hdr @ tlv);
               s1 = s\<lparr>e_msgcnt := cnt\<rparr>
           in if err then Inr (s1, False)
              else send_address_loop (eout s1 (Out_pdu fd (ib_data buf))) max_pdu_len fd type af addr_size
                     (snd (upto_count c addr_list)) (addr_count - c)))"
  by pat_completeness auto
termination
  by (relation "measure (\<lambda>(s, max_pdu_len, fd, type, af, addr_size, addr_list, addr_count). length addr_list)")
    (simp_all add: upto_count_shorter)

declare send_address_loop.simps [simp del]

definition send_address :: "fsm \<Rightarrow> ldpe \<Rightarrow> u32 \<Rightarrow> af \<Rightarrow> if_addr list \<Rightarrow> u32 \<Rightarrow> bool \<Rightarrow> ldpe res" where
  "send_address fsm s p af addr_list addr_count withdraw =
     (if addr_list = [] then Inr s
      else let type = (if withdraw then MSG_TYPE_ADDRWITHDRAW else MSG_TYPE_ADDR) in
        bindE (addr_size_of af ''send_address'') (\<lambda>addr_size.
        bindE (get_nbr s p) (\<lambda>nb. bindE (get_tcp nb) (\<lambda>tcp.
        bindE (send_address_loop s (n_max_pdu_len nb) (tcp_fd tcp) type af addr_size addr_list addr_count)
          (\<lambda>(s1, ok). if ok then fsm s1 p NBR_EVT_PDU_SENT else Inr s1)))))"

definition send_address_single :: "fsm \<Rightarrow> ldpe \<Rightarrow> u32 \<Rightarrow> if_addr \<Rightarrow> bool \<Rightarrow> ldpe res" where
  "send_address_single fsm s p ifa withdraw = send_address fsm s p (ifa_af ifa) [ifa] 1 withdraw"

text \<open>\<^verbatim>\<open>address_list_add\<close> inserts at the head, so the copy is in reverse order.\<close>

definition send_address_all :: "fsm \<Rightarrow> ldpe \<Rightarrow> u32 \<Rightarrow> af \<Rightarrow> ldpe res" where
  "send_address_all fsm s p af =
     (let addrs = rev (filter (\<lambda>ifa. ifa_af ifa = af) (e_addr_list s))
      in send_address fsm s p af addrs (of_nat (length addrs)) False)"

section \<open>Label messages\<close>

text \<open>\<^verbatim>\<open>send_labelmessage(nbr, type, mh)\<close> on the list \<open>mh\<close> of the neighbour, which it empties.\<close>

definition send_labelmessage_nbr :: "fsm \<Rightarrow> ldpe \<Rightarrow> u32 \<Rightarrow> u16 \<Rightarrow> map_msg list \<Rightarrow> ldpe res" where
  "send_labelmessage_nbr fsm s p type mh =
     (if mh = [] then Inr s
      else bindE (get_nbr s p) (\<lambda>nb. bindE (get_tcp nb) (\<lambda>tcp.
        bindE (send_labelmessage (unat (n_max_pdu_len nb)) (e_rtr_id s) (e_msgcnt s) type mh)
          (\<lambda>(cnt, pdus, sent).
           let s1 = s\<lparr>e_msgcnt := cnt, e_out := e_out s @ map (Out_pdu (tcp_fd tcp)) pdus\<rparr>
           in if sent then fsm s1 p NBR_EVT_PDU_SENT else Inr s1))))"

end
