(* ===== verification/Ldpe_Hello.thy ===== *)
theory Ldpe_Hello
  imports Ldpe_Send
begin

text \<open>
  Hello packets (\<^verbatim>\<open>hello.c\<close>): their generation by \<^verbatim>\<open>send_hello\<close> and the decoding of their parameters.
  What the engine does with a received hello is in \<open>Ldpe_Disc\<close>.
\<close>

definition TLV_TYPE_COMMONHELLO :: u16 where [const_defs]: "TLV_TYPE_COMMONHELLO = 0x0400"
definition TLV_TYPE_IPV4TRANSADDR :: u16 where [const_defs]: "TLV_TYPE_IPV4TRANSADDR = 0x0401"
definition TLV_TYPE_CONFIG :: u16 where [const_defs]: "TLV_TYPE_CONFIG = 0x0402"
definition TLV_TYPE_IPV6TRANSADDR :: u16 where [const_defs]: "TLV_TYPE_IPV6TRANSADDR = 0x0403"
definition TLV_TYPE_DUALSTACK :: u16 where [const_defs]: "TLV_TYPE_DUALSTACK = 0x8701"
definition F_HELLO_TARGETED :: u16 where [const_defs]: "F_HELLO_TARGETED = 0x8000"
definition F_HELLO_REQ_TARG :: u16 where [const_defs]: "F_HELLO_REQ_TARG = 0x4000"
definition F_HELLO_GTSM :: u16 where [const_defs]: "F_HELLO_GTSM = 0x2000"
definition F_HELLO_TLV_RCVD_ADDR :: u32 where [const_defs]: "F_HELLO_TLV_RCVD_ADDR = 0x01"
definition F_HELLO_TLV_RCVD_CONF :: u32 where [const_defs]: "F_HELLO_TLV_RCVD_CONF = 0x02"
definition F_HELLO_TLV_RCVD_DS :: u32 where [const_defs]: "F_HELLO_TLV_RCVD_DS = 0x04"

abbreviation (input) "HELLO_PRMS_SIZE \<equiv> 8 :: nat"
abbreviation (input) "HELLO_PRMS_OPT4_SIZE \<equiv> 8 :: nat"
abbreviation (input) "HELLO_PRMS_OPT16_SIZE \<equiv> 20 :: nat"

text \<open>224.0.0.2 and ff02::2, set up by \<^verbatim>\<open>ldpe\<close> in \<^verbatim>\<open>ldpe.c\<close>.\<close>

definition mcast_addr_v4 :: ldpd_addr where
  "mcast_addr_v4 = [224, 0, 0, 2] @ replicate 12 0"

definition mcast_addr_v6 :: ldpd_addr where
  "mcast_addr_v6 = [0xff, 0x02] @ replicate 13 0 @ [2]"

section \<open>Generation\<close>

definition gen_hello_prms_tlv :: "u16 \<Rightarrow> u16 \<Rightarrow> bytes list" where
  "gen_hello_prms_tlv holdtime flags =
     [tlv_hdr TLV_TYPE_COMMONHELLO 4 @ store16 (htons holdtime) @ store16 (htons flags)]"

definition gen_opt4_hello_prms_tlv :: "u16 \<Rightarrow> u32 \<Rightarrow> bytes list" where
  "gen_opt4_hello_prms_tlv type val = [tlv_hdr type 4 @ store32 val]"

definition gen_opt16_hello_prms_tlv :: "u16 \<Rightarrow> in6_addr \<Rightarrow> bytes list" where
  "gen_opt16_hello_prms_tlv type val = [tlv_hdr type 16 @ val]"

definition gen_ds_hello_prms_tlv :: "ldpe \<Rightarrow> u32 \<Rightarrow> bytes list" where
  "gen_ds_hello_prms_tlv s val =
     gen_opt4_hello_prms_tlv TLV_TYPE_DUALSTACK
       (if has_flag (e_conf_flags s) F_LDPD_DS_CISCO_INTEROP then htonl val else htonl (push_bit 28 val))"

definition iface_af_get :: "iface \<Rightarrow> af \<Rightarrow> iface_af res" where
  "iface_af_get ifc af =
     (case af of AF_INET \<Rightarrow> Inr (if_ipv4 ifc) | AF_INET6 \<Rightarrow> Inr (if_ipv6 ifc)
      | AF_UNSPEC \<Rightarrow> Inl (Fatalx ''iface_af_get: unknown af''))"

definition get_iface :: "ldpe \<Rightarrow> nat \<Rightarrow> iface res" where
  "get_iface s i = (case e_ifaces s i of None \<Rightarrow> Inl NullDeref | Some x \<Rightarrow> Inr x)"

definition get_tnbr :: "ldpe \<Rightarrow> nat \<Rightarrow> tnbr res" where
  "get_tnbr s t = (case e_tnbrs s t of None \<Rightarrow> Inl NullDeref | Some x \<Rightarrow> Inr x)"

definition get_adj :: "ldpe \<Rightarrow> nat \<Rightarrow> adj res" where
  "get_adj s a = (case e_adjs s a of None \<Rightarrow> Inl NullDeref | Some x \<Rightarrow> Inr x)"

text \<open>Where a hello goes: \<^verbatim>\<open>send_hello(HELLO_LINK, ia, NULL)\<close> or \<^verbatim>\<open>send_hello(HELLO_TARGETED, NULL, tnbr)\<close>.\<close>

datatype hello_dst = To_link nat af | To_target nat

text \<open>Address family, hold time, flags, socket and destination of a hello.\<close>

definition hello_dst_params :: "ldpe \<Rightarrow> hello_dst \<Rightarrow> (af \<times> u16 \<times> u16 \<times> int \<times> ldpd_addr) res" where
  "hello_dst_params s d =
     (case d of
        To_link i af \<Rightarrow>
          bindE (get_iface s i) (\<lambda>ifc. bindE (iface_af_get ifc af) (\<lambda>ia.
          bindE (ldp_af_global_get s af) (\<lambda>g.
          case af of
            AF_INET \<Rightarrow> Inr (af, ia_hello_holdtime ia,
              if has_flag (ac_flags (e_ipv4 s)) F_LDPD_AF_NO_GTSM then 0 else F_HELLO_GTSM,
              ag_disc_socket g, mcast_addr_v4)
          | AF_INET6 \<Rightarrow> Inr (af, ia_hello_holdtime ia, 0, ag_disc_socket g, mcast_addr_v6)
          | AF_UNSPEC \<Rightarrow> Inl (Fatalx ''send_hello: unknown af''))))
      | To_target t \<Rightarrow>
          bindE (get_tnbr s t) (\<lambda>tn.
          bindE (ldp_af_global_get s (t_af tn)) (\<lambda>g.
          Inr (t_af tn, t_hello_holdtime tn,
               set_flag F_HELLO_TARGETED
                 (if has_flag (t_flags tn) F_TNBR_CONFIGURED \<or> t_pw_count tn \<noteq> 0 then F_HELLO_REQ_TARG else 0),
               ag_edisc_socket g, t_addr tn))))"

definition hello_size :: "ldpe \<Rightarrow> af \<Rightarrow> nat" where
  "hello_size s af =
     LDP_HDR_SIZE + LDP_MSG_SIZE + HELLO_PRMS_SIZE +
     (if af = AF_INET then HELLO_PRMS_OPT4_SIZE else HELLO_PRMS_OPT16_SIZE) + HELLO_PRMS_OPT4_SIZE +
     (if ldp_is_dual_stack s then HELLO_PRMS_OPT4_SIZE else 0)"

definition send_hello :: "ldpe \<Rightarrow> hello_dst \<Rightarrow> ldpe res" where
  "send_hello s d =
     bindE (hello_dst_params s d) (\<lambda>(af, holdtime, flags, fd, dst).
     if af = AF_UNSPEC then Inl (Fatalx ''send_hello: unknown af'')
     else
       let n = hello_size s af;
           (cnt, hdr) = gen_msg_hdr (e_msgcnt s) MSG_TYPE_HELLO (n - LDP_HDR_SIZE);
           (buf, err) = ibuf_adds (ibuf_open n, False)
             (gen_ldp_hdr (e_rtr_id s) n @ hdr @ gen_hello_prms_tlv holdtime flags @
              (if af = AF_INET
               then gen_opt4_hello_prms_tlv TLV_TYPE_IPV4TRANSADDR (v4 (ac_trans_addr (e_ipv4 s)))
               else gen_opt16_hello_prms_tlv TLV_TYPE_IPV6TRANSADDR (ac_trans_addr (e_ipv6 s))) @
              gen_opt4_hello_prms_tlv TLV_TYPE_CONFIG (htonl (e_conf_seqnum s)) @
              (if ldp_is_dual_stack s then gen_ds_hello_prms_tlv s (ucast (e_trans_pref s)) else []));
           s1 = s\<lparr>e_msgcnt := cnt\<rparr>
       in Inr (if err then s1 else eout s1 (Out_hello fd af dst (ib_data buf))))"

section \<open>Decoding\<close>

text \<open>\<open>None\<close> is the C result \<open>-1\<close>.\<close>

definition tlv_decode_hello_prms :: "bytes \<Rightarrow> nat \<Rightarrow> (nat \<times> u16 \<times> u16) option res" where
  "tlv_decode_hello_prms bs len =
     (if len < HELLO_PRMS_SIZE then Inr None
      else bindE (rd16 bs 0) (\<lambda>t. bindE (rd16 bs 2) (\<lambda>l. bindE (rd16 bs 4) (\<lambda>h. bindE (rd16 bs 6) (\<lambda>f.
        if t \<noteq> htons TLV_TYPE_COMMONHELLO then Inr None
        else if unat (ntohs l) \<noteq> HELLO_PRMS_SIZE - TLV_HDR_SIZE then Inr None
        else Inr (Some (HELLO_PRMS_SIZE, ntohs h, ntohs f)))))))"

record hello_opts =
  ho_tlvs_rcvd :: u32
  ho_addr :: ldpd_addr
  ho_conf_number :: u32
  ho_trans_pref :: u16

text \<open>One optional parameter of a hello; \<open>bs\<close> points behind its header.\<close>

definition hello_opt ::
    "ldpe \<Rightarrow> af \<Rightarrow> u16 \<Rightarrow> nat \<Rightarrow> bytes \<Rightarrow> hello_opts \<Rightarrow> hello_opts option res" where
  "hello_opt s af type tlv_len bs ho =
     (if type = TLV_TYPE_IPV4TRANSADDR then
        if tlv_len \<noteq> 4 then Inr None
        else if af \<noteq> AF_INET then Inr None
        else if has_flag (ho_tlvs_rcvd ho) F_HELLO_TLV_RCVD_ADDR then Inr (Some ho)
        else bindE (rdn bs 0 4) (\<lambda>a.
          Inr (Some (ho\<lparr>ho_addr := a @ drop 4 (ho_addr ho),
            ho_tlvs_rcvd := set_flag (ho_tlvs_rcvd ho) F_HELLO_TLV_RCVD_ADDR\<rparr>)))
      else if type = TLV_TYPE_IPV6TRANSADDR then
        if tlv_len \<noteq> 16 then Inr None
        else if af \<noteq> AF_INET6 then Inr None
        else if has_flag (ho_tlvs_rcvd ho) F_HELLO_TLV_RCVD_ADDR then Inr (Some ho)
        else bindE (rdn bs 0 16) (\<lambda>a.
          Inr (Some (ho\<lparr>ho_addr := a, ho_tlvs_rcvd := set_flag (ho_tlvs_rcvd ho) F_HELLO_TLV_RCVD_ADDR\<rparr>)))
      else if type = TLV_TYPE_CONFIG then
        if tlv_len \<noteq> 4 then Inr None
        else bindE (rd32 bs 0) (\<lambda>c.
          Inr (Some (ho\<lparr>ho_conf_number := c,
            ho_tlvs_rcvd := set_flag (ho_tlvs_rcvd ho) F_HELLO_TLV_RCVD_CONF\<rparr>)))
      else if type = TLV_TYPE_DUALSTACK then
        if tlv_len \<noteq> 4 then Inr None
        else if \<not> ldp_is_dual_stack s then Inr (Some ho)
        else bindE (if has_flag (e_conf_flags s) F_LDPD_DS_CISCO_INTEROP
                    then bindE (rd16 bs 2) (\<lambda>w. Inr (ntohs w))
                    else bindE (rd16 bs 0) (\<lambda>w. Inr (drop_bit 12 (ntohs w)))) (\<lambda>pref.
          Inr (Some (ho\<lparr>ho_trans_pref := pref,
            ho_tlvs_rcvd := set_flag (ho_tlvs_rcvd ho) F_HELLO_TLV_RCVD_DS\<rparr>)))
      else if has_flag type UNKNOWN_FLAG then Inr (Some ho)
      else Inr None)"

function hello_opt_loop ::
    "ldpe \<Rightarrow> af \<Rightarrow> bytes \<Rightarrow> nat \<Rightarrow> nat \<Rightarrow> hello_opts \<Rightarrow> (nat \<times> hello_opts) option res" where
  "hello_opt_loop s af bs len tot ho =
     (if len < 4 then Inr (Some (tot, ho))
      else bindE (rd16 bs 0) (\<lambda>t. bindE (rd16 bs 2) (\<lambda>l.
        let tlv_len = unat (ntohs l) in
        if tlv_len + TLV_HDR_SIZE > len then Inr None
        else bindE (hello_opt s af (ntohs t) tlv_len (drop TLV_HDR_SIZE bs) ho) (\<lambda>r.
          case r of
            None \<Rightarrow> Inr None
          | Some ho1 \<Rightarrow> hello_opt_loop s af (drop (TLV_HDR_SIZE + tlv_len) bs) (len - TLV_HDR_SIZE - tlv_len)
                         (tot + TLV_HDR_SIZE + tlv_len) ho1))))"
  by pat_completeness auto
termination
  by (relation "measure (\<lambda>(s, af, bs, len, tot, ho). len)") auto

declare hello_opt_loop.simps [simp del]

definition tlv_decode_opt_hello_prms :: "ldpe \<Rightarrow> bytes \<Rightarrow> nat \<Rightarrow> af \<Rightarrow> (nat \<times> hello_opts) option res" where
  "tlv_decode_opt_hello_prms s bs len af =
     hello_opt_loop s af bs len 0
       \<lparr>ho_tlvs_rcvd = 0, ho_addr = replicate 16 0, ho_conf_number = 0, ho_trans_pref = 0\<rparr>"

end
