(* ===== verification/Ldpe_Nbr.thy ===== *)
theory Ldpe_Nbr
  imports Ldpe_Hello
begin

text \<open>
  Neighbours of the protocol engine (\<^verbatim>\<open>neighbor.c\<close>) and their TCP connections (\<^verbatim>\<open>packet.c\<close>,
  \<^verbatim>\<open>accept.c\<close>): the session state machine with its timers, the allocation of peer identifiers,
  connection set-up in both roles, pending connections, and the creation and removal of neighbours.

  \<^verbatim>\<open>nbr_fsm\<close> calls itself through the messages it sends. \<open>nbr_fsm_n\<close> bounds the depth of these
  calls; depth 2 is never exhausted, because the nested events are only \<^verbatim>\<open>INIT_SENT\<close> and \<^verbatim>\<open>PDU_SENT\<close>,
  whose actions raise no event.
\<close>

section \<open>Accepting connections\<close>

definition accept_add :: "accept_queue \<Rightarrow> int \<Rightarrow> accept_queue" where
  "accept_add q fd = q\<lparr>aq_queue := (fd, True) # aq_queue q\<rparr>"

fun remove_fd :: "int \<Rightarrow> (int \<times> bool) list \<Rightarrow> (int \<times> bool) list" where
  "remove_fd fd [] = []"
| "remove_fd fd (x # xs) = (if fst x = fd then xs else x # remove_fd fd xs)"

definition accept_del :: "accept_queue \<Rightarrow> int \<Rightarrow> accept_queue" where
  "accept_del q fd = q\<lparr>aq_queue := remove_fd fd (aq_queue q)\<rparr>"

definition accept_arm :: "accept_queue \<Rightarrow> accept_queue" where
  "accept_arm q = q\<lparr>aq_queue := map (\<lambda>(fd, _). (fd, True)) (aq_queue q)\<rparr>"

definition accept_unarm :: "accept_queue \<Rightarrow> accept_queue" where
  "accept_unarm q = q\<lparr>aq_queue := map (\<lambda>(fd, _). (fd, False)) (aq_queue q)\<rparr>"

definition accept_pause :: "accept_queue \<Rightarrow> accept_queue" where
  "accept_pause q = (accept_unarm q)\<lparr>aq_paused := True\<rparr>"

definition accept_unpause :: "accept_queue \<Rightarrow> accept_queue" where
  "accept_unpause q = (if aq_paused q then accept_arm (q\<lparr>aq_paused := False\<rparr>) else q)"

definition accept_timeout :: "accept_queue \<Rightarrow> accept_queue" where
  "accept_timeout q = accept_arm (q\<lparr>aq_paused := False\<rparr>)"

section \<open>Timers\<close>

definition nbr_start_ktimer :: "ldpe \<Rightarrow> u32 \<Rightarrow> ldpe" where
  "nbr_start_ktimer s p =
     upd_n s p (\<lambda>n. n\<lparr>n_keepalive_timer := Some (unat (n_keepalive n) div KEEPALIVE_PER_PERIOD)\<rparr>)"

definition nbr_stop_ktimer :: "ldpe \<Rightarrow> u32 \<Rightarrow> ldpe" where
  "nbr_stop_ktimer s p = upd_n s p (\<lambda>n. n\<lparr>n_keepalive_timer := None\<rparr>)"

definition nbr_ktimer :: "ldpe \<Rightarrow> u32 \<Rightarrow> ldpe res" where
  "nbr_ktimer s p = bindE (send_keepalive s p) (\<lambda>s1. Inr (nbr_start_ktimer s1 p))"

definition nbr_start_ktimeout :: "ldpe \<Rightarrow> u32 \<Rightarrow> ldpe" where
  "nbr_start_ktimeout s p = upd_n s p (\<lambda>n. n\<lparr>n_keepalive_timeout := Some (unat (n_keepalive n))\<rparr>)"

definition nbr_stop_ktimeout :: "ldpe \<Rightarrow> u32 \<Rightarrow> ldpe" where
  "nbr_stop_ktimeout s p = upd_n s p (\<lambda>n. n\<lparr>n_keepalive_timeout := None\<rparr>)"

definition nbr_start_itimeout :: "ldpe \<Rightarrow> u32 \<Rightarrow> ldpe" where
  "nbr_start_itimeout s p = upd_n s p (\<lambda>n. n\<lparr>n_init_timeout := Some INIT_FSM_TIMEOUT\<rparr>)"

definition nbr_stop_itimeout :: "ldpe \<Rightarrow> u32 \<Rightarrow> ldpe" where
  "nbr_stop_itimeout s p = upd_n s p (\<lambda>n. n\<lparr>n_init_timeout := None\<rparr>)"

text \<open>The delay before the next attempt to set up a session, and the new counter.\<close>

definition idtimer_delay :: "nat \<Rightarrow> nat \<times> nat" where
  "idtimer_delay cnt =
     (if cnt = 0 then (INIT_DELAY_TMR, 1)
      else if cnt = 1 then (INIT_DELAY_TMR * 2, 2)
      else if cnt = 2 then (INIT_DELAY_TMR * 2 * 2, 3)
      else (MAX_DELAY_TMR, cnt))"

definition nbr_start_idtimer :: "ldpe \<Rightarrow> u32 \<Rightarrow> ldpe" where
  "nbr_start_idtimer s p =
     upd_n s p (\<lambda>n. let (d, c) = idtimer_delay (n_idtimer_cnt n)
                    in n\<lparr>n_initdelay_timer := Some d, n_idtimer_cnt := c\<rparr>)"

definition nbr_stop_idtimer :: "ldpe \<Rightarrow> u32 \<Rightarrow> ldpe" where
  "nbr_stop_idtimer s p = upd_n s p (\<lambda>n. n\<lparr>n_initdelay_timer := None\<rparr>)"

definition nbr_pending_idtimer :: "nbr \<Rightarrow> bool" where
  "nbr_pending_idtimer n \<longleftrightarrow> n_initdelay_timer n \<noteq> None"

definition nbr_pending_connect :: "nbr \<Rightarrow> bool" where
  "nbr_pending_connect n \<longleftrightarrow> n_ev_connect n"

section \<open>Connections\<close>

definition tcp_new :: "ldpe \<Rightarrow> int \<Rightarrow> u32 \<Rightarrow> ldpe" where
  "tcp_new s fd p = upd_n s p (\<lambda>n. n\<lparr>n_tcp := Some \<lparr>tcp_fd = fd, tcp_rbuf = []\<rparr>\<rparr>)"

definition tcp_close :: "ldpe \<Rightarrow> u32 \<Rightarrow> ldpe res" where
  "tcp_close s p =
     bindE (get_nbr s p) (\<lambda>n. bindE (get_tcp n) (\<lambda>tcp.
     let s1 = eout (upd_n s p (\<lambda>n. n\<lparr>n_tcp := None\<rparr>)) (Out_close (tcp_fd tcp))
     in Inr (s1\<lparr>e_accept := accept_unpause (e_accept s1)\<rparr>)))"

definition session_close :: "ldpe \<Rightarrow> u32 \<Rightarrow> ldpe res" where
  "session_close s p =
     bindE (tcp_close s p) (\<lambda>s1.
     Inr (nbr_stop_itimeout (nbr_stop_ktimeout (nbr_stop_ktimer s1 p) p) p))"

section \<open>Peer identifiers\<close>

text \<open>
  \<^verbatim>\<open>while (nbr_find_peerid(++peercnt));\<close>. The tree cannot hold more identifiers in a row than it
  has elements, so one more step than that is enough.
\<close>

fun next_peerid :: "(u32, u32) rbt \<Rightarrow> nat \<Rightarrow> u32 \<Rightarrow> u32 res" where
  "next_peerid t 0 peercnt = Inl Diverges"
| "next_peerid t (Suc k) peercnt =
     (if rb_find t (peercnt + 1) = None then Inr (peercnt + 1) else next_peerid t k (peercnt + 1))"

definition nbr_update_peerid :: "ldpe \<Rightarrow> u32 \<Rightarrow> ldpe res" where
  "nbr_update_peerid s p =
     bindE (get_nbr s p) (\<lambda>n.
     let t = (if n_peerid n \<noteq> 0 then rb_remove (e_nbrs_by_pid s) (n_peerid n) else e_nbrs_by_pid s)
     in bindE (next_peerid t (Suc (length (rb_keys t))) (e_peercnt s)) (\<lambda>pid.
        let (t1, old) = rb_insert t pid p
        in if old \<noteq> None then Inl (Fatalx ''nbr_update_peerid: RB_INSERT(nbrs_by_pid) failed'')
           else Inr ((upd_n s p (\<lambda>n. n\<lparr>n_peerid := pid\<rparr>))\<lparr>e_peercnt := pid, e_nbrs_by_pid := t1\<rparr>)))"

section \<open>The state machine\<close>

abbreviation "NBR_STA_SESSION \<equiv> [NBR_STA_INITIAL, NBR_STA_OPENREC, NBR_STA_OPENSENT, NBR_STA_OPER]"

text \<open>\<open>None\<close> as the resulting state is \<open>0\<close>: the state does not change.\<close>

definition nbr_fsm_tbl :: "(nbr_state list \<times> nbr_event \<times> nbr_action \<times> nbr_state option) list" where
  "nbr_fsm_tbl =
    [([NBR_STA_PRESENT],  NBR_EVT_MATCH_ADJ,      NBR_ACT_NOTHING,        Some NBR_STA_INITIAL),
     ([NBR_STA_INITIAL],  NBR_EVT_INIT_RCVD,      NBR_ACT_PASSIVE_INIT,   Some NBR_STA_OPENREC),
     ([NBR_STA_OPENREC],  NBR_EVT_KEEPALIVE_RCVD, NBR_ACT_SESSION_EST,    Some NBR_STA_OPER),
     ([NBR_STA_PRESENT],  NBR_EVT_CONNECT_UP,     NBR_ACT_CONNECT_SETUP,  Some NBR_STA_INITIAL),
     ([NBR_STA_INITIAL],  NBR_EVT_INIT_SENT,      NBR_ACT_NOTHING,        Some NBR_STA_OPENSENT),
     ([NBR_STA_OPENSENT], NBR_EVT_INIT_RCVD,      NBR_ACT_KEEPALIVE_SEND, Some NBR_STA_OPENREC),
     ([NBR_STA_OPER],     NBR_EVT_PDU_RCVD,       NBR_ACT_RST_KTIMEOUT,   None),
     (NBR_STA_SESSION,    NBR_EVT_PDU_RCVD,       NBR_ACT_NOTHING,        None),
     ([NBR_STA_OPER],     NBR_EVT_PDU_SENT,       NBR_ACT_RST_KTIMER,     None),
     (NBR_STA_SESSION,    NBR_EVT_PDU_SENT,       NBR_ACT_NOTHING,        None),
     ([NBR_STA_PRESENT],  NBR_EVT_CLOSE_SESSION,  NBR_ACT_NOTHING,        None),
     (NBR_STA_SESSION,    NBR_EVT_CLOSE_SESSION,  NBR_ACT_CLOSE_SESSION,  Some NBR_STA_PRESENT)]"

definition nbr_fsm_lookup :: "nbr_state \<Rightarrow> nbr_event \<Rightarrow> (nbr_action \<times> nbr_state option) option" where
  "nbr_fsm_lookup st ev =
     map_option (snd \<circ> snd) (find (\<lambda>(sts, e, _). st \<in> set sts \<and> e = ev) nbr_fsm_tbl)"

definition nbr_act_session_operational :: "ldpe \<Rightarrow> u32 \<Rightarrow> ldpe res" where
  "nbr_act_session_operational s p =
     bindE (nbr_update_peerid (upd_n s p (\<lambda>n. n\<lparr>n_idtimer_cnt := 0\<rparr>)) p) (\<lambda>s1.
     bindE (get_nbr s1 p) (\<lambda>n.
     Inr (eout s1 (Out_lde (n_peerid n) (NEIGHBOR_UP (n_id n) (n_v4_enabled n) (n_v6_enabled n))))))"

definition nbr_send_labelmappings :: "ldpe \<Rightarrow> u32 \<Rightarrow> ldpe res" where
  "nbr_send_labelmappings s p =
     bindE (get_nbr s p) (\<lambda>n. Inr (eout s (Out_lde (n_peerid n) LABEL_MAPPING_FULL)))"

definition act_session_est :: "fsm \<Rightarrow> ldpe \<Rightarrow> u32 \<Rightarrow> ldpe res" where
  "act_session_est fsm s p =
     bindE (nbr_act_session_operational s p) (\<lambda>s1.
     let s2 = nbr_start_ktimeout (nbr_start_ktimer s1 p) p in
     bindE (get_nbr s2 p) (\<lambda>n.
     bindE (if n_v4_enabled n then send_address_all fsm s2 p AF_INET else Inr s2) (\<lambda>s3.
     bindE (if n_v6_enabled n then send_address_all fsm s3 p AF_INET6 else Inr s3) (\<lambda>s4.
     nbr_send_labelmappings s4 p))))"

definition nbr_fsm_action :: "fsm \<Rightarrow> ldpe \<Rightarrow> u32 \<Rightarrow> nbr_action \<Rightarrow> ldpe res" where
  "nbr_fsm_action fsm s p act =
     (case act of
        NBR_ACT_RST_KTIMEOUT \<Rightarrow> Inr (nbr_start_ktimeout s p)
      | NBR_ACT_RST_KTIMER \<Rightarrow> Inr (nbr_start_ktimer s p)
      | NBR_ACT_SESSION_EST \<Rightarrow> act_session_est fsm s p
      | NBR_ACT_CONNECT_SETUP \<Rightarrow>
          bindE (get_nbr s p) (\<lambda>n.
          bindE (send_init (tcp_new s (n_fd n) p) p) (\<lambda>s1. fsm s1 p NBR_EVT_INIT_SENT))
      | NBR_ACT_PASSIVE_INIT \<Rightarrow> bindE (send_init s p) (\<lambda>s1. send_keepalive s1 p)
      | NBR_ACT_KEEPALIVE_SEND \<Rightarrow> send_keepalive (nbr_start_ktimeout s p) p
      | NBR_ACT_CLOSE_SESSION \<Rightarrow>
          bindE (get_nbr s p) (\<lambda>n. session_close (eout s (Out_lde (n_peerid n) NEIGHBOR_DOWN)) p)
      | NBR_ACT_NOTHING \<Rightarrow> Inr s)"

fun nbr_fsm_n :: "nat \<Rightarrow> fsm" where
  "nbr_fsm_n 0 s p ev = Inl Diverges"
| "nbr_fsm_n (Suc k) s p ev =
     bindE (get_nbr s p) (\<lambda>n.
     case nbr_fsm_lookup (n_state n) ev of
       None \<Rightarrow> Inr s
     | Some (act, new_state) \<Rightarrow>
         let st = (case new_state of None \<Rightarrow> n_state n | Some x \<Rightarrow> x);
             s1 = upd_n s p (\<lambda>n. n\<lparr>n_state := st\<rparr>);
             s2 = (if st = NBR_STA_OPER \<or> st = NBR_STA_PRESENT then nbr_stop_itimeout s1 p
                   else nbr_start_itimeout s1 p)
         in nbr_fsm_action (nbr_fsm_n k) s2 p act)"

definition nbr_fsm :: fsm where
  "nbr_fsm = nbr_fsm_n 2"

definition session_shutdown :: "ldpe \<Rightarrow> u32 \<Rightarrow> u32 \<Rightarrow> u32 \<Rightarrow> u16 \<Rightarrow> ldpe res" where
  "session_shutdown s p status mid type =
     bindE (get_nbr s p) (\<lambda>n.
     if n_state n = NBR_STA_PRESENT then
       Inr (if nbr_pending_connect n then upd_n s p (\<lambda>n. n\<lparr>n_ev_connect := False\<rparr>) else s)
     else bindE (send_notification_nbr nbr_fsm s p status mid type) (\<lambda>s1.
       nbr_fsm s1 p NBR_EVT_CLOSE_SESSION))"

definition nbr_ktimeout :: "ldpe \<Rightarrow> u32 \<Rightarrow> ldpe res" where
  "nbr_ktimeout s p = session_shutdown s p S_KEEPALIVE_TMR 0 0"

definition nbr_itimeout :: "ldpe \<Rightarrow> u32 \<Rightarrow> ldpe res" where
  "nbr_itimeout s p = nbr_fsm s p NBR_EVT_CLOSE_SESSION"

end
