(* ===== verification/Ldpe_Conn.thy ===== *)
theory Ldpe_Conn
  imports Ldpe_Nbr
begin

text \<open>
  How sessions are set up and torn down around the state machine: TCP signatures (\<^verbatim>\<open>pfkey.c\<close>, above
  the key socket), the TTL security mechanism, connecting as the active role and accepting as the
  passive one (\<^verbatim>\<open>neighbor.c\<close>, \<^verbatim>\<open>packet.c\<close>), connections that arrive before the first hello, and the
  creation and removal of neighbours.
\<close>

section \<open>TCP signatures\<close>

definition upd_auth :: "ldpe \<Rightarrow> u32 \<Rightarrow> (nbr_auth \<Rightarrow> nbr_auth) \<Rightarrow> ldpe" where
  "upd_auth s p f = upd_n s p (\<lambda>n. n\<lparr>n_auth := f (n_auth n)\<rparr>)"

text \<open>The result \<open>False\<close> is the C result \<open>-1\<close>.\<close>

definition pfkey_md5sig_establish :: "sys \<Rightarrow> ldpe \<Rightarrow> u32 \<Rightarrow> (ldpe \<times> bool) res" where
  "pfkey_md5sig_establish y s p =
     bindE (get_nbr s p) (\<lambda>n.
     let sa_out = (if au_spi_out (n_auth n) = 0 then sys_sa_add y p True else Some (au_spi_out (n_auth n)));
         sa_in = (if au_spi_in (n_auth n) = 0 then sys_sa_add y p False else Some (au_spi_in (n_auth n)))
     in case sa_out of
          None \<Rightarrow> Inr (s, False)
        | Some spi_out \<Rightarrow>
            let s1 = upd_auth s p (\<lambda>a. a\<lparr>au_spi_out := spi_out\<rparr>)
            in case sa_in of
                 None \<Rightarrow> Inr (s1, False)
               | Some spi_in \<Rightarrow>
                   Inr (upd_auth s1 p (\<lambda>a. a\<lparr>au_spi_in := spi_in, au_established := True\<rparr>), True))"

definition pfkey_establish :: "sys \<Rightarrow> ldpe \<Rightarrow> u32 \<Rightarrow> nbr_params \<Rightarrow> (ldpe \<times> bool) res" where
  "pfkey_establish y s p np =
     (case np_auth_method np of
        AUTH_NONE \<Rightarrow> Inr (s, True)
      | AUTH_MD5SIG \<Rightarrow>
          pfkey_md5sig_establish y
            (upd_auth s p (\<lambda>a. a\<lparr>au_method := AUTH_MD5SIG, au_md5key := np_md5key np\<rparr>)) p)"

definition pfkey_md5sig_remove :: "sys \<Rightarrow> ldpe \<Rightarrow> u32 \<Rightarrow> (ldpe \<times> bool) res" where
  "pfkey_md5sig_remove y s p =
     bindE (get_nbr s p) (\<lambda>n.
     if au_spi_out (n_auth n) \<noteq> 0 \<and> \<not> sys_sa_remove y p True then Inr (s, False)
     else
       let s1 = upd_auth s p (\<lambda>a. a\<lparr>au_spi_out := 0\<rparr>)
       in if au_spi_in (n_auth n) \<noteq> 0 \<and> \<not> sys_sa_remove y p False then Inr (s1, False)
          else Inr (upd_auth s1 p (\<lambda>_. \<lparr>au_established = False, au_spi_in = 0, au_spi_out = 0,
                                        au_method = AUTH_NONE, au_md5key = []\<rparr>), True))"

definition pfkey_remove :: "sys \<Rightarrow> ldpe \<Rightarrow> u32 \<Rightarrow> (ldpe \<times> bool) res" where
  "pfkey_remove y s p =
     bindE (get_nbr s p) (\<lambda>n.
     if au_method (n_auth n) = AUTH_NONE \<or> \<not> au_established (n_auth n) then Inr (s, True)
     else pfkey_md5sig_remove y s p)"

section \<open>TTL security\<close>

definition nbr_gtsm_enabled :: "ldpe \<Rightarrow> nbr \<Rightarrow> nbr_params option \<Rightarrow> bool res" where
  "nbr_gtsm_enabled s n nbrp =
     (case nbrp of
        Some np \<Rightarrow>
          if has_flag (np_flags np) F_NBRP_GTSM then Inr (np_gtsm_enabled np)
          else bindE (ldp_af_conf_get s (n_af n)) (\<lambda>c.
            Inr (\<not> has_flag (ac_flags c) F_LDPD_AF_NO_GTSM \<and>
                 \<not> (n_af n = AF_INET \<and> \<not> has_flag (n_flags n) F_NBR_GTSM_NEGOTIATED)))
      | None \<Rightarrow>
          bindE (ldp_af_conf_get s (n_af n)) (\<lambda>c.
            Inr (\<not> has_flag (ac_flags c) F_LDPD_AF_NO_GTSM \<and>
                 \<not> (n_af n = AF_INET \<and> \<not> has_flag (n_flags n) F_NBR_GTSM_NEGOTIATED))))"

definition nbr_gtsm_setup :: "sys \<Rightarrow> ldpe \<Rightarrow> int \<Rightarrow> af \<Rightarrow> nbr_params option \<Rightarrow> (ldpe \<times> bool) res" where
  "nbr_gtsm_setup y s fd af nbrp =
     (let ttl = (case nbrp of
                   Some np \<Rightarrow> if has_flag (np_flags np) F_NBRP_GTSM_HOPS then 256 - uint (np_gtsm_hops np) else 255
                 | None \<Rightarrow> 255)
      in if af = AF_UNSPEC then Inl (Fatalx ''nbr_gtsm_setup: unknown af'')
         else
           let s1 = eout s (Out_minttl fd af ttl)
           in if \<not> sys_minttl y fd then Inr (s1, False)
              else Inr (eout s1 (Out_ucast_ttl fd af 255), sys_ucast_ttl y fd))"

definition nbr_gtsm_check :: "sys \<Rightarrow> ldpe \<Rightarrow> int \<Rightarrow> u32 \<Rightarrow> nbr_params option \<Rightarrow> (ldpe \<times> bool) res" where
  "nbr_gtsm_check y s fd p nbrp =
     bindE (get_nbr s p) (\<lambda>n. bindE (nbr_gtsm_enabled s n nbrp) (\<lambda>en.
     if en then nbr_gtsm_setup y s fd (n_af n) nbrp
     else
       case n_af n of
         AF_INET \<Rightarrow> Inr (eout s (Out_ucast_ttl fd AF_INET (-1)), True)
       | AF_INET6 \<Rightarrow> Inr (eout s (Out_ucast_ttl fd AF_INET6 255), True)
       | AF_UNSPEC \<Rightarrow> Inl (Fatalx ''nbr_gtsm_check: unknown af'')))"

section \<open>The active role\<close>

definition nbr_session_active_role :: "nbr \<Rightarrow> bool res" where
  "nbr_session_active_role n =
     bindE (ldp_addrcmp (n_af n) (n_laddr n) (n_raddr n)) (\<lambda>c. Inr (c > 0))"

definition hello_dst_of :: "hello_source \<Rightarrow> hello_dst" where
  "hello_dst_of src = (case src of HELLO_LINK i af _ \<Rightarrow> To_link i af | HELLO_TARGETED t \<Rightarrow> To_target t)"

definition wants_md5 :: "nbr_params option \<Rightarrow> bool" where
  "wants_md5 nbrp = (case nbrp of Some np \<Rightarrow> np_auth_method np = AUTH_MD5SIG | None \<Rightarrow> False)"

text \<open>
  The steps from \<^verbatim>\<open>bind\<close> on, with the new descriptor in \<^verbatim>\<open>nbr->fd\<close>. \<^verbatim>\<open>addr2sa\<close> builds the addresses
  that \<^verbatim>\<open>bind\<close> and \<^verbatim>\<open>connect\<close> get; it knows the families \<^verbatim>\<open>AF_INET\<close> and \<^verbatim>\<open>AF_INET6\<close> only.
\<close>

definition nbr_connect :: "sys \<Rightarrow> ldpe \<Rightarrow> u32 \<Rightarrow> int \<Rightarrow> nbr_params option \<Rightarrow> ldpe res" where
  "nbr_connect y s p fd nbrp =
     bindE (get_nbr s p) (\<lambda>n.
     if n_af n = AF_UNSPEC then Inl (Fatalx ''addr2sa: unknown af'')
     else if \<not> sys_bind y p then Inr (eout s (Out_close fd))
     else bindE (nbr_gtsm_check y s fd p nbrp) (\<lambda>(s1, ok).
       if \<not> ok then Inr (eout s1 (Out_close fd))
       else bindE (foldE (\<lambda>s a. bindE (get_adj s a) (\<lambda>adj. send_hello s (hello_dst_of (a_source adj))))
                     (n_adj_list n) s1) (\<lambda>s2.
         case sys_connect y p of
           Connected \<Rightarrow> nbr_fsm s2 p NBR_EVT_CONNECT_UP
         | In_progress \<Rightarrow> Inr (upd_n s2 p (\<lambda>n. n\<lparr>n_ev_connect := True\<rparr>))
         | Conn_error \<Rightarrow> Inr (eout s2 (Out_close fd)))))"

definition nbr_establish_connection :: "sys \<Rightarrow> ldpe \<Rightarrow> u32 \<Rightarrow> ldpe res" where
  "nbr_establish_connection y s p =
     bindE (get_nbr s p) (\<lambda>n.
     let fd = sys_socket y p;
         s1 = upd_n s p (\<lambda>n. n\<lparr>n_fd := fd\<rparr>);
         nbrp = nbr_params_find s (n_id n)
     in if fd = -1 then Inr s1
        else if wants_md5 nbrp \<and> (e_no_pfkey s \<or> e_no_md5sig s) then Inr (eout s1 (Out_close fd))
        else if wants_md5 nbrp \<and> \<not> sys_set_md5 y p then Inr (eout s1 (Out_close fd))
        else nbr_connect y s1 p fd nbrp)"

text \<open>\<^verbatim>\<open>nbr_connect_cb\<close>: \<^verbatim>\<open>getsockopt\<close> failed, reported an error, or reported success.\<close>

datatype connect_result = So_error_unknown | So_error_set | So_error_zero

definition nbr_connect_cb :: "connect_result \<Rightarrow> ldpe \<Rightarrow> u32 \<Rightarrow> ldpe res" where
  "nbr_connect_cb r s p =
     bindE (get_nbr s p) (\<lambda>n.
     let s1 = upd_n s p (\<lambda>n. n\<lparr>n_ev_connect := False\<rparr>)
     in case r of
          So_error_unknown \<Rightarrow> Inr s1
        | So_error_set \<Rightarrow> Inr (eout s1 (Out_close (n_fd n)))
        | So_error_zero \<Rightarrow> nbr_fsm s1 p NBR_EVT_CONNECT_UP)"

definition nbr_idtimer :: "sys \<Rightarrow> ldpe \<Rightarrow> u32 \<Rightarrow> ldpe res" where
  "nbr_idtimer y s p = nbr_establish_connection y (upd_n s p (\<lambda>n. n\<lparr>n_initdelay_timer := None\<rparr>)) p"

section \<open>The passive role\<close>

definition session_accept_nbr :: "sys \<Rightarrow> ldpe \<Rightarrow> u32 \<Rightarrow> int \<Rightarrow> ldpe res" where
  "session_accept_nbr y s p fd =
     bindE (get_nbr s p) (\<lambda>n.
     let nbrp = nbr_params_find s (n_id n)
     in bindE (nbr_gtsm_check y s fd p nbrp) (\<lambda>(s1, ok).
        if \<not> ok then Inr (eout s1 (Out_close fd))
        else if wants_md5 nbrp \<and> (e_no_pfkey s \<or> e_no_md5sig s) then Inr (eout s1 (Out_close fd))
        else if wants_md5 nbrp \<and> sys_get_md5 y fd = None then Inl (Fatalx ''getsockopt TCP_MD5SIG'')
        else if wants_md5 nbrp \<and> sys_get_md5 y fd = Some False then Inr (eout s1 (Out_close fd))
        else nbr_fsm (tcp_new s1 fd p) p NBR_EVT_MATCH_ADJ))"

definition pending_conn_new :: "ldpe \<Rightarrow> int \<Rightarrow> af \<Rightarrow> ldpd_addr \<Rightarrow> ldpe" where
  "pending_conn_new s fd af addr =
     s\<lparr>e_pending_conns := e_pending_conns s @ [\<lparr>pc_fd = fd, pc_af = af, pc_addr = addr\<rparr>]\<rparr>"

definition pending_conn_del :: "ldpe \<Rightarrow> pending_conn \<Rightarrow> ldpe" where
  "pending_conn_del s pconn = s\<lparr>e_pending_conns := remove1 pconn (e_pending_conns s)\<rparr>"

definition pending_conn_find :: "ldpe \<Rightarrow> af \<Rightarrow> ldpd_addr \<Rightarrow> pending_conn option res" where
  "pending_conn_find s af addr =
     findE (\<lambda>pc. if af = pc_af pc then bindE (ldp_addrcmp af addr (pc_addr pc)) (\<lambda>c. Inr (c = 0)) else Inr False)
       (e_pending_conns s)"

text \<open>The connection of \<^verbatim>\<open>tcp_new(fd, NULL)\<close> stays until \<^verbatim>\<open>session_write\<close> has sent what is queued.\<close>

definition pending_conn_timeout :: "ldpe \<Rightarrow> pending_conn \<Rightarrow> ldpe res" where
  "pending_conn_timeout s pconn =
     bindE (send_notification (s\<lparr>e_detached := pc_fd pconn # e_detached s\<rparr>) S_NO_HELLO (pc_fd pconn) 0 0) (\<lambda>s1.
     Inr (pending_conn_del s1 pconn))"

text \<open>The results of \<^verbatim>\<open>accept4\<close>: a descriptor and the peer, no descriptors left, or another error.\<close>

datatype accept_result = Accepted int af ldpd_addr | Out_of_fds | Accept_error

definition session_accept :: "sys \<Rightarrow> accept_result \<Rightarrow> ldpe \<Rightarrow> ldpe res" where
  "session_accept y r s =
     (case r of
        Out_of_fds \<Rightarrow> Inr (s\<lparr>e_accept := accept_pause (e_accept s)\<rparr>)
      | Accept_error \<Rightarrow> Inr s
      | Accepted newfd af addr \<Rightarrow>
          (case nbr_find_addr s af addr of
             None \<Rightarrow>
               bindE (pending_conn_find s af addr) (\<lambda>pc.
               Inr (if pc \<noteq> None then eout s (Out_close newfd) else pending_conn_new s newfd af addr))
           | Some p \<Rightarrow>
               bindE (get_nbr s p) (\<lambda>n. bindE (nbr_session_active_role n) (\<lambda>active.
               if active then Inr (eout s (Out_close newfd))
               else if n_state n \<noteq> NBR_STA_PRESENT then Inr (eout s (Out_close newfd))
               else session_accept_nbr y s p newfd))))"

section \<open>Writing\<close>

text \<open>
  \<^verbatim>\<open>session_write\<close> on the connection of a neighbour. When \<^verbatim>\<open>msgbuf_write\<close> fails, the state machine
  closes the session and frees the connection, which \<^verbatim>\<open>evbuf_event_add\<close> then uses.
\<close>

datatype write_result = Written | Write_again | Write_failed

definition session_write :: "write_result \<Rightarrow> ldpe \<Rightarrow> u32 \<Rightarrow> ldpe res" where
  "session_write r s p =
     (case r of
        Write_failed \<Rightarrow>
          bindE (nbr_fsm s p NBR_EVT_CLOSE_SESSION) (\<lambda>s1. bindE (get_nbr s1 p) (\<lambda>n.
          if n_tcp n = None then Inl UseAfterFree else Inr s1))
      | _ \<Rightarrow> Inr s)"

text \<open>On a connection without neighbour: \<open>queued\<close> says that something is left to send.\<close>

definition session_write_detached :: "bool \<Rightarrow> ldpe \<Rightarrow> int \<Rightarrow> ldpe" where
  "session_write_detached queued s fd =
     (if queued then s
      else let s1 = eout (s\<lparr>e_detached := remove1 fd (e_detached s)\<rparr>) (Out_close fd)
           in s1\<lparr>e_accept := accept_unpause (e_accept s1)\<rparr>)"

section \<open>Neighbours\<close>

definition new_nbr :: "in_addr \<Rightarrow> af \<Rightarrow> bool \<Rightarrow> ldpd_addr \<Rightarrow> u32 \<Rightarrow> ldpd_addr \<Rightarrow> nat list \<Rightarrow> nbr" where
  "new_nbr lsr_id af ds_tlv addr scope_id laddr adjs =
     \<lparr>n_tcp = None, n_adj_list = adjs, n_ev_connect = False, n_keepalive_timer = None,
      n_keepalive_timeout = None, n_init_timeout = None, n_initdelay_timer = None,
      n_mapping_list = [], n_withdraw_list = [], n_request_list = [], n_release_list = [],
      n_abortreq_list = [], n_peerid = 0, n_af = af, n_ds_tlv = ds_tlv,
      n_v4_enabled = (af = AF_INET \<or> ds_tlv), n_v6_enabled = (af = AF_INET6 \<or> ds_tlv),
      n_id = lsr_id, n_laddr = laddr, n_raddr = addr, n_raddr_scope = scope_id, n_fd = 0,
      n_state = NBR_STA_PRESENT, n_conf_seqnum = 0, n_idtimer_cnt = 0, n_keepalive = 0,
      n_max_pdu_len = 0,
      n_auth = \<lparr>au_established = False, au_spi_in = 0, au_spi_out = 0, au_method = AUTH_NONE, au_md5key = []\<rparr>,
      n_flags = 0\<rparr>"

text \<open>The adjacencies of the new neighbour, in the order in which they get into its list.\<close>

definition adjs_of :: "ldpe \<Rightarrow> in_addr \<Rightarrow> nat list" where
  "adjs_of s lsr_id =
     rev (filter (\<lambda>a. case e_adjs s a of Some adj \<Rightarrow> a_lsr_id adj = lsr_id | None \<Rightarrow> False) (e_adj_list s))"

definition upd_adj :: "ldpe \<Rightarrow> nat \<Rightarrow> (adj \<Rightarrow> adj) \<Rightarrow> ldpe" where
  "upd_adj s a f = s\<lparr>e_adjs := (e_adjs s)(a := map_option f (e_adjs s a))\<rparr>"

definition nbr_insert :: "ldpe \<Rightarrow> u32 \<Rightarrow> nbr \<Rightarrow> ldpe res" where
  "nbr_insert s p n =
     (let (t, old) = rb_insert (e_nbrs s) p n
      in if old \<noteq> None then Inl (Fatalx ''nbr_new: RB_INSERT(nbrs_by_id) failed'')
         else
           let (t1, old1) = rb_insert (e_nbrs_by_addr s) (addr_key (n_af n) (n_raddr n)) p
           in if old1 \<noteq> None then Inl (Fatalx ''nbr_new: RB_INSERT(nbrs_by_addr) failed'')
              else Inr (s\<lparr>e_nbrs := t, e_nbrs_by_addr := t1\<rparr>))"

definition nbr_new :: "sys \<Rightarrow> ldpe \<Rightarrow> in_addr \<Rightarrow> af \<Rightarrow> bool \<Rightarrow> ldpd_addr \<Rightarrow> u32 \<Rightarrow> (ldpe \<times> u32) res" where
  "nbr_new y s lsr_id af ds_tlv addr scope_id =
     bindE (ldp_af_conf_get s af) (\<lambda>c.
     let p = ntohl lsr_id;
         adjs = adjs_of s lsr_id;
         s1 = foldl (\<lambda>s a. upd_adj s a (\<lambda>adj. adj\<lparr>a_nbr := Some p\<rparr>)) s adjs
     in bindE (nbr_insert s1 p (new_nbr lsr_id af ds_tlv addr scope_id (ac_trans_addr c) adjs)) (\<lambda>s2.
        bindE (case nbr_params_find s2 lsr_id of
                 None \<Rightarrow> Inr (s2, True)
               | Some np \<Rightarrow> pfkey_establish y s2 p np) (\<lambda>(s3, ok).
        if \<not> ok then Inl (Fatalx ''pfkey setup failed'')
        else bindE (pending_conn_find s3 af addr) (\<lambda>pc.
          case pc of
            None \<Rightarrow> Inr (s3, p)
          | Some pconn \<Rightarrow>
              bindE (session_accept_nbr y s3 p (pc_fd pconn)) (\<lambda>s4. Inr (pending_conn_del s4 pconn, p))))))"

definition nbr_del :: "sys \<Rightarrow> ldpe \<Rightarrow> u32 \<Rightarrow> ldpe res" where
  "nbr_del y s p =
     bindE (nbr_fsm s p NBR_EVT_CLOSE_SESSION) (\<lambda>s1.
     bindE (pfkey_remove y s1 p) (\<lambda>(s2, _).
     bindE (get_nbr s2 p) (\<lambda>n.
     Inr (s2\<lparr>e_nbrs_by_pid := (if n_peerid n \<noteq> 0 then rb_remove (e_nbrs_by_pid s2) (n_peerid n)
                              else e_nbrs_by_pid s2),
             e_nbrs := rb_remove (e_nbrs s2) p,
             e_nbrs_by_addr := rb_remove (e_nbrs_by_addr s2) (addr_key (n_af n) (n_raddr n))\<rparr>))))"

text \<open>\<^verbatim>\<open>nbr_clear_ctl\<close>: the request names an address, or all neighbours when the address is not set.\<close>

definition nbr_clear_ctl :: "ldpe \<Rightarrow> af \<Rightarrow> ldpd_addr \<Rightarrow> ldpe res" where
  "nbr_clear_ctl s af raddr =
     foldE (\<lambda>s k.
       case rb_find (e_nbrs_by_addr s) k of
         None \<Rightarrow> Inr s
       | Some p \<Rightarrow>
           bindE (get_nbr s p) (\<lambda>n.
           bindE (if ldp_addrisset af raddr then ldp_addrcmp af raddr (n_raddr n) else Inr 0) (\<lambda>c.
           if c \<noteq> 0 then Inr s else session_shutdown s p S_SHUTDOWN 0 0)))
       (rb_keys (e_nbrs_by_addr s)) s"

end
