(* ===== verification/Ldpe_Read.thy ===== *)
theory Ldpe_Read
  imports Ldpe_Conn
begin

text \<open>
  What a session receives: the notification, initialization, keepalive and address messages
  (\<^verbatim>\<open>notification.c\<close>, \<^verbatim>\<open>init.c\<close>, \<^verbatim>\<open>keepalive.c\<close>, \<^verbatim>\<open>address.c\<close>), the cutting of the byte stream into PDUs and
  messages (\<^verbatim>\<open>session_read\<close> of \<^verbatim>\<open>packet.c\<close>), and the messages of the label decision engine that become
  PDUs (\<^verbatim>\<open>ldpe_dispatch_lde\<close> of \<^verbatim>\<open>ldpe.c\<close>).

  The decoders of \<open>Ldp_Wire\<close> and \<open>Ldp_LabelMsg\<close> list the actions on their neighbour; \<open>run_act\<close>
  performs them.
\<close>

section \<open>Performing the actions of a decoder\<close>

definition compose_lde :: "ldpe \<Rightarrow> u32 \<Rightarrow> ldpe_imsg \<Rightarrow> ldpe res" where
  "compose_lde s p imsg = bindE (get_nbr s p) (\<lambda>n. Inr (eout s (Out_lde (n_peerid n) imsg)))"

definition run_act :: "u32 \<Rightarrow> ldpe \<Rightarrow> ldpe_act \<Rightarrow> ldpe res" where
  "run_act p s act =
     (case act of
        Session_shutdown status mid type \<Rightarrow> session_shutdown s p status mid type
      | Send_notification_nbr status mid type \<Rightarrow> send_notification_nbr nbr_fsm s p status mid type
      | Compose_lde imsg \<Rightarrow> compose_lde s p imsg
      | Compose_none m \<Rightarrow> bindE (get_nbr s p) (\<lambda>n. Inr (eout s (Out_lde_none (n_peerid n) m))))"

definition run_dec :: "ldpe \<Rightarrow> u32 \<Rightarrow> 'a dec \<Rightarrow> (ldpe \<times> 'a option) res" where
  "run_dec s p d =
     bindE d (\<lambda>(acts, r). bindE (foldE (run_act p) acts s) (\<lambda>s1. Inr (s1, r)))"

section \<open>Notifications\<close>

text \<open>One optional parameter; \<open>bs\<close> points behind its header.\<close>

definition notif_opt :: "ldp_msg \<Rightarrow> u16 \<Rightarrow> nat \<Rightarrow> bytes \<Rightarrow> notify_msg \<Rightarrow> notify_msg dec" where
  "notif_opt msg type tlv_len bs nm =
     (if type = TLV_TYPE_EXTSTATUS \<or> type = TLV_TYPE_RETURNEDPDU \<or> type = TLV_TYPE_RETURNEDMSG
      then Inr ([], Some nm)
      else if type = TLV_TYPE_PW_STATUS then
        if tlv_len \<noteq> 4 then shutdown S_BAD_TLV_LEN msg
        else bindE (rd32 bs 0) (\<lambda>st.
          Inr ([], Some (nm\<lparr>nm_pw_status := ntohl st, nm_flags := set_flag (nm_flags nm) F_NOTIF_PW_STATUS\<rparr>)))
      else if type = TLV_TYPE_FEC then
        bindD (tlv_decode_fec_elm msg bs tlv_len (nm_fec nm)) (\<lambda>(tlen, m).
          if tlen \<noteq> tlv_len then shutdown S_BAD_TLV_VAL msg
          else Inr ([], Some (nm\<lparr>nm_fec := m, nm_flags := set_flag (nm_flags nm) F_NOTIF_FEC\<rparr>)))
      else Inr (if has_flag type UNKNOWN_FLAG then []
                else [Send_notification_nbr S_UNKNOWN_TLV (msg_id msg) (msg_type msg)], Some nm))"

function notif_opt_loop :: "ldp_msg \<Rightarrow> bytes \<Rightarrow> nat \<Rightarrow> notify_msg \<Rightarrow> notify_msg dec" where
  "notif_opt_loop msg bs len nm =
     (if len = 0 then Inr ([], Some nm)
      else if len < 4 then shutdown S_BAD_TLV_LEN msg
      else bindE (rd16 bs 0) (\<lambda>t. bindE (rd16 bs 2) (\<lambda>l.
        let tlv_len = unat (ntohs l) in
        if tlv_len + TLV_HDR_SIZE > len then shutdown S_BAD_TLV_LEN msg
        else bindD (notif_opt msg (ntohs t) tlv_len (drop TLV_HDR_SIZE bs) nm) (\<lambda>nm1.
          notif_opt_loop msg (drop (TLV_HDR_SIZE + tlv_len) bs) (len - TLV_HDR_SIZE - tlv_len) nm1))))"
  by pat_completeness auto
termination
  by (relation "measure (\<lambda>(msg, bs, len, nm). len)") auto

declare notif_opt_loop.simps [simp del]

definition notif_decode :: "bytes \<Rightarrow> nat \<Rightarrow> notify_msg dec" where
  "notif_decode bs0 len0 =
     bindE (rd_msg bs0) (\<lambda>msg.
     let bs = drop LDP_MSG_SIZE bs0; len = sub16 len0 LDP_MSG_SIZE in
     if len < STATUS_SIZE then shutdown S_BAD_MSG_LEN msg
     else bindE (rd16 bs 2) (\<lambda>l. bindE (rd32 bs 4) (\<lambda>st. bindE (rdn bs 0 STATUS_SIZE) (\<lambda>_.
       if unat (ntohs l) > STATUS_SIZE - TLV_HDR_SIZE \<or> unat (ntohs l) > len - TLV_HDR_SIZE
       then shutdown S_BAD_TLV_LEN msg
       else bindD (notif_opt_loop msg (drop STATUS_SIZE bs) (len - STATUS_SIZE)
                     (zero_notify_msg\<lparr>nm_status_code := ntohl st\<rparr>)) (\<lambda>nm.
         if nm_status_code nm = S_PW_STATUS \<and>
            \<not> has_flag (nm_flags nm) (set_flag F_NOTIF_PW_STATUS F_NOTIF_FEC)
         then notify S_MISS_MSG msg
         else if nm_status_code nm = S_PW_STATUS \<and> map_type (nm_fec nm) \<noteq> MAP_TYPE_PWID
         then notify S_BAD_TLV_VAL msg
         else Inr ([], Some nm))))))"

text \<open>The result \<open>False\<close> of a receiver is the C result \<open>-1\<close>.\<close>

definition recv_notification :: "ldpe \<Rightarrow> u32 \<Rightarrow> bytes \<Rightarrow> nat \<Rightarrow> (ldpe \<times> bool) res" where
  "recv_notification s p bs len =
     bindE (run_dec s p (notif_decode bs len)) (\<lambda>(s1, r).
     case r of
       None \<Rightarrow> Inr (s1, False)
     | Some nm \<Rightarrow>
         if has_flag (nm_status_code nm) STATUS_FATAL then
           bindE (get_nbr s1 p) (\<lambda>n.
           let s2 = (if n_state n = NBR_STA_OPENSENT then nbr_start_idtimer s1 p else s1)
           in bindE (nbr_fsm s2 p NBR_EVT_CLOSE_SESSION) (\<lambda>s3. Inr (s3, False)))
         else if nm_status_code nm = S_PW_STATUS then
           bindE (compose_lde s1 p (NOTIFICATION nm)) (\<lambda>s2. Inr (s2, True))
         else Inr (s1, True))"

section \<open>Initialization and keepalive\<close>

function init_opt_loop :: "ldp_msg \<Rightarrow> bytes \<Rightarrow> nat \<Rightarrow> unit dec" where
  "init_opt_loop msg bs len =
     (if len = 0 then Inr ([], Some ())
      else if len < 4 then shutdown S_BAD_TLV_LEN msg
      else bindE (rd16 bs 0) (\<lambda>t. bindE (rd16 bs 2) (\<lambda>l.
        let tlv_len = unat (ntohs l) in
        if tlv_len + TLV_HDR_SIZE > len then shutdown S_BAD_TLV_LEN msg
        else if ntohs t = TLV_TYPE_ATMSESSIONPAR \<or> ntohs t = TLV_TYPE_FRSESSION
        then shutdown S_BAD_TLV_VAL msg
        else bindD (Inr (if has_flag (ntohs t) UNKNOWN_FLAG then []
                         else [Send_notification_nbr S_UNKNOWN_TLV (msg_id msg) (msg_type msg)], Some ())) (\<lambda>_.
          init_opt_loop msg (drop (TLV_HDR_SIZE + tlv_len) bs) (len - TLV_HDR_SIZE - tlv_len)))))"
  by pat_completeness auto
termination
  by (relation "measure (\<lambda>(msg, bs, len). len)") auto

declare init_opt_loop.simps [simp del]

text \<open>The proposed keepalive time and maximum PDU length of an initialization message.\<close>

definition init_decode :: "in_addr \<Rightarrow> bytes \<Rightarrow> nat \<Rightarrow> (u16 \<times> u16) dec" where
  "init_decode rtr_id bs0 len0 =
     bindE (rd_msg bs0) (\<lambda>msg.
     let bs = drop LDP_MSG_SIZE bs0; len = sub16 len0 LDP_MSG_SIZE in
     if len < SESS_PRMS_SIZE then shutdown S_BAD_MSG_LEN msg
     else bindE (rd16 bs 2) (\<lambda>l. bindE (rd16 bs 4) (\<lambda>ver. bindE (rd16 bs 6) (\<lambda>keepalive.
       bindE (rd16 bs 10) (\<lambda>max_pdu. bindE (rd32 bs 12) (\<lambda>lsr_id. bindE (rd16 bs 16) (\<lambda>lspace.
       if unat (ntohs l) \<noteq> SESS_PRMS_LEN then shutdown S_BAD_TLV_LEN msg
       else if ntohs ver \<noteq> LDP_VERSION then shutdown S_BAD_PROTO_VER msg
       else if ntohs keepalive < MIN_KEEPALIVE then shutdown S_KEEPALIVE_BAD msg
       else if lsr_id \<noteq> rtr_id \<or> ntohs lspace \<noteq> 0 then shutdown S_NO_HELLO msg
       else bindD (init_opt_loop msg (drop SESS_PRMS_SIZE bs) (len - SESS_PRMS_SIZE)) (\<lambda>_.
         Inr ([], Some (ntohs keepalive, ntohs max_pdu))))))))))"

definition negotiate_pdu_len :: "u16 \<Rightarrow> u16" where
  "negotiate_pdu_len max_pdu_len =
     min (if max_pdu_len \<le> 255 then of_nat LDP_MAX_LEN else max_pdu_len) (of_nat LDP_MAX_LEN)"

definition recv_init :: "ldpe \<Rightarrow> u32 \<Rightarrow> bytes \<Rightarrow> nat \<Rightarrow> (ldpe \<times> bool) res" where
  "recv_init s p bs len =
     bindE (run_dec s p (init_decode (e_rtr_id s) bs len)) (\<lambda>(s1, r).
     case r of
       None \<Rightarrow> Inr (s1, False)
     | Some (keepalive, max_pdu_len) \<Rightarrow>
         bindE (get_nbr s1 p) (\<lambda>n.
         bindE (nbr_get_keepalive s1 (n_af n) (n_id n)) (\<lambda>ours.
         let s2 = upd_n s1 p (\<lambda>n. n\<lparr>n_keepalive := min ours keepalive,
                                    n_max_pdu_len := negotiate_pdu_len max_pdu_len\<rparr>)
         in bindE (nbr_fsm s2 p NBR_EVT_INIT_RCVD) (\<lambda>s3. Inr (s3, True)))))"

definition recv_keepalive :: "ldpe \<Rightarrow> u32 \<Rightarrow> bytes \<Rightarrow> nat \<Rightarrow> (ldpe \<times> bool) res" where
  "recv_keepalive s p bs len =
     bindE (run_dec s p (bindE (rd_msg bs) (\<lambda>msg.
       if len \<noteq> LDP_MSG_SIZE then shutdown S_BAD_MSG_LEN msg else Inr ([], Some ())))) (\<lambda>(s1, r).
     case r of
       None \<Rightarrow> Inr (s1, False)
     | Some _ \<Rightarrow>
         bindE (get_nbr s1 p) (\<lambda>n.
         bindE (if n_state n \<noteq> NBR_STA_OPER then nbr_fsm s1 p NBR_EVT_KEEPALIVE_RCVD else Inr s1) (\<lambda>s2.
         Inr (s2, True))))"

section \<open>Addresses\<close>

function addr_loop :: "ldp_msg \<Rightarrow> af \<Rightarrow> (lde_addr \<Rightarrow> ldpe_imsg) \<Rightarrow> bytes \<Rightarrow> nat \<Rightarrow> unit dec" where
  "addr_loop msg af imsg bs len =
     (if len = 0 then Inr ([], Some ())
      else let asize = (if af = AF_INET then 4 else 16) in
        if len < asize then shutdown S_BAD_TLV_LEN msg
        else bindE (rdn bs 0 asize) (\<lambda>a.
          bindD (Inr ([Compose_lde (imsg \<lparr>la_af = af, la_addr = a @ replicate (16 - asize) 0\<rparr>)], Some ())) (\<lambda>_.
          addr_loop msg af imsg (drop asize bs) (len - asize))))"
  by pat_completeness auto
termination
  by (relation "measure (\<lambda>(msg, af, imsg, bs, len). len)") (auto split: if_splits)

declare addr_loop.simps [simp del]

definition address_decode :: "bool \<Rightarrow> bool \<Rightarrow> bytes \<Rightarrow> nat \<Rightarrow> unit dec" where
  "address_decode v4_enabled v6_enabled bs0 len0 =
     bindE (rd_msg bs0) (\<lambda>msg.
     let bs = drop LDP_MSG_SIZE bs0; len = sub16 len0 LDP_MSG_SIZE in
     if len < ADDR_LIST_SIZE then shutdown S_BAD_MSG_LEN msg
     else bindE (rd16 bs 0) (\<lambda>t. bindE (rd16 bs 2) (\<lambda>l. bindE (rd16 bs 4) (\<lambda>family.
       if unat (ntohs l) \<noteq> len - TLV_HDR_SIZE then shutdown S_BAD_TLV_LEN msg
       else if ntohs t \<noteq> TLV_TYPE_ADDRLIST then shutdown S_UNKNOWN_TLV msg
       else if ntohs family \<noteq> 1 \<and> ntohs family \<noteq> 2 then notify S_UNSUP_ADDR msg
       else if ntohs family = 1 \<and> \<not> v4_enabled \<or> ntohs family = 2 \<and> \<not> v6_enabled then Inr ([], Some ())
       else addr_loop msg (if ntohs family = 1 then AF_INET else AF_INET6)
              (if ntohs (msg_type msg) = MSG_TYPE_ADDR then ADDRESS_ADD else ADDRESS_DEL)
              (drop ADDR_LIST_SIZE bs) (len - ADDR_LIST_SIZE)))))"

definition ret_of :: "ldpe \<times> 'a option \<Rightarrow> ldpe \<times> bool" where
  "ret_of r = (fst r, snd r \<noteq> None)"

definition recv_address :: "ldpe \<Rightarrow> u32 \<Rightarrow> bytes \<Rightarrow> nat \<Rightarrow> (ldpe \<times> bool) res" where
  "recv_address s p bs len =
     bindE (get_nbr s p) (\<lambda>n.
     bindE (run_dec s p (address_decode (n_v4_enabled n) (n_v6_enabled n) bs len)) (\<lambda>r. Inr (ret_of r)))"

definition recv_labelmessage_nbr :: "ldpe \<Rightarrow> u32 \<Rightarrow> bytes \<Rightarrow> nat \<Rightarrow> u16 \<Rightarrow> (ldpe \<times> bool) res" where
  "recv_labelmessage_nbr s p bs len type =
     bindE (get_nbr s p) (\<lambda>n.
     bindE (run_dec s p (recv_labelmessage (n_v4_enabled n) (n_v6_enabled n) bs len type)) (\<lambda>r.
     Inr (ret_of r)))"

section \<open>The byte stream\<close>

text \<open>
  \<open>session_get_pdu\<close> cuts the first PDU off the bytes read so far, or yields \<open>None\<close> for the C
  result \<open>0\<close>, when more bytes are needed.
\<close>

definition session_get_pdu :: "bytes \<Rightarrow> (bytes \<times> bytes) option res" where
  "session_get_pdu r =
     (if length r < LDP_HDR_SIZE then Inr None
      else bindE (rd16 r 2) (\<lambda>l.
        let dlen = unat (ntohs l) + LDP_HDR_DEAD_LEN in
        if dlen > length r then Inr None else Inr (Some (take dlen r, drop dlen r))))"

abbreviation label_msg_types :: "u16 list" where
  "label_msg_types \<equiv> [MSG_TYPE_LABELMAPPING, MSG_TYPE_LABELREQUEST, MSG_TYPE_LABELWITHDRAW,
     MSG_TYPE_LABELRELEASE, MSG_TYPE_LABELABORTREQ]"

text \<open>\<^verbatim>\<open>/* check for error conditions earlier */\<close>\<close>

definition unexpected :: "nbr_state \<Rightarrow> u16 \<Rightarrow> bool" where
  "unexpected st type \<longleftrightarrow>
     (if type = MSG_TYPE_INIT then st \<noteq> NBR_STA_INITIAL \<and> st \<noteq> NBR_STA_OPENSENT
      else if type = MSG_TYPE_KEEPALIVE then st = NBR_STA_INITIAL \<or> st = NBR_STA_OPENSENT
      else if type \<in> set ([MSG_TYPE_ADDR, MSG_TYPE_ADDRWITHDRAW] @ label_msg_types) then st \<noteq> NBR_STA_OPER
      else False)"

definition recv_msg :: "ldpe \<Rightarrow> u32 \<Rightarrow> bytes \<Rightarrow> nat \<Rightarrow> ldp_msg \<Rightarrow> (ldpe \<times> bool) res" where
  "recv_msg s p pdu msg_size msg =
     (let type = ntohs (msg_type msg) in
      if type = MSG_TYPE_NOTIFICATION then recv_notification s p pdu msg_size
      else if type = MSG_TYPE_INIT then recv_init s p pdu msg_size
      else if type = MSG_TYPE_KEEPALIVE then recv_keepalive s p pdu msg_size
      else if type = MSG_TYPE_ADDR \<or> type = MSG_TYPE_ADDRWITHDRAW then recv_address s p pdu msg_size
      else if type \<in> set label_msg_types then recv_labelmessage_nbr s p pdu msg_size type
      else bindE (if has_flag type UNKNOWN_FLAG then Inr s
                  else send_notification_nbr nbr_fsm s p S_UNKNOWN_MSG (msg_id msg) (msg_type msg))
             (\<lambda>s1. Inr (s1, True)))"

lemma minus_uint_less: "- uint (w :: u16) < 4"
  using uint_ge_0 [of w] by linarith

text \<open>
  The loop over the messages of a PDU. The result \<open>None\<close> in place of the remaining length says that
  \<^verbatim>\<open>session_read\<close> returned.
\<close>

function msg_loop :: "ldpe \<Rightarrow> u32 \<Rightarrow> bytes \<Rightarrow> int \<Rightarrow> nat \<Rightarrow> (ldpe \<times> int option) res" where
  "msg_loop s p pdu len pdu_len =
     (if len < int LDP_MSG_SIZE then Inr (s, Some len)
      else bindE (rd_msg pdu) (\<lambda>msg.
        let msg_len = unat (ntohs (msg_length msg));
            msg_size = msg_len + LDP_MSG_DEAD_LEN
        in if msg_len < LDP_MSG_LEN \<or> msg_size > pdu_len then
             bindE (session_shutdown s p S_BAD_TLV_LEN (msg_id msg) (msg_type msg)) (\<lambda>s1. Inr (s1, None))
           else bindE (get_nbr s p) (\<lambda>n.
             if unexpected (n_state n) (ntohs (msg_type msg)) then
               bindE (session_shutdown s p S_SHUTDOWN (msg_id msg) (msg_type msg)) (\<lambda>s1. Inr (s1, None))
             else bindE (recv_msg s p pdu msg_size msg) (\<lambda>(s1, ok).
               if \<not> ok then Inr (s1, None)
               else msg_loop s1 p (drop msg_size pdu) (len - int msg_size) (pdu_len - msg_size)))))"
  by pat_completeness auto
termination
  by (relation "measure (\<lambda>(s, p, pdu, len, pdu_len). nat len)") (auto simp: minus_uint_less)

declare msg_loop.simps [simp del]

text \<open>One PDU; the result says whether \<^verbatim>\<open>session_read\<close> goes on with the next one.\<close>

definition session_pdu :: "ldpe \<Rightarrow> u32 \<Rightarrow> bytes \<Rightarrow> (ldpe \<times> bool) res" where
  "session_pdu s p buf =
     (let stop = (\<lambda>status. bindE (session_shutdown s p status 0 0) (\<lambda>s1. Inr (s1, False))) in
      bindE (rd16 buf 0) (\<lambda>ver.
      if ntohs ver \<noteq> LDP_VERSION then stop S_BAD_PROTO_VER
      else bindE (rd16 buf 2) (\<lambda>l. bindE (get_nbr s p) (\<lambda>n.
        let pdu_len = unat (ntohs l);
            max_pdu_len = (if n_state n = NBR_STA_OPER then unat (n_max_pdu_len n) else LDP_MAX_LEN)
        in if pdu_len < LDP_HDR_PDU_LEN + LDP_MSG_SIZE \<or> pdu_len > max_pdu_len then stop S_BAD_PDU_LEN
           else bindE (rd32 buf 4) (\<lambda>lsr_id. bindE (rd16 buf 8) (\<lambda>lspace_id.
             if lsr_id \<noteq> n_id n \<or> lspace_id \<noteq> 0 then stop S_BAD_LDP_ID
             else bindE (nbr_fsm s p NBR_EVT_PDU_RCVD) (\<lambda>s1.
               bindE (msg_loop s1 p (drop LDP_HDR_SIZE buf) (int (length buf) - int LDP_HDR_SIZE)
                        (pdu_len - LDP_HDR_PDU_LEN)) (\<lambda>(s2, r).
               case r of
                 None \<Rightarrow> Inr (s2, False)
               | Some len \<Rightarrow>
                   if len \<noteq> 0 then bindE (session_shutdown s2 p S_BAD_PDU_LEN 0 0) (\<lambda>s3. Inr (s3, False))
                   else Inr (s2, True)))))))))"

definition set_rbuf :: "ldpe \<Rightarrow> u32 \<Rightarrow> bytes \<Rightarrow> ldpe" where
  "set_rbuf s p r = upd_n s p (\<lambda>n. n\<lparr>n_tcp := map_option (\<lambda>t. t\<lparr>tcp_rbuf := r\<rparr>) (n_tcp n)\<rparr>)"

text \<open>
  \<open>r\<close> is the contents of \<^verbatim>\<open>tcp->rbuf\<close>, which only \<^verbatim>\<open>session_read\<close> writes. A connection freed while
  one of its PDUs was handled must not be used for the next one.
\<close>

function pdu_loop :: "ldpe \<Rightarrow> u32 \<Rightarrow> bytes \<Rightarrow> ldpe res" where
  "pdu_loop s p r =
     bindE (session_get_pdu r) (\<lambda>x.
     case x of
       None \<Rightarrow> Inr (set_rbuf s p r)
     | Some (buf, rest) \<Rightarrow>
         bindE (session_pdu (set_rbuf s p rest) p buf) (\<lambda>(s1, continue).
         if \<not> continue then Inr s1
         else bindE (get_nbr s1 p) (\<lambda>n. if n_tcp n = None then Inl UseAfterFree else pdu_loop s1 p rest)))"
  by pat_completeness auto
termination
  by (relation "measure (\<lambda>(s, p, r). length r)")
    (auto simp: session_get_pdu_def bindE_Inr_iff Let_def split: if_splits)

declare pdu_loop.simps [simp del]

text \<open>The results of \<^verbatim>\<open>read\<close>: the bytes (none when the peer closed), an error to retry, another error.\<close>

datatype read_result = Read_bytes bytes | Read_again | Read_error

definition session_read :: "read_result \<Rightarrow> ldpe \<Rightarrow> u32 \<Rightarrow> ldpe res" where
  "session_read r s p =
     bindE (get_nbr s p) (\<lambda>n. bindE (get_tcp n) (\<lambda>tcp.
     case r of
       Read_again \<Rightarrow> Inr s
     | Read_error \<Rightarrow> nbr_fsm s p NBR_EVT_CLOSE_SESSION
     | Read_bytes bs \<Rightarrow>
         if bs = [] then nbr_fsm s p NBR_EVT_CLOSE_SESSION else pdu_loop s p (tcp_rbuf tcp @ bs)))"

section \<open>Messages of the label decision engine\<close>

definition with_oper :: "ldpe \<Rightarrow> u32 \<Rightarrow> (u32 \<Rightarrow> nbr \<Rightarrow> ldpe res) \<Rightarrow> ldpe res" where
  "with_oper s peerid f =
     (case nbr_find_peerid s peerid of
        None \<Rightarrow> Inr s
      | Some p \<Rightarrow> bindE (get_nbr s p) (\<lambda>n. if n_state n \<noteq> NBR_STA_OPER then Inr s else f p n))"

text \<open>
  The label decision engine has no sender for \<^verbatim>\<open>IMSG_REQUEST_ADD\<close> and \<^verbatim>\<open>IMSG_REQUEST_ADD_END\<close>; the
  messages for the parent and the control socket do not come here or are relayed.
\<close>

definition ldpe_dispatch_lde :: "ldpe \<Rightarrow> lde_imsg \<Rightarrow> ldpe res" where
  "ldpe_dispatch_lde s imsg =
     (case imsg of
        IMSG_MAPPING_ADD peerid m \<Rightarrow>
          with_oper s peerid (\<lambda>p _. Inr (upd_n s p (\<lambda>n. n\<lparr>n_mapping_list := n_mapping_list n @ [m]\<rparr>)))
      | IMSG_RELEASE_ADD peerid m \<Rightarrow>
          with_oper s peerid (\<lambda>p _. Inr (upd_n s p (\<lambda>n. n\<lparr>n_release_list := n_release_list n @ [m]\<rparr>)))
      | IMSG_WITHDRAW_ADD peerid m \<Rightarrow>
          with_oper s peerid (\<lambda>p _. Inr (upd_n s p (\<lambda>n. n\<lparr>n_withdraw_list := n_withdraw_list n @ [m]\<rparr>)))
      | IMSG_MAPPING_ADD_END peerid \<Rightarrow>
          with_oper s peerid (\<lambda>p n. send_labelmessage_nbr nbr_fsm
            (upd_n s p (\<lambda>n. n\<lparr>n_mapping_list := []\<rparr>)) p MSG_TYPE_LABELMAPPING (n_mapping_list n))
      | IMSG_RELEASE_ADD_END peerid \<Rightarrow>
          with_oper s peerid (\<lambda>p n. send_labelmessage_nbr nbr_fsm
            (upd_n s p (\<lambda>n. n\<lparr>n_release_list := []\<rparr>)) p MSG_TYPE_LABELRELEASE (n_release_list n))
      | IMSG_WITHDRAW_ADD_END peerid \<Rightarrow>
          with_oper s peerid (\<lambda>p n. send_labelmessage_nbr nbr_fsm
            (upd_n s p (\<lambda>n. n\<lparr>n_withdraw_list := []\<rparr>)) p MSG_TYPE_LABELWITHDRAW (n_withdraw_list n))
      | IMSG_NOTIFICATION_SEND peerid nm \<Rightarrow>
          with_oper s peerid (\<lambda>p n. bindE (get_tcp n) (\<lambda>tcp. send_notification_full s (tcp_fd tcp) nm))
      | _ \<Rightarrow> Inr s)"

end
