(* ===== verification/Ldpe_Disc.thy ===== *)
theory Ldpe_Disc
  imports Ldpe_Read
begin

text \<open>
  Discovery: hello adjacencies and targeted neighbours (\<^verbatim>\<open>adjacency.c\<close>), interfaces and their addresses
  (\<^verbatim>\<open>interface.c\<close>), received hellos (\<^verbatim>\<open>recv_hello\<close> of \<^verbatim>\<open>hello.c\<close>, \<^verbatim>\<open>disc_recv_packet\<close> of \<^verbatim>\<open>packet.c\<close>), and the
  messages of the parent that open and close sockets or change interfaces (\<^verbatim>\<open>ldpe.c\<close>).
\<close>

definition F_IFF_UP :: u16 where [const_defs]: "F_IFF_UP = 0x0001"
definition F_IFF_BROADCAST :: u16 where [const_defs]: "F_IFF_BROADCAST = 0x0002"
definition F_IFF_POINTOPOINT :: u16 where [const_defs]: "F_IFF_POINTOPOINT = 0x0010"
definition F_IFF_MULTICAST :: u16 where [const_defs]: "F_IFF_MULTICAST = 0x8000"
definition DUAL_STACK_LDPOV4 :: u16 where [const_defs]: "DUAL_STACK_LDPOV4 = 4"
definition DUAL_STACK_LDPOV6 :: u16 where [const_defs]: "DUAL_STACK_LDPOV6 = 6"

text \<open>\<^verbatim>\<open>LINK_STATE_UP\<close> is 4 and \<^verbatim>\<open>LINK_STATE_UNKNOWN\<close> 0.\<close>

definition LINK_STATE_IS_UP :: "u8 \<Rightarrow> bool" where
  "LINK_STATE_IS_UP st \<longleftrightarrow> st \<ge> 4 \<or> st = 0"

section \<open>Stores\<close>

text \<open>A newly allocated object gets a number that no object of the list has.\<close>

definition fresh_id :: "nat list \<Rightarrow> nat" where
  "fresh_id xs = Suc (foldr max xs 0)"

definition upd_if :: "ldpe \<Rightarrow> nat \<Rightarrow> (iface \<Rightarrow> iface) \<Rightarrow> ldpe" where
  "upd_if s i f = s\<lparr>e_ifaces := (e_ifaces s)(i := map_option f (e_ifaces s i))\<rparr>"

definition upd_ia :: "ldpe \<Rightarrow> nat \<Rightarrow> af \<Rightarrow> (iface_af \<Rightarrow> iface_af) \<Rightarrow> ldpe" where
  "upd_ia s i af f =
     upd_if s i (\<lambda>ifc. if af = AF_INET then ifc\<lparr>if_ipv4 := f (if_ipv4 ifc)\<rparr>
                       else ifc\<lparr>if_ipv6 := f (if_ipv6 ifc)\<rparr>)"

definition upd_t :: "ldpe \<Rightarrow> nat \<Rightarrow> (tnbr \<Rightarrow> tnbr) \<Rightarrow> ldpe" where
  "upd_t s t f = s\<lparr>e_tnbrs := (e_tnbrs s)(t := map_option f (e_tnbrs s t))\<rparr>"

definition get_ia :: "ldpe \<Rightarrow> nat \<Rightarrow> af \<Rightarrow> iface_af res" where
  "get_ia s i af = bindE (get_iface s i) (\<lambda>ifc. iface_af_get ifc af)"

section \<open>Adjacencies\<close>

definition adj_new :: "ldpe \<Rightarrow> in_addr \<Rightarrow> hello_source \<Rightarrow> ldpd_addr \<Rightarrow> (ldpe \<times> nat) res" where
  "adj_new s lsr_id source addr =
     (let a = fresh_id (e_adj_list s);
          s1 = s\<lparr>e_adj_list := a # e_adj_list s,
                 e_adjs := (e_adjs s)(a \<mapsto> \<lparr>a_lsr_id = lsr_id, a_nbr = None, a_ds_tlv = False, a_source = source,
                   a_inactivity_timer = None, a_holdtime = 0, a_trans_addr = addr\<rparr>)\<rparr>
      in case source of
           HELLO_LINK i af _ \<Rightarrow>
             bindE (get_ia s1 i af) (\<lambda>_.
             Inr (upd_ia s1 i af (\<lambda>ia. ia\<lparr>ia_adj_list := a # ia_adj_list ia\<rparr>), a))
         | HELLO_TARGETED t \<Rightarrow>
             bindE (get_tnbr s1 t) (\<lambda>_. Inr (upd_t s1 t (\<lambda>tn. tn\<lparr>t_adj := Some a\<rparr>), a)))"

definition adj_get_af :: "ldpe \<Rightarrow> adj \<Rightarrow> af res" where
  "adj_get_af s adj =
     (case a_source adj of
        HELLO_LINK i af _ \<Rightarrow> Inr af
      | HELLO_TARGETED t \<Rightarrow> bindE (get_tnbr s t) (\<lambda>tn. Inr (t_af tn)))"

definition adj_del_single :: "ldpe \<Rightarrow> nat \<Rightarrow> ldpe res" where
  "adj_del_single s a =
     bindE (get_adj s a) (\<lambda>adj.
     let s1 = s\<lparr>e_adj_list := remove1 a (e_adj_list s), e_adjs := (e_adjs s)(a := None)\<rparr>
     in bindE (case a_nbr adj of
                 None \<Rightarrow> Inr s1
               | Some p \<Rightarrow>
                   bindE (get_nbr s1 p) (\<lambda>_. Inr (upd_n s1 p (\<lambda>n. n\<lparr>n_adj_list := remove1 a (n_adj_list n)\<rparr>)))) (\<lambda>s2.
        case a_source adj of
          HELLO_LINK i af _ \<Rightarrow>
            bindE (get_ia s2 i af) (\<lambda>_. Inr (upd_ia s2 i af (\<lambda>ia. ia\<lparr>ia_adj_list := remove1 a (ia_adj_list ia)\<rparr>)))
        | HELLO_TARGETED t \<Rightarrow>
            bindE (get_tnbr s2 t) (\<lambda>_. Inr (upd_t s2 t (\<lambda>tn. tn\<lparr>t_adj := None\<rparr>)))))"

definition nbr_adj_count :: "ldpe \<Rightarrow> nbr \<Rightarrow> af \<Rightarrow> nat res" where
  "nbr_adj_count s n af =
     foldE (\<lambda>c a. bindE (get_adj s a) (\<lambda>adj. bindE (adj_get_af s adj) (\<lambda>x. Inr (if x = af then Suc c else c))))
       (n_adj_list n) 0"

definition adj_del :: "sys \<Rightarrow> ldpe \<Rightarrow> nat \<Rightarrow> u32 \<Rightarrow> ldpe res" where
  "adj_del y s a notif_status =
     bindE (get_adj s a) (\<lambda>adj. bindE (adj_del_single s a) (\<lambda>s1.
     case a_nbr adj of
       None \<Rightarrow> Inr s1
     | Some p \<Rightarrow>
         bindE (get_nbr s1 p) (\<lambda>n. bindE (nbr_adj_count s1 n (n_af n)) (\<lambda>c.
         if c \<noteq> 0 then Inr s1
         else bindE (foldE adj_del_single (n_adj_list n) s1) (\<lambda>s2.
           bindE (session_shutdown s2 p notif_status 0 0) (\<lambda>s3. nbr_del y s3 p))))))"

definition adj_find :: "ldpe \<Rightarrow> hello_source \<Rightarrow> nat option res" where
  "adj_find s source =
     findE (\<lambda>a. bindE (get_adj s a) (\<lambda>adj.
       case (source, a_source adj) of
         (HELLO_LINK _ af src, HELLO_LINK _ _ asrc) \<Rightarrow> bindE (ldp_addrcmp af asrc src) (\<lambda>c. Inr (c = 0))
       | (HELLO_TARGETED t, HELLO_TARGETED t') \<Rightarrow> Inr (t' = t)
       | _ \<Rightarrow> Inr False)) (e_adj_list s)"

definition adj_start_itimer :: "ldpe \<Rightarrow> nat \<Rightarrow> ldpe" where
  "adj_start_itimer s a = upd_adj s a (\<lambda>adj. adj\<lparr>a_inactivity_timer := Some (unat (a_holdtime adj))\<rparr>)"

definition adj_stop_itimer :: "ldpe \<Rightarrow> nat \<Rightarrow> ldpe" where
  "adj_stop_itimer s a = upd_adj s a (\<lambda>adj. adj\<lparr>a_inactivity_timer := None\<rparr>)"

section \<open>Targeted neighbours\<close>

definition tnbr_new :: "ldpe \<Rightarrow> af \<Rightarrow> ldpd_addr \<Rightarrow> tnbr res" where
  "tnbr_new s af addr =
     bindE (ldp_af_conf_get s af) (\<lambda>c.
     Inr \<lparr>t_hello_timer = None, t_adj = None, t_af = af, t_addr = addr, t_active = False,
          t_hello_holdtime = ac_thello_holdtime c, t_hello_interval = ac_thello_interval c,
          t_pw_count = 0, t_flags = 0\<rparr>)"

definition tnbr_stop_hello_timer :: "ldpe \<Rightarrow> nat \<Rightarrow> ldpe" where
  "tnbr_stop_hello_timer s t = upd_t s t (\<lambda>tn. tn\<lparr>t_hello_timer := None\<rparr>)"

definition tnbr_start_hello_timer :: "ldpe \<Rightarrow> nat \<Rightarrow> ldpe" where
  "tnbr_start_hello_timer s t = upd_t s t (\<lambda>tn. tn\<lparr>t_hello_timer := Some (unat (t_hello_interval tn))\<rparr>)"

definition tnbr_del :: "sys \<Rightarrow> ldpe \<Rightarrow> nat \<Rightarrow> ldpe res" where
  "tnbr_del y s t =
     bindE (get_tnbr s t) (\<lambda>tn.
     bindE (case t_adj tn of
              None \<Rightarrow> Inr (tnbr_stop_hello_timer s t)
            | Some a \<Rightarrow> adj_del y (tnbr_stop_hello_timer s t) a S_SHUTDOWN) (\<lambda>s1.
     Inr (s1\<lparr>e_tnbr_list := remove1 t (e_tnbr_list s1), e_tnbrs := (e_tnbrs s1)(t := None)\<rparr>)))"

definition tnbr_find :: "ldpe \<Rightarrow> af \<Rightarrow> ldpd_addr \<Rightarrow> nat option res" where
  "tnbr_find s af addr =
     findE (\<lambda>t. bindE (get_tnbr s t) (\<lambda>tn.
       if af = t_af tn then bindE (ldp_addrcmp af addr (t_addr tn)) (\<lambda>c. Inr (c = 0)) else Inr False))
       (e_tnbr_list s)"

text \<open>The result is whether the targeted neighbour is still there.\<close>

definition tnbr_check :: "sys \<Rightarrow> ldpe \<Rightarrow> nat \<Rightarrow> (ldpe \<times> bool) res" where
  "tnbr_check y s t =
     bindE (get_tnbr s t) (\<lambda>tn.
     if \<not> has_flag (t_flags tn) (set_flag F_TNBR_CONFIGURED F_TNBR_DYNAMIC) \<and> t_pw_count tn = 0
     then bindE (tnbr_del y s t) (\<lambda>s1. Inr (s1, False))
     else Inr (s, True))"

definition tnbr_update :: "ldpe \<Rightarrow> nat \<Rightarrow> ldpe res" where
  "tnbr_update s t =
     bindE (get_tnbr s t) (\<lambda>tn. bindE (ldp_af_global_get s (t_af tn)) (\<lambda>g.
     let ok = (ag_edisc_socket g \<noteq> -1 \<and> e_rtr_id s \<noteq> 0)
     in if \<not> t_active tn then
          if \<not> ok then Inr s
          else bindE (send_hello (upd_t s t (\<lambda>tn. tn\<lparr>t_active := True\<rparr>)) (To_target t)) (\<lambda>s1.
            Inr (tnbr_start_hello_timer s1 t))
        else if ok then Inr s
        else Inr (tnbr_stop_hello_timer (upd_t s t (\<lambda>tn. tn\<lparr>t_active := False\<rparr>)) t)))"

definition tnbr_update_all :: "ldpe \<Rightarrow> af \<Rightarrow> ldpe res" where
  "tnbr_update_all s af =
     foldE (\<lambda>s t. bindE (get_tnbr s t) (\<lambda>tn.
       if t_af tn = af \<or> af = AF_UNSPEC then tnbr_update s t else Inr s)) (e_tnbr_list s) s"

definition tnbr_hello_timer :: "ldpe \<Rightarrow> nat \<Rightarrow> ldpe res" where
  "tnbr_hello_timer s t = bindE (send_hello s (To_target t)) (\<lambda>s1. Inr (tnbr_start_hello_timer s1 t))"

definition adj_itimer :: "sys \<Rightarrow> ldpe \<Rightarrow> nat \<Rightarrow> ldpe res" where
  "adj_itimer y s0 a =
     (let s = adj_stop_itimer s0 a in
      bindE (get_adj s a) (\<lambda>adj.
      case a_source adj of
        HELLO_LINK _ _ _ \<Rightarrow> adj_del y s a S_HOLDTIME_EXP
      | HELLO_TARGETED t \<Rightarrow>
          bindE (get_tnbr s t) (\<lambda>tn.
          if \<not> has_flag (t_flags tn) F_TNBR_CONFIGURED \<and> t_pw_count tn = 0 then tnbr_del y s t
          else adj_del y (upd_t s t (\<lambda>tn. tn\<lparr>t_adj := None\<rparr>)) a S_HOLDTIME_EXP)))"

end
