(* ===== verification/Ldpe_Iface.thy ===== *)
theory Ldpe_Iface
  imports Ldpe_Disc
begin

text \<open>
  Interfaces and their addresses (\<^verbatim>\<open>interface.c\<close>), received hellos (\<^verbatim>\<open>hello.c\<close>, \<^verbatim>\<open>packet.c\<close>), and the
  messages of the parent about interfaces, addresses and sockets (\<^verbatim>\<open>ldpe.c\<close>).
\<close>

section \<open>Interfaces\<close>

record kif =
  kif_ifname :: string
  kif_ifindex :: u16
  kif_flags :: u32
  kif_link_state :: u8
  kif_if_type :: u8

record kaddr =
  ka_ifindex :: u16
  ka_af :: af
  ka_addr :: ldpd_addr
  ka_prefixlen :: u8
  ka_dstbrd :: ldpd_addr

definition new_iface_af :: iface_af where
  "new_iface_af = \<lparr>ia_enabled = False, ia_active = False, ia_adj_list = [], ia_hello_timer = None,
     ia_hello_holdtime = 0, ia_hello_interval = 0\<rparr>"

definition if_new :: "kif \<Rightarrow> iface" where
  "if_new kif =
     (let fl = ucast (kif_flags kif) :: u16 in
      \<lparr>if_name = kif_ifname kif, if_ifindex = ucast (kif_ifindex kif), if_addr_list = [],
       if_linklocal = replicate 16 0,
       if_kind = (if has_flag fl F_IFF_BROADCAST \<and> has_flag fl F_IFF_MULTICAST then IF_TYPE_BROADCAST
                  else IF_TYPE_POINTOPOINT),
       if_if_type = kif_if_type kif, if_flags = fl, if_linkstate = kif_link_state kif,
       if_ipv4 = new_iface_af, if_ipv6 = new_iface_af\<rparr>)"

text \<open>The index is an \<^verbatim>\<open>unsigned short\<close>, that of an interface an \<^verbatim>\<open>unsigned int\<close>.\<close>

definition if_lookup :: "ldpe \<Rightarrow> u16 \<Rightarrow> nat option res" where
  "if_lookup s ifindex =
     findE (\<lambda>i. bindE (get_iface s i) (\<lambda>ifc. Inr (if_ifindex ifc = ucast ifindex))) (e_iface_list s)"

definition if_start_hello_timer :: "ldpe \<Rightarrow> nat \<Rightarrow> af \<Rightarrow> ldpe" where
  "if_start_hello_timer s i af =
     upd_ia s i af (\<lambda>ia. ia\<lparr>ia_hello_timer := Some (unat (ia_hello_interval ia))\<rparr>)"

definition if_stop_hello_timer :: "ldpe \<Rightarrow> nat \<Rightarrow> af \<Rightarrow> ldpe" where
  "if_stop_hello_timer s i af = upd_ia s i af (\<lambda>ia. ia\<lparr>ia_hello_timer := None\<rparr>)"

definition if_hello_timer :: "ldpe \<Rightarrow> nat \<Rightarrow> af \<Rightarrow> ldpe res" where
  "if_hello_timer s i af = bindE (send_hello s (To_link i af)) (\<lambda>s1. Inr (if_start_hello_timer s1 i af))"

definition if_start :: "sys \<Rightarrow> ldpe \<Rightarrow> nat \<Rightarrow> af \<Rightarrow> ldpe res" where
  "if_start y s i af =
     bindE (get_ia s i af) (\<lambda>_.
     let s1 = eout s (Out_join i af)
     in if \<not> sys_join y i af then Inr s1
        else bindE (send_hello s1 (To_link i af)) (\<lambda>s2. Inr (if_start_hello_timer s2 i af)))"

text \<open>
  \<^verbatim>\<open>while ((adj = LIST_FIRST(&ia->adj_list)) != NULL) adj_del(adj, S_SHUTDOWN);\<close>. Each call takes at
  least the first adjacency out of the list, so the length of the list is fuel enough.
\<close>

fun if_reset_adjs :: "nat \<Rightarrow> sys \<Rightarrow> ldpe \<Rightarrow> nat \<Rightarrow> af \<Rightarrow> ldpe res" where
  "if_reset_adjs k y s i af =
     bindE (get_ia s i af) (\<lambda>ia.
     case ia_adj_list ia of
       [] \<Rightarrow> Inr s
     | a # _ \<Rightarrow>
         (case k of
            0 \<Rightarrow> Inl Diverges
          | Suc k' \<Rightarrow> bindE (adj_del y s a S_SHUTDOWN) (\<lambda>s1. if_reset_adjs k' y s1 i af)))"

declare if_reset_adjs.simps [simp del]

definition if_reset :: "sys \<Rightarrow> ldpe \<Rightarrow> nat \<Rightarrow> af \<Rightarrow> ldpe res" where
  "if_reset y s i af =
     bindE (get_ia s i af) (\<lambda>ia.
     bindE (if_reset_adjs (length (ia_adj_list ia)) y (if_stop_hello_timer s i af) i af) (\<lambda>s1.
     bindE (ldp_af_global_get s1 af) (\<lambda>g.
     Inr (if ag_disc_socket g \<noteq> -1 then eout s1 (Out_leave i af) else s1))))"

definition if_addr_ok :: "iface \<Rightarrow> af \<Rightarrow> bool" where
  "if_addr_ok ifc af \<longleftrightarrow>
     (if af = AF_INET then list_ex (\<lambda>x. ifa_af x = AF_INET) (if_addr_list ifc)
      else IN6_IS_ADDR_LINKLOCAL (if_linklocal ifc))"

definition if_update_af :: "sys \<Rightarrow> ldpe \<Rightarrow> nat \<Rightarrow> af \<Rightarrow> bool \<Rightarrow> ldpe res" where
  "if_update_af y s i af link_ok =
     bindE (get_iface s i) (\<lambda>ifc. bindE (iface_af_get ifc af) (\<lambda>ia. bindE (ldp_af_global_get s af) (\<lambda>g.
     let ok = (ia_enabled ia \<and> link_ok \<and> if_addr_ok ifc af \<and> ag_disc_socket g \<noteq> -1 \<and> e_rtr_id s \<noteq> 0)
     in if \<not> ia_active ia then
          if \<not> ok then Inr s else if_start y (upd_ia s i af (\<lambda>ia. ia\<lparr>ia_active := True\<rparr>)) i af
        else if ok then Inr s
        else if_reset y (upd_ia s i af (\<lambda>ia. ia\<lparr>ia_active := False\<rparr>)) i af)))"

definition if_update :: "sys \<Rightarrow> ldpe \<Rightarrow> nat \<Rightarrow> af \<Rightarrow> ldpe res" where
  "if_update y s i af =
     bindE (get_iface s i) (\<lambda>ifc.
     let link_ok = (has_flag (if_flags ifc) F_IFF_UP \<and> LINK_STATE_IS_UP (if_linkstate ifc))
     in bindE (if af = AF_INET \<or> af = AF_UNSPEC then if_update_af y s i AF_INET link_ok else Inr s) (\<lambda>s1.
        if af = AF_INET6 \<or> af = AF_UNSPEC then if_update_af y s1 i AF_INET6 link_ok else Inr s1))"

definition if_update_all :: "sys \<Rightarrow> ldpe \<Rightarrow> af \<Rightarrow> ldpe res" where
  "if_update_all y s af = foldE (\<lambda>s i. if_update y s i af) (e_iface_list s) s"

definition if_exit :: "sys \<Rightarrow> ldpe \<Rightarrow> nat \<Rightarrow> ldpe res" where
  "if_exit y s i =
     bindE (get_iface s i) (\<lambda>ifc.
     bindE (if ia_active (if_ipv4 ifc) then if_reset y s i AF_INET else Inr s) (\<lambda>s1.
     bindE (if ia_active (if_ipv6 ifc) then if_reset y s1 i AF_INET6 else Inr s1) (\<lambda>s2.
     Inr (upd_if s2 i (\<lambda>ifc. ifc\<lparr>if_addr_list := []\<rparr>)))))"

section \<open>Addresses of interfaces\<close>

definition if_addr_new :: "kaddr \<Rightarrow> if_addr" where
  "if_addr_new ka = \<lparr>ifa_af = ka_af ka, ifa_addr = ka_addr ka, ifa_prefixlen = ka_prefixlen ka, ifa_dstbrd = ka_dstbrd ka\<rparr>"

definition if_addr_lookup :: "if_addr list \<Rightarrow> kaddr \<Rightarrow> if_addr option res" where
  "if_addr_lookup addr_list ka =
     findE (\<lambda>x.
       bindE (ldp_addrcmp (ka_af ka) (ifa_addr x) (ka_addr ka)) (\<lambda>c.
       if c \<noteq> 0 \<or> ifa_prefixlen x \<noteq> ka_prefixlen ka then Inr False
       else bindE (ldp_addrcmp (ka_af ka) (ifa_dstbrd x) (ka_dstbrd ka)) (\<lambda>d. Inr (d = 0)))) addr_list"

text \<open>Announcing an address to, or withdrawing it from, every operational session of its family.\<close>

definition announce_addr :: "ldpe \<Rightarrow> if_addr \<Rightarrow> bool \<Rightarrow> ldpe res" where
  "announce_addr s ifa withdraw =
     foldE (\<lambda>s p. bindE (get_nbr s p) (\<lambda>n.
       if n_state n \<noteq> NBR_STA_OPER then Inr s
       else if ifa_af ifa = AF_INET \<and> \<not> n_v4_enabled n then Inr s
       else if ifa_af ifa = AF_INET6 \<and> \<not> n_v6_enabled n then Inr s
       else send_address_single nbr_fsm s p ifa withdraw)) (nbrs_by_id s) s"

definition if_addr_add :: "sys \<Rightarrow> ldpe \<Rightarrow> kaddr \<Rightarrow> ldpe res" where
  "if_addr_add y s ka =
     bindE (if_addr_lookup (e_addr_list s) ka) (\<lambda>found.
     bindE (if found = None then
              let ifa = if_addr_new ka
              in announce_addr (s\<lparr>e_addr_list := ifa # e_addr_list s\<rparr>) ifa False
            else Inr s) (\<lambda>s1.
     bindE (if_lookup s1 (ka_ifindex ka)) (\<lambda>x.
     case x of
       None \<Rightarrow> Inr s1
     | Some i \<Rightarrow>
         let s2 = (if ka_af ka = AF_INET6 \<and> IN6_IS_ADDR_LINKLOCAL (ka_addr ka)
                   then upd_if s1 i (\<lambda>ifc. ifc\<lparr>if_linklocal := ka_addr ka\<rparr>) else s1)
         in bindE (get_iface s2 i) (\<lambda>ifc. bindE (if_addr_lookup (if_addr_list ifc) ka) (\<lambda>found.
            if found = None
            then if_update y (upd_if s2 i (\<lambda>ifc. ifc\<lparr>if_addr_list := if_addr_new ka # if_addr_list ifc\<rparr>)) i (ka_af ka)
            else Inr s2)))))"

definition if_addr_del :: "sys \<Rightarrow> ldpe \<Rightarrow> kaddr \<Rightarrow> ldpe res" where
  "if_addr_del y s ka =
     bindE (if_lookup s (ka_ifindex ka)) (\<lambda>x.
     bindE (case x of
              None \<Rightarrow> Inr s
            | Some i \<Rightarrow>
                bindE (get_iface s i) (\<lambda>ifc.
                let s1 = (if ka_af ka = AF_INET6 \<and> if_linklocal ifc = ka_addr ka
                          then upd_if s i (\<lambda>ifc. ifc\<lparr>if_linklocal := replicate 16 0\<rparr>) else s)
                in bindE (if_addr_lookup (if_addr_list ifc) ka) (\<lambda>found.
                   case found of
                     None \<Rightarrow> Inr s1
                   | Some ifa \<Rightarrow>
                       if_update y (upd_if s1 i (\<lambda>ifc. ifc\<lparr>if_addr_list := remove1 ifa (if_addr_list ifc)\<rparr>))
                         i (ifa_af ifa)))) (\<lambda>s2.
     bindE (if_addr_lookup (e_addr_list s2) ka) (\<lambda>found.
     case found of
       None \<Rightarrow> Inr s2
     | Some ifa \<Rightarrow>
         bindE (announce_addr s2 ifa True) (\<lambda>s3.
         Inr (s3\<lparr>e_addr_list := remove1 ifa (e_addr_list s3)\<rparr>)))))"

section \<open>Received hellos\<close>

definition upd_nbr_hello :: "ldpe \<Rightarrow> u32 \<Rightarrow> u16 \<Rightarrow> hello_opts \<Rightarrow> ldpe" where
  "upd_nbr_hello s p flags ho =
     upd_n s p (\<lambda>n.
       let n1 = n\<lparr>n_flags := (if has_flag flags F_HELLO_GTSM then set_flag (n_flags n) F_NBR_GTSM_NEGOTIATED
                             else clear_flag (n_flags n) F_NBR_GTSM_NEGOTIATED)\<rparr>
       in if has_flag (ho_tlvs_rcvd ho) F_HELLO_TLV_RCVD_CONF
          then n1\<lparr>n_initdelay_timer := (if ho_conf_number ho > n_conf_seqnum n then None else n_initdelay_timer n),
                  n_conf_seqnum := ho_conf_number ho\<rparr>
          else n1)"

text \<open>The source of a hello; \<open>None\<close> when the hello is dropped.\<close>

definition hello_source_of ::
    "sys \<Rightarrow> ldpe \<Rightarrow> af \<Rightarrow> ldpd_addr \<Rightarrow> nat \<Rightarrow> u16 \<Rightarrow> (ldpe \<times> hello_source option) res" where
  "hello_source_of y s af src i flags =
     (if has_flag flags F_HELLO_TARGETED then
        if af = AF_INET6 \<and> IN6_IS_SCOPE_EMBED src then Inr (s, None)
        else bindE (tnbr_find s af src) (\<lambda>x.
          bindE (case x of
                   None \<Rightarrow> Inr (s, None)
                 | Some t \<Rightarrow>
                     bindE (get_tnbr s t) (\<lambda>tn.
                     if has_flag (t_flags tn) F_TNBR_DYNAMIC \<and> \<not> has_flag flags F_HELLO_REQ_TARG
                     then bindE (tnbr_check y (upd_t s t (\<lambda>tn. tn\<lparr>t_flags := clear_flag (t_flags tn) F_TNBR_DYNAMIC\<rparr>)) t)
                            (\<lambda>(s1, alive). Inr (s1, if alive then Some t else None))
                     else Inr (s, Some t))) (\<lambda>(s1, x1).
          case x1 of
            Some t \<Rightarrow> Inr (s1, Some (HELLO_TARGETED t))
          | None \<Rightarrow>
              bindE (ldp_af_conf_get s1 af) (\<lambda>c.
              if \<not> (has_flag flags F_HELLO_REQ_TARG \<and> has_flag (ac_flags c) F_LDPD_AF_THELLO_ACCEPT)
              then Inr (s1, None)
              else bindE (tnbr_new s1 af src) (\<lambda>tn.
                let t = fresh_id (e_tnbr_list s1)
                in bindE (tnbr_update (s1\<lparr>e_tnbrs := (e_tnbrs s1)(t \<mapsto> tn\<lparr>t_flags := F_TNBR_DYNAMIC\<rparr>)\<rparr>) t) (\<lambda>s2.
                   Inr (s2\<lparr>e_tnbr_list := t # e_tnbr_list s2\<rparr>, Some (HELLO_TARGETED t)))))))
      else bindE (get_ia s i af) (\<lambda>_. Inr (s, Some (HELLO_LINK i af src))))"

definition del_adj_opt :: "sys \<Rightarrow> ldpe \<Rightarrow> nat option \<Rightarrow> ldpe res" where
  "del_adj_opt y s adj = (case adj of None \<Rightarrow> Inr s | Some a \<Rightarrow> adj_del y s a S_SHUTDOWN)"

text \<open>
  The checks on a hello whose source, adjacency and neighbour are known. \<open>None\<close>: the hello goes on;
  otherwise the state in which \<^verbatim>\<open>recv_hello\<close> returns.
\<close>

definition hello_checks ::
    "sys \<Rightarrow> ldpe \<Rightarrow> ldp_msg \<Rightarrow> af \<Rightarrow> hello_opts \<Rightarrow> ldpd_addr \<Rightarrow> u32 \<Rightarrow> nat option \<Rightarrow> u32 option \<Rightarrow> ldpe option res" where
  "hello_checks y s msg af ho trans_addr scope_id adj nb =
     (let ds_tlv = has_flag (ho_tlvs_rcvd ho) F_HELLO_TLV_RCVD_DS;
          stop = (\<lambda>r. bindE r (\<lambda>s1. Inr (Some s1)))
      in if ds_tlv \<and> ho_trans_pref ho \<noteq> e_trans_pref s then
           stop (bindE (case nb of None \<Rightarrow> Inr s
                        | Some p \<Rightarrow> session_shutdown s p S_TRANS_MISMTCH (msg_id msg) (msg_type msg)) (\<lambda>s1.
                 del_adj_opt y s1 adj))
         else
           case nb of
             None \<Rightarrow> if nbr_find_addr s af trans_addr \<noteq> None then stop (del_adj_opt y s adj) else Inr None
           | Some p \<Rightarrow>
               bindE (get_nbr s p) (\<lambda>n.
               bindE (if ds_tlv then Inr 0
                      else case af of AF_INET \<Rightarrow> nbr_adj_count s n AF_INET6
                           | AF_INET6 \<Rightarrow> nbr_adj_count s n AF_INET
                           | AF_UNSPEC \<Rightarrow> Inl (Fatalx ''recv_hello: unknown af'')) (\<lambda>others.
               if others > 0 then stop (session_shutdown s p S_DS_NONCMPLNCE (msg_id msg) (msg_type msg))
               else bindE (if n_af n = af then ldp_addrcmp af (n_raddr n) trans_addr else Inr 0) (\<lambda>c.
                 if n_af n = af \<and> (c \<noteq> 0 \<or> n_raddr_scope n \<noteq> scope_id) then stop (del_adj_opt y s adj)
                 else Inr None))))"

definition adj_holdtime :: "ldpe \<Rightarrow> hello_source \<Rightarrow> u16 \<Rightarrow> u16 res" where
  "adj_holdtime s source holdtime =
     (case source of
        HELLO_LINK i af _ \<Rightarrow>
          bindE (get_ia s i af) (\<lambda>ia.
          Inr (min (ia_hello_holdtime ia) (if holdtime = 0 then LINK_DFLT_HOLDTIME else holdtime)))
      | HELLO_TARGETED t \<Rightarrow>
          bindE (get_tnbr s t) (\<lambda>tn.
          Inr (min (t_hello_holdtime tn) (if holdtime = 0 then TARGETED_DFLT_HOLDTIME else holdtime))))"

definition set_holdtime :: "ldpe \<Rightarrow> nat \<Rightarrow> u16 \<Rightarrow> ldpe" where
  "set_holdtime s a ht =
     (let s1 = upd_adj s a (\<lambda>adj. adj\<lparr>a_holdtime := ht\<rparr>)
      in if ht \<noteq> INFINITE_HOLDTIME then adj_start_itimer s1 a else adj_stop_itimer s1 a)"

text \<open>Whether a hello makes a neighbour when there is none yet.\<close>

definition makes_nbr :: "af \<Rightarrow> hello_opts \<Rightarrow> bool" where
  "makes_nbr af ho \<longleftrightarrow>
     \<not> has_flag (ho_tlvs_rcvd ho) F_HELLO_TLV_RCVD_DS \<or>
     ho_trans_pref ho = DUAL_STACK_LDPOV4 \<and> af = AF_INET \<or> ho_trans_pref ho = DUAL_STACK_LDPOV6 \<and> af = AF_INET6"

definition hello_accepted ::
    "sys \<Rightarrow> ldpe \<Rightarrow> in_addr \<Rightarrow> af \<Rightarrow> u16 \<Rightarrow> u16 \<Rightarrow> hello_opts \<Rightarrow> hello_source \<Rightarrow> ldpd_addr \<Rightarrow> u32 \<Rightarrow>
     nat option \<Rightarrow> u32 option \<Rightarrow> ldpe res" where
  "hello_accepted y s lsr_id af holdtime flags ho source trans_addr scope_id adj nb =
     bindE (case adj of
              Some a \<Rightarrow> Inr (s, a)
            | None \<Rightarrow>
                bindE (adj_new s lsr_id source trans_addr) (\<lambda>(s1, a).
                Inr (case nb of
                       None \<Rightarrow> s1
                     | Some p \<Rightarrow> upd_n (upd_adj s1 a (\<lambda>adj. adj\<lparr>a_nbr := Some p\<rparr>)) p
                                  (\<lambda>n. n\<lparr>n_adj_list := a # n_adj_list n\<rparr>), a))) (\<lambda>(s2, a).
     bindE (case nb of
              Some p \<Rightarrow> Inr (s2, Some p)
            | None \<Rightarrow>
                if makes_nbr af ho
                then bindE (nbr_new y s2 lsr_id af (has_flag (ho_tlvs_rcvd ho) F_HELLO_TLV_RCVD_DS) trans_addr scope_id)
                       (\<lambda>(s3, p). Inr (s3, Some p))
                else Inr (s2, None)) (\<lambda>(s3, nb1).
     let s4 = (case nb1 of None \<Rightarrow> s3 | Some p \<Rightarrow> upd_nbr_hello s3 p flags ho)
     in bindE (adj_holdtime s4 source holdtime) (\<lambda>ht.
        let s5 = set_holdtime s4 a ht
        in case nb1 of
             None \<Rightarrow> Inr s5
           | Some p \<Rightarrow>
               bindE (get_nbr s5 p) (\<lambda>n.
               if n_state n = NBR_STA_PRESENT \<and> \<not> nbr_pending_idtimer n then
                 bindE (nbr_session_active_role n) (\<lambda>active.
                 if active \<and> \<not> nbr_pending_connect n then nbr_establish_connection y s5 p else Inr s5)
               else Inr s5))))"

definition recv_hello ::
    "sys \<Rightarrow> ldpe \<Rightarrow> in_addr \<Rightarrow> ldp_msg \<Rightarrow> af \<Rightarrow> ldpd_addr \<Rightarrow> nat \<Rightarrow> bool \<Rightarrow> bytes \<Rightarrow> nat \<Rightarrow> ldpe res" where
  "recv_hello y s lsr_id msg af src i multicast bs len =
     bindE (tlv_decode_hello_prms bs len) (\<lambda>r.
     case r of
       None \<Rightarrow> Inr s
     | Some (n, holdtime, flags) \<Rightarrow>
         if holdtime \<noteq> 0 \<and> holdtime < MIN_HOLDTIME then Inr s
         else if multicast = has_flag flags F_HELLO_TARGETED then Inr s
         else bindE (tlv_decode_opt_hello_prms s (drop n bs) (len - n) af) (\<lambda>r1.
           case r1 of
             None \<Rightarrow> Inr s
           | Some (m, ho) \<Rightarrow>
               if m \<noteq> len - n then Inr s
               else
                 let trans_addr = (if has_flag (ho_tlvs_rcvd ho) F_HELLO_TLV_RCVD_ADDR then ho_addr ho else src)
                 in bindE (bad_addr af trans_addr) (\<lambda>bad.
                    let scoped = (af = AF_INET6 \<and> IN6_IS_SCOPE_EMBED trans_addr)
                    in if bad then Inr s
                       else if scoped \<and> has_flag flags F_HELLO_TARGETED then Inr s
                       else bindE (get_iface s i) (\<lambda>ifc.
                         let scope_id = (if scoped then if_ifindex ifc else 0)
                         in bindE (hello_source_of y s af src i flags) (\<lambda>(s1, x).
                            case x of
                              None \<Rightarrow> Inr s1
                            | Some source \<Rightarrow>
                                bindE (adj_find s1 source) (\<lambda>adj.
                                bindE (nbr_find_ldpid s1 lsr_id) (\<lambda>nb.
                                bindE (hello_checks y s1 msg af ho trans_addr scope_id adj nb) (\<lambda>st.
                                case st of
                                  Some s2 \<Rightarrow> Inr s2
                                | None \<Rightarrow> hello_accepted y s1 lsr_id af holdtime flags ho source trans_addr
                                            scope_id adj nb))))))))"

section \<open>Received packets\<close>

definition disc_find_iface :: "ldpe \<Rightarrow> u32 \<Rightarrow> af \<Rightarrow> ldpd_addr \<Rightarrow> bool \<Rightarrow> nat option res" where
  "disc_find_iface s ifindex af src multicast =
     bindE (if_lookup s (ucast ifindex)) (\<lambda>x.
     case x of
       None \<Rightarrow> Inr None
     | Some i \<Rightarrow>
         bindE (get_iface s i) (\<lambda>ifc.
         if \<not> multicast then bindE (iface_af_get ifc af) (\<lambda>ia. Inr (if ia_enabled ia then Some i else None))
         else
           case af of
             AF_INET \<Rightarrow>
               bindE (findE (\<lambda>a.
                 if ifa_af a \<noteq> AF_INET then Inr False
                 else
                   case if_kind ifc of
                     IF_TYPE_POINTOPOINT \<Rightarrow> Inr (v4 (ifa_dstbrd a) = v4 src)
                   | IF_TYPE_BROADCAST \<Rightarrow>
                       bindE (prefixlen2mask (unat (ifa_prefixlen a))) (\<lambda>mask.
                       Inr (v4 (ifa_addr a) AND mask = v4 src AND mask))) (if_addr_list ifc)) (\<lambda>r.
               Inr (if r = None then None else Some i))
           | AF_INET6 \<Rightarrow> Inr (if IN6_IS_ADDR_LINKLOCAL src then Some i else None)
           | AF_UNSPEC \<Rightarrow> Inl (Fatalx ''disc_find_iface: unknown af'')))"

text \<open>
  A received UDP packet with its source, the index of the interface it came in on and whether it was
  sent to a multicast address. Its length is at most the \<^verbatim>\<open>IBUF_READ_SIZE\<close> of 65535 bytes.
\<close>

definition disc_recv_packet :: "sys \<Rightarrow> ldpe \<Rightarrow> af \<Rightarrow> ldpd_addr \<Rightarrow> u32 \<Rightarrow> bool \<Rightarrow> bytes \<Rightarrow> ldpe res" where
  "disc_recv_packet y s af src ifindex multicast buf =
     bindE (bad_addr af src) (\<lambda>bad.
     if bad then Inr s
     else bindE (disc_find_iface s ifindex af src multicast) (\<lambda>x.
       case x of
         None \<Rightarrow> Inr s
       | Some i \<Rightarrow>
           let len = length buf mod 65536
           in if len < LDP_HDR_SIZE + LDP_MSG_SIZE \<or> len > LDP_MAX_LEN then Inr s
              else bindE (rd16 buf 0) (\<lambda>ver. bindE (rd16 buf 2) (\<lambda>l. bindE (rd32 buf 4) (\<lambda>lsr_id.
                bindE (rd16 buf 8) (\<lambda>lspace.
                let pdu_len = unat (ntohs l)
                in if ntohs ver \<noteq> LDP_VERSION then Inr s
                   else if ntohs lspace \<noteq> 0 then Inr s
                   else if pdu_len < LDP_HDR_PDU_LEN + LDP_MSG_SIZE \<or> pdu_len > len - LDP_HDR_DEAD_LEN then Inr s
                   else bindE (rd_msg (drop LDP_HDR_SIZE buf)) (\<lambda>msg.
                     let msg_len = unat (ntohs (msg_length msg))
                     in if msg_len < LDP_MSG_LEN \<or> msg_len + LDP_MSG_DEAD_LEN > pdu_len then Inr s
                        else if ntohs (msg_type msg) \<noteq> MSG_TYPE_HELLO then Inr s
                        else recv_hello y s lsr_id msg af src i multicast
                               (drop (LDP_HDR_SIZE + LDP_MSG_SIZE) buf)
                               (len - LDP_HDR_SIZE - LDP_MSG_SIZE))))))))"

section \<open>Messages of the parent\<close>

definition set_global :: "ldpe \<Rightarrow> af \<Rightarrow> ldpd_af_global \<Rightarrow> ldpe" where
  "set_global s af g = (if af = AF_INET then s\<lparr>e_global4 := g\<rparr> else s\<lparr>e_global6 := g\<rparr>)"

definition ldpe_setup_sockets :: "ldpe \<Rightarrow> af \<Rightarrow> int \<Rightarrow> int \<Rightarrow> int \<Rightarrow> ldpe res" where
  "ldpe_setup_sockets s af disc_socket edisc_socket session_socket =
     bindE (ldp_af_global_get s af) (\<lambda>_.
     Inr ((set_global s af \<lparr>ag_disc_socket = disc_socket, ag_edisc_socket = edisc_socket,
                            ag_session_socket = session_socket\<rparr>)
          \<lparr>e_accept := accept_add (e_accept s) session_socket\<rparr>))"

definition ldpe_close_sockets :: "ldpe \<Rightarrow> af \<Rightarrow> ldpe res" where
  "ldpe_close_sockets s af =
     bindE (ldp_af_global_get s af) (\<lambda>g.
     let close = (\<lambda>fd s. if fd \<noteq> -1 then eout s (Out_close fd) else s);
         s1 = close (ag_session_socket g) (close (ag_edisc_socket g) (close (ag_disc_socket g) s));
         s2 = (if ag_session_socket g \<noteq> -1
               then s1\<lparr>e_accept := accept_del (e_accept s1) (ag_session_socket g)\<rparr> else s1)
     in Inr (set_global s2 af \<lparr>ag_disc_socket = -1, ag_edisc_socket = -1, ag_session_socket = -1\<rparr>))"

definition ldpe_reset_nbrs :: "ldpe \<Rightarrow> af \<Rightarrow> ldpe res" where
  "ldpe_reset_nbrs s af =
     foldE (\<lambda>s p. bindE (get_nbr s p) (\<lambda>n.
       if n_af n = af then session_shutdown s p S_SHUTDOWN 0 0 else Inr s)) (nbrs_by_id s) s"

definition ldpe_reset_ds_nbrs :: "ldpe \<Rightarrow> ldpe res" where
  "ldpe_reset_ds_nbrs s =
     foldE (\<lambda>s p. bindE (get_nbr s p) (\<lambda>n.
       if n_ds_tlv n then session_shutdown s p S_SHUTDOWN 0 0 else Inr s)) (nbrs_by_id s) s"

definition ldpe_remove_dynamic_tnbrs :: "sys \<Rightarrow> ldpe \<Rightarrow> af \<Rightarrow> ldpe res" where
  "ldpe_remove_dynamic_tnbrs y s af =
     foldE (\<lambda>s t. bindE (get_tnbr s t) (\<lambda>tn.
       if t_af tn \<noteq> af then Inr s
       else bindE (tnbr_check y (upd_t s t (\<lambda>tn. tn\<lparr>t_flags := clear_flag (t_flags tn) F_TNBR_DYNAMIC\<rparr>)) t)
              (\<lambda>(s1, _). Inr s1))) (e_tnbr_list s) s"

definition ldpe_stop_init_backoff :: "sys \<Rightarrow> ldpe \<Rightarrow> af \<Rightarrow> ldpe res" where
  "ldpe_stop_init_backoff y s af =
     foldE (\<lambda>s p. bindE (get_nbr s p) (\<lambda>n.
       if n_af n = af \<and> nbr_pending_idtimer n then nbr_establish_connection y (nbr_stop_idtimer s p) p
       else Inr s)) (nbrs_by_id s) s"

text \<open>The messages of \<^verbatim>\<open>ldpe_dispatch_main\<close> that do not belong to a reload of the configuration.\<close>

datatype socket_type = LDP_SOCKET_DISC | LDP_SOCKET_EDISC | LDP_SOCKET_SESSION

datatype main_imsg =
    IMSG_IFSTATUS kif
  | IMSG_NEWADDR kaddr
  | IMSG_DELADDR kaddr
  | IMSG_CLOSE_SOCKETS af
  | IMSG_SOCKET_NET socket_type int
  | IMSG_SETUP_SOCKETS af

definition close_sockets_nbr :: "sys \<Rightarrow> af \<Rightarrow> ldpe \<Rightarrow> u32 \<Rightarrow> ldpe res" where
  "close_sockets_nbr y af s p =
     bindE (get_nbr s p) (\<lambda>n.
     if n_af n \<noteq> af then Inr s
     else bindE (session_shutdown s p S_SHUTDOWN 0 0) (\<lambda>s1.
       bindE (pfkey_remove y s1 p) (\<lambda>(s2, _). Inr s2)))"

definition setup_sockets_nbr :: "sys \<Rightarrow> af \<Rightarrow> ldpe \<Rightarrow> u32 \<Rightarrow> ldpe res" where
  "setup_sockets_nbr y af s p =
     bindE (get_nbr s p) (\<lambda>n.
     if n_af n \<noteq> af then Inr s
     else bindE (ldp_af_conf_get s af) (\<lambda>c.
       let s1 = upd_n s p (\<lambda>n. n\<lparr>n_laddr := ac_trans_addr c\<rparr>)
       in bindE (case nbr_params_find s1 (n_id n) of
                   None \<Rightarrow> Inr (s1, True) | Some np \<Rightarrow> pfkey_establish y s1 p np) (\<lambda>(s2, ok).
          if \<not> ok then Inl (Fatalx ''pfkey setup failed'')
          else bindE (get_nbr s2 p) (\<lambda>n2. bindE (nbr_session_active_role n2) (\<lambda>active.
            if active then nbr_establish_connection y s2 p else Inr s2)))))"

definition ldpe_dispatch_main :: "sys \<Rightarrow> ldpe \<Rightarrow> main_imsg \<Rightarrow> ldpe res" where
  "ldpe_dispatch_main y s imsg =
     (case imsg of
        IMSG_IFSTATUS kif \<Rightarrow>
          bindE (if_lookup s (kif_ifindex kif)) (\<lambda>x.
          case x of
            None \<Rightarrow> Inr s
          | Some i \<Rightarrow> if_update y (upd_if s i (\<lambda>ifc. ifc\<lparr>if_flags := ucast (kif_flags kif),
                                     if_linkstate := kif_link_state kif\<rparr>)) i AF_UNSPEC)
      | IMSG_NEWADDR ka \<Rightarrow> if_addr_add y s ka
      | IMSG_DELADDR ka \<Rightarrow> if_addr_del y s ka
      | IMSG_CLOSE_SOCKETS af \<Rightarrow>
          bindE (foldE (close_sockets_nbr y af) (nbrs_by_id s) s) (\<lambda>s1.
          bindE (ldpe_close_sockets s1 af) (\<lambda>s2.
          bindE (if_update_all y s2 af) (\<lambda>s3.
          bindE (tnbr_update_all s3 af) (\<lambda>s4.
          bindE (ldp_af_conf_get s4 af) (\<lambda>c.
          let s5 = s4\<lparr>e_new_disc := -1, e_new_edisc := -1, e_new_session := -1\<rparr>
          in Inr (if has_flag (ac_flags c) F_LDPD_AF_ENABLED then eout s5 (Out_request_sockets af) else s5))))))
      | IMSG_SOCKET_NET type fd \<Rightarrow>
          Inr (case type of LDP_SOCKET_DISC \<Rightarrow> s\<lparr>e_new_disc := fd\<rparr>
               | LDP_SOCKET_EDISC \<Rightarrow> s\<lparr>e_new_edisc := fd\<rparr> | LDP_SOCKET_SESSION \<Rightarrow> s\<lparr>e_new_session := fd\<rparr>)
      | IMSG_SETUP_SOCKETS af \<Rightarrow>
          if e_new_disc s = -1 \<or> e_new_edisc s = -1 \<or> e_new_session s = -1 then
            (let close = (\<lambda>fd s. if fd \<noteq> -1 then eout s (Out_close fd) else s)
             in Inr (close (e_new_session s) (close (e_new_edisc s) (close (e_new_disc s) s))))
          else
            bindE (ldpe_setup_sockets s af (e_new_disc s) (e_new_edisc s) (e_new_session s)) (\<lambda>s1.
            bindE (if_update_all y s1 af) (\<lambda>s2.
            bindE (tnbr_update_all s2 af) (\<lambda>s3.
            foldE (setup_sockets_nbr y af) (nbrs_by_id s3) s3))))"

end
