(* ===== verification/Ldpe_Reload.thy ===== *)
theory Ldpe_Reload
  imports Ldpe_Iface
begin

text \<open>
  Reloading the configuration in the protocol engine: the messages \<^verbatim>\<open>IMSG_RECONF_*\<close> with which the
  parent sends a configuration (\<^verbatim>\<open>main_imsg_send_config\<close> of \<^verbatim>\<open>ldpd.c\<close>) and \<^verbatim>\<open>ldpe_dispatch_main\<close> builds
  \<^verbatim>\<open>nconf\<close>, and \<^verbatim>\<open>merge_config\<close> of \<^verbatim>\<open>ldpd.c\<close> as it runs in the process \<^verbatim>\<open>PROC_LDP_ENGINE\<close>, with the
  part of \<^verbatim>\<open>l2vpn.c\<close> that keeps targeted neighbours for the pseudowires.

  An interface or targeted neighbour of the new configuration that goes into the list of the engine
  gets a number that nothing in the engine refers to.
\<close>

section \<open>Configurations\<close>

record l2vpn_if =
  lif_ifname :: string
  lif_ifindex :: u32
  lif_flags :: u16
  lif_link_state :: u8

record conf_l2vpn =
  cl_name :: string
  cl_type :: int
  cl_pw_type :: int
  cl_mtu :: int
  cl_br_ifname :: string
  cl_br_ifindex :: u32
  cl_if_list :: "l2vpn_if list"
  cl_pw_list :: "l2vpn_pw list"

record ldpd_conf =
  xc_rtr_id :: in_addr
  xc_ipv4 :: ldpd_af_conf
  xc_ipv6 :: ldpd_af_conf
  xc_iface_list :: "iface list"
  xc_tnbr_list :: "tnbr list"
  xc_nbrp_list :: "nbr_params list"
  xc_l2vpn_list :: "conf_l2vpn list"
  xc_trans_pref :: u16
  xc_flags :: u32

definition l2vpn_find :: "conf_l2vpn list \<Rightarrow> string \<Rightarrow> conf_l2vpn option" where
  "l2vpn_find ls name = find (\<lambda>l. cl_name l = name) ls"

definition l2vpn_if_find :: "l2vpn_if list \<Rightarrow> u32 \<Rightarrow> l2vpn_if option" where
  "l2vpn_if_find fs ifindex = find (\<lambda>lif. lif_ifindex lif = ifindex) fs"

definition l2vpn_pw_find :: "l2vpn_pw list \<Rightarrow> u32 \<Rightarrow> l2vpn_pw option" where
  "l2vpn_pw_find ps ifindex = find (\<lambda>pw. pw_ifindex pw = ifindex) ps"

text \<open>The look-ups in the new configuration; \<^verbatim>\<open>if_lookup\<close> takes an \<^verbatim>\<open>unsigned short\<close>.\<close>

definition xc_if_lookup :: "iface list \<Rightarrow> u16 \<Rightarrow> iface option" where
  "xc_if_lookup is ifindex = find (\<lambda>ifc. if_ifindex ifc = ucast ifindex) is"

definition xc_tnbr_find :: "tnbr list \<Rightarrow> af \<Rightarrow> ldpd_addr \<Rightarrow> tnbr option res" where
  "xc_tnbr_find ts af addr =
     findE (\<lambda>tn. if af = t_af tn then bindE (ldp_addrcmp af addr (t_addr tn)) (\<lambda>c. Inr (c = 0)) else Inr False) ts"

definition xc_nbr_params_find :: "nbr_params list \<Rightarrow> in_addr \<Rightarrow> nbr_params option" where
  "xc_nbr_params_find ns lsr_id = find (\<lambda>np. np_lsr_id np = lsr_id) ns"

fun upd_first :: "('a \<Rightarrow> bool) \<Rightarrow> ('a \<Rightarrow> 'a) \<Rightarrow> 'a list \<Rightarrow> 'a list" where
  "upd_first P f [] = []"
| "upd_first P f (x # xs) = (if P x then f x # xs else x # upd_first P f xs)"

section \<open>Global parameters and address families\<close>

definition merge_global :: "sys \<Rightarrow> ldpe \<Rightarrow> ldpd_conf \<Rightarrow> ldpe res" where
  "merge_global y s x =
     bindE (if e_rtr_id s \<noteq> xc_rtr_id x then
              bindE (ldpe_reset_nbrs s AF_INET) (\<lambda>s1.
              bindE (ldpe_reset_nbrs s1 AF_INET6) (\<lambda>s2.
              bindE (if e_rtr_id s = 0 \<or> xc_rtr_id x = 0
                     then bindE (if_update_all y s2 AF_UNSPEC) (\<lambda>s3. tnbr_update_all s3 AF_UNSPEC)
                     else Inr s2) (\<lambda>s4.
              Inr (s4\<lparr>e_rtr_id := xc_rtr_id x\<rparr>))))
            else Inr s) (\<lambda>s5.
     bindE (if e_trans_pref s \<noteq> xc_trans_pref x
            then bindE (ldpe_reset_ds_nbrs s5) (\<lambda>s6. Inr (s6\<lparr>e_trans_pref := xc_trans_pref x\<rparr>))
            else Inr s5) (\<lambda>s7.
     bindE (if e_conf_flags s AND F_LDPD_DS_CISCO_INTEROP \<noteq> xc_flags x AND F_LDPD_DS_CISCO_INTEROP
            then ldpe_reset_ds_nbrs s7 else Inr s7) (\<lambda>s8.
     Inr (s8\<lparr>e_conf_flags := xc_flags x\<rparr>))))"

definition upd_af :: "ldpe \<Rightarrow> af \<Rightarrow> (ldpd_af_conf \<Rightarrow> ldpd_af_conf) \<Rightarrow> ldpe" where
  "upd_af s af f = (if af = AF_INET then s\<lparr>e_ipv4 := f (e_ipv4 s)\<rparr> else s\<lparr>e_ipv6 := f (e_ipv6 s)\<rparr>)"

text \<open>The change of the sockets and of the egress label is the business of the other processes.\<close>

definition merge_af :: "sys \<Rightarrow> af \<Rightarrow> ldpe \<Rightarrow> ldpd_af_conf \<Rightarrow> ldpe res" where
  "merge_af y af s xa =
     bindE (ldp_af_conf_get s af) (\<lambda>c.
     bindE (if ac_keepalive c \<noteq> ac_keepalive xa
            then ldpe_stop_init_backoff y (upd_af s af (\<lambda>c. c\<lparr>ac_keepalive := ac_keepalive xa\<rparr>)) af
            else Inr s) (\<lambda>s1.
     let s2 = upd_af s1 af (\<lambda>c. c\<lparr>ac_thello_holdtime := ac_thello_holdtime xa, ac_thello_interval := ac_thello_interval xa\<rparr>)
     in bindE (if has_flag (ac_flags c) F_LDPD_AF_THELLO_ACCEPT \<and> \<not> has_flag (ac_flags xa) F_LDPD_AF_THELLO_ACCEPT
               then ldpe_remove_dynamic_tnbrs y s2 af else Inr s2) (\<lambda>s3.
        bindE (if ac_flags c AND F_LDPD_AF_NO_GTSM \<noteq> ac_flags xa AND F_LDPD_AF_NO_GTSM \<and> af \<noteq> AF_INET6
               then ldpe_reset_nbrs s3 af else Inr s3) (\<lambda>s4.
        let s5 = upd_af s4 af (\<lambda>c. c\<lparr>ac_flags := ac_flags xa\<rparr>)
        in bindE (ldp_addrcmp af (ac_trans_addr c) (ac_trans_addr xa)) (\<lambda>d.
           Inr (if d \<noteq> 0 then upd_af s5 af (\<lambda>c. c\<lparr>ac_trans_addr := ac_trans_addr xa\<rparr>) else s5))))))"

section \<open>Interfaces\<close>

text \<open>Numbers of interfaces that the engine refers to.\<close>

definition iface_refs :: "ldpe \<Rightarrow> nat list" where
  "iface_refs s =
     e_iface_list s @
     concat (map (\<lambda>a. case e_adjs s a of
                        Some adj \<Rightarrow> (case a_source adj of HELLO_LINK i _ _ \<Rightarrow> [i] | HELLO_TARGETED _ \<Rightarrow> [])
                      | None \<Rightarrow> []) (e_adj_list s))"

definition merge_iface_af :: "sys \<Rightarrow> ldpe \<Rightarrow> nat \<Rightarrow> af \<Rightarrow> iface_af \<Rightarrow> ldpe res" where
  "merge_iface_af y s i af xi =
     bindE (get_ia s i af) (\<lambda>ia.
     bindE (if ia_enabled ia \<noteq> ia_enabled xi
            then if_update y (upd_ia s i af (\<lambda>ia. ia\<lparr>ia_enabled := ia_enabled xi\<rparr>)) i af
            else Inr s) (\<lambda>s1.
     Inr (upd_ia s1 i af (\<lambda>ia. ia\<lparr>ia_hello_holdtime := ia_hello_holdtime xi,
                                   ia_hello_interval := ia_hello_interval xi\<rparr>))))"

definition remove_iface :: "sys \<Rightarrow> ldpd_conf \<Rightarrow> ldpe \<Rightarrow> nat \<Rightarrow> ldpe res" where
  "remove_iface y x s i =
     bindE (get_iface s i) (\<lambda>ifc.
     if xc_if_lookup (xc_iface_list x) (ucast (if_ifindex ifc)) \<noteq> None then Inr s
     else bindE (if_exit y (s\<lparr>e_iface_list := remove1 i (e_iface_list s)\<rparr>) i) (\<lambda>s1.
       Inr (s1\<lparr>e_ifaces := (e_ifaces s1)(i := None)\<rparr>)))"

definition add_iface :: "ldpe \<Rightarrow> iface \<Rightarrow> ldpe" where
  "add_iface s xi =
     (let i = fresh_id (iface_refs s)
      in s\<lparr>e_iface_list := i # e_iface_list s, e_ifaces := (e_ifaces s)(i \<mapsto> xi)\<rparr>)"

definition merge_iface :: "sys \<Rightarrow> ldpe \<Rightarrow> iface \<Rightarrow> ldpe res" where
  "merge_iface y s xi =
     bindE (if_lookup s (ucast (if_ifindex xi))) (\<lambda>r.
     case r of
       None \<Rightarrow> Inr (add_iface s xi)
     | Some i \<Rightarrow>
         bindE (merge_iface_af y s i AF_INET (if_ipv4 xi)) (\<lambda>s1.
         merge_iface_af y s1 i AF_INET6 (if_ipv6 xi)))"

definition merge_ifaces :: "sys \<Rightarrow> ldpe \<Rightarrow> ldpd_conf \<Rightarrow> ldpe res" where
  "merge_ifaces y s x =
     bindE (foldE (remove_iface y x) (e_iface_list s) s) (\<lambda>s1. foldE (merge_iface y) (xc_iface_list x) s1)"

section \<open>Targeted neighbours\<close>

definition remove_tnbr :: "sys \<Rightarrow> ldpd_conf \<Rightarrow> ldpe \<Rightarrow> nat \<Rightarrow> ldpe res" where
  "remove_tnbr y x s t =
     bindE (get_tnbr s t) (\<lambda>tn.
     if \<not> has_flag (t_flags tn) F_TNBR_CONFIGURED then Inr s
     else bindE (xc_tnbr_find (xc_tnbr_list x) (t_af tn) (t_addr tn)) (\<lambda>r.
       if r \<noteq> None then Inr s
       else bindE (tnbr_check y (upd_t s t (\<lambda>tn. tn\<lparr>t_flags := clear_flag (t_flags tn) F_TNBR_CONFIGURED\<rparr>)) t)
              (\<lambda>(s1, _). Inr s1)))"

definition merge_tnbr :: "ldpe \<Rightarrow> tnbr \<Rightarrow> ldpe res" where
  "merge_tnbr s xt =
     bindE (tnbr_find s (t_af xt) (t_addr xt)) (\<lambda>r.
     case r of
       None \<Rightarrow>
         let t = fresh_id (e_tnbr_list s)
         in tnbr_update (s\<lparr>e_tnbr_list := t # e_tnbr_list s, e_tnbrs := (e_tnbrs s)(t \<mapsto> xt)\<rparr>) t
     | Some t \<Rightarrow>
         Inr (upd_t s t (\<lambda>tn. tn\<lparr>t_flags := set_flag (t_flags tn) F_TNBR_CONFIGURED,
                t_hello_holdtime := t_hello_holdtime xt, t_hello_interval := t_hello_interval xt\<rparr>)))"

definition merge_tnbrs :: "sys \<Rightarrow> ldpe \<Rightarrow> ldpd_conf \<Rightarrow> ldpe res" where
  "merge_tnbrs y s x =
     bindE (foldE (remove_tnbr y x) (e_tnbr_list s) s) (\<lambda>s1. foldE merge_tnbr (xc_tnbr_list x) s1)"

section \<open>Parameters of neighbours\<close>

text \<open>\<^verbatim>\<open>if (nbr_session_active_role(nbr)) nbr_establish_connection(nbr);\<close>\<close>

definition reconnect :: "sys \<Rightarrow> ldpe \<Rightarrow> u32 \<Rightarrow> ldpe res" where
  "reconnect y s p =
     bindE (get_nbr s p) (\<lambda>n. bindE (nbr_session_active_role n) (\<lambda>active.
     if active then nbr_establish_connection y s p else Inr s))"

definition set_auth :: "sys \<Rightarrow> ldpe \<Rightarrow> u32 \<Rightarrow> nbr_params \<Rightarrow> ldpe res" where
  "set_auth y s p np =
     bindE (pfkey_establish y s p np) (\<lambda>(s1, ok). if \<not> ok then Inl (Fatalx ''pfkey setup failed'') else Inr s1)"

definition remove_nbrp :: "sys \<Rightarrow> ldpd_conf \<Rightarrow> ldpe \<Rightarrow> nbr_params \<Rightarrow> ldpe res" where
  "remove_nbrp y x s nbrp =
     (if xc_nbr_params_find (xc_nbrp_list x) (np_lsr_id nbrp) \<noteq> None then Inr s
      else bindE (bindE (nbr_find_ldpid s (np_lsr_id nbrp)) (\<lambda>nbr.
                  case nbr of
                    None \<Rightarrow> Inr s
                  | Some p \<Rightarrow>
                      bindE (session_shutdown s p S_SHUTDOWN 0 0) (\<lambda>s1.
                      bindE (pfkey_remove y s1 p) (\<lambda>(s2, _). reconnect y s2 p)))) (\<lambda>s3.
        Inr (s3\<lparr>e_nbrp_list := remove1 nbrp (e_nbrp_list s3)\<rparr>)))"

definition nbrp_differs :: "nbr_params \<Rightarrow> nbr_params \<Rightarrow> bool" where
  "nbrp_differs nbrp xn \<longleftrightarrow>
     np_flags nbrp \<noteq> np_flags xn \<or> np_keepalive nbrp \<noteq> np_keepalive xn \<or>
     np_gtsm_enabled nbrp \<noteq> np_gtsm_enabled xn \<or> np_gtsm_hops nbrp \<noteq> np_gtsm_hops xn \<or>
     np_auth_method nbrp \<noteq> np_auth_method xn \<or> np_md5key nbrp \<noteq> np_md5key xn"

definition merge_nbrp :: "sys \<Rightarrow> ldpe \<Rightarrow> nbr_params \<Rightarrow> ldpe res" where
  "merge_nbrp y s xn =
     (case nbr_params_find s (np_lsr_id xn) of
        None \<Rightarrow>
          let s1 = s\<lparr>e_nbrp_list := xn # e_nbrp_list s\<rparr>
          in bindE (nbr_find_ldpid s1 (np_lsr_id xn)) (\<lambda>nbr.
              case nbr of
                None \<Rightarrow> Inr s1
              | Some p \<Rightarrow>
                  bindE (session_shutdown s1 p S_SHUTDOWN 0 0) (\<lambda>s2.
                  bindE (set_auth y s2 p xn) (\<lambda>s3. reconnect y s3 p)))
      | Some nbrp \<Rightarrow>
          let s1 = s\<lparr>e_nbrp_list := upd_first (\<lambda>np. np_lsr_id np = np_lsr_id xn) (\<lambda>_. xn) (e_nbrp_list s)\<rparr>
          in bindE (nbr_find_ldpid s1 (np_lsr_id nbrp)) (\<lambda>nbr.
              case nbr of
                None \<Rightarrow> Inr s1
              | Some p \<Rightarrow>
                  if \<not> nbrp_differs nbrp xn then Inr s1
                  else
                    bindE (session_shutdown s1 p S_SHUTDOWN 0 0) (\<lambda>s2.
                    bindE (pfkey_remove y s2 p) (\<lambda>(s3, _).
                    bindE (set_auth y s3 p xn) (\<lambda>s4. reconnect y s4 p)))))"

definition merge_nbrps :: "sys \<Rightarrow> ldpe \<Rightarrow> ldpd_conf \<Rightarrow> ldpe res" where
  "merge_nbrps y s x =
     bindE (foldE (remove_nbrp y x) (e_nbrp_list s) s) (\<lambda>s1. foldE (merge_nbrp y) (xc_nbrp_list x) s1)"

section \<open>Layer-2 VPNs\<close>

definition ldpe_l2vpn_pw_init :: "ldpe \<Rightarrow> l2vpn_pw \<Rightarrow> ldpe res" where
  "ldpe_l2vpn_pw_init s pw =
     bindE (tnbr_find s (pw_af pw) (pw_addr pw)) (\<lambda>r.
     bindE (case r of
              Some t \<Rightarrow> Inr (s, t)
            | None \<Rightarrow>
                bindE (tnbr_new s (pw_af pw) (pw_addr pw)) (\<lambda>tn.
                let t = fresh_id (e_tnbr_list s)
                in bindE (tnbr_update (s\<lparr>e_tnbrs := (e_tnbrs s)(t \<mapsto> tn)\<rparr>) t) (\<lambda>s1.
                   Inr (s1\<lparr>e_tnbr_list := t # e_tnbr_list s1\<rparr>, t)))) (\<lambda>(s2, t).
     Inr (upd_t s2 t (\<lambda>tn. tn\<lparr>t_pw_count := t_pw_count tn + 1\<rparr>))))"

definition ldpe_l2vpn_pw_exit :: "sys \<Rightarrow> ldpe \<Rightarrow> l2vpn_pw \<Rightarrow> ldpe res" where
  "ldpe_l2vpn_pw_exit y s pw =
     bindE (tnbr_find s (pw_af pw) (pw_addr pw)) (\<lambda>r.
     case r of
       None \<Rightarrow> Inr s
     | Some t \<Rightarrow>
         bindE (tnbr_check y (upd_t s t (\<lambda>tn. tn\<lparr>t_pw_count := t_pw_count tn - 1\<rparr>)) t) (\<lambda>(s1, _). Inr s1))"

definition ldpe_l2vpn_init :: "ldpe \<Rightarrow> conf_l2vpn \<Rightarrow> ldpe res" where
  "ldpe_l2vpn_init s l = foldE ldpe_l2vpn_pw_init (cl_pw_list l) s"

definition ldpe_l2vpn_exit :: "sys \<Rightarrow> ldpe \<Rightarrow> conf_l2vpn \<Rightarrow> ldpe res" where
  "ldpe_l2vpn_exit y s l = foldE (ldpe_l2vpn_pw_exit y) (cl_pw_list l) s"

definition merge_l2vpn_ifs :: "l2vpn_if list \<Rightarrow> l2vpn_if list \<Rightarrow> l2vpn_if list" where
  "merge_l2vpn_ifs fs xfs =
     foldl (\<lambda>fs xf. if l2vpn_if_find fs (lif_ifindex xf) = None then xf # fs else fs)
       (filter (\<lambda>lif. l2vpn_if_find xfs (lif_ifindex lif) \<noteq> None) fs) xfs"

abbreviation (input) "F_PW_CONF \<equiv> set_flag F_PW_STATUSTLV_CONF F_PW_CWORD_CONF"

definition merged_pw :: "l2vpn_pw \<Rightarrow> l2vpn_pw \<Rightarrow> l2vpn_pw" where
  "merged_pw pw xp =
     (let cw = (if has_flag (pw_flags xp) F_PW_CWORD_CONF then set_flag (pw_flags pw) F_PW_CWORD_CONF
                else clear_flag (pw_flags pw) F_PW_CWORD_CONF);
          fl = (if has_flag (pw_flags xp) F_PW_STATUSTLV_CONF then set_flag cw F_PW_STATUSTLV_CONF
                else clear_flag cw F_PW_STATUSTLV_CONF)
      in pw\<lparr>pw_lsr_id := pw_lsr_id xp, pw_af := pw_af xp, pw_addr := pw_addr xp, pw_pwid := pw_pwid xp,
            pw_ifname := pw_ifname xp, pw_ifindex := pw_ifindex xp, pw_flags := fl\<rparr>)"

text \<open>An existing pseudowire with its new configuration; the label decision engine reinstalls the class.\<close>

definition merge_pw :: "sys \<Rightarrow> ldpe \<Rightarrow> l2vpn_pw \<Rightarrow> l2vpn_pw \<Rightarrow> ldpe res" where
  "merge_pw y s pw xp =
     bindE (if pw_af pw \<noteq> pw_af xp then Inr True
            else bindE (ldp_addrcmp (pw_af pw) (pw_addr pw) (pw_addr xp)) (\<lambda>c. Inr (c \<noteq> 0))) (\<lambda>reinstall_tnbr.
     let reset_nbr = (pw_flags pw AND F_PW_CONF \<noteq> pw_flags xp AND F_PW_CONF)
     in bindE (if reinstall_tnbr then ldpe_l2vpn_pw_exit y s pw else Inr s) (\<lambda>s1.
        bindE (if reset_nbr then
                 bindE (nbr_find_ldpid s1 (pw_lsr_id pw)) (\<lambda>nbr.
                 case nbr of
                   None \<Rightarrow> Inr s1
                 | Some p \<Rightarrow> bindE (get_nbr s1 p) (\<lambda>n.
                     if n_state n = NBR_STA_OPER then session_shutdown s1 p S_SHUTDOWN 0 0 else Inr s1))
               else Inr s1) (\<lambda>s2.
        if reinstall_tnbr then ldpe_l2vpn_pw_init s2 (merged_pw pw xp) else Inr s2)))"

definition drop_pw :: "sys \<Rightarrow> l2vpn_pw list \<Rightarrow> ldpe \<times> l2vpn_pw list \<Rightarrow> l2vpn_pw \<Rightarrow> (ldpe \<times> l2vpn_pw list) res" where
  "drop_pw y xps st pw =
     (case st of (s, ps) \<Rightarrow>
        if l2vpn_pw_find xps (pw_ifindex pw) = None
        then bindE (ldpe_l2vpn_pw_exit y s pw) (\<lambda>s1. Inr (s1, ps))
        else Inr (s, ps @ [pw]))"

definition take_pw :: "sys \<Rightarrow> ldpe \<times> l2vpn_pw list \<Rightarrow> l2vpn_pw \<Rightarrow> (ldpe \<times> l2vpn_pw list) res" where
  "take_pw y st xp =
     (case st of (s, ps) \<Rightarrow>
        case l2vpn_pw_find ps (pw_ifindex xp) of
          None \<Rightarrow> bindE (ldpe_l2vpn_pw_init s xp) (\<lambda>s1. Inr (s1, xp # ps))
        | Some pw \<Rightarrow>
            bindE (merge_pw y s pw xp) (\<lambda>s1.
            Inr (s1, upd_first (\<lambda>p. pw_ifindex p = pw_ifindex xp) (\<lambda>p. merged_pw p xp) ps)))"

definition merge_l2vpn :: "sys \<Rightarrow> ldpe \<Rightarrow> conf_l2vpn \<Rightarrow> conf_l2vpn \<Rightarrow> (ldpe \<times> conf_l2vpn) res" where
  "merge_l2vpn y s l xl =
     bindE (foldE (drop_pw y (cl_pw_list xl)) (cl_pw_list l) (s, [])) (\<lambda>st.
     bindE (foldE (take_pw y) (cl_pw_list xl) st) (\<lambda>(s1, ps).
     Inr (s1, l\<lparr>cl_if_list := merge_l2vpn_ifs (cl_if_list l) (cl_if_list xl), cl_pw_list := ps,
                cl_pw_type := cl_pw_type xl, cl_mtu := cl_mtu xl, cl_br_ifname := cl_br_ifname xl,
                cl_br_ifindex := cl_br_ifindex xl\<rparr>)))"

definition drop_l2vpn ::
    "sys \<Rightarrow> conf_l2vpn list \<Rightarrow> ldpe \<times> conf_l2vpn list \<Rightarrow> conf_l2vpn \<Rightarrow> (ldpe \<times> conf_l2vpn list) res" where
  "drop_l2vpn y xls st l =
     (case st of (s, ls) \<Rightarrow>
        if l2vpn_find xls (cl_name l) = None
        then bindE (ldpe_l2vpn_exit y s l) (\<lambda>s1. Inr (s1, ls))
        else Inr (s, ls @ [l]))"

definition take_l2vpn :: "sys \<Rightarrow> ldpe \<times> conf_l2vpn list \<Rightarrow> conf_l2vpn \<Rightarrow> (ldpe \<times> conf_l2vpn list) res" where
  "take_l2vpn y st xl =
     (case st of (s, ls) \<Rightarrow>
        case l2vpn_find ls (cl_name xl) of
          None \<Rightarrow> bindE (ldpe_l2vpn_init s xl) (\<lambda>s1. Inr (s1, xl # ls))
        | Some l \<Rightarrow>
            bindE (merge_l2vpn y s l xl) (\<lambda>(s1, l1).
            Inr (s1, upd_first (\<lambda>l. cl_name l = cl_name xl) (\<lambda>_. l1) ls)))"

definition merge_l2vpns :: "sys \<Rightarrow> ldpe \<times> conf_l2vpn list \<Rightarrow> ldpd_conf \<Rightarrow> (ldpe \<times> conf_l2vpn list) res" where
  "merge_l2vpns y st x =
     (case st of (s, ls) \<Rightarrow>
        bindE (foldE (drop_l2vpn y (xc_l2vpn_list x)) ls (s, [])) (\<lambda>st1.
        foldE (take_l2vpn y) (xc_l2vpn_list x) st1))"

section \<open>The process\<close>

text \<open>
  The engine with its layer-2 VPNs and the configuration it is receiving (\<^verbatim>\<open>nconf\<close>; \<^verbatim>\<open>nl2vpn\<close> is the
  head of its list of layer-2 VPNs).
\<close>

record ldpe_proc =
  pr_engine :: ldpe
  pr_l2vpn_list :: "conf_l2vpn list"
  pr_nconf :: "ldpd_conf option"

definition merge_config :: "sys \<Rightarrow> ldpe \<times> conf_l2vpn list \<Rightarrow> ldpd_conf \<Rightarrow> (ldpe \<times> conf_l2vpn list) res" where
  "merge_config y st x =
     (case st of (s, ls) \<Rightarrow>
        bindE (merge_global y s x) (\<lambda>s1.
        bindE (merge_af y AF_INET s1 (xc_ipv4 x)) (\<lambda>s2.
        bindE (merge_af y AF_INET6 s2 (xc_ipv6 x)) (\<lambda>s3.
        bindE (merge_ifaces y s3 x) (\<lambda>s4.
        bindE (merge_tnbrs y s4 x) (\<lambda>s5.
        bindE (merge_nbrps y s5 x) (\<lambda>s6.
        merge_l2vpns y (s6, ls) x)))))))"

datatype reconf_imsg =
    RECONF_CONF ldpd_conf
  | RECONF_IFACE iface
  | RECONF_TNBR tnbr
  | RECONF_NBRP nbr_params
  | RECONF_L2VPN conf_l2vpn
  | RECONF_L2VPN_IF l2vpn_if
  | RECONF_L2VPN_PW l2vpn_pw
  | RECONF_END

definition clean_iface :: "iface \<Rightarrow> iface" where
  "clean_iface ifc =
     ifc\<lparr>if_addr_list := [], if_ipv4 := (if_ipv4 ifc)\<lparr>ia_adj_list := []\<rparr>, if_ipv6 := (if_ipv6 ifc)\<lparr>ia_adj_list := []\<rparr>\<rparr>"

definition with_nconf :: "ldpe_proc \<Rightarrow> (ldpd_conf \<Rightarrow> ldpd_conf res) \<Rightarrow> ldpe_proc res" where
  "with_nconf pr f =
     (case pr_nconf pr of None \<Rightarrow> Inl NullDeref | Some x \<Rightarrow> bindE (f x) (\<lambda>x1. Inr (pr\<lparr>pr_nconf := Some x1\<rparr>)))"

definition with_nl2vpn :: "(conf_l2vpn \<Rightarrow> conf_l2vpn) \<Rightarrow> ldpd_conf \<Rightarrow> ldpd_conf res" where
  "with_nl2vpn f x =
     (case xc_l2vpn_list x of [] \<Rightarrow> Inl NullDeref | l # ls \<Rightarrow> Inr (x\<lparr>xc_l2vpn_list := f l # ls\<rparr>))"

definition ldpe_reconf :: "sys \<Rightarrow> ldpe_proc \<Rightarrow> reconf_imsg \<Rightarrow> ldpe_proc res" where
  "ldpe_reconf y pr m =
     (case m of
        RECONF_CONF x \<Rightarrow>
          Inr (pr\<lparr>pr_nconf := Some (x\<lparr>xc_iface_list := [], xc_tnbr_list := [], xc_nbrp_list := [], xc_l2vpn_list := []\<rparr>)\<rparr>)
      | RECONF_IFACE ifc \<Rightarrow> with_nconf pr (\<lambda>x. Inr (x\<lparr>xc_iface_list := clean_iface ifc # xc_iface_list x\<rparr>))
      | RECONF_TNBR tn \<Rightarrow> with_nconf pr (\<lambda>x. Inr (x\<lparr>xc_tnbr_list := tn # xc_tnbr_list x\<rparr>))
      | RECONF_NBRP np \<Rightarrow> with_nconf pr (\<lambda>x. Inr (x\<lparr>xc_nbrp_list := np # xc_nbrp_list x\<rparr>))
      | RECONF_L2VPN l \<Rightarrow>
          with_nconf pr (\<lambda>x. Inr (x\<lparr>xc_l2vpn_list := l\<lparr>cl_if_list := [], cl_pw_list := []\<rparr> # xc_l2vpn_list x\<rparr>))
      | RECONF_L2VPN_IF lif \<Rightarrow> with_nconf pr (with_nl2vpn (\<lambda>l. l\<lparr>cl_if_list := lif # cl_if_list l\<rparr>))
      | RECONF_L2VPN_PW pw \<Rightarrow> with_nconf pr (with_nl2vpn (\<lambda>l. l\<lparr>cl_pw_list := pw # cl_pw_list l\<rparr>))
      | RECONF_END \<Rightarrow>
          (case pr_nconf pr of
             None \<Rightarrow> Inl NullDeref
           | Some x \<Rightarrow>
               bindE (merge_config y (pr_engine pr, pr_l2vpn_list pr) x) (\<lambda>(s, ls).
               Inr \<lparr>pr_engine = s\<lparr>e_conf_seqnum := e_conf_seqnum s + 1\<rparr>, pr_l2vpn_list = ls, pr_nconf = None\<rparr>)))"

text \<open>The messages the parent sends for a configuration.\<close>

definition send_l2vpn :: "conf_l2vpn \<Rightarrow> reconf_imsg list" where
  "send_l2vpn l = RECONF_L2VPN l # map RECONF_L2VPN_IF (cl_if_list l) @ map RECONF_L2VPN_PW (cl_pw_list l)"

definition main_imsg_send_config :: "ldpd_conf \<Rightarrow> reconf_imsg list" where
  "main_imsg_send_config x =
     RECONF_CONF x # map RECONF_IFACE (xc_iface_list x) @ map RECONF_TNBR (xc_tnbr_list x) @
     map RECONF_NBRP (xc_nbrp_list x) @ concat (map send_l2vpn (xc_l2vpn_list x)) @ [RECONF_END]"

section \<open>What arrives is what was sent\<close>

definition rev_l2vpn :: "conf_l2vpn \<Rightarrow> conf_l2vpn" where
  "rev_l2vpn l = l\<lparr>cl_if_list := rev (cl_if_list l), cl_pw_list := rev (cl_pw_list l)\<rparr>"

definition received_conf :: "ldpd_conf \<Rightarrow> ldpd_conf" where
  "received_conf x =
     x\<lparr>xc_iface_list := rev (map clean_iface (xc_iface_list x)), xc_tnbr_list := rev (xc_tnbr_list x),
       xc_nbrp_list := rev (xc_nbrp_list x), xc_l2vpn_list := rev (map rev_l2vpn (xc_l2vpn_list x))\<rparr>"

end
