(* ===== verification/Conf_Transfer.thy ===== *)
theory Conf_Transfer
  imports Ldpe_Reload
begin

text \<open>
  The transfer of a configuration to an engine, once for both engines: each of them keeps a
  configuration under construction (\<open>nconf\<close>) that the messages of the parent extend until the last one
  merges it. What a receiver promises is that every message but the last changes \<open>nconf\<close> only.
\<close>

lemma bindE_Inr_id: "bindE m (foldE f []) = m"
  by (cases m) simp_all

lemma same_l2vpns: "xc_l2vpn_list c = ls \<Longrightarrow> c\<lparr>xc_l2vpn_list := ls\<rparr> = c"
  by auto

locale conf_receiver =
  fixes step :: "'p \<Rightarrow> reconf_imsg \<Rightarrow> 'p res"
    and nconf :: "'p \<Rightarrow> ldpd_conf option"
    and put :: "ldpd_conf \<Rightarrow> 'p \<Rightarrow> 'p"
  assumes get_put [simp]: "nconf (put x p) = Some x"
    and put_put [simp]: "put x (put x' p) = put x p"
    and on_conf: "step p (RECONF_CONF x) =
      Inr (put (x\<lparr>xc_iface_list := [], xc_tnbr_list := [], xc_nbrp_list := [], xc_l2vpn_list := []\<rparr>) p)"
    and on_iface: "nconf p = Some x \<Longrightarrow> step p (RECONF_IFACE i) = Inr (put (x\<lparr>xc_iface_list := clean_iface i # xc_iface_list x\<rparr>) p)"
    and on_tnbr: "nconf p = Some x \<Longrightarrow> step p (RECONF_TNBR t) = Inr (put (x\<lparr>xc_tnbr_list := t # xc_tnbr_list x\<rparr>) p)"
    and on_nbrp: "nconf p = Some x \<Longrightarrow> step p (RECONF_NBRP n) = Inr (put (x\<lparr>xc_nbrp_list := n # xc_nbrp_list x\<rparr>) p)"
    and on_l2vpn: "nconf p = Some x \<Longrightarrow> step p (RECONF_L2VPN l) =
      Inr (put (x\<lparr>xc_l2vpn_list := l\<lparr>cl_if_list := [], cl_pw_list := []\<rparr> # xc_l2vpn_list x\<rparr>) p)"
    and on_l2vpn_if: "nconf p = Some x \<Longrightarrow> xc_l2vpn_list x = l # ls \<Longrightarrow> step p (RECONF_L2VPN_IF f) =
      Inr (put (x\<lparr>xc_l2vpn_list := l\<lparr>cl_if_list := f # cl_if_list l\<rparr> # ls\<rparr>) p)"
    and on_l2vpn_pw: "nconf p = Some x \<Longrightarrow> xc_l2vpn_list x = l # ls \<Longrightarrow> step p (RECONF_L2VPN_PW w) =
      Inr (put (x\<lparr>xc_l2vpn_list := l\<lparr>cl_pw_list := w # cl_pw_list l\<rparr> # ls\<rparr>) p)"
begin

lemma ifaces: "foldE step (map RECONF_IFACE xs) (put c p) =
    Inr (put (c\<lparr>xc_iface_list := rev (map clean_iface xs) @ xc_iface_list c\<rparr>) p)"
  by (induction xs arbitrary: c) (simp_all add: on_iface)

lemma tnbrs: "foldE step (map RECONF_TNBR xs) (put c p) = Inr (put (c\<lparr>xc_tnbr_list := rev xs @ xc_tnbr_list c\<rparr>) p)"
  by (induction xs arbitrary: c) (simp_all add: on_tnbr)

lemma nbrps: "foldE step (map RECONF_NBRP xs) (put c p) = Inr (put (c\<lparr>xc_nbrp_list := rev xs @ xc_nbrp_list c\<rparr>) p)"
  by (induction xs arbitrary: c) (simp_all add: on_nbrp)

lemma l2vpn_ifs:
  "xc_l2vpn_list c = l # ls \<Longrightarrow> foldE step (map RECONF_L2VPN_IF xs) (put c p) =
    Inr (put (c\<lparr>xc_l2vpn_list := l\<lparr>cl_if_list := rev xs @ cl_if_list l\<rparr> # ls\<rparr>) p)"
  by (induction xs arbitrary: c l) (simp_all add: on_l2vpn_if same_l2vpns)

lemma l2vpn_pws:
  "xc_l2vpn_list c = l # ls \<Longrightarrow> foldE step (map RECONF_L2VPN_PW xs) (put c p) =
    Inr (put (c\<lparr>xc_l2vpn_list := l\<lparr>cl_pw_list := rev xs @ cl_pw_list l\<rparr> # ls\<rparr>) p)"
  by (induction xs arbitrary: c l) (simp_all add: on_l2vpn_pw same_l2vpns)

lemma l2vpn: "foldE step (send_l2vpn l) (put c p) = Inr (put (c\<lparr>xc_l2vpn_list := rev_l2vpn l # xc_l2vpn_list c\<rparr>) p)"
  by (simp add: send_l2vpn_def foldE_append on_l2vpn l2vpn_ifs l2vpn_pws rev_l2vpn_def)

lemma l2vpns: "foldE step (concat (map send_l2vpn xs)) (put c p) =
    Inr (put (c\<lparr>xc_l2vpn_list := rev (map rev_l2vpn xs) @ xc_l2vpn_list c\<rparr>) p)"
  by (induction xs arbitrary: c) (simp_all add: foldE_append l2vpn)

lemma received: "foldE step (main_imsg_send_config x) p = step (put (received_conf x) p) RECONF_END"
  by (simp add: main_imsg_send_config_def foldE_append on_conf ifaces tnbrs nbrps l2vpns received_conf_def bindE_Inr_id)

end

interpretation ldpe_receiver: conf_receiver "ldpe_reconf y" pr_nconf "\<lambda>x. pr_nconf_update (\<lambda>_. Some x)" for y
  by unfold_locales (simp_all add: ldpe_reconf_def with_nconf_def with_nl2vpn_def)

end
