(* ===== verification/Lde_Reload.thy ===== *)
theory Lde_Reload
  imports Lde_Closed Conf_Transfer
begin

text \<open>
  Reloading the configuration in the label decision engine: the messages \<^verbatim>\<open>IMSG_RECONF_*\<close> from which
  \<^verbatim>\<open>lde_dispatch_parent\<close> builds \<^verbatim>\<open>nconf\<close>, and \<^verbatim>\<open>merge_config\<close> of \<^verbatim>\<open>ldpd.c\<close> as it runs in the process
  \<^verbatim>\<open>PROC_LDE_ENGINE\<close>. Of the configuration this process reads only the flags of the address families,
  for the egress label, and the layer-2 VPNs with their pseudowires; the rest is left out here.

  A pseudowire of the new configuration that goes into a list of the engine gets a number that nothing
  in the engine refers to, and one that is freed loses its number.
\<close>

section \<open>The store of pseudowires\<close>

definition pw_refs :: "lde \<Rightarrow> nat list" where
  "pw_refs s =
     concat (map (\<lambda>l. case l2vpns s l of None \<Rightarrow> [] | Some l2 \<Rightarrow> l2_pw_list l2) (l2vpn_list s)) @
     concat (map (\<lambda>f. case fec_find (ft s) f of
                        None \<Rightarrow> [] | Some fn \<Rightarrow> (case fn_data fn of None \<Rightarrow> [] | Some d \<Rightarrow> [d])) (rb_keys (ft s)))"

definition upd_l2 :: "lde \<Rightarrow> nat \<Rightarrow> (l2vpn \<Rightarrow> l2vpn) \<Rightarrow> lde" where
  "upd_l2 s l g = s\<lparr>l2vpns := (l2vpns s)(l := map_option g (l2vpns s l))\<rparr>"

definition free_pw :: "lde \<Rightarrow> nat \<Rightarrow> lde" where
  "free_pw s d = s\<lparr>pws := (pws s)(d := None)\<rparr>"

definition set_l2_params :: "int \<Rightarrow> int \<Rightarrow> l2vpn \<Rightarrow> l2vpn" where
  "set_l2_params pw_type mtu l2 = l2\<lparr>l2_pw_type := pw_type, l2_mtu := mtu\<rparr>"

text \<open>\<^verbatim>\<open>LIST_INSERT_HEAD(&l2vpn->pw_list, xp, entry); xp->l2vpn = l2vpn;\<close>\<close>

definition add_pw :: "lde \<Rightarrow> nat \<Rightarrow> l2vpn_pw \<Rightarrow> lde \<times> nat" where
  "add_pw s l xp =
     (let d = fresh_id (pw_refs s)
      in (upd_l2 (s\<lparr>pws := (pws s)(d \<mapsto> xp\<lparr>pw_l2vpn := l\<rparr>)\<rparr>) l (\<lambda>l2. l2\<lparr>l2_pw_list := d # l2_pw_list l2\<rparr>), d))"

text \<open>A layer-2 VPN of the new configuration goes into the list with its pseudowires.\<close>

definition add_l2vpn :: "lde \<Rightarrow> conf_l2vpn \<Rightarrow> lde \<times> nat" where
  "add_l2vpn s xl =
     (let l = fresh_id (l2vpn_list s);
          s1 = s\<lparr>l2vpns := (l2vpns s)(l \<mapsto> \<lparr>l2_name = cl_name xl, l2_pw_type = cl_pw_type xl, l2_mtu = cl_mtu xl,
                                             l2_pw_list = []\<rparr>),
                 l2vpn_list := l # l2vpn_list s\<rparr>
      in (foldl (\<lambda>s xp. fst (add_pw s l xp)) s1 (rev (cl_pw_list xl)), l))"

definition l2vpn_del :: "lde \<Rightarrow> nat \<Rightarrow> lde res" where
  "l2vpn_del s l =
     bindE (get_l2vpn s l) (\<lambda>l2.
     let s1 = foldl free_pw s (l2_pw_list l2) in Inr (s1\<lparr>l2vpns := (l2vpns s1)(l := None)\<rparr>))"

section \<open>Merging\<close>

definition lde_pw_find :: "lde \<Rightarrow> l2vpn \<Rightarrow> u32 \<Rightarrow> nat option res" where
  "lde_pw_find s l2 ifindex =
     findE (\<lambda>d. bindE (get_pw s d) (\<lambda>pw. Inr (pw_ifindex pw = ifindex))) (l2_pw_list l2)"

definition lde_drop_pw :: "nat \<Rightarrow> conf_l2vpn \<Rightarrow> lde \<Rightarrow> nat \<Rightarrow> lde res" where
  "lde_drop_pw l xl s d =
     bindE (get_pw s d) (\<lambda>pw.
     if l2vpn_pw_find (cl_pw_list xl) (pw_ifindex pw) \<noteq> None then Inr s
     else bindE (l2vpn_pw_exit s d) (\<lambda>s1.
       Inr (free_pw (upd_l2 s1 l (\<lambda>l2. l2\<lparr>l2_pw_list := remove1 d (l2_pw_list l2)\<rparr>)) d)))"

text \<open>
  An existing pseudowire: \<open>reset_nbr\<close> for the flags whose change restarts the session, and \<open>reinstall\<close> for
  every change that concerns the class. While the class is installed again the layer-2 VPN has its new
  parameters, otherwise still the old ones.
\<close>

definition pw_reset_nbr :: "l2vpn_pw \<Rightarrow> l2vpn_pw \<Rightarrow> bool" where
  "pw_reset_nbr pw xp \<longleftrightarrow> pw_flags pw AND F_PW_CONF \<noteq> pw_flags xp AND F_PW_CONF"

definition pw_reinstall :: "l2vpn \<Rightarrow> conf_l2vpn \<Rightarrow> l2vpn_pw \<Rightarrow> l2vpn_pw \<Rightarrow> bool res" where
  "pw_reinstall l2 xl pw xp =
     bindE (if pw_af pw \<noteq> pw_af xp then Inr True
            else bindE (ldp_addrcmp (pw_af pw) (pw_addr pw) (pw_addr xp)) (\<lambda>c. Inr (c \<noteq> 0))) (\<lambda>reinstall_tnbr.
     Inr (l2_pw_type l2 \<noteq> cl_pw_type xl \<or> l2_mtu l2 \<noteq> cl_mtu xl \<or> pw_pwid pw \<noteq> pw_pwid xp \<or> reinstall_tnbr \<or>
          pw_reset_nbr pw xp \<or> pw_lsr_id pw \<noteq> pw_lsr_id xp))"

definition lde_update_pw :: "nat \<Rightarrow> conf_l2vpn \<Rightarrow> lde \<Rightarrow> nat \<Rightarrow> l2vpn_pw \<Rightarrow> lde res" where
  "lde_update_pw l xl s d xp =
     bindE (get_l2vpn s l) (\<lambda>l2. bindE (get_pw s d) (\<lambda>pw.
     bindE (pw_reinstall l2 xl pw xp) (\<lambda>reinstall_pwfec.
     if \<not> pw_reset_nbr pw xp \<and> reinstall_pwfec then
       bindE (l2vpn_pw_exit s d) (\<lambda>s1.
       let s2 = upd_pw s1 d (\<lambda>pw. merged_pw pw xp);
           s3 = upd_l2 s2 l (set_l2_params (cl_pw_type xl) (cl_mtu xl))
       in bindE (l2vpn_pw_init s3 d) (\<lambda>s4. Inr (upd_l2 s4 l (set_l2_params (l2_pw_type l2) (l2_mtu l2)))))
     else Inr (upd_pw s d (\<lambda>pw. merged_pw pw xp)))))"

definition lde_take_pw :: "nat \<Rightarrow> conf_l2vpn \<Rightarrow> lde \<Rightarrow> l2vpn_pw \<Rightarrow> lde res" where
  "lde_take_pw l xl s xp =
     bindE (get_l2vpn s l) (\<lambda>l2. bindE (lde_pw_find s l2 (pw_ifindex xp)) (\<lambda>r.
     case r of
       None \<Rightarrow> let (s1, d) = add_pw s l xp in l2vpn_pw_init s1 d
     | Some d \<Rightarrow> lde_update_pw l xl s d xp))"

definition lde_merge_l2vpn :: "nat \<Rightarrow> conf_l2vpn \<Rightarrow> lde \<Rightarrow> lde res" where
  "lde_merge_l2vpn l xl s =
     bindE (get_l2vpn s l) (\<lambda>l2.
     bindE (foldE (lde_drop_pw l xl) (l2_pw_list l2) s) (\<lambda>s1.
     bindE (foldE (lde_take_pw l xl) (cl_pw_list xl) s1) (\<lambda>s2.
     Inr (upd_l2 s2 l (set_l2_params (cl_pw_type xl) (cl_mtu xl))))))"

definition lde_drop_l2vpn :: "ldpd_conf \<Rightarrow> lde \<Rightarrow> nat \<Rightarrow> lde res" where
  "lde_drop_l2vpn x s l =
     bindE (get_l2vpn s l) (\<lambda>l2.
     if l2vpn_find (xc_l2vpn_list x) (l2_name l2) \<noteq> None then Inr s
     else bindE (l2vpn_exit (s\<lparr>l2vpn_list := remove1 l (l2vpn_list s)\<rparr>) l) (\<lambda>s1. l2vpn_del s1 l))"

definition lde_l2vpn_find :: "lde \<Rightarrow> string \<Rightarrow> nat option res" where
  "lde_l2vpn_find s name = findE (\<lambda>l. bindE (get_l2vpn s l) (\<lambda>l2. Inr (l2_name l2 = name))) (l2vpn_list s)"

definition lde_take_l2vpn :: "lde \<Rightarrow> conf_l2vpn \<Rightarrow> lde res" where
  "lde_take_l2vpn s xl =
     bindE (lde_l2vpn_find s (cl_name xl)) (\<lambda>r.
     case r of
       None \<Rightarrow> let (s1, l) = add_l2vpn s xl in l2vpn_init s1 l
     | Some l \<Rightarrow> lde_merge_l2vpn l xl s)"

definition lde_merge_l2vpns :: "lde \<Rightarrow> ldpd_conf \<Rightarrow> lde res" where
  "lde_merge_l2vpns s x =
     bindE (foldE (lde_drop_l2vpn x) (l2vpn_list s) s) (\<lambda>s1. foldE lde_take_l2vpn (xc_l2vpn_list x) s1)"

definition lde_merge_config :: "lde \<Rightarrow> ldpd_conf \<Rightarrow> lde res" where
  "lde_merge_config s x =
     bindE (lde_set_af_flags s AF_INET (ac_flags (xc_ipv4 x))) (\<lambda>s1.
     bindE (lde_set_af_flags s1 AF_INET6 (ac_flags (xc_ipv6 x))) (\<lambda>s2.
     lde_merge_l2vpns s2 x))"

section \<open>The process\<close>

record lde_proc =
  lp_lde :: lde
  lp_nconf :: "ldpd_conf option"

definition lde_with_nconf :: "lde_proc \<Rightarrow> (ldpd_conf \<Rightarrow> ldpd_conf res) \<Rightarrow> lde_proc res" where
  "lde_with_nconf pr f =
     (case lp_nconf pr of None \<Rightarrow> Inl NullDeref | Some x \<Rightarrow> bindE (f x) (\<lambda>x1. Inr (pr\<lparr>lp_nconf := Some x1\<rparr>)))"

definition lde_reconf :: "lde_proc \<Rightarrow> reconf_imsg \<Rightarrow> lde_proc res" where
  "lde_reconf pr m =
     (case m of
        RECONF_CONF x \<Rightarrow>
          Inr (pr\<lparr>lp_nconf := Some (x\<lparr>xc_iface_list := [], xc_tnbr_list := [], xc_nbrp_list := [], xc_l2vpn_list := []\<rparr>)\<rparr>)
      | RECONF_IFACE ifc \<Rightarrow> lde_with_nconf pr (\<lambda>x. Inr (x\<lparr>xc_iface_list := clean_iface ifc # xc_iface_list x\<rparr>))
      | RECONF_TNBR tn \<Rightarrow> lde_with_nconf pr (\<lambda>x. Inr (x\<lparr>xc_tnbr_list := tn # xc_tnbr_list x\<rparr>))
      | RECONF_NBRP np \<Rightarrow> lde_with_nconf pr (\<lambda>x. Inr (x\<lparr>xc_nbrp_list := np # xc_nbrp_list x\<rparr>))
      | RECONF_L2VPN l \<Rightarrow>
          lde_with_nconf pr (\<lambda>x. Inr (x\<lparr>xc_l2vpn_list := l\<lparr>cl_if_list := [], cl_pw_list := []\<rparr> # xc_l2vpn_list x\<rparr>))
      | RECONF_L2VPN_IF lif \<Rightarrow> lde_with_nconf pr (with_nl2vpn (\<lambda>l. l\<lparr>cl_if_list := lif # cl_if_list l\<rparr>))
      | RECONF_L2VPN_PW pw \<Rightarrow> lde_with_nconf pr (with_nl2vpn (\<lambda>l. l\<lparr>cl_pw_list := pw # cl_pw_list l\<rparr>))
      | RECONF_END \<Rightarrow>
          (case lp_nconf pr of
             None \<Rightarrow> Inl NullDeref
           | Some x \<Rightarrow> bindE (lde_merge_config (lp_lde pr) x) (\<lambda>s. Inr \<lparr>lp_lde = s, lp_nconf = None\<rparr>)))"

interpretation lde_receiver: conf_receiver lde_reconf lp_nconf "\<lambda>x. lp_nconf_update (\<lambda>_. Some x)"
  by unfold_locales (simp_all add: lde_reconf_def lde_with_nconf_def with_nl2vpn_def)

definition lde_proc_start :: lde_proc where
  "lde_proc_start = \<lparr>lp_lde = lde_start (\<lambda>_. None) (\<lambda>_. None) [] 0 0, lp_nconf = None\<rparr>"

text \<open>
  \<^verbatim>\<open>lde_shutdown\<close>: the neighbours, the classes and the configuration are cleared. \<^verbatim>\<open>config_clear\<close> merges an
  empty configuration with the same flags.
\<close>

definition lde_empty_conf :: "lde \<Rightarrow> ldpd_conf" where
  "lde_empty_conf s =
     (let af = (\<lambda>fl. \<lparr>ac_keepalive = 0, ac_thello_holdtime = 0, ac_thello_interval = 0, ac_trans_addr = replicate 16 0,
                        ac_flags = fl\<rparr>)
      in \<lparr>xc_rtr_id = 0, xc_ipv4 = af (ipv4_flags s), xc_ipv6 = af (ipv6_flags s), xc_iface_list = [],
          xc_tnbr_list = [], xc_nbrp_list = [], xc_l2vpn_list = [], xc_trans_pref = 0, xc_flags = 0\<rparr>)"

definition fec_tree_clear :: "lde \<Rightarrow> lde" where
  "fec_tree_clear s = s\<lparr>ft := fst (fec_clear (ft s) (\<lambda>_ u. u) ())\<rparr>"

definition lde_shutdown :: "lde \<Rightarrow> lde res" where
  "lde_shutdown s =
     bindE (lde_nbr_clear s) (\<lambda>s1.
     let s2 = fec_tree_clear s1 in lde_merge_config s2 (lde_empty_conf s2))"

end
