(* ===== verification/Lde_ReloadSafe.thy ===== *)
theory Lde_ReloadSafe
  imports Lde_Reload
begin

text \<open>
  A reload in the label decision engine keeps the invariant of the engine: no class points to a
  pseudowire that has been freed. A class points to the pseudowire that names it, so \<^verbatim>\<open>l2vpn_pw_exit\<close>,
  which looks the class up by the current parameters of the pseudowire, finds it. This is lost when the
  parameters change while the class stays installed; \<open>reload_clean\<close> excludes the two changes of the
  configuration that do so.
\<close>

section \<open>Pseudowires and the classes that point to them\<close>

definition pw_class :: "int \<Rightarrow> l2vpn_pw \<Rightarrow> fec" where
  "pw_class t pw = FEC_PWID (of_int t) (pw_pwid pw) (pw_lsr_id pw)"

text \<open>
  A class that points to a pseudowire is that of the pseudowire, with the type of pseudowire \<open>t\<close>; a
  pseudowire class has no next hop and points nowhere, or has the remote end as its next hop. The
  classes in \<open>X\<close> are being installed or removed and have no next hop.
\<close>

definition pw_node_ok :: "fec set \<Rightarrow> (nat \<Rightarrow> int) \<Rightarrow> (nat \<Rightarrow> l2vpn_pw option) \<Rightarrow> fec \<Rightarrow> fec_node \<Rightarrow> bool" where
  "pw_node_ok X t ps f fn \<longleftrightarrow>
     (\<forall>d. fn_data fn = Some d \<longrightarrow> (\<exists>pw. ps d = Some pw \<and> f = pw_class (t d) pw)) \<and>
     (\<forall>ty i r. f = FEC_PWID ty i r \<longrightarrow>
        (if f \<in> X then nh_keys fn = []
         else nh_keys fn = [] \<and> fn_data fn = None \<or> nh_keys fn = [(AF_INET, of_v4 r, 0)]))"

definition pwJ :: "fec set \<Rightarrow> (nat \<Rightarrow> int) \<Rightarrow> lde \<Rightarrow> bool" where
  "pwJ X t s \<longleftrightarrow> (\<forall>f fn. fec_find (ft s) f = Some fn \<longrightarrow> pw_node_ok X t (pws s) f fn)"

lemma pw_conf_class: "pw_conf pw = pw_conf pw' \<Longrightarrow> pw_class ty pw = pw_class ty pw'"
  by (simp add: pw_class_def pw_conf_def pw_core_def)

lemma pwJ_node: "pwJ X t s \<Longrightarrow> fec_find (ft s) f = Some fn \<Longrightarrow> pw_node_ok X t (pws s) f fn"
  by (simp add: pwJ_def)

lemma pwJ_cong: "pwJ X t s \<Longrightarrow> ft s' = ft s \<Longrightarrow> pws s' = pws s \<Longrightarrow> pwJ X t s'"
  by (simp add: pwJ_def)

lemma pw_node_empty: "pw_node_ok X t ps f empty_node"
  by (simp add: pw_node_ok_def empty_node_def nh_keys_def)

lemma fec_add_find: "fec_find (ft s) f = None \<Longrightarrow> fec_find (ft (fec_add s f)) g = (if g = f then Some empty_node else fec_find (ft s) g)"
  by (simp add: fec_add_def fec_find_simps)

lemma pwJ_upd_fn_X:
  assumes "pwJ X t s" "\<And>g fn. g \<noteq> f \<Longrightarrow> pw_node_ok X t (pws s) g fn \<Longrightarrow> pw_node_ok Y t (pws s) g fn"
    and "\<And>fn. fec_find (ft s) f = Some fn \<Longrightarrow> pw_node_ok X t (pws s) f fn \<Longrightarrow> pw_node_ok Y t (pws s) f (k fn)"
  shows "pwJ Y t (upd_fn s f k)"
  using assms by (auto simp: pwJ_def)

lemma pwJ_upd_pw:
  assumes j: "pwJ X t s" and h: "\<And>pw. pws s d = Some pw \<Longrightarrow> pw_class (t d) (h pw) = pw_class (t d) pw"
  shows "pwJ X t (upd_pw s d h)"
proof -
  have "pw_node_ok X t (pws (upd_pw s d h)) f fn" if "pw_node_ok X t (pws s) f fn" for f fn
    using that h by (fastforce simp: pw_node_ok_def)
  then show ?thesis using j by (simp add: pwJ_def)
qed

interpretation pwj: lde_closed "pwJ X t" for X t
proof
  fix s f assume "pwJ X t s" "fec_find (ft s) f = None"
  moreover have "pws (fec_add s f) = pws s" by (simp add: fec_add_def)
  ultimately show "pwJ X t (fec_add s f)" by (auto simp: pwJ_def fec_add_find pw_node_empty split: if_splits)
next
  fix s f fn assume "pwJ X t s" "fec_find (ft s) f = Some fn"
  then show "pwJ X t (s\<lparr>ft := fst (fec_remove (ft s) f)\<rparr>)"
    by (auto simp: pwJ_def fec_find_simps split: if_splits)
next
  fix s d h assume "pwJ X t s" "\<And>pw. pws s d = Some pw \<Longrightarrow> pw_conf (h pw) = pw_conf pw"
  then show "pwJ X t (upd_pw s d h)" by (intro pwJ_upd_pw) (auto intro: pw_conf_class)
next
  fix s f k assume "pwJ X t s" "\<And>fn. fec_find (ft s) f = Some fn \<Longrightarrow> node_kept f (k fn) fn"
  then show "pwJ X t (upd_fn s f k)"
    by (intro pwJ_upd_fn_X) (auto simp: node_kept_def pw_node_ok_def)
qed (auto simp: emit_def upd_ln_def elim!: pwJ_cong)

section \<open>Starting and ending a pseudowire\<close>

lemma nh_find_keys:
  "nh_keys fn = [] \<Longrightarrow> fec_nh_find fn AF_INET a p = Inr None"
  "nh_keys fn = [(AF_INET, a, p)] \<Longrightarrow> fec_nh_find fn AF_INET a p = Inr (Some 0)"
proof -
  show "nh_keys fn = [] \<Longrightarrow> fec_nh_find fn AF_INET a p = Inr None"
    by (simp add: nh_keys_def fec_nh_find_def)
  assume "nh_keys fn = [(AF_INET, a, p)]"
  then obtain nh where "fn_nexthops fn = [nh]" "nh_af nh = AF_INET" "nh_nexthop nh = a" "nh_priority nh = p"
    by (auto simp: nh_keys_def)
  then show "fec_nh_find fn AF_INET a p = Inr (Some 0)"
    using ldp_addrcmp_eq_0 [of AF_INET a a] by (auto simp: fec_nh_find_def)
qed

lemma pwJ_weaken: "pwJ {} t s \<Longrightarrow> (\<And>fn. fec_find (ft s) f = Some fn \<Longrightarrow> nh_keys fn = []) \<Longrightarrow> pwJ {f} t s"
  by (auto simp: pwJ_def pw_node_ok_def)

lemma pwJ_strengthen:
  "pwJ {f} t s \<Longrightarrow> (\<And>fn. fec_find (ft s) f = Some fn \<Longrightarrow> fn_data fn = None) \<Longrightarrow> pwJ {} t s"
  unfolding pwJ_def pw_node_ok_def by (metis empty_iff singletonD)

lemma pw_node_other: "g \<noteq> f \<Longrightarrow> pw_node_ok {f} t ps g fn = pw_node_ok {} t ps g fn"
  by (cases g) (auto simp: pw_node_ok_def)

lemma pwJ_nh_add: "pwJ {FEC_PWID ty i r} t s \<Longrightarrow> pwJ {} t (fec_nh_add s (FEC_PWID ty i r) AF_INET (of_v4 r) 0)"
  unfolding fec_nh_add_def
  by (erule pwJ_upd_fn_X) (simp add: pw_node_other, simp add: pw_node_ok_def nh_keys_def)

lemma pwJ_nh_del:
  assumes "pwJ {} t s" "\<And>fn. fec_find (ft s) f = Some fn \<Longrightarrow> length (nh_keys fn) \<le> 1"
  shows "pwJ {f} t (fec_nh_del s f 0)"
  unfolding fec_nh_del_def
proof (rule pwJ_upd_fn_X [OF assms(1)])
  fix fn assume "fec_find (ft s) f = Some fn" "pw_node_ok {} t (pws s) f fn"
  moreover have "drop (Suc 0) (fn_nexthops fn) = []" using assms(2) [OF calculation(1)] by (simp add: nh_keys_def)
  ultimately show "pw_node_ok {f} t (pws s) f (fn\<lparr>fn_nexthops := take 0 (fn_nexthops fn) @ drop (Suc 0) (fn_nexthops fn)\<rparr>)"
    by (auto simp: pw_node_ok_def nh_keys_def)
qed (simp add: pw_node_other)

lemma pwJ_set_data:
  assumes "pwJ {f} t s" "\<forall>e. da = Some e \<longrightarrow> (\<exists>pw. pws s e = Some pw \<and> f = pw_class (t e) pw)"
  shows "pwJ {f} t (upd_fn s f (\<lambda>fn. fn\<lparr>fn_data := da\<rparr>))"
  using assms by (intro pwJ_upd_fn_X) (auto simp: pw_node_ok_def nh_keys_def)

lemma partE_ifI: "(b \<Longrightarrow> partE x P) \<Longrightarrow> (\<not> b \<Longrightarrow> partE y P) \<Longrightarrow> partE (if b then x else y) P"
  by simp

lemma pw_insert_pwJ:
  assumes j: "pwJ {} t s" and d: "pws s d = Some pw" and f: "f = pw_class (t d) pw"
  shows "partE (lde_kernel_insert s f AF_INET (of_v4 (pw_lsr_id pw)) 0 False (Some d)) (pwJ {} t)"
proof -
  define s1 where "s1 = fec_find_or_add s f"
  have fP: "f = FEC_PWID (of_int (t d)) (pw_pwid pw) (pw_lsr_id pw)" using f by (simp add: pw_class_def)
  have j1: "pwJ {} t s1" unfolding s1_def by (intro closed_intros j)
  have d1: "pws s1 d = Some pw" using d by (simp add: s1_def fec_find_or_add_def fec_add_def)
  define s2 where "s2 = upd_fn s1 f (\<lambda>fn. fn\<lparr>fn_data := Some d\<rparr>)"
  have sel: "(case f of FEC_PWID _ _ _ \<Rightarrow> upd_fn s1 f (\<lambda>fn. fn\<lparr>fn_data := Some d\<rparr>) | _ \<Rightarrow> s1) = s2"
    by (simp add: fP s2_def)
  have j2: "pwJ {f} t s2" if "fec_find (ft s1) f = Some fn" "fec_nh_find fn AF_INET (of_v4 (pw_lsr_id pw)) 0 = Inr None" for fn
  proof -
    have "nh_keys fn = []" using pwJ_node [OF j1 that(1)] that(2) nh_find_keys(2) fP by (auto simp: pw_node_ok_def)
    then have "pwJ {f} t s1" using that by (intro pwJ_weaken [OF j1]) auto
    then show ?thesis unfolding s2_def by (rule pwJ_set_data) (use d1 f in auto)
  qed
  have j6: "pwJ {f} t s5 \<Longrightarrow> pwJ {} t (fec_nh_add s5 f AF_INET (of_v4 (pw_lsr_id pw)) 0)" for s5
    unfolding fP by (rule pwJ_nh_add)
  show ?thesis
    unfolding lde_kernel_insert_def Let_def s1_def [symmetric] sel
    apply (rule partE_any)
    apply (rule partE_any)
    apply (rule partE_ifI)
     apply (simp add: j1)
    apply (rule partE_bind [where Q = "pwJ {f} t"])
     apply (auto simp: split_beta node_kept_def nh_keys_def intro!: closed_intros j2 split: if_splits)[1]
    apply (rule partE_bind [OF pwj.klabel(1) [OF j6]], assumption)
    apply (auto intro!: closed_intros read_any split: option.splits)
    done
qed

lemma pw_init_pwJ:
  assumes j: "pwJ {} t s" and d: "pws s d = Some pw" and l: "l2vpns s (pw_l2vpn pw) = Some l2"
    and ty: "l2_pw_type l2 = t d"
  shows "partE (l2vpn_pw_init s d) (pwJ {} t)"
proof -
  have "pwJ {} t (l2vpn_pw_reset s d)" by (intro closed_intros j)
  moreover have "pws (l2vpn_pw_reset s d) d = Some (pw_reset pw)" using d by (simp add: l2vpn_pw_reset_def)
  moreover have "l2vpn_pw_fec (l2vpn_pw_reset s d) (pw_reset pw) = Inr (pw_class (t d) (pw_reset pw))"
    using l ty by (simp add: l2vpn_pw_fec_def l2vpn_pw_reset_def pw_class_def get_l2vpn_def pw_reset_def Let_def)
  ultimately show ?thesis using pw_insert_pwJ [of t "l2vpn_pw_reset s d" d "pw_reset pw"] by (simp add: l2vpn_pw_init_def get_pw_def)
qed

lemma pw_remove_pwJ:
  assumes j: "pwJ {} t s" and f: "f = FEC_PWID ty i r"
  shows "partE (lde_kernel_remove s f AF_INET (of_v4 r) 0)
    (\<lambda>u. pwJ {} t u \<and> (\<forall>fn. fec_find (ft u) f = Some fn \<longrightarrow> fn_data fn = None))"
proof (cases "fec_find (ft s) f")
  case None
  with j show ?thesis by (simp add: lde_kernel_remove_def)
next
  case (Some fn)
  have n: "pw_node_ok {} t (pws s) f fn" by (rule pwJ_node [OF j Some])
  show ?thesis
  proof (cases "nh_keys fn = []")
    case True
    with n f have "fn_data fn = None" by (simp add: pw_node_ok_def)
    with True Some j show ?thesis by (simp add: lde_kernel_remove_def nh_find_keys)
  next
    case False
    with n f have k: "nh_keys fn = [(AF_INET, of_v4 r, 0)]" by (simp add: pw_node_ok_def)
    have one: "pw_node_ok {} t ps f fn1 \<Longrightarrow> length (nh_keys fn1) \<le> 1" for ps fn1
      by (auto simp: pw_node_ok_def f)
    have del: "pwJ {f} t (fec_nh_del s1 f 0)" if "pwJ {} t s1" for s1
      by (rule pwJ_nh_del [OF that one [OF pwJ_node [OF that]]])
    have last: "pwJ {} t (upd_fn s3 f (\<lambda>fn. fn\<lparr>fn_data := None\<rparr>))" if "pwJ {f} t s3" for s3
      by (rule pwJ_strengthen [OF pwJ_set_data [OF that]]) auto
    have lab: "pwJ {f} t (upd_fn s3 f (\<lambda>fn. fn\<lparr>fn_local_label := NO_LABEL\<rparr>))" if "pwJ {f} t s3" for s3
      by (rule pwj.upd_fn [OF that]) (simp add: node_kept_def nh_keys_def)
    have empty: "fn_nexthops fn2 = []" if "pwJ {f} t s2" "fec_find (ft s2) f = Some fn2" for s2 fn2
      using pwJ_node [OF that] by (simp add: pw_node_ok_def f nh_keys_def)
    show ?thesis
      unfolding lde_kernel_remove_def Some option.case nh_find_keys(2) [OF k] bindE_simps Let_def
      apply (rule partE_bind [OF pwj.klabel(2) [OF j]])
      apply (rule partE_any)
      apply (simp add: empty [OF del])
      apply (rule partE_bind [OF pwj.labelwithdraw_all [OF del]], assumption)
      apply (auto simp: f intro!: last [unfolded f] lab [unfolded f])
      done
  qed
qed

text \<open>The configuration itself is changed by no handler.\<close>

definition same_conf :: "lde \<Rightarrow> lde \<Rightarrow> bool" where
  "same_conf s0 s \<longleftrightarrow>
     l2vpns s = l2vpns s0 \<and> l2vpn_list s = l2vpn_list s0 \<and>
     (\<forall>d. map_option pw_conf (pws s d) = map_option pw_conf (pws s0 d))"

interpretation sc: lde_closed_pws "same_conf s0" for s0
proof
  fix s d h assume s: "same_conf s0 s" and h: "\<And>pw. pws s d = Some pw \<Longrightarrow> pw_conf (h pw) = pw_conf pw"
  have "map_option pw_conf (map_option h (pws s d)) = map_option pw_conf (pws s d)"
    using h by (cases "pws s d") auto
  with s show "same_conf s0 (upd_pw s d h)" by (simp add: same_conf_def)
qed (auto simp: same_conf_def emit_def upd_ln_def upd_fn_def fec_add_def)

lemma same_conf_refl [simp]: "same_conf s s"
  by (simp add: same_conf_def)

lemma same_conf_pw:
  assumes "same_conf s t" "pws s d = Some pw"
  obtains pw' where "pws t d = Some pw'" "pw_conf pw' = pw_conf pw"
  using assms unfolding same_conf_def by (metis (no_types, lifting) map_option_eq_Some)


definition unref :: "nat \<Rightarrow> lde \<Rightarrow> bool" where
  "unref d s \<longleftrightarrow> (\<forall>f fn. fec_find (ft s) f = Some fn \<longrightarrow> fn_data fn \<noteq> Some d)"

lemma pw_exit_pwJ:
  assumes j: "pwJ {} t s" and d: "pws s d = Some pw" and l: "l2vpns s (pw_l2vpn pw) = Some l2"
    and ty: "l2_pw_type l2 = t d"
  shows "partE (l2vpn_pw_exit s d) (\<lambda>u. pwJ {} t u \<and> same_conf s u \<and> unref d u)"
proof -
  have f: "l2vpn_pw_fec s pw = Inr (pw_class (t d) pw)"
    using l ty by (simp add: l2vpn_pw_fec_def pw_class_def get_l2vpn_def)
  have "unref d u" if u: "pwJ {} t u" "same_conf s u"
    and n: "\<forall>fn. fec_find (ft u) (pw_class (t d) pw) = Some fn \<longrightarrow> fn_data fn = None" for u
  proof -
    obtain pw' where pw': "pws u d = Some pw'" "pw_conf pw' = pw_conf pw" using same_conf_pw [OF u(2) d] .
    show ?thesis unfolding unref_def
    proof (intro allI impI notI)
      fix f fn assume fn: "fec_find (ft u) f = Some fn" "fn_data fn = Some d"
      then have "f = pw_class (t d) pw" using pwJ_node [OF u(1) fn(1)] pw' pw_conf_class [OF pw'(2), of "t d"] by (auto simp: pw_node_ok_def)
      with fn n show False by simp
    qed
  qed
  moreover have "partE (lde_kernel_remove s (pw_class (t d) pw) AF_INET (of_v4 (pw_lsr_id pw)) 0) (same_conf s)"
    by (rule sc.kernel_remove_pw) simp
  moreover have "partE (lde_kernel_remove s (pw_class (t d) pw) AF_INET (of_v4 (pw_lsr_id pw)) 0)
      (\<lambda>u. pwJ {} t u \<and> (\<forall>fn. fec_find (ft u) (pw_class (t d) pw) = Some fn \<longrightarrow> fn_data fn = None))"
    by (rule pw_remove_pwJ [OF j]) (simp add: pw_class_def)
  ultimately show ?thesis using d f by (simp add: l2vpn_pw_exit_def get_pw_def) (auto simp: partE_def)
qed

section \<open>The store\<close>

text \<open>
  The lists of layer-2 VPNs and pseudowires, with their owners. The layer-2 VPNs in \<open>L\<close> are off the list
  and about to be freed.
\<close>

definition pw_list_ok :: "lde \<Rightarrow> nat \<Rightarrow> l2vpn \<Rightarrow> bool" where
  "pw_list_ok s l l2 \<longleftrightarrow>
     distinct (l2_pw_list l2) \<and>
     (\<forall>d\<in>set (l2_pw_list l2). \<exists>pw. pws s d = Some pw \<and> pw_l2vpn pw = l) \<and>
     (\<forall>d\<in>set (l2_pw_list l2). \<forall>e\<in>set (l2_pw_list l2).
        map_option pw_ifindex (pws s d) = map_option pw_ifindex (pws s e) \<longrightarrow> d = e)"

definition pw_owned :: "lde \<Rightarrow> nat \<Rightarrow> l2vpn_pw \<Rightarrow> bool" where
  "pw_owned s d pw \<longleftrightarrow>
     pw_af pw \<noteq> AF_UNSPEC \<and> (\<exists>l2. l2vpns s (pw_l2vpn pw) = Some l2 \<and> d \<in> set (l2_pw_list l2))"

definition store_ok :: "nat set \<Rightarrow> lde \<Rightarrow> bool" where
  "store_ok L s \<longleftrightarrow>
     distinct (l2vpn_list s) \<and> dom (l2vpns s) = set (l2vpn_list s) \<union> L \<and>
     (\<forall>l l2. l2vpns s l = Some l2 \<longrightarrow> pw_list_ok s l l2) \<and>
     (\<forall>d pw. pws s d = Some pw \<longrightarrow> pw_owned s d pw)"

lemma store_conf_ok: "store_ok L s \<Longrightarrow> conf_ok s"
  unfolding store_ok_def conf_ok_def pw_list_ok_def pw_owned_def by (auto simp: dom_def) blast+

lemma map_pw_conf:
  assumes "map_option pw_conf x = map_option pw_conf y" and g: "\<And>a b. pw_conf a = pw_conf b \<Longrightarrow> g a = g b"
  shows "map_option g x = map_option g y"
proof (cases x)
  case None
  with assms(1) show ?thesis by simp
next
  case (Some a)
  with assms(1) obtain b where "y = Some b" "pw_conf a = pw_conf b" by (cases y) auto
  with Some g [of a b] show ?thesis by simp
qed

lemma pw_conf_sel:
  "pw_conf a = pw_conf b \<Longrightarrow> pw_l2vpn a = pw_l2vpn b \<and> pw_af a = pw_af b \<and> pw_ifindex a = pw_ifindex b \<and>
     pw_pwid a = pw_pwid b \<and> pw_lsr_id a = pw_lsr_id b \<and> pw_addr a = pw_addr b \<and>
     pw_conf_flags (pw_flags a) = pw_conf_flags (pw_flags b)"
  by (simp add: pw_conf_def pw_core_def)

lemma same_conf_store:
  assumes st: "store_ok L s" and c: "same_conf s u"
  shows "store_ok L u"
proof -
  have l: "l2vpns u = l2vpns s" "l2vpn_list u = l2vpn_list s" using c by (simp_all add: same_conf_def)
  have conf: "map_option pw_conf (pws u d) = map_option pw_conf (pws s d)" for d using c by (simp add: same_conf_def)
  have idx: "map_option pw_ifindex (pws u d) = map_option pw_ifindex (pws s d)" for d
    by (rule map_pw_conf [OF conf]) (drule pw_conf_sel, simp)
  have own: "map_option pw_l2vpn (pws u d) = map_option pw_l2vpn (pws s d)" for d
    by (rule map_pw_conf [OF conf]) (drule pw_conf_sel, simp)
  have af: "map_option pw_af (pws u d) = map_option pw_af (pws s d)" for d
    by (rule map_pw_conf [OF conf]) (drule pw_conf_sel, simp)
  have "(\<exists>pw. pws u d = Some pw \<and> pw_l2vpn pw = k) = (\<exists>pw. pws s d = Some pw \<and> pw_l2vpn pw = k)" for d k
    using own [of d] by (cases "pws u d"; cases "pws s d") auto
  then have lists: "pw_list_ok u k l2 = pw_list_ok s k l2" for k l2 by (simp add: pw_list_ok_def idx)
  have "pw_owned u d pw" if d: "pws u d = Some pw" for d pw
  proof -
    obtain pw0 where "pws s d = Some pw0" "pw_af pw = pw_af pw0" "pw_l2vpn pw = pw_l2vpn pw0"
      using d own [of d] af [of d] by (cases "pws s d") auto
    then show ?thesis using st by (auto simp: store_ok_def pw_owned_def l)
  qed
  with st show ?thesis by (simp add: store_ok_def l lists)
qed

section \<open>Steps of a merge\<close>

definition midv :: "nat set \<Rightarrow> (nat \<Rightarrow> int) \<Rightarrow> lde \<Rightarrow> bool" where
  "midv L t s \<longleftrightarrow> lde_inv s \<and> store_ok L s \<and> pwJ {} t s"

lemma store_pw:
  assumes "store_ok L s" "l2vpns s l = Some l2" "d \<in> set (l2_pw_list l2)"
  obtains pw where "pws s d = Some pw" "pw_l2vpn pw = l"
  using assms unfolding store_ok_def pw_list_ok_def by blast

lemma pwJ_live: "pwJ X t s \<Longrightarrow> fec_find (ft s) f = Some fn \<Longrightarrow> fn_data fn = Some d \<Longrightarrow> pws s d \<noteq> None"
  using pwJ_node [of X t s f fn] by (auto simp: pw_node_ok_def)

lemma exit_mid:
  assumes m: "midv L t s" and d: "pws s d = Some pw" and l: "l2vpns s (pw_l2vpn pw) = Some l2" and ty: "l2_pw_type l2 = t d"
  shows "okE (l2vpn_pw_exit s d) (\<lambda>u. midv L t u \<and> same_conf s u \<and> unref d u)"
proof -
  have "okE (l2vpn_pw_exit s d) lde_inv" using m d by (intro l2vpn_pw_exit_inv) (auto simp: midv_def pw_valid_def)
  moreover have j: "pwJ {} t s" using m by (simp add: midv_def)
  ultimately have "okE (l2vpn_pw_exit s d) (\<lambda>u. lde_inv u \<and> pwJ {} t u \<and> same_conf s u \<and> unref d u)"
    by (intro partE_okE pw_exit_pwJ [OF j d l ty])
  then show ?thesis by (rule okE_mono) (use m in \<open>auto simp: midv_def intro: same_conf_store\<close>)
qed

lemma init_mid:
  assumes m: "midv L t s" and d: "pws s d = Some pw" and l: "l2vpns s (pw_l2vpn pw) = Some l2" and ty: "l2_pw_type l2 = t d"
  shows "okE (l2vpn_pw_init s d) (\<lambda>u. midv L t u \<and> same_conf s u)"
proof -
  have "okE (l2vpn_pw_init s d) lde_inv" using m d by (intro l2vpn_pw_init_inv) (auto simp: midv_def pw_valid_def)
  moreover have j: "pwJ {} t s" using m by (simp add: midv_def)
  have "partE (l2vpn_pw_init s d) (\<lambda>u. pwJ {} t u \<and> same_conf s u)"
    using pw_init_pwJ [OF j d l ty] sc.pw_events(1) [of s s d] by (auto simp: partE_def)
  ultimately have "okE (l2vpn_pw_init s d) (\<lambda>u. lde_inv u \<and> pwJ {} t u \<and> same_conf s u)" by (rule partE_okE [rotated])
  then show ?thesis by (rule okE_mono) (use m in \<open>auto simp: midv_def intro: same_conf_store\<close>)
qed

lemma lde_inv_conf:
  assumes inv: "lde_inv s" and eq: "ft u = ft s" "lde_nbrs u = lde_nbrs s" and c: "conf_ok u"
    and d: "\<And>f fn d. fec_find (ft s) f = Some fn \<Longrightarrow> fn_data fn = Some d \<Longrightarrow> pws u d \<noteq> None"
  shows "lde_inv u"
proof -
  have m: "has_recv_map u = has_recv_map s" "has_sent_map u = has_sent_map s" "recv_ok u = recv_ok s"
    by (auto simp: fun_eq_iff has_recv_map_def has_sent_map_def recv_ok_def eq)
  have "node_ok u f fn" if "fec_find (ft s) f = Some fn" for f fn
    using inv d [OF that] that by (auto simp: lde_inv_def node_ok_def m)
  then show ?thesis using inv c by (simp add: lde_inv_def eq m)
qed

lemma pwJ_unref:
  assumes j: "pwJ X t s" and u: "unref d s" and "ft s' = ft s" "\<And>e. e \<noteq> d \<Longrightarrow> pws s' e = pws s e \<and> t' e = t e"
  shows "pwJ X t' s'"
  unfolding pwJ_def
proof (intro allI impI)
  fix f fn assume "fec_find (ft s') f = Some fn"
  then have "pw_node_ok X t (pws s) f fn" "fn_data fn \<noteq> Some d" using pwJ_node [OF j] u assms(3) by (auto simp: unref_def)
  then show "pw_node_ok X t' (pws s') f fn" using assms(4) unfolding pw_node_ok_def by metis
qed

text \<open>A change of the store that leaves the classes alone and touches no pseudowire in use but \<open>d\<close>.\<close>

lemma midv_change:
  assumes m: "midv L t s" and eq: "ft u = ft s" "lde_nbrs u = lde_nbrs s" and st: "store_ok L' u"
    and d: "unref d s" "\<And>e. e \<noteq> d \<Longrightarrow> pws u e = pws s e \<and> t' e = t e"
  shows "midv L' t' u"
proof -
  have j: "pwJ {} t' u" by (rule pwJ_unref [OF _ d(1) eq(1) d(2)]) (use m in \<open>simp add: midv_def\<close>)
  have "lde_inv u"
  proof (rule lde_inv_conf [OF _ eq store_conf_ok [OF st]])
    fix f fn e assume "fec_find (ft s) f = Some fn" "fn_data fn = Some e"
    then show "pws u e \<noteq> None" using pwJ_live [OF j, of f fn e] eq by simp
  qed (use m in \<open>simp add: midv_def\<close>)
  with st j show ?thesis by (simp add: midv_def)
qed

lemma midv_upd_l2:
  assumes m: "midv L t s" and g: "\<And>l2. l2_pw_list (g l2) = l2_pw_list l2"
  shows "midv L t (upd_l2 s l g)"
proof -
  have e: "l2vpns (upd_l2 s l g) = (l2vpns s)(l := map_option g (l2vpns s l))" by (simp add: upd_l2_def)
  have "store_ok L s" "pwJ {} t s" "lde_inv s" using m by (simp_all add: midv_def)
  then have st: "store_ok L (upd_l2 s l g)"
    unfolding store_ok_def pw_list_ok_def pw_owned_def
    by (auto simp: upd_l2_def g dom_def split: if_splits) (metis g option.map(2))+
  have j: "pwJ {} t (upd_l2 s l g)" using \<open>pwJ {} t s\<close> by (rule pwJ_cong) (simp_all add: upd_l2_def)
  have "lde_inv (upd_l2 s l g)"
    by (rule lde_inv_conf [OF \<open>lde_inv s\<close> _ _ store_conf_ok [OF st]])
      (simp_all add: upd_l2_def pwJ_live [OF \<open>pwJ {} t s\<close>])
  with st j show ?thesis by (simp add: midv_def)
qed

lemma midv_free:
  assumes m: "midv L t s" and u: "unref d s" and d: "pws s d = Some pw" and l: "l2vpns s (pw_l2vpn pw) = Some l2"
  shows "midv L t (free_pw (upd_l2 s (pw_l2vpn pw) (\<lambda>l2. l2\<lparr>l2_pw_list := remove1 d (l2_pw_list l2)\<rparr>)) d)" (is "midv L t ?u")
proof (rule midv_change [OF m _ _ _ u])
  have st: "store_ok L s" using m by (simp add: midv_def)
  let ?l = "pw_l2vpn pw"
  have l': "l2vpns ?u = (l2vpns s)(?l \<mapsto> l2\<lparr>l2_pw_list := remove1 d (l2_pw_list l2)\<rparr>)"
    using l by (simp add: free_pw_def upd_l2_def)
  have p': "pws ?u = (pws s)(d := None)" by (simp add: free_pw_def upd_l2_def)
  have other: "d \<notin> set (l2_pw_list x)" if "l2vpns s k = Some x" "k \<noteq> ?l" for k x
    using store_pw [OF st that(1), of d] that(2) d by auto
  have ok: "pw_list_ok s k x" if "l2vpns s k = Some x" for k x using st that by (simp add: store_ok_def)
  have dist: "distinct (l2_pw_list l2)" using ok [OF l] by (simp add: pw_list_ok_def)
  have "pw_list_ok ?u k x" if k: "l2vpns ?u k = Some x" for k x
  proof (cases "k = ?l")
    case True
    with k l' have "x = l2\<lparr>l2_pw_list := remove1 d (l2_pw_list l2)\<rparr>" by simp
    with True ok [OF l] dist show ?thesis by (auto simp: pw_list_ok_def p')
  next
    case False
    with k l' have k: "l2vpns s k = Some x" by simp
    with other [OF k False] ok [OF k] show ?thesis by (auto simp: pw_list_ok_def p')
  qed
  moreover have "pw_owned ?u e q" if "pws ?u e = Some q" for e q
  proof -
    have "pws s e = Some q" "e \<noteq> d" using that p' by (auto split: if_splits)
    moreover have "pw_owned s e q" using st calculation(1) by (simp add: store_ok_def)
    ultimately show ?thesis using l dist by (auto simp: pw_owned_def l')
  qed
  moreover have "l2vpn_list ?u = l2vpn_list s" by (simp add: free_pw_def upd_l2_def)
  ultimately show "store_ok L ?u" using st l by (auto simp: store_ok_def l')
qed (simp_all add: free_pw_def upd_l2_def)

lemma midv_free_l2vpn:
  assumes m: "midv L t s" and l: "l2vpns s l = Some l2" "l \<in> L" "l \<notin> set (l2vpn_list s)" and e: "l2_pw_list l2 = []"
  shows "midv (L - {l}) t (s\<lparr>l2vpns := (l2vpns s)(l := None)\<rparr>)" (is "midv _ t ?u")
proof -
  have st: "store_ok L s" and j: "pwJ {} t s" and inv: "lde_inv s" using m by (simp_all add: midv_def)
  have own: "pw_owned ?u d pw" if "pws s d = Some pw" for d pw
  proof -
    have "pw_owned s d pw" using st that by (simp add: store_ok_def)
    with l e show ?thesis by (auto simp: pw_owned_def)
  qed
  have st': "store_ok (L - {l}) ?u" using st l own by (auto simp: store_ok_def pw_list_ok_def)
  have j': "pwJ {} t ?u" using j by (rule pwJ_cong) simp_all
  have "lde_inv ?u" by (rule lde_inv_conf [OF inv _ _ store_conf_ok [OF st']]) (simp_all add: pwJ_live [OF j])
  with st' j' show ?thesis by (simp add: midv_def)
qed

lemma fresh_id_notin: "fresh_id xs \<notin> set xs"
proof -
  have "x \<in> set xs \<Longrightarrow> x \<le> foldr max xs 0" for x by (induction xs) auto
  then show ?thesis unfolding fresh_id_def by (metis Suc_n_not_le_n)
qed

lemma fresh_pw:
  assumes m: "midv {} t s"
  shows "pws s (fresh_id (pw_refs s)) = None" "unref (fresh_id (pw_refs s)) s"
    "\<And>l l2. l2vpns s l = Some l2 \<Longrightarrow> fresh_id (pw_refs s) \<notin> set (l2_pw_list l2)"
proof -
  let ?d = "fresh_id (pw_refs s)"
  have st: "store_ok {} s" using m by (simp add: midv_def)
  have l: "?d \<notin> set (l2_pw_list l2)" if "l2vpns s l = Some l2" for l l2
  proof -
    have "l \<in> set (l2vpn_list s)" using st that by (auto simp: store_ok_def)
    then have "set (l2_pw_list l2) \<subseteq> set (pw_refs s)" using that by (auto simp: pw_refs_def intro!: bexI [of _ l])
    then show ?thesis using fresh_id_notin by blast
  qed
  then show "\<And>l l2. l2vpns s l = Some l2 \<Longrightarrow> ?d \<notin> set (l2_pw_list l2)" .
  show "pws s ?d = None"
  proof (rule ccontr)
    assume "pws s ?d \<noteq> None"
    then obtain pw where "pws s ?d = Some pw" by auto
    then have "pw_owned s ?d pw" using st by (simp add: store_ok_def)
    then show False using l by (auto simp: pw_owned_def)
  qed
  show "unref ?d s"
    unfolding unref_def
  proof (intro allI impI notI)
    fix f fn assume "fec_find (ft s) f = Some fn" "fn_data fn = Some ?d"
    moreover have "f \<in> set (rb_keys (ft s))" using calculation(1) by (simp add: fec_find_def)
    ultimately have "?d \<in> set (pw_refs s)" by (auto simp: pw_refs_def intro!: bexI [of _ f])
    then show False using fresh_id_notin by blast
  qed
qed

lemma midv_add:
  assumes m: "midv {} t s" and l: "l2vpns s l = Some l2" and af: "pw_af xp \<noteq> AF_UNSPEC"
    and idx: "\<forall>d\<in>set (l2_pw_list l2). \<forall>pw. pws s d = Some pw \<longrightarrow> pw_ifindex pw \<noteq> pw_ifindex xp"
    and a: "add_pw s l xp = (u, d)"
  shows "midv {} (t(d := ty)) u \<and> unref d u \<and> d = fresh_id (pw_refs s) \<and> pws u = (pws s)(d \<mapsto> xp\<lparr>pw_l2vpn := l\<rparr>) \<and>
    l2vpns u = (l2vpns s)(l \<mapsto> l2\<lparr>l2_pw_list := d # l2_pw_list l2\<rparr>) \<and> l2vpn_list u = l2vpn_list s"
proof -
  have st: "store_ok {} s" using m by (simp add: midv_def)
  have d: "d = fresh_id (pw_refs s)" using a by (simp add: add_pw_def Let_def)
  note f = fresh_pw [OF m, folded d]
  have u: "pws u = (pws s)(d \<mapsto> xp\<lparr>pw_l2vpn := l\<rparr>)" "l2vpns u = (l2vpns s)(l \<mapsto> l2\<lparr>l2_pw_list := d # l2_pw_list l2\<rparr>)"
    "l2vpn_list u = l2vpn_list s" "ft u = ft s" "lde_nbrs u = lde_nbrs s"
    using a l by (auto simp: add_pw_def Let_def upd_l2_def)
  have ok: "pw_list_ok s k x" if "l2vpns s k = Some x" for k x using st that by (simp add: store_ok_def)
  have "pw_list_ok u k x" if k: "l2vpns u k = Some x" for k x
  proof (cases "k = l")
    case True
    with k u have x: "x = l2\<lparr>l2_pw_list := d # l2_pw_list l2\<rparr>" by simp
    have "map_option pw_ifindex (pws s e) \<noteq> Some (pw_ifindex xp) \<and> Some (pw_ifindex xp) \<noteq> map_option pw_ifindex (pws s e)"
      if "e \<in> set (l2_pw_list l2)" for e
      using idx that by (cases "pws s e") auto
    with True ok [OF l] f(3) [OF l] show ?thesis by (auto simp: pw_list_ok_def u x)
  next
    case False
    with k u have k: "l2vpns s k = Some x" by simp
    with f(3) [OF k] ok [OF k] show ?thesis by (auto simp: pw_list_ok_def u)
  qed
  moreover have "pw_owned u e q" if "pws u e = Some q" for e q
  proof (cases "e = d")
    case True
    with that u have "q = xp\<lparr>pw_l2vpn := l\<rparr>" by simp
    with True af show ?thesis by (simp add: pw_owned_def u)
  next
    case False
    with that u have "pw_owned s e q" using st by (simp add: store_ok_def)
    then show ?thesis using l by (auto simp: pw_owned_def u)
  qed
  ultimately have st': "store_ok {} u" using st l by (auto simp: store_ok_def u)
  have "midv {} (t(d := ty)) u" by (rule midv_change [OF m u(4,5) st' f(2)]) (simp add: u)
  moreover have "unref d u" using f(2) by (simp add: unref_def u)
  ultimately show ?thesis using u d by simp
qed

text \<open>An existing pseudowire gets its new parameters: nothing points to it, or its class stays the same.\<close>

lemma merged_sel:
  "pw_l2vpn (merged_pw pw xp) = pw_l2vpn pw" "pw_af (merged_pw pw xp) = pw_af xp" "pw_ifindex (merged_pw pw xp) = pw_ifindex xp"
  "pw_class ty (merged_pw pw xp) = pw_class ty xp"
  by (simp_all add: merged_pw_def Let_def pw_class_def)

lemma store_merged:
  assumes st: "store_ok L s" and d: "pws s d = Some pw" and i: "pw_ifindex xp = pw_ifindex pw" and af: "pw_af xp \<noteq> AF_UNSPEC"
  shows "store_ok L (upd_pw s d (\<lambda>pw. merged_pw pw xp))" (is "store_ok L ?u")
proof -
  have idx: "map_option pw_ifindex (pws ?u e) = map_option pw_ifindex (pws s e)" for e using d i by (simp add: merged_sel)
  have own: "(\<exists>pw. pws ?u e = Some pw \<and> pw_l2vpn pw = k) = (\<exists>pw. pws s e = Some pw \<and> pw_l2vpn pw = k)" for e k
    using d by (auto simp: merged_sel)
  have "pw_list_ok ?u k l2 = pw_list_ok s k l2" for k l2 by (simp only: pw_list_ok_def idx own)
  moreover have "pw_owned ?u e q" if "pws ?u e = Some q" for e q
    using st that d af by (auto simp: store_ok_def pw_owned_def merged_sel split: if_splits)
  ultimately show ?thesis using st by (simp add: store_ok_def)
qed

lemma midv_merged:
  assumes m: "midv L t s" and d: "pws s d = Some pw" and i: "pw_ifindex xp = pw_ifindex pw" and af: "pw_af xp \<noteq> AF_UNSPEC"
  shows "unref d s \<Longrightarrow> midv L (t(d := ty)) (upd_pw s d (\<lambda>pw. merged_pw pw xp))"
    and "pw_pwid xp = pw_pwid pw \<Longrightarrow> pw_lsr_id xp = pw_lsr_id pw \<Longrightarrow> midv L t (upd_pw s d (\<lambda>pw. merged_pw pw xp))"
proof -
  let ?u = "upd_pw s d (\<lambda>pw. merged_pw pw xp)"
  have inv: "lde_inv s" and st: "store_ok L s" and j: "pwJ {} t s" using m by (simp_all add: midv_def)
  note st' = store_merged [OF st d i af]
  show "midv L (t(d := ty)) ?u" if u: "unref d s"
    by (rule midv_change [OF m _ _ st' u]) (simp_all add: upd_pw_def)
  assume "pw_pwid xp = pw_pwid pw" "pw_lsr_id xp = pw_lsr_id pw"
  then have j': "pwJ {} t ?u" using d by (intro pwJ_upd_pw [OF j]) (simp add: merged_sel, simp add: pw_class_def)
  have "lde_inv ?u"
    by (rule lde_inv_conf [OF inv _ _ store_conf_ok [OF st']]) (use pwJ_live [OF j'] in \<open>simp_all add: upd_pw_def\<close>)
  with st' j' show "midv L t ?u" by (simp add: midv_def)
qed

section \<open>Merging the pseudowires of a layer-2 VPN\<close>

lemma lde_pw_find_ok:
  assumes st: "store_ok L s" and l: "l2vpns s l = Some l2"
  shows "\<exists>r. lde_pw_find s l2 i = Inr r \<and>
    (r = None \<longrightarrow> (\<forall>d\<in>set (l2_pw_list l2). \<forall>pw. pws s d = Some pw \<longrightarrow> pw_ifindex pw \<noteq> i)) \<and>
    (\<forall>d. r = Some d \<longrightarrow> d \<in> set (l2_pw_list l2) \<and> (\<exists>pw. pws s d = Some pw \<and> pw_ifindex pw = i \<and> pw_l2vpn pw = l))"
proof -
  let ?q = "\<lambda>d. map_option pw_ifindex (pws s d) = Some i"
  have A: "lde_pw_find s l2 i = Inr (find ?q (l2_pw_list l2))"
    unfolding lde_pw_find_def
  proof (rule findE_total)
    fix d assume "d \<in> set (l2_pw_list l2)"
    then obtain pw where "pws s d = Some pw" "pw_l2vpn pw = l" by (rule store_pw [OF st l])
    then show "bindE (get_pw s d) (\<lambda>pw. Inr (pw_ifindex pw = i)) = Inr (?q d)" by (simp add: get_pw_def)
  qed
  have B: "find ?q (l2_pw_list l2) = None \<longrightarrow> (\<forall>d\<in>set (l2_pw_list l2). \<forall>pw. pws s d = Some pw \<longrightarrow> pw_ifindex pw \<noteq> i)"
    by (auto simp: find_None_iff)
  have C: "\<forall>d. find ?q (l2_pw_list l2) = Some d \<longrightarrow>
      d \<in> set (l2_pw_list l2) \<and> (\<exists>pw. pws s d = Some pw \<and> pw_ifindex pw = i \<and> pw_l2vpn pw = l)"
  proof (intro allI impI)
    fix d assume "find ?q (l2_pw_list l2) = Some d"
    then have d: "d \<in> set (l2_pw_list l2)" "?q d" by (auto simp: find_Some_iff)
    from d(1) obtain pw where "pws s d = Some pw" "pw_l2vpn pw = l" by (rule store_pw [OF st l])
    with d show "d \<in> set (l2_pw_list l2) \<and> (\<exists>pw. pws s d = Some pw \<and> pw_ifindex pw = i \<and> pw_l2vpn pw = l)" by simp
  qed
  from A B C show ?thesis by (intro exI conjI)
qed

text \<open>
  The reloads that keep classes and pseudowires together: a change of the flags that restart the session
  comes without a change of the class, and a change of the type of the pseudowires comes without a new
  pseudowire.
\<close>

definition pws_clean :: "lde \<Rightarrow> l2vpn \<Rightarrow> conf_l2vpn \<Rightarrow> l2vpn_pw list \<Rightarrow> bool" where
  "pws_clean s l2 xl xps \<longleftrightarrow>
     (\<forall>d\<in>set (l2_pw_list l2). \<forall>pw. \<forall>xp\<in>set xps. pws s d = Some pw \<and> pw_ifindex pw = pw_ifindex xp \<and> pw_reset_nbr pw xp \<longrightarrow>
        pw_pwid xp = pw_pwid pw \<and> pw_lsr_id xp = pw_lsr_id pw \<and> cl_pw_type xl = l2_pw_type l2) \<and>
     (cl_pw_type xl \<noteq> l2_pw_type l2 \<longrightarrow>
        (\<forall>xp\<in>set xps. \<exists>d\<in>set (l2_pw_list l2). \<exists>pw. pws s d = Some pw \<and> pw_ifindex pw = pw_ifindex xp))"

text \<open>What one pseudowire of the new configuration does: \<open>d\<close> is the pseudowire it becomes or changes.\<close>

definition taken :: "nat \<Rightarrow> conf_l2vpn \<Rightarrow> l2vpn_pw \<Rightarrow> (nat \<Rightarrow> int) \<Rightarrow> l2vpn \<Rightarrow> lde \<Rightarrow> lde \<Rightarrow> bool" where
  "taken l xl xp t l2 s u \<longleftrightarrow> (\<exists>d l2' pw.
     midv {} (t(d := cl_pw_type xl)) u \<and> l2vpns u = (l2vpns s)(l \<mapsto> l2') \<and> l2vpn_list u = l2vpn_list s \<and>
     l2_pw_type l2' = l2_pw_type l2 \<and> l2_name l2' = l2_name l2 \<and> set (l2_pw_list l2') = insert d (set (l2_pw_list l2)) \<and>
     pws u d = Some pw \<and> pw_ifindex pw = pw_ifindex xp \<and> pw_l2vpn pw = l \<and>
     (d \<in> set (l2_pw_list l2) \<or> pws s d = None) \<and>
     (\<forall>e. e \<noteq> d \<longrightarrow> map_option pw_conf (pws u e) = map_option pw_conf (pws s e)))"

lemma take_new_pw:
  assumes m: "midv {} t s" and l: "l2vpns s l = Some l2" and af: "pw_af xp \<noteq> AF_UNSPEC" and ty: "cl_pw_type xl = l2_pw_type l2"
    and no: "\<forall>d\<in>set (l2_pw_list l2). \<forall>pw. pws s d = Some pw \<longrightarrow> pw_ifindex pw \<noteq> pw_ifindex xp"
    and a: "add_pw s l xp = (u, d)"
  shows "okE (l2vpn_pw_init u d) (taken l xl xp t l2 s)"
proof -
  note u = midv_add [OF m l af no a, of "cl_pw_type xl"]
  have pw: "pws u d = Some (xp\<lparr>pw_l2vpn := l\<rparr>)" and mu: "midv {} (t(d := cl_pw_type xl)) u" using u by auto
  have old: "pws s d = None" using u fresh_pw(1) [OF m] by simp
  have "okE (l2vpn_pw_init u d) (\<lambda>v. midv {} (t(d := cl_pw_type xl)) v \<and> same_conf u v)"
    by (rule init_mid [OF mu pw, of "l2\<lparr>l2_pw_list := d # l2_pw_list l2\<rparr>"]) (use u ty in simp_all)
  then show ?thesis
  proof (rule okE_mono)
    fix v assume v: "midv {} (t(d := cl_pw_type xl)) v \<and> same_conf u v"
    obtain pw' where pw': "pws v d = Some pw'" "pw_conf pw' = pw_conf (xp\<lparr>pw_l2vpn := l\<rparr>)"
      using same_conf_pw [OF _ pw] v by blast
    have "map_option pw_conf (pws v e) = map_option pw_conf (pws s e)" if "e \<noteq> d" for e
      using v u that by (simp add: same_conf_def)
    then show "taken l xl xp t l2 s v"
      unfolding taken_def using v u pw' old pw_conf_sel [OF pw'(2)]
      by (intro exI [of _ d] exI [of _ "l2\<lparr>l2_pw_list := d # l2_pw_list l2\<rparr>"] exI [of _ pw']) (simp add: same_conf_def)
  qed
qed

lemma take_old_pw:
  assumes m: "midv {} t s" and l: "l2vpns s l = Some l2" and d: "d \<in> set (l2_pw_list l2)"
    and pw: "pws s d = Some pw" "pw_ifindex pw = pw_ifindex xp" "pw_l2vpn pw = l"
    and af: "pw_af xp \<noteq> AF_UNSPEC" and ty: "t d = l2_pw_type l2"
    and reset: "pw_reset_nbr pw xp \<Longrightarrow> pw_pwid xp = pw_pwid pw \<and> pw_lsr_id xp = pw_lsr_id pw \<and> cl_pw_type xl = l2_pw_type l2"
  shows "okE (lde_update_pw l xl s d xp) (taken l xl xp t l2 s)"
proof -
  have st: "store_ok {} s" using m by (simp add: midv_def)
  have "pw_owned s d pw" using st pw(1) by (simp add: store_ok_def)
  then have paf: "pw_af pw \<noteq> AF_UNSPEC" by (simp add: pw_owned_def)
  obtain re where re: "pw_reinstall l2 xl pw xp = Inr re"
    "\<not> re \<Longrightarrow> pw_pwid xp = pw_pwid pw \<and> pw_lsr_id xp = pw_lsr_id pw \<and> cl_pw_type xl = l2_pw_type l2"
  proof -
    have "bindE (ldp_addrcmp (pw_af pw) (pw_addr pw) (pw_addr xp)) (\<lambda>c. Inr (c \<noteq> 0)) =
        Inr (\<not> addr_eq (pw_af pw) (pw_addr pw) (pw_addr xp))"
      using ldp_addrcmp_addr_eq [OF paf, of "pw_addr pw" "pw_addr xp" "\<lambda>b. Inr (\<not> b)"] by simp
    then have "pw_reinstall l2 xl pw xp = Inr (l2_pw_type l2 \<noteq> cl_pw_type xl \<or> l2_mtu l2 \<noteq> cl_mtu xl \<or> pw_pwid pw \<noteq> pw_pwid xp \<or>
        (pw_af pw \<noteq> pw_af xp \<or> \<not> addr_eq (pw_af pw) (pw_addr pw) (pw_addr xp)) \<or>
        pw_reset_nbr pw xp \<or> pw_lsr_id pw \<noteq> pw_lsr_id xp)"
      by (cases "pw_af pw = pw_af xp") (auto simp: pw_reinstall_def)
    then show thesis by (rule that) auto
  qed
  let ?u = "upd_pw s d (\<lambda>pw. merged_pw pw xp)"
  show ?thesis
  proof (cases "\<not> pw_reset_nbr pw xp \<and> re")
    case False
    then have same: "pw_pwid xp = pw_pwid pw" "pw_lsr_id xp = pw_lsr_id pw" "cl_pw_type xl = l2_pw_type l2"
      using reset re(2) by auto
    have "midv {} t ?u" by (rule midv_merged(2) [OF m pw(1) pw(2) [symmetric] af same(1,2)])
    moreover have "t(d := cl_pw_type xl) = t" using same(3) ty by auto
    ultimately have "taken l xl xp t l2 s ?u"
      unfolding taken_def using l d pw
      by (intro exI [of _ d] exI [of _ l2] exI [of _ "merged_pw pw xp"]) (auto simp: merged_sel fun_upd_idem)
    with False l pw(1) re(1) show ?thesis
      by (cases "pw_reset_nbr pw xp") (simp_all add: lde_update_pw_def get_l2vpn_def get_pw_def)
  next
    case True
    have "okE (l2vpn_pw_exit s d) (\<lambda>u. midv {} t u \<and> same_conf s u \<and> unref d u)"
      by (rule exit_mid [OF m pw(1), of l2]) (use l pw ty in simp_all)
    then have "okE (bindE (l2vpn_pw_exit s d) (\<lambda>s1.
        bindE (l2vpn_pw_init (upd_l2 (upd_pw s1 d (\<lambda>pw. merged_pw pw xp)) l (set_l2_params (cl_pw_type xl) (cl_mtu xl))) d)
          (\<lambda>s4. Inr (upd_l2 s4 l (set_l2_params (l2_pw_type l2) (l2_mtu l2)))))) (taken l xl xp t l2 s)"
    proof (rule okE_bind)
      fix s1 assume s1: "midv {} t s1 \<and> same_conf s s1 \<and> unref d s1"
      obtain pw1 where pw1: "pws s1 d = Some pw1" "pw_conf pw1 = pw_conf pw" using same_conf_pw [OF _ pw(1)] s1 by blast
      note sel = pw_conf_sel [OF pw1(2)]
      let ?s2 = "upd_pw s1 d (\<lambda>pw. merged_pw pw xp)"
      let ?s3 = "upd_l2 ?s2 l (set_l2_params (cl_pw_type xl) (cl_mtu xl))"
      have "midv {} (t(d := cl_pw_type xl)) ?s2"
        by (rule midv_merged(1) [OF _ pw1(1)]) (use s1 sel pw af in simp_all)
      then have m3: "midv {} (t(d := cl_pw_type xl)) ?s3" by (rule midv_upd_l2) (simp add: set_l2_params_def)
      have l1: "l2vpns s1 = l2vpns s" "l2vpn_list s1 = l2vpn_list s" using s1 by (simp_all add: same_conf_def)
      have pw3: "pws ?s3 d = Some (merged_pw pw1 xp)" using pw1 by (simp add: upd_l2_def)
      have l3: "l2vpns ?s3 = (l2vpns s)(l \<mapsto> set_l2_params (cl_pw_type xl) (cl_mtu xl) l2)" "l2vpn_list ?s3 = l2vpn_list s"
        using l l1 by (simp_all add: upd_l2_def)
      have "okE (l2vpn_pw_init ?s3 d) (\<lambda>v. midv {} (t(d := cl_pw_type xl)) v \<and> same_conf ?s3 v)"
        by (rule init_mid [OF m3 pw3, of "set_l2_params (cl_pw_type xl) (cl_mtu xl) l2"])
          (use l3 sel pw in \<open>simp_all add: merged_sel set_l2_params_def\<close>)
      then show "okE (bindE (l2vpn_pw_init ?s3 d) (\<lambda>s4. Inr (upd_l2 s4 l (set_l2_params (l2_pw_type l2) (l2_mtu l2))))) (taken l xl xp t l2 s)"
      proof (rule okE_bind)
        fix s4 assume s4: "midv {} (t(d := cl_pw_type xl)) s4 \<and> same_conf ?s3 s4"
        let ?v = "upd_l2 s4 l (set_l2_params (l2_pw_type l2) (l2_mtu l2))"
        have mv: "midv {} (t(d := cl_pw_type xl)) ?v" using s4 by (intro midv_upd_l2) (auto simp: set_l2_params_def)
        obtain pw4 where pw4: "pws s4 d = Some pw4" "pw_conf pw4 = pw_conf (merged_pw pw1 xp)"
          using same_conf_pw [OF _ pw3] s4 by blast
        have l4: "l2vpns ?v = (l2vpns s)(l \<mapsto> l2)" "l2vpn_list ?v = l2vpn_list s"
          using s4 l3 by (auto simp: same_conf_def upd_l2_def set_l2_params_def)
        have "map_option pw_conf (pws ?v e) = map_option pw_conf (pws s e)" if "e \<noteq> d" for e
          using s4 s1 that by (simp add: same_conf_def upd_l2_def)
        then have "taken l xl xp t l2 s ?v"
          unfolding taken_def using mv l4 pw4 pw_conf_sel [OF pw4(2)] sel pw d
          by (intro exI [of _ d] exI [of _ l2] exI [of _ pw4]) (auto simp: merged_sel upd_l2_def)
        then show "okE (Inr ?v) (taken l xl xp t l2 s)" by simp
      qed
    qed
    with True l pw re show ?thesis by (simp add: lde_update_pw_def get_l2vpn_def get_pw_def Let_def)
  qed
qed

lemma lde_take_pw_ok:
  assumes m: "midv {} t s" and l: "l2vpns s l = Some l2" and af: "pw_af xp \<noteq> AF_UNSPEC" and c: "pws_clean s l2 xl (xp # xps)"
    and ty: "\<And>d pw. d \<in> set (l2_pw_list l2) \<Longrightarrow> pws s d = Some pw \<Longrightarrow> pw_ifindex pw = pw_ifindex xp \<Longrightarrow> t d = l2_pw_type l2"
  shows "okE (lde_take_pw l xl s xp) (taken l xl xp t l2 s)"
proof -
  have st: "store_ok {} s" using m by (simp add: midv_def)
  obtain r where r: "lde_pw_find s l2 (pw_ifindex xp) = Inr r"
    "r = None \<Longrightarrow> \<forall>d\<in>set (l2_pw_list l2). \<forall>pw. pws s d = Some pw \<longrightarrow> pw_ifindex pw \<noteq> pw_ifindex xp"
    "\<And>d. r = Some d \<Longrightarrow> d \<in> set (l2_pw_list l2) \<and> (\<exists>pw. pws s d = Some pw \<and> pw_ifindex pw = pw_ifindex xp \<and> pw_l2vpn pw = l)"
    using lde_pw_find_ok [OF st l, of "pw_ifindex xp"] by blast
  have e: "lde_take_pw l xl s xp = (case r of None \<Rightarrow> let (s1, d) = add_pw s l xp in l2vpn_pw_init s1 d
      | Some d \<Rightarrow> lde_update_pw l xl s d xp)"
    using l r(1) by (cases r) (simp_all add: lde_take_pw_def get_l2vpn_def)
  show ?thesis
  proof (cases r)
    case None
    obtain u d where a: "add_pw s l xp = (u, d)" by force
    have "cl_pw_type xl = l2_pw_type l2" using c r(2) [OF None] by (auto simp: pws_clean_def)
    then have "okE (l2vpn_pw_init u d) (taken l xl xp t l2 s)" by (rule take_new_pw [OF m l af _ r(2) [OF None] a])
    with None a e show ?thesis by simp
  next
    case (Some d)
    then obtain pw where d: "d \<in> set (l2_pw_list l2)" "pws s d = Some pw" "pw_ifindex pw = pw_ifindex xp" "pw_l2vpn pw = l"
      using r(3) by blast
    have "okE (lde_update_pw l xl s d xp) (taken l xl xp t l2 s)"
      by (rule take_old_pw [OF m l d af ty [OF d(1-3)]]) (use c d in \<open>auto simp: pws_clean_def\<close>)
    with Some e show ?thesis by simp
  qed
qed

text \<open>The loop: the pseudowires already handled have the new type.\<close>

definition types_at :: "u32 set \<Rightarrow> conf_l2vpn \<Rightarrow> (nat \<Rightarrow> int) \<Rightarrow> l2vpn \<Rightarrow> lde \<Rightarrow> bool" where
  "types_at I xl t l2 s \<longleftrightarrow>
     (\<forall>d\<in>set (l2_pw_list l2). \<forall>pw. pws s d = Some pw \<longrightarrow>
        t d = (if pw_ifindex pw \<in> I then cl_pw_type xl else l2_pw_type l2))"

definition idx_in :: "u32 set \<Rightarrow> l2vpn \<Rightarrow> lde \<Rightarrow> bool" where
  "idx_in K l2 s \<longleftrightarrow> (\<forall>d\<in>set (l2_pw_list l2). \<forall>pw. pws s d = Some pw \<longrightarrow> pw_ifindex pw \<in> K)"

definition others_same :: "nat \<Rightarrow> lde \<Rightarrow> lde \<Rightarrow> bool" where
  "others_same l s u \<longleftrightarrow>
     l2vpn_list u = l2vpn_list s \<and> (\<forall>k. k \<noteq> l \<longrightarrow> l2vpns u k = l2vpns s k) \<and>
     (\<forall>k l2 d. k \<noteq> l \<and> l2vpns s k = Some l2 \<and> d \<in> set (l2_pw_list l2) \<longrightarrow>
        map_option pw_conf (pws u d) = map_option pw_conf (pws s d))"

lemma others_same_refl [simp]: "others_same l s s"
  by (simp add: others_same_def)

lemma others_same_trans: "others_same l s u \<Longrightarrow> others_same l u v \<Longrightarrow> others_same l s v"
  unfolding others_same_def by metis

lemma taken_step:
  assumes m: "midv {} t s" and l: "l2vpns s l = Some l2" and u: "taken l xl xp t l2 s u"
    and ty: "types_at I xl t l2 s" and I: "pw_ifindex xp \<notin> I" and c: "pws_clean s l2 xl (xp # xps)"
    and dist: "pw_ifindex xp \<notin> pw_ifindex ` set xps"
  shows "\<exists>t' l2'. midv {} t' u \<and> l2vpns u l = Some l2' \<and> l2_pw_type l2' = l2_pw_type l2 \<and> l2_name l2' = l2_name l2 \<and>
    types_at (insert (pw_ifindex xp) I) xl t' l2' u \<and> pws_clean u l2' xl xps \<and> others_same l s u \<and>
    (\<forall>d. d \<notin> set (l2_pw_list l2') \<longrightarrow> t' d = t d) \<and> set (l2_pw_list l2) \<subseteq> set (l2_pw_list l2') \<and>
    (\<forall>K. pw_ifindex xp \<in> K \<and> idx_in K l2 s \<longrightarrow> idx_in K l2' u)"
proof -
  obtain d l2' pw where d: "midv {} (t(d := cl_pw_type xl)) u" "l2vpns u = (l2vpns s)(l \<mapsto> l2')" "l2vpn_list u = l2vpn_list s"
     "l2_pw_type l2' = l2_pw_type l2" "l2_name l2' = l2_name l2" "set (l2_pw_list l2') = insert d (set (l2_pw_list l2))"
     "pws u d = Some pw" "pw_ifindex pw = pw_ifindex xp" "pw_l2vpn pw = l" "d \<in> set (l2_pw_list l2) \<or> pws s d = None"
    and conf: "\<And>e. e \<noteq> d \<Longrightarrow> map_option pw_conf (pws u e) = map_option pw_conf (pws s e)"
    using u unfolding taken_def by blast
  have st: "store_ok {} s" using m by (simp add: midv_def)
  have stu: "store_ok {} u" using d(1) by (simp add: midv_def)
  have lu: "l2vpns u l = Some l2'" using d(2) by simp
  have other: "e \<noteq> d \<Longrightarrow> pws u e = Some q \<Longrightarrow> \<exists>p. pws s e = Some p \<and> pw_conf q = pw_conf p" for e q
    using conf [of e] by (cases "pws s e") auto
  have inj: "pw_ifindex q \<noteq> pw_ifindex xp" if "e \<in> set (l2_pw_list l2)" "e \<noteq> d" "pws u e = Some q" for e q
  proof
    assume "pw_ifindex q = pw_ifindex xp"
    then have "map_option pw_ifindex (pws u e) = map_option pw_ifindex (pws u d)" using that d(7,8) by simp
    moreover have "pw_list_ok u l l2'" using stu lu by (simp add: store_ok_def)
    ultimately show False using that d(6) by (auto simp: pw_list_ok_def)
  qed
  have "types_at (insert (pw_ifindex xp) I) xl (t(d := cl_pw_type xl)) l2' u"
    unfolding types_at_def
  proof (intro ballI allI impI)
    fix e q assume e: "e \<in> set (l2_pw_list l2')" "pws u e = Some q"
    show "(t(d := cl_pw_type xl)) e = (if pw_ifindex q \<in> insert (pw_ifindex xp) I then cl_pw_type xl else l2_pw_type l2')"
    proof (cases "e = d")
      case True
      with e d(7,8) show ?thesis by simp
    next
      case False
      then obtain p where p: "pws s e = Some p" "pw_conf q = pw_conf p" using other e by blast
      have "e \<in> set (l2_pw_list l2)" using e d(6) False by simp
      with ty p(1) have "t e = (if pw_ifindex p \<in> I then cl_pw_type xl else l2_pw_type l2)" by (simp add: types_at_def)
      with False inj [OF \<open>e \<in> set (l2_pw_list l2)\<close> False e(2)] pw_conf_sel [OF p(2)] d(4) show ?thesis by simp
    qed
  qed
  moreover have "pws_clean u l2' xl xps"
  proof -
    have a: "pw_pwid x = pw_pwid q \<and> pw_lsr_id x = pw_lsr_id q \<and> cl_pw_type xl = l2_pw_type l2'"
      if h: "e \<in> set (l2_pw_list l2')" "x \<in> set xps" "pws u e = Some q" "pw_ifindex q = pw_ifindex x" "pw_reset_nbr q x" for e x q
    proof -
      have "e \<noteq> d" using h d(7,8) dist by (metis image_eqI option.inject)
      then obtain p where p: "pws s e = Some p" "pw_conf q = pw_conf p" using other h(3) by blast
      note sel = pw_conf_sel [OF p(2)]
      have "pw_reset_nbr p x" using h(5) sel by (simp add: pw_reset_nbr_def pw_conf_flags_def)
      with c p h sel d(4,6) \<open>e \<noteq> d\<close> show ?thesis unfolding pws_clean_def by auto
    qed
    have b: "\<exists>e\<in>set (l2_pw_list l2'). \<exists>q. pws u e = Some q \<and> pw_ifindex q = pw_ifindex x"
      if h: "cl_pw_type xl \<noteq> l2_pw_type l2'" "x \<in> set xps" for x
    proof -
      obtain e p where e: "e \<in> set (l2_pw_list l2)" "pws s e = Some p" "pw_ifindex p = pw_ifindex x"
        using c h d(4) unfolding pws_clean_def by auto
      show ?thesis
      proof (cases "e = d")
        case True
        moreover have "map_option pw_ifindex (pws s d) = Some (pw_ifindex x)" using e True by simp
        moreover obtain e' p' where e': "e' \<in> set (l2_pw_list l2)" "pws s e' = Some p'" "pw_ifindex p' = pw_ifindex xp"
          using c h d(4) unfolding pws_clean_def by auto
        have "e' = d"
        proof (rule ccontr)
          assume "e' \<noteq> d"
          then obtain q where "pws u e' = Some q" "pw_conf q = pw_conf p'" using conf [of e'] e' by (cases "pws u e'") auto
          with inj [OF e'(1) \<open>e' \<noteq> d\<close>] pw_conf_sel e' show False by metis
        qed
        ultimately have "pw_ifindex x = pw_ifindex xp" using e' e by simp
        with h dist show ?thesis by (metis image_eqI)
      next
        case False
        then obtain q where "pws u e = Some q" "pw_conf q = pw_conf p" using conf [of e] e by (cases "pws u e") auto
        with e d(6) pw_conf_sel show ?thesis by (metis insertI2)
      qed
    qed
    show ?thesis unfolding pws_clean_def using a b by blast
  qed
  moreover have "others_same l s u"
    unfolding others_same_def
  proof (intro conjI allI impI)
    fix k l2k e assume k: "k \<noteq> l \<and> l2vpns s k = Some l2k \<and> e \<in> set (l2_pw_list l2k)"
    then obtain p where p: "pws s e = Some p" "pw_l2vpn p = k" using store_pw [OF st, of k l2k e] by blast
    have "e \<noteq> d"
    proof
      assume "e = d"
      with d(10) p have "d \<in> set (l2_pw_list l2)" by auto
      then obtain p' where "pws s d = Some p'" "pw_l2vpn p' = l" by (rule store_pw [OF st l])
      with p k \<open>e = d\<close> show False by simp
    qed
    then show "map_option pw_conf (pws u e) = map_option pw_conf (pws s e)" by (rule conf)
  qed (use d(2,3) in simp_all)
  moreover have "idx_in K l2' u" if K: "pw_ifindex xp \<in> K" "idx_in K l2 s" for K
    unfolding idx_in_def
  proof (intro ballI allI impI)
    fix e q assume e: "e \<in> set (l2_pw_list l2')" "pws u e = Some q"
    show "pw_ifindex q \<in> K"
    proof (cases "e = d")
      case True
      with e d(7,8) K show ?thesis by simp
    next
      case False
      then obtain p where p: "pws s e = Some p" "pw_conf q = pw_conf p" using other e by blast
      with K(2) e d(6) False have "pw_ifindex p \<in> K" by (auto simp: idx_in_def)
      with pw_conf_sel [OF p(2)] show ?thesis by simp
    qed
  qed
  ultimately show ?thesis using d lu by (intro exI [of _ "t(d := cl_pw_type xl)"] exI [of _ l2']) auto
qed

lemma take_loop:
  assumes "midv {} t s" "l2vpns s l = Some l2" "types_at I xl t l2 s" "pws_clean s l2 xl xps"
    "distinct (map pw_ifindex xps)" "\<forall>xp\<in>set xps. pw_af xp \<noteq> AF_UNSPEC \<and> pw_ifindex xp \<notin> I"
    "pw_ifindex ` set xps \<subseteq> K" "idx_in K l2 s"
  shows "okE (foldE (lde_take_pw l xl) xps s) (\<lambda>u. \<exists>t' l2'. midv {} t' u \<and> l2vpns u l = Some l2' \<and>
    l2_pw_type l2' = l2_pw_type l2 \<and> l2_name l2' = l2_name l2 \<and> types_at (I \<union> pw_ifindex ` set xps) xl t' l2' u \<and>
    others_same l s u \<and> (\<forall>d. d \<notin> set (l2_pw_list l2') \<longrightarrow> t' d = t d) \<and> set (l2_pw_list l2) \<subseteq> set (l2_pw_list l2') \<and>
    idx_in K l2' u)"
  using assms
proof (induction xps arbitrary: s t l2 I)
  case Nil
  then show ?case by auto
next
  case (Cons xp xps)
  have ty: "t d = l2_pw_type l2" if "d \<in> set (l2_pw_list l2)" "pws s d = Some pw" "pw_ifindex pw = pw_ifindex xp" for d pw
    using Cons.prems(3,6) that by (simp add: types_at_def)
  have "okE (lde_take_pw l xl s xp) (taken l xl xp t l2 s)"
    by (rule lde_take_pw_ok [OF Cons.prems(1,2) _ Cons.prems(4)]) (use Cons.prems(6) ty in auto)
  then show ?case unfolding foldE.simps
  proof (rule okE_bind)
    fix u assume u: "taken l xl xp t l2 s u"
    have "pw_ifindex xp \<notin> I" "pw_ifindex xp \<notin> pw_ifindex ` set xps" using Cons.prems(5,6) by auto
    from taken_step [OF Cons.prems(1,2) u Cons.prems(3) this(1) Cons.prems(4) this(2)]
    obtain t1 l21 where s1: "midv {} t1 u" "l2vpns u l = Some l21" "l2_pw_type l21 = l2_pw_type l2" "l2_name l21 = l2_name l2"
      "types_at (insert (pw_ifindex xp) I) xl t1 l21 u" "pws_clean u l21 xl xps" "others_same l s u"
      "\<And>d. d \<notin> set (l2_pw_list l21) \<Longrightarrow> t1 d = t d" "set (l2_pw_list l2) \<subseteq> set (l2_pw_list l21)"
      "\<And>K. pw_ifindex xp \<in> K \<Longrightarrow> idx_in K l2 s \<Longrightarrow> idx_in K l21 u" by blast
    have K: "idx_in K l21 u" using s1(10) Cons.prems(7,8) by simp
    have "okE (foldE (lde_take_pw l xl) xps u) (\<lambda>v. \<exists>t' l2'. midv {} t' v \<and> l2vpns v l = Some l2' \<and>
      l2_pw_type l2' = l2_pw_type l21 \<and> l2_name l2' = l2_name l21 \<and>
      types_at (insert (pw_ifindex xp) I \<union> pw_ifindex ` set xps) xl t' l2' v \<and>
      others_same l u v \<and> (\<forall>d. d \<notin> set (l2_pw_list l2') \<longrightarrow> t' d = t1 d) \<and>
      set (l2_pw_list l21) \<subseteq> set (l2_pw_list l2') \<and> idx_in K l2' v)"
    proof (rule Cons.IH [OF s1(1,2,5,6) _ _ _ K])
      show "\<forall>x\<in>set xps. pw_af x \<noteq> AF_UNSPEC \<and> pw_ifindex x \<notin> insert (pw_ifindex xp) I"
      proof
        fix x assume "x \<in> set xps"
        then have "pw_ifindex x \<noteq> pw_ifindex xp"
          using Cons.prems(5) by (metis distinct.simps(2) image_eqI list.map(2) list.set_map)
        with \<open>x \<in> set xps\<close> Cons.prems(6) show "pw_af x \<noteq> AF_UNSPEC \<and> pw_ifindex x \<notin> insert (pw_ifindex xp) I" by auto
      qed
    qed (use Cons.prems(5,7) in simp_all)
    then show "okE (foldE (lde_take_pw l xl) xps u) (\<lambda>v. \<exists>t' l2'. midv {} t' v \<and> l2vpns v l = Some l2' \<and>
      l2_pw_type l2' = l2_pw_type l2 \<and> l2_name l2' = l2_name l2 \<and> types_at (I \<union> pw_ifindex ` set (xp # xps)) xl t' l2' v \<and>
      others_same l s v \<and> (\<forall>d. d \<notin> set (l2_pw_list l2') \<longrightarrow> t' d = t d) \<and> set (l2_pw_list l2) \<subseteq> set (l2_pw_list l2') \<and>
      idx_in K l2' v)"
    proof (rule okE_mono, elim exE conjE, goal_cases)
      case (1 v t' l2')
      then show ?case using s1(3,4,7-9)
        by (intro exI [of _ t'] exI [of _ l2'] conjI others_same_trans [OF s1(7)]) auto
    qed
  qed
qed

section \<open>Removing pseudowires\<close>

lemma drop_pw_step:
  assumes m: "midv {} t s" and l: "l2vpns s l = Some l2" and d: "d \<in> set (l2_pw_list l2)"
    and ty: "\<forall>d\<in>set (l2_pw_list l2). t d = l2_pw_type l2"
  shows "okE (lde_drop_pw l xl s d) (\<lambda>u. \<exists>l2'. midv {} t u \<and> l2vpns u = (l2vpns s)(l \<mapsto> l2') \<and> l2vpn_list u = l2vpn_list s \<and>
    l2_pw_type l2' = l2_pw_type l2 \<and> l2_name l2' = l2_name l2 \<and>
    (\<forall>e. e \<noteq> d \<longrightarrow> (e \<in> set (l2_pw_list l2') \<longleftrightarrow> e \<in> set (l2_pw_list l2)) \<and> map_option pw_conf (pws u e) = map_option pw_conf (pws s e)) \<and>
    (d \<in> set (l2_pw_list l2') \<longleftrightarrow> (\<exists>pw. pws s d = Some pw \<and> l2vpn_pw_find (cl_pw_list xl) (pw_ifindex pw) \<noteq> None)) \<and>
    (d \<in> set (l2_pw_list l2') \<longrightarrow> pws u d = pws s d))"
proof -
  have st: "store_ok {} s" using m by (simp add: midv_def)
  obtain pw where pw: "pws s d = Some pw" "pw_l2vpn pw = l" by (rule store_pw [OF st l d])
  show ?thesis
  proof (cases "l2vpn_pw_find (cl_pw_list xl) (pw_ifindex pw) = None")
    case False
    with m l d pw show ?thesis by (auto simp: lde_drop_pw_def get_pw_def intro!: exI [of _ l2])
  next
    case True
    have "okE (l2vpn_pw_exit s d) (\<lambda>u. midv {} t u \<and> same_conf s u \<and> unref d u)"
      by (rule exit_mid [OF m pw(1), of l2]) (use l pw ty d in simp_all)
    then have "okE (bindE (l2vpn_pw_exit s d) (\<lambda>s1.
        Inr (free_pw (upd_l2 s1 l (\<lambda>l2. l2\<lparr>l2_pw_list := remove1 d (l2_pw_list l2)\<rparr>)) d)))
      (\<lambda>u. midv {} t u \<and> l2vpns u = (l2vpns s)(l \<mapsto> l2\<lparr>l2_pw_list := remove1 d (l2_pw_list l2)\<rparr>) \<and>
        l2vpn_list u = l2vpn_list s \<and> (\<forall>e. e \<noteq> d \<longrightarrow> map_option pw_conf (pws u e) = map_option pw_conf (pws s e)))"
    proof (rule okE_bind)
      fix s1 assume s1: "midv {} t s1 \<and> same_conf s s1 \<and> unref d s1"
      obtain pw1 where pw1: "pws s1 d = Some pw1" "pw_conf pw1 = pw_conf pw" using same_conf_pw [OF _ pw(1)] s1 by blast
      have own: "pw_l2vpn pw1 = l" using pw_conf_sel [OF pw1(2)] pw by simp
      have l1: "l2vpns s1 = l2vpns s" "l2vpn_list s1 = l2vpn_list s" using s1 by (simp_all add: same_conf_def)
      let ?u = "free_pw (upd_l2 s1 l (\<lambda>l2. l2\<lparr>l2_pw_list := remove1 d (l2_pw_list l2)\<rparr>)) d"
      have "midv {} t ?u" using midv_free [OF _ _ pw1(1), of "{}" t l2] s1 own l1 l by simp
      with s1 l1 l show "okE (Inr ?u) (\<lambda>u. midv {} t u \<and> l2vpns u = (l2vpns s)(l \<mapsto> l2\<lparr>l2_pw_list := remove1 d (l2_pw_list l2)\<rparr>) \<and>
        l2vpn_list u = l2vpn_list s \<and> (\<forall>e. e \<noteq> d \<longrightarrow> map_option pw_conf (pws u e) = map_option pw_conf (pws s e)))"
        by (simp add: free_pw_def upd_l2_def same_conf_def)
    qed
    moreover have "distinct (l2_pw_list l2)" using st l by (simp add: store_ok_def pw_list_ok_def)
    ultimately show ?thesis using True pw d
      by (auto simp: lde_drop_pw_def get_pw_def elim!: okE_mono intro!: exI [of _ "l2\<lparr>l2_pw_list := remove1 d (l2_pw_list l2)\<rparr>"])
  qed
qed

lemma drop_pw_loop:
  assumes "midv {} t s" "l2vpns s l = Some l2" "set xs \<subseteq> set (l2_pw_list l2)" "distinct xs"
    "\<forall>d\<in>set (l2_pw_list l2). t d = l2_pw_type l2"
  shows "okE (foldE (lde_drop_pw l xl) xs s) (\<lambda>u. \<exists>l2'. midv {} t u \<and> l2vpns u = (l2vpns s)(l \<mapsto> l2') \<and> l2vpn_list u = l2vpn_list s \<and>
    l2_pw_type l2' = l2_pw_type l2 \<and> l2_name l2' = l2_name l2 \<and>
    (\<forall>e. e \<notin> set xs \<longrightarrow> (e \<in> set (l2_pw_list l2') \<longleftrightarrow> e \<in> set (l2_pw_list l2)) \<and> map_option pw_conf (pws u e) = map_option pw_conf (pws s e)) \<and>
    (\<forall>e\<in>set xs. e \<in> set (l2_pw_list l2') \<longleftrightarrow> (\<exists>pw. pws s e = Some pw \<and> l2vpn_pw_find (cl_pw_list xl) (pw_ifindex pw) \<noteq> None)) \<and>
    (\<forall>e\<in>set (l2_pw_list l2'). map_option pw_conf (pws u e) = map_option pw_conf (pws s e)))"
  using assms
proof (induction xs arbitrary: s l2)
  case Nil
  then show ?case by (auto intro!: exI [of _ l2])
next
  case (Cons d xs)
  have "d \<in> set (l2_pw_list l2)" using Cons.prems(3) by simp
  from drop_pw_step [OF Cons.prems(1,2) this Cons.prems(5), of xl]
  show ?case unfolding foldE.simps
  proof (rule okE_bind, elim exE conjE)
    fix u l21
    assume u: "midv {} t u" "l2vpns u = (l2vpns s)(l \<mapsto> l21)" "l2vpn_list u = l2vpn_list s" "l2_pw_type l21 = l2_pw_type l2"
      "l2_name l21 = l2_name l2"
      and oth: "\<forall>e. e \<noteq> d \<longrightarrow> (e \<in> set (l2_pw_list l21) \<longleftrightarrow> e \<in> set (l2_pw_list l2)) \<and> map_option pw_conf (pws u e) = map_option pw_conf (pws s e)"
      and dd: "d \<in> set (l2_pw_list l21) \<longleftrightarrow> (\<exists>pw. pws s d = Some pw \<and> l2vpn_pw_find (cl_pw_list xl) (pw_ifindex pw) \<noteq> None)"
      "d \<in> set (l2_pw_list l21) \<longrightarrow> pws u d = pws s d"
    have lu: "l2vpns u l = Some l21" using u(2) by simp
    have sub: "set xs \<subseteq> set (l2_pw_list l21)" and nd: "d \<notin> set xs" using Cons.prems(3,4) oth by auto
    have ty: "\<forall>e\<in>set (l2_pw_list l21). t e = l2_pw_type l21" using Cons.prems(5) oth dd u(4) \<open>d \<in> set (l2_pw_list l2)\<close> by metis
    have match: "(\<exists>pw. pws u e = Some pw \<and> l2vpn_pw_find (cl_pw_list xl) (pw_ifindex pw) \<noteq> None) \<longleftrightarrow>
        (\<exists>pw. pws s e = Some pw \<and> l2vpn_pw_find (cl_pw_list xl) (pw_ifindex pw) \<noteq> None)" if "e \<noteq> d" for e
    proof -
      have "map_option pw_ifindex (pws u e) = map_option pw_ifindex (pws s e)"
        by (rule map_pw_conf) (use oth that in \<open>simp, metis pw_conf_sel\<close>)
      then show ?thesis by (cases "pws u e"; cases "pws s e") auto
    qed
    have "okE (foldE (lde_drop_pw l xl) xs u) (\<lambda>v. \<exists>l2'. midv {} t v \<and> l2vpns v = (l2vpns u)(l \<mapsto> l2') \<and> l2vpn_list v = l2vpn_list u \<and>
      l2_pw_type l2' = l2_pw_type l21 \<and> l2_name l2' = l2_name l21 \<and>
      (\<forall>e. e \<notin> set xs \<longrightarrow> (e \<in> set (l2_pw_list l2') \<longleftrightarrow> e \<in> set (l2_pw_list l21)) \<and> map_option pw_conf (pws v e) = map_option pw_conf (pws u e)) \<and>
      (\<forall>e\<in>set xs. e \<in> set (l2_pw_list l2') \<longleftrightarrow> (\<exists>pw. pws u e = Some pw \<and> l2vpn_pw_find (cl_pw_list xl) (pw_ifindex pw) \<noteq> None)) \<and>
      (\<forall>e\<in>set (l2_pw_list l2'). map_option pw_conf (pws v e) = map_option pw_conf (pws u e)))"
      by (rule Cons.IH [OF u(1) lu sub _ ty]) (use Cons.prems(4) in simp)
    then show "okE (foldE (lde_drop_pw l xl) xs u) (\<lambda>v. \<exists>l2'. midv {} t v \<and> l2vpns v = (l2vpns s)(l \<mapsto> l2') \<and> l2vpn_list v = l2vpn_list s \<and>
      l2_pw_type l2' = l2_pw_type l2 \<and> l2_name l2' = l2_name l2 \<and>
      (\<forall>e. e \<notin> set (d # xs) \<longrightarrow> (e \<in> set (l2_pw_list l2') \<longleftrightarrow> e \<in> set (l2_pw_list l2)) \<and> map_option pw_conf (pws v e) = map_option pw_conf (pws s e)) \<and>
      (\<forall>e\<in>set (d # xs). e \<in> set (l2_pw_list l2') \<longleftrightarrow> (\<exists>pw. pws s e = Some pw \<and> l2vpn_pw_find (cl_pw_list xl) (pw_ifindex pw) \<noteq> None)) \<and>
      (\<forall>e\<in>set (l2_pw_list l2'). map_option pw_conf (pws v e) = map_option pw_conf (pws s e)))"
    proof (rule okE_mono, elim exE conjE)
      fix v l2'
      assume v: "midv {} t v" "l2vpns v = (l2vpns u)(l \<mapsto> l2')" "l2vpn_list v = l2vpn_list u" "l2_pw_type l2' = l2_pw_type l21"
        "l2_name l2' = l2_name l21"
        and o: "\<forall>e. e \<notin> set xs \<longrightarrow> (e \<in> set (l2_pw_list l2') \<longleftrightarrow> e \<in> set (l2_pw_list l21)) \<and> map_option pw_conf (pws v e) = map_option pw_conf (pws u e)"
        and x: "\<forall>e\<in>set xs. e \<in> set (l2_pw_list l2') \<longleftrightarrow> (\<exists>pw. pws u e = Some pw \<and> l2vpn_pw_find (cl_pw_list xl) (pw_ifindex pw) \<noteq> None)"
        and k: "\<forall>e\<in>set (l2_pw_list l2'). map_option pw_conf (pws v e) = map_option pw_conf (pws u e)"
      have "e \<in> set (l2_pw_list l2') \<longleftrightarrow> (\<exists>pw. pws s e = Some pw \<and> l2vpn_pw_find (cl_pw_list xl) (pw_ifindex pw) \<noteq> None)"
        if e: "e \<in> set (d # xs)" for e
      proof (cases "e = d")
        case True
        with o nd dd(1) show ?thesis by simp
      next
        case False
        with e x match [OF False] show ?thesis by simp
      qed
      moreover have "map_option pw_conf (pws v e) = map_option pw_conf (pws s e)" if e: "e \<in> set (l2_pw_list l2')" for e
      proof (cases "e = d")
        case True
        with o nd e have "d \<in> set (l2_pw_list l21)" by simp
        with dd(2) k e True show ?thesis by simp
      next
        case False
        with k e oth show ?thesis by simp
      qed
      ultimately show "\<exists>l2'. midv {} t v \<and> l2vpns v = (l2vpns s)(l \<mapsto> l2') \<and> l2vpn_list v = l2vpn_list s \<and>
        l2_pw_type l2' = l2_pw_type l2 \<and> l2_name l2' = l2_name l2 \<and>
        (\<forall>e. e \<notin> set (d # xs) \<longrightarrow> (e \<in> set (l2_pw_list l2') \<longleftrightarrow> e \<in> set (l2_pw_list l2)) \<and> map_option pw_conf (pws v e) = map_option pw_conf (pws s e)) \<and>
        (\<forall>e\<in>set (d # xs). e \<in> set (l2_pw_list l2') \<longleftrightarrow> (\<exists>pw. pws s e = Some pw \<and> l2vpn_pw_find (cl_pw_list xl) (pw_ifindex pw) \<noteq> None)) \<and>
        (\<forall>e\<in>set (l2_pw_list l2'). map_option pw_conf (pws v e) = map_option pw_conf (pws s e))"
        using v u o oth by (intro exI [of _ l2']) simp
    qed
  qed
qed

section \<open>Merging layer-2 VPNs\<close>

definition pwtyp :: "lde \<Rightarrow> nat \<Rightarrow> int" where
  "pwtyp s d = (case pws s d of None \<Rightarrow> 0 | Some pw \<Rightarrow> (case l2vpns s (pw_l2vpn pw) of None \<Rightarrow> 0 | Some l2 \<Rightarrow> l2_pw_type l2))"

definition lde_ok :: "lde \<Rightarrow> bool" where
  "lde_ok s \<longleftrightarrow> midv {} (pwtyp s) s"

lemma midv_types:
  assumes m: "midv L t s" and e: "\<And>d pw. pws s d = Some pw \<Longrightarrow> t' d = t d"
  shows "midv L t' s"
proof -
  have "pw_node_ok {} t' (pws s) f fn" if "pw_node_ok {} t (pws s) f fn" for f fn
    using that e unfolding pw_node_ok_def by metis
  with m show ?thesis by (simp add: midv_def pwJ_def)
qed

lemma pwtyp_own: "store_ok L s \<Longrightarrow> l2vpns s l = Some l2 \<Longrightarrow> d \<in> set (l2_pw_list l2) \<Longrightarrow> pwtyp s d = l2_pw_type l2"
  by (erule (2) store_pw) (simp add: pwtyp_def)

lemma lde_okI:
  assumes m: "midv {} t s" and ty: "\<And>l l2 d. l2vpns s l = Some l2 \<Longrightarrow> d \<in> set (l2_pw_list l2) \<Longrightarrow> t d = l2_pw_type l2"
  shows "lde_ok s"
  unfolding lde_ok_def
proof (rule midv_types [OF m])
  fix d pw assume "pws s d = Some pw"
  moreover have st: "store_ok {} s" using m by (simp add: midv_def)
  ultimately have "pw_owned s d pw" by (simp add: store_ok_def)
  then obtain l2 where l2: "l2vpns s (pw_l2vpn pw) = Some l2" "d \<in> set (l2_pw_list l2)" by (auto simp: pw_owned_def)
  then show "pwtyp s d = t d" using pwtyp_own [OF st l2] ty [OF l2] by simp
qed

definition l2vpn_wf :: "conf_l2vpn \<Rightarrow> bool" where
  "l2vpn_wf xl \<longleftrightarrow> distinct (map pw_ifindex (cl_pw_list xl)) \<and> (\<forall>xp\<in>set (cl_pw_list xl). pw_af xp \<noteq> AF_UNSPEC)"

lemma pw_find_idx: "l2vpn_pw_find ps i \<noteq> None \<longleftrightarrow> i \<in> pw_ifindex ` set ps"
  by (auto simp: l2vpn_pw_find_def find_None_iff image_iff simp del: not_None_eq)

lemma lde_merge_l2vpn_ok:
  assumes ok: "lde_ok s" and l: "l2vpns s l = Some l2" and wf: "l2vpn_wf xl" and c: "pws_clean s l2 xl (cl_pw_list xl)"
  shows "okE (lde_merge_l2vpn l xl s) (\<lambda>u. lde_ok u \<and> others_same l s u \<and> map_option l2_name (l2vpns u l) = Some (l2_name l2))"
proof -
  let ?ps = "cl_pw_list xl"
  have m: "midv {} (pwtyp s) s" using ok by (simp add: lde_ok_def)
  have st: "store_ok {} s" using m by (simp add: midv_def)
  have ty: "\<forall>d\<in>set (l2_pw_list l2). pwtyp s d = l2_pw_type l2" using pwtyp_own [OF st l] by simp
  have dist: "distinct (l2_pw_list l2)" using st l by (simp add: store_ok_def pw_list_ok_def)
  have "okE (bindE (foldE (lde_drop_pw l xl) (l2_pw_list l2) s) (\<lambda>s1. bindE (foldE (lde_take_pw l xl) ?ps s1) (\<lambda>s2.
      Inr (upd_l2 s2 l (set_l2_params (cl_pw_type xl) (cl_mtu xl))))))
      (\<lambda>u. lde_ok u \<and> others_same l s u \<and> map_option l2_name (l2vpns u l) = Some (l2_name l2))"
  proof (rule okE_bind [OF drop_pw_loop [OF m l _ dist ty, of xl]], simp, elim exE conjE)
    fix s1 l21
    assume s1: "midv {} (pwtyp s) s1" "l2vpns s1 = (l2vpns s)(l \<mapsto> l21)" "l2vpn_list s1 = l2vpn_list s"
      "l2_pw_type l21 = l2_pw_type l2" "l2_name l21 = l2_name l2"
      and out: "\<forall>e. e \<notin> set (l2_pw_list l2) \<longrightarrow> (e \<in> set (l2_pw_list l21) \<longleftrightarrow> e \<in> set (l2_pw_list l2)) \<and>
        map_option pw_conf (pws s1 e) = map_option pw_conf (pws s e)"
      and inn: "\<forall>e\<in>set (l2_pw_list l2). e \<in> set (l2_pw_list l21) \<longleftrightarrow> (\<exists>pw. pws s e = Some pw \<and> l2vpn_pw_find ?ps (pw_ifindex pw) \<noteq> None)"
      and kp: "\<forall>e\<in>set (l2_pw_list l21). map_option pw_conf (pws s1 e) = map_option pw_conf (pws s e)"
    have l1: "l2vpns s1 l = Some l21" using s1(2) by simp
    have sub: "set (l2_pw_list l21) \<subseteq> set (l2_pw_list l2)" using out by auto
    have pw1: "\<exists>p. pws s e = Some p \<and> pw_conf q = pw_conf p" if "e \<in> set (l2_pw_list l21)" "pws s1 e = Some q" for e q
      using kp that by (cases "pws s e") auto
    have types: "types_at {} xl (pwtyp s) l21 s1" using ty sub s1(4) by (auto simp: types_at_def)
    have K: "idx_in (pw_ifindex ` set ?ps) l21 s1"
      unfolding idx_in_def
    proof (intro ballI allI impI)
      fix e q assume e: "e \<in> set (l2_pw_list l21)" "pws s1 e = Some q"
      then obtain p where p: "pws s e = Some p" "pw_conf q = pw_conf p" using pw1 by blast
      with inn e sub have "l2vpn_pw_find ?ps (pw_ifindex p) \<noteq> None" by auto
      with pw_conf_sel [OF p(2)] show "pw_ifindex q \<in> pw_ifindex ` set ?ps" by (simp add: pw_find_idx del: not_None_eq)
    qed
    have "pws_clean s1 l21 xl ?ps"
      unfolding pws_clean_def
    proof (intro conjI ballI allI impI)
      fix e q xp assume e: "e \<in> set (l2_pw_list l21)" and xp: "xp \<in> set ?ps"
        and q: "pws s1 e = Some q \<and> pw_ifindex q = pw_ifindex xp \<and> pw_reset_nbr q xp"
      then obtain p where p: "pws s e = Some p" "pw_conf q = pw_conf p" using pw1 by blast
      note sel = pw_conf_sel [OF p(2)]
      have "pw_reset_nbr p xp" using q sel by (simp add: pw_reset_nbr_def pw_conf_flags_def)
      then have "pw_pwid xp = pw_pwid p \<and> pw_lsr_id xp = pw_lsr_id p \<and> cl_pw_type xl = l2_pw_type l2"
        using c e sub xp p q sel unfolding pws_clean_def by auto
      then show "pw_pwid xp = pw_pwid q" "pw_lsr_id xp = pw_lsr_id q" "cl_pw_type xl = l2_pw_type l21" using sel s1(4) by simp_all
    next
      fix xp assume "cl_pw_type xl \<noteq> l2_pw_type l21" and xp: "xp \<in> set ?ps"
      then obtain d p where d: "d \<in> set (l2_pw_list l2)" "pws s d = Some p" "pw_ifindex p = pw_ifindex xp"
        using c s1(4) unfolding pws_clean_def by auto
      then have d1: "d \<in> set (l2_pw_list l21)" using inn xp by (auto simp: pw_find_idx simp del: not_None_eq)
      then obtain q where "pws s1 d = Some q" "pw_conf q = pw_conf p" using kp d(2) by (cases "pws s1 d") auto
      with d d1 pw_conf_sel show "\<exists>d\<in>set (l2_pw_list l21). \<exists>pw. pws s1 d = Some pw \<and> pw_ifindex pw = pw_ifindex xp" by metis
    qed
    then have "okE (foldE (lde_take_pw l xl) ?ps s1) (\<lambda>u. \<exists>t' l2'. midv {} t' u \<and> l2vpns u l = Some l2' \<and>
      l2_pw_type l2' = l2_pw_type l21 \<and> l2_name l2' = l2_name l21 \<and> types_at ({} \<union> pw_ifindex ` set ?ps) xl t' l2' u \<and>
      others_same l s1 u \<and> (\<forall>d. d \<notin> set (l2_pw_list l2') \<longrightarrow> t' d = pwtyp s d) \<and> set (l2_pw_list l21) \<subseteq> set (l2_pw_list l2') \<and>
      idx_in (pw_ifindex ` set ?ps) l2' u)"
      by (intro take_loop [OF s1(1) l1 types]) (use wf K in \<open>auto simp: l2vpn_wf_def\<close>)
    then show "okE (bindE (foldE (lde_take_pw l xl) ?ps s1) (\<lambda>s2. Inr (upd_l2 s2 l (set_l2_params (cl_pw_type xl) (cl_mtu xl)))))
      (\<lambda>u. lde_ok u \<and> others_same l s u \<and> map_option l2_name (l2vpns u l) = Some (l2_name l2))"
    proof (rule okE_bind, elim exE conjE)
      fix s2 t' l22
      assume s2: "midv {} t' s2" "l2vpns s2 l = Some l22" "l2_name l22 = l2_name l21"
        "types_at ({} \<union> pw_ifindex ` set ?ps) xl t' l22 s2" "others_same l s1 s2"
        "\<forall>d. d \<notin> set (l2_pw_list l22) \<longrightarrow> t' d = pwtyp s d" "idx_in (pw_ifindex ` set ?ps) l22 s2"
      let ?u = "upd_l2 s2 l (set_l2_params (cl_pw_type xl) (cl_mtu xl))"
      have st2: "store_ok {} s2" using s2(1) by (simp add: midv_def)
      have lu: "l2vpns ?u = (l2vpns s2)(l \<mapsto> set_l2_params (cl_pw_type xl) (cl_mtu xl) l22)" using s2(2) by (simp add: upd_l2_def)
      have os1: "others_same l s s1" unfolding others_same_def
      proof (intro conjI allI impI)
        fix k l2k d assume k: "k \<noteq> l \<and> l2vpns s k = Some l2k \<and> d \<in> set (l2_pw_list l2k)"
        then obtain p where "pws s d = Some p" "pw_l2vpn p = k" using store_pw [OF st, of k l2k d] by blast
        then have "d \<notin> set (l2_pw_list l2)" using store_pw [OF st l, of d] k by auto
        with out show "map_option pw_conf (pws s1 d) = map_option pw_conf (pws s d)" by simp
      qed (use s1 in simp_all)
      have os: "others_same l s s2" by (rule others_same_trans [OF os1 s2(5)])
      have "lde_ok ?u"
      proof (rule lde_okI)
        show "midv {} t' ?u" by (rule midv_upd_l2 [OF s2(1)]) (simp add: set_l2_params_def)
        fix k l2k d assume k: "l2vpns ?u k = Some l2k" "d \<in> set (l2_pw_list l2k)"
        show "t' d = l2_pw_type l2k"
        proof (cases "k = l")
          case True
          with k lu have e: "l2k = set_l2_params (cl_pw_type xl) (cl_mtu xl) l22" by simp
          with k have d: "d \<in> set (l2_pw_list l22)" by (simp add: set_l2_params_def)
          then obtain pw where "pws s2 d = Some pw" by (rule store_pw [OF st2 s2(2)])
          with s2(4,7) d e show ?thesis by (simp add: types_at_def idx_in_def set_l2_params_def)
        next
          case False
          with k lu have k2: "l2vpns s2 k = Some l2k" by simp
          then have ks: "l2vpns s k = Some l2k" using os False by (simp add: others_same_def)
          obtain p where "pws s2 d = Some p" "pw_l2vpn p = k" by (rule store_pw [OF st2 k2 k(2)])
          then have "d \<notin> set (l2_pw_list l22)" using store_pw [OF st2 s2(2), of d] False by auto
          with s2(6) pwtyp_own [OF st ks k(2)] show ?thesis by simp
        qed
      qed
      moreover have "others_same l s ?u" using os by (simp add: others_same_def upd_l2_def)
      moreover have "map_option l2_name (l2vpns ?u l) = Some (l2_name l2)" using lu s2(3) s1(5) by (simp add: set_l2_params_def)
      ultimately show "okE (Inr ?u) (\<lambda>u. lde_ok u \<and> others_same l s u \<and> map_option l2_name (l2vpns u l) = Some (l2_name l2))"
        by simp
    qed
  qed
  with l show ?thesis by (simp add: lde_merge_l2vpn_def get_l2vpn_def)
qed

end
