(* ===== verification/Lde_ReloadReach.thy ===== *)
theory Lde_ReloadReach
  imports Lde_ReloadSafe
begin

text \<open>
  The reload of the configuration of the label decision engine as a whole, and the engine with its
  reloads as a state machine: in every state it can reach, every clean reload and every message is
  handled without a fault.
\<close>

section \<open>Removing a layer-2 VPN\<close>

lemma unref_upd_fn:
  "unref d s \<Longrightarrow> (\<And>fn. fec_find (ft s) f = Some fn \<Longrightarrow> fn_data (k fn) = fn_data fn \<or> fn_data (k fn) = None) \<Longrightarrow>
    unref d (upd_fn s f k)"
  by (fastforce simp: unref_def split: if_splits)

lemma unref_cong: "unref d s \<Longrightarrow> ft s' = ft s \<Longrightarrow> unref d s'"
  by (simp add: unref_def)

interpretation un: lde_closed "unref d" for d
proof
  fix s f assume "unref d s" "fec_find (ft s) f = None"
  then show "unref d (fec_add s f)" by (auto simp: unref_def fec_add_find empty_node_def split: if_splits)
next
  fix s f fn assume "unref d s"
  then show "unref d (s\<lparr>ft := fst (fec_remove (ft s) f)\<rparr>)" by (auto simp: unref_def fec_find_simps split: if_splits)
next
  fix s f k assume "unref d s" "\<And>fn. fec_find (ft s) f = Some fn \<Longrightarrow> node_kept f (k fn) fn"
  then show "unref d (upd_fn s f k)" by (intro unref_upd_fn) (auto simp: node_kept_def)
qed (auto simp: emit_def upd_ln_def upd_pw_def elim!: unref_cong)

lemma exit_unref:
  assumes u: "unref e s"
  shows "partE (l2vpn_pw_exit s d) (unref e)"
proof -
  have del: "unref e (fec_nh_del s1 f i)" if "unref e s1" for s1 f i
    unfolding fec_nh_del_def by (rule unref_upd_fn [OF that]) simp
  have lab: "unref e (upd_fn s3 f (\<lambda>fn. fn\<lparr>fn_local_label := NO_LABEL\<rparr>))" if "unref e s3" for s3 f
    by (rule unref_upd_fn [OF that]) simp
  have data: "unref e (upd_fn s3 f (\<lambda>fn. fn\<lparr>fn_data := None\<rparr>))" if "unref e s3" for s3 f
    by (rule unref_upd_fn [OF that]) simp
  have "partE (lde_kernel_remove s f AF_INET a 0) (unref e)" for f a
    unfolding lde_kernel_remove_def Let_def
    by (auto simp: u intro!: partE_any [where 'a = "nat option"] partE_bind [OF un.klabel(2) [OF u]] partE_any [where 'a = fec_node]
        partE_bind [OF un.labelwithdraw_all [OF del]] del lab data split: option.splits fec.splits)
  then show ?thesis unfolding l2vpn_pw_exit_def by (auto intro!: partE_any [where 'a = l2vpn_pw] partE_any [where 'a = fec])
qed

lemma exit_loop:
  assumes "midv L t s" "l2vpns s l = Some l2" "set xs \<subseteq> set (l2_pw_list l2)" "\<forall>d\<in>set (l2_pw_list l2). t d = l2_pw_type l2"
    "\<forall>d\<in>D. unref d s"
  shows "okE (foldE l2vpn_pw_exit xs s) (\<lambda>u. midv L t u \<and> same_conf s u \<and> (\<forall>d\<in>D \<union> set xs. unref d u))"
  using assms
proof (induction xs arbitrary: s D)
  case (Cons d xs)
  have st: "store_ok L s" using Cons.prems(1) by (simp add: midv_def)
  have d: "d \<in> set (l2_pw_list l2)" using Cons.prems(3) by simp
  obtain pw where pw: "pws s d = Some pw" "pw_l2vpn pw = l" by (rule store_pw [OF st Cons.prems(2) d])
  have "okE (l2vpn_pw_exit s d) (\<lambda>u. midv L t u \<and> same_conf s u \<and> unref d u)"
    by (rule exit_mid [OF Cons.prems(1) pw(1), of l2]) (use Cons.prems(2,4) pw d in simp_all)
  moreover have "partE (l2vpn_pw_exit s d) (\<lambda>u. \<forall>e\<in>D. unref e u)"
    using exit_unref Cons.prems(5) by (fastforce simp: partE_def)
  ultimately have "okE (l2vpn_pw_exit s d) (\<lambda>u. (midv L t u \<and> same_conf s u \<and> unref d u) \<and> (\<forall>e\<in>D. unref e u))"
    by (rule partE_okE [where P = "\<lambda>u. \<forall>e\<in>D. unref e u", rotated])
  then show ?case unfolding foldE.simps
  proof (rule okE_bind)
    fix u assume u: "(midv L t u \<and> same_conf s u \<and> unref d u) \<and> (\<forall>e\<in>D. unref e u)"
    have "okE (foldE l2vpn_pw_exit xs u) (\<lambda>v. midv L t v \<and> same_conf u v \<and> (\<forall>e\<in>insert d D \<union> set xs. unref e v))"
      by (rule Cons.IH) (use u Cons.prems in \<open>auto simp: same_conf_def\<close>)
    then show "okE (foldE l2vpn_pw_exit xs u) (\<lambda>v. midv L t v \<and> same_conf s v \<and> (\<forall>e\<in>D \<union> set (d # xs). unref e v))"
      by (rule okE_mono) (use u in \<open>auto simp: same_conf_def\<close>)
  qed
qed simp

lemma foldl_free: "foldl free_pw s ds = s\<lparr>pws := (\<lambda>d. if d \<in> set ds then None else pws s d)\<rparr>"
  by (induction ds arbitrary: s) (auto simp: free_pw_def intro!: lde.equality)

lemma midv_del:
  assumes m: "midv {l} t s" and l: "l2vpns s l = Some l2" "l \<notin> set (l2vpn_list s)"
    and u: "\<forall>d\<in>set (l2_pw_list l2). unref d s"
  shows "okE (l2vpn_del s l) (\<lambda>u. midv {} t u \<and> l2vpn_list u = l2vpn_list s \<and> l2vpns u = (l2vpns s)(l := None) \<and>
    (\<forall>k l2k d. k \<noteq> l \<and> l2vpns s k = Some l2k \<and> d \<in> set (l2_pw_list l2k) \<longrightarrow> pws u d = pws s d))"
proof -
  have st: "store_ok {l} s" and j: "pwJ {} t s" and inv: "lde_inv s" using m by (simp_all add: midv_def)
  let ?u = "s\<lparr>pws := \<lambda>d. if d \<in> set (l2_pw_list l2) then None else pws s d, l2vpns := (l2vpns s)(l := None)\<rparr>"
  have e: "l2vpn_del s l = Inr ?u" using l by (simp add: l2vpn_del_def get_l2vpn_def foldl_free Let_def)
  have oth: "d \<notin> set (l2_pw_list l2)" if k: "l2vpns s k = Some l2k" "d \<in> set (l2_pw_list l2k)" "k \<noteq> l" for k l2k d
    using store_pw [OF st k(1,2)] store_pw [OF st l(1), of d] k(3) by (metis option.inject)
  have "pw_list_ok ?u k l2k" if k: "l2vpns ?u k = Some l2k" for k l2k
  proof -
    have k': "l2vpns s k = Some l2k" "k \<noteq> l" using k by (auto split: if_splits)
    have "pw_list_ok s k l2k" using st k' by (simp add: store_ok_def)
    with oth [OF k'(1) _ k'(2)] show ?thesis by (auto simp: pw_list_ok_def)
  qed
  moreover have "pw_owned ?u d pw" if d: "pws ?u d = Some pw" for d pw
  proof -
    have d': "pws s d = Some pw" "d \<notin> set (l2_pw_list l2)" using d by (auto split: if_splits)
    then have "pw_owned s d pw" using st by (simp add: store_ok_def)
    with d' l show ?thesis by (auto simp: pw_owned_def)
  qed
  moreover have "distinct (l2vpn_list s)" "dom (l2vpns ?u) = set (l2vpn_list s)" using st l by (auto simp: store_ok_def)
  ultimately have st': "store_ok {} ?u" by (simp add: store_ok_def)
  have "pw_node_ok {} t (pws ?u) f fn" if fn: "fec_find (ft s) f = Some fn" for f fn
  proof -
    have "fn_data fn = Some d \<Longrightarrow> d \<notin> set (l2_pw_list l2)" for d using u fn by (auto simp: unref_def)
    with pwJ_node [OF j fn] show ?thesis by (auto simp: pw_node_ok_def)
  qed
  then have j': "pwJ {} t ?u" by (simp add: pwJ_def)
  have "lde_inv ?u" by (rule lde_inv_conf [OF inv _ _ store_conf_ok [OF st']]) (use pwJ_live [OF j'] in simp_all)
  with st' j' e oth show ?thesis by (auto simp: midv_def)
qed

text \<open>What the other layer-2 VPNs keep.\<close>

definition keeps_named :: "string set \<Rightarrow> lde \<Rightarrow> lde \<Rightarrow> bool" where
  "keeps_named N s u \<longleftrightarrow>
     (\<forall>l l2. l2vpns u l = Some l2 \<and> l2_name l2 \<notin> N \<longrightarrow>
        l2vpns s l = Some l2 \<and> (\<forall>d\<in>set (l2_pw_list l2). map_option pw_conf (pws u d) = map_option pw_conf (pws s d)))"

lemma keeps_named_trans:
  assumes "keeps_named M s u" "keeps_named N u v" "M \<union> N \<subseteq> P"
  shows "keeps_named P s v"
  unfolding keeps_named_def
proof (intro allI impI)
  fix l l2 assume l: "l2vpns v l = Some l2 \<and> l2_name l2 \<notin> P"
  with assms(2,3) have u: "l2vpns u l = Some l2" "\<forall>d\<in>set (l2_pw_list l2). map_option pw_conf (pws v d) = map_option pw_conf (pws u d)"
    by (auto simp: keeps_named_def)
  with assms(1,3) l have "l2vpns s l = Some l2" "\<forall>d\<in>set (l2_pw_list l2). map_option pw_conf (pws u d) = map_option pw_conf (pws s d)"
    by (auto simp: keeps_named_def)
  with u show "l2vpns s l = Some l2 \<and> (\<forall>d\<in>set (l2_pw_list l2). map_option pw_conf (pws v d) = map_option pw_conf (pws s d))"
    by simp
qed

lemma keeps_named_refl [simp]: "keeps_named N s s"
  by (simp add: keeps_named_def)

lemma lde_drop_l2vpn_ok:
  assumes ok: "lde_ok s" and l: "l \<in> set (l2vpn_list s)"
  shows "okE (lde_drop_l2vpn x s l) (\<lambda>u. lde_ok u \<and> keeps_named {} s u \<and> (\<forall>k\<in>set (l2vpn_list s). k \<noteq> l \<longrightarrow> k \<in> set (l2vpn_list u)))"
proof -
  have m: "midv {} (pwtyp s) s" using ok by (simp add: lde_ok_def)
  have st: "store_ok {} s" using m by (simp add: midv_def)
  have "l \<in> dom (l2vpns s)" using st l by (simp add: store_ok_def)
  then obtain l2 where l2: "l2vpns s l = Some l2" by blast
  have ty: "\<forall>d\<in>set (l2_pw_list l2). pwtyp s d = l2_pw_type l2" using pwtyp_own [OF st l2] by simp
  show ?thesis
  proof (cases "l2vpn_find (xc_l2vpn_list x) (l2_name l2) = None")
    case False
    with ok l2 show ?thesis by (auto simp: lde_drop_l2vpn_def get_l2vpn_def)
  next
    case True
    let ?s0 = "s\<lparr>l2vpn_list := remove1 l (l2vpn_list s)\<rparr>"
    have st0: "store_ok {l} ?s0"
    proof -
      have "pw_list_ok ?s0 = pw_list_ok s" "pw_owned ?s0 = pw_owned s" by (auto simp: fun_eq_iff pw_list_ok_def pw_owned_def)
      then show ?thesis using st l by (auto simp: store_ok_def)
    qed
    have j0: "pwJ {} (pwtyp s) ?s0" using m by (auto simp: midv_def elim!: pwJ_cong)
    have "lde_inv ?s0"
      by (rule lde_inv_conf [OF _ _ _ store_conf_ok [OF st0]]) (use m pwJ_live [OF j0] in \<open>simp_all add: midv_def\<close>)
    then have m0: "midv {l} (pwtyp s) ?s0" using st0 j0 by (simp add: midv_def)
    have nl: "l \<notin> set (l2vpn_list ?s0)" using st by (simp add: store_ok_def)
    have "okE (foldE l2vpn_pw_exit (l2_pw_list l2) ?s0)
        (\<lambda>u. midv {l} (pwtyp s) u \<and> same_conf ?s0 u \<and> (\<forall>d\<in>{} \<union> set (l2_pw_list l2). unref d u))"
      by (rule exit_loop [OF m0]) (use l2 ty in simp_all)
    then have "okE (bindE (foldE l2vpn_pw_exit (l2_pw_list l2) ?s0) (\<lambda>s1. l2vpn_del s1 l))
        (\<lambda>u. lde_ok u \<and> keeps_named {} s u \<and> (\<forall>k\<in>set (l2vpn_list s). k \<noteq> l \<longrightarrow> k \<in> set (l2vpn_list u)))"
    proof (rule okE_bind)
      fix s1 assume s1: "midv {l} (pwtyp s) s1 \<and> same_conf ?s0 s1 \<and> (\<forall>d\<in>{} \<union> set (l2_pw_list l2). unref d s1)"
      then have c: "l2vpns s1 = l2vpns s" "l2vpn_list s1 = remove1 l (l2vpn_list s)"
        "\<And>d. map_option pw_conf (pws s1 d) = map_option pw_conf (pws s d)" by (simp_all add: same_conf_def)
      have "okE (l2vpn_del s1 l) (\<lambda>u. midv {} (pwtyp s) u \<and> l2vpn_list u = l2vpn_list s1 \<and> l2vpns u = (l2vpns s1)(l := None) \<and>
          (\<forall>k l2k d. k \<noteq> l \<and> l2vpns s1 k = Some l2k \<and> d \<in> set (l2_pw_list l2k) \<longrightarrow> pws u d = pws s1 d))"
        by (rule midv_del) (use s1 c l2 nl in auto)
      then show "okE (l2vpn_del s1 l) (\<lambda>u. lde_ok u \<and> keeps_named {} s u \<and> (\<forall>k\<in>set (l2vpn_list s). k \<noteq> l \<longrightarrow> k \<in> set (l2vpn_list u)))"
      proof (rule okE_mono)
        fix u assume u: "midv {} (pwtyp s) u \<and> l2vpn_list u = l2vpn_list s1 \<and> l2vpns u = (l2vpns s1)(l := None) \<and>
          (\<forall>k l2k d. k \<noteq> l \<and> l2vpns s1 k = Some l2k \<and> d \<in> set (l2_pw_list l2k) \<longrightarrow> pws u d = pws s1 d)"
        have "lde_ok u"
          by (rule lde_okI [of "pwtyp s"]) (use u c pwtyp_own [OF st] in \<open>auto split: if_splits\<close>)
        moreover have "keeps_named {} s u" using u c by (auto simp: keeps_named_def split: if_splits)
        ultimately show "lde_ok u \<and> keeps_named {} s u \<and> (\<forall>k\<in>set (l2vpn_list s). k \<noteq> l \<longrightarrow> k \<in> set (l2vpn_list u))"
          using u c by simp
      qed
    qed
    with True l2 show ?thesis by (simp add: lde_drop_l2vpn_def get_l2vpn_def l2vpn_exit_def)
  qed
qed

lemma drop_l2vpn_loop:
  assumes "lde_ok s" "set ls \<subseteq> set (l2vpn_list s)" "distinct ls"
  shows "okE (foldE (lde_drop_l2vpn x) ls s) (\<lambda>u. lde_ok u \<and> keeps_named {} s u)"
  using assms
proof (induction ls arbitrary: s)
  case (Cons l ls)
  have "l \<in> set (l2vpn_list s)" using Cons.prems(2) by simp
  from lde_drop_l2vpn_ok [OF Cons.prems(1) this, of x] show ?case unfolding foldE.simps
  proof (rule okE_bind)
    fix u assume u: "lde_ok u \<and> keeps_named {} s u \<and> (\<forall>k\<in>set (l2vpn_list s). k \<noteq> l \<longrightarrow> k \<in> set (l2vpn_list u))"
    have "okE (foldE (lde_drop_l2vpn x) ls u) (\<lambda>v. lde_ok v \<and> keeps_named {} u v)"
      by (rule Cons.IH) (use u Cons.prems in auto)
    then show "okE (foldE (lde_drop_l2vpn x) ls u) (\<lambda>v. lde_ok v \<and> keeps_named {} s v)"
      by (rule okE_mono) (use u keeps_named_trans in blast)
  qed
qed simp

section \<open>Adding a layer-2 VPN\<close>

lemma midv_new_l2vpn:
  assumes m: "midv {} t s" and l: "l = fresh_id (l2vpn_list s)" and e: "l2_pw_list l2 = []"
  shows "l2vpns s l = None" "midv {} t (s\<lparr>l2vpns := (l2vpns s)(l \<mapsto> l2), l2vpn_list := l # l2vpn_list s\<rparr>)" (is "midv {} t ?u")
proof -
  have st: "store_ok {} s" and j: "pwJ {} t s" and inv: "lde_inv s" using m by (simp_all add: midv_def)
  have nl: "l \<notin> set (l2vpn_list s)" using fresh_id_notin l by simp
  then show n: "l2vpns s l = None" using st by (auto simp: store_ok_def)
  have "pw_list_ok ?u k l2k" if "l2vpns ?u k = Some l2k" for k l2k
    using that st e by (auto simp: store_ok_def pw_list_ok_def split: if_splits)
  moreover have "pw_owned ?u d pw" if "pws s d = Some pw" for d pw
  proof -
    have "pw_owned s d pw" using st that by (simp add: store_ok_def)
    with n show ?thesis by (auto simp: pw_owned_def)
  qed
  ultimately have st': "store_ok {} ?u" using st nl by (auto simp: store_ok_def)
  have j': "pwJ {} t ?u" using j by (rule pwJ_cong) simp_all
  have "lde_inv ?u" by (rule lde_inv_conf [OF inv _ _ store_conf_ok [OF st']]) (use pwJ_live [OF j'] in simp_all)
  with st' j' show "midv {} t ?u" by (simp add: midv_def)
qed

text \<open>The pseudowires of a new layer-2 VPN, none of which is started yet.\<close>

definition adding :: "nat \<Rightarrow> conf_l2vpn \<Rightarrow> u32 set \<Rightarrow> lde \<Rightarrow> lde \<Rightarrow> bool" where
  "adding l xl I s u \<longleftrightarrow>
     l2vpn_list u = l2vpn_list s \<and> (\<forall>k. k \<noteq> l \<longrightarrow> l2vpns u k = l2vpns s k) \<and>
     (\<forall>d. pws s d \<noteq> None \<longrightarrow> pws u d = pws s d) \<and>
     (\<exists>t l2. midv {} t u \<and> l2vpns u l = Some l2 \<and> l2_pw_type l2 = cl_pw_type xl \<and> l2_name l2 = cl_name xl \<and>
        (\<forall>d\<in>set (l2_pw_list l2). t d = cl_pw_type xl \<and> (\<forall>pw. pws u d = Some pw \<longrightarrow> pw_ifindex pw \<in> I)) \<and>
        (\<forall>d. pws s d \<noteq> None \<longrightarrow> t d = pwtyp s d))"

lemma adding_step:
  assumes a: "adding l xl I s u" and af: "pw_af xp \<noteq> AF_UNSPEC" and I: "pw_ifindex xp \<notin> I"
  shows "adding l xl (insert (pw_ifindex xp) I) s (fst (add_pw u l xp))"
proof -
  obtain v d where v: "add_pw u l xp = (v, d)" by force
  obtain t l2 where t: "midv {} t u" "l2vpns u l = Some l2" "l2_pw_type l2 = cl_pw_type xl" "l2_name l2 = cl_name xl"
      "\<forall>d\<in>set (l2_pw_list l2). t d = cl_pw_type xl \<and> (\<forall>pw. pws u d = Some pw \<longrightarrow> pw_ifindex pw \<in> I)"
      "\<forall>d. pws s d \<noteq> None \<longrightarrow> t d = pwtyp s d"
    and k: "l2vpn_list u = l2vpn_list s" "\<forall>k. k \<noteq> l \<longrightarrow> l2vpns u k = l2vpns s k" "\<forall>d. pws s d \<noteq> None \<longrightarrow> pws u d = pws s d"
    using a unfolding adding_def by blast
  have no: "\<forall>d\<in>set (l2_pw_list l2). \<forall>pw. pws u d = Some pw \<longrightarrow> pw_ifindex pw \<noteq> pw_ifindex xp" using t(5) I by metis
  note m = midv_add [OF t(1,2) af no v, of "cl_pw_type xl"]
  have fresh: "pws u d = None" "d \<notin> set (l2_pw_list l2)" using m fresh_pw(1,3) [OF t(1)] t(2) by auto
  then have new: "pws s d = None" using k(3) by (metis option.distinct(1))
  have "\<forall>e\<in>set (d # l2_pw_list l2). (t(d := cl_pw_type xl)) e = cl_pw_type xl \<and>
      (\<forall>pw. pws v e = Some pw \<longrightarrow> pw_ifindex pw \<in> insert (pw_ifindex xp) I)"
    using m t(5) by auto
  moreover have "\<forall>e. pws s e \<noteq> None \<longrightarrow> pws v e = pws s e \<and> (t(d := cl_pw_type xl)) e = pwtyp s e"
    using m k(3) t(6) new by auto
  ultimately show ?thesis
    unfolding adding_def v fst_conv using m k t(2-4)
    by (intro conjI exI [of _ "t(d := cl_pw_type xl)"] exI [of _ "l2\<lparr>l2_pw_list := d # l2_pw_list l2\<rparr>"]) auto
qed

lemma adding_loop:
  assumes "adding l xl I s u" "\<forall>xp\<in>set xps. pw_af xp \<noteq> AF_UNSPEC \<and> pw_ifindex xp \<notin> I" "distinct (map pw_ifindex xps)"
  shows "\<exists>J. adding l xl J s (foldl (\<lambda>s xp. fst (add_pw s l xp)) u xps)"
  using assms
proof (induction xps arbitrary: u I)
  case (Cons xp xps)
  have "adding l xl (insert (pw_ifindex xp) I) s (fst (add_pw u l xp))"
    by (rule adding_step) (use Cons.prems in auto)
  moreover have "\<forall>x\<in>set xps. pw_af x \<noteq> AF_UNSPEC \<and> pw_ifindex x \<notin> insert (pw_ifindex xp) I"
  proof
    fix x assume x: "x \<in> set xps"
    then have "pw_ifindex x \<noteq> pw_ifindex xp"
      using Cons.prems(3) by (metis distinct.simps(2) image_eqI list.map(2) list.set_map)
    with x Cons.prems(2) show "pw_af x \<noteq> AF_UNSPEC \<and> pw_ifindex x \<notin> insert (pw_ifindex xp) I" by auto
  qed
  ultimately show ?case using Cons.IH Cons.prems(3) by simp
qed auto

lemma init_loop:
  assumes "midv {} t s" "l2vpns s l = Some l2" "set xs \<subseteq> set (l2_pw_list l2)" "\<forall>d\<in>set (l2_pw_list l2). t d = l2_pw_type l2"
  shows "okE (foldE l2vpn_pw_init xs s) (\<lambda>u. midv {} t u \<and> same_conf s u)"
  using assms
proof (induction xs arbitrary: s)
  case (Cons d xs)
  have st: "store_ok {} s" using Cons.prems(1) by (simp add: midv_def)
  have d: "d \<in> set (l2_pw_list l2)" using Cons.prems(3) by simp
  obtain pw where pw: "pws s d = Some pw" "pw_l2vpn pw = l" by (rule store_pw [OF st Cons.prems(2) d])
  have "okE (l2vpn_pw_init s d) (\<lambda>u. midv {} t u \<and> same_conf s u)"
    by (rule init_mid [OF Cons.prems(1) pw(1), of l2]) (use Cons.prems(2,4) pw d in simp_all)
  then show ?case unfolding foldE.simps
  proof (rule okE_bind)
    fix u assume u: "midv {} t u \<and> same_conf s u"
    have "okE (foldE l2vpn_pw_init xs u) (\<lambda>v. midv {} t v \<and> same_conf u v)"
      by (rule Cons.IH) (use u Cons.prems in \<open>auto simp: same_conf_def\<close>)
    then show "okE (foldE l2vpn_pw_init xs u) (\<lambda>v. midv {} t v \<and> same_conf s v)"
      by (rule okE_mono) (use u in \<open>auto simp: same_conf_def\<close>)
  qed
qed simp

lemma new_l2vpn_ok:
  assumes ok: "lde_ok s" and wf: "l2vpn_wf xl" and a: "add_l2vpn s xl = (u, l)"
  shows "okE (l2vpn_init u l) (\<lambda>v. lde_ok v \<and> keeps_named {cl_name xl} s v)"
proof -
  have m: "midv {} (pwtyp s) s" using ok by (simp add: lde_ok_def)
  have st: "store_ok {} s" using m by (simp add: midv_def)
  define l2 where "l2 = \<lparr>l2_name = cl_name xl, l2_pw_type = cl_pw_type xl, l2_mtu = cl_mtu xl, l2_pw_list = []\<rparr>"
  define s1 where "s1 = s\<lparr>l2vpns := (l2vpns s)(l \<mapsto> l2), l2vpn_list := l # l2vpn_list s\<rparr>"
  have l: "l = fresh_id (l2vpn_list s)" and u: "u = foldl (\<lambda>s xp. fst (add_pw s l xp)) s1 (rev (cl_pw_list xl))"
    using a by (auto simp: add_l2vpn_def Let_def s1_def l2_def)
  have e: "l2_pw_list l2 = []" by (simp add: l2_def)
  note new = midv_new_l2vpn [OF m l e, folded s1_def]
  have ty1: "pwtyp s1 d = pwtyp s d" if d: "pws s d \<noteq> None" for d
  proof -
    obtain pw where pw: "pws s d = Some pw" using d by blast
    then have "pw_owned s d pw" using st by (simp add: store_ok_def)
    then have "pw_l2vpn pw \<noteq> l" using new(1) by (auto simp: pw_owned_def)
    with pw show ?thesis by (simp add: pwtyp_def s1_def)
  qed
  have ps1: "pws s1 = pws s" by (simp add: s1_def)
  have "adding l xl {} s1 s1"
    unfolding adding_def using new(2) by (auto simp: s1_def l2_def ps1 ty1 [unfolded s1_def l2_def] intro!: exI [of _ "pwtyp s"])
  moreover have "distinct (map pw_ifindex (rev (cl_pw_list xl)))" using wf by (simp add: l2vpn_wf_def rev_map [symmetric])
  ultimately obtain J where "adding l xl J s1 u"
    using adding_loop [of l xl "{}" s1 s1 "rev (cl_pw_list xl)"] wf u by (auto simp: l2vpn_wf_def)
  then obtain t l2u where t: "midv {} t u" "l2vpns u l = Some l2u" "l2_pw_type l2u = cl_pw_type xl" "l2_name l2u = cl_name xl"
      "\<forall>d\<in>set (l2_pw_list l2u). t d = cl_pw_type xl" "\<forall>d. pws s1 d \<noteq> None \<longrightarrow> t d = pwtyp s1 d"
    and k: "l2vpn_list u = l2vpn_list s1" "\<forall>k. k \<noteq> l \<longrightarrow> l2vpns u k = l2vpns s1 k" "\<forall>d. pws s1 d \<noteq> None \<longrightarrow> pws u d = pws s1 d"
    unfolding adding_def by blast
  have old: "l2vpns s k = Some l2k" if "l2vpns u k = Some l2k" "k \<noteq> l" for k l2k
    using that k(2) by (simp add: s1_def)
  have "okE (foldE l2vpn_pw_init (l2_pw_list l2u) u) (\<lambda>v. midv {} t v \<and> same_conf u v)"
    by (rule init_loop [OF t(1,2)]) (use t in simp_all)
  then have "okE (foldE l2vpn_pw_init (l2_pw_list l2u) u) (\<lambda>v. lde_ok v \<and> keeps_named {cl_name xl} s v)"
  proof (rule okE_mono)
    fix v assume v: "midv {} t v \<and> same_conf u v"
    then have lv: "l2vpns v = l2vpns u" and pv: "\<And>d. map_option pw_conf (pws v d) = map_option pw_conf (pws u d)"
      by (simp_all add: same_conf_def)
    have "lde_ok v"
    proof (rule lde_okI)
      show "midv {} t v" using v by simp
      fix k l2k d assume d: "l2vpns v k = Some l2k" "d \<in> set (l2_pw_list l2k)"
      show "t d = l2_pw_type l2k"
      proof (cases "k = l")
        case True
        with d t lv show ?thesis by simp
      next
        case False
        then have "l2vpns s k = Some l2k" using old d lv by simp
        moreover obtain pw where "pws s d = Some pw" by (rule store_pw [OF st \<open>l2vpns s k = Some l2k\<close> d(2)])
        ultimately show ?thesis using t(6) ty1 pwtyp_own [OF st _ d(2)] by (simp add: ps1)
      qed
    qed
    moreover have "keeps_named {cl_name xl} s v"
      unfolding keeps_named_def
    proof (intro allI impI)
      fix k l2k assume k': "l2vpns v k = Some l2k \<and> l2_name l2k \<notin> {cl_name xl}"
      then have "k \<noteq> l" using t(2,4) lv by auto
      then have sk: "l2vpns s k = Some l2k" using old k' lv by simp
      moreover have "pws u d = pws s d" if d: "d \<in> set (l2_pw_list l2k)" for d
      proof -
        obtain pw where "pws s d = Some pw" by (rule store_pw [OF st sk d])
        with k(3) show ?thesis by (simp add: ps1)
      qed
      ultimately show "l2vpns s k = Some l2k \<and> (\<forall>d\<in>set (l2_pw_list l2k). map_option pw_conf (pws v d) = map_option pw_conf (pws s d))"
        using pv by simp
    qed
    ultimately show "lde_ok v \<and> keeps_named {cl_name xl} s v" by simp
  qed
  with t(2) show ?thesis by (simp add: l2vpn_init_def get_l2vpn_def)
qed

section \<open>Reloading\<close>

text \<open>
  The reloads that keep classes and pseudowires together, and what the parser guarantees of a
  configuration: one layer-2 VPN of a name, one pseudowire of an interface, with a remote address.
\<close>

definition l2vpns_clean :: "lde \<Rightarrow> conf_l2vpn list \<Rightarrow> bool" where
  "l2vpns_clean s xls \<longleftrightarrow>
     (\<forall>xl\<in>set xls. \<forall>l l2. l2vpns s l = Some l2 \<and> l2_name l2 = cl_name xl \<longrightarrow> pws_clean s l2 xl (cl_pw_list xl))"

definition conf_l2vpns_wf :: "conf_l2vpn list \<Rightarrow> bool" where
  "conf_l2vpns_wf xls \<longleftrightarrow> distinct (map cl_name xls) \<and> (\<forall>xl\<in>set xls. l2vpn_wf xl)"

lemma pws_clean_conf:
  assumes c: "pws_clean s l2 xl xps"
    and d: "\<forall>d\<in>set (l2_pw_list l2). map_option pw_conf (pws u d) = map_option pw_conf (pws s d)"
  shows "pws_clean u l2 xl xps"
  unfolding pws_clean_def
proof (intro conjI ballI allI impI)
  fix e q xp assume e: "e \<in> set (l2_pw_list l2)" and xp: "xp \<in> set xps"
    and q: "pws u e = Some q \<and> pw_ifindex q = pw_ifindex xp \<and> pw_reset_nbr q xp"
  obtain p where p: "pws s e = Some p" "pw_conf q = pw_conf p" using d e q by (cases "pws s e") auto
  note sel = pw_conf_sel [OF p(2)]
  have "pw_reset_nbr p xp" using q sel by (simp add: pw_reset_nbr_def pw_conf_flags_def)
  then have "pw_pwid xp = pw_pwid p \<and> pw_lsr_id xp = pw_lsr_id p \<and> cl_pw_type xl = l2_pw_type l2"
    using c e xp p q sel unfolding pws_clean_def by auto
  then show "pw_pwid xp = pw_pwid q" "pw_lsr_id xp = pw_lsr_id q" "cl_pw_type xl = l2_pw_type l2" using sel by simp_all
next
  fix xp assume "cl_pw_type xl \<noteq> l2_pw_type l2" and xp: "xp \<in> set xps"
  then obtain e p where e: "e \<in> set (l2_pw_list l2)" "pws s e = Some p" "pw_ifindex p = pw_ifindex xp"
    using c unfolding pws_clean_def by blast
  obtain q where "pws u e = Some q" "pw_conf q = pw_conf p" using d e by (cases "pws u e") auto
  with e pw_conf_sel show "\<exists>d\<in>set (l2_pw_list l2). \<exists>pw. pws u d = Some pw \<and> pw_ifindex pw = pw_ifindex xp" by metis
qed

lemma l2vpns_clean_keeps:
  assumes c: "l2vpns_clean s xls" and k: "keeps_named N s u" and n: "cl_name ` set xls \<inter> N = {}"
  shows "l2vpns_clean u xls"
  unfolding l2vpns_clean_def
proof (intro ballI allI impI)
  fix xl l l2 assume xl: "xl \<in> set xls" and l: "l2vpns u l = Some l2 \<and> l2_name l2 = cl_name xl"
  have "l2_name l2 \<notin> N" using n xl l by auto
  then have "l2vpns s l = Some l2" "\<forall>d\<in>set (l2_pw_list l2). map_option pw_conf (pws u d) = map_option pw_conf (pws s d)"
    using k l unfolding keeps_named_def by blast+
  moreover have "pws_clean s l2 xl (cl_pw_list xl)" using c xl l calculation(1) by (simp add: l2vpns_clean_def)
  ultimately show "pws_clean u l2 xl (cl_pw_list xl)" using pws_clean_conf by blast
qed

lemma lde_l2vpn_find_ok:
  assumes st: "store_ok {} s"
  shows "\<exists>r. lde_l2vpn_find s n = Inr r \<and> (\<forall>l. r = Some l \<longrightarrow> (\<exists>l2. l2vpns s l = Some l2 \<and> l2_name l2 = n))"
proof -
  let ?q = "\<lambda>l. map_option l2_name (l2vpns s l) = Some n"
  have "lde_l2vpn_find s n = Inr (find ?q (l2vpn_list s))"
    unfolding lde_l2vpn_find_def
  proof (rule findE_total)
    fix l assume "l \<in> set (l2vpn_list s)"
    then have "l \<in> dom (l2vpns s)" using st by (simp add: store_ok_def)
    then show "bindE (get_l2vpn s l) (\<lambda>l2. Inr (l2_name l2 = n)) = Inr (?q l)" by (auto simp: get_l2vpn_def)
  qed
  moreover have "\<forall>l. find ?q (l2vpn_list s) = Some l \<longrightarrow> (\<exists>l2. l2vpns s l = Some l2 \<and> l2_name l2 = n)"
    by (auto simp: find_Some_iff)
  ultimately show ?thesis by blast
qed

lemma others_same_named:
  assumes o: "others_same l s u" and l: "map_option l2_name (l2vpns u l) = Some n"
  shows "keeps_named {n} s u"
  unfolding keeps_named_def
proof (intro allI impI)
  fix k l2k assume k: "l2vpns u k = Some l2k \<and> l2_name l2k \<notin> {n}"
  with l have "k \<noteq> l" by auto
  with o k show "l2vpns s k = Some l2k \<and> (\<forall>d\<in>set (l2_pw_list l2k). map_option pw_conf (pws u d) = map_option pw_conf (pws s d))"
    unfolding others_same_def by metis
qed

lemma lde_take_l2vpn_ok:
  assumes ok: "lde_ok s" and wf: "l2vpn_wf xl"
    and c: "\<And>l l2. l2vpns s l = Some l2 \<Longrightarrow> l2_name l2 = cl_name xl \<Longrightarrow> pws_clean s l2 xl (cl_pw_list xl)"
  shows "okE (lde_take_l2vpn s xl) (\<lambda>u. lde_ok u \<and> keeps_named {cl_name xl} s u)"
proof -
  have st: "store_ok {} s" using ok by (simp add: lde_ok_def midv_def)
  obtain r where r: "lde_l2vpn_find s (cl_name xl) = Inr r"
    and found: "\<forall>l. r = Some l \<longrightarrow> (\<exists>l2. l2vpns s l = Some l2 \<and> l2_name l2 = cl_name xl)"
    using lde_l2vpn_find_ok [OF st] by blast
  show ?thesis
  proof (cases r)
    case None
    obtain u l where a: "add_l2vpn s xl = (u, l)" by force
    with None r new_l2vpn_ok [OF ok wf a] show ?thesis by (simp add: lde_take_l2vpn_def)
  next
    case (Some l)
    with found obtain l2 where l2: "l2vpns s l = Some l2" "l2_name l2 = cl_name xl" by blast
    have "okE (lde_merge_l2vpn l xl s) (\<lambda>u. lde_ok u \<and> keeps_named {cl_name xl} s u)"
      by (rule okE_mono [OF lde_merge_l2vpn_ok [OF ok l2(1) wf c [OF l2]]]) (use l2 others_same_named in auto)
    with Some r show ?thesis by (simp add: lde_take_l2vpn_def)
  qed
qed

lemma take_l2vpn_loop:
  assumes "lde_ok s" "conf_l2vpns_wf xls" "l2vpns_clean s xls"
  shows "okE (foldE lde_take_l2vpn xls s) lde_ok"
  using assms
proof (induction xls arbitrary: s)
  case (Cons xl xls)
  have "okE (lde_take_l2vpn s xl) (\<lambda>u. lde_ok u \<and> keeps_named {cl_name xl} s u)"
    by (rule lde_take_l2vpn_ok) (use Cons.prems in \<open>auto simp: conf_l2vpns_wf_def l2vpns_clean_def\<close>)
  then show ?case unfolding foldE.simps
  proof (rule okE_bind)
    fix u assume u: "lde_ok u \<and> keeps_named {cl_name xl} s u"
    have "l2vpns_clean s xls" using Cons.prems(3) unfolding l2vpns_clean_def by (meson list.set_intros(2))
    moreover have "cl_name ` set xls \<inter> {cl_name xl} = {}" using Cons.prems(2) by (auto simp: conf_l2vpns_wf_def)
    ultimately have "l2vpns_clean u xls" using u l2vpns_clean_keeps by blast
    then show "okE (foldE lde_take_l2vpn xls u) lde_ok"
      using Cons.IH u Cons.prems(2) by (simp add: conf_l2vpns_wf_def)
  qed
qed simp

text \<open>
  The handlers of messages keep the invariant: none of them touches the configuration, and none but those
  of the pseudowires changes which pseudowire a class belongs to.
\<close>

lemma lde_ok_keep:
  assumes ok: "lde_ok s" and inv: "okE r lde_inv" and sc: "partE r (same_conf s)" and j: "partE r (pwJ {} (pwtyp s))"
  shows "okE r (\<lambda>u. lde_ok u \<and> same_conf s u)"
proof -
  have st: "store_ok {} s" using ok by (simp add: lde_ok_def midv_def)
  have "okE r (\<lambda>u. (lde_inv u \<and> same_conf s u) \<and> pwJ {} (pwtyp s) u)"
    using inv sc j by (intro partE_okE)
  then show ?thesis
  proof (rule okE_mono)
    fix u assume u: "(lde_inv u \<and> same_conf s u) \<and> pwJ {} (pwtyp s) u"
    then have "midv {} (pwtyp s) u" using same_conf_store [OF st] by (simp add: midv_def)
    moreover have "l2vpns u = l2vpns s" using u by (simp add: same_conf_def)
    ultimately have "lde_ok u" using pwtyp_own [OF st] by (intro lde_okI) simp_all
    with u show "lde_ok u \<and> same_conf s u" by simp
  qed
qed

definition is_message :: "lde_event \<Rightarrow> bool" where
  "is_message e \<longleftrightarrow> (case e of PwInit _ \<Rightarrow> False | PwExit _ \<Rightarrow> False | _ \<Rightarrow> True)"

lemma lde_run_ok:
  assumes ok: "lde_ok s" and e: "event_ok s e" "is_message e"
  shows "okE (lde_run s e) (\<lambda>u. lde_ok u \<and> same_conf s u)"
proof (rule lde_ok_keep [OF ok])
  have m: "lde_inv s" "pwJ {} (pwtyp s) s" using ok by (simp_all add: lde_ok_def midv_def)
  show "okE (lde_run s e) lde_inv" by (rule lde_run_inv [OF m(1) e(1)])
  have n: "\<forall>d. e \<noteq> PwInit d \<and> e \<noteq> PwExit d" using e(2) by (auto simp: is_message_def)
  have up: "partE (lde_run s (FromLdpe p (NEIGHBOR_UP a b c))) (\<lambda>u. ft u = ft s \<and> pws u = pws s \<and> l2vpns u = l2vpns s \<and> l2vpn_list u = l2vpn_list s)"
    for p a b c by (simp add: lde_run_def lde_dispatch_imsg_def lde_nbr_new_def split_beta Let_def)
  show "partE (lde_run s e) (same_conf s)"
  proof (cases "\<exists>p a b c. e = FromLdpe p (NEIGHBOR_UP a b c)")
    case True
    with up show ?thesis by (fastforce simp: partE_def same_conf_def)
  qed (rule sc.run_pw, simp_all)
  show "partE (lde_run s e) (pwJ {} (pwtyp s))"
  proof (cases "\<exists>p a b c. e = FromLdpe p (NEIGHBOR_UP a b c)")
    case True
    with up m(2) show ?thesis by (fastforce simp: partE_def elim!: pwJ_cong)
  qed (rule pwj.run [OF m(2) _ n], simp)
qed

lemma l2vpns_clean_same:
  assumes c: "l2vpns_clean s xls" and u: "same_conf s u"
  shows "l2vpns_clean u xls"
  by (rule l2vpns_clean_keeps [OF c, of "{}"]) (use u in \<open>simp_all add: keeps_named_def same_conf_def\<close>)

lemma lde_set_af_flags_ok:
  "lde_ok s \<Longrightarrow> af \<noteq> AF_UNSPEC \<Longrightarrow> okE (lde_set_af_flags s af fl) (\<lambda>u. lde_ok u \<and> same_conf s u)"
  using lde_run_ok [of s "EgressChange af fl"] by (simp add: lde_run_def event_ok_def is_message_def)

lemma lde_merge_l2vpns_ok:
  assumes ok: "lde_ok s" and wf: "conf_l2vpns_wf (xc_l2vpn_list x)" and c: "l2vpns_clean s (xc_l2vpn_list x)"
  shows "okE (lde_merge_l2vpns s x) lde_ok"
proof -
  have "distinct (l2vpn_list s)" using ok by (simp add: lde_ok_def midv_def store_ok_def)
  then have "okE (foldE (lde_drop_l2vpn x) (l2vpn_list s) s) (\<lambda>u. lde_ok u \<and> keeps_named {} s u)"
    by (intro drop_l2vpn_loop [OF ok]) simp_all
  then show ?thesis unfolding lde_merge_l2vpns_def
    by (rule okE_bind) (use wf c l2vpns_clean_keeps take_l2vpn_loop in blast)
qed

lemma lde_merge_config_ok:
  assumes ok: "lde_ok s" and wf: "conf_l2vpns_wf (xc_l2vpn_list x)" and c: "l2vpns_clean s (xc_l2vpn_list x)"
  shows "okE (lde_merge_config s x) lde_ok"
  unfolding lde_merge_config_def
proof (rule okE_bind [OF lde_set_af_flags_ok [OF ok]])
  fix s1 assume s1: "lde_ok s1 \<and> same_conf s s1"
  show "okE (bindE (lde_set_af_flags s1 AF_INET6 (ac_flags (xc_ipv6 x))) (\<lambda>s2. lde_merge_l2vpns s2 x)) lde_ok"
  proof (rule okE_bind [OF lde_set_af_flags_ok])
    fix s2 assume s2: "lde_ok s2 \<and> same_conf s1 s2"
    then show "okE (lde_merge_l2vpns s2 x) lde_ok"
      using s1 c l2vpns_clean_same by (intro lde_merge_l2vpns_ok [OF _ wf]) blast+
  qed (use s1 in simp_all)
qed simp

section \<open>The process as a state machine\<close>

datatype lde_proc_event = Lde_message lde_event | Lde_reconf reconf_imsg

definition lde_proc_run :: "lde_proc \<Rightarrow> lde_proc_event \<Rightarrow> lde_proc res" where
  "lde_proc_run pr e =
     (case e of
        Lde_message m \<Rightarrow> bindE (lde_run (lp_lde pr) m) (\<lambda>s. Inr (pr\<lparr>lp_lde := s\<rparr>))
      | Lde_reconf m \<Rightarrow> lde_reconf pr m)"

text \<open>
  The messages of the parent come in the order of \<^verbatim>\<open>main_imsg_send_config\<close>; with the last one the
  configuration is one the parser accepts, and its change is clean.
\<close>

definition lde_reconf_ok :: "lde_proc \<Rightarrow> reconf_imsg \<Rightarrow> bool" where
  "lde_reconf_ok pr m \<longleftrightarrow>
     (case m of
        RECONF_CONF _ \<Rightarrow> True
      | RECONF_END \<Rightarrow>
          (\<exists>x. lp_nconf pr = Some x \<and> conf_l2vpns_wf (xc_l2vpn_list x) \<and> l2vpns_clean (lp_lde pr) (xc_l2vpn_list x))
      | RECONF_L2VPN_IF _ \<Rightarrow> (\<exists>x. lp_nconf pr = Some x \<and> xc_l2vpn_list x \<noteq> [])
      | RECONF_L2VPN_PW _ \<Rightarrow> (\<exists>x. lp_nconf pr = Some x \<and> xc_l2vpn_list x \<noteq> [])
      | _ \<Rightarrow> lp_nconf pr \<noteq> None)"

definition lde_proc_event_ok :: "lde_proc \<Rightarrow> lde_proc_event \<Rightarrow> bool" where
  "lde_proc_event_ok pr e \<longleftrightarrow>
     (case e of
        Lde_message m \<Rightarrow> event_ok (lp_lde pr) m \<and> is_message m
      | Lde_reconf m \<Rightarrow> lde_reconf_ok pr m)"

inductive lde_proc_reachable :: "lde_proc \<Rightarrow> bool" where
  proc_start: "lde_proc_reachable lde_proc_start"
| proc_step: "lde_proc_reachable pr \<Longrightarrow> lde_proc_event_ok pr e \<Longrightarrow> lde_proc_run pr e = Inr pr' \<Longrightarrow> lde_proc_reachable pr'"

inductive_cases lde_proc_reachableE: "lde_proc_reachable pr"

lemma lde_reconf_lde:
  assumes ok: "lde_ok (lp_lde pr)" and m: "lde_reconf_ok pr m"
  shows "okE (lde_reconf pr m) (\<lambda>q. lde_ok (lp_lde q))"
proof (cases m)
  case RECONF_END
  with m obtain x where x: "lp_nconf pr = Some x" "conf_l2vpns_wf (xc_l2vpn_list x)" "l2vpns_clean (lp_lde pr) (xc_l2vpn_list x)"
    by (auto simp: lde_reconf_ok_def)
  from lde_merge_config_ok [OF ok x(2,3)] show ?thesis
    unfolding lde_reconf_def RECONF_END x(1) reconf_imsg.case option.case by (rule okE_bind) simp
qed (use ok m in \<open>auto simp: lde_reconf_def lde_reconf_ok_def lde_with_nconf_def with_nl2vpn_def split: list.splits\<close>)

lemma lde_proc_run_ok:
  assumes ok: "lde_ok (lp_lde pr)" and e: "lde_proc_event_ok pr e"
  shows "okE (lde_proc_run pr e) (\<lambda>q. lde_ok (lp_lde q))"
proof (cases e)
  case (Lde_message m)
  with e have "okE (lde_run (lp_lde pr) m) (\<lambda>u. lde_ok u \<and> same_conf (lp_lde pr) u)"
    by (intro lde_run_ok [OF ok]) (simp_all add: lde_proc_event_ok_def)
  with Lde_message show ?thesis by (auto simp: lde_proc_run_def intro: okE_bind)
qed (use lde_reconf_lde [OF ok] e in \<open>simp add: lde_proc_run_def lde_proc_event_ok_def\<close>)

lemma lde_proc_start_ok: "lde_ok (lp_lde lde_proc_start)"
proof -
  have "conf_ok (lde_start (\<lambda>_. None) (\<lambda>_. None) [] 0 0)" by (simp add: conf_ok_def lde_start_def)
  then have "lde_inv (lde_start (\<lambda>_. None) (\<lambda>_. None) [] 0 0)" by (rule lde_start_inv)
  then show ?thesis by (simp add: lde_ok_def midv_def lde_proc_start_def store_ok_def pwJ_def lde_start_def)
qed

lemma lde_proc_reachable_ok: "lde_proc_reachable pr \<Longrightarrow> lde_ok (lp_lde pr)"
proof (induction rule: lde_proc_reachable.induct)
  case (proc_step pr e pr')
  then show ?case using lde_proc_run_ok [of pr e] by simp
qed (rule lde_proc_start_ok)

end
