(* ===== verification/Lde_ReloadTheorems.thy ===== *)
theory Lde_ReloadTheorems
  imports Lde_ReloadReach
begin

text \<open>
  The properties of the label decision engine with its reloads: every message and every clean reload is
  handled without a fault, and an unclean one leaves a class that points to a freed pseudowire.
\<close>

section \<open>Reloads\<close>

text \<open>
  What holds between reloads: the class of a pseudowire is the one its configuration names, and the
  pseudowire it points to is in the list of its layer-2 VPN.
\<close>

definition classes_follow_conf :: "lde \<Rightarrow> bool" where
  "classes_follow_conf s \<longleftrightarrow>
     (\<forall>f fn d. fec_find (ft s) f = Some fn \<and> fn_data fn = Some d \<longrightarrow>
        (\<exists>pw l2. pws s d = Some pw \<and> l2vpns s (pw_l2vpn pw) = Some l2 \<and> d \<in> set (l2_pw_list l2) \<and>
           l2vpn_pw_fec s pw = Inr f))"

lemma lde_ok_classes:
  assumes ok: "lde_ok s"
  shows "classes_follow_conf s"
  unfolding classes_follow_conf_def
proof (intro allI impI)
  fix f fn d assume f: "fec_find (ft s) f = Some fn \<and> fn_data fn = Some d"
  have j: "pwJ {} (pwtyp s) s" and st: "store_ok {} s" using ok by (simp_all add: lde_ok_def midv_def)
  obtain pw where pw: "pws s d = Some pw" "f = pw_class (pwtyp s d) pw"
    using pwJ_node [OF j] f unfolding pw_node_ok_def by blast
  then have "pw_owned s d pw" using st by (simp add: store_ok_def)
  then obtain l2 where l2: "l2vpns s (pw_l2vpn pw) = Some l2" "d \<in> set (l2_pw_list l2)" by (auto simp: pw_owned_def)
  then have "l2vpn_pw_fec s pw = Inr f" using pw by (simp add: l2vpn_pw_fec_def get_l2vpn_def pwtyp_def pw_class_def)
  with pw l2 show "\<exists>pw l2. pws s d = Some pw \<and> l2vpns s (pw_l2vpn pw) = Some l2 \<and> d \<in> set (l2_pw_list l2) \<and>
      l2vpn_pw_fec s pw = Inr f" by blast
qed

text \<open>
  C5: In every state the label decision engine can reach from its start, by messages of the other
  processes and by reloads of the configuration, the next message is handled without a fault, the last
  message of a reload included, as long as the reloads are clean; and the class of a pseudowire is always
  the one the configuration in force gives it.
\<close>

theorem lde_reload_never_faults:
  assumes "lde_proc_reachable pr" and "lde_proc_event_ok pr e"
  shows "\<exists>pr'. lde_proc_run pr e = Inr pr' \<and> classes_follow_conf (lp_lde pr')"
  using lde_proc_run_ok [OF lde_proc_reachable_ok [OF assms(1)] assms(2)] lde_ok_classes by (auto simp: okE_def)

definition demo_pw :: l2vpn_pw where
  "demo_pw = \<lparr>pw_l2vpn = 0, pw_lsr_id = 0x0200000a, pw_af = AF_INET, pw_addr = of_v4 0x0200000a, pw_pwid = 100,
     pw_ifname = ''mpw0'', pw_ifindex = 7, pw_remote_group = 0, pw_remote_mtu = 0, pw_remote_status = 0,
     pw_flags = F_PW_STATUSTLV_CONF OR F_PW_CWORD_CONF\<rparr>"

definition demo_vpls :: "l2vpn_pw list \<Rightarrow> conf_l2vpn" where
  "demo_vpls ps = \<lparr>cl_name = ''v'', cl_type = 1, cl_pw_type = 5, cl_mtu = 1500, cl_br_ifname = [], cl_br_ifindex = 0,
     cl_if_list = [], cl_pw_list = ps\<rparr>"

text \<open>The engine has received its first configuration, with one pseudowire, and is about to merge it.\<close>

definition demo_conf :: ldpd_conf where
  "demo_conf = (lde_empty_conf (lp_lde lde_proc_start))\<lparr>xc_l2vpn_list := [demo_vpls [demo_pw]]\<rparr>"

definition demo_loading :: lde_proc where
  "demo_loading = lde_proc_start\<lparr>lp_nconf := Some demo_conf\<rparr>"

lemma demo_loading_reachable: "lde_proc_reachable demo_loading"
proof -
  let ?c0 = "demo_conf\<lparr>xc_l2vpn_list := []\<rparr>"
  have 1: "lde_proc_reachable (lde_proc_start\<lparr>lp_nconf := Some ?c0\<rparr>)"
    by (rule proc_step [OF proc_start, of "Lde_reconf (RECONF_CONF demo_conf)"])
      (simp_all add: lde_proc_event_ok_def lde_reconf_ok_def lde_proc_run_def lde_reconf_def demo_conf_def lde_empty_conf_def Let_def)
  have 2: "lde_proc_reachable (lde_proc_start\<lparr>lp_nconf := Some (?c0\<lparr>xc_l2vpn_list := [demo_vpls []]\<rparr>)\<rparr>)"
    by (rule proc_step [OF 1, of "Lde_reconf (RECONF_L2VPN (demo_vpls []))"])
      (simp_all add: lde_proc_event_ok_def lde_reconf_ok_def lde_proc_run_def lde_reconf_def lde_with_nconf_def demo_vpls_def)
  show ?thesis
    by (rule proc_step [OF 2, of "Lde_reconf (RECONF_L2VPN_PW demo_pw)"])
      (simp_all add: lde_proc_event_ok_def lde_reconf_ok_def lde_proc_run_def lde_reconf_def lde_with_nconf_def with_nl2vpn_def
        demo_vpls_def demo_loading_def demo_conf_def)
qed

theorem lde_reload_never_faults_witness:
  "\<exists>pr'. lde_proc_run demo_loading (Lde_reconf RECONF_END) = Inr pr' \<and> classes_follow_conf (lp_lde pr')"
proof (rule lde_reload_never_faults [OF demo_loading_reachable])
  have "conf_l2vpns_wf [demo_vpls [demo_pw]]" by (simp add: conf_l2vpns_wf_def l2vpn_wf_def demo_vpls_def demo_pw_def)
  moreover have "l2vpns_clean (lp_lde demo_loading) [demo_vpls [demo_pw]]"
    by (simp add: l2vpns_clean_def demo_loading_def lde_proc_start_def lde_start_def)
  ultimately show "lde_proc_event_ok demo_loading (Lde_reconf RECONF_END)"
    by (simp add: lde_proc_event_ok_def lde_reconf_ok_def demo_loading_def demo_conf_def)
qed

section \<open>An unclean reload\<close>

lemma send_dangling:
  assumes "fec_find (ft s) f = Some fn" "fn_data fn = Some d" "pws s d = None" "f = FEC_PWID ty i r"
    "rb_find (lde_nbrs s) p = Some ln"
  shows "lde_send_labelmapping s p f single = Inl NullDeref"
  using assms by (simp add: lde_send_labelmapping_def get_ln_def get_fn_def nbr_guard_def fn_pw_def get_pw_def)

text \<open>
  C36: A reload that changes the control word or status setting of a pseudowire together with its
  identifier does not move the class: \<^verbatim>\<open>merge_l2vpn\<close> skips the reinstallation when the session is to be
  reset, so the class stays installed under the old identifier and points to the pseudowire. When a later
  reload removes the pseudowire, the class of the new identifier is looked up, nothing is removed, and the
  pseudowire is freed: the next label mapping for the old class follows a pointer to freed memory.
\<close>

theorem reset_pw_dangles:
  assumes l: "l2vpns s l = Some l2" "l2_pw_list l2 = [d]" and d: "pws s d = Some pw" "pw_l2vpn pw = l"
    and f: "f = FEC_PWID (of_int (l2_pw_type l2)) (pw_pwid pw) (pw_lsr_id pw)"
      "fec_find (ft s) f = Some fn" "fn_data fn = Some d"
    and new: "fec_find (ft s) (FEC_PWID (of_int (cl_pw_type xl)) (pw_pwid xp) (pw_lsr_id xp)) = None"
    and x: "cl_pw_list xl = [xp]" "pw_ifindex xp = pw_ifindex pw" "pw_af pw \<noteq> AF_UNSPEC" "pw_reset_nbr pw xp"
    and x': "cl_pw_list xl' = []"
  shows "\<exists>u v. lde_merge_l2vpn l xl s = Inr u \<and> lde_merge_l2vpn l xl' u = Inr v \<and>
    fec_find (ft v) f = Some fn \<and> pws v d = None \<and>
    (\<forall>p ln single. rb_find (lde_nbrs s) p = Some ln \<longrightarrow> lde_send_labelmapping v p f single = Inl NullDeref)"
proof -
  let ?u = "upd_l2 (upd_pw s d (\<lambda>pw. merged_pw pw xp)) l (set_l2_params (cl_pw_type xl) (cl_mtu xl))"
  let ?v = "upd_l2 (free_pw (upd_l2 ?u l (\<lambda>l2. l2\<lparr>l2_pw_list := remove1 d (l2_pw_list l2)\<rparr>)) d) l (set_l2_params (cl_pw_type xl') (cl_mtu xl'))"
  have keep: "l2vpn_pw_find (cl_pw_list xl) (pw_ifindex pw) \<noteq> None" using x(1,2) by (simp add: l2vpn_pw_find_def)
  have find: "lde_pw_find s l2 (pw_ifindex xp) = Inr (Some d)" using l d x(2) by (simp add: lde_pw_find_def get_pw_def)
  have "\<exists>b. pw_reinstall l2 xl pw xp = Inr b"
    using x(3) by (cases "pw_af pw") (auto simp: pw_reinstall_def ldp_addrcmp_def)
  then obtain b where b: "pw_reinstall l2 xl pw xp = Inr b" ..
  have 1: "lde_merge_l2vpn l xl s = Inr ?u"
    using l d x(1,4) keep find b
    by (simp add: lde_merge_l2vpn_def get_l2vpn_def lde_drop_pw_def get_pw_def lde_take_pw_def lde_update_pw_def)
  have ul: "l2vpns ?u l = Some (set_l2_params (cl_pw_type xl) (cl_mtu xl) l2)" using l by (simp add: upd_l2_def upd_pw_def)
  have ud: "pws ?u d = Some (merged_pw pw xp)" "ft ?u = ft s" using d by (simp_all add: upd_l2_def upd_pw_def)
  define u l2u where "u = ?u" and "l2u = set_l2_params (cl_pw_type xl) (cl_mtu xl) l2"
  have eu: "l2vpns u l = Some l2u" "pws u d = Some (merged_pw pw xp)" "ft u = ft s" "l2_pw_type l2u = cl_pw_type xl" "l2_pw_list l2u = [d]"
    using ul ud l(2) by (simp_all only: u_def l2u_def) (simp_all add: set_l2_params_def)
  have "l2vpn_pw_fec u (merged_pw pw xp) = Inr (FEC_PWID (of_int (cl_pw_type xl)) (pw_pwid xp) (pw_lsr_id xp))"
    using eu d(2) by (simp add: l2vpn_pw_fec_def get_l2vpn_def merged_pw_def Let_def)
  then have "l2vpn_pw_exit u d = Inr u" using eu new by (simp add: l2vpn_pw_exit_def get_pw_def lde_kernel_remove_def)
  then have 2: "lde_merge_l2vpn l xl' ?u = Inr ?v"
    unfolding u_def [symmetric] using eu x' by (simp add: lde_merge_l2vpn_def get_l2vpn_def lde_drop_pw_def get_pw_def l2vpn_pw_find_def)
  have "fec_find (ft ?v) f = Some fn" "pws ?v d = None" "lde_nbrs ?v = lde_nbrs s" using f by (simp_all add: upd_l2_def upd_pw_def free_pw_def)
  then obtain v where v: "lde_merge_l2vpn l xl' ?u = Inr v" "fec_find (ft v) f = Some fn" "pws v d = None" "lde_nbrs v = lde_nbrs s" using 2 by blast
  have "lde_send_labelmapping v p f single = Inl NullDeref" if "rb_find (lde_nbrs s) p = Some ln" for p ln single
    by (rule send_dangling [OF v(2) f(3) v(3) f(1)]) (use v(4) that in simp)
  with 1 v show ?thesis by blast
qed

definition demo_class :: fec where
  "demo_class = FEC_PWID 5 100 0x0200000a"

definition demo_lde_nbr :: lde_nbr where
  "demo_lde_nbr = \<lparr>ln_id = 1, ln_v4_enabled = True, ln_v6_enabled = False, ln_recv_req = fec_init, ln_sent_req = fec_init,
     ln_recv_map = fec_init, ln_sent_map = fec_init, ln_sent_wdraw = fec_init, ln_addr_list = []\<rparr>"

definition demo_installed :: lde where
  "demo_installed =
     (upd_fn (fec_add ((lde_start [0 \<mapsto> demo_pw] [0 \<mapsto> \<lparr>l2_name = ''v'', l2_pw_type = 5, l2_mtu = 1500, l2_pw_list = [0]\<rparr>] [0] 0 0)) demo_class)
       demo_class (\<lambda>fn. fn\<lparr>fn_data := Some 0\<rparr>))\<lparr>lde_nbrs := fst (rb_insert rb_init 1 demo_lde_nbr)\<rparr>"

theorem reset_pw_dangles_witness:
  "\<exists>u v. lde_merge_l2vpn 0 (demo_vpls [demo_pw\<lparr>pw_pwid := 101, pw_flags := F_PW_CWORD_CONF\<rparr>]) demo_installed = Inr u \<and>
    lde_merge_l2vpn 0 (demo_vpls []) u = Inr v \<and> pws v 0 = None \<and> lde_send_labelmapping v 1 demo_class True = Inl NullDeref"
proof -
  let ?xl = "demo_vpls [demo_pw\<lparr>pw_pwid := 101, pw_flags := F_PW_CWORD_CONF\<rparr>]"
  have find: "fec_find (ft (lde_start a b c w z)) f = None" for a b c w z f by (simp add: lde_start_def)
  have s: "l2vpns demo_installed 0 = Some \<lparr>l2_name = ''v'', l2_pw_type = 5, l2_mtu = 1500, l2_pw_list = [0]\<rparr>"
    "pws demo_installed 0 = Some demo_pw" "fec_find (ft demo_installed) demo_class = Some (empty_node\<lparr>fn_data := Some 0\<rparr>)"
    "fec_find (ft demo_installed) (FEC_PWID (of_int (cl_pw_type ?xl)) (pw_pwid (demo_pw\<lparr>pw_pwid := 101, pw_flags := F_PW_CWORD_CONF\<rparr>))
      (pw_lsr_id (demo_pw\<lparr>pw_pwid := 101, pw_flags := F_PW_CWORD_CONF\<rparr>))) = None"
    by (simp_all add: demo_installed_def fec_add_find find) (simp_all add: fec_add_def upd_fn_def lde_start_def demo_class_def demo_pw_def demo_vpls_def)
  have n: "rb_find (lde_nbrs demo_installed) 1 = Some demo_lde_nbr" by (simp add: demo_installed_def)
  have "\<exists>u v. lde_merge_l2vpn 0 ?xl demo_installed = Inr u \<and> lde_merge_l2vpn 0 (demo_vpls []) u = Inr v \<and>
      fec_find (ft v) demo_class = Some (empty_node\<lparr>fn_data := Some 0\<rparr>) \<and> pws v 0 = None \<and>
      (\<forall>p ln single. rb_find (lde_nbrs demo_installed) p = Some ln \<longrightarrow> lde_send_labelmapping v p demo_class single = Inl NullDeref)"
    by (rule reset_pw_dangles [OF s(1) _ s(2) _ _ s(3) _ s(4)])
      (simp_all add: demo_pw_def demo_class_def demo_vpls_def pw_reset_nbr_def F_PW_STATUSTLV_CONF_def F_PW_CWORD_CONF_def set_flag_def)
  with n show ?thesis by blast
qed

end
