(* ===== verification/Lde_Links.thy ===== *)
theory Lde_Links
  imports Lde_ReloadReach
begin

text \<open>
  What the label decision engine keeps on both ends of its links: the neighbours it knows are those that
  were announced to it, and the pseudowires it asks the parent to install have an address family. The
  interface \<open>lde_closed_conf\<close> adds to \<open>lde_closed_pws\<close> the updates of a reload, so that a predicate is
  kept by every step of the process.
\<close>

section \<open>Reloads\<close>

definition conf_fams :: "ldpd_conf \<Rightarrow> bool" where
  "conf_fams x \<longleftrightarrow> (\<forall>xl\<in>set (xc_l2vpn_list x). \<forall>xp\<in>set (cl_pw_list xl). pw_af xp \<noteq> AF_UNSPEC)"

lemma wf_fams: "conf_l2vpns_wf (xc_l2vpn_list x) \<Longrightarrow> conf_fams x"
  by (auto simp: conf_l2vpns_wf_def l2vpn_wf_def conf_fams_def)

locale lde_closed_conf = lde_closed_pws +
  assumes set_conf: "J s \<Longrightarrow> J (s\<lparr>l2vpns := a, l2vpn_list := b\<rparr>)"
    and put_pw: "J s \<Longrightarrow> pw_af pw \<noteq> AF_UNSPEC \<Longrightarrow> J (s\<lparr>pws := (pws s)(d \<mapsto> pw)\<rparr>)"
    and drop_pw: "J s \<Longrightarrow> J (s\<lparr>pws := (pws s)(d := None)\<rparr>)"
begin

lemma upd_l2: "J s \<Longrightarrow> J (upd_l2 s l g)"
  using set_conf [where s = s and b = "l2vpn_list s"] by (simp add: upd_l2_def)

lemma set_l2: "J s \<Longrightarrow> J (s\<lparr>l2vpns := a\<rparr>)"
  using set_conf [where s = s and b = "l2vpn_list s"] by simp

lemma set_list: "J s \<Longrightarrow> J (s\<lparr>l2vpn_list := b\<rparr>)"
  using set_conf [where s = s and a = "l2vpns s"] by simp

lemma free: "J s \<Longrightarrow> J (free_pw s d)"
  by (simp add: free_pw_def drop_pw)

lemma merged: "J s \<Longrightarrow> pw_af xp \<noteq> AF_UNSPEC \<Longrightarrow> J (upd_pw s d (\<lambda>pw. merged_pw pw xp))"
  by (cases "pws s d") (simp_all add: upd_pw_def drop_pw put_pw merged_sel)

lemma added: "J s \<Longrightarrow> pw_af xp \<noteq> AF_UNSPEC \<Longrightarrow> J (fst (add_pw s l xp))"
  by (simp add: add_pw_def Let_def upd_l2 put_pw)

lemma added_all: "J s \<Longrightarrow> \<forall>xp\<in>set xps. pw_af xp \<noteq> AF_UNSPEC \<Longrightarrow> J (foldl (\<lambda>s xp. fst (add_pw s l xp)) s xps)"
  by (induction xps arbitrary: s) (simp_all add: added)

lemma new_l2vpn: "J s \<Longrightarrow> \<forall>xp\<in>set (cl_pw_list xl). pw_af xp \<noteq> AF_UNSPEC \<Longrightarrow> J (fst (add_l2vpn s xl))"
  by (simp add: add_l2vpn_def Let_def added_all set_conf)

lemma l2vpn_del: "J s \<Longrightarrow> partE (l2vpn_del s l) J"
proof -
  assume s: "J s"
  have "J (foldl free_pw s ds)" for ds using s by (induction ds arbitrary: s) (simp_all add: free)
  then show ?thesis by (auto simp: l2vpn_del_def get_l2vpn_def Let_def set_l2 split: option.splits)
qed

lemma pw_loops: "J s \<Longrightarrow> partE (l2vpn_init s l) J" "J s \<Longrightarrow> partE (l2vpn_exit s l) J"
  by (auto simp: l2vpn_init_def l2vpn_exit_def intro!: partE_any [where 'a = l2vpn] partE_fold [where P = J] pw_events)

lemma take_pw: "J s \<Longrightarrow> pw_af xp \<noteq> AF_UNSPEC \<Longrightarrow> partE (lde_take_pw l xl s xp) J"
proof -
  assume s: "J s" and af: "pw_af xp \<noteq> AF_UNSPEC"
  have "partE (l2vpn_pw_exit s d) (\<lambda>s1. J (upd_l2 (upd_pw s1 d (\<lambda>pw. merged_pw pw xp)) l g))" for d g
    using pw_events(2) [OF s, of d] af by (auto simp: partE_def upd_l2 merged)
  then have "partE (lde_update_pw l xl s d xp) J" for d
    using s af merged pw_events upd_l2
    by (auto simp: lde_update_pw_def Let_def
        intro!: partE_any [where 'a = l2vpn] partE_any [where 'a = l2vpn_pw] partE_any [where 'a = bool] partE_bind [where Q = J])
  moreover have "partE (l2vpn_pw_init (fst (add_pw s l xp)) d) J" for d using s af added pw_events by blast
  ultimately show ?thesis
    by (auto simp: lde_take_pw_def split_beta intro!: partE_any [where 'a = l2vpn] partE_any [where 'a = "nat option"] split: option.splits)
qed

lemma drop: "J s \<Longrightarrow> partE (lde_drop_pw l xl s d) J" "J s \<Longrightarrow> partE (lde_drop_l2vpn x s l) J"
  by (auto simp: lde_drop_pw_def lde_drop_l2vpn_def
      intro!: partE_any [where 'a = l2vpn] partE_any [where 'a = l2vpn_pw] partE_bind [where Q = J] pw_events pw_loops l2vpn_del free upd_l2 set_list)

lemma merge_l2vpn: "J s \<Longrightarrow> \<forall>xp\<in>set (cl_pw_list xl). pw_af xp \<noteq> AF_UNSPEC \<Longrightarrow> partE (lde_merge_l2vpn l xl s) J"
proof -
  assume s: "J s" and af: "\<forall>xp\<in>set (cl_pw_list xl). pw_af xp \<noteq> AF_UNSPEC"
  have "partE (foldE (lde_take_pw l xl) xps t) J" if "J t" "set xps \<subseteq> set (cl_pw_list xl)" for xps t
    using that af by (induction xps arbitrary: t) (auto intro!: partE_bind [where Q = J] take_pw)
  with s show ?thesis
    by (auto simp: lde_merge_l2vpn_def intro!: partE_any [where 'a = l2vpn] partE_bind [where Q = J] partE_fold [where P = J and f = "lde_drop_pw l xl"] drop upd_l2)
qed

lemma merge_config: "J s \<Longrightarrow> conf_fams x \<Longrightarrow> partE (lde_merge_config s x) J"
proof -
  assume s: "J s" and x: "conf_fams x"
  have "partE (l2vpn_init (fst (add_l2vpn t xl)) l) J" if "J t" "xl \<in> set (xc_l2vpn_list x)" for t xl l
    using x that by (intro pw_loops new_l2vpn) (auto simp: conf_fams_def)
  moreover have "partE (lde_merge_l2vpn l xl t) J" if "J t" "xl \<in> set (xc_l2vpn_list x)" for t xl l
    using x that by (intro merge_l2vpn) (auto simp: conf_fams_def)
  ultimately have "partE (lde_take_l2vpn t xl) J" if "J t" "xl \<in> set (xc_l2vpn_list x)" for t xl
    using that by (auto simp: lde_take_l2vpn_def split_beta intro!: partE_any [where 'a = "nat option"] split: option.splits)
  then have "partE (foldE lde_take_l2vpn xls t) J" if "J t" "set xls \<subseteq> set (xc_l2vpn_list x)" for t xls
    using that by (induction xls arbitrary: t) (auto intro!: partE_bind [where Q = J])
  with s show ?thesis
    by (auto simp: lde_merge_config_def lde_merge_l2vpns_def intro!: partE_bind [where Q = J] egress_change partE_fold [where P = J and f = "lde_drop_l2vpn x"] drop)
qed

end

section \<open>Neighbours and pseudowires\<close>

text \<open>
  \<open>linked N s\<close>: the neighbours are among \<open>N\<close>, every pseudowire has a family and so has every pseudowire the
  parent was asked to install.
\<close>

definition linked :: "u32 set \<Rightarrow> lde \<Rightarrow> bool" where
  "linked N s \<longleftrightarrow>
     (\<forall>p. rb_find (lde_nbrs s) p \<noteq> None \<longrightarrow> p \<in> N) \<and> (\<forall>d pw. pws s d = Some pw \<longrightarrow> pw_af pw \<noteq> AF_UNSPEC) \<and>
     (\<forall>k. IMSG_KPWLABEL_CHANGE k \<in> set (out s) \<longrightarrow> kpw_af k \<noteq> AF_UNSPEC)"

interpretation lk: lde_closed_conf "linked N" for N
proof
  fix s p g assume "linked N s"
  then show "linked N (upd_ln s p g)" by (auto simp: linked_def upd_ln_def split: if_splits)
next
  fix s d h assume s: "linked N s" and h: "\<And>pw. pws s d = Some pw \<Longrightarrow> pw_conf (h pw) = pw_conf pw"
  have "pw_af (h pw) \<noteq> AF_UNSPEC" if "pws s d = Some pw" for pw
    using pw_conf_sel [OF h [OF that]] s that by (auto simp: linked_def)
  with s show "linked N (upd_pw s d h)" by (auto simp: linked_def upd_pw_def split: if_splits)
next
  fix s m assume "linked N s" "msg_from s m"
  then show "linked N (emit s m)" by (fastforce simp: linked_def emit_def msg_from_def)
qed (auto simp: linked_def upd_fn_def fec_add_def split: if_splits)

lemma linked_mono: "linked N s \<Longrightarrow> N \<subseteq> M \<Longrightarrow> linked M s"
  by (auto simp: linked_def)

definition ups_in :: "lde_event \<Rightarrow> u32 set" where
  "ups_in e = (case e of FromLdpe p (NEIGHBOR_UP _ _ _) \<Rightarrow> {p} | _ \<Rightarrow> {})"

lemma run_linked:
  assumes s: "linked N s"
  shows "partE (lde_run s e) (linked (N \<union> ups_in e))"
proof (cases "\<exists>p a b c. e = FromLdpe p (NEIGHBOR_UP a b c)")
  case True
  then obtain p a b c where e: "e = FromLdpe p (NEIGHBOR_UP a b c)" by blast
  with s show ?thesis
    by (auto simp: lde_run_def lde_dispatch_imsg_def lde_nbr_new_def split_beta Let_def linked_def ups_in_def split: if_splits)
next
  case False
  have "partE (lde_run s e) (linked N)" by (rule lk.run_pw [OF s]) (use False in simp)
  then show ?thesis using linked_mono [of N] by (auto simp: partE_def)
qed

lemma proc_run_linked:
  assumes s: "linked N (lp_lde pr)" and ok: "lde_proc_event_ok pr e"
  shows "partE (lde_proc_run pr e) (\<lambda>q. linked (N \<union> (case e of Lde_message m \<Rightarrow> ups_in m | _ \<Rightarrow> {})) (lp_lde q))"
proof (cases e)
  case (Lde_message m)
  with run_linked [OF s, of m] show ?thesis by (auto simp: lde_proc_run_def partE_def bindE_Inr_iff)
next
  case (Lde_reconf m)
  show ?thesis
  proof (cases m)
    case RECONF_END
    with ok Lde_reconf obtain x where x: "lp_nconf pr = Some x" "conf_fams x"
      by (auto simp: lde_proc_event_ok_def lde_reconf_ok_def wf_fams)
    from lk.merge_config [OF s x(2)] show ?thesis
      using x(1) by (auto simp: Lde_reconf RECONF_END lde_proc_run_def lde_reconf_def partE_def bindE_Inr_iff)
  qed (use s in \<open>auto simp: Lde_reconf lde_proc_run_def lde_reconf_def lde_with_nconf_def with_nl2vpn_def split: option.splits list.splits\<close>)
qed

end
