(* ===== verification/Ldp_LabelProps.thy ===== *)
theory Ldp_LabelProps
  imports Ldp_LabelMsg
begin

text \<open>
  Lemmas on label messages: reading back what the generators wrote, the size of a message, and the
  decoding of a FEC element.
\<close>

section \<open>Reading written bytes\<close>

lemma bindE_Inr_right [simp]: "bindE d Inr = d"
  by (cases d) simp_all

lemma rd_Cons [wire_simps]:
  "rd8 (x # xs) 0 = Inr x"
  "rd8 (x # xs) (Suc n) = rd8 xs n"
  "rd8 (x # xs) (numeral k) = rd8 xs (pred_numeral k)"
  "rd16 (x # y # xs) 0 = Inr (load16 x y)"
  "rd16 (x # xs) (Suc n) = rd16 xs n"
  "rd16 (x # xs) (numeral k) = rd16 xs (pred_numeral k)"
  "rd32 (x # y # z # w # xs) 0 = Inr (load32 x y z w)"
  "rd32 (x # xs) (Suc n) = rd32 xs n"
  "rd32 (x # xs) (numeral k) = rd32 xs (pred_numeral k)"
  "rdn (x # xs) (Suc n) i = rdn xs n i"
  "rdn (x # xs) (numeral k) i = rdn xs (pred_numeral k) i"
  by (simp_all add: rd_defs numeral_eq_Suc)

lemma rd_store16 [wire_simps]:
  "rd16 (store16 w @ xs) 0 = Inr w"
  "rd8 (store16 w @ xs) (Suc (Suc n)) = rd8 xs n"
  "rd16 (store16 w @ xs) (Suc (Suc n)) = rd16 xs n"
  "rd32 (store16 w @ xs) (Suc (Suc n)) = rd32 xs n"
  "rdn (store16 w @ xs) (Suc (Suc n)) i = rdn xs n i"
  by (simp_all add: rd_defs store16_def add.commute)

lemma load32_store [wire_simps]: "load32 (lo8 (lo16 w)) (hi8 (lo16 w)) (lo8 (hi16 w)) (hi8 (hi16 w)) = w"
  by (simp add: load32_def)

lemma rd_store32 [wire_simps]:
  "rd32 (store32 w @ xs) 0 = Inr w"
  "rd8 (store32 w @ xs) (Suc (Suc (Suc (Suc n)))) = rd8 xs n"
  "rd16 (store32 w @ xs) (Suc (Suc (Suc (Suc n)))) = rd16 xs n"
  "rd32 (store32 w @ xs) (Suc (Suc (Suc (Suc n)))) = rd32 xs n"
  by (simp_all add: rd_defs store32_def store16_def load32_store add.commute)

lemma rdn_0 [wire_simps]: "length xs = n \<Longrightarrow> rdn (xs @ ys) 0 n = Inr xs"
  by (simp add: rdn_def)

lemma unat_of_nat16 [wire_simps]: "n < 65536 \<Longrightarrow> unat (of_nat n :: u16) = n"
  by (simp add: unat_of_nat)

lemma unat_of_nat8 [wire_simps]: "n < 256 \<Longrightarrow> unat (of_nat n :: u8) = n"
  by (simp add: unat_of_nat)

lemma set_clear_flag: "\<not> has_flag w f \<Longrightarrow> clear_flag (set_flag w f) f = w"
  by (auto simp: has_flag_def clear_flag_def set_flag_def intro!: bit_word_eqI simp: bit_simps)
    (metis bit_and_iff bit_0_eq bot_apply bot_bool_def)+

section \<open>FEC elements\<close>

text \<open>The mappings that the wire format can carry: what the engine builds with \<^verbatim>\<open>lde_fec2map\<close>.\<close>

definition fec_wf :: "map_msg \<Rightarrow> bool" where
  "fec_wf m \<longleftrightarrow>
     (if map_type m = MAP_TYPE_PREFIX then
        (case map_prefix_af m of
           AF_INET \<Rightarrow> unat (map_prefixlen m) \<le> 32
         | AF_INET6 \<Rightarrow> unat (map_prefixlen m) \<le> 128
         | AF_UNSPEC \<Rightarrow> False) \<and>
        length (map_prefix m) = 16 \<and>
        (map_prefix_af m = AF_INET \<longrightarrow> drop 4 (map_prefix m) = replicate 12 0) \<and>
        ldp_applymask (map_prefix_af m) (map_prefix m) (map_prefix m) (unat (map_prefixlen m)) =
          Inr (map_prefix m)
      else if map_type m = MAP_TYPE_PWID then
        \<not> has_flag (map_pwid_type m) CONTROL_WORD_FLAG \<and>
        (has_flag (map_flags m) F_MAP_PW_IFMTU \<longrightarrow> has_flag (map_flags m) F_MAP_PW_ID)
      else map_type m = MAP_TYPE_WILDCARD)"

text \<open>What a receiver reads from the FEC element of \<open>m\<close> into the map \<open>b\<close>.\<close>

definition decoded_fec :: "map_msg \<Rightarrow> map_msg \<Rightarrow> map_msg" where
  "decoded_fec b m =
     (let fl = map_flags m; b1 = b\<lparr>map_type := map_type m\<rparr> in
      if map_type m = MAP_TYPE_PREFIX then
        b1\<lparr>map_prefix_af := map_prefix_af m, map_prefixlen := map_prefixlen m, map_prefix := map_prefix m\<rparr>
      else if map_type m = MAP_TYPE_PWID then
        let b2 = b1\<lparr>map_pwid_type := map_pwid_type m, map_group_id := map_group_id m\<rparr>;
            b3 = (if has_flag fl F_MAP_PW_CWORD
                  then b2\<lparr>map_flags := set_flag (map_flags b2) F_MAP_PW_CWORD\<rparr> else b2);
            b4 = (if has_flag fl F_MAP_PW_ID
                  then b3\<lparr>map_pwid := map_pwid m, map_flags := set_flag (map_flags b3) F_MAP_PW_ID\<rparr> else b3)
        in (if has_flag fl F_MAP_PW_IFMTU
            then b4\<lparr>map_ifmtu := map_ifmtu m, map_flags := set_flag (map_flags b4) F_MAP_PW_IFMTU\<rparr> else b4)
      else b1)"

definition fec_elm_len :: "map_msg \<Rightarrow> nat" where
  "fec_elm_len m =
     (if map_type m = MAP_TYPE_PREFIX then FEC_ELM_PREFIX_MIN_LEN + PREFIX_SIZE (map_prefixlen m)
      else if map_type m = MAP_TYPE_PWID then
        FEC_PWID_ELM_MIN_LEN + (if has_flag (map_flags m) F_MAP_PW_ID then 4 else 0) +
        (if has_flag (map_flags m) F_MAP_PW_IFMTU then 4 else 0)
      else 1)"

lemma unat_lt_256: "unat (w :: u8) < 256"
  using unsigned_less [of w] by simp

lemma fec_elm_len_bounds: "0 < fec_elm_len m" "fec_elm_len m \<le> 36"
  using unat_lt_256 [of "map_prefixlen m"] by (auto simp: fec_elm_len_def PREFIX_SIZE_def)

subsection \<open>A masked prefix has no bytes behind its length\<close>

lemma mask4_all_lengths:
  "list_all (\<lambda>p. case prefixlen2mask p of Inl _ \<Rightarrow> False
     | Inr m \<Rightarrow> store32 m = map (mask6_byte p) [0..<4]) [0..<33]"
  by code_simp

lemma prefixlen2mask_bytes:
  assumes "p \<le> 32"
  obtains m where "prefixlen2mask p = Inr m" "store32 m = map (mask6_byte p) [0..<4]"
proof -
  have "p \<in> set [0..<33]" using assms by simp
  with mask4_all_lengths have "case prefixlen2mask p of Inl _ \<Rightarrow> False
     | Inr m \<Rightarrow> store32 m = map (mask6_byte p) [0..<4]"
    unfolding list_all_iff by blast
  with that show thesis by (auto split: sum.splits)
qed

lemma store32_and: "store32 (v AND w) = map2 (AND) (store32 v) (store32 w)"
proof -
  have "lo16 (v AND w) = lo16 v AND lo16 w" "hi16 (v AND w) = hi16 v AND hi16 w"
    by (auto simp: lo16_def hi16_def intro!: bit_word_eqI simp: bit_simps)
  moreover have "lo8 (x AND y) = lo8 x AND lo8 y" "hi8 (x AND y) = hi8 x AND hi8 y" for x y
    by (auto simp: lo8_def hi8_def intro!: bit_word_eqI simp: bit_simps)
  ultimately show ?thesis by (simp add: store32_def store16_def)
qed

lemma store32_v4: "length a = 16 \<Longrightarrow> store32 (v4 a) = take 4 a"
  by (rule wf_addr_cases [of a]) (auto simp: wf_addr_def v4_def)

lemma mask6_byte_zero: "(p + 7) div 8 \<le> i \<Longrightarrow> mask6_byte p i = 0"
proof -
  assume le: "(p + 7) div 8 \<le> i"
  have "p div 8 \<le> (p + 7) div 8" by (rule div_le_mono) simp
  moreover have "p div 8 < (p + 7) div 8" if "p mod 8 \<noteq> 0" using that by presburger
  ultimately show ?thesis using le by (auto simp: mask6_byte_def)
qed

lemma masked_tail:
  assumes "length a = 16" "ldp_applymask af a a p = Inr a"
    and "af = AF_INET \<and> p \<le> 32 \<and> drop 4 a = replicate 12 0 \<or> af = AF_INET6 \<and> p \<le> 128"
  shows "take ((p + 7) div 8) a @ replicate (16 - (p + 7) div 8) 0 = a"
proof -
  let ?n = "(p + 7) div 8"
  have n: "?n \<le> 16" using assms(3) by auto
  have tail: "a ! i = 0" if i: "?n \<le> i" "i < 16" for i
    using assms(3)
  proof
    assume v6: "af = AF_INET6 \<and> p \<le> 128"
    then have "a ! i = (map2 (AND) a (map (mask6_byte p) [0..<16])) ! i"
      using assms(2) by (simp add: ldp_applymask_def prefixlen2mask6_eq)
    with i assms(1) show ?thesis by (simp add: mask6_byte_zero)
  next
    assume v4: "af = AF_INET \<and> p \<le> 32 \<and> drop 4 a = replicate 12 0"
    show ?thesis
    proof (cases "i < 4")
      case True
      from v4 obtain m where m: "prefixlen2mask p = Inr m" "store32 m = map (mask6_byte p) [0..<4]"
        by (auto elim: prefixlen2mask_bytes)
      have "a = store32 (v4 a AND m) @ drop 4 a"
        using assms(2) v4 m(1) by (simp add: ldp_applymask_def)
      then have "a ! i = store32 (v4 a AND m) ! i" using True
        by (metis length_store(2) nth_append)
      also have "\<dots> = 0"
        using True i assms(1) by (simp add: store32_and store32_v4 m(2) mask6_byte_zero)
      finally show ?thesis .
    next
      case False
      then have "a ! i = drop 4 a ! (i - 4)" using assms(1) by simp
      with v4 False i show ?thesis by simp
    qed
  qed
  show ?thesis
    using assms(1) n tail by (intro nth_equalityI) (auto simp: nth_append)
qed

subsection \<open>Round trip\<close>

lemma map_types:
  "MAP_TYPE_PREFIX \<noteq> MAP_TYPE_WILDCARD" "MAP_TYPE_PWID \<noteq> MAP_TYPE_WILDCARD"
  "MAP_TYPE_PWID \<noteq> MAP_TYPE_PREFIX" "MAP_TYPE_WILDCARD \<noteq> MAP_TYPE_PREFIX"
  "MAP_TYPE_WILDCARD \<noteq> MAP_TYPE_PWID" "MAP_TYPE_PREFIX \<noteq> MAP_TYPE_PWID"
  by (simp_all add: const_defs)

lemma Suc4: "Suc (Suc (Suc (Suc n))) = 4 + n"
  by simp

lemma subtlv_loop_0 [simp]: "subtlv_loop msg bs off 0 m = Inr ([], Some (off, m))"
  by (subst subtlv_loop.simps) simp

lemma subtlv_loop_mtu:
  assumes "rd8 bs off = Inr SUBTLV_IFMTU" "rd8 bs (off + 1) = Inr 4" "rd16 bs (off + 2) = Inr w"
  shows "subtlv_loop msg bs off 4 m =
    Inr ([], Some (off + 4, m\<lparr>map_ifmtu := ntohs w, map_flags := set_flag (map_flags m) F_MAP_PW_IFMTU\<rparr>))"
  by (subst subtlv_loop.simps) (use assms in simp)

lemma pwid_roundtrip:
  assumes type: "map_type m = MAP_TYPE_PWID"
    and wf: "\<not> has_flag (map_pwid_type m) CONTROL_WORD_FLAG"
      "has_flag (map_flags m) F_MAP_PW_IFMTU \<Longrightarrow> has_flag (map_flags m) F_MAP_PW_ID"
  shows "\<exists>ps. gen_fec_tlv m = Inr (tlv_hdr TLV_TYPE_FEC (fec_elm_len m) # ps) \<and>
    length (concat ps) = fec_elm_len m \<and>
    (\<forall>rest msg b. tlv_decode_fec_elm msg (concat ps @ rest) (fec_elm_len m) b =
       Inr ([], Some (fec_elm_len m, decoded_fec b m)))"
proof -
  define t where "t = (if has_flag (map_flags m) F_MAP_PW_CWORD
    then set_flag (map_pwid_type m) CONTROL_WORD_FLAG else map_pwid_type m)"
  have t: "has_flag t CONTROL_WORD_FLAG = has_flag (map_flags m) F_MAP_PW_CWORD"
    "has_flag (map_flags m) F_MAP_PW_CWORD \<Longrightarrow> clear_flag t CONTROL_WORD_FLAG = map_pwid_type m"
    "\<not> has_flag (map_flags m) F_MAP_PW_CWORD \<Longrightarrow> t = map_pwid_type m"
    using wf(1) by (simp_all add: t_def set_clear_flag has_flag_set_same CONTROL_WORD_FLAG_def)
  let ?id = "has_flag (map_flags m) F_MAP_PW_ID" and ?mtu = "has_flag (map_flags m) F_MAP_PW_IFMTU"
  let ?ps = "[[map_type m], store16 (htons t), [of_nat (fec_elm_len m - 8)], store32 (htonl (map_group_id m))] @
    (if ?id then [store32 (htonl (map_pwid m))] else []) @
    (if ?mtu then [[SUBTLV_IFMTU, of_nat FEC_SUBTLV_IFMTU_SIZE], store16 (htons (map_ifmtu m))] else [])"
  have len: "fec_elm_len m = 8 + (if ?id then 4 else 0) + (if ?mtu then 4 else 0)"
    by (simp add: fec_elm_len_def type map_types)
  have cases: P if "\<not> ?id \<Longrightarrow> \<not> ?mtu \<Longrightarrow> P" "?id \<Longrightarrow> \<not> ?mtu \<Longrightarrow> P" "?id \<Longrightarrow> ?mtu \<Longrightarrow> P" for P
    using wf(2) that by blast
  have "gen_fec_tlv m = Inr (tlv_hdr TLV_TYPE_FEC (fec_elm_len m) # ?ps)"
    by (simp add: gen_fec_tlv_def type map_types len Let_def flip: t_def)
  moreover have "length (concat ?ps) = fec_elm_len m" by (simp add: len)
  moreover have "tlv_decode_fec_elm msg (concat ?ps @ rest) (fec_elm_len m) b =
       Inr ([], Some (fec_elm_len m, decoded_fec b m))" for rest msg b
  proof (cases "has_flag (map_flags m) F_MAP_PW_CWORD")
    case True
    with t have "has_flag t CONTROL_WORD_FLAG" "clear_flag t CONTROL_WORD_FLAG = map_pwid_type m" by simp_all
    note c = this True
    show ?thesis
      by (rule cases)
        (simp_all add: c tlv_decode_fec_elm_def type map_types wire_simps decode_pwid_def len
          subtlv_loop_mtu decoded_fec_def Let_def store16_def store32_def)
  next
    case False
    with t have "\<not> has_flag t CONTROL_WORD_FLAG" "t = map_pwid_type m" by simp_all
    note c = this False wf(1)
    show ?thesis
      by (rule cases)
        (simp_all add: c tlv_decode_fec_elm_def type map_types wire_simps decode_pwid_def len
          subtlv_loop_mtu decoded_fec_def Let_def store16_def store32_def)
  qed
  ultimately show ?thesis by blast
qed

lemma fec_roundtrip:
  assumes "fec_wf m"
  obtains ps where "gen_fec_tlv m = Inr (tlv_hdr TLV_TYPE_FEC (fec_elm_len m) # ps)"
    "length (concat ps) = fec_elm_len m"
    "\<And>rest msg b. tlv_decode_fec_elm msg (concat ps @ rest) (fec_elm_len m) b =
       Inr ([], Some (fec_elm_len m, decoded_fec b m))"
proof -
  consider "map_type m = MAP_TYPE_PREFIX" | "map_type m = MAP_TYPE_PWID" | "map_type m = MAP_TYPE_WILDCARD"
    using assms by (auto simp: fec_wf_def split: if_splits)
  then show thesis
  proof cases
    case 3
    then show thesis
      by (intro that [of "[[map_type m]]"])
        (simp_all add: gen_fec_tlv_def fec_elm_len_def tlv_decode_fec_elm_def wire_simps decoded_fec_def
          const_defs)
  next
    case 1
    let ?p = "map_prefix m" and ?l = "map_prefixlen m" and ?n = "PREFIX_SIZE (map_prefixlen m)"
    from assms 1 have wf: "length ?p = 16"
      "ldp_applymask (map_prefix_af m) ?p ?p (unat ?l) = Inr ?p"
      "map_prefix_af m = AF_INET \<and> unat ?l \<le> 32 \<and> drop 4 ?p = replicate 12 0 \<or>
       map_prefix_af m = AF_INET6 \<and> unat ?l \<le> 128"
      by (auto simp: fec_wf_def split: af.splits)
    from wf(3) have n: "?n \<le> 16" by (auto simp: PREFIX_SIZE_def)
    have tail: "take ?n ?p @ replicate (16 - ?n) 0 = ?p"
      using masked_tail [OF wf] by (simp add: PREFIX_SIZE_def)
    define fam where "fam = (if map_prefix_af m = AF_INET then 1 else 2 :: nat)"
    have gen: "gen_fec_tlv m = Inr [tlv_hdr TLV_TYPE_FEC (4 + ?n), [map_type m], hton16 fam, [?l], take ?n ?p]"
      using wf n 1 by (auto simp: gen_fec_tlv_def fam_def Let_def rdn_def map_types Suc4)
    show thesis
    proof (rule that [of "[[map_type m], hton16 fam, [?l], take ?n ?p]"])
      show "gen_fec_tlv m = Inr (tlv_hdr TLV_TYPE_FEC (fec_elm_len m) #
          [[map_type m], hton16 fam, [?l], take ?n ?p])"
        using gen 1 by (simp add: fec_elm_len_def)
      show "length (concat [[map_type m], hton16 fam, [?l], take ?n ?p]) = fec_elm_len m"
        using wf(1) n 1 by (simp add: fec_elm_len_def)
      fix rest msg b
      have "decode_prefix msg (concat [[map_type m], hton16 fam, [?l], take ?n ?p] @ rest) (4 + ?n) b =
        Inr ([], Some (4 + ?n, b\<lparr>map_prefix_af := map_prefix_af m, map_prefixlen := ?l, map_prefix := ?p\<rparr>))" for b
        using wf n tail
        by (auto simp: decode_prefix_def hton16_def store16_def wire_simps fam_def Let_def min_def)
      with 1 show "tlv_decode_fec_elm msg (concat [[map_type m], hton16 fam, [?l], take ?n ?p] @ rest)
          (fec_elm_len m) b = Inr ([], Some (fec_elm_len m, decoded_fec b m))"
        by (simp add: tlv_decode_fec_elm_def wire_simps fec_elm_len_def decoded_fec_def const_defs Let_def)
    qed
  next
    case 2
    from assms 2 have wf: "\<not> has_flag (map_pwid_type m) CONTROL_WORD_FLAG"
      "has_flag (map_flags m) F_MAP_PW_IFMTU \<Longrightarrow> has_flag (map_flags m) F_MAP_PW_ID"
      by (auto simp: fec_wf_def const_defs)
    show thesis
      using pwid_roundtrip [OF 2 wf] that by blast
  qed
qed

section \<open>The size of a message\<close>

definition sendable :: "map_msg \<Rightarrow> bool" where
  "sendable m \<longleftrightarrow> fec_wf m \<and> (has_flag (map_flags m) F_MAP_PW_STATUS \<longrightarrow> map_type m = MAP_TYPE_PWID)"

definition opt_tlvs :: "map_msg \<Rightarrow> bytes" where
  "opt_tlvs m =
     (if has_flag (map_flags m) F_MAP_REQ_ID then tlv_hdr TLV_TYPE_LABELREQUEST 4 @ store32 (htonl (map_requestid m)) else []) @
     (if has_flag (map_flags m) F_MAP_PW_STATUS then tlv_hdr TLV_TYPE_PW_STATUS 4 @ store32 (htonl (map_pw_status m)) else []) @
     (if has_flag (map_flags m) F_MAP_STATUS
      then tlv_hdr TLV_TYPE_STATUS 10 @ store32 (htonl (st_status_code (map_st m))) @
           store32 (st_msg_id (map_st m)) @ store16 (st_msg_type (map_st m)) else [])"

definition label_tlv :: "map_msg \<Rightarrow> bytes" where
  "label_tlv m = (if map_label m \<noteq> NO_LABEL then tlv_hdr TLV_TYPE_GENERICLABEL 4 @ store32 (htonl (map_label m)) else [])"

lemma length_tlv_hdr [simp]: "length (tlv_hdr t n) = 4"
  by (simp add: tlv_hdr_def)

text \<open>The bytes of the message for \<open>m\<close>; the counter \<open>cnt\<close> has been incremented for it.\<close>

definition label_msg :: "u16 \<Rightarrow> u32 \<Rightarrow> map_msg \<Rightarrow> bytes" where
  "label_msg type cnt m =
     store16 (htons type) @ hton16 (label_msg_size m - 4) @ store32 (htonl cnt) @
     (case label_msg_tlvs m of Inl _ \<Rightarrow> [] | Inr tlvs \<Rightarrow> concat tlvs)"

lemma label_msg_size_eq:
  assumes "sendable m"
  shows "label_msg_size m = 12 + fec_elm_len m + length (label_tlv m @ opt_tlvs m)"
proof -
  consider "map_type m = MAP_TYPE_PREFIX" | "map_type m = MAP_TYPE_PWID" | "map_type m = MAP_TYPE_WILDCARD"
    using assms by (auto simp: sendable_def fec_wf_def split: if_splits)
  then show ?thesis
    using assms
    by cases (auto simp: label_msg_size_def fec_elm_len_def label_tlv_def opt_tlvs_def map_types sendable_def)
qed

lemma label_msg_size_bounds:
  assumes "sendable m"
  shows "8 \<le> label_msg_size m" "label_msg_size m \<le> 86"
  using fec_elm_len_bounds [of m]
  by (auto simp: label_msg_size_eq [OF assms] label_tlv_def opt_tlvs_def)

lemma label_msg_tlvs_sendable:
  assumes "sendable m"
  obtains tlvs elm where "label_msg_tlvs m = Inr tlvs"
    "concat tlvs = tlv_hdr TLV_TYPE_FEC (fec_elm_len m) @ elm @ label_tlv m @ opt_tlvs m"
    "length elm = fec_elm_len m"
    "\<And>rest msg b. tlv_decode_fec_elm msg (elm @ rest) (fec_elm_len m) b =
       Inr ([], Some (fec_elm_len m, decoded_fec b m))"
proof -
  from assms have "fec_wf m" by (simp add: sendable_def)
  from fec_roundtrip [OF this] obtain ps where
    ps: "gen_fec_tlv m = Inr (tlv_hdr TLV_TYPE_FEC (fec_elm_len m) # ps)"
      "length (concat ps) = fec_elm_len m"
      "\<And>rest msg b. tlv_decode_fec_elm msg (concat ps @ rest) (fec_elm_len m) b =
        Inr ([], Some (fec_elm_len m, decoded_fec b m))"
    by metis
  define tl where "tl =
       (if map_label m \<noteq> NO_LABEL then gen_label_tlv (map_label m) else []) @
       (if has_flag (map_flags m) F_MAP_REQ_ID then gen_reqid_tlv (map_requestid m) else []) @
       (if has_flag (map_flags m) F_MAP_PW_STATUS then gen_pw_status_tlv (map_pw_status m) else []) @
       (if has_flag (map_flags m) F_MAP_STATUS
        then gen_status_tlv (st_status_code (map_st m)) (st_msg_id (map_st m)) (st_msg_type (map_st m))
        else [])"
  show thesis
  proof (rule that [of "(tlv_hdr TLV_TYPE_FEC (fec_elm_len m) # ps) @ tl" "concat ps"])
    show "label_msg_tlvs m = Inr ((tlv_hdr TLV_TYPE_FEC (fec_elm_len m) # ps) @ tl)"
      by (simp add: label_msg_tlvs_def ps(1) tl_def)
    show "concat ((tlv_hdr TLV_TYPE_FEC (fec_elm_len m) # ps) @ tl) =
        tlv_hdr TLV_TYPE_FEC (fec_elm_len m) @ concat ps @ label_tlv m @ opt_tlvs m"
      by (simp add: tl_def label_tlv_def opt_tlvs_def gen_label_tlv_def gen_reqid_tlv_def
          gen_pw_status_tlv_def gen_status_tlv_def)
  qed (use ps in auto)
qed

lemma length_label_msg:
  assumes "sendable m"
  shows "length (label_msg type cnt m) = label_msg_size m"
proof -
  from assms obtain tlvs elm where "label_msg_tlvs m = Inr tlvs"
    "concat tlvs = tlv_hdr TLV_TYPE_FEC (fec_elm_len m) @ elm @ label_tlv m @ opt_tlvs m"
    "length elm = fec_elm_len m" by (auto elim: label_msg_tlvs_sendable)
  with assms show ?thesis by (simp add: label_msg_def label_msg_size_eq length_concat [symmetric])
qed

section \<open>Packing messages into PDUs\<close>

definition pdu_hdr :: "in_addr \<Rightarrow> nat \<Rightarrow> bytes" where
  "pdu_hdr rtr_id n = store16 (htons LDP_VERSION) @ hton16 n @ store32 rtr_id @ store16 0"

lemma length_pdu_hdr [simp]: "length (pdu_hdr rtr_id n) = 10"
  by (simp add: pdu_hdr_def)

text \<open>The messages for a list of mappings; the counter before the first of them is \<open>cnt\<close>.\<close>

fun label_msgs :: "u16 \<Rightarrow> u32 \<Rightarrow> map_msg list \<Rightarrow> bytes list" where
  "label_msgs type cnt [] = []"
| "label_msgs type cnt (m # mh) = label_msg type (cnt + 1) m # label_msgs type (cnt + 1) mh"

text \<open>A PDU with a right header whose body are complete messages and whose length the peer accepts.\<close>

definition pdu_of :: "in_addr \<Rightarrow> nat \<Rightarrow> bytes list \<Rightarrow> bytes \<Rightarrow> bool" where
  "pdu_of rtr_id max_pdu_len msgs pdu \<longleftrightarrow>
     msgs \<noteq> [] \<and> pdu = pdu_hdr rtr_id (length pdu - LDP_HDR_DEAD_LEN) @ concat msgs \<and>
     length pdu - LDP_HDR_DEAD_LEN \<le> max_pdu_len"

lemma enqueue_pdu_eq:
  "ib_data buf = pdu_hdr rtr_id x @ body \<Longrightarrow> enqueue_pdu buf n = Inr (pdu_hdr rtr_id n @ body)"
  by (simp add: enqueue_pdu_def pdu_hdr_def hton16_def store16_def)

text \<open>The PDU under construction holds the messages \<open>ms\<close>.\<close>

definition cur_ok :: "in_addr \<Rightarrow> nat \<Rightarrow> bytes list \<Rightarrow> (ibuf \<times> nat) option \<Rightarrow> bool" where
  "cur_ok rtr_id max_pdu_len ms cur \<longleftrightarrow>
     (case cur of
        None \<Rightarrow> ms = []
      | Some (buf, n) \<Rightarrow> ms \<noteq> [] \<and> ib_max buf = max_pdu_len + LDP_HDR_DEAD_LEN \<and>
          (\<exists>x. ib_data buf = pdu_hdr rtr_id x @ concat ms) \<and> n = 6 + length (concat ms) \<and> n \<le> max_pdu_len)"

lemma cur_ok_pdu:
  assumes "cur_ok rtr_id max_pdu_len ms (Some (buf, n))"
  obtains pdu where "enqueue_pdu buf n = Inr pdu" "pdu_of rtr_id max_pdu_len ms pdu"
proof -
  from assms obtain x where x: "ms \<noteq> []" "ib_data buf = pdu_hdr rtr_id x @ concat ms"
    "n = 6 + length (concat ms)" "n \<le> max_pdu_len" by (auto simp: cur_ok_def)
  from x have "pdu_of rtr_id max_pdu_len ms (pdu_hdr rtr_id n @ concat ms)"
    by (simp add: pdu_of_def)
  with enqueue_pdu_eq [OF x(2)] that show thesis by blast
qed

lemma add_label_msg:
  assumes m: "sendable m" and tlvs: "label_msg_tlvs m = Inr tlvs"
    and buf: "ib_max buf = max_pdu_len + 4" "ib_data buf = pdu_hdr rtr_id x @ concat ms"
    and fits: "6 + length (concat ms) + label_msg_size m \<le> max_pdu_len"
  shows "ibuf_adds (buf, False) (snd (gen_msg_hdr cnt type (label_msg_size m)) @ tlvs) =
    (buf\<lparr>ib_data := pdu_hdr rtr_id x @ concat (ms @ [label_msg type (cnt + 1) m])\<rparr>, False)"
proof -
  have "sub16 (label_msg_size m) 4 = label_msg_size m - 4"
    using label_msg_size_bounds [OF m] by (intro sub16_eq) auto
  then have msg: "concat (snd (gen_msg_hdr cnt type (label_msg_size m)) @ tlvs) = label_msg type (cnt + 1) m"
    by (simp add: gen_msg_hdr_def label_msg_def tlvs)
  with length_label_msg [OF m, of type "cnt + 1"] fits buf show ?thesis
    by (subst ibuf_adds_fit) (simp_all add: msg)
qed

lemma send_step:
  assumes m: "sendable m" and max: "256 \<le> max_pdu_len" and cur: "cur_ok rtr_id max_pdu_len ms cur"
    and fits: "case cur of None \<Rightarrow> True | Some (_, n) \<Rightarrow> n + label_msg_size m \<le> max_pdu_len"
  obtains c where
    "send_loop max_pdu_len rtr_id type (m # mh) cnt cur False pdus =
       send_loop max_pdu_len rtr_id type mh (cnt + 1) (Some c) False pdus"
    "cur_ok rtr_id max_pdu_len (ms @ [label_msg type (cnt + 1) m]) (Some c)"
proof -
  from m obtain tlvs where tlvs: "label_msg_tlvs m = Inr tlvs" by (rule label_msg_tlvs_sendable)
  note size = label_msg_size_bounds [OF m] length_label_msg [OF m, of type "cnt + 1"]
  obtain buf x where buf: "ib_max buf = max_pdu_len + 4" "ib_data buf = pdu_hdr rtr_id x @ concat ms"
    and fits': "6 + length (concat ms) + label_msg_size m \<le> max_pdu_len"
    and start: "(case cur of
        None \<Rightarrow> (let (b, e) = ibuf_adds (ibuf_open (max_pdu_len + LDP_HDR_DEAD_LEN), False) (gen_ldp_hdr rtr_id 0)
                in ((b, LDP_HDR_PDU_LEN), e))
      | Some c \<Rightarrow> (c, False)) = ((buf, 6 + length (concat ms)), False)"
  proof (cases cur)
    case None
    with cur have "ms = []" by (simp add: cur_ok_def)
    with None max size that [of "\<lparr>ib_max = max_pdu_len + 4, ib_data = pdu_hdr rtr_id (sub16 0 4)\<rparr>" "sub16 0 4"]
    show thesis by (simp add: ibuf_open_def gen_ldp_hdr_def ibuf_adds_fit pdu_hdr_def)
  next
    case (Some c)
    with cur fits that show thesis by (auto simp: cur_ok_def)
  qed
  note add = add_label_msg [OF m tlvs buf fits', of cnt type]
  show thesis
  proof (rule that)
    show "send_loop max_pdu_len rtr_id type (m # mh) cnt cur False pdus =
      send_loop max_pdu_len rtr_id type mh (cnt + 1)
        (Some (buf\<lparr>ib_data := pdu_hdr rtr_id x @ concat (ms @ [label_msg type (cnt + 1) m])\<rparr>,
               6 + length (concat ms) + label_msg_size m)) False pdus"
      by (subst send_loop.simps(2), subst start)
        (use fits' add tlvs in \<open>simp add: Let_def gen_msg_hdr_def\<close>)
    show "cur_ok rtr_id max_pdu_len (ms @ [label_msg type (cnt + 1) m])
        (Some (buf\<lparr>ib_data := pdu_hdr rtr_id x @ concat (ms @ [label_msg type (cnt + 1) m])\<rparr>,
               6 + length (concat ms) + label_msg_size m))"
      using buf(1) fits' size by (auto simp: cur_ok_def)
  qed
qed

lemma send_flush:
  assumes "cur_ok rtr_id max_pdu_len ms (Some (buf, n))" "max_pdu_len < n + label_msg_size m"
  obtains pdu where "pdu_of rtr_id max_pdu_len ms pdu"
    "send_loop max_pdu_len rtr_id type (m # mh) cnt (Some (buf, n)) False pdus =
       send_loop max_pdu_len rtr_id type (m # mh) cnt None False (pdus @ [pdu])"
proof -
  from assms(1) obtain pdu where pdu: "enqueue_pdu buf n = Inr pdu" "pdu_of rtr_id max_pdu_len ms pdu"
    by (rule cur_ok_pdu)
  have "send_loop max_pdu_len rtr_id type (m # mh) cnt (Some (buf, n)) False pdus =
       send_loop max_pdu_len rtr_id type (m # mh) cnt None False (pdus @ [pdu])"
    by (subst send_loop.simps(2)) (simp add: assms(2) pdu(1) Let_def)
  with that pdu show thesis by blast
qed

text \<open>
  \<open>send_run\<close>: the loop ends with all messages in PDUs, where \<open>ms\<close> are the messages already in the
  PDU under construction. The messages are split into groups, one per PDU.
\<close>

definition send_run ::
    "in_addr \<Rightarrow> nat \<Rightarrow> u16 \<Rightarrow> bytes list \<Rightarrow> bytes list \<Rightarrow> u32 \<Rightarrow> send_result res \<Rightarrow> bool" where
  "send_run rtr_id max_pdu_len type ms pdus cnt r \<longleftrightarrow>
     (\<exists>c pdus' groups last. r = Inr (Sent cnt c (pdus @ pdus')) \<and>
        list_all2 (pdu_of rtr_id max_pdu_len) groups pdus' \<and>
        cur_ok rtr_id max_pdu_len last (Some c) \<and> concat groups @ last = ms)"

lemma send_run_flush:
  assumes "send_run rtr_id max_pdu_len type ms (pdus @ [pdu]) cnt r" "pdu_of rtr_id max_pdu_len g pdu"
  shows "send_run rtr_id max_pdu_len type (g @ ms) pdus cnt r"
proof -
  from assms(1) obtain c pdus' groups last where r: "r = Inr (Sent cnt c (pdus @ pdu # pdus'))"
    "list_all2 (pdu_of rtr_id max_pdu_len) groups pdus'" "cur_ok rtr_id max_pdu_len last (Some c)"
    "concat groups @ last = ms" by (auto simp: send_run_def)
  with assms(2) have "list_all2 (pdu_of rtr_id max_pdu_len) (g # groups) (pdu # pdus')"
    "concat (g # groups) @ last = g @ ms" by auto
  with r show ?thesis unfolding send_run_def by blast
qed

lemma send_loop_run:
  assumes "list_all sendable mh" "256 \<le> max_pdu_len" "cur_ok rtr_id max_pdu_len ms cur"
    and "cur \<noteq> None \<or> mh \<noteq> []"
  shows "send_run rtr_id max_pdu_len type (ms @ label_msgs type cnt mh) pdus (cnt + of_nat (length mh))
    (send_loop max_pdu_len rtr_id type mh cnt cur False pdus)"
  using assms
proof (induction mh arbitrary: cnt cur ms pdus)
  case Nil
  then obtain c where c: "cur = Some c" by auto
  with Nil(3) show ?case
    unfolding send_run_def by (intro exI [of _ c] exI [of _ "[]"] exI [of _ ms]) (simp add: send_loop.simps)
next
  case (Cons m mh)
  have m: "sendable m" "list_all sendable mh" using Cons.prems(1) by simp_all
  have step: "send_run rtr_id max_pdu_len type (ms @ label_msgs type cnt (m # mh)) pdus
      (cnt + of_nat (length (m # mh))) (send_loop max_pdu_len rtr_id type (m # mh) cnt cur False pdus)"
    if fit: "case cur of None \<Rightarrow> True | Some (_, n) \<Rightarrow> n + label_msg_size m \<le> max_pdu_len"
      and cur: "cur_ok rtr_id max_pdu_len ms cur" for cur ms pdus
  proof -
    from send_step [OF m(1) Cons.prems(2) cur fit, of type mh cnt pdus] obtain c where
      "send_loop max_pdu_len rtr_id type (m # mh) cnt cur False pdus =
         send_loop max_pdu_len rtr_id type mh (cnt + 1) (Some c) False pdus"
      "cur_ok rtr_id max_pdu_len (ms @ [label_msg type (cnt + 1) m]) (Some c)" by metis
    with Cons.IH [OF m(2) Cons.prems(2), of "ms @ [label_msg type (cnt + 1) m]" "Some c" "cnt + 1" pdus]
    show ?thesis by (simp add: add.assoc)
  qed
  show ?case
  proof (cases "case cur of None \<Rightarrow> True | Some (_, n) \<Rightarrow> n + label_msg_size m \<le> max_pdu_len")
    case True
    then show ?thesis using step Cons.prems(3) by blast
  next
    case False
    then obtain buf n where "cur = Some (buf, n)" "max_pdu_len < n + label_msg_size m"
      by (auto split: option.splits)
    with send_flush Cons.prems(3) obtain pdu where "pdu_of rtr_id max_pdu_len ms pdu"
      "send_loop max_pdu_len rtr_id type (m # mh) cnt cur False pdus =
         send_loop max_pdu_len rtr_id type (m # mh) cnt None False (pdus @ [pdu])" by metis
    with send_run_flush step [of None "[]" "pdus @ [pdu]"] show ?thesis by (simp add: cur_ok_def)
  qed
qed

section \<open>Receiving what was sent\<close>

lemma msg_types:
  "MSG_TYPE_LABELMAPPING \<noteq> MSG_TYPE_LABELWITHDRAW" "MSG_TYPE_LABELMAPPING \<noteq> MSG_TYPE_LABELRELEASE"
  "MSG_TYPE_LABELWITHDRAW \<noteq> MSG_TYPE_LABELMAPPING" "MSG_TYPE_LABELRELEASE \<noteq> MSG_TYPE_LABELMAPPING"
  "MSG_TYPE_LABELWITHDRAW \<noteq> MSG_TYPE_LABELREQUEST" "MSG_TYPE_LABELRELEASE \<noteq> MSG_TYPE_LABELREQUEST"
  "MSG_TYPE_LABELWITHDRAW \<noteq> MSG_TYPE_LABELABORTREQ" "MSG_TYPE_LABELRELEASE \<noteq> MSG_TYPE_LABELABORTREQ"
  "MSG_TYPE_LABELMAPPING \<noteq> MSG_TYPE_LABELREQUEST" "MSG_TYPE_LABELMAPPING \<noteq> MSG_TYPE_LABELABORTREQ"
  by (simp_all add: const_defs)

lemma rd_tlv_hdr [wire_simps]:
  "rd16 (tlv_hdr t n @ xs) 0 = Inr (ntohs t)"
  "rd16 (tlv_hdr t n @ xs) 2 = Inr (ntohs (of_nat n))"
  by (simp_all add: tlv_hdr_def hton16_def store16_def wire_simps)

lemma opt_loop_0 [simp]: "opt_loop msg type bs 0 op = Inr ([], Some op)"
  by (subst opt_loop.simps) simp

lemma opt_loop_tlv:
  assumes "length val = n" "n < 65536"
  shows "opt_loop msg type (tlv_hdr t n @ val @ rest) (4 + n + k) op =
    bindD (opt_param msg type t n (val @ rest) op) (opt_loop msg type rest k)"
  by (subst opt_loop.simps) (use assms in \<open>simp add: wire_simps Let_def\<close>)

lemma opt_param_simps:
  "opt_param msg MSG_TYPE_LABELMAPPING TLV_TYPE_LABELREQUEST 4 (store32 (ntohl v) @ r) op =
     Inr ([], Some (op\<lparr>op_flags := set_flag (op_flags op) F_MAP_REQ_ID, op_reqid := v\<rparr>))"
  "opt_param msg MSG_TYPE_LABELMAPPING TLV_TYPE_PW_STATUS 4 (store32 (ntohl v) @ r) op =
     Inr ([], Some (op\<lparr>op_flags := set_flag (op_flags op) F_MAP_PW_STATUS, op_pw_status := v\<rparr>))"
  "opt_param msg type TLV_TYPE_STATUS 10 bs op = Inr ([], Some op)"
  "type = MSG_TYPE_LABELWITHDRAW \<or> type = MSG_TYPE_LABELRELEASE \<Longrightarrow>
   opt_param msg type TLV_TYPE_LABELREQUEST n bs op = Inr ([], Some op)"
  "type = MSG_TYPE_LABELWITHDRAW \<or> type = MSG_TYPE_LABELRELEASE \<Longrightarrow>
   opt_param msg type TLV_TYPE_PW_STATUS n bs op = Inr ([], Some op)"
  "type = MSG_TYPE_LABELWITHDRAW \<or> type = MSG_TYPE_LABELRELEASE \<Longrightarrow>
   opt_param msg type TLV_TYPE_GENERICLABEL 4 (store32 (ntohl v) @ r) op = Inr ([], Some (op\<lparr>op_label := v\<rparr>))"
  by (auto simp: opt_param_def wire_simps const_defs)

definition opt_received :: "map_msg \<Rightarrow> opt_params \<Rightarrow> opt_params" where
  "opt_received m op =
     (let fl = map_flags m;
          op1 = (if has_flag fl F_MAP_REQ_ID
                 then op\<lparr>op_flags := set_flag (op_flags op) F_MAP_REQ_ID, op_reqid := map_requestid m\<rparr> else op)
      in if has_flag fl F_MAP_PW_STATUS
         then op1\<lparr>op_flags := set_flag (op_flags op1) F_MAP_PW_STATUS, op_pw_status := map_pw_status m\<rparr> else op1)"

lemma opt_loop_status:
  "opt_loop msg type (tlv_hdr TLV_TYPE_STATUS 10 @ store32 a @ store32 b @ store16 c) 14 op = Inr ([], Some op)"
  using opt_loop_tlv [of "store32 a @ store32 b @ store16 c" 10 msg type TLV_TYPE_STATUS "[]" 0 op]
  by (simp add: opt_param_simps)

lemma opt_loop_skip:
  assumes "n = 8 + length r" "opt_param msg type k 4 (store32 v @ r) op = Inr ([], Some op')"
  shows "opt_loop msg type (tlv_hdr k 4 @ store32 v @ r) n op = opt_loop msg type r (length r) op'"
  using opt_loop_tlv [of "store32 v" 4 msg type k r "length r" op] assms by simp

lemmas opt_loop_last = opt_loop_skip [where r = "[]", simplified]

lemma opt_loop_mapping:
  "opt_loop msg MSG_TYPE_LABELMAPPING (opt_tlvs m) (length (opt_tlvs m)) op = Inr ([], Some (opt_received m op))"
  by (simp add: opt_tlvs_def opt_received_def Let_def opt_loop_skip opt_loop_last opt_param_simps(1,2)
      opt_param_simps(1,2) [where r = "[]", simplified] opt_loop_status)

lemma opt_loop_other:
  assumes t: "type = MSG_TYPE_LABELWITHDRAW \<or> type = MSG_TYPE_LABELRELEASE" and op: "op_label op = NO_LABEL"
  shows "opt_loop msg type (label_tlv m @ opt_tlvs m) (length (label_tlv m @ opt_tlvs m)) op =
    Inr ([], Some (op\<lparr>op_label := map_label m\<rparr>))"
proof -
  have opts: "opt_loop msg type (opt_tlvs m) (length (opt_tlvs m)) op = Inr ([], Some op)" for op
    by (simp add: opt_tlvs_def opt_loop_skip opt_loop_last opt_param_simps(4,5) [OF t] opt_loop_status)
  then show ?thesis
    using op by (simp add: label_tlv_def opt_loop_skip opt_param_simps(6) [OF t])
qed

lemma has_flag_set_flag: "has_flag (set_flag v f) g \<longleftrightarrow> has_flag v g \<or> has_flag f g"
  by (auto simp: has_flag_def set_flag_def word_ao_dist or_eq_0_iff)

lemma set_flag_simps:
  "set_flag w 0 = w" "set_flag w (set_flag v f) = set_flag (set_flag w v) f"
  by (simp_all add: set_flag_def or.assoc)

lemma map_flag_bits:
  "\<not> has_flag F_MAP_REQ_ID F_MAP_PW_STATUS" "\<not> has_flag F_MAP_PW_STATUS F_MAP_REQ_ID"
  "has_flag F_MAP_REQ_ID F_MAP_REQ_ID" "has_flag F_MAP_PW_STATUS F_MAP_PW_STATUS"
  "\<not> has_flag F_MAP_PW_ID F_MAP_REQ_ID" "\<not> has_flag F_MAP_PW_ID F_MAP_PW_STATUS"
  "\<not> has_flag F_MAP_PW_CWORD F_MAP_REQ_ID" "\<not> has_flag F_MAP_PW_CWORD F_MAP_PW_STATUS"
  "\<not> has_flag F_MAP_PW_IFMTU F_MAP_REQ_ID" "\<not> has_flag F_MAP_PW_IFMTU F_MAP_PW_STATUS"
  by (simp_all add: has_flag_def const_defs)

lemmas flag_rules = has_flag_set_flag set_flag_simps map_flag_bits

text \<open>The checks of the receiver that a message of \<open>type\<close> for \<open>m\<close> passes.\<close>

definition acceptable :: "bool \<Rightarrow> bool \<Rightarrow> u16 \<Rightarrow> map_msg \<Rightarrow> bool" where
  "acceptable v4_enabled v6_enabled type m \<longleftrightarrow>
     (if type = MSG_TYPE_LABELMAPPING then
        map_label m \<noteq> NO_LABEL \<and> map_label m \<le> MPLS_LABEL_MAX \<and>
        (map_label m > MPLS_LABEL_RESERVED_MAX \<or> map_label m = MPLS_LABEL_IPV4NULL \<or>
         map_label m = MPLS_LABEL_IPV6NULL \<or> map_label m = MPLS_LABEL_IMPLNULL) \<and>
        map_type m \<noteq> MAP_TYPE_WILDCARD \<and>
        (map_type m = MAP_TYPE_PWID \<longrightarrow> has_flag (map_flags m) F_MAP_PW_ID)
      else type = MSG_TYPE_LABELWITHDRAW \<or> type = MSG_TYPE_LABELRELEASE) \<and>
     (map_type m = MAP_TYPE_PREFIX \<longrightarrow>
        (if map_prefix_af m = AF_INET then v4_enabled \<and> map_label m \<noteq> MPLS_LABEL_IPV6NULL
         else v6_enabled \<and> map_label m \<noteq> MPLS_LABEL_IPV4NULL)) \<and>
     (map_type m = MAP_TYPE_PWID \<longrightarrow> map_label m > MPLS_LABEL_RESERVED_MAX)"

text \<open>The map that the label decision engine of the receiver gets.\<close>

definition received :: "u16 \<Rightarrow> u32 \<Rightarrow> map_msg \<Rightarrow> map_msg" where
  "received type cnt m =
     (let b = decoded_fec (zero_map\<lparr>map_msg_id := htonl cnt\<rparr>) m in
      if type = MSG_TYPE_LABELMAPPING then
        let b1 = (if has_flag (map_flags m) F_MAP_REQ_ID
                  then b\<lparr>map_flags := set_flag (map_flags b) F_MAP_REQ_ID, map_requestid := map_requestid m\<rparr> else b);
            b2 = (if has_flag (map_flags m) F_MAP_PW_STATUS
                  then b1\<lparr>map_flags := set_flag (map_flags b1) F_MAP_PW_STATUS, map_pw_status := map_pw_status m\<rparr> else b1)
        in b2\<lparr>map_label := map_label m\<rparr>
      else b\<lparr>map_label := map_label m\<rparr>)"

lemma decoded_fec_fields:
  "map_type (decoded_fec (zero_map\<lparr>map_msg_id := i\<rparr>) m) = map_type m"
  "map_type m = MAP_TYPE_PREFIX \<Longrightarrow> map_prefix_af (decoded_fec b m) = map_prefix_af m"
  "\<not> has_flag (map_flags (decoded_fec (zero_map\<lparr>map_msg_id := i\<rparr>) m)) F_MAP_REQ_ID"
  "\<not> has_flag (map_flags (decoded_fec (zero_map\<lparr>map_msg_id := i\<rparr>) m)) F_MAP_PW_STATUS"
  by (simp_all add: decoded_fec_def zero_map_def Let_def flag_rules)

lemma notify_lde_received:
  assumes m: "sendable m" and ok: "acceptable v4_enabled v6_enabled type m"
    and op: "op = (let op0 = \<lparr>op_label = map_label m, op_reqid = 0, op_pw_status = 0, op_flags = 0\<rparr> in
      if type = MSG_TYPE_LABELMAPPING then opt_received m op0 else op0)"
  shows "notify_lde_loop msg type v4_enabled v6_enabled op [decoded_fec (zero_map\<lparr>map_msg_id := htonl cnt\<rparr>) m] =
    Inr ([label_imsg type (received type cnt m)], Some ())"
proof -
  define b where "b = decoded_fec (zero_map\<lparr>map_msg_id := htonl cnt\<rparr>) m"
  note b = decoded_fec_fields(1,3,4) [of "htonl cnt" m, folded b_def]
    decoded_fec_fields(2) [of m "zero_map\<lparr>map_msg_id := htonl cnt\<rparr>", folded b_def]
  have rec: "received type cnt m =
    (let m1 = b\<lparr>map_flags := set_flag (map_flags b) (op_flags op)\<rparr>;
         m2 = (if has_flag (op_flags op) F_MAP_PW_STATUS then m1\<lparr>map_pw_status := op_pw_status op\<rparr> else m1);
         m3 = m2\<lparr>map_label := map_label m\<rparr>
     in if has_flag (op_flags op) F_MAP_REQ_ID then m3\<lparr>map_requestid := op_reqid op\<rparr> else m3)"
    by (simp add: received_def op opt_received_def Let_def flag_rules flip: b_def)
  have opf: "op_label op = map_label m"
    "has_flag (op_flags op) F_MAP_PW_STATUS \<Longrightarrow> map_type m = MAP_TYPE_PWID"
    using m by (auto simp: op opt_received_def Let_def sendable_def flag_rules split: if_splits)
  consider (prefix) "map_type m = MAP_TYPE_PREFIX" "map_prefix_af m \<noteq> AF_UNSPEC"
    | (pwid) "map_type m = MAP_TYPE_PWID" | (wild) "map_type m = MAP_TYPE_WILDCARD"
    using m by (auto simp: sendable_def fec_wf_def split: if_splits af.splits)
  then show ?thesis
  proof cases
    case prefix
    with ok opf b show ?thesis unfolding rec b_def [symmetric]
      by (cases "map_prefix_af m") (auto simp: acceptable_def map_types has_flag_set_flag Let_def)
  next
    case pwid
    with ok opf b show ?thesis unfolding rec b_def [symmetric]
      by (auto simp: acceptable_def map_types has_flag_set_flag Let_def)
  next
    case wild
    with ok opf b show ?thesis unfolding rec b_def [symmetric]
      by (auto simp: acceptable_def map_types has_flag_set_flag Let_def)
  qed
qed

end
