(* ===== verification/Ldpe_Fsm.thy ===== *)
theory Ldpe_Fsm
  imports Ldpe_Iface Ldp_LabelProps
begin

text \<open>
  What the operations on one session do to the state of the engine. \<open>eff p s n ks t\<close>: from \<open>s\<close> to \<open>t\<close>
  only the neighbour \<open>p\<close> changed, and became \<open>n\<close>; the outputs added are of the kinds \<open>ks\<close> (for a
  PDU, the descriptor and the type of its first message). Message counter and accept queue apart,
  nothing else changed.
\<close>

section \<open>Effects\<close>

named_theorems sess_simps \<open>the state after elementary updates\<close>

definition erase :: "ldpe \<Rightarrow> ldpe" where
  "erase s = s\<lparr>e_nbrs := rb_init, e_msgcnt := 0, e_out := [], e_accept := \<lparr>aq_queue = [], aq_paused = False\<rparr>\<rparr>"

datatype out_kind = K_pdu int u16 | K_out ldpe_out

definition pdu_type :: "bytes \<Rightarrow> u16" where
  "pdu_type b = ntohs (load16 (b ! 10) (b ! 11))"

definition out_kind :: "ldpe_out \<Rightarrow> out_kind" where
  "out_kind x = (case x of Out_pdu fd b \<Rightarrow> K_pdu fd (pdu_type b) | _ \<Rightarrow> K_out x)"

lemma out_kind_simps [simp]:
  "out_kind (Out_pdu fd b) = K_pdu fd (pdu_type b)"
  "out_kind (Out_lde q m) = K_out (Out_lde q m)"
  "out_kind (Out_close fd) = K_out (Out_close fd)"
  by (simp_all add: out_kind_def)

definition eff :: "u32 \<Rightarrow> ldpe \<Rightarrow> nbr \<Rightarrow> out_kind list \<Rightarrow> ldpe \<Rightarrow> bool" where
  "eff p s n ks t \<longleftrightarrow>
     rb_find (e_nbrs t) = (rb_find (e_nbrs s))(p \<mapsto> n) \<and> erase t = erase s \<and>
     (\<exists>outs. e_out t = e_out s @ outs \<and> map out_kind outs = ks)"

lemma eff_iff:
  "eff p s n ks t \<longleftrightarrow>
     (\<forall>q. rb_find (e_nbrs t) q = (if q = p then Some n else rb_find (e_nbrs s) q)) \<and> erase t = erase s \<and>
     (\<exists>outs. e_out t = e_out s @ outs \<and> map out_kind outs = ks)"
  by (auto simp: eff_def fun_eq_iff)

lemma eff_refl: "rb_find (e_nbrs s) p = Some n \<Longrightarrow> eff p s n [] s"
  by (auto simp: eff_def)

lemma eff_trans: "eff p s n ks t \<Longrightarrow> eff p t n' ks' u \<Longrightarrow> eff p s n' (ks @ ks') u"
  by (auto simp: eff_def)

lemma eff_find: "eff p s n ks t \<Longrightarrow> rb_find (e_nbrs t) p = Some n"
  by (simp add: eff_def)

lemma eff_find_other: "eff p s n ks t \<Longrightarrow> q \<noteq> p \<Longrightarrow> rb_find (e_nbrs t) q = rb_find (e_nbrs s) q"
  by (simp add: eff_def)

lemma eff_erase: "eff p s n ks t \<Longrightarrow> erase t = erase s"
  by (simp add: eff_def)

lemma erase_fields:
  assumes "erase t = erase s"
  shows "e_rtr_id t = e_rtr_id s" "e_ipv4 t = e_ipv4 s" "e_ipv6 t = e_ipv6 s"
    "e_nbrp_list t = e_nbrp_list s" "e_addr_list t = e_addr_list s" "e_peercnt t = e_peercnt s"
    "e_nbrs_by_pid t = e_nbrs_by_pid s" "e_nbrs_by_addr t = e_nbrs_by_addr s"
    "e_adjs t = e_adjs s" "e_adj_list t = e_adj_list s" "e_ifaces t = e_ifaces s"
    "e_iface_list t = e_iface_list s" "e_tnbrs t = e_tnbrs s" "e_tnbr_list t = e_tnbr_list s"
    "e_pending_conns t = e_pending_conns s" "e_global4 t = e_global4 s" "e_global6 t = e_global6 s"
    "e_trans_pref t = e_trans_pref s" "e_no_pfkey t = e_no_pfkey s" "e_no_md5sig t = e_no_md5sig s"
  using assms by (cases s; cases t; simp add: erase_def)+

lemma erase_upd [simp]:
  "erase (upd_n s p f) = erase s"
  "erase (eout s x) = erase s"
  "erase (s\<lparr>e_msgcnt := c\<rparr>) = erase s"
  "erase (s\<lparr>e_out := os\<rparr>) = erase s"
  "erase (s\<lparr>e_accept := q\<rparr>) = erase s"
  by (simp_all add: erase_def upd_n_def eout_def)

lemma find_upd [simp]:
  "rb_find (e_nbrs (upd_n s p f)) q = (if q = p then map_option f (rb_find (e_nbrs s) p) else rb_find (e_nbrs s) q)"
  "e_nbrs (eout s x) = e_nbrs s"
  by (simp_all add: upd_n_def eout_def)

lemma out_upd [simp]:
  "e_out (upd_n s p f) = e_out s"
  "e_out (eout s x) = e_out s @ [x]"
  by (simp_all add: upd_n_def eout_def)

lemma field_upd [simp]:
  "e_msgcnt (upd_n s p f) = e_msgcnt s" "e_accept (upd_n s p f) = e_accept s"
  "e_msgcnt (eout s x) = e_msgcnt s" "e_accept (eout s x) = e_accept s"
  "e_peercnt (upd_n s p f) = e_peercnt s" "e_nbrs_by_pid (upd_n s p f) = e_nbrs_by_pid s"
  "e_peercnt (eout s x) = e_peercnt s" "e_nbrs_by_pid (eout s x) = e_nbrs_by_pid s"
  "e_rtr_id (upd_n s p f) = e_rtr_id s" "e_rtr_id (eout s x) = e_rtr_id s"
  "e_addr_list (upd_n s p f) = e_addr_list s" "e_addr_list (eout s x) = e_addr_list s"
  by (simp_all add: upd_n_def eout_def)

lemma eff_upd_n: "rb_find (e_nbrs s) p = Some n \<Longrightarrow> eff p s (f n) [] (upd_n s p f)"
  by (auto simp: eff_def)

lemma eff_eout: "rb_find (e_nbrs s) p = Some n \<Longrightarrow> eff p s n [out_kind x] (eout s x)"
  by (auto simp: eff_def)

lemma eff_msgcnt: "eff p s n ks (t\<lparr>e_msgcnt := c\<rparr>) = eff p s n ks t"
  by (auto simp: eff_def)

lemma eff_from_msgcnt: "eff p (s\<lparr>e_msgcnt := c\<rparr>) n ks t = eff p s n ks t"
  by (auto simp: eff_def)

lemma eff_accept: "eff p s n ks (t\<lparr>e_accept := q\<rparr>) = eff p s n ks t"
  by (auto simp: eff_def)

lemma okE_eff_trans:
  "eff p s n ks t \<Longrightarrow> okE r (eff p t n' ks') \<Longrightarrow> okE r (eff p s n' (ks @ ks'))"
  by (auto elim!: okE_mono intro: eff_trans)

lemma okE_eff_bind:
  "okE m (eff p s n ks) \<Longrightarrow> (\<And>t. eff p s n ks t \<Longrightarrow> okE (f t) (eff p t n' ks')) \<Longrightarrow>
   okE (bindE m f) (eff p s n' (ks @ ks'))"
  by (rule okE_bind, assumption) (blast intro: okE_eff_trans)

lemma get_nbr_Some [simp]: "rb_find (e_nbrs s) p = Some n \<Longrightarrow> get_nbr s p = Inr n"
  by (simp add: get_nbr_def)

lemma get_tcp_Some [simp]: "n_tcp n = Some c \<Longrightarrow> get_tcp n = Inr c"
  by (simp add: get_tcp_def)

section \<open>Senders\<close>

lemma length_gen_hdrs [simp]:
  "length (concat (gen_ldp_hdr r n)) = 10" "length (concat (snd (gen_msg_hdr c ty m))) = 8"
  by (simp_all add: gen_ldp_hdr_def gen_msg_hdr_def)

lemma fst_gen_msg_hdr: "fst (gen_msg_hdr c ty m) = c + 1"
  by (simp add: gen_msg_hdr_def)

lemma pdu_type_gen [simp]: "pdu_type (concat (gen_ldp_hdr r n) @ concat (snd (gen_msg_hdr c ty m)) @ rest) = ty"
  by (simp add: pdu_type_def gen_ldp_hdr_def gen_msg_hdr_def store16_def store32_def hton16_def)

text \<open>A PDU built from its headers and the given parts, when it fits its buffer.\<close>

lemma ibuf_adds_pdu:
  assumes "18 + length (concat rest) \<le> k"
  shows "ibuf_adds (ibuf_open k, False) (gen_ldp_hdr r n @ snd (gen_msg_hdr c ty m) @ rest) =
    (\<lparr>ib_max = k, ib_data = concat (gen_ldp_hdr r n) @ concat (snd (gen_msg_hdr c ty m)) @ concat rest\<rparr>, False)"
  using assms by (subst ibuf_adds_fit) (simp_all add: ibuf_open_def)

lemma length_tlvs [simp]:
  "length (concat (gen_status_tlv a b c)) = 14"
  "gen_init_prms_tlv s nb = Inr prms \<Longrightarrow> length (concat prms) = 18"
  by (auto simp: gen_status_tlv_def gen_init_prms_tlv_def bindE_Inr_iff tlv_hdr_def)

lemma send_notification_eff:
  assumes "rb_find (e_nbrs s) p = Some n"
  shows "okE (send_notification s status fd mid type) (eff p s n [K_pdu fd MSG_TYPE_NOTIFICATION])"
proof -
  obtain cnt hdr where h: "gen_msg_hdr (e_msgcnt s) MSG_TYPE_NOTIFICATION 22 = (cnt, hdr)" by fastforce
  have fit: "ibuf_adds (ibuf_open 32, False) (gen_ldp_hdr (e_rtr_id s) 32 @ hdr @ gen_status_tlv status mid type) =
    (\<lparr>ib_max = 32, ib_data = concat (gen_ldp_hdr (e_rtr_id s) 32) @ concat hdr @ concat (gen_status_tlv status mid type)\<rparr>, False)"
    using ibuf_adds_pdu [of "gen_status_tlv status mid type" 32 "e_rtr_id s" 32 "e_msgcnt s" MSG_TYPE_NOTIFICATION 22]
    by (simp add: h)
  have ty: "pdu_type (concat (gen_ldp_hdr (e_rtr_id s) 32) @ concat hdr @ concat (gen_status_tlv status mid type)) = MSG_TYPE_NOTIFICATION"
    using pdu_type_gen [of "e_rtr_id s" 32 "e_msgcnt s" MSG_TYPE_NOTIFICATION 22] by (simp add: h)
  show ?thesis
    using assms
    by (auto simp: send_notification_def send_notification_full_def notification_size_def zero_notify_msg_def
        h Let_def fit eff_def ty)
qed

lemma send_keepalive_eff:
  assumes n: "rb_find (e_nbrs s) p = Some n" and c: "n_tcp n = Some c"
  shows "okE (send_keepalive s p) (eff p s n [K_pdu (tcp_fd c) MSG_TYPE_KEEPALIVE])"
proof -
  obtain cnt hdr where h: "gen_msg_hdr (e_msgcnt s) MSG_TYPE_KEEPALIVE 8 = (cnt, hdr)" by fastforce
  have fit: "ibuf_adds (ibuf_open 18, False) (gen_ldp_hdr (e_rtr_id s) 18 @ hdr) =
    (\<lparr>ib_max = 18, ib_data = concat (gen_ldp_hdr (e_rtr_id s) 18) @ concat hdr\<rparr>, False)"
    using ibuf_adds_pdu [of "[]" 18 "e_rtr_id s" 18 "e_msgcnt s" MSG_TYPE_KEEPALIVE 8] by (simp add: h)
  have ty: "pdu_type (concat (gen_ldp_hdr (e_rtr_id s) 18) @ concat hdr) = MSG_TYPE_KEEPALIVE"
    using pdu_type_gen [of "e_rtr_id s" 18 "e_msgcnt s" MSG_TYPE_KEEPALIVE 8 "[]"] by (simp add: h)
  show ?thesis
    using n c by (auto simp: send_keepalive_def h Let_def fit eff_def ty)
qed

lemma ldp_af_conf_get_total: "af \<noteq> AF_UNSPEC \<Longrightarrow> okE (ldp_af_conf_get s af) (\<lambda>_. True)"
  by (cases af) (simp_all add: ldp_af_conf_get_def)

lemma nbr_get_keepalive_total: "af \<noteq> AF_UNSPEC \<Longrightarrow> okE (nbr_get_keepalive s af lsr_id) (\<lambda>_. True)"
  by (auto simp: nbr_get_keepalive_def intro!: okE_bind [OF ldp_af_conf_get_total] split: option.split)

lemma send_init_eff:
  assumes n: "rb_find (e_nbrs s) p = Some n" and c: "n_tcp n = Some c" and af: "n_af n \<noteq> AF_UNSPEC"
  shows "okE (send_init s p) (eff p s n [K_pdu (tcp_fd c) MSG_TYPE_INIT])"
proof -
  obtain cnt hdr where h: "gen_msg_hdr (e_msgcnt s) MSG_TYPE_INIT 26 = (cnt, hdr)" by fastforce
  obtain prms where prms: "gen_init_prms_tlv s n = Inr prms"
    using nbr_get_keepalive_total [OF af, of s "n_id n"] by (auto simp: gen_init_prms_tlv_def okE_def)
  have len: "length (concat prms) = 18" using prms by simp
  have fit: "ibuf_adds (ibuf_open 36, False) (gen_ldp_hdr (e_rtr_id s) 36 @ hdr @ prms) =
    (\<lparr>ib_max = 36, ib_data = concat (gen_ldp_hdr (e_rtr_id s) 36) @ concat hdr @ concat prms\<rparr>, False)"
    using ibuf_adds_pdu [of prms 36 "e_rtr_id s" 36 "e_msgcnt s" MSG_TYPE_INIT 26] len by (simp add: h)
  have ty: "pdu_type (concat (gen_ldp_hdr (e_rtr_id s) 36) @ concat hdr @ concat prms) = MSG_TYPE_INIT"
    using pdu_type_gen [of "e_rtr_id s" 36 "e_msgcnt s" MSG_TYPE_INIT 26 "concat prms"] by (simp add: h)
  show ?thesis
    using n c by (auto simp: send_init_def h prms Let_def fit eff_def ty)
qed

section \<open>The state machine on one neighbour\<close>

text \<open>
  A neighbour has a connection exactly while it has a session; the timers say that no session gets
  stuck: while it is being set up the initialization timeout is armed, once it is operational the
  keepalive timeout and the keepalive timer are.
\<close>

definition timers_ok :: "nbr \<Rightarrow> bool" where
  "timers_ok n \<longleftrightarrow>
     (case n_state n of
        NBR_STA_PRESENT \<Rightarrow>
          n_init_timeout n = None \<and> n_keepalive_timer n = None \<and> n_keepalive_timeout n = None
      | NBR_STA_OPER \<Rightarrow>
          n_init_timeout n = None \<and>
          n_keepalive_timer n = Some (unat (n_keepalive n) div KEEPALIVE_PER_PERIOD) \<and>
          n_keepalive_timeout n = Some (unat (n_keepalive n))
      | _ \<Rightarrow> n_init_timeout n = Some INIT_FSM_TIMEOUT \<and> n_keepalive_timer n = None)"

text \<open>What is queued for a neighbour fits the wire format and its PDUs.\<close>

definition queues_ok :: "nbr \<Rightarrow> bool" where
  "queues_ok n \<longleftrightarrow>
     (n_state n = NBR_STA_OPENREC \<or> n_state n = NBR_STA_OPER \<longrightarrow> 256 \<le> n_max_pdu_len n) \<and> list_all sendable (n_mapping_list n) \<and> list_all sendable (n_release_list n) \<and>
     list_all sendable (n_withdraw_list n)"

definition nbr_ok :: "nbr \<Rightarrow> bool" where
  "nbr_ok n \<longleftrightarrow>
     queues_ok n \<and> n_af n \<noteq> AF_UNSPEC \<and> (n_state n = NBR_STA_PRESENT \<longleftrightarrow> n_tcp n = None) \<and> timers_ok n \<and>
     (n_state n = NBR_STA_OPER \<longrightarrow> n_peerid n \<noteq> 0)"

text \<open>What the state machine relies on.\<close>

definition fsm_ready :: "nbr \<Rightarrow> bool" where
  "fsm_ready n \<longleftrightarrow> n_af n \<noteq> AF_UNSPEC \<and> (n_state n \<noteq> NBR_STA_PRESENT \<longrightarrow> n_tcp n \<noteq> None)"

lemma nbr_ok_ready: "nbr_ok n \<Longrightarrow> fsm_ready n"
  by (simp add: nbr_ok_def fsm_ready_def)

definition nbr_fd :: "nbr \<Rightarrow> int" where
  "nbr_fd n = (case n_tcp n of None \<Rightarrow> -1 | Some c \<Rightarrow> tcp_fd c)"

text \<open>What an event does to a neighbour and which outputs it has (\<open>NBR_EVT_KEEPALIVE_RCVD\<close> apart).\<close>

definition closed :: "nbr \<Rightarrow> nbr" where
  "closed n = n\<lparr>n_state := NBR_STA_PRESENT, n_tcp := None, n_init_timeout := None, n_keepalive_timer := None,
     n_keepalive_timeout := None\<rparr>"

definition fsm_nbr :: "nbr \<Rightarrow> nbr_event \<Rightarrow> nbr \<times> out_kind list" where
  "fsm_nbr n ev =
     (case (ev, n_state n) of
        (NBR_EVT_MATCH_ADJ, NBR_STA_PRESENT) \<Rightarrow>
          (n\<lparr>n_state := NBR_STA_INITIAL, n_init_timeout := Some INIT_FSM_TIMEOUT\<rparr>, [])
      | (NBR_EVT_CONNECT_UP, NBR_STA_PRESENT) \<Rightarrow>
          (n\<lparr>n_state := NBR_STA_OPENSENT, n_init_timeout := Some INIT_FSM_TIMEOUT,
             n_tcp := Some \<lparr>tcp_fd = n_fd n, tcp_rbuf = []\<rparr>\<rparr>, [K_pdu (n_fd n) MSG_TYPE_INIT])
      | (NBR_EVT_INIT_SENT, NBR_STA_INITIAL) \<Rightarrow>
          (n\<lparr>n_state := NBR_STA_OPENSENT, n_init_timeout := Some INIT_FSM_TIMEOUT\<rparr>, [])
      | (NBR_EVT_INIT_RCVD, NBR_STA_INITIAL) \<Rightarrow>
          (n\<lparr>n_state := NBR_STA_OPENREC, n_init_timeout := Some INIT_FSM_TIMEOUT\<rparr>,
           [K_pdu (nbr_fd n) MSG_TYPE_INIT, K_pdu (nbr_fd n) MSG_TYPE_KEEPALIVE])
      | (NBR_EVT_INIT_RCVD, NBR_STA_OPENSENT) \<Rightarrow>
          (n\<lparr>n_state := NBR_STA_OPENREC, n_init_timeout := Some INIT_FSM_TIMEOUT,
             n_keepalive_timeout := Some (unat (n_keepalive n))\<rparr>, [K_pdu (nbr_fd n) MSG_TYPE_KEEPALIVE])
      | (NBR_EVT_CLOSE_SESSION, NBR_STA_PRESENT) \<Rightarrow> (n\<lparr>n_init_timeout := None\<rparr>, [])
      | (NBR_EVT_CLOSE_SESSION, _) \<Rightarrow>
          (closed n, [K_out (Out_lde (n_peerid n) NEIGHBOR_DOWN), K_out (Out_close (nbr_fd n))])
      | (NBR_EVT_PDU_RCVD, NBR_STA_OPER) \<Rightarrow>
          (n\<lparr>n_init_timeout := None, n_keepalive_timeout := Some (unat (n_keepalive n))\<rparr>, [])
      | (NBR_EVT_PDU_SENT, NBR_STA_OPER) \<Rightarrow>
          (n\<lparr>n_init_timeout := None, n_keepalive_timer := Some (unat (n_keepalive n) div KEEPALIVE_PER_PERIOD)\<rparr>, [])
      | (NBR_EVT_PDU_RCVD, NBR_STA_PRESENT) \<Rightarrow> (n, [])
      | (NBR_EVT_PDU_RCVD, _) \<Rightarrow> (n\<lparr>n_init_timeout := Some INIT_FSM_TIMEOUT\<rparr>, [])
      | (NBR_EVT_PDU_SENT, NBR_STA_PRESENT) \<Rightarrow> (n, [])
      | (NBR_EVT_PDU_SENT, _) \<Rightarrow> (n\<lparr>n_init_timeout := Some INIT_FSM_TIMEOUT\<rparr>, [])
      | _ \<Rightarrow> (n, []))"

text \<open>The transition table, evaluated.\<close>

lemma nbr_fsm_lookup_eval:
  "nbr_fsm_lookup st ev = (case ev of
     NBR_EVT_NOTHING \<Rightarrow> None
   | NBR_EVT_MATCH_ADJ \<Rightarrow> (if st = NBR_STA_PRESENT then Some (NBR_ACT_NOTHING, Some NBR_STA_INITIAL) else None)
   | NBR_EVT_CONNECT_UP \<Rightarrow> (if st = NBR_STA_PRESENT then Some (NBR_ACT_CONNECT_SETUP, Some NBR_STA_INITIAL) else None)
   | NBR_EVT_INIT_SENT \<Rightarrow> (if st = NBR_STA_INITIAL then Some (NBR_ACT_NOTHING, Some NBR_STA_OPENSENT) else None)
   | NBR_EVT_INIT_RCVD \<Rightarrow> (if st = NBR_STA_INITIAL then Some (NBR_ACT_PASSIVE_INIT, Some NBR_STA_OPENREC)
      else if st = NBR_STA_OPENSENT then Some (NBR_ACT_KEEPALIVE_SEND, Some NBR_STA_OPENREC) else None)
   | NBR_EVT_KEEPALIVE_RCVD \<Rightarrow> (if st = NBR_STA_OPENREC then Some (NBR_ACT_SESSION_EST, Some NBR_STA_OPER) else None)
   | NBR_EVT_PDU_RCVD \<Rightarrow> (if st = NBR_STA_OPER then Some (NBR_ACT_RST_KTIMEOUT, None)
      else if st = NBR_STA_PRESENT then None else Some (NBR_ACT_NOTHING, None))
   | NBR_EVT_PDU_SENT \<Rightarrow> (if st = NBR_STA_OPER then Some (NBR_ACT_RST_KTIMER, None)
      else if st = NBR_STA_PRESENT then None else Some (NBR_ACT_NOTHING, None))
   | NBR_EVT_CLOSE_SESSION \<Rightarrow> (if st = NBR_STA_PRESENT then Some (NBR_ACT_NOTHING, None) else Some (NBR_ACT_CLOSE_SESSION, Some NBR_STA_PRESENT)))"
  by (cases ev; cases st) (simp_all add: nbr_fsm_lookup_def nbr_fsm_tbl_def)

lemmas nbr_fsm_lookup_simps [simp] =
  nbr_fsm_lookup_eval [of _ NBR_EVT_NOTHING, unfolded nbr_event.case]
  nbr_fsm_lookup_eval [of _ NBR_EVT_MATCH_ADJ, unfolded nbr_event.case]
  nbr_fsm_lookup_eval [of _ NBR_EVT_CONNECT_UP, unfolded nbr_event.case]
  nbr_fsm_lookup_eval [of _ NBR_EVT_INIT_SENT, unfolded nbr_event.case]
  nbr_fsm_lookup_eval [of _ NBR_EVT_INIT_RCVD, unfolded nbr_event.case]
  nbr_fsm_lookup_eval [of _ NBR_EVT_KEEPALIVE_RCVD, unfolded nbr_event.case]
  nbr_fsm_lookup_eval [of _ NBR_EVT_PDU_RCVD, unfolded nbr_event.case]
  nbr_fsm_lookup_eval [of _ NBR_EVT_PDU_SENT, unfolded nbr_event.case]
  nbr_fsm_lookup_eval [of _ NBR_EVT_CLOSE_SESSION, unfolded nbr_event.case]

lemmas timer_defs =
  nbr_start_ktimer_def nbr_stop_ktimer_def nbr_start_ktimeout_def nbr_stop_ktimeout_def
  nbr_start_itimeout_def nbr_stop_itimeout_def

lemma session_close_eff:
  assumes "rb_find (e_nbrs s) p = Some n" "n_tcp n = Some c"
  shows "okE (session_close s p)
    (eff p s (n\<lparr>n_tcp := None, n_keepalive_timer := None, n_keepalive_timeout := None, n_init_timeout := None\<rparr>)
      [K_out (Out_close (tcp_fd c))])"
  using assms by (auto simp: session_close_def tcp_close_def Let_def timer_defs eff_iff)

lemma nbr_fsm_1_eff:
  assumes n: "rb_find (e_nbrs s) p = Some n" and ev: "ev = NBR_EVT_PDU_SENT \<or> ev = NBR_EVT_INIT_SENT"
  shows "okE (nbr_fsm_n (Suc k) s p ev) (eff p s (fst (fsm_nbr n ev)) [])"
  using assms
  by (cases "n_state n"; auto simp: nbr_fsm_action_def fsm_nbr_def Let_def timer_defs eff_iff intro: nbr.equality)

text \<open>Entering a state, before the action of the transition.\<close>

definition fsm_enter :: "ldpe \<Rightarrow> u32 \<Rightarrow> nbr_state \<Rightarrow> ldpe" where
  "fsm_enter s p st =
     (let s1 = upd_n s p (\<lambda>n. n\<lparr>n_state := st\<rparr>)
      in if st = NBR_STA_OPER \<or> st = NBR_STA_PRESENT then nbr_stop_itimeout s1 p else nbr_start_itimeout s1 p)"

definition entered :: "nbr \<Rightarrow> nbr_state \<Rightarrow> nbr" where
  "entered n st = n\<lparr>n_state := st, n_init_timeout :=
     (if st = NBR_STA_OPER \<or> st = NBR_STA_PRESENT then None else Some INIT_FSM_TIMEOUT)\<rparr>"

lemma entered_simps [simp]:
  "n_tcp (entered n st) = n_tcp n" "n_af (entered n st) = n_af n" "n_peerid (entered n st) = n_peerid n"
  "n_fd (entered n st) = n_fd n" "n_keepalive (entered n st) = n_keepalive n" "n_state (entered n st) = st"
  by (simp_all add: entered_def)

lemma nbr_fsm_step:
  "rb_find (e_nbrs s) p = Some n \<Longrightarrow>
   nbr_fsm s p ev =
     (case nbr_fsm_lookup (n_state n) ev of
        None \<Rightarrow> Inr s
      | Some (act, new_state) \<Rightarrow>
          nbr_fsm_action (nbr_fsm_n 1) (fsm_enter s p (case new_state of None \<Rightarrow> n_state n | Some x \<Rightarrow> x)) p act)"
  by (simp add: nbr_fsm_def numeral_2_eq_2 fsm_enter_def Let_def split: option.split)

lemma fsm_enter_eff: "rb_find (e_nbrs s) p = Some n \<Longrightarrow> eff p s (entered n st) [] (fsm_enter s p st)"
  by (auto simp: fsm_enter_def entered_def Let_def timer_defs eff_iff)

lemma fsm_transition:
  assumes n: "rb_find (e_nbrs s) p = Some n"
    and tr: "nbr_fsm_lookup (n_state n) ev = Some (act, ns)"
    and st: "st = (case ns of None \<Rightarrow> n_state n | Some x \<Rightarrow> x)"
    and act: "\<And>t. rb_find (e_nbrs t) p = Some (entered n st) \<Longrightarrow>
                okE (nbr_fsm_action (nbr_fsm_n 1) t p act) (eff p t n' ks)"
  shows "okE (nbr_fsm s p ev) (eff p s n' ks)"
  using okE_eff_trans [OF fsm_enter_eff [OF n] act [OF eff_find [OF fsm_enter_eff [OF n]]]] st
  by (simp add: nbr_fsm_step [OF n] tr)

lemma act_connect_setup_eff:
  assumes n: "rb_find (e_nbrs s) p = Some (entered n NBR_STA_INITIAL)" and af: "n_af n \<noteq> AF_UNSPEC"
  shows "okE (nbr_fsm_action (nbr_fsm_n 1) s p NBR_ACT_CONNECT_SETUP)
    (eff p s ((entered n NBR_STA_OPENSENT)\<lparr>n_tcp := Some \<lparr>tcp_fd = n_fd n, tcp_rbuf = []\<rparr>\<rparr>) [K_pdu (n_fd n) MSG_TYPE_INIT])"
    (is "okE _ (eff p s ?n' _)")
proof -
  let ?n = "(entered n NBR_STA_INITIAL)\<lparr>n_tcp := Some \<lparr>tcp_fd = n_fd n, tcp_rbuf = []\<rparr>\<rparr>"
  have tcp: "eff p s ?n [] (tcp_new s (n_fd n) p)" using n by (auto simp: tcp_new_def eff_iff)
  have init: "okE (send_init (tcp_new s (n_fd n) p) p) (eff p (tcp_new s (n_fd n) p) ?n [K_pdu (n_fd n) MSG_TYPE_INIT])"
    using send_init_eff [OF eff_find [OF tcp]] af by simp
  have sent: "okE (nbr_fsm_n 1 t p NBR_EVT_INIT_SENT) (eff p t ?n' [])" if "rb_find (e_nbrs t) p = Some ?n" for t
  proof -
    have "fst (fsm_nbr ?n NBR_EVT_INIT_SENT) = ?n'" by (simp add: fsm_nbr_def entered_def)
    with nbr_fsm_1_eff [OF that, of NBR_EVT_INIT_SENT 0] show ?thesis by simp
  qed
  have "okE (bindE (send_init (tcp_new s (n_fd n) p) p) (\<lambda>s1. nbr_fsm_n 1 s1 p NBR_EVT_INIT_SENT))
    (eff p s ?n' ([] @ [K_pdu (n_fd n) MSG_TYPE_INIT] @ []))"
    by (rule okE_eff_trans [OF tcp okE_eff_bind [OF init sent [OF eff_find]]])
  then show ?thesis using n by (simp add: nbr_fsm_action_def)
qed

lemma act_passive_init_eff:
  assumes n: "rb_find (e_nbrs s) p = Some n" and c: "n_tcp n = Some c" and af: "n_af n \<noteq> AF_UNSPEC"
  shows "okE (nbr_fsm_action f s p NBR_ACT_PASSIVE_INIT)
    (eff p s n [K_pdu (tcp_fd c) MSG_TYPE_INIT, K_pdu (tcp_fd c) MSG_TYPE_KEEPALIVE])"
  using okE_eff_bind [OF send_init_eff [OF n c af] send_keepalive_eff [OF eff_find c]]
  by (simp add: nbr_fsm_action_def)

lemma act_keepalive_send_eff:
  assumes n: "rb_find (e_nbrs s) p = Some n" and c: "n_tcp n = Some c"
  shows "okE (nbr_fsm_action f s p NBR_ACT_KEEPALIVE_SEND)
    (eff p s (n\<lparr>n_keepalive_timeout := Some (unat (n_keepalive n))\<rparr>) [K_pdu (tcp_fd c) MSG_TYPE_KEEPALIVE])"
proof -
  have t: "eff p s (n\<lparr>n_keepalive_timeout := Some (unat (n_keepalive n))\<rparr>) [] (nbr_start_ktimeout s p)"
    using n by (auto simp: timer_defs eff_iff)
  show ?thesis
    using okE_eff_trans [OF t send_keepalive_eff [OF eff_find [OF t], of c]] c by (simp add: nbr_fsm_action_def)
qed

lemma act_close_eff:
  assumes n: "rb_find (e_nbrs s) p = Some n" and c: "n_tcp n = Some c"
  shows "okE (nbr_fsm_action f s p NBR_ACT_CLOSE_SESSION)
    (eff p s (n\<lparr>n_tcp := None, n_keepalive_timer := None, n_keepalive_timeout := None, n_init_timeout := None\<rparr>)
      [K_out (Out_lde (n_peerid n) NEIGHBOR_DOWN), K_out (Out_close (tcp_fd c))])"
  using okE_eff_trans [OF eff_eout [OF n, of "Out_lde (n_peerid n) NEIGHBOR_DOWN"] session_close_eff [OF _ c]] n
  by (simp add: nbr_fsm_action_def)

lemma fsm_ignored: "rb_find (e_nbrs s) p = Some n \<Longrightarrow> nbr_fsm_lookup (n_state n) ev = None \<Longrightarrow>
  okE (nbr_fsm s p ev) (eff p s n [])"
  by (simp add: nbr_fsm_step eff_refl)

lemma act_simple_eff:
  assumes "rb_find (e_nbrs s) p = Some n"
  shows "okE (nbr_fsm_action f s p NBR_ACT_NOTHING) (eff p s n [])"
    "okE (nbr_fsm_action f s p NBR_ACT_RST_KTIMEOUT) (eff p s (n\<lparr>n_keepalive_timeout := Some (unat (n_keepalive n))\<rparr>) [])"
    "okE (nbr_fsm_action f s p NBR_ACT_RST_KTIMER)
       (eff p s (n\<lparr>n_keepalive_timer := Some (unat (n_keepalive n) div KEEPALIVE_PER_PERIOD)\<rparr>) [])"
  using assms by (auto simp: nbr_fsm_action_def timer_defs eff_iff)

lemma fsm_nbr_ignored:
  "ev \<noteq> NBR_EVT_KEEPALIVE_RCVD \<Longrightarrow> nbr_fsm_lookup (n_state n) ev = None \<Longrightarrow> fsm_nbr n ev = (n, [])"
  by (cases ev; cases "n_state n") (simp_all add: fsm_nbr_def)

lemma fsm_readyD_tcp: "fsm_ready n \<Longrightarrow> n_state n \<noteq> NBR_STA_PRESENT \<Longrightarrow> \<exists>c. n_tcp n = Some c \<and> nbr_fd n = tcp_fd c"
  by (auto simp: fsm_ready_def nbr_fd_def)

lemma entered_same:
  "entered n (n_state n) = n\<lparr>n_init_timeout :=
     (if n_state n = NBR_STA_OPER \<or> n_state n = NBR_STA_PRESENT then None else Some INIT_FSM_TIMEOUT)\<rparr>"
  by (rule nbr.equality) (simp_all add: entered_def)

lemma nbr_fsm_eff:
  assumes n: "rb_find (e_nbrs s) p = Some n" and ok: "fsm_ready n" and ev: "ev \<noteq> NBR_EVT_KEEPALIVE_RCVD"
  shows "okE (nbr_fsm s p ev) (eff p s (fst (fsm_nbr n ev)) (snd (fsm_nbr n ev)))"
proof (cases "nbr_fsm_lookup (n_state n) ev")
  case None
  then show ?thesis using fsm_ignored [OF n None] fsm_nbr_ignored [OF ev None] by simp
next
  case (Some x)
  have af: "n_af n \<noteq> AF_UNSPEC" using ok by (simp add: fsm_ready_def)
  note step = fsm_transition [OF n _ refl]
  show ?thesis
  proof (cases "n_state n = NBR_STA_PRESENT")
    case True
    have same: "n\<lparr>n_state := NBR_STA_PRESENT\<rparr> = n" by (rule nbr.equality) (simp_all add: True)
    from True Some ev consider "ev = NBR_EVT_MATCH_ADJ" | "ev = NBR_EVT_CONNECT_UP" | "ev = NBR_EVT_CLOSE_SESSION"
      by (cases ev) auto
    then show ?thesis
    proof cases
      case 1
      with step [OF _ act_simple_eff(1), of ev "Some NBR_STA_INITIAL"] True show ?thesis
        by (simp add: fsm_nbr_def entered_def)
    next
      case 2
      with step [OF _ act_connect_setup_eff [OF _ af], of ev "Some NBR_STA_INITIAL"] True show ?thesis
        by (simp add: fsm_nbr_def entered_def)
    next
      case 3
      with step [OF _ act_simple_eff(1) [where n = "entered n (n_state n)"], of ev None] True show ?thesis
        using entered_same [of n] by (simp add: fsm_nbr_def)
    qed
  next
    case False
    with ok obtain c where c: "n_tcp n = Some c" and fd: "nbr_fd n = tcp_fd c" using fsm_readyD_tcp by blast
    have ce: "n_tcp (entered n st) = Some c" "n_af (entered n st) \<noteq> AF_UNSPEC" for st using c af by simp_all
    note ent = entered_same [of n]
    from False Some ev consider "ev = NBR_EVT_INIT_SENT" "n_state n = NBR_STA_INITIAL"
      | "ev = NBR_EVT_INIT_RCVD" "n_state n = NBR_STA_INITIAL" | "ev = NBR_EVT_INIT_RCVD" "n_state n = NBR_STA_OPENSENT"
      | "ev = NBR_EVT_PDU_RCVD" | "ev = NBR_EVT_PDU_SENT" | "ev = NBR_EVT_CLOSE_SESSION"
      by (cases ev) (auto split: if_splits)
    then show ?thesis
    proof cases
      case 1
      with step [OF _ act_simple_eff(1), of ev "Some NBR_STA_OPENSENT"] show ?thesis
        by (simp add: fsm_nbr_def entered_def)
    next
      case 2
      with step [OF _ act_passive_init_eff [OF _ ce [of NBR_STA_OPENREC]], of ev "Some NBR_STA_OPENREC"] af c show ?thesis
        by (simp add: fsm_nbr_def fd) (simp add: entered_def)
    next
      case 3
      with step [OF _ act_keepalive_send_eff [OF _ ce(1) [of NBR_STA_OPENREC]], of ev "Some NBR_STA_OPENREC"] c show ?thesis
        by (simp add: fsm_nbr_def fd) (simp add: entered_def)
    next
      case 4
      with step [OF _ act_simple_eff(1) [where n = "entered n (n_state n)"], of ev None] step [OF _ act_simple_eff(2) [where n = "entered n (n_state n)"], of ev None] False ent show ?thesis
        by (cases "n_state n") (simp_all add: fsm_nbr_def)
    next
      case 5
      with step [OF _ act_simple_eff(1) [where n = "entered n (n_state n)"], of ev None] step [OF _ act_simple_eff(3) [where n = "entered n (n_state n)"], of ev None] False ent show ?thesis
        by (cases "n_state n") (simp_all add: fsm_nbr_def)
    next
      case 6
      have "(entered n NBR_STA_PRESENT)\<lparr>n_tcp := None, n_keepalive_timer := None, n_keepalive_timeout := None,
          n_init_timeout := None\<rparr> = closed n"
        by (rule nbr.equality) (simp_all add: entered_def closed_def)
      with 6 step [OF _ act_close_eff [OF _ ce(1) [of NBR_STA_PRESENT]], of ev "Some NBR_STA_PRESENT"] False c show ?thesis
        by (cases "n_state n") (simp_all add: fsm_nbr_def fd)
    qed
  qed
qed

section \<open>Address messages\<close>

lemma ibuf_adds_noerr: "ibuf_adds (b, err) ps = (b', False) \<Longrightarrow> \<not> err \<and> ib_data b' = ib_data b @ concat ps"
  unfolding ibuf_adds_def
  by (induction ps arbitrary: b err) (auto simp: ibuf_add_def split: if_splits)

lemma gen_address_list_total:
  assumes "\<forall>x\<in>set xs. length (ifa_addr x) = 16" "af \<noteq> AF_UNSPEC"
  shows "okE (gen_address_list_tlv n af xs c) (\<lambda>_. True)"
proof -
  have sub: "set (fst (upto_count c xs)) \<subseteq> set xs" by (auto simp: upto_count_def dest: in_set_takeD)
  have "okE (foldE (\<lambda>ps ifa. bindE (rdn (ifa_addr ifa) 0 k) (\<lambda>a. Inr (ps @ [a]))) (fst (upto_count c xs)) [])
      (\<lambda>_. True)" if "k \<le> 16" for k
    by (rule okE_foldE) (use assms(1) sub that in \<open>auto simp: rdn_def\<close>)
  then show ?thesis
    using assms(2) by (cases af) (auto simp: gen_address_list_tlv_def addr_size_of_def okE_bind_iff)
qed

definition addrs_sent :: "u32 \<Rightarrow> ldpe \<Rightarrow> nbr \<Rightarrow> int \<Rightarrow> u16 \<Rightarrow> ldpe \<Rightarrow> bool" where
  "addrs_sent p s n fd type t \<longleftrightarrow> (\<exists>m. eff p s n (replicate m (K_pdu fd type)) t)"

lemma addrs_sent_refl: "rb_find (e_nbrs s) p = Some n \<Longrightarrow> addrs_sent p s n fd type s"
  unfolding addrs_sent_def using eff_refl by (metis replicate_0)

lemma addrs_sent_trans:
  "addrs_sent p s n fd type t \<Longrightarrow> addrs_sent p t n' fd type u \<Longrightarrow> addrs_sent p s n' fd type u"
  unfolding addrs_sent_def by (metis eff_trans replicate_add)

lemma send_address_loop_eff:
  assumes "rb_find (e_nbrs s) p = Some n" "\<forall>x\<in>set xs. length (ifa_addr x) = 16" "af \<noteq> AF_UNSPEC"
  shows "okE (send_address_loop s mx fd type af k xs cnt) (\<lambda>(t, ok). addrs_sent p s n fd type t)"
  using assms
proof (induction s mx fd type af k xs cnt rule: send_address_loop.induct)
  case (1 s mx fd type af k xs cnt)
  show ?case
  proof (cases "xs = []")
    case False
    let ?c = "tlv_addr_count_of mx k cnt"
    let ?n = "(24 + unat (?c * of_nat k :: u32)) mod 65536"
    let ?len = "sub16 (sub16 ?n LDP_HDR_SIZE) LDP_MSG_SIZE"
    obtain tlv where tlv: "gen_address_list_tlv ?len af xs ?c = Inr tlv"
      using gen_address_list_total [OF "1.prems"(2,3), of ?len ?c] by (auto simp: okE_def)
    obtain c' hdr where h: "gen_msg_hdr (e_msgcnt s) type (sub16 ?n LDP_HDR_SIZE) = (c', hdr)" by fastforce
    obtain buf err where b: "ibuf_adds (ibuf_open ?n, False) (gen_ldp_hdr (e_rtr_id s) ?n @ hdr @ tlv) = (buf, err)"
      by fastforce
    show ?thesis
    proof (cases err)
      case True
      then show ?thesis using "1.prems"(1) tlv h b False
        by (subst send_address_loop.simps) (simp add: Let_def addrs_sent_def eff_msgcnt, metis eff_refl replicate_0)
    next
      case no: False
      have ty: "pdu_type (ib_data buf) = type"
        using ibuf_adds_noerr [of "ibuf_open ?n" False _ buf] b no
          pdu_type_gen [of "e_rtr_id s" ?n "e_msgcnt s" type "sub16 ?n LDP_HDR_SIZE" "concat tlv"]
        by (simp add: ibuf_open_def h)
      let ?s = "eout (s\<lparr>e_msgcnt := c'\<rparr>) (Out_pdu fd (ib_data buf))"
      have st: "addrs_sent p s n fd type ?s"
        unfolding addrs_sent_def
        by (rule exI [of _ 1]) (use "1.prems"(1) ty in \<open>auto simp: eff_iff\<close>)
      have sub: "set (snd (upto_count ?c xs)) \<subseteq> set xs" by (auto simp: upto_count_def dest: in_set_dropD)
      have "okE (send_address_loop ?s mx fd type af k (snd (upto_count ?c xs)) (cnt - ?c))
         (\<lambda>(t, ok). addrs_sent p ?s n fd type t)"
        by (rule "1.IH" [OF False refl refl _ refl _ b [symmetric] refl])
          (use no tlv h "1.prems" sub in \<open>auto simp: eout_def\<close>)
      then have "okE (send_address_loop ?s mx fd type af k (snd (upto_count ?c xs)) (cnt - ?c))
         (\<lambda>(t, ok). addrs_sent p s n fd type t)"
        by (rule okE_mono) (auto intro: addrs_sent_trans [OF st])
      then show ?thesis using tlv h b False no
        by (subst send_address_loop.simps) (simp add: Let_def)
    qed
  qed (use "1.prems"(1) in \<open>simp add: addrs_sent_refl send_address_loop.simps\<close>)
qed

lemma fsm_nbr_idle:
  assumes "timers_ok n" "ev = NBR_EVT_PDU_SENT \<or> ev = NBR_EVT_PDU_RCVD"
  shows "fsm_nbr n ev = (n, [])"
proof -
  have [simp]: "n\<lparr>n_init_timeout := n_init_timeout n\<rparr> = n" "n\<lparr>n_keepalive_timer := n_keepalive_timer n\<rparr> = n"
    "n\<lparr>n_keepalive_timeout := n_keepalive_timeout n\<rparr> = n" by (rule nbr.equality; simp)+
  show ?thesis
    using assms by (cases "n_state n") (auto simp: fsm_nbr_def timers_ok_def intro!: nbr.equality)
qed

lemma send_address_eff:
  assumes n: "rb_find (e_nbrs s) p = Some n" and c: "n_tcp n = Some c" and tm: "timers_ok n"
    and xs: "\<forall>x\<in>set xs. length (ifa_addr x) = 16" and af: "af \<noteq> AF_UNSPEC"
    and fsm: "\<And>t. rb_find (e_nbrs t) p = Some n \<Longrightarrow> okE (f t p NBR_EVT_PDU_SENT) (eff p t n [])"
  shows "okE (send_address f s p af xs cnt withdraw)
    (addrs_sent p s n (tcp_fd c) (if withdraw then MSG_TYPE_ADDRWITHDRAW else MSG_TYPE_ADDR))"
proof (cases "xs = []")
  case True
  then show ?thesis by (simp add: send_address_def addrs_sent_refl [OF n])
next
  case False
  let ?ty = "if withdraw then MSG_TYPE_ADDRWITHDRAW else MSG_TYPE_ADDR"
  have size: "okE (addr_size_of af nm) (\<lambda>_. True)" for nm using af by (cases af) (simp_all add: addr_size_of_def)
  have sent: "okE (f t p NBR_EVT_PDU_SENT) (addrs_sent p s n (tcp_fd c) ty)"
    if t: "addrs_sent p s n (tcp_fd c) ty t" for t ty
  proof -
    have "rb_find (e_nbrs t) p = Some n" using t by (auto simp: addrs_sent_def eff_find)
    from fsm [OF this] show ?thesis
      by (rule okE_mono) (metis (no_types, lifting) addrs_sent_def addrs_sent_trans t replicate_0)
  qed
  have "okE (bindE (send_address_loop s mx (tcp_fd c) ?ty af k xs cnt)
      (\<lambda>(s1, ok). if ok then f s1 p NBR_EVT_PDU_SENT else Inr s1)) (addrs_sent p s n (tcp_fd c) ?ty)" for mx k
    by (rule okE_bind [OF send_address_loop_eff [OF n xs af]]) (auto intro: sent)
  then show ?thesis
    using False n c by (auto simp: send_address_def Let_def intro!: okE_bind [OF size])
qed

section \<open>Peer identifiers\<close>

text \<open>
  The tree by peer identifier holds the neighbours that have one, and the counter is at least as
  large as every identifier in use, as long as it has not wrapped around.
\<close>

definition pids_ok :: "ldpe \<Rightarrow> bool" where
  "pids_ok s \<longleftrightarrow>
     (\<forall>k p. rb_find (e_nbrs_by_pid s) k = Some p \<longleftrightarrow>
        k \<noteq> 0 \<and> (\<exists>n. rb_find (e_nbrs s) p = Some n \<and> n_peerid n = k)) \<and>
     (\<forall>p n. rb_find (e_nbrs s) p = Some n \<longrightarrow> n_peerid n \<le> e_peercnt s)"

lemma pids_below: "pids_ok s \<Longrightarrow> rb_find (e_nbrs_by_pid s) k \<noteq> None \<Longrightarrow> k \<le> e_peercnt s"
  by (auto simp: pids_ok_def)

definition erase_pid :: "ldpe \<Rightarrow> ldpe" where
  "erase_pid s = (erase s)\<lparr>e_peercnt := 0, e_nbrs_by_pid := rb_init\<rparr>"

lemma less_plus_one: "(x :: u32) \<noteq> -1 \<Longrightarrow> x < x + 1"
  using unatSuc [of x] max_word_wrap [of x] by (cases "1 + x = 0") (auto simp: word_less_nat_alt add.commute)

lemma nbr_update_peerid_eff:
  assumes n: "rb_find (e_nbrs s) p = Some n" and ok: "pids_ok s" and room: "e_peercnt s \<noteq> -1"
  shows "okE (nbr_update_peerid s p) (\<lambda>t.
    (\<forall>q. rb_find (e_nbrs t) q = (if q = p then Some (n\<lparr>n_peerid := e_peercnt s + 1\<rparr>) else rb_find (e_nbrs s) q)) \<and>
    e_peercnt t = e_peercnt s + 1 \<and> e_out t = e_out s \<and> erase_pid t = erase_pid s \<and>
    (\<forall>k. rb_find (e_nbrs_by_pid t) k =
      (if k = e_peercnt s + 1 then Some p else if k = n_peerid n then None else rb_find (e_nbrs_by_pid s) k)))"
proof -
  have lt: "e_peercnt s < e_peercnt s + 1" using room by (rule less_plus_one)
  have fresh: "rb_find (e_nbrs_by_pid s) (e_peercnt s + 1) = None"
    using pids_below [OF ok, of "e_peercnt s + 1"] lt by fastforce
  have z: "rb_find (e_nbrs_by_pid s) 0 = None" using ok unfolding pids_ok_def by (metis not_None_eq)
  let ?t = "if n_peerid n \<noteq> 0 then rb_remove (e_nbrs_by_pid s) (n_peerid n) else e_nbrs_by_pid s"
  have t: "rb_find ?t k = (if k = n_peerid n then None else rb_find (e_nbrs_by_pid s) k)" for k using z by simp
  obtain t1 old where ins: "rb_insert ?t (e_peercnt s + 1) p = (t1, old)" by fastforce
  have old: "old = None" and t1: "rb_find t1 k = (if k = e_peercnt s + 1 then Some p else rb_find ?t k)" for k
    using rb.snd_ins [of ?t "e_peercnt s + 1" p] rb.find_ins [of ?t "e_peercnt s + 1" p k] fresh
    unfolding ins t by simp_all
  have nxt: "next_peerid ?t (Suc m) (e_peercnt s) = Inr (e_peercnt s + 1)" for m
    unfolding next_peerid.simps t using fresh z by auto
  show ?thesis
    unfolding nbr_update_peerid_def get_nbr_Some [OF n] bindE_simps Let_def nxt ins prod.case old
    using n z by (auto simp: t1 erase_pid_def erase_def upd_n_def)
qed

lemma pids_ok_eff:
  assumes e: "eff p s n' ks t" and n: "rb_find (e_nbrs s) p = Some n" and same: "n_peerid n' = n_peerid n"
    and ok: "pids_ok s"
  shows "pids_ok t"
proof -
  have find: "rb_find (e_nbrs t) q = (if q = p then Some n' else rb_find (e_nbrs s) q)" for q
    using e by (simp add: eff_iff)
  have "(\<exists>m. rb_find (e_nbrs t) q = Some m \<and> n_peerid m = k) \<longleftrightarrow> (\<exists>m. rb_find (e_nbrs s) q = Some m \<and> n_peerid m = k)" for q k
    using n same by (simp add: find)
  then show ?thesis
    using ok erase_fields(6,7) [OF eff_erase [OF e]] n same unfolding pids_ok_def by (simp add: find)
qed

section \<open>A session becomes operational\<close>

text \<open>Addresses as the kernel reports them.\<close>

definition ifa_good :: "if_addr \<Rightarrow> bool" where
  "ifa_good x \<longleftrightarrow> length (ifa_addr x) = 16 \<and> ifa_af x \<noteq> AF_UNSPEC \<and> (ifa_af x = AF_INET \<longrightarrow> unat (ifa_prefixlen x) \<le> 32)"

definition addrs_ok :: "ldpe \<Rightarrow> bool" where
  "addrs_ok s \<longleftrightarrow> (\<forall>x\<in>set (e_addr_list s). ifa_good x)"

definition opened :: "nbr \<Rightarrow> u32 \<Rightarrow> nbr" where
  "opened n pid = n\<lparr>n_state := NBR_STA_OPER, n_init_timeout := None, n_idtimer_cnt := 0, n_peerid := pid,
     n_keepalive_timer := Some (unat (n_keepalive n) div KEEPALIVE_PER_PERIOD),
     n_keepalive_timeout := Some (unat (n_keepalive n))\<rparr>"

definition est :: "u32 \<Rightarrow> ldpe \<Rightarrow> nbr \<Rightarrow> ldpe \<Rightarrow> bool" where
  "est p s n t \<longleftrightarrow>
     (let pid = e_peercnt s + 1 in
      (\<forall>q. rb_find (e_nbrs t) q = (if q = p then Some (opened n pid) else rb_find (e_nbrs s) q)) \<and>
      e_peercnt t = pid \<and> erase_pid t = erase_pid s \<and>
      (\<forall>k. rb_find (e_nbrs_by_pid t) k =
         (if k = pid then Some p else if k = n_peerid n then None else rb_find (e_nbrs_by_pid s) k)) \<and>
      (\<exists>outs m. e_out t = e_out s @ outs \<and>
         map out_kind outs =
           K_out (Out_lde pid (NEIGHBOR_UP (n_id n) (n_v4_enabled n) (n_v6_enabled n))) #
           replicate m (K_pdu (nbr_fd n) MSG_TYPE_ADDR) @ [K_out (Out_lde pid LABEL_MAPPING_FULL)]))"

lemma send_address_all_eff:
  assumes n: "rb_find (e_nbrs s) p = Some n" and c: "n_tcp n = Some c" and tm: "timers_ok n"
    and a: "addrs_ok s" and af: "af \<noteq> AF_UNSPEC"
  shows "okE (send_address_all (nbr_fsm_n (Suc k)) s p af) (addrs_sent p s n (tcp_fd c) MSG_TYPE_ADDR)"
proof -
  have sent: "okE (nbr_fsm_n (Suc k) t p NBR_EVT_PDU_SENT) (eff p t n [])" if "rb_find (e_nbrs t) p = Some n" for t
    using nbr_fsm_1_eff [OF that, of NBR_EVT_PDU_SENT k] fsm_nbr_idle [OF tm] by simp
  show ?thesis
    using send_address_eff [where f = "nbr_fsm_n (Suc k)", OF n c tm _ af sent, of "rev (filter (\<lambda>ifa. ifa_af ifa = af) (e_addr_list s))" _ False] a
    by (simp add: send_address_all_def Let_def addrs_ok_def ifa_good_def)
qed

lemma addrs_sent_find: "addrs_sent p s n fd ty t \<Longrightarrow> rb_find (e_nbrs t) p = Some n"
  by (auto simp: addrs_sent_def eff_find)

lemma addrs_sent_erase: "addrs_sent p s n fd ty t \<Longrightarrow> erase t = erase s"
  by (auto simp: addrs_sent_def eff_erase)

lemma addrs_ok_erase: "erase t = erase s \<Longrightarrow> addrs_ok t = addrs_ok s"
  using erase_fields(5) [of t s] by (simp add: addrs_ok_def)

text \<open>The messages to the new peer, once it has its identifier and its timers are armed.\<close>

lemma est_messages:
  assumes n: "rb_find (e_nbrs s) p = Some n" and c: "n_tcp n = Some c" and tm: "timers_ok n" and a: "addrs_ok s"
  shows "okE (bindE (if n_v4_enabled n then send_address_all (nbr_fsm_n 1) s p AF_INET else Inr s) (\<lambda>s3.
      bindE (if n_v6_enabled n then send_address_all (nbr_fsm_n 1) s3 p AF_INET6 else Inr s3) (\<lambda>s4.
      nbr_send_labelmappings s4 p)))
    (\<lambda>t. \<exists>m. eff p s n (replicate m (K_pdu (tcp_fd c) MSG_TYPE_ADDR) @ [K_out (Out_lde (n_peerid n) LABEL_MAPPING_FULL)]) t)"
proof -
  have one: "okE (if b then send_address_all (nbr_fsm_n 1) u p af else Inr u) (addrs_sent p s n (tcp_fd c) MSG_TYPE_ADDR)"
    if u: "addrs_sent p s n (tcp_fd c) MSG_TYPE_ADDR u" and af: "af \<noteq> AF_UNSPEC" for b u af
  proof -
    have "addrs_ok u" using a addrs_ok_erase addrs_sent_erase [OF u] by blast
    from send_address_all_eff [OF addrs_sent_find [OF u] c tm this af, of 0]
    have "okE (send_address_all (nbr_fsm_n 1) u p af) (addrs_sent p s n (tcp_fd c) MSG_TYPE_ADDR)"
      unfolding One_nat_def by (rule okE_mono) (rule addrs_sent_trans [OF u])
    with u show ?thesis by simp
  qed
  have full: "okE (nbr_send_labelmappings u p)
    (\<lambda>t. \<exists>m. eff p s n (replicate m (K_pdu (tcp_fd c) MSG_TYPE_ADDR) @ [K_out (Out_lde (n_peerid n) LABEL_MAPPING_FULL)]) t)"
    if u: "addrs_sent p s n (tcp_fd c) MSG_TYPE_ADDR u" for u
  proof -
    obtain m where m: "eff p s n (replicate m (K_pdu (tcp_fd c) MSG_TYPE_ADDR)) u" using u by (auto simp: addrs_sent_def)
    from eff_trans [OF m eff_eout [OF eff_find [OF m], of "Out_lde (n_peerid n) LABEL_MAPPING_FULL"]]
    show ?thesis using eff_find [OF m] by (auto simp: nbr_send_labelmappings_def)
  qed
  show ?thesis
    by (rule okE_bind [OF one [OF addrs_sent_refl [OF n]] okE_bind [OF one full]]) simp_all
qed

lemma erase_pid_erase: "erase t = erase s \<Longrightarrow> erase_pid t = erase_pid s"
  by (simp add: erase_pid_def)

lemma addrs_ok_erase_pid: "erase_pid t = erase_pid s \<Longrightarrow> addrs_ok t = addrs_ok s"
  by (cases s; cases t; simp add: erase_pid_def erase_def addrs_ok_def)

lemma nbr_fsm_est:
  assumes n: "rb_find (e_nbrs s) p = Some n" and ok: "fsm_ready n" and st: "n_state n = NBR_STA_OPENREC"
    and pids: "pids_ok s" and room: "e_peercnt s \<noteq> -1" and a: "addrs_ok s"
  shows "okE (nbr_fsm s p NBR_EVT_KEEPALIVE_RCVD) (est p s n)"
proof -
  obtain c where c: "n_tcp n = Some c" and fd: "nbr_fd n = tcp_fd c" using fsm_readyD_tcp [OF ok] st by auto
  let ?n1 = "(entered n NBR_STA_OPER)\<lparr>n_idtimer_cnt := 0\<rparr>" and ?pid = "e_peercnt s + 1"
  let ?s1 = "upd_n (fsm_enter s p NBR_STA_OPER) p (\<lambda>n. n\<lparr>n_idtimer_cnt := 0\<rparr>)"
  have e1: "eff p s ?n1 [] ?s1"
    using eff_trans [OF fsm_enter_eff [OF n] eff_upd_n [OF eff_find [OF fsm_enter_eff [OF n]]]] by simp
  have cnt1: "e_peercnt ?s1 = e_peercnt s" and tree1: "e_nbrs_by_pid ?s1 = e_nbrs_by_pid s"
    using erase_fields(6,7) [OF eff_erase [OF e1]] by simp_all
  have pid1: "n_peerid ?n1 = n_peerid n" by simp
  have pids1: "pids_ok ?s1" by (rule pids_ok_eff [OF e1 n _ pids]) simp
  let ?up = "Out_lde ?pid (NEIGHBOR_UP (n_id n) (n_v4_enabled n) (n_v6_enabled n))"
  have rest: "okE (bindE (get_nbr t p) (\<lambda>m.
      bindE (if n_v4_enabled m then send_address_all (nbr_fsm_n 1) t p AF_INET else Inr t) (\<lambda>s3.
      bindE (if n_v6_enabled m then send_address_all (nbr_fsm_n 1) s3 p AF_INET6 else Inr s3) (\<lambda>s4.
      nbr_send_labelmappings s4 p)))) (est p s n)"
    if t: "t = nbr_start_ktimeout (nbr_start_ktimer (eout u ?up) p) p"
      and u: "\<forall>q. rb_find (e_nbrs u) q = (if q = p then Some (?n1\<lparr>n_peerid := ?pid\<rparr>) else rb_find (e_nbrs ?s1) q)"
        "e_peercnt u = ?pid" "e_out u = e_out ?s1" "erase_pid u = erase_pid ?s1"
        "\<forall>k. rb_find (e_nbrs_by_pid u) k =
          (if k = ?pid then Some p else if k = n_peerid n then None else rb_find (e_nbrs_by_pid s) k)" for t u
  proof -
    have nt: "rb_find (e_nbrs t) p = Some (opened n ?pid)"
      using u(1) by (auto simp: t timer_defs opened_def entered_def)
    have tm: "timers_ok (opened n ?pid)" by (simp add: timers_ok_def opened_def)
    have et: "erase t = erase u" by (simp add: t timer_defs)
    have at: "addrs_ok t"
      using a addrs_ok_erase [OF et] addrs_ok_erase_pid [OF u(4)] addrs_ok_erase [OF eff_erase [OF e1]] by simp
    have fields: "n_v4_enabled (opened n ?pid) = n_v4_enabled n" "n_v6_enabled (opened n ?pid) = n_v6_enabled n"
      "n_tcp (opened n ?pid) = Some c" "n_peerid (opened n ?pid) = ?pid" by (simp_all add: opened_def c)
    have "est p s n v"
      if v: "eff p t (opened n ?pid) (replicate m (K_pdu (tcp_fd c) MSG_TYPE_ADDR) @ [K_out (Out_lde ?pid LABEL_MAPPING_FULL)]) v" for v m
    proof -
      have ev: "erase v = erase u" using eff_erase [OF v] et by simp
      have find: "rb_find (e_nbrs v) q = (if q = p then Some (opened n ?pid) else rb_find (e_nbrs s) q)" for q
        using eff_find [OF v] eff_find_other [OF v] u(1) eff_find_other [OF e1] by (auto simp: t timer_defs)
      have "erase_pid v = erase_pid s"
        using erase_pid_erase [OF ev] u(4) erase_pid_erase [OF eff_erase [OF e1]] by simp
      moreover obtain outs where outs: "e_out v = e_out t @ outs"
        "map out_kind outs = replicate m (K_pdu (tcp_fd c) MSG_TYPE_ADDR) @ [K_out (Out_lde ?pid LABEL_MAPPING_FULL)]"
        using v by (auto simp: eff_iff)
      moreover have "e_out t = e_out s @ [?up]" using u(3) e1 by (simp add: t timer_defs eff_iff)
      ultimately show ?thesis
        using find erase_fields(6,7) [OF ev] u(2,5) unfolding est_def Let_def fd
        by (auto intro!: exI [of _ "?up # outs"] exI [of _ m])
    qed
    then have "okE (bindE (if n_v4_enabled n then send_address_all (nbr_fsm_n 1) t p AF_INET else Inr t) (\<lambda>s3.
      bindE (if n_v6_enabled n then send_address_all (nbr_fsm_n 1) s3 p AF_INET6 else Inr s3) (\<lambda>s4.
      nbr_send_labelmappings s4 p))) (est p s n)"
      using est_messages [OF nt fields(3) tm at] by (auto simp: fields elim!: okE_mono)
    then show ?thesis by (simp add: nt fields)
  qed
  have upd: "okE (nbr_update_peerid ?s1 p) (\<lambda>t.
    (\<forall>q. rb_find (e_nbrs t) q = (if q = p then Some (?n1\<lparr>n_peerid := ?pid\<rparr>) else rb_find (e_nbrs ?s1) q)) \<and>
    e_peercnt t = ?pid \<and> e_out t = e_out ?s1 \<and> erase_pid t = erase_pid ?s1 \<and>
    (\<forall>k. rb_find (e_nbrs_by_pid t) k =
      (if k = ?pid then Some p else if k = n_peerid n then None else rb_find (e_nbrs_by_pid s) k)))"
    by (rule nbr_update_peerid_eff [OF eff_find [OF e1] pids1, unfolded cnt1 tree1 pid1, OF room])
  have "okE (act_session_est (nbr_fsm_n 1) (fsm_enter s p NBR_STA_OPER) p) (est p s n)"
    unfolding act_session_est_def nbr_act_session_operational_def bindE_assoc Let_def
  proof (rule okE_bind [OF upd], elim conjE, goal_cases)
    case (1 u)
    have m: "get_nbr u p = Inr (?n1\<lparr>n_peerid := ?pid\<rparr>)" using 1(1) by (simp add: get_nbr_def)
    have f: "n_id (?n1\<lparr>n_peerid := ?pid\<rparr>) = n_id n" "n_v4_enabled (?n1\<lparr>n_peerid := ?pid\<rparr>) = n_v4_enabled n"
      "n_v6_enabled (?n1\<lparr>n_peerid := ?pid\<rparr>) = n_v6_enabled n" "n_peerid (?n1\<lparr>n_peerid := ?pid\<rparr>) = ?pid"
      by (simp_all add: entered_def)
    show ?case unfolding m bindE_simps f by (rule rest [OF refl 1])
  qed
  then show ?thesis by (simp add: nbr_fsm_step [OF n] st nbr_fsm_action_def)
qed

end
