(* ===== verification/Ldpe_Sess.thy ===== *)
theory Ldpe_Sess
  imports Ldpe_Fsm Lde_Reach
begin

text \<open>
  The invariant of the sessions and the operations that keep it: every neighbour is consistent, the
  tree by peer identifier agrees with the neighbours, and the addresses to announce are well formed.
  \<open>stays s t\<close> says that from \<open>s\<close> to \<open>t\<close> the invariant is kept and no neighbour appears, disappears or
  changes what identifies it; the rest of the engine depends on no more than that.
\<close>

definition nbr_core :: "nbr \<Rightarrow> in_addr \<times> af \<times> ldpd_addr \<times> nat list \<times> bool \<times> bool" where
  "nbr_core n = (n_id n, n_af n, n_raddr n, n_adj_list n, n_v4_enabled n, n_v6_enabled n)"

definition sess_inv :: "ldpe \<Rightarrow> bool" where
  "sess_inv s \<longleftrightarrow>
     (\<forall>p n. rb_find (e_nbrs s) p = Some n \<longrightarrow> nbr_ok n \<and> ntohl (n_id n) = p) \<and> pids_ok s \<and> addrs_ok s"

text \<open>
  What the label decision engine is told: messages it can handle, and every new session under a peer
  identifier that no session had before.
\<close>

definition imsg_good :: "ldpe_imsg \<Rightarrow> bool" where
  "imsg_good m \<longleftrightarrow>
     (case m of
        LABEL_MAPPING m \<Rightarrow> map_ok m
      | LABEL_REQUEST m \<Rightarrow> map_ok m
      | LABEL_RELEASE m \<Rightarrow> map_ok m
      | LABEL_WITHDRAW m \<Rightarrow> map_ok m
      | ADDRESS_ADD la \<Rightarrow> la_af la \<noteq> AF_UNSPEC
      | ADDRESS_DEL la \<Rightarrow> la_af la \<noteq> AF_UNSPEC
      | NOTIFICATION nm \<Rightarrow> map_ok (nm_fec nm)
      | _ \<Rightarrow> True)"

definition ups_of :: "ldpe_out list \<Rightarrow> u32 list" where
  "ups_of outs = concat (map (\<lambda>x. case x of Out_lde pid (NEIGHBOR_UP _ _ _) \<Rightarrow> [pid] | _ \<Rightarrow> []) outs)"

definition outs_ok :: "ldpe \<Rightarrow> bool" where
  "outs_ok s \<longleftrightarrow>
     (\<forall>pid m. Out_lde pid m \<in> set (e_out s) \<longrightarrow> imsg_good m) \<and>
     distinct (ups_of (e_out s)) \<and> (\<forall>pid\<in>set (ups_of (e_out s)). pid \<le> e_peercnt s)"

definition out_quiet :: "ldpe_out \<Rightarrow> bool" where
  "out_quiet x \<longleftrightarrow>
     (case x of
        Out_lde _ (NEIGHBOR_UP _ _ _) \<Rightarrow> False
      | Out_lde _ m \<Rightarrow> imsg_good m
      | _ \<Rightarrow> True)"

definition kind_quiet :: "out_kind \<Rightarrow> bool" where
  "kind_quiet k \<longleftrightarrow> (case k of K_pdu _ _ \<Rightarrow> True | K_out x \<Rightarrow> out_quiet x)"

lemma quiet_simps [simp]:
  "kind_quiet (K_pdu fd ty)" "kind_quiet (K_out x) = out_quiet x"
  "out_quiet (Out_close fd)" "out_quiet (Out_pdu fd b)" "out_quiet (Out_lde pid NEIGHBOR_DOWN)"
  "out_quiet (Out_lde pid LABEL_MAPPING_FULL)" "out_quiet (Out_minttl fd af k)" "out_quiet (Out_ucast_ttl fd af k)"
  "out_quiet (Out_hello fd af dst b)" "out_quiet (Out_lde_none pid m)" "out_quiet (Out_join i af)"
  "out_quiet (Out_leave i af)" "out_quiet (Out_request_sockets af)"
  by (simp_all add: kind_quiet_def out_quiet_def imsg_good_def)

lemma kind_quiet_out: "kind_quiet (out_kind x) = out_quiet x"
  by (cases x) (simp_all add: out_kind_def kind_quiet_def out_quiet_def)

lemma ups_of_simps [simp]:
  "ups_of [] = []" "ups_of (xs @ zs) = ups_of xs @ ups_of zs"
  by (simp_all add: ups_of_def)

lemma ups_of_quiet: "list_all out_quiet outs \<Longrightarrow> ups_of outs = []"
  by (induction outs) (auto simp: ups_of_def out_quiet_def split: ldpe_out.splits ldpe_imsg.splits)

lemma imsg_good_up: "imsg_good (NEIGHBOR_UP a b c)"
  by (simp add: imsg_good_def)

lemma quiet_good: "out_quiet (Out_lde pid m) \<Longrightarrow> imsg_good m"
  by (simp add: out_quiet_def imsg_good_def split: ldpe_imsg.splits)

lemma outs_ok_quiet:
  assumes "outs_ok s" "e_out t = e_out s @ outs" "list_all out_quiet outs" "e_peercnt t = e_peercnt s"
  shows "outs_ok t"
  using assms ups_of_quiet [OF assms(3)] by (auto simp: outs_ok_def list_all_iff intro: quiet_good)

definition stays :: "ldpe \<Rightarrow> ldpe \<Rightarrow> bool" where
  "stays s t \<longleftrightarrow>
     sess_inv t \<and> erase_pid t = erase_pid s \<and> (outs_ok s \<longrightarrow> outs_ok t) \<and>
     (\<forall>q. map_option nbr_core (rb_find (e_nbrs t) q) = map_option nbr_core (rb_find (e_nbrs s) q))"

lemma stays_refl: "sess_inv s \<Longrightarrow> stays s s"
  by (simp add: stays_def)

lemma stays_trans: "stays s t \<Longrightarrow> stays t u \<Longrightarrow> stays s u"
  by (simp add: stays_def)

lemma stays_inv: "stays s t \<Longrightarrow> sess_inv t"
  by (simp add: stays_def)

lemma inv_nbr: "sess_inv s \<Longrightarrow> rb_find (e_nbrs s) p = Some n \<Longrightarrow> nbr_ok n"
  by (simp add: sess_inv_def)

lemma inv_id: "sess_inv s \<Longrightarrow> rb_find (e_nbrs s) p = Some n \<Longrightarrow> ntohl (n_id n) = p"
  by (simp add: sess_inv_def)

lemma inv_pids: "sess_inv s \<Longrightarrow> pids_ok s" and inv_addrs: "sess_inv s \<Longrightarrow> addrs_ok s"
  by (simp_all add: sess_inv_def)

lemma stays_valid: "stays s t \<Longrightarrow> (rb_find (e_nbrs t) q = None) = (rb_find (e_nbrs s) q = None)"
  unfolding stays_def by (metis option.map_disc_iff)

lemma okE_stays_bind:
  "okE m (stays s) \<Longrightarrow> (\<And>t. stays s t \<Longrightarrow> okE (f t) (stays t)) \<Longrightarrow> okE (bindE m f) (stays s)"
  by (rule okE_bind, assumption) (blast intro: okE_mono stays_trans)

lemma okE_stays_trans: "stays s t \<Longrightarrow> okE r (stays t) \<Longrightarrow> okE r (stays s)"
  by (blast intro: okE_mono stays_trans)

lemma okE_stays_foldE:
  assumes "sess_inv s" and "\<And>t x. x \<in> set xs \<Longrightarrow> stays s t \<Longrightarrow> okE (f t x) (stays t)"
  shows "okE (foldE f xs s) (stays s)"
  by (rule okE_foldE) (use assms in \<open>auto intro: stays_refl okE_stays_trans\<close>)

lemma stays_eff:
  assumes inv: "sess_inv s" and n: "rb_find (e_nbrs s) p = Some n" and e: "eff p s n' ks t"
    and ok: "nbr_ok n'" and core: "nbr_core n' = nbr_core n" and pid: "n_peerid n' = n_peerid n"
    and quiet: "list_all kind_quiet ks"
  shows "stays s t"
proof -
  have outs: "outs_ok t" if "outs_ok s"
  proof -
    obtain outs where o: "e_out t = e_out s @ outs" "map out_kind outs = ks" using e by (auto simp: eff_iff)
    have "list_all out_quiet outs" using quiet o(2) by (auto simp: list_all_iff kind_quiet_out)
    with that o(1) show ?thesis by (rule outs_ok_quiet) (rule erase_fields(6) [OF eff_erase [OF e]])
  qed
  have id: "ntohl (n_id n') = p" using core inv_id [OF inv n] by (simp add: nbr_core_def)
  have find: "rb_find (e_nbrs t) q = (if q = p then Some n' else rb_find (e_nbrs s) q)" for q
    using e by (simp add: eff_iff)
  have "sess_inv t"
    unfolding sess_inv_def
    using pids_ok_eff [OF e n pid inv_pids [OF inv]] addrs_ok_erase [OF eff_erase [OF e]] inv_addrs [OF inv]
      ok id inv_nbr [OF inv] inv_id [OF inv] by (simp add: find split: if_splits)
  then show ?thesis
    using erase_pid_erase [OF eff_erase [OF e]] core n outs by (simp add: stays_def find)
qed

section \<open>The state machine\<close>

lemma fsm_nbr_core [simp]:
  "nbr_core (fst (fsm_nbr n ev)) = nbr_core n" "n_peerid (fst (fsm_nbr n ev)) = n_peerid n"
  by (cases ev; cases "n_state n"; simp add: fsm_nbr_def nbr_core_def closed_def)+

lemma fsm_nbr_quiet [simp]: "list_all kind_quiet (snd (fsm_nbr n ev))"
  by (cases ev; cases "n_state n"; simp add: fsm_nbr_def)

lemma fsm_nbr_ok:
  assumes "nbr_ok n" "ev \<noteq> NBR_EVT_MATCH_ADJ" "ev = NBR_EVT_INIT_RCVD \<Longrightarrow> 256 \<le> n_max_pdu_len n"
  shows "nbr_ok (fst (fsm_nbr n ev))"
  using assms
  by (cases ev; cases "n_state n"; simp add: fsm_nbr_def nbr_ok_def timers_ok_def queues_ok_def closed_def)

lemma nbr_fsm_stays:
  assumes inv: "sess_inv s" and n: "rb_find (e_nbrs s) p = Some n"
    and ev: "ev \<noteq> NBR_EVT_KEEPALIVE_RCVD" "ev \<noteq> NBR_EVT_MATCH_ADJ" "ev \<noteq> NBR_EVT_INIT_RCVD"
  shows "okE (nbr_fsm s p ev) (stays s)"
proof -
  have ok: "nbr_ok n" using inv_nbr [OF inv n] .
  show ?thesis
    by (rule okE_mono [OF nbr_fsm_eff [OF n nbr_ok_ready [OF ok] ev(1)]])
      (erule stays_eff [OF inv n _ fsm_nbr_ok [OF ok ev(2)]], simp_all add: ev)
qed

lemma opened_ok:
  "nbr_ok n \<Longrightarrow> n_tcp n \<noteq> None \<Longrightarrow> n_state n = NBR_STA_OPENREC \<Longrightarrow> pid \<noteq> 0 \<Longrightarrow> nbr_ok (opened n pid)"
  by (simp add: nbr_ok_def opened_def timers_ok_def queues_ok_def)

lemma est_stays:
  assumes inv: "sess_inv s" and n: "rb_find (e_nbrs s) p = Some n" and tcp: "n_tcp n \<noteq> None"
    and st: "n_state n = NBR_STA_OPENREC" and room: "e_peercnt s \<noteq> -1" and e: "est p s n t"
  shows "stays s t"
proof -
  let ?pid = "e_peercnt s + 1"
  have lt: "e_peercnt s < ?pid" by (rule less_plus_one [OF room])
  then have pid0: "?pid \<noteq> 0" by (metis word_not_simps(1))
  have find: "rb_find (e_nbrs t) q = (if q = p then Some (opened n ?pid) else rb_find (e_nbrs s) q)" for q
    using e by (simp add: est_def Let_def)
  have tree: "rb_find (e_nbrs_by_pid t) k =
      (if k = ?pid then Some p else if k = n_peerid n then None else rb_find (e_nbrs_by_pid s) k)" for k
    using e by (simp add: est_def Let_def)
  have cnt: "e_peercnt t = ?pid" and er: "erase_pid t = erase_pid s" using e by (simp_all add: est_def Let_def)
  have core: "nbr_core (opened n ?pid) = nbr_core n" "n_peerid (opened n ?pid) = ?pid"
    by (simp_all add: nbr_core_def opened_def)
  have below: "n_peerid m \<le> e_peercnt s" if "rb_find (e_nbrs s) q = Some m" for q m
    using inv_pids [OF inv] that by (simp add: pids_ok_def)
  have inj: "q = p" if "rb_find (e_nbrs s) q = Some m" "n_peerid m = n_peerid n" "n_peerid n \<noteq> 0" for q m
    using inv_pids [OF inv] that n unfolding pids_ok_def by (metis option.inject)
  have "pids_ok t"
    unfolding pids_ok_def cnt
  proof (intro conjI allI impI)
    fix k q
    have no: "n_peerid m \<noteq> ?pid" if "rb_find (e_nbrs s) q = Some m" for m using below [OF that] lt by auto
    have s: "(rb_find (e_nbrs_by_pid s) k = Some q) = (k \<noteq> 0 \<and> (\<exists>m. rb_find (e_nbrs s) q = Some m \<and> n_peerid m = k))"
      using inv_pids [OF inv] by (simp add: pids_ok_def)
    show "(rb_find (e_nbrs_by_pid t) k = Some q) = (k \<noteq> 0 \<and> (\<exists>m. rb_find (e_nbrs t) q = Some m \<and> n_peerid m = k))"
      using s inj n no pid0 by (cases "q = p"; cases "k = ?pid") (auto simp: tree find core)
  next
    fix q m assume "rb_find (e_nbrs t) q = Some m"
    then show "n_peerid m \<le> ?pid" using below lt by (fastforce simp: find core split: if_splits)
  qed
  moreover have "nbr_ok m \<and> ntohl (n_id m) = q" if "rb_find (e_nbrs t) q = Some m" for q m
    using that inv_nbr [OF inv] inv_id [OF inv] opened_ok [OF inv_nbr [OF inv n] tcp st pid0] n
    by (auto simp: find opened_def split: if_splits)
  ultimately have "sess_inv t"
    using addrs_ok_erase_pid [OF er] inv_addrs [OF inv] by (simp add: sess_inv_def)
  moreover have "outs_ok t" if o: "outs_ok s"
  proof -
    obtain outs m where outs: "e_out t = e_out s @ outs"
      "map out_kind outs = K_out (Out_lde ?pid (NEIGHBOR_UP (n_id n) (n_v4_enabled n) (n_v6_enabled n))) #
         replicate m (K_pdu (nbr_fd n) MSG_TYPE_ADDR) @ [K_out (Out_lde ?pid LABEL_MAPPING_FULL)]"
      using e by (auto simp: est_def Let_def)
    then obtain x os where x: "outs = x # os" "out_kind x = K_out (Out_lde ?pid (NEIGHBOR_UP (n_id n) (n_v4_enabled n) (n_v6_enabled n)))"
      "map out_kind os = replicate m (K_pdu (nbr_fd n) MSG_TYPE_ADDR) @ [K_out (Out_lde ?pid LABEL_MAPPING_FULL)]" by auto
    have up: "x = Out_lde ?pid (NEIGHBOR_UP (n_id n) (n_v4_enabled n) (n_v6_enabled n))"
      using x(2) by (cases x) (simp_all add: out_kind_def)
    have "list_all kind_quiet (map out_kind os)" unfolding x(3) by (simp add: list_all_iff)
    then have q: "list_all out_quiet os" by (simp add: list_all_iff kind_quiet_out)
    have ups: "ups_of (e_out t) = ups_of (e_out s) @ [?pid]"
      using outs(1) x(1) up ups_of_quiet [OF q] by (simp add: ups_of_def)
    have "imsg_good m" if "Out_lde pid m \<in> set (e_out t)" for pid m
      using that o q outs(1) x(1) up by (auto simp: outs_ok_def list_all_iff imsg_good_up dest: quiet_good)
    with o lt ups show ?thesis unfolding outs_ok_def cnt by fastforce
  qed
  ultimately show ?thesis using er core n by (simp add: stays_def find)
qed

section \<open>Notifications, shutdown and timers\<close>

lemma fsm_idle_eff:
  assumes n: "rb_find (e_nbrs s) p = Some n" and ok: "nbr_ok n"
  shows "okE (nbr_fsm s p NBR_EVT_PDU_SENT) (eff p s n [])" "okE (nbr_fsm s p NBR_EVT_PDU_RCVD) (eff p s n [])"
  using nbr_fsm_eff [OF n nbr_ok_ready [OF ok], of NBR_EVT_PDU_SENT]
    nbr_fsm_eff [OF n nbr_ok_ready [OF ok], of NBR_EVT_PDU_RCVD] ok fsm_nbr_idle [of n]
  by (simp_all add: nbr_ok_def)

lemma send_notification_nbr_eff:
  assumes n: "rb_find (e_nbrs s) p = Some n" and ok: "nbr_ok n" and st: "n_state n \<noteq> NBR_STA_PRESENT"
  shows "okE (send_notification_nbr nbr_fsm s p status mid ty) (eff p s n [K_pdu (nbr_fd n) MSG_TYPE_NOTIFICATION])"
proof -
  obtain c where c: "n_tcp n = Some c" "nbr_fd n = tcp_fd c" using fsm_readyD_tcp [OF nbr_ok_ready [OF ok] st] by blast
  show ?thesis
    using okE_eff_bind [OF send_notification_eff [OF n] fsm_idle_eff(1) [OF eff_find ok]] n c
    by (simp add: send_notification_nbr_def)
qed

definition shut :: "nbr \<Rightarrow> nbr \<times> out_kind list" where
  "shut n =
     (if n_state n = NBR_STA_PRESENT then (n\<lparr>n_ev_connect := False\<rparr>, [])
      else (closed n, [K_pdu (nbr_fd n) MSG_TYPE_NOTIFICATION, K_out (Out_lde (n_peerid n) NEIGHBOR_DOWN),
                       K_out (Out_close (nbr_fd n))]))"

lemma shut_simps [simp]:
  "nbr_core (fst (shut n)) = nbr_core n" "n_peerid (fst (shut n)) = n_peerid n"
  "n_state (fst (shut n)) = NBR_STA_PRESENT" "list_all kind_quiet (snd (shut n))" "nbr_ok n \<Longrightarrow> nbr_ok (fst (shut n))"
  by (auto simp: shut_def nbr_core_def closed_def nbr_ok_def timers_ok_def queues_ok_def)

lemma session_shutdown_eff:
  assumes n: "rb_find (e_nbrs s) p = Some n" and ok: "nbr_ok n"
  shows "okE (session_shutdown s p status mid ty) (eff p s (fst (shut n)) (snd (shut n)))"
proof (cases "n_state n = NBR_STA_PRESENT")
  case True
  have "n\<lparr>n_ev_connect := False\<rparr> = n" if "\<not> n_ev_connect n" by (rule nbr.equality) (simp_all add: that)
  with True n show ?thesis
    by (auto simp: session_shutdown_def shut_def nbr_pending_connect_def eff_refl intro: eff_upd_n)
next
  case False
  have "okE (bindE (send_notification_nbr nbr_fsm s p status mid ty) (\<lambda>s1. nbr_fsm s1 p NBR_EVT_CLOSE_SESSION))
    (eff p s (fst (fsm_nbr n NBR_EVT_CLOSE_SESSION))
       ([K_pdu (nbr_fd n) MSG_TYPE_NOTIFICATION] @ snd (fsm_nbr n NBR_EVT_CLOSE_SESSION)))"
    by (rule okE_eff_bind [OF send_notification_nbr_eff [OF n ok False]])
      (rule nbr_fsm_eff [OF eff_find nbr_ok_ready [OF ok]], simp_all)
  moreover have "fsm_nbr n NBR_EVT_CLOSE_SESSION =
      (closed n, [K_out (Out_lde (n_peerid n) NEIGHBOR_DOWN), K_out (Out_close (nbr_fd n))])"
    using False by (cases "n_state n") (simp_all add: fsm_nbr_def)
  ultimately show ?thesis using False n by (simp add: session_shutdown_def shut_def)
qed

lemma session_shutdown_stays:
  assumes "sess_inv s" "rb_find (e_nbrs s) p = Some n"
  shows "okE (session_shutdown s p status mid ty) (stays s)"
  by (rule okE_mono [OF session_shutdown_eff [OF assms(2) inv_nbr [OF assms]]])
    (erule stays_eff [OF assms], simp_all add: inv_nbr [OF assms])

lemma nbr_ktimer_stays:
  assumes inv: "sess_inv s" and n: "rb_find (e_nbrs s) p = Some n" and st: "n_state n = NBR_STA_OPER"
  shows "okE (nbr_ktimer s p) (stays s)"
proof -
  have ok: "nbr_ok n" using inv_nbr [OF inv n] .
  then obtain c where c: "n_tcp n = Some c" using st by (auto simp: nbr_ok_def)
  let ?n = "n\<lparr>n_keepalive_timer := Some (unat (n_keepalive n) div KEEPALIVE_PER_PERIOD)\<rparr>"
  have "okE (nbr_ktimer s p) (eff p s ?n ([K_pdu (tcp_fd c) MSG_TYPE_KEEPALIVE] @ []))"
    unfolding nbr_ktimer_def
    by (rule okE_eff_bind [OF send_keepalive_eff [OF n c]])
      (use eff_upd_n [OF eff_find] in \<open>simp add: nbr_start_ktimer_def\<close>)
  then show ?thesis
    by (rule okE_mono) (erule stays_eff [OF inv n], use ok st in \<open>simp_all add: nbr_core_def nbr_ok_def timers_ok_def queues_ok_def\<close>)
qed

lemma nbr_start_idtimer_eff:
  "rb_find (e_nbrs s) p = Some n \<Longrightarrow>
   \<exists>d c. eff p s (n\<lparr>n_initdelay_timer := Some d, n_idtimer_cnt := c\<rparr>) [] (nbr_start_idtimer s p)"
  by (auto simp: nbr_start_idtimer_def eff_iff Let_def split_beta)

section \<open>Connections\<close>

lemma stays_same:
  assumes "sess_inv s" "erase t = erase s" "e_nbrs t = e_nbrs s"
    and "e_out t = e_out s @ outs" "list_all out_quiet outs"
  shows "stays s t"
  using assms(1,3) erase_fields(6,7) [OF assms(2)] addrs_ok_erase [OF assms(2)] erase_pid_erase [OF assms(2)]
    outs_ok_quiet [OF _ assms(4,5)]
  by (simp add: stays_def sess_inv_def pids_ok_def)

lemma stays_eout: "sess_inv s \<Longrightarrow> out_quiet x \<Longrightarrow> stays s (eout s x)"
  by (rule stays_same [where outs = "[x]"]) simp_all

lemma stays_upd_n:
  assumes inv: "sess_inv s"
    and f: "\<And>n. rb_find (e_nbrs s) p = Some n \<Longrightarrow> nbr_ok n \<Longrightarrow> nbr_ok (f n) \<and> nbr_core (f n) = nbr_core n \<and> n_peerid (f n) = n_peerid n"
  shows "stays s (upd_n s p f)"
proof (cases "rb_find (e_nbrs s) p")
  case None
  have "rb_find (e_nbrs (upd_n s p f)) q = rb_find (e_nbrs s) q" for q by (simp add: None)
  with inv show ?thesis
    using addrs_ok_erase [of "upd_n s p f" s] erase_pid_erase [of "upd_n s p f" s]
      outs_ok_quiet [of s "upd_n s p f" "[]"]
    by (simp add: stays_def sess_inv_def pids_ok_def)
next
  case (Some n)
  from f [OF Some inv_nbr [OF inv Some]] show ?thesis
    by (intro stays_eff [OF inv Some eff_upd_n [OF Some]]) simp_all
qed

text \<open>Changes of a neighbour that the invariant does not look at.\<close>

lemma nbr_ok_irrelevant [simp]:
  "nbr_ok (n\<lparr>n_auth := a\<rparr>) = nbr_ok n" "nbr_ok (n\<lparr>n_fd := fd\<rparr>) = nbr_ok n" "nbr_ok (n\<lparr>n_laddr := x\<rparr>) = nbr_ok n"
  "nbr_ok (n\<lparr>n_ev_connect := b\<rparr>) = nbr_ok n" "nbr_ok (n\<lparr>n_flags := fl\<rparr>) = nbr_ok n"
  "nbr_ok (n\<lparr>n_initdelay_timer := tm\<rparr>) = nbr_ok n" "nbr_ok (n\<lparr>n_idtimer_cnt := k\<rparr>) = nbr_ok n"
  "nbr_ok (n\<lparr>n_conf_seqnum := sn\<rparr>) = nbr_ok n"
  by (simp_all add: nbr_ok_def timers_ok_def queues_ok_def split: nbr_state.split)

lemma nbr_core_irrelevant [simp]:
  "nbr_core (n\<lparr>n_auth := a\<rparr>) = nbr_core n" "nbr_core (n\<lparr>n_fd := fd\<rparr>) = nbr_core n"
  "nbr_core (n\<lparr>n_laddr := x\<rparr>) = nbr_core n"
  "nbr_core (n\<lparr>n_ev_connect := b\<rparr>) = nbr_core n" "nbr_core (n\<lparr>n_flags := fl\<rparr>) = nbr_core n"
  "nbr_core (n\<lparr>n_initdelay_timer := tm\<rparr>) = nbr_core n" "nbr_core (n\<lparr>n_idtimer_cnt := k\<rparr>) = nbr_core n"
  "nbr_core (n\<lparr>n_conf_seqnum := sn\<rparr>) = nbr_core n" "nbr_core (n\<lparr>n_mapping_list := ml\<rparr>) = nbr_core n"
  "nbr_core (n\<lparr>n_release_list := ml\<rparr>) = nbr_core n" "nbr_core (n\<lparr>n_withdraw_list := ml\<rparr>) = nbr_core n"
  "nbr_core (n\<lparr>n_max_pdu_len := pl\<rparr>) = nbr_core n" "nbr_core (n\<lparr>n_keepalive := ka\<rparr>) = nbr_core n"
  "nbr_core (n\<lparr>n_tcp := tc\<rparr>) = nbr_core n"
  by (simp_all add: nbr_core_def)

lemma stays_upd_auth: "sess_inv s \<Longrightarrow> stays s (upd_auth s p f)"
  unfolding upd_auth_def by (rule stays_upd_n) simp_all

lemma valid_get: "rb_find (e_nbrs s) p \<noteq> None \<Longrightarrow> okE (get_nbr s p) (\<lambda>n. rb_find (e_nbrs s) p = Some n)"
  by (auto simp: get_nbr_def)

text \<open>Operations that also have a result.\<close>

definition stays2 :: "ldpe \<Rightarrow> ldpe \<times> 'a \<Rightarrow> bool" where
  "stays2 s r = stays s (fst r)"

lemma stays2_simps [simp]: "stays2 s (t, x) = stays s t"
  by (simp add: stays2_def)

lemma okE_stays2_bind:
  "okE m (stays2 s) \<Longrightarrow> (\<And>t x. stays s t \<Longrightarrow> okE (f (t, x)) (stays t)) \<Longrightarrow> okE (bindE m f) (stays s)"
  by (rule okE_bind, assumption) (auto simp: stays2_def intro: okE_stays_trans)

lemma pfkey_establish_stays:
  assumes inv: "sess_inv s" and p: "rb_find (e_nbrs s) p \<noteq> None"
  shows "okE (pfkey_establish y s p np) (stays2 s)"
proof -
  have a: "stays t (upd_auth t p f)" if "stays s t" for t f using stays_upd_auth [OF stays_inv [OF that]] .
  have b: "stays s (upd_auth t p f)" if "stays s t" for t f using stays_trans [OF that a [OF that]] .
  have md5: "okE (pfkey_md5sig_establish y t p) (stays2 s)" if t: "stays s t" for t
  proof -
    obtain n where "rb_find (e_nbrs t) p = Some n" using p stays_valid [OF t, of p] by auto
    then show ?thesis
      using t b [OF t] b [OF b [OF t]]
      by (auto simp: pfkey_md5sig_establish_def Let_def split: option.split)
  qed
  show ?thesis
    using md5 [OF stays_upd_auth [OF inv]] inv
    by (auto simp: pfkey_establish_def stays_refl split: auth_method.split)
qed

lemma pfkey_remove_stays:
  assumes inv: "sess_inv s" and p: "rb_find (e_nbrs s) p \<noteq> None"
  shows "okE (pfkey_remove y s p) (stays2 s)"
proof -
  obtain n where n: "rb_find (e_nbrs s) p = Some n" using p by auto
  have "stays s (upd_auth (upd_auth s p f) p g)" for f g
    by (rule stays_trans [OF stays_upd_auth [OF inv] stays_upd_auth [OF stays_inv [OF stays_upd_auth [OF inv]]]])
  then show ?thesis
    using n inv stays_upd_auth [OF inv]
    by (auto simp: pfkey_remove_def pfkey_md5sig_remove_def Let_def stays_refl)
qed

lemma nbr_gtsm_check_stays:
  assumes inv: "sess_inv s" and n: "rb_find (e_nbrs s) p = Some n"
  shows "okE (nbr_gtsm_check y s fd p nbrp) (stays2 s)"
proof -
  have af: "n_af n \<noteq> AF_UNSPEC" using inv_nbr [OF inv n] by (simp add: nbr_ok_def)
  have en: "okE (nbr_gtsm_enabled s n nbrp) (\<lambda>_. True)"
    using ldp_af_conf_get_total [OF af]
    by (auto simp: nbr_gtsm_enabled_def okE_bind_iff split: option.split)
  have o1: "stays s (eout s x)" if "out_quiet x" for x using that by (rule stays_eout [OF inv])
  have o2: "stays s (eout (eout s x) z)" if "out_quiet x" "out_quiet z" for x z
    by (rule stays_trans [OF o1 stays_eout [OF stays_inv [OF o1]]]) (use that in auto)
  have "okE (nbr_gtsm_setup y s fd (n_af n) nbrp) (stays2 s)"
    using af o1 o2 by (auto simp: nbr_gtsm_setup_def Let_def split: option.split)
  then show ?thesis
    using n af o1 by (auto simp: nbr_gtsm_check_def intro!: okE_bind [OF en] split: af.split)
qed

lemma okE_if: "(b \<Longrightarrow> okE x P) \<Longrightarrow> (\<not> b \<Longrightarrow> okE z P) \<Longrightarrow> okE (if b then x else z) P"
  by simp

text \<open>
  Errors of the system that the code answers by exiting: \<^verbatim>\<open>getsockopt\<close> on an accepted connection and
  the set-up of a security association.
\<close>

definition sys_ok :: "sys \<Rightarrow> bool" where
  "sys_ok y \<longleftrightarrow> (\<forall>fd. sys_get_md5 y fd \<noteq> None) \<and> (\<forall>p d. sys_sa_add y p d \<noteq> None)"

text \<open>The sources of hellos exist, so hellos can be sent.\<close>

definition hello_live :: "ldpe \<Rightarrow> hello_dst \<Rightarrow> bool" where
  "hello_live s d \<longleftrightarrow>
     (case d of
        To_link i af \<Rightarrow> e_ifaces s i \<noteq> None \<and> af \<noteq> AF_UNSPEC
      | To_target t \<Rightarrow> \<exists>tn. e_tnbrs s t = Some tn \<and> t_af tn \<noteq> AF_UNSPEC)"

definition adjs_live :: "ldpe \<Rightarrow> nat list \<Rightarrow> bool" where
  "adjs_live s as \<longleftrightarrow> (\<forall>a\<in>set as. \<exists>adj. e_adjs s a = Some adj \<and> hello_live s (hello_dst_of (a_source adj)))"

lemma send_hello_eff:
  assumes "hello_live s d"
  shows "okE (send_hello s d) (\<lambda>t. erase t = erase s \<and> e_nbrs t = e_nbrs s \<and> (\<exists>outs. e_out t = e_out s @ outs \<and> list_all out_quiet outs))"
proof -
  have "okE (hello_dst_params s d) (\<lambda>(af, _). af \<noteq> AF_UNSPEC)"
  proof (cases d)
    case (To_link i af)
    with assms show ?thesis
      by (cases af) (auto simp: hello_live_def hello_dst_params_def get_iface_def iface_af_get_def ldp_af_global_get_def)
  next
    case (To_target t)
    with assms obtain tn where "e_tnbrs s t = Some tn" "t_af tn \<noteq> AF_UNSPEC" by (auto simp: hello_live_def)
    with To_target show ?thesis
      by (cases "t_af tn") (auto simp: hello_dst_params_def get_tnbr_def ldp_af_global_get_def)
  qed
  then show ?thesis
    unfolding send_hello_def
    by (rule okE_bind) (auto simp: Let_def split_beta)
qed

lemma stays_hello: "sess_inv s \<Longrightarrow> hello_live s d \<Longrightarrow> okE (send_hello s d) (stays s)"
  by (rule okE_mono [OF send_hello_eff]) (auto intro: stays_same)

lemma erase_pid_fields:
  assumes "erase_pid t = erase_pid s"
  shows "e_rtr_id t = e_rtr_id s" "e_ipv4 t = e_ipv4 s" "e_ipv6 t = e_ipv6 s"
    "e_nbrp_list t = e_nbrp_list s" "e_addr_list t = e_addr_list s" "e_nbrs_by_addr t = e_nbrs_by_addr s"
    "e_adjs t = e_adjs s" "e_adj_list t = e_adj_list s" "e_ifaces t = e_ifaces s"
    "e_iface_list t = e_iface_list s" "e_tnbrs t = e_tnbrs s" "e_tnbr_list t = e_tnbr_list s"
    "e_pending_conns t = e_pending_conns s" "e_global4 t = e_global4 s" "e_global6 t = e_global6 s"
  using assms by (cases s; cases t; simp add: erase_pid_def erase_def)+

lemma stays_fields:
  assumes "stays s t"
  shows "e_adjs t = e_adjs s" "e_ifaces t = e_ifaces s" "e_tnbrs t = e_tnbrs s" "e_nbrp_list t = e_nbrp_list s"
    "e_pending_conns t = e_pending_conns s"
  using assms erase_pid_fields [of t s] by (simp_all add: stays_def)

lemma adjs_live_stays: "stays s t \<Longrightarrow> adjs_live t as = adjs_live s as"
  using stays_fields [of s t] by (simp add: adjs_live_def hello_live_def split: hello_dst.split)

lemma hellos_stay:
  assumes "sess_inv s" "adjs_live s as"
  shows "okE (foldE (\<lambda>s a. bindE (get_adj s a) (\<lambda>adj. send_hello s (hello_dst_of (a_source adj)))) as s) (stays s)"
proof (rule okE_stays_foldE [OF assms(1)])
  fix t a assume a: "a \<in> set as" and t: "stays s t"
  obtain adj where "e_adjs t a = Some adj" "hello_live t (hello_dst_of (a_source adj))"
    using a assms(2) adjs_live_stays [OF t] unfolding adjs_live_def by meson
  then show "okE (bindE (get_adj t a) (\<lambda>adj. send_hello t (hello_dst_of (a_source adj)))) (stays t)"
    using stays_hello [OF stays_inv [OF t]] by (simp add: get_adj_def)
qed

lemma nbr_connect_stays:
  assumes inv: "sess_inv s" and n: "rb_find (e_nbrs s) p = Some n" and live: "adjs_live s (n_adj_list n)"
  shows "okE (nbr_connect y s p fd nbrp) (stays s)"
proof -
  have af: "n_af n \<noteq> AF_UNSPEC" using inv_nbr [OF inv n] by (simp add: nbr_ok_def)
  have fin: "okE (case sys_connect y p of
           Connected \<Rightarrow> nbr_fsm t p NBR_EVT_CONNECT_UP
         | In_progress \<Rightarrow> Inr (upd_n t p (\<lambda>n. n\<lparr>n_ev_connect := True\<rparr>))
         | Conn_error \<Rightarrow> Inr (eout t (Out_close fd))) (stays t)" if t: "stays s t" for t
  proof -
    obtain m where m: "rb_find (e_nbrs t) p = Some m" using n stays_valid [OF t, of p] by auto
    show ?thesis
      using nbr_fsm_stays [OF stays_inv [OF t] m, of NBR_EVT_CONNECT_UP] stays_eout [OF stays_inv [OF t]]
        stays_upd_n [OF stays_inv [OF t], of p "\<lambda>n. n\<lparr>n_ev_connect := True\<rparr>"]
      by (cases "sys_connect y p") simp_all
  qed
  have go: "okE (bindE (foldE (\<lambda>s a. bindE (get_adj s a) (\<lambda>adj. send_hello s (hello_dst_of (a_source adj))))
                     (n_adj_list n) t) (\<lambda>s2.
         case sys_connect y p of
           Connected \<Rightarrow> nbr_fsm s2 p NBR_EVT_CONNECT_UP
         | In_progress \<Rightarrow> Inr (upd_n s2 p (\<lambda>n. n\<lparr>n_ev_connect := True\<rparr>))
         | Conn_error \<Rightarrow> Inr (eout s2 (Out_close fd)))) (stays t)" if t: "stays s t" for t
    by (rule okE_stays_bind [OF hellos_stay])
      (use t live adjs_live_stays [OF t] in \<open>auto intro: stays_inv fin stays_trans\<close>)
  have "okE (bindE (nbr_gtsm_check y s fd p nbrp) (\<lambda>(s1, ok).
       if \<not> ok then Inr (eout s1 (Out_close fd))
       else bindE (foldE (\<lambda>s a. bindE (get_adj s a) (\<lambda>adj. send_hello s (hello_dst_of (a_source adj))))
                     (n_adj_list n) s1) (\<lambda>s2.
         case sys_connect y p of
           Connected \<Rightarrow> nbr_fsm s2 p NBR_EVT_CONNECT_UP
         | In_progress \<Rightarrow> Inr (upd_n s2 p (\<lambda>n. n\<lparr>n_ev_connect := True\<rparr>))
         | Conn_error \<Rightarrow> Inr (eout s2 (Out_close fd))))) (stays s)"
    by (rule okE_stays2_bind [OF nbr_gtsm_check_stays [OF inv n]])
      (auto intro: go stays_eout stays_inv)
  with n af show ?thesis by (simp add: nbr_connect_def stays_eout [OF inv])
qed

lemma nbr_establish_connection_stays:
  assumes inv: "sess_inv s" and n: "rb_find (e_nbrs s) p = Some n" and live: "adjs_live s (n_adj_list n)"
  shows "okE (nbr_establish_connection y s p) (stays s)"
proof -
  let ?s = "upd_n s p (\<lambda>n. n\<lparr>n_fd := sys_socket y p\<rparr>)"
  have k: "stays s ?s" by (rule stays_upd_n [OF inv]) simp_all
  have nt: "rb_find (e_nbrs ?s) p = Some (n\<lparr>n_fd := sys_socket y p\<rparr>)" using n by simp
  have "okE (nbr_connect y ?s p (sys_socket y p) nbrp) (stays ?s)" for nbrp
    by (rule nbr_connect_stays [OF stays_inv [OF k] nt]) (use live adjs_live_stays [OF k] in simp)
  then show ?thesis
    using n k stays_trans [OF k stays_eout [OF stays_inv [OF k]]]
    unfolding nbr_establish_connection_def Let_def get_nbr_Some [OF n] bindE_simps
    by (intro okE_if) (auto intro: okE_stays_trans [OF k])
qed

lemma nbr_connect_cb_stays:
  assumes inv: "sess_inv s" and n: "rb_find (e_nbrs s) p = Some n"
  shows "okE (nbr_connect_cb r s p) (stays s)"
proof -
  let ?s = "upd_n s p (\<lambda>n. n\<lparr>n_ev_connect := False\<rparr>)"
  have k: "stays s ?s" by (rule stays_upd_n [OF inv]) simp_all
  have "okE (nbr_fsm ?s p NBR_EVT_CONNECT_UP) (stays s)"
    by (rule okE_stays_trans [OF k nbr_fsm_stays [OF stays_inv [OF k]]]) (use n in auto)
  then show ?thesis
    using n k stays_trans [OF k stays_eout [OF stays_inv [OF k]]]
    by (cases r) (simp_all add: nbr_connect_cb_def)
qed

lemma match_adj_stays:
  assumes inv: "sess_inv s" and n: "rb_find (e_nbrs s) p = Some n"
  shows "okE (nbr_fsm (tcp_new s fd p) p NBR_EVT_MATCH_ADJ) (stays s)"
proof -
  let ?n = "n\<lparr>n_tcp := Some \<lparr>tcp_fd = fd, tcp_rbuf = []\<rparr>\<rparr>"
  have ok: "nbr_ok n" using inv_nbr [OF inv n] .
  have e: "eff p s ?n [] (tcp_new s fd p)" using n unfolding tcp_new_def by (rule eff_upd_n)
  have "fsm_ready ?n" using ok by (simp add: nbr_ok_def fsm_ready_def)
  from okE_eff_trans [OF e nbr_fsm_eff [OF eff_find [OF e] this, of NBR_EVT_MATCH_ADJ]]
  have r: "okE (nbr_fsm (tcp_new s fd p) p NBR_EVT_MATCH_ADJ)
    (eff p s (fst (fsm_nbr ?n NBR_EVT_MATCH_ADJ)) (snd (fsm_nbr ?n NBR_EVT_MATCH_ADJ)))" by simp
  have "nbr_ok (fst (fsm_nbr ?n NBR_EVT_MATCH_ADJ))"
    using ok by (cases "n_state n") (simp_all add: fsm_nbr_def nbr_ok_def timers_ok_def queues_ok_def)
  with r show ?thesis by (auto elim!: okE_mono intro: stays_eff [OF inv n])
qed

lemma session_accept_nbr_stays:
  assumes inv: "sess_inv s" and n: "rb_find (e_nbrs s) p = Some n" and y: "sys_ok y"
  shows "okE (session_accept_nbr y s p fd) (stays s)"
proof -
  have "okE (if \<not> ok then Inr (eout t (Out_close fd))
        else if wants_md5 nbrp \<and> (e_no_pfkey s \<or> e_no_md5sig s) then Inr (eout t (Out_close fd))
        else if wants_md5 nbrp \<and> sys_get_md5 y fd = None then Inl (Fatalx ''getsockopt TCP_MD5SIG'')
        else if wants_md5 nbrp \<and> sys_get_md5 y fd = Some False then Inr (eout t (Out_close fd))
        else nbr_fsm (tcp_new t fd p) p NBR_EVT_MATCH_ADJ) (stays t)" if t: "stays s t" for t ok nbrp
  proof -
    obtain m where m: "rb_find (e_nbrs t) p = Some m" using n stays_valid [OF t, of p] by auto
    show ?thesis
      using match_adj_stays [OF stays_inv [OF t] m] stays_eout [OF stays_inv [OF t]] y
      by (intro okE_if) (auto simp: sys_ok_def simp del: not_None_eq)
  qed
  then show ?thesis
    using n by (auto simp: session_accept_nbr_def Let_def intro!: okE_stays2_bind [OF nbr_gtsm_check_stays [OF inv n]])
qed

end
