(* ===== verification/Ldp_LabelSafe.thy ===== *)
theory Ldp_LabelSafe
  imports Ldp_LabelProps Lde_Reach
begin

text \<open>
  Which received FEC elements the decoder of \<^verbatim>\<open>labelmapping.c\<close> handles, and what the label decision
  engine is passed. \<open>elm_bad\<close> names the elements on which \<^verbatim>\<open>tlv_decode_fec_elm\<close> goes wrong: a
  prefix length above the width of its address family, for which nothing checks, and an interface
  parameter of length 0 that is not an MTU.
\<close>

section \<open>Elements the decoder cannot handle\<close>

function zero_subtlv :: "bytes \<Rightarrow> nat \<Rightarrow> nat \<Rightarrow> bool" where
  "zero_subtlv bs off pw_len =
     (if pw_len < 2 then False
      else let l = unat (bs ! (off + 1)) in
        if l > pw_len then False
        else if bs ! off = SUBTLV_IFMTU then (if l \<noteq> 4 then False else zero_subtlv bs (off + 4) (pw_len - 4))
        else if l = 0 then True
        else zero_subtlv bs (off + l) (pw_len - l))"
  by pat_completeness auto
termination
  by (relation "measure (\<lambda>(bs, off, pw_len). pw_len)") auto

declare zero_subtlv.simps [simp del]

definition elm_bad :: "bytes \<Rightarrow> nat \<Rightarrow> bool" where
  "elm_bad bs len \<longleftrightarrow>
     (if bs ! 0 = MAP_TYPE_PREFIX then
        4 \<le> len \<and> 4 + PREFIX_SIZE (bs ! 3) \<le> len \<and>
        (let family = ntohs (load16 (bs ! 1) (bs ! 2)) in
         family = 1 \<and> unat (bs ! 3) > 32 \<or> family = 2 \<and> unat (bs ! 3) > 128)
      else if bs ! 0 = MAP_TYPE_PWID then
        12 \<le> len \<and> len = 8 + unat (bs ! 3) \<and> zero_subtlv bs 12 (len - 12)
      else False)"

lemma subtlv_loop_fault_iff:
  "off + pw_len \<le> length bs \<Longrightarrow>
   (\<exists>e. subtlv_loop msg bs off pw_len m = Inl e) \<longleftrightarrow> zero_subtlv bs off pw_len"
proof (induction bs off pw_len arbitrary: m rule: zero_subtlv.induct)
  case (1 bs off pw_len)
  show ?case
  proof (cases "2 \<le> pw_len")
    case False
    then show ?thesis
      by (subst subtlv_loop.simps, subst zero_subtlv.simps) (simp add: shutdown_def)
  next
    case True
    with "1.prems" have rd: "rd8 bs off = Inr (bs ! off)" "rd8 bs (off + 1) = Inr (bs ! (off + 1))"
      by (simp_all add: rd8_def)
    let ?l = "unat (bs ! (off + 1))"
    consider "?l > pw_len" | "?l \<le> pw_len" "bs ! off = SUBTLV_IFMTU" "?l \<noteq> 4"
      | "?l = 4" "4 \<le> pw_len" "bs ! off = SUBTLV_IFMTU" | "?l \<le> pw_len" "bs ! off \<noteq> SUBTLV_IFMTU" "?l = 0"
      | "?l \<le> pw_len" "bs ! off \<noteq> SUBTLV_IFMTU" "?l \<noteq> 0"
      by (metis not_le)
    then show ?thesis
    proof cases
      case 3
      with "1.prems" obtain w where "rd16 bs (off + 2) = Inr w" by (simp add: rd16_def)
      with 3 True rd "1.IH"(1) [of ?l] "1.prems" show ?thesis
        by (subst subtlv_loop.simps, subst zero_subtlv.simps) simp
    next
      case 5
      with True rd "1.IH"(2) [of ?l m] "1.prems" show ?thesis
        by (subst subtlv_loop.simps, subst zero_subtlv.simps) auto
    qed (use True rd in \<open>subst subtlv_loop.simps, subst zero_subtlv.simps, simp add: shutdown_def\<close>)+
  qed
qed

lemma PREFIX_SIZE_le: "unat l \<le> 128 \<Longrightarrow> PREFIX_SIZE l \<le> 16" "unat l \<le> 32 \<Longrightarrow> PREFIX_SIZE l \<le> 16"
  by (simp_all add: PREFIX_SIZE_def)

lemma applymask_defined:
  "af = AF_INET \<and> p \<le> 32 \<or> af = AF_INET6 \<and> p \<le> 128 \<Longrightarrow> \<exists>y. ldp_applymask af d x p = Inr y"
  by (auto simp: ldp_applymask_def prefixlen2mask_def prefixlen2mask6_eq)

lemma applymask_too_long:
  "af = AF_INET \<and> p > 32 \<or> af = AF_INET6 \<and> p > 128 \<Longrightarrow> \<exists>e. ldp_applymask af d x p = Inl e"
  by (auto simp: ldp_applymask_def prefixlen2mask_def prefixlen2mask6_overflow)

lemma decode_prefix_fault_iff:
  assumes "len \<le> length bs" "bs ! 0 = MAP_TYPE_PREFIX"
  shows "(\<exists>e. decode_prefix msg bs len m = Inl e) \<longleftrightarrow> elm_bad bs len"
proof (cases "4 \<le> len")
  case False
  then show ?thesis using assms(2) by (simp add: decode_prefix_def elm_bad_def shutdown_def)
next
  case True
  define fam where "fam = ntohs (load16 (bs ! 1) (bs ! 2))"
  have rd: "rd16 bs (Suc 0) = Inr (load16 (bs ! Suc 0) (bs ! 2))" "rd8 bs 3 = Inr (bs ! 3)"
    using True assms(1) by (simp_all add: rd_defs numeral_2_eq_2)
  let ?n = "PREFIX_SIZE (bs ! 3)" and ?l = "unat (bs ! 3)"
  define af where "af = (if fam = 1 then AF_INET else if fam = 2 then AF_INET6 else AF_UNSPEC)"
  have af: "af = AF_INET \<longleftrightarrow> fam = 1" "af = AF_INET6 \<longleftrightarrow> fam = 2"
    by (auto simp: af_def)
  have bad: "elm_bad bs len \<longleftrightarrow> 4 + ?n \<le> len \<and> (af = AF_INET \<and> ?l > 32 \<or> af = AF_INET6 \<and> ?l > 128)"
    using True assms(2) by (simp add: elm_bad_def Let_def af fam_def)
  have dec: "decode_prefix msg bs len m =
      (if af = AF_UNSPEC then notify S_UNSUP_ADDR msg
       else if len < 4 + ?n then shutdown S_BAD_TLV_LEN msg
       else if ?n > 16 then Inl OutOfBounds
       else let buf = take ?n (drop 4 bs) @ replicate (16 - ?n) 0 in
         bindE (ldp_applymask af buf buf ?l) (\<lambda>prefix.
           Inr ([], Some (4 + ?n, m\<lparr>map_prefix_af := af, map_prefixlen := bs ! 3, map_prefix := prefix\<rparr>))))"
  proof (cases "len < 4 + ?n")
    case l: False
    with assms(1) have "min (length bs - 4) ?n = ?n" "4 + ?n \<le> length bs" by simp_all
    with True l show ?thesis
      by (simp add: decode_prefix_def rd Let_def rdn_def af_def fam_def)
  qed (use True in \<open>simp add: decode_prefix_def rd Let_def af_def fam_def\<close>)
  let ?buf = "take ?n (drop 4 bs) @ replicate (16 - ?n) 0"
  show ?thesis
  proof (cases "af = AF_UNSPEC \<or> len < 4 + ?n")
    case True
    then show ?thesis by (auto simp: dec bad shutdown_def notify_def)
  next
    case False
    then consider "af = AF_INET \<and> ?l > 32 \<or> af = AF_INET6 \<and> ?l > 128"
      | "af = AF_INET \<and> ?l \<le> 32 \<or> af = AF_INET6 \<and> ?l \<le> 128"
      by (cases af; cases "?l \<le> 32"; cases "?l \<le> 128") (auto simp: not_le)
    then show ?thesis
    proof cases
      case 1
      then obtain e where "ldp_applymask af ?buf ?buf ?l = Inl e" using applymask_too_long by blast
      with 1 False show ?thesis by (auto simp: dec bad Let_def)
    next
      case 2
      then have "?n \<le> 16" using PREFIX_SIZE_le by blast
      moreover from 2 obtain y where "ldp_applymask af ?buf ?buf ?l = Inr y" using applymask_defined by blast
      ultimately show ?thesis using 2 False by (auto simp: dec bad Let_def)
    qed
  qed
qed

lemma decode_pwid_fault_iff:
  assumes "len \<le> length bs" "bs ! 0 = MAP_TYPE_PWID"
  shows "(\<exists>e. decode_pwid msg bs len m = Inl e) \<longleftrightarrow> elm_bad bs len"
proof (cases "8 \<le> len")
  case False
  then show ?thesis using assms(2) by (simp add: decode_pwid_def elm_bad_def shutdown_def map_types)
next
  case True
  have rd: "rd16 bs (Suc 0) = Inr (load16 (bs ! Suc 0) (bs ! 2))" "rd8 bs 3 = Inr (bs ! 3)"
    using True assms(1) by (simp_all add: rd_defs numeral_2_eq_2)
  obtain g where g: "rd32 bs 4 = Inr g" using True assms(1) rd_in_bounds(3) [of 4 bs] by auto
  let ?l = "unat (bs ! 3)"
  show ?thesis
  proof (cases "len = 8 + ?l \<and> 12 \<le> len")
    case False
    then show ?thesis
      using True assms(2) by (auto simp: decode_pwid_def rd g elm_bad_def shutdown_def map_types Let_def)
  next
    case l: True
    obtain i where i: "rd32 bs 8 = Inr i" using l assms(1) rd_in_bounds(3) [of 8 bs] by auto
    from l have l': "?l = len - 8" "\<not> len - 8 < 4" "len - 8 \<noteq> 0" "8 + (len - 8) = len" "12 \<le> len" "\<not> len < 8" by auto
    with l assms subtlv_loop_fault_iff [of 12 "len - 12" bs] show ?thesis
      by (auto simp: decode_pwid_def rd g i elm_bad_def map_types Let_def)
  qed
qed

lemma fec_elm_fault_iff:
  assumes "0 < len" "len \<le> length bs"
  shows "(\<exists>e. tlv_decode_fec_elm msg bs len m = Inl e) \<longleftrightarrow> elm_bad bs len"
proof -
  have rd: "rd8 bs 0 = Inr (bs ! 0)" using assms by (auto simp: rd8_def)
  consider "bs ! 0 = MAP_TYPE_PREFIX" | "bs ! 0 = MAP_TYPE_PWID" | "bs ! 0 \<noteq> MAP_TYPE_PREFIX" "bs ! 0 \<noteq> MAP_TYPE_PWID"
    by blast
  then show ?thesis
  proof cases
    case 1
    then show ?thesis
      by (simp add: tlv_decode_fec_elm_def rd map_types Let_def decode_prefix_fault_iff [OF assms(2) 1])
  next
    case 2
    then show ?thesis
      by (simp add: tlv_decode_fec_elm_def rd map_types Let_def decode_pwid_fault_iff [OF assms(2) 2])
  next
    case 3
    then show ?thesis
      by (auto simp: tlv_decode_fec_elm_def rd Let_def elm_bad_def shutdown_def notify_def)
  qed
qed

section \<open>What passes the receiver\<close>

text \<open>A class read from the wire: of a known address family, in range and masked.\<close>

definition fec_checked :: "map_msg \<Rightarrow> bool" where
  "fec_checked m \<longleftrightarrow>
     (map_type m = MAP_TYPE_PREFIX \<longrightarrow>
        (map_prefix_af m = AF_INET \<and> unat (map_prefixlen m) \<le> 32 \<or>
         map_prefix_af m = AF_INET6 \<and> unat (map_prefixlen m) \<le> 128) \<and>
        ldp_applymask (map_prefix_af m) (map_prefix m) (map_prefix m) (unat (map_prefixlen m)) = Inr (map_prefix m))"

lemma applymask_idem:
  assumes "length x = 16" "ldp_applymask af x x p = Inr y"
  shows "ldp_applymask af y y p = Inr y"
proof (cases af)
  case AF_INET
  with assms show ?thesis by (auto simp: ldp_applymask_def bindE_Inr_iff and.assoc)
next
  case AF_INET6
  with assms obtain k where k: "prefixlen2mask6 p = Inr k" "y = map2 (AND) x k"
    by (auto simp: ldp_applymask_def bindE_Inr_iff)
  have "map2 (AND) (map2 (AND) xs k) k = map2 (AND) xs k" for xs :: bytes
    by (rule nth_equalityI) (simp_all add: and.assoc)
  with k AF_INET6 show ?thesis by (simp add: ldp_applymask_def)
qed (use assms in \<open>simp add: ldp_applymask_def\<close>)

lemma subtlv_loop_type:
  "subtlv_loop msg bs off pw_len m = Inr (acts, Some (off', m')) \<Longrightarrow> map_type m' = map_type m"
proof (induction msg bs off pw_len m rule: subtlv_loop.induct)
  case (1 msg bs off pw_len m)
  from "1.prems" show ?case
    by (subst (asm) subtlv_loop.simps)
      (auto simp: bindE_Inr_iff shutdown_def dest!: "1.IH"(2) [simplified] "1.IH"(1) [simplified, rotated -1]
        split: if_splits)
qed

lemma decode_prefix_checked:
  assumes "decode_prefix msg bs len m = Inr (acts, Some (tlen, m'))"
  shows "fec_checked m'"
proof -
  from assms obtain family prefixlen src prefix where d:
    "rdn bs 4 (PREFIX_SIZE prefixlen) = Inr src" "PREFIX_SIZE prefixlen \<le> 16"
    "ldp_applymask (map_prefix_af m') (src @ replicate (16 - length src) 0)
       (src @ replicate (16 - length src) 0) (unat prefixlen) = Inr prefix"
    "map_prefix m' = prefix" "map_prefixlen m' = prefixlen" "map_prefix_af m' \<noteq> AF_UNSPEC"
    by (auto simp: decode_prefix_def bindE_Inr_iff shutdown_def notify_def Let_def split: if_splits)
  have "length src = PREFIX_SIZE prefixlen" using d(1) by (auto simp: rdn_def split: if_splits)
  with d(2) have "length (src @ replicate (16 - length src) 0) = 16" by simp
  from applymask_idem [OF this d(3)] have idem:
    "ldp_applymask (map_prefix_af m') (map_prefix m') (map_prefix m') (unat (map_prefixlen m')) = Inr (map_prefix m')"
    using d by simp
  have "map_prefix_af m' = AF_INET \<and> unat prefixlen \<le> 32 \<or> map_prefix_af m' = AF_INET6 \<and> unat prefixlen \<le> 128"
  proof (rule ccontr)
    assume "\<not> ?thesis"
    with d(6) have "map_prefix_af m' = AF_INET \<and> unat prefixlen > 32 \<or> map_prefix_af m' = AF_INET6 \<and> unat prefixlen > 128"
      by (cases "map_prefix_af m'") auto
    then obtain e where "ldp_applymask (map_prefix_af m') (src @ replicate (16 - length src) 0)
       (src @ replicate (16 - length src) 0) (unat prefixlen) = Inl e"
      using applymask_too_long by blast
    with d(3) show False by simp
  qed
  with idem d(5) show ?thesis by (simp add: fec_checked_def)
qed

lemma decoded_fec_checked:
  assumes "tlv_decode_fec_elm msg bs len m = Inr (acts, Some (tlen, m'))"
  shows "fec_checked m'"
proof -
  from assms obtain t where t: "rd8 bs 0 = Inr t" by (auto simp: tlv_decode_fec_elm_def bindE_Inr_iff)
  show ?thesis
  proof (cases "t = MAP_TYPE_PREFIX")
    case True
    with assms t show ?thesis
      by (auto simp: tlv_decode_fec_elm_def map_types Let_def intro: decode_prefix_checked)
  next
    case False
    with assms t have "map_type m' \<noteq> MAP_TYPE_PREFIX"
      by (auto simp: tlv_decode_fec_elm_def decode_pwid_def Let_def bindE_Inr_iff shutdown_def notify_def
          map_types dest!: subtlv_loop_type split: if_splits)
    then show ?thesis by (simp add: fec_checked_def)
  qed
qed

text \<open>The decoders themselves pass nothing to the label decision engine.\<close>

definition plain :: "ldpe_act \<Rightarrow> bool" where
  "plain a \<longleftrightarrow> (case a of Compose_lde _ \<Rightarrow> False | Compose_none _ \<Rightarrow> False | _ \<Rightarrow> True)"

lemma plain_simps [simp]: "plain (Session_shutdown a b c)" "plain (Send_notification_nbr a b c)"
  by (simp_all add: plain_def)

definition plainD :: "'a dec \<Rightarrow> bool" where
  "plainD d \<longleftrightarrow> (\<forall>acts r. d = Inr (acts, r) \<longrightarrow> list_all plain acts)"

lemma plainD_intros:
  "plainD (Inl e)"
  "plainD (Inr ([], r))"
  "plainD (shutdown st msg)"
  "plainD (notify st msg)"
  "(\<And>x. m = Inr x \<Longrightarrow> plainD (f x)) \<Longrightarrow> plainD (bindE m f)"
  "(b \<Longrightarrow> plainD d1) \<Longrightarrow> (\<not> b \<Longrightarrow> plainD d2) \<Longrightarrow> plainD (if b then d1 else d2)"
  "plainD (g y) \<Longrightarrow> plainD (Let y g)"
  by (auto simp: plainD_def shutdown_def notify_def bindE_Inr_iff)

lemma subtlv_loop_plain: "plainD (subtlv_loop msg bs off pw_len m)"
proof (induction msg bs off pw_len m rule: subtlv_loop.induct)
  case (1 msg bs off pw_len m)
  show ?case
    by (subst subtlv_loop.simps) (auto intro!: plainD_intros(1-6) "1.IH" [simplified])
qed

lemma decoded_plain: "plainD (tlv_decode_fec_elm msg bs len m)"
  unfolding tlv_decode_fec_elm_def decode_prefix_def decode_pwid_def
  by (intro plainD_intros subtlv_loop_plain)

lemma fec_elm_ok:
  assumes "0 < len" "len \<le> length bs" "\<not> elm_bad bs len"
  shows "okD (tlv_decode_fec_elm msg bs len m) plain (\<lambda>(tlen, m'). 0 < tlen \<and> tlen \<le> len \<and> fec_checked m')"
proof -
  from assms fec_elm_fault_iff obtain acts r where d: "tlv_decode_fec_elm msg bs len m = Inr (acts, r)"
    by (metis obj_sumE surj_pair)
  then show ?thesis
    using decoded_plain [of msg bs len m, unfolded plainD_def] decoded_fec_checked [of msg bs len m] tlv_decode_fec_elm_tlen [of msg bs len m]
    by (cases r) auto
qed

text \<open>
  The list of FEC elements of a message, as the decoder walks it; \<open>fecs_bad\<close> holds when it meets an
  element it cannot handle, or an empty list, whose first byte it reads beyond the TLV.
\<close>

definition elm_tlen :: "bytes \<Rightarrow> nat \<Rightarrow> nat" where
  "elm_tlen bs n = (if bs ! 0 = MAP_TYPE_PREFIX then 4 + PREFIX_SIZE (bs ! 3) else n)"

function fecs_bad :: "bytes \<Rightarrow> nat \<Rightarrow> bool" where
  "fecs_bad bs n =
     (if n = 0 then True else if elm_bad bs n then True
      else if elm_tlen bs n < n then fecs_bad (drop (elm_tlen bs n) bs) (n - elm_tlen bs n) else False)"
  by pat_completeness auto
termination
  by (relation "measure (\<lambda>(bs, n). n)") (auto simp: elm_tlen_def split: if_splits)

declare fecs_bad.simps [simp del]

lemma decode_pwid_tlen:
  "decode_pwid msg bs len m = Inr (acts, Some (tlen, m')) \<Longrightarrow> tlen = len"
  by (auto simp: decode_pwid_def shutdown_def Let_def bindE_Inr_iff dest!: subtlv_loop_off split: if_splits)

lemma decoded_tlen:
  assumes "tlv_decode_fec_elm msg bs len m = Inr (acts, Some (tlen, m'))" "0 < len" "len \<le> length bs"
  shows "tlen = elm_tlen bs len"
proof -
  have rd: "rd8 bs 0 = Inr (bs ! 0)" using assms by (auto simp: rd8_def)
  show ?thesis
  proof (cases "bs ! 0 = MAP_TYPE_PREFIX")
    case True
    with assms(1) have "decode_prefix msg bs len (m\<lparr>map_type := MAP_TYPE_PREFIX\<rparr>) = Inr (acts, Some (tlen, m'))"
      by (simp add: tlv_decode_fec_elm_def rd map_types Let_def)
    then show ?thesis
      using True by (auto simp: decode_prefix_def bindE_Inr_iff shutdown_def notify_def Let_def elm_tlen_def rd8_def split: if_splits)
  next
    case False
    with assms(1) show ?thesis
      by (auto simp: tlv_decode_fec_elm_def rd Let_def elm_tlen_def shutdown_def notify_def
          dest!: decode_pwid_tlen split: if_splits)
  qed
qed

lemma okD_result:
  "okD d A (\<lambda>(x, y). P x y) \<Longrightarrow> (\<And>acts x y. d = Inr (acts, Some (x, y)) \<Longrightarrow> Q x y) \<Longrightarrow>
   okD d A (\<lambda>(x, y). P x y \<and> Q x y)"
  by (force simp: okD_def pred_option_def)

lemma okD_bindD_eq:
  "okD d A Q \<Longrightarrow> (\<And>acts x. d = Inr (acts, Some x) \<Longrightarrow> Q x \<Longrightarrow> okD (f x) A P) \<Longrightarrow> okD (bindD d f) A P"
  by (fastforce simp: okD_def bindD_def split: option.splits)

lemma okD_mono:
  "okD d A P \<Longrightarrow> (\<And>a. A a \<Longrightarrow> B a) \<Longrightarrow> (\<And>x. P x \<Longrightarrow> Q x) \<Longrightarrow> okD d B Q"
  by (auto simp: okD_def list_all_iff elim!: option.pred_mono_strong)

lemma fec_loop_ok:
  "\<not> fecs_bad bs feclen \<Longrightarrow> feclen \<le> len \<Longrightarrow> len \<le> length bs \<Longrightarrow> list_all fec_checked mh \<Longrightarrow>
   okD (fec_loop msg type bs len feclen mh) plain
     (\<lambda>(bs', len', mh'). len' \<le> length bs' \<and> list_all fec_checked mh')"
proof (induction bs feclen arbitrary: len mh rule: fecs_bad.induct)
  case (1 bs n)
  have n: "n \<noteq> 0" "\<not> elm_bad bs n"
    and rest: "elm_tlen bs n < n \<Longrightarrow> \<not> fecs_bad (drop (elm_tlen bs n) bs) (n - elm_tlen bs n)"
    using "1.prems"(1) by (subst (asm) fecs_bad.simps, simp split: if_splits)+
  let ?d = "tlv_decode_fec_elm msg bs n (zero_map\<lparr>map_msg_id := msg_id msg\<rparr>)"
  have ok: "okD ?d plain (\<lambda>(tlen, m'). 0 < tlen \<and> tlen \<le> n \<and> fec_checked m')"
    using fec_elm_ok n "1.prems" by simp
  have ok': "okD ?d plain (\<lambda>(tlen, m'). (0 < tlen \<and> tlen \<le> n \<and> fec_checked m') \<and> tlen = elm_tlen bs n)"
    using n(1) "1.prems" by (intro okD_result [OF ok]) (auto dest!: decoded_tlen)
  show ?case
  proof (subst fec_loop.simps, rule okD_bindD [OF ok'], clarify)
    fix tlen m
    assume m: "0 < elm_tlen bs n" "elm_tlen bs n \<le> n" "fec_checked m"
    have "okD (fec_loop msg type (drop (elm_tlen bs n) bs) (len - elm_tlen bs n) (n - elm_tlen bs n) (mh @ [m])) plain
        (\<lambda>(bs', len', mh'). len' \<le> length bs' \<and> list_all fec_checked mh')" if "elm_tlen bs n < n"
      using "1.IH" [OF n that rest [OF that], of "len - elm_tlen bs n" "mh @ [m]"] "1.prems" m that by simp
    with m "1.prems" show "okD (if map_type m = MAP_TYPE_PWID \<and> \<not> has_flag (map_flags m) F_MAP_PW_ID \<and>
          type \<noteq> MSG_TYPE_LABELWITHDRAW \<and> type \<noteq> MSG_TYPE_LABELRELEASE
       then notify S_MISS_MSG msg
       else if map_type m = MAP_TYPE_WILDCARD \<and>
               (type = MSG_TYPE_LABELMAPPING \<or> type = MSG_TYPE_LABELREQUEST \<or> type = MSG_TYPE_LABELABORTREQ)
       then shutdown S_UNKNOWN_FEC msg
       else if type \<noteq> MSG_TYPE_LABELMAPPING \<and> elm_tlen bs n \<noteq> n
       then shutdown S_BAD_TLV_VAL msg
       else if n - elm_tlen bs n > 0
       then fec_loop msg type (drop (elm_tlen bs n) bs) (len - elm_tlen bs n) (n - elm_tlen bs n) (mh @ [m])
       else Inr ([], Some (drop (elm_tlen bs n) bs, len - elm_tlen bs n, mh @ [m]))) plain
        (\<lambda>(bs', len', mh'). len' \<le> length bs' \<and> list_all fec_checked mh')"
      by auto
  qed
qed

lemma opt_param_ok:
  assumes "tlv_len \<le> length bs"
  shows "okD (opt_param msg type t tlv_len bs op) plain
    (\<lambda>op'. type = MSG_TYPE_LABELMAPPING \<longrightarrow> op_label op' = op_label op)"
  using assms by (auto simp: opt_param_def rd32_def msg_types)

lemma opt_loop_ok:
  "len \<le> length bs \<Longrightarrow>
   okD (opt_loop msg type bs len op) plain (\<lambda>op'. type = MSG_TYPE_LABELMAPPING \<longrightarrow> op_label op' = op_label op)"
proof (induction msg type bs len op rule: opt_loop.induct)
  case (1 msg type bs len op)
  show ?case
  proof (cases "4 \<le> len")
    case False
    then show ?thesis by (subst opt_loop.simps) simp
  next
    case True
    with "1.prems" obtain t l where rd: "rd16 bs 0 = Inr t" "rd16 bs 2 = Inr l"
      using rd_in_bounds(2) [of 0 bs] rd_in_bounds(2) [of 2 bs] by auto
    let ?l = "unat (ntohs l)"
    show ?thesis
    proof (cases "?l + 4 > len")
      case l: True
      then show ?thesis using True rd by (subst opt_loop.simps) simp
    next
      case l: False
      have step: "opt_loop msg type bs len op =
          bindD (opt_param msg type (ntohs t) ?l (drop 4 bs) op) (\<lambda>op1.
            opt_loop msg type (drop (4 + ?l) bs) (len - 4 - ?l) op1)"
        by (subst opt_loop.simps) (use True rd l in \<open>simp add: Let_def\<close>)
      have "okD (opt_param msg type (ntohs t) ?l (drop 4 bs) op) plain
          (\<lambda>op'. type = MSG_TYPE_LABELMAPPING \<longrightarrow> op_label op' = op_label op)"
        using l "1.prems" by (intro opt_param_ok) simp
      then show ?thesis unfolding step
      proof (rule okD_bindD_eq)
        fix acts and op1 :: opt_params
        assume eq: "opt_param msg type (ntohs t) ?l (drop 4 bs) op = Inr (acts, Some op1)"
          and op1: "type = MSG_TYPE_LABELMAPPING \<longrightarrow> op_label op1 = op_label op"
        have "okD (opt_loop msg type (drop (4 + ?l) bs) (len - 4 - ?l) op1) plain
            (\<lambda>op'. type = MSG_TYPE_LABELMAPPING \<longrightarrow> op_label op' = op_label op1)"
          using True rd l "1.prems" eq by (intro "1.IH" [of t l]) auto
        with op1 show "okD (opt_loop msg type (drop (4 + ?l) bs) (len - 4 - ?l) op1) plain
            (\<lambda>op'. type = MSG_TYPE_LABELMAPPING \<longrightarrow> op_label op' = op_label op)"
          by (auto elim: okD_mono)
      qed
    qed
  qed
qed

lemma tlv_decode_label_ok:
  assumes "len \<le> length bs"
  shows "okD (tlv_decode_label msg bs len) plain (\<lambda>(n, label). n = 8 \<and> n \<le> len \<and> label \<le> MPLS_LABEL_MAX)"
proof (cases "len < 8")
  case True
  then show ?thesis by (simp add: tlv_decode_label_def)
next
  case False
  with assms obtain t l lab where "rd16 bs 0 = Inr t" "rd16 bs 2 = Inr l" "rd32 bs 4 = Inr lab"
    using rd_in_bounds(2) [of 0 bs] rd_in_bounds(2) [of 2 bs] rd_in_bounds(3) [of 4 bs] by auto
  with False show ?thesis by (auto simp: tlv_decode_label_def Let_def)
qed

text \<open>What the label decision engine is passed for a message of \<open>type\<close>.\<close>

definition passed_ok :: "bool \<Rightarrow> bool \<Rightarrow> u16 \<Rightarrow> map_msg \<Rightarrow> bool" where
  "passed_ok v4_enabled v6_enabled type m \<longleftrightarrow>
     fec_checked m \<and>
     (map_type m = MAP_TYPE_PREFIX \<longrightarrow>
        (if map_prefix_af m = AF_INET then v4_enabled \<and> map_label m \<noteq> MPLS_LABEL_IPV6NULL
         else v6_enabled \<and> map_label m \<noteq> MPLS_LABEL_IPV4NULL)) \<and>
     (map_type m = MAP_TYPE_PWID \<longrightarrow> map_label m > MPLS_LABEL_RESERVED_MAX) \<and>
     (type = MSG_TYPE_LABELMAPPING \<longrightarrow> map_label m \<le> MPLS_LABEL_MAX)"

definition act_ok :: "bool \<Rightarrow> bool \<Rightarrow> u16 \<Rightarrow> ldpe_act \<Rightarrow> bool" where
  "act_ok v4_enabled v6_enabled type a \<longleftrightarrow>
     plain a \<or> (\<exists>m. a = label_imsg type m \<and> passed_ok v4_enabled v6_enabled type m)"

lemma plain_act_ok: "plain a \<Longrightarrow> act_ok v4_enabled v6_enabled type a"
  by (simp add: act_ok_def)

lemma compose_ok:
  assumes "passed_ok v4_enabled v6_enabled type m" "okD rest (act_ok v4_enabled v6_enabled type) (\<lambda>_. True)"
  shows "okD (bindD (Inr ([label_imsg type m], Some ())) (\<lambda>_. rest)) (act_ok v4_enabled v6_enabled type) (\<lambda>_. True)"
  using assms(1) by (intro okD_bindD [where Q = "\<lambda>_. True"] assms(2)) (auto simp: act_ok_def)

lemma notify_lde_ok:
  "list_all fec_checked mh \<Longrightarrow> type = MSG_TYPE_LABELMAPPING \<longrightarrow> op_label op \<le> MPLS_LABEL_MAX \<Longrightarrow>
   okD (notify_lde_loop msg type v4_enabled v6_enabled op mh) (act_ok v4_enabled v6_enabled type) (\<lambda>_. True)"
proof (induction mh)
  case Nil
  then show ?case by simp
next
  case (Cons me mh)
  then have rest: "okD (notify_lde_loop msg type v4_enabled v6_enabled op mh) (act_ok v4_enabled v6_enabled type) (\<lambda>_. True)"
    and me: "fec_checked me" by simp_all
  have sh: "okD (shutdown st msg :: unit dec) (act_ok v4_enabled v6_enabled type) (\<lambda>_. True)" for st
    by (simp add: plain_act_ok)
  consider (v4) "map_type me = MAP_TYPE_PREFIX" "map_prefix_af me = AF_INET"
    | (v6) "map_type me = MAP_TYPE_PREFIX" "map_prefix_af me = AF_INET6"
    | (pw) "map_type me = MAP_TYPE_PWID" | (other) "map_type me \<noteq> MAP_TYPE_PREFIX" "map_type me \<noteq> MAP_TYPE_PWID"
    using me by (auto simp: fec_checked_def)
  then show ?case
  proof cases
    case v4
    with me Cons.prems rest sh show ?thesis
      by (auto simp: Let_def map_types fec_checked_def passed_ok_def simp del: bindD_simps(4)
          intro!: compose_ok)
  next
    case v6
    with me Cons.prems rest sh show ?thesis
      by (auto simp: Let_def map_types fec_checked_def passed_ok_def simp del: bindD_simps(4)
          intro!: compose_ok)
  next
    case pw
    with me Cons.prems rest sh show ?thesis
      by (auto simp: Let_def map_types fec_checked_def passed_ok_def simp del: bindD_simps(4)
          intro!: compose_ok)
  next
    case other
    with me Cons.prems rest sh show ?thesis
      by (auto simp: Let_def map_types fec_checked_def passed_ok_def simp del: bindD_simps(4)
          intro!: compose_ok)
  qed
qed

lemma recv_labelmessage_ok:
  assumes len: "8 \<le> len" "len \<le> length bs" "len < 65536"
    and fec: "12 \<le> len \<Longrightarrow> \<not> fecs_bad (drop 12 bs) (unat (ntohs (load16 (bs ! 10) (bs ! 11))))"
  shows "okD (recv_labelmessage v4_enabled v6_enabled bs len type)
    (act_ok v4_enabled v6_enabled type) (\<lambda>_. True)"
proof -
  have len8: "sub16 len 8 = len - 8" using len by (intro sub16_eq) auto
  from len(1,2) obtain msg where msg: "rd_msg bs = Inr msg"
    using rd_in_bounds(2) [of 0 bs] rd_in_bounds(2) [of 2 bs] rd_in_bounds(3) [of 4 bs]
    by (auto simp: rd_msg_def)
  note plain_mono = okD_mono [OF _ plain_act_ok]
  show ?thesis
  proof (cases "12 \<le> len")
    case False
    with len(1) have "len - 8 < 4" by simp
    then show ?thesis
      by (simp add: recv_labelmessage_def msg len8 Let_def plain_act_ok)
  next
    case True
    with len(2) have bs12: "12 \<le> length bs" by simp
    then obtain t where t: "rd16 (drop 8 bs) 0 = Inr t" using rd_in_bounds(2) [of 0 "drop 8 bs"] by force
    let ?l = "load16 (bs ! 10) (bs ! 11)"
    have l: "rd16 (drop 8 bs) 2 = Inr ?l" using bs12 by (simp add: rd16_def)
    let ?op = "\<lambda>label. \<lparr>op_label = label, op_reqid = 0, op_pw_status = 0, op_flags = 0\<rparr>"
    have "okD (bindD (fec_loop msg type (drop 4 (drop 8 bs)) (len - 8 - 4) (unat (ntohs ?l)) []) (\<lambda>(bs1, len1, mh).
         bindD (if type = MSG_TYPE_LABELMAPPING then tlv_decode_label msg bs1 len1
                else Inr ([], Some (0, NO_LABEL))) (\<lambda>(lbllen, label).
         bindD (opt_loop msg type (drop lbllen bs1) (len1 - lbllen) (?op label)) (\<lambda>op.
         notify_lde_loop msg type v4_enabled v6_enabled op mh))))
       (act_ok v4_enabled v6_enabled type) (\<lambda>_. True)"
      if "unat (ntohs ?l) \<le> len - 8 - 4"
    proof (rule okD_bindD [OF plain_mono [OF fec_loop_ok]])
      show "\<not> fecs_bad (drop 4 (drop 8 bs)) (unat (ntohs ?l))" using fec [OF True] by simp
      fix x :: "bytes \<times> nat \<times> map_msg list"
      assume "case x of (bs', len', mh') \<Rightarrow> len' \<le> length bs' \<and> list_all fec_checked mh'"
      then obtain bs1 len1 mh where x: "x = (bs1, len1, mh)" "len1 \<le> length bs1" "list_all fec_checked mh"
        by (cases x) auto
      have lbl: "okD (if type = MSG_TYPE_LABELMAPPING then tlv_decode_label msg bs1 len1
          else Inr ([], Some (0, NO_LABEL))) plain
        (\<lambda>(n, label). n \<le> len1 \<and> (type = MSG_TYPE_LABELMAPPING \<longrightarrow> label \<le> MPLS_LABEL_MAX))"
        using tlv_decode_label_ok [OF x(2), of msg] by (auto elim: okD_mono)
      show "okD (case x of (bs1, len1, mh) \<Rightarrow>
         bindD (if type = MSG_TYPE_LABELMAPPING then tlv_decode_label msg bs1 len1
                else Inr ([], Some (0, NO_LABEL))) (\<lambda>(lbllen, label).
         bindD (opt_loop msg type (drop lbllen bs1) (len1 - lbllen) (?op label)) (\<lambda>op.
         notify_lde_loop msg type v4_enabled v6_enabled op mh)))
       (act_ok v4_enabled v6_enabled type) (\<lambda>_. True)"
        unfolding x(1) prod.case
      proof (rule okD_bindD [OF plain_mono [OF lbl]], simp_all, clarify)
        fix n label
        assume n: "n \<le> len1" "type = MSG_TYPE_LABELMAPPING \<longrightarrow> label \<le> MPLS_LABEL_MAX"
        have "okD (opt_loop msg type (drop n bs1) (len1 - n) (?op label)) plain
          (\<lambda>op'. type = MSG_TYPE_LABELMAPPING \<longrightarrow> op_label op' = label)"
          using opt_loop_ok [of "len1 - n" "drop n bs1" msg type "?op label"] x(2) n(1) by simp
        then show "okD (bindD (opt_loop msg type (drop n bs1) (len1 - n) (?op label)) (\<lambda>op.
             notify_lde_loop msg type v4_enabled v6_enabled op mh))
           (act_ok v4_enabled v6_enabled type) (\<lambda>_. True)"
          by (rule okD_bindD [OF plain_mono]) (use n(2) x(3) in \<open>auto intro: notify_lde_ok\<close>)
      qed
    qed (use that len(2) in simp_all)
    with True show ?thesis
      by (simp add: recv_labelmessage_def msg len8 t l Let_def plain_act_ok)
  qed
qed

text \<open>
  C15: a label message whose FEC elements the decoder can handle is processed without a fault, and
  every message that the label decision engine gets for it carries a class of a known address
  family with a prefix length in range and no bits behind it, an address family enabled on the
  session, and a label that fits the class.
\<close>

theorem recv_labelmessage_safe:
  assumes "8 \<le> length bs" "length bs < 65536"
    and "\<not> fecs_bad (drop 12 bs) (unat (ntohs (load16 (bs ! 10) (bs ! 11))))"
  shows "okD (recv_labelmessage v4_enabled v6_enabled bs (length bs) type)
    (act_ok v4_enabled v6_enabled type) (\<lambda>_. True)"
  using assms by (intro recv_labelmessage_ok) simp_all

definition demo_mapping :: bytes where
  "demo_mapping = [4, 0, 0, 23, 0, 0, 0, 7,  1, 0, 0, 7, 2, 0, 1, 24, 10, 0, 1] @ [2, 0, 0, 4, 0, 0, 0, 17]"

lemma demo_mapping_ok: "\<not> fecs_bad (drop 12 demo_mapping) (unat (ntohs (load16 (demo_mapping ! 10) (demo_mapping ! 11))))"
  by code_simp

theorem recv_labelmessage_safe_witness:
  "okD (recv_labelmessage True True demo_mapping (length demo_mapping) MSG_TYPE_LABELMAPPING)
    (act_ok True True MSG_TYPE_LABELMAPPING) (\<lambda>_. True)"
  by (rule recv_labelmessage_safe) (use demo_mapping_ok in \<open>simp_all add: demo_mapping_def\<close>)

text \<open>
  C40: on an element inside the message, \<^verbatim>\<open>tlv_decode_fec_elm\<close> goes wrong exactly when the element
  is a prefix longer than its address family allows (the copy or the mask then leaves the
  16-byte address or shifts by too much), or a pseudowire with an interface parameter of length 0
  other than an MTU, on which the loop over the parameters never ends.
\<close>

theorem fec_element_faults:
  assumes "0 < len" "len \<le> length bs"
  shows "(\<exists>e. tlv_decode_fec_elm msg bs len m = Inl e) \<longleftrightarrow> elm_bad bs len"
  using assms by (rule fec_elm_fault_iff)

definition demo_hdr :: ldp_msg where
  "demo_hdr = \<lparr>msg_type = htons MSG_TYPE_LABELMAPPING, msg_length = 0, msg_id = 1\<rparr>"

theorem fec_element_faults_witness:
  "(\<exists>e. tlv_decode_fec_elm demo_hdr [2, 0, 1, 33, 10, 0, 0, 0, 0] 9 zero_map = Inl e) \<and>
   (\<exists>e. tlv_decode_fec_elm demo_hdr [128, 0, 5, 6, 0, 0, 0, 0, 0, 0, 0, 9, 7, 0] 14 zero_map = Inl e) \<and>
   \<not> (\<exists>e. tlv_decode_fec_elm demo_hdr [2, 0, 1, 32, 10, 0, 0, 1] 8 zero_map = Inl e)"
proof -
  have bad: "elm_bad [2, 0, 1, 33, 10, 0, 0, 0, 0] 9"
    "elm_bad [128, 0, 5, 6, 0, 0, 0, 0, 0, 0, 0, 9, 7, 0] 14"
    "\<not> elm_bad [2, 0, 1, 32, 10, 0, 0, 1] 8" by code_simp+
  show ?thesis
    using fec_element_faults [of 9 "[2, 0, 1, 33, 10, 0, 0, 0, 0]" demo_hdr zero_map]
      fec_element_faults [of 14 "[128, 0, 5, 6, 0, 0, 0, 0, 0, 0, 0, 9, 7, 0]" demo_hdr zero_map]
      fec_element_faults [of 8 "[2, 0, 1, 32, 10, 0, 0, 1]" demo_hdr zero_map] bad by simp
qed

end
