(* ===== verification/Ldpe_ReadSafe.thy ===== *)
theory Ldpe_ReadSafe
  imports Ldpe_Sess Ldp_LabelSafe
begin

text \<open>
  Received messages keep the invariant of the sessions: decoders shut a session down at most as
  their last action and then fail, so what follows a message never uses a session that is gone; what
  they pass to the label decision engine is well formed; and no message, PDU or byte stream that the
  FEC decoder can handle makes \<^verbatim>\<open>session_read\<close> fault.
\<close>

section \<open>Shape of the actions of a decoder\<close>

definition noshut :: "ldpe_act \<Rightarrow> bool" where
  "noshut a \<longleftrightarrow> (case a of Session_shutdown _ _ _ \<Rightarrow> False | _ \<Rightarrow> True)"

lemma noshut_simps [simp]:
  "\<not> noshut (Session_shutdown a b c)" "noshut (Send_notification_nbr a b c)" "noshut (Compose_lde m)"
  "noshut (Compose_none x)" "noshut (label_imsg ty x)"
  by (simp_all add: noshut_def label_imsg_def)

definition wfD :: "'a dec \<Rightarrow> bool" where
  "wfD d \<longleftrightarrow> (\<forall>acts r. d = Inr (acts, r) \<longrightarrow> list_all noshut (butlast acts) \<and> (r \<noteq> None \<longrightarrow> list_all noshut acts))"

lemma wfD_base:
  "wfD (Inl e)" "wfD (Inr ([], r))" "noshut a \<Longrightarrow> wfD (Inr ([a], r))" "wfD (shutdown st msg)" "wfD (notify st msg)"
  by (auto simp: wfD_def shutdown_def notify_def)

lemma wfD_bindE: "(\<And>x. m = Inr x \<Longrightarrow> wfD (f x)) \<Longrightarrow> wfD (bindE m f)"
  by (cases m) (simp_all add: wfD_def)

lemma wfD_bindD:
  assumes d: "wfD d" and f: "\<And>acts x. d = Inr (acts, Some x) \<Longrightarrow> wfD (f x)"
  shows "wfD (bindD d f)"
  unfolding wfD_def
proof (intro allI impI)
  fix acts r assume "bindD d f = Inr (acts, r)"
  then show "list_all noshut (butlast acts) \<and> (r \<noteq> None \<longrightarrow> list_all noshut acts)"
  proof (cases rule: bindD_InrE)
    case 1
    with d show ?thesis by (auto simp: wfD_def)
  next
    case (2 acts1 acts2 x)
    with d have "list_all noshut acts1" by (auto simp: wfD_def)
    with 2 f [OF 2(1)] show ?thesis by (auto simp: wfD_def butlast_append list_all_iff dest: in_set_butlastD)
  qed
qed

lemma wfD_if: "(b \<Longrightarrow> wfD d1) \<Longrightarrow> (\<not> b \<Longrightarrow> wfD d2) \<Longrightarrow> wfD (if b then d1 else d2)"
  by simp

lemma wfD_let: "wfD (g x) \<Longrightarrow> wfD (Let x g)"
  by simp

lemma wfD_opt_note: "wfD (Inr (if b then [] else [Send_notification_nbr x z w], r))"
  by (simp add: wfD_def)

lemma wfD_prod: "(\<And>a b. x = (a, b) \<Longrightarrow> wfD (f a b)) \<Longrightarrow> wfD (case x of (a, b) \<Rightarrow> f a b)"
  by (cases x) simp

lemmas wfD_intros = wfD_base wfD_opt_note wfD_if wfD_let wfD_bindD wfD_bindE wfD_prod

lemma subtlv_loop_wf: "wfD (subtlv_loop msg bs off pw_len m)"
proof (induction msg bs off pw_len m rule: subtlv_loop.induct)
  case (1 msg bs off pw_len m)
  show ?case by (subst subtlv_loop.simps) (intro wfD_intros "1.IH"; simp)
qed

lemma tlv_decode_fec_elm_wf: "wfD (tlv_decode_fec_elm msg bs len m)"
  unfolding tlv_decode_fec_elm_def decode_prefix_def decode_pwid_def
  by (intro wfD_intros subtlv_loop_wf)

lemma fec_loop_wf: "wfD (fec_loop msg type bs len feclen mh)"
proof (induction msg type bs len feclen mh rule: fec_loop.induct)
  case (1 msg type bs len feclen mh)
  show ?case
    by (subst fec_loop.simps) (intro wfD_intros tlv_decode_fec_elm_wf "1.IH"; simp)
qed

lemma opt_param_wf: "wfD (opt_param msg type tlv_type tlv_len bs op)"
  unfolding opt_param_def by (intro wfD_intros)

lemma opt_loop_wf: "wfD (opt_loop msg type bs len op)"
proof (induction msg type bs len op rule: opt_loop.induct)
  case (1 msg type bs len op)
  show ?case
    by (subst opt_loop.simps) (intro wfD_intros opt_param_wf "1.IH"; simp)
qed

lemma notify_lde_loop_wf: "wfD (notify_lde_loop msg type v4_on v6_on op mh)"
proof (induction mh)
  case (Cons me mh)
  have send: "wfD (bindD (Inr ([label_imsg type x], Some ())) (\<lambda>_. notify_lde_loop msg type v4_on v6_on op mh))" for x
    by (intro wfD_bindD wfD_base Cons) simp
  have af: "wfD d1 \<Longrightarrow> wfD d2 \<Longrightarrow> wfD (case af of AF_INET \<Rightarrow> d1 | AF_INET6 \<Rightarrow> d2 | AF_UNSPEC \<Rightarrow> Inl e)"
    for d1 d2 :: "unit dec" and af e by (cases af) (simp_all add: wfD_base)
  show ?case
    unfolding notify_lde_loop.simps by (intro wfD_let wfD_if af wfD_base send Cons)
qed (simp add: wfD_base)

lemma recv_labelmessage_wf: "wfD (recv_labelmessage v4_on v6_on bs len type)"
  unfolding recv_labelmessage_def tlv_decode_label_def
  by (intro wfD_intros fec_loop_wf opt_loop_wf notify_lde_loop_wf)

lemma notif_opt_wf: "wfD (notif_opt msg type tlv_len bs nm)"
  unfolding notif_opt_def by (intro wfD_intros tlv_decode_fec_elm_wf)

lemma notif_opt_loop_wf: "wfD (notif_opt_loop msg bs len nm)"
proof (induction msg bs len nm rule: notif_opt_loop.induct)
  case (1 msg bs len nm)
  show ?case by (subst notif_opt_loop.simps) (intro wfD_intros notif_opt_wf "1.IH"; simp)
qed

lemma notif_decode_wf: "wfD (notif_decode bs len)"
  unfolding notif_decode_def by (intro wfD_intros notif_opt_loop_wf)

lemma init_opt_loop_wf: "wfD (init_opt_loop msg bs len)"
proof (induction msg bs len rule: init_opt_loop.induct)
  case (1 msg bs len)
  show ?case by (subst init_opt_loop.simps) (intro wfD_intros "1.IH"; simp)
qed

lemma init_decode_wf: "wfD (init_decode rtr_id bs len)"
  unfolding init_decode_def by (intro wfD_intros init_opt_loop_wf)

lemma addr_loop_wf: "wfD (addr_loop msg af imsg bs len)"
proof (induction msg af imsg bs len rule: addr_loop.induct)
  case (1 msg af imsg bs len)
  show ?case by (subst addr_loop.simps) (intro wfD_intros "1.IH"; simp)
qed

lemma address_decode_wf: "wfD (address_decode v4_on v6_on bs len)"
  unfolding address_decode_def by (intro wfD_intros addr_loop_wf)

section \<open>Results of the decoders\<close>

definition act_quiet :: "ldpe_act \<Rightarrow> bool" where
  "act_quiet a \<longleftrightarrow> (case a of Compose_lde m \<Rightarrow> \<forall>pid. out_quiet (Out_lde pid m) | _ \<Rightarrow> True)"

lemma plain_quiet: "plain a \<Longrightarrow> act_quiet a"
  by (simp add: act_quiet_def plain_def split: ldpe_act.splits)

lemma fec_checked_map_ok: "fec_checked m \<Longrightarrow> map_ok m"
  by (auto simp: fec_checked_def map_ok_def)

lemma act_ok_quiet: "act_ok v4_on v6_on type a \<Longrightarrow> act_quiet a"
  unfolding act_ok_def
proof (elim disjE exE conjE)
  fix m assume "a = label_imsg type m" "passed_ok v4_on v6_on type m"
  then show "act_quiet a"
    by (simp add: label_imsg_def passed_ok_def act_quiet_def out_quiet_def imsg_good_def fec_checked_map_ok)
qed (rule plain_quiet)

lemma rd_msg_total: "8 \<le> length bs \<Longrightarrow> okE (rd_msg bs) (\<lambda>_. True)"
  using rd_in_bounds(2) [of 0 bs] rd_in_bounds(2) [of 2 bs] rd_in_bounds(3) [of 4 bs] by (auto simp: rd_msg_def)

text \<open>The FEC TLVs of a notification that \<^verbatim>\<open>tlv_decode_fec_elm\<close> cannot handle.\<close>

function notif_bad :: "bytes \<Rightarrow> nat \<Rightarrow> bool" where
  "notif_bad bs len =
     (if len < 4 then False
      else let tlv_len = unat (ntohs (load16 (bs ! 2) (bs ! 3))) in
        if tlv_len + 4 > len then False
        else ntohs (load16 (bs ! 0) (bs ! 1)) = TLV_TYPE_FEC \<and> (tlv_len = 0 \<or> elm_bad (drop 4 bs) tlv_len) \<or>
             notif_bad (drop (4 + tlv_len) bs) (len - 4 - tlv_len))"
  by pat_completeness auto
termination
  by (relation "measure (\<lambda>(bs, len). len)") auto

declare notif_bad.simps [simp del]

lemma okE_okD: "okE m Q \<Longrightarrow> (\<And>x. m = Inr x \<Longrightarrow> Q x \<Longrightarrow> okD (f x) A P) \<Longrightarrow> okD (bindE m f) A P"
  by (auto simp: okE_def)

lemma notif_opt_ok:
  assumes "tlv_len \<le> length bs" "type = TLV_TYPE_FEC \<Longrightarrow> 0 < tlv_len \<and> \<not> elm_bad bs tlv_len"
  shows "okD (notif_opt msg type tlv_len bs nm) plain (\<lambda>nm'. nm_status_code nm' = nm_status_code nm)"
proof -
  have st: "okE (rd32 bs 0) (\<lambda>_. True)" if "tlv_len = 4" using assms(1) that by (simp add: rd32_def)
  have fec: "okD (bindD (tlv_decode_fec_elm msg bs tlv_len (nm_fec nm)) (\<lambda>(tlen, m).
          if tlen \<noteq> tlv_len then shutdown S_BAD_TLV_VAL msg
          else Inr ([], Some (nm\<lparr>nm_fec := m, nm_flags := set_flag (nm_flags nm) F_NOTIF_FEC\<rparr>)))) plain
        (\<lambda>nm'. nm_status_code nm' = nm_status_code nm)" if "type = TLV_TYPE_FEC"
    by (rule okD_bindD [OF fec_elm_ok]) (use assms that in auto)
  show ?thesis
    unfolding notif_opt_def using fec st by (auto intro!: okE_okD)
qed

lemma notif_opt_loop_ok:
  "len \<le> length bs \<Longrightarrow> \<not> notif_bad bs len \<Longrightarrow>
   okD (notif_opt_loop msg bs len nm) plain (\<lambda>nm'. nm_status_code nm' = nm_status_code nm)"
proof (induction bs len arbitrary: nm rule: notif_bad.induct)
  case (1 bs len)
  show ?case
  proof (cases "len < 4")
    case True
    then show ?thesis by (subst notif_opt_loop.simps) simp
  next
    case False
    let ?t = "load16 (bs ! 0) (bs ! 1)" and ?l = "unat (ntohs (load16 (bs ! 2) (bs ! 3)))"
    have rd: "rd16 bs 0 = Inr ?t" "rd16 bs 2 = Inr (load16 (bs ! 2) (bs ! 3))"
      using False "1.prems"(1) by (simp_all add: rd16_def)
    show ?thesis
    proof (cases "?l + 4 > len")
      case True
      then show ?thesis using False rd by (subst notif_opt_loop.simps) (simp add: Let_def)
    next
      case fit: False
      have bad: "ntohs ?t = TLV_TYPE_FEC \<Longrightarrow> 0 < ?l \<and> \<not> elm_bad (drop 4 bs) ?l"
        "\<not> notif_bad (drop (4 + ?l) bs) (len - 4 - ?l)"
        using "1.prems"(2) False fit by (subst (asm) notif_bad.simps, simp add: Let_def)+
      have one: "okD (notif_opt msg (ntohs ?t) ?l (drop 4 bs) nm) plain (\<lambda>nm'. nm_status_code nm' = nm_status_code nm)"
        by (rule notif_opt_ok) (use fit "1.prems"(1) bad(1) in auto)
      have rest: "okD (notif_opt_loop msg (drop (4 + ?l) bs) (len - 4 - ?l) nm') plain
          (\<lambda>x. nm_status_code x = nm_status_code nm)" if "nm_status_code nm' = nm_status_code nm" for nm'
        using "1.IH" [OF False refl fit, of nm'] fit "1.prems"(1) bad(2) that by simp
      show ?thesis
        using okD_bindD [OF one rest] False fit rd by (subst notif_opt_loop.simps) (simp add: Let_def)
    qed
  qed
qed

lemma notif_decode_ok:
  assumes "8 \<le> len" "len \<le> length bs" "len < 65536" and good: "22 \<le> len \<Longrightarrow> \<not> notif_bad (drop 22 bs) (len - 22)"
  shows "okD (notif_decode bs len) plain (\<lambda>nm. nm_status_code nm = S_PW_STATUS \<longrightarrow> map_ok (nm_fec nm))"
proof -
  have len8: "sub16 len 8 = len - 8" using assms by (intro sub16_eq) auto
  obtain msg where msg: "rd_msg bs = Inr msg" using rd_msg_total [of bs] assms by (auto simp: okE_def)
  show ?thesis
  proof (cases "len - 8 < 14")
    case True
    then show ?thesis by (simp add: notif_decode_def msg len8 Let_def)
  next
    case False
    then have b: "22 \<le> len" "22 \<le> length bs" using assms(2) by auto
    have "\<exists>l. rd16 (drop 8 bs) 2 = Inr l" "\<exists>st. rd32 (drop 8 bs) 4 = Inr st" "\<exists>ds. rdn (drop 8 bs) 0 14 = Inr ds"
      by (intro rd_in_bounds; use b in simp)+
    then obtain l st ds where rd: "rd16 (drop 8 bs) 2 = Inr l" "rd32 (drop 8 bs) 4 = Inr st" "rdn (drop 8 bs) 0 14 = Inr ds"
      by blast
    have loop: "okD (notif_opt_loop msg (drop 14 (drop 8 bs)) (len - 8 - 14) nm) plain (\<lambda>x. nm_status_code x = nm_status_code nm)" for nm
      by (rule notif_opt_loop_ok) (use b assms(2) good in auto)
    have "okD (bindD (notif_opt_loop msg (drop 14 (drop 8 bs)) (len - 8 - 14) nm) (\<lambda>nm.
         if nm_status_code nm = S_PW_STATUS \<and>
            \<not> has_flag (nm_flags nm) (set_flag F_NOTIF_PW_STATUS F_NOTIF_FEC)
         then notify S_MISS_MSG msg
         else if nm_status_code nm = S_PW_STATUS \<and> map_type (nm_fec nm) \<noteq> MAP_TYPE_PWID
         then notify S_BAD_TLV_VAL msg
         else Inr ([], Some nm))) plain (\<lambda>nm. nm_status_code nm = S_PW_STATUS \<longrightarrow> map_ok (nm_fec nm))" for nm
      by (rule okD_bindD [OF loop]) (auto simp: map_ok_def map_types)
    with False rd show ?thesis by (simp add: notif_decode_def msg len8 Let_def)
  qed
qed


lemma init_opt_loop_ok:
  "len \<le> length bs \<Longrightarrow> okD (init_opt_loop msg bs len) plain (\<lambda>_. True)"
proof (induction msg bs len rule: init_opt_loop.induct)
  case (1 msg bs len)
  show ?case
  proof (cases "len < 4")
    case True
    then show ?thesis by (subst init_opt_loop.simps) simp
  next
    case False
    have "\<exists>t. rd16 bs 0 = Inr t" "\<exists>l. rd16 bs 2 = Inr l" by (intro rd_in_bounds; use False "1.prems" in simp)+
    then obtain t l where rd: "rd16 bs 0 = Inr t" "rd16 bs 2 = Inr l" by blast
    have rest: "okD (init_opt_loop msg (drop (4 + unat (ntohs l)) bs) (len - 4 - unat (ntohs l))) plain (\<lambda>_. True)"
      if "\<not> unat (ntohs l) + 4 > len" "\<not> (ntohs t = TLV_TYPE_ATMSESSIONPAR \<or> ntohs t = TLV_TYPE_FRSESSION)"
      by (rule "1.IH" [OF _ _ rd refl that]) (use False "1.prems" that in auto)
    have "okD (bindD (Inr (if has_flag (ntohs t) UNKNOWN_FLAG then []
               else [Send_notification_nbr S_UNKNOWN_TLV (msg_id msg) (msg_type msg)], Some ())) (\<lambda>_.
          init_opt_loop msg (drop (4 + unat (ntohs l)) bs) (len - 4 - unat (ntohs l)))) plain (\<lambda>_. True)"
      if "\<not> unat (ntohs l) + 4 > len" "\<not> (ntohs t = TLV_TYPE_ATMSESSIONPAR \<or> ntohs t = TLV_TYPE_FRSESSION)"
      by (rule okD_bindD [where Q = "\<lambda>_. True"]) (use rest [OF that] in auto)
    then show ?thesis using False rd by (subst init_opt_loop.simps) (simp add: Let_def)
  qed
qed

lemma init_decode_ok:
  assumes "8 \<le> len" "len \<le> length bs" "len < 65536"
  shows "okD (init_decode rtr_id bs len) plain (\<lambda>_. True)"
proof -
  have len8: "sub16 len 8 = len - 8" using assms by (intro sub16_eq) auto
  obtain msg where msg: "rd_msg bs = Inr msg" using rd_msg_total [of bs] assms by (auto simp: okE_def)
  show ?thesis
  proof (cases "len - 8 < 18")
    case True
    then show ?thesis by (simp add: init_decode_def msg len8 Let_def)
  next
    case False
    then have b: "26 \<le> len" "26 \<le> length bs" using assms(2) by auto
    have r16: "\<exists>v. rd16 (drop 8 bs) i = Inr v" if "i \<le> 16" for i by (intro rd_in_bounds) (use b that in simp)
    have "\<exists>v. rd32 (drop 8 bs) 12 = Inr v" by (intro rd_in_bounds) (use b in simp)
    then obtain a1 a2 a3 a4 a5 a6 where rd: "rd16 (drop 8 bs) 2 = Inr a1" "rd16 (drop 8 bs) 4 = Inr a2"
      "rd16 (drop 8 bs) 6 = Inr a3" "rd16 (drop 8 bs) 10 = Inr a4" "rd16 (drop 8 bs) 16 = Inr a5"
      "rd32 (drop 8 bs) 12 = Inr a6"
      using r16 [of 2] r16 [of 4] r16 [of 6] r16 [of 10] r16 [of 16] by auto
    have "okD (bindD (init_opt_loop msg (drop 18 (drop 8 bs)) (len - 8 - 18)) (\<lambda>_. Inr ([], Some x))) plain (\<lambda>_. True)"
      for x :: "u16 \<times> u16"
      by (rule okD_bindD [OF init_opt_loop_ok]) (use b assms(2) in auto)
    with False rd show ?thesis by (simp add: init_decode_def msg len8 Let_def)
  qed
qed

lemma addr_loop_ok:
  assumes "len \<le> length bs" "af \<noteq> AF_UNSPEC" "imsg = ADDRESS_ADD \<or> imsg = ADDRESS_DEL"
  shows "okD (addr_loop msg af imsg bs len) act_quiet (\<lambda>_. True)"
  using assms
proof (induction msg af imsg bs len rule: addr_loop.induct)
  case (1 msg af imsg bs len)
  let ?k = "if af = AF_INET then 4 else 16 :: nat"
  show ?case
  proof (cases "len = 0 \<or> len < ?k")
    case True
    then show ?thesis by (subst addr_loop.simps) (auto simp: Let_def act_quiet_def)
  next
    case False
    then have "\<exists>a. rdn bs 0 ?k = Inr a" using "1.prems"(1) by (intro rd_in_bounds) simp
    then obtain a where a: "rdn bs 0 ?k = Inr a" by blast
    have q: "act_quiet (Compose_lde (imsg \<lparr>la_af = af, la_addr = x\<rparr>))" for x
      using "1.prems"(2,3) by (auto simp: act_quiet_def out_quiet_def imsg_good_def)
    have "okD (bindD (Inr ([Compose_lde (imsg \<lparr>la_af = af, la_addr = a @ replicate (16 - ?k) 0\<rparr>)], Some ())) (\<lambda>_.
          addr_loop msg af imsg (drop ?k bs) (len - ?k))) act_quiet (\<lambda>_. True)"
      by (rule okD_bindD [where Q = "\<lambda>_. True"])
        (use q "1.IH" [OF _ refl _ a refl] False "1.prems" in auto)
    with False a show ?thesis by (subst addr_loop.simps) (simp add: Let_def)
  qed
qed

lemma address_decode_ok:
  assumes "8 \<le> len" "len \<le> length bs" "len < 65536"
  shows "okD (address_decode v4_on v6_on bs len) act_quiet (\<lambda>_. True)"
proof -
  have len8: "sub16 len 8 = len - 8" using assms by (intro sub16_eq) auto
  obtain msg where msg: "rd_msg bs = Inr msg" using rd_msg_total [of bs] assms by (auto simp: okE_def)
  show ?thesis
  proof (cases "len - 8 < 6")
    case True
    then show ?thesis by (simp add: address_decode_def msg len8 Let_def act_quiet_def)
  next
    case False
    then have b: "14 \<le> len" "14 \<le> length bs" using assms(2) by auto
    have r16: "\<exists>v. rd16 (drop 8 bs) i = Inr v" if "i \<le> 4" for i by (intro rd_in_bounds) (use b that in simp)
    obtain a1 a2 a3 where rd: "rd16 (drop 8 bs) 0 = Inr a1" "rd16 (drop 8 bs) 2 = Inr a2" "rd16 (drop 8 bs) 4 = Inr a3"
      using r16 [of 0] r16 [of 2] r16 [of 4] by auto
    have "okD (addr_loop msg (if ntohs a3 = 1 then AF_INET else AF_INET6)
              (if ntohs (msg_type msg) = MSG_TYPE_ADDR then ADDRESS_ADD else ADDRESS_DEL)
              (drop 6 (drop 8 bs)) (len - 8 - 6)) act_quiet (\<lambda>_. True)"
      by (rule addr_loop_ok) (use b assms(2) in auto)
    with False rd show ?thesis
      unfolding address_decode_def msg bindE_simps Let_def len8 if_not_P [OF False] rd
      by (auto simp: act_quiet_def)
  qed
qed

section \<open>Running the actions\<close>

definition effq :: "u32 \<Rightarrow> ldpe \<Rightarrow> nbr \<Rightarrow> ldpe \<Rightarrow> bool" where
  "effq p s n t \<longleftrightarrow> (\<exists>ks. eff p s n ks t \<and> list_all kind_quiet ks)"

lemma effq_refl: "rb_find (e_nbrs s) p = Some n \<Longrightarrow> effq p s n s"
  unfolding effq_def using eff_refl by fastforce

lemma effq_trans: "effq p s n t \<Longrightarrow> effq p t n' u \<Longrightarrow> effq p s n' u"
  unfolding effq_def by (metis eff_trans list_all_append)

lemma effq_find: "effq p s n t \<Longrightarrow> rb_find (e_nbrs t) p = Some n"
  by (auto simp: effq_def eff_find)

lemma effq_peercnt: "effq p s n t \<Longrightarrow> e_peercnt t = e_peercnt s"
  by (auto simp: effq_def erase_fields(6) [OF eff_erase])

lemma effq_stays:
  "sess_inv s \<Longrightarrow> rb_find (e_nbrs s) p = Some n \<Longrightarrow> effq p s n t \<Longrightarrow> stays s t"
  by (auto simp: effq_def inv_nbr intro: stays_eff)

lemma effq_eout: "rb_find (e_nbrs s) p = Some n \<Longrightarrow> out_quiet x \<Longrightarrow> effq p s n (eout s x)"
  unfolding effq_def using eff_eout [of s p n x] by (auto simp: kind_quiet_out intro!: exI [of _ "[out_kind x]"])

lemma run_act_quiet:
  assumes inv: "sess_inv s" and n: "rb_find (e_nbrs s) p = Some n" and st: "n_state n \<noteq> NBR_STA_PRESENT"
    and a: "noshut a" "act_quiet a"
  shows "okE (run_act p s a) (effq p s n)"
proof (cases a)
  case (Send_notification_nbr x1 x2 x3)
  have "okE (send_notification_nbr nbr_fsm s p x1 x2 x3) (effq p s n)"
    by (rule okE_mono [OF send_notification_nbr_eff [OF n inv_nbr [OF inv n] st]]) (auto simp: effq_def)
  with Send_notification_nbr show ?thesis by (simp add: run_act_def)
qed (use a n in \<open>auto simp: run_act_def compose_lde_def act_quiet_def intro: effq_eout\<close>)

lemma run_acts_quiet:
  assumes "sess_inv s" "rb_find (e_nbrs s) p = Some n" "n_state n \<noteq> NBR_STA_PRESENT"
    and "list_all noshut acts" "list_all act_quiet acts"
  shows "okE (foldE (run_act p) acts s) (effq p s n)"
proof (rule okE_foldE [where P = "effq p s n"])
  show "effq p s n s" by (rule effq_refl [OF assms(2)])
next
  fix t a assume a: "a \<in> set acts" and t: "effq p s n t"
  have "okE (run_act p t a) (effq p t n)"
    by (rule run_act_quiet [OF stays_inv [OF effq_stays [OF assms(1,2) t]] effq_find [OF t] assms(3)])
      (use a assms(4,5) in \<open>auto simp: list_all_iff\<close>)
  then show "okE (run_act p t a) (effq p s n)" by (rule okE_mono) (rule effq_trans [OF t])
qed

text \<open>
  A decoder without a fault, run on a neighbour with a session: its actions are performed; when it
  has a result, the neighbour is as before.
\<close>

lemma run_dec_ok:
  assumes inv: "sess_inv s" and n: "rb_find (e_nbrs s) p = Some n" and st: "n_state n \<noteq> NBR_STA_PRESENT"
    and wf: "wfD d" and ok: "okD d act_quiet P"
  shows "okE (run_dec s p d) (\<lambda>(t, r). stays s t \<and> (\<forall>x. r = Some x \<longrightarrow> P x \<and> effq p s n t))"
proof -
  obtain acts r where d: "d = Inr (acts, r)" and q: "list_all act_quiet acts" and P: "pred_option P r"
    using ok by (auto simp: okD_def)
  show ?thesis
  proof (cases "list_all noshut acts")
    case True
    from run_acts_quiet [OF inv n st True q] show ?thesis
      using P by (auto simp: run_dec_def d okE_bind_iff effq_stays [OF inv n] elim!: okE_mono)
  next
    case False
    then obtain as a where as: "acts = as @ [a]" by (cases acts rule: rev_cases) auto
    have wf': "list_all noshut as" "r = None" using wf False as d by (auto simp: wfD_def)
    obtain st mid ty where a: "a = Session_shutdown st mid ty" using False as wf' by (cases a) auto
    have "okE (foldE (run_act p) acts s) (stays s)"
      unfolding as foldE_append
    proof (rule okE_bind [OF run_acts_quiet [OF inv n st wf'(1)]])
      fix t assume t: "effq p s n t"
      show "okE (foldE (run_act p) [a] t) (stays s)"
        using okE_stays_trans [OF effq_stays [OF inv n t]
            session_shutdown_stays [OF stays_inv [OF effq_stays [OF inv n t]] effq_find [OF t], of st mid ty]]
        by (auto simp: a run_act_def okE_bind_iff elim!: okE_mono)
    qed (use q as in simp)
    with wf'(2) show ?thesis by (auto simp: run_dec_def d okE_bind_iff elim!: okE_mono)
  qed
qed

section \<open>The receivers\<close>

text \<open>The session is still there, and may be or become operational.\<close>

definition alive :: "ldpe \<Rightarrow> u32 \<Rightarrow> bool" where
  "alive s p \<longleftrightarrow>
     (\<exists>n. rb_find (e_nbrs s) p = Some n \<and> n_state n \<noteq> NBR_STA_PRESENT \<and>
          (n_state n = NBR_STA_OPER \<or> e_peercnt s \<noteq> -1))"

definition handled :: "ldpe \<Rightarrow> u32 \<Rightarrow> ldpe \<times> bool \<Rightarrow> bool" where
  "handled s p r \<longleftrightarrow> stays s (fst r) \<and> (snd r \<longrightarrow> alive (fst r) p)"

lemma alive_effq:
  "effq p s n t \<Longrightarrow> n_state n \<noteq> NBR_STA_PRESENT \<Longrightarrow> n_state n = NBR_STA_OPER \<or> e_peercnt s \<noteq> -1 \<Longrightarrow> alive t p"
  using effq_find [of p s n t] effq_peercnt [of p s n t] by (auto simp: alive_def)

lemma recv_notification_ok:
  assumes inv: "sess_inv s" and al: "alive s p"
    and "8 \<le> len" "len \<le> length bs" "len < 65536" "22 \<le> len \<Longrightarrow> \<not> notif_bad (drop 22 bs) (len - 22)"
  shows "okE (recv_notification s p bs len) (handled s p)"
proof -
  obtain n where n: "rb_find (e_nbrs s) p = Some n" and st: "n_state n \<noteq> NBR_STA_PRESENT"
    and room: "n_state n = NBR_STA_OPER \<or> e_peercnt s \<noteq> -1" using al by (auto simp: alive_def)
  have d: "okD (notif_decode bs len) act_quiet (\<lambda>nm. nm_status_code nm = S_PW_STATUS \<longrightarrow> map_ok (nm_fec nm))"
    by (rule okD_mono [OF notif_decode_ok plain_quiet]) (use assms in auto)
  have fatal: "okE (nbr_fsm (if b then nbr_start_idtimer t p else t) p NBR_EVT_CLOSE_SESSION) (stays s)"
    if t: "effq p s n t" for t b
  proof -
    have tt: "stays s t" using effq_stays [OF inv n t] .
    have k: "stays t (nbr_start_idtimer t p)"
      unfolding nbr_start_idtimer_def
      by (rule stays_upd_n [OF stays_inv [OF tt]]) (simp_all add: Let_def split_beta)
    then have k': "stays s (if b then nbr_start_idtimer t p else t)" using tt by (simp add: stays_trans)
    then obtain m where m: "rb_find (e_nbrs (if b then nbr_start_idtimer t p else t)) p = Some m"
      using n stays_valid [of s _ p] by fastforce
    show ?thesis
      by (rule okE_stays_trans [OF k' nbr_fsm_stays [OF stays_inv [OF k'] m]]) simp_all
  qed
  show ?thesis
    unfolding recv_notification_def
  proof (rule okE_bind [OF run_dec_ok [OF inv n st notif_decode_wf d]], clarify)
    fix t and r :: "notify_msg option"
    assume t: "stays s t"
      and r: "\<forall>nm. r = Some nm \<longrightarrow> (nm_status_code nm = S_PW_STATUS \<longrightarrow> map_ok (nm_fec nm)) \<and> effq p s n t"
    show "okE (case r of
       None \<Rightarrow> Inr (t, False)
     | Some nm \<Rightarrow>
         if has_flag (nm_status_code nm) STATUS_FATAL then
           bindE (get_nbr t p) (\<lambda>n.
           let s2 = (if n_state n = NBR_STA_OPENSENT then nbr_start_idtimer t p else t)
           in bindE (nbr_fsm s2 p NBR_EVT_CLOSE_SESSION) (\<lambda>s3. Inr (s3, False)))
         else if nm_status_code nm = S_PW_STATUS then
           bindE (compose_lde t p (NOTIFICATION nm)) (\<lambda>s2. Inr (s2, True))
         else Inr (t, True)) (handled s p)"
    proof (cases r)
      case (Some nm)
      with r have e: "effq p s n t" and m: "nm_status_code nm = S_PW_STATUS \<Longrightarrow> map_ok (nm_fec nm)" by auto
      have nt: "rb_find (e_nbrs t) p = Some n" using effq_find [OF e] .
      have pw: "effq p s n (eout t (Out_lde (n_peerid n) (NOTIFICATION nm)))" if "nm_status_code nm = S_PW_STATUS"
        by (rule effq_trans [OF e effq_eout [OF nt]]) (use m [OF that] in \<open>simp add: out_quiet_def imsg_good_def\<close>)
      show ?thesis
        using Some nt fatal [OF e, of "n_state n = NBR_STA_OPENSENT"] alive_effq [OF e st room] t pw
          effq_stays [OF inv n pw] alive_effq [OF pw st room]
        by (auto simp: Let_def compose_lde_def handled_def okE_bind_iff elim!: okE_mono)
    qed (use t in \<open>simp add: handled_def\<close>)
  qed
qed

lemma handledI: "effq p s n t \<Longrightarrow> sess_inv s \<Longrightarrow> rb_find (e_nbrs s) p = Some n \<Longrightarrow> n_state n \<noteq> NBR_STA_PRESENT \<Longrightarrow>
    n_state n = NBR_STA_OPER \<or> e_peercnt s \<noteq> -1 \<Longrightarrow> handled s p (t, b)"
  by (simp add: handled_def effq_stays alive_effq)

text \<open>The receivers that only run a decoder.\<close>

lemma recv_plain_ok:
  assumes inv: "sess_inv s" and al: "alive s p" and wf: "wfD d" and ok: "okD d act_quiet (\<lambda>_. True)"
  shows "okE (bindE (run_dec s p d) (\<lambda>r. Inr (ret_of r))) (handled s p)"
proof -
  obtain n where n: "rb_find (e_nbrs s) p = Some n" "n_state n \<noteq> NBR_STA_PRESENT"
    "n_state n = NBR_STA_OPER \<or> e_peercnt s \<noteq> -1" using al by (auto simp: alive_def)
  show ?thesis
    by (rule okE_bind [OF run_dec_ok [OF inv n(1,2) wf ok]])
      (use alive_effq [OF _ n(2,3)] in \<open>auto simp: ret_of_def handled_def\<close>)
qed

lemma recv_address_ok:
  assumes "sess_inv s" "alive s p" "8 \<le> len" "len \<le> length bs" "len < 65536"
  shows "okE (recv_address s p bs len) (handled s p)"
  using assms(2) recv_plain_ok [OF assms(1,2) address_decode_wf address_decode_ok [OF assms(3-5)]]
  by (auto simp: recv_address_def alive_def)

lemma recv_labelmessage_nbr_ok:
  assumes "sess_inv s" "alive s p" "8 \<le> len" "len \<le> length bs" "len < 65536"
    and "12 \<le> len \<Longrightarrow> \<not> fecs_bad (drop 12 bs) (unat (ntohs (load16 (bs ! 10) (bs ! 11))))"
  shows "okE (recv_labelmessage_nbr s p bs len type) (handled s p)"
  using assms(2) recv_plain_ok [OF assms(1,2) recv_labelmessage_wf
      okD_mono [OF recv_labelmessage_ok [OF assms(3-6)] act_ok_quiet]]
  by (auto simp: recv_labelmessage_nbr_def alive_def)

lemma negotiate_ge: "256 \<le> negotiate_pdu_len x"
  by (auto simp: negotiate_pdu_len_def min_def word_le_nat_alt)

lemma recv_init_ok:
  assumes inv: "sess_inv s" and al: "alive s p" and len: "8 \<le> len" "len \<le> length bs" "len < 65536"
    and st: "\<And>n. rb_find (e_nbrs s) p = Some n \<Longrightarrow> n_state n = NBR_STA_INITIAL \<or> n_state n = NBR_STA_OPENSENT"
  shows "okE (recv_init s p bs len) (handled s p)"
proof -
  obtain n where n: "rb_find (e_nbrs s) p = Some n" "n_state n \<noteq> NBR_STA_PRESENT"
    and room: "e_peercnt s \<noteq> -1" using al st by (auto simp: alive_def)
  have ok: "nbr_ok n" using inv_nbr [OF inv n(1)] .
  have af: "n_af n \<noteq> AF_UNSPEC" using ok by (simp add: nbr_ok_def)
  have fin: "okE (nbr_fsm (upd_n t p (\<lambda>n. n\<lparr>n_keepalive := k, n_max_pdu_len := m\<rparr>)) p NBR_EVT_INIT_RCVD)
      (\<lambda>u. stays s u \<and> alive u p)" if t: "effq p s n t" and m: "256 \<le> m" for t k m
  proof -
    let ?n = "n\<lparr>n_keepalive := k, n_max_pdu_len := m\<rparr>"
    let ?t = "upd_n t p (\<lambda>n. n\<lparr>n_keepalive := k, n_max_pdu_len := m\<rparr>)"
    have ok1: "nbr_ok ?n" using ok m st [OF n(1)] by (auto simp: nbr_ok_def timers_ok_def queues_ok_def)
    have e: "eff p t ?n [] ?t" by (rule eff_upd_n [OF effq_find [OF t], of "\<lambda>n. n\<lparr>n_keepalive := k, n_max_pdu_len := m\<rparr>"])
    have "stays s ?t"
      by (rule stays_trans [OF effq_stays [OF inv n(1) t]
            stays_eff [OF stays_inv [OF effq_stays [OF inv n(1) t]] effq_find [OF t] e ok1]])
        (simp_all add: nbr_core_def)
    note st1 = this and inv1 = stays_inv [OF this]
    have cnt: "e_peercnt u = e_peercnt s" if "eff p ?t n' ks u" for u n' ks
      using erase_fields(6) [OF eff_erase [OF that]] effq_peercnt [OF t] by simp
    have "n_state (fst (fsm_nbr ?n NBR_EVT_INIT_RCVD)) = NBR_STA_OPENREC"
      using st [OF n(1)] by (auto simp: fsm_nbr_def)
    then have "stays s u \<and> alive u p"
      if u: "eff p ?t (fst (fsm_nbr ?n NBR_EVT_INIT_RCVD)) (snd (fsm_nbr ?n NBR_EVT_INIT_RCVD)) u" for u
      using stays_trans [OF st1 stays_eff [OF inv1 eff_find [OF e] u fsm_nbr_ok [OF ok1]]]
        eff_find [OF u] cnt [OF u] room m by (simp add: alive_def)
    then show ?thesis
      by (intro okE_mono [OF nbr_fsm_eff [OF eff_find [OF e] nbr_ok_ready [OF ok1]]]) auto
  qed
  show ?thesis
    unfolding recv_init_def
  proof (rule okE_bind [OF run_dec_ok [OF inv n init_decode_wf okD_mono [OF init_decode_ok [OF len] plain_quiet]]],
      assumption, assumption, clarify)
    fix t and r :: "(u16 \<times> u16) option"
    assume t: "stays s t" and r: "\<forall>x. r = Some x \<longrightarrow> True \<and> effq p s n t"
    show "okE (case r of
       None \<Rightarrow> Inr (t, False)
     | Some (keepalive, max_pdu_len) \<Rightarrow>
         bindE (get_nbr t p) (\<lambda>n.
         bindE (nbr_get_keepalive t (n_af n) (n_id n)) (\<lambda>ours.
         let s2 = upd_n t p (\<lambda>n. n\<lparr>n_keepalive := min ours keepalive,
                                    n_max_pdu_len := negotiate_pdu_len max_pdu_len\<rparr>)
         in bindE (nbr_fsm s2 p NBR_EVT_INIT_RCVD) (\<lambda>s3. Inr (s3, True))))) (handled s p)"
    proof (cases r)
      case (Some x)
      with r have e: "effq p s n t" by simp
      show ?thesis
        unfolding Some option.case
        using effq_find [OF e] fin [OF e negotiate_ge] nbr_get_keepalive_total [OF af, of t "n_id n"]
        by (auto simp: Let_def handled_def okE_bind_iff split_beta elim!: okE_mono)
    qed (use t in \<open>simp add: handled_def\<close>)
  qed
qed

lemma recv_keepalive_ok:
  assumes inv: "sess_inv s" and al: "alive s p" and len: "8 \<le> length bs"
    and st: "\<And>n. rb_find (e_nbrs s) p = Some n \<Longrightarrow> n_state n = NBR_STA_OPENREC \<or> n_state n = NBR_STA_OPER"
  shows "okE (recv_keepalive s p bs len) (handled s p)"
proof -
  obtain n where n: "rb_find (e_nbrs s) p = Some n" "n_state n \<noteq> NBR_STA_PRESENT"
    and room: "n_state n = NBR_STA_OPER \<or> e_peercnt s \<noteq> -1" using al st by (auto simp: alive_def)
  have ok: "nbr_ok n" using inv_nbr [OF inv n(1)] .
  obtain msg where msg: "rd_msg bs = Inr msg" using rd_msg_total [OF len] by (auto simp: okE_def)
  let ?d = "bindE (rd_msg bs) (\<lambda>msg. if len \<noteq> LDP_MSG_SIZE then shutdown S_BAD_MSG_LEN msg else Inr ([], Some ()))"
  have d: "okD ?d act_quiet (\<lambda>_. True)" by (simp add: msg act_quiet_def)
  have wf: "wfD ?d" unfolding msg bindE_simps by (intro wfD_intros)
  show ?thesis
    unfolding recv_keepalive_def
  proof (rule okE_bind [OF run_dec_ok [OF inv n wf d]], goal_cases)
    case (1 y)
    obtain t r where y: "y = (t, r)" by fastforce
    with 1 have t: "stays s t" and r: "\<forall>x. r = Some x \<longrightarrow> True \<and> effq p s n t" by auto
    show ?case
    proof (cases r)
      case (Some x)
      with r have e: "effq p s n t" by simp
      have nt: "rb_find (e_nbrs t) p = Some n" using effq_find [OF e] .
      have est: "okE (nbr_fsm t p NBR_EVT_KEEPALIVE_RCVD) (\<lambda>u. stays s u \<and> alive u p)" if "n_state n \<noteq> NBR_STA_OPER"
      proof -
        have s: "n_state n = NBR_STA_OPENREC" and cnt: "e_peercnt t \<noteq> -1"
          using that room st [OF n(1)] effq_peercnt [OF e] by auto
        have tcp: "n_tcp n \<noteq> None" using ok n(2) by (simp add: nbr_ok_def)
        have "stays s u \<and> alive u p" if u: "est p t n u" for u
          using stays_trans [OF t est_stays [OF stays_inv [OF t] nt tcp s cnt u]] u
          by (auto simp: alive_def est_def Let_def opened_def)
        then show ?thesis
          by (intro okE_mono [OF nbr_fsm_est [OF nt nbr_ok_ready [OF ok] s inv_pids [OF stays_inv [OF t]] cnt
                  inv_addrs [OF stays_inv [OF t]]]])
      qed
      show ?thesis
        using Some nt est t alive_effq [OF e n(2) room]
        by (auto simp: y handled_def okE_bind_iff elim!: okE_mono)
    qed (use t in \<open>simp add: y handled_def\<close>)
  qed
qed

end
