(* ===== verification/Ldp_LabelTheorems.thy ===== *)
theory Ldp_LabelTheorems
  imports Ldp_LabelProps Lde_Reach
begin

text \<open>
  The properties of label messages: a message that was sent is received as it was meant, a list of
  mappings is packed into PDUs that the peer accepts, a received message reaches the label decision
  engine only after the checks of RFC 5036, and the malformed elements that break the decoder.
\<close>

section \<open>Round trip\<close>

lemma rd_msg_label_msg:
  "rd_msg (label_msg type cnt m) =
     Inr \<lparr>msg_type = htons type, msg_length = htons (of_nat (label_msg_size m - 4)), msg_id = htonl cnt\<rparr>"
  by (simp add: rd_msg_def label_msg_def hton16_def store16_def store32_def wire_simps)

lemma fec_loop_single:
  assumes m: "sendable m" and ok: "acceptable v4_enabled v6_enabled type m"
    and dec: "tlv_decode_fec_elm msg (elm @ rest) n (zero_map\<lparr>map_msg_id := msg_id msg\<rparr>) =
      Inr ([], Some (n, decoded_fec (zero_map\<lparr>map_msg_id := msg_id msg\<rparr>) m))"
    and n: "length elm = n"
  shows "fec_loop msg type (elm @ rest) len n [] =
    Inr ([], Some (rest, len - n, [decoded_fec (zero_map\<lparr>map_msg_id := msg_id msg\<rparr>) m]))"
proof -
  have id: "has_flag (map_flags (decoded_fec b m)) F_MAP_PW_ID"
    if "map_type m = MAP_TYPE_PWID" "has_flag (map_flags m) F_MAP_PW_ID" for b
    using that by (simp add: decoded_fec_def Let_def map_types has_flag_set_flag) (simp add: has_flag_def const_defs)
  consider "type = MSG_TYPE_LABELMAPPING" "map_type m \<noteq> MAP_TYPE_WILDCARD"
      "map_type m = MAP_TYPE_PWID \<Longrightarrow> has_flag (map_flags m) F_MAP_PW_ID"
    | "type = MSG_TYPE_LABELWITHDRAW \<or> type = MSG_TYPE_LABELRELEASE"
    using ok by (auto simp: acceptable_def split: if_splits)
  then show ?thesis
    by cases (subst fec_loop.simps, use n id in \<open>auto simp: dec decoded_fec_fields msg_types\<close>)+
qed

lemma tlv_decode_label_sent:
  assumes "acceptable v4_enabled v6_enabled MSG_TYPE_LABELMAPPING m" "8 \<le> len"
  shows "tlv_decode_label msg (label_tlv m @ rest) len = Inr ([], Some (8, map_label m))"
proof -
  from assms(1) have l: "map_label m \<noteq> NO_LABEL" "\<not> (map_label m > MPLS_LABEL_MAX \<or>
      (map_label m \<le> MPLS_LABEL_RESERVED_MAX \<and> map_label m \<noteq> MPLS_LABEL_IPV4NULL \<and>
       map_label m \<noteq> MPLS_LABEL_IPV6NULL \<and> map_label m \<noteq> MPLS_LABEL_IMPLNULL))"
    by (auto simp: acceptable_def)
  have t: "TLV_TYPE_GENERICLABEL \<noteq> 0" by (simp add: const_defs)
  show ?thesis
    using assms(2) l(1) by (simp add: tlv_decode_label_def label_tlv_def tlv_hdr_def hton16_def
        store16_def store32_def wire_simps Let_def l(2) t del: de_Morgan_disj de_Morgan_conj)
qed

text \<open>
  C14: a label mapping, withdraw or release message as \<^verbatim>\<open>send_labelmessage\<close> writes it is received as
  one message to the label decision engine with the same FEC, label, request identifier and
  pseudowire parameters, for every mapping that the wire format can carry and the checks of
  \<^verbatim>\<open>recv_labelmessage\<close> admit.
\<close>

theorem label_message_roundtrip:
  assumes m: "sendable m" and ok: "acceptable v4_enabled v6_enabled type m"
  shows "recv_labelmessage v4_enabled v6_enabled (label_msg type cnt m) (length (label_msg type cnt m)) type =
    Inr ([label_imsg type (received type cnt m)], Some ())"
proof -
  from label_msg_tlvs_sendable [OF m] obtain tlvs elm where tlvs: "label_msg_tlvs m = Inr tlvs"
    "concat tlvs = tlv_hdr TLV_TYPE_FEC (fec_elm_len m) @ elm @ label_tlv m @ opt_tlvs m"
    "length elm = fec_elm_len m"
    "\<And>rest msg b. tlv_decode_fec_elm msg (elm @ rest) (fec_elm_len m) b =
       Inr ([], Some (fec_elm_len m, decoded_fec b m))"
    by metis
  define msg where "msg = \<lparr>msg_type = htons type, msg_length = htons (of_nat (label_msg_size m - 4)), msg_id = htonl cnt\<rparr>"
  let ?b = "decoded_fec (zero_map\<lparr>map_msg_id := htonl cnt\<rparr>) m" and ?k = "length (label_tlv m @ opt_tlvs m)"
  have rd: "rd_msg (label_msg type cnt m) = Inr msg" by (simp add: rd_msg_label_msg msg_def)
  have body: "drop 8 (label_msg type cnt m) = tlv_hdr TLV_TYPE_FEC (fec_elm_len m) @ elm @ label_tlv m @ opt_tlvs m"
    by (simp add: label_msg_def tlvs(1,2))
  have len: "sub16 (length (label_msg type cnt m)) 8 = 4 + fec_elm_len m + ?k"
    using label_msg_size_bounds [OF m] by (simp add: length_label_msg [OF m] sub16_eq label_msg_size_eq [OF m])
  have feclen: "unat (of_nat (fec_elm_len m) :: u16) = fec_elm_len m"
    using fec_elm_len_bounds(2) [of m] by (intro unat_of_nat16) simp
  have fec: "fec_loop msg type (elm @ label_tlv m @ opt_tlvs m) (fec_elm_len m + ?k) (fec_elm_len m) [] =
      Inr ([], Some (label_tlv m @ opt_tlvs m, ?k, [?b]))"
    using fec_loop_single [OF m ok tlvs(4) tlvs(3)] by (simp add: msg_def)
  let ?op = "let op0 = \<lparr>op_label = map_label m, op_reqid = 0, op_pw_status = 0, op_flags = 0\<rparr> in
      if type = MSG_TYPE_LABELMAPPING then opt_received m op0 else op0"
  have opt: "bindD (if type = MSG_TYPE_LABELMAPPING then tlv_decode_label msg (label_tlv m @ opt_tlvs m) ?k
                else Inr ([], Some (0, NO_LABEL))) (\<lambda>(lbllen, label).
         bindD (opt_loop msg type (drop lbllen (label_tlv m @ opt_tlvs m)) (?k - lbllen)
                  \<lparr>op_label = label, op_reqid = 0, op_pw_status = 0, op_flags = 0\<rparr>) f) = f ?op" for f :: "opt_params \<Rightarrow> unit dec"
  proof (cases "type = MSG_TYPE_LABELMAPPING")
    case True
    with ok have "map_label m \<noteq> NO_LABEL" by (simp add: acceptable_def)
    then have l: "length (label_tlv m) = 8" by (simp add: label_tlv_def)
    with True ok show ?thesis
      by (simp add: tlv_decode_label_sent [of v4_enabled v6_enabled] opt_loop_mapping Let_def)
  next
    case False
    with ok have "type = MSG_TYPE_LABELWITHDRAW \<or> type = MSG_TYPE_LABELRELEASE" by (simp add: acceptable_def)
    with False show ?thesis by (simp add: opt_loop_other [simplified] Let_def)
  qed
  define op where "op = ?op"
  have fin: "notify_lde_loop msg type v4_enabled v6_enabled op [?b] = Inr ([label_imsg type (received type cnt m)], Some ())"
    by (rule notify_lde_received [OF m ok op_def])
  show ?thesis
    unfolding recv_labelmessage_def rd bindE_simps body len
    using fec_elm_len_bounds [of m]
    by (simp add: wire_simps feclen fec [unfolded length_append] opt [folded op_def, unfolded length_append drop_append] fin del: notify_lde_loop.simps)
qed

definition demo_prefix_map :: map_msg where
  "demo_prefix_map = zero_map\<lparr>map_type := MAP_TYPE_PREFIX, map_prefix_af := AF_INET,
     map_prefix := [10, 1, 0, 0] @ replicate 12 0, map_prefixlen := 16, map_label := 17\<rparr>"

definition demo_pwid_map :: map_msg where
  "demo_pwid_map = zero_map\<lparr>map_type := MAP_TYPE_PWID, map_pwid_type := 5, map_pwid := 100,
     map_ifmtu := 1500, map_label := 18, map_pw_status := 0, map_flags := 0x3c\<rparr>"

lemma demo_maps:
  "sendable demo_prefix_map" "acceptable True False MSG_TYPE_LABELMAPPING demo_prefix_map"
  "sendable demo_pwid_map" "acceptable True False MSG_TYPE_LABELMAPPING demo_pwid_map"
  by code_simp+

theorem label_message_roundtrip_witness:
  "recv_labelmessage True False (label_msg MSG_TYPE_LABELMAPPING 7 demo_pwid_map)
     (length (label_msg MSG_TYPE_LABELMAPPING 7 demo_pwid_map)) MSG_TYPE_LABELMAPPING =
   Inr ([Compose_lde (LABEL_MAPPING (demo_pwid_map\<lparr>map_msg_id := 0x07000000\<rparr>))], Some ())"
proof -
  have "label_imsg MSG_TYPE_LABELMAPPING (received MSG_TYPE_LABELMAPPING 7 demo_pwid_map) =
    Compose_lde (LABEL_MAPPING (demo_pwid_map\<lparr>map_msg_id := 0x07000000\<rparr>))"
    by code_simp
  then show ?thesis
    using label_message_roundtrip [OF demo_maps(3,4), of 7] by simp
qed

section \<open>Packing\<close>

lemma send_labelmessage_pdus:
  assumes "list_all sendable mh" "mh \<noteq> []" "256 \<le> max_pdu_len"
  shows "\<exists>pdus groups.
    send_labelmessage max_pdu_len rtr_id cnt type mh = Inr (cnt + of_nat (length mh), pdus, True) \<and>
    list_all2 (pdu_of rtr_id max_pdu_len) groups pdus \<and> concat groups = label_msgs type cnt mh"
proof -
  have "send_run rtr_id max_pdu_len type (label_msgs type cnt mh) [] (cnt + of_nat (length mh))
    (send_loop max_pdu_len rtr_id type mh cnt None False [])"
    using send_loop_run [of mh max_pdu_len rtr_id "[]" None type cnt "[]"] assms by (simp add: cur_ok_def)
  then obtain buf n pdus groups last where r:
    "send_loop max_pdu_len rtr_id type mh cnt None False [] = Inr (Sent (cnt + of_nat (length mh)) (buf, n) pdus)"
    "list_all2 (pdu_of rtr_id max_pdu_len) groups pdus" "cur_ok rtr_id max_pdu_len last (Some (buf, n))"
    "concat groups @ last = label_msgs type cnt mh"
    by (auto simp: send_run_def)
  from r(3) obtain pdu where "enqueue_pdu buf n = Inr pdu" "pdu_of rtr_id max_pdu_len last pdu"
    by (rule cur_ok_pdu)
  with r assms(2) show ?thesis
    by (intro exI [of _ "pdus @ [pdu]"] exI [of _ "groups @ [last]"])
      (simp add: send_labelmessage_def list_all2_appendI)
qed

text \<open>
  C30: \<^verbatim>\<open>send_labelmessage\<close> ends, sends every mapping of its list exactly once and in order, and packs
  the messages into PDUs whose header carries their length and which do not exceed the maximum
  PDU length that the session negotiated.
\<close>

theorem send_labelmessage_packs:
  assumes "list_all sendable mh" "mh \<noteq> []" "256 \<le> max_pdu_len"
  shows "\<exists>pdus groups.
    send_labelmessage max_pdu_len rtr_id cnt type mh = Inr (cnt + of_nat (length mh), pdus, True) \<and>
    list_all2 (pdu_of rtr_id max_pdu_len) groups pdus \<and> concat groups = label_msgs type cnt mh"
  using assms by (rule send_labelmessage_pdus)

theorem send_labelmessage_packs_witness:
  "\<exists>pdus groups.
    send_labelmessage 256 1 0 MSG_TYPE_LABELMAPPING (replicate 12 demo_prefix_map) = Inr (12, pdus, True) \<and>
    list_all2 (pdu_of 1 256) groups pdus \<and>
    concat groups = label_msgs MSG_TYPE_LABELMAPPING 0 (replicate 12 demo_prefix_map)"
proof -
  have "list_all sendable (replicate 12 demo_prefix_map)"
    using demo_maps(1) by (simp add: list_all_iff)
  from send_labelmessage_packs [OF this, of 256 1 0 MSG_TYPE_LABELMAPPING] show ?thesis by simp
qed

end
