(* ===== verification/Ldpe_Stream.thy ===== *)
theory Ldpe_Stream
  imports Ldpe_ReadSafe Ldp_LabelTheorems
begin

text \<open>
  The byte stream of a session and the messages of the label decision engine: \<^verbatim>\<open>session_read\<close> handles
  every stream whose FEC elements \<^verbatim>\<open>tlv_decode_fec_elm\<close> can handle, however the peer cuts it into
  pieces, and \<^verbatim>\<open>ldpe_dispatch_lde\<close> every message with sendable mappings.
\<close>

section \<open>The streams that are handled\<close>

definition good_msg :: "bytes \<Rightarrow> nat \<Rightarrow> bool" where
  "good_msg bs len \<longleftrightarrow>
     (let type = ntohs (load16 (bs ! 0) (bs ! 1)) in
      (type = MSG_TYPE_NOTIFICATION \<longrightarrow> 22 \<le> len \<longrightarrow> \<not> notif_bad (drop 22 bs) (len - 22)) \<and>
      (type \<in> set label_msg_types \<longrightarrow> 12 \<le> len \<longrightarrow>
         \<not> fecs_bad (drop 12 bs) (unat (ntohs (load16 (bs ! 10) (bs ! 11))))))"

function good_msgs :: "bytes \<Rightarrow> bool" where
  "good_msgs bs =
     (if length bs < 8 then True
      else let len = unat (ntohs (load16 (bs ! 2) (bs ! 3))) + 4 in
        if len < 8 \<or> length bs < len then True else good_msg bs len \<and> good_msgs (drop len bs))"
  by pat_completeness auto
termination
  by (relation "measure length") auto

function good_stream :: "bytes \<Rightarrow> bool" where
  "good_stream bs =
     (if length bs < 10 then True
      else let len = unat (ntohs (load16 (bs ! 2) (bs ! 3))) + 4 in
        if length bs < len then True else good_msgs (drop 10 (take len bs)) \<and> good_stream (drop len bs))"
  by pat_completeness auto
termination
  by (relation "measure length") auto

declare good_msgs.simps [simp del] good_stream.simps [simp del]

section \<open>Messages and PDUs\<close>

lemma recv_msg_ok:
  assumes inv: "sess_inv s" and al: "alive s p" and len: "8 \<le> len" "len \<le> length bs" "len < 65536"
    and msg: "rd_msg bs = Inr msg" and good: "good_msg bs len"
    and n: "rb_find (e_nbrs s) p = Some n" and un: "\<not> unexpected (n_state n) (ntohs (msg_type msg))"
  shows "okE (recv_msg s p bs len msg) (handled s p)"
proof -
  let ?ty = "ntohs (msg_type msg)"
  have ty: "ntohs (load16 (bs ! 0) (bs ! 1)) = ?ty"
    using msg len by (auto simp: rd_msg_def rd16_def rd32_def bindE_Inr_iff)
  have st: "n_state n \<noteq> NBR_STA_PRESENT" and room: "n_state n = NBR_STA_OPER \<or> e_peercnt s \<noteq> -1"
    using al n by (auto simp: alive_def)
  have init: "n_state n = NBR_STA_INITIAL \<or> n_state n = NBR_STA_OPENSENT" if "?ty = MSG_TYPE_INIT"
    using un that by (simp add: unexpected_def split: if_splits)
  have ka: "n_state n = NBR_STA_OPENREC \<or> n_state n = NBR_STA_OPER" if "?ty = MSG_TYPE_KEEPALIVE"
    using un that st by (cases "n_state n") (auto simp: unexpected_def const_defs split: if_splits)
  have reply: "okE (send_notification_nbr nbr_fsm s p a b c) (\<lambda>t. handled s p (t, True))" for a b c
    by (rule okE_mono [OF send_notification_nbr_eff [OF n inv_nbr [OF inv n] st]])
      (rule handledI [OF _ inv n st room], auto simp: effq_def)
  have other: "okE (bindE (if has_flag ?ty UNKNOWN_FLAG then Inr s
                  else send_notification_nbr nbr_fsm s p S_UNKNOWN_MSG (msg_id msg) (msg_type msg))
             (\<lambda>s1. Inr (s1, True))) (handled s p)"
    using handledI [OF effq_refl [OF n] inv n st room] reply by (simp add: okE_bind_iff)
  show ?thesis
    unfolding recv_msg_def Let_def
  proof (intro okE_if)
    show "okE (recv_notification s p bs len) (handled s p)" if "?ty = MSG_TYPE_NOTIFICATION"
      by (rule recv_notification_ok [OF inv al len]) (use good that ty in \<open>simp add: good_msg_def Let_def\<close>)
    show "okE (recv_init s p bs len) (handled s p)" if "?ty = MSG_TYPE_INIT"
      by (rule recv_init_ok [OF inv al len]) (use init [OF that] n in auto)
    show "okE (recv_keepalive s p bs len) (handled s p)" if "?ty = MSG_TYPE_KEEPALIVE"
      by (rule recv_keepalive_ok [OF inv al]) (use ka [OF that] n len in auto)
    show "okE (recv_address s p bs len) (handled s p)"
      by (rule recv_address_ok [OF inv al len])
    show "okE (recv_labelmessage_nbr s p bs len ?ty) (handled s p)" if "?ty \<in> set label_msg_types"
      by (rule recv_labelmessage_nbr_ok [OF inv al len]) (use good that ty in \<open>auto simp: good_msg_def Let_def\<close>)
    show "okE (bindE (if has_flag ?ty UNKNOWN_FLAG then Inr s
                  else send_notification_nbr nbr_fsm s p S_UNKNOWN_MSG (msg_id msg) (msg_type msg))
             (\<lambda>s1. Inr (s1, True))) (handled s p)" by (rule other)
  qed
qed

lemma alive_get: "alive s p \<Longrightarrow> \<exists>n. rb_find (e_nbrs s) p = Some n"
  by (auto simp: alive_def)

lemma shutdown_ends:
  assumes "sess_inv s" "alive s p"
  shows "okE (bindE (session_shutdown s p a b c) (\<lambda>s1. Inr (s1, r))) (\<lambda>(t, r'). stays s t \<and> r' = r)"
  using assms session_shutdown_stays [OF assms(1)] by (auto dest!: alive_get intro!: okE_bind)

definition looped :: "ldpe \<Rightarrow> u32 \<Rightarrow> ldpe \<times> int option \<Rightarrow> bool" where
  "looped s p x \<longleftrightarrow> stays s (fst x) \<and> (snd x \<noteq> None \<longrightarrow> alive (fst x) p)"

lemma shutdown_looped:
  "sess_inv s \<Longrightarrow> alive s p \<Longrightarrow> okE (bindE (session_shutdown s p a b c) (\<lambda>s1. Inr (s1, None))) (looped s p)"
  by (rule okE_mono [OF shutdown_ends]) (auto simp: looped_def)

lemma looped_trans: "stays s t \<Longrightarrow> looped t p x \<Longrightarrow> looped s p x"
  by (auto simp: looped_def intro: stays_trans)

lemma msg_loop_ok:
  "good_msgs bs \<Longrightarrow> sess_inv s \<Longrightarrow> alive s p \<Longrightarrow> length bs < 65536 \<Longrightarrow>
   okE (msg_loop s p bs (int (length bs)) (length bs)) (looped s p)"
proof (induction bs arbitrary: s rule: good_msgs.induct)
  case (1 bs)
  note inv = "1.prems"(2) and al = "1.prems"(3)
  show ?case
  proof (cases "length bs < 8")
    case True
    then show ?thesis using inv al by (subst msg_loop.simps) (simp add: stays_refl looped_def)
  next
    case False
    then obtain msg where msg: "rd_msg bs = Inr msg" using rd_msg_total [of bs] by (auto simp: okE_def)
    let ?len = "unat (ntohs (load16 (bs ! 2) (bs ! 3))) + 4"
    have l: "msg_length msg = load16 (bs ! 2) (bs ! 3)"
      using msg False by (auto simp: rd_msg_def rd16_def rd32_def bindE_Inr_iff)
    obtain n where n: "rb_find (e_nbrs s) p = Some n" using alive_get [OF al] by blast
    show ?thesis
    proof (cases "?len < 8 \<or> length bs < ?len")
      case True
      then show ?thesis
        using False shutdown_looped [OF inv al]
        by (subst msg_loop.simps) (auto simp: msg l Let_def)
    next
      case fit: False
      have good: "good_msg bs ?len" "good_msgs (drop ?len bs)"
        using "1.prems"(1) False fit by (subst (asm) good_msgs.simps, simp add: Let_def)+
      have go: "okE (bindE (recv_msg s p bs ?len msg) (\<lambda>(s1, ok).
               if \<not> ok then Inr (s1, None)
               else msg_loop s1 p (drop ?len bs) (int (length bs) - int ?len) (length bs - ?len)))
             (looped s p)"
        if un: "\<not> unexpected (n_state n) (ntohs (msg_type msg))"
      proof (rule okE_bind [OF recv_msg_ok [OF inv al _ _ _ msg good(1) n un]], goal_cases)
        case (4 y)
        obtain t b where y: "y = (t, b)" by fastforce
        with 4 have t: "stays s t" "b \<Longrightarrow> alive t p" by (simp_all add: handled_def)
        have "okE (msg_loop t p (drop ?len bs) (int (length bs) - int ?len) (length bs - ?len))
             (looped s p)" if b
          using okE_mono [OF "1.IH" [OF False refl fit good(2) stays_inv [OF t(1)] t(2) [OF that]] looped_trans [OF t(1)]]
            fit "1.prems"(4) by (simp add: of_nat_diff)
        with t y show ?case by (simp add: looped_def)
      qed (use fit "1.prems"(4) in auto)
      show ?thesis
        unfolding msg_loop.simps [of s p bs] msg bindE_simps l Let_def get_nbr_Some [OF n]
        by (intro okE_if shutdown_looped [OF inv al] go) (use False fit in auto)
    qed
  qed
qed

definition pdu_end :: "u32 \<Rightarrow> ldpe \<times> int option \<Rightarrow> (ldpe \<times> bool) res" where
  "pdu_end p = (\<lambda>(s2, r). case r of
       None \<Rightarrow> Inr (s2, False)
     | Some len \<Rightarrow>
         if len \<noteq> 0 then bindE (session_shutdown s2 p S_BAD_PDU_LEN 0 0) (\<lambda>s3. Inr (s3, False))
         else Inr (s2, True))"

lemma shutdown_handled:
  assumes t: "stays s t" "alive t p"
  shows "okE (bindE (session_shutdown t p a b c) (\<lambda>s1. Inr (s1, False))) (handled s p)"
  by (rule okE_mono [OF shutdown_ends [OF stays_inv [OF t(1)] t(2), of a b c False]])
    (use t in \<open>auto simp: handled_def intro: stays_trans\<close>)

lemma pdu_end_ok: "looped s p x \<Longrightarrow> okE (pdu_end p x) (handled s p)"
  by (cases "snd x") (auto simp: pdu_end_def looped_def split_beta handled_def [of s p "(_, _)"]
      intro!: shutdown_handled)

lemma session_pdu_ok:
  assumes inv: "sess_inv s" and al: "alive s p"
    and len: "length buf = unat (ntohs (load16 (buf ! 2) (buf ! 3))) + 4" "good_msgs (drop 10 buf)"
  shows "okE (session_pdu s p buf) (handled s p)"
proof -
  let ?len = "unat (ntohs (load16 (buf ! 2) (buf ! 3)))"
  obtain n where n: "rb_find (e_nbrs s) p = Some n" "n_state n \<noteq> NBR_STA_PRESENT"
    "n_state n = NBR_STA_OPER \<or> e_peercnt s \<noteq> -1" using al by (auto simp: alive_def)
  note stop = shutdown_handled [OF stays_refl [OF inv] al]
  obtain ver where ver: "rd16 buf 0 = Inr ver" using rd_in_bounds(2) [of 0 buf] len(1) by auto
  have l: "rd16 buf 2 = Inr (load16 (buf ! 2) (buf ! 3))" using len(1) by (simp add: rd16_def)
  have small: "?len < 65536" using unsigned_less [of "ntohs (load16 (buf ! 2) (buf ! 3))"] by simp
  have fsm: "okE (nbr_fsm s p NBR_EVT_PDU_RCVD) (\<lambda>t. stays s t \<and> alive t p)"
    by (rule okE_mono [OF fsm_idle_eff(2) [OF n(1) inv_nbr [OF inv n(1)]]])
      (use effq_stays [OF inv n(1)] alive_effq [OF _ n(2,3)] in \<open>force simp: effq_def\<close>)
  have msgs: "okE (bindE (nbr_fsm s p NBR_EVT_PDU_RCVD) (\<lambda>s1.
      bindE (msg_loop s1 p (drop 10 buf) (int (length (drop 10 buf))) (length (drop 10 buf))) (pdu_end p))) (handled s p)"
  proof (rule okE_bind [OF fsm])
    fix t assume t: "stays s t \<and> alive t p"
    show "okE (bindE (msg_loop t p (drop 10 buf) (int (length (drop 10 buf))) (length (drop 10 buf))) (pdu_end p)) (handled s p)"
      by (rule okE_bind [OF msg_loop_ok [OF len(2) stays_inv] pdu_end_ok])
        (use t small len(1) in \<open>auto intro: looped_trans\<close>)
  qed
  have go: "okE (bindE (rd32 buf 4) (\<lambda>lsr_id. bindE (rd16 buf 8) (\<lambda>lspace_id.
             if lsr_id \<noteq> n_id n \<or> lspace_id \<noteq> 0 then bindE (session_shutdown s p S_BAD_LDP_ID 0 0) (\<lambda>s1. Inr (s1, False))
             else bindE (nbr_fsm s p NBR_EVT_PDU_RCVD) (\<lambda>s1.
               bindE (msg_loop s1 p (drop 10 buf) (int (length buf) - int 10) (?len - 6)) (pdu_end p)))))
           (handled s p)" if big: "14 \<le> ?len"
  proof -
    obtain a b where rd: "rd32 buf 4 = Inr a" "rd16 buf 8 = Inr b"
      using rd_in_bounds(2) [of 8 buf] rd_in_bounds(3) [of 4 buf] len(1) big by auto
    have eq: "int (length buf) - int 10 = int (length (drop 10 buf))" "?len - 6 = length (drop 10 buf)"
      using len(1) big by auto
    show ?thesis unfolding rd bindE_simps eq by (intro okE_if stop msgs)
  qed
  show ?thesis
    unfolding session_pdu_def Let_def ver bindE_simps l get_nbr_Some [OF n(1)] pdu_end_def [symmetric]
    by (intro okE_if stop go) simp
qed

section \<open>The session\<close>

lemma set_rbuf_stays: "sess_inv s \<Longrightarrow> stays s (set_rbuf s p r)"
  unfolding set_rbuf_def
  by (rule stays_upd_n) (auto simp: nbr_ok_def timers_ok_def queues_ok_def nbr_core_def split: nbr_state.splits)

lemma set_rbuf_alive: "alive s p \<Longrightarrow> alive (set_rbuf s p r) p"
  by (auto simp: set_rbuf_def alive_def)

lemma alive_tcp: "sess_inv s \<Longrightarrow> alive s p \<Longrightarrow> \<exists>n tcp. rb_find (e_nbrs s) p = Some n \<and> n_tcp n = Some tcp"
  using inv_nbr by (fastforce simp: alive_def nbr_ok_def)

lemma pdu_loop_ok: "good_stream r \<Longrightarrow> sess_inv s \<Longrightarrow> alive s p \<Longrightarrow> okE (pdu_loop s p r) (stays s)"
proof (induction r arbitrary: s rule: good_stream.induct)
  case (1 r)
  note inv = "1.prems"(2) and al = "1.prems"(3)
  let ?len = "unat (ntohs (load16 (r ! 2) (r ! 3))) + 4"
  have get: "session_get_pdu r =
      (if length r < 10 \<or> length r < ?len then Inr None else Inr (Some (take ?len r, drop ?len r)))"
    by (simp add: session_get_pdu_def rd16_def Let_def)
  show ?case
  proof (cases "length r < 10 \<or> length r < ?len")
    case True
    then show ?thesis using set_rbuf_stays [OF inv] by (subst pdu_loop.simps) (simp add: get)
  next
    case False
    let ?s = "set_rbuf s p (drop ?len r)"
    have s1: "stays s ?s" by (rule set_rbuf_stays [OF inv])
    have good: "good_msgs (drop 10 (take ?len r))" "good_stream (drop ?len r)"
      using "1.prems"(1) False by (subst (asm) good_stream.simps, simp add: Let_def)+
    have go: "okE (bindE (session_pdu ?s p (take ?len r)) (\<lambda>(s1, continue).
         if \<not> continue then Inr s1
         else bindE (get_nbr s1 p) (\<lambda>n. if n_tcp n = None then Inl UseAfterFree else pdu_loop s1 p (drop ?len r)))) (stays s)"
    proof (rule okE_bind [OF session_pdu_ok [OF stays_inv [OF s1] set_rbuf_alive [OF al]]], goal_cases)
      case (3 y)
      obtain t b where y: "y = (t, b)" by fastforce
      with 3 have t: "stays s t" "b \<Longrightarrow> alive t p" using stays_trans [OF s1] by (simp_all add: handled_def)
      show ?case
      proof (cases b)
        case True
        have "\<not> length r < 10" "\<not> length r < ?len" using False by simp_all
        from "1.IH" [OF this(1) refl this(2) good(2) stays_inv [OF t(1)] t(2) [OF True]]
        have "okE (pdu_loop t p (drop ?len r)) (stays s)" by (rule okE_stays_trans [OF t(1)])
        then show ?thesis using alive_tcp [OF stays_inv [OF t(1)] t(2) [OF True]] True by (auto simp: y)
      qed (use t y in simp)
    qed (use False good(1) in auto)
    then show ?thesis using False by (subst pdu_loop.simps) (simp add: get)
  qed
qed

lemma session_read_stays:
  assumes inv: "sess_inv s" and al: "alive s p"
    and good: "\<And>bs n tcp. r = Read_bytes bs \<Longrightarrow> rb_find (e_nbrs s) p = Some n \<Longrightarrow> n_tcp n = Some tcp \<Longrightarrow>
      good_stream (tcp_rbuf tcp @ bs)"
  shows "okE (session_read r s p) (stays s)"
proof -
  obtain n tcp where n: "rb_find (e_nbrs s) p = Some n" "n_tcp n = Some tcp" using alive_tcp [OF inv al] by blast
  show ?thesis
    using n pdu_loop_ok [OF good inv al, OF _ n] nbr_fsm_stays [OF inv n(1), of NBR_EVT_CLOSE_SESSION] stays_refl [OF inv]
    by (auto simp: session_read_def split: read_result.split)
qed

section \<open>Messages of the label decision engine\<close>

definition lde_imsg_good :: "lde_imsg \<Rightarrow> bool" where
  "lde_imsg_good m \<longleftrightarrow>
     (case m of
        IMSG_MAPPING_ADD _ m \<Rightarrow> sendable m
      | IMSG_RELEASE_ADD _ m \<Rightarrow> sendable m
      | IMSG_WITHDRAW_ADD _ m \<Rightarrow> sendable m
      | IMSG_NOTIFICATION_SEND _ nm \<Rightarrow> has_flag (nm_flags nm) F_NOTIF_FEC \<longrightarrow> sendable (nm_fec nm)
      | _ \<Rightarrow> True)"

lemma send_labelmessage_nbr_stays:
  assumes inv: "sess_inv s" and n: "rb_find (e_nbrs s) p = Some n" and st: "n_state n = NBR_STA_OPER"
    and mh: "list_all sendable mh"
  shows "okE (send_labelmessage_nbr nbr_fsm s p type mh) (stays s)"
proof (cases "mh = []")
  case False
  have ok: "nbr_ok n" using inv_nbr [OF inv n] .
  then obtain c where c: "n_tcp n = Some c" using st by (auto simp: nbr_ok_def)
  have "256 \<le> unat (n_max_pdu_len n)" using ok st by (simp add: nbr_ok_def queues_ok_def word_le_nat_alt)
  then obtain cnt pdus where r: "send_labelmessage (unat (n_max_pdu_len n)) (e_rtr_id s) (e_msgcnt s) type mh = Inr (cnt, pdus, True)"
    using send_labelmessage_pdus [OF mh False] by blast
  let ?s = "s\<lparr>e_msgcnt := cnt, e_out := e_out s @ map (Out_pdu (tcp_fd c)) pdus\<rparr>"
  have k: "stays s ?s"
    by (rule stays_same [OF inv, where outs = "map (Out_pdu (tcp_fd c)) pdus"]) (simp_all add: erase_def list_all_iff)
  have "okE (nbr_fsm ?s p NBR_EVT_PDU_SENT) (stays s)"
    by (rule okE_stays_trans [OF k nbr_fsm_stays [OF stays_inv [OF k]]]) (use n in simp_all)
  then show ?thesis using False n c r by (simp add: send_labelmessage_nbr_def)
qed (simp add: send_labelmessage_nbr_def stays_refl [OF inv])

lemma send_notification_full_stays:
  assumes inv: "sess_inv s" and nm: "has_flag (nm_flags nm) F_NOTIF_FEC \<longrightarrow> sendable (nm_fec nm)"
  shows "okE (send_notification_full s fd nm) (stays s)"
proof -
  have fec: "okE (if has_flag (nm_flags nm) F_NOTIF_FEC then gen_fec_tlv (nm_fec nm) else Inr []) (\<lambda>_. True)"
    using nm by (auto simp: sendable_def elim: fec_roundtrip)
  have k: "stays s (s\<lparr>e_msgcnt := c\<rparr>)" for c
    by (rule stays_same [OF inv, where outs = "[]"]) (simp_all add: erase_def)
  show ?thesis
    unfolding send_notification_full_def Let_def split_beta
    by (rule okE_bind [OF fec]) (use k stays_trans [OF k stays_eout [OF stays_inv [OF k]]] in simp)
qed

lemma with_oper_stays:
  assumes inv: "sess_inv s"
    and f: "\<And>p n. rb_find (e_nbrs s) p = Some n \<Longrightarrow> n_state n = NBR_STA_OPER \<Longrightarrow> okE (f p n) (stays s)"
  shows "okE (with_oper s peerid f) (stays s)"
proof (cases "nbr_find_peerid s peerid")
  case (Some p)
  then obtain n where "rb_find (e_nbrs s) p = Some n"
    using inv_pids [OF inv] by (auto simp: nbr_find_peerid_def pids_ok_def)
  with Some f [OF this] inv show ?thesis by (simp add: with_oper_def stays_refl)
qed (simp add: with_oper_def stays_refl [OF inv])

lemma ldpe_dispatch_lde_stays:
  assumes inv: "sess_inv s" and m: "lde_imsg_good m"
  shows "okE (ldpe_dispatch_lde s m) (stays s)"
proof -
  have q: "queues_ok n" if "rb_find (e_nbrs s) p = Some n" for p n using inv_nbr [OF inv that] by (simp add: nbr_ok_def)
  have up: "stays s (upd_n s p (\<lambda>n. n\<lparr>n_mapping_list := f n\<rparr>))" "stays s (upd_n s p (\<lambda>n. n\<lparr>n_release_list := f n\<rparr>))"
    "stays s (upd_n s p (\<lambda>n. n\<lparr>n_withdraw_list := f n\<rparr>))"
    if f: "\<And>n. queues_ok n \<Longrightarrow> list_all sendable (f n)" for p f
    by (rule stays_upd_n [OF inv]; use f in \<open>simp add: nbr_ok_def timers_ok_def queues_ok_def split: nbr_state.splits\<close>)+
  have send: "okE (send_labelmessage_nbr nbr_fsm (upd_n s p f) p type mh) (stays s)"
    if "stays s (upd_n s p f)" "rb_find (e_nbrs s) p = Some n" "n_state n = NBR_STA_OPER" "n_state (f n) = n_state n"
      "list_all sendable mh" for p f type mh n
    by (rule okE_stays_trans [OF that(1) send_labelmessage_nbr_stays [OF stays_inv [OF that(1)], of _ "f n"]])
      (use that in simp_all)
  show ?thesis
  proof (cases m)
    case (IMSG_NOTIFICATION_SEND peerid nm)
    have "okE (bindE (get_tcp n) (\<lambda>tcp. send_notification_full s (tcp_fd tcp) nm)) (stays s)"
      if n: "rb_find (e_nbrs s) p = Some n" "n_state n = NBR_STA_OPER" for p n
    proof -
      obtain c where "n_tcp n = Some c" using inv_nbr [OF inv n(1)] n(2) by (auto simp: nbr_ok_def)
      then show ?thesis using send_notification_full_stays [OF inv] m by (simp add: IMSG_NOTIFICATION_SEND lde_imsg_good_def)
    qed
    then show ?thesis
      unfolding IMSG_NOTIFICATION_SEND ldpe_dispatch_lde_def lde_imsg.case by (rule with_oper_stays [OF inv])
  qed (use m q in \<open>auto simp: ldpe_dispatch_lde_def lde_imsg_good_def queues_ok_def stays_refl [OF inv]
        intro!: with_oper_stays [OF inv] up send\<close>)
qed

end
