(* ===== verification/Ldpe_View.thy ===== *)
theory Ldpe_View
  imports Ldpe_Stream
begin

text \<open>
  The tables of discovery: which adjacencies there are, and the lists through which interfaces,
  targeted neighbours and neighbours find them. \<open>view\<close> takes these tables out of the state of the
  engine and \<open>view_ok\<close> is their invariant: every list holds exactly the adjacencies that point back
  to its owner, the tree of neighbours by address agrees with the neighbours, and \<^verbatim>\<open>nbr_id_compare\<close>
  orders the identifiers of the neighbours.
\<close>

section \<open>The tables\<close>

record vadj =
  va_id :: in_addr
  va_nbr :: "u32 option"
  va_src :: hello_source

record vtnbr =
  vt_af :: af
  vt_adj :: "nat option"

record viface =
  vi_good :: bool
  vi_act4 :: bool
  vi_act6 :: bool
  vi_adjs4 :: "nat list"
  vi_adjs6 :: "nat list"

record vnbr =
  vn_af :: af
  vn_raddr :: ldpd_addr
  vn_adjs :: "nat list"

record view =
  v_nbrs :: "u32 \<Rightarrow> vnbr option"
  v_adjs :: "nat \<Rightarrow> vadj option"
  v_adj_list :: "nat list"
  v_tnbrs :: "nat \<Rightarrow> vtnbr option"
  v_tnbr_list :: "nat list"
  v_ifs :: "nat \<Rightarrow> viface option"
  v_if_list :: "nat list"
  v_by_addr :: "nat \<Rightarrow> u32 option"
  v_params :: "nbr_params list"

definition adj_view :: "adj \<Rightarrow> vadj" where
  "adj_view adj = \<lparr>va_id = a_lsr_id adj, va_nbr = a_nbr adj, va_src = a_source adj\<rparr>"

definition tnbr_view :: "tnbr \<Rightarrow> vtnbr" where
  "tnbr_view tn = \<lparr>vt_af = t_af tn, vt_adj = t_adj tn\<rparr>"

definition iface_view :: "iface \<Rightarrow> viface" where
  "iface_view ifc = \<lparr>vi_good = list_all ifa_good (if_addr_list ifc), vi_act4 = ia_active (if_ipv4 ifc),
     vi_act6 = ia_active (if_ipv6 ifc), vi_adjs4 = ia_adj_list (if_ipv4 ifc),
     vi_adjs6 = ia_adj_list (if_ipv6 ifc)\<rparr>"

definition nbr_view :: "nbr \<Rightarrow> vnbr" where
  "nbr_view n = \<lparr>vn_af = n_af n, vn_raddr = n_raddr n, vn_adjs = n_adj_list n\<rparr>"

definition view :: "ldpe \<Rightarrow> view" where
  "view s = \<lparr>v_nbrs = (\<lambda>p. map_option nbr_view (rb_find (e_nbrs s) p)), v_adjs = map_option adj_view \<circ> e_adjs s,
     v_adj_list = e_adj_list s, v_tnbrs = map_option tnbr_view \<circ> e_tnbrs s, v_tnbr_list = e_tnbr_list s,
     v_ifs = map_option iface_view \<circ> e_ifaces s, v_if_list = e_iface_list s,
     v_by_addr = rb_find (e_nbrs_by_addr s), v_params = e_nbrp_list s\<rparr>"

lemma view_maps:
  "v_nbrs (view s) p = map_option nbr_view (rb_find (e_nbrs s) p)"
  "v_adjs (view s) a = map_option adj_view (e_adjs s a)"
  "v_tnbrs (view s) t = map_option tnbr_view (e_tnbrs s t)"
  "v_ifs (view s) i = map_option iface_view (e_ifaces s i)"
  by (simp_all add: view_def)

lemma view_sel [simp]:
  "v_adj_list (view s) = e_adj_list s"
  "v_tnbr_list (view s) = e_tnbr_list s"
  "v_if_list (view s) = e_iface_list s"
  "v_by_addr (view s) k = rb_find (e_nbrs_by_addr s) k"
  "rb_find (e_nbrs s) p = Some n \<Longrightarrow> v_nbrs (view s) p = Some (nbr_view n)"
  "e_adjs s a = Some adj \<Longrightarrow> v_adjs (view s) a = Some (adj_view adj)"
  "e_tnbrs s t = Some tn \<Longrightarrow> v_tnbrs (view s) t = Some (tnbr_view tn)"
  "e_ifaces s i = Some ifc \<Longrightarrow> v_ifs (view s) i = Some (iface_view ifc)"
  "v_nbrs (view s) p = None \<longleftrightarrow> rb_find (e_nbrs s) p = None"
  "v_adjs (view s) a = None \<longleftrightarrow> e_adjs s a = None"
  "v_tnbrs (view s) t = None \<longleftrightarrow> e_tnbrs s t = None"
  "v_ifs (view s) i = None \<longleftrightarrow> e_ifaces s i = None"
  "v_params (view s) = e_nbrp_list s"
  by (simp_all add: view_def)

lemma nbr_ids_view: "nbr_ids s = dom (v_nbrs (view s))"
  by (auto simp: view_maps)

lemma view_rec_sel [simp]:
  "va_id (adj_view adj) = a_lsr_id adj" "va_nbr (adj_view adj) = a_nbr adj" "va_src (adj_view adj) = a_source adj"
  "vt_af (tnbr_view tn) = t_af tn" "vt_adj (tnbr_view tn) = t_adj tn"
  "vi_good (iface_view ifc) = list_all ifa_good (if_addr_list ifc)"
  "vi_act4 (iface_view ifc) = ia_active (if_ipv4 ifc)" "vi_act6 (iface_view ifc) = ia_active (if_ipv6 ifc)"
  "vi_adjs4 (iface_view ifc) = ia_adj_list (if_ipv4 ifc)" "vi_adjs6 (iface_view ifc) = ia_adj_list (if_ipv6 ifc)"
  "vn_af (nbr_view n) = n_af n" "vn_raddr (nbr_view n) = n_raddr n" "vn_adjs (nbr_view n) = n_adj_list n"
  by (simp_all add: adj_view_def tnbr_view_def iface_view_def nbr_view_def)

definition vsrc :: "view \<Rightarrow> nat \<Rightarrow> hello_source option" where
  "vsrc v a = map_option va_src (v_adjs v a)"

definition on_link :: "view \<Rightarrow> nat \<Rightarrow> af \<Rightarrow> nat set" where
  "on_link v i af = {a. \<exists>x. vsrc v a = Some (HELLO_LINK i af x)}"

text \<open>The interface is there, but not active for the family.\<close>

definition idle_link :: "view \<Rightarrow> nat \<Rightarrow> af \<Rightarrow> bool" where
  "idle_link v i af \<longleftrightarrow> (\<exists>x. v_ifs v i = Some x \<and> \<not> (if af = AF_INET then vi_act4 x else vi_act6 x))"

definition of_nbr :: "view \<Rightarrow> u32 \<Rightarrow> nat set" where
  "of_nbr v p = {a. \<exists>x. v_adjs v a = Some x \<and> va_nbr x = Some p}"

definition lists_ok :: "view \<Rightarrow> bool" where
  "lists_ok v \<longleftrightarrow>
     distinct (v_adj_list v) \<and> set (v_adj_list v) = dom (v_adjs v) \<and>
     distinct (v_tnbr_list v) \<and> set (v_tnbr_list v) = dom (v_tnbrs v) \<and>
     distinct (v_if_list v) \<and> set (v_if_list v) \<subseteq> dom (v_ifs v)"

definition tnbrs_ok :: "view \<Rightarrow> bool" where
  "tnbrs_ok v \<longleftrightarrow>
     (\<forall>t tn. v_tnbrs v t = Some tn \<longrightarrow>
        vt_af tn \<noteq> AF_UNSPEC \<and> (\<forall>a. vt_adj tn = Some a \<longleftrightarrow> vsrc v a = Some (HELLO_TARGETED t))) \<and>
     (\<forall>a t. vsrc v a = Some (HELLO_TARGETED t) \<longrightarrow> v_tnbrs v t \<noteq> None)"

definition ifs_ok :: "view \<Rightarrow> bool" where
  "ifs_ok v \<longleftrightarrow>
     (\<forall>i ifc. v_ifs v i = Some ifc \<longrightarrow>
        vi_good ifc \<and> distinct (vi_adjs4 ifc) \<and> set (vi_adjs4 ifc) = on_link v i AF_INET \<and>
        distinct (vi_adjs6 ifc) \<and> set (vi_adjs6 ifc) = on_link v i AF_INET6) \<and>
     (\<forall>a i af x. vsrc v a = Some (HELLO_LINK i af x) \<longrightarrow> v_ifs v i \<noteq> None \<and> af \<noteq> AF_UNSPEC)"

definition nbrs_ok :: "view \<Rightarrow> bool" where
  "nbrs_ok v \<longleftrightarrow>
     (\<forall>p n. v_nbrs v p = Some n \<longrightarrow> distinct (vn_adjs n) \<and> set (vn_adjs n) = of_nbr v p) \<and>
     (\<forall>a x p. v_adjs v a = Some x \<longrightarrow> va_nbr x = Some p \<longrightarrow> v_nbrs v p \<noteq> None \<and> p = ntohl (va_id x)) \<and>
     (\<forall>k p. v_by_addr v k = Some p \<longleftrightarrow> (\<exists>n. v_nbrs v p = Some n \<and> addr_key (vn_af n) (vn_raddr n) = k)) \<and>
     ids_ordered (dom (v_nbrs v))"

definition view_ok :: "view \<Rightarrow> bool" where
  "view_ok v \<longleftrightarrow> lists_ok v \<and> tnbrs_ok v \<and> ifs_ok v \<and> nbrs_ok v"

lemma lists_okD:
  assumes "view_ok v"
  shows "a \<in> set (v_adj_list v) \<Longrightarrow> v_adjs v a \<noteq> None" "t \<in> set (v_tnbr_list v) \<Longrightarrow> v_tnbrs v t \<noteq> None"
    "i \<in> set (v_if_list v) \<Longrightarrow> v_ifs v i \<noteq> None"
  using assms by (auto simp: view_ok_def lists_ok_def dom_def)

lemma tnbrs_okD:
  assumes "view_ok v"
  shows "v_tnbrs v t = Some tn \<Longrightarrow> vt_af tn \<noteq> AF_UNSPEC"
    "v_tnbrs v t = Some tn \<Longrightarrow> vt_adj tn = Some a \<longleftrightarrow> vsrc v a = Some (HELLO_TARGETED t)"
    "vsrc v a = Some (HELLO_TARGETED t) \<Longrightarrow> v_tnbrs v t \<noteq> None"
  using assms unfolding view_ok_def tnbrs_ok_def by blast+

lemma ifs_okD:
  assumes "view_ok v"
  shows "v_ifs v i = Some ifc \<Longrightarrow> vi_good ifc"
    "v_ifs v i = Some ifc \<Longrightarrow> distinct (vi_adjs4 ifc) \<and> set (vi_adjs4 ifc) = on_link v i AF_INET"
    "v_ifs v i = Some ifc \<Longrightarrow> distinct (vi_adjs6 ifc) \<and> set (vi_adjs6 ifc) = on_link v i AF_INET6"
    "vsrc v a = Some (HELLO_LINK i af x) \<Longrightarrow> v_ifs v i \<noteq> None \<and> af \<noteq> AF_UNSPEC"
  using assms unfolding view_ok_def ifs_ok_def by blast+

lemma nbrs_okD:
  assumes "view_ok v"
  shows "v_nbrs v p = Some n \<Longrightarrow> distinct (vn_adjs n) \<and> set (vn_adjs n) = of_nbr v p"
    "v_adjs v a = Some x \<Longrightarrow> va_nbr x = Some p \<Longrightarrow> v_nbrs v p \<noteq> None \<and> p = ntohl (va_id x)"
    "v_by_addr v k = Some p \<longleftrightarrow> (\<exists>n. v_nbrs v p = Some n \<and> addr_key (vn_af n) (vn_raddr n) = k)"
    "ids_ordered (dom (v_nbrs v))"
  using assms unfolding view_ok_def nbrs_ok_def by blast+

lemma tnbrs_okI:
  "(\<And>t tn. v_tnbrs v t = Some tn \<Longrightarrow> vt_af tn \<noteq> AF_UNSPEC) \<Longrightarrow>
   (\<And>t tn a. v_tnbrs v t = Some tn \<Longrightarrow> vt_adj tn = Some a \<longleftrightarrow> vsrc v a = Some (HELLO_TARGETED t)) \<Longrightarrow>
   (\<And>a t. vsrc v a = Some (HELLO_TARGETED t) \<Longrightarrow> v_tnbrs v t \<noteq> None) \<Longrightarrow> tnbrs_ok v"
  unfolding tnbrs_ok_def by blast

lemma ifs_okI:
  "(\<And>i ifc. v_ifs v i = Some ifc \<Longrightarrow> vi_good ifc) \<Longrightarrow>
   (\<And>i ifc. v_ifs v i = Some ifc \<Longrightarrow> distinct (vi_adjs4 ifc) \<and> set (vi_adjs4 ifc) = on_link v i AF_INET) \<Longrightarrow>
   (\<And>i ifc. v_ifs v i = Some ifc \<Longrightarrow> distinct (vi_adjs6 ifc) \<and> set (vi_adjs6 ifc) = on_link v i AF_INET6) \<Longrightarrow>
   (\<And>a i af x. vsrc v a = Some (HELLO_LINK i af x) \<Longrightarrow> v_ifs v i \<noteq> None \<and> af \<noteq> AF_UNSPEC) \<Longrightarrow> ifs_ok v"
  unfolding ifs_ok_def by blast

lemma nbrs_okI:
  "(\<And>p n. v_nbrs v p = Some n \<Longrightarrow> distinct (vn_adjs n) \<and> set (vn_adjs n) = of_nbr v p) \<Longrightarrow>
   (\<And>a x p. v_adjs v a = Some x \<Longrightarrow> va_nbr x = Some p \<Longrightarrow> v_nbrs v p \<noteq> None \<and> p = ntohl (va_id x)) \<Longrightarrow>
   (\<And>k p. v_by_addr v k = Some p \<longleftrightarrow> (\<exists>n. v_nbrs v p = Some n \<and> addr_key (vn_af n) (vn_raddr n) = k)) \<Longrightarrow>
   ids_ordered (dom (v_nbrs v)) \<Longrightarrow> nbrs_ok v"
  unfolding nbrs_ok_def by blast

definition eng_inv :: "ldpe \<Rightarrow> bool" where
  "eng_inv s \<longleftrightarrow> sess_inv s \<and> view_ok (view s)"

section \<open>Changes that leave the tables alone\<close>

definition calm :: "ldpe \<Rightarrow> ldpe \<Rightarrow> bool" where
  "calm s t \<longleftrightarrow> sess_inv t \<and> (outs_ok s \<longrightarrow> outs_ok t) \<and> view t = view s"

lemma calm_refl: "sess_inv s \<Longrightarrow> calm s s"
  by (simp add: calm_def)

lemma calm_trans: "calm s t \<Longrightarrow> calm t u \<Longrightarrow> calm s u"
  by (simp add: calm_def)

lemma calm_inv: "calm s t \<Longrightarrow> eng_inv s \<Longrightarrow> eng_inv t"
  by (simp add: calm_def eng_inv_def)

lemma view_eqI:
  assumes "\<And>p. map_option nbr_view (rb_find (e_nbrs t) p) = map_option nbr_view (rb_find (e_nbrs s) p)"
    and "\<And>a. map_option adj_view (e_adjs t a) = map_option adj_view (e_adjs s a)" "e_adj_list t = e_adj_list s"
    and "\<And>x. map_option tnbr_view (e_tnbrs t x) = map_option tnbr_view (e_tnbrs s x)" "e_tnbr_list t = e_tnbr_list s"
    and "\<And>i. map_option iface_view (e_ifaces t i) = map_option iface_view (e_ifaces s i)"
    and "e_iface_list t = e_iface_list s" "\<And>k. rb_find (e_nbrs_by_addr t) k = rb_find (e_nbrs_by_addr s) k"
    and "e_nbrp_list t = e_nbrp_list s"
  shows "view t = view s"
  using assms by (simp add: view_def fun_eq_iff)

lemma stays_calm:
  assumes "stays s t"
  shows "calm s t"
proof -
  have core: "nbr_view n = nbr_view m" if "nbr_core n = nbr_core m" for n m
    using that by (simp add: nbr_core_def nbr_view_def)
  have "map_option nbr_view (rb_find (e_nbrs t) p) = map_option nbr_view (rb_find (e_nbrs s) p)" for p
  proof -
    have "map_option nbr_core (rb_find (e_nbrs t) p) = map_option nbr_core (rb_find (e_nbrs s) p)"
      using assms by (simp add: stays_def)
    then show ?thesis
      by (cases "rb_find (e_nbrs t) p"; cases "rb_find (e_nbrs s) p") (auto dest: core)
  qed
  moreover have "erase_pid t = erase_pid s" using assms by (simp add: stays_def)
  ultimately have "view t = view s" using erase_pid_fields [of t s] by (intro view_eqI) simp_all
  with assms show ?thesis by (simp add: calm_def stays_def)
qed

lemma okE_stays_calm: "okE m (stays s) \<Longrightarrow> okE m (calm s)"
  by (erule okE_mono) (rule stays_calm)

text \<open>States that agree on what the sessions depend on.\<close>

lemma sess_inv_cong:
  assumes "e_nbrs t = e_nbrs s" "e_nbrs_by_pid t = e_nbrs_by_pid s" "e_peercnt t = e_peercnt s" "e_addr_list t = e_addr_list s"
  shows "sess_inv t = sess_inv s"
  using assms by (simp add: sess_inv_def pids_ok_def addrs_ok_def)

lemma outs_ok_cong: "e_out t = e_out s \<Longrightarrow> e_peercnt t = e_peercnt s \<Longrightarrow> outs_ok t = outs_ok s"
  by (simp add: outs_ok_def)

lemma upd_fields [simp]:
  "e_nbrs (upd_t s x f) = e_nbrs s" "e_nbrs_by_pid (upd_t s x f) = e_nbrs_by_pid s" "e_peercnt (upd_t s x f) = e_peercnt s"
  "e_addr_list (upd_t s x f) = e_addr_list s" "e_out (upd_t s x f) = e_out s" "e_adjs (upd_t s x f) = e_adjs s"
  "e_adj_list (upd_t s x f) = e_adj_list s" "e_tnbr_list (upd_t s x f) = e_tnbr_list s" "e_ifaces (upd_t s x f) = e_ifaces s"
  "e_iface_list (upd_t s x f) = e_iface_list s" "e_nbrs_by_addr (upd_t s x f) = e_nbrs_by_addr s"
  "e_nbrs (upd_if s i g) = e_nbrs s" "e_nbrs_by_pid (upd_if s i g) = e_nbrs_by_pid s" "e_peercnt (upd_if s i g) = e_peercnt s"
  "e_addr_list (upd_if s i g) = e_addr_list s" "e_out (upd_if s i g) = e_out s" "e_adjs (upd_if s i g) = e_adjs s"
  "e_adj_list (upd_if s i g) = e_adj_list s" "e_tnbr_list (upd_if s i g) = e_tnbr_list s" "e_tnbrs (upd_if s i g) = e_tnbrs s"
  "e_iface_list (upd_if s i g) = e_iface_list s" "e_nbrs_by_addr (upd_if s i g) = e_nbrs_by_addr s"
  "e_nbrs (upd_adj s a h) = e_nbrs s" "e_nbrs_by_pid (upd_adj s a h) = e_nbrs_by_pid s" "e_peercnt (upd_adj s a h) = e_peercnt s"
  "e_addr_list (upd_adj s a h) = e_addr_list s" "e_out (upd_adj s a h) = e_out s" "e_ifaces (upd_adj s a h) = e_ifaces s"
  "e_adj_list (upd_adj s a h) = e_adj_list s" "e_tnbr_list (upd_adj s a h) = e_tnbr_list s" "e_tnbrs (upd_adj s a h) = e_tnbrs s"
  "e_iface_list (upd_adj s a h) = e_iface_list s" "e_nbrs_by_addr (upd_adj s a h) = e_nbrs_by_addr s"
  "e_nbrp_list (upd_t s x f) = e_nbrp_list s" "e_nbrp_list (upd_if s i g) = e_nbrp_list s" "e_nbrp_list (upd_adj s a h) = e_nbrp_list s"
  by (simp_all add: upd_t_def upd_if_def upd_adj_def)

lemma upd_stores [simp]:
  "e_tnbrs (upd_t s x f) y = (if y = x then map_option f (e_tnbrs s x) else e_tnbrs s y)"
  "e_ifaces (upd_if s i g) j = (if j = i then map_option g (e_ifaces s i) else e_ifaces s j)"
  "e_adjs (upd_adj s a h) b = (if b = a then map_option h (e_adjs s a) else e_adjs s b)"
  by (simp_all add: upd_t_def upd_if_def upd_adj_def)

lemma calm_upd_t: "sess_inv s \<Longrightarrow> (\<And>tn. tnbr_view (f tn) = tnbr_view tn) \<Longrightarrow> calm s (upd_t s x f)"
  using sess_inv_cong [of "upd_t s x f" s] outs_ok_cong [of "upd_t s x f" s]
  by (auto simp: calm_def option.map_comp o_def intro!: view_eqI)

lemma calm_upd_if: "sess_inv s \<Longrightarrow> (\<And>ifc. e_ifaces s i = Some ifc \<Longrightarrow> iface_view (f ifc) = iface_view ifc) \<Longrightarrow> calm s (upd_if s i f)"
  using sess_inv_cong [of "upd_if s i f" s] outs_ok_cong [of "upd_if s i f" s]
  by (cases "e_ifaces s i") (auto simp: calm_def intro!: view_eqI)

lemma calm_upd_adj: "sess_inv s \<Longrightarrow> (\<And>adj. adj_view (f adj) = adj_view adj) \<Longrightarrow> calm s (upd_adj s a f)"
  using sess_inv_cong [of "upd_adj s a f" s] outs_ok_cong [of "upd_adj s a f" s]
  by (auto simp: calm_def option.map_comp o_def intro!: view_eqI)

lemma calm_upd_ia:
  assumes "sess_inv s" "\<And>ia. ia_adj_list (f ia) = ia_adj_list ia" "\<And>ia. ia_active (f ia) = ia_active ia"
  shows "calm s (upd_ia s i af f)"
  unfolding upd_ia_def by (rule calm_upd_if [OF assms(1)]) (simp add: iface_view_def assms(2,3))

lemma calm_cong:
  assumes "sess_inv s" "e_nbrs t = e_nbrs s" "e_nbrs_by_pid t = e_nbrs_by_pid s" "e_peercnt t = e_peercnt s"
    "e_addr_list t = e_addr_list s" "e_out t = e_out s @ outs" "list_all out_quiet outs" "view t = view s"
  shows "calm s t"
  using assms sess_inv_cong [of t s] outs_ok_quiet [of s t outs] by (simp add: calm_def)

text \<open>Everything about an engine whose tables are in order can be reached without a fault.\<close>

lemma eng_sess: "eng_inv s \<Longrightarrow> sess_inv s" and eng_view: "eng_inv s \<Longrightarrow> view_ok (view s)"
  by (simp_all add: eng_inv_def)

lemma eng_adj: "eng_inv s \<Longrightarrow> a \<in> set (e_adj_list s) \<Longrightarrow> \<exists>adj. e_adjs s a = Some adj"
  using lists_okD(1) [OF eng_view, of s a] by auto

lemma eng_tnbr: "eng_inv s \<Longrightarrow> t \<in> set (e_tnbr_list s) \<Longrightarrow> \<exists>tn. e_tnbrs s t = Some tn"
  using lists_okD(2) [OF eng_view, of s t] by auto

lemma eng_iface: "eng_inv s \<Longrightarrow> i \<in> set (e_iface_list s) \<Longrightarrow> \<exists>ifc. e_ifaces s i = Some ifc"
  using lists_okD(3) [OF eng_view, of s i] by auto

lemma eng_tnbr_af: "eng_inv s \<Longrightarrow> e_tnbrs s t = Some tn \<Longrightarrow> t_af tn \<noteq> AF_UNSPEC"
  using tnbrs_okD(1) [OF eng_view, of s t "tnbr_view tn"] by auto

lemma vsrc_view: "e_adjs s a = Some adj \<Longrightarrow> vsrc (view s) a = Some (a_source adj)"
  by (simp add: vsrc_def)

lemma eng_source_live:
  assumes "eng_inv s" "e_adjs s a = Some adj"
  shows "hello_live s (hello_dst_of (a_source adj))"
proof (cases "a_source adj")
  case (HELLO_LINK i af x)
  then show ?thesis
    using ifs_okD(4) [OF eng_view [OF assms(1)], of a i af x] vsrc_view [OF assms(2)]
    by (auto simp: hello_live_def hello_dst_of_def)
next
  case (HELLO_TARGETED t)
  then obtain tn where "e_tnbrs s t = Some tn"
    using tnbrs_okD(3) [OF eng_view [OF assms(1)], of a t] vsrc_view [OF assms(2)] by auto
  with HELLO_TARGETED eng_tnbr_af [OF assms(1) this] show ?thesis by (auto simp: hello_live_def hello_dst_of_def)
qed

lemma eng_nbr_adj:
  assumes "eng_inv s" "rb_find (e_nbrs s) p = Some n" "a \<in> set (n_adj_list n)"
  shows "\<exists>adj. e_adjs s a = Some adj \<and> a_nbr adj = Some p"
proof -
  have "a \<in> of_nbr (view s) p" using nbrs_okD(1) [OF eng_view [OF assms(1)], of p "nbr_view n"] assms by simp
  then show ?thesis by (auto simp: of_nbr_def view_maps)
qed

lemma eng_adjs_live:
  "eng_inv s \<Longrightarrow> rb_find (e_nbrs s) p = Some n \<Longrightarrow> adjs_live s (n_adj_list n)"
  using eng_nbr_adj eng_source_live by (fastforce simp: adjs_live_def)

lemma eng_by_addr:
  "eng_inv s \<Longrightarrow> rb_find (e_nbrs_by_addr s) k = Some p \<Longrightarrow> \<exists>n. rb_find (e_nbrs s) p = Some n"
  using nbrs_okD(3) [OF eng_view, of s k p] by (auto simp: view_maps)

end
