(* ===== verification/Ldpe_Adj.thy ===== *)
theory Ldpe_Adj
  imports Ldpe_View
begin

text \<open>
  The operations of \<^verbatim>\<open>adjacency.c\<close> keep the tables of discovery in order: deleting an adjacency takes
  it out of every list, and the neighbour goes with its last adjacency of its address family.
\<close>

section \<open>Deleting an adjacency from the tables\<close>

definition v_drop :: "nat \<Rightarrow> view \<Rightarrow> view" where
  "v_drop a v = v\<lparr>
     v_adj_list := remove1 a (v_adj_list v), v_adjs := (v_adjs v)(a := None),
     v_nbrs := (\<lambda>p. map_option (\<lambda>n. n\<lparr>vn_adjs := remove1 a (vn_adjs n)\<rparr>) (v_nbrs v p)),
     v_tnbrs := (\<lambda>t. map_option (\<lambda>tn. tn\<lparr>vt_adj := (if vt_adj tn = Some a then None else vt_adj tn)\<rparr>) (v_tnbrs v t)),
     v_ifs := (\<lambda>i. map_option (\<lambda>x. x\<lparr>vi_adjs4 := remove1 a (vi_adjs4 x), vi_adjs6 := remove1 a (vi_adjs6 x)\<rparr>) (v_ifs v i))\<rparr>"

lemma v_drop_sel [simp]:
  "v_adj_list (v_drop a v) = remove1 a (v_adj_list v)" "v_tnbr_list (v_drop a v) = v_tnbr_list v"
  "v_if_list (v_drop a v) = v_if_list v" "v_by_addr (v_drop a v) = v_by_addr v"
  "v_adjs (v_drop a v) b = (if b = a then None else v_adjs v b)"
  "vsrc (v_drop a v) b = (if b = a then None else vsrc v b)"
  "on_link (v_drop a v) i af = on_link v i af - {a}" "of_nbr (v_drop a v) p = of_nbr v p - {a}"
  by (auto simp: v_drop_def vsrc_def on_link_def of_nbr_def)

lemma v_drop_params [simp]: "v_params (v_drop a v) = v_params v"
  by (simp add: v_drop_def)

lemma v_drop_maps:
  "v_nbrs (v_drop a v) p = map_option (\<lambda>n. n\<lparr>vn_adjs := remove1 a (vn_adjs n)\<rparr>) (v_nbrs v p)"
  "v_tnbrs (v_drop a v) t = map_option (\<lambda>tn. tn\<lparr>vt_adj := (if vt_adj tn = Some a then None else vt_adj tn)\<rparr>) (v_tnbrs v t)"
  "v_ifs (v_drop a v) i = map_option (\<lambda>x. x\<lparr>vi_adjs4 := remove1 a (vi_adjs4 x), vi_adjs6 := remove1 a (vi_adjs6 x)\<rparr>) (v_ifs v i)"
  by (simp_all add: v_drop_def)

lemma v_drop_ok:
  assumes ok: "view_ok v"
  shows "view_ok (v_drop a v)"
proof -
  have lists: "lists_ok (v_drop a v)"
    using ok by (auto simp: view_ok_def lists_ok_def v_drop_maps dom_def)
  have tnbrs: "tnbrs_ok (v_drop a v)"
  proof (rule tnbrs_okI)
    fix t tn b assume "v_tnbrs (v_drop a v) t = Some tn"
    then obtain tn0 where tn0: "v_tnbrs v t = Some tn0" "tn = tn0\<lparr>vt_adj := (if vt_adj tn0 = Some a then None else vt_adj tn0)\<rparr>"
      by (auto simp: v_drop_maps)
    show "vt_af tn \<noteq> AF_UNSPEC" "vt_adj tn = Some b \<longleftrightarrow> vsrc (v_drop a v) b = Some (HELLO_TARGETED t)"
      using tnbrs_okD(1) [OF ok tn0(1)] tnbrs_okD(2) [OF ok tn0(1), of b] by (auto simp: tn0(2))
  qed (use tnbrs_okD(3) [OF ok] in \<open>simp add: v_drop_maps split: if_splits\<close>)
  have ifs: "ifs_ok (v_drop a v)"
  proof (rule ifs_okI)
    fix i ifc assume "v_ifs (v_drop a v) i = Some ifc"
    then obtain x where x: "v_ifs v i = Some x" "ifc = x\<lparr>vi_adjs4 := remove1 a (vi_adjs4 x), vi_adjs6 := remove1 a (vi_adjs6 x)\<rparr>"
      by (auto simp: v_drop_maps)
    show "vi_good ifc" "distinct (vi_adjs4 ifc) \<and> set (vi_adjs4 ifc) = on_link (v_drop a v) i AF_INET"
      "distinct (vi_adjs6 ifc) \<and> set (vi_adjs6 ifc) = on_link (v_drop a v) i AF_INET6"
      using ifs_okD(1-3) [OF ok x(1)] by (simp_all add: x(2))
  qed (use ifs_okD(4) [OF ok] in \<open>simp add: v_drop_maps split: if_splits\<close>)
  have nbrs: "nbrs_ok (v_drop a v)"
  proof (rule nbrs_okI)
    fix p n assume "v_nbrs (v_drop a v) p = Some n"
    then obtain m where m: "v_nbrs v p = Some m" "n = m\<lparr>vn_adjs := remove1 a (vn_adjs m)\<rparr>" by (auto simp: v_drop_maps)
    show "distinct (vn_adjs n) \<and> set (vn_adjs n) = of_nbr (v_drop a v) p" using nbrs_okD(1) [OF ok m(1)] by (simp add: m(2))
  next
    fix b x p assume "v_adjs (v_drop a v) b = Some x" "va_nbr x = Some p"
    then show "v_nbrs (v_drop a v) p \<noteq> None \<and> p = ntohl (va_id x)"
      using nbrs_okD(2) [OF ok, of b x p] by (auto simp: v_drop_maps split: if_splits)
  next
    fix k p show "v_by_addr (v_drop a v) k = Some p \<longleftrightarrow> (\<exists>n. v_nbrs (v_drop a v) p = Some n \<and> addr_key (vn_af n) (vn_raddr n) = k)"
      using nbrs_okD(3) [OF ok, of k p] by (auto simp: v_drop_maps)
  next
    show "ids_ordered (dom (v_nbrs (v_drop a v)))"
      by (rule ids_ordered_mono [OF nbrs_okD(4) [OF ok]]) (auto simp: v_drop_maps)
  qed
  from lists tnbrs ifs nbrs show ?thesis by (simp add: view_ok_def)
qed

definition v_del_nbr :: "u32 \<Rightarrow> view \<Rightarrow> view" where
  "v_del_nbr p v = v\<lparr>v_nbrs := (v_nbrs v)(p := None),
     v_by_addr := (\<lambda>k. if v_by_addr v k = Some p then None else v_by_addr v k)\<rparr>"

lemma v_del_nbr_ok:
  assumes ok: "view_ok v" and none: "of_nbr v p = {}"
  shows "view_ok (v_del_nbr p v)"
proof -
  have sel: "v_adjs (v_del_nbr p v) = v_adjs v" "vsrc (v_del_nbr p v) = vsrc v"
    "on_link (v_del_nbr p v) = on_link v" "of_nbr (v_del_nbr p v) = of_nbr v"
    "v_adj_list (v_del_nbr p v) = v_adj_list v" "v_tnbr_list (v_del_nbr p v) = v_tnbr_list v"
    "v_if_list (v_del_nbr p v) = v_if_list v" "v_tnbrs (v_del_nbr p v) = v_tnbrs v" "v_ifs (v_del_nbr p v) = v_ifs v"
    by (auto simp: v_del_nbr_def vsrc_def on_link_def of_nbr_def fun_eq_iff)
  have maps: "v_nbrs (v_del_nbr p v) q = (if q = p then None else v_nbrs v q)"
    "v_by_addr (v_del_nbr p v) k = (if v_by_addr v k = Some p then None else v_by_addr v k)" for q k
    by (simp_all add: v_del_nbr_def)
  have "nbrs_ok (v_del_nbr p v)"
  proof (rule nbrs_okI)
    fix q n assume "v_nbrs (v_del_nbr p v) q = Some n"
    then show "distinct (vn_adjs n) \<and> set (vn_adjs n) = of_nbr (v_del_nbr p v) q"
      using nbrs_okD(1) [OF ok, of q n] by (simp add: maps sel split: if_splits)
  next
    fix b x q assume a: "v_adjs (v_del_nbr p v) b = Some x" "va_nbr x = Some q"
    have "q \<noteq> p" using a none by (auto simp: of_nbr_def sel)
    then show "v_nbrs (v_del_nbr p v) q \<noteq> None \<and> q = ntohl (va_id x)"
      using nbrs_okD(2) [OF ok, of b x q] a by (auto simp: maps sel)
  next
    fix k q show "v_by_addr (v_del_nbr p v) k = Some q \<longleftrightarrow>
        (\<exists>n. v_nbrs (v_del_nbr p v) q = Some n \<and> addr_key (vn_af n) (vn_raddr n) = k)"
      using nbrs_okD(3) [OF ok, of k q] nbrs_okD(3) [OF ok, of k p] by (auto simp: maps)
  next
    show "ids_ordered (dom (v_nbrs (v_del_nbr p v)))"
      by (rule ids_ordered_mono [OF nbrs_okD(4) [OF ok]]) (auto simp: maps split: if_splits)
  qed
  then show ?thesis
    using ok by (simp add: view_ok_def lists_ok_def tnbrs_ok_def ifs_ok_def sel)
qed

section \<open>What deletions may change\<close>

definition drops :: "view \<Rightarrow> view \<Rightarrow> bool" where
  "drops v w \<longleftrightarrow>
     v_tnbr_list w = v_tnbr_list v \<and> v_if_list w = v_if_list v \<and>
     (\<forall>t. map_option vt_af (v_tnbrs w t) = map_option vt_af (v_tnbrs v t)) \<and>
     (\<forall>i. (v_ifs w i = None) = (v_ifs v i = None)) \<and> (\<forall>a x. v_adjs w a = Some x \<longrightarrow> v_adjs v a = Some x) \<and>
     (\<forall>i af. idle_link w i af \<longrightarrow> on_link w i af \<noteq> {} \<longrightarrow> idle_link v i af) \<and>
     dom (v_nbrs w) \<subseteq> dom (v_nbrs v) \<and> v_params w = v_params v"

lemma drops_refl: "drops v v"
  by (simp add: drops_def)

lemma drops_on_link: "drops v w \<Longrightarrow> on_link w i af \<subseteq> on_link v i af"
  unfolding drops_def on_link_def vsrc_def by fastforce

lemma drops_trans:
  assumes "drops u v" "drops v w"
  shows "drops u w"
proof -
  have "on_link v i af \<noteq> {}" if "on_link w i af \<noteq> {}" for i af using drops_on_link [OF assms(2), of i af] that by blast
  moreover have "dom (v_nbrs w) \<subseteq> dom (v_nbrs u)" using assms unfolding drops_def by blast
  ultimately show ?thesis using assms by (simp add: drops_def)
qed

lemma drops_v_drop: "drops v (v_drop a v)"
  by (auto simp: drops_def idle_link_def v_drop_maps option.map_comp o_def split: if_splits)

lemma drops_v_del_nbr: "drops v (v_del_nbr p v)"
  by (auto simp: drops_def v_del_nbr_def idle_link_def)

definition sheds :: "ldpe \<Rightarrow> ldpe \<Rightarrow> bool" where
  "sheds s t \<longleftrightarrow> eng_inv t \<and> (outs_ok s \<longrightarrow> outs_ok t) \<and> drops (view s) (view t)"

lemma sheds_refl: "eng_inv s \<Longrightarrow> sheds s s"
  by (simp add: sheds_def drops_refl)

lemma sheds_trans: "sheds s t \<Longrightarrow> sheds t u \<Longrightarrow> sheds s u"
  by (auto simp: sheds_def intro: drops_trans)

lemma sheds_inv: "sheds s t \<Longrightarrow> eng_inv t"
  by (simp add: sheds_def)

lemma calm_sheds: "eng_inv s \<Longrightarrow> calm s t \<Longrightarrow> sheds s t"
  by (simp add: sheds_def calm_def eng_inv_def drops_refl)

lemma okE_calm_sheds: "eng_inv s \<Longrightarrow> okE m (calm s) \<Longrightarrow> okE m (sheds s)"
  by (erule okE_mono) (rule calm_sheds)

lemma okE_sheds_trans: "sheds s t \<Longrightarrow> okE m (sheds t) \<Longrightarrow> okE m (sheds s)"
  by (erule okE_mono) (rule sheds_trans)

lemma sheds_iface: "sheds s t \<Longrightarrow> (e_ifaces t i = None) = (e_ifaces s i = None)"
  by (simp add: sheds_def drops_def)

lemma sheds_tnbr:
  assumes "sheds s t"
  shows "(e_tnbrs t x = None) = (e_tnbrs s x = None)"
proof -
  have "map_option vt_af (v_tnbrs (view t) x) = map_option vt_af (v_tnbrs (view s) x)"
    using assms by (simp add: sheds_def drops_def)
  then have "(v_tnbrs (view t) x = None) = (v_tnbrs (view s) x = None)" by (metis option.map_disc_iff)
  then show ?thesis by simp
qed

lemma sheds_lists: "sheds s t \<Longrightarrow> e_tnbr_list t = e_tnbr_list s" "sheds s t \<Longrightarrow> e_iface_list t = e_iface_list s"
  by (simp_all add: sheds_def drops_def)

lemma sheds_adj: "sheds s t \<Longrightarrow> e_adjs s a = None \<Longrightarrow> e_adjs t a = None"
  by (cases "e_adjs t a") (simp_all add: sheds_def drops_def, metis option.distinct(1) view_sel(6,10))

section \<open>Deleting one adjacency\<close>

lemma sess_inv_upd:
  assumes inv: "sess_inv s"
    and f: "\<And>n. rb_find (e_nbrs s) p = Some n \<Longrightarrow> nbr_ok n \<Longrightarrow> nbr_ok (f n) \<and> n_id (f n) = n_id n \<and> n_peerid (f n) = n_peerid n"
  shows "sess_inv (upd_n s p f)"
proof (cases "rb_find (e_nbrs s) p")
  case None
  then have "rb_find (e_nbrs (upd_n s p f)) q = rb_find (e_nbrs s) q" for q by simp
  with inv show ?thesis by (simp add: sess_inv_def pids_ok_def addrs_ok_def)
next
  case (Some n)
  note e = eff_upd_n [OF Some, of f]
  have fn: "nbr_ok (f n) \<and> n_id (f n) = n_id n \<and> n_peerid (f n) = n_peerid n" by (rule f [OF Some inv_nbr [OF inv Some]])
  have "pids_ok (upd_n s p f)" by (rule pids_ok_eff [OF e Some _ inv_pids [OF inv]]) (use fn in simp)
  then show ?thesis
    using inv fn inv_id [OF inv Some] addrs_ok_erase [OF eff_erase [OF e]] Some
    by (auto simp: sess_inv_def split: if_splits)
qed

lemma nbr_ok_adjs [simp]: "nbr_ok (n\<lparr>n_adj_list := xs\<rparr>) = nbr_ok n"
  by (simp add: nbr_ok_def timers_ok_def queues_ok_def split: nbr_state.split)

lemma get_adj_Some [simp]: "e_adjs s a = Some adj \<Longrightarrow> get_adj s a = Inr adj"
  by (simp add: get_adj_def)

lemma get_tnbr_Some [simp]: "e_tnbrs s t = Some tn \<Longrightarrow> get_tnbr s t = Inr tn"
  by (simp add: get_tnbr_def)

lemma get_iface_Some [simp]: "e_ifaces s i = Some ifc \<Longrightarrow> get_iface s i = Inr ifc"
  by (simp add: get_iface_def)

lemma get_ia_Some: "e_ifaces s i = Some ifc \<Longrightarrow> af \<noteq> AF_UNSPEC \<Longrightarrow> \<exists>ia. get_ia s i af = Inr ia"
  by (cases af) (simp_all add: get_ia_def iface_af_get_def)

definition gone :: "nat \<Rightarrow> ldpe \<Rightarrow> ldpe \<Rightarrow> bool" where
  "gone a s t \<longleftrightarrow> sess_inv t \<and> (outs_ok s \<longrightarrow> outs_ok t) \<and> view t = v_drop a (view s)"

lemma gone_sheds: "eng_inv s \<Longrightarrow> gone a s t \<Longrightarrow> sheds s t"
  by (simp add: gone_def sheds_def eng_inv_def v_drop_ok drops_v_drop)

lemma upd_n_fields [simp]:
  "e_adjs (upd_n s p f) = e_adjs s" "e_adj_list (upd_n s p f) = e_adj_list s" "e_tnbrs (upd_n s p f) = e_tnbrs s"
  "e_tnbr_list (upd_n s p f) = e_tnbr_list s" "e_ifaces (upd_n s p f) = e_ifaces s"
  "e_iface_list (upd_n s p f) = e_iface_list s" "e_nbrs_by_addr (upd_n s p f) = e_nbrs_by_addr s"
  "e_nbrp_list (upd_n s p f) = e_nbrp_list s"
  by (simp_all add: upd_n_def)

text \<open>The neighbour, then the source, of an adjacency that is being deleted.\<close>

definition unlink_nbr :: "ldpe \<Rightarrow> nat \<Rightarrow> u32 option \<Rightarrow> ldpe" where
  "unlink_nbr s a nb = (case nb of None \<Rightarrow> s | Some p \<Rightarrow> upd_n s p (\<lambda>n. n\<lparr>n_adj_list := remove1 a (n_adj_list n)\<rparr>))"

definition unlink_src :: "ldpe \<Rightarrow> nat \<Rightarrow> hello_source \<Rightarrow> ldpe" where
  "unlink_src s a src =
     (case src of
        HELLO_LINK i af _ \<Rightarrow> upd_ia s i af (\<lambda>ia. ia\<lparr>ia_adj_list := remove1 a (ia_adj_list ia)\<rparr>)
      | HELLO_TARGETED t \<Rightarrow> upd_t s t (\<lambda>tn. tn\<lparr>t_adj := None\<rparr>))"

lemma adj_del_single_eq:
  assumes ok: "eng_inv s" and a: "e_adjs s a = Some adj"
  shows "adj_del_single s a =
    Inr (unlink_src (unlink_nbr (s\<lparr>e_adj_list := remove1 a (e_adj_list s), e_adjs := (e_adjs s)(a := None)\<rparr>) a (a_nbr adj)) a (a_source adj))"
proof -
  let ?s = "s\<lparr>e_adj_list := remove1 a (e_adj_list s), e_adjs := (e_adjs s)(a := None)\<rparr>"
  have nb: "(case a_nbr adj of None \<Rightarrow> Inr ?s
        | Some p \<Rightarrow> bindE (get_nbr ?s p) (\<lambda>_. Inr (upd_n ?s p (\<lambda>n. n\<lparr>n_adj_list := remove1 a (n_adj_list n)\<rparr>))))
      = Inr (unlink_nbr ?s a (a_nbr adj))"
  proof (cases "a_nbr adj")
    case (Some p)
    then obtain n where "rb_find (e_nbrs ?s) p = Some n"
      using nbrs_okD(2) [OF eng_view [OF ok], of a "adj_view adj" p] a by auto
    then show ?thesis using Some by (simp add: unlink_nbr_def)
  qed (simp add: unlink_nbr_def)
  let ?u = "unlink_nbr ?s a (a_nbr adj)"
  have st: "e_ifaces ?u = e_ifaces s" "e_tnbrs ?u = e_tnbrs s" by (simp_all add: unlink_nbr_def split: option.split)
  have src: "(case a_source adj of
          HELLO_LINK i af _ \<Rightarrow>
            bindE (get_ia ?u i af) (\<lambda>_. Inr (upd_ia ?u i af (\<lambda>ia. ia\<lparr>ia_adj_list := remove1 a (ia_adj_list ia)\<rparr>)))
        | HELLO_TARGETED t \<Rightarrow>
            bindE (get_tnbr ?u t) (\<lambda>_. Inr (upd_t ?u t (\<lambda>tn. tn\<lparr>t_adj := None\<rparr>)))) = Inr (unlink_src ?u a (a_source adj))"
  proof (cases "a_source adj")
    case (HELLO_LINK i af x)
    then obtain ifc where "e_ifaces ?u i = Some ifc" "af \<noteq> AF_UNSPEC"
      using ifs_okD(4) [OF eng_view [OF ok], of a i af x] vsrc_view [OF a] st by auto
    then obtain ia where "get_ia ?u i af = Inr ia" using get_ia_Some by blast
    then show ?thesis using HELLO_LINK by (simp add: unlink_src_def)
  next
    case (HELLO_TARGETED t)
    then obtain tn where "e_tnbrs ?u t = Some tn"
      using tnbrs_okD(3) [OF eng_view [OF ok], of a t] vsrc_view [OF a] st by auto
    then show ?thesis using HELLO_TARGETED by (simp add: unlink_src_def)
  qed
  show ?thesis unfolding adj_del_single_def get_adj_Some [OF a] bindE_simps Let_def nb src by (rule refl)
qed

lemma unlink_nbr_view:
  assumes ok: "view_ok (view s)" and a: "e_adjs s a = Some adj" and s1: "e_nbrs s1 = e_nbrs s"
  shows "map_option nbr_view (rb_find (e_nbrs (unlink_nbr s1 a (a_nbr adj))) q) = v_nbrs (v_drop a (view s)) q"
proof (cases "rb_find (e_nbrs s) q")
  case (Some n)
  have "a \<in> set (n_adj_list n) \<longleftrightarrow> a_nbr adj = Some q"
    using nbrs_okD(1) [OF ok view_sel(5) [OF Some]] a by (auto simp: of_nbr_def)
  with Some s1 show ?thesis
    by (auto simp: unlink_nbr_def v_drop_maps nbr_view_def remove1_idem split: option.split)
qed (use s1 in \<open>auto simp: unlink_nbr_def v_drop_maps view_maps split: option.split\<close>)

lemma unlink_src_view:
  assumes ok: "view_ok (view s)" and a: "e_adjs s a = Some adj" and s1: "e_ifaces s1 = e_ifaces s" "e_tnbrs s1 = e_tnbrs s"
  shows "map_option iface_view (e_ifaces (unlink_src s1 a (a_source adj)) i) = v_ifs (v_drop a (view s)) i"
    "map_option tnbr_view (e_tnbrs (unlink_src s1 a (a_source adj)) t) = v_tnbrs (v_drop a (view s)) t"
proof -
  have src: "vsrc (view s) a = Some (a_source adj)" by (rule vsrc_view [OF a])
  show "map_option iface_view (e_ifaces (unlink_src s1 a (a_source adj)) i) = v_ifs (v_drop a (view s)) i"
  proof (cases "e_ifaces s i")
    case (Some ifc)
    have l4: "a \<in> set (ia_adj_list (if_ipv4 ifc)) \<longleftrightarrow> (\<exists>x. a_source adj = HELLO_LINK i AF_INET x)"
      using ifs_okD(2) [OF ok view_sel(8) [OF Some]] src by (auto simp: on_link_def)
    have l6: "a \<in> set (ia_adj_list (if_ipv6 ifc)) \<longleftrightarrow> (\<exists>x. a_source adj = HELLO_LINK i AF_INET6 x)"
      using ifs_okD(3) [OF ok view_sel(8) [OF Some]] src by (auto simp: on_link_def)
    have af: "af \<noteq> AF_UNSPEC" if "a_source adj = HELLO_LINK i af x" for af x
      using ifs_okD(4) [OF ok, of a i af x] src that by simp
    show ?thesis
    proof (cases "a_source adj")
      case (HELLO_LINK j af x)
      then show ?thesis
        using Some s1 l4 l6 af
        by (cases af) (auto simp: unlink_src_def upd_ia_def v_drop_maps iface_view_def remove1_idem)
    next
      case (HELLO_TARGETED u)
      then show ?thesis using Some s1 l4 l6 by (simp add: unlink_src_def v_drop_maps iface_view_def remove1_idem)
    qed
  qed (use s1 in \<open>auto simp: unlink_src_def upd_ia_def v_drop_maps view_maps split: hello_source.split\<close>)
  show "map_option tnbr_view (e_tnbrs (unlink_src s1 a (a_source adj)) t) = v_tnbrs (v_drop a (view s)) t"
  proof (cases "e_tnbrs s t")
    case (Some tn)
    have "t_adj tn = Some a \<longleftrightarrow> a_source adj = HELLO_TARGETED t"
      using tnbrs_okD(2) [OF ok view_sel(7) [OF Some], of a] src by simp
    then show ?thesis
      using Some s1 by (cases "a_source adj") (auto simp: unlink_src_def upd_ia_def v_drop_maps tnbr_view_def)
  qed (use s1 in \<open>auto simp: unlink_src_def upd_ia_def v_drop_maps view_maps split: hello_source.split\<close>)
qed

lemma adj_del_single_ok:
  assumes ok: "eng_inv s" and a: "e_adjs s a = Some adj"
  shows "okE (adj_del_single s a) (gone a s)"
proof -
  let ?s = "s\<lparr>e_adj_list := remove1 a (e_adj_list s), e_adjs := (e_adjs s)(a := None)\<rparr>"
  let ?u = "unlink_nbr ?s a (a_nbr adj)"
  let ?t = "unlink_src ?u a (a_source adj)"
  have uf: "e_ifaces ?u = e_ifaces s" "e_tnbrs ?u = e_tnbrs s" "e_adjs ?u = (e_adjs s)(a := None)"
    "e_adj_list ?u = remove1 a (e_adj_list s)" "e_tnbr_list ?u = e_tnbr_list s" "e_iface_list ?u = e_iface_list s"
    "e_nbrs_by_addr ?u = e_nbrs_by_addr s" "e_out ?u = e_out s" "e_peercnt ?u = e_peercnt s"
    "e_nbrp_list ?u = e_nbrp_list s"
    by (simp_all add: unlink_nbr_def split: option.split)
  have tf: "e_nbrs ?t = e_nbrs ?u" "e_adjs ?t = (e_adjs s)(a := None)" "e_adj_list ?t = remove1 a (e_adj_list s)"
    "e_tnbr_list ?t = e_tnbr_list s" "e_iface_list ?t = e_iface_list s" "e_nbrs_by_addr ?t = e_nbrs_by_addr s"
    "e_out ?t = e_out s" "e_peercnt ?t = e_peercnt s" "e_nbrs_by_pid ?t = e_nbrs_by_pid ?u" "e_addr_list ?t = e_addr_list ?u"
    "e_nbrp_list ?t = e_nbrp_list s"
    using uf by (simp_all add: unlink_src_def upd_ia_def split: hello_source.split)
  have "sess_inv ?s" using sess_inv_cong [of ?s s] eng_sess [OF ok] by simp
  then have "sess_inv ?u" by (auto simp: unlink_nbr_def intro!: sess_inv_upd split: option.split)
  then have "sess_inv ?t" using sess_inv_cong [of ?t ?u] tf(1,9,10) uf(9) tf(8) by simp
  moreover have "view ?t = v_drop a (view s)"
    unfolding view_def [of ?t]
    by (rule view.equality)
      (use unlink_nbr_view [OF eng_view [OF ok] a, of ?s] unlink_src_view [OF eng_view [OF ok] a uf(1,2)] tf in
        \<open>simp_all add: fun_eq_iff view_maps\<close>)
  ultimately show ?thesis
    unfolding adj_del_single_eq [OF assms] using outs_ok_cong [of ?t s] tf(7,8) by (simp add: gone_def)
qed

section \<open>Deleting a neighbour\<close>

lemma adjs_del_ok:
  "eng_inv s \<Longrightarrow> distinct as \<Longrightarrow> (\<And>a. a \<in> set as \<Longrightarrow> e_adjs s a \<noteq> None) \<Longrightarrow>
   okE (foldE adj_del_single as s) (\<lambda>t. sheds s t \<and> view t = fold v_drop as (view s))"
proof (induction as arbitrary: s)
  case (Cons a as)
  obtain adj where a: "e_adjs s a = Some adj" using Cons.prems(3) [of a] by auto
  have step: "okE (foldE adj_del_single as t) (\<lambda>u. sheds s u \<and> view u = fold v_drop (a # as) (view s))"
    if t: "gone a s t" for t
  proof -
    have sh: "sheds s t" by (rule gone_sheds [OF Cons.prems(1) t])
    have "e_adjs t b \<noteq> None" if "b \<in> set as" for b
    proof -
      have "v_adjs (view t) b = v_adjs (view s) b" using t that Cons.prems(2) by (auto simp: gone_def)
      then show ?thesis using Cons.prems(3) [of b] that by (auto simp: view_maps)
    qed
    then have "okE (foldE adj_del_single as t) (\<lambda>u. sheds t u \<and> view u = fold v_drop as (view t))"
      using Cons.prems(2) by (intro Cons.IH [OF sheds_inv [OF sh]]) auto
    then show ?thesis by (rule okE_mono) (use t sh in \<open>auto simp: gone_def intro: sheds_trans\<close>)
  qed
  show ?case
    unfolding foldE.simps by (rule okE_bind [OF adj_del_single_ok [OF Cons.prems(1) a] step])
qed (simp add: sheds_refl)

lemma of_nbr_fold: "of_nbr (fold v_drop as v) p = of_nbr v p - set as"
  by (induction as arbitrary: v) auto

lemma v_by_addr_key:
  assumes "view_ok (view s)" "rb_find (e_nbrs s) p = Some n"
  shows "rb_find (e_nbrs_by_addr s) k = Some p \<longleftrightarrow> k = addr_key (n_af n) (n_raddr n)"
  using nbrs_okD(3) [OF assms(1), of k p] assms(2) by auto

lemma nbr_gone_sess:
  assumes inv: "sess_inv s" and n: "rb_find (e_nbrs s) p = Some n"
    and t: "e_nbrs t = rb_remove (e_nbrs s) p" "e_addr_list t = e_addr_list s" "e_peercnt t = e_peercnt s"
      "e_nbrs_by_pid t = (if n_peerid n \<noteq> 0 then rb_remove (e_nbrs_by_pid s) (n_peerid n) else e_nbrs_by_pid s)"
  shows "sess_inv t"
proof -
  have find: "rb_find (e_nbrs t) q = (if q = p then None else rb_find (e_nbrs s) q)" for q by (simp add: t(1))
  have tree: "rb_find (e_nbrs_by_pid s) k = Some q \<longleftrightarrow> k \<noteq> 0 \<and> (\<exists>m. rb_find (e_nbrs s) q = Some m \<and> n_peerid m = k)" for k q
    using inv_pids [OF inv] by (simp add: pids_ok_def)
  have tree': "rb_find (e_nbrs_by_pid t) k = (if k = n_peerid n then None else rb_find (e_nbrs_by_pid s) k)" for k
    using tree [of 0] by (cases "rb_find (e_nbrs_by_pid s) 0") (auto simp: t(4))
  have "(rb_find (e_nbrs_by_pid t) k = Some q) = (k \<noteq> 0 \<and> (\<exists>m. rb_find (e_nbrs t) q = Some m \<and> n_peerid m = k))" for k q
    using tree [of k q] tree [of k p] n by (auto simp: tree' find)
  then have "pids_ok t" using inv_pids [OF inv] by (simp add: pids_ok_def find t(3))
  then show ?thesis using inv t(2) by (simp add: sess_inv_def find addrs_ok_def)
qed

lemma nbr_del_ok:
  assumes ok: "eng_inv s" and n: "rb_find (e_nbrs s) p = Some n" and none: "n_adj_list n = []"
  shows "okE (nbr_del y s p) (\<lambda>t. sheds s t \<and> view t = v_del_nbr p (view s))"
proof -
  have empty: "of_nbr (view s) p = {}" using nbrs_okD(1) [OF eng_view [OF ok] view_sel(5) [OF n]] none by simp
  have fin: "sheds s t \<and> view t = v_del_nbr p (view s)"
    if k: "calm s u" and m: "rb_find (e_nbrs u) p = Some m"
      and t: "t = u\<lparr>e_nbrs_by_pid := (if n_peerid m \<noteq> 0 then rb_remove (e_nbrs_by_pid u) (n_peerid m) else e_nbrs_by_pid u),
             e_nbrs := rb_remove (e_nbrs u) p,
             e_nbrs_by_addr := rb_remove (e_nbrs_by_addr u) (addr_key (n_af m) (n_raddr m))\<rparr>" for u m t
  proof -
    have vu: "view_ok (view u)" "view u = view s" using k eng_view [OF ok] by (simp_all add: calm_def)
    have inv: "sess_inv t" by (rule nbr_gone_sess [OF _ m]) (use k in \<open>simp_all add: calm_def t\<close>)
    have "view t = v_del_nbr p (view u)"
      unfolding view_def [of t]
      by (rule view.equality)
        (use v_by_addr_key [OF vu(1) m] in \<open>auto simp: t v_del_nbr_def fun_eq_iff view_maps\<close>)
    then have v: "view t = v_del_nbr p (view s)" by (simp add: vu(2))
    have "outs_ok s \<longrightarrow> outs_ok t" using k outs_ok_cong [of t u] by (simp add: calm_def t)
    with inv v v_del_nbr_ok [OF eng_view [OF ok] empty] drops_v_del_nbr show ?thesis
      by (simp add: sheds_def eng_inv_def)
  qed
  show ?thesis
    unfolding nbr_del_def
  proof (rule okE_bind [OF nbr_fsm_stays [OF eng_sess [OF ok] n]], goal_cases)
    case (4 u)
    then have u: "stays s u" .
    have pu: "rb_find (e_nbrs u) p \<noteq> None" using stays_valid [OF u, of p] n by simp
    show ?case
    proof (rule okE_bind [OF pfkey_remove_stays [OF stays_inv [OF u] pu]], clarify)
      fix w b assume "stays2 u (w, b)"
      then have w: "stays s w" using stays_trans [OF u] by simp
      then obtain m where m: "rb_find (e_nbrs w) p = Some m" using stays_valid [OF w, of p] n by auto
      show "okE (bindE (get_nbr w p) (\<lambda>n. Inr (w\<lparr>e_nbrs_by_pid := (if n_peerid n \<noteq> 0 then rb_remove (e_nbrs_by_pid w) (n_peerid n)
                              else e_nbrs_by_pid w),
             e_nbrs := rb_remove (e_nbrs w) p,
             e_nbrs_by_addr := rb_remove (e_nbrs_by_addr w) (addr_key (n_af n) (n_raddr n))\<rparr>)))
           (\<lambda>t. sheds s t \<and> view t = v_del_nbr p (view s))"
        using fin [OF stays_calm [OF w] m refl] by (simp add: m)
    qed
  qed simp_all
qed

section \<open>Deleting an adjacency\<close>

lemma adj_get_af_total:
  assumes "eng_inv s" "e_adjs s a = Some adj"
  shows "okE (adj_get_af s adj) (\<lambda>_. True)"
  using eng_source_live [OF assms] by (cases "a_source adj") (auto simp: adj_get_af_def hello_live_def hello_dst_of_def)

lemma nbr_adj_count_total:
  assumes ok: "eng_inv s" and n: "rb_find (e_nbrs s) p = Some n"
  shows "okE (nbr_adj_count s n af) (\<lambda>_. True)"
  unfolding nbr_adj_count_def
proof (rule okE_foldE)
  fix c a assume "a \<in> set (n_adj_list n)"
  then obtain adj where a: "e_adjs s a = Some adj" using eng_nbr_adj [OF ok n] by blast
  show "okE (bindE (get_adj s a) (\<lambda>adj. bindE (adj_get_af s adj) (\<lambda>x. Inr (if x = af then Suc c else c)))) (\<lambda>_. True)"
    using adj_get_af_total [OF ok a] a by (simp add: okE_bind_iff)
qed simp

lemma last_adj_ok:
  assumes ok: "eng_inv s" and n: "rb_find (e_nbrs s) p = Some n"
  shows "okE (bindE (foldE adj_del_single (n_adj_list n) s) (\<lambda>s2.
           bindE (session_shutdown s2 p status 0 0) (\<lambda>s3. nbr_del y s3 p))) (sheds s)"
proof (rule okE_bind [OF adjs_del_ok [OF ok]])
  have vn: "distinct (n_adj_list n) \<and> set (n_adj_list n) = of_nbr (view s) p"
    using nbrs_okD(1) [OF eng_view [OF ok] view_sel(5) [OF n]] by simp
  then show "distinct (n_adj_list n)" by simp
  show "e_adjs s a \<noteq> None" if "a \<in> set (n_adj_list n)" for a using eng_nbr_adj [OF ok n that] by auto
  fix t assume t: "sheds s t \<and> view t = fold v_drop (n_adj_list n) (view s)"
  have none: "of_nbr (view t) p = {}" using t vn by (simp add: of_nbr_fold)
  have keep: "v_nbrs (fold v_drop as v) p \<noteq> None" if "v_nbrs v p \<noteq> None" for as v
    using that by (induction as arbitrary: v) (simp_all add: v_drop_maps)
  have "v_nbrs (view t) p \<noteq> None" using keep [of "view s" "n_adj_list n"] t n by simp
  then obtain m where m: "rb_find (e_nbrs t) p = Some m" by auto
  have okt: "eng_inv t" using t sheds_inv by blast
  show "okE (bindE (session_shutdown t p status 0 0) (\<lambda>s3. nbr_del y s3 p)) (sheds s)"
  proof (rule okE_bind [OF session_shutdown_stays [OF eng_sess [OF okt] m]])
    fix u assume u: "stays t u"
    note k = stays_calm [OF u]
    have sh: "sheds s u" using sheds_trans [OF _ calm_sheds [OF okt k]] t by blast
    obtain m' where m': "rb_find (e_nbrs u) p = Some m'" using stays_valid [OF u, of p] m by auto
    have "n_adj_list m' = []"
      using nbrs_okD(1) [OF eng_view [OF sheds_inv [OF sh]] view_sel(5) [OF m']] none k by (simp add: calm_def)
    from nbr_del_ok [OF sheds_inv [OF sh] m' this] show "okE (nbr_del y u p) (sheds s)"
      by (rule okE_mono) (blast intro: sheds_trans sh)
  qed
qed

lemma adj_del_ok:
  assumes ok: "eng_inv s" and a: "e_adjs s a = Some adj"
  shows "okE (adj_del y s a status) (\<lambda>t. sheds s t \<and> e_adjs t a = None)"
proof -
  have none: "e_adjs t a = None" if "sheds u t" "gone a s u" for u t
  proof -
    have "v_adjs (view u) a = None" using that(2) by (simp add: gone_def)
    then show ?thesis using sheds_adj [OF that(1)] by simp
  qed
  have rest: "okE (case a_nbr adj of
       None \<Rightarrow> Inr u
     | Some p \<Rightarrow>
         bindE (get_nbr u p) (\<lambda>n. bindE (nbr_adj_count u n (n_af n)) (\<lambda>c.
         if c \<noteq> 0 then Inr u
         else bindE (foldE adj_del_single (n_adj_list n) u) (\<lambda>s2.
           bindE (session_shutdown s2 p status 0 0) (\<lambda>s3. nbr_del y s3 p))))) (sheds u)" if u: "gone a s u" for u
  proof (cases "a_nbr adj")
    case None
    then show ?thesis using sheds_refl [OF sheds_inv [OF gone_sheds [OF ok u]]] by simp
  next
    case (Some p)
    have oku: "eng_inv u" by (rule sheds_inv [OF gone_sheds [OF ok u]])
    have "v_nbrs (view s) p \<noteq> None" using nbrs_okD(2) [OF eng_view [OF ok] view_sel(6) [OF a], of p] Some by auto
    then have "v_nbrs (view u) p \<noteq> None" using u by (auto simp: gone_def v_drop_maps)
    then obtain n where n: "rb_find (e_nbrs u) p = Some n" by auto
    show ?thesis
      using Some n last_adj_ok [OF oku n, of status y] sheds_refl [OF oku]
      by (auto intro!: okE_bind [OF nbr_adj_count_total [OF oku n]])
  qed
  have "okE (adj_del y s a status) (\<lambda>t. \<exists>u. gone a s u \<and> sheds u t)"
    unfolding adj_del_def get_adj_Some [OF a] bindE_simps
    by (rule okE_bind [OF adj_del_single_ok [OF ok a]]) (use rest in \<open>blast intro: okE_mono\<close>)
  then show ?thesis by (rule okE_mono) (use none gone_sheds [OF ok] in \<open>blast intro: sheds_trans\<close>)
qed

section \<open>Targeted neighbours\<close>

text \<open>A targeted neighbour is gone; otherwise only what deletions change has changed.\<close>

definition thins :: "ldpe \<Rightarrow> ldpe \<Rightarrow> bool" where
  "thins s t \<longleftrightarrow>
     eng_inv t \<and> (outs_ok s \<longrightarrow> outs_ok t) \<and> e_iface_list t = e_iface_list s \<and>
     (\<forall>i. (e_ifaces t i = None) = (e_ifaces s i = None)) \<and>
     (\<forall>i af. on_link (view t) i af \<subseteq> on_link (view s) i af) \<and>
     (\<forall>i af. idle_link (view t) i af \<longrightarrow> on_link (view t) i af \<noteq> {} \<longrightarrow> idle_link (view s) i af) \<and>
     nbr_ids t \<subseteq> nbr_ids s \<and> e_nbrp_list t = e_nbrp_list s"

lemma thins_trans:
  assumes "thins s t" "thins t u"
  shows "thins s u"
proof -
  have "on_link (view t) i af \<noteq> {}" if "on_link (view u) i af \<noteq> {}" for i af
    using assms(2) that unfolding thins_def by blast
  moreover have "on_link (view u) i af \<subseteq> on_link (view s) i af" for i af
    using assms unfolding thins_def by blast
  moreover have "nbr_ids u \<subseteq> nbr_ids s" using assms unfolding thins_def by blast
  ultimately show ?thesis using assms by (simp add: thins_def)
qed

lemma sheds_thins: "sheds s t \<Longrightarrow> thins s t"
  using sheds_iface [of s t] sheds_lists(2) [of s t] drops_on_link [of "view s" "view t"]
  unfolding thins_def sheds_def drops_def nbr_ids_view view_sel(13) by blast

definition sheds_t :: "nat \<Rightarrow> ldpe \<Rightarrow> ldpe \<Rightarrow> bool" where
  "sheds_t x s t \<longleftrightarrow> thins s t \<and> (\<forall>u. u \<noteq> x \<longrightarrow> (e_tnbrs t u = None) = (e_tnbrs s u = None))"

lemma sheds_sheds_t: "sheds s t \<Longrightarrow> sheds_t x s t"
  using sheds_thins [of s t] sheds_tnbr [of s t] by (simp add: sheds_t_def)

lemma sheds_t_trans: "sheds s t \<Longrightarrow> sheds_t x t u \<Longrightarrow> sheds_t x s u"
  using sheds_sheds_t [of s t x] thins_trans [of s t u] by (simp add: sheds_t_def)

lemma sheds_t_inv: "sheds_t x s t \<Longrightarrow> eng_inv t"
  by (simp add: sheds_t_def thins_def)

lemma tnbr_remove_ok:
  assumes ok: "eng_inv s" and no: "\<And>a. vsrc (view s) a \<noteq> Some (HELLO_TARGETED x)"
  shows "sheds_t x s (s\<lparr>e_tnbr_list := remove1 x (e_tnbr_list s), e_tnbrs := (e_tnbrs s)(x := None)\<rparr>)"
proof -
  let ?t = "s\<lparr>e_tnbr_list := remove1 x (e_tnbr_list s), e_tnbrs := (e_tnbrs s)(x := None)\<rparr>"
  have v: "view ?t = (view s)\<lparr>v_tnbr_list := remove1 x (e_tnbr_list s), v_tnbrs := (v_tnbrs (view s))(x := None)\<rparr>"
    by (rule view.equality) (simp_all add: view_def fun_eq_iff)
  have sel: "vsrc (view ?t) = vsrc (view s)" "on_link (view ?t) = on_link (view s)" "of_nbr (view ?t) = of_nbr (view s)"
    by (auto simp: v vsrc_def on_link_def of_nbr_def fun_eq_iff)
  have "lists_ok (view ?t)" using eng_view [OF ok] by (auto simp: view_ok_def lists_ok_def v dom_def view_maps)
  moreover have "tnbrs_ok (view ?t)"
    using tnbrs_okD [OF eng_view [OF ok]] no
    by (intro tnbrs_okI) (auto simp: v [THEN arg_cong, of v_tnbrs] sel split: if_splits simp del: not_None_eq)
  moreover have "ifs_ok (view ?t)" "nbrs_ok (view ?t)"
    using eng_view [OF ok] by (simp_all add: view_ok_def ifs_ok_def nbrs_ok_def sel) (simp_all add: v)
  ultimately have "view_ok (view ?t)" by (simp add: view_ok_def)
  moreover have "sess_inv ?t" using sess_inv_cong [of ?t s] eng_sess [OF ok] by simp
  moreover have "idle_link (view ?t) = idle_link (view s)" by (auto simp: idle_link_def fun_eq_iff v)
  moreover have "nbr_ids ?t = nbr_ids s" by (simp add: nbr_ids_def)
  ultimately show ?thesis using outs_ok_cong [of ?t s] sel by (simp add: sheds_t_def thins_def eng_inv_def)
qed

lemma tnbr_del_ok:
  assumes ok: "eng_inv s" and tn: "e_tnbrs s x = Some tn"
  shows "okE (tnbr_del y s x) (sheds_t x s)"
proof -
  let ?s = "tnbr_stop_hello_timer s x"
  have k: "calm s ?s" unfolding tnbr_stop_hello_timer_def by (rule calm_upd_t [OF eng_sess [OF ok]]) (simp add: tnbr_view_def)
  have oks: "eng_inv ?s" by (rule calm_inv [OF k ok])
  have src: "t_adj tn = Some a \<longleftrightarrow> vsrc (view ?s) a = Some (HELLO_TARGETED x)" for a
    using tnbrs_okD(2) [OF eng_view [OF ok] view_sel(7) [OF tn], of a] k by (simp add: calm_def)
  have fin: "sheds_t x s (t\<lparr>e_tnbr_list := remove1 x (e_tnbr_list t), e_tnbrs := (e_tnbrs t)(x := None)\<rparr>)"
    if t: "sheds ?s t" and no: "\<And>a. t_adj tn = Some a \<Longrightarrow> e_adjs t a = None" for t
  proof -
    have "vsrc (view t) a \<noteq> Some (HELLO_TARGETED x)" for a
    proof
      assume v: "vsrc (view t) a = Some (HELLO_TARGETED x)"
      then obtain z where z: "v_adjs (view t) a = Some z" by (auto simp: vsrc_def)
      then have "v_adjs (view ?s) a = Some z" using t by (simp add: sheds_def drops_def)
      with v z have "t_adj tn = Some a" using src [of a] by (simp add: vsrc_def)
      with z no show False by (metis option.distinct(1) view_sel(10))
    qed
    from sheds_t_trans [OF sheds_trans [OF calm_sheds [OF ok k] t] tnbr_remove_ok [OF sheds_inv [OF t] this]]
    show ?thesis .
  qed
  have del: "okE (adj_del y ?s a S_SHUTDOWN) (\<lambda>t. sheds ?s t \<and> e_adjs t a = None)" if "t_adj tn = Some a" for a
  proof -
    have "e_adjs ?s a \<noteq> None" using src [of a] that by (auto simp: vsrc_def view_maps)
    then show ?thesis using adj_del_ok [OF oks] by auto
  qed
  show ?thesis
    unfolding tnbr_del_def get_tnbr_Some [OF tn] bindE_simps
    by (cases "t_adj tn") (use fin sheds_refl [OF oks] in \<open>auto intro!: okE_bind [OF del]\<close>)
qed

end
