(* ===== verification/Ldpe_DiscSafe.thy ===== *)
theory Ldpe_DiscSafe
  imports Ldpe_Adj
begin

text \<open>
  Discovery keeps the tables in order: hellos create adjacencies, targeted neighbours and
  neighbours; timeouts, interface and socket changes remove them. No operation faults.
\<close>

section \<open>What any operation keeps\<close>

definition runs :: "ldpe \<Rightarrow> ldpe \<Rightarrow> bool" where
  "runs s t \<longleftrightarrow>
     eng_inv t \<and> (outs_ok s \<longrightarrow> outs_ok t) \<and> e_iface_list t = e_iface_list s \<and>
     (\<forall>i. (e_ifaces t i = None) = (e_ifaces s i = None))"

lemma runs_refl: "eng_inv s \<Longrightarrow> runs s s"
  by (simp add: runs_def)

lemma runs_trans: "runs s t \<Longrightarrow> runs t u \<Longrightarrow> runs s u"
  by (simp add: runs_def)

lemma runs_inv: "runs s t \<Longrightarrow> eng_inv t"
  by (simp add: runs_def)

lemma thins_runs: "thins s t \<Longrightarrow> runs s t"
  by (simp add: thins_def runs_def)

lemma sheds_t_runs: "sheds_t x s t \<Longrightarrow> runs s t"
  by (simp add: sheds_t_def thins_runs)

lemma sheds_runs: "sheds s t \<Longrightarrow> runs s t"
  by (rule sheds_t_runs [OF sheds_sheds_t])

lemma calm_runs: "eng_inv s \<Longrightarrow> calm s t \<Longrightarrow> runs s t"
  by (rule sheds_runs [OF calm_sheds])

text \<open>The operations that make no new neighbour.\<close>

definition shrinks :: "ldpe \<Rightarrow> ldpe \<Rightarrow> bool" where
  "shrinks s t \<longleftrightarrow> runs s t \<and> nbr_ids t \<subseteq> nbr_ids s"

lemma shrinks_refl: "eng_inv s \<Longrightarrow> shrinks s s"
  by (simp add: shrinks_def runs_refl)

lemma shrinks_trans: "shrinks s t \<Longrightarrow> shrinks t u \<Longrightarrow> shrinks s u"
  unfolding shrinks_def by (blast intro: runs_trans)

lemma shrinks_inv: "shrinks s t \<Longrightarrow> eng_inv t"
  unfolding shrinks_def by (blast intro: runs_inv)

lemma sheds_t_shrinks: "sheds_t x s t \<Longrightarrow> shrinks s t"
  by (simp add: sheds_t_def thins_def shrinks_def thins_runs)

lemma calm_shrinks: "eng_inv s \<Longrightarrow> calm s t \<Longrightarrow> shrinks s t"
  by (rule sheds_t_shrinks [OF sheds_sheds_t [OF calm_sheds]])

lemma okE_calm_runs: "eng_inv s \<Longrightarrow> okE m (calm s) \<Longrightarrow> okE m (runs s)"
  by (erule okE_mono) (rule calm_runs)

lemma okE_stays_runs: "eng_inv s \<Longrightarrow> okE m (stays s) \<Longrightarrow> okE m (runs s)"
  by (rule okE_calm_runs [OF _ okE_stays_calm])

lemma okE_sheds_runs: "okE m (sheds s) \<Longrightarrow> okE m (runs s)"
  by (erule okE_mono) (rule sheds_runs)

lemma okE_runs_trans: "runs s t \<Longrightarrow> okE m (runs t) \<Longrightarrow> okE m (runs s)"
  by (erule okE_mono) (rule runs_trans)

lemma okE_runs_bind:
  "okE m (runs s) \<Longrightarrow> (\<And>t. runs s t \<Longrightarrow> okE (f t) (runs t)) \<Longrightarrow> okE (bindE m f) (runs s)"
  by (rule okE_bind, assumption) (blast intro: okE_runs_trans)

lemma okE_runs_foldE:
  assumes "eng_inv s" and "\<And>t x. x \<in> set xs \<Longrightarrow> runs s t \<Longrightarrow> okE (f t x) (runs t)"
  shows "okE (foldE f xs s) (runs s)"
  by (rule okE_foldE) (use assms in \<open>auto intro: runs_refl okE_runs_trans\<close>)

lemma runs_iface: "runs s t \<Longrightarrow> i \<in> set (e_iface_list s) \<Longrightarrow> \<exists>ifc. e_ifaces t i = Some ifc"
  by (metis runs_def eng_iface)

text \<open>The same for calm operations.\<close>

lemma calm_sess: "calm s t \<Longrightarrow> sess_inv t"
  by (simp add: calm_def)

lemma okE_calm_trans: "calm s t \<Longrightarrow> okE m (calm t) \<Longrightarrow> okE m (calm s)"
  by (erule okE_mono) (rule calm_trans)

lemma okE_calm_foldE:
  assumes "sess_inv s" and "\<And>t x. x \<in> set xs \<Longrightarrow> calm s t \<Longrightarrow> okE (f t x) (calm t)"
  shows "okE (foldE f xs s) (calm s)"
  by (rule okE_foldE) (use assms in \<open>auto intro: calm_refl okE_calm_trans\<close>)

lemma calm_tnbr:
  assumes "calm s t" "e_tnbrs s x = Some tn"
  shows "\<exists>tn'. e_tnbrs t x = Some tn' \<and> t_af tn' = t_af tn \<and> t_adj tn' = t_adj tn"
proof -
  have "v_tnbrs (view t) x = v_tnbrs (view s) x" using assms(1) by (simp add: calm_def)
  with assms(2) show ?thesis by (auto simp: view_maps tnbr_view_def)
qed

lemma calm_iface:
  assumes "calm s t" "e_ifaces s i = Some ifc"
  shows "\<exists>ifc'. e_ifaces t i = Some ifc'"
proof -
  have "v_ifs (view t) i = v_ifs (view s) i" using assms(1) by (simp add: calm_def)
  with assms(2) show ?thesis by (auto simp: view_maps)
qed

section \<open>Targeted neighbours\<close>

lemma ldp_af_global_get_total: "af \<noteq> AF_UNSPEC \<Longrightarrow> okE (ldp_af_global_get s af) (\<lambda>_. True)"
  by (cases af) (simp_all add: ldp_af_global_get_def)

lemma tnbr_timer_calm:
  "sess_inv s \<Longrightarrow> calm s (tnbr_start_hello_timer s x)" "sess_inv s \<Longrightarrow> calm s (tnbr_stop_hello_timer s x)"
  "sess_inv s \<Longrightarrow> calm s (upd_t s x (\<lambda>tn. tn\<lparr>t_active := b\<rparr>))" "sess_inv s \<Longrightarrow> calm s (upd_t s x (\<lambda>tn. tn\<lparr>t_flags := f tn\<rparr>))"
  unfolding tnbr_start_hello_timer_def tnbr_stop_hello_timer_def
  by (rule calm_upd_t; simp add: tnbr_view_def)+

lemma tnbr_hello_calm:
  assumes "sess_inv s" "e_tnbrs s x = Some tn" "t_af tn \<noteq> AF_UNSPEC"
  shows "okE (bindE (send_hello s (To_target x)) (\<lambda>s1. Inr (tnbr_start_hello_timer s1 x))) (calm s)"
proof (rule okE_bind [OF stays_hello [OF assms(1)]])
  show "hello_live s (To_target x)" using assms by (simp add: hello_live_def)
  fix t assume "stays s t"
  then have t: "calm s t" by (rule stays_calm)
  then show "okE (Inr (tnbr_start_hello_timer t x)) (calm s)"
    using calm_trans [OF t tnbr_timer_calm(1) [OF calm_sess [OF t]]] by simp
qed

lemma tnbr_update_calm:
  assumes inv: "sess_inv s" and tn: "e_tnbrs s x = Some tn" and af: "t_af tn \<noteq> AF_UNSPEC"
  shows "okE (tnbr_update s x) (calm s)"
proof -
  have on: "calm s (upd_t s x (\<lambda>tn. tn\<lparr>t_active := b\<rparr>))" for b by (rule tnbr_timer_calm(3) [OF inv])
  have start: "okE (bindE (send_hello (upd_t s x (\<lambda>tn. tn\<lparr>t_active := True\<rparr>)) (To_target x))
      (\<lambda>s1. Inr (tnbr_start_hello_timer s1 x))) (calm s)"
    by (rule okE_calm_trans [OF on tnbr_hello_calm [OF calm_sess [OF on], where tn = "tn\<lparr>t_active := True\<rparr>"]])
      (use tn af in auto)
  have stop: "calm s (tnbr_stop_hello_timer (upd_t s x (\<lambda>tn. tn\<lparr>t_active := False\<rparr>)) x)"
    by (rule calm_trans [OF on tnbr_timer_calm(2) [OF calm_sess [OF on]]])
  show ?thesis
    unfolding tnbr_update_def get_tnbr_Some [OF tn] bindE_simps Let_def
    by (rule okE_bind [OF ldp_af_global_get_total [OF af]]) (use start stop calm_refl [OF inv] in auto)
qed

lemma tnbr_update_all_calm:
  assumes ok: "eng_inv s"
  shows "okE (tnbr_update_all s af) (calm s)"
  unfolding tnbr_update_all_def
proof (rule okE_calm_foldE [OF eng_sess [OF ok]])
  fix t x assume x: "x \<in> set (e_tnbr_list s)" and t: "calm s t"
  have okt: "eng_inv t" by (rule calm_inv [OF t ok])
  obtain tn where "e_tnbrs s x = Some tn" using eng_tnbr [OF ok x] by blast
  then obtain tn' where tn': "e_tnbrs t x = Some tn'" using calm_tnbr [OF t] by blast
  show "okE (bindE (get_tnbr t x) (\<lambda>tn. if t_af tn = af \<or> af = AF_UNSPEC then tnbr_update t x else Inr t)) (calm t)"
    using tnbr_update_calm [OF eng_sess [OF okt] tn' eng_tnbr_af [OF okt tn']] calm_refl [OF eng_sess [OF okt]] tn' by simp
qed

lemma tnbr_hello_timer_calm:
  "eng_inv s \<Longrightarrow> e_tnbrs s x = Some tn \<Longrightarrow> okE (tnbr_hello_timer s x) (calm s)"
  unfolding tnbr_hello_timer_def using tnbr_hello_calm eng_sess eng_tnbr_af by blast

text \<open>\<open>tnbr_check\<close> either changes nothing or deletes the targeted neighbour.\<close>

definition checked :: "nat \<Rightarrow> ldpe \<Rightarrow> ldpe \<times> bool \<Rightarrow> bool" where
  "checked x s r \<longleftrightarrow> sheds_t x s (fst r) \<and> (snd r \<longrightarrow> fst r = s)"

lemma tnbr_check_ok:
  assumes "eng_inv s" "e_tnbrs s x = Some tn"
  shows "okE (tnbr_check y s x) (checked x s)"
  using tnbr_del_ok [OF assms] sheds_sheds_t [OF sheds_refl [OF assms(1)]] assms(2)
  by (auto simp: tnbr_check_def checked_def okE_bind_iff elim!: okE_mono)

text \<open>A loop over all targeted neighbours whose body removes at most the one it looks at.\<close>

lemma sheds_t_thins: "sheds_t x s t \<Longrightarrow> thins s t"
  by (simp add: sheds_t_def)

lemma tnbr_foldE_thins:
  assumes f: "\<And>t x tn. eng_inv t \<Longrightarrow> e_tnbrs t x = Some tn \<Longrightarrow> okE (f t x) (sheds_t x t)"
  shows "distinct xs \<Longrightarrow> eng_inv u \<Longrightarrow> (\<And>x. x \<in> set xs \<Longrightarrow> e_tnbrs u x \<noteq> None) \<Longrightarrow> okE (foldE f xs u) (thins u)"
proof (induction xs arbitrary: u)
  case (Cons x xs)
  obtain tn where tn: "e_tnbrs u x = Some tn" using Cons.prems(3) [of x] by auto
  show ?case
    unfolding foldE.simps
  proof (rule okE_bind [OF f [OF Cons.prems(2) tn]])
    fix t assume t: "sheds_t x u t"
    have "okE (foldE f xs t) (thins t)"
    proof (rule Cons.IH [OF _ sheds_t_inv [OF t]])
      fix z assume z: "z \<in> set xs"
      then have "z \<noteq> x" using Cons.prems(1) by auto
      then have "(e_tnbrs t z = None) = (e_tnbrs u z = None)" using t by (simp add: sheds_t_def)
      then show "e_tnbrs t z \<noteq> None" using Cons.prems(3) [of z] z by simp
    qed (use Cons.prems(1) in simp)
    then show "okE (foldE f xs t) (thins u)" by (rule okE_mono) (rule thins_trans [OF sheds_t_thins [OF t]])
  qed
qed (simp add: sheds_thins [OF sheds_refl])

lemma all_tnbrs_thins:
  assumes "eng_inv s" and "\<And>t x tn. eng_inv t \<Longrightarrow> e_tnbrs t x = Some tn \<Longrightarrow> okE (f t x) (sheds_t x t)"
  shows "okE (foldE f (e_tnbr_list s) s) (thins s)"
proof (rule tnbr_foldE_thins [OF assms(2) _ assms(1)])
  show "distinct (e_tnbr_list s)" using eng_view [OF assms(1)] by (simp add: view_ok_def lists_ok_def)
qed (use eng_tnbr [OF assms(1)] in auto)

text \<open>Clearing a flag of a targeted neighbour and checking whether it is still needed.\<close>

lemma tnbr_recheck_ok:
  assumes ok: "eng_inv s" and tn: "e_tnbrs s x = Some tn" and f: "\<And>tn. tnbr_view (f tn) = tnbr_view tn"
  shows "okE (bindE (tnbr_check y (upd_t s x f) x) (\<lambda>(s1, _). Inr s1)) (sheds_t x s)"
proof -
  have k: "calm s (upd_t s x f)" by (rule calm_upd_t [OF eng_sess [OF ok] f])
  show ?thesis
    by (rule okE_bind [OF tnbr_check_ok [OF calm_inv [OF k ok]]])
      (use tn sheds_t_trans [OF calm_sheds [OF ok k]] in \<open>auto simp: checked_def\<close>)
qed

lemma ldpe_remove_dynamic_tnbrs_ok:
  assumes ok: "eng_inv s"
  shows "okE (ldpe_remove_dynamic_tnbrs y s af) (thins s)"
  unfolding ldpe_remove_dynamic_tnbrs_def
proof (rule all_tnbrs_thins [OF ok])
  fix t x tn assume t: "eng_inv t" and tn: "e_tnbrs t x = Some tn"
  show "okE (bindE (get_tnbr t x) (\<lambda>tn.
       if t_af tn \<noteq> af then Inr t
       else bindE (tnbr_check y (upd_t t x (\<lambda>tn. tn\<lparr>t_flags := clear_flag (t_flags tn) F_TNBR_DYNAMIC\<rparr>)) x)
              (\<lambda>(s1, _). Inr s1))) (sheds_t x t)"
    using tnbr_recheck_ok [OF t tn, of "\<lambda>tn. tn\<lparr>t_flags := clear_flag (t_flags tn) F_TNBR_DYNAMIC\<rparr>"]
      sheds_sheds_t [OF sheds_refl [OF t]] tn by (simp add: tnbr_view_def)
qed

section \<open>The inactivity timer\<close>

lemma adj_timer_calm:
  "sess_inv s \<Longrightarrow> calm s (adj_stop_itimer s a)" "sess_inv s \<Longrightarrow> calm s (adj_start_itimer s a)"
  "sess_inv s \<Longrightarrow> calm s (upd_adj s a (\<lambda>adj. adj\<lparr>a_holdtime := ht\<rparr>))"
  unfolding adj_stop_itimer_def adj_start_itimer_def
  by (rule calm_upd_adj; simp add: adj_view_def)+

lemma adj_del_single_target:
  assumes "e_adjs s a = Some adj" "a_source adj = HELLO_TARGETED x"
  shows "adj_del_single (upd_t s x (\<lambda>tn. tn\<lparr>t_adj := None\<rparr>)) a = adj_del_single s a"
proof -
  have upd: "upd_t (upd_n r p f) x g = upd_n (upd_t r x g) p f" for r p f g by (simp add: upd_t_def upd_n_def)
  have twice: "upd_t (upd_t r x (\<lambda>tn. tn\<lparr>t_adj := None\<rparr>)) x (\<lambda>tn. tn\<lparr>t_adj := None\<rparr>) = upd_t r x (\<lambda>tn. tn\<lparr>t_adj := None\<rparr>)" for r
    by (simp add: upd_t_def option.map_comp o_def)
  have com: "(upd_t s x g)\<lparr>e_adj_list := l, e_adjs := m\<rparr> = upd_t (s\<lparr>e_adj_list := l, e_adjs := m\<rparr>) x g" for l m g
    by (simp add: upd_t_def)
  have get: "bindE (get_tnbr (upd_t r x g) x) (\<lambda>_. k) = bindE (get_tnbr r x) (\<lambda>_. k)" for r g and k :: "ldpe res"
    by (simp add: get_tnbr_def split: option.split)
  have nb: "get_nbr (upd_t r x g) p = get_nbr r p" for r g p by (simp add: get_nbr_def)
  show ?thesis
    using assms
    by (cases "a_nbr adj")
      (simp_all add: adj_del_single_def Let_def com get nb twice upd [symmetric] bindE_assoc cong: bindE_cong)
qed

lemma adj_itimer_ok:
  assumes ok: "eng_inv s" and a: "e_adjs s a = Some adj"
  shows "okE (adj_itimer y s a) (runs s)"
proof -
  let ?s = "adj_stop_itimer s a"
  have k: "calm s ?s" by (rule adj_timer_calm(1) [OF eng_sess [OF ok]])
  have oks: "eng_inv ?s" by (rule calm_inv [OF k ok])
  obtain b where b: "e_adjs ?s a = Some b" using a by (simp add: adj_stop_itimer_def)
  have del: "okE (adj_del y ?s a st) (runs s)" for st
    by (rule okE_runs_trans [OF calm_runs [OF ok k] okE_sheds_runs [OF okE_mono [OF adj_del_ok [OF oks b]]]]) simp
  show ?thesis
  proof (cases "a_source b")
    case (HELLO_LINK i af x)
    then show ?thesis using del b by (simp add: adj_itimer_def Let_def)
  next
    case (HELLO_TARGETED x)
    then obtain tn where tn: "e_tnbrs ?s x = Some tn"
      using tnbrs_okD(3) [OF eng_view [OF oks], of a x] vsrc_view [OF b] by auto
    have "adj_del y (upd_t ?s x (\<lambda>tn. tn\<lparr>t_adj := None\<rparr>)) a S_HOLDTIME_EXP = adj_del y ?s a S_HOLDTIME_EXP"
      using adj_del_single_target [OF b HELLO_TARGETED] b by (simp add: adj_del_def)
    moreover have "okE (tnbr_del y ?s x) (runs s)"
      by (rule okE_runs_trans [OF calm_runs [OF ok k] okE_mono [OF tnbr_del_ok [OF oks tn] sheds_t_runs]])
    ultimately show ?thesis using HELLO_TARGETED del b tn by (simp add: adj_itimer_def Let_def)
  qed
qed

end
