(* ===== verification/Ldpe_HelloSafe.thy ===== *)
theory Ldpe_HelloSafe
  imports Ldpe_DiscSafe
begin

text \<open>
  Hellos: a new adjacency, a new targeted neighbour or a new neighbour gets into exactly the lists
  it belongs to, and \<^verbatim>\<open>recv_hello\<close> handles every packet.
\<close>

section \<open>A new adjacency\<close>

definition v_add :: "nat \<Rightarrow> in_addr \<Rightarrow> u32 option \<Rightarrow> hello_source \<Rightarrow> view \<Rightarrow> view" where
  "v_add a lsr nb src v = v\<lparr>
     v_adj_list := a # v_adj_list v, v_adjs := (v_adjs v)(a \<mapsto> \<lparr>va_id = lsr, va_nbr = nb, va_src = src\<rparr>),
     v_nbrs := (\<lambda>p. map_option (\<lambda>n. if nb = Some p then n\<lparr>vn_adjs := a # vn_adjs n\<rparr> else n) (v_nbrs v p)),
     v_tnbrs := (\<lambda>t. map_option (\<lambda>tn. if src = HELLO_TARGETED t then tn\<lparr>vt_adj := Some a\<rparr> else tn) (v_tnbrs v t)),
     v_ifs := (\<lambda>i. map_option (\<lambda>x. case src of
         HELLO_LINK j AF_INET _ \<Rightarrow> if j = i then x\<lparr>vi_adjs4 := a # vi_adjs4 x\<rparr> else x
       | HELLO_LINK j AF_INET6 _ \<Rightarrow> if j = i then x\<lparr>vi_adjs6 := a # vi_adjs6 x\<rparr> else x
       | _ \<Rightarrow> x) (v_ifs v i))\<rparr>"

definition v_can_add :: "nat \<Rightarrow> in_addr \<Rightarrow> u32 option \<Rightarrow> hello_source \<Rightarrow> view \<Rightarrow> bool" where
  "v_can_add a lsr nb src v \<longleftrightarrow>
     v_adjs v a = None \<and> (\<forall>p. nb = Some p \<longrightarrow> v_nbrs v p \<noteq> None \<and> p = ntohl lsr) \<and>
     (case src of
        HELLO_LINK i af _ \<Rightarrow> v_ifs v i \<noteq> None \<and> af \<noteq> AF_UNSPEC
      | HELLO_TARGETED t \<Rightarrow> v_tnbrs v t \<noteq> None \<and> (\<forall>b. vsrc v b \<noteq> Some (HELLO_TARGETED t)))"

lemma v_add_params [simp]: "v_params (v_add a lsr nb src v) = v_params v"
  by (simp add: v_add_def)

lemma v_add_sel:
  "v_adj_list (v_add a lsr nb src v) = a # v_adj_list v" "v_tnbr_list (v_add a lsr nb src v) = v_tnbr_list v"
  "v_if_list (v_add a lsr nb src v) = v_if_list v" "v_by_addr (v_add a lsr nb src v) = v_by_addr v"
  "v_adjs (v_add a lsr nb src v) b = (if b = a then Some \<lparr>va_id = lsr, va_nbr = nb, va_src = src\<rparr> else v_adjs v b)"
  "vsrc (v_add a lsr nb src v) b = (if b = a then Some src else vsrc v b)"
  by (auto simp: v_add_def vsrc_def)

lemma v_add_maps:
  "v_nbrs (v_add a lsr nb src v) p = map_option (\<lambda>n. if nb = Some p then n\<lparr>vn_adjs := a # vn_adjs n\<rparr> else n) (v_nbrs v p)"
  "v_tnbrs (v_add a lsr nb src v) t = map_option (\<lambda>tn. if src = HELLO_TARGETED t then tn\<lparr>vt_adj := Some a\<rparr> else tn) (v_tnbrs v t)"
  "v_ifs (v_add a lsr nb src v) i = map_option (\<lambda>x. case src of
         HELLO_LINK j AF_INET _ \<Rightarrow> if j = i then x\<lparr>vi_adjs4 := a # vi_adjs4 x\<rparr> else x
       | HELLO_LINK j AF_INET6 _ \<Rightarrow> if j = i then x\<lparr>vi_adjs6 := a # vi_adjs6 x\<rparr> else x
       | _ \<Rightarrow> x) (v_ifs v i)"
  by (simp_all add: v_add_def)

lemma v_add_ok:
  assumes ok: "view_ok v" and can: "v_can_add a lsr nb src v"
  shows "view_ok (v_add a lsr nb src v)"
proof -
  let ?w = "v_add a lsr nb src v"
  have new: "v_adjs v a = None" "vsrc v a = None" using can by (auto simp: v_can_add_def vsrc_def)
  have link: "on_link ?w i af = (case src of HELLO_LINK j af' _ \<Rightarrow> if j = i \<and> af' = af then insert a (on_link v i af) else on_link v i af
      | _ \<Rightarrow> on_link v i af)" for i af
    using new by (auto simp: on_link_def v_add_sel split: hello_source.split)
  have nbr: "of_nbr ?w p = (if nb = Some p then insert a (of_nbr v p) else of_nbr v p)" for p
    using new by (auto simp: of_nbr_def v_add_sel)
  have out: "a \<notin> on_link v i af" "a \<notin> of_nbr v p" for i af p using new by (auto simp: on_link_def of_nbr_def)
  have lists: "lists_ok ?w"
    using ok new by (auto simp: view_ok_def lists_ok_def v_add_sel v_add_maps dom_def)
  have tnbrs: "tnbrs_ok ?w"
  proof (rule tnbrs_okI)
    fix t tn b assume "v_tnbrs ?w t = Some tn"
    then obtain tn0 where tn0: "v_tnbrs v t = Some tn0" "tn = (if src = HELLO_TARGETED t then tn0\<lparr>vt_adj := Some a\<rparr> else tn0)"
      by (auto simp: v_add_maps)
    show "vt_af tn \<noteq> AF_UNSPEC" "vt_adj tn = Some b \<longleftrightarrow> vsrc ?w b = Some (HELLO_TARGETED t)"
      using tnbrs_okD(1) [OF ok tn0(1)] tnbrs_okD(2) [OF ok tn0(1), of b] can new
      by (auto simp: tn0(2) v_add_sel v_can_add_def)
  next
    fix b t assume "vsrc ?w b = Some (HELLO_TARGETED t)"
    then show "v_tnbrs ?w t \<noteq> None"
      using tnbrs_okD(3) [OF ok, of b t] can by (simp add: v_add_sel v_add_maps v_can_add_def split: if_splits)
  qed
  have ifs: "ifs_ok ?w"
  proof (rule ifs_okI)
    fix i ifc assume "v_ifs ?w i = Some ifc"
    then obtain x where x: "v_ifs v i = Some x" "ifc = (case src of
         HELLO_LINK j AF_INET _ \<Rightarrow> if j = i then x\<lparr>vi_adjs4 := a # vi_adjs4 x\<rparr> else x
       | HELLO_LINK j AF_INET6 _ \<Rightarrow> if j = i then x\<lparr>vi_adjs6 := a # vi_adjs6 x\<rparr> else x
       | _ \<Rightarrow> x)" by (auto simp: v_add_maps)
    show "vi_good ifc" "distinct (vi_adjs4 ifc) \<and> set (vi_adjs4 ifc) = on_link ?w i AF_INET"
      "distinct (vi_adjs6 ifc) \<and> set (vi_adjs6 ifc) = on_link ?w i AF_INET6"
      using ifs_okD(1-3) [OF ok x(1)] out by (auto simp: x(2) link split: hello_source.split af.split)
  next
    fix b i af x assume "vsrc ?w b = Some (HELLO_LINK i af x)"
    then show "v_ifs ?w i \<noteq> None \<and> af \<noteq> AF_UNSPEC"
      using ifs_okD(4) [OF ok, of b i af x] can by (simp add: v_add_sel v_add_maps v_can_add_def split: if_splits)
  qed
  have nbrs: "nbrs_ok ?w"
  proof (rule nbrs_okI)
    fix p n assume "v_nbrs ?w p = Some n"
    then obtain m where m: "v_nbrs v p = Some m" "n = (if nb = Some p then m\<lparr>vn_adjs := a # vn_adjs m\<rparr> else m)" by (auto simp: v_add_maps)
    show "distinct (vn_adjs n) \<and> set (vn_adjs n) = of_nbr ?w p" using nbrs_okD(1) [OF ok m(1)] out by (simp add: m(2) nbr)
  next
    fix b x p assume "v_adjs ?w b = Some x" "va_nbr x = Some p"
    then show "v_nbrs ?w p \<noteq> None \<and> p = ntohl (va_id x)"
      using nbrs_okD(2) [OF ok, of b x p] can by (auto simp: v_add_sel v_add_maps v_can_add_def split: if_splits)
  next
    fix k p show "v_by_addr ?w k = Some p \<longleftrightarrow> (\<exists>n. v_nbrs ?w p = Some n \<and> addr_key (vn_af n) (vn_raddr n) = k)"
      using nbrs_okD(3) [OF ok, of k p] by (cases "v_nbrs v p") (auto simp: v_add_maps v_add_sel)
  next
    show "ids_ordered (dom (v_nbrs ?w))"
      by (rule ids_ordered_mono [OF nbrs_okD(4) [OF ok]]) (auto simp: v_add_maps)
  qed
  from lists tnbrs ifs nbrs show ?thesis by (simp add: view_ok_def)
qed

lemma unlisted:
  assumes "view_ok v"
  shows "a \<notin> set (v_adj_list v) \<Longrightarrow> v_adjs v a = None" "t \<notin> set (v_tnbr_list v) \<Longrightarrow> v_tnbrs v t = None"
  using assms by (auto simp: view_ok_def lists_ok_def dom_def)

lemma fresh_id_new: "fresh_id xs \<notin> set xs"
proof -
  have "x \<le> foldr max xs 0" if "x \<in> set xs" for x using that by (induction xs) auto
  then show ?thesis unfolding fresh_id_def by fastforce
qed

text \<open>The source of a hello exists and, when it is a targeted neighbour, has no adjacency yet.\<close>

definition source_live :: "ldpe \<Rightarrow> hello_source \<Rightarrow> bool" where
  "source_live s src = hello_live s (hello_dst_of src)"

definition attach :: "ldpe \<Rightarrow> nat \<Rightarrow> u32 option \<Rightarrow> ldpe" where
  "attach s a nb = (case nb of None \<Rightarrow> s
     | Some p \<Rightarrow> upd_n (upd_adj s a (\<lambda>adj. adj\<lparr>a_nbr := Some p\<rparr>)) p (\<lambda>n. n\<lparr>n_adj_list := a # n_adj_list n\<rparr>))"

lemma adj_new_ok:
  assumes ok: "eng_inv s" and live: "source_live s src"
    and free: "\<And>t b. src = HELLO_TARGETED t \<Longrightarrow> vsrc (view s) b \<noteq> Some (HELLO_TARGETED t)"
    and nb: "\<And>p. nb = Some p \<Longrightarrow> rb_find (e_nbrs s) p \<noteq> None \<and> p = ntohl lsr"
  shows "okE (adj_new s lsr src addr) (\<lambda>(t, a). runs s (attach t a nb) \<and> e_adjs (attach t a nb) a \<noteq> None \<and>
    view (attach t a nb) = v_add a lsr nb src (view s))"
proof -
  let ?a = "fresh_id (e_adj_list s)"
  let ?s = "s\<lparr>e_adj_list := ?a # e_adj_list s,
      e_adjs := (e_adjs s)(?a \<mapsto> \<lparr>a_lsr_id = lsr, a_nbr = None, a_ds_tlv = False, a_source = src,
         a_inactivity_timer = None, a_holdtime = 0, a_trans_addr = addr\<rparr>)\<rparr>"
  define t where "t = (case src of
      HELLO_LINK i af _ \<Rightarrow> upd_ia ?s i af (\<lambda>ia. ia\<lparr>ia_adj_list := ?a # ia_adj_list ia\<rparr>)
    | HELLO_TARGETED x \<Rightarrow> upd_t ?s x (\<lambda>tn. tn\<lparr>t_adj := Some ?a\<rparr>))"
  have new: "adj_new s lsr src addr = Inr (t, ?a)"
  proof (cases src)
    case (HELLO_LINK i af x)
    then obtain ifc where "e_ifaces ?s i = Some ifc" "af \<noteq> AF_UNSPEC"
      using live by (auto simp: source_live_def hello_live_def hello_dst_of_def)
    then obtain ia where "get_ia ?s i af = Inr ia" using get_ia_Some by blast
    then show ?thesis using HELLO_LINK by (simp add: adj_new_def t_def Let_def)
  next
    case (HELLO_TARGETED x)
    then obtain tn where "e_tnbrs ?s x = Some tn"
      using live by (auto simp: source_live_def hello_live_def hello_dst_of_def)
    then show ?thesis using HELLO_TARGETED by (simp add: adj_new_def t_def Let_def)
  qed
  let ?u = "attach t ?a nb"
  have none: "e_adjs s ?a = None"
    using unlisted(1) [OF eng_view [OF ok], of ?a] fresh_id_new [of "e_adj_list s"] by simp
  have tf: "e_nbrs t = e_nbrs s" "e_adjs t = e_adjs ?s" "e_adj_list t = ?a # e_adj_list s"
    "e_tnbr_list t = e_tnbr_list s" "e_iface_list t = e_iface_list s" "e_nbrs_by_addr t = e_nbrs_by_addr s"
    "e_out t = e_out s" "e_peercnt t = e_peercnt s" "e_nbrs_by_pid t = e_nbrs_by_pid s" "e_addr_list t = e_addr_list s"
    "e_nbrp_list t = e_nbrp_list s"
    by (simp_all add: t_def upd_ia_def split: hello_source.split)
  have uf: "e_ifaces ?u = e_ifaces t" "e_tnbrs ?u = e_tnbrs t" "e_adj_list ?u = e_adj_list t" "e_tnbr_list ?u = e_tnbr_list t"
    "e_iface_list ?u = e_iface_list t" "e_nbrs_by_addr ?u = e_nbrs_by_addr t" "e_out ?u = e_out t" "e_peercnt ?u = e_peercnt t"
    "e_nbrp_list ?u = e_nbrp_list t"
    by (simp_all add: attach_def split: option.split)
  have "sess_inv t" using sess_inv_cong [of t s] tf eng_sess [OF ok] by simp
  then have sess: "sess_inv ?u"
    using sess_inv_cong [of "upd_adj t ?a f" t for f] by (auto simp: attach_def intro!: sess_inv_upd split: option.split)
  have v: "view ?u = v_add ?a lsr nb src (view s)"
    unfolding view_def [of ?u]
  proof (rule view.equality, goal_cases)
    case 1
    show ?case
      by (auto simp: fun_eq_iff v_add_maps view_maps attach_def tf nbr_view_def [abs_def] option.map_comp o_def split: option.split)
  next
    case 2
    show ?case
      using tf(2) by (auto simp: fun_eq_iff v_add_sel view_maps attach_def adj_view_def split: option.split)
  next
    case 4
    show ?case
      unfolding uf(2)
      by (auto simp: fun_eq_iff v_add_maps view_maps t_def upd_ia_def tnbr_view_def [abs_def] option.map_comp o_def split: hello_source.split)
  next
    case 6
    have "af \<noteq> AF_UNSPEC" if "src = HELLO_LINK i af x" for i af x
      using live that by (simp add: source_live_def hello_live_def hello_dst_of_def)
    then have "map_option iface_view (e_ifaces t i) = v_ifs (v_add ?a lsr nb src (view s)) i" for i
      by (cases src; cases "e_ifaces s i")
        (auto simp: v_add_maps view_maps t_def upd_ia_def iface_view_def split: af.split)
    then show ?case by (simp add: uf(1) fun_eq_iff)
  qed (simp_all add: v_add_sel uf tf fun_eq_iff)
  have "v_can_add ?a lsr nb src (view s)"
    using none nb live free
    by (auto simp: v_can_add_def source_live_def hello_live_def hello_dst_of_def split: hello_source.split simp del: not_None_eq)
  from v_add_ok [OF eng_view [OF ok] this] v sess have inv: "eng_inv ?u" by (simp add: eng_inv_def)
  have "(e_ifaces ?u i = None) = (e_ifaces s i = None)" for i
    unfolding uf(1) by (simp add: t_def upd_ia_def split: hello_source.split)
  then have "runs s ?u"
    using inv outs_ok_cong [of ?u s] uf tf by (simp add: runs_def)
  moreover have "v_adjs (view ?u) ?a \<noteq> None" unfolding v v_add_sel by simp
  then have "e_adjs ?u ?a \<noteq> None" by simp
  ultimately show ?thesis using new v by simp
qed

section \<open>A new neighbour\<close>

definition v_new_nbr :: "in_addr \<Rightarrow> af \<Rightarrow> ldpd_addr \<Rightarrow> nat list \<Rightarrow> view \<Rightarrow> view" where
  "v_new_nbr lsr af raddr as v = v\<lparr>
     v_nbrs := (v_nbrs v)(ntohl lsr \<mapsto> \<lparr>vn_af = af, vn_raddr = raddr, vn_adjs = as\<rparr>),
     v_adjs := (\<lambda>a. map_option (\<lambda>x. if va_id x = lsr then x\<lparr>va_nbr := Some (ntohl lsr)\<rparr> else x) (v_adjs v a)),
     v_by_addr := (v_by_addr v)(addr_key af raddr \<mapsto> ntohl lsr)\<rparr>"

lemma v_new_nbr_params [simp]: "v_params (v_new_nbr lsr af raddr as v) = v_params v"
  by (simp add: v_new_nbr_def)

lemma v_new_nbr_sel:
  "v_adj_list (v_new_nbr lsr af raddr as v) = v_adj_list v" "v_tnbr_list (v_new_nbr lsr af raddr as v) = v_tnbr_list v"
  "v_if_list (v_new_nbr lsr af raddr as v) = v_if_list v" "v_tnbrs (v_new_nbr lsr af raddr as v) = v_tnbrs v"
  "v_ifs (v_new_nbr lsr af raddr as v) = v_ifs v" "vsrc (v_new_nbr lsr af raddr as v) = vsrc v"
  "on_link (v_new_nbr lsr af raddr as v) = on_link v"
  "v_nbrs (v_new_nbr lsr af raddr as v) p = (if p = ntohl lsr then Some \<lparr>vn_af = af, vn_raddr = raddr, vn_adjs = as\<rparr> else v_nbrs v p)"
  "v_adjs (v_new_nbr lsr af raddr as v) a = map_option (\<lambda>x. if va_id x = lsr then x\<lparr>va_nbr := Some (ntohl lsr)\<rparr> else x) (v_adjs v a)"
  "v_by_addr (v_new_nbr lsr af raddr as v) k = (if k = addr_key af raddr then Some (ntohl lsr) else v_by_addr v k)"
proof -
  have src: "vsrc (v_new_nbr lsr af raddr as v) a = vsrc v a" for a
    by (cases "v_adjs v a") (simp_all add: v_new_nbr_def vsrc_def)
  then show "vsrc (v_new_nbr lsr af raddr as v) = vsrc v" by (simp add: fun_eq_iff)
  show "on_link (v_new_nbr lsr af raddr as v) = on_link v" by (simp add: fun_eq_iff on_link_def src)
qed (simp_all add: v_new_nbr_def)

lemma v_new_nbr_ok:
  assumes ok: "view_ok v" and new: "v_nbrs v (ntohl lsr) = None" "v_by_addr v (addr_key af raddr) = None"
    and as: "distinct as" "set as = {a. \<exists>x. v_adjs v a = Some x \<and> va_id x = lsr}"
    and ord: "ids_ordered (insert (ntohl lsr) (dom (v_nbrs v)))"
  shows "view_ok (v_new_nbr lsr af raddr as v)"
proof -
  let ?w = "v_new_nbr lsr af raddr as v"
  have id: "va_nbr x = None" if "v_adjs v a = Some x" "va_id x = lsr" for a x
    using nbrs_okD(2) [OF ok that(1)] new(1) that(2) by (cases "va_nbr x") auto
  have nbr: "of_nbr ?w p = (if p = ntohl lsr then set as else of_nbr v p)" for p
  proof -
    have "p = ntohl lsr \<longleftrightarrow> lsr = va_id x" if "v_adjs v a = Some x" "va_nbr x = Some p" for a x
      using nbrs_okD(2) [OF ok that] by auto
    then have "a \<in> of_nbr ?w p \<longleftrightarrow> a \<in> (if p = ntohl lsr then set as else of_nbr v p)" for a
      using id [of a] by (cases "v_adjs v a") (auto simp: of_nbr_def v_new_nbr_sel as(2))
    then show ?thesis by blast
  qed
  have lists: "lists_ok ?w"
    using ok by (auto simp: view_ok_def lists_ok_def v_new_nbr_sel dom_def)
  have rest: "tnbrs_ok ?w" "ifs_ok ?w"
    using ok by (simp_all add: view_ok_def tnbrs_ok_def ifs_ok_def v_new_nbr_sel)
  have nbrs: "nbrs_ok ?w"
  proof (rule nbrs_okI)
    fix p n assume "v_nbrs ?w p = Some n"
    then show "distinct (vn_adjs n) \<and> set (vn_adjs n) = of_nbr ?w p"
      using nbrs_okD(1) [OF ok, of p n] as(1) by (auto simp: v_new_nbr_sel nbr split: if_splits)
  next
    fix b x p assume b: "v_adjs ?w b = Some x" "va_nbr x = Some p"
    then obtain z where z: "v_adjs v b = Some z" "x = (if va_id z = lsr then z\<lparr>va_nbr := Some (ntohl lsr)\<rparr> else z)"
      by (auto simp: v_new_nbr_sel)
    show "v_nbrs ?w p \<noteq> None \<and> p = ntohl (va_id x)"
      using nbrs_okD(2) [OF ok z(1), of p] b(2) z(2) by (auto simp: v_new_nbr_sel split: if_splits)
  next
    fix k p show "v_by_addr ?w k = Some p \<longleftrightarrow> (\<exists>n. v_nbrs ?w p = Some n \<and> addr_key (vn_af n) (vn_raddr n) = k)"
      using nbrs_okD(3) [OF ok, of k p] nbrs_okD(3) [OF ok, of "addr_key af raddr" p] new by (auto simp: v_new_nbr_sel)
  next
    show "ids_ordered (dom (v_nbrs ?w))"
      by (rule ids_ordered_mono [OF ord]) (auto simp: v_new_nbr_sel split: if_splits)
  qed
  from lists rest nbrs show ?thesis by (simp add: view_ok_def)
qed

lemma adjs_fold:
  "distinct as \<Longrightarrow> e_adjs (foldl (\<lambda>s a. upd_adj s a f) s as) b = (if b \<in> set as then map_option f (e_adjs s b) else e_adjs s b)"
  by (induction as arbitrary: s) auto

lemma adjs_fold_fields:
  "e_nbrs (foldl (\<lambda>s a. upd_adj s a f) s as) = e_nbrs s" "e_nbrs_by_pid (foldl (\<lambda>s a. upd_adj s a f) s as) = e_nbrs_by_pid s"
  "e_peercnt (foldl (\<lambda>s a. upd_adj s a f) s as) = e_peercnt s" "e_addr_list (foldl (\<lambda>s a. upd_adj s a f) s as) = e_addr_list s"
  "e_out (foldl (\<lambda>s a. upd_adj s a f) s as) = e_out s" "e_adj_list (foldl (\<lambda>s a. upd_adj s a f) s as) = e_adj_list s"
  "e_tnbrs (foldl (\<lambda>s a. upd_adj s a f) s as) = e_tnbrs s" "e_tnbr_list (foldl (\<lambda>s a. upd_adj s a f) s as) = e_tnbr_list s"
  "e_ifaces (foldl (\<lambda>s a. upd_adj s a f) s as) = e_ifaces s" "e_iface_list (foldl (\<lambda>s a. upd_adj s a f) s as) = e_iface_list s"
  "e_nbrs_by_addr (foldl (\<lambda>s a. upd_adj s a f) s as) = e_nbrs_by_addr s"
  "e_nbrp_list (foldl (\<lambda>s a. upd_adj s a f) s as) = e_nbrp_list s"
  by (induction as arbitrary: s) auto

lemma adjs_of_set:
  assumes "eng_inv s"
  shows "distinct (adjs_of s lsr)" "set (adjs_of s lsr) = {a. \<exists>x. v_adjs (view s) a = Some x \<and> va_id x = lsr}"
  using eng_view [OF assms]
  by (auto simp: adjs_of_def view_ok_def lists_ok_def view_maps dom_def split: option.splits)

lemma new_nbr_ok: "af \<noteq> AF_UNSPEC \<Longrightarrow> nbr_ok (new_nbr lsr af ds addr scope laddr as)"
  by (simp add: new_nbr_def nbr_ok_def timers_ok_def queues_ok_def)

lemma nbr_insert_ok:
  assumes ok: "eng_inv s" and new: "rb_find (e_nbrs s) (ntohl lsr) = None" "rb_find (e_nbrs_by_addr s) (addr_key af addr) = None"
    and af: "af \<noteq> AF_UNSPEC" and fit: "ids_fit s lsr"
  defines "as \<equiv> adjs_of s lsr"
  shows "okE (nbr_insert (foldl (\<lambda>s a. upd_adj s a (\<lambda>adj. adj\<lparr>a_nbr := Some (ntohl lsr)\<rparr>)) s as) (ntohl lsr)
      (new_nbr lsr af ds addr scope laddr as))
    (\<lambda>t. runs s t \<and> view t = v_new_nbr lsr af addr as (view s) \<and> rb_find (e_nbrs t) (ntohl lsr) \<noteq> None)"
proof -
  let ?p = "ntohl lsr" and ?n = "new_nbr lsr af ds addr scope laddr as"
  let ?s = "foldl (\<lambda>s a. upd_adj s a (\<lambda>adj. adj\<lparr>a_nbr := Some ?p\<rparr>)) s as"
  note f = adjs_fold_fields [of "\<lambda>adj. adj\<lparr>a_nbr := Some ?p\<rparr>" s as]
  have n: "n_af ?n = af" "n_raddr ?n = addr" "n_adj_list ?n = as" "n_id ?n = lsr" "n_peerid ?n = 0"
    by (simp_all add: new_nbr_def)
  obtain t1 o1 where i1: "rb_insert (e_nbrs s) ?p ?n = (t1, o1)" by fastforce
  obtain t2 o2 where i2: "rb_insert (e_nbrs_by_addr s) (addr_key af addr) ?p = (t2, o2)" by fastforce
  have o: "o1 = None" "o2 = None"
    and find: "\<And>q. rb_find t1 q = (if q = ?p then Some ?n else rb_find (e_nbrs s) q)"
      "\<And>k. rb_find t2 k = (if k = addr_key af addr then Some ?p else rb_find (e_nbrs_by_addr s) k)"
    using rb.snd_ins [of "e_nbrs s" ?p ?n] rb.snd_ins [of "e_nbrs_by_addr s" "addr_key af addr" ?p] new
      rb.find_ins [of "e_nbrs s" ?p ?n] rb.find_ins [of "e_nbrs_by_addr s" "addr_key af addr" ?p]
    unfolding i1 i2 by simp_all
  let ?t = "?s\<lparr>e_nbrs := t1, e_nbrs_by_addr := t2\<rparr>"
  have ins: "nbr_insert ?s ?p ?n = Inr ?t" by (simp add: nbr_insert_def f n i1 i2 o)
  have inv: "sess_inv s" by (rule eng_sess [OF ok])
  have "sess_inv ?t"
    using inv new_nbr_ok [OF af, of lsr ds addr scope laddr as] new(1)
    by (auto simp: sess_inv_def pids_ok_def addrs_ok_def f find n)
  moreover have v: "view ?t = v_new_nbr lsr af addr as (view s)"
    unfolding view_def [of ?t]
  proof (rule view.equality, goal_cases)
    case 1
    show ?case by (auto simp: fun_eq_iff v_new_nbr_sel view_maps find n nbr_view_def [of ?n])
  next
    case 2
    have "a \<in> set as \<longleftrightarrow> (\<exists>x. e_adjs s a = Some x \<and> a_lsr_id x = lsr)" for a
      using adjs_of_set(2) [OF ok, of lsr] by (auto simp: as_def view_maps)
    then show ?case
      using adjs_fold [OF adjs_of_set(1) [OF ok, of lsr], folded as_def]
      by (auto simp: fun_eq_iff v_new_nbr_sel view_maps adj_view_def option.map_comp o_def map_option_case split: option.split)
  qed (simp_all add: v_new_nbr_sel f find fun_eq_iff view_maps)
  moreover have "view_ok (v_new_nbr lsr af addr as (view s))"
    by (rule v_new_nbr_ok [OF eng_view [OF ok]]) (use new adjs_of_set [OF ok, of lsr] fit in \<open>simp_all add: as_def ids_fit_def nbr_ids_view\<close>)
  ultimately have "eng_inv ?t" by (simp add: eng_inv_def)
  then have "runs s ?t" using outs_ok_cong [of ?t s] by (simp add: runs_def f)
  then show ?thesis using ins v find by simp
qed

lemma findE_okE:
  assumes "\<And>x. x \<in> set xs \<Longrightarrow> \<exists>b. f x = Inr b"
  shows "okE (findE f xs) (\<lambda>r. (\<forall>x. r = Some x \<longrightarrow> x \<in> set xs \<and> f x = Inr True) \<and> (r = None \<longrightarrow> (\<forall>x\<in>set xs. f x = Inr False)))"
  using assms
proof (induction xs)
  case (Cons x xs)
  obtain b where b: "f x = Inr b" using Cons.prems [of x] by auto
  show ?case using Cons.IH Cons.prems b by (cases b) (auto elim!: okE_mono)
qed simp

lemma pfkey_establish_true:
  assumes "sys_ok y" "rb_find (e_nbrs s) p \<noteq> None"
  shows "okE (pfkey_establish y s p np) (\<lambda>r. snd r)"
proof (cases "np_auth_method np")
  case AUTH_MD5SIG
  let ?s = "upd_auth s p (\<lambda>a. a\<lparr>au_method := AUTH_MD5SIG, au_md5key := np_md5key np\<rparr>)"
  obtain n where n: "rb_find (e_nbrs ?s) p = Some n" using assms(2) by (auto simp: upd_auth_def)
  have "sys_sa_add y p True \<noteq> None" "sys_sa_add y p False \<noteq> None" using assms(1) unfolding sys_ok_def by blast+
  then obtain so si where "sys_sa_add y p True = Some so" "sys_sa_add y p False = Some si" by auto
  with n AUTH_MD5SIG show ?thesis by (simp add: pfkey_establish_def pfkey_md5sig_establish_def Let_def)
qed (simp add: pfkey_establish_def)

lemma pending_conn_find_total: "af \<noteq> AF_UNSPEC \<Longrightarrow> okE (pending_conn_find s af addr) (\<lambda>_. True)"
proof -
  assume af: "af \<noteq> AF_UNSPEC"
  have dec: "\<exists>b. (if af = pc_af pc then bindE (ldp_addrcmp af addr (pc_addr pc)) (\<lambda>c. Inr (c = 0)) else Inr False) = Inr b" for pc
    using ldp_addrcmp_eq_0 [OF af, of addr "pc_addr pc"] by auto
  show ?thesis unfolding pending_conn_find_def by (rule okE_mono [OF findE_okE [OF dec]]) simp
qed

lemma pending_conn_del_calm: "sess_inv s \<Longrightarrow> calm s (pending_conn_del s pc)" "sess_inv s \<Longrightarrow> calm s (pending_conn_new s fd af addr)"
  by (rule calm_cong [where outs = "[]"]; simp add: pending_conn_del_def pending_conn_new_def view_def)+

lemma nbr_new_ok:
  assumes ok: "eng_inv s" and new: "rb_find (e_nbrs s) (ntohl lsr) = None" "rb_find (e_nbrs_by_addr s) (addr_key af addr) = None"
    and af: "af \<noteq> AF_UNSPEC" and y: "sys_ok y" and fit: "ids_fit s lsr"
  shows "okE (nbr_new y s lsr af ds addr scope)
    (\<lambda>(t, p). runs s t \<and> p = ntohl lsr \<and> rb_find (e_nbrs t) p \<noteq> None \<and> view t = v_new_nbr lsr af addr (adjs_of s lsr) (view s))"
    (is "okE _ ?P")
proof -
  let ?p = "ntohl lsr"
  obtain c where c: "ldp_af_conf_get s af = Inr c" using ldp_af_conf_get_total [OF af, of s] by (auto simp: okE_def)
  define made where "made t \<longleftrightarrow> runs s t \<and> view t = v_new_nbr lsr af addr (adjs_of s lsr) (view s) \<and> rb_find (e_nbrs t) ?p \<noteq> None" for t
  have made_calm: "made u" if "made t" "calm t u" for t u
  proof -
    have "v_nbrs (view u) ?p \<noteq> None" using that by (simp add: made_def calm_def v_new_nbr_sel)
    then show ?thesis
      using that calm_runs [OF runs_inv, of s t u] runs_trans [of s t u] by (auto simp: made_def calm_def simp del: not_None_eq)
  qed
  have made_inv: "eng_inv t" "sess_inv t" if "made t" for t using that runs_inv eng_sess by (auto simp: made_def)
  have fin: "?P (t, ?p)" if "made t" for t using that by (simp add: made_def)
  have pend: "okE (bindE (pending_conn_find t af addr) (\<lambda>pc.
          case pc of
            None \<Rightarrow> Inr (t, ?p)
          | Some pconn \<Rightarrow>
              bindE (session_accept_nbr y t ?p (pc_fd pconn)) (\<lambda>s4. Inr (pending_conn_del s4 pconn, ?p)))) ?P"
    if t: "made t" for t
  proof (rule okE_bind [OF pending_conn_find_total [OF af]])
    fix pc
    obtain n where n: "rb_find (e_nbrs t) ?p = Some n" using t by (auto simp: made_def)
    have acc: "okE (session_accept_nbr y t ?p fd) made" for fd
      by (rule okE_mono [OF session_accept_nbr_stays [OF made_inv(2) [OF t] n y]]) (rule made_calm [OF t stays_calm])
    have "okE (bindE (session_accept_nbr y t ?p fd) (\<lambda>s4. Inr (pending_conn_del s4 x, ?p))) ?P" for fd x
      by (rule okE_bind [OF acc]) (use fin made_calm [OF _ pending_conn_del_calm(1) [OF made_inv(2)]] in auto)
    then show "okE (case pc of
            None \<Rightarrow> Inr (t, ?p)
          | Some pconn \<Rightarrow>
              bindE (session_accept_nbr y t ?p (pc_fd pconn)) (\<lambda>s4. Inr (pending_conn_del s4 pconn, ?p))) ?P"
      using fin [OF t] by (cases pc) simp_all
  qed
  have key: "okE (case nbr_params_find t lsr of None \<Rightarrow> Inr (t, True) | Some np \<Rightarrow> pfkey_establish y t ?p np)
      (\<lambda>(u, b). made u \<and> b)" if t: "made t" for t
  proof (cases "nbr_params_find t lsr")
    case (Some np)
    have p: "rb_find (e_nbrs t) ?p \<noteq> None" using t by (simp add: made_def)
    have "okE (pfkey_establish y t ?p np) (\<lambda>(u, b). made u \<and> b)"
      by (rule okE_mono [OF okE_conjI [OF pfkey_establish_stays [OF made_inv(2) [OF t] p] pfkey_establish_true [OF y p]]])
        (auto simp: stays2_def intro: made_calm [OF t stays_calm])
    with Some show ?thesis by simp
  qed (use t in simp)
  have ins: "okE (nbr_insert (foldl (\<lambda>s a. upd_adj s a (\<lambda>adj. adj\<lparr>a_nbr := Some ?p\<rparr>)) s (adjs_of s lsr)) ?p
      (new_nbr lsr af ds addr scope (ac_trans_addr c) (adjs_of s lsr))) made"
    by (rule okE_mono [OF nbr_insert_ok [OF ok new af fit]]) (simp add: made_def)
  show ?thesis
    unfolding nbr_new_def c bindE_simps Let_def
    by (rule okE_bind [OF ins], rule okE_bind [OF key], assumption) (use pend in auto)
qed

section \<open>Decoding\<close>

lemma hello_opt_total:
  assumes "tlv_len \<le> length bs"
  shows "okE (hello_opt s af type tlv_len bs ho) (\<lambda>_. True)"
proof -
  have "\<exists>v. rdn bs 0 tlv_len = Inr v" "2 \<le> tlv_len \<Longrightarrow> \<exists>v. rd16 bs 0 = Inr v" "4 \<le> tlv_len \<Longrightarrow> \<exists>v. rd16 bs 2 = Inr v"
    "4 \<le> tlv_len \<Longrightarrow> \<exists>v. rd32 bs 0 = Inr v"
    by (rule rd_in_bounds; use assms in simp)+
  then show ?thesis by (auto simp: hello_opt_def okE_bind_iff)
qed

lemma hello_opt_loop_total: "len \<le> length bs \<Longrightarrow> okE (hello_opt_loop s af bs len tot ho) (\<lambda>_. True)"
proof (induction s af bs len tot ho rule: hello_opt_loop.induct)
  case (1 s af bs len tot ho)
  show ?case
  proof (cases "len < 4")
    case False
    then have rd: "rd16 bs 0 = Inr (load16 (bs ! 0) (bs ! 1))" "rd16 bs 2 = Inr (load16 (bs ! 2) (bs ! 3))"
      using "1.prems" by (simp_all add: rd16_def)
    let ?l = "unat (ntohs (load16 (bs ! 2) (bs ! 3)))"
    show ?thesis
    proof (cases "?l + 4 > len")
      case fit: False
      have "okE (hello_opt s af (ntohs (load16 (bs ! 0) (bs ! 1))) ?l (drop 4 bs) ho) (\<lambda>_. True)"
        by (rule hello_opt_total) (use fit "1.prems" in simp)
      then obtain r where r: "hello_opt s af (ntohs (load16 (bs ! 0) (bs ! 1))) ?l (drop 4 bs) ho = Inr r"
        by (auto simp: okE_def)
      show ?thesis
      proof (cases r)
        case None
        then show ?thesis using False fit rd r by (subst hello_opt_loop.simps) (simp add: Let_def)
      next
        case (Some ho1)
        have "okE (hello_opt_loop s af (drop (4 + ?l) bs) (len - 4 - ?l) (tot + 4 + ?l) ho1) (\<lambda>_. True)"
          by (rule "1.IH" [OF False rd refl]) (use fit r Some "1.prems" in auto)
        then show ?thesis using False fit rd r Some by (subst hello_opt_loop.simps) (simp add: Let_def)
      qed
    qed (use False rd in \<open>subst hello_opt_loop.simps, simp add: Let_def\<close>)
  qed (subst hello_opt_loop.simps, simp)
qed

lemma hello_prms_total:
  "len \<le> length bs \<Longrightarrow> okE (tlv_decode_hello_prms bs len) (\<lambda>r. \<forall>n h f. r = Some (n, h, f) \<longrightarrow> n = 8 \<and> 8 \<le> len)"
proof (cases "len < 8")
  case False
  assume "len \<le> length bs"
  then have "\<exists>v. rd16 bs i = Inr v" if "i \<le> 6" for i by (intro rd_in_bounds) (use that False in simp)
  from this [of 0] this [of 2] this [of 4] this [of 6] show ?thesis
    using False by (auto simp: tlv_decode_hello_prms_def)
qed (simp add: tlv_decode_hello_prms_def)

section \<open>The source of a hello\<close>

lemma source_live_view:
  "source_live s src \<longleftrightarrow> (case src of
      HELLO_LINK i af _ \<Rightarrow> v_ifs (view s) i \<noteq> None \<and> af \<noteq> AF_UNSPEC
    | HELLO_TARGETED t \<Rightarrow> \<exists>tn. v_tnbrs (view s) t = Some tn \<and> vt_af tn \<noteq> AF_UNSPEC)"
  by (auto simp: source_live_def hello_live_def hello_dst_of_def view_maps split: hello_source.split)

lemma source_live_cong:
  assumes "\<And>i. (v_ifs (view t) i = None) = (v_ifs (view s) i = None)"
    and "\<And>x. map_option vt_af (v_tnbrs (view t) x) = map_option vt_af (v_tnbrs (view s) x)"
  shows "source_live t src = source_live s src"
proof (cases src)
  case (HELLO_TARGETED x)
  have "(\<exists>tn. v_tnbrs (view t) x = Some tn \<and> vt_af tn \<noteq> AF_UNSPEC) = (\<exists>tn. v_tnbrs (view s) x = Some tn \<and> vt_af tn \<noteq> AF_UNSPEC)"
    using assms(2) [of x] by (cases "v_tnbrs (view t) x"; cases "v_tnbrs (view s) x") (simp_all del: view_sel)
  with HELLO_TARGETED show ?thesis by (simp add: source_live_view)
qed (use assms(1) in \<open>simp add: source_live_view del: not_None_eq view_sel\<close>)

lemma source_live_calm: "calm s t \<Longrightarrow> source_live t src = source_live s src"
  unfolding source_live_view calm_def by (elim conjE) (simp only:)

lemma tnbr_find_ok:
  assumes ok: "eng_inv s" and af: "af \<noteq> AF_UNSPEC"
  shows "okE (tnbr_find s af addr) (\<lambda>r. \<forall>t. r = Some t \<longrightarrow> (\<exists>tn. e_tnbrs s t = Some tn))"
proof -
  have dec: "\<exists>b. bindE (get_tnbr s t) (\<lambda>tn.
       if af = t_af tn then bindE (ldp_addrcmp af addr (t_addr tn)) (\<lambda>c. Inr (c = 0)) else Inr False) = Inr b"
    if t: "t \<in> set (e_tnbr_list s)" for t
  proof -
    obtain tn where "e_tnbrs s t = Some tn" using eng_tnbr [OF ok t] by blast
    then show ?thesis using ldp_addrcmp_eq_0 [OF af, of addr "t_addr tn"] by auto
  qed
  show ?thesis
    unfolding tnbr_find_def by (rule okE_mono [OF findE_okE [OF dec]]) (use eng_tnbr [OF ok] in auto)
qed

definition v_add_tnbr :: "nat \<Rightarrow> vtnbr \<Rightarrow> view \<Rightarrow> view" where
  "v_add_tnbr x tn v = v\<lparr>v_tnbrs := (v_tnbrs v)(x \<mapsto> tn), v_tnbr_list := x # v_tnbr_list v\<rparr>"

lemma v_add_tnbr_sel:
  "v_adj_list (v_add_tnbr x tn v) = v_adj_list v" "v_tnbr_list (v_add_tnbr x tn v) = x # v_tnbr_list v"
  "v_if_list (v_add_tnbr x tn v) = v_if_list v" "v_adjs (v_add_tnbr x tn v) = v_adjs v" "v_ifs (v_add_tnbr x tn v) = v_ifs v"
  "v_nbrs (v_add_tnbr x tn v) = v_nbrs v" "v_by_addr (v_add_tnbr x tn v) = v_by_addr v"
  "v_tnbrs (v_add_tnbr x tn v) t = (if t = x then Some tn else v_tnbrs v t)" "vsrc (v_add_tnbr x tn v) = vsrc v"
  "on_link (v_add_tnbr x tn v) = on_link v" "of_nbr (v_add_tnbr x tn v) = of_nbr v"
  by (auto simp: v_add_tnbr_def vsrc_def on_link_def of_nbr_def fun_eq_iff)

lemma v_add_tnbr_ok:
  assumes ok: "view_ok v" and new: "x \<notin> set (v_tnbr_list v)" and tn: "vt_af tn \<noteq> AF_UNSPEC" "vt_adj tn = None"
  shows "view_ok (v_add_tnbr x tn v)"
proof -
  let ?w = "v_add_tnbr x tn v"
  have none: "v_tnbrs v x = None" by (rule unlisted(2) [OF ok new])
  have no: "vsrc v a \<noteq> Some (HELLO_TARGETED x)" for a using tnbrs_okD(3) [OF ok, of a x] none by auto
  have "lists_ok ?w" using ok new by (auto simp: view_ok_def lists_ok_def v_add_tnbr_sel dom_def)
  moreover have "tnbrs_ok ?w"
  proof (rule tnbrs_okI)
    fix z zn b assume z: "v_tnbrs ?w z = Some zn"
    show "vt_af zn \<noteq> AF_UNSPEC" "vt_adj zn = Some b \<longleftrightarrow> vsrc ?w b = Some (HELLO_TARGETED z)"
      using tnbrs_okD(1,2) [OF ok, of z zn] z tn no unfolding v_add_tnbr_sel by (auto split: if_splits)
  qed (use tnbrs_okD(3) [OF ok] in \<open>simp add: v_add_tnbr_sel\<close>)
  moreover have "ifs_ok ?w" "nbrs_ok ?w" using ok by (simp_all add: view_ok_def ifs_ok_def nbrs_ok_def v_add_tnbr_sel)
  ultimately show ?thesis by (simp add: view_ok_def)
qed

lemma tnbr_add_ok:
  assumes ok: "eng_inv s" and tn: "t_af tn \<noteq> AF_UNSPEC" "t_adj tn = None"
  defines "x \<equiv> fresh_id (e_tnbr_list s)"
  shows "okE (bindE (tnbr_update (s\<lparr>e_tnbrs := (e_tnbrs s)(x \<mapsto> tn)\<rparr>) x) (\<lambda>s2.
      Inr (s2\<lparr>e_tnbr_list := x # e_tnbr_list s2\<rparr>, Some (HELLO_TARGETED x))))
    (\<lambda>(t, r). shrinks s t \<and> (\<forall>src. r = Some src \<longrightarrow> source_live t src))"
proof -
  let ?s = "s\<lparr>e_tnbrs := (e_tnbrs s)(x \<mapsto> tn)\<rparr>"
  have sess: "sess_inv ?s" using sess_inv_cong [of ?s s] eng_sess [OF ok] by simp
  have vs: "view (?s\<lparr>e_tnbr_list := x # e_tnbr_list s\<rparr>) = v_add_tnbr x (tnbr_view tn) (view s)"
    by (rule view.equality) (simp_all add: view_def v_add_tnbr_def fun_eq_iff)
  have list: "view (t\<lparr>e_tnbr_list := l\<rparr>) = (view t)\<lparr>v_tnbr_list := l\<rparr>" for t l by (simp add: view_def)
  have fin: "shrinks s (t\<lparr>e_tnbr_list := x # e_tnbr_list t\<rparr>) \<and> source_live (t\<lparr>e_tnbr_list := x # e_tnbr_list t\<rparr>) (HELLO_TARGETED x)"
    if t: "calm ?s t" for t
  proof -
    let ?t = "t\<lparr>e_tnbr_list := x # e_tnbr_list t\<rparr>"
    have "view t = view ?s" using t by (simp add: calm_def)
    moreover from arg_cong [OF this, of v_tnbr_list] have "e_tnbr_list t = e_tnbr_list s" by simp
    ultimately have v: "view ?t = v_add_tnbr x (tnbr_view tn) (view s)" using vs unfolding list by simp
    have "view_ok (view ?t)"
      unfolding v by (rule v_add_tnbr_ok [OF eng_view [OF ok]]) (use fresh_id_new [of "e_tnbr_list s"] tn in \<open>simp_all add: x_def\<close>)
    moreover have "sess_inv ?t" using sess_inv_cong [of ?t t] calm_sess [OF t] by simp
    ultimately have inv: "eng_inv ?t" by (simp add: eng_inv_def)
    have "(v_ifs (view ?t) i = None) = (v_ifs (view s) i = None)" "v_if_list (view ?t) = v_if_list (view s)" for i
      unfolding v v_add_tnbr_sel by simp_all
    then have "runs s ?t"
      using inv t outs_ok_cong [of ?t t] outs_ok_cong [of ?s s] by (simp add: runs_def calm_def)
    moreover have "nbr_ids ?t = nbr_ids s" unfolding nbr_ids_view v v_add_tnbr_sel ..
    ultimately have "shrinks s ?t" by (simp add: shrinks_def)
    moreover have "v_tnbrs (view ?t) x = Some (tnbr_view tn)" unfolding v v_add_tnbr_sel by simp
    then have "source_live ?t (HELLO_TARGETED x)" using tn(1) unfolding source_live_view by simp
    ultimately show ?thesis ..
  qed
  have "e_tnbrs ?s x = Some tn" by simp
  from tnbr_update_calm [OF sess this tn(1)] show ?thesis by (rule okE_bind) (use fin in auto)
qed

lemma hello_source_ok:
  assumes ok: "eng_inv s" and af: "af \<noteq> AF_UNSPEC" and i: "e_ifaces s i \<noteq> None"
  shows "okE (hello_source_of y s af src i flags) (\<lambda>(t, r). shrinks s t \<and> (\<forall>x. r = Some x \<longrightarrow> source_live t x))"
    (is "okE _ ?P")
proof (cases "has_flag flags F_HELLO_TARGETED")
  case True
  define found where "found = (\<lambda>(t, r). shrinks s t \<and> (\<forall>x. r = Some x \<longrightarrow> (\<exists>tn. e_tnbrs t x = Some tn)))"
  have look: "okE (case x of
       None \<Rightarrow> Inr (s, None)
     | Some t \<Rightarrow>
         bindE (get_tnbr s t) (\<lambda>tn.
         if has_flag (t_flags tn) F_TNBR_DYNAMIC \<and> \<not> has_flag flags F_HELLO_REQ_TARG
         then bindE (tnbr_check y (upd_t s t (\<lambda>tn. tn\<lparr>t_flags := clear_flag (t_flags tn) F_TNBR_DYNAMIC\<rparr>)) t)
                (\<lambda>(s1, alive). Inr (s1, if alive then Some t else None))
         else Inr (s, Some t))) found"
    if "\<forall>t. x = Some t \<longrightarrow> (\<exists>tn. e_tnbrs s t = Some tn)" for x
  proof (cases x)
    case (Some t)
    with that obtain tn where tn: "e_tnbrs s t = Some tn" by blast
    let ?s = "upd_t s t (\<lambda>tn. tn\<lparr>t_flags := clear_flag (t_flags tn) F_TNBR_DYNAMIC\<rparr>)"
    have k: "calm s ?s" by (rule tnbr_timer_calm(4) [OF eng_sess [OF ok]])
    have "okE (bindE (tnbr_check y ?s t) (\<lambda>(s1, alive). Inr (s1, if alive then Some t else None))) found"
      by (rule okE_bind [OF tnbr_check_ok [OF calm_inv [OF k ok]]])
        (use tn shrinks_trans [OF calm_shrinks [OF ok k] sheds_t_shrinks] in \<open>auto simp: checked_def found_def\<close>)
    with Some tn show ?thesis by (simp add: found_def shrinks_refl [OF ok])
  qed (simp add: found_def shrinks_refl [OF ok])
  have dyn: "okE (case x1 of
            Some t \<Rightarrow> Inr (s1, Some (HELLO_TARGETED t))
          | None \<Rightarrow>
              bindE (ldp_af_conf_get s1 af) (\<lambda>c.
              if \<not> (has_flag flags F_HELLO_REQ_TARG \<and> has_flag (ac_flags c) F_LDPD_AF_THELLO_ACCEPT)
              then Inr (s1, None)
              else bindE (tnbr_new s1 af src) (\<lambda>tn.
                let t = fresh_id (e_tnbr_list s1)
                in bindE (tnbr_update (s1\<lparr>e_tnbrs := (e_tnbrs s1)(t \<mapsto> tn\<lparr>t_flags := F_TNBR_DYNAMIC\<rparr>)\<rparr>) t) (\<lambda>s2.
                   Inr (s2\<lparr>e_tnbr_list := t # e_tnbr_list s2\<rparr>, Some (HELLO_TARGETED t)))))) ?P"
    if f: "found (s1, x1)" for s1 x1
  proof -
    have r: "shrinks s s1" using f by (simp add: found_def)
    show ?thesis
    proof (cases x1)
      case (Some t)
      then obtain tn where "e_tnbrs s1 t = Some tn" using f by (auto simp: found_def)
      then have "source_live s1 (HELLO_TARGETED t)"
        using eng_tnbr_af [OF shrinks_inv [OF r]] by (simp add: source_live_def hello_live_def hello_dst_of_def)
      with Some r show ?thesis by simp
    next
      case None
      obtain c where c: "ldp_af_conf_get s1 af = Inr c" using ldp_af_conf_get_total [OF af, of s1] by (auto simp: okE_def)
      have add: "okE (bindE (tnbr_update (s1\<lparr>e_tnbrs := (e_tnbrs s1)(fresh_id (e_tnbr_list s1) \<mapsto> tn)\<rparr>) (fresh_id (e_tnbr_list s1))) (\<lambda>s2.
          Inr (s2\<lparr>e_tnbr_list := fresh_id (e_tnbr_list s1) # e_tnbr_list s2\<rparr>, Some (HELLO_TARGETED (fresh_id (e_tnbr_list s1)))))) ?P"
        if "t_af tn = af" "t_adj tn = None" for tn
        by (rule okE_mono [OF tnbr_add_ok [OF shrinks_inv [OF r]]]) (use that af shrinks_trans [OF r] in auto)
      show ?thesis using None c r by (auto simp: tnbr_new_def Let_def intro!: add)
    qed
  qed
  show ?thesis
    unfolding hello_source_of_def if_P [OF True]
  proof (rule okE_if)
    show "okE (Inr (s, None)) ?P" using shrinks_refl [OF ok] by simp
  qed (rule okE_bind [OF tnbr_find_ok [OF ok af]], rule okE_bind [OF look], assumption,
      simp only: split_paired_all prod.case, rule dyn, assumption)
next
  case False
  obtain ifc where "e_ifaces s i = Some ifc" using i by auto
  then obtain ia where "get_ia s i af = Inr ia" using get_ia_Some af by blast
  with False i af show ?thesis
    by (simp add: hello_source_of_def shrinks_refl [OF ok] source_live_def hello_live_def hello_dst_of_def)
qed

section \<open>Accepting a hello\<close>

lemma adj_find_ok:
  assumes ok: "eng_inv s" and live: "source_live s src"
  shows "okE (adj_find s src) (\<lambda>r. (\<forall>a. r = Some a \<longrightarrow> (\<exists>adj. e_adjs s a = Some adj)) \<and>
    (r = None \<longrightarrow> (\<forall>t b. src = HELLO_TARGETED t \<longrightarrow> vsrc (view s) b \<noteq> Some (HELLO_TARGETED t))))"
proof -
  let ?f = "\<lambda>a. bindE (get_adj s a) (\<lambda>adj.
       case (src, a_source adj) of
         (HELLO_LINK _ af src, HELLO_LINK _ _ asrc) \<Rightarrow> bindE (ldp_addrcmp af asrc src) (\<lambda>c. Inr (c = 0))
       | (HELLO_TARGETED t, HELLO_TARGETED t') \<Rightarrow> Inr (t' = t)
       | _ \<Rightarrow> Inr False)"
  have dec: "\<exists>b. ?f a = Inr b" if a: "a \<in> set (e_adj_list s)" for a
  proof -
    obtain adj where adj: "e_adjs s a = Some adj" using eng_adj [OF ok a] by blast
    show ?thesis
    proof (cases src)
      case (HELLO_LINK i af x)
      then have "af \<noteq> AF_UNSPEC" using live by (simp add: source_live_view)
      then have "\<exists>c. ldp_addrcmp af z x = Inr c" for z using ldp_addrcmp_eq_0 by blast
      then show ?thesis using HELLO_LINK adj by (cases "a_source adj") (auto simp: bindE_Inr_iff)
    next
      case (HELLO_TARGETED x)
      then show ?thesis using adj by (cases "a_source adj") auto
    qed
  qed
  have none: "vsrc (view s) b \<noteq> Some (HELLO_TARGETED t)" if "\<forall>x\<in>set (e_adj_list s). ?f x = Inr False" "src = HELLO_TARGETED t" for b t
  proof
    assume v: "vsrc (view s) b = Some (HELLO_TARGETED t)"
    then obtain adj where adj: "e_adjs s b = Some adj" "a_source adj = HELLO_TARGETED t" by (auto simp: vsrc_def view_maps)
    then have "b \<in> set (e_adj_list s)" using unlisted(1) [OF eng_view [OF ok], of b] by auto
    with that adj show False by auto
  qed
  show ?thesis
    unfolding adj_find_def by (rule okE_mono [OF findE_okE [OF dec]]) (use eng_adj [OF ok] none in auto)
qed

lemma upd_nbr_hello_stays: "sess_inv s \<Longrightarrow> stays s (upd_nbr_hello s p flags ho)"
  unfolding upd_nbr_hello_def by (rule stays_upd_n) (simp_all add: Let_def)

lemma set_holdtime_calm:
  assumes "sess_inv s"
  shows "calm s (set_holdtime s a ht)"
proof -
  let ?s = "upd_adj s a (\<lambda>adj. adj\<lparr>a_holdtime := ht\<rparr>)"
  have k: "calm s ?s" by (rule adj_timer_calm(3) [OF assms])
  show ?thesis
    unfolding set_holdtime_def Let_def
    by (split if_split, intro conjI impI) (rule calm_trans [OF k adj_timer_calm(2) [OF calm_sess [OF k]]],
      rule calm_trans [OF k adj_timer_calm(1) [OF calm_sess [OF k]]])
qed

lemma adj_holdtime_total: "source_live s src \<Longrightarrow> okE (adj_holdtime s src ht) (\<lambda>_. True)"
proof (cases src)
  case (HELLO_LINK i af x)
  assume "source_live s src"
  with HELLO_LINK obtain ia where "get_ia s i af = Inr ia"
    using get_ia_Some by (auto simp: source_live_def hello_live_def hello_dst_of_def) blast
  with HELLO_LINK show ?thesis by (simp add: adj_holdtime_def)
qed (auto simp: adj_holdtime_def source_live_def hello_live_def hello_dst_of_def)

lemma active_role_total: "n_af n \<noteq> AF_UNSPEC \<Longrightarrow> okE (nbr_session_active_role n) (\<lambda>_. True)"
  using ldp_addrcmp_eq_0 [of "n_af n" "n_laddr n" "n_raddr n"] by (auto simp: nbr_session_active_role_def)

text \<open>The last part: the neighbour, if there is one, and the adjacency are known.\<close>

lemma hello_end_ok:
  assumes ok: "eng_inv s" and live: "source_live s src" and nb: "\<And>p. nb = Some p \<Longrightarrow> rb_find (e_nbrs s) p \<noteq> None"
  shows "okE (let s4 = (case nb of None \<Rightarrow> s | Some p \<Rightarrow> upd_nbr_hello s p flags ho)
     in bindE (adj_holdtime s4 src holdtime) (\<lambda>ht.
        let s5 = set_holdtime s4 a ht
        in case nb of
             None \<Rightarrow> Inr s5
           | Some p \<Rightarrow>
               bindE (get_nbr s5 p) (\<lambda>n.
               if n_state n = NBR_STA_PRESENT \<and> \<not> nbr_pending_idtimer n then
                 bindE (nbr_session_active_role n) (\<lambda>active.
                 if active \<and> \<not> nbr_pending_connect n then nbr_establish_connection y s5 p else Inr s5)
               else Inr s5))) (calm s)"
proof -
  let ?s4 = "case nb of None \<Rightarrow> s | Some p \<Rightarrow> upd_nbr_hello s p flags ho"
  have k4: "calm s ?s4"
    using calm_refl [OF eng_sess [OF ok]] stays_calm [OF upd_nbr_hello_stays [OF eng_sess [OF ok]]] by (simp split: option.split)
  have live4: "source_live ?s4 src" using source_live_calm [OF k4] live by simp
  have k5: "calm s (set_holdtime ?s4 a ht)" for ht by (rule calm_trans [OF k4 set_holdtime_calm [OF calm_sess [OF k4]]])
  have fin: "okE (bindE (get_nbr u p) (\<lambda>n.
               if n_state n = NBR_STA_PRESENT \<and> \<not> nbr_pending_idtimer n then
                 bindE (nbr_session_active_role n) (\<lambda>active.
                 if active \<and> \<not> nbr_pending_connect n then nbr_establish_connection y u p else Inr u)
               else Inr u)) (calm s)" if u: "calm s u" and p: "nb = Some p" for u p
  proof -
    have oku: "eng_inv u" by (rule calm_inv [OF u ok])
    have "v_nbrs (view u) p = v_nbrs (view s) p" using u by (simp add: calm_def)
    then obtain n where n: "rb_find (e_nbrs u) p = Some n" using nb [OF p] by (auto simp: view_maps)
    have af: "n_af n \<noteq> AF_UNSPEC" using inv_nbr [OF eng_sess [OF oku] n] by (simp add: nbr_ok_def)
    have est: "okE (nbr_establish_connection y u p) (calm s)"
      by (rule okE_calm_trans [OF u okE_stays_calm [OF nbr_establish_connection_stays [OF eng_sess [OF oku] n eng_adjs_live [OF oku n]]]])
    show ?thesis
      unfolding get_nbr_Some [OF n] bindE_simps
      by (intro okE_if okE_bind [OF active_role_total [OF af]]) (use u est in auto)
  qed
  show ?thesis
    unfolding Let_def
    by (rule okE_bind [OF adj_holdtime_total [OF live4]]) (use k5 fin in \<open>auto split: option.split\<close>)
qed

lemma hello_accepted_ok:
  assumes ok: "eng_inv s" and live: "source_live s src" and af: "af \<noteq> AF_UNSPEC" and y: "sys_ok y"
    and adj: "adj = None \<Longrightarrow> (\<forall>t b. src = HELLO_TARGETED t \<longrightarrow> vsrc (view s) b \<noteq> Some (HELLO_TARGETED t))"
    and nb: "nbr_find_ldpid s lsr = Inr nb" "nb = None \<Longrightarrow> nbr_find_addr s af addr = None"
  shows "okE (hello_accepted y s lsr af holdtime flags ho src addr scope adj nb) (runs s)"
proof -
  have nbd: "rb_find (e_nbrs s) p \<noteq> None \<and> p = ntohl lsr" if "nb = Some p" for p
    using that nb(1) by (auto simp: nbr_find_ldpid_def split: if_splits)
  have nbn: "rb_find (e_nbrs s) (ntohl lsr) = None" if "nb = None"
    using that nb(1) by (auto simp: nbr_find_ldpid_def split: if_splits)
  define ready where "ready t \<longleftrightarrow> runs s t \<and> source_live t src \<and> (\<forall>p. nb = Some p \<longrightarrow> rb_find (e_nbrs t) p \<noteq> None) \<and>
    (nb = None \<longrightarrow> rb_find (e_nbrs t) (ntohl lsr) = None \<and> rb_find (e_nbrs_by_addr t) (addr_key af addr) = None) \<and>
    ids_fit t lsr" for t
  have fit: "ids_fit s lsr" using nb(1) by (simp add: nbr_find_ldpid_def split: if_splits)
  have r0: "ready s" using runs_refl [OF ok] live nbd nbn nb(2) fit by (simp add: ready_def nbr_find_addr_def)
  have new: "okE (bindE (adj_new s lsr src addr) (\<lambda>(s1, a). Inr (attach s1 a nb, a))) (\<lambda>(t, a). ready t)" if "adj = None"
  proof (rule okE_bind [OF adj_new_ok [OF ok live _ nbd]])
    fix x
    assume "case x of (t, a) \<Rightarrow> runs s (attach t a nb) \<and> e_adjs (attach t a nb) a \<noteq> None \<and>
        view (attach t a nb) = v_add a lsr nb src (view s)"
    then obtain t a where x: "x = (t, a)" and r: "runs s (attach t a nb)" and v: "view (attach t a nb) = v_add a lsr nb src (view s)"
      by (cases x) auto
    let ?t = "attach t a nb"
    have ifs: "(v_ifs (view ?t) i = None) = (v_ifs (view s) i = None)" for i unfolding v v_add_maps by simp
    have tns: "map_option vt_af (v_tnbrs (view ?t) z) = map_option vt_af (v_tnbrs (view s) z)" for z
      unfolding v v_add_maps option.map_comp by (rule option.map_cong) auto
    have nbs: "(v_nbrs (view ?t) p = None) = (v_nbrs (view s) p = None)" for p unfolding v v_add_maps by simp
    have "v_by_addr (view ?t) = v_by_addr (view s)" unfolding v v_add_sel ..
    then have by_addr: "rb_find (e_nbrs_by_addr ?t) k = rb_find (e_nbrs_by_addr s) k" for k by (metis view_sel(4))
    have nbs': "(rb_find (e_nbrs ?t) p = None) = (rb_find (e_nbrs s) p = None)" for p using nbs [of p] by simp
    have "ready ?t"
      unfolding ready_def
    proof (intro conjI allI impI)
      show "source_live ?t src" using source_live_cong [OF ifs tns] live by blast
      show "rb_find (e_nbrs ?t) p \<noteq> None" if "nb = Some p" for p using nbs' [of p] nbd [OF that] by blast
      show "rb_find (e_nbrs ?t) (ntohl lsr) = None" if "nb = None" using nbs' nbn [OF that] by blast
      show "rb_find (e_nbrs_by_addr ?t) (addr_key af addr) = None" if "nb = None"
        using by_addr nb(2) [OF that] by (metis nbr_find_addr_def)
      show "ids_fit ?t lsr" by (rule ids_fit_mono [OF fit]) (use nbs' in auto)
    qed (rule r)
    then show "okE (case x of (s1, a) \<Rightarrow> Inr (attach s1 a nb, a)) (\<lambda>(t, a). ready t)" by (simp add: x)
  qed (use adj [OF that] in blast)+
  have first: "okE (case adj of
              Some a \<Rightarrow> Inr (s, a)
            | None \<Rightarrow>
                bindE (adj_new s lsr src addr) (\<lambda>(s1, a).
                Inr (case nb of
                       None \<Rightarrow> s1
                     | Some p \<Rightarrow> upd_n (upd_adj s1 a (\<lambda>adj. adj\<lparr>a_nbr := Some p\<rparr>)) p
                                  (\<lambda>n. n\<lparr>n_adj_list := a # n_adj_list n\<rparr>), a))) (\<lambda>(t, a). ready t)"
    using new r0 unfolding attach_def by (cases adj) simp_all
  define known where "known = (\<lambda>(t, nb1). runs s t \<and> source_live t src \<and> (\<forall>p. nb1 = Some p \<longrightarrow> rb_find (e_nbrs t) p \<noteq> None))"
  have second: "okE (case nb of
              Some p \<Rightarrow> Inr (s2, Some p)
            | None \<Rightarrow>
                if makes_nbr af ho
                then bindE (nbr_new y s2 lsr af ds addr scope) (\<lambda>(s3, p). Inr (s3, Some p))
                else Inr (s2, None)) known" if s2: "ready s2" for s2 ds
  proof (cases nb)
    case None
    have "okE (bindE (nbr_new y s2 lsr af ds addr scope) (\<lambda>(s3, p). Inr (s3, Some p))) known"
    proof (rule okE_bind [OF nbr_new_ok [OF runs_inv _ _ af y]])
      show "runs s s2" "ids_fit s2 lsr" "rb_find (e_nbrs s2) (ntohl lsr) = None" "rb_find (e_nbrs_by_addr s2) (addr_key af addr) = None"
        using s2 None by (simp_all add: ready_def)
      fix x assume x: "case x of (t, p) \<Rightarrow> runs s2 t \<and> p = ntohl lsr \<and> rb_find (e_nbrs t) p \<noteq> None \<and>
          view t = v_new_nbr lsr af addr (adjs_of s2 lsr) (view s2)"
      obtain t p where xt: "x = (t, p)" by fastforce
      with x have t: "runs s2 t" "rb_find (e_nbrs t) p \<noteq> None" "view t = v_new_nbr lsr af addr (adjs_of s2 lsr) (view s2)" by auto
      have "(v_ifs (view t) i = None) = (v_ifs (view s2) i = None)"
        "map_option vt_af (v_tnbrs (view t) z) = map_option vt_af (v_tnbrs (view s2) z)" for i z
        unfolding t(3) v_new_nbr_sel by (rule refl)+
      from source_live_cong [OF this, of src] t s2 have "known (t, Some p)"
        by (auto simp: known_def ready_def intro: runs_trans)
      then show "okE (case x of (s3, p) \<Rightarrow> Inr (s3, Some p)) known" by (simp add: xt)
    qed
    with None s2 show ?thesis by (simp add: known_def ready_def)
  qed (use s2 in \<open>simp add: known_def ready_def\<close>)
  show ?thesis
    unfolding hello_accepted_def
  proof (rule okE_bind [OF first], simp only: split_paired_all prod.case, rule okE_bind [OF second], assumption,
      simp only: split_paired_all prod.case)
    fix a t nb1 assume k: "known (t, nb1)"
    then have r: "runs s t" and t: "source_live t src" "\<And>p. nb1 = Some p \<Longrightarrow> rb_find (e_nbrs t) p \<noteq> None"
      by (auto simp: known_def)
    from okE_calm_runs [OF runs_inv [OF r] hello_end_ok [OF runs_inv [OF r] t]]
    show "okE (let s4 = (case nb1 of None \<Rightarrow> t | Some p \<Rightarrow> upd_nbr_hello t p flags ho)
     in bindE (adj_holdtime s4 src holdtime) (\<lambda>ht.
        let s5 = set_holdtime s4 a ht
        in case nb1 of
             None \<Rightarrow> Inr s5
           | Some p \<Rightarrow>
               bindE (get_nbr s5 p) (\<lambda>n.
               if n_state n = NBR_STA_PRESENT \<and> \<not> nbr_pending_idtimer n then
                 bindE (nbr_session_active_role n) (\<lambda>active.
                 if active \<and> \<not> nbr_pending_connect n then nbr_establish_connection y s5 p else Inr s5)
               else Inr s5))) (runs s)"
      by (rule okE_runs_trans [OF r])
  qed
qed

section \<open>Receiving a hello\<close>

lemma del_adj_opt_ok:
  assumes "eng_inv s" "\<And>a. adj = Some a \<Longrightarrow> \<exists>x. e_adjs s a = Some x"
  shows "okE (del_adj_opt y s adj) (runs s)"
proof (cases adj)
  case (Some a)
  then obtain x where "e_adjs s a = Some x" using assms(2) by blast
  from okE_mono [OF adj_del_ok [OF assms(1) this], of "runs s"] show ?thesis
    using Some sheds_runs by (auto simp: del_adj_opt_def)
qed (simp add: del_adj_opt_def runs_refl [OF assms(1)])

lemma hello_checks_ok:
  assumes ok: "eng_inv s" and af: "af \<noteq> AF_UNSPEC" and adj: "\<And>a. adj = Some a \<Longrightarrow> \<exists>x. e_adjs s a = Some x"
    and nb: "\<And>p. nb = Some p \<Longrightarrow> rb_find (e_nbrs s) p \<noteq> None"
  shows "okE (hello_checks y s msg af ho trans_addr scope adj nb) (\<lambda>r. (\<forall>t. r = Some t \<longrightarrow> runs s t) \<and>
    (r = None \<longrightarrow> nb = None \<longrightarrow> nbr_find_addr s af trans_addr = None))" (is "okE _ ?P")
proof -
  have stop: "okE (bindE r (\<lambda>s1. Inr (Some s1))) ?P" if "okE r (runs s)" for r
    using that by (auto simp: okE_bind_iff elim!: okE_mono)
  have shut: "okE (session_shutdown s p a b c) (stays s)" if "nb = Some p" for p a b c
    using nb [OF that] session_shutdown_stays [OF eng_sess [OF ok]] by auto
  have adjs: "\<exists>x. e_adjs t a = Some x" if "stays s t" "adj = Some a" for t a
    using adj [OF that(2)] stays_fields(1) [OF that(1)] by simp
  have mism: "okE (bindE (case nb of None \<Rightarrow> Inr s | Some p \<Rightarrow> session_shutdown s p S_TRANS_MISMTCH (msg_id msg) (msg_type msg))
      (\<lambda>s1. del_adj_opt y s1 adj)) (runs s)"
  proof (rule okE_bind [where Q = "stays s"])
    show "okE (case nb of None \<Rightarrow> Inr s | Some p \<Rightarrow> session_shutdown s p S_TRANS_MISMTCH (msg_id msg) (msg_type msg)) (stays s)"
      using shut stays_refl [OF eng_sess [OF ok]] by (auto split: option.split)
    fix t assume t: "stays s t"
    note k = stays_calm [OF t]
    show "okE (del_adj_opt y t adj) (runs s)"
      by (rule okE_runs_trans [OF calm_runs [OF ok k] del_adj_opt_ok [OF calm_inv [OF k ok] adjs [OF t]]])
  qed
  note del = del_adj_opt_ok [OF ok adj]
  have cmp: "okE (ldp_addrcmp af a b) (\<lambda>_. True)" for a b using ldp_addrcmp_eq_0 [OF af, of a b] by auto
  have known: "okE (bindE (get_nbr s p) (\<lambda>n.
               bindE (if ds then Inr 0
                      else case af of AF_INET \<Rightarrow> nbr_adj_count s n AF_INET6
                           | AF_INET6 \<Rightarrow> nbr_adj_count s n AF_INET
                           | AF_UNSPEC \<Rightarrow> Inl (Fatalx ''recv_hello: unknown af'')) (\<lambda>others.
               if others > 0 then bindE (session_shutdown s p S_DS_NONCMPLNCE (msg_id msg) (msg_type msg)) (\<lambda>s1. Inr (Some s1))
               else bindE (if n_af n = af then ldp_addrcmp af (n_raddr n) trans_addr else Inr 0) (\<lambda>c.
                 if n_af n = af \<and> (c \<noteq> 0 \<or> n_raddr_scope n \<noteq> scope) then bindE (del_adj_opt y s adj) (\<lambda>s1. Inr (Some s1))
                 else Inr None)))) ?P" if p: "nb = Some p" for p ds
  proof -
    obtain n where n: "rb_find (e_nbrs s) p = Some n" using nb [OF p] by auto
    have cnt: "okE (if ds then Inr 0
                      else case af of AF_INET \<Rightarrow> nbr_adj_count s n AF_INET6
                           | AF_INET6 \<Rightarrow> nbr_adj_count s n AF_INET
                           | AF_UNSPEC \<Rightarrow> Inl (Fatalx ''recv_hello: unknown af'')) (\<lambda>_. True)"
      using af nbr_adj_count_total [OF ok n] by (auto split: af.split)
    have cmp': "okE (if n_af n = af then ldp_addrcmp af (n_raddr n) trans_addr else Inr 0) (\<lambda>_. True)" using cmp by simp
    show ?thesis
      unfolding get_nbr_Some [OF n] bindE_simps
      by (rule okE_bind [OF cnt], rule okE_if, rule stop [OF okE_stays_runs [OF ok shut [OF p]]],
          rule okE_bind [OF cmp'], rule okE_if, rule stop [OF del]) (use p in auto)
  qed
  show ?thesis
    unfolding hello_checks_def Let_def
    by (rule okE_if, rule stop [OF mism], cases nb) (use stop [OF del] known in auto)
qed

lemma recv_hello_ok:
  assumes ok: "eng_inv s" and af: "af \<noteq> AF_UNSPEC" and i: "e_ifaces s i \<noteq> None" and len: "len \<le> length bs" and y: "sys_ok y"
    and fit: "ids_fit s lsr"
  shows "okE (recv_hello y s lsr msg af src i multicast bs len) (runs s)"
proof -
  note r0 = runs_refl [OF ok]
  obtain ifc where ifc: "e_ifaces s i = Some ifc" using i by auto
  have known: "okE (bindE (adj_find s1 source) (\<lambda>adj.
                bindE (nbr_find_ldpid s1 lsr) (\<lambda>nb.
                bindE (hello_checks y s1 msg af ho trans_addr scope adj nb) (\<lambda>st.
                case st of
                  Some s2 \<Rightarrow> Inr s2
                | None \<Rightarrow> hello_accepted y s1 lsr af holdtime flags ho source trans_addr scope adj nb)))) (runs s)"
    if sh: "shrinks s s1" and live: "source_live s1 source" for s1 source ho trans_addr scope holdtime flags
  proof -
    have r: "runs s s1" and ok1: "eng_inv s1" using sh shrinks_inv by (auto simp: shrinks_def)
    define nb where "nb = (if rb_find (e_nbrs s1) (ntohl lsr) = None then None else Some (ntohl lsr))"
    have find: "nbr_find_ldpid s1 lsr = Inr nb"
      unfolding nb_def by (rule nbr_find_ldpid_fit [OF ids_fit_mono [OF fit]]) (use sh in \<open>simp add: shrinks_def\<close>)
    have nb: "rb_find (e_nbrs s1) p \<noteq> None" if "nb = Some p" for p
      using that by (auto simp: nb_def split: if_splits)
    have "okE (bindE (adj_find s1 source) (\<lambda>adj.
                bindE (hello_checks y s1 msg af ho trans_addr scope adj nb) (\<lambda>st.
                case st of
                  Some s2 \<Rightarrow> Inr s2
                | None \<Rightarrow> hello_accepted y s1 lsr af holdtime flags ho source trans_addr scope adj nb))) (runs s1)"
    proof (rule okE_bind [OF adj_find_ok [OF ok1 live]], elim conjE)
      fix adj
      assume a: "\<forall>a. adj = Some a \<longrightarrow> (\<exists>x. e_adjs s1 a = Some x)"
        and free: "adj = None \<longrightarrow> (\<forall>t b. source = HELLO_TARGETED t \<longrightarrow> vsrc (view s1) b \<noteq> Some (HELLO_TARGETED t))"
      show "okE (bindE (hello_checks y s1 msg af ho trans_addr scope adj nb) (\<lambda>st.
                case st of
                  Some s2 \<Rightarrow> Inr s2
                | None \<Rightarrow> hello_accepted y s1 lsr af holdtime flags ho source trans_addr scope adj nb)) (runs s1)"
      proof (rule okE_bind [OF hello_checks_ok [OF ok1 af a [rule_format] nb]], assumption, assumption, elim conjE)
        fix st
        assume st: "\<forall>t. st = Some t \<longrightarrow> runs s1 t"
          "st = None \<longrightarrow> nb = None \<longrightarrow> nbr_find_addr s1 af trans_addr = None"
        show "okE (case st of
                  Some s2 \<Rightarrow> Inr s2
                | None \<Rightarrow> hello_accepted y s1 lsr af holdtime flags ho source trans_addr scope adj nb) (runs s1)"
          using st hello_accepted_ok [OF ok1 live af y _ find] free by (cases st) auto
      qed
    qed
    then show ?thesis unfolding find bindE_simps by (rule okE_runs_trans [OF r])
  qed
  have body: "okE (bindE (bad_addr af trans_addr) (\<lambda>bad.
      let scoped = (af = AF_INET6 \<and> IN6_IS_SCOPE_EMBED trans_addr)
      in if bad then Inr s
         else if scoped \<and> has_flag flags F_HELLO_TARGETED then Inr s
         else bindE (get_iface s i) (\<lambda>ifc.
           let scope_id = (if scoped then if_ifindex ifc else 0)
           in bindE (hello_source_of y s af src i flags) (\<lambda>(s1, x).
              case x of
                None \<Rightarrow> Inr s1
              | Some source \<Rightarrow>
                  bindE (adj_find s1 source) (\<lambda>adj.
                  bindE (nbr_find_ldpid s1 lsr) (\<lambda>nb.
                  bindE (hello_checks y s1 msg af ho trans_addr scope_id adj nb) (\<lambda>st.
                  case st of
                    Some s2 \<Rightarrow> Inr s2
                  | None \<Rightarrow> hello_accepted y s1 lsr af holdtime flags ho source trans_addr scope_id adj nb))))))) (runs s)" for trans_addr flags ho holdtime
  proof -
    obtain bad where bad: "bad_addr af trans_addr = Inr bad" using af by (cases af) (simp_all add: bad_addr_def)
    have src_ok: "okE (bindE (hello_source_of y s af src i flags) (\<lambda>(s1, x).
              case x of
                None \<Rightarrow> Inr s1
              | Some source \<Rightarrow>
                  bindE (adj_find s1 source) (\<lambda>adj.
                  bindE (nbr_find_ldpid s1 lsr) (\<lambda>nb.
                  bindE (hello_checks y s1 msg af ho trans_addr scope adj nb) (\<lambda>st.
                  case st of
                    Some s2 \<Rightarrow> Inr s2
                  | None \<Rightarrow> hello_accepted y s1 lsr af holdtime flags ho source trans_addr scope adj nb))))) (runs s)" for scope
      by (rule okE_bind [OF hello_source_ok [OF ok af i]]) (use known in \<open>auto simp: shrinks_def split: option.split\<close>)
    show ?thesis
      unfolding bad bindE_simps get_iface_Some [OF ifc] Let_def
      by (intro okE_if src_ok [unfolded Let_def]) (simp_all add: r0)
  qed
  have opts: "okE (tlv_decode_opt_hello_prms s (drop 8 bs) (len - 8) af) (\<lambda>_. True)"
    unfolding tlv_decode_opt_hello_prms_def by (rule hello_opt_loop_total) (use len in simp)
  show ?thesis
    unfolding recv_hello_def
  proof (rule okE_bind [OF hello_prms_total [OF len]])
    fix r :: "(nat \<times> u16 \<times> u16) option" assume r: "\<forall>n h f. r = Some (n, h, f) \<longrightarrow> n = 8 \<and> 8 \<le> len"
    show "okE (case r of
       None \<Rightarrow> Inr s
     | Some (n, holdtime, flags) \<Rightarrow>
         if holdtime \<noteq> 0 \<and> holdtime < MIN_HOLDTIME then Inr s
         else if multicast = has_flag flags F_HELLO_TARGETED then Inr s
         else bindE (tlv_decode_opt_hello_prms s (drop n bs) (len - n) af) (\<lambda>r1.
           case r1 of
             None \<Rightarrow> Inr s
           | Some (m, ho) \<Rightarrow>
               if m \<noteq> len - n then Inr s
               else
                 let trans_addr = (if has_flag (ho_tlvs_rcvd ho) F_HELLO_TLV_RCVD_ADDR then ho_addr ho else src)
                 in bindE (bad_addr af trans_addr) (\<lambda>bad.
                    let scoped = (af = AF_INET6 \<and> IN6_IS_SCOPE_EMBED trans_addr)
                    in if bad then Inr s
                       else if scoped \<and> has_flag flags F_HELLO_TARGETED then Inr s
                       else bindE (get_iface s i) (\<lambda>ifc.
                         let scope_id = (if scoped then if_ifindex ifc else 0)
                         in bindE (hello_source_of y s af src i flags) (\<lambda>(s1, x).
                            case x of
                              None \<Rightarrow> Inr s1
                            | Some source \<Rightarrow>
                                bindE (adj_find s1 source) (\<lambda>adj.
                                bindE (nbr_find_ldpid s1 lsr) (\<lambda>nb.
                                bindE (hello_checks y s1 msg af ho trans_addr scope_id adj nb) (\<lambda>st.
                                case st of
                                  Some s2 \<Rightarrow> Inr s2
                                | None \<Rightarrow> hello_accepted y s1 lsr af holdtime flags ho source trans_addr scope_id adj nb)))))))) (runs s)"
    proof (cases r)
      case (Some x)
      obtain n h f where x: "x = (n, h, f)" using prod_cases3 by blast
      with r Some have n: "n = 8" by simp
      show ?thesis
        unfolding Some x n option.case prod.case
        by (intro okE_if okE_bind [OF opts]) (use r0 body in \<open>auto simp: Let_def [of "if _ then _ else _"] split: option.split\<close>)
    qed (use r0 in simp)
  qed
qed

end
