(* ===== verification/Ldpe_IfSafe.thy ===== *)
theory Ldpe_IfSafe
  imports Ldpe_HelloSafe
begin

text \<open>
  Interfaces, their addresses and the sockets of the engine: bringing an interface down deletes its
  adjacencies one by one and ends, and no message of the parent makes the engine fault.
\<close>

section \<open>Starting and resetting an interface\<close>

lemma if_timer_calm:
  "sess_inv s \<Longrightarrow> calm s (if_start_hello_timer s i af)" "sess_inv s \<Longrightarrow> calm s (if_stop_hello_timer s i af)"
  unfolding if_start_hello_timer_def if_stop_hello_timer_def by (rule calm_upd_ia; simp)+

lemma if_hello_calm:
  assumes "sess_inv s" "e_ifaces s i \<noteq> None" "af \<noteq> AF_UNSPEC"
  shows "okE (bindE (send_hello s (To_link i af)) (\<lambda>s1. Inr (if_start_hello_timer s1 i af))) (calm s)"
proof (rule okE_bind [OF stays_hello [OF assms(1)]])
  show "hello_live s (To_link i af)" using assms by (simp add: hello_live_def)
  fix t assume "stays s t"
  then have t: "calm s t" by (rule stays_calm)
  then show "okE (Inr (if_start_hello_timer t i af)) (calm s)"
    using calm_trans [OF t if_timer_calm(1) [OF calm_sess [OF t]]] by simp
qed

lemma if_hello_timer_calm:
  "sess_inv s \<Longrightarrow> e_ifaces s i \<noteq> None \<Longrightarrow> af \<noteq> AF_UNSPEC \<Longrightarrow> okE (if_hello_timer s i af) (calm s)"
  unfolding if_hello_timer_def by (rule if_hello_calm)

lemma if_start_calm:
  assumes inv: "sess_inv s" and i: "e_ifaces s i \<noteq> None" and af: "af \<noteq> AF_UNSPEC"
  shows "okE (if_start y s i af) (calm s)"
proof -
  obtain ifc where "e_ifaces s i = Some ifc" using i by auto
  then obtain ia where ia: "get_ia s i af = Inr ia" using get_ia_Some af by blast
  have k: "calm s (eout s (Out_join i af))" by (rule stays_calm [OF stays_eout [OF inv]]) simp
  have "e_ifaces (eout s (Out_join i af)) i \<noteq> None" using i by (simp add: eout_def)
  from okE_calm_trans [OF k if_hello_calm [OF calm_sess [OF k] this af]] k ia show ?thesis
    by (simp add: if_start_def Let_def)
qed

definition ia_adjs :: "ldpe \<Rightarrow> nat \<Rightarrow> af \<Rightarrow> nat list" where
  "ia_adjs s i af = (case e_ifaces s i of None \<Rightarrow> [] | Some ifc \<Rightarrow> ia_adj_list (if af = AF_INET then if_ipv4 ifc else if_ipv6 ifc))"

lemma ia_adjs_set:
  assumes "eng_inv s" "e_ifaces s i \<noteq> None" "af \<noteq> AF_UNSPEC"
  shows "distinct (ia_adjs s i af)" "set (ia_adjs s i af) = on_link (view s) i af"
proof -
  obtain ifc where i: "e_ifaces s i = Some ifc" using assms(2) by auto
  note v = ifs_okD(2,3) [OF eng_view [OF assms(1)] view_sel(8) [OF i]]
  show "distinct (ia_adjs s i af)" "set (ia_adjs s i af) = on_link (view s) i af"
    using v assms(3) i by (cases af; simp add: ia_adjs_def)+
qed

lemma sheds_on_link: "sheds s t \<Longrightarrow> on_link (view t) i af \<subseteq> on_link (view s) i af"
  by (simp add: sheds_def drops_on_link)

lemma if_reset_adjs_ok:
  "eng_inv s \<Longrightarrow> e_ifaces s i \<noteq> None \<Longrightarrow> af \<noteq> AF_UNSPEC \<Longrightarrow> length (ia_adjs s i af) \<le> k \<Longrightarrow>
   okE (if_reset_adjs k y s i af) (\<lambda>t. sheds s t \<and> ia_adjs t i af = [])"
proof (induction k arbitrary: s)
  case (0 s)
  then obtain ifc where i: "e_ifaces s i = Some ifc" by auto
  have "get_ia s i af = Inr (if af = AF_INET then if_ipv4 ifc else if_ipv6 ifc)"
    using i "0.prems"(3) by (cases af) (simp_all add: get_ia_def iface_af_get_def)
  then show ?case
    using "0.prems" i sheds_refl by (subst if_reset_adjs.simps) (auto simp: ia_adjs_def)
next
  case (Suc k s)
  obtain ifc where i: "e_ifaces s i = Some ifc" using Suc.prems(2) by auto
  have ia: "get_ia s i af = Inr (if af = AF_INET then if_ipv4 ifc else if_ipv6 ifc)"
    using i Suc.prems(3) by (cases af) (simp_all add: get_ia_def iface_af_get_def)
  have l: "ia_adj_list (if af = AF_INET then if_ipv4 ifc else if_ipv6 ifc) = ia_adjs s i af" by (simp add: ia_adjs_def i)
  show ?case
  proof (cases "ia_adjs s i af")
    case Nil
    then show ?thesis using sheds_refl [OF Suc.prems(1)] l by (subst if_reset_adjs.simps) (simp add: ia)
  next
    case (Cons a as)
    have "a \<in> on_link (view s) i af" using ia_adjs_set(2) [OF Suc.prems(1-3)] Cons by auto
    then obtain adj where adj: "e_adjs s a = Some adj" by (auto simp: on_link_def vsrc_def view_maps)
    have "okE (bindE (adj_del y s a S_SHUTDOWN) (\<lambda>s1. if_reset_adjs k y s1 i af)) (\<lambda>t. sheds s t \<and> ia_adjs t i af = [])"
    proof (rule okE_bind [OF adj_del_ok [OF Suc.prems(1) adj]], elim conjE)
      fix t assume t: "sheds s t" "e_adjs t a = None"
      have it: "e_ifaces t i \<noteq> None" using sheds_iface [OF t(1), of i] Suc.prems(2) by simp
      note lt = ia_adjs_set [OF sheds_inv [OF t(1)] it Suc.prems(3)] and ls = ia_adjs_set [OF Suc.prems(1-3)]
      have "a \<notin> set (ia_adjs t i af)" unfolding lt(2) using t(2) by (auto simp: on_link_def vsrc_def view_maps)
      then have "set (ia_adjs t i af) \<subset> set (ia_adjs s i af)"
        using sheds_on_link [OF t(1), of i af] Cons unfolding lt(2) ls(2) [symmetric] by auto
      then have "card (set (ia_adjs t i af)) < card (set (ia_adjs s i af))" by (intro psubset_card_mono) auto
      then have "length (ia_adjs t i af) \<le> k" using Suc.prems(4) distinct_card [OF lt(1)] distinct_card [OF ls(1)] by simp
      from Suc.IH [OF sheds_inv [OF t(1)] it Suc.prems(3) this]
      show "okE (if_reset_adjs k y t i af) (\<lambda>t. sheds s t \<and> ia_adjs t i af = [])"
        by (rule okE_mono) (auto intro: sheds_trans [OF t(1)])
    qed
    then show ?thesis using Cons l by (subst if_reset_adjs.simps) (simp add: ia)
  qed
qed

lemma if_reset_ok:
  assumes ok: "eng_inv s" and i: "e_ifaces s i \<noteq> None" and af: "af \<noteq> AF_UNSPEC"
  shows "okE (if_reset y s i af) (\<lambda>t. sheds s t \<and> on_link (view t) i af = {})"
proof -
  obtain ifc where ifc: "e_ifaces s i = Some ifc" using i by auto
  have ia: "get_ia s i af = Inr (if af = AF_INET then if_ipv4 ifc else if_ipv6 ifc)"
    using ifc af by (cases af) (simp_all add: get_ia_def iface_af_get_def)
  let ?s = "if_stop_hello_timer s i af"
  have k: "calm s ?s" by (rule if_timer_calm(2) [OF eng_sess [OF ok]])
  have oks: "eng_inv ?s" by (rule calm_inv [OF k ok])
  have ics: "e_ifaces ?s i \<noteq> None" using calm_iface [OF k ifc] by auto
  have len: "length (ia_adjs ?s i af) \<le> length (ia_adj_list (if af = AF_INET then if_ipv4 ifc else if_ipv6 ifc))"
    using ifc by (simp add: ia_adjs_def if_stop_hello_timer_def upd_ia_def)
  have fin: "okE (bindE (ldp_af_global_get t af) (\<lambda>g. Inr (if ag_disc_socket g \<noteq> -1 then eout t (Out_leave i af) else t)))
      (\<lambda>t. sheds s t \<and> on_link (view t) i af = {})"
    if t: "sheds ?s t" "ia_adjs t i af = []" for t
  proof (rule okE_bind [OF ldp_af_global_get_total [OF af]])
    have r: "sheds s t" by (rule sheds_trans [OF calm_sheds [OF ok k] t(1)])
    have "e_ifaces t i \<noteq> None" using sheds_iface [OF r, of i] i by simp
    then have none: "on_link (view t) i af = {}" using ia_adjs_set(2) [OF sheds_inv [OF r] _ af, of i] t(2) by simp
    have c: "calm t (eout t (Out_leave i af))" by (rule stays_calm [OF stays_eout [OF eng_sess [OF sheds_inv [OF r]]]]) simp
    then have "on_link (view (eout t (Out_leave i af))) i af = {}" using none by (simp add: calm_def)
    then show "okE (Inr (if ag_disc_socket g \<noteq> -1 then eout t (Out_leave i af) else t))
        (\<lambda>t. sheds s t \<and> on_link (view t) i af = {})" for g
      using sheds_trans [OF r calm_sheds [OF sheds_inv [OF r] c]] r none by simp
  qed
  show ?thesis
    unfolding if_reset_def ia bindE_simps
    by (rule okE_bind [OF if_reset_adjs_ok [OF oks ics af len]]) (use fin in blast)
qed

section \<open>Updating interfaces\<close>

text \<open>A change of the state of an interface for one family.\<close>

lemma active_view:
  assumes "e_ifaces s i = Some ifc"
  shows "view (upd_ia s i af (\<lambda>ia. ia\<lparr>ia_active := b\<rparr>)) =
    (view s)\<lparr>v_ifs := (v_ifs (view s))(i \<mapsto>
       (if af = AF_INET then (iface_view ifc)\<lparr>vi_act4 := b\<rparr> else (iface_view ifc)\<lparr>vi_act6 := b\<rparr>))\<rparr>"
  using assms by (intro view.equality) (auto simp: view_def fun_eq_iff upd_ia_def iface_view_def)

lemma active_inv:
  assumes ok: "eng_inv s" and ifc: "e_ifaces s i = Some ifc"
  shows "eng_inv (upd_ia s i af (\<lambda>ia. ia\<lparr>ia_active := b\<rparr>))" (is "eng_inv ?t")
    and "on_link (view (upd_ia s i af (\<lambda>ia. ia\<lparr>ia_active := b\<rparr>))) = on_link (view s)"
proof -
  note v = active_view [OF ifc, of af b]
  have sel: "vsrc (view ?t) = vsrc (view s)" "on_link (view ?t) = on_link (view s)" "of_nbr (view ?t) = of_nbr (view s)"
    unfolding v by (auto simp: vsrc_def on_link_def of_nbr_def fun_eq_iff)
  then show "on_link (view ?t) = on_link (view s)" by simp
  have maps: "v_adjs (view ?t) = v_adjs (view s)" "v_tnbrs (view ?t) = v_tnbrs (view s)" "v_nbrs (view ?t) = v_nbrs (view s)"
    "v_adj_list (view ?t) = v_adj_list (view s)" "v_tnbr_list (view ?t) = v_tnbr_list (view s)"
    "v_if_list (view ?t) = v_if_list (view s)" "v_by_addr (view ?t) = v_by_addr (view s)"
    "dom (v_ifs (view ?t)) = dom (v_ifs (view s))"
    unfolding v using ifc by auto
  have "ifs_ok (view ?t)"
  proof (rule ifs_okI)
    fix j x assume x: "v_ifs (view ?t) j = Some x"
    obtain x0 where x0: "v_ifs (view s) j = Some x0" "vi_good x = vi_good x0" "vi_adjs4 x = vi_adjs4 x0" "vi_adjs6 x = vi_adjs6 x0"
    proof (cases "j = i")
      case True
      then have "x = (if af = AF_INET then (iface_view ifc)\<lparr>vi_act4 := b\<rparr> else (iface_view ifc)\<lparr>vi_act6 := b\<rparr>)"
        using x unfolding v by simp
      then show thesis using that [of "iface_view ifc"] True ifc by simp
    qed (use x that in \<open>simp add: v\<close>)
    show "vi_good x" "distinct (vi_adjs4 x) \<and> set (vi_adjs4 x) = on_link (view ?t) j AF_INET"
      "distinct (vi_adjs6 x) \<and> set (vi_adjs6 x) = on_link (view ?t) j AF_INET6"
      using ifs_okD(1-3) [OF eng_view [OF ok] x0(1)] by (simp_all add: x0 sel)
  next
    fix a j g x assume "vsrc (view ?t) a = Some (HELLO_LINK j g x)"
    then have "v_ifs (view s) j \<noteq> None" "g \<noteq> AF_UNSPEC" using ifs_okD(4) [OF eng_view [OF ok], of a j g x] by (simp_all add: sel)
    then show "v_ifs (view ?t) j \<noteq> None \<and> g \<noteq> AF_UNSPEC" by (simp add: v del: not_None_eq)
  qed
  moreover have "lists_ok (view ?t)" "tnbrs_ok (view ?t)" "nbrs_ok (view ?t)"
    using eng_view [OF ok] maps unfolding view_ok_def lists_ok_def tnbrs_ok_def nbrs_ok_def sel maps by auto
  moreover have "sess_inv ?t" using sess_inv_cong [of ?t s] eng_sess [OF ok] by (simp add: upd_ia_def)
  ultimately show "eng_inv ?t" by (simp add: eng_inv_def view_ok_def)
qed

lemma active_sheds:
  assumes ok: "eng_inv s" and ifc: "e_ifaces s i = Some ifc" and af: "af \<noteq> AF_UNSPEC"
    and t: "sheds (upd_ia s i af (\<lambda>ia. ia\<lparr>ia_active := b\<rparr>)) t" and off: "b \<or> on_link (view t) i af = {}"
  shows "sheds s t"
proof -
  let ?s = "upd_ia s i af (\<lambda>ia. ia\<lparr>ia_active := b\<rparr>)"
  note v = active_view [OF ifc, of af b]
  have d: "drops (view ?s) (view t)" using t by (simp add: sheds_def)
  have "idle_link (view s) j g" if l: "idle_link (view t) j g" "on_link (view t) j g \<noteq> {}" for j g
  proof -
    have ne: "g \<noteq> AF_UNSPEC" using l(2) ifs_okD(4) [OF eng_view [OF sheds_inv [OF t]]] by (force simp: on_link_def)
    have "idle_link (view ?s) j g" using d l by (simp add: drops_def)
    then obtain x where x: "v_ifs (view ?s) j = Some x" "\<not> (if g = AF_INET then vi_act4 x else vi_act6 x)"
      by (auto simp: idle_link_def)
    show ?thesis
    proof (cases "j = i")
      case True
      then have "x = (if af = AF_INET then (iface_view ifc)\<lparr>vi_act4 := b\<rparr> else (iface_view ifc)\<lparr>vi_act6 := b\<rparr>)"
        using x(1) unfolding v by simp
      then show ?thesis
        using x(2) ifc True off l(2) ne af by (cases g; cases af) (auto simp: idle_link_def split: if_splits)
    qed (use x in \<open>simp add: v idle_link_def\<close>)
  qed
  moreover have "(v_ifs (view t) j = None) = (v_ifs (view s) j = None)" for j
  proof -
    have "(v_ifs (view t) j = None) = (v_ifs (view ?s) j = None)" using d by (simp add: drops_def)
    also have "\<dots> = (v_ifs (view s) j = None)" using ifc unfolding v by auto
    finally show ?thesis .
  qed
  moreover have "v_tnbr_list (view ?s) = v_tnbr_list (view s)" "v_if_list (view ?s) = v_if_list (view s)"
    "v_tnbrs (view ?s) = v_tnbrs (view s)" "v_adjs (view ?s) = v_adjs (view s)" "v_nbrs (view ?s) = v_nbrs (view s)"
    "v_params (view ?s) = v_params (view s)"
    unfolding v by simp_all
  ultimately have "drops (view s) (view t)" using d unfolding drops_def by (simp del: view_sel)
  then show ?thesis using t outs_ok_cong [of ?s s] by (simp add: sheds_def upd_ia_def)
qed

lemma if_update_af_ok:
  assumes ok: "eng_inv s" and i: "e_ifaces s i \<noteq> None" and af: "af \<noteq> AF_UNSPEC"
  shows "okE (if_update_af y s i af link_ok) (sheds s)"
proof -
  obtain ifc where ifc: "e_ifaces s i = Some ifc" using i by auto
  obtain ia where ia: "iface_af_get ifc af = Inr ia" using af by (cases af) (simp_all add: iface_af_get_def)
  have inv: "eng_inv (upd_ia s i af (\<lambda>ia. ia\<lparr>ia_active := b\<rparr>))" for b by (rule active_inv(1) [OF ok ifc])
  have j: "e_ifaces (upd_ia s i af (\<lambda>ia. ia\<lparr>ia_active := b\<rparr>)) i \<noteq> None" for b using ifc by (simp add: upd_ia_def)
  have up: "okE (if_start y (upd_ia s i af (\<lambda>ia. ia\<lparr>ia_active := True\<rparr>)) i af) (sheds s)"
    by (rule okE_mono [OF okE_calm_sheds [OF inv if_start_calm [OF eng_sess [OF inv] j af]]])
      (rule active_sheds [OF ok ifc af], assumption, simp)
  have down: "okE (if_reset y (upd_ia s i af (\<lambda>ia. ia\<lparr>ia_active := False\<rparr>)) i af) (sheds s)"
    by (rule okE_mono [OF if_reset_ok [OF inv j af]]) (blast intro: active_sheds [OF ok ifc af])
  show ?thesis
    unfolding if_update_af_def get_iface_Some [OF ifc] bindE_simps ia Let_def
    by (rule okE_bind [OF ldp_af_global_get_total [OF af]]) (use up down sheds_refl [OF ok] in auto)
qed

lemma if_update_ok:
  assumes ok: "eng_inv s" and i: "e_ifaces s i \<noteq> None"
  shows "okE (if_update y s i af) (sheds s)"
proof -
  obtain ifc where ifc: "e_ifaces s i = Some ifc" using i by auto
  have first: "okE (if af = AF_INET \<or> af = AF_UNSPEC then if_update_af y s i AF_INET l else Inr s) (sheds s)" for l
    using if_update_af_ok [OF ok i, of AF_INET] sheds_refl [OF ok] by simp
  have second: "okE (if af = AF_INET6 \<or> af = AF_UNSPEC then if_update_af y t i AF_INET6 l else Inr t) (sheds s)"
    if t: "sheds s t" for t l
    using okE_sheds_trans [OF t if_update_af_ok [OF sheds_inv [OF t], of i AF_INET6]] sheds_iface [OF t, of i] i t by simp
  show ?thesis
    unfolding if_update_def get_iface_Some [OF ifc] bindE_simps Let_def by (rule okE_bind [OF first second])
qed

lemma if_update_all_ok:
  assumes ok: "eng_inv s"
  shows "okE (if_update_all y s af) (sheds s)"
  unfolding if_update_all_def
proof (rule okE_foldE)
  show "sheds s s" by (rule sheds_refl [OF ok])
  fix t i assume i: "i \<in> set (e_iface_list s)" and t: "sheds s t"
  have "e_ifaces s i \<noteq> None" using eng_iface [OF ok i] by auto
  then have "e_ifaces t i \<noteq> None" using sheds_iface [OF t, of i] by simp
  then show "okE (if_update y t i af) (sheds s)" by (rule okE_sheds_trans [OF t if_update_ok [OF sheds_inv [OF t]]])
qed

section \<open>Addresses\<close>

lemma stays_key: "stays s t \<Longrightarrow> p \<in> set (nbrs_by_id s) \<Longrightarrow> \<exists>n. rb_find (e_nbrs t) p = Some n"
  using stays_valid [of s t p] by (cases "rb_find (e_nbrs t) p") auto

lemma announce_addr_stays:
  assumes inv: "sess_inv s" and ifa: "ifa_good ifa"
  shows "okE (announce_addr s ifa withdraw) (stays s)"
  unfolding announce_addr_def
proof (rule okE_stays_foldE [OF inv])
  fix t p assume "p \<in> set (nbrs_by_id s)" and t: "stays s t"
  then obtain n where n: "rb_find (e_nbrs t) p = Some n" using stays_key by blast
  have ok: "nbr_ok n" by (rule inv_nbr [OF stays_inv [OF t] n])
  have send: "okE (send_address_single nbr_fsm t p ifa withdraw) (stays t)" if st: "n_state n = NBR_STA_OPER"
  proof -
    obtain c where c: "n_tcp n = Some c" using ok st by (auto simp: nbr_ok_def)
    have "okE (send_address nbr_fsm t p (ifa_af ifa) [ifa] 1 withdraw)
        (addrs_sent p t n (tcp_fd c) (if withdraw then MSG_TYPE_ADDRWITHDRAW else MSG_TYPE_ADDR))"
      by (rule send_address_eff [OF n c]) (use ok ifa fsm_idle_eff(1) [OF _ ok] in \<open>simp_all add: nbr_ok_def ifa_good_def\<close>)
    then show ?thesis
      unfolding send_address_single_def
      by (rule okE_mono) (auto simp: addrs_sent_def list_all_iff intro!: stays_eff [OF stays_inv [OF t] n _ ok])
  qed
  show "okE (bindE (get_nbr t p) (\<lambda>n.
       if n_state n \<noteq> NBR_STA_OPER then Inr t
       else if ifa_af ifa = AF_INET \<and> \<not> n_v4_enabled n then Inr t
       else if ifa_af ifa = AF_INET6 \<and> \<not> n_v6_enabled n then Inr t
       else send_address_single nbr_fsm t p ifa withdraw)) (stays t)"
    using send stays_refl [OF stays_inv [OF t]] n by simp
qed

lemma if_addr_lookup_ok:
  assumes "ka_af ka \<noteq> AF_UNSPEC"
  shows "okE (if_addr_lookup xs ka) (\<lambda>r. \<forall>x. r = Some x \<longrightarrow> x \<in> set xs)"
proof -
  have "\<exists>b. bindE (ldp_addrcmp (ka_af ka) (ifa_addr x) (ka_addr ka)) (\<lambda>c.
       if c \<noteq> 0 \<or> ifa_prefixlen x \<noteq> ka_prefixlen ka then Inr False
       else bindE (ldp_addrcmp (ka_af ka) (ifa_dstbrd x) (ka_dstbrd ka)) (\<lambda>d. Inr (d = 0))) = Inr b" for x
    using ldp_addrcmp_eq_0 [OF assms, of "ifa_addr x" "ka_addr ka"] ldp_addrcmp_eq_0 [OF assms, of "ifa_dstbrd x" "ka_dstbrd ka"]
    by auto
  then have dec: "\<And>x. x \<in> set xs \<Longrightarrow> \<exists>b. (\<lambda>x. bindE (ldp_addrcmp (ka_af ka) (ifa_addr x) (ka_addr ka)) (\<lambda>c.
       if c \<noteq> 0 \<or> ifa_prefixlen x \<noteq> ka_prefixlen ka then Inr False
       else bindE (ldp_addrcmp (ka_af ka) (ifa_dstbrd x) (ka_dstbrd ka)) (\<lambda>d. Inr (d = 0)))) x = Inr b" by blast
  show ?thesis unfolding if_addr_lookup_def by (rule okE_mono [OF findE_okE [OF dec]]) auto
qed

lemma if_lookup_ok:
  assumes "eng_inv s"
  shows "okE (if_lookup s k) (\<lambda>r. \<forall>i. r = Some i \<longrightarrow> e_ifaces s i \<noteq> None)"
proof -
  have dec: "\<exists>b. bindE (get_iface s i) (\<lambda>ifc. Inr (if_ifindex ifc = ucast k)) = Inr b" if i: "i \<in> set (e_iface_list s)" for i
    using eng_iface [OF assms i] by auto
  show ?thesis unfolding if_lookup_def by (rule okE_mono [OF findE_okE [OF dec]]) (use eng_iface [OF assms] in auto)
qed

text \<open>A change of the addresses to announce.\<close>

lemma addr_list_calm:
  assumes inv: "sess_inv s" and xs: "\<forall>x\<in>set xs. ifa_good x"
  shows "calm s (s\<lparr>e_addr_list := xs\<rparr>)"
proof -
  have "sess_inv (s\<lparr>e_addr_list := xs\<rparr>)" using inv xs by (simp add: sess_inv_def pids_ok_def addrs_ok_def)
  then show ?thesis using outs_ok_cong [of "s\<lparr>e_addr_list := xs\<rparr>" s] by (simp add: calm_def view_def)
qed

definition ka_good :: "kaddr \<Rightarrow> bool" where
  "ka_good ka \<longleftrightarrow> ifa_good (if_addr_new ka)"

lemma ka_good_af: "ka_good ka \<Longrightarrow> ka_af ka \<noteq> AF_UNSPEC"
  by (simp add: ka_good_def ifa_good_def if_addr_new_def)

lemma iface_good:
  assumes "eng_inv s" "e_ifaces s i = Some ifc" "x \<in> set (if_addr_list ifc)"
  shows "ifa_good x"
  using ifs_okD(1) [OF eng_view [OF assms(1)] view_sel(8) [OF assms(2)]] assms(3) by (simp add: list_all_iff)

lemma if_addr_add_ok:
  assumes ok: "eng_inv s" and ka: "ka_good ka"
  shows "okE (if_addr_add y s ka) (runs s)"
proof -
  note af = ka_good_af [OF ka]
  have first: "okE (if found = None then
              let ifa = if_addr_new ka
              in announce_addr (s\<lparr>e_addr_list := ifa # e_addr_list s\<rparr>) ifa False
            else Inr s) (calm s)" for found :: "if_addr option"
  proof -
    let ?s = "s\<lparr>e_addr_list := if_addr_new ka # e_addr_list s\<rparr>"
    have k: "calm s ?s"
      by (rule addr_list_calm [OF eng_sess [OF ok]]) (use ka inv_addrs [OF eng_sess [OF ok]] in \<open>auto simp: ka_good_def addrs_ok_def\<close>)
    have "okE (announce_addr ?s (if_addr_new ka) False) (calm s)"
      by (rule okE_calm_trans [OF k okE_stays_calm [OF announce_addr_stays [OF calm_sess [OF k]]]]) (use ka in \<open>simp add: ka_good_def\<close>)
    then show ?thesis using calm_refl [OF eng_sess [OF ok]] by (simp add: Let_def)
  qed
  have link: "okE (let s2 = (if ka_af ka = AF_INET6 \<and> IN6_IS_ADDR_LINKLOCAL (ka_addr ka)
                   then upd_if t i (\<lambda>ifc. ifc\<lparr>if_linklocal := ka_addr ka\<rparr>) else t)
         in bindE (get_iface s2 i) (\<lambda>ifc. bindE (if_addr_lookup (if_addr_list ifc) ka) (\<lambda>found.
            if found = None
            then if_update y (upd_if s2 i (\<lambda>ifc. ifc\<lparr>if_addr_list := if_addr_new ka # if_addr_list ifc\<rparr>)) i (ka_af ka)
            else Inr s2))) (runs t)" if okt: "eng_inv t" and i: "e_ifaces t i \<noteq> None" for t i
  proof -
    let ?t = "if ka_af ka = AF_INET6 \<and> IN6_IS_ADDR_LINKLOCAL (ka_addr ka)
                   then upd_if t i (\<lambda>ifc. ifc\<lparr>if_linklocal := ka_addr ka\<rparr>) else t"
    have k: "calm t ?t"
      using calm_upd_if [OF eng_sess [OF okt], of i "\<lambda>ifc. ifc\<lparr>if_linklocal := ka_addr ka\<rparr>"] calm_refl [OF eng_sess [OF okt]]
      by (simp add: iface_view_def)
    obtain ifc where ifc: "e_ifaces ?t i = Some ifc" using i calm_iface [OF k] by blast
    let ?u = "upd_if ?t i (\<lambda>ifc. ifc\<lparr>if_addr_list := if_addr_new ka # if_addr_list ifc\<rparr>)"
    have k2: "calm ?t ?u"
      by (rule calm_upd_if [OF calm_sess [OF k]]) (use ka in \<open>simp add: iface_view_def ka_good_def\<close>)
    note ku = calm_trans [OF k k2]
    have "e_ifaces ?u i \<noteq> None" using calm_iface [OF k2 ifc] by auto
    from okE_runs_trans [OF calm_runs [OF okt ku] okE_sheds_runs [OF if_update_ok [OF calm_inv [OF ku okt] this]]]
    have up: "okE (if_update y ?u i (ka_af ka)) (runs t)" .
    show ?thesis
      unfolding Let_def get_iface_Some [OF ifc] bindE_simps
      by (rule okE_bind [OF if_addr_lookup_ok [OF af]], rule okE_if, rule up) (use calm_runs [OF okt k] in simp)
  qed
  show ?thesis
    unfolding if_addr_add_def
  proof (rule okE_bind [OF if_addr_lookup_ok [OF af]], rule okE_bind [OF first])
    fix t assume t: "calm s t"
    have okt: "eng_inv t" by (rule calm_inv [OF t ok])
    show "okE (bindE (if_lookup t (ka_ifindex ka)) (\<lambda>x.
     case x of
       None \<Rightarrow> Inr t
     | Some i \<Rightarrow>
         let s2 = (if ka_af ka = AF_INET6 \<and> IN6_IS_ADDR_LINKLOCAL (ka_addr ka)
                   then upd_if t i (\<lambda>ifc. ifc\<lparr>if_linklocal := ka_addr ka\<rparr>) else t)
         in bindE (get_iface s2 i) (\<lambda>ifc. bindE (if_addr_lookup (if_addr_list ifc) ka) (\<lambda>found.
            if found = None
            then if_update y (upd_if s2 i (\<lambda>ifc. ifc\<lparr>if_addr_list := if_addr_new ka # if_addr_list ifc\<rparr>)) i (ka_af ka)
            else Inr s2)))) (runs s)"
      by (rule okE_runs_trans [OF calm_runs [OF ok t]], rule okE_bind [OF if_lookup_ok [OF okt]])
        (use link [OF okt] runs_refl [OF okt] in \<open>auto split: option.split\<close>)
  qed
qed

lemma if_addr_del_ok:
  assumes ok: "eng_inv s" and ka: "ka_good ka"
  shows "okE (if_addr_del y s ka) (runs s)"
proof -
  note af = ka_good_af [OF ka]
  have link: "okE (bindE (get_iface s i) (\<lambda>ifc.
                let s1 = (if ka_af ka = AF_INET6 \<and> if_linklocal ifc = ka_addr ka
                          then upd_if s i (\<lambda>ifc. ifc\<lparr>if_linklocal := replicate 16 0\<rparr>) else s)
                in bindE (if_addr_lookup (if_addr_list ifc) ka) (\<lambda>found.
                   case found of
                     None \<Rightarrow> Inr s1
                   | Some ifa \<Rightarrow>
                       if_update y (upd_if s1 i (\<lambda>ifc. ifc\<lparr>if_addr_list := remove1 ifa (if_addr_list ifc)\<rparr>))
                         i (ifa_af ifa)))) (runs s)" if i: "e_ifaces s i \<noteq> None" for i
  proof -
    obtain ifc where ifc: "e_ifaces s i = Some ifc" using i by auto
    let ?t = "if ka_af ka = AF_INET6 \<and> if_linklocal ifc = ka_addr ka
                          then upd_if s i (\<lambda>ifc. ifc\<lparr>if_linklocal := replicate 16 0\<rparr>) else s"
    have k: "calm s ?t"
      using calm_upd_if [OF eng_sess [OF ok], of i "\<lambda>ifc. ifc\<lparr>if_linklocal := replicate 16 0\<rparr>"] calm_refl [OF eng_sess [OF ok]]
      by (simp add: iface_view_def)
    have up: "okE (if_update y (upd_if ?t i (\<lambda>ifc. ifc\<lparr>if_addr_list := remove1 ifa (if_addr_list ifc)\<rparr>)) i g) (runs s)" for ifa g
    proof -
      let ?u = "upd_if ?t i (\<lambda>ifc. ifc\<lparr>if_addr_list := remove1 ifa (if_addr_list ifc)\<rparr>)"
      obtain ift where ift: "e_ifaces ?t i = Some ift" using calm_iface [OF k ifc] by blast
      have good: "list_all ifa_good (if_addr_list x)" if "e_ifaces ?t i = Some x" for x
        using iface_good [OF calm_inv [OF k ok] that] by (simp add: list_all_iff)
      have k2: "calm ?t ?u"
      proof (rule calm_upd_if [OF calm_sess [OF k]])
        fix x assume x: "e_ifaces ?t i = Some x"
        have "list_all ifa_good (remove1 ifa (if_addr_list x))"
          using good [OF x] by (auto simp: list_all_iff dest: notin_set_remove1 [rotated] set_mp [OF set_remove1_subset])
        with good [OF x] show "iface_view (x\<lparr>if_addr_list := remove1 ifa (if_addr_list x)\<rparr>) = iface_view x"
          by (simp add: iface_view_def)
      qed
      note ku = calm_trans [OF k k2]
      have "e_ifaces ?u i \<noteq> None" using calm_iface [OF k2 ift] by auto
      from okE_runs_trans [OF calm_runs [OF ok ku] okE_sheds_runs [OF if_update_ok [OF calm_inv [OF ku ok] this]]]
      show ?thesis .
    qed
    show ?thesis
      unfolding Let_def get_iface_Some [OF ifc] bindE_simps
    proof (rule okE_bind [OF if_addr_lookup_ok [OF af]])
      fix found :: "if_addr option"
      have none: "okE (Inr ?t) (runs s)" unfolding okE_Inr by (rule calm_runs [OF ok k])
      show "okE (case found of None \<Rightarrow> Inr ?t
                 | Some ifa \<Rightarrow> if_update y (upd_if ?t i (\<lambda>ifc. ifc\<lparr>if_addr_list := remove1 ifa (if_addr_list ifc)\<rparr>)) i (ifa_af ifa)) (runs s)"
        by (cases found) (simp_all only: option.case none up)
    qed
  qed
  have fin: "okE (bindE (if_addr_lookup (e_addr_list t) ka) (\<lambda>found.
     case found of
       None \<Rightarrow> Inr t
     | Some ifa \<Rightarrow>
         bindE (announce_addr t ifa True) (\<lambda>s3.
         Inr (s3\<lparr>e_addr_list := remove1 ifa (e_addr_list s3)\<rparr>)))) (runs t)" if t: "eng_inv t" for t
  proof (rule okE_bind [OF if_addr_lookup_ok [OF af]])
    fix found assume f: "\<forall>x. found = Some x \<longrightarrow> x \<in> set (e_addr_list t)"
    have "okE (bindE (announce_addr t ifa True) (\<lambda>s3. Inr (s3\<lparr>e_addr_list := remove1 ifa (e_addr_list s3)\<rparr>))) (runs t)"
      if "found = Some ifa" for ifa
    proof (rule okE_bind [OF announce_addr_stays [OF eng_sess [OF t]]])
      show "ifa_good ifa" using f that inv_addrs [OF eng_sess [OF t]] by (auto simp: addrs_ok_def)
      fix u assume "stays t u"
      then have u: "calm t u" by (rule stays_calm)
      have "\<forall>x\<in>set (remove1 ifa (e_addr_list u)). ifa_good x"
        using inv_addrs [OF calm_sess [OF u]] by (auto simp: addrs_ok_def dest: set_mp [OF set_remove1_subset])
      from calm_trans [OF u addr_list_calm [OF calm_sess [OF u] this]]
      show "okE (Inr (u\<lparr>e_addr_list := remove1 ifa (e_addr_list u)\<rparr>)) (runs t)" using calm_runs [OF t] by simp
    qed
    then show "okE (case found of
       None \<Rightarrow> Inr t
     | Some ifa \<Rightarrow>
         bindE (announce_addr t ifa True) (\<lambda>s3.
         Inr (s3\<lparr>e_addr_list := remove1 ifa (e_addr_list s3)\<rparr>))) (runs t)" using runs_refl [OF t] by (simp split: option.split)
  qed
  show ?thesis
    unfolding if_addr_del_def
  proof (rule okE_bind [OF if_lookup_ok [OF ok]], rule okE_runs_bind)
    fix x assume x: "\<forall>i. x = Some i \<longrightarrow> e_ifaces s i \<noteq> None"
    show "okE (case x of
              None \<Rightarrow> Inr s
            | Some i \<Rightarrow>
                bindE (get_iface s i) (\<lambda>ifc.
                let s1 = (if ka_af ka = AF_INET6 \<and> if_linklocal ifc = ka_addr ka
                          then upd_if s i (\<lambda>ifc. ifc\<lparr>if_linklocal := replicate 16 0\<rparr>) else s)
                in bindE (if_addr_lookup (if_addr_list ifc) ka) (\<lambda>found.
                   case found of
                     None \<Rightarrow> Inr s1
                   | Some ifa \<Rightarrow>
                       if_update y (upd_if s1 i (\<lambda>ifc. ifc\<lparr>if_addr_list := remove1 ifa (if_addr_list ifc)\<rparr>))
                         i (ifa_af ifa)))) (runs s)"
      using link x runs_refl [OF ok] by (simp split: option.split del: not_None_eq)
  qed (rule fin [OF runs_inv])
qed

end
