(* ===== verification/Ldpe_Engine.thy ===== *)
theory Ldpe_Engine
  imports Ldpe_IfSafe
begin

text \<open>
  The whole protocol engine: received packets, accepted connections, timers, and the messages of the
  parent and of the label decision engine as one step relation. From the initial state on, no event
  makes the engine fault.
\<close>

section \<open>Received packets\<close>

lemma bad_addr_total: "af \<noteq> AF_UNSPEC \<Longrightarrow> okE (bad_addr af a) (\<lambda>_. True)"
  by (cases af) (simp_all add: bad_addr_def)

lemma iface_af_get_total: "af \<noteq> AF_UNSPEC \<Longrightarrow> okE (iface_af_get ifc af) (\<lambda>_. True)"
  by (cases af) (simp_all add: iface_af_get_def)

lemma link_match_total:
  assumes good: "\<And>a. a \<in> set xs \<Longrightarrow> ifa_good a"
  shows "okE (findE (\<lambda>a.
                 if ifa_af a \<noteq> AF_INET then Inr False
                 else
                   case kind of
                     IF_TYPE_POINTOPOINT \<Rightarrow> Inr (v4 (ifa_dstbrd a) = v4 src)
                   | IF_TYPE_BROADCAST \<Rightarrow>
                       bindE (prefixlen2mask (unat (ifa_prefixlen a))) (\<lambda>mask.
                       Inr (v4 (ifa_addr a) AND mask = v4 src AND mask))) xs) (\<lambda>_. True)"
proof (rule okE_mono [OF findE_okE])
  fix a assume "a \<in> set xs"
  then have "ifa_af a = AF_INET \<longrightarrow> unat (ifa_prefixlen a) \<le> 32" using good by (simp add: ifa_good_def)
  then show "\<exists>b. (if ifa_af a \<noteq> AF_INET then Inr False
                 else
                   case kind of
                     IF_TYPE_POINTOPOINT \<Rightarrow> Inr (v4 (ifa_dstbrd a) = v4 src)
                   | IF_TYPE_BROADCAST \<Rightarrow>
                       bindE (prefixlen2mask (unat (ifa_prefixlen a))) (\<lambda>mask.
                       Inr (v4 (ifa_addr a) AND mask = v4 src AND mask))) = Inr b"
    by (cases kind; cases "ifa_af a = AF_INET") (auto simp: prefixlen2mask_def)
qed simp

lemma disc_find_iface_ok:
  assumes ok: "eng_inv s" and af: "af \<noteq> AF_UNSPEC"
  shows "okE (disc_find_iface s k af src multicast) (\<lambda>r. \<forall>i. r = Some i \<longrightarrow> e_ifaces s i \<noteq> None)"
  unfolding disc_find_iface_def
proof (rule okE_bind [OF if_lookup_ok [OF ok]])
  fix x assume x: "\<forall>i. x = Some i \<longrightarrow> e_ifaces s i \<noteq> None"
  show "okE (case x of
       None \<Rightarrow> Inr None
     | Some i \<Rightarrow>
         bindE (get_iface s i) (\<lambda>ifc.
         if \<not> multicast then bindE (iface_af_get ifc af) (\<lambda>ia. Inr (if ia_enabled ia then Some i else None))
         else
           case af of
             AF_INET \<Rightarrow>
               bindE (findE (\<lambda>a.
                 if ifa_af a \<noteq> AF_INET then Inr False
                 else
                   case if_kind ifc of
                     IF_TYPE_POINTOPOINT \<Rightarrow> Inr (v4 (ifa_dstbrd a) = v4 src)
                   | IF_TYPE_BROADCAST \<Rightarrow>
                       bindE (prefixlen2mask (unat (ifa_prefixlen a))) (\<lambda>mask.
                       Inr (v4 (ifa_addr a) AND mask = v4 src AND mask))) (if_addr_list ifc)) (\<lambda>r.
               Inr (if r = None then None else Some i))
           | AF_INET6 \<Rightarrow> Inr (if IN6_IS_ADDR_LINKLOCAL src then Some i else None)
           | AF_UNSPEC \<Rightarrow> Inl (Fatalx ''disc_find_iface: unknown af''))) (\<lambda>r. \<forall>i. r = Some i \<longrightarrow> e_ifaces s i \<noteq> None)"
  proof (cases x)
    case (Some i)
    then obtain ifc where ifc: "e_ifaces s i = Some ifc" using x by auto
    have uni: "okE (bindE (iface_af_get ifc af) (\<lambda>ia. Inr (if ia_enabled ia then Some i else None)))
        (\<lambda>r. \<forall>i. r = Some i \<longrightarrow> e_ifaces s i \<noteq> None)"
      by (rule okE_bind [OF iface_af_get_total [OF af]]) (use ifc in auto)
    show ?thesis
      using af ifc unfolding Some option.case get_iface_Some [OF ifc] bindE_simps
      by (intro okE_if uni) (cases af; auto intro!: okE_bind [OF link_match_total] iface_good [OF ok])
  qed simp
qed

lemma rd_total: "n + 2 \<le> length bs \<Longrightarrow> okE (rd16 bs n) (\<lambda>_. True)" "n + 4 \<le> length bs \<Longrightarrow> okE (rd32 bs n) (\<lambda>_. True)"
  by (simp_all add: rd16_def rd32_def)

text \<open>
  The identifier in the header of a packet is ordered by \<^verbatim>\<open>nbr_id_compare\<close> together with those of the
  neighbours.
\<close>

definition packet_fits :: "ldpe \<Rightarrow> bytes \<Rightarrow> bool" where
  "packet_fits s buf \<longleftrightarrow> (case rd32 buf 4 of Inr lsr_id \<Rightarrow> ids_fit s lsr_id | Inl _ \<Rightarrow> True)"

lemma rd32_fits: "packet_fits s buf \<Longrightarrow> 8 \<le> length buf \<Longrightarrow> okE (rd32 buf 4) (ids_fit s)"
  by (simp add: packet_fits_def rd32_def)

lemma disc_recv_packet_ok:
  assumes ok: "eng_inv s" and af: "af \<noteq> AF_UNSPEC" and y: "sys_ok y" and fit: "packet_fits s buf"
  shows "okE (disc_recv_packet y s af src k multicast buf) (runs s)"
proof -
  have r0: "okE (Inr s) (runs s)" using runs_refl [OF ok] by simp
  let ?len = "length buf mod 65536"
  have le: "?len \<le> length buf" by simp
  have hello: "okE (recv_hello y s lsr msg af src i multicast (drop (LDP_HDR_SIZE + LDP_MSG_SIZE) buf)
      (?len - LDP_HDR_SIZE - LDP_MSG_SIZE)) (runs s)" if "e_ifaces s i \<noteq> None" "ids_fit s lsr" for lsr msg i
    by (rule recv_hello_ok [OF ok af that(1) _ y that(2)]) (simp add: diff_le_mono)
  show ?thesis
    unfolding disc_recv_packet_def
  proof (rule okE_bind [OF bad_addr_total [OF af]], rule okE_if [OF r0],
      rule okE_bind [OF disc_find_iface_ok [OF ok af]])
    fix x :: "nat option" assume x: "\<forall>i. x = Some i \<longrightarrow> e_ifaces s i \<noteq> None"
    show "okE (case x of
         None \<Rightarrow> Inr s
       | Some i \<Rightarrow>
           let len = length buf mod 65536
           in if len < LDP_HDR_SIZE + LDP_MSG_SIZE \<or> len > LDP_MAX_LEN then Inr s
              else bindE (rd16 buf 0) (\<lambda>ver. bindE (rd16 buf 2) (\<lambda>l. bindE (rd32 buf 4) (\<lambda>lsr_id.
                bindE (rd16 buf 8) (\<lambda>lspace.
                let pdu_len = unat (ntohs l)
                in if ntohs ver \<noteq> LDP_VERSION then Inr s
                   else if ntohs lspace \<noteq> 0 then Inr s
                   else if pdu_len < LDP_HDR_PDU_LEN + LDP_MSG_SIZE \<or> pdu_len > len - LDP_HDR_DEAD_LEN then Inr s
                   else bindE (rd_msg (drop LDP_HDR_SIZE buf)) (\<lambda>msg.
                     let msg_len = unat (ntohs (msg_length msg))
                     in if msg_len < LDP_MSG_LEN \<or> msg_len + LDP_MSG_DEAD_LEN > pdu_len then Inr s
                        else if ntohs (msg_type msg) \<noteq> MSG_TYPE_HELLO then Inr s
                        else recv_hello y s lsr_id msg af src i multicast
                               (drop (LDP_HDR_SIZE + LDP_MSG_SIZE) buf)
                               (len - LDP_HDR_SIZE - LDP_MSG_SIZE))))))) (runs s)"
    proof (cases x)
      case (Some i)
      then have i: "e_ifaces s i \<noteq> None" using x by blast
      show ?thesis
        unfolding Some option.case Let_def
      proof (rule okE_if [OF r0])
        assume "\<not> (?len < LDP_HDR_SIZE + LDP_MSG_SIZE \<or> LDP_MAX_LEN < ?len)"
        with le have "18 \<le> length buf" by linarith
        then show "okE (bindE (rd16 buf 0) (\<lambda>ver. bindE (rd16 buf 2) (\<lambda>l. bindE (rd32 buf 4) (\<lambda>lsr_id.
                bindE (rd16 buf 8) (\<lambda>lspace.
                if ntohs ver \<noteq> LDP_VERSION then Inr s
                   else if ntohs lspace \<noteq> 0 then Inr s
                   else if unat (ntohs l) < LDP_HDR_PDU_LEN + LDP_MSG_SIZE \<or> unat (ntohs l) > ?len - LDP_HDR_DEAD_LEN then Inr s
                   else bindE (rd_msg (drop LDP_HDR_SIZE buf)) (\<lambda>msg.
                     if unat (ntohs (msg_length msg)) < LDP_MSG_LEN \<or> unat (ntohs (msg_length msg)) + LDP_MSG_DEAD_LEN > unat (ntohs l) then Inr s
                        else if ntohs (msg_type msg) \<noteq> MSG_TYPE_HELLO then Inr s
                        else recv_hello y s lsr_id msg af src i multicast
                               (drop (LDP_HDR_SIZE + LDP_MSG_SIZE) buf)
                               (?len - LDP_HDR_SIZE - LDP_MSG_SIZE))))))) (runs s)"
          by (intro okE_bind [OF rd_total(1)] okE_bind [OF rd32_fits [OF fit]] okE_bind [OF rd_msg_total] okE_if r0 hello i)
            simp_all
      qed
    qed (simp add: runs_refl [OF ok])
  qed
qed

section \<open>Accepted and pending connections\<close>

lemma fields_calm:
  assumes "sess_inv s"
  shows "calm s (s\<lparr>e_accept := q\<rparr>)" "calm s (s\<lparr>e_detached := d\<rparr>)" "calm s (s\<lparr>e_pending_conns := pc\<rparr>)"
    "calm s (s\<lparr>e_global4 := g\<rparr>)" "calm s (s\<lparr>e_global6 := g\<rparr>)" "calm s (s\<lparr>e_new_disc := d1\<rparr>)"
    "calm s (s\<lparr>e_new_edisc := d1\<rparr>)" "calm s (s\<lparr>e_new_session := d1\<rparr>)" "calm s (s\<lparr>e_msgcnt := c\<rparr>)"
  using assms by (simp_all add: calm_def view_def sess_inv_def pids_ok_def addrs_ok_def outs_ok_def)

lemma calm_eout: "sess_inv s \<Longrightarrow> out_quiet x \<Longrightarrow> calm s (eout s x)"
  by (rule stays_calm [OF stays_eout])

lemma nbr_find_addr_live:
  "eng_inv s \<Longrightarrow> nbr_find_addr s af a = Some p \<Longrightarrow> \<exists>n. rb_find (e_nbrs s) p = Some n"
  unfolding nbr_find_addr_def by (rule eng_by_addr)

lemma eng_nbr_af: "eng_inv s \<Longrightarrow> rb_find (e_nbrs s) p = Some n \<Longrightarrow> n_af n \<noteq> AF_UNSPEC"
  using inv_nbr [OF eng_sess] by (simp add: nbr_ok_def)

lemma session_accept_ok:
  assumes ok: "eng_inv s" and y: "sys_ok y" and af: "\<And>fd af a. r = Accepted fd af a \<Longrightarrow> af \<noteq> AF_UNSPEC"
  shows "okE (session_accept y r s) (runs s)"
proof (cases r)
  case (Accepted fd af a)
  note k = calm_eout [OF eng_sess [OF ok]]
  show ?thesis
  proof (cases "nbr_find_addr s af a")
    case None
    have "okE (bindE (pending_conn_find s af a) (\<lambda>pc.
               Inr (if pc \<noteq> None then eout s (Out_close fd) else pending_conn_new s fd af a))) (calm s)"
      by (rule okE_bind [OF pending_conn_find_total [OF af [OF Accepted]]])
        (simp add: pending_conn_new_def k fields_calm [OF eng_sess [OF ok]])
    then show ?thesis using okE_calm_runs [OF ok] None Accepted by (simp add: session_accept_def)
  next
    case (Some p)
    then obtain n where n: "rb_find (e_nbrs s) p = Some n" using nbr_find_addr_live [OF ok] by blast
    have "okE (bindE (nbr_session_active_role n) (\<lambda>active.
               if active then Inr (eout s (Out_close fd))
               else if n_state n \<noteq> NBR_STA_PRESENT then Inr (eout s (Out_close fd))
               else session_accept_nbr y s p fd)) (calm s)"
      by (rule okE_bind [OF active_role_total [OF eng_nbr_af [OF ok n]]])
        (use okE_stays_calm [OF session_accept_nbr_stays [OF eng_sess [OF ok] n y]] k in auto)
    then show ?thesis using okE_calm_runs [OF ok] Some Accepted n by (simp add: session_accept_def)
  qed
qed (use calm_runs [OF ok] fields_calm [OF eng_sess [OF ok]] runs_refl [OF ok] in \<open>simp_all add: session_accept_def\<close>)

lemma send_notification_stays:
  assumes inv: "sess_inv s"
  shows "okE (send_notification s st fd mid ty) (stays s)"
  unfolding send_notification_def by (rule send_notification_full_stays [OF inv]) (simp add: zero_notify_msg_def)

lemma pending_conn_timeout_ok:
  assumes ok: "eng_inv s"
  shows "okE (pending_conn_timeout s pc) (runs s)"
proof -
  let ?s = "s\<lparr>e_detached := pc_fd pc # e_detached s\<rparr>"
  have k: "calm s ?s" by (rule fields_calm [OF eng_sess [OF ok]])
  have "okE (pending_conn_timeout s pc) (calm s)"
    unfolding pending_conn_timeout_def
  proof (rule okE_bind [OF okE_calm_trans [OF k okE_stays_calm [OF send_notification_stays [OF calm_sess [OF k]]]]])
    fix t assume t: "calm s t"
    show "okE (Inr (pending_conn_del t pc)) (calm s)"
      using calm_trans [OF t pending_conn_del_calm(1) [OF calm_sess [OF t]]] by simp
  qed
  then show ?thesis by (rule okE_calm_runs [OF ok])
qed

lemma session_write_detached_ok:
  assumes ok: "eng_inv s"
  shows "runs s (session_write_detached queued s fd)"
proof -
  let ?s = "s\<lparr>e_detached := remove1 fd (e_detached s)\<rparr>"
  have k1: "calm s ?s" by (rule fields_calm [OF eng_sess [OF ok]])
  have k2: "calm ?s (eout ?s (Out_close fd))" by (rule calm_eout [OF calm_sess [OF k1]]) simp
  note k = calm_trans [OF k1 k2]
  from calm_trans [OF k fields_calm(1) [OF calm_sess [OF k]]] show ?thesis
    using runs_refl [OF ok] calm_runs [OF ok] by (simp add: session_write_detached_def Let_def)
qed

section \<open>Messages of the parent\<close>

lemma calm_nbr:
  assumes "calm s t" "rb_find (e_nbrs s) p \<noteq> None"
  shows "\<exists>n. rb_find (e_nbrs t) p = Some n"
proof -
  have "v_nbrs (view t) p = v_nbrs (view s) p" using assms(1) by (simp add: calm_def)
  with assms(2) show ?thesis by (auto simp: view_maps)
qed

text \<open>A loop over all neighbours whose body neither adds nor removes one.\<close>

lemma calm_all_nbrs:
  assumes ok: "eng_inv s"
    and f: "\<And>t p n. eng_inv t \<Longrightarrow> rb_find (e_nbrs t) p = Some n \<Longrightarrow> okE (f t p) (calm t)"
  shows "okE (foldE f (nbrs_by_id s) s) (calm s)"
proof (rule okE_calm_foldE [OF eng_sess [OF ok]])
  fix t p assume p: "p \<in> set (nbrs_by_id s)" and t: "calm s t"
  then obtain n where "rb_find (e_nbrs t) p = Some n" using calm_nbr [OF t, of p] by auto
  from f [OF calm_inv [OF t ok] this] show "okE (f t p) (calm t)" .
qed

lemma session_shutdown_calm:
  "eng_inv s \<Longrightarrow> rb_find (e_nbrs s) p = Some n \<Longrightarrow> okE (session_shutdown s p st mid ty) (calm s)"
  by (rule okE_stays_calm [OF session_shutdown_stays [OF eng_sess]])

lemma establish_calm:
  "eng_inv s \<Longrightarrow> rb_find (e_nbrs s) p = Some n \<Longrightarrow> okE (nbr_establish_connection y s p) (calm s)"
  by (rule okE_stays_calm [OF nbr_establish_connection_stays [OF eng_sess _ eng_adjs_live]])

lemma ldpe_reset_nbrs_calm: "eng_inv s \<Longrightarrow> okE (ldpe_reset_nbrs s af) (calm s)"
  unfolding ldpe_reset_nbrs_def
  by (rule calm_all_nbrs) (simp_all add: session_shutdown_calm calm_refl eng_sess)

lemma ldpe_reset_ds_nbrs_calm: "eng_inv s \<Longrightarrow> okE (ldpe_reset_ds_nbrs s) (calm s)"
  unfolding ldpe_reset_ds_nbrs_def
  by (rule calm_all_nbrs) (simp_all add: session_shutdown_calm calm_refl eng_sess)

lemma stop_idtimer_calm: "sess_inv s \<Longrightarrow> calm s (nbr_stop_idtimer s p)"
  unfolding nbr_stop_idtimer_def by (rule stays_calm [OF stays_upd_n]) simp_all

lemma idtimer_establish_calm:
  assumes ok: "eng_inv s" and n: "rb_find (e_nbrs s) p = Some n"
  shows "okE (nbr_establish_connection y (nbr_stop_idtimer s p) p) (calm s)"
proof -
  have k: "calm s (nbr_stop_idtimer s p)" by (rule stop_idtimer_calm [OF eng_sess [OF ok]])
  obtain m where m: "rb_find (e_nbrs (nbr_stop_idtimer s p)) p = Some m" using calm_nbr [OF k, of p] n by auto
  from okE_calm_trans [OF k establish_calm [OF calm_inv [OF k ok] m]] show ?thesis .
qed

lemma ldpe_stop_init_backoff_calm: "eng_inv s \<Longrightarrow> okE (ldpe_stop_init_backoff y s af) (calm s)"
  unfolding ldpe_stop_init_backoff_def
  by (rule calm_all_nbrs) (simp_all add: idtimer_establish_calm calm_refl eng_sess)

lemma close_sockets_nbr_calm:
  assumes ok: "eng_inv s" and n: "rb_find (e_nbrs s) p = Some n"
  shows "okE (close_sockets_nbr y af s p) (calm s)"
proof -
  have "okE (bindE (session_shutdown s p S_SHUTDOWN 0 0) (\<lambda>s1. bindE (pfkey_remove y s1 p) (\<lambda>(s2, _). Inr s2))) (calm s)"
  proof (rule okE_bind [OF session_shutdown_calm [OF ok n]])
    fix t assume t: "calm s t"
    have "rb_find (e_nbrs t) p \<noteq> None" using calm_nbr [OF t, of p] n by auto
    then have "okE (bindE (pfkey_remove y t p) (\<lambda>(s2, _). Inr s2)) (stays t)"
      by (intro okE_stays2_bind [OF pfkey_remove_stays [OF calm_sess [OF t]]]) (auto intro: stays_refl stays_inv)
    from okE_calm_trans [OF t okE_stays_calm [OF this]]
    show "okE (bindE (pfkey_remove y t p) (\<lambda>(s2, _). Inr s2)) (calm s)" .
  qed
  then show ?thesis using n calm_refl [OF eng_sess [OF ok]] by (simp add: close_sockets_nbr_def)
qed

lemma setup_sockets_nbr_calm:
  assumes ok: "eng_inv s" and n: "rb_find (e_nbrs s) p = Some n" and y: "sys_ok y"
  shows "okE (setup_sockets_nbr y af s p) (calm s)"
proof -
  have "okE (bindE (ldp_af_conf_get s af) (\<lambda>c.
       let s1 = upd_n s p (\<lambda>n. n\<lparr>n_laddr := ac_trans_addr c\<rparr>)
       in bindE (case nbr_params_find s1 (n_id n) of
                   None \<Rightarrow> Inr (s1, True) | Some np \<Rightarrow> pfkey_establish y s1 p np) (\<lambda>(s2, ok).
          if \<not> ok then Inl (Fatalx ''pfkey setup failed'')
          else bindE (get_nbr s2 p) (\<lambda>n2. bindE (nbr_session_active_role n2) (\<lambda>active.
            if active then nbr_establish_connection y s2 p else Inr s2))))) (calm s)" if af: "n_af n = af"
    unfolding Let_def
  proof (rule okE_bind [OF ldp_af_conf_get_total])
    fix c :: ldpd_af_conf
    let ?s = "upd_n s p (\<lambda>n. n\<lparr>n_laddr := ac_trans_addr c\<rparr>)"
    have k: "calm s ?s" by (rule stays_calm [OF stays_upd_n [OF eng_sess [OF ok]]]) simp_all
    have p: "rb_find (e_nbrs ?s) p \<noteq> None" using calm_nbr [OF k, of p] n by auto
    have auth: "okE (case nbr_params_find ?s (n_id n) of None \<Rightarrow> Inr (?s, True) | Some np \<Rightarrow> pfkey_establish y ?s p np)
        (\<lambda>(t, ok). calm s t \<and> ok)"
    proof (cases "nbr_params_find ?s (n_id n)")
      case (Some np)
      have "okE (pfkey_establish y ?s p np) (\<lambda>(t, ok). calm s t \<and> ok)"
        by (rule okE_mono [OF okE_conjI [OF pfkey_establish_stays [OF calm_sess [OF k] p] pfkey_establish_true [OF y p]]])
          (auto simp: stays2_def intro: calm_trans [OF k stays_calm])
      with Some show ?thesis by simp
    qed (use k in simp)
    show "okE (bindE (case nbr_params_find ?s (n_id n) of None \<Rightarrow> Inr (?s, True) | Some np \<Rightarrow> pfkey_establish y ?s p np) (\<lambda>(s2, ok).
          if \<not> ok then Inl (Fatalx ''pfkey setup failed'')
          else bindE (get_nbr s2 p) (\<lambda>n2. bindE (nbr_session_active_role n2) (\<lambda>active.
            if active then nbr_establish_connection y s2 p else Inr s2)))) (calm s)"
    proof (rule okE_bind [OF auth], goal_cases)
      case (1 x)
      then obtain t where x: "x = (t, True)" and t: "calm s t" by auto
      have okt: "eng_inv t" by (rule calm_inv [OF t ok])
      obtain m where m: "rb_find (e_nbrs t) p = Some m" using calm_nbr [OF t, of p] n by auto
      have "okE (bindE (nbr_session_active_role m) (\<lambda>active. if active then nbr_establish_connection y t p else Inr t)) (calm t)"
        by (rule okE_bind [OF active_role_total [OF eng_nbr_af [OF okt m]]])
          (use establish_calm [OF okt m] calm_refl [OF eng_sess [OF okt]] in auto)
      from okE_calm_trans [OF t this] show ?case using m by (simp add: x)
    qed
  qed (use eng_nbr_af [OF ok n] af in simp)
  then show ?thesis using n calm_refl [OF eng_sess [OF ok]] by (simp add: setup_sockets_nbr_def)
qed

lemma set_global_calm: "sess_inv s \<Longrightarrow> calm s (set_global s af g)"
  by (simp add: set_global_def fields_calm)

lemma ldpe_setup_sockets_calm:
  assumes inv: "sess_inv s" and af: "af \<noteq> AF_UNSPEC"
  shows "okE (ldpe_setup_sockets s af d e x) (calm s)"
  unfolding ldpe_setup_sockets_def
  by (rule okE_bind [OF ldp_af_global_get_total [OF af]])
    (simp add: calm_trans [OF set_global_calm [OF inv] fields_calm(1) [OF calm_sess [OF set_global_calm [OF inv]]]])

lemma close_fd_calm: "sess_inv s \<Longrightarrow> calm s (if fd \<noteq> -1 then eout s (Out_close fd) else s)"
  by (simp add: calm_eout calm_refl)

lemma close_fds_calm:
  assumes inv: "sess_inv s"
  shows "calm s ((\<lambda>fd s. if fd \<noteq> -1 then eout s (Out_close fd) else s) c
           ((\<lambda>fd s. if fd \<noteq> -1 then eout s (Out_close fd) else s) b
             ((\<lambda>fd s. if fd \<noteq> -1 then eout s (Out_close fd) else s) a s)))"
proof -
  note k1 = close_fd_calm [OF inv, of a]
  note k2 = calm_trans [OF k1 close_fd_calm [OF calm_sess [OF k1], of b]]
  show ?thesis using calm_trans [OF k2 close_fd_calm [OF calm_sess [OF k2], of c]] by simp
qed

lemma ldpe_close_sockets_calm:
  assumes inv: "sess_inv s" and af: "af \<noteq> AF_UNSPEC"
  shows "okE (ldpe_close_sockets s af) (calm s)"
proof -
  have acc: "calm t (if b then t\<lparr>e_accept := q t\<rparr> else t)" if "sess_inv t" for b t q
    using that by (simp add: fields_calm calm_refl)
  show ?thesis
    unfolding ldpe_close_sockets_def Let_def
  proof (rule okE_bind [OF ldp_af_global_get_total [OF af]], unfold okE_Inr, goal_cases)
    case (1 g)
    note k1 = close_fds_calm [OF inv, of "ag_session_socket g" "ag_edisc_socket g" "ag_disc_socket g"]
    note k2 = calm_trans [OF k1 acc [OF calm_sess [OF k1]]]
    show ?case by (rule calm_trans [OF k2 set_global_calm [OF calm_sess [OF k2]]])
  qed
qed

text \<open>What the parent sends: addresses with a family, and sockets of a family.\<close>

definition main_good :: "main_imsg \<Rightarrow> bool" where
  "main_good m \<longleftrightarrow>
     (case m of
        IMSG_NEWADDR ka \<Rightarrow> ka_good ka
      | IMSG_DELADDR ka \<Rightarrow> ka_good ka
      | IMSG_CLOSE_SOCKETS af \<Rightarrow> af \<noteq> AF_UNSPEC
      | IMSG_SETUP_SOCKETS af \<Rightarrow> af \<noteq> AF_UNSPEC
      | _ \<Rightarrow> True)"

lemma ifstatus_ok:
  assumes ok: "eng_inv s"
  shows "okE (bindE (if_lookup s k) (\<lambda>x.
          case x of
            None \<Rightarrow> Inr s
          | Some i \<Rightarrow> if_update y (upd_if s i (\<lambda>ifc. ifc\<lparr>if_flags := fl, if_linkstate := ls\<rparr>)) i AF_UNSPEC)) (runs s)"
proof (rule okE_bind [OF if_lookup_ok [OF ok]])
  fix x :: "nat option" assume x: "\<forall>i. x = Some i \<longrightarrow> e_ifaces s i \<noteq> None"
  show "okE (case x of None \<Rightarrow> Inr s
     | Some i \<Rightarrow> if_update y (upd_if s i (\<lambda>ifc. ifc\<lparr>if_flags := fl, if_linkstate := ls\<rparr>)) i AF_UNSPEC) (runs s)"
  proof (cases x)
    case (Some i)
    let ?s = "upd_if s i (\<lambda>ifc. ifc\<lparr>if_flags := fl, if_linkstate := ls\<rparr>)"
    have k: "calm s ?s" by (rule calm_upd_if [OF eng_sess [OF ok]]) (simp add: iface_view_def)
    have "e_ifaces ?s i \<noteq> None" using x Some by auto
    from okE_runs_trans [OF calm_runs [OF ok k] okE_sheds_runs [OF if_update_ok [OF calm_inv [OF k ok] this]]]
    show ?thesis unfolding Some option.case .
  qed (simp add: runs_refl [OF ok])
qed

lemma okE_calm_bind_runs:
  "eng_inv s \<Longrightarrow> okE m (calm s) \<Longrightarrow> (\<And>t. calm s t \<Longrightarrow> eng_inv t \<Longrightarrow> okE (f t) (runs t)) \<Longrightarrow> okE (bindE m f) (runs s)"
  by (rule okE_bind, assumption) (blast intro: okE_runs_trans calm_runs calm_inv)

lemma okE_runs_bind2:
  "okE m (runs s) \<Longrightarrow> (\<And>t. eng_inv t \<Longrightarrow> okE (f t) (runs t)) \<Longrightarrow> okE (bindE m f) (runs s)"
  by (rule okE_runs_bind) (auto dest: runs_inv)

lemma request_sockets_calm:
  assumes inv: "sess_inv s"
  shows "calm s (s\<lparr>e_new_disc := d, e_new_edisc := e, e_new_session := x\<rparr>)"
    "calm s (eout (s\<lparr>e_new_disc := d, e_new_edisc := e, e_new_session := x\<rparr>) (Out_request_sockets af))"
proof -
  show k: "calm s (s\<lparr>e_new_disc := d, e_new_edisc := e, e_new_session := x\<rparr>)"
    using inv by (simp add: calm_def view_def sess_inv_def pids_ok_def addrs_ok_def outs_ok_def)
  show "calm s (eout (s\<lparr>e_new_disc := d, e_new_edisc := e, e_new_session := x\<rparr>) (Out_request_sockets af))"
    by (rule calm_trans [OF k calm_eout [OF calm_sess [OF k]]]) simp
qed

lemma ldpe_dispatch_main_ok:
  assumes ok: "eng_inv s" and m: "main_good m" and y: "sys_ok y"
  shows "okE (ldpe_dispatch_main y s m) (runs s)"
proof (cases m)
  case (IMSG_CLOSE_SOCKETS af)
  then have af: "af \<noteq> AF_UNSPEC" using m by (simp add: main_good_def)
  show ?thesis
    unfolding IMSG_CLOSE_SOCKETS ldpe_dispatch_main_def main_imsg.case
    by (intro okE_calm_bind_runs [OF _ calm_all_nbrs] okE_calm_bind_runs [OF _ ldpe_close_sockets_calm]
        okE_runs_bind2 [OF okE_sheds_runs [OF if_update_all_ok]] okE_calm_bind_runs [OF _ tnbr_update_all_calm]
        okE_bind [OF ldp_af_conf_get_total [OF af]])
      (use af ok in \<open>simp_all add: close_sockets_nbr_calm eng_sess Let_def calm_runs [OF _ request_sockets_calm(1)] calm_runs [OF _ request_sockets_calm(2)]\<close>)
next
  case (IMSG_SETUP_SOCKETS af)
  then have af: "af \<noteq> AF_UNSPEC" using m by (simp add: main_good_def)
  have go: "okE (bindE (ldpe_setup_sockets s af (e_new_disc s) (e_new_edisc s) (e_new_session s)) (\<lambda>s1.
            bindE (if_update_all y s1 af) (\<lambda>s2.
            bindE (tnbr_update_all s2 af) (\<lambda>s3.
            foldE (setup_sockets_nbr y af) (nbrs_by_id s3) s3)))) (runs s)"
    by (intro okE_calm_bind_runs [OF _ ldpe_setup_sockets_calm] okE_runs_bind2 [OF okE_sheds_runs [OF if_update_all_ok]]
        okE_calm_bind_runs [OF _ tnbr_update_all_calm] okE_calm_runs calm_all_nbrs)
      (use af ok y in \<open>simp_all add: setup_sockets_nbr_calm eng_sess\<close>)
  show ?thesis
    unfolding IMSG_SETUP_SOCKETS ldpe_dispatch_main_def main_imsg.case Let_def
    by (intro okE_if go) (simp only: okE_Inr, rule calm_runs [OF ok close_fds_calm [OF eng_sess [OF ok]]])
next
  case (IMSG_SOCKET_NET ty fd)
  then show ?thesis
    using calm_runs [OF ok] fields_calm [OF eng_sess [OF ok]]
    by (cases ty) (simp_all add: ldpe_dispatch_main_def)
qed (use m ok ifstatus_ok [OF ok] if_addr_add_ok if_addr_del_ok in \<open>simp_all add: ldpe_dispatch_main_def main_good_def\<close>)

lemma nbr_clear_ctl_calm:
  assumes ok: "eng_inv s" and af: "af \<noteq> AF_UNSPEC"
  shows "okE (nbr_clear_ctl s af raddr) (calm s)"
  unfolding nbr_clear_ctl_def
proof (rule okE_calm_foldE [OF eng_sess [OF ok]])
  fix t k assume t: "calm s t"
  have okt: "eng_inv t" by (rule calm_inv [OF t ok])
  note r0 = calm_refl [OF eng_sess [OF okt]]
  show "okE (case rb_find (e_nbrs_by_addr t) k of
         None \<Rightarrow> Inr t
       | Some p \<Rightarrow>
           bindE (get_nbr t p) (\<lambda>n.
           bindE (if ldp_addrisset af raddr then ldp_addrcmp af raddr (n_raddr n) else Inr 0) (\<lambda>c.
           if c \<noteq> 0 then Inr t else session_shutdown t p S_SHUTDOWN 0 0))) (calm t)"
  proof (cases "rb_find (e_nbrs_by_addr t) k")
    case (Some p)
    then obtain n where n: "rb_find (e_nbrs t) p = Some n" using eng_by_addr [OF okt] by blast
    have "okE (if ldp_addrisset af raddr then ldp_addrcmp af raddr (n_raddr n) else Inr 0) (\<lambda>_. True)"
      using ldp_addrcmp_eq_0 [OF af, of raddr "n_raddr n"] by auto
    then have "okE (bindE (if ldp_addrisset af raddr then ldp_addrcmp af raddr (n_raddr n) else Inr 0) (\<lambda>c.
           if c \<noteq> 0 then Inr t else session_shutdown t p S_SHUTDOWN 0 0)) (calm t)"
      by (rule okE_bind) (use session_shutdown_calm [OF okt n] r0 in auto)
    then show ?thesis using n by (simp only: Some option.case get_nbr_Some bindE_simps)
  qed (simp add: r0)
qed

section \<open>Events\<close>

text \<open>
  What the event loop of the engine calls: packets, connections, streams, timers, the messages of the
  parent and of the label decision engine, and the request to clear neighbours. \<open>pending_conn_timeout\<close> is
  named by its descriptor and address; \<open>Ev_write_detached\<close> belongs to a connection without neighbour.
\<close>

datatype ldpe_event =
    Ev_packet af ldpd_addr u32 bool bytes
  | Ev_accept accept_result
  | Ev_accept_timeout
  | Ev_read u32 read_result
  | Ev_write u32 write_result
  | Ev_write_detached int bool
  | Ev_connect u32 connect_result
  | Ev_pending_timeout pending_conn
  | Ev_adj_timeout nat
  | Ev_link_hello nat af
  | Ev_targeted_hello nat
  | Ev_keepalive_timer u32
  | Ev_keepalive_timeout u32
  | Ev_init_timeout u32
  | Ev_idtimer u32
  | Ev_main main_imsg
  | Ev_lde lde_imsg
  | Ev_clear af ldpd_addr

definition ldpe_handle :: "sys \<Rightarrow> ldpe_event \<Rightarrow> ldpe \<Rightarrow> ldpe res" where
  "ldpe_handle y ev s =
     (case ev of
        Ev_packet af src ifindex multicast buf \<Rightarrow> disc_recv_packet y s af src ifindex multicast buf
      | Ev_accept r \<Rightarrow> session_accept y r s
      | Ev_accept_timeout \<Rightarrow> Inr (s\<lparr>e_accept := accept_timeout (e_accept s)\<rparr>)
      | Ev_read p r \<Rightarrow> session_read r s p
      | Ev_write p r \<Rightarrow> session_write r s p
      | Ev_write_detached fd queued \<Rightarrow> Inr (session_write_detached queued s fd)
      | Ev_connect p r \<Rightarrow> nbr_connect_cb r s p
      | Ev_pending_timeout pc \<Rightarrow> pending_conn_timeout s pc
      | Ev_adj_timeout a \<Rightarrow> adj_itimer y s a
      | Ev_link_hello i af \<Rightarrow> if_hello_timer s i af
      | Ev_targeted_hello t \<Rightarrow> tnbr_hello_timer s t
      | Ev_keepalive_timer p \<Rightarrow> nbr_ktimer s p
      | Ev_keepalive_timeout p \<Rightarrow> nbr_ktimeout s p
      | Ev_init_timeout p \<Rightarrow> nbr_itimeout s p
      | Ev_idtimer p \<Rightarrow> nbr_idtimer y s p
      | Ev_main m \<Rightarrow> ldpe_dispatch_main y s m
      | Ev_lde m \<Rightarrow> ldpe_dispatch_lde s m
      | Ev_clear af raddr \<Rightarrow> nbr_clear_ctl s af raddr)"

text \<open>
  The events that can come: a timer only while it is pending, data only on an open connection, packets
  and connections of one of the two address families, and messages as the other processes send them.
\<close>

definition nbr_has :: "ldpe \<Rightarrow> u32 \<Rightarrow> (nbr \<Rightarrow> bool) \<Rightarrow> bool" where
  "nbr_has s p P = (case rb_find (e_nbrs s) p of None \<Rightarrow> False | Some n \<Rightarrow> P n)"

definition ev_raised :: "ldpe \<Rightarrow> ldpe_event \<Rightarrow> bool" where
  "ev_raised s ev =
     (case ev of
        Ev_packet af _ _ _ _ \<Rightarrow> af \<noteq> AF_UNSPEC
      | Ev_accept (Accepted _ af _) \<Rightarrow> af \<noteq> AF_UNSPEC
      | Ev_read p _ \<Rightarrow> nbr_has s p (\<lambda>n. n_tcp n \<noteq> None)
      | Ev_write p _ \<Rightarrow> nbr_has s p (\<lambda>n. n_tcp n \<noteq> None)
      | Ev_connect p _ \<Rightarrow> nbr_has s p n_ev_connect
      | Ev_adj_timeout a \<Rightarrow> (case e_adjs s a of None \<Rightarrow> False | Some adj \<Rightarrow> a_inactivity_timer adj \<noteq> None)
      | Ev_link_hello i af \<Rightarrow> e_ifaces s i \<noteq> None \<and> af \<noteq> AF_UNSPEC
      | Ev_targeted_hello t \<Rightarrow> e_tnbrs s t \<noteq> None
      | Ev_keepalive_timer p \<Rightarrow> nbr_has s p (\<lambda>n. n_keepalive_timer n \<noteq> None)
      | Ev_keepalive_timeout p \<Rightarrow> nbr_has s p (\<lambda>n. n_keepalive_timeout n \<noteq> None)
      | Ev_init_timeout p \<Rightarrow> nbr_has s p (\<lambda>n. n_init_timeout n \<noteq> None)
      | Ev_idtimer p \<Rightarrow> nbr_has s p (\<lambda>n. n_initdelay_timer n \<noteq> None)
      | Ev_main m \<Rightarrow> main_good m
      | Ev_lde m \<Rightarrow> lde_imsg_good m
      | Ev_clear af _ \<Rightarrow> af \<noteq> AF_UNSPEC
      | _ \<Rightarrow> True)"

text \<open>
  The events that the engine does not survive: a failed write (the connection is used after it was
  freed), FEC elements that \<^verbatim>\<open>tlv_decode_fec_elm\<close> cannot handle, and a packet whose identifier
  \<^verbatim>\<open>nbr_id_compare\<close> does not order together with those of the neighbours (the search for the neighbour
  may then miss it). Left out as well is the session after the one with the last of the
  32-bit peer identifiers: from then on the identifiers of closed sessions are used again.
\<close>

definition ev_harmless :: "ldpe \<Rightarrow> ldpe_event \<Rightarrow> bool" where
  "ev_harmless s ev =
     (case ev of
        Ev_packet _ _ _ _ buf \<Rightarrow> packet_fits s buf
      | Ev_write _ r \<Rightarrow> r \<noteq> Write_failed
      | Ev_read p r \<Rightarrow>
          nbr_has s p (\<lambda>n. (n_state n = NBR_STA_OPER \<or> e_peercnt s \<noteq> -1) \<and>
            (case (r, n_tcp n) of (Read_bytes bs, Some tcp) \<Rightarrow> good_stream (tcp_rbuf tcp @ bs) | _ \<Rightarrow> True))
      | _ \<Rightarrow> True)"

lemma nbr_hasE: "nbr_has s p P \<Longrightarrow> (\<And>n. rb_find (e_nbrs s) p = Some n \<Longrightarrow> P n \<Longrightarrow> thesis) \<Longrightarrow> thesis"
  by (auto simp: nbr_has_def split: option.splits)

lemma session_read_ev:
  assumes ok: "eng_inv s" and r: "ev_raised s (Ev_read p r)" and h: "ev_harmless s (Ev_read p r)"
  shows "okE (session_read r s p) (runs s)"
proof -
  obtain n where n: "rb_find (e_nbrs s) p = Some n" and t: "n_tcp n \<noteq> None"
    using r by (auto simp: ev_raised_def elim: nbr_hasE)
  have "n_state n \<noteq> NBR_STA_PRESENT" using inv_nbr [OF eng_sess [OF ok] n] t by (simp add: nbr_ok_def)
  moreover have h': "(n_state n = NBR_STA_OPER \<or> e_peercnt s \<noteq> -1) \<and>
            (case (r, n_tcp n) of (Read_bytes bs, Some tcp) \<Rightarrow> good_stream (tcp_rbuf tcp @ bs) | _ \<Rightarrow> True)"
    using h n by (auto simp: ev_harmless_def nbr_has_def)
  ultimately have al: "alive s p" using n by (simp add: alive_def)
  show ?thesis
    by (rule okE_stays_runs [OF ok session_read_stays [OF eng_sess [OF ok] al]]) (use n h' in simp)
qed

theorem ldpe_handle_ok:
  assumes ok: "eng_inv s" and y: "sys_ok y" and r: "ev_raised s ev" and h: "ev_harmless s ev"
  shows "okE (ldpe_handle y ev s) (runs s)"
proof (cases ev)
  case (Ev_packet af src k m buf)
  then show ?thesis
    using disc_recv_packet_ok [OF ok _ y] r h by (simp add: ldpe_handle_def ev_raised_def ev_harmless_def)
next
  case (Ev_accept x)
  have "okE (session_accept y x s) (runs s)"
    by (rule session_accept_ok [OF ok y]) (use r Ev_accept in \<open>simp add: ev_raised_def\<close>)
  then show ?thesis by (simp add: Ev_accept ldpe_handle_def)
next
  case Ev_accept_timeout
  then show ?thesis using calm_runs [OF ok fields_calm(1) [OF eng_sess [OF ok]]] by (simp add: ldpe_handle_def)
next
  case (Ev_read p x)
  then show ?thesis using session_read_ev [OF ok] r h by (simp add: ldpe_handle_def)
next
  case (Ev_write p x)
  then show ?thesis using h runs_refl [OF ok] by (cases x) (simp_all add: ldpe_handle_def session_write_def ev_harmless_def)
next
  case (Ev_connect p x)
  then show ?thesis
    using okE_stays_runs [OF ok nbr_connect_cb_stays [OF eng_sess [OF ok]]] r
    by (auto simp: ldpe_handle_def ev_raised_def elim: nbr_hasE)
next
  case (Ev_adj_timeout a)
  then show ?thesis using adj_itimer_ok [OF ok] r by (auto simp: ldpe_handle_def ev_raised_def split: option.splits)
next
  case (Ev_link_hello i af)
  then show ?thesis
    using okE_calm_runs [OF ok if_hello_timer_calm [OF eng_sess [OF ok]]] r by (auto simp: ldpe_handle_def ev_raised_def)
next
  case (Ev_targeted_hello t)
  then show ?thesis
    using okE_calm_runs [OF ok tnbr_hello_timer_calm [OF ok]] r by (auto simp: ldpe_handle_def ev_raised_def)
next
  case (Ev_keepalive_timer p)
  then obtain n where n: "rb_find (e_nbrs s) p = Some n" "n_keepalive_timer n \<noteq> None"
    using r by (auto simp: ev_raised_def elim: nbr_hasE)
  then have "n_state n = NBR_STA_OPER"
    using inv_nbr [OF eng_sess [OF ok] n(1)] by (auto simp: nbr_ok_def timers_ok_def split: nbr_state.splits)
  with Ev_keepalive_timer show ?thesis
    using okE_stays_runs [OF ok nbr_ktimer_stays [OF eng_sess [OF ok] n(1)]] by (simp add: ldpe_handle_def)
next
  case (Ev_keepalive_timeout p)
  then show ?thesis
    using okE_calm_runs [OF ok session_shutdown_calm [OF ok]] r
    by (auto simp: ldpe_handle_def ev_raised_def nbr_ktimeout_def elim: nbr_hasE)
next
  case (Ev_init_timeout p)
  then show ?thesis
    using okE_stays_runs [OF ok nbr_fsm_stays [OF eng_sess [OF ok]]] r
    by (auto simp: ldpe_handle_def ev_raised_def nbr_itimeout_def elim!: nbr_hasE)
next
  case (Ev_idtimer p)
  then show ?thesis
    using okE_calm_runs [OF ok idtimer_establish_calm [OF ok]] r
    by (auto simp: ldpe_handle_def ev_raised_def nbr_idtimer_def nbr_stop_idtimer_def elim: nbr_hasE)
next
  case (Ev_main m)
  then show ?thesis using ldpe_dispatch_main_ok [OF ok _ y] r by (simp add: ldpe_handle_def ev_raised_def)
next
  case (Ev_lde m)
  then show ?thesis
    using okE_stays_runs [OF ok ldpe_dispatch_lde_stays [OF eng_sess [OF ok]]] r by (simp add: ldpe_handle_def ev_raised_def)
next
  case (Ev_clear af raddr)
  then show ?thesis
    using okE_calm_runs [OF ok nbr_clear_ctl_calm [OF ok]] r by (simp add: ldpe_handle_def ev_raised_def)
qed (use session_write_detached_ok [OF ok] pending_conn_timeout_ok [OF ok] in \<open>simp_all add: ldpe_handle_def\<close>)

end
