(* ===== verification/Ldpe_ReloadSafe.thy ===== *)
theory Ldpe_ReloadSafe
  imports Ldpe_Engine Ldpe_Reload
begin

text \<open>
  Reloading the configuration keeps the tables of the engine in order and does not fault, provided
  no adjacency sits on a family of an interface that is not active: \<^verbatim>\<open>if_exit\<close> resets active families
  only, so such an adjacency would outlive its interface.
\<close>

section \<open>Preliminaries\<close>

lemma calm_thins: "eng_inv s \<Longrightarrow> calm s t \<Longrightarrow> thins s t"
  by (rule sheds_thins [OF calm_sheds])

lemma thins_refl: "eng_inv s \<Longrightarrow> thins s s"
  by (rule sheds_thins [OF sheds_refl])

lemma thins_inv: "thins s t \<Longrightarrow> eng_inv t"
  by (simp add: thins_def)

lemma okE_calm_thins: "eng_inv s \<Longrightarrow> okE m (calm s) \<Longrightarrow> okE m (thins s)"
  by (erule okE_mono) (rule calm_thins)

lemma okE_sheds_thins: "okE m (sheds s) \<Longrightarrow> okE m (thins s)"
  by (erule okE_mono) (rule sheds_thins)

lemma okE_thins_bind:
  "okE m (thins s) \<Longrightarrow> (\<And>t. eng_inv t \<Longrightarrow> okE (f t) (thins t)) \<Longrightarrow> okE (bindE m f) (thins s)"
  by (rule okE_bind, assumption) (blast intro: okE_mono thins_trans thins_inv)

lemma okE_thins_if:
  "eng_inv s \<Longrightarrow> (b \<Longrightarrow> okE m (thins s)) \<Longrightarrow> okE (if b then m else Inr s) (thins s)"
  by (simp add: thins_refl)

text \<open>Fields of the configuration that neither the sessions nor the tables depend on.\<close>

lemma conf_fields_calm:
  assumes "sess_inv s"
  shows "calm s (s\<lparr>e_rtr_id := r\<rparr>)" "calm s (s\<lparr>e_trans_pref := p\<rparr>)" "calm s (s\<lparr>e_conf_flags := f\<rparr>)"
    "calm s (s\<lparr>e_conf_seqnum := n\<rparr>)" "calm s (upd_af s af g)"
  using assms
  by (simp_all add: calm_def view_def sess_inv_def pids_ok_def addrs_ok_def outs_ok_def upd_af_def)

lemma okE_Inr_calm_thins: "eng_inv s \<Longrightarrow> calm s t \<Longrightarrow> okE (Inr t) (thins s)"
  by (simp add: calm_thins)

section \<open>Global parameters and address families\<close>

lemma merge_global_ok:
  assumes ok: "eng_inv s"
  shows "okE (merge_global y s x) (thins s)"
proof -
  have reset: "okE (ldpe_reset_nbrs t af) (thins t)" "okE (ldpe_reset_ds_nbrs t) (thins t)" if "eng_inv t" for t af
    using that by (simp_all add: okE_calm_thins ldpe_reset_nbrs_calm ldpe_reset_ds_nbrs_calm)
  have upd: "okE (bindE (if_update_all y t AF_UNSPEC) (\<lambda>s3. tnbr_update_all s3 AF_UNSPEC)) (thins t)" if "eng_inv t" for t
    by (rule okE_thins_bind [OF okE_sheds_thins [OF if_update_all_ok [OF that]]])
      (simp add: okE_calm_thins tnbr_update_all_calm)
  have set: "okE (Inr (t\<lparr>e_rtr_id := r\<rparr>)) (thins t)" "okE (Inr (t\<lparr>e_trans_pref := p\<rparr>)) (thins t)"
    "okE (Inr (t\<lparr>e_conf_flags := f\<rparr>)) (thins t)" if "eng_inv t" for t r p f
    using that by (simp_all add: calm_thins conf_fields_calm eng_sess)
  show ?thesis
    unfolding merge_global_def
    by (intro okE_thins_bind okE_thins_if reset upd set ok)
qed

lemma merge_af_ok:
  assumes ok: "eng_inv s" and af: "af \<noteq> AF_UNSPEC"
  shows "okE (merge_af y af s xa) (thins s)"
proof -
  have cmp: "okE (ldp_addrcmp af a b) (\<lambda>_. True)" for a b using ldp_addrcmp_eq_0 [OF af, of a b] by auto
  have up: "calm t (upd_af t af g)" if "eng_inv t" for t g by (rule conf_fields_calm(5) [OF eng_sess [OF that]])
  have first: "okE (if b then ldpe_stop_init_backoff y (upd_af s af g) af else Inr s) (thins s)" for b g
    by (rule okE_thins_if [OF ok okE_calm_thins [OF ok okE_calm_trans [OF up [OF ok]
            ldpe_stop_init_backoff_calm [OF calm_inv [OF up [OF ok] ok]]]]])
  have last: "okE (bindE (ldp_addrcmp af a b) (\<lambda>d. Inr (if d \<noteq> 0 then upd_af (upd_af t af g) af h else upd_af t af g))) (thins t)"
    if t: "eng_inv t" for t a b g h
    by (rule okE_bind [OF cmp]) (use calm_thins [OF t] up [OF t] calm_trans [OF up [OF t] up [OF calm_inv [OF up [OF t] t]]] in simp)
  have mid: "okE (bindE (if b then ldpe_remove_dynamic_tnbrs y (upd_af t af g) af else Inr (upd_af t af g)) (\<lambda>s3.
      bindE (if c then ldpe_reset_nbrs s3 af else Inr s3) (\<lambda>s4.
      bindE (ldp_addrcmp af a a') (\<lambda>d. Inr (if d \<noteq> 0 then upd_af (upd_af s4 af h) af k else upd_af s4 af h))))) (thins t)"
    if t: "eng_inv t" for t b c g h k a a'
  proof -
    have u: "eng_inv (upd_af t af g)" by (rule calm_inv [OF up [OF t] t])
    have "okE (bindE (if b then ldpe_remove_dynamic_tnbrs y (upd_af t af g) af else Inr (upd_af t af g)) (\<lambda>s3.
      bindE (if c then ldpe_reset_nbrs s3 af else Inr s3) (\<lambda>s4.
      bindE (ldp_addrcmp af a a') (\<lambda>d. Inr (if d \<noteq> 0 then upd_af (upd_af s4 af h) af k else upd_af s4 af h))))) (thins (upd_af t af g))"
      by (intro okE_thins_bind okE_thins_if ldpe_remove_dynamic_tnbrs_ok okE_calm_thins [OF _ ldpe_reset_nbrs_calm] last u)
    then show ?thesis by (rule okE_mono) (rule thins_trans [OF calm_thins [OF t up [OF t]]])
  qed
  show ?thesis
    unfolding merge_af_def Let_def
    by (rule okE_bind [OF ldp_af_conf_get_total [OF af]], rule okE_thins_bind [OF first], rule mid)
qed

section \<open>Interfaces\<close>

definition links_quiet :: "ldpe \<Rightarrow> nat set \<Rightarrow> bool" where
  "links_quiet s I \<longleftrightarrow> (\<forall>i\<in>I. \<forall>af. idle_link (view s) i af \<longrightarrow> on_link (view s) i af = {})"

lemma thins_quiet:
  assumes "thins s t" "links_quiet s I"
  shows "links_quiet t I"
  unfolding links_quiet_def
proof (intro ballI allI impI)
  fix i af assume i: "i \<in> I" and l: "idle_link (view t) i af"
  show "on_link (view t) i af = {}"
  proof (rule ccontr)
    assume ne: "on_link (view t) i af \<noteq> {}"
    then have "idle_link (view s) i af" using assms(1) l by (simp add: thins_def)
    then have "on_link (view s) i af = {}" using assms(2) i by (simp add: links_quiet_def)
    then show False using ne assms(1) unfolding thins_def by blast
  qed
qed

text \<open>After \<^verbatim>\<open>if_exit\<close> nothing refers to the interface.\<close>

lemma if_exit_ok:
  assumes ok: "eng_inv s" and ifc: "e_ifaces s i = Some ifc" and q: "links_quiet s {i}"
  shows "okE (if_exit y s i) (\<lambda>t. sheds s t \<and> (\<forall>af. on_link (view t) i af = {}))"
proof -
  have idle: "on_link (view s) i AF_INET = {}" if "\<not> ia_active (if_ipv4 ifc)"
    using q that ifc by (simp add: links_quiet_def idle_link_def)
  have idle6: "on_link (view s) i AF_INET6 = {}" if "\<not> ia_active (if_ipv6 ifc)"
    using q that ifc by (simp add: links_quiet_def idle_link_def)
  have four: "okE (if ia_active (if_ipv4 ifc) then if_reset y s i AF_INET else Inr s)
      (\<lambda>t. sheds s t \<and> on_link (view t) i AF_INET = {})"
    using if_reset_ok [OF ok, of i AF_INET] idle sheds_refl [OF ok] ifc by simp
  have six: "okE (if ia_active (if_ipv6 ifc) then if_reset y t i AF_INET6 else Inr t)
      (\<lambda>u. sheds s u \<and> on_link (view u) i AF_INET = {} \<and> on_link (view u) i AF_INET6 = {})"
    if t: "sheds s t" "on_link (view t) i AF_INET = {}" for t
  proof (rule okE_if)
    have "e_ifaces t i \<noteq> None" using sheds_iface [OF t(1), of i] ifc by simp
    then show "okE (if_reset y t i AF_INET6) (\<lambda>u. sheds s u \<and> on_link (view u) i AF_INET = {} \<and> on_link (view u) i AF_INET6 = {})"
      by (intro okE_mono [OF if_reset_ok [OF sheds_inv [OF t(1)]]])
        (use t sheds_trans [OF t(1)] sheds_on_link [of t _ i AF_INET] in auto)
  qed (use t idle6 sheds_on_link [OF t(1), of i AF_INET6] in auto)
  have fin: "okE (Inr (upd_if u i (\<lambda>ifc. ifc\<lparr>if_addr_list := []\<rparr>))) (\<lambda>t. sheds s t \<and> (\<forall>af. on_link (view t) i af = {}))"
    if u: "sheds s u" "on_link (view u) i AF_INET = {}" "on_link (view u) i AF_INET6 = {}" for u
  proof -
    have inv: "eng_inv u" by (rule sheds_inv [OF u(1)])
    have k: "calm u (upd_if u i (\<lambda>ifc. ifc\<lparr>if_addr_list := []\<rparr>))"
      by (rule calm_upd_if [OF eng_sess [OF inv]])
        (use ifs_okD(1) [OF eng_view [OF inv] view_sel(8)] in \<open>simp add: iface_view_def\<close>)
    have "on_link (view u) i AF_UNSPEC = {}" using ifs_okD(4) [OF eng_view [OF inv]] by (force simp: on_link_def)
    then have "on_link (view u) i af = {}" for af using u by (cases af) simp_all
    then show ?thesis using sheds_trans [OF u(1) calm_sheds [OF inv k]] k by (simp add: calm_def)
  qed
  show ?thesis
    unfolding if_exit_def get_iface_Some [OF ifc] bindE_simps
    by (rule okE_bind [OF four], elim conjE, rule okE_bind [OF six], assumption+, elim conjE, rule fin)
qed

text \<open>An interface that nothing refers to goes.\<close>

definition unlinks :: "nat \<Rightarrow> ldpe \<Rightarrow> ldpe \<Rightarrow> bool" where
  "unlinks i s t \<longleftrightarrow>
     eng_inv t \<and> (outs_ok s \<longrightarrow> outs_ok t) \<and>
     (\<forall>j. j \<noteq> i \<longrightarrow> (e_ifaces t j = None) = (e_ifaces s j = None)) \<and>
     (\<forall>I. links_quiet s I \<longrightarrow> links_quiet t (I - {i})) \<and>
     nbr_ids t \<subseteq> nbr_ids s \<and> e_nbrp_list t = e_nbrp_list s"

lemma sheds_unlinks: "sheds s t \<Longrightarrow> unlinks i s t"
  using thins_quiet [OF sheds_thins, of s t] sheds_iface [of s t] sheds_thins [of s t]
  by (simp add: unlinks_def thins_def links_quiet_def)

lemma iface_free_ok:
  assumes ok: "eng_inv s" and no: "\<And>af. on_link (view s) i af = {}" and l: "i \<notin> set (e_iface_list s)"
  shows "unlinks i s (s\<lparr>e_ifaces := (e_ifaces s)(i := None)\<rparr>)" (is "unlinks i s ?t")
proof -
  have v: "view ?t = (view s)\<lparr>v_ifs := (v_ifs (view s))(i := None)\<rparr>"
    by (rule view.equality) (auto simp: view_def fun_eq_iff)
  have sel: "vsrc (view ?t) = vsrc (view s)" "on_link (view ?t) = on_link (view s)" "of_nbr (view ?t) = of_nbr (view s)"
    by (auto simp: v vsrc_def on_link_def of_nbr_def fun_eq_iff)
  have maps: "v_adjs (view ?t) = v_adjs (view s)" "v_tnbrs (view ?t) = v_tnbrs (view s)" "v_nbrs (view ?t) = v_nbrs (view s)"
    "v_adj_list (view ?t) = v_adj_list (view s)" "v_tnbr_list (view ?t) = v_tnbr_list (view s)"
    "v_if_list (view ?t) = v_if_list (view s)" "v_by_addr (view ?t) = v_by_addr (view s)"
    "v_ifs (view ?t) j = (if j = i then None else v_ifs (view s) j)" for j
    unfolding v by auto
  note vk = eng_view [OF ok]
  have "ifs_ok (view ?t)"
  proof (rule ifs_okI)
    fix a j g x assume a: "vsrc (view ?t) a = Some (HELLO_LINK j g x)"
    then have "j \<noteq> i" using no [of g] by (auto simp: on_link_def sel)
    then show "v_ifs (view ?t) j \<noteq> None \<and> g \<noteq> AF_UNSPEC" using ifs_okD(4) [OF vk, of a j g x] a unfolding maps sel by simp
  qed (use ifs_okD(1-3) [OF vk] in \<open>simp_all add: maps sel del: view_sel split: if_splits\<close>)
  moreover have "lists_ok (view ?t)"
    using vk l unfolding view_ok_def lists_ok_def maps by (auto simp: dom_def maps simp del: view_sel(12))
  moreover have "tnbrs_ok (view ?t)" "nbrs_ok (view ?t)"
    using vk unfolding view_ok_def tnbrs_ok_def nbrs_ok_def sel maps by auto
  moreover have "sess_inv ?t" using sess_inv_cong [of ?t s] eng_sess [OF ok] by simp
  moreover have "links_quiet ?t (I - {i})" if "links_quiet s I" for I
    using that by (auto simp: links_quiet_def idle_link_def sel maps simp del: view_sel)
  moreover have "nbr_ids ?t = nbr_ids s" by (simp add: nbr_ids_def)
  ultimately show ?thesis using outs_ok_cong [of ?t s] by (simp add: unlinks_def eng_inv_def view_ok_def)
qed

lemma iface_unlist:
  assumes ok: "eng_inv s"
  shows "eng_inv (s\<lparr>e_iface_list := remove1 i (e_iface_list s)\<rparr>)"
    "unlinks i s (s\<lparr>e_iface_list := remove1 i (e_iface_list s)\<rparr>)" (is "unlinks i s ?t")
proof -
  have v: "view ?t = (view s)\<lparr>v_if_list := remove1 i (e_iface_list s)\<rparr>" by (simp add: view_def)
  have sel: "vsrc (view ?t) = vsrc (view s)" "on_link (view ?t) = on_link (view s)" "of_nbr (view ?t) = of_nbr (view s)"
    "idle_link (view ?t) = idle_link (view s)"
    by (auto simp: v vsrc_def on_link_def of_nbr_def idle_link_def fun_eq_iff)
  have maps: "v_adjs (view ?t) = v_adjs (view s)" "v_tnbrs (view ?t) = v_tnbrs (view s)" "v_nbrs (view ?t) = v_nbrs (view s)"
    "v_adj_list (view ?t) = v_adj_list (view s)" "v_tnbr_list (view ?t) = v_tnbr_list (view s)"
    "v_if_list (view ?t) = remove1 i (v_if_list (view s))" "v_by_addr (view ?t) = v_by_addr (view s)" "v_ifs (view ?t) = v_ifs (view s)"
    unfolding v by auto
  have "view_ok (view ?t)"
    using eng_view [OF ok] unfolding view_ok_def lists_ok_def tnbrs_ok_def ifs_ok_def nbrs_ok_def sel maps
    by (auto dest: set_mp [OF set_remove1_subset])
  moreover have "sess_inv ?t" using sess_inv_cong [of ?t s] eng_sess [OF ok] by simp
  ultimately show "eng_inv ?t" by (simp add: eng_inv_def)
  then show "unlinks i s ?t" using outs_ok_cong [of ?t s] by (simp add: unlinks_def links_quiet_def sel nbr_ids_def)
qed

lemma unlinks_trans: "unlinks i s t \<Longrightarrow> unlinks i t u \<Longrightarrow> unlinks i s u"
  unfolding unlinks_def by (metis Diff_idemp subset_trans)

lemma remove_iface_ok:
  assumes ok: "eng_inv s" and i: "i \<in> set (e_iface_list s)" and q: "links_quiet s {i}"
  shows "okE (remove_iface y x s i) (\<lambda>t. unlinks i s t \<and> set (e_iface_list s) - {i} \<subseteq> set (e_iface_list t))"
proof -
  obtain ifc where ifc: "e_ifaces s i = Some ifc" using eng_iface [OF ok i] by blast
  let ?s = "s\<lparr>e_iface_list := remove1 i (e_iface_list s)\<rparr>"
  have u: "unlinks i s ?s" and oks: "eng_inv ?s" by (rule iface_unlist(2) [OF ok], rule iface_unlist(1) [OF ok])
  have v: "view ?s = (view s)\<lparr>v_if_list := remove1 i (e_iface_list s)\<rparr>" by (simp add: view_def)
  have "links_quiet ?s {i}" using q unfolding links_quiet_def v by (simp add: idle_link_def on_link_def vsrc_def)
  from if_exit_ok [OF oks _ this, of ifc y] ifc
  have ex: "okE (if_exit y ?s i) (\<lambda>t. sheds ?s t \<and> (\<forall>af. on_link (view t) i af = {}))" by simp
  have d: "distinct (e_iface_list s)" using eng_view [OF ok] by (simp add: view_ok_def lists_ok_def)
  then have out: "i \<notin> set (remove1 i (e_iface_list s))" by simp
  have go: "okE (bindE (if_exit y ?s i) (\<lambda>s1. Inr (s1\<lparr>e_ifaces := (e_ifaces s1)(i := None)\<rparr>)))
      (\<lambda>t. unlinks i s t \<and> set (e_iface_list s) - {i} \<subseteq> set (e_iface_list t))"
  proof (rule okE_bind [OF ex], elim conjE)
    fix t assume t: "sheds ?s t" and no: "\<forall>af. on_link (view t) i af = {}"
    have l: "e_iface_list t = remove1 i (e_iface_list s)" using sheds_lists(2) [OF t] by simp
    have "unlinks i t (t\<lparr>e_ifaces := (e_ifaces t)(i := None)\<rparr>)"
      by (rule iface_free_ok [OF sheds_inv [OF t]]) (use no out l in auto)
    from unlinks_trans [OF u unlinks_trans [OF sheds_unlinks [OF t] this]]
    show "okE (Inr (t\<lparr>e_ifaces := (e_ifaces t)(i := None)\<rparr>)) (\<lambda>t. unlinks i s t \<and> set (e_iface_list s) - {i} \<subseteq> set (e_iface_list t))"
      using l set_remove1_eq [OF d, of i] by simp
  qed
  show ?thesis
    unfolding remove_iface_def get_iface_Some [OF ifc] bindE_simps
    by (rule okE_if) (use go sheds_unlinks [OF sheds_refl [OF ok]] in auto)
qed

definition good_step :: "ldpe \<Rightarrow> ldpe \<Rightarrow> bool" where
  "good_step s t \<longleftrightarrow>
     eng_inv t \<and> (outs_ok s \<longrightarrow> outs_ok t) \<and> nbr_ids t \<subseteq> nbr_ids s \<and> e_nbrp_list t = e_nbrp_list s"

lemma good_trans: "good_step s t \<Longrightarrow> good_step t u \<Longrightarrow> good_step s u"
  unfolding good_step_def by auto

lemma good_inv: "good_step s t \<Longrightarrow> eng_inv t"
  by (simp add: good_step_def)

lemma good_refl: "eng_inv s \<Longrightarrow> good_step s s"
  by (simp add: good_step_def)

lemma thins_good: "thins s t \<Longrightarrow> good_step s t"
  by (simp add: thins_def good_step_def)

lemma calm_good: "eng_inv s \<Longrightarrow> calm s t \<Longrightarrow> good_step s t"
  by (rule thins_good [OF sheds_thins [OF calm_sheds]])

lemma okE_good_bind:
  "okE m (good_step s) \<Longrightarrow> (\<And>t. eng_inv t \<Longrightarrow> okE (f t) (good_step t)) \<Longrightarrow> okE (bindE m f) (good_step s)"
  by (rule okE_bind, assumption) (blast intro: okE_mono good_trans good_inv)

lemma okE_good_foldE:
  assumes "eng_inv s" and "\<And>t x. x \<in> set xs \<Longrightarrow> eng_inv t \<Longrightarrow> okE (f t x) (good_step t)"
  shows "okE (foldE f xs s) (good_step s)"
proof (rule okE_foldE)
  show "good_step s s" by (rule good_refl [OF assms(1)])
  fix t x assume "x \<in> set xs" and t: "good_step s t"
  then show "okE (f t x) (good_step s)" by (blast intro: okE_mono [OF assms(2)] good_trans [OF t] good_inv)
qed

lemma okE_thins_good: "okE m (thins s) \<Longrightarrow> okE m (good_step s)"
  by (erule okE_mono) (rule thins_good)

lemma okE_calm_good: "eng_inv s \<Longrightarrow> okE m (calm s) \<Longrightarrow> okE m (good_step s)"
  by (erule okE_mono) (rule calm_good)

lemma remove_ifaces_ok:
  "distinct is \<Longrightarrow> eng_inv s \<Longrightarrow> set is \<subseteq> set (e_iface_list s) \<Longrightarrow> links_quiet s (set is) \<Longrightarrow>
   okE (foldE (remove_iface y x) is s) (good_step s)"
proof (induction "is" arbitrary: s)
  case (Cons i js)
  have q: "links_quiet s {i}" using Cons.prems(4) by (simp add: links_quiet_def)
  have i: "i \<in> set (e_iface_list s)" using Cons.prems(3) by simp
  show ?case
    unfolding foldE.simps
  proof (rule okE_bind [OF remove_iface_ok [OF Cons.prems(2) i q]], elim conjE)
    fix t assume t: "unlinks i s t" and l: "set (e_iface_list s) - {i} \<subseteq> set (e_iface_list t)"
    have "links_quiet t (set (i # js) - {i})" using t Cons.prems(4) unfolding unlinks_def by blast
    moreover have "set (i # js) - {i} = set js" using Cons.prems(1) by auto
    moreover have "set js \<subseteq> set (e_iface_list t)" using l Cons.prems(1,3) by auto
    ultimately have "okE (foldE (remove_iface y x) js t) (good_step t)"
      using Cons.IH [of t] Cons.prems(1) t by (simp add: unlinks_def)
    then show "okE (foldE (remove_iface y x) js t) (good_step s)"
      by (rule okE_mono) (use t in \<open>auto simp: unlinks_def good_step_def simp del: nbr_ids_iff\<close>)
  qed
qed (simp add: good_refl)

lemma iface_refs_complete:
  assumes "eng_inv s" "on_link (view s) i af \<noteq> {}"
  shows "i \<in> set (iface_refs s)"
proof -
  obtain a x where a: "vsrc (view s) a = Some (HELLO_LINK i af x)" using assms(2) by (auto simp: on_link_def)
  then obtain adj where adj: "e_adjs s a = Some adj" "a_source adj = HELLO_LINK i af x" by (auto simp: vsrc_def view_maps)
  have "a \<in> set (v_adj_list (view s))"
    using eng_view [OF assms(1)] adj(1) by (simp add: view_ok_def lists_ok_def dom_def del: view_sel(1))
  then have "a \<in> set (e_adj_list s)" by simp
  with adj show ?thesis by (force simp: iface_refs_def)
qed

definition new_iface_ok :: "iface \<Rightarrow> bool" where
  "new_iface_ok ifc \<longleftrightarrow> if_addr_list ifc = [] \<and> ia_adj_list (if_ipv4 ifc) = [] \<and> ia_adj_list (if_ipv6 ifc) = []"

lemma add_iface_ok:
  assumes ok: "eng_inv s" and xi: "new_iface_ok xi"
  shows "good_step s (add_iface s xi)"
proof -
  let ?i = "fresh_id (iface_refs s)"
  let ?t = "add_iface s xi"
  have new: "?i \<notin> set (iface_refs s)" by (rule fresh_id_new)
  have no: "on_link (view s) ?i af = {}" for af using iface_refs_complete [OF ok] new by blast
  have v: "view ?t = (view s)\<lparr>v_if_list := ?i # e_iface_list s, v_ifs := (v_ifs (view s))(?i \<mapsto> iface_view xi)\<rparr>"
    by (rule view.equality) (auto simp: view_def fun_eq_iff add_iface_def Let_def)
  have sel: "vsrc (view ?t) = vsrc (view s)" "on_link (view ?t) = on_link (view s)" "of_nbr (view ?t) = of_nbr (view s)"
    by (auto simp: v vsrc_def on_link_def of_nbr_def fun_eq_iff)
  have maps: "v_adjs (view ?t) = v_adjs (view s)" "v_tnbrs (view ?t) = v_tnbrs (view s)" "v_nbrs (view ?t) = v_nbrs (view s)"
    "v_adj_list (view ?t) = v_adj_list (view s)" "v_tnbr_list (view ?t) = v_tnbr_list (view s)"
    "v_if_list (view ?t) = ?i # v_if_list (view s)" "v_by_addr (view ?t) = v_by_addr (view s)"
    "v_ifs (view ?t) j = (if j = ?i then Some (iface_view xi) else v_ifs (view s) j)" for j
    unfolding v by auto
  note vk = eng_view [OF ok]
  have "ifs_ok (view ?t)"
  proof (rule ifs_okI)
    fix j x assume x: "v_ifs (view ?t) j = Some x"
    show "vi_good x" "distinct (vi_adjs4 x) \<and> set (vi_adjs4 x) = on_link (view ?t) j AF_INET"
      "distinct (vi_adjs6 x) \<and> set (vi_adjs6 x) = on_link (view ?t) j AF_INET6"
      using x ifs_okD(1-3) [OF vk, of j x] xi no unfolding maps sel by (auto simp: new_iface_ok_def split: if_splits)
  next
    fix a j g x assume "vsrc (view ?t) a = Some (HELLO_LINK j g x)"
    then show "v_ifs (view ?t) j \<noteq> None \<and> g \<noteq> AF_UNSPEC" using ifs_okD(4) [OF vk, of a j g x] unfolding maps sel by (simp del: not_None_eq)
  qed
  moreover have "lists_ok (view ?t)"
    using vk new unfolding view_ok_def lists_ok_def maps by (auto simp: dom_def maps iface_refs_def simp del: view_sel(12))
  moreover have "tnbrs_ok (view ?t)" "nbrs_ok (view ?t)"
    using vk unfolding view_ok_def tnbrs_ok_def nbrs_ok_def sel maps by auto
  moreover have "sess_inv ?t" using sess_inv_cong [of ?t s] eng_sess [OF ok] by (simp add: add_iface_def Let_def)
  ultimately show ?thesis
    using outs_ok_cong [of ?t s] by (simp add: good_step_def eng_inv_def view_ok_def add_iface_def Let_def nbr_ids_def)
qed

lemma merge_iface_af_ok:
  assumes ok: "eng_inv s" and i: "e_ifaces s i \<noteq> None" and af: "af \<noteq> AF_UNSPEC"
  shows "okE (merge_iface_af y s i af xi) (thins s)"
proof -
  obtain ifc where "e_ifaces s i = Some ifc" using i by auto
  then obtain ia where ia: "get_ia s i af = Inr ia" using get_ia_Some af by blast
  let ?s = "upd_ia s i af (\<lambda>ia. ia\<lparr>ia_enabled := ia_enabled xi\<rparr>)"
  have k: "calm s ?s" by (rule calm_upd_ia [OF eng_sess [OF ok]]) simp_all
  have j: "e_ifaces ?s i \<noteq> None" using i by (simp add: upd_ia_def)
  have "okE (if_update y ?s i af) (thins s)"
    by (rule okE_sheds_thins [OF okE_sheds_trans [OF calm_sheds [OF ok k] if_update_ok [OF calm_inv [OF k ok] j]]])
  then show ?thesis
    unfolding merge_iface_af_def ia bindE_simps
    by (intro okE_thins_bind okE_thins_if ok okE_Inr_calm_thins calm_upd_ia eng_sess) simp_all
qed

lemma merge_iface_ok:
  assumes ok: "eng_inv s" and xi: "new_iface_ok xi"
  shows "okE (merge_iface y s xi) (good_step s)"
  unfolding merge_iface_def
proof (rule okE_bind [OF if_lookup_ok [OF ok]])
  fix r :: "nat option" assume r: "\<forall>i. r = Some i \<longrightarrow> e_ifaces s i \<noteq> None"
  show "okE (case r of
       None \<Rightarrow> Inr (add_iface s xi)
     | Some i \<Rightarrow>
         bindE (merge_iface_af y s i AF_INET (if_ipv4 xi)) (\<lambda>s1.
         merge_iface_af y s1 i AF_INET6 (if_ipv6 xi))) (good_step s)"
  proof (cases r)
    case (Some i)
    then have i: "e_ifaces s i \<noteq> None" using r by blast
    have "okE (bindE (merge_iface_af y s i AF_INET (if_ipv4 xi)) (\<lambda>s1. merge_iface_af y s1 i AF_INET6 (if_ipv6 xi))) (thins s)"
    proof (rule okE_bind [OF merge_iface_af_ok [OF ok i]])
      fix t assume t: "thins s t"
      then have "e_ifaces t i \<noteq> None" using i by (simp add: thins_def del: not_None_eq)
      then show "okE (merge_iface_af y t i AF_INET6 (if_ipv6 xi)) (thins s)"
        by (intro okE_mono [OF merge_iface_af_ok [OF thins_inv [OF t]] thins_trans [OF t]]) simp_all
    qed simp
    then show ?thesis by (simp add: Some okE_thins_good)
  qed (use add_iface_ok [OF ok xi] in simp)
qed

lemma merge_ifaces_ok:
  assumes ok: "eng_inv s" and x: "\<forall>ifc\<in>set (xc_iface_list x). new_iface_ok ifc" and q: "links_quiet s (set (e_iface_list s))"
  shows "okE (merge_ifaces y s x) (good_step s)"
proof -
  have "distinct (e_iface_list s)" using eng_view [OF ok] by (simp add: view_ok_def lists_ok_def)
  from remove_ifaces_ok [OF this ok subset_refl q] show ?thesis
    unfolding merge_ifaces_def by (rule okE_good_bind) (use x in \<open>auto intro!: okE_good_foldE merge_iface_ok\<close>)
qed

section \<open>Targeted neighbours\<close>

lemma remove_tnbr_ok:
  assumes ok: "eng_inv s" and tn: "e_tnbrs s t = Some tn"
  shows "okE (remove_tnbr y x s t) (sheds_t t s)"
proof -
  have af: "t_af tn \<noteq> AF_UNSPEC" by (rule eng_tnbr_af [OF ok tn])
  have dec: "\<exists>b. (if t_af tn = t_af xt then bindE (ldp_addrcmp (t_af tn) (t_addr tn) (t_addr xt)) (\<lambda>c. Inr (c = 0)) else Inr False) = Inr b" for xt
    using ldp_addrcmp_eq_0 [OF af, of "t_addr tn" "t_addr xt"] by auto
  have look: "okE (xc_tnbr_find (xc_tnbr_list x) (t_af tn) (t_addr tn)) (\<lambda>_. True)"
    unfolding xc_tnbr_find_def by (rule okE_mono [OF findE_okE [OF dec]]) simp
  have r: "okE (Inr s) (sheds_t t s)" using sheds_sheds_t [OF sheds_refl [OF ok]] by simp
  show ?thesis
    unfolding remove_tnbr_def get_tnbr_Some [OF tn] bindE_simps
    by (intro okE_if r okE_bind [OF look] tnbr_recheck_ok [OF ok tn]) (simp add: tnbr_view_def)
qed

text \<open>A new targeted neighbour, listed before or after its first hello.\<close>

lemma tnbr_add_view:
  assumes ok: "eng_inv s" and tn: "t_af tn \<noteq> AF_UNSPEC" "t_adj tn = None"
  shows "good_step s (s\<lparr>e_tnbr_list := fresh_id (e_tnbr_list s) # e_tnbr_list s, e_tnbrs := (e_tnbrs s)(fresh_id (e_tnbr_list s) \<mapsto> tn)\<rparr>)"
    (is "good_step s ?t")
proof -
  let ?x = "fresh_id (e_tnbr_list s)"
  have v: "view ?t = v_add_tnbr ?x (tnbr_view tn) (view s)"
    by (rule view.equality) (auto simp: view_def v_add_tnbr_def fun_eq_iff)
  have "view_ok (view ?t)"
    unfolding v by (rule v_add_tnbr_ok [OF eng_view [OF ok]]) (use fresh_id_new [of "e_tnbr_list s"] tn in simp_all)
  moreover have "sess_inv ?t" using sess_inv_cong [of ?t s] eng_sess [OF ok] by simp
  ultimately show ?thesis using outs_ok_cong [of ?t s] by (simp add: good_step_def eng_inv_def nbr_ids_def)
qed

definition new_tnbr_ok :: "tnbr \<Rightarrow> bool" where
  "new_tnbr_ok tn \<longleftrightarrow> t_af tn \<noteq> AF_UNSPEC \<and> t_adj tn = None"

lemma merge_tnbr_ok:
  assumes ok: "eng_inv s" and xt: "new_tnbr_ok xt"
  shows "okE (merge_tnbr s xt) (good_step s)"
  unfolding merge_tnbr_def
proof (rule okE_bind [OF tnbr_find_ok [OF ok]])
  show "t_af xt \<noteq> AF_UNSPEC" using xt by (simp add: new_tnbr_ok_def)
  fix r :: "nat option" assume r: "\<forall>t. r = Some t \<longrightarrow> (\<exists>tn. e_tnbrs s t = Some tn)"
  let ?x = "fresh_id (e_tnbr_list s)"
  let ?s = "s\<lparr>e_tnbr_list := ?x # e_tnbr_list s, e_tnbrs := (e_tnbrs s)(?x \<mapsto> xt)\<rparr>"
  have g: "good_step s ?s" by (rule tnbr_add_view [OF ok]) (use xt in \<open>simp_all add: new_tnbr_ok_def\<close>)
  have "e_tnbrs ?s ?x = Some xt" by simp
  from tnbr_update_calm [OF eng_sess [OF good_inv [OF g]] this]
  have "okE (tnbr_update ?s ?x) (calm ?s)" using xt by (simp add: new_tnbr_ok_def)
  then have new: "okE (tnbr_update ?s ?x) (good_step s)"
    by (rule okE_mono) (blast intro: good_trans [OF g] calm_good good_inv [OF g])
  have old: "good_step s (upd_t s t (\<lambda>tn. tn\<lparr>t_flags := f tn, t_hello_holdtime := h, t_hello_interval := k\<rparr>))" for t f h k
    by (rule calm_good [OF ok calm_upd_t [OF eng_sess [OF ok]]]) (simp add: tnbr_view_def)
  show "okE (case r of
       None \<Rightarrow>
         let t = fresh_id (e_tnbr_list s)
         in tnbr_update (s\<lparr>e_tnbr_list := t # e_tnbr_list s, e_tnbrs := (e_tnbrs s)(t \<mapsto> xt)\<rparr>) t
     | Some t \<Rightarrow>
         Inr (upd_t s t (\<lambda>tn. tn\<lparr>t_flags := set_flag (t_flags tn) F_TNBR_CONFIGURED,
                t_hello_holdtime := t_hello_holdtime xt, t_hello_interval := t_hello_interval xt\<rparr>))) (good_step s)"
    using new old by (cases r) (simp_all add: Let_def)
qed

lemma merge_tnbrs_ok:
  assumes ok: "eng_inv s" and x: "\<forall>tn\<in>set (xc_tnbr_list x). new_tnbr_ok tn"
  shows "okE (merge_tnbrs y s x) (good_step s)"
  unfolding merge_tnbrs_def
  by (rule okE_good_bind [OF okE_thins_good [OF all_tnbrs_thins [OF ok remove_tnbr_ok]]])
    (use x in \<open>auto intro!: okE_good_foldE merge_tnbr_ok\<close>)

section \<open>Parameters of neighbours\<close>

lemma reconnect_calm:
  assumes ok: "eng_inv s" and n: "rb_find (e_nbrs s) p = Some n"
  shows "okE (reconnect y s p) (calm s)"
  unfolding reconnect_def get_nbr_Some [OF n] bindE_simps
  by (rule okE_bind [OF active_role_total [OF eng_nbr_af [OF ok n]]])
    (use establish_calm [OF ok n] calm_refl [OF eng_sess [OF ok]] in auto)

lemma set_auth_calm:
  assumes ok: "eng_inv s" and n: "rb_find (e_nbrs s) p = Some n" and y: "sys_ok y"
  shows "okE (set_auth y s p np) (calm s)"
proof -
  have p: "rb_find (e_nbrs s) p \<noteq> None" using n by simp
  show ?thesis
    unfolding set_auth_def
    by (rule okE_bind [OF okE_conjI [OF pfkey_establish_stays [OF eng_sess [OF ok] p] pfkey_establish_true [OF y p]]])
      (auto simp: stays2_def intro: stays_calm)
qed

text \<open>Every step of the restart of a session starts with a neighbour that is still there.\<close>

lemma okE_calm_nbr:
  assumes "calm s t" "rb_find (e_nbrs s) p \<noteq> None" "eng_inv s"
    and "\<And>n. rb_find (e_nbrs t) p = Some n \<Longrightarrow> eng_inv t \<Longrightarrow> okE m (calm t)"
  shows "okE m (calm s)"
  using calm_nbr [OF assms(1,2)] assms(4) calm_inv [OF assms(1,3)] okE_calm_trans [OF assms(1)] by blast

lemma restart_calm:
  assumes ok: "eng_inv s" and n: "rb_find (e_nbrs s) p \<noteq> None" and y: "sys_ok y"
  shows "okE (bindE (session_shutdown s p S_SHUTDOWN 0 0) (\<lambda>s1. bindE (pfkey_remove y s1 p) (\<lambda>(s2, _). reconnect y s2 p))) (calm s)"
    and "okE (bindE (session_shutdown s p S_SHUTDOWN 0 0) (\<lambda>s2. bindE (set_auth y s2 p np) (\<lambda>s3. reconnect y s3 p))) (calm s)"
    and "okE (bindE (session_shutdown s p S_SHUTDOWN 0 0) (\<lambda>s2. bindE (pfkey_remove y s2 p) (\<lambda>(s3, _).
           bindE (set_auth y s3 p np) (\<lambda>s4. reconnect y s4 p)))) (calm s)"
proof -
  obtain n0 where n0: "rb_find (e_nbrs s) p = Some n0" using n by auto
  note shut = okE_bind [OF session_shutdown_calm [OF ok n0]]
  have con: "okE (reconnect y t p) (calm u)" if "calm u t" "eng_inv u" "rb_find (e_nbrs u) p \<noteq> None" for t u
    by (rule okE_calm_nbr [OF that(1,3,2)]) (rule reconnect_calm)
  have auth: "okE (bindE (set_auth y t p np) (\<lambda>s3. reconnect y s3 p)) (calm u)"
    if t: "calm u t" "eng_inv u" "rb_find (e_nbrs u) p \<noteq> None" for t u
  proof (rule okE_bind)
    show "okE (set_auth y t p np) (calm u)" by (rule okE_calm_nbr [OF t(1,3,2)]) (rule set_auth_calm [OF _ _ y])
  qed (rule con [OF _ t(2,3)])
  have rem: "okE (bindE (pfkey_remove y t p) (\<lambda>(s1, _). f s1)) (calm s)"
    if t: "calm s t" and f: "\<And>u. calm s u \<Longrightarrow> okE (f u) (calm s)" for t f
  proof (rule okE_bind)
    show "okE (pfkey_remove y t p) (\<lambda>r. calm s (fst r))"
      by (rule okE_mono [OF pfkey_remove_stays [OF calm_sess [OF t]]])
        (use calm_nbr [OF t n] calm_trans [OF t stays_calm] in \<open>auto simp: stays2_def\<close>)
  qed (use f in auto)
  show "okE (bindE (session_shutdown s p S_SHUTDOWN 0 0) (\<lambda>s1. bindE (pfkey_remove y s1 p) (\<lambda>(s2, _). reconnect y s2 p))) (calm s)"
    by (rule shut, rule rem, assumption, rule con [OF _ ok n])
  show "okE (bindE (session_shutdown s p S_SHUTDOWN 0 0) (\<lambda>s2. bindE (set_auth y s2 p np) (\<lambda>s3. reconnect y s3 p))) (calm s)"
    by (rule shut, rule auth [OF _ ok n])
  show "okE (bindE (session_shutdown s p S_SHUTDOWN 0 0) (\<lambda>s2. bindE (pfkey_remove y s2 p) (\<lambda>(s3, _).
           bindE (set_auth y s3 p np) (\<lambda>s4. reconnect y s4 p)))) (calm s)"
    by (rule shut, rule rem, assumption, rule auth [OF _ ok n])
qed

text \<open>
  The parameters of neighbours themselves change here: \<open>fit_step\<close> is what is kept of \<open>good_step\<close>. A
  search for a neighbour is safe as long as its identifier is one of a set \<open>R\<close> of identifiers that
  \<^verbatim>\<open>nbr_id_compare\<close> orders together with those of the neighbours (\<open>eng_fit\<close>).
\<close>

definition fit_step :: "ldpe \<Rightarrow> ldpe \<Rightarrow> bool" where
  "fit_step s t \<longleftrightarrow> eng_inv t \<and> (outs_ok s \<longrightarrow> outs_ok t) \<and> nbr_ids t \<subseteq> nbr_ids s"

definition eng_fit :: "in_addr set \<Rightarrow> ldpe \<Rightarrow> bool" where
  "eng_fit R s \<longleftrightarrow> eng_inv s \<and> (\<forall>r\<in>R. ids_fit s r)"

lemma good_fit: "good_step s t \<Longrightarrow> fit_step s t"
  by (simp add: good_step_def fit_step_def)

lemma fit_trans: "fit_step s t \<Longrightarrow> fit_step t u \<Longrightarrow> fit_step s u"
  unfolding fit_step_def by auto

lemma fit_refl: "eng_inv s \<Longrightarrow> fit_step s s"
  by (simp add: fit_step_def)

lemma eng_fit_inv: "eng_fit R s \<Longrightarrow> eng_inv s"
  by (simp add: eng_fit_def)

lemma fit_step_fit: "eng_fit R s \<Longrightarrow> fit_step s t \<Longrightarrow> eng_fit R t"
  unfolding eng_fit_def fit_step_def by (blast intro: ids_fit_mono)

lemma good_eng_fit: "eng_fit R s \<Longrightarrow> good_step s t \<Longrightarrow> eng_fit R t"
  by (rule fit_step_fit [OF _ good_fit])

lemma fit_inv: "fit_step s t \<Longrightarrow> eng_inv t"
  by (simp add: fit_step_def)

lemma calm_fit: "eng_inv s \<Longrightarrow> calm s t \<Longrightarrow> fit_step s t"
  by (rule good_fit [OF calm_good])

lemma okE_calm_fit: "eng_inv s \<Longrightarrow> okE m (calm s) \<Longrightarrow> okE m (fit_step s)"
  by (erule okE_mono) (rule calm_fit)

lemma okE_thins_fit: "okE m (thins s) \<Longrightarrow> okE m (fit_step s)"
  by (erule okE_mono) (rule good_fit [OF thins_good])

lemma okE_fit_bind:
  "eng_fit R s \<Longrightarrow> okE m (fit_step s) \<Longrightarrow> (\<And>t. eng_fit R t \<Longrightarrow> okE (f t) (fit_step t)) \<Longrightarrow> okE (bindE m f) (fit_step s)"
  by (rule okE_bind, assumption) (blast intro: okE_mono fit_trans fit_step_fit)

lemma okE_fit_foldE:
  assumes "eng_fit R s" and "\<And>t x. x \<in> set xs \<Longrightarrow> eng_fit R t \<Longrightarrow> okE (f t x) (fit_step t)"
  shows "okE (foldE f xs s) (fit_step s)"
proof (rule okE_foldE)
  show "fit_step s s" by (rule fit_refl [OF eng_fit_inv [OF assms(1)]])
  fix t x assume "x \<in> set xs" and t: "fit_step s t"
  then show "okE (f t x) (fit_step s)" by (blast intro: okE_mono [OF assms(2)] fit_trans [OF t] fit_step_fit [OF assms(1)])
qed

lemma ldpid_found:
  assumes "eng_fit R s" "r \<in> R"
  obtains nb where "nbr_find_ldpid s r = Inr nb" "\<And>p. nb = Some p \<Longrightarrow> rb_find (e_nbrs s) p \<noteq> None"
proof
  show "nbr_find_ldpid s r = Inr (if rb_find (e_nbrs s) (ntohl r) = None then None else Some (ntohl r))"
    by (rule nbr_find_ldpid_fit) (use assms in \<open>simp add: eng_fit_def\<close>)
qed (auto split: if_splits)

lemma nbrp_list_fit:
  assumes "eng_inv s"
  shows "fit_step s (s\<lparr>e_nbrp_list := l\<rparr>)"
proof -
  let ?t = "s\<lparr>e_nbrp_list := l\<rparr>"
  have v: "view ?t = (view s)\<lparr>v_params := l\<rparr>" by (simp add: view_def)
  have "view_ok (view ?t)"
    using eng_view [OF assms]
    by (simp add: v view_ok_def lists_ok_def tnbrs_ok_def ifs_ok_def nbrs_ok_def vsrc_def on_link_def of_nbr_def)
  moreover have "sess_inv ?t" using sess_inv_cong [of ?t s] eng_sess [OF assms] by simp
  ultimately show ?thesis using outs_ok_cong [of ?t s] by (simp add: fit_step_def eng_inv_def nbr_ids_def)
qed

lemma remove_nbrp_ok:
  assumes fit: "eng_fit R s" and r: "np_lsr_id nbrp \<in> R" and y: "sys_ok y"
  shows "okE (remove_nbrp y x s nbrp) (fit_step s)"
proof -
  note ok = eng_fit_inv [OF fit]
  obtain nb where nb: "nbr_find_ldpid s (np_lsr_id nbrp) = Inr nb" "\<And>p. nb = Some p \<Longrightarrow> rb_find (e_nbrs s) p \<noteq> None"
    using ldpid_found [OF fit r] by blast
  have "okE (case nb of
        None \<Rightarrow> Inr s
      | Some p \<Rightarrow>
          bindE (session_shutdown s p S_SHUTDOWN 0 0) (\<lambda>s1.
          bindE (pfkey_remove y s1 p) (\<lambda>(s2, _). reconnect y s2 p))) (calm s)"
    using restart_calm(1) [OF ok nb(2) y] calm_refl [OF eng_sess [OF ok]] by (cases nb) simp_all
  then have "okE (bindE (case nb of
        None \<Rightarrow> Inr s
      | Some p \<Rightarrow>
          bindE (session_shutdown s p S_SHUTDOWN 0 0) (\<lambda>s1.
          bindE (pfkey_remove y s1 p) (\<lambda>(s2, _). reconnect y s2 p))) (\<lambda>s3.
        Inr (s3\<lparr>e_nbrp_list := remove1 nbrp (e_nbrp_list s3)\<rparr>))) (fit_step s)"
    by (rule okE_bind) (simp, blast intro: fit_trans nbrp_list_fit calm_fit [OF ok] calm_inv ok)
  then show ?thesis unfolding remove_nbrp_def nb(1) bindE_simps using fit_refl [OF ok] by (intro okE_if) simp_all
qed

lemma merge_nbrp_ok:
  assumes fit: "eng_fit R s" and r: "np_lsr_id xn \<in> R" and y: "sys_ok y"
  shows "okE (merge_nbrp y s xn) (fit_step s)"
proof -
  note ok = eng_fit_inv [OF fit]
  have g: "fit_step s (s\<lparr>e_nbrp_list := l\<rparr>)" for l by (rule nbrp_list_fit [OF ok])
  have find: "\<exists>nb. nbr_find_ldpid (s\<lparr>e_nbrp_list := l\<rparr>) (np_lsr_id xn) = Inr nb \<and>
      (\<forall>p. nb = Some p \<longrightarrow> rb_find (e_nbrs (s\<lparr>e_nbrp_list := l\<rparr>)) p \<noteq> None)" for l
    by (rule ldpid_found [OF fit_step_fit [OF fit g] r]) blast
  have go: "okE m (fit_step s)" if "okE m (calm (s\<lparr>e_nbrp_list := l\<rparr>))" for m l
    by (rule okE_mono [OF that]) (use g in \<open>blast intro: fit_trans calm_fit fit_inv\<close>)
  note restart = restart_calm(2,3) [OF fit_inv [OF g] _ y]
  show ?thesis
  proof (cases "nbr_params_find s (np_lsr_id xn)")
    case None
    obtain nb where nb: "nbr_find_ldpid (s\<lparr>e_nbrp_list := xn # e_nbrp_list s\<rparr>) (np_lsr_id xn) = Inr nb"
      "\<And>p. nb = Some p \<Longrightarrow> rb_find (e_nbrs (s\<lparr>e_nbrp_list := xn # e_nbrp_list s\<rparr>)) p \<noteq> None" using find by blast
    show ?thesis
      using g go [OF restart(1) [OF nb(2)]] nb(1) by (cases nb) (simp_all add: merge_nbrp_def None Let_def)
  next
    case (Some nbrp)
    let ?l = "upd_first (\<lambda>np. np_lsr_id np = np_lsr_id xn) (\<lambda>_. xn) (e_nbrp_list s)"
    have id: "np_lsr_id nbrp = np_lsr_id xn" using Some by (auto simp: nbr_params_find_def find_Some_iff)
    obtain nb where nb: "nbr_find_ldpid (s\<lparr>e_nbrp_list := ?l\<rparr>) (np_lsr_id xn) = Inr nb"
      "\<And>p. nb = Some p \<Longrightarrow> rb_find (e_nbrs (s\<lparr>e_nbrp_list := ?l\<rparr>)) p \<noteq> None" using find by blast
    show ?thesis
      using g go [OF restart(2) [OF nb(2)]] nb(1) by (cases nb) (simp_all add: merge_nbrp_def Some Let_def id)
  qed
qed

lemma merge_nbrps_ok:
  assumes fit: "eng_fit R s" and y: "sys_ok y"
    and old: "np_lsr_id ` set (e_nbrp_list s) \<subseteq> R" and new: "np_lsr_id ` set (xc_nbrp_list x) \<subseteq> R"
  shows "okE (merge_nbrps y s x) (fit_step s)"
  unfolding merge_nbrps_def
proof (rule okE_bind)
  show "okE (foldE (remove_nbrp y x) (e_nbrp_list s) s) (fit_step s)"
    by (rule okE_fit_foldE [OF fit remove_nbrp_ok [OF _ _ y]]) (use old in auto)
  fix t assume t: "fit_step s t"
  have "okE (foldE (merge_nbrp y) (xc_nbrp_list x) t) (fit_step t)"
    by (rule okE_fit_foldE [OF fit_step_fit [OF fit t] merge_nbrp_ok [OF _ _ y]]) (use new in auto)
  then show "okE (foldE (merge_nbrp y) (xc_nbrp_list x) t) (fit_step s)" by (rule okE_mono) (rule fit_trans [OF t])
qed

section \<open>Layer-2 VPNs\<close>

lemma pw_init_ok:
  assumes ok: "eng_inv s" and af: "pw_af pw \<noteq> AF_UNSPEC"
  shows "okE (ldpe_l2vpn_pw_init s pw) (fit_step s)"
proof -
  let ?x = "fresh_id (e_tnbr_list s)"
  have cnt: "okE (Inr (upd_t t x (\<lambda>tn. tn\<lparr>t_pw_count := t_pw_count tn + 1\<rparr>))) (fit_step s)" if "fit_step s t" for t x
    unfolding okE_Inr
    by (rule fit_trans [OF that calm_fit [OF fit_inv [OF that] calm_upd_t [OF eng_sess [OF fit_inv [OF that]]]]])
      (simp add: tnbr_view_def)
  obtain c where c: "ldp_af_conf_get s (pw_af pw) = Inr c" using ldp_af_conf_get_total [OF af, of s] by (auto simp: okE_def)
  have add: "okE (bindE (tnbr_update (s\<lparr>e_tnbrs := (e_tnbrs s)(?x \<mapsto> tn)\<rparr>) ?x) (\<lambda>s1.
      Inr (s1\<lparr>e_tnbr_list := ?x # e_tnbr_list s1\<rparr>, ?x))) (\<lambda>r. fit_step s (fst r))"
    if tn: "t_af tn = pw_af pw" "t_adj tn = None" for tn
  proof -
    have "okE (bindE (tnbr_update (s\<lparr>e_tnbrs := (e_tnbrs s)(?x \<mapsto> tn)\<rparr>) ?x) (\<lambda>s1.
        Inr (s1\<lparr>e_tnbr_list := ?x # e_tnbr_list s1\<rparr>, Some (HELLO_TARGETED ?x))))
      (\<lambda>(t, r). shrinks s t \<and> (\<forall>src. r = Some src \<longrightarrow> source_live t src))"
      by (rule tnbr_add_ok [OF ok]) (use tn af in simp_all)
    then show ?thesis by (auto simp: okE_bind_iff runs_def shrinks_def fit_step_def elim!: okE_mono)
  qed
  have made: "okE (case r of
              Some t \<Rightarrow> Inr (s, t)
            | None \<Rightarrow>
                bindE (tnbr_new s (pw_af pw) (pw_addr pw)) (\<lambda>tn.
                let t = fresh_id (e_tnbr_list s)
                in bindE (tnbr_update (s\<lparr>e_tnbrs := (e_tnbrs s)(t \<mapsto> tn)\<rparr>) t) (\<lambda>s1.
                   Inr (s1\<lparr>e_tnbr_list := t # e_tnbr_list s1\<rparr>, t)))) (\<lambda>r. fit_step s (fst r))" for r
    by (cases r) (use c add fit_refl [OF ok] in \<open>simp_all add: tnbr_new_def Let_def\<close>)
  show ?thesis
    unfolding ldpe_l2vpn_pw_init_def
    by (rule okE_bind [OF tnbr_find_ok [OF ok af]], rule okE_bind [OF made]) (use cnt in auto)
qed

lemma pw_exit_ok:
  assumes ok: "eng_inv s" and af: "pw_af pw \<noteq> AF_UNSPEC"
  shows "okE (ldpe_l2vpn_pw_exit y s pw) (fit_step s)"
  unfolding ldpe_l2vpn_pw_exit_def
proof (rule okE_bind [OF tnbr_find_ok [OF ok af]])
  fix r :: "nat option" assume r: "\<forall>t. r = Some t \<longrightarrow> (\<exists>tn. e_tnbrs s t = Some tn)"
  show "okE (case r of
       None \<Rightarrow> Inr s
     | Some t \<Rightarrow>
         bindE (tnbr_check y (upd_t s t (\<lambda>tn. tn\<lparr>t_pw_count := t_pw_count tn - 1\<rparr>)) t) (\<lambda>(s1, _). Inr s1)) (fit_step s)"
  proof (cases r)
    case (Some t)
    then obtain tn where tn: "e_tnbrs s t = Some tn" using r by blast
    have "okE (bindE (tnbr_check y (upd_t s t (\<lambda>tn. tn\<lparr>t_pw_count := t_pw_count tn - 1\<rparr>)) t) (\<lambda>(s1, _). Inr s1)) (sheds_t t s)"
      by (rule tnbr_recheck_ok [OF ok tn]) (simp add: tnbr_view_def)
    then show ?thesis unfolding Some option.case by (rule okE_thins_fit [OF okE_mono]) (rule sheds_t_thins)
  qed (simp add: fit_refl [OF ok])
qed

text \<open>Operations that also return the new list.\<close>

definition good2 :: "ldpe \<Rightarrow> ('a \<Rightarrow> bool) \<Rightarrow> ldpe \<times> 'a \<Rightarrow> bool" where
  "good2 s P r \<longleftrightarrow> fit_step s (fst r) \<and> P (snd r)"

lemma good2_simps [simp]: "good2 s P (t, a) = (fit_step s t \<and> P a)"
  by (simp add: good2_def)

lemma okE_good2_bind:
  "okE m (fit_step s) \<Longrightarrow> P a \<Longrightarrow> okE (bindE m (\<lambda>t. Inr (t, a))) (good2 s P)"
  by (rule okE_bind, assumption) simp

lemma okE_good2_foldE:
  assumes "eng_fit R s" "P a"
    and f: "\<And>t b x. x \<in> set xs \<Longrightarrow> eng_fit R t \<Longrightarrow> P b \<Longrightarrow> okE (f (t, b) x) (good2 t P)"
  shows "okE (foldE f xs (s, a)) (good2 s P)"
proof (rule okE_foldE)
  fix r x assume x: "x \<in> set xs" and r: "good2 s P r"
  obtain t b where tb: "r = (t, b)" by fastforce
  with r have g: "fit_step s t" and b: "P b" by simp_all
  from f [OF x fit_step_fit [OF assms(1) g] b] show "okE (f r x) (good2 s P)"
    unfolding tb by (rule okE_mono) (auto simp: good2_def intro: fit_trans [OF g])
qed (use assms in \<open>simp add: fit_refl eng_fit_inv\<close>)

abbreviation pws_ok :: "in_addr set \<Rightarrow> l2vpn_pw list \<Rightarrow> bool" where
  "pws_ok R ps \<equiv> \<forall>pw\<in>set ps. pw_af pw \<noteq> AF_UNSPEC \<and> pw_lsr_id pw \<in> R"

abbreviation l2vpns_ok :: "in_addr set \<Rightarrow> conf_l2vpn list \<Rightarrow> bool" where
  "l2vpns_ok R ls \<equiv> \<forall>l\<in>set ls. pws_ok R (cl_pw_list l)"

lemma merged_pw_sel [simp]: "pw_af (merged_pw pw xp) = pw_af xp" "pw_lsr_id (merged_pw pw xp) = pw_lsr_id xp"
  by (simp_all add: merged_pw_def Let_def)

lemma set_upd_first: "x \<in> set (upd_first Q f xs) \<Longrightarrow> x \<in> set xs \<or> (\<exists>z\<in>set xs. x = f z)"
  by (induction xs) (auto split: if_splits)

lemma merge_pw_ok:
  assumes fit: "eng_fit R s" and af: "pw_af pw \<noteq> AF_UNSPEC" "pw_af xp \<noteq> AF_UNSPEC" and r: "pw_lsr_id pw \<in> R"
  shows "okE (merge_pw y s pw xp) (fit_step s)"
proof -
  note ok = eng_fit_inv [OF fit]
  have cmp: "okE (if pw_af pw \<noteq> pw_af xp then Inr True
            else bindE (ldp_addrcmp (pw_af pw) (pw_addr pw) (pw_addr xp)) (\<lambda>c. Inr (c \<noteq> 0))) (\<lambda>_. True)"
    using ldp_addrcmp_eq_0 [OF af(1), of "pw_addr pw" "pw_addr xp"] by auto
  have reset: "okE (if b then
                 bindE (nbr_find_ldpid t (pw_lsr_id pw)) (\<lambda>nbr.
                 case nbr of
                   None \<Rightarrow> Inr t
                 | Some p \<Rightarrow> bindE (get_nbr t p) (\<lambda>n.
                     if n_state n = NBR_STA_OPER then session_shutdown t p S_SHUTDOWN 0 0 else Inr t))
               else Inr t) (fit_step t)" if t: "eng_fit R t" for t b
  proof -
    note okt = eng_fit_inv [OF t]
    obtain nb where nb: "nbr_find_ldpid t (pw_lsr_id pw) = Inr nb" "\<And>p. nb = Some p \<Longrightarrow> rb_find (e_nbrs t) p \<noteq> None"
      using ldpid_found [OF t r] by blast
    show ?thesis
    proof (cases nb)
      case (Some p)
      then obtain n where n: "rb_find (e_nbrs t) p = Some n" using nb(2) by blast
      then show ?thesis
        using nb(1) Some okE_calm_fit [OF okt session_shutdown_calm [OF okt n]] fit_refl [OF okt] by simp
    qed (use nb(1) in \<open>simp add: fit_refl [OF okt]\<close>)
  qed
  have leave: "okE (if b then ldpe_l2vpn_pw_exit y s pw else Inr s) (fit_step s)" for b
    using pw_exit_ok [OF ok af(1)] fit_refl [OF ok] by simp
  have enter: "okE (if b then ldpe_l2vpn_pw_init t (merged_pw pw xp) else Inr t) (fit_step t)" if "eng_fit R t" for b t
    using pw_init_ok [OF eng_fit_inv [OF that], of "merged_pw pw xp"] af(2) fit_refl [OF eng_fit_inv [OF that]] by simp
  show ?thesis
    unfolding merge_pw_def Let_def
    by (rule okE_bind [OF cmp], rule okE_fit_bind [OF fit leave], rule okE_fit_bind [OF _ reset], assumption+, rule enter)
qed

lemma drop_pw_ok:
  assumes "eng_inv s" "pws_ok R ps" "pw_af pw \<noteq> AF_UNSPEC" "pw_lsr_id pw \<in> R"
  shows "okE (drop_pw y xps (s, ps) pw) (good2 s (pws_ok R))"
  unfolding drop_pw_def prod.case
  by (rule okE_if, rule okE_good2_bind [OF pw_exit_ok]) (use assms in \<open>auto simp: fit_refl\<close>)

lemma take_pw_ok:
  assumes fit: "eng_fit R s" and ps: "pws_ok R ps" and xp: "pw_af xp \<noteq> AF_UNSPEC" "pw_lsr_id xp \<in> R"
  shows "okE (take_pw y (s, ps) xp) (good2 s (pws_ok R))"
proof (cases "l2vpn_pw_find ps (pw_ifindex xp)")
  case None
  then show ?thesis
    unfolding take_pw_def prod.case
    by (simp, intro okE_good2_bind [OF pw_init_ok [OF eng_fit_inv [OF fit] xp(1)]]) (use ps xp in auto)
next
  case (Some pw)
  then have "pw \<in> set ps" unfolding l2vpn_pw_find_def by (auto simp: find_Some_iff)
  then have "pw_af pw \<noteq> AF_UNSPEC" "pw_lsr_id pw \<in> R" using ps by blast+
  with Some show ?thesis
    unfolding take_pw_def prod.case Some option.case
    by (intro okE_good2_bind [OF merge_pw_ok [OF fit _ xp(1)]]) (use ps xp in \<open>auto dest!: set_upd_first\<close>)
qed

lemma merge_l2vpn_ok:
  assumes fit: "eng_fit R s" and l: "pws_ok R (cl_pw_list l)" and xl: "pws_ok R (cl_pw_list xl)"
  shows "okE (merge_l2vpn y s l xl) (good2 s (\<lambda>l. pws_ok R (cl_pw_list l)))"
proof -
  have one: "okE (foldE (drop_pw y (cl_pw_list xl)) (cl_pw_list l) (s, [])) (good2 s (pws_ok R))"
    by (rule okE_good2_foldE [OF fit]) (use l in \<open>auto intro!: drop_pw_ok eng_fit_inv\<close>)
  have two: "okE (foldE (take_pw y) (cl_pw_list xl) st) (good2 s (pws_ok R))" if st: "good2 s (pws_ok R) st" for st
  proof -
    obtain t ps where t: "st = (t, ps)" by fastforce
    have g: "fit_step s t" and ps: "pws_ok R ps" using st by (simp_all add: t)
    have "okE (foldE (take_pw y) (cl_pw_list xl) (t, ps)) (good2 t (pws_ok R))"
      by (rule okE_good2_foldE [OF fit_step_fit [OF fit g]]) (use ps xl in \<open>auto intro!: take_pw_ok\<close>)
    then show ?thesis unfolding t by (rule okE_mono) (use g in \<open>auto simp: good2_def intro: fit_trans\<close>)
  qed
  show ?thesis
    unfolding merge_l2vpn_def by (rule okE_bind [OF one], rule okE_bind [OF two], assumption) auto
qed

lemma drop_l2vpn_ok:
  assumes "eng_fit R s" "l2vpns_ok R ls" "pws_ok R (cl_pw_list l)"
  shows "okE (drop_l2vpn y xls (s, ls) l) (good2 s (l2vpns_ok R))"
  unfolding drop_l2vpn_def prod.case ldpe_l2vpn_exit_def
  by (rule okE_if, rule okE_good2_bind [OF okE_fit_foldE [OF assms(1) pw_exit_ok [OF eng_fit_inv]]])
    (use assms in \<open>auto simp: fit_refl eng_fit_inv\<close>)

lemma take_l2vpn_ok:
  assumes fit: "eng_fit R s" and ls: "l2vpns_ok R ls" and xl: "pws_ok R (cl_pw_list xl)"
  shows "okE (take_l2vpn y (s, ls) xl) (good2 s (l2vpns_ok R))"
proof (cases "l2vpn_find ls (cl_name xl)")
  case None
  then show ?thesis
    unfolding take_l2vpn_def prod.case ldpe_l2vpn_init_def
    by (simp, intro okE_good2_bind [OF okE_fit_foldE [OF fit pw_init_ok [OF eng_fit_inv]]]) (use ls xl in auto)
next
  case (Some l)
  then have "l \<in> set ls" unfolding l2vpn_find_def by (auto simp: find_Some_iff)
  then have "pws_ok R (cl_pw_list l)" using ls by blast
  from merge_l2vpn_ok [OF fit this xl] show ?thesis
    unfolding take_l2vpn_def prod.case Some option.case
    by (rule okE_bind) (use ls in \<open>auto dest!: set_upd_first\<close>)
qed

lemma merge_l2vpns_ok:
  assumes fit: "eng_fit R s" and ls: "l2vpns_ok R ls" and x: "l2vpns_ok R (xc_l2vpn_list x)"
  shows "okE (merge_l2vpns y (s, ls) x) (good2 s (l2vpns_ok R))"
proof -
  have one: "okE (foldE (drop_l2vpn y (xc_l2vpn_list x)) ls (s, [])) (good2 s (l2vpns_ok R))"
    by (rule okE_good2_foldE [OF fit]) (use ls in \<open>auto intro!: drop_l2vpn_ok\<close>)
  have two: "okE (foldE (take_l2vpn y) (xc_l2vpn_list x) st) (good2 s (l2vpns_ok R))" if st: "good2 s (l2vpns_ok R) st" for st
  proof -
    obtain t ls' where t: "st = (t, ls')" by fastforce
    have g: "fit_step s t" and ls': "l2vpns_ok R ls'" using st by (simp_all add: t)
    have "okE (foldE (take_l2vpn y) (xc_l2vpn_list x) (t, ls')) (good2 t (l2vpns_ok R))"
      by (rule okE_good2_foldE [OF fit_step_fit [OF fit g]]) (use ls' x in \<open>auto intro!: take_l2vpn_ok\<close>)
    then show ?thesis unfolding t by (rule okE_mono) (use g in \<open>auto simp: good2_def intro: fit_trans\<close>)
  qed
  show ?thesis unfolding merge_l2vpns_def prod.case by (rule okE_bind [OF one]) (rule two)
qed

section \<open>The process\<close>

definition conf_good :: "ldpd_conf \<Rightarrow> bool" where
  "conf_good x \<longleftrightarrow>
     list_all new_iface_ok (xc_iface_list x) \<and> list_all new_tnbr_ok (xc_tnbr_list x) \<and>
     list_all (\<lambda>l. list_all (\<lambda>pw. pw_af pw \<noteq> AF_UNSPEC) (cl_pw_list l)) (xc_l2vpn_list x)"

text \<open>The router identifiers that the old and the new configuration name.\<close>

definition conf_ids :: "ldpe \<Rightarrow> conf_l2vpn list \<Rightarrow> ldpd_conf \<Rightarrow> in_addr set" where
  "conf_ids s ls x =
     np_lsr_id ` set (e_nbrp_list s) \<union> np_lsr_id ` set (xc_nbrp_list x) \<union>
     (\<Union>l\<in>set ls \<union> set (xc_l2vpn_list x). pw_lsr_id ` set (cl_pw_list l))"

lemma merge_config_ok:
  assumes ok: "eng_inv s" and y: "sys_ok y" and ls: "l2vpns_ok UNIV ls" and x: "conf_good x"
    and q: "links_quiet s (set (e_iface_list s))" and ids: "\<forall>r\<in>conf_ids s ls x. ids_fit s r"
  shows "okE (merge_config y (s, ls) x) (good2 s (l2vpns_ok UNIV))"
proof -
  let ?R = "conf_ids s ls x"
  have fit: "eng_fit ?R s" using ok ids by (simp add: eng_fit_def)
  have tail: "okE (bindE (merge_ifaces y t x) (\<lambda>s4.
        bindE (merge_tnbrs y s4 x) (\<lambda>s5.
        bindE (merge_nbrps y s5 x) (\<lambda>s6. merge_l2vpns y (s6, ls) x)))) (good2 s (l2vpns_ok ?R))"
    if t: "thins s t" for t
  proof -
    have q': "links_quiet t (set (e_iface_list t))" using thins_quiet [OF t q] t by (simp add: thins_def)
    have up: "okE m (good2 u (l2vpns_ok ?R)) \<Longrightarrow> fit_step s u \<Longrightarrow> okE m (good2 s (l2vpns_ok ?R))" for m u
      by (erule okE_mono) (auto simp: good2_def intro: fit_trans)
    have st: "okE m (good_step u) \<Longrightarrow> good_step s u \<Longrightarrow> okE m (good_step s)" for m u
      by (erule okE_mono) (rule good_trans)
    have a: "okE (merge_ifaces y t x) (good_step s)"
      by (rule st [OF merge_ifaces_ok [OF thins_inv [OF t] _ q'] thins_good [OF t]]) (use x in \<open>simp add: conf_good_def list_all_iff\<close>)
    have b: "okE (merge_tnbrs y u x) (good_step s)" if "good_step s u" for u
      by (rule st [OF merge_tnbrs_ok [OF good_inv [OF that]] that]) (use x in \<open>simp add: conf_good_def list_all_iff\<close>)
    have c: "okE (merge_nbrps y u x) (fit_step s)" if u: "good_step s u" for u
    proof (rule okE_mono [OF merge_nbrps_ok [OF good_eng_fit [OF fit u] y]])
      show "np_lsr_id ` set (e_nbrp_list u) \<subseteq> ?R" using u by (auto simp: conf_ids_def good_step_def)
    qed (use fit_trans [OF good_fit [OF u]] in \<open>auto simp: conf_ids_def\<close>)
    have d: "okE (merge_l2vpns y (u, ls) x) (good2 s (l2vpns_ok ?R))" if u: "fit_step s u" for u
      by (rule up [OF merge_l2vpns_ok [OF fit_step_fit [OF fit u]] u])
        (use x ls in \<open>auto simp: conf_good_def list_all_iff conf_ids_def\<close>)
    show ?thesis by (rule okE_bind [OF a], rule okE_bind [OF b], assumption, rule okE_bind [OF c], assumption, rule d)
  qed
  have af: "okE (merge_af y af t c) (thins s)" if t: "thins s t" and "af \<noteq> AF_UNSPEC" for t af c
    by (rule okE_mono [OF merge_af_ok [OF thins_inv [OF t] that(2)]]) (rule thins_trans [OF t])
  have "okE (merge_config y (s, ls) x) (good2 s (l2vpns_ok ?R))"
    unfolding merge_config_def prod.case
    by (rule okE_bind [OF merge_global_ok [OF ok]], rule okE_bind [OF af], assumption, simp,
        rule okE_bind [OF af], assumption, simp, rule tail)
  then show ?thesis by (rule okE_mono) (auto simp: good2_def)
qed

definition proc_inv :: "ldpe_proc \<Rightarrow> bool" where
  "proc_inv pr \<longleftrightarrow>
     eng_inv (pr_engine pr) \<and> outs_ok (pr_engine pr) \<and> l2vpns_ok UNIV (pr_l2vpn_list pr) \<and>
     (\<forall>x. pr_nconf pr = Some x \<longrightarrow> conf_good x)"

text \<open>
  The messages of the parent come in the order of \<^verbatim>\<open>main_imsg_send_config\<close>. The code does not survive
  every last message (\<^verbatim>\<open>IMSG_RECONF_END\<close>), so two things are asked for it that nothing in the code
  guarantees: no adjacency sits on a family of an interface that is not active (\<open>links_quiet\<close>; \<^verbatim>\<open>if_exit\<close>
  leaves such an adjacency behind when the interface goes), and \<^verbatim>\<open>nbr_id_compare\<close> orders each
  router identifier of the old and the new configuration together with those of the neighbours.
\<close>

definition reconf_ok :: "ldpe_proc \<Rightarrow> reconf_imsg \<Rightarrow> bool" where
  "reconf_ok pr m \<longleftrightarrow>
     (case m of
        RECONF_CONF x \<Rightarrow> True
      | RECONF_TNBR tn \<Rightarrow> pr_nconf pr \<noteq> None \<and> new_tnbr_ok tn
      | RECONF_L2VPN_IF lif \<Rightarrow> (\<exists>x. pr_nconf pr = Some x \<and> xc_l2vpn_list x \<noteq> [])
      | RECONF_L2VPN_PW pw \<Rightarrow> (\<exists>x. pr_nconf pr = Some x \<and> xc_l2vpn_list x \<noteq> []) \<and> pw_af pw \<noteq> AF_UNSPEC
      | RECONF_END \<Rightarrow>
          (case pr_nconf pr of
             None \<Rightarrow> False
           | Some x \<Rightarrow> links_quiet (pr_engine pr) (set (e_iface_list (pr_engine pr))) \<and>
                       (\<forall>r\<in>conf_ids (pr_engine pr) (pr_l2vpn_list pr) x. ids_fit (pr_engine pr) r))
      | _ \<Rightarrow> pr_nconf pr \<noteq> None)"

lemma clean_iface_ok: "new_iface_ok (clean_iface ifc)"
  by (simp add: new_iface_ok_def clean_iface_def)

lemma with_nl2vpn_ok:
  assumes "xc_l2vpn_list x \<noteq> []" "conf_good x"
    and "\<And>l. list_all (\<lambda>pw. pw_af pw \<noteq> AF_UNSPEC) (cl_pw_list l) \<Longrightarrow> list_all (\<lambda>pw. pw_af pw \<noteq> AF_UNSPEC) (cl_pw_list (f l))"
  shows "okE (with_nl2vpn f x) conf_good"
  using assms by (cases "xc_l2vpn_list x") (simp_all add: with_nl2vpn_def conf_good_def)

lemma ldpe_reconf_ok:
  assumes inv: "proc_inv pr" and m: "reconf_ok pr m" and y: "sys_ok y"
  shows "okE (ldpe_reconf y pr m) proc_inv"
proof (cases m)
  case RECONF_END
  then obtain x where x: "pr_nconf pr = Some x" and q: "links_quiet (pr_engine pr) (set (e_iface_list (pr_engine pr)))"
    and ids: "\<forall>r\<in>conf_ids (pr_engine pr) (pr_l2vpn_list pr) x. ids_fit (pr_engine pr) r"
    using m by (auto simp: reconf_ok_def split: option.splits)
  have "okE (merge_config y (pr_engine pr, pr_l2vpn_list pr) x) (good2 (pr_engine pr) (l2vpns_ok UNIV))"
    by (rule merge_config_ok [OF _ y _ _ q ids]) (use inv x in \<open>simp_all add: proc_inv_def\<close>)
  then have "okE (bindE (merge_config y (pr_engine pr, pr_l2vpn_list pr) x) (\<lambda>(s, ls).
      Inr \<lparr>pr_engine = s\<lparr>e_conf_seqnum := e_conf_seqnum s + 1\<rparr>, pr_l2vpn_list = ls, pr_nconf = None\<rparr>)) proc_inv"
  proof (rule okE_bind, goal_cases)
    case (1 r)
    obtain s ls where r: "r = (s, ls)" by fastforce
    with 1 have g: "fit_step (pr_engine pr) s" and ls: "l2vpns_ok UNIV ls" by simp_all
    have "fit_step s (s\<lparr>e_conf_seqnum := e_conf_seqnum s + 1\<rparr>)"
      by (rule calm_fit [OF fit_inv [OF g] conf_fields_calm(4) [OF eng_sess [OF fit_inv [OF g]]]])
    from fit_trans [OF g this] show ?case using ls inv by (simp add: r proc_inv_def fit_step_def)
  qed
  with x show ?thesis by (simp add: RECONF_END ldpe_reconf_def)
next
  case (RECONF_L2VPN_IF lif)
  then obtain x where x: "pr_nconf pr = Some x" "xc_l2vpn_list x \<noteq> []" using m by (auto simp: reconf_ok_def)
  have "okE (with_nl2vpn (\<lambda>l. l\<lparr>cl_if_list := lif # cl_if_list l\<rparr>) x) conf_good"
    by (rule with_nl2vpn_ok) (use x inv in \<open>simp_all add: proc_inv_def\<close>)
  then have "okE (bindE (with_nl2vpn (\<lambda>l. l\<lparr>cl_if_list := lif # cl_if_list l\<rparr>) x) (\<lambda>x1. Inr (pr\<lparr>pr_nconf := Some x1\<rparr>))) proc_inv"
    by (rule okE_bind) (use inv in \<open>simp add: proc_inv_def\<close>)
  with x show ?thesis by (simp add: RECONF_L2VPN_IF ldpe_reconf_def with_nconf_def)
next
  case (RECONF_L2VPN_PW pw)
  then obtain x where x: "pr_nconf pr = Some x" "xc_l2vpn_list x \<noteq> []" using m by (auto simp: reconf_ok_def)
  have "okE (with_nl2vpn (\<lambda>l. l\<lparr>cl_pw_list := pw # cl_pw_list l\<rparr>) x) conf_good"
    by (rule with_nl2vpn_ok) (use x inv m in \<open>simp_all add: proc_inv_def reconf_ok_def RECONF_L2VPN_PW\<close>)
  then have "okE (bindE (with_nl2vpn (\<lambda>l. l\<lparr>cl_pw_list := pw # cl_pw_list l\<rparr>) x) (\<lambda>x1. Inr (pr\<lparr>pr_nconf := Some x1\<rparr>))) proc_inv"
    by (rule okE_bind) (use inv in \<open>simp add: proc_inv_def\<close>)
  with x show ?thesis by (simp add: RECONF_L2VPN_PW ldpe_reconf_def with_nconf_def)
qed (use inv m in \<open>auto simp: ldpe_reconf_def with_nconf_def reconf_ok_def proc_inv_def conf_good_def clean_iface_ok\<close>)

end
