(* ===== verification/Ldpe_Reach.thy ===== *)
theory Ldpe_Reach
  imports Ldpe_ReloadSafe
begin

text \<open>
  The states the protocol engine can reach from its start (\<^verbatim>\<open>ldpe\<close> of \<^verbatim>\<open>ldpe.c\<close>): no configuration, no
  sockets, no neighbours. The configuration comes with the messages of the parent.
\<close>

section \<open>The start\<close>

definition empty_af_conf :: ldpd_af_conf where
  "empty_af_conf = \<lparr>ac_keepalive = 0, ac_thello_holdtime = 0, ac_thello_interval = 0,
     ac_trans_addr = replicate 16 0, ac_flags = 0\<rparr>"

definition config_new_empty :: ldpd_conf where
  "config_new_empty = \<lparr>xc_rtr_id = 0, xc_ipv4 = empty_af_conf, xc_ipv6 = empty_af_conf, xc_iface_list = [],
     xc_tnbr_list = [], xc_nbrp_list = [], xc_l2vpn_list = [], xc_trans_pref = 0, xc_flags = 0\<rparr>"

definition no_sockets :: ldpd_af_global where
  "no_sockets = \<lparr>ag_disc_socket = -1, ag_edisc_socket = -1, ag_session_socket = -1\<rparr>"

definition ldpe_start :: "bool \<Rightarrow> bool \<Rightarrow> ldpe_proc" where
  "ldpe_start no_pfkey no_md5sig =
     (let c = config_new_empty in
      \<lparr>pr_engine =
         \<lparr>e_rtr_id = xc_rtr_id c, e_ipv4 = xc_ipv4 c, e_ipv6 = xc_ipv6 c, e_iface_list = [], e_tnbr_list = [],
          e_nbrp_list = xc_nbrp_list c, e_trans_pref = xc_trans_pref c, e_conf_flags = xc_flags c,
          e_ifaces = (\<lambda>_. None), e_tnbrs = (\<lambda>_. None), e_global4 = no_sockets, e_global6 = no_sockets,
          e_new_disc = -1, e_new_edisc = -1, e_new_session = -1, e_conf_seqnum = 0, e_addr_list = [],
          e_adj_list = [], e_adjs = (\<lambda>_. None), e_pending_conns = [], e_detached = [],
          e_accept = \<lparr>aq_queue = [], aq_paused = False\<rparr>, e_nbrs = rb_init, e_nbrs_by_addr = rb_init,
          e_nbrs_by_pid = rb_init, e_peercnt = 1, e_msgcnt = 0, e_no_pfkey = no_pfkey, e_no_md5sig = no_md5sig,
          e_out = []\<rparr>,
       pr_l2vpn_list = xc_l2vpn_list c, pr_nconf = None\<rparr>)"

lemma ldpe_start_inv: "proc_inv (ldpe_start a b)"
  by (simp add: proc_inv_def ldpe_start_def Let_def config_new_empty_def eng_inv_def sess_inv_def pids_ok_def addrs_ok_def
      view_ok_def lists_ok_def tnbrs_ok_def ifs_ok_def nbrs_ok_def ids_ordered_def view_def vsrc_def outs_ok_def dom_def)

section \<open>Steps\<close>

datatype proc_event = On_engine ldpe_event | On_reconf reconf_imsg

definition proc_handle :: "sys \<Rightarrow> proc_event \<Rightarrow> ldpe_proc \<Rightarrow> ldpe_proc res" where
  "proc_handle y ev pr =
     (case ev of
        On_engine e \<Rightarrow> bindE (ldpe_handle y e (pr_engine pr)) (\<lambda>s. Inr (pr\<lparr>pr_engine := s\<rparr>))
      | On_reconf m \<Rightarrow> ldpe_reconf y pr m)"

text \<open>
  The events that are allowed are those that can come, less five kinds that the daemon does not survive or
  that leave the ordinary course of things: a failed write; a label message or notification with a FEC
  element that \<^verbatim>\<open>tlv_decode_fec_elm\<close> cannot handle; a session after the last of the 32-bit peer
  identifiers; a router identifier, in a packet or a configuration, that \<^verbatim>\<open>nbr_id_compare\<close> does not
  order together with those of the neighbours; and the end of a reload while an adjacency sits on
  a family of an interface that is not active. What is proved of the reachable states holds of the runs
  without them.
\<close>

definition proc_allowed :: "ldpe_proc \<Rightarrow> proc_event \<Rightarrow> bool" where
  "proc_allowed pr ev \<longleftrightarrow>
     (case ev of
        On_engine e \<Rightarrow> ev_raised (pr_engine pr) e \<and> ev_harmless (pr_engine pr) e
      | On_reconf m \<Rightarrow> reconf_ok pr m)"

inductive ldpe_reachable :: "ldpe_proc \<Rightarrow> bool" where
  start: "ldpe_reachable (ldpe_start a b)"
| step: "ldpe_reachable pr \<Longrightarrow> sys_ok y \<Longrightarrow> proc_allowed pr ev \<Longrightarrow> proc_handle y ev pr = Inr pr' \<Longrightarrow> ldpe_reachable pr'"

inductive_cases ldpe_reachableE: "ldpe_reachable pr"

lemma proc_handle_ok:
  assumes inv: "proc_inv pr" and y: "sys_ok y" and ev: "proc_allowed pr ev"
  shows "okE (proc_handle y ev pr) proc_inv"
proof (cases ev)
  case (On_engine e)
  have "okE (ldpe_handle y e (pr_engine pr)) (runs (pr_engine pr))"
    by (rule ldpe_handle_ok [OF _ y]) (use inv ev in \<open>simp_all add: On_engine proc_inv_def proc_allowed_def\<close>)
  then have "okE (bindE (ldpe_handle y e (pr_engine pr)) (\<lambda>s. Inr (pr\<lparr>pr_engine := s\<rparr>))) proc_inv"
    by (rule okE_bind) (use inv in \<open>simp add: proc_inv_def runs_def\<close>)
  then show ?thesis by (simp add: On_engine proc_handle_def)
next
  case (On_reconf m)
  then show ?thesis using ldpe_reconf_ok [OF inv _ y] ev by (simp add: proc_handle_def proc_allowed_def)
qed

lemma ldpe_reachable_inv: "ldpe_reachable pr \<Longrightarrow> proc_inv pr"
proof (induction rule: ldpe_reachable.induct)
  case (step pr y ev pr')
  then show ?case using proc_handle_ok [of pr y ev] by simp
qed (rule ldpe_start_inv)

lemma reachable_eng: "ldpe_reachable pr \<Longrightarrow> eng_inv (pr_engine pr)"
  using ldpe_reachable_inv by (simp add: proc_inv_def)

lemma reachable_outs: "ldpe_reachable pr \<Longrightarrow> outs_ok (pr_engine pr)"
  using ldpe_reachable_inv by (simp add: proc_inv_def)

lemma reachable_nbr: "ldpe_reachable pr \<Longrightarrow> rb_find (e_nbrs (pr_engine pr)) p = Some n \<Longrightarrow> nbr_ok n"
  using inv_nbr [OF eng_sess [OF reachable_eng]] .

end
