(* ===== verification/Ldpe_Handshake.thy ===== *)
theory Ldpe_Handshake
  imports Ldpe_Reach
begin

text \<open>
  Two engines that run this code and talk to each other: the bytes that one puts on the connection while
  a session is set up, and what the other makes of them.
\<close>

section \<open>PDUs of one message\<close>

definition one_pdu :: "in_addr \<Rightarrow> u32 \<Rightarrow> u16 \<Rightarrow> bytes \<Rightarrow> bytes" where
  "one_pdu rtr_id cnt type body =
     concat (gen_ldp_hdr rtr_id (18 + length body)) @ concat (snd (gen_msg_hdr cnt type (8 + length body))) @ body"

definition one_msg :: "u32 \<Rightarrow> u16 \<Rightarrow> bytes \<Rightarrow> bytes" where
  "one_msg cnt type body = concat (snd (gen_msg_hdr cnt type (8 + length body))) @ body"

lemma one_pdu_split: "one_pdu r cnt ty body = concat (gen_ldp_hdr r (18 + length body)) @ one_msg cnt ty body"
  by (simp add: one_pdu_def one_msg_def)

lemma length_one_pdu [simp]: "length (one_pdu r cnt ty body) = 18 + length body" "length (one_msg cnt ty body) = 8 + length body"
  by (simp_all add: one_pdu_def one_msg_def)

lemma drop_one_pdu [simp]: "drop 10 (one_pdu r cnt ty body) = one_msg cnt ty body" "drop 8 (one_msg cnt ty body) = body"
  by (simp_all add: one_pdu_split one_msg_def)

lemma unat_u16: "k < 65536 \<Longrightarrow> unat (of_nat k :: u16) = k"
  by (simp add: unat_of_nat)

lemma rd_one_pdu:
  assumes "length body \<le> 4000"
  shows "rd16 (one_pdu r cnt ty body @ z) 0 = Inr (htons LDP_VERSION)"
    "rd16 (one_pdu r cnt ty body @ z) 2 = Inr (htons (of_nat (14 + length body)))"
    "rd32 (one_pdu r cnt ty body @ z) 4 = Inr r" "rd16 (one_pdu r cnt ty body @ z) 8 = Inr 0"
  using assms
  by (simp_all add: one_pdu_def gen_ldp_hdr_def rd_defs nth_append store16_def store32_def hton16_def sub16_eq load32_store)

lemma rd_one_msg:
  assumes "length body \<le> 4000"
  shows "rd_msg (one_msg cnt ty body @ z) =
    Inr \<lparr>msg_type = htons ty, msg_length = htons (of_nat (4 + length body)), msg_id = htonl (cnt + 1)\<rparr>"
  using assms
  by (simp add: one_msg_def gen_msg_hdr_def rd_msg_def rd_defs nth_append store16_def store32_def hton16_def sub16_eq load32_store)

lemma send_keepalive_pdu:
  "rb_find (e_nbrs s) p = Some n \<Longrightarrow> n_tcp n = Some c \<Longrightarrow> send_keepalive s p =
    Inr (eout (s\<lparr>e_msgcnt := e_msgcnt s + 1\<rparr>) (Out_pdu (tcp_fd c) (one_pdu (e_rtr_id s) (e_msgcnt s) MSG_TYPE_KEEPALIVE [])))"
  using ibuf_adds_pdu [of "[]" 18 "e_rtr_id s" 18 "e_msgcnt s" MSG_TYPE_KEEPALIVE 8]
  by (auto simp: send_keepalive_def Let_def one_pdu_def split_beta fst_gen_msg_hdr)

text \<open>The parameters of the initialization message, with the keepalive time proposed.\<close>

definition init_body :: "u16 \<Rightarrow> in_addr \<Rightarrow> bytes" where
  "init_body keepalive i = tlv_hdr TLV_TYPE_COMMONSESSION SESS_PRMS_LEN @ store16 (htons LDP_VERSION) @
     store16 (htons keepalive) @ [0, 0] @ store16 0 @ store32 i @ store16 0"

lemma length_init_body [simp]: "length (init_body ka i) = 18"
  by (simp add: init_body_def tlv_hdr_def)

lemma send_init_pdu:
  assumes n: "rb_find (e_nbrs s) p = Some n" and c: "n_tcp n = Some c" and ka: "nbr_get_keepalive s (n_af n) (n_id n) = Inr ka"
  shows "send_init s p =
    Inr (eout (s\<lparr>e_msgcnt := e_msgcnt s + 1\<rparr>) (Out_pdu (tcp_fd c) (one_pdu (e_rtr_id s) (e_msgcnt s) MSG_TYPE_INIT (init_body ka (n_id n)))))"
proof -
  have p: "gen_init_prms_tlv s n = Inr [init_body ka (n_id n)]" by (simp add: gen_init_prms_tlv_def ka init_body_def)
  show ?thesis
    using n c ibuf_adds_pdu [of "[init_body ka (n_id n)]" 36 "e_rtr_id s" 36 "e_msgcnt s" MSG_TYPE_INIT 26]
    by (simp add: send_init_def Let_def p split_beta fst_gen_msg_hdr one_pdu_def)
qed

section \<open>Receiving a PDU\<close>

definition with_rbuf :: "nbr \<Rightarrow> bytes \<Rightarrow> nbr" where
  "with_rbuf n rest = n\<lparr>n_tcp := map_option (\<lambda>t. t\<lparr>tcp_rbuf := rest\<rparr>) (n_tcp n)\<rparr>"

lemma with_rbuf_simps [simp]:
  "n_state (with_rbuf n r) = n_state n" "n_id (with_rbuf n r) = n_id n" "n_af (with_rbuf n r) = n_af n"
  "nbr_ok (with_rbuf n r) = nbr_ok n" "timers_ok (with_rbuf n r) = timers_ok n" "n_max_pdu_len (with_rbuf n r) = n_max_pdu_len n"
  "n_peerid (with_rbuf n r) = n_peerid n" "with_rbuf (with_rbuf n q) r = with_rbuf n r" "n_keepalive (with_rbuf n r) = n_keepalive n"
  "n_v4_enabled (with_rbuf n r) = n_v4_enabled n" "n_v6_enabled (with_rbuf n r) = n_v6_enabled n"
  by (auto simp: with_rbuf_def nbr_ok_def timers_ok_def queues_ok_def option.map_comp comp_def split: nbr_state.splits)

lemma core_with_rbuf [simp]: "nbr_core (with_rbuf n r) = nbr_core n"
  by (simp add: with_rbuf_def nbr_core_def)

lemma set_rbuf_eff: "rb_find (e_nbrs s) p = Some n \<Longrightarrow> eff p s (with_rbuf n r) [] (set_rbuf s p r)"
  unfolding set_rbuf_def with_rbuf_def by (rule eff_upd_n)

lemma msg_loop_one:
  assumes "length body \<le> 4000" "rb_find (e_nbrs s) p = Some n"
  shows "msg_loop s p (one_msg cnt ty body) (int (8 + length body)) (8 + length body) =
    (if unexpected (n_state n) ty
     then bindE (session_shutdown s p S_SHUTDOWN (htonl (cnt + 1)) (htons ty)) (\<lambda>s1. Inr (s1, None))
     else bindE (recv_msg s p (one_msg cnt ty body) (8 + length body)
       \<lparr>msg_type = htons ty, msg_length = htons (of_nat (4 + length body)), msg_id = htonl (cnt + 1)\<rparr>) (\<lambda>(s1, ok).
       if \<not> ok then Inr (s1, None) else Inr (s1, Some 0)))"
proof -
  have u: "unat (of_nat (4 + length body) :: u16) = 4 + length body" using assms(1) by (intro unat_u16) simp
  have e: "msg_loop t p [] 0 0 = Inr (t, Some 0)" for t by (subst msg_loop.simps) simp
  show ?thesis
    using rd_one_msg [OF assms(1), of cnt ty "[]"] assms(2)
    by (subst msg_loop.simps) (simp add: u e Let_def split_beta del: of_nat_add cong: if_cong)
qed

lemma pdu_loop_pdu:
  assumes inv: "sess_inv s" and n: "rb_find (e_nbrs s) p = Some n" and st: "n_state n \<noteq> NBR_STA_PRESENT"
    and len: "length body \<le> 4000" "n_state n = NBR_STA_OPER \<longrightarrow> 14 + length body \<le> unat (n_max_pdu_len n)"
  obtains s1 where "eff p s (with_rbuf n rest) [] s1"
    "pdu_loop s p (one_pdu (n_id n) cnt ty body @ rest) =
      (if unexpected (n_state n) ty then session_shutdown s1 p S_SHUTDOWN (htonl (cnt + 1)) (htons ty)
       else bindE (recv_msg s1 p (one_msg cnt ty body) (8 + length body)
         \<lparr>msg_type = htons ty, msg_length = htons (of_nat (4 + length body)), msg_id = htonl (cnt + 1)\<rparr>) (\<lambda>(s2, ok).
         if \<not> ok then Inr s2
         else bindE (get_nbr s2 p) (\<lambda>m. if n_tcp m = None then Inl UseAfterFree else pdu_loop s2 p rest)))"
proof -
  let ?b = "one_pdu (n_id n) cnt ty body" and ?s = "set_rbuf s p rest" and ?n = "with_rbuf n rest"
  have ok: "nbr_ok n" using inv_nbr [OF inv n] .
  have u: "unat (of_nat (14 + length body) :: u16) = 14 + length body" using len(1) by (intro unat_u16) simp
  have e0: "eff p s ?n [] ?s" by (rule set_rbuf_eff [OF n])
  have f0: "rb_find (e_nbrs ?s) p = Some ?n" by (rule eff_find [OF e0])
  have "okE (nbr_fsm ?s p NBR_EVT_PDU_RCVD) (eff p ?s ?n [])"
    using nbr_fsm_eff [OF f0, of NBR_EVT_PDU_RCVD] fsm_nbr_idle [of ?n NBR_EVT_PDU_RCVD] ok
    by (simp add: nbr_ok_ready nbr_ok_def [of n])
  then obtain s1 where s1: "nbr_fsm ?s p NBR_EVT_PDU_RCVD = Inr s1" "eff p ?s ?n [] s1" by (auto simp: okE_def)
  have e1: "eff p s ?n [] s1" using eff_trans [OF e0 s1(2)] by simp
  have arith: "int (18 + length body) - 10 = int (8 + length body)" by simp
  have get: "session_get_pdu (?b @ rest) = Inr (Some (?b, rest))"
    using rd_one_pdu [OF len(1), of "n_id n" cnt ty rest] len(1) by (simp add: session_get_pdu_def u Let_def del: of_nat_add)
  have pdu: "session_pdu ?s p ?b = bindE (msg_loop s1 p (one_msg cnt ty body) (int (8 + length body)) (8 + length body)) (\<lambda>(s2, r).
      case r of None \<Rightarrow> Inr (s2, False)
      | Some len \<Rightarrow> if len \<noteq> 0 then bindE (session_shutdown s2 p S_BAD_PDU_LEN 0 0) (\<lambda>s3. Inr (s3, False)) else Inr (s2, True))"
    using rd_one_pdu [OF len(1), of "n_id n" cnt ty "[]"] len f0 s1(1)
    by (cases "n_state n = NBR_STA_OPER") (simp_all add: session_pdu_def u Let_def not_less arith del: of_nat_add)
  show ?thesis
  proof (rule that [OF e1], subst pdu_loop.simps, unfold get bindE_simps option.case prod.case pdu msg_loop_one [OF len(1) eff_find [OF e1]],
      cases "unexpected (n_state n) ty", goal_cases)
    case 1
    then show ?case by (cases "session_shutdown s1 p S_SHUTDOWN (ntohl (cnt + 1)) (ntohs ty)") simp_all
  next
    case 2
    then show ?case by (auto simp: bindE_assoc intro!: bindE_cong)
  qed
qed

section \<open>The initialization message\<close>

lemma init_decode_body:
  assumes "MIN_KEEPALIVE \<le> ka"
  shows "init_decode r (one_msg cnt MSG_TYPE_INIT (init_body ka r)) 26 = Inr ([], Some (ka, 0))"
proof -
  have m: "rd_msg (one_msg cnt MSG_TYPE_INIT (init_body ka r)) =
      Inr \<lparr>msg_type = htons MSG_TYPE_INIT, msg_length = htons 22, msg_id = htonl (cnt + 1)\<rparr>"
    using rd_one_msg [of "init_body ka r" cnt MSG_TYPE_INIT "[]"] by simp
  have b: "rd16 (init_body ka r) 2 = Inr (htons 14)" "rd16 (init_body ka r) 4 = Inr (htons LDP_VERSION)"
    "rd16 (init_body ka r) 6 = Inr (htons ka)" "rd16 (init_body ka r) 10 = Inr 0" "rd32 (init_body ka r) 12 = Inr r"
    "rd16 (init_body ka r) 16 = Inr 0"
    by (simp_all add: init_body_def tlv_hdr_def hton16_def rd_defs nth_append store16_def store32_def load32_store)
  have z: "ntohs 0 = 0" by code_simp
  have o: "init_opt_loop msg [] 0 = Inr ([], Some ())" for msg by (subst init_opt_loop.simps) simp
  have d: "drop 18 (init_body ka r) = []" by simp
  show ?thesis
    using leD [OF assms] by (simp add: init_decode_def m Let_def sub16_def b z o d)
qed

lemma keepalive_erase: "erase t = erase s \<Longrightarrow> nbr_get_keepalive t af i = nbr_get_keepalive s af i"
proof -
  assume e: "erase t = erase s"
  have "ldp_af_conf_get t af = ldp_af_conf_get s af"
    using erase_fields(2,3) [OF e] by (cases af) (simp_all add: ldp_af_conf_get_def)
  then show ?thesis using erase_fields(4) [OF e] by (simp add: nbr_get_keepalive_def nbr_params_find_def split: option.split)
qed

definition negotiated :: "nbr \<Rightarrow> u16 \<Rightarrow> nbr" where
  "negotiated n k = n\<lparr>n_keepalive := k, n_max_pdu_len := 4096\<rparr>"

lemma negotiated_simps [simp]:
  "n_tcp (negotiated n k) = n_tcp n" "n_state (negotiated n k) = n_state n" "n_id (negotiated n k) = n_id n"
  "n_af (negotiated n k) = n_af n" "n_keepalive (negotiated n k) = k" "n_max_pdu_len (negotiated n k) = 4096"
  "n_peerid (negotiated n k) = n_peerid n" "nbr_core (negotiated n k) = nbr_core n"
  by (simp_all add: negotiated_def nbr_core_def)

text \<open>What is put on the connection in answer to an initialization message.\<close>

definition init_answer :: "ldpe \<Rightarrow> nbr \<Rightarrow> u16 \<Rightarrow> u32 \<Rightarrow> bytes list" where
  "init_answer s n ours cnt =
     (if n_state n = NBR_STA_INITIAL
      then [one_pdu (e_rtr_id s) cnt MSG_TYPE_INIT (init_body ours (n_id n)), one_pdu (e_rtr_id s) (cnt + 1) MSG_TYPE_KEEPALIVE []]
      else [one_pdu (e_rtr_id s) cnt MSG_TYPE_KEEPALIVE []])"

lemma fsm_init_rcvd:
  assumes n: "rb_find (e_nbrs s) p = Some n" and c: "n_tcp n = Some c" and af: "n_af n \<noteq> AF_UNSPEC"
    and st: "n_state n = NBR_STA_INITIAL \<or> n_state n = NBR_STA_OPENSENT"
    and ka: "nbr_get_keepalive s (n_af n) (n_id n) = Inr ours"
  obtains t where "nbr_fsm s p NBR_EVT_INIT_RCVD = Inr t"
    "eff p s (fst (fsm_nbr n NBR_EVT_INIT_RCVD)) (snd (fsm_nbr n NBR_EVT_INIT_RCVD)) t"
    "e_out t = e_out s @ map (Out_pdu (tcp_fd c)) (init_answer s n ours (e_msgcnt s))"
proof -
  let ?s = "fsm_enter s p NBR_STA_OPENREC"
  have e: "eff p s (entered n NBR_STA_OPENREC) [] ?s" by (rule fsm_enter_eff [OF n])
  have f: "rb_find (e_nbrs ?s) p = Some (entered n NBR_STA_OPENREC)" by (rule eff_find [OF e])
  have same: "e_rtr_id ?s = e_rtr_id s" "e_msgcnt ?s = e_msgcnt s" "e_out ?s = e_out s"
    by (simp_all add: fsm_enter_def Let_def timer_defs upd_n_def)
  have k: "nbr_get_keepalive ?s (n_af n) (n_id n) = Inr ours" using ka keepalive_erase [OF eff_erase [OF e]] by simp
  have i: "n_id (entered n NBR_STA_OPENREC) = n_id n" by (simp add: entered_def)
  obtain t where t: "nbr_fsm s p NBR_EVT_INIT_RCVD = Inr t"
      "eff p s (fst (fsm_nbr n NBR_EVT_INIT_RCVD)) (snd (fsm_nbr n NBR_EVT_INIT_RCVD)) t"
    using nbr_fsm_eff [OF n, of NBR_EVT_INIT_RCVD] af c by (auto simp: okE_def fsm_ready_def)
  have "e_out t = e_out s @ map (Out_pdu (tcp_fd c)) (init_answer s n ours (e_msgcnt s))"
  proof (cases "n_state n = NBR_STA_INITIAL")
    case True
    have f1: "rb_find (e_nbrs (eout (?s\<lparr>e_msgcnt := x\<rparr>) o1)) p = Some (entered n NBR_STA_OPENREC)" for x o1
      using f by (simp add: eout_def)
    have "nbr_fsm s p NBR_EVT_INIT_RCVD = bindE (send_init ?s p) (\<lambda>s1. send_keepalive s1 p)"
      using True by (simp add: nbr_fsm_step [OF n] nbr_fsm_action_def)
    also have "\<dots> = send_keepalive (eout (?s\<lparr>e_msgcnt := e_msgcnt s + 1\<rparr>) (Out_pdu (tcp_fd c)
        (one_pdu (e_rtr_id s) (e_msgcnt s) MSG_TYPE_INIT (init_body ours (n_id n))))) p"
      using send_init_pdu [OF f, of c ours] c k by (simp add: same i)
    finally show ?thesis
      using t(1) True c send_keepalive_pdu [OF f1, of c] by (auto simp: same init_answer_def eout_def)
  next
    case False
    then have o: "n_state n = NBR_STA_OPENSENT" using st by simp
    have f1: "rb_find (e_nbrs (nbr_start_ktimeout ?s p)) p = Some ((entered n NBR_STA_OPENREC)\<lparr>n_keepalive_timeout := Some (unat (n_keepalive n))\<rparr>)"
      using f by (simp add: timer_defs)
    have "nbr_fsm s p NBR_EVT_INIT_RCVD = send_keepalive (nbr_start_ktimeout ?s p) p"
      using o by (simp add: nbr_fsm_step [OF n] nbr_fsm_action_def)
    then show ?thesis
      using t(1) o c send_keepalive_pdu [OF f1, of c] by (auto simp: same init_answer_def eout_def timer_defs upd_n_def)
  qed
  with t show ?thesis by (rule that)
qed

lemma negotiate_0: "negotiate_pdu_len 0 = 4096"
  by (simp add: negotiate_pdu_len_def const_defs)

lemma read_init:
  assumes inv: "sess_inv s" and n: "rb_find (e_nbrs s) p = Some n" and c: "n_tcp n = Some c"
    and st: "n_state n = NBR_STA_INITIAL \<or> n_state n = NBR_STA_OPENSENT"
    and ours: "nbr_get_keepalive s (n_af n) (n_id n) = Inr ours" and ka: "MIN_KEEPALIVE \<le> ka"
  obtains t m cnt' where "pdu_loop s p (one_pdu (n_id n) cnt MSG_TYPE_INIT (init_body ka (e_rtr_id s)) @ rest) = pdu_loop t p rest"
    "stays s t" "rb_find (e_nbrs t) p = Some m" "n_state m = NBR_STA_OPENREC" "n_tcp m = Some (c\<lparr>tcp_rbuf := rest\<rparr>)"
    "n_keepalive m = min ours ka" "n_max_pdu_len m = 4096" "nbr_core m = nbr_core n" "erase t = erase s"
    "e_out t = e_out s @ map (Out_pdu (tcp_fd c)) (init_answer s n ours cnt')"
proof -
  let ?b = "init_body ka (e_rtr_id s)" and ?n1 = "with_rbuf n rest" and ?k = "min ours ka"
  have ok: "nbr_ok n" using inv_nbr [OF inv n] .
  have pre: "n_state n \<noteq> NBR_STA_PRESENT" "length ?b \<le> 4000" "n_state n = NBR_STA_OPER \<longrightarrow> 14 + length ?b \<le> unat (n_max_pdu_len n)"
    using st by auto
  obtain s1 where e1: "eff p s ?n1 [] s1" and read: "pdu_loop s p (one_pdu (n_id n) cnt MSG_TYPE_INIT ?b @ rest) =
      (if unexpected (n_state n) MSG_TYPE_INIT then session_shutdown s1 p S_SHUTDOWN (htonl (cnt + 1)) (htons MSG_TYPE_INIT)
       else bindE (recv_msg s1 p (one_msg cnt MSG_TYPE_INIT ?b) (8 + length ?b)
         \<lparr>msg_type = htons MSG_TYPE_INIT, msg_length = htons (of_nat (4 + length ?b)), msg_id = htonl (cnt + 1)\<rparr>) (\<lambda>(s2, ok).
         if \<not> ok then Inr s2
         else bindE (get_nbr s2 p) (\<lambda>m. if n_tcp m = None then Inl UseAfterFree else pdu_loop s2 p rest)))"
    by (rule pdu_loop_pdu [OF inv n pre])
  have same: "e_rtr_id s1 = e_rtr_id s" "nbr_get_keepalive s1 (n_af n) (n_id n) = Inr ours"
    using erase_fields(1) [OF eff_erase [OF e1]] keepalive_erase [OF eff_erase [OF e1]] ours by simp_all
  let ?s2 = "upd_n s1 p (\<lambda>n. negotiated n ?k)"
  have e2: "eff p s1 (negotiated ?n1 ?k) [] ?s2" by (rule eff_upd_n [OF eff_find [OF e1]])
  have e12: "eff p s (negotiated ?n1 ?k) [] ?s2" using eff_trans [OF e1 e2] by simp
  have c1: "n_tcp (negotiated ?n1 ?k) = Some (c\<lparr>tcp_rbuf := rest\<rparr>)" using c by (simp add: with_rbuf_def)
  obtain t where t: "nbr_fsm ?s2 p NBR_EVT_INIT_RCVD = Inr t"
    and et: "eff p ?s2 (fst (fsm_nbr (negotiated ?n1 ?k) NBR_EVT_INIT_RCVD)) (snd (fsm_nbr (negotiated ?n1 ?k) NBR_EVT_INIT_RCVD)) t"
    and ot: "e_out t = e_out ?s2 @ map (Out_pdu (tcp_fd (c\<lparr>tcp_rbuf := rest\<rparr>))) (init_answer ?s2 (negotiated ?n1 ?k) ours (e_msgcnt ?s2))"
    by (rule fsm_init_rcvd [OF eff_find [OF e2] c1, where ours = ours])
      (use ok st same(2) keepalive_erase [OF eff_erase [OF e2]] in \<open>simp_all add: nbr_ok_def\<close>)
  let ?m = "fst (fsm_nbr (negotiated ?n1 ?k) NBR_EVT_INIT_RCVD)"
  have m: "n_state ?m = NBR_STA_OPENREC" "n_tcp ?m = Some (c\<lparr>tcp_rbuf := rest\<rparr>)" "n_keepalive ?m = ?k" "n_max_pdu_len ?m = 4096"
    "nbr_core ?m = nbr_core n" using st c1 by (auto simp: fsm_nbr_def nbr_core_def with_rbuf_def negotiated_def)
  have recv: "recv_msg s1 p (one_msg cnt MSG_TYPE_INIT ?b) 26 msg = Inr (t, True)" if "msg_type msg = htons MSG_TYPE_INIT" for msg
    using eff_find [OF e1] same init_decode_body [OF ka, of "e_rtr_id s" cnt] t that
    by (simp add: recv_msg_def recv_init_def run_dec_def negotiate_0 negotiated_def const_defs Let_def)
  have et': "eff p s ?m (snd (fsm_nbr (negotiated ?n1 ?k) NBR_EVT_INIT_RCVD)) t" using eff_trans [OF e12 et] by simp
  have ok2: "nbr_ok (negotiated ?n1 ?k)" using ok st by (auto simp: nbr_ok_def timers_ok_def queues_ok_def negotiated_def with_rbuf_def)
  have "stays s t"
    by (rule stays_eff [OF inv n et' fsm_nbr_ok [OF ok2]]) (use st in \<open>auto simp: fsm_nbr_def nbr_core_def with_rbuf_def negotiated_def\<close>)
  moreover have "unexpected (n_state n) MSG_TYPE_INIT = False" using st by (auto simp: unexpected_def)
  moreover have "init_answer ?s2 (negotiated ?n1 ?k) ours (e_msgcnt ?s2) = init_answer s n ours (e_msgcnt ?s2)"
    using same(1) by (simp add: init_answer_def upd_n_def)
  moreover have "e_out ?s2 = e_out s" using e12 by (auto simp: eff_def)
  ultimately show ?thesis
    using that [OF _ _ eff_find [OF et'] m eff_erase [OF et'], of "e_msgcnt ?s2"] ot read recv eff_find [OF et'] m(2) by simp
qed

section \<open>The keepalive message\<close>

lemma read_keepalive:
  assumes inv: "sess_inv s" and n: "rb_find (e_nbrs s) p = Some n" and c: "n_tcp n = Some c"
    and st: "n_state n = NBR_STA_OPENREC" and room: "e_peercnt s \<noteq> -1"
  obtains t m outs where "pdu_loop s p (one_pdu (n_id n) cnt MSG_TYPE_KEEPALIVE [] @ rest) = pdu_loop t p rest"
    "stays s t" "rb_find (e_nbrs t) p = Some m" "n_state m = NBR_STA_OPER" "n_keepalive m = n_keepalive n"
    "n_max_pdu_len m = n_max_pdu_len n" "n_peerid m = e_peercnt s + 1" "e_out t = e_out s @ outs"
    "Out_lde (e_peercnt s + 1) (NEIGHBOR_UP (n_id n) (n_v4_enabled n) (n_v6_enabled n)) \<in> set outs"
proof -
  let ?n1 = "with_rbuf n rest"
  have ok: "nbr_ok n" using inv_nbr [OF inv n] .
  have pre: "n_state n \<noteq> NBR_STA_PRESENT" "length ([] :: bytes) \<le> 4000" "n_state n = NBR_STA_OPER \<longrightarrow> 14 + length ([] :: bytes) \<le> unat (n_max_pdu_len n)"
    using st by auto
  obtain s1 where e1: "eff p s ?n1 [] s1" and read: "pdu_loop s p (one_pdu (n_id n) cnt MSG_TYPE_KEEPALIVE [] @ rest) =
      (if unexpected (n_state n) MSG_TYPE_KEEPALIVE then session_shutdown s1 p S_SHUTDOWN (htonl (cnt + 1)) (htons MSG_TYPE_KEEPALIVE)
       else bindE (recv_msg s1 p (one_msg cnt MSG_TYPE_KEEPALIVE []) (8 + length ([] :: bytes))
         \<lparr>msg_type = htons MSG_TYPE_KEEPALIVE, msg_length = htons (of_nat (4 + length ([] :: bytes))), msg_id = htonl (cnt + 1)\<rparr>) (\<lambda>(s2, ok).
         if \<not> ok then Inr s2
         else bindE (get_nbr s2 p) (\<lambda>m. if n_tcp m = None then Inl UseAfterFree else pdu_loop s2 p rest)))"
    by (rule pdu_loop_pdu [OF inv n pre])
  have st1: "stays s s1" by (rule stays_eff [OF inv n e1]) (use ok in simp_all)
  note inv1 = stays_inv [OF st1] and f1 = eff_find [OF e1]
  have cnt1: "e_peercnt s1 = e_peercnt s" using erase_fields(6) [OF eff_erase [OF e1]] .
  obtain t where t: "nbr_fsm s1 p NBR_EVT_KEEPALIVE_RCVD = Inr t" and est: "est p s1 ?n1 t"
    using nbr_fsm_est [OF f1, OF nbr_ok_ready _ inv_pids [OF inv1] _ inv_addrs [OF inv1]] ok st room
    by (auto simp: okE_def cnt1)
  have m: "rb_find (e_nbrs t) p = Some (opened ?n1 (e_peercnt s + 1))" using est by (simp add: est_def Let_def cnt1)
  have "stays s1 t" by (rule est_stays [OF inv1 f1 _ _ _ est]) (use c st room in \<open>simp_all add: with_rbuf_def cnt1\<close>)
  with st1 have stt: "stays s t" by (rule stays_trans)
  have recv: "recv_msg s1 p (one_msg cnt MSG_TYPE_KEEPALIVE []) 8 msg = Inr (t, True)" if "msg_type msg = htons MSG_TYPE_KEEPALIVE" for msg
    using f1 st t that rd_one_msg [of "[]" cnt MSG_TYPE_KEEPALIVE "[]"]
    by (simp add: recv_msg_def recv_keepalive_def run_dec_def const_defs Let_def)
  obtain outs mm where o: "e_out t = e_out s1 @ outs" "map out_kind outs = K_out (Out_lde (e_peercnt s + 1) (NEIGHBOR_UP (n_id n) (n_v4_enabled n) (n_v6_enabled n))) # mm"
    using est by (auto simp: est_def Let_def cnt1)
  then obtain x xs where x: "outs = x # xs" by (cases outs) auto
  with o(2) have x1: "x = Out_lde (e_peercnt s + 1) (NEIGHBOR_UP (n_id n) (n_v4_enabled n) (n_v6_enabled n))"
    by (cases x) (auto simp: out_kind_def)
  have "e_out s1 = e_out s" using e1 by (auto simp: eff_def)
  moreover have "unexpected (n_state n) MSG_TYPE_KEEPALIVE = False" using st by (simp add: unexpected_def const_defs)
  moreover have "n_tcp (with_rbuf n rest) = Some (c\<lparr>tcp_rbuf := rest\<rparr>)" using c by (simp add: with_rbuf_def)
  ultimately show ?thesis
    using that [OF _ stt m, of outs] read recv m o(1) x x1 by (simp add: opened_def)
qed

section \<open>Two ends\<close>

lemma pdu_loop_nil: "pdu_loop s p [] = Inr (set_rbuf s p [])"
  by (subst pdu_loop.simps) (simp add: session_get_pdu_def)

end
