(* ===== verification/Ldpe_Demo.thy ===== *)
theory Ldpe_Demo
  imports Ldpe_Reach
begin

text \<open>
  A run of the protocol engine: a configuration with one interface arrives, a hello of fe80::2 on that
  interface makes an adjacency and a neighbour, and the neighbour's connection is accepted.
\<close>

definition demo_sys :: sys where
  "demo_sys = \<lparr>sys_socket = \<lambda>_. -1, sys_set_md5 = \<lambda>_. True, sys_bind = \<lambda>_. True, sys_minttl = \<lambda>_. True,
     sys_ucast_ttl = \<lambda>_. True, sys_connect = \<lambda>_. In_progress, sys_join = \<lambda>_ _. True, sys_get_md5 = \<lambda>_. Some True,
     sys_sa_add = \<lambda>_ _. Some 1, sys_sa_remove = \<lambda>_ _. True\<rparr>"

lemma demo_sys_ok: "sys_ok demo_sys"
  by (simp add: sys_ok_def demo_sys_def)

definition demo_iface :: iface where
  "demo_iface = \<lparr>if_name = ''em0'', if_ifindex = 1, if_addr_list = [], if_linklocal = replicate 16 0,
     if_kind = IF_TYPE_BROADCAST, if_if_type = 6, if_flags = 0, if_linkstate = 4, if_ipv4 = new_iface_af,
     if_ipv6 = new_iface_af\<lparr>ia_enabled := True, ia_hello_holdtime := 45\<rparr>\<rparr>"

definition demo_peer :: ldpd_addr where
  "demo_peer = [0xfe, 0x80, 0, 0, 0, 0, 0, 0, 0, 0, 0, 0, 0, 0, 0, 2]"

definition demo_hello :: bytes where
  "demo_hello = [0, 1, 0, 22, 10, 0, 0, 2, 0, 0] @ [1, 0, 0, 12, 0, 0, 0, 1] @ [4, 0, 0, 4, 0, 45, 0, 0]"

section \<open>The configuration\<close>

definition demo_conf :: ldpd_conf where
  "demo_conf = config_new_empty\<lparr>xc_iface_list := [demo_iface]\<rparr>"

definition demo_1 :: ldpe where
  "demo_1 = (pr_engine (ldpe_start True True))\<lparr>e_iface_list := [1], e_ifaces := [1 \<mapsto> demo_iface], e_conf_seqnum := 1\<rparr>"

definition demo_proc :: "ldpe \<Rightarrow> ldpe_proc" where
  "demo_proc s = \<lparr>pr_engine = s, pr_l2vpn_list = [], pr_nconf = None\<rparr>"

abbreviation (input) "demo_a \<equiv> (ldpe_start True True)\<lparr>pr_nconf := Some config_new_empty\<rparr>"
abbreviation (input) "demo_b \<equiv> (ldpe_start True True)\<lparr>pr_nconf := Some demo_conf\<rparr>"

lemma demo_clean: "clean_iface demo_iface = demo_iface"
  by (simp add: clean_iface_def demo_iface_def new_iface_af_def)

lemma demo_reconf:
  "proc_handle demo_sys (On_reconf (RECONF_CONF config_new_empty)) (ldpe_start True True) = Inr demo_a"
  "proc_handle demo_sys (On_reconf (RECONF_IFACE demo_iface)) demo_a = Inr demo_b"
  "proc_handle demo_sys (On_reconf RECONF_END) demo_b = Inr (demo_proc demo_1)"
  by (simp_all add: proc_handle_def ldpe_reconf_def with_nconf_def demo_clean merge_config_def merge_global_def merge_af_def
      merge_ifaces_def merge_tnbrs_def merge_nbrps_def merge_l2vpns_def demo_conf_def config_new_empty_def ldpe_start_def
      Let_def demo_proc_def demo_1_def empty_af_conf_def upd_af_def ldp_af_conf_get_def merge_iface_def if_lookup_def
      add_iface_def iface_refs_def fresh_id_def ldp_addrcmp_refl)

lemma demo_1_reachable: "ldpe_reachable (demo_proc demo_1)"
proof -
  have "ldpe_reachable demo_a"
    by (rule ldpe_reachable.step [OF ldpe_reachable.start demo_sys_ok _ demo_reconf(1)]) (simp add: proc_allowed_def reconf_ok_def)
  then have "ldpe_reachable demo_b"
    by (rule ldpe_reachable.step [OF _ demo_sys_ok _ demo_reconf(2)]) (simp add: proc_allowed_def reconf_ok_def)
  then show ?thesis
    by (rule ldpe_reachable.step [OF _ demo_sys_ok _ demo_reconf(3)])
      (simp add: proc_allowed_def reconf_ok_def links_quiet_def conf_ids_def demo_conf_def config_new_empty_def ldpe_start_def Let_def)
qed

section \<open>The hello\<close>

definition demo_adj :: adj where
  "demo_adj = \<lparr>a_lsr_id = 0x0200000a, a_nbr = Some 0x0a000002, a_ds_tlv = False, a_source = HELLO_LINK 1 AF_INET6 demo_peer,
     a_inactivity_timer = Some 45, a_holdtime = 45, a_trans_addr = demo_peer\<rparr>"

definition demo_nbr6 :: nbr where
  "demo_nbr6 = new_nbr 0x0200000a AF_INET6 False demo_peer 1 (replicate 16 0) [1]"

lemma demo_ntohl: "ntohl 0x0200000a = 0x0a000002"
  by code_simp

lemma demo_packet:
  "bad_addr AF_INET6 demo_peer = Inr False" "IN6_IS_ADDR_LINKLOCAL demo_peer" "IN6_IS_SCOPE_EMBED demo_peer"
  "rd16 demo_hello 0 = Inr (htons LDP_VERSION)" "rd16 demo_hello 2 = Inr (htons 22)" "rd32 demo_hello 4 = Inr 0x0200000a"
  "rd16 demo_hello 8 = Inr 0" "length demo_hello = 26"
  "rd_msg (drop 10 demo_hello) = Inr \<lparr>msg_type = htons MSG_TYPE_HELLO, msg_length = htons 12, msg_id = htonl 1\<rparr>"
  "tlv_decode_hello_prms (drop 18 demo_hello) 8 = Inr (Some (8, 45, 0))" "drop 26 demo_hello = []" "ntohs 0 = 0"
  "has_flag (0 :: u16) F_HELLO_TARGETED = False" "has_flag (0 :: u32) F_HELLO_TLV_RCVD_ADDR = False" "has_flag (0 :: u32) F_HELLO_TLV_RCVD_DS = False"
  "has_flag (0 :: u32) F_HELLO_TLV_RCVD_CONF = False" "has_flag (0 :: u16) F_HELLO_GTSM = False" "\<not> 45 < MIN_HOLDTIME" "45 \<noteq> INFINITE_HOLDTIME"
  by code_simp+

lemma hello_no_opts: "tlv_decode_opt_hello_prms s [] 0 af =
    Inr (Some (0, \<lparr>ho_tlvs_rcvd = 0, ho_addr = replicate 16 0, ho_conf_number = 0, ho_trans_pref = 0\<rparr>))"
  unfolding tlv_decode_opt_hello_prms_def by (subst hello_opt_loop.simps) simp

lemma demo_find_iface: "disc_find_iface demo_1 1 AF_INET6 demo_peer True = Inr (Some 1)"
  by (simp add: disc_find_iface_def if_lookup_def demo_1_def get_iface_def demo_iface_def demo_packet)

lemma demo_fits: "ids_fit demo_1 0x0200000a" "nbr_find_ldpid demo_1 0x0200000a = Inr None"
proof -
  have n: "e_nbrs demo_1 = rb_init" by (simp add: demo_1_def ldpe_start_def Let_def)
  then have "nbr_ids demo_1 = {}" by (auto simp: nbr_ids_iff)
  then show "ids_fit demo_1 0x0200000a" by (simp add: ids_fit_def ids_ordered_def nbr_id_compare_def)
  then show "nbr_find_ldpid demo_1 0x0200000a = Inr None" by (simp add: nbr_find_ldpid_def n)
qed

lemma demo_hello_handled:
  "\<exists>s. disc_recv_packet demo_sys demo_1 AF_INET6 demo_peer 1 True demo_hello = Inr s \<and>
    rb_find (e_nbrs s) 0x0a000002 = Some demo_nbr6 \<and> e_adjs s 1 = Some demo_adj \<and>
    nbr_find_addr s AF_INET6 demo_peer = Some 0x0a000002 \<and> e_nbrp_list s = [] \<and> e_ipv6 s = empty_af_conf \<and>
    e_rtr_id s = 0 \<and> e_peercnt s = 1"
proof -
  have f: "e_ifaces demo_1 = [1 \<mapsto> demo_iface]" "e_nbrs demo_1 = rb_init" "e_adj_list demo_1 = []" "e_nbrs_by_addr demo_1 = rb_init"
    "if_ifindex demo_iface = 1" "e_adjs demo_1 = Map.empty" "e_nbrp_list demo_1 = []" "e_ipv6 demo_1 = empty_af_conf"
    "e_pending_conns demo_1 = []" "e_rtr_id demo_1 = 0" "e_peercnt demo_1 = 1"
    by (simp_all add: demo_1_def ldpe_start_def Let_def demo_iface_def config_new_empty_def)
  have src: "hello_source_of demo_sys demo_1 AF_INET6 demo_peer 1 0 = Inr (demo_1, Some (HELLO_LINK 1 AF_INET6 demo_peer))"
    by (simp add: hello_source_of_def demo_packet get_ia_def get_iface_def f iface_af_get_def)
  have chk: "hello_checks demo_sys demo_1 msg AF_INET6 \<lparr>ho_tlvs_rcvd = 0, ho_addr = ad, ho_conf_number = 0, ho_trans_pref = 0\<rparr>
     demo_peer 1 None None = Inr None" for msg ad
    by (simp add: hello_checks_def demo_packet nbr_find_addr_def f)
  have fnd: "adj_find demo_1 (HELLO_LINK 1 AF_INET6 demo_peer) = Inr None" by (simp add: adj_find_def f)
  have ldp: "nbr_find_ldpid demo_1 0x0200000a = Inr None" by (rule demo_fits(2))
  let ?acc = "hello_accepted demo_sys demo_1 0x0200000a AF_INET6 45 0 \<lparr>ho_tlvs_rcvd = 0, ho_addr = replicate 16 0, ho_conf_number = 0, ho_trans_pref = 0\<rparr>
      (HELLO_LINK 1 AF_INET6 demo_peer) demo_peer 1 None None"
  have r: "disc_recv_packet demo_sys demo_1 AF_INET6 demo_peer 1 True demo_hello = ?acc"
    by (simp add: disc_recv_packet_def demo_packet demo_find_iface Let_def recv_hello_def hello_no_opts get_iface_def f src fnd ldp chk del: One_nat_def)
  have v: "ldp_addrcmp AF_INET6 (ac_trans_addr empty_af_conf) demo_peer = Inr (-254)" "ac_trans_addr empty_af_conf = replicate 16 0"
    "ia_hello_holdtime (if_ipv6 demo_iface) = 45" "clear_flag (0 :: u32) F_NBR_GTSM_NEGOTIATED = 0" by code_simp+
  have "\<exists>s. ?acc = Inr s \<and> rb_find (e_nbrs s) 0x0a000002 = Some demo_nbr6 \<and> e_adjs s 1 = Some demo_adj \<and>
    nbr_find_addr s AF_INET6 demo_peer = Some 0x0a000002 \<and> e_nbrp_list s = [] \<and> e_ipv6 s = empty_af_conf \<and>
    e_rtr_id s = 0 \<and> e_peercnt s = 1"
    by (simp add: hello_accepted_def adj_new_def Let_def f fresh_id_def get_ia_def get_iface_def iface_af_get_def upd_ia_def upd_if_def
      makes_nbr_def demo_packet nbr_new_def ldp_af_conf_get_def adjs_of_def nbr_insert_def upd_adj_def nbr_params_find_def demo_ntohl pending_conn_find_def
      upd_nbr_hello_def adj_holdtime_def set_holdtime_def adj_start_itimer_def nbr_pending_idtimer_def
      nbr_session_active_role_def nbr_find_addr_def split_beta upd_n_def new_nbr_def demo_nbr6_def demo_adj_def v(1,3,4))
      (simp add: v(2))
  with r show ?thesis by simp
qed

section \<open>The connection\<close>

lemma demo_accepted:
  assumes n: "rb_find (e_nbrs s) 0x0a000002 = Some demo_nbr6" and a: "nbr_find_addr s AF_INET6 demo_peer = Some 0x0a000002"
    and c: "e_nbrp_list s = []" "e_ipv6 s = empty_af_conf" "e_rtr_id s = 0" "e_peercnt s = 1"
  shows "\<exists>t n'. session_accept demo_sys (Accepted 9 AF_INET6 demo_peer) s = Inr t \<and> rb_find (e_nbrs t) 0x0a000002 = Some n' \<and>
    n_state n' = NBR_STA_INITIAL \<and> n_af n' = AF_INET6 \<and> n_raddr n' = demo_peer \<and> n_id n' = 0x0200000a \<and> e_adjs t = e_adjs s \<and>
    n_tcp n' = Some \<lparr>tcp_fd = 9, tcp_rbuf = []\<rparr> \<and> e_nbrp_list t = [] \<and> e_ipv6 t = empty_af_conf \<and> e_rtr_id t = 0 \<and> e_peercnt t = 1"
proof -
  have n6: "n_id demo_nbr6 = 0x0200000a" "n_af demo_nbr6 = AF_INET6" "n_state demo_nbr6 = NBR_STA_PRESENT" "n_laddr demo_nbr6 = replicate 16 0"
    "n_raddr demo_nbr6 = demo_peer" by (simp_all add: demo_nbr6_def new_nbr_def)
  have role: "nbr_session_active_role demo_nbr6 = Inr False" by code_simp
  have gtsm: "\<exists>u. nbr_gtsm_check demo_sys s 9 0x0a000002 None = Inr (u, True) \<and> rb_find (e_nbrs u) 0x0a000002 = Some demo_nbr6 \<and> e_adjs u = e_adjs s \<and>
      e_nbrp_list u = [] \<and> e_ipv6 u = empty_af_conf \<and> e_rtr_id u = 0 \<and> e_peercnt u = 1"
    using n c
    by (auto simp: nbr_gtsm_check_def nbr_gtsm_enabled_def nbr_gtsm_setup_def n6 ldp_af_conf_get_def demo_sys_def eout_def split: if_splits)
  then obtain u where u: "nbr_gtsm_check demo_sys s 9 0x0a000002 None = Inr (u, True)" "rb_find (e_nbrs u) 0x0a000002 = Some demo_nbr6"
    "e_adjs u = e_adjs s" "e_nbrp_list u = []" "e_ipv6 u = empty_af_conf" "e_rtr_id u = 0" "e_peercnt u = 1" by blast
  let ?m = "demo_nbr6\<lparr>n_tcp := Some \<lparr>tcp_fd = 9, tcp_rbuf = []\<rparr>\<rparr>"
  have m: "rb_find (e_nbrs (tcp_new u 9 0x0a000002)) 0x0a000002 = Some ?m" "e_adjs (tcp_new u 9 0x0a000002) = e_adjs s"
    "e_nbrp_list (tcp_new u 9 0x0a000002) = []" "e_ipv6 (tcp_new u 9 0x0a000002) = empty_af_conf"
    "e_rtr_id (tcp_new u 9 0x0a000002) = 0" "e_peercnt (tcp_new u 9 0x0a000002) = 1"
    using u by (simp_all add: tcp_new_def upd_n_def)
  have "session_accept demo_sys (Accepted 9 AF_INET6 demo_peer) s = nbr_fsm (tcp_new u 9 0x0a000002) 0x0a000002 NBR_EVT_MATCH_ADJ"
    using n a u(1) role by (simp add: session_accept_def session_accept_nbr_def n6 nbr_params_find_def c wants_md5_def Let_def)
  moreover obtain t where "nbr_fsm (tcp_new u 9 0x0a000002) 0x0a000002 NBR_EVT_MATCH_ADJ = Inr t"
    "eff 0x0a000002 (tcp_new u 9 0x0a000002) (?m\<lparr>n_state := NBR_STA_INITIAL, n_init_timeout := Some INIT_FSM_TIMEOUT\<rparr>) [] t"
    using nbr_fsm_eff [OF m(1), of NBR_EVT_MATCH_ADJ] by (auto simp: okE_def fsm_ready_def n6 fsm_nbr_def)
  ultimately show ?thesis
    using erase_fields(1,3,4,6,9) [OF eff_erase] m(2-6) by (intro exI [of _ t] exI) (auto simp: eff_find n6)
qed

lemma demo_run:
  obtains pr n where "ldpe_reachable pr" "rb_find (e_nbrs (pr_engine pr)) 0x0a000002 = Some n" "n_state n = NBR_STA_INITIAL"
    "n_af n = AF_INET6" "n_raddr n = demo_peer" "n_id n = 0x0200000a" "e_adjs (pr_engine pr) 1 = Some demo_adj"
    "n_tcp n = Some \<lparr>tcp_fd = 9, tcp_rbuf = []\<rparr>" "e_nbrp_list (pr_engine pr) = []" "e_ipv6 (pr_engine pr) = empty_af_conf"
    "e_rtr_id (pr_engine pr) = 0" "e_peercnt (pr_engine pr) = 1"
proof -
  obtain s where s: "disc_recv_packet demo_sys demo_1 AF_INET6 demo_peer 1 True demo_hello = Inr s"
    "rb_find (e_nbrs s) 0x0a000002 = Some demo_nbr6" "e_adjs s 1 = Some demo_adj"
    "nbr_find_addr s AF_INET6 demo_peer = Some 0x0a000002" "e_nbrp_list s = []" "e_ipv6 s = empty_af_conf" "e_rtr_id s = 0" "e_peercnt s = 1"
    using demo_hello_handled by blast
  have r1: "ldpe_reachable (demo_proc s)"
    by (rule ldpe_reachable.step [OF demo_1_reachable demo_sys_ok, of "On_engine (Ev_packet AF_INET6 demo_peer 1 True demo_hello)"])
      (simp_all add: proc_allowed_def ev_raised_def ev_harmless_def proc_handle_def ldpe_handle_def demo_proc_def s(1)
        packet_fits_def demo_packet demo_fits)
  obtain t n where t: "session_accept demo_sys (Accepted 9 AF_INET6 demo_peer) s = Inr t" and n: "rb_find (e_nbrs t) 0x0a000002 = Some n"
    "n_state n = NBR_STA_INITIAL" "n_af n = AF_INET6" "n_raddr n = demo_peer" "n_id n = 0x0200000a" "e_adjs t = e_adjs s"
    "n_tcp n = Some \<lparr>tcp_fd = 9, tcp_rbuf = []\<rparr>" "e_nbrp_list t = []" "e_ipv6 t = empty_af_conf" "e_rtr_id t = 0" "e_peercnt t = 1"
    using demo_accepted [OF s(2,4-8)] by blast
  have "ldpe_reachable (demo_proc t)"
    by (rule ldpe_reachable.step [OF r1 demo_sys_ok, of "On_engine (Ev_accept (Accepted 9 AF_INET6 demo_peer))"])
      (simp_all add: proc_allowed_def ev_raised_def ev_harmless_def proc_handle_def ldpe_handle_def demo_proc_def t)
  with n s(3) show ?thesis by (intro that [of "demo_proc t" n]) (simp_all add: demo_proc_def)
qed

end
