(* ===== verification/Ldpe_Theorems.thy ===== *)
theory Ldpe_Theorems
  imports Ldpe_Handshake Ldpe_Demo
begin

text \<open>
  The properties of the protocol engine: it does not fault, its tables stay consistent, its sessions
  follow the state machine of RFC 5036 and end when their timers fire, and it treats its peers as the
  protocol asks.
\<close>

section \<open>A session\<close>

text \<open>An engine with one neighbour, 10.0.0.2, whose session is operational.\<close>

definition demo_session :: nbr where
  "demo_session =
     (new_nbr 0x0200000a AF_INET False ([10, 0, 0, 2] @ replicate 12 0) 0 ([10, 0, 0, 1] @ replicate 12 0) [])
       \<lparr>n_tcp := Some \<lparr>tcp_fd = 9, tcp_rbuf = []\<rparr>, n_state := NBR_STA_OPER, n_peerid := 1, n_keepalive := 60,
        n_keepalive_timer := Some 20, n_keepalive_timeout := Some 60, n_max_pdu_len := 4096\<rparr>"

definition demo_engine :: "nbr \<Rightarrow> ldpe" where
  "demo_engine n = (pr_engine (ldpe_start True True))
     \<lparr>e_nbrs := fst (rb_insert rb_init 0x0a000002 n), e_nbrs_by_pid := fst (rb_insert rb_init 1 0x0a000002), e_peercnt := 1\<rparr>"

lemma demo_engine_find [simp]:
  "rb_find (e_nbrs (demo_engine n)) q = (if q = 0x0a000002 then Some n else None)"
  "rb_find (e_nbrs_by_pid (demo_engine n)) k = (if k = 1 then Some 0x0a000002 else None)"
  "e_peercnt (demo_engine n) = 1" "e_addr_list (demo_engine n) = []"
  by (simp_all add: demo_engine_def ldpe_start_def Let_def)

lemma demo_session_simps [simp]:
  "n_state demo_session = NBR_STA_OPER" "n_tcp demo_session = Some \<lparr>tcp_fd = 9, tcp_rbuf = []\<rparr>"
  "n_peerid demo_session = 1" "n_id demo_session = 0x0200000a" "n_af demo_session = AF_INET"
  "n_keepalive demo_session = 60" "n_init_timeout demo_session = None"
  "n_keepalive_timer demo_session = Some 20" "n_keepalive_timeout demo_session = Some 60"
  by (simp_all add: demo_session_def new_nbr_def)

lemma demo_session_ok: "nbr_ok demo_session"
  by (simp add: nbr_ok_def timers_ok_def queues_ok_def KEEPALIVE_PER_PERIOD_def) (simp add: demo_session_def new_nbr_def)

lemma demo_engine_inv: "nbr_ok n \<Longrightarrow> n_id n = 0x0200000a \<Longrightarrow> n_peerid n = 1 \<Longrightarrow> sess_inv (demo_engine n)"
proof -
  have "ntohl 0x0200000a = 0x0a000002" by code_simp
  then show "nbr_ok n \<Longrightarrow> n_id n = 0x0200000a \<Longrightarrow> n_peerid n = 1 \<Longrightarrow> sess_inv (demo_engine n)"
    by (auto simp: sess_inv_def pids_ok_def addrs_ok_def split: if_splits)
qed





section \<open>Safety\<close>






section \<open>The state machine of RFC 5036\<close>

text \<open>
  The session states and transitions of RFC 5036, section 2.5.4: what happens in a state, the types of
  the messages transmitted, and the next state.
\<close>

datatype rfc_state = NON_EXISTENT | INITIALIZED | OPENREC | OPENSENT | OPERATIONAL

datatype rfc_event =
    Tcp_established | Transmit_init | Receive_init | Receive_keepalive | Receive_other
  | Transmit_address | Error_close | Connection_lost

inductive rfc_step :: "rfc_state \<Rightarrow> rfc_event \<Rightarrow> u16 list \<Rightarrow> rfc_state \<Rightarrow> bool" where
  "rfc_step NON_EXISTENT Tcp_established [] INITIALIZED"
| "rfc_step INITIALIZED Transmit_init [MSG_TYPE_INIT] OPENSENT"
| "rfc_step INITIALIZED Receive_init [MSG_TYPE_INIT, MSG_TYPE_KEEPALIVE] OPENREC"
| "rfc_step OPENSENT Receive_init [MSG_TYPE_KEEPALIVE] OPENREC"
| "rfc_step OPENREC Receive_keepalive [] OPERATIONAL"
| "rfc_step OPERATIONAL Receive_other [] OPERATIONAL"
| "rfc_step OPERATIONAL Transmit_address [MSG_TYPE_ADDR] OPERATIONAL"
| "st \<noteq> NON_EXISTENT \<Longrightarrow> rfc_step st Error_close [MSG_TYPE_NOTIFICATION] NON_EXISTENT"
| "st \<noteq> NON_EXISTENT \<Longrightarrow> rfc_step st Connection_lost [] NON_EXISTENT"

inductive rfc_run :: "rfc_state \<Rightarrow> rfc_event list \<Rightarrow> u16 list \<Rightarrow> rfc_state \<Rightarrow> bool" where
  rfc_done: "rfc_run st [] [] st"
| rfc_go: "rfc_step st e out1 st1 \<Longrightarrow> rfc_run st1 es out2 st2 \<Longrightarrow> rfc_run st (e # es) (out1 @ out2) st2"

definition rfc_abs :: "nbr_state \<Rightarrow> rfc_state" where
  "rfc_abs st = (case st of NBR_STA_PRESENT \<Rightarrow> NON_EXISTENT | NBR_STA_INITIAL \<Rightarrow> INITIALIZED | NBR_STA_OPENREC \<Rightarrow> OPENREC
     | NBR_STA_OPENSENT \<Rightarrow> OPENSENT | NBR_STA_OPER \<Rightarrow> OPERATIONAL)"

text \<open>What an event of the daemon is in the RFC; an event that is out of place is ignored.\<close>

definition rfc_events :: "nbr_state \<Rightarrow> nbr_event \<Rightarrow> rfc_event list" where
  "rfc_events st ev =
     (case (ev, st) of
        (NBR_EVT_MATCH_ADJ, NBR_STA_PRESENT) \<Rightarrow> [Tcp_established]
      | (NBR_EVT_CONNECT_UP, NBR_STA_PRESENT) \<Rightarrow> [Tcp_established, Transmit_init]
      | (NBR_EVT_INIT_RCVD, NBR_STA_INITIAL) \<Rightarrow> [Receive_init]
      | (NBR_EVT_INIT_RCVD, NBR_STA_OPENSENT) \<Rightarrow> [Receive_init]
      | (NBR_EVT_KEEPALIVE_RCVD, NBR_STA_OPENREC) \<Rightarrow> [Receive_keepalive]
      | (NBR_EVT_PDU_RCVD, NBR_STA_OPER) \<Rightarrow> [Receive_other]
      | (NBR_EVT_CLOSE_SESSION, NBR_STA_PRESENT) \<Rightarrow> []
      | (NBR_EVT_CLOSE_SESSION, _) \<Rightarrow> [Connection_lost]
      | _ \<Rightarrow> [])"

text \<open>The types of the messages put on a connection.\<close>

definition sent_on :: "int \<Rightarrow> out_kind list \<Rightarrow> u16 list" where
  "sent_on fd ks = List.map_filter (\<lambda>k. case k of K_pdu f ty \<Rightarrow> if f = fd then Some ty else None | _ \<Rightarrow> None) ks"

lemma sent_on_simps [simp]:
  "sent_on fd [] = []" "sent_on fd (K_pdu f ty # ks) = (if f = fd then ty # sent_on fd ks else sent_on fd ks)"
  "sent_on fd (K_out x # ks) = sent_on fd ks" "sent_on fd (ks @ ks') = sent_on fd ks @ sent_on fd ks'"
  "sent_on fd (replicate m (K_pdu fd ty)) = replicate m ty"
  by (induction m) (simp_all add: sent_on_def List.map_filter_def)

lemma rfc_run_one: "rfc_step st e outs st' \<Longrightarrow> rfc_run st [e] outs st'"
  using rfc_go [OF _ rfc_done] by fastforce

lemma rfc_run_addresses: "rfc_run OPERATIONAL (replicate m Transmit_address) (replicate m MSG_TYPE_ADDR) OPERATIONAL"
proof (induction m)
  case (Suc m)
  then show ?case using rfc_go [OF rfc_step.intros(7) Suc] by simp
qed (simp add: rfc_done)

lemma rfc_run_est:
  "rfc_run OPENREC (Receive_keepalive # replicate m Transmit_address) (replicate m MSG_TYPE_ADDR) OPERATIONAL"
  using rfc_go [OF rfc_step.intros(5) rfc_run_addresses] by simp

lemma fsm_nbr_rfc:
  assumes "ev \<noteq> NBR_EVT_INIT_SENT" "ev \<noteq> NBR_EVT_KEEPALIVE_RCVD"
  shows "rfc_run (rfc_abs (n_state n)) (rfc_events (n_state n) ev)
    (sent_on (if ev = NBR_EVT_CONNECT_UP then n_fd n else nbr_fd n) (snd (fsm_nbr n ev)))
    (rfc_abs (n_state (fst (fsm_nbr n ev))))"
  using assms rfc_go [OF rfc_step.intros(1) rfc_run_one [OF rfc_step.intros(2)]]
  by (cases ev; cases "n_state n")
    (auto simp: fsm_nbr_def rfc_events_def rfc_abs_def closed_def intro: rfc_done rfc_run_one rfc_step.intros)

lemma est_rfc:
  assumes "est p s n t"
  obtains n' outs m where "rb_find (e_nbrs t) p = Some n'" "n_state n' = NBR_STA_OPER" "e_out t = e_out s @ outs"
    "sent_on (nbr_fd n) (map out_kind outs) = replicate m MSG_TYPE_ADDR"
    "\<forall>q. q \<noteq> p \<longrightarrow> rb_find (e_nbrs t) q = rb_find (e_nbrs s) q"
  using assms by (auto simp: est_def Let_def opened_def)

text \<open>
  C8: The session state machine implements the one of RFC 5036, section 2.5.4: an event takes the state of
  a neighbour along the transitions of the RFC that the event stands for, and puts on the connection
  exactly the messages those transitions transmit, in their order. After an establishment only address
  messages follow. No other neighbour is touched.
\<close>

theorem nbr_fsm_refines_rfc:
  assumes n: "rb_find (e_nbrs s) p = Some n" and af: "n_af n \<noteq> AF_UNSPEC"
    and tcp: "n_state n = NBR_STA_PRESENT \<or> n_tcp n \<noteq> None" and ev: "ev \<noteq> NBR_EVT_INIT_SENT"
    and ka: "ev = NBR_EVT_KEEPALIVE_RCVD \<Longrightarrow> pids_ok s \<and> addrs_ok s \<and> e_peercnt s \<noteq> -1"
    and fd: "fd = (if ev = NBR_EVT_CONNECT_UP then n_fd n else nbr_fd n)"
  shows "\<exists>t n' outs m. nbr_fsm s p ev = Inr t \<and> rb_find (e_nbrs t) p = Some n' \<and> e_out t = e_out s @ outs \<and>
    rfc_run (rfc_abs (n_state n)) (rfc_events (n_state n) ev @ replicate m Transmit_address)
      (sent_on fd (map out_kind outs)) (rfc_abs (n_state n')) \<and>
    (\<forall>q. q \<noteq> p \<longrightarrow> rb_find (e_nbrs t) q = rb_find (e_nbrs s) q)"
proof -
  have rdy: "fsm_ready n" using af tcp by (auto simp: fsm_ready_def)
  consider "ev \<noteq> NBR_EVT_KEEPALIVE_RCVD" | "ev = NBR_EVT_KEEPALIVE_RCVD" "n_state n = NBR_STA_OPENREC"
    | "ev = NBR_EVT_KEEPALIVE_RCVD" "n_state n \<noteq> NBR_STA_OPENREC" by blast
  then show ?thesis
  proof cases
    case 1
    then obtain t where t: "nbr_fsm s p ev = Inr t" and e: "eff p s (fst (fsm_nbr n ev)) (snd (fsm_nbr n ev)) t"
      using nbr_fsm_eff [OF n rdy] by (auto simp: okE_def)
    then obtain outs where outs: "e_out t = e_out s @ outs" "map out_kind outs = snd (fsm_nbr n ev)"
      by (auto simp: eff_def)
    with t e fsm_nbr_rfc [OF ev 1, of n] show ?thesis unfolding fd
      by (intro exI [of _ t] exI [of _ "fst (fsm_nbr n ev)"] exI [of _ outs] exI [of _ 0])
        (simp add: eff_find eff_find_other)
  next
    case 2
    then obtain t where t: "nbr_fsm s p ev = Inr t" "est p s n t"
      using nbr_fsm_est [OF n rdy] ka by (auto simp: okE_def)
    from t(2) obtain n' outs m where "rb_find (e_nbrs t) p = Some n'" "n_state n' = NBR_STA_OPER" "e_out t = e_out s @ outs"
      "sent_on (nbr_fd n) (map out_kind outs) = replicate m MSG_TYPE_ADDR"
      "\<forall>q. q \<noteq> p \<longrightarrow> rb_find (e_nbrs t) q = rb_find (e_nbrs s) q" by (rule est_rfc)
    with t(1) 2 rfc_run_est [of m] show ?thesis
      by (intro exI [of _ t] exI [of _ n'] exI [of _ outs] exI [of _ m]) (simp add: fd rfc_abs_def rfc_events_def)
  next
    case 3
    then obtain t where t: "nbr_fsm s p ev = Inr t" "eff p s n [] t" using fsm_ignored [OF n, of NBR_EVT_KEEPALIVE_RCVD] by (auto simp: okE_def)
    from 3 have "rfc_events (n_state n) ev = []" by (cases "n_state n") (simp_all add: rfc_events_def)
    with t show ?thesis
      by (intro exI [of _ t] exI [of _ n] exI [of _ "[]"] exI [of _ 0])
        (auto simp: eff_find eff_find_other eff_def intro: rfc_done)
  qed
qed

theorem nbr_fsm_refines_rfc_witness:
  "\<exists>t n' outs m. nbr_fsm (demo_engine (demo_session\<lparr>n_state := NBR_STA_OPENREC\<rparr>)) 0x0a000002 NBR_EVT_KEEPALIVE_RCVD = Inr t \<and>
    rb_find (e_nbrs t) 0x0a000002 = Some n' \<and>
    e_out t = e_out (demo_engine (demo_session\<lparr>n_state := NBR_STA_OPENREC\<rparr>)) @ outs \<and>
    rfc_run OPENREC (Receive_keepalive # replicate m Transmit_address) (sent_on 9 (map out_kind outs)) (rfc_abs (n_state n'))"
proof -
  let ?n = "demo_session\<lparr>n_state := NBR_STA_OPENREC\<rparr>"
  have "pids_ok (demo_engine ?n)" "addrs_ok (demo_engine ?n)"
    by (auto simp: pids_ok_def addrs_ok_def split: if_splits)
  then show ?thesis
    using nbr_fsm_refines_rfc [where s = "demo_engine ?n" and p = "0x0a000002" and n = ?n and ev = NBR_EVT_KEEPALIVE_RCVD and fd = 9]
    by (fastforce simp: nbr_fd_def rfc_abs_def rfc_events_def)
qed

section \<open>The end of a session\<close>

lemma shut_session:
  assumes "sess_inv s" "rb_find (e_nbrs s) p = Some n" "n_state n \<noteq> NBR_STA_PRESENT"
  obtains t where "session_shutdown s p status mid ty = Inr t" "eff p s (closed n) [K_pdu (nbr_fd n) MSG_TYPE_NOTIFICATION,
    K_out (Out_lde (n_peerid n) NEIGHBOR_DOWN), K_out (Out_close (nbr_fd n))] t"
  using session_shutdown_eff [OF assms(2) inv_nbr [OF assms(1,2)], of status mid ty] assms(3)
  by (auto simp: okE_def shut_def)

lemma out_kind_K_outD: "out_kind x = K_out y \<Longrightarrow> x = y"
  by (cases x) (auto simp: out_kind_def)

lemma eff_outs:
  assumes "eff p s n' ks t"
  obtains outs where "e_out t = e_out s @ outs" "map out_kind outs = ks" "\<And>x. K_out x \<in> set ks \<Longrightarrow> x \<in> set outs"
proof -
  obtain outs where o: "e_out t = e_out s @ outs" "map out_kind outs = ks" using assms by (auto simp: eff_def)
  have "x \<in> set outs" if "K_out x \<in> set ks" for x using that unfolding o(2) [symmetric] by (auto dest!: out_kind_K_outD [OF sym])
  with o show ?thesis by (rule that)
qed

text \<open>
  C20: Shutting a session down, in whatever state it is, sends one notification to the peer, tells the label
  decision engine that the neighbour is gone, closes the connection and stops the timers of the session,
  in this order; the other neighbours are left alone.
\<close>

theorem session_shutdown_closes:
  assumes inv: "sess_inv s" and n: "rb_find (e_nbrs s) p = Some n" and st: "n_state n \<noteq> NBR_STA_PRESENT"
  shows "\<exists>t n' b. session_shutdown s p status mid type = Inr t \<and> rb_find (e_nbrs t) p = Some n' \<and>
    n_state n' = NBR_STA_PRESENT \<and> n_tcp n' = None \<and> n_init_timeout n' = None \<and> n_keepalive_timer n' = None \<and>
    n_keepalive_timeout n' = None \<and> pdu_type b = MSG_TYPE_NOTIFICATION \<and>
    e_out t = e_out s @ [Out_pdu (nbr_fd n) b, Out_lde (n_peerid n) NEIGHBOR_DOWN, Out_close (nbr_fd n)] \<and>
    (\<forall>q. q \<noteq> p \<longrightarrow> rb_find (e_nbrs t) q = rb_find (e_nbrs s) q)"
proof -
  obtain t where t: "session_shutdown s p status mid type = Inr t" and e: "eff p s (closed n) [K_pdu (nbr_fd n) MSG_TYPE_NOTIFICATION,
    K_out (Out_lde (n_peerid n) NEIGHBOR_DOWN), K_out (Out_close (nbr_fd n))] t" by (rule shut_session [OF assms])
  obtain outs where o: "e_out t = e_out s @ outs" "map out_kind outs = [K_pdu (nbr_fd n) MSG_TYPE_NOTIFICATION,
    K_out (Out_lde (n_peerid n) NEIGHBOR_DOWN), K_out (Out_close (nbr_fd n))]" by (rule eff_outs [OF e])
  obtain b where "outs = [Out_pdu (nbr_fd n) b, Out_lde (n_peerid n) NEIGHBOR_DOWN, Out_close (nbr_fd n)]"
    "pdu_type b = MSG_TYPE_NOTIFICATION"
    using o(2) by (auto dest!: out_kind_K_outD simp: out_kind_def split: ldpe_out.splits)
  with t o(1) eff_find [OF e] eff_find_other [OF e] show ?thesis
    by (intro exI [of _ t] exI [of _ "closed n"] exI [of _ b]) (simp add: closed_def)
qed

theorem session_shutdown_closes_witness:
  "\<exists>t n' b. session_shutdown (demo_engine demo_session) 0x0a000002 S_SHUTDOWN 0 0 = Inr t \<and>
    rb_find (e_nbrs t) 0x0a000002 = Some n' \<and> n_state n' = NBR_STA_PRESENT \<and> pdu_type b = MSG_TYPE_NOTIFICATION \<and>
    e_out t = e_out (demo_engine demo_session) @ [Out_pdu 9 b, Out_lde 1 NEIGHBOR_DOWN, Out_close 9]"
  using session_shutdown_closes [where s = "demo_engine demo_session" and p = "0x0a000002" and n = demo_session and
      status = S_SHUTDOWN and mid = 0 and type = 0] demo_engine_inv [OF demo_session_ok]
  by (auto simp: nbr_fd_def)



text \<open>
  C35: A failed write on a session's connection makes \<^verbatim>\<open>session_write\<close> use the connection after it was
  freed: closing the session frees it, and \<^verbatim>\<open>evbuf_event_add\<close> is called on it afterwards.
\<close>

theorem failed_write_uses_freed_connection:
  assumes inv: "sess_inv s" and n: "rb_find (e_nbrs s) p = Some n" and st: "n_state n \<noteq> NBR_STA_PRESENT"
  shows "session_write Write_failed s p = Inl UseAfterFree"
proof -
  have ks: "fst (fsm_nbr n NBR_EVT_CLOSE_SESSION) = closed n" using st by (cases "n_state n") (simp_all add: fsm_nbr_def)
  obtain t where "nbr_fsm s p NBR_EVT_CLOSE_SESSION = Inr t" "rb_find (e_nbrs t) p = Some (closed n)"
    using nbr_fsm_eff [OF n nbr_ok_ready [OF inv_nbr [OF inv n]], of NBR_EVT_CLOSE_SESSION]
    by (auto simp: okE_def ks dest: eff_find)
  then show ?thesis by (simp add: session_write_def closed_def)
qed

theorem failed_write_uses_freed_connection_witness:
  "session_write Write_failed (demo_engine demo_session) 0x0a000002 = Inl UseAfterFree"
  by (rule failed_write_uses_freed_connection [OF demo_engine_inv [OF demo_session_ok], where n = demo_session]) simp_all

section \<open>Roles\<close>

lemma memcmp_flip: "memcmp xs ys > 0 \<longleftrightarrow> memcmp ys xs < 0"
  by (induction xs ys rule: memcmp.induct) auto

text \<open>
  The two ends of a session take complementary roles: with different transport addresses, exactly one
  of two speakers that see each other's addresses is active and opens the connection.
\<close>

theorem roles_complementary:
  assumes "n_af m = n_af n" and "n_laddr m = n_raddr n" and "n_raddr m = n_laddr n" and "n_af n \<noteq> AF_UNSPEC"
    and "if n_af n = AF_INET then v4 (n_laddr n) \<noteq> v4 (n_raddr n) else n_laddr n \<noteq> n_raddr n"
  shows "\<exists>b. nbr_session_active_role n = Inr b \<and> nbr_session_active_role m = Inr (\<not> b)"
proof (cases "n_af n")
  case AF_INET
  with assms show ?thesis
    by (auto simp: nbr_session_active_role_def ldp_addrcmp_def not_less_iff_gr_or_eq)
next
  case AF_INET6
  with assms memcmp_eq_0 [of "n_laddr n" "n_raddr n"] memcmp_flip [of "n_laddr n" "n_raddr n"] memcmp_flip [of "n_raddr n" "n_laddr n"] show ?thesis
    by (auto simp: nbr_session_active_role_def ldp_addrcmp_def)
qed (use assms in simp)

theorem roles_complementary_witness:
  "nbr_session_active_role demo_session = Inr False \<and>
   nbr_session_active_role (demo_session\<lparr>n_laddr := n_raddr demo_session, n_raddr := n_laddr demo_session\<rparr>) = Inr True"
proof -
  have c: "nbr_session_active_role demo_session = Inr False" by code_simp
  have d: "v4 (n_laddr demo_session) \<noteq> v4 (n_raddr demo_session)" by code_simp
  show ?thesis
    using roles_complementary [of "demo_session\<lparr>n_laddr := n_raddr demo_session, n_raddr := n_laddr demo_session\<rparr>" demo_session] c d
    by auto
qed

section \<open>Setting up a session\<close>

text \<open>
  C10: Two engines that run this code set up a session with each other. Engine \<open>a\<close> is active and has sent its
  initialization message, engine \<open>b\<close> is passive and has accepted the connection. The bytes \<open>a\<close> sent make
  \<open>b\<close> answer with two PDUs; those bytes, delivered in one read, make \<open>a\<close> operational and answer with a
  keepalive; that makes \<open>b\<close> operational. Both ends agree on the keepalive time, the minimum of the two
  proposals, and on PDUs of at most 4096 bytes, and both tell their label decision engines of the new
  neighbour under a fresh peer identifier.
\<close>

theorem session_handshake:
  assumes inva: "sess_inv a" and na: "rb_find (e_nbrs a) p = Some na" and ca: "n_tcp na = Some ca" and sta: "n_state na = NBR_STA_OPENSENT"
    and invb: "sess_inv b" and nb: "rb_find (e_nbrs b) q = Some nb" and cb: "n_tcp nb = Some cb" and stb: "n_state nb = NBR_STA_INITIAL"
    and ids: "n_id na = e_rtr_id b" "n_id nb = e_rtr_id a" and empty: "tcp_rbuf ca = []" "tcp_rbuf cb = []"
    and ka: "nbr_get_keepalive a (n_af na) (n_id na) = Inr ka" "MIN_KEEPALIVE \<le> ka"
    and kb: "nbr_get_keepalive b (n_af nb) (n_id nb) = Inr kb" "MIN_KEEPALIVE \<le> kb"
    and room: "e_peercnt a \<noteq> -1" "e_peercnt b \<noteq> -1"
  shows "\<exists>b1 x1 x2 a1 outs x3 b2 ma mb.
    session_read (Read_bytes (one_pdu (e_rtr_id a) cnt MSG_TYPE_INIT (init_body ka (n_id na)))) b q = Inr b1 \<and>
    e_out b1 = e_out b @ [Out_pdu (tcp_fd cb) x1, Out_pdu (tcp_fd cb) x2] \<and>
    session_read (Read_bytes (x1 @ x2)) a p = Inr a1 \<and> e_out a1 = e_out a @ Out_pdu (tcp_fd ca) x3 # outs \<and>
    session_read (Read_bytes x3) b1 q = Inr b2 \<and>
    rb_find (e_nbrs a1) p = Some ma \<and> n_state ma = NBR_STA_OPER \<and> n_keepalive ma = min ka kb \<and> n_max_pdu_len ma = 4096 \<and>
    rb_find (e_nbrs b2) q = Some mb \<and> n_state mb = NBR_STA_OPER \<and> n_keepalive mb = min ka kb \<and> n_max_pdu_len mb = 4096 \<and>
    Out_lde (e_peercnt a + 1) (NEIGHBOR_UP (n_id na) (n_v4_enabled na) (n_v6_enabled na)) \<in> set (e_out a1) \<and>
    Out_lde (e_peercnt b + 1) (NEIGHBOR_UP (n_id nb) (n_v4_enabled nb) (n_v6_enabled nb)) \<in> set (e_out b2)"
proof -
  obtain t m c1 where b1: "pdu_loop b q (one_pdu (n_id nb) cnt MSG_TYPE_INIT (init_body ka (e_rtr_id b)) @ []) = pdu_loop t q []"
    "stays b t" "rb_find (e_nbrs t) q = Some m" "n_state m = NBR_STA_OPENREC" "n_tcp m = Some (cb\<lparr>tcp_rbuf := []\<rparr>)"
    "n_keepalive m = min kb ka" "n_max_pdu_len m = 4096" "nbr_core m = nbr_core nb" "erase t = erase b"
    "e_out t = e_out b @ map (Out_pdu (tcp_fd cb)) (init_answer b nb kb c1)"
    by (rule read_init [OF invb nb cb _ kb(1) ka(2), where cnt = cnt and rest = "[]"]) (use stb in auto)
  let ?x1 = "one_pdu (n_id na) c1 MSG_TYPE_INIT (init_body kb (e_rtr_id a))" and ?x2 = "one_pdu (n_id na) (c1 + 1) MSG_TYPE_KEEPALIVE []"
  have ans: "init_answer b nb kb c1 = [?x1, ?x2]" using stb by (simp add: init_answer_def ids)
  obtain u mu c2 where a1: "pdu_loop a p (?x1 @ ?x2) = pdu_loop u p ?x2" "stays a u" "rb_find (e_nbrs u) p = Some mu"
    "n_state mu = NBR_STA_OPENREC" "n_tcp mu = Some (ca\<lparr>tcp_rbuf := ?x2\<rparr>)" "n_keepalive mu = min ka kb" "n_max_pdu_len mu = 4096"
    "nbr_core mu = nbr_core na" "erase u = erase a" "e_out u = e_out a @ map (Out_pdu (tcp_fd ca)) (init_answer a na ka c2)"
    by (rule read_init [OF inva na ca _ ka(1) kb(2), where cnt = c1 and rest = ?x2]) (use sta in auto)
  have cntu: "e_peercnt u = e_peercnt a" "e_peercnt t = e_peercnt b" using erase_fields(6) [OF a1(9)] erase_fields(6) [OF b1(9)] by simp_all
  have core: "n_id mu = n_id na" "n_v4_enabled mu = n_v4_enabled na" "n_v6_enabled mu = n_v6_enabled na"
    "n_id m = n_id nb" "n_v4_enabled m = n_v4_enabled nb" "n_v6_enabled m = n_v6_enabled nb"
    using a1(8) b1(8) by (simp_all add: nbr_core_def)
  obtain v mv ov where a2: "pdu_loop u p (one_pdu (n_id mu) (c1 + 1) MSG_TYPE_KEEPALIVE [] @ []) = pdu_loop v p []"
    "rb_find (e_nbrs v) p = Some mv" "n_state mv = NBR_STA_OPER" "n_keepalive mv = n_keepalive mu" "n_max_pdu_len mv = n_max_pdu_len mu"
    "e_out v = e_out u @ ov" "Out_lde (e_peercnt u + 1) (NEIGHBOR_UP (n_id mu) (n_v4_enabled mu) (n_v6_enabled mu)) \<in> set ov"
    by (rule read_keepalive [OF stays_inv [OF a1(2)] a1(3,5,4), where cnt = "c1 + 1" and rest = "[]"]) (use room cntu in auto)
  let ?b1 = "set_rbuf t q []" and ?a1 = "set_rbuf v p []" and ?x3 = "one_pdu (e_rtr_id a) c2 MSG_TYPE_KEEPALIVE []"
  have eb: "eff q t (with_rbuf m []) [] ?b1" and ea: "eff p v (with_rbuf mv []) [] ?a1" by (rule set_rbuf_eff, fact)+
  have outs: "e_out ?b1 = e_out t" "e_out ?a1 = e_out v" by (simp_all add: set_rbuf_def)
  have invb1: "sess_inv ?b1" by (rule stays_inv [OF set_rbuf_stays [OF stays_inv [OF b1(2)]]])
  have tb: "n_tcp (with_rbuf m []) = Some (cb\<lparr>tcp_rbuf := []\<rparr>)" using b1(5) by (simp add: with_rbuf_def)
  obtain w mw ow where b2: "pdu_loop ?b1 q (one_pdu (n_id (with_rbuf m [])) c2 MSG_TYPE_KEEPALIVE [] @ []) = pdu_loop w q []"
    "rb_find (e_nbrs w) q = Some mw" "n_state mw = NBR_STA_OPER" "n_keepalive mw = n_keepalive (with_rbuf m [])"
    "n_max_pdu_len mw = n_max_pdu_len (with_rbuf m [])" "e_out w = e_out ?b1 @ ow"
    "Out_lde (e_peercnt ?b1 + 1) (NEIGHBOR_UP (n_id (with_rbuf m [])) (n_v4_enabled (with_rbuf m [])) (n_v6_enabled (with_rbuf m []))) \<in> set ow"
    by (rule read_keepalive [OF invb1 eff_find [OF eb] tb, where cnt = c2 and rest = "[]"])
      (use b1(4) room cntu in \<open>auto simp: set_rbuf_def\<close>)
  have eb2: "eff q w (with_rbuf mw []) [] (set_rbuf w q [])" by (rule set_rbuf_eff [OF b2(2)])
  have ne: "one_pdu r k ty bd \<noteq> []" for r k ty bd using length_one_pdu(1) [of r k ty bd] by (metis list.size(3) add_is_0 zero_neq_numeral)
  have rb: "session_read (Read_bytes (one_pdu (e_rtr_id a) cnt MSG_TYPE_INIT (init_body ka (n_id na)))) b q = Inr ?b1"
    using b1(1) nb cb empty ids ne by (simp add: session_read_def pdu_loop_nil)
  have ra: "session_read (Read_bytes (?x1 @ ?x2)) a p = Inr ?a1"
    using a1(1) a2(1) na ca empty ids ne core by (simp add: session_read_def pdu_loop_nil)
  have rb2: "session_read (Read_bytes ?x3) ?b1 q = Inr (set_rbuf w q [])"
    using b2(1) eff_find [OF eb] tb ids ne core by (simp add: session_read_def pdu_loop_nil)
  have oa: "e_out ?a1 = e_out a @ Out_pdu (tcp_fd ca) ?x3 # ov" using a1(10) a2(6) sta by (simp add: outs init_answer_def)
  have ob: "e_out ?b1 = e_out b @ [Out_pdu (tcp_fd cb) ?x1, Out_pdu (tcp_fd cb) ?x2]" by (simp add: outs b1(10) ans)
  have ups: "Out_lde (e_peercnt a + 1) (NEIGHBOR_UP (n_id na) (n_v4_enabled na) (n_v6_enabled na)) \<in> set (e_out ?a1)"
    "Out_lde (e_peercnt b + 1) (NEIGHBOR_UP (n_id nb) (n_v4_enabled nb) (n_v6_enabled nb)) \<in> set (e_out (set_rbuf w q []))"
    using a2(6,7) b2(6,7) core cntu by (simp_all add: set_rbuf_def)
  have fin: "n_state (with_rbuf mv []) = NBR_STA_OPER" "n_keepalive (with_rbuf mv []) = min ka kb" "n_max_pdu_len (with_rbuf mv []) = 4096"
    "n_state (with_rbuf mw []) = NBR_STA_OPER" "n_keepalive (with_rbuf mw []) = min ka kb" "n_max_pdu_len (with_rbuf mw []) = 4096"
    using a1(6,7) a2(3-5) b1(6,7) b2(3-5) by (simp_all add: min.commute)
  show ?thesis
    by (intro exI [of _ ?b1] exI [of _ ?x1] exI [of _ ?x2] exI [of _ ?a1] exI [of _ ov] exI [of _ ?x3] exI [of _ "set_rbuf w q []"]
        exI [of _ "with_rbuf mv []"] exI [of _ "with_rbuf mw []"] conjI rb ob ra oa rb2 ups fin eff_find [OF ea] eff_find [OF eb2])
qed


text \<open>The two ends 10.0.0.1 (active) and 10.0.0.2 (passive), with keepalive times of 180 and 90 seconds.\<close>

definition demo_end :: "u32 \<Rightarrow> u32 \<Rightarrow> u16 \<Rightarrow> nbr_state \<Rightarrow> ldpe" where
  "demo_end rtr_id peer ka st = (pr_engine (ldpe_start True True))
     \<lparr>e_rtr_id := rtr_id, e_ipv4 := empty_af_conf\<lparr>ac_keepalive := ka\<rparr>,
      e_nbrs := fst (rb_insert rb_init (ntohl peer) (demo_session\<lparr>n_state := st, n_id := peer, n_peerid := 0,
        n_keepalive_timer := None, n_keepalive_timeout := None, n_init_timeout := Some INIT_FSM_TIMEOUT\<rparr>))\<rparr>"

lemma demo_end_inv:
  "st = NBR_STA_OPENSENT \<or> st = NBR_STA_INITIAL \<Longrightarrow> sess_inv (demo_end r peer ka st)"
  using demo_session_ok
  by (auto simp: demo_end_def sess_inv_def pids_ok_def addrs_ok_def nbr_ok_def timers_ok_def queues_ok_def ldpe_start_def
      Let_def config_new_empty_def)

theorem session_handshake_witness:
  "\<exists>b1 x1 x2 a1 x3 b2 ma mb.
    session_read (Read_bytes (one_pdu 0x0100000a 7 MSG_TYPE_INIT (init_body 180 0x0200000a)))
      (demo_end 0x0200000a 0x0100000a 90 NBR_STA_INITIAL) 0x0a000001 = Inr b1 \<and>
    session_read (Read_bytes (x1 @ x2)) (demo_end 0x0100000a 0x0200000a 180 NBR_STA_OPENSENT) 0x0a000002 = Inr a1 \<and>
    session_read (Read_bytes x3) b1 0x0a000001 = Inr b2 \<and>
    rb_find (e_nbrs a1) 0x0a000002 = Some ma \<and> n_state ma = NBR_STA_OPER \<and> n_keepalive ma = 90 \<and>
    rb_find (e_nbrs b2) 0x0a000001 = Some mb \<and> n_state mb = NBR_STA_OPER \<and> n_keepalive mb = 90"
proof -
  let ?a = "demo_end 0x0100000a 0x0200000a 180 NBR_STA_OPENSENT" and ?b = "demo_end 0x0200000a 0x0100000a 90 NBR_STA_INITIAL"
  let ?n = "\<lambda>st peer. demo_session\<lparr>n_state := st, n_id := peer, n_peerid := 0,
        n_keepalive_timer := None, n_keepalive_timeout := None, n_init_timeout := Some INIT_FSM_TIMEOUT\<rparr>"
  have sw: "ntohl 0x0100000a = 0x0a000001" "ntohl 0x0200000a = 0x0a000002" by code_simp+
  have na: "rb_find (e_nbrs ?a) 0x0a000002 = Some (?n NBR_STA_OPENSENT 0x0200000a)"
    and nb: "rb_find (e_nbrs ?b) 0x0a000001 = Some (?n NBR_STA_INITIAL 0x0100000a)" by (simp_all add: demo_end_def sw)
  have ka: "nbr_get_keepalive ?a AF_INET 0x0200000a = Inr 180" "nbr_get_keepalive ?b AF_INET 0x0100000a = Inr 90"
    "e_peercnt ?a \<noteq> -1" "e_peercnt ?b \<noteq> -1" "e_rtr_id ?a = 0x0100000a" "e_rtr_id ?b = 0x0200000a"
    by (simp_all add: demo_end_def nbr_get_keepalive_def nbr_params_find_def ldp_af_conf_get_def ldpe_start_def Let_def config_new_empty_def)
  have mk: "MIN_KEEPALIVE \<le> 180" "MIN_KEEPALIVE \<le> 90" "min (180 :: u16) 90 = 90" by code_simp+
  show ?thesis
    using session_handshake [OF demo_end_inv na _ _ demo_end_inv nb, where ka = 180 and kb = 90 and cnt = 7 and
        ca = "\<lparr>tcp_fd = 9, tcp_rbuf = []\<rparr>" and cb = "\<lparr>tcp_fd = 9, tcp_rbuf = []\<rparr>"]
    by (fastforce simp: ka mk)
qed

section \<open>Messages out of place\<close>

text \<open>
  C31: A message that has no place in the state of the session (an initialization message once one was
  received, a keepalive before, an address or label message before the session is operational) ends the
  session with one notification, whatever the message contains.
\<close>

theorem unexpected_message_refused:
  assumes inv: "sess_inv s" and n: "rb_find (e_nbrs s) p = Some n" and st: "n_state n \<noteq> NBR_STA_PRESENT"
    and c: "n_tcp n = Some c" "tcp_rbuf c = []"
    and len: "length body \<le> 4000" "n_state n = NBR_STA_OPER \<longrightarrow> 14 + length body \<le> unat (n_max_pdu_len n)"
    and un: "ty = MSG_TYPE_INIT \<and> n_state n \<in> {NBR_STA_OPENREC, NBR_STA_OPER} \<or>
      ty = MSG_TYPE_KEEPALIVE \<and> n_state n \<in> {NBR_STA_INITIAL, NBR_STA_OPENSENT} \<or>
      ty \<in> {MSG_TYPE_ADDR, MSG_TYPE_ADDRWITHDRAW, MSG_TYPE_LABELMAPPING, MSG_TYPE_LABELREQUEST, MSG_TYPE_LABELWITHDRAW,
        MSG_TYPE_LABELRELEASE, MSG_TYPE_LABELABORTREQ} \<and> n_state n \<noteq> NBR_STA_OPER"
  shows "\<exists>t n' outs. session_read (Read_bytes (one_pdu (n_id n) cnt ty body)) s p = Inr t \<and>
    rb_find (e_nbrs t) p = Some n' \<and> n_state n' = NBR_STA_PRESENT \<and> n_tcp n' = None \<and> e_out t = e_out s @ outs \<and>
    map out_kind outs = [K_pdu (tcp_fd c) MSG_TYPE_NOTIFICATION, K_out (Out_lde (n_peerid n) NEIGHBOR_DOWN), K_out (Out_close (tcp_fd c))]"
proof -
  have u: "unexpected (n_state n) ty" using un by (auto simp: unexpected_def const_defs)
  obtain s1 where e: "eff p s (with_rbuf n []) [] s1" and read: "pdu_loop s p (one_pdu (n_id n) cnt ty body @ []) =
      (if unexpected (n_state n) ty then session_shutdown s1 p S_SHUTDOWN (ntohl (cnt + 1)) (ntohs ty)
       else bindE (recv_msg s1 p (one_msg cnt ty body) (8 + length body)
         \<lparr>msg_type = ntohs ty, msg_length = ntohs (of_nat (4 + length body)), msg_id = ntohl (cnt + 1)\<rparr>) (\<lambda>(s2, ok).
         if \<not> ok then Inr s2
         else bindE (get_nbr s2 p) (\<lambda>m. if n_tcp m = None then Inl UseAfterFree else pdu_loop s2 p [])))"
    by (rule pdu_loop_pdu [OF inv n st len, where rest = "[]"])
  have inv1: "sess_inv s1" by (rule stays_inv [OF stays_eff [OF inv n e]]) (use inv_nbr [OF inv n] in simp_all)
  have fd: "nbr_fd (with_rbuf n []) = tcp_fd c" using c by (simp add: nbr_fd_def with_rbuf_def)
  obtain t where t: "session_shutdown s1 p S_SHUTDOWN (ntohl (cnt + 1)) (ntohs ty) = Inr t"
    and e2: "eff p s1 (closed (with_rbuf n [])) [K_pdu (nbr_fd (with_rbuf n [])) MSG_TYPE_NOTIFICATION,
      K_out (Out_lde (n_peerid (with_rbuf n [])) NEIGHBOR_DOWN), K_out (Out_close (nbr_fd (with_rbuf n [])))] t"
    by (rule shut_session [OF inv1 eff_find [OF e]]) (use st in simp_all)
  obtain outs where o: "e_out t = e_out s @ outs" "map out_kind outs = [K_pdu (nbr_fd (with_rbuf n [])) MSG_TYPE_NOTIFICATION,
      K_out (Out_lde (n_peerid (with_rbuf n [])) NEIGHBOR_DOWN), K_out (Out_close (nbr_fd (with_rbuf n [])))]"
    using eff_trans [OF e e2] by (auto simp: eff_def)
  have "one_pdu (n_id n) cnt ty body \<noteq> []" using length_one_pdu(1) [of "n_id n" cnt ty body] by (metis list.size(3) add_is_0 zero_neq_numeral)
  then have "session_read (Read_bytes (one_pdu (n_id n) cnt ty body)) s p = Inr t"
    using read u t n c by (simp add: session_read_def)
  with eff_find [OF e2] o show ?thesis
    by (intro exI [of _ t] exI [of _ "closed (with_rbuf n [])"] exI [of _ outs]) (simp add: closed_def fd)
qed

theorem unexpected_message_refused_witness:
  "\<exists>t n' outs. session_read (Read_bytes (one_pdu 0x0200000a 3 MSG_TYPE_INIT [])) (demo_engine demo_session) 0x0a000002 = Inr t \<and>
    rb_find (e_nbrs t) 0x0a000002 = Some n' \<and> n_state n' = NBR_STA_PRESENT \<and> n_tcp n' = None \<and>
    e_out t = e_out (demo_engine demo_session) @ outs \<and>
    map out_kind outs = [K_pdu 9 MSG_TYPE_NOTIFICATION, K_out (Out_lde 1 NEIGHBOR_DOWN), K_out (Out_close 9)]"
proof -
  have "n_max_pdu_len demo_session = 4096" by (simp add: demo_session_def)
  then show ?thesis
    using unexpected_message_refused [where s = "demo_engine demo_session" and p = "0x0a000002" and n = demo_session and
        c = "\<lparr>tcp_fd = 9, tcp_rbuf = []\<rparr>" and body = "[]" and ty = MSG_TYPE_INIT and cnt = 3] demo_engine_inv [OF demo_session_ok]
    by simp
qed

section \<open>Adjacencies\<close>



section \<open>What the label decision engine is told\<close>



end
