(* ===== verification/Kr_State.thy ===== *)
theory Kr_State
  imports Lde_Dispatch Ldpe_Iface
begin

text \<open>
  The routing tables of the parent process: the data structures of \<^verbatim>\<open>kroute.c\<close>, the order of the
  trees, the lookups and the messages written to the routing socket.

  A \<^verbatim>\<open>struct kroute\<close> extends the record of the label decision engine by the two members only the
  parent reads. A \<^verbatim>\<open>struct kroute_prefix\<close> is kept under its address family, prefix and length, which
  is the class the engine makes of it: \<^verbatim>\<open>kroute_compare\<close> orders the prefixes as \<^verbatim>\<open>fec_compare\<close>
  orders the classes. A pointer to a \<^verbatim>\<open>struct kroute_priority\<close> or to a \<^verbatim>\<open>struct kroute_node\<close> is the
  position of the element in its list. The tree of interfaces runs from the highest index to the
  lowest, as \<^verbatim>\<open>kif_compare\<close> orders it. The messages to the two engines are theirs
  (\<open>parent_imsg\<close>, \<open>main_imsg\<close>); everything sent is logged in \<open>k_out\<close>, in order.
\<close>

section \<open>Constants\<close>

definition F_LDPD_INSERTED :: u16 where [const_defs]: "F_LDPD_INSERTED = 0x0001"
definition F_CONNECTED :: u16 where [const_defs]: "F_CONNECTED = 0x0002"
definition F_STATIC :: u16 where [const_defs]: "F_STATIC = 0x0004"
definition F_DYNAMIC :: u16 where [const_defs]: "F_DYNAMIC = 0x0008"
definition F_REJECT :: u16 where [const_defs]: "F_REJECT = 0x0010"
definition F_BLACKHOLE :: u16 where [const_defs]: "F_BLACKHOLE = 0x0020"
definition F_REDISTRIBUTED :: u16 where [const_defs]: "F_REDISTRIBUTED = 0x0040"

text \<open>Constants of \<^verbatim>\<open>net/route.h\<close>, \<^verbatim>\<open>net/if.h\<close> and \<^verbatim>\<open>netmpls/mpls.h\<close>.\<close>

definition RTF_UP :: u32 where [const_defs]: "RTF_UP = 0x1"
definition RTF_GATEWAY :: u32 where [const_defs]: "RTF_GATEWAY = 0x2"
definition RTF_HOST :: u32 where [const_defs]: "RTF_HOST = 0x4"
definition RTF_REJECT :: u32 where [const_defs]: "RTF_REJECT = 0x8"
definition RTF_DYNAMIC :: u32 where [const_defs]: "RTF_DYNAMIC = 0x10"
definition RTF_LLINFO :: u32 where [const_defs]: "RTF_LLINFO = 0x400"
definition RTF_STATIC :: u32 where [const_defs]: "RTF_STATIC = 0x800"
definition RTF_BLACKHOLE :: u32 where [const_defs]: "RTF_BLACKHOLE = 0x1000"
definition RTF_MPATH :: u32 where [const_defs]: "RTF_MPATH = 0x40000"
definition RTF_MPLS :: u32 where [const_defs]: "RTF_MPLS = 0x100000"
definition RTF_BROADCAST :: u32 where [const_defs]: "RTF_BROADCAST = 0x400000"
definition RTF_CONNECTED :: u32 where [const_defs]: "RTF_CONNECTED = 0x800000"

definition RTA_DST :: u32 where [const_defs]: "RTA_DST = 0x1"
definition RTA_GATEWAY :: u32 where [const_defs]: "RTA_GATEWAY = 0x2"
definition RTA_NETMASK :: u32 where [const_defs]: "RTA_NETMASK = 0x4"
definition RTA_IFA :: u32 where [const_defs]: "RTA_IFA = 0x20"
definition RTA_BRD :: u32 where [const_defs]: "RTA_BRD = 0x80"
definition RTA_SRC :: u32 where [const_defs]: "RTA_SRC = 0x100"

definition RTP_BGP :: u8 where [const_defs]: "RTP_BGP = 48"
definition RTP_ANY :: u8 where [const_defs]: "RTP_ANY = 64"
definition IFF_UP :: u32 where [const_defs]: "IFF_UP = 0x1"
definition MPLS_LABEL_OFFSET :: nat where [const_defs]: "MPLS_LABEL_OFFSET = 12"
definition IF_NAMESIZE :: nat where [const_defs]: "IF_NAMESIZE = 16"

definition INADDR_LOOPBACK :: u32 where [const_defs]: "INADDR_LOOPBACK = 0x7f000001"

section \<open>Data\<close>

record kroute_r = kroute +
  kr_ifindex :: u16
  kr_flags :: u16

record kroute_priority =
  kprio_priority :: u8
  kprio_nexthops :: "kroute_r list"

record kroute_prefix =
  kp_af :: af
  kp_prefix :: ldpd_addr
  kp_prefixlen :: u8
  kp_priorities :: "kroute_priority list"

record kif_r = kif +
  kif_mtu :: u32
  kif_baudrate :: "64 word"

record kif_node =
  kif_addrs :: "kaddr list"
  kif_k :: kif_r
  kif_kpw :: "kpw option"

text \<open>
  A message of \<^verbatim>\<open>send_rtmsg_v4\<close>: the fields of the header that the function fills, and the socket
  addresses of the \<^verbatim>\<open>iovec\<close> in order. Each of them is of sixteen bytes.
\<close>

datatype rtm_type =
  RTM_ADD | RTM_DELETE | RTM_CHANGE | RTM_GET | RTM_IFINFO | RTM_NEWADDR | RTM_DELADDR | RTM_IFANNOUNCE | RTM_OTHER

datatype mpls_op = MPLS_OP_LOCAL | MPLS_OP_POP | MPLS_OP_PUSH | MPLS_OP_SWAP

datatype rt_family = FAM_MPLS | FAM_INET

datatype rt_sa = RS_mpls u32 | RS_in in_addr

record rtmsg =
  rm_type :: rtm_type
  rm_flags :: u32
  rm_fmask :: u32
  rm_seq :: u32
  rm_priority :: u8
  rm_addrs :: u32
  rm_mpls :: mpls_op
  rm_iov :: "rt_sa list"

text \<open>The request of the ioctl \<^verbatim>\<open>SIOCSETMPWCFG\<close>; \<open>None\<close> is the request \<^verbatim>\<open>memset\<close> to zero.\<close>

datatype imr_type = IMR_TYPE_ETHERNET | IMR_TYPE_ETHERNET_TAGGED

record ifmpwreq =
  imr_kind :: imr_type
  imr_cword :: bool
  imr_nexthop :: sockaddr
  imr_lshim :: u32
  imr_rshim :: u32

datatype wr_result = Wr_ok | Wr_ESRCH | Wr_error

datatype kr_out =
    To_lde parent_imsg
  | To_ldpe main_imsg
  | Ctl_kroute int kroute_r
  | Ctl_ifinfo int kif_r
  | Ctl_end int
  | Rt_write rtmsg wr_result
  | Set_mpw string "ifmpwreq option" bool

record kr_state =
  k_krt :: "kroute_prefix fec_tree"
  k_kit :: "(u16, kif_node) rbt"
  k_fib_sync :: bool
  k_rtseq :: u32
  k_pid :: int
  k_out :: "kr_out list"

text \<open>
  What the kernel answers to \<^verbatim>\<open>writev\<close> on the routing socket and to the ioctl, which may depend on
  everything sent before.
\<close>

record ksys =
  ks_writev :: "kr_out list \<Rightarrow> rtmsg \<Rightarrow> wr_result"
  ks_ioctl :: "kr_out list \<Rightarrow> string \<Rightarrow> ifmpwreq option \<Rightarrow> bool"

definition kr_emit :: "kr_state \<Rightarrow> kr_out \<Rightarrow> kr_state" where
  "kr_emit s m = s\<lparr>k_out := k_out s @ [m]\<rparr>"

section \<open>The order of the prefixes\<close>

fun af_num :: "af \<Rightarrow> int" where
  "af_num AF_UNSPEC = 0"
| "af_num AF_INET = 2"
| "af_num AF_INET6 = 24"

definition kroute_compare :: "kroute_prefix \<Rightarrow> kroute_prefix \<Rightarrow> int res" where
  "kroute_compare a b =
     (if af_num (kp_af a) < af_num (kp_af b) then Inr (-1)
      else if af_num (kp_af a) > af_num (kp_af b) then Inr 1
      else bindE (ldp_addrcmp (kp_af a) (kp_prefix a) (kp_prefix b)) (\<lambda>addrcmp.
        if addrcmp \<noteq> 0 then Inr addrcmp
        else if kp_prefixlen a < kp_prefixlen b then Inr (-1)
        else if kp_prefixlen a > kp_prefixlen b then Inr 1
        else Inr 0))"

definition kp_key :: "af \<Rightarrow> ldpd_addr \<Rightarrow> u8 \<Rightarrow> fec option" where
  "kp_key af prefix prefixlen =
     (case af of
        AF_INET \<Rightarrow> Some (FEC_IPV4 (v4 prefix) prefixlen)
      | AF_INET6 \<Rightarrow> Some (FEC_IPV6 prefix prefixlen)
      | AF_UNSPEC \<Rightarrow> None)"

abbreviation kp_class :: "kroute_prefix \<Rightarrow> fec option" where
  "kp_class kp \<equiv> kp_key (kp_af kp) (kp_prefix kp) (kp_prefixlen kp)"

text \<open>The two orders agree, so a tree of prefixes is a tree of classes.\<close>

lemma kroute_compare_v4:
  assumes "kp_af a = AF_INET" "kp_af b = AF_INET"
  shows "\<exists>c. kroute_compare a b = Inr c \<and>
      (c < 0 \<longleftrightarrow> FEC_IPV4 (v4 (kp_prefix a)) (kp_prefixlen a) < FEC_IPV4 (v4 (kp_prefix b)) (kp_prefixlen b)) \<and>
      (c = 0 \<longleftrightarrow> FEC_IPV4 (v4 (kp_prefix a)) (kp_prefixlen a) = FEC_IPV4 (v4 (kp_prefix b)) (kp_prefixlen b))"
proof (cases "v4 (kp_prefix a) = v4 (kp_prefix b)")
  case False
  then show ?thesis using assms
    by (cases "ntohl (v4 (kp_prefix a)) < ntohl (v4 (kp_prefix b))")
      (auto simp: kroute_compare_def ldp_addrcmp_def less_fec_def fec_compare_def not_less_iff_gr_or_eq)
qed (use assms in \<open>auto simp: kroute_compare_def ldp_addrcmp_def less_fec_def fec_compare_def\<close>)

lemma kroute_compare_v6:
  assumes "kp_af a = AF_INET6" "kp_af b = AF_INET6"
  shows "\<exists>c. kroute_compare a b = Inr c \<and>
      (c < 0 \<longleftrightarrow> FEC_IPV6 (kp_prefix a) (kp_prefixlen a) < FEC_IPV6 (kp_prefix b) (kp_prefixlen b)) \<and>
      (c = 0 \<longleftrightarrow> FEC_IPV6 (kp_prefix a) (kp_prefixlen a) = FEC_IPV6 (kp_prefix b) (kp_prefixlen b))"
proof (cases "kp_prefix a = kp_prefix b")
  case False
  then have "memcmp (kp_prefix a) (kp_prefix b) \<noteq> 0" by (simp add: memcmp_eq_0)
  with False assms show ?thesis
    by (cases "memcmp (kp_prefix a) (kp_prefix b) < 0")
      (auto simp: kroute_compare_def ldp_addrcmp_def less_fec_def fec_compare_def)
qed (use assms in \<open>auto simp: kroute_compare_def ldp_addrcmp_def less_fec_def fec_compare_def\<close>)

lemma kroute_compare_fec_compare:
  assumes "kp_class a = Some f" "kp_class b = Some g"
  shows "\<exists>c. kroute_compare a b = Inr c \<and> (c < 0 \<longleftrightarrow> f < g) \<and> (c = 0 \<longleftrightarrow> f = g)"
proof (cases "kp_af a = kp_af b")
  case True
  with assms kroute_compare_v4 [of a b] kroute_compare_v6 [of a b] show ?thesis
    by (cases "kp_af a") (simp_all add: kp_key_def, blast+)
next
  case False
  with assms show ?thesis
    by (cases "kp_af a"; cases "kp_af b") (auto simp: kp_key_def kroute_compare_def less_fec_def fec_compare_def)
qed

section \<open>Lookups\<close>

definition kroute_find_prefix :: "kr_state \<Rightarrow> af \<Rightarrow> ldpd_addr \<Rightarrow> u8 \<Rightarrow> (fec \<times> kroute_prefix) option" where
  "kroute_find_prefix s af prefix prefixlen =
     (case kp_key af prefix prefixlen of
        None \<Rightarrow> None
      | Some k \<Rightarrow> map_option (Pair k) (fec_find (k_krt s) k))"

definition kroute_find_prio :: "kroute_prefix \<Rightarrow> u8 \<Rightarrow> nat option" where
  "kroute_find_prio kp prio =
     (if prio = RTP_ANY then (if kp_priorities kp = [] then None else Some 0)
      else find (\<lambda>i. kprio_priority (kp_priorities kp ! i) = prio) [0..<length (kp_priorities kp)])"

definition kroute_find_gw :: "kroute_prefix \<Rightarrow> kroute_priority \<Rightarrow> ldpd_addr \<Rightarrow> nat option res" where
  "kroute_find_gw kp kprio nh =
     findE (\<lambda>j. bindE (ldp_addrcmp (kp_af kp) (kr_nexthop (kprio_nexthops kprio ! j)) nh)
                  (\<lambda>c. Inr (c = 0)))
       [0..<length (kprio_nexthops kprio)]"

text \<open>The three lookups in a row, as most callers make them: the key of the prefix and the positions.\<close>

definition kroute_lookup :: "kr_state \<Rightarrow> af \<Rightarrow> ldpd_addr \<Rightarrow> u8 \<Rightarrow> u8 \<Rightarrow> ldpd_addr \<Rightarrow>
    (fec \<times> nat \<times> nat) option res" where
  "kroute_lookup s af prefix prefixlen prio nh =
     (case kroute_find_prefix s af prefix prefixlen of
        None \<Rightarrow> Inr None
      | Some (k, kp) \<Rightarrow>
          (case kroute_find_prio kp prio of
             None \<Rightarrow> Inr None
           | Some i \<Rightarrow>
               bindE (kroute_find_gw kp (kp_priorities kp ! i) nh) (\<lambda>r.
               Inr (map_option (\<lambda>j. (k, i, j)) r))))"

text \<open>Access to a node through its pointer.\<close>

definition get_kp :: "kr_state \<Rightarrow> fec \<Rightarrow> kroute_prefix res" where
  "get_kp s k = (case fec_find (k_krt s) k of None \<Rightarrow> Inl NullDeref | Some kp \<Rightarrow> Inr kp)"

definition get_kn :: "kr_state \<Rightarrow> fec \<Rightarrow> nat \<Rightarrow> nat \<Rightarrow> kroute_r res" where
  "get_kn s k i j =
     bindE (get_kp s k) (\<lambda>kp.
     if i < length (kp_priorities kp) \<and> j < length (kprio_nexthops (kp_priorities kp ! i))
     then Inr (kprio_nexthops (kp_priorities kp ! i) ! j) else Inl OutOfBounds)"

definition upd_kp :: "kr_state \<Rightarrow> fec \<Rightarrow> (kroute_prefix \<Rightarrow> kroute_prefix) \<Rightarrow> kr_state" where
  "upd_kp s k f = s\<lparr>k_krt := rb_update (k_krt s) k f\<rparr>"

definition set_node :: "nat \<Rightarrow> nat \<Rightarrow> kroute_r \<Rightarrow> kroute_prefix \<Rightarrow> kroute_prefix" where
  "set_node i j r kp =
     kp\<lparr>kp_priorities := (kp_priorities kp)[i := (kp_priorities kp ! i)\<lparr>kprio_nexthops :=
        (kprio_nexthops (kp_priorities kp ! i))[j := r]\<rparr>]\<rparr>"

definition set_kn :: "kr_state \<Rightarrow> fec \<Rightarrow> nat \<Rightarrow> nat \<Rightarrow> kroute_r \<Rightarrow> kr_state" where
  "set_kn s k i j r = upd_kp s k (set_node i j r)"

section \<open>Messages to the kernel\<close>

text \<open>
  The message \<^verbatim>\<open>send_rtmsg_v4\<close> builds, without its sequence number; \<open>None\<close> is the early return
  for a next hop that wants no label.
\<close>

definition rtmsg_v4 :: "rtm_type \<Rightarrow> kroute_r \<Rightarrow> rt_family \<Rightarrow> rtmsg option res" where
  "rtmsg_v4 action kr family =
     bindE (if family = FAM_INET then prefixlen2mask (unat (kr_prefixlen kr)) else Inr 0) (\<lambda>mask.
     let m = \<lparr>rm_type = action, rm_flags = RTF_UP, rm_fmask = RTF_MPLS, rm_seq = 0,
              rm_priority = kr_priority kr, rm_addrs = 0, rm_mpls = MPLS_OP_LOCAL, rm_iov = []\<rparr>;
         m1 = (if family = FAM_MPLS
               then m\<lparr>rm_flags := rm_flags m OR (RTF_MPLS OR RTF_MPATH), rm_addrs := rm_addrs m OR RTA_DST,
                      rm_iov := rm_iov m @ [RS_mpls (htonl (push_bit MPLS_LABEL_OFFSET (kr_local_label kr)))]\<rparr>
               else m\<lparr>rm_addrs := rm_addrs m OR RTA_DST, rm_iov := rm_iov m @ [RS_in (v4 (kr_prefix kr))]\<rparr>);
         m2 = m1\<lparr>rm_flags := rm_flags m1 OR RTF_GATEWAY, rm_addrs := rm_addrs m1 OR RTA_GATEWAY,
                 rm_iov := rm_iov m1 @ [RS_in (v4 (kr_nexthop kr))]\<rparr>;
         m3 = (if family = FAM_INET
               then m2\<lparr>rm_addrs := rm_addrs m2 OR RTA_NETMASK, rm_iov := rm_iov m2 @ [RS_in mask]\<rparr>
               else m2)
     in if kr_remote_label kr \<noteq> NO_LABEL \<and> action \<noteq> RTM_DELETE then
          let m4 = m3\<lparr>rm_addrs := rm_addrs m3 OR RTA_SRC, rm_flags := rm_flags m3 OR RTF_MPLS,
                      rm_iov := rm_iov m3 @ [RS_mpls (htonl (push_bit MPLS_LABEL_OFFSET (kr_remote_label kr)))]\<rparr>
          in if kr_remote_label kr = MPLS_LABEL_IMPLNULL
             then (if family = FAM_MPLS then Inr (Some (m4\<lparr>rm_mpls := MPLS_OP_POP\<rparr>)) else Inr None)
             else Inr (Some (m4\<lparr>rm_mpls := (if family = FAM_MPLS then MPLS_OP_SWAP else MPLS_OP_PUSH)\<rparr>))
        else Inr (Some m3))"

text \<open>
  The label \<^verbatim>\<open>retry\<close>: a change the kernel does not know becomes an addition, once, since the type
  of the message is then another.
\<close>

function rt_writev :: "ksys \<Rightarrow> kr_state \<Rightarrow> rtmsg \<Rightarrow> rt_family \<Rightarrow> int \<times> kr_state" where
  "rt_writev y s hdr family =
     (let r = ks_writev y (k_out s) hdr; s1 = kr_emit s (Rt_write hdr r) in
      case r of
        Wr_ok \<Rightarrow> (0, s1)
      | Wr_ESRCH \<Rightarrow>
          if rm_type hdr = RTM_CHANGE \<and> family = FAM_MPLS
          then rt_writev y s1 (hdr\<lparr>rm_type := RTM_ADD\<rparr>) family
          else (-1, s1)
      | Wr_error \<Rightarrow> (-1, s1))"
  by pat_completeness auto
termination
  by (relation "measure (\<lambda>(y, s, hdr, family). if rm_type hdr = RTM_CHANGE then 1 else 0)") auto

declare rt_writev.simps [simp del]

text \<open>
  The sequence number is taken before the check of the implicit null label: the early return
  there has consumed it.
\<close>

definition send_rtmsg_v4 :: "ksys \<Rightarrow> kr_state \<Rightarrow> rtm_type \<Rightarrow> kroute_r \<Rightarrow> rt_family \<Rightarrow> (int \<times> kr_state) res" where
  "send_rtmsg_v4 y s action kr family =
     (if \<not> k_fib_sync s then Inr (0, s)
      else if family = FAM_MPLS \<and> kr_local_label kr < MPLS_LABEL_RESERVED_MAX then Inr (0, s)
      else
        bindE (rtmsg_v4 action kr family) (\<lambda>om.
        let s1 = s\<lparr>k_rtseq := k_rtseq s + 1\<rparr> in
        case om of
          None \<Rightarrow> Inr (0, s1)
        | Some m \<Rightarrow> Inr (rt_writev y s1 (m\<lparr>rm_seq := k_rtseq s\<rparr>) family)))"

definition send_rtmsg_v6 :: "kr_state \<Rightarrow> (int \<times> kr_state) res" where
  "send_rtmsg_v6 s = Inr (0, s)"

definition send_rtmsg :: "ksys \<Rightarrow> kr_state \<Rightarrow> rtm_type \<Rightarrow> kroute_r \<Rightarrow> rt_family \<Rightarrow> (int \<times> kr_state) res" where
  "send_rtmsg y s action kr family =
     (case kr_af kr of
        AF_INET \<Rightarrow> send_rtmsg_v4 y s action kr family
      | AF_INET6 \<Rightarrow> send_rtmsg_v6 s
      | AF_UNSPEC \<Rightarrow> Inl (Fatalx ''send_rtmsg: unknown af''))"

end
