(* ===== verification/Kr_Table.thy ===== *)
theory Kr_Table
  imports Kr_State
begin

text \<open>
  The table of kernel routes of \<^verbatim>\<open>kroute.c\<close>: which routes are redistributed to the label decision
  engine, the insertion and removal of a route, the longest-prefix match, the installation and
  removal of labels, and the coupling of the table with the kernel's.
\<close>

section \<open>Redistribution\<close>

text \<open>
  The two functions that change the flag \<^verbatim>\<open>F_REDISTRIBUTED\<close> of a node and tell the engine. They act on
  the node and on the log of messages.
\<close>

definition kr_redist_remove :: "kroute_r \<Rightarrow> kr_out list \<Rightarrow> kroute_r \<times> kr_out list" where
  "kr_redist_remove kr os =
     (if \<not> has_flag (kr_flags kr) F_REDISTRIBUTED then (kr, os)
      else let kr1 = kr\<lparr>kr_flags := clear_flag (kr_flags kr) F_REDISTRIBUTED\<rparr>
           in (kr1, os @ [To_lde (NETWORK_DEL (kroute.truncate kr1))]))"

definition IN6_IS_ADDR_LOOPBACK :: "in6_addr \<Rightarrow> bool" where
  "IN6_IS_ADDR_LOOPBACK a \<longleftrightarrow> a = replicate 15 0 @ [1]"

text \<open>Whether a route with these members and flags is redistributed.\<close>

definition redistributable :: "kroute_r \<Rightarrow> bool res" where
  "redistributable kr =
     (if has_flag (kr_flags kr) F_DYNAMIC then Inr False
      else bindE (bad_addr (kr_af kr) (kr_prefix kr)) (\<lambda>bad.
        if bad \<or> (kr_af kr = AF_INET6 \<and> IN6_IS_SCOPE_EMBED (kr_prefix kr)) then Inr False
        else if kr_prefixlen kr = 0 then Inr False
        else Inr (case kr_af kr of
            AF_INET \<Rightarrow> \<not> (v4 (kr_nexthop kr) = htonl INADDR_LOOPBACK \<and>
                          \<not> has_flag (kr_flags kr) (F_BLACKHOLE OR F_REJECT))
          | AF_INET6 \<Rightarrow> \<not> (IN6_IS_ADDR_LOOPBACK (kr_nexthop kr) \<and>
                          \<not> has_flag (kr_flags kr) (F_BLACKHOLE OR F_REJECT))
          | AF_UNSPEC \<Rightarrow> True)))"

definition kr_redist_eval :: "kroute_r \<Rightarrow> kr_out list \<Rightarrow> (kroute_r \<times> kr_out list) res" where
  "kr_redist_eval kr os =
     (if has_flag (kr_flags kr) F_REDISTRIBUTED then Inr (kr, os)
      else bindE (redistributable kr) (\<lambda>ok.
        if ok then
          let kr1 = kr\<lparr>kr_flags := set_flag (kr_flags kr) F_REDISTRIBUTED\<rparr>
          in Inr (kr1, os @ [To_lde (NETWORK_ADD (kroute.truncate kr1) (has_flag (kr_flags kr1) F_CONNECTED))])
        else Inr (kr, os)))"

text \<open>The loops over the nodes of one priority.\<close>

fun remove_nodes :: "kroute_r list \<Rightarrow> kr_out list \<Rightarrow> kroute_r list \<times> kr_out list" where
  "remove_nodes [] os = ([], os)"
| "remove_nodes (r # rs) os =
     (let (r1, o1) = kr_redist_remove r os; (rs1, o2) = remove_nodes rs o1 in (r1 # rs1, o2))"

fun eval_nodes :: "kroute_r list \<Rightarrow> kr_out list \<Rightarrow> (kroute_r list \<times> kr_out list) res" where
  "eval_nodes [] os = Inr ([], os)"
| "eval_nodes (r # rs) os =
     bindE (kr_redist_eval r os) (\<lambda>(r1, o1). bindE (eval_nodes rs o1) (\<lambda>(rs1, o2). Inr (r1 # rs1, o2)))"

text \<open>The reverse loop over the priorities: those after the first, the last of them first.\<close>

fun remove_prios :: "kroute_priority list \<Rightarrow> kr_out list \<Rightarrow> kroute_priority list \<times> kr_out list" where
  "remove_prios [] os = ([], os)"
| "remove_prios (p # ps) os =
     (let (ps1, o1) = remove_prios ps os; (ns, o2) = remove_nodes (kprio_nexthops p) o1
      in (p\<lparr>kprio_nexthops := ns\<rparr> # ps1, o2))"

definition redist_prios :: "kroute_priority list \<Rightarrow> kr_out list \<Rightarrow> (kroute_priority list \<times> kr_out list) res" where
  "redist_prios pss os =
     (case pss of
        [] \<Rightarrow> Inr ([], os)
      | p # ps \<Rightarrow>
          let (ps1, o1) = remove_prios ps os in
          bindE (eval_nodes (kprio_nexthops p) o1) (\<lambda>(ns, o2). Inr (p\<lparr>kprio_nexthops := ns\<rparr> # ps1, o2)))"

definition kr_redistribute :: "kr_state \<Rightarrow> fec \<Rightarrow> kr_state res" where
  "kr_redistribute s k =
     bindE (get_kp s k) (\<lambda>kp.
     bindE (redist_prios (kp_priorities kp) (k_out s)) (\<lambda>(ps, os).
     Inr ((upd_kp s k (\<lambda>kp. kp\<lparr>kp_priorities := ps\<rparr>))\<lparr>k_out := os\<rparr>)))"

section \<open>Insertion and removal\<close>

text \<open>\<^verbatim>\<open>TAILQ_FOREACH(tmp, ...) if (tmp->priority > kprio->priority) break\<close>, then the insertion.\<close>

fun insert_prio :: "kroute_priority \<Rightarrow> kroute_priority list \<Rightarrow> kroute_priority list" where
  "insert_prio p [] = [p]"
| "insert_prio p (q # qs) =
     (if kprio_priority q > kprio_priority p then p # q # qs else q # insert_prio p qs)"

definition ensure_prefix :: "kr_state \<Rightarrow> kroute_r \<Rightarrow> fec \<Rightarrow> kr_state" where
  "ensure_prefix s kr k =
     (if fec_find (k_krt s) k = None
      then s\<lparr>k_krt := fst (rb_insert (k_krt s) k \<lparr>kp_af = kr_af kr, kp_prefix = kr_prefix kr,
              kp_prefixlen = kr_prefixlen kr, kp_priorities = []\<rparr>)\<rparr>
      else s)"

definition ensure_prio :: "u8 \<Rightarrow> kroute_prefix \<Rightarrow> kroute_prefix" where
  "ensure_prio prio kp =
     (if kroute_find_prio kp prio = None
      then kp\<lparr>kp_priorities := insert_prio \<lparr>kprio_priority = prio, kprio_nexthops = []\<rparr> (kp_priorities kp)\<rparr>
      else kp)"

text \<open>
  A prefix or a priority that has just been made is found again by its key: the C code holds the
  pointer. \<open>AF_UNSPEC\<close> does not reach this function: its caller has returned.
\<close>

definition kroute_insert :: "kr_state \<Rightarrow> kroute_r \<Rightarrow> kr_state res" where
  "kroute_insert s kr =
     (case kp_key (kr_af kr) (kr_prefix kr) (kr_prefixlen kr) of
        None \<Rightarrow> Inl (Fatalx ''ldp_addrcmp: unknown af'')
      | Some k \<Rightarrow>
          let s1 = upd_kp (ensure_prefix s kr k) k (ensure_prio (kr_priority kr)) in
          bindE (get_kp s1 k) (\<lambda>kp.
          case kroute_find_prio kp (kr_priority kr) of
            None \<Rightarrow> Inl NullDeref
          | Some i \<Rightarrow>
              bindE (kroute_find_gw kp (kp_priorities kp ! i) (kr_nexthop kr)) (\<lambda>g.
              let s2 = (if g = None
                        then upd_kp s1 k (\<lambda>kp. kp\<lparr>kp_priorities := (kp_priorities kp)[i :=
                               (kp_priorities kp ! i)\<lparr>kprio_nexthops :=
                                  kprio_nexthops (kp_priorities kp ! i) @ [kr]\<rparr>]\<rparr>)
                        else s1)
              in kr_redistribute s2 k)))"

definition kroute_uninstall :: "ksys \<Rightarrow> kr_state \<Rightarrow> kroute_r \<Rightarrow> (int \<times> kr_state) res" where
  "kroute_uninstall y s r =
     (if has_flag (kr_flags r) F_LDPD_INSERTED
      then bindE (send_rtmsg y s RTM_DELETE r FAM_MPLS) (\<lambda>(rc, s1). Inr (if rc = -1 then -1 else 0, s1))
      else Inr (0, s))"

definition del_nth :: "nat \<Rightarrow> 'a list \<Rightarrow> 'a list" where
  "del_nth i xs = take i xs @ drop (Suc i) xs"

definition drop_node :: "nat \<Rightarrow> nat \<Rightarrow> kroute_prefix \<Rightarrow> kroute_prefix" where
  "drop_node i j kp =
     (let p = (kp_priorities kp ! i)\<lparr>kprio_nexthops := del_nth j (kprio_nexthops (kp_priorities kp ! i))\<rparr>
      in kp\<lparr>kp_priorities :=
           (if kprio_nexthops p = [] then del_nth i (kp_priorities kp) else (kp_priorities kp)[i := p])\<rparr>)"

text \<open>\<open>RB_REMOVE\<close> of a prefix that is in the tree does not fail.\<close>

definition kroute_remove :: "ksys \<Rightarrow> kr_state \<Rightarrow> 'a kroute_scheme \<Rightarrow> (int \<times> kr_state) res" where
  "kroute_remove y s kr =
     bindE (kroute_lookup s (kr_af kr) (kr_prefix kr) (kr_prefixlen kr) (kr_priority kr) (kr_nexthop kr)) (\<lambda>x.
     case x of
       None \<Rightarrow> Inr (-1, s)
     | Some (k, i, j) \<Rightarrow>
         bindE (get_kn s k i j) (\<lambda>r.
         let (r1, os) = kr_redist_remove r (k_out s) in
         bindE (kroute_uninstall y (s\<lparr>k_out := os\<rparr>) r1) (\<lambda>(_, s1).
         let s2 = upd_kp s1 k (drop_node i j) in
         bindE (get_kp s2 k) (\<lambda>kp.
         if kp_priorities kp = [] then Inr (0, s2\<lparr>k_krt := rb_remove (k_krt s2) k\<rparr>)
         else bindE (kr_redistribute s2 k) (\<lambda>s3. Inr (0, s3))))))"

definition clear_node :: "ksys \<Rightarrow> kr_state \<Rightarrow> kroute_r \<Rightarrow> kr_state res" where
  "clear_node y s r =
     (let (r1, os) = kr_redist_remove r (k_out s)
      in bindE (kroute_uninstall y (s\<lparr>k_out := os\<rparr>) r1) (\<lambda>(_, s1). Inr s1))"

definition kroute_clear :: "ksys \<Rightarrow> kr_state \<Rightarrow> kr_state res" where
  "kroute_clear y s =
     foldE (\<lambda>s k. bindE (get_kp s k) (\<lambda>kp.
       bindE (foldE (clear_node y) (concat (map kprio_nexthops (kp_priorities kp))) s) (\<lambda>s1.
       Inr (s1\<lparr>k_krt := rb_remove (k_krt s1) k\<rparr>)))) (rb_keys (k_krt s)) s"

section \<open>Longest-prefix match\<close>

fun match_loop :: "kr_state \<Rightarrow> af \<Rightarrow> ldpd_addr \<Rightarrow> ldpd_addr \<Rightarrow> nat \<Rightarrow> (fec \<times> kroute_priority) option res" where
  "match_loop s af key addr i =
     bindE (ldp_applymask af addr key i) (\<lambda>addr1.
     let r = (case kroute_find_prefix s af addr1 (of_nat i) of
                None \<Rightarrow> None
              | Some (k, kp) \<Rightarrow>
                  map_option (\<lambda>p. (k, kp_priorities kp ! p)) (kroute_find_prio kp RTP_ANY))
     in if r \<noteq> None then Inr r
        else (case i of 0 \<Rightarrow> Inr None | Suc i1 \<Rightarrow> match_loop s af key addr1 i1))"

declare match_loop.simps [simp del]

text \<open>The variable \<open>addr\<close> starts uninitialised; its value here is any.\<close>

definition kroute_match :: "kr_state \<Rightarrow> ldpd_addr \<Rightarrow> af \<Rightarrow> ldpd_addr \<Rightarrow> (fec \<times> kroute_priority) option res" where
  "kroute_match s addr af key =
     (case af of
        AF_INET \<Rightarrow> match_loop s af key addr 32
      | AF_INET6 \<Rightarrow> match_loop s af key addr 128
      | AF_UNSPEC \<Rightarrow> Inr None)"

section \<open>Labels\<close>

definition label_route :: "kroute_r \<Rightarrow> bool" where
  "label_route r \<longleftrightarrow> ldp_addrisset (kr_af r) (kr_nexthop r) \<and> kr_remote_label r \<noteq> NO_LABEL"

definition kr_change :: "ksys \<Rightarrow> kr_state \<Rightarrow> 'a kroute_scheme \<Rightarrow> (int \<times> kr_state) res" where
  "kr_change y s kr =
     bindE (kroute_lookup s (kr_af kr) (kr_prefix kr) (kr_prefixlen kr) (kr_priority kr) (kr_nexthop kr)) (\<lambda>x.
     case x of
       None \<Rightarrow> Inr (-1, s)
     | Some (k, i, j) \<Rightarrow>
         bindE (get_kn s k i j) (\<lambda>r.
         let action = (if has_flag (kr_flags r) F_LDPD_INSERTED then RTM_CHANGE else RTM_ADD);
             r1 = r\<lparr>kr_local_label := kr_local_label kr, kr_remote_label := kr_remote_label kr,
                    kr_flags := set_flag (kr_flags r) F_LDPD_INSERTED\<rparr>
         in bindE (send_rtmsg y (set_kn s k i j r1) action r1 FAM_MPLS) (\<lambda>(rc, s1).
            if rc = -1 then Inr (-1, s1)
            else if label_route r1 then
              bindE (send_rtmsg y s1 RTM_CHANGE r1 FAM_INET) (\<lambda>(rc2, s2).
              Inr (if rc2 = -1 then -1 else 0, s2))
            else Inr (0, s1))))"

definition kr_delete :: "ksys \<Rightarrow> kr_state \<Rightarrow> 'a kroute_scheme \<Rightarrow> (int \<times> kr_state) res" where
  "kr_delete y s kr =
     bindE (kroute_lookup s (kr_af kr) (kr_prefix kr) (kr_prefixlen kr) (kr_priority kr) (kr_nexthop kr)) (\<lambda>x.
     case x of
       None \<Rightarrow> Inr (0, s)
     | Some (k, i, j) \<Rightarrow>
         bindE (get_kn s k i j) (\<lambda>r.
         if \<not> has_flag (kr_flags r) F_LDPD_INSERTED then Inr (0, s)
         else bindE (send_rtmsg y s RTM_DELETE r FAM_MPLS) (\<lambda>(rc, s1).
           if rc = -1 then Inr (-1, s1)
           else
             let r1 = r\<lparr>kr_flags := clear_flag (kr_flags r) F_LDPD_INSERTED,
                        kr_local_label := NO_LABEL, kr_remote_label := NO_LABEL\<rparr>;
                 s2 = set_kn s1 k i j r1
             in if label_route r
                then bindE (send_rtmsg y s2 RTM_CHANGE r1 FAM_INET) (\<lambda>(rc2, s3).
                       Inr (if rc2 = -1 then -1 else 0, s3))
                else Inr (0, s2))))"

definition egress_label :: "bool \<Rightarrow> kroute_r \<Rightarrow> kroute_r" where
  "egress_label was_implicit r =
     (if kr_local_label r > MPLS_LABEL_RESERVED_MAX then r
      else if \<not> was_implicit then r\<lparr>kr_local_label := MPLS_LABEL_IMPLNULL\<rparr>
      else (case kr_af r of
              AF_INET \<Rightarrow> r\<lparr>kr_local_label := MPLS_LABEL_IPV4NULL\<rparr>
            | AF_INET6 \<Rightarrow> r\<lparr>kr_local_label := MPLS_LABEL_IPV6NULL\<rparr>
            | AF_UNSPEC \<Rightarrow> r))"

definition map_nodes :: "(kroute_r \<Rightarrow> kroute_r) \<Rightarrow> kroute_prefix \<Rightarrow> kroute_prefix" where
  "map_nodes f kp =
     kp\<lparr>kp_priorities := map (\<lambda>p. p\<lparr>kprio_nexthops := map f (kprio_nexthops p)\<rparr>) (kp_priorities kp)\<rparr>"

definition kr_change_egress_label :: "kr_state \<Rightarrow> af \<Rightarrow> bool \<Rightarrow> kr_state" where
  "kr_change_egress_label s af was_implicit =
     foldl (\<lambda>s k. upd_kp s k (\<lambda>kp. if kp_af kp \<noteq> af then kp else map_nodes (egress_label was_implicit) kp))
       s (rb_keys (k_krt s))"

section \<open>Pseudowire interfaces\<close>

definition PW_TYPE_ETHERNET_TAGGED :: u16 where [const_defs]: "PW_TYPE_ETHERNET_TAGGED = 0x0004"
definition PW_TYPE_ETHERNET :: u16 where [const_defs]: "PW_TYPE_ETHERNET = 0x0005"

definition set_mpwcfg :: "ksys \<Rightarrow> kr_state \<Rightarrow> string \<Rightarrow> ifmpwreq option \<Rightarrow> int \<times> kr_state" where
  "set_mpwcfg y s ifname imr =
     (let ok = ks_ioctl y (k_out s) ifname imr
      in (if ok then 0 else -1, kr_emit s (Set_mpw ifname imr ok)))"

definition kmpw_install :: "ksys \<Rightarrow> kr_state \<Rightarrow> string \<Rightarrow> kpw \<Rightarrow> (int \<times> kr_state) res" where
  "kmpw_install y s ifname kpw =
     (if kpw_pw_type kpw = PW_TYPE_ETHERNET \<or> kpw_pw_type kpw = PW_TYPE_ETHERNET_TAGGED then
        bindE (addr2sa (kpw_af kpw) (kpw_nexthop kpw) 0) (\<lambda>sa.
        Inr (set_mpwcfg y s ifname (Some
          \<lparr>imr_kind = (if kpw_pw_type kpw = PW_TYPE_ETHERNET then IMR_TYPE_ETHERNET else IMR_TYPE_ETHERNET_TAGGED),
           imr_cword = has_flag (kpw_flags kpw) F_PW_CWORD, imr_nexthop = sa,
           imr_lshim = kpw_local_label kpw, imr_rshim = kpw_remote_label kpw\<rparr>)))
      else Inr (-1, s))"

definition kmpw_uninstall :: "ksys \<Rightarrow> kr_state \<Rightarrow> string \<Rightarrow> int \<times> kr_state" where
  "kmpw_uninstall y s ifname = set_mpwcfg y s ifname None"

definition kif_find :: "kr_state \<Rightarrow> u16 \<Rightarrow> kif_node option" where
  "kif_find s ifindex = rb_find (k_kit s) ifindex"

definition upd_kif :: "kr_state \<Rightarrow> u16 \<Rightarrow> (kif_node \<Rightarrow> kif_node) \<Rightarrow> kr_state" where
  "upd_kif s i f = s\<lparr>k_kit := rb_update (k_kit s) i f\<rparr>"

definition kmpw_set :: "ksys \<Rightarrow> kr_state \<Rightarrow> kpw \<Rightarrow> (int \<times> kr_state) res" where
  "kmpw_set y s kpw =
     (case kif_find s (kpw_ifindex kpw) of
        None \<Rightarrow> Inr (-1, s)
      | Some kif \<Rightarrow>
          kmpw_install y (upd_kif s (kpw_ifindex kpw) (\<lambda>kif. kif\<lparr>kif_kpw := Some kpw\<rparr>))
            (kif_ifname (kif_k kif)) kpw)"

definition kmpw_unset :: "ksys \<Rightarrow> kr_state \<Rightarrow> kpw \<Rightarrow> int \<times> kr_state" where
  "kmpw_unset y s kpw =
     (case kif_find s (kpw_ifindex kpw) of
        None \<Rightarrow> (-1, s)
      | Some kif \<Rightarrow>
          if kif_kpw kif = None then (-1, s)
          else kmpw_uninstall y (upd_kif s (kpw_ifindex kpw) (\<lambda>kif. kif\<lparr>kif_kpw := None\<rparr>))
                 (kif_ifname (kif_k kif)))"

section \<open>Coupling with the kernel's table\<close>

text \<open>\<open>RB_FOREACH\<close> over the interfaces; the nodes of the first priority of every prefix.\<close>

definition kif_foreach :: "kr_state \<Rightarrow> u16 list" where
  "kif_foreach s = rev (rb_keys (k_kit s))"

definition first_nodes :: "kroute_prefix \<Rightarrow> kroute_r list" where
  "first_nodes kp = (case kp_priorities kp of [] \<Rightarrow> [] | p # _ \<Rightarrow> kprio_nexthops p)"

definition couple_node :: "ksys \<Rightarrow> kr_state \<Rightarrow> kroute_r \<Rightarrow> kr_state res" where
  "couple_node y s r =
     (if \<not> has_flag (kr_flags r) F_LDPD_INSERTED then Inr s
      else bindE (send_rtmsg y s RTM_ADD r FAM_MPLS) (\<lambda>(_, s1).
        if label_route r then bindE (send_rtmsg y s1 RTM_CHANGE r FAM_INET) (\<lambda>(_, s2). Inr s2)
        else Inr s1))"

definition decouple_node :: "ksys \<Rightarrow> kr_state \<Rightarrow> kroute_r \<Rightarrow> kr_state res" where
  "decouple_node y s r =
     (if \<not> has_flag (kr_flags r) F_LDPD_INSERTED then Inr s
      else bindE (send_rtmsg y s RTM_DELETE r FAM_MPLS) (\<lambda>(_, s1).
        if label_route r
        then bindE (send_rtmsg y s1 RTM_CHANGE (r\<lparr>kr_remote_label := NO_LABEL\<rparr>) FAM_INET) (\<lambda>(_, s2). Inr s2)
        else Inr s1))"

definition each_first_node :: "(kr_state \<Rightarrow> kroute_r \<Rightarrow> kr_state res) \<Rightarrow> kr_state \<Rightarrow> kr_state res" where
  "each_first_node f s =
     foldE (\<lambda>s k. bindE (get_kp s k) (\<lambda>kp. foldE f (first_nodes kp) s)) (rb_keys (k_krt s)) s"

definition each_kpw :: "(kr_state \<Rightarrow> string \<Rightarrow> kpw \<Rightarrow> kr_state res) \<Rightarrow> kr_state \<Rightarrow> kr_state res" where
  "each_kpw f s =
     foldE (\<lambda>s i. case kif_find s i of
         None \<Rightarrow> Inl NullDeref
       | Some kif \<Rightarrow> (case kif_kpw kif of None \<Rightarrow> Inr s | Some kpw \<Rightarrow> f s (kif_ifname (kif_k kif)) kpw))
       (kif_foreach s) s"

definition kr_fib_couple :: "ksys \<Rightarrow> kr_state \<Rightarrow> kr_state res" where
  "kr_fib_couple y s =
     (if k_fib_sync s then Inr s
      else bindE (each_first_node (couple_node y) (s\<lparr>k_fib_sync := True\<rparr>))
             (each_kpw (\<lambda>s ifname kpw. bindE (kmpw_install y s ifname kpw) (\<lambda>(_, s1). Inr s1))))"

definition kr_fib_decouple :: "ksys \<Rightarrow> kr_state \<Rightarrow> kr_state res" where
  "kr_fib_decouple y s =
     (if \<not> k_fib_sync s then Inr s
      else bindE (each_first_node (decouple_node y) s) (\<lambda>s1.
        bindE (each_kpw (\<lambda>s ifname _. Inr (snd (kmpw_uninstall y s ifname))) s1) (\<lambda>s2.
        Inr (s2\<lparr>k_fib_sync := False\<rparr>))))"

end
