(* ===== verification/Kr_Rtsock.thy ===== *)
theory Kr_Rtsock
  imports Kr_Table
begin

text \<open>
  The interfaces of \<^verbatim>\<open>kroute.c\<close> and the messages read from the routing socket. The layout of these
  messages is that of the system's headers, which are not part of the sources: a buffer is given by
  what the code reads in it, a header at the offset of every message (\<open>b_hdr\<close>) and a socket
  address at every offset (\<open>b_sa\<close>), the latter with the members of the structures the code casts
  it to.
\<close>

section \<open>Interfaces\<close>

definition kif_findname :: "kr_state \<Rightarrow> string \<Rightarrow> kif_r option" where
  "kif_findname s ifname =
     find (\<lambda>k. kif_ifname k = ifname) (map kif_k (List.map_filter (kif_find s) (kif_foreach s)))"

definition kif_insert :: "kr_state \<Rightarrow> u16 \<Rightarrow> kr_state res" where
  "kif_insert s ifindex =
     (let (t, old) = rb_insert (k_kit s) ifindex
            \<lparr>kif_addrs = [], kif_k = \<lparr>kif_ifname = [], kif_ifindex = ifindex, kif_flags = 0, kif_link_state = 0,
               kif_if_type = 0, kif_mtu = 0, kif_baudrate = 0\<rparr>, kif_kpw = None\<rparr>
      in if old \<noteq> None then Inl (Fatalx ''kif_insert: RB_INSERT'') else Inr (s\<lparr>k_kit := t\<rparr>))"

definition send_addrs :: "(kaddr \<Rightarrow> main_imsg) \<Rightarrow> kaddr list \<Rightarrow> kr_state \<Rightarrow> kr_state" where
  "send_addrs f as s = s\<lparr>k_out := k_out s @ map (\<lambda>a. To_ldpe (f a)) as\<rparr>"

definition kif_remove :: "kr_state \<Rightarrow> u16 \<Rightarrow> int \<times> kr_state" where
  "kif_remove s i =
     (case kif_find s i of
        None \<Rightarrow> (-1, s)
      | Some kif \<Rightarrow> (0, send_addrs IMSG_DELADDR (kif_addrs kif) (s\<lparr>k_kit := rb_remove (k_kit s) i\<rparr>)))"

definition kif_clear :: "kr_state \<Rightarrow> kr_state" where
  "kif_clear s = foldl (\<lambda>s i. snd (kif_remove s i)) s (kif_foreach s)"

definition kif_redistribute :: "kr_state \<Rightarrow> string option \<Rightarrow> kr_state" where
  "kif_redistribute s ifname =
     foldl (\<lambda>s i. case kif_find s i of
         None \<Rightarrow> s
       | Some kif \<Rightarrow>
           if ifname \<noteq> None \<and> ifname \<noteq> Some (kif_ifname (kif_k kif)) then s
           else send_addrs IMSG_NEWADDR (kif_addrs kif) s)
       s (kif_foreach s)"

record if_data =
  ifi_link_state :: u8
  ifi_type :: u8
  ifi_baudrate :: "64 word"
  ifi_mtu :: u32

text \<open>
  A socket address as the code reads it: its length and family, the member \<^verbatim>\<open>sin_addr\<close> of a
  \<^verbatim>\<open>sockaddr_in\<close>, the bytes from \<^verbatim>\<open>sin6_addr\<close> on and the \<^verbatim>\<open>sin6_scope_id\<close> of a \<^verbatim>\<open>sockaddr_in6\<close>, and the
  name of a \<^verbatim>\<open>sockaddr_dl\<close>.
\<close>

datatype sa_family = SAF_INET | SAF_INET6 | SAF_LINK | SAF_OTHER

record rt_sockaddr =
  sa_len :: u8
  sa_family :: sa_family
  sa_in :: in_addr
  sa_in6 :: bytes
  sa_scope_id :: u32
  sdl_nlen :: u8
  sdl_data :: string

abbreviation sa_in6_addr :: "rt_sockaddr \<Rightarrow> in6_addr" where
  "sa_in6_addr sa \<equiv> take 16 (sa_in6 sa)"

text \<open>\<^verbatim>\<open>mask2prefixlen6\<close> reads up to \<^verbatim>\<open>sin6_len\<close>; the address starts at the offset 8.\<close>

definition sa_mask6 :: "rt_sockaddr \<Rightarrow> u8 res" where
  "sa_mask6 sa = mask2prefixlen6 0 (take (unat (sa_len sa) - 8) (sa_in6 sa))"

definition kif_name :: "string \<Rightarrow> rt_sockaddr option \<Rightarrow> string" where
  "kif_name old sdl =
     (case sdl of
        None \<Rightarrow> old
      | Some sa \<Rightarrow>
          if sa_family sa \<noteq> SAF_LINK then old
          else let n = (if unat (sdl_nlen sa) \<ge> IF_NAMESIZE then IF_NAMESIZE - 1 else unat (sdl_nlen sa))
               in take n (sdl_data sa) @ drop n old)"

definition link_up :: "kif_r \<Rightarrow> bool" where
  "link_up k \<longleftrightarrow> has_flag (kif_flags k) IFF_UP \<and> LINK_STATE_IS_UP (kif_link_state k)"

text \<open>\<^verbatim>\<open>kif_update\<close> returns the interface and \<^verbatim>\<open>link_old\<close>, which its caller has set to 0.\<close>

definition kif_update :: "kr_state \<Rightarrow> u16 \<Rightarrow> u32 \<Rightarrow> if_data \<Rightarrow> rt_sockaddr option \<Rightarrow> (bool \<times> kr_state) res" where
  "kif_update s ifindex flags ifd sdl =
     bindE (case kif_find s ifindex of
              None \<Rightarrow> bindE (kif_insert s ifindex) (\<lambda>s1. Inr (False, s1))
            | Some kif \<Rightarrow> Inr (link_up (kif_k kif), s)) (\<lambda>(link_old, s1).
     Inr (link_old, upd_kif s1 ifindex (\<lambda>kif. kif\<lparr>kif_k := (kif_k kif)\<lparr>kif_flags := flags,
        kif_link_state := ifi_link_state ifd, kif_if_type := ifi_type ifd, kif_baudrate := ifi_baudrate ifd,
        kif_mtu := ifi_mtu ifd, kif_ifname := kif_name (kif_ifname (kif_k kif)) sdl\<rparr>\<rparr>)))"

definition if_change :: "kr_state \<Rightarrow> u16 \<Rightarrow> u32 \<Rightarrow> if_data \<Rightarrow> rt_sockaddr option \<Rightarrow> kr_state res" where
  "if_change s ifindex flags ifd sdl =
     bindE (kif_update s ifindex flags ifd sdl) (\<lambda>(link_old, s1).
     case kif_find s1 ifindex of
       None \<Rightarrow> Inl NullDeref
     | Some kif \<Rightarrow>
         let link_new = link_up (kif_k kif) in
         if link_new = link_old then Inr s1
         else
           let s2 = kr_emit s1 (To_ldpe (IMSG_IFSTATUS (kif.truncate (kif_k kif))))
           in Inr (send_addrs (if link_new then IMSG_NEWADDR else IMSG_DELADDR) (kif_addrs kif) s2))"

text \<open>
  An address of a message is a pointer that may be null. The common part of the two functions below:
  \<open>None\<close> for an address the daemon ignores.
\<close>

definition sa_deref :: "rt_sockaddr option \<Rightarrow> rt_sockaddr res" where
  "sa_deref sa = (case sa of None \<Rightarrow> Inl NullDeref | Some x \<Rightarrow> Inr x)"

definition if_kaddr :: "u16 \<Rightarrow> rt_sockaddr \<Rightarrow> rt_sockaddr option \<Rightarrow> rt_sockaddr option \<Rightarrow> kaddr option res" where
  "if_kaddr ifindex ifa msk brd =
     (case sa_family ifa of
        SAF_INET \<Rightarrow>
          if bad_addr_v4 (sa_in ifa) then Inr None
          else
            bindE (if msk \<noteq> None then bindE (sa_deref msk) (\<lambda>m. Inr (of_nat (mask2prefixlen (sa_in m)))) else Inr 0) (\<lambda>l.
            bindE (if brd \<noteq> None then bindE (sa_deref brd) (\<lambda>b. Inr (of_v4 (sa_in b))) else Inr (replicate 16 0)) (\<lambda>d.
            Inr (Some \<lparr>ka_ifindex = ifindex, ka_af = AF_INET, ka_addr = of_v4 (sa_in ifa),
                       ka_prefixlen = l, ka_dstbrd = d\<rparr>)))
      | SAF_INET6 \<Rightarrow>
          if bad_addr_v6 (sa_in6_addr ifa) then Inr None
          else
            bindE (if msk \<noteq> None then bindE (sa_deref msk) sa_mask6 else Inr 0) (\<lambda>l.
            bindE (if brd \<noteq> None then bindE (sa_deref brd) (\<lambda>b. Inr (sa_in6_addr b)) else Inr (replicate 16 0)) (\<lambda>d.
            Inr (Some \<lparr>ka_ifindex = ifindex, ka_af = AF_INET6, ka_addr = clearscope (sa_in6_addr ifa),
                       ka_prefixlen = l, ka_dstbrd = d\<rparr>)))
      | _ \<Rightarrow> Inr None)"

definition if_newaddr :: "kr_state \<Rightarrow> u16 \<Rightarrow> rt_sockaddr option \<Rightarrow> rt_sockaddr option \<Rightarrow> rt_sockaddr option \<Rightarrow>
    kr_state res" where
  "if_newaddr s ifindex ifa msk brd =
     (case ifa of
        None \<Rightarrow> Inr s
      | Some sa \<Rightarrow>
          if kif_find s ifindex = None then Inr s
          else bindE (if_kaddr ifindex sa msk brd) (\<lambda>r.
            case r of
              None \<Rightarrow> Inr s
            | Some ka \<Rightarrow>
                Inr (kr_emit (upd_kif s ifindex (\<lambda>kif. kif\<lparr>kif_addrs := kif_addrs kif @ [ka]\<rparr>))
                       (To_ldpe (IMSG_NEWADDR ka)))))"

definition same_addr :: "kaddr \<Rightarrow> kaddr \<Rightarrow> bool res" where
  "same_addr a k =
     (if ka_af a \<noteq> ka_af k \<or> ka_prefixlen a \<noteq> ka_prefixlen k then Inr False
      else bindE (ldp_addrcmp (ka_af a) (ka_addr a) (ka_addr k)) (\<lambda>c. Inr (c = 0)))"

definition if_deladdr :: "kr_state \<Rightarrow> u16 \<Rightarrow> rt_sockaddr option \<Rightarrow> rt_sockaddr option \<Rightarrow> rt_sockaddr option \<Rightarrow>
    kr_state res" where
  "if_deladdr s ifindex ifa msk brd =
     (case ifa of
        None \<Rightarrow> Inr s
      | Some sa \<Rightarrow>
          (case kif_find s ifindex of
             None \<Rightarrow> Inr s
           | Some kif \<Rightarrow>
               bindE (if_kaddr 0 sa msk brd) (\<lambda>r.
               case r of
                 None \<Rightarrow> Inr s
               | Some k \<Rightarrow>
                   bindE (findE (\<lambda>j. same_addr (kif_addrs kif ! j) k) [0..<length (kif_addrs kif)]) (\<lambda>x.
                   case x of
                     None \<Rightarrow> Inr s
                   | Some j \<Rightarrow>
                       Inr (upd_kif (kr_emit s (To_ldpe (IMSG_DELADDR (kif_addrs kif ! j)))) ifindex
                              (\<lambda>kif. kif\<lparr>kif_addrs := del_nth j (kif_addrs kif)\<rparr>))))))"

datatype ifan_what = IFAN_ARRIVAL | IFAN_DEPARTURE | IFAN_OTHER

definition if_announce :: "kr_state \<Rightarrow> ifan_what \<Rightarrow> u16 \<Rightarrow> string \<Rightarrow> kr_state res" where
  "if_announce s what ifindex name =
     (case what of
        IFAN_ARRIVAL \<Rightarrow>
          bindE (kif_insert s ifindex) (\<lambda>s1.
          Inr (upd_kif s1 ifindex (\<lambda>kif. kif\<lparr>kif_k := (kif_k kif)\<lparr>kif_ifname := take (IF_NAMESIZE - 1) name\<rparr>\<rparr>)))
      | IFAN_DEPARTURE \<Rightarrow> Inr (if kif_find s ifindex = None then s else snd (kif_remove s ifindex))
      | IFAN_OTHER \<Rightarrow> Inr s)"

definition kr_shutdown :: "ksys \<Rightarrow> kr_state \<Rightarrow> kr_state res" where
  "kr_shutdown y s =
     bindE (kr_fib_decouple y s) (\<lambda>s1. bindE (kroute_clear y s1) (\<lambda>s2. Inr (kif_clear s2)))"

section \<open>Requests of the control program\<close>

text \<open>The payload of the request; \<open>None\<close> when its length is not the one the type of message has.\<close>

datatype show_req = Show_kroute "u32 option" | Show_kroute_addr "(af \<times> ldpd_addr) option" | Show_other

definition prefix_nodes :: "kroute_prefix \<Rightarrow> kroute_r list" where
  "prefix_nodes kp = concat (map kprio_nexthops (kp_priorities kp))"

definition kr_show_route :: "kr_state \<Rightarrow> ldpd_addr \<Rightarrow> int \<Rightarrow> show_req \<Rightarrow> kr_state res" where
  "kr_show_route s addr pid req =
     (case req of
        Show_kroute None \<Rightarrow> Inr s
      | Show_kroute_addr None \<Rightarrow> Inr s
      | Show_kroute (Some flags) \<Rightarrow>
          bindE (foldE (\<lambda>s k. bindE (get_kp s k) (\<lambda>kp.
              Inr (foldl (\<lambda>s r. if flags \<noteq> 0 \<and> \<not> has_flag (ucast (kr_flags r)) flags then s
                                else kr_emit s (Ctl_kroute pid r)) s (prefix_nodes kp))))
            (rb_keys (k_krt s)) s) (\<lambda>s1. Inr (kr_emit s1 (Ctl_end pid)))
      | Show_kroute_addr (Some (af, prefix)) \<Rightarrow>
          bindE (kroute_match s addr af prefix) (\<lambda>r.
          Inr (kr_emit (case r of
                  None \<Rightarrow> s
                | Some (_, kprio) \<Rightarrow> foldl (\<lambda>s r. kr_emit s (Ctl_kroute pid r)) s (kprio_nexthops kprio))
               (Ctl_end pid)))
      | Show_other \<Rightarrow> Inr (kr_emit s (Ctl_end pid)))"

definition kr_ifinfo :: "kr_state \<Rightarrow> string option \<Rightarrow> int \<Rightarrow> kr_state" where
  "kr_ifinfo s ifname pid =
     kr_emit (foldl (\<lambda>s i. case kif_find s i of
         None \<Rightarrow> s
       | Some kif \<Rightarrow> if ifname = None \<or> ifname = Some (kif_ifname (kif_k kif))
                     then kr_emit s (Ctl_ifinfo pid (kif_k kif)) else s) s (kif_foreach s)) (Ctl_end pid)"

section \<open>Messages of the routing socket\<close>

definition prefixlen_classful :: "u32 \<Rightarrow> u8" where
  "prefixlen_classful ina =
     (if ina \<ge> 0xf0000000 then 32
      else if ina \<ge> 0xe0000000 then 4
      else if ina \<ge> 0xc0000000 then 24
      else if ina \<ge> 0x80000000 then 16
      else 8)"

text \<open>The headers \<^verbatim>\<open>rt_msghdr\<close>, \<^verbatim>\<open>if_msghdr\<close>, \<^verbatim>\<open>ifa_msghdr\<close> and \<^verbatim>\<open>if_announcemsghdr\<close>, as the code reads them.\<close>

record rt_msghdr =
  rtm_msglen :: u16
  rtm_version_ok :: bool
  rtm_kind :: rtm_type
  rtm_hdrlen :: u16
  rtm_index :: u16
  rtm_tableid :: u16
  rtm_priority :: u8
  rtm_addrs :: u32
  rtm_flags :: u32
  rtm_pid :: int
  rtm_errno :: int
  ifm_data :: if_data
  ifan_what :: ifan_what
  ifan_name :: string

record rtbuf =
  b_hdr :: "nat \<Rightarrow> rt_msghdr"
  b_sa :: "nat \<Rightarrow> rt_sockaddr"

definition RTAX_DST :: nat where [const_defs]: "RTAX_DST = 0"
definition RTAX_GATEWAY :: nat where [const_defs]: "RTAX_GATEWAY = 1"
definition RTAX_NETMASK :: nat where [const_defs]: "RTAX_NETMASK = 2"
definition RTAX_IFP :: nat where [const_defs]: "RTAX_IFP = 4"
definition RTAX_IFA :: nat where [const_defs]: "RTAX_IFA = 5"
definition RTAX_BRD :: nat where [const_defs]: "RTAX_BRD = 7"
definition RTAX_MAX :: nat where [const_defs]: "RTAX_MAX = 15"

definition ROUNDUP :: "nat \<Rightarrow> nat" where
  "ROUNDUP a = (if a mod 8 \<noteq> 0 then 8 * (a div 8 + 1) else a)"

fun get_rtaddrs :: "rtbuf \<Rightarrow> u32 \<Rightarrow> nat \<Rightarrow> nat list \<Rightarrow> rt_sockaddr option list" where
  "get_rtaddrs b addrs sa [] = []"
| "get_rtaddrs b addrs sa (i # ns) =
     (if bit addrs i then Some (b_sa b sa) # get_rtaddrs b addrs (sa + ROUNDUP (unat (sa_len (b_sa b sa)))) ns
      else None # get_rtaddrs b addrs sa ns)"

text \<open>
  The route a message describes; \<open>None\<close> when its family is not one of the daemon's. \<open>rtm_has_mask\<close> is the
  test \<^verbatim>\<open>mask != NULL && mask->sa_len != 0\<close>.
\<close>

definition rtm_has_mask :: "rt_sockaddr option \<Rightarrow> bool res" where
  "rtm_has_mask msk = (if msk = None then Inr False else bindE (sa_deref msk) (\<lambda>m. Inr (sa_len m \<noteq> 0)))"

definition rtm_prefix :: "rt_msghdr \<Rightarrow> rt_sockaddr \<Rightarrow> rt_sockaddr option \<Rightarrow> (af \<times> ldpd_addr \<times> u8) option res" where
  "rtm_prefix rtm sa msk =
     (case sa_family sa of
        SAF_INET \<Rightarrow>
          bindE (rtm_has_mask msk) (\<lambda>masked.
          bindE (if masked then bindE (sa_deref msk) (\<lambda>m. Inr (of_nat (mask2prefixlen (sa_in m))))
                 else if has_flag (rtm_flags rtm) RTF_HOST then Inr 32
                 else if sa_in sa = 0 then Inr 0
                 else Inr (prefixlen_classful (sa_in sa))) (\<lambda>l.
          Inr (Some (AF_INET, of_v4 (sa_in sa), l))))
      | SAF_INET6 \<Rightarrow>
          bindE (rtm_has_mask msk) (\<lambda>masked.
          bindE (if masked then bindE (sa_deref msk) sa_mask6
                 else if has_flag (rtm_flags rtm) RTF_HOST then Inr 128
                 else if sa_in6_addr sa = replicate 16 0 then Inr 0
                 else Inl (Fatalx ''in6 net addr without netmask'')) (\<lambda>l.
          Inr (Some (AF_INET6, sa_in6_addr sa, l))))
      | _ \<Rightarrow> Inr None)"

text \<open>The gateway: next hop, interface index and the flag it sets.\<close>

definition rtm_gateway :: "rt_msghdr \<Rightarrow> rt_sockaddr option \<Rightarrow> ldpd_addr \<times> u16 \<times> u16" where
  "rtm_gateway rtm gw =
     (case gw of
        None \<Rightarrow> (replicate 16 0, rtm_index rtm, 0)
      | Some sa \<Rightarrow>
          (case sa_family sa of
             SAF_INET \<Rightarrow> (of_v4 (sa_in sa), rtm_index rtm, 0)
           | SAF_INET6 \<Rightarrow>
               let sa6 = recoverscope \<lparr>sin6_addr = sa_in6_addr sa, sin6_scope_id = sa_scope_id sa\<rparr>
               in (sin6_addr sa6, if sin6_scope_id sa6 \<noteq> 0 then ucast (sin6_scope_id sa6) else rtm_index rtm, 0)
           | SAF_LINK \<Rightarrow> (replicate 16 0, rtm_index rtm, F_CONNECTED)
           | SAF_OTHER \<Rightarrow> (replicate 16 0, rtm_index rtm, 0)))"

definition rtm_kroute :: "rt_msghdr \<Rightarrow> rt_sockaddr \<Rightarrow> rt_sockaddr option \<Rightarrow> rt_sockaddr option \<Rightarrow> kroute_r option res" where
  "rtm_kroute rtm dst msk gw =
     bindE (rtm_prefix rtm dst msk) (\<lambda>r.
     case r of
       None \<Rightarrow> Inr None
     | Some (af, prefix, prefixlen) \<Rightarrow>
         let (nexthop, ifindex, f0) = rtm_gateway rtm gw;
             f1 = (if has_flag (rtm_flags rtm) RTF_STATIC then f0 OR F_STATIC else f0);
             f2 = (if has_flag (rtm_flags rtm) RTF_BLACKHOLE then f1 OR F_BLACKHOLE else f1);
             f3 = (if has_flag (rtm_flags rtm) RTF_REJECT then f2 OR F_REJECT else f2);
             f4 = (if has_flag (rtm_flags rtm) RTF_DYNAMIC then f3 OR F_DYNAMIC else f3)
         in bindE (if has_flag (rtm_flags rtm) RTF_CONNECTED then Inr True
                   else bindE (ldp_addrcmp af prefix nexthop) (\<lambda>c. Inr (c = 0))) (\<lambda>connected.
            Inr (Some \<lparr>kr_af = af, kr_prefix = prefix, kr_prefixlen = prefixlen, kr_nexthop = nexthop,
              kr_local_label = 0, kr_remote_label = 0, kr_priority = rtm_priority rtm,
              kr_ifindex = ifindex, kr_flags = (if connected then f4 OR F_CONNECTED else f4)\<rparr>)))"

text \<open>\<^verbatim>\<open>RTM_CHANGE\<close>: the first next hop of the priority goes, whichever it is.\<close>

definition change_remove :: "ksys \<Rightarrow> kr_state \<Rightarrow> kroute_r \<Rightarrow> kr_state res" where
  "change_remove y s kr =
     (case kroute_find_prefix s (kr_af kr) (kr_prefix kr) (kr_prefixlen kr) of
        None \<Rightarrow> Inr s
      | Some (k, kp) \<Rightarrow>
          (case kroute_find_prio kp (kr_priority kr) of
             None \<Rightarrow> Inr s
           | Some i \<Rightarrow>
               (case kprio_nexthops (kp_priorities kp ! i) of
                  [] \<Rightarrow> Inr s
                | r # _ \<Rightarrow> bindE (kroute_remove y s r) (\<lambda>(_, s1). Inr s1))))"

definition kroute_process :: "ksys \<Rightarrow> kr_state \<Rightarrow> rtm_type \<Rightarrow> kroute_r \<Rightarrow> (int \<times> kr_state) res" where
  "kroute_process y s kind kr =
     bindE (if kind = RTM_CHANGE then change_remove y s kr else Inr s) (\<lambda>s1.
     bindE (kroute_lookup s1 (kr_af kr) (kr_prefix kr) (kr_prefixlen kr) (kr_priority kr) (kr_nexthop kr)) (\<lambda>kn.
     if kind = RTM_DELETE then
       (if kn = None then Inr (0, s1) else kroute_remove y s1 kr)
     else if \<not> ldp_addrisset (kr_af kr) (kr_nexthop kr) \<and> \<not> has_flag (kr_flags kr) F_CONNECTED then Inr (-1, s1)
     else
       (case kn of
          Some (k, i, j) \<Rightarrow> bindE (kr_redistribute (set_kn s1 k i j kr) k) (\<lambda>s2. Inr (0, s2))
        | None \<Rightarrow>
            bindE (kroute_insert s1 (kr\<lparr>kr_local_label := NO_LABEL, kr_remote_label := NO_LABEL\<rparr>)) (\<lambda>s2.
            Inr (0, s2)))))"

definition rtmsg_process_route :: "ksys \<Rightarrow> kr_state \<Rightarrow> rt_msghdr \<Rightarrow> rt_sockaddr option list \<Rightarrow>
    (int \<times> kr_state) res" where
  "rtmsg_process_route y s rtm rti_info =
     (case rti_info ! RTAX_DST of
        None \<Rightarrow> Inr (-1, s)
      | Some dst \<Rightarrow>
          bindE (rtm_kroute rtm dst (rti_info ! RTAX_NETMASK) (rti_info ! RTAX_GATEWAY)) (\<lambda>r.
          case r of
            None \<Rightarrow> Inr (0, s)
          | Some kr \<Rightarrow> kroute_process y s (rtm_kind rtm) kr))"

text \<open>One message of the buffer; the result \<open>-1\<close> ends the loop.\<close>

definition rtm_skip :: "kr_state \<Rightarrow> rt_msghdr \<Rightarrow> bool" where
  "rtm_skip s rtm \<longleftrightarrow>
     rtm_errno rtm \<noteq> 0 \<or> rtm_tableid rtm \<noteq> 0 \<or>
     (rtm_kind rtm = RTM_GET \<and> rtm_pid rtm \<noteq> k_pid s) \<or>
     has_flag (rtm_flags rtm) (RTF_LLINFO OR RTF_BROADCAST) \<or> rtm_priority rtm = RTP_BGP"

definition rtmsg_process_one :: "ksys \<Rightarrow> kr_state \<Rightarrow> rt_msghdr \<Rightarrow> rt_sockaddr option list \<Rightarrow> (int \<times> kr_state) res" where
  "rtmsg_process_one y s rtm rti_info =
     (case rtm_kind rtm of
        RTM_IFINFO \<Rightarrow>
          bindE (if_change s (rtm_index rtm) (rtm_flags rtm) (ifm_data rtm) (rti_info ! RTAX_IFP)) (\<lambda>s1. Inr (0, s1))
      | RTM_NEWADDR \<Rightarrow>
          if \<not> has_flag (rtm_addrs rtm) (RTA_NETMASK OR RTA_IFA OR RTA_BRD) then Inr (0, s)
          else bindE (if_newaddr s (rtm_index rtm) (rti_info ! RTAX_IFA) (rti_info ! RTAX_NETMASK)
                       (rti_info ! RTAX_BRD)) (\<lambda>s1. Inr (0, s1))
      | RTM_DELADDR \<Rightarrow>
          if \<not> has_flag (rtm_addrs rtm) (RTA_NETMASK OR RTA_IFA OR RTA_BRD) then Inr (0, s)
          else bindE (if_deladdr s (rtm_index rtm) (rti_info ! RTAX_IFA) (rti_info ! RTAX_NETMASK)
                       (rti_info ! RTAX_BRD)) (\<lambda>s1. Inr (0, s1))
      | RTM_IFANNOUNCE \<Rightarrow>
          bindE (if_announce s (ifan_what rtm) (rtm_index rtm) (ifan_name rtm)) (\<lambda>s1. Inr (0, s1))
      | RTM_OTHER \<Rightarrow> Inr (0, s)
      | _ \<Rightarrow> if rtm_skip s rtm then Inr (0, s) else rtmsg_process_route y s rtm rti_info)"

text \<open>
  The loop over the buffer, which ends when every message has a length: a message of length zero is
  read again and again. \<open>None\<close> is a loop that does not end.
\<close>

partial_function (option) rtmsg_loop ::
    "ksys \<Rightarrow> rtbuf \<Rightarrow> nat \<Rightarrow> nat \<Rightarrow> kr_state \<Rightarrow> (int \<times> kr_state) res option" where
  "rtmsg_loop y b len offset s =
     (if \<not> offset < len then Some (Inr (int offset, s))
      else
        let rtm = b_hdr b offset in
        if len < offset + 2 \<or> len < offset + unat (rtm_msglen rtm)
        then Some (Inl (Fatalx ''rtmsg_process: partial rtm in buffer''))
        else if \<not> rtm_version_ok rtm then rtmsg_loop y b len (offset + unat (rtm_msglen rtm)) s
        else
          (case rtmsg_process_one y s rtm
                  (get_rtaddrs b (rtm_addrs rtm) (offset + unat (rtm_hdrlen rtm)) [0..<RTAX_MAX]) of
             Inl e \<Rightarrow> Some (Inl e)
           | Inr (rc, s1) \<Rightarrow>
               if rc = -1 then Some (Inr (-1, s1)) else rtmsg_loop y b len (offset + unat (rtm_msglen rtm)) s1))"

definition rtmsg_process :: "ksys \<Rightarrow> kr_state \<Rightarrow> rtbuf \<Rightarrow> nat \<Rightarrow> (int \<times> kr_state) res option" where
  "rtmsg_process y s b len = rtmsg_loop y b len 0 s"

text \<open>\<^verbatim>\<open>read\<close> of the routing socket, and its handler: \<open>True\<close> when the event loop goes on.\<close>

datatype rt_read = Rt_data rtbuf nat | Rt_again | Rt_error | Rt_closed

definition dispatch_rtmsg :: "ksys \<Rightarrow> kr_state \<Rightarrow> rt_read \<Rightarrow> (int \<times> kr_state) res option" where
  "dispatch_rtmsg y s r =
     (case r of
        Rt_again \<Rightarrow> Some (Inr (0, s))
      | Rt_error \<Rightarrow> Some (Inr (-1, s))
      | Rt_closed \<Rightarrow> Some (Inr (-1, s))
      | Rt_data b n \<Rightarrow> rtmsg_process y s b n)"

definition kr_dispatch_msg :: "ksys \<Rightarrow> kr_state \<Rightarrow> rt_read \<Rightarrow> (bool \<times> kr_state) res option" where
  "kr_dispatch_msg y s r =
     map_option (\<lambda>x. bindE x (\<lambda>(rc, s1). Inr (rc \<noteq> -1, s1))) (dispatch_rtmsg y s r)"

text \<open>
  The start: the dumps of the kernel's interfaces and routes are buffers of such messages. \<open>None\<close>
  stands for a failure of \<^verbatim>\<open>sysctl\<close>; the results of the two calls of \<^verbatim>\<open>socket\<close> are arguments.
  The socket options set on the way only lead to a warning when they fail.
\<close>

definition fetchtable :: "ksys \<Rightarrow> kr_state \<Rightarrow> (rtbuf \<times> nat) option \<Rightarrow> (int \<times> kr_state) res option" where
  "fetchtable y s dump = (case dump of None \<Rightarrow> Some (Inr (-1, s)) | Some (b, len) \<Rightarrow> rtmsg_process y s b len)"

definition fetchifs :: "ksys \<Rightarrow> kr_state \<Rightarrow> (rtbuf \<times> nat) option \<Rightarrow> (int \<times> kr_state) res option" where
  "fetchifs y s dump = (case dump of None \<Rightarrow> Some (Inr (-1, s)) | Some (b, len) \<Rightarrow> rtmsg_process y s b len)"

definition kif_init :: "ksys \<Rightarrow> kr_state \<Rightarrow> (rtbuf \<times> nat) option \<Rightarrow> (int \<times> kr_state) res option" where
  "kif_init y s dump =
     map_option (\<lambda>x. bindE x (\<lambda>(rc, s1). Inr (if rc = -1 then -1 else 0, s1))) (fetchifs y s dump)"

definition kr_init :: "ksys \<Rightarrow> kr_state \<Rightarrow> bool \<Rightarrow> int \<Rightarrow> bool \<Rightarrow> (rtbuf \<times> nat) option \<Rightarrow> bool \<Rightarrow> (int \<times> kr_state) res option" where
  "kr_init y s fs pid route_socket dump ioctl_socket =
     (let s1 = s\<lparr>k_fib_sync := fs\<rparr> in
      if \<not> route_socket then Some (Inr (-1, s1))
      else map_option (\<lambda>x. bindE x (\<lambda>(rc, s2). Inr (if rc = -1 \<or> \<not> ioctl_socket then -1 else 0, s2)))
             (fetchtable y (s1\<lparr>k_pid := pid, k_rtseq := 1\<rparr>) dump))"

end
