(* ===== verification/Kr_Inv.thy ===== *)
theory Kr_Inv
  imports Kr_Rtsock
begin

text \<open>
  The invariant of the table of kernel routes, and what the label decision engine has been told of
  it. The priorities of a prefix are in ascending order, none is empty, the next hops of one
  priority are distinct; the nodes marked \<^verbatim>\<open>F_REDISTRIBUTED\<close> are the redistributable ones of the
  first priority. \<open>lde_view\<close> reads off the log of messages which routes the engine has been told of
  and not told to forget.
\<close>

section \<open>Routes and what the engine knows of them\<close>

definition nh_id :: "af \<Rightarrow> ldpd_addr \<Rightarrow> ldpd_addr" where
  "nh_id af nh = (if af = AF_INET then of_v4 (v4 nh) else nh)"

definition class_of :: "'a kroute_scheme \<Rightarrow> fec option" where
  "class_of r = kp_key (kr_af r) (kr_prefix r) (kr_prefixlen r)"

definition route_id :: "'a kroute_scheme \<Rightarrow> fec option \<times> ldpd_addr \<times> u8" where
  "route_id r = (class_of r, nh_id (kr_af r) (kr_nexthop r), kr_priority r)"

fun view_step :: "(fec option \<times> ldpd_addr \<times> u8) set \<Rightarrow> kr_out \<Rightarrow> (fec option \<times> ldpd_addr \<times> u8) set" where
  "view_step V (To_lde (NETWORK_ADD kr _)) = insert (route_id kr) V"
| "view_step V (To_lde (NETWORK_DEL kr)) = V - {route_id kr}"
| "view_step V _ = V"

definition lde_view :: "kr_out list \<Rightarrow> (fec option \<times> ldpd_addr \<times> u8) set" where
  "lde_view os = foldl view_step {} os"

abbreviation redist :: "kroute_r \<Rightarrow> bool" where
  "redist r \<equiv> has_flag (kr_flags r) F_REDISTRIBUTED"

definition all_nodes :: "kroute_priority list \<Rightarrow> kroute_r set" where
  "all_nodes ps = (\<Union>p\<in>set ps. set (kprio_nexthops p))"

definition flagged :: "kroute_r set \<Rightarrow> (fec option \<times> ldpd_addr \<times> u8) set" where
  "flagged N = route_id ` {r \<in> N. redist r}"

lemma lde_view_append: "lde_view (os @ ms) = foldl view_step (lde_view os) ms"
  by (simp add: lde_view_def)

lemma route_id_truncate [simp]: "route_id (kroute.truncate r) = route_id (r :: kroute_r)"
  by (simp add: route_id_def class_of_def kroute.truncate_def)

lemma route_id_flags [simp]:
  "route_id (r\<lparr>kr_flags := f\<rparr>) = route_id (r :: kroute_r)"
  "route_id (r\<lparr>kr_local_label := l\<rparr>) = route_id r" "route_id (r\<lparr>kr_remote_label := l\<rparr>) = route_id r"
  by (simp_all add: route_id_def class_of_def)

lemma class_of_upd [simp]:
  "class_of (r\<lparr>kr_flags := f\<rparr>) = class_of (r :: kroute_r)"
  "class_of (r\<lparr>kr_local_label := l\<rparr>) = class_of r" "class_of (r\<lparr>kr_remote_label := l\<rparr>) = class_of r"
  by (simp_all add: class_of_def)

lemma redistributable_upd [simp]:
  "redistributable (r\<lparr>kr_local_label := l\<rparr>) = redistributable r"
  "redistributable (r\<lparr>kr_remote_label := l\<rparr>) = redistributable r"
  by (cases "kr_af r"; simp add: redistributable_def bad_addr_def)+

section \<open>The loops of the redistribution\<close>

definition unredist :: "kroute_r \<Rightarrow> kroute_r" where
  "unredist r = r\<lparr>kr_flags := clear_flag (kr_flags r) F_REDISTRIBUTED\<rparr>"

definition redist_if :: "kroute_r \<Rightarrow> kroute_r" where
  "redist_if r =
     (if \<not> redist r \<and> redistributable r = Inr True
      then r\<lparr>kr_flags := set_flag (kr_flags r) F_REDISTRIBUTED\<rparr> else r)"

lemma flag_bits [simp]:
  "\<not> has_flag (clear_flag f F_REDISTRIBUTED) F_REDISTRIBUTED"
  "has_flag (set_flag f F_REDISTRIBUTED) F_REDISTRIBUTED"
  "has_flag (set_flag f F_LDPD_INSERTED) F_REDISTRIBUTED = has_flag f F_REDISTRIBUTED"
  "has_flag (clear_flag f F_LDPD_INSERTED) F_REDISTRIBUTED = has_flag f F_REDISTRIBUTED"
  by (simp_all add: has_flag_clear_same has_flag_set_same has_flag_set_other has_flag_clear_other const_defs)

lemma redistributable_flags:
  assumes "g = F_REDISTRIBUTED \<or> g = F_LDPD_INSERTED"
  shows "redistributable (r\<lparr>kr_flags := set_flag (kr_flags r) g\<rparr>) = redistributable r"
    "redistributable (r\<lparr>kr_flags := clear_flag (kr_flags r) g\<rparr>) = redistributable r"
proof -
  have "has_flag (set_flag w g) F_DYNAMIC = has_flag w F_DYNAMIC"
    "has_flag (set_flag w g) (F_BLACKHOLE OR F_REJECT) = has_flag w (F_BLACKHOLE OR F_REJECT)"
    "has_flag (clear_flag w g) F_DYNAMIC = has_flag w F_DYNAMIC"
    "has_flag (clear_flag w g) (F_BLACKHOLE OR F_REJECT) = has_flag w (F_BLACKHOLE OR F_REJECT)" for w
    using assms by (auto simp: has_flag_set_other has_flag_clear_other const_defs)
  then show "redistributable (r\<lparr>kr_flags := set_flag (kr_flags r) g\<rparr>) = redistributable r"
    "redistributable (r\<lparr>kr_flags := clear_flag (kr_flags r) g\<rparr>) = redistributable r"
    by (cases "kr_af r"; simp add: redistributable_def bad_addr_def)+
qed

lemma redistributable_total:
  "kr_af r \<noteq> AF_UNSPEC \<Longrightarrow> \<exists>b. redistributable r = Inr b"
  by (cases "kr_af r") (auto simp: redistributable_def bad_addr_def)

lemma unredist_simps [simp]:
  "route_id (unredist r) = route_id r" "class_of (unredist r) = class_of r" "\<not> redist (unredist r)"
  "kr_af (unredist r) = kr_af r" "kr_nexthop (unredist r) = kr_nexthop r" "kr_priority (unredist r) = kr_priority r"
  "redistributable (unredist r) = redistributable r"
  by (simp_all add: unredist_def redistributable_flags)

lemma redist_if_simps [simp]:
  "route_id (redist_if r) = route_id r" "class_of (redist_if r) = class_of r"
  "kr_af (redist_if r) = kr_af r" "kr_nexthop (redist_if r) = kr_nexthop r" "kr_priority (redist_if r) = kr_priority r"
  "redistributable (redist_if r) = redistributable r"
  "redist (redist_if r) \<longleftrightarrow> redist r \<or> redistributable r = Inr True"
  by (simp_all add: redist_if_def redistributable_flags)

lemma kr_redist_remove_eq:
  "fst (kr_redist_remove r os) = (if redist r then unredist r else r)"
  "lde_view (snd (kr_redist_remove r os)) = lde_view os - flagged {r}"
  by (auto simp: kr_redist_remove_def unredist_def flagged_def lde_view_append Let_def)

definition unredist_if :: "kroute_r \<Rightarrow> kroute_r" where
  "unredist_if r = (if redist r then unredist r else r)"

lemma unredist_if_simps [simp]:
  "route_id (unredist_if r) = route_id r" "class_of (unredist_if r) = class_of r" "\<not> redist (unredist_if r)"
  "kr_af (unredist_if r) = kr_af r" "kr_nexthop (unredist_if r) = kr_nexthop r"
  "kr_priority (unredist_if r) = kr_priority r" "redistributable (unredist_if r) = redistributable r"
  by (simp_all add: unredist_if_def)

lemma flagged_simps [simp]:
  "flagged {} = {}" "flagged (insert r N) = (if redist r then insert (route_id r) (flagged N) else flagged N)"
  "flagged (A \<union> B) = flagged A \<union> flagged B"
  by (auto simp: flagged_def)

lemma flagged_empty: "(\<And>r. r \<in> N \<Longrightarrow> \<not> redist r) \<Longrightarrow> flagged N = {}"
  by (auto simp: flagged_def)

lemma flagged_image: "(\<And>r. route_id (f r) = route_id r) \<Longrightarrow> flagged (f ` N) = route_id ` {r \<in> N. redist (f r)}"
  by (auto simp: flagged_def image_iff) metis

lemma remove_nodes_eq:
  "fst (remove_nodes rs os) = map unredist_if rs"
  "lde_view (snd (remove_nodes rs os)) = lde_view os - flagged (set rs)"
  by (induction rs arbitrary: os)
    (simp_all add: split_beta Let_def kr_redist_remove_eq unredist_if_def, auto)

definition with_nodes :: "(kroute_r \<Rightarrow> kroute_r) \<Rightarrow> kroute_priority \<Rightarrow> kroute_priority" where
  "with_nodes f p = p\<lparr>kprio_nexthops := map f (kprio_nexthops p)\<rparr>"

lemma with_nodes_simps [simp]:
  "kprio_priority (with_nodes f p) = kprio_priority p"
  "kprio_nexthops (with_nodes f p) = map f (kprio_nexthops p)"
  by (simp_all add: with_nodes_def)

lemma all_nodes_simps [simp]:
  "all_nodes [] = {}" "all_nodes (p # ps) = set (kprio_nexthops p) \<union> all_nodes ps"
  "all_nodes (map (with_nodes f) ps) = f ` all_nodes ps"
  "all_nodes (ps @ qs) = all_nodes ps \<union> all_nodes qs"
  by (auto simp: all_nodes_def)

lemma remove_prios_eq:
  "fst (remove_prios ps os) = map (with_nodes unredist_if) ps"
  "lde_view (snd (remove_prios ps os)) = lde_view os - flagged (all_nodes ps)"
  by (induction ps)
    (simp_all add: split_beta Let_def remove_nodes_eq with_nodes_def, auto)

lemma kr_redist_eval_eq:
  assumes "kr_af r \<noteq> AF_UNSPEC"
  shows "\<exists>os'. kr_redist_eval r os = Inr (redist_if r, os') \<and>
    lde_view os' = lde_view os \<union> (if redist (redist_if r) \<and> \<not> redist r then {route_id r} else {})"
proof -
  obtain b where "redistributable r = Inr b" using redistributable_total [OF assms] by blast
  then show ?thesis
    by (cases b) (auto simp: kr_redist_eval_def redist_if_def Let_def lde_view_append)
qed

lemma eval_nodes_eq:
  assumes "\<forall>r\<in>set rs. kr_af r \<noteq> AF_UNSPEC"
  shows "\<exists>os'. eval_nodes rs os = Inr (map redist_if rs, os') \<and>
    lde_view os' = lde_view os \<union> route_id ` {r \<in> set rs. redist (redist_if r) \<and> \<not> redist r}"
  using assms
proof (induction rs arbitrary: os)
  case (Cons r rs)
  obtain o1 where o1: "kr_redist_eval r os = Inr (redist_if r, o1)"
    "lde_view o1 = lde_view os \<union> (if redist (redist_if r) \<and> \<not> redist r then {route_id r} else {})"
    using kr_redist_eval_eq [of r os] Cons.prems by auto
  obtain o2 where "eval_nodes rs o1 = Inr (map redist_if rs, o2)"
    "lde_view o2 = lde_view o1 \<union> route_id ` {r \<in> set rs. redist (redist_if r) \<and> \<not> redist r}"
    using Cons.IH [of o1] Cons.prems by auto
  with o1 show ?case by (auto split: if_splits)
qed simp

lemma redist_prios_eq:
  assumes "\<forall>r\<in>all_nodes (p # ps). kr_af r \<noteq> AF_UNSPEC"
  shows "\<exists>os'. redist_prios (p # ps) os = Inr (with_nodes redist_if p # map (with_nodes unredist_if) ps, os') \<and>
    lde_view os' = (lde_view os - flagged (all_nodes ps)) \<union>
      route_id ` {r \<in> set (kprio_nexthops p). redist (redist_if r) \<and> \<not> redist r}"
proof -
  obtain ps1 o1 where r: "remove_prios ps os = (ps1, o1)" by fastforce
  obtain o2 where "eval_nodes (kprio_nexthops p) o1 = Inr (map redist_if (kprio_nexthops p), o2)"
    "lde_view o2 = lde_view o1 \<union> route_id ` {r \<in> set (kprio_nexthops p). redist (redist_if r) \<and> \<not> redist r}"
    using eval_nodes_eq [of "kprio_nexthops p" o1] assms by auto
  with remove_prios_eq [of ps os] r show ?thesis
    by (simp add: redist_prios_def with_nodes_def)
qed

section \<open>The invariant\<close>

definition kprio_ok :: "af \<Rightarrow> fec \<Rightarrow> kroute_priority \<Rightarrow> bool" where
  "kprio_ok af k p \<longleftrightarrow>
     kprio_nexthops p \<noteq> [] \<and> kprio_priority p \<noteq> RTP_ANY \<and>
     (\<forall>r\<in>set (kprio_nexthops p). kr_af r = af \<and> class_of r = Some k \<and> kr_priority r = kprio_priority p) \<and>
     distinct (map (nh_id af \<circ> kr_nexthop) (kprio_nexthops p))"

definition prios_ok :: "af \<Rightarrow> fec \<Rightarrow> kroute_priority list \<Rightarrow> bool" where
  "prios_ok af k ps \<longleftrightarrow> (\<forall>p\<in>set ps. kprio_ok af k p) \<and> sorted_wrt (<) (map kprio_priority ps)"

definition flags_ok :: "kroute_priority list \<Rightarrow> bool" where
  "flags_ok ps \<longleftrightarrow>
     (case ps of
        [] \<Rightarrow> True
      | p # qs \<Rightarrow> (\<forall>r\<in>set (kprio_nexthops p). redist r \<longleftrightarrow> redistributable r = Inr True) \<and>
                  (\<forall>r\<in>all_nodes qs. \<not> redist r))"

definition plen_ok :: "fec \<Rightarrow> bool" where
  "plen_ok k = (case k of FEC_IPV4 _ l \<Rightarrow> unat l \<le> 32 | _ \<Rightarrow> True)"

definition kp_ok :: "fec \<Rightarrow> kroute_prefix \<Rightarrow> bool" where
  "kp_ok k kp \<longleftrightarrow>
     plen_ok k \<and> kp_class kp = Some k \<and> kp_priorities kp \<noteq> [] \<and> prios_ok (kp_af kp) k (kp_priorities kp) \<and>
     flags_ok (kp_priorities kp)"

definition kr_inv :: "kr_state \<Rightarrow> bool" where
  "kr_inv s \<longleftrightarrow> (\<forall>k kp. fec_find (k_krt s) k = Some kp \<longrightarrow> kp_ok k kp)"

text \<open>The engine knows of exactly the marked routes, class by class.\<close>

definition known :: "kr_state \<Rightarrow> fec option \<Rightarrow> (fec option \<times> ldpd_addr \<times> u8) set" where
  "known s c = {x \<in> lde_view (k_out s). fst x = c}"

definition marked :: "kr_state \<Rightarrow> fec option \<Rightarrow> (fec option \<times> ldpd_addr \<times> u8) set" where
  "marked s c =
     (case c of
        None \<Rightarrow> {}
      | Some k \<Rightarrow> (case fec_find (k_krt s) k of None \<Rightarrow> {} | Some kp \<Rightarrow> flagged (all_nodes (kp_priorities kp))))"

definition view_ok :: "kr_state \<Rightarrow> bool" where
  "view_ok s \<longleftrightarrow> (\<forall>c. known s c = marked s c)"

lemma view_ok_iff: "view_ok s \<Longrightarrow> lde_view (k_out s) = (\<Union>c. marked s c)"
proof -
  have "lde_view (k_out s) = (\<Union>c. known s c)" by (auto simp: known_def)
  then show "view_ok s \<Longrightarrow> ?thesis" by (simp add: view_ok_def)
qed

lemma kr_invD: "kr_inv s \<Longrightarrow> fec_find (k_krt s) k = Some kp \<Longrightarrow> kp_ok k kp"
  by (simp add: kr_inv_def)

lemma kp_okD:
  assumes "kp_ok k kp"
  shows "kp_class kp = Some k" "kp_priorities kp \<noteq> []" "prios_ok (kp_af kp) k (kp_priorities kp)"
    "flags_ok (kp_priorities kp)" "kp_af kp \<noteq> AF_UNSPEC" "plen_ok k"
  using assms by (auto simp: kp_ok_def kp_key_def split: af.splits)

lemma prios_ok_nodes:
  assumes "prios_ok af k ps" "r \<in> all_nodes ps"
  shows "kr_af r = af" "class_of r = Some k" "fst (route_id r) = Some k"
  using assms by (auto simp: prios_ok_def kprio_ok_def all_nodes_def route_id_def)

lemma prios_ok_disjoint:
  assumes "prios_ok af k (p # ps)" "r \<in> set (kprio_nexthops p)" "q \<in> all_nodes ps"
  shows "route_id r \<noteq> route_id q"
proof -
  obtain p' where p': "p' \<in> set ps" "q \<in> set (kprio_nexthops p')" using assms(3) by (auto simp: all_nodes_def)
  then have "kprio_priority p < kprio_priority p'" using assms(1) by (simp add: prios_ok_def)
  moreover have "kr_priority r = kprio_priority p" "kr_priority q = kprio_priority p'"
    using assms(1,2) p' by (auto simp: prios_ok_def kprio_ok_def)
  ultimately show ?thesis by (auto simp: route_id_def)
qed

lemma flags_ok_sound:
  "flags_ok ps \<Longrightarrow> r \<in> all_nodes ps \<Longrightarrow> redist r \<Longrightarrow> redistributable r = Inr True"
  by (auto simp: flags_ok_def split: list.splits)

lemma flagged_class: "prios_ok af k ps \<Longrightarrow> x \<in> flagged (all_nodes ps) \<Longrightarrow> fst x = Some k"
  by (auto simp: flagged_def prios_ok_nodes(3))

section \<open>Redistribution of one prefix\<close>

lemma kprio_ok_with_nodes:
  assumes "kprio_ok af k p" "\<And>r. kr_af (f r) = kr_af r \<and> class_of (f r) = class_of r \<and>
     kr_priority (f r) = kr_priority r \<and> kr_nexthop (f r) = kr_nexthop r"
  shows "kprio_ok af k (with_nodes f p)"
proof -
  have "nh_id af \<circ> kr_nexthop \<circ> f = nh_id af \<circ> kr_nexthop"
    using assms(2) by (simp add: fun_eq_iff)
  with assms show ?thesis by (auto simp: kprio_ok_def)
qed

lemma prios_ok_redist:
  assumes "prios_ok af k (p # ps)"
  shows "prios_ok af k (with_nodes redist_if p # map (with_nodes unredist_if) ps)"
proof -
  have "kprio_ok af k (with_nodes redist_if q)" "kprio_ok af k (with_nodes unredist_if q)"
    if "q \<in> set (p # ps)" for q
    using assms that by (auto simp: prios_ok_def intro!: kprio_ok_with_nodes)
  with assms show ?thesis by (auto simp: prios_ok_def comp_def)
qed

lemma redist_prios_ok:
  assumes ok: "prios_ok af k (p # ps)" and af: "af \<noteq> AF_UNSPEC"
    and sound: "\<forall>r\<in>all_nodes (p # ps). redist r \<longrightarrow> redistributable r = Inr True"
  shows "\<exists>ps' os'. redist_prios (p # ps) os = Inr (ps', os') \<and> ps' \<noteq> [] \<and> prios_ok af k ps' \<and> flags_ok ps' \<and>
    {x \<in> lde_view os'. fst x \<noteq> Some k} = {x \<in> lde_view os. fst x \<noteq> Some k} \<and>
    (flagged (all_nodes (p # ps)) \<subseteq> lde_view os \<and>
     {x \<in> lde_view os. fst x = Some k} \<subseteq> flagged (all_nodes (p # ps)) \<union>
        route_id ` {r \<in> set (kprio_nexthops p). redistributable r = Inr True} \<longrightarrow>
     {x \<in> lde_view os'. fst x = Some k} = flagged (all_nodes ps'))"
proof -
  let ?ps = "with_nodes redist_if p # map (with_nodes unredist_if) ps"
  have na: "\<forall>r\<in>all_nodes (p # ps). kr_af r \<noteq> AF_UNSPEC" using prios_ok_nodes(1) [OF ok] af by blast
  obtain os' where e: "redist_prios (p # ps) os = Inr (?ps, os')"
    and v: "lde_view os' = (lde_view os - flagged (all_nodes ps)) \<union>
      route_id ` {r \<in> set (kprio_nexthops p). redist (redist_if r) \<and> \<not> redist r}"
    using redist_prios_eq [OF na] by blast
  have cls: "fst (route_id r) = Some k" if "r \<in> all_nodes (p # ps)" for r
    using prios_ok_nodes(3) [OF ok that] .
  have new: "redist (redist_if r) \<longleftrightarrow> redistributable r = Inr True" if "r \<in> set (kprio_nexthops p)" for r
    using sound that by auto
  have fl: "flags_ok ?ps" using new by (auto simp: flags_ok_def)
  have f': "flagged (all_nodes ?ps) = route_id ` {r \<in> set (kprio_nexthops p). redistributable r = Inr True}"
    using new by (auto simp: flagged_image)
  have old: "flagged (all_nodes ps) \<inter> route_id ` set (kprio_nexthops p) = {}"
    using prios_ok_disjoint [OF ok] by (fastforce simp: flagged_def)
  have other: "{x \<in> lde_view os'. fst x \<noteq> Some k} = {x \<in> lde_view os. fst x \<noteq> Some k}"
    using v cls by (auto simp: flagged_def)
  have main: "{x \<in> lde_view os'. fst x = Some k} = flagged (all_nodes ?ps)"
    if c: "flagged (all_nodes (p # ps)) \<subseteq> lde_view os" 
      "{x \<in> lde_view os. fst x = Some k} \<subseteq> flagged (all_nodes (p # ps)) \<union>
        route_id ` {r \<in> set (kprio_nexthops p). redistributable r = Inr True}"
  proof (rule set_eqI)
    fix x
    have first: "flagged (set (kprio_nexthops p)) \<subseteq> route_id ` {r \<in> set (kprio_nexthops p). redistributable r = Inr True}"
      using sound by (auto simp: flagged_def)
    show "x \<in> {x \<in> lde_view os'. fst x = Some k} \<longleftrightarrow> x \<in> flagged (all_nodes ?ps)"
    proof
      assume "x \<in> {x \<in> lde_view os'. fst x = Some k}"
      then show "x \<in> flagged (all_nodes ?ps)" unfolding f' v using c(2) first new by auto
    next
      assume "x \<in> flagged (all_nodes ?ps)"
      then obtain r where r: "x = route_id r" "r \<in> set (kprio_nexthops p)" "redistributable r = Inr True"
        unfolding f' by auto
      then have "redist r \<Longrightarrow> x \<in> lde_view os" using c(1) by (auto simp: flagged_def)
      then show "x \<in> {x \<in> lde_view os'. fst x = Some k}"
        unfolding v using r old cls [of r] new [OF r(2)] by auto
    qed
  qed
  show ?thesis using e prios_ok_redist [OF ok] fl other main by blast
qed

text \<open>The same on the state, when the other prefixes are in order.\<close>

definition others_ok :: "kr_state \<Rightarrow> fec \<Rightarrow> bool" where
  "others_ok s k \<longleftrightarrow> (\<forall>j kq. j \<noteq> k \<and> fec_find (k_krt s) j = Some kq \<longrightarrow> kp_ok j kq)"

definition others_view :: "kr_state \<Rightarrow> fec \<Rightarrow> bool" where
  "others_view s k \<longleftrightarrow> (\<forall>c. c \<noteq> Some k \<longrightarrow> known s c = marked s c)"

lemma find_upd_kp [simp]:
  "fec_find (k_krt (upd_kp s k f)) j =
     (if j = k then map_option f (fec_find (k_krt s) k) else fec_find (k_krt s) j)"
  by (simp add: upd_kp_def fec_find_def)

lemma upd_kp_sel [simp]:
  "k_out (upd_kp s k f) = k_out s" "k_kit (upd_kp s k f) = k_kit s" "k_pid (upd_kp s k f) = k_pid s"
  "k_fib_sync (upd_kp s k f) = k_fib_sync s"
  by (simp_all add: upd_kp_def)

lemma inv_others: "kr_inv s \<Longrightarrow> others_ok s k" "view_ok s \<Longrightarrow> others_view s k"
  by (auto simp: kr_inv_def others_ok_def view_ok_def others_view_def)

lemma kr_redistribute_ok:
  assumes kp: "fec_find (k_krt s) k = Some kp" and cls: "plen_ok k" "kp_class kp = Some k"
    and ps: "kp_priorities kp = p # ps" and ok: "prios_ok (kp_af kp) k (p # ps)"
    and sound: "\<forall>r\<in>all_nodes (p # ps). redist r \<longrightarrow> redistributable r = Inr True"
    and oth: "others_ok s k"
  shows "okE (kr_redistribute s k) (\<lambda>s'. kr_inv s' \<and> k_kit s' = k_kit s \<and> k_pid s' = k_pid s \<and>
    (others_view s k \<and> flagged (all_nodes (p # ps)) \<subseteq> known s (Some k) \<and>
     known s (Some k) \<subseteq> flagged (all_nodes (p # ps)) \<union>
        route_id ` {r \<in> set (kprio_nexthops p). redistributable r = Inr True} \<longrightarrow> view_ok s'))"
proof -
  have af: "kp_af kp \<noteq> AF_UNSPEC" using cls by (auto simp: kp_key_def)
  obtain ps' os' where r: "redist_prios (p # ps) (k_out s) = Inr (ps', os')" and ne: "ps' \<noteq> []"
    and ok': "prios_ok (kp_af kp) k ps'" "flags_ok ps'"
    and v1: "{x \<in> lde_view os'. fst x \<noteq> Some k} = {x \<in> lde_view (k_out s). fst x \<noteq> Some k}"
    and v2: "flagged (all_nodes (p # ps)) \<subseteq> lde_view (k_out s) \<and>
      {x \<in> lde_view (k_out s). fst x = Some k} \<subseteq> flagged (all_nodes (p # ps)) \<union>
        route_id ` {r \<in> set (kprio_nexthops p). redistributable r = Inr True} \<longrightarrow>
      {x \<in> lde_view os'. fst x = Some k} = flagged (all_nodes ps')"
    using redist_prios_ok [OF ok af sound, of "k_out s"] by (elim exE conjE) (rule that)
  define s' where "s' = (upd_kp s k (\<lambda>kp. kp\<lparr>kp_priorities := ps'\<rparr>))\<lparr>k_out := os'\<rparr>"
  have run: "kr_redistribute s k = Inr s'" by (simp add: kr_redistribute_def get_kp_def kp ps r s'_def)
  have f: "fec_find (k_krt s') j = (if j = k then Some (kp\<lparr>kp_priorities := ps'\<rparr>) else fec_find (k_krt s) j)" for j
    by (simp add: s'_def kp)
  have inv: "kr_inv s'" unfolding kr_inv_def f
    using oth ok' ne cls by (auto simp: others_ok_def kp_ok_def)
  have other: "known s' c = known s c" if "c \<noteq> Some k" for c
    using v1 that by (auto simp: known_def s'_def)
  have m: "marked s' c = (if c = Some k then flagged (all_nodes ps') else marked s c)" for c
    by (cases c) (simp_all add: marked_def f)
  have view: "view_ok s'" if "others_view s k" and a: "flagged (all_nodes (p # ps)) \<subseteq> known s (Some k)"
    and b: "known s (Some k) \<subseteq> flagged (all_nodes (p # ps)) \<union>
        route_id ` {r \<in> set (kprio_nexthops p). redistributable r = Inr True}"
  proof -
    have "known s' (Some k) = flagged (all_nodes ps')"
      using v2 a b unfolding known_def s'_def by auto
    with that(1) other show ?thesis by (auto simp: view_ok_def others_view_def m)
  qed
  show ?thesis unfolding run using inv view by (simp add: s'_def)
qed

section \<open>Steps that the engine does not see\<close>

text \<open>The members of a node the invariant speaks of: not its labels, nor the flag \<^verbatim>\<open>F_LDPD_INSERTED\<close>.\<close>

definition core :: "kroute_r \<Rightarrow> af \<times> fec option \<times> u8 \<times> ldpd_addr \<times> bool \<times> bool res" where
  "core r = (kr_af r, class_of r, kr_priority r, kr_nexthop r, redist r, redistributable r)"

definition ps_core :: "kroute_priority list \<Rightarrow> (u8 \<times> (af \<times> fec option \<times> u8 \<times> ldpd_addr \<times> bool \<times> bool res) list) list" where
  "ps_core ps = map (\<lambda>p. (kprio_priority p, map core (kprio_nexthops p))) ps"

lemma map_core_cong:
  "map core xs = map core ys \<Longrightarrow> (\<And>r t. core r = core t \<Longrightarrow> g r = g t) \<Longrightarrow> map g xs = map g ys"
proof -
  assume e: "map core xs = map core ys" and g: "\<And>r t. core r = core t \<Longrightarrow> g r = g t"
  have l: "length xs = length ys" using e by (metis length_map)
  have "g (xs ! i) = g (ys ! i)" if "i < length xs" for i
    using arg_cong [OF e, of "\<lambda>l. l ! i"] that l by (intro g) simp
  with l show "map g xs = map g ys" by (intro nth_equalityI) simp_all
qed

lemma kprio_ok_core:
  assumes "map core (kprio_nexthops p) = map core (kprio_nexthops q)" "kprio_priority p = kprio_priority q"
  shows "kprio_ok af k p = kprio_ok af k q"
proof -
  have "map (\<lambda>r. kr_af r = af \<and> class_of r = Some k \<and> kr_priority r = kprio_priority q) (kprio_nexthops p) =
      map (\<lambda>r. kr_af r = af \<and> class_of r = Some k \<and> kr_priority r = kprio_priority q) (kprio_nexthops q)"
    by (rule map_core_cong [OF assms(1)]) (simp add: core_def)
  from arg_cong [OF this, of "\<lambda>l. \<forall>b\<in>set l. b"]
  have b: "(\<forall>r\<in>set (kprio_nexthops p). kr_af r = af \<and> class_of r = Some k \<and> kr_priority r = kprio_priority q) =
      (\<forall>r\<in>set (kprio_nexthops q). kr_af r = af \<and> class_of r = Some k \<and> kr_priority r = kprio_priority q)"
    by simp
  have d: "map (nh_id af \<circ> kr_nexthop) (kprio_nexthops p) = map (nh_id af \<circ> kr_nexthop) (kprio_nexthops q)"
    by (rule map_core_cong [OF assms(1)]) (simp add: core_def)
  have n: "kprio_nexthops p = [] \<longleftrightarrow> kprio_nexthops q = []" using assms(1) by (metis map_is_Nil_conv)
  show ?thesis unfolding kprio_ok_def assms(2) b d n ..
qed

lemma flagged_core: "core ` M = core ` N \<Longrightarrow> flagged M = flagged N"
proof -
  have "{x \<in> core ` M. fst (snd (snd (snd (snd x))))} = core ` {r \<in> M. redist r}" for M
    by (auto simp: core_def)
  then have f: "flagged M = (\<lambda>(af, c, pr, nh, _, _). (c, nh_id af nh, pr)) ` {x \<in> core ` M. fst (snd (snd (snd (snd x))))}" for M
    by (simp add: flagged_def image_image) (simp add: core_def route_id_def)
  show "core ` M = core ` N \<Longrightarrow> flagged M = flagged N" by (simp only: f)
qed

lemma all_nodes_core: "core ` all_nodes ps = (\<Union>x\<in>set (ps_core ps). set (snd x))"
  by (auto simp: all_nodes_def ps_core_def image_iff)

lemma ps_core_cong:
  assumes "ps_core ps = ps_core qs"
  shows "prios_ok af k ps = prios_ok af k qs" "flags_ok ps = flags_ok qs"
    "flagged (all_nodes ps) = flagged (all_nodes qs)" "ps = [] \<longleftrightarrow> qs = []"
proof -
  have "(\<forall>p\<in>set ps. kprio_ok af k p) = (\<forall>p\<in>set qs. kprio_ok af k p)" using assms
  proof (induction ps arbitrary: qs)
    case (Cons p ps)
    then obtain q qs' where "qs = q # qs'" by (cases qs) (auto simp: ps_core_def)
    with Cons kprio_ok_core [of p q af k] show ?case by (simp add: ps_core_def)
  qed (simp add: ps_core_def)
  moreover have "map kprio_priority ps = map kprio_priority qs"
    using arg_cong [OF assms, of "map fst"] by (simp add: ps_core_def comp_def)
  ultimately show "prios_ok af k ps = prios_ok af k qs" by (simp add: prios_ok_def)
  show "flagged (all_nodes ps) = flagged (all_nodes qs)"
    by (rule flagged_core) (simp add: all_nodes_core assms)
  show "ps = [] \<longleftrightarrow> qs = []" using assms by (auto simp: ps_core_def)
  have fl: "flags_ok ps = (case ps_core ps of [] \<Rightarrow> True | (_, cs) # rest \<Rightarrow>
      (\<forall>(_, _, _, _, b, d)\<in>set cs. b \<longleftrightarrow> d = Inr True) \<and>
      (\<forall>x\<in>set rest. \<forall>(_, _, _, _, b, _)\<in>set (snd x). \<not> b))" for ps
    by (cases ps) (auto simp: flags_ok_def ps_core_def core_def all_nodes_def)
  show "flags_ok ps = flags_ok qs" by (simp add: fl assms)
qed

definition tbl :: "kr_state \<Rightarrow> fec \<Rightarrow> (af \<times> fec option \<times> _) option" where
  "tbl s k = map_option (\<lambda>kp. (kp_af kp, kp_class kp, ps_core (kp_priorities kp))) (fec_find (k_krt s) k)"

definition quiet :: "kr_state \<Rightarrow> kr_state \<Rightarrow> bool" where
  "quiet s s' \<longleftrightarrow> tbl s' = tbl s \<and> lde_view (k_out s') = lde_view (k_out s)"

lemma quiet_refl [simp]: "quiet s s"
  by (simp add: quiet_def)

lemma quiet_trans: "quiet s t \<Longrightarrow> quiet t u \<Longrightarrow> quiet s u"
  by (simp add: quiet_def)

lemma tbl_eqD:
  assumes "tbl s' = tbl s"
  shows "(fec_find (k_krt s') k = None) = (fec_find (k_krt s) k = None)"
    "fec_find (k_krt s) k = Some kp \<Longrightarrow> fec_find (k_krt s') k = Some kp' \<Longrightarrow>
       kp_ok k kp' = kp_ok k kp \<and> flagged (all_nodes (kp_priorities kp')) = flagged (all_nodes (kp_priorities kp))"
proof -
  have k: "tbl s' k = tbl s k" using assms by simp
  then show "(fec_find (k_krt s') k = None) = (fec_find (k_krt s) k = None)"
    by (auto simp: tbl_def simp del: not_None_eq not_Some_eq)
  assume "fec_find (k_krt s) k = Some kp" "fec_find (k_krt s') k = Some kp'"
  with k have e: "(kp_af kp', kp_class kp', ps_core (kp_priorities kp')) = (kp_af kp, kp_class kp, ps_core (kp_priorities kp))"
    by (simp only: tbl_def option.map option.inject)
  note a = arg_cong [OF e, of fst, unfolded fst_conv]
  note b = arg_cong [OF e, of "fst \<circ> snd", unfolded comp_apply fst_conv snd_conv]
  note c = arg_cong [OF e, of "snd \<circ> snd", unfolded comp_apply snd_conv]
  show "kp_ok k kp' = kp_ok k kp \<and>
      flagged (all_nodes (kp_priorities kp')) = flagged (all_nodes (kp_priorities kp))"
    unfolding kp_ok_def b ps_core_cong [OF c] unfolding a by simp
qed

lemma quiet_inv:
  assumes "quiet s s'"
  shows "kr_inv s' = kr_inv s" "marked s' = marked s" "known s' = known s" "view_ok s' = view_ok s"
proof -
  have t: "tbl s' = tbl s" and v: "lde_view (k_out s') = lde_view (k_out s)" using assms by (auto simp: quiet_def)
  show "kr_inv s' = kr_inv s"
    unfolding kr_inv_def using tbl_eqD [OF t] by (metis not_None_eq)
  show m: "marked s' = marked s"
  proof
    fix c
    show "marked s' c = marked s c"
    proof (cases c)
      case (Some k)
      show ?thesis
      proof (cases "fec_find (k_krt s) k")
        case None
        with tbl_eqD(1) [OF t, of k] Some show ?thesis by (simp add: marked_def)
      next
        case kp: (Some kp)
        then obtain kp' where "fec_find (k_krt s') k = Some kp'" using tbl_eqD(1) [OF t, of k] by auto
        with tbl_eqD(2) [OF t kp this] kp Some show ?thesis by (simp add: marked_def)
      qed
    qed (simp add: marked_def)
  qed
  show k: "known s' = known s" by (simp add: known_def v fun_eq_iff)
  show "view_ok s' = view_ok s" by (simp add: view_ok_def m k)
qed

section \<open>Messages to the kernel\<close>

lemma quiet_krt: "k_krt s' = k_krt s \<Longrightarrow> lde_view (k_out s') = lde_view (k_out s) \<Longrightarrow> quiet s s'"
  by (simp add: quiet_def tbl_def fun_eq_iff)

definition unseen :: "kr_state \<Rightarrow> kr_state \<Rightarrow> bool" where
  "unseen s s' \<longleftrightarrow> k_krt s' = k_krt s \<and> lde_view (k_out s') = lde_view (k_out s) \<and> k_kit s' = k_kit s"

lemma unseen_refl [simp]: "unseen s s"
  by (simp add: unseen_def)

lemma unseen_trans: "unseen s t \<Longrightarrow> unseen t u \<Longrightarrow> unseen s u"
  by (simp add: unseen_def)

lemma unseen_quiet: "unseen s s' \<Longrightarrow> quiet s s'"
  by (simp add: unseen_def quiet_krt)

lemma unseen_emit:
  "unseen s (kr_emit s (Rt_write m r))" "unseen s (kr_emit s (Set_mpw n q b))" "unseen s (kr_emit s (To_ldpe i))"
  "unseen s (kr_emit s (Ctl_kroute pid kr))" "unseen s (kr_emit s (Ctl_ifinfo pid kf))" "unseen s (kr_emit s (Ctl_end pid))"
  by (simp_all add: unseen_def kr_emit_def lde_view_append)

lemma rt_writev_unseen: "unseen s (snd (rt_writev y s hdr f))"
  by (induction y s hdr f rule: rt_writev.induct)
    (subst rt_writev.simps, auto simp: Let_def unseen_emit split: wr_result.split intro: unseen_trans [OF unseen_emit(1)])

definition sendable :: "kroute_r \<Rightarrow> bool" where
  "sendable r \<longleftrightarrow> kr_af r \<noteq> AF_UNSPEC \<and> (kr_af r = AF_INET \<longrightarrow> unat (kr_prefixlen r) \<le> 32)"

lemma send_rtmsg_unseen:
  assumes "sendable r"
  shows "okE (send_rtmsg y s a r f) (\<lambda>(rc, s'). unseen s s')"
proof (cases "kr_af r")
  case AF_INET
  with assms obtain m where m: "prefixlen2mask (unat (kr_prefixlen r)) = Inr m"
    by (cases "unat (kr_prefixlen r) = 0") (simp_all add: sendable_def prefixlen2mask_def)
  have "\<exists>om. rtmsg_v4 a r f = Inr om"
    by (simp add: rtmsg_v4_def m Let_def)
  moreover have "unseen s (snd (rt_writev y (s\<lparr>k_rtseq := n\<rparr>) h f))" for n h
    using rt_writev_unseen [of "s\<lparr>k_rtseq := n\<rparr>" y h f] by (simp add: unseen_def)
  moreover have "unseen s (s\<lparr>k_rtseq := n\<rparr>)" for n by (simp add: unseen_def)
  ultimately show ?thesis
    by (auto simp: send_rtmsg_def AF_INET send_rtmsg_v4_def Let_def split_beta split: option.split)
qed (use assms in \<open>auto simp: send_rtmsg_def send_rtmsg_v6_def sendable_def\<close>)

lemma node_sendable:
  assumes "kp_ok k kp" "r \<in> all_nodes (kp_priorities kp)"
  shows "sendable r"
  using kp_okD [OF assms(1)] prios_ok_nodes [OF kp_okD(3) [OF assms(1)] assms(2)]
  by (auto simp: sendable_def plen_ok_def class_of_def kp_key_def split: af.splits)

section \<open>Lookups\<close>

lemma find_upt_None: "find P [0..<n] = None \<longleftrightarrow> (\<forall>i<n. \<not> P i)"
  by (auto simp: find_None_iff)

lemma find_upt_Some: "find P [0..<n] = Some i \<Longrightarrow> i < n \<and> P i"
  by (auto simp: find_Some_iff)

lemma kroute_find_prio_Some:
  "kroute_find_prio kp prio = Some i \<Longrightarrow> prio \<noteq> RTP_ANY \<Longrightarrow>
   i < length (kp_priorities kp) \<and> kprio_priority (kp_priorities kp ! i) = prio"
  by (auto simp: kroute_find_prio_def dest!: find_upt_Some)

lemma kroute_find_prio_None:
  "kroute_find_prio kp prio = None \<Longrightarrow> prio \<noteq> RTP_ANY \<Longrightarrow> p \<in> set (kp_priorities kp) \<Longrightarrow> kprio_priority p \<noteq> prio"
  by (auto simp: kroute_find_prio_def find_upt_None in_set_conv_nth)

lemma kroute_find_gw_eq:
  assumes "kp_af kp \<noteq> AF_UNSPEC"
  shows "kroute_find_gw kp p nh =
    Inr (find (\<lambda>j. nh_id (kp_af kp) (kr_nexthop (kprio_nexthops p ! j)) = nh_id (kp_af kp) nh)
           [0..<length (kprio_nexthops p)])"
  unfolding kroute_find_gw_def
proof (rule findE_total)
  fix j
  have "(v4 a = v4 b) = (of_v4 (v4 a) = of_v4 (v4 b))" for a b by (metis v4_of_v4)
  then show "bindE (ldp_addrcmp (kp_af kp) (kr_nexthop (kprio_nexthops p ! j)) nh) (\<lambda>c. Inr (c = 0)) =
      Inr (nh_id (kp_af kp) (kr_nexthop (kprio_nexthops p ! j)) = nh_id (kp_af kp) nh)"
    using ldp_addrcmp_eq_0 [OF assms, of "kr_nexthop (kprio_nexthops p ! j)" nh] by (auto simp: nh_id_def)
qed

end
