(* ===== verification/Kr_Ops.thy ===== *)
theory Kr_Ops
  imports Kr_Inv
begin

text \<open>
  Every operation on the table of kernel routes keeps its invariant and does not fault. Those that
  install or remove labels are not seen by the label decision engine; those that insert or remove a
  route keep the engine's view equal to the marked routes.
\<close>

section \<open>Lookups\<close>

lemma kroute_lookup_ok:
  assumes "kr_inv s"
  shows "okE (kroute_lookup s af prefix plen prio nh) (\<lambda>x. \<forall>k i j. x = Some (k, i, j) \<longrightarrow>
    (\<exists>kp. kp_key af prefix plen = Some k \<and> fec_find (k_krt s) k = Some kp \<and> kp_ok k kp \<and> kp_af kp = af \<and>
      i < length (kp_priorities kp) \<and> j < length (kprio_nexthops (kp_priorities kp ! i)) \<and>
      (prio \<noteq> RTP_ANY \<longrightarrow> kprio_priority (kp_priorities kp ! i) = prio) \<and>
      nh_id af (kr_nexthop (kprio_nexthops (kp_priorities kp ! i) ! j)) = nh_id af nh))"
proof (cases "kroute_find_prefix s af prefix plen")
  case None
  then show ?thesis by (simp add: kroute_lookup_def)
next
  case (Some x)
  then obtain k kp where x: "x = (k, kp)" "kp_key af prefix plen = Some k" "fec_find (k_krt s) k = Some kp"
    by (auto simp: kroute_find_prefix_def split: option.splits)
  have ok: "kp_ok k kp" using kr_invD [OF assms x(3)] .
  have af: "kp_af kp \<noteq> AF_UNSPEC" "kp_af kp = af"
    using kp_okD(1,5) [OF ok] x(2) by (auto simp: kp_key_def split: af.splits)
  show ?thesis
  proof (cases "kroute_find_prio kp prio")
    case None
    with Some x show ?thesis by (simp add: kroute_lookup_def)
  next
    case i: (Some i)
    then have "i < length (kp_priorities kp)"
      by (auto simp: kroute_find_prio_def split: if_splits dest!: find_upt_Some)
    moreover have "prio \<noteq> RTP_ANY \<longrightarrow> kprio_priority (kp_priorities kp ! i) = prio"
      using kroute_find_prio_Some [OF i] by blast
    ultimately show ?thesis
      using Some x i ok af
      by (auto simp: kroute_lookup_def kroute_find_gw_eq [OF af(1)] dest: find_upt_Some)
  qed
qed

lemma nth_in_all_nodes:
  "i < length ps \<Longrightarrow> j < length (kprio_nexthops (ps ! i)) \<Longrightarrow> kprio_nexthops (ps ! i) ! j \<in> all_nodes ps"
  by (auto simp: all_nodes_def intro!: bexI [of _ "ps ! i"])

lemma get_kn_eq:
  "fec_find (k_krt s) k = Some kp \<Longrightarrow> i < length (kp_priorities kp) \<Longrightarrow>
   j < length (kprio_nexthops (kp_priorities kp ! i)) \<Longrightarrow>
   get_kn s k i j = Inr (kprio_nexthops (kp_priorities kp ! i) ! j)"
  by (simp add: get_kn_def get_kp_def)

section \<open>Labels\<close>

lemma set_kn_quiet:
  assumes "fec_find (k_krt s) k = Some kp" "i < length (kp_priorities kp)"
    "j < length (kprio_nexthops (kp_priorities kp ! i))"
    "core r = core (kprio_nexthops (kp_priorities kp ! i) ! j)"
  shows "quiet s (set_kn s k i j r)"
proof -
  let ?p = "kp_priorities kp ! i"
  have "map core ((kprio_nexthops ?p)[j := r]) = map core (kprio_nexthops ?p)"
    using assms(3,4) by (simp add: map_update) (metis list_update_id nth_map)
  then have "ps_core ((kp_priorities kp)[i := ?p\<lparr>kprio_nexthops := (kprio_nexthops ?p)[j := r]\<rparr>]) = ps_core (kp_priorities kp)"
    using assms(2) unfolding ps_core_def
    by (simp add: map_update) (metis (no_types, lifting) list_update_id nth_map)
  then show ?thesis
    using assms(1) by (auto simp: quiet_def tbl_def set_kn_def set_node_def fun_eq_iff)
qed

lemma core_labels:
  "core (r\<lparr>kr_local_label := l, kr_remote_label := m, kr_flags := set_flag (kr_flags r) F_LDPD_INSERTED\<rparr>) = core r"
  "core (r\<lparr>kr_flags := clear_flag (kr_flags r) F_LDPD_INSERTED, kr_local_label := l, kr_remote_label := m\<rparr>) = core r"
  "core (r\<lparr>kr_local_label := l\<rparr>) = core r"
  using redistributable_flags(1) [of F_LDPD_INSERTED "r\<lparr>kr_local_label := l, kr_remote_label := m\<rparr>"]
    redistributable_flags(2) [of F_LDPD_INSERTED r]
  by (simp_all add: core_def)

lemma sendable_upd [simp]:
  "sendable (r\<lparr>kr_flags := f\<rparr>) = sendable r" "sendable (r\<lparr>kr_local_label := l\<rparr>) = sendable r"
  "sendable (r\<lparr>kr_remote_label := l\<rparr>) = sendable r"
  by (simp_all add: sendable_def)

definition quiet_kit :: "kr_state \<Rightarrow> kr_state \<Rightarrow> bool" where
  "quiet_kit s s' \<longleftrightarrow> quiet s s' \<and> k_kit s' = k_kit s"

lemma quiet_kit_unseen: "quiet_kit s t \<Longrightarrow> unseen t u \<Longrightarrow> quiet_kit s u" "unseen s u \<Longrightarrow> quiet_kit s u"
  by (auto simp: quiet_kit_def intro: quiet_trans unseen_quiet) (simp_all add: unseen_def)

lemma set_kn_kit [simp]: "k_kit (set_kn s k i j r) = k_kit s"
  by (simp add: set_kn_def)

lemma send_rtmsg_quiet:
  "sendable r \<Longrightarrow> quiet_kit s t \<Longrightarrow> okE (send_rtmsg y t a r f) (\<lambda>(rc, s'). quiet_kit s s')"
  by (rule okE_mono [OF send_rtmsg_unseen]) (auto intro: quiet_kit_unseen)

lemma kr_change_quiet_kit:
  assumes inv: "kr_inv s"
  shows "okE (kr_change y s kr) (\<lambda>(rc, s'). quiet_kit s s')"
  unfolding kr_change_def
proof (rule okE_bind [OF kroute_lookup_ok [OF inv]], goal_cases)
  case (1 x)
  show ?case
  proof (cases x)
    case (Some z)
    obtain k i j where z: "z = (k, i, j)" by (cases z)
    with 1 Some obtain kp where kp: "fec_find (k_krt s) k = Some kp" "kp_ok k kp" and
      ij: "i < length (kp_priorities kp)" "j < length (kprio_nexthops (kp_priorities kp ! i))" by blast
    let ?r = "kprio_nexthops (kp_priorities kp ! i) ! j"
    let ?r1 = "?r\<lparr>kr_local_label := kr_local_label kr, kr_remote_label := kr_remote_label kr,
                  kr_flags := set_flag (kr_flags ?r) F_LDPD_INSERTED\<rparr>"
    have s: "sendable ?r1" using node_sendable [OF kp(2) nth_in_all_nodes [OF ij]] by simp
    have q: "quiet_kit s (set_kn s k i j ?r1)"
      using set_kn_quiet [OF kp(1) ij core_labels(1)] by (simp add: quiet_kit_def)
    show ?thesis
      unfolding Some option.case z prod.case get_kn_eq [OF kp(1) ij] bindE_simps Let_def
      by (rule okE_bind [OF send_rtmsg_quiet [OF s q]])
        (auto intro!: okE_bind [OF send_rtmsg_quiet [OF s]])
  qed (simp add: quiet_kit_def)
qed

lemma kr_delete_quiet_kit:
  assumes inv: "kr_inv s"
  shows "okE (kr_delete y s kr) (\<lambda>(rc, s'). quiet_kit s s')"
  unfolding kr_delete_def
proof (rule okE_bind [OF kroute_lookup_ok [OF inv]], goal_cases)
  case (1 x)
  show ?case
  proof (cases x)
    case (Some z)
    obtain k i j where z: "z = (k, i, j)" by (cases z)
    with 1 Some obtain kp where kp: "fec_find (k_krt s) k = Some kp" "kp_ok k kp" and
      ij: "i < length (kp_priorities kp)" "j < length (kprio_nexthops (kp_priorities kp ! i))" by blast
    let ?r = "kprio_nexthops (kp_priorities kp ! i) ! j"
    let ?r1 = "?r\<lparr>kr_flags := clear_flag (kr_flags ?r) F_LDPD_INSERTED, kr_local_label := NO_LABEL,
                  kr_remote_label := NO_LABEL\<rparr>"
    have s: "sendable ?r" "sendable ?r1" using node_sendable [OF kp(2) nth_in_all_nodes [OF ij]] by simp_all
    have q: "quiet_kit s (set_kn s1 k i j ?r1)" if "unseen s s1" for s1
    proof -
      have "fec_find (k_krt s1) k = Some kp" using kp(1) that by (simp add: unseen_def)
      from quiet_trans [OF unseen_quiet [OF that] set_kn_quiet [OF this ij core_labels(2)]] that
      show ?thesis by (simp add: quiet_kit_def unseen_def)
    qed
    show ?thesis
      unfolding Some option.case z prod.case get_kn_eq [OF kp(1) ij] bindE_simps Let_def
      by (cases "has_flag (kr_flags ?r) F_LDPD_INSERTED", simp_all,
          rule okE_bind [OF send_rtmsg_unseen [OF s(1)]])
        (auto intro!: okE_bind [OF send_rtmsg_quiet [OF s(2)]] q intro: quiet_kit_unseen(2))
  qed (simp add: quiet_kit_def)
qed

lemma core_egress: "core (egress_label w r) = core r"
  by (auto simp: egress_label_def core_labels(3) split: af.split)

lemma ps_core_map_nodes: "(\<And>r. core (f r) = core r) \<Longrightarrow> ps_core (kp_priorities (map_nodes f kp)) = ps_core (kp_priorities kp)"
  by (simp add: map_nodes_def ps_core_def)

lemma kr_change_egress_label_quiet: "quiet s (kr_change_egress_label s af w)"
proof -
  have "quiet s (foldl (\<lambda>s k. upd_kp s k (\<lambda>kp. if kp_af kp \<noteq> af then kp else map_nodes (egress_label w) kp)) s ks)" for ks
  proof (induction ks rule: rev_induct)
    case (snoc k ks)
    have "quiet u (upd_kp u k (\<lambda>kp. if kp_af kp \<noteq> af then kp else map_nodes (egress_label w) kp))" for u
      by (auto simp: quiet_def tbl_def fun_eq_iff option.map_comp comp_def ps_core_map_nodes [OF core_egress]
          intro!: option.map_cong) (simp_all add: map_nodes_def)
    with snoc show ?case by (auto intro: quiet_trans)
  qed simp
  then show ?thesis by (simp add: kr_change_egress_label_def)
qed

lemma kr_change_egress_label_kit: "k_kit (kr_change_egress_label s af w) = k_kit s"
proof -
  have "k_kit (foldl (\<lambda>s k. upd_kp s k f) s ks) = k_kit s" for f ks by (induction ks arbitrary: s) simp_all
  then show ?thesis by (simp add: kr_change_egress_label_def)
qed

section \<open>Coupling\<close>

lemma each_first_node_unseen:
  assumes inv: "kr_inv s" and f: "\<And>t r. sendable r \<Longrightarrow> okE (f t r) (unseen t)"
  shows "okE (each_first_node f s) (unseen s)"
  unfolding each_first_node_def
proof (rule okE_foldE, simp)
  fix t k assume k: "k \<in> set (rb_keys (k_krt s))" and u: "unseen s t"
  then obtain kp where kp: "fec_find (k_krt s) k = Some kp" by (auto simp: fec_find_def)
  then have t: "get_kp t k = Inr kp" using u by (simp add: get_kp_def unseen_def)
  have "sendable r" if "r \<in> set (first_nodes kp)" for r
  proof (rule node_sendable [OF kr_invD [OF inv kp]])
    show "r \<in> all_nodes (kp_priorities kp)"
      using that by (cases "kp_priorities kp") (auto simp: first_nodes_def)
  qed
  then have "okE (foldE f (first_nodes kp) t) (unseen s)"
    by (intro okE_foldE u) (auto intro: okE_mono [OF f] unseen_trans)
  then show "okE (bindE (get_kp t k) (\<lambda>kp. foldE f (first_nodes kp) t)) (unseen s)" by (simp add: t)
qed

lemma couple_node_unseen: "sendable r \<Longrightarrow> okE (couple_node y t r) (unseen t)"
  unfolding couple_node_def
  by (cases "has_flag (kr_flags r) F_LDPD_INSERTED", simp_all)
    (rule okE_bind [OF send_rtmsg_unseen], auto intro!: okE_bind [OF send_rtmsg_unseen], simp add: unseen_def)

lemma decouple_node_unseen: "sendable r \<Longrightarrow> okE (decouple_node y t r) (unseen t)"
  unfolding decouple_node_def
  by (cases "has_flag (kr_flags r) F_LDPD_INSERTED", simp_all)
    (rule okE_bind [OF send_rtmsg_unseen], auto intro!: okE_bind [OF send_rtmsg_unseen], simp add: unseen_def)

text \<open>The pseudowires the parent has been told to install have an address.\<close>

definition kif_inv :: "kr_state \<Rightarrow> bool" where
  "kif_inv s \<longleftrightarrow> (\<forall>i kif kpw. kif_find s i = Some kif \<and> kif_kpw kif = Some kpw \<longrightarrow> kpw_af kpw \<noteq> AF_UNSPEC)"

lemma kmpw_install_unseen: "kpw_af kpw \<noteq> AF_UNSPEC \<Longrightarrow> okE (kmpw_install y s n kpw) (\<lambda>(_, s'). unseen s s')"
  by (cases "kpw_af kpw") (simp_all add: kmpw_install_def addr2sa_def set_mpwcfg_def Let_def unseen_emit)

lemma kmpw_uninstall_unseen: "unseen s (snd (kmpw_uninstall y s n))"
  by (simp add: kmpw_uninstall_def set_mpwcfg_def Let_def unseen_emit)

lemma each_kpw_unseen:
  assumes inv: "kif_inv s" and f: "\<And>t n kpw. kpw_af kpw \<noteq> AF_UNSPEC \<Longrightarrow> okE (f t n kpw) (unseen t)"
  shows "okE (each_kpw f s) (unseen s)"
  unfolding each_kpw_def
proof (rule okE_foldE, simp)
  fix t i assume i: "i \<in> set (kif_foreach s)" and u: "unseen s t"
  then obtain kif where kif: "kif_find s i = Some kif" by (auto simp: kif_foreach_def kif_find_def)
  then have t: "kif_find t i = Some kif" using u by (simp add: kif_find_def unseen_def)
  show "okE (case kif_find t i of None \<Rightarrow> Inl NullDeref
      | Some kif \<Rightarrow> case kif_kpw kif of None \<Rightarrow> Inr t | Some kpw \<Rightarrow> f t (kif_ifname (kif_k kif)) kpw) (unseen s)"
    using u kif inv by (cases "kif_kpw kif") (auto simp: t kif_inv_def intro: okE_mono [OF f] unseen_trans)
qed

lemma kr_fib_couple_ok:
  assumes "kr_inv s" "kif_inv s"
  shows "okE (kr_fib_couple y s) (unseen s)"
proof -
  have "okE (each_first_node (couple_node y) (s\<lparr>k_fib_sync := True\<rparr>)) (unseen (s\<lparr>k_fib_sync := True\<rparr>))"
    by (rule each_first_node_unseen) (use assms in \<open>auto simp: kr_inv_def intro: couple_node_unseen\<close>)
  moreover have "okE (each_kpw (\<lambda>s n kpw. bindE (kmpw_install y s n kpw) (\<lambda>(_, s1). Inr s1)) t) (unseen s)"
    if "unseen (s\<lparr>k_fib_sync := True\<rparr>) t" for t
  proof (rule okE_mono [OF each_kpw_unseen])
    show "kif_inv t" using assms(2) that by (simp add: kif_inv_def kif_find_def unseen_def)
    show "okE (bindE (kmpw_install y u n kpw) (\<lambda>(_, s1). Inr s1)) (unseen u)" if "kpw_af kpw \<noteq> AF_UNSPEC" for u n kpw
      by (rule okE_bind [OF kmpw_install_unseen [OF that]]) auto
    show "unseen t u \<Longrightarrow> unseen s u" for u using that by (simp add: unseen_def)
  qed
  ultimately show ?thesis by (auto simp: kr_fib_couple_def intro: okE_bind)
qed

lemma kr_fib_decouple_ok:
  assumes "kr_inv s" "kif_inv s"
  shows "okE (kr_fib_decouple y s) (unseen s)"
proof -
  have "okE (each_kpw (\<lambda>s n _. Inr (snd (kmpw_uninstall y s n))) t) (unseen s)" if "unseen s t" for t
  proof (rule okE_mono [OF each_kpw_unseen])
    show "kif_inv t" using assms(2) that by (simp add: kif_inv_def kif_find_def unseen_def)
    show "unseen t u \<Longrightarrow> unseen s u" for u using that by (rule unseen_trans)
  qed (simp add: kmpw_uninstall_unseen)
  moreover have "okE (each_first_node (decouple_node y) s) (unseen s)"
    by (rule each_first_node_unseen [OF assms(1) decouple_node_unseen])
  moreover have "unseen s (t\<lparr>k_fib_sync := False\<rparr>)" if "unseen s t" for t
    using that by (simp add: unseen_def)
  ultimately show ?thesis by (auto simp: kr_fib_decouple_def intro!: okE_bind)
qed

end
