(* ===== verification/Kr_Routes.thy ===== *)
theory Kr_Routes
  imports Kr_Ops
begin

text \<open>
  Insertion, update and removal of a route: the invariant is kept, and so is the equality between
  the routes marked and the routes the label decision engine knows of, save for an update that
  turns a marked route into one that is not redistributable.
\<close>

section \<open>Lists of priorities\<close>

lemma set_insert_prio [simp]: "set (insert_prio p ps) = insert p (set ps)"
  by (induction ps) auto

lemma sorted_insert_prio:
  "sorted_wrt (<) (map kprio_priority ps) \<Longrightarrow> \<forall>q\<in>set ps. kprio_priority q \<noteq> kprio_priority p \<Longrightarrow>
   sorted_wrt (<) (map kprio_priority (insert_prio p ps))"
proof (induction ps)
  case (Cons q qs)
  show ?case
  proof (cases "kprio_priority q > kprio_priority p")
    case True
    with Cons.prems show ?thesis by (auto intro: less_trans)
  next
    case False
    then have "kprio_priority q < kprio_priority p" using Cons.prems(2) by (auto simp: not_less le_less)
    with Cons False show ?thesis by auto
  qed
qed simp

lemma sorted_prio_unique:
  assumes "sorted_wrt (<) (map kprio_priority ps)" "i < length ps" "l < length ps"
    "kprio_priority (ps ! i) = kprio_priority (ps ! l)"
  shows "i = l"
proof -
  have "distinct (map kprio_priority ps)" using assms(1) by (simp add: strict_sorted_iff)
  with assms show ?thesis by (metis length_map nth_eq_iff_index_eq nth_map)
qed

lemma all_nodes_set: "set ps = set qs \<Longrightarrow> all_nodes ps = all_nodes qs"
  by (simp add: all_nodes_def)

lemma in_set_update: "x \<in> set (xs[i := y]) \<Longrightarrow> x = y \<or> (\<exists>l<length xs. l \<noteq> i \<and> x = xs ! l)"
proof -
  assume "x \<in> set (xs[i := y])"
  then obtain l where "l < length xs" "x = xs[i := y] ! l" by (auto simp: in_set_conv_nth)
  then show ?thesis by (cases "l = i") auto
qed

text \<open>Replacing one priority by another of the same value.\<close>

lemma prios_ok_update:
  assumes "sorted_wrt (<) (map kprio_priority ps)" "i < length ps"
    "\<And>l. l < length ps \<Longrightarrow> l \<noteq> i \<Longrightarrow> kprio_ok af k (ps ! l)"
    "kprio_ok af k p" "kprio_priority p = kprio_priority (ps ! i)"
  shows "prios_ok af k (ps[i := p])"
proof -
  have "map kprio_priority (ps[i := p]) = map kprio_priority ps"
    using assms(2,5) by (simp add: map_update) (metis list_update_id nth_map)
  with assms show ?thesis by (auto simp: prios_ok_def dest!: in_set_update)
qed

lemma ensure_prio_ok:
  assumes ok: "prios_ok af k (kp_priorities kp)" and prio: "prio \<noteq> RTP_ANY"
  defines "ps \<equiv> kp_priorities (ensure_prio prio kp)"
  shows "\<exists>i. kroute_find_prio (ensure_prio prio kp) prio = Some i \<and> i < length ps \<and>
    kprio_priority (ps ! i) = prio \<and> sorted_wrt (<) (map kprio_priority ps) \<and>
    (\<forall>l<length ps. l \<noteq> i \<longrightarrow> kprio_ok af k (ps ! l)) \<and>
    (kprio_ok af k (ps ! i) \<or> kprio_nexthops (ps ! i) = []) \<and> all_nodes ps = all_nodes (kp_priorities kp)"
proof (cases "kroute_find_prio kp prio")
  case (Some i)
  with kroute_find_prio_Some [OF Some prio] ok show ?thesis
    by (auto simp: ps_def ensure_prio_def prios_ok_def)
next
  case None
  let ?p = "\<lparr>kprio_priority = prio, kprio_nexthops = []\<rparr>"
  have ps: "ps = insert_prio ?p (kp_priorities kp)" by (simp add: ps_def ensure_prio_def None)
  have new: "\<forall>q\<in>set (kp_priorities kp). kprio_priority q \<noteq> prio"
    using kroute_find_prio_None [OF None prio] by blast
  have so: "sorted_wrt (<) (map kprio_priority ps)"
    unfolding ps by (rule sorted_insert_prio) (use ok new in \<open>auto simp: prios_ok_def\<close>)
  have "?p \<in> set ps" by (simp add: ps)
  then obtain l where l: "l < length ps" "ps ! l = ?p" by (auto simp: in_set_conv_nth)
  have "kroute_find_prio (ensure_prio prio kp) prio \<noteq> None"
    using kroute_find_prio_None [of "ensure_prio prio kp" prio ?p] prio \<open>?p \<in> set ps\<close> by (auto simp: ps_def)
  then obtain i where i: "kroute_find_prio (ensure_prio prio kp) prio = Some i" by blast
  have ip: "i < length ps" "kprio_priority (ps ! i) = prio" using kroute_find_prio_Some [OF i prio] by (auto simp: ps_def)
  then have il: "ps ! i = ?p" using sorted_prio_unique [OF so ip(1) l(1)] l(2) by simp
  have "kprio_ok af k (ps ! l)" if "l < length ps" "l \<noteq> i" for l
  proof -
    have "kprio_priority (ps ! l) \<noteq> prio" using sorted_prio_unique [OF so that(1) ip(1)] that(2) ip(2) by auto
    moreover have "ps ! l \<in> set ps" using that by simp
    ultimately show ?thesis using ok by (auto simp: ps prios_ok_def)
  qed
  moreover have "all_nodes ps = all_nodes (kp_priorities kp)" by (auto simp: ps all_nodes_def)
  ultimately show ?thesis using i ip so il by auto
qed

lemma all_nodes_update:
  assumes "i < length ps"
  shows "all_nodes (ps[i := p]) \<subseteq> all_nodes ps \<union> set (kprio_nexthops p)"
    "set (kprio_nexthops (ps ! i)) \<subseteq> set (kprio_nexthops p) \<Longrightarrow>
     all_nodes (ps[i := p]) = all_nodes ps \<union> set (kprio_nexthops p)"
proof -
  show sub: "all_nodes (ps[i := p]) \<subseteq> all_nodes ps \<union> set (kprio_nexthops p)"
    using set_update_subset_insert [of ps i p] by (fastforce simp: all_nodes_def)
  assume s: "set (kprio_nexthops (ps ! i)) \<subseteq> set (kprio_nexthops p)"
  have "p \<in> set (ps[i := p])" using assms by (simp add: set_update_memI)
  moreover have "q \<in> set (ps[i := p]) \<or> q = ps ! i" if q: "q \<in> set ps" for q
    using q by (metis in_set_conv_nth length_list_update nth_list_update_neq)
  ultimately have "all_nodes ps \<union> set (kprio_nexthops p) \<subseteq> all_nodes (ps[i := p])"
    using s by (fastforce simp: all_nodes_def)
  with sub show "all_nodes (ps[i := p]) = all_nodes ps \<union> set (kprio_nexthops p)" by blast
qed

section \<open>Insertion\<close>

definition new_route :: "kroute_r \<Rightarrow> bool" where
  "new_route kr \<longleftrightarrow> kr_priority kr \<noteq> RTP_ANY \<and> \<not> redist kr \<and> sendable kr"

text \<open>The list of priorities after the route has been added, before the redistribution.\<close>

lemma add_node_ok:
  assumes so: "sorted_wrt (<) (map kprio_priority ps)" and i: "i < length ps" "kprio_priority (ps ! i) = kr_priority kr"
    and rest: "\<forall>l<length ps. l \<noteq> i \<longrightarrow> kprio_ok af k (ps ! l)"
    and pi: "kprio_ok af k (ps ! i) \<or> kprio_nexthops (ps ! i) = []"
    and kr: "kr_af kr = af" "class_of kr = Some k" "new_route kr"
    and gw: "\<And>j. j < length (kprio_nexthops (ps ! i)) \<Longrightarrow> nh_id af (kr_nexthop (kprio_nexthops (ps ! i) ! j)) \<noteq> nh_id af (kr_nexthop kr)"
  defines "p \<equiv> (ps ! i)\<lparr>kprio_nexthops := kprio_nexthops (ps ! i) @ [kr]\<rparr>"
  shows "prios_ok af k (ps[i := p])" "all_nodes (ps[i := p]) = insert kr (all_nodes ps)"
proof -
  have "nh_id af (kr_nexthop kr) \<notin> (nh_id af \<circ> kr_nexthop) ` set (kprio_nexthops (ps ! i))"
    using gw by (fastforce simp: in_set_conv_nth)
  then have "kprio_ok af k p" using pi kr i by (auto simp: p_def kprio_ok_def new_route_def)
  then show "prios_ok af k (ps[i := p])"
    by (intro prios_ok_update so i(1)) (use rest i in \<open>simp_all add: p_def\<close>)
  have "all_nodes (ps[i := p]) = all_nodes ps \<union> set (kprio_nexthops p)"
    by (rule all_nodes_update(2) [OF i(1)]) (auto simp: p_def)
  then show "all_nodes (ps[i := p]) = insert kr (all_nodes ps)"
    using i(1) by (auto simp: p_def all_nodes_def)
qed

lemma new_route_class:
  assumes "new_route kr"
  obtains k where "class_of kr = Some k" "plen_ok k" "kr_af kr \<noteq> AF_UNSPEC"
  using assms by (cases "kr_af kr") (auto simp: new_route_def sendable_def class_of_def kp_key_def plen_ok_def)

lemma ensure_prefix_ok:
  assumes inv: "kr_inv s" and kr: "class_of kr = Some k"
  obtains kp where "fec_find (k_krt (ensure_prefix s kr k)) k = Some kp" "kp_af kp = kr_af kr" "kp_class kp = Some k"
    "prios_ok (kr_af kr) k (kp_priorities kp)" "\<forall>r\<in>all_nodes (kp_priorities kp). redist r \<longrightarrow> redistributable r = Inr True"
    "marked s (Some k) = flagged (all_nodes (kp_priorities kp))"
    "\<forall>j. j \<noteq> k \<longrightarrow> fec_find (k_krt (ensure_prefix s kr k)) j = fec_find (k_krt s) j"
    "k_out (ensure_prefix s kr k) = k_out s" "k_kit (ensure_prefix s kr k) = k_kit s"
proof (cases "fec_find (k_krt s) k")
  case None
  then have "ensure_prefix s kr k = s\<lparr>k_krt := fst (rb_insert (k_krt s) k \<lparr>kp_af = kr_af kr, kp_prefix = kr_prefix kr,
      kp_prefixlen = kr_prefixlen kr, kp_priorities = []\<rparr>)\<rparr>"
    by (simp add: ensure_prefix_def)
  with None kr show thesis
    by (intro that) (auto simp: fec_find_def prios_ok_def marked_def class_of_def)
next
  case (Some kp)
  note ok = kr_invD [OF inv Some]
  have "kp_af kp = kr_af kr" using kp_okD(1) [OF ok] kr by (auto simp: class_of_def kp_key_def split: af.splits)
  with Some kp_okD [OF ok] show thesis
    by (intro that [of kp]) (auto simp: ensure_prefix_def marked_def intro: flags_ok_sound)
qed

lemma marked_others:
  "(\<And>j. j \<noteq> k \<Longrightarrow> fec_find (k_krt s') j = fec_find (k_krt s) j) \<Longrightarrow> c \<noteq> Some k \<Longrightarrow> marked s' c = marked s c"
  by (cases c) (auto simp: marked_def)

lemma others_frame:
  assumes "\<And>j. j \<noteq> k \<Longrightarrow> fec_find (k_krt s') j = fec_find (k_krt s) j"
    and "\<And>c. c \<noteq> Some k \<Longrightarrow> known s' c = known s c"
  shows "others_ok s' k = others_ok s k" "others_view s' k = others_view s k"
proof -
  show "others_ok s' k = others_ok s k" using assms(1) by (auto simp: others_ok_def)
  show "others_view s' k = others_view s k"
    using assms(2) marked_others [of k s' s] assms(1) by (auto simp: others_view_def)
qed

lemma kroute_insert_ok:
  assumes inv: "kr_inv s" and kr: "new_route kr"
  shows "okE (kroute_insert s kr) (\<lambda>s'. kr_inv s' \<and> k_kit s' = k_kit s \<and> (view_ok s \<longrightarrow> view_ok s'))"
proof -
  obtain k where k: "class_of kr = Some k" "plen_ok k" and af: "kr_af kr \<noteq> AF_UNSPEC" by (rule new_route_class [OF kr])
  obtain kp where kp: "fec_find (k_krt (ensure_prefix s kr k)) k = Some kp" "kp_af kp = kr_af kr" "kp_class kp = Some k"
    and ok: "prios_ok (kr_af kr) k (kp_priorities kp)"
    and sound: "\<forall>r\<in>all_nodes (kp_priorities kp). redist r \<longrightarrow> redistributable r = Inr True"
    and m: "marked s (Some k) = flagged (all_nodes (kp_priorities kp))"
    and oth: "\<forall>j. j \<noteq> k \<longrightarrow> fec_find (k_krt (ensure_prefix s kr k)) j = fec_find (k_krt s) j"
    and frame: "k_out (ensure_prefix s kr k) = k_out s" "k_kit (ensure_prefix s kr k) = k_kit s"
    by (rule ensure_prefix_ok [OF inv k(1)])
  define kp1 where "kp1 = ensure_prio (kr_priority kr) kp"
  define s1 where "s1 = upd_kp (ensure_prefix s kr k) k (ensure_prio (kr_priority kr))"
  have prio: "kr_priority kr \<noteq> RTP_ANY" using kr by (simp add: new_route_def)
  obtain i where i: "kroute_find_prio kp1 (kr_priority kr) = Some i" "i < length (kp_priorities kp1)"
    "kprio_priority (kp_priorities kp1 ! i) = kr_priority kr"
    and so: "sorted_wrt (<) (map kprio_priority (kp_priorities kp1))"
    and rest: "\<forall>l<length (kp_priorities kp1). l \<noteq> i \<longrightarrow> kprio_ok (kr_af kr) k (kp_priorities kp1 ! l)"
    and pi: "kprio_ok (kr_af kr) k (kp_priorities kp1 ! i) \<or> kprio_nexthops (kp_priorities kp1 ! i) = []"
    and an: "all_nodes (kp_priorities kp1) = all_nodes (kp_priorities kp)"
    using ensure_prio_ok [OF ok prio] unfolding kp1_def by blast
  have s1: "fec_find (k_krt s1) k = Some kp1" "kp_af kp1 = kr_af kr" "kp_class kp1 = Some k"
    "\<And>j. j \<noteq> k \<Longrightarrow> fec_find (k_krt s1) j = fec_find (k_krt s) j" "k_out s1 = k_out s" "k_kit s1 = k_kit s"
    using kp oth frame by (simp_all add: s1_def kp1_def ensure_prio_def)
  define g where "g = find (\<lambda>j. nh_id (kr_af kr) (kr_nexthop (kprio_nexthops (kp_priorities kp1 ! i) ! j)) = nh_id (kr_af kr) (kr_nexthop kr))
           [0..<length (kprio_nexthops (kp_priorities kp1 ! i))]"
  define p where "p = (kp_priorities kp1 ! i)\<lparr>kprio_nexthops := kprio_nexthops (kp_priorities kp1 ! i) @ [kr]\<rparr>"
  define kp2 where "kp2 = (if g = None then kp1\<lparr>kp_priorities := (kp_priorities kp1)[i := p]\<rparr> else kp1)"
  define s2 where "s2 = (if g = None
      then upd_kp s1 k (\<lambda>kp. kp\<lparr>kp_priorities := (kp_priorities kp)[i := (kp_priorities kp ! i)\<lparr>kprio_nexthops :=
             kprio_nexthops (kp_priorities kp ! i) @ [kr]\<rparr>]\<rparr>) else s1)"
  have run: "kroute_insert s kr = kr_redistribute s2 k"
    using k(1) i(1) s1 af
    by (simp add: kroute_insert_def class_of_def Let_def get_kp_def kroute_find_gw_eq g_def s2_def s1_def [symmetric])
  have s2: "fec_find (k_krt s2) k = Some kp2" "kp_af kp2 = kr_af kr" "kp_class kp2 = Some k"
    "\<And>j. j \<noteq> k \<Longrightarrow> fec_find (k_krt s2) j = fec_find (k_krt s) j" "k_out s2 = k_out s" "k_kit s2 = k_kit s"
    using s1 by (simp_all add: s2_def kp2_def p_def)
  have ok2: "prios_ok (kr_af kr) k (kp_priorities kp2) \<and>
      (all_nodes (kp_priorities kp2) = all_nodes (kp_priorities kp) \<or>
       all_nodes (kp_priorities kp2) = insert kr (all_nodes (kp_priorities kp)))"
  proof (cases "g = None")
    case True
    then have "nh_id (kr_af kr) (kr_nexthop (kprio_nexthops (kp_priorities kp1 ! i) ! j)) \<noteq> nh_id (kr_af kr) (kr_nexthop kr)"
      if "j < length (kprio_nexthops (kp_priorities kp1 ! i))" for j
      using that by (simp add: g_def find_upt_None)
    from add_node_ok [OF so i(2,3) rest pi refl k(1) kr this] True an show ?thesis
      by (simp add: kp2_def p_def)
  next
    case False
    then have "kprio_nexthops (kp_priorities kp1 ! i) \<noteq> []" by (auto simp: g_def)
    with pi rest so have "prios_ok (kr_af kr) k (kp_priorities kp1)"
      by (auto simp: prios_ok_def in_set_conv_nth)
    with False an show ?thesis by (auto simp: kp2_def)
  qed
  have nr: "\<not> redist kr" using kr by (simp add: new_route_def)
  then have fl: "flagged (all_nodes (kp_priorities kp2)) = marked s (Some k)" using ok2 m by auto
  have sound2: "\<forall>r\<in>all_nodes (kp_priorities kp2). redist r \<longrightarrow> redistributable r = Inr True" using ok2 sound nr by auto
  have "kp_priorities kp2 \<noteq> []" using i(2) by (auto simp: kp2_def)
  then obtain q qs where ps: "kp_priorities kp2 = q # qs" by (cases "kp_priorities kp2") auto
  have kn: "known s2 = known s" by (simp add: known_def s2 fun_eq_iff)
  have o: "others_ok s2 k = others_ok s k" "others_view s2 k = others_view s k"
    using others_frame [of k s2 s] s2(4) kn by simp_all
  have "okE (kr_redistribute s2 k) (\<lambda>s'. kr_inv s' \<and> k_kit s' = k_kit s2 \<and> k_pid s' = k_pid s2 \<and>
    (others_view s2 k \<and> flagged (all_nodes (q # qs)) \<subseteq> known s2 (Some k) \<and>
     known s2 (Some k) \<subseteq> flagged (all_nodes (q # qs)) \<union>
        route_id ` {r \<in> set (kprio_nexthops q). redistributable r = Inr True} \<longrightarrow> view_ok s'))"
    by (rule kr_redistribute_ok [OF s2(1) k(2) s2(3) ps])
      (use ok2 ps s2 sound2 o inv_others(1) [OF inv, of k] in simp_all)
  then show ?thesis unfolding run
    by (rule okE_mono) (use fl ps kn o inv_others(2) [of s k] s2(6) in \<open>auto simp: view_ok_def\<close>)
qed

section \<open>Removal\<close>

lemma set_del_nth: "set (del_nth i xs) \<subseteq> set xs"
  using set_take_subset [of i xs] set_drop_subset [of "Suc i" xs] by (auto simp: del_nth_def)

lemma map_del_nth: "map f (del_nth i xs) = del_nth i (map f xs)"
  by (simp add: del_nth_def take_map drop_map)

lemma split_nth:
  assumes "i < length xs"
  obtains ys zs where "xs = ys @ xs ! i # zs" "del_nth i xs = ys @ zs" "length ys = i"
  by (rule that [of "take i xs" "drop (Suc i) xs"])
    (simp_all add: assms del_nth_def id_take_nth_drop upd_conv_take_nth_drop)

text \<open>Taking one node out of the lists leaves all others and their order.\<close>

lemma drop_node_ok:
  assumes ok: "prios_ok af k (kp_priorities kp)" and i: "i < length (kp_priorities kp)"
    and j: "j < length (kprio_nexthops (kp_priorities kp ! i))"
  defines "r \<equiv> kprio_nexthops (kp_priorities kp ! i) ! j" and "ps \<equiv> kp_priorities (drop_node i j kp)"
  shows "prios_ok af k ps" "all_nodes ps \<subseteq> all_nodes (kp_priorities kp)"
    "flagged (all_nodes ps) = flagged (all_nodes (kp_priorities kp)) - flagged {r}"
proof -
  define as bs where "as = take i (kp_priorities kp)" and "bs = drop (Suc i) (kp_priorities kp)"
  then have p: "kp_priorities kp = as @ kp_priorities kp ! i # bs" "del_nth i (kp_priorities kp) = as @ bs"
    and u: "(kp_priorities kp)[i := x] = as @ x # bs" for x
    using i by (simp_all add: del_nth_def id_take_nth_drop upd_conv_take_nth_drop)
  obtain ms ns where n: "kprio_nexthops (kp_priorities kp ! i) = ms @ r # ns"
    "del_nth j (kprio_nexthops (kp_priorities kp ! i)) = ms @ ns"
    using split_nth [OF j] unfolding r_def by metis
  let ?p = "kp_priorities kp ! i" and ?q = "(kp_priorities kp ! i)\<lparr>kprio_nexthops := ms @ ns\<rparr>"
  have ps: "ps = (if ms @ ns = [] then as @ bs else as @ ?q # bs)"
    by (simp add: ps_def drop_node_def Let_def n(2) p(2) u)
  have all: "all_nodes (kp_priorities kp) = insert r (set ms \<union> set ns \<union> all_nodes as \<union> all_nodes bs)"
    by (subst p(1)) (auto simp: n(1))
  have an: "all_nodes ps = set ms \<union> set ns \<union> all_nodes as \<union> all_nodes bs" by (auto simp: ps)
  then show "all_nodes ps \<subseteq> all_nodes (kp_priorities kp)" using all by auto
  have ok': "prios_ok af k (as @ ?p # bs)" using ok p(1) by simp
  have pk: "kprio_ok af k ?p" using ok i by (simp add: prios_ok_def)
  then have "ms @ ns \<noteq> [] \<Longrightarrow> kprio_ok af k ?q" by (auto simp: kprio_ok_def n(1))
  then show "prios_ok af k ps" using ok' by (auto simp: ps prios_ok_def sorted_wrt_append)
  have "route_id r' \<noteq> route_id r" if r': "r' \<in> set ms \<union> set ns" for r'
  proof -
    have "nh_id af (kr_nexthop r) \<notin> (nh_id af \<circ> kr_nexthop) ` (set ms \<union> set ns)"
      using pk by (auto simp: kprio_ok_def n(1))
    then have "nh_id af (kr_nexthop r') \<noteq> nh_id af (kr_nexthop r)" using r' by (metis comp_apply imageI)
    moreover have "kr_af r' = af" "kr_af r = af" using pk r' by (auto simp: kprio_ok_def n(1))
    ultimately show ?thesis by (simp add: route_id_def)
  qed
  moreover have "route_id r' \<noteq> route_id r" if r': "r' \<in> all_nodes as \<union> all_nodes bs" for r'
  proof -
    obtain q where q: "q \<in> set as \<union> set bs" "r' \<in> set (kprio_nexthops q)" using r' by (auto simp: all_nodes_def)
    then have "kprio_priority q \<noteq> kprio_priority ?p" using ok' by (auto simp: prios_ok_def sorted_wrt_append)
    moreover have "kr_priority r' = kprio_priority q" using ok' q by (auto simp: prios_ok_def kprio_ok_def)
    moreover have "kr_priority r = kprio_priority ?p" using pk by (auto simp: kprio_ok_def n(1))
    ultimately show ?thesis by (simp add: route_id_def)
  qed
  ultimately have "\<forall>r'\<in>all_nodes ps. route_id r \<noteq> route_id r'" unfolding an by (metis UnE UnI1 UnI2)
  then have "route_id r \<notin> flagged (all_nodes ps)" by (auto simp: flagged_def)
  then show "flagged (all_nodes ps) = flagged (all_nodes (kp_priorities kp)) - flagged {r}"
    by (auto simp: all an)
qed

lemma kroute_uninstall_unseen:
  "sendable r \<Longrightarrow> okE (kroute_uninstall y s r) (\<lambda>(_, s'). unseen s s')"
  by (auto simp: kroute_uninstall_def intro!: okE_bind [OF send_rtmsg_unseen])

lemma kr_redist_remove_node:
  "kr_redist_remove r os = (r1, os') \<Longrightarrow> sendable r1 = sendable r \<and> lde_view os' = lde_view os - flagged {r}"
  using kr_redist_remove_eq [of r os] by (auto simp: unredist_def split: if_splits)

lemma kroute_remove_node_ok:
  assumes inv: "kr_inv s" and kp: "fec_find (k_krt s) k = Some kp" and i: "i < length (kp_priorities kp)"
    and j: "j < length (kprio_nexthops (kp_priorities kp ! i))"
    and r: "r = kprio_nexthops (kp_priorities kp ! i) ! j"
    and s1: "k_krt s1 = k_krt s" "lde_view (k_out s1) = lde_view (k_out s) - flagged {r}" "k_kit s1 = k_kit s"
  shows "okE (let s2 = upd_kp s1 k (drop_node i j) in
         bindE (get_kp s2 k) (\<lambda>kp.
         if kp_priorities kp = [] then Inr (0 :: int, s2\<lparr>k_krt := rb_remove (k_krt s2) k\<rparr>)
         else bindE (kr_redistribute s2 k) (\<lambda>s3. Inr (0, s3))))
     (\<lambda>(_, s'). kr_inv s' \<and> k_kit s' = k_kit s \<and> (view_ok s \<longrightarrow> view_ok s'))"
proof -
  note ok = kr_invD [OF inv kp]
  define s2 where "s2 = upd_kp s1 k (drop_node i j)"
  define kp2 where "kp2 = drop_node i j kp"
  have d: "kp_af kp2 = kp_af kp" "kp_class kp2 = Some k"
    using kp_okD(1) [OF ok] by (simp_all add: kp2_def drop_node_def Let_def)
  note n = drop_node_ok [OF kp_okD(3) [OF ok] i j, folded kp2_def r]
  have s2: "fec_find (k_krt s2) k = Some kp2" "\<And>l. l \<noteq> k \<Longrightarrow> fec_find (k_krt s2) l = fec_find (k_krt s) l"
    "lde_view (k_out s2) = lde_view (k_out s) - flagged {r}" "k_kit s2 = k_kit s"
    using kp s1 by (simp_all add: s2_def kp2_def)
  have "r \<in> all_nodes (kp_priorities kp)" using nth_in_all_nodes [OF i j] r by simp
  then have cr: "fst (route_id r) = Some k" by (rule prios_ok_nodes(3) [OF kp_okD(3) [OF ok]])
  have kn: "known s2 c = known s c" if "c \<noteq> Some k" for c
    using that cr by (auto simp: known_def s2(3) flagged_def)
  have kk: "known s2 (Some k) = flagged (all_nodes (kp_priorities kp2))" if "view_ok s"
  proof -
    have "known s2 (Some k) = known s (Some k) - flagged {r}" by (auto simp: known_def s2(3))
    also have "known s (Some k) = flagged (all_nodes (kp_priorities kp))"
      using that kp by (simp add: view_ok_def marked_def)
    finally show ?thesis using n(3) by simp
  qed
  have o: "others_ok s2 k" "view_ok s \<Longrightarrow> others_view s2 k"
    using others_frame [of k s2 s, OF s2(2) kn] inv_others [of s k] inv by simp_all
  show ?thesis
  proof (cases "kp_priorities kp2")
    case Nil
    define s3 where "s3 = s2\<lparr>k_krt := rb_remove (k_krt s2) k\<rparr>"
    have f: "fec_find (k_krt s3) l = (if l = k then None else fec_find (k_krt s) l)" for l
      using s2(2) [of l] by (simp add: s3_def fec_find_def)
    have "kr_inv s3" unfolding kr_inv_def f using inv by (auto simp: kr_inv_def)
    moreover have "view_ok s3" if v: "view_ok s"
      unfolding view_ok_def
    proof
      fix c
      have e: "known s3 c = known s2 c" by (simp add: known_def s3_def)
      show "known s3 c = marked s3 c"
      proof (cases "c = Some k")
        case True
        with e kk [OF v] Nil show ?thesis by (simp add: marked_def f)
      next
        case False
        with e kn [OF False] v marked_others [of k s3 s c] show ?thesis by (simp add: view_ok_def f)
      qed
    qed
    ultimately show ?thesis
      by (simp add: s2_def [symmetric] Let_def get_kp_def s2(1) Nil s3_def [symmetric]) (simp add: s3_def s2(4))
  next
    case (Cons p ps)
    have "okE (kr_redistribute s2 k) (\<lambda>s'. kr_inv s' \<and> k_kit s' = k_kit s2 \<and> k_pid s' = k_pid s2 \<and>
      (others_view s2 k \<and> flagged (all_nodes (p # ps)) \<subseteq> known s2 (Some k) \<and>
       known s2 (Some k) \<subseteq> flagged (all_nodes (p # ps)) \<union>
        route_id ` {r \<in> set (kprio_nexthops p). redistributable r = Inr True} \<longrightarrow> view_ok s'))"
      by (rule kr_redistribute_ok [OF s2(1) kp_okD(6) [OF ok] d(2) Cons])
        (use n(1,2) d flags_ok_sound [OF kp_okD(4) [OF ok]] o(1) Cons in auto)
    then have "okE (kr_redistribute s2 k) (\<lambda>s'. kr_inv s' \<and> k_kit s' = k_kit s \<and> (view_ok s \<longrightarrow> view_ok s'))"
      by (rule okE_mono) (use kk o(2) s2(4) Cons in auto)
    then show ?thesis
      by (auto simp: s2_def [symmetric] Let_def get_kp_def s2(1) Cons okE_bind_iff)
  qed
qed

lemma kroute_remove_ok:
  assumes inv: "kr_inv s"
  shows "okE (kroute_remove y s kr) (\<lambda>(_, s'). kr_inv s' \<and> k_kit s' = k_kit s \<and> (view_ok s \<longrightarrow> view_ok s'))"
  unfolding kroute_remove_def
proof (rule okE_bind [OF kroute_lookup_ok [OF inv]], goal_cases)
  case (1 x)
  show ?case
  proof (cases x)
    case (Some z)
    obtain k i j where z: "z = (k, i, j)" by (cases z)
    with 1 Some obtain kp where kp: "fec_find (k_krt s) k = Some kp" "kp_ok k kp" and
      ij: "i < length (kp_priorities kp)" "j < length (kprio_nexthops (kp_priorities kp ! i))" by blast
    let ?r = "kprio_nexthops (kp_priorities kp ! i) ! j"
    obtain r1 os where rr: "kr_redist_remove ?r (k_out s) = (r1, os)" by fastforce
    note v = kr_redist_remove_node [OF rr]
    have "sendable r1" using v node_sendable [OF kp(2) nth_in_all_nodes [OF ij]] by simp
    then show ?thesis
      unfolding Some option.case z prod.case get_kn_eq [OF kp(1) ij] bindE_simps rr Let_def
      by (rule okE_bind [OF kroute_uninstall_unseen])
        (use kroute_remove_node_ok [OF inv kp(1) ij refl] v in \<open>auto simp: unseen_def Let_def\<close>)
  qed (simp add: inv)
qed

section \<open>Update\<close>

text \<open>
  An update replaces a node by the route of the message, which carries neither the labels nor the
  flags the daemon had set. The view of the engine stays right when a marked route is replaced by
  one that is redistributable.
\<close>

definition stale_free :: "kr_state \<Rightarrow> kroute_r \<Rightarrow> bool" where
  "stale_free s kr \<longleftrightarrow> (route_id kr \<in> marked s (class_of kr) \<longrightarrow> redistributable kr = Inr True)"

lemma set_node_replace:
  assumes ok: "kp_ok k kp" and i: "i < length (kp_priorities kp)"
    and j: "j < length (kprio_nexthops (kp_priorities kp ! i))"
    and kr: "kr_af kr = kp_af kp" "class_of kr = Some k" "kr_priority kr = kprio_priority (kp_priorities kp ! i)"
      "nh_id (kp_af kp) (kr_nexthop (kprio_nexthops (kp_priorities kp ! i) ! j)) = nh_id (kp_af kp) (kr_nexthop kr)"
  defines "ps \<equiv> kp_priorities (set_node i j kr kp)"
  shows "prios_ok (kp_af kp) k ps" "all_nodes ps \<subseteq> insert kr (all_nodes (kp_priorities kp))" "kr \<in> set (kprio_nexthops (ps ! i))"
    "flagged (all_nodes (kp_priorities kp)) \<subseteq> insert (route_id kr) (flagged (all_nodes ps))"
proof -
  let ?p = "kp_priorities kp ! i" let ?q = "?p\<lparr>kprio_nexthops := (kprio_nexthops ?p)[j := kr]\<rparr>"
  have ps: "ps = (kp_priorities kp)[i := ?q]" by (simp add: ps_def set_node_def)
  note pok = kp_okD(3) [OF ok]
  have pk: "kprio_ok (kp_af kp) k ?p" using pok i by (simp add: prios_ok_def)
  have "map (nh_id (kp_af kp) \<circ> kr_nexthop) ((kprio_nexthops ?p)[j := kr]) = map (nh_id (kp_af kp) \<circ> kr_nexthop) (kprio_nexthops ?p)"
    using j kr(4) by (simp add: map_update) (metis comp_apply list_update_id nth_map)
  then have "kprio_ok (kp_af kp) k ?q"
    using pk kr(1-3) set_update_subset_insert [of "kprio_nexthops ?p" j kr] by (auto simp: kprio_ok_def)
  then show "prios_ok (kp_af kp) k ps" unfolding ps
    by (intro prios_ok_update i) (use pok in \<open>auto simp: prios_ok_def\<close>)
  show "all_nodes ps \<subseteq> insert kr (all_nodes (kp_priorities kp))"
  proof -
    have "set (kprio_nexthops ?q) \<subseteq> insert kr (set (kprio_nexthops ?p))"
      using set_update_subset_insert [of "kprio_nexthops ?p" j kr] by simp
    moreover have "set (kprio_nexthops ?p) \<subseteq> all_nodes (kp_priorities kp)"
      unfolding all_nodes_def using nth_mem [OF i] by blast
    ultimately show ?thesis using all_nodes_update(1) [OF i, of ?q] unfolding ps by blast
  qed
  show krin: "kr \<in> set (kprio_nexthops (ps ! i))" using i j by (simp add: ps set_update_memI)
  show "flagged (all_nodes (kp_priorities kp)) \<subseteq> insert (route_id kr) (flagged (all_nodes ps))"
  proof
    fix x assume "x \<in> flagged (all_nodes (kp_priorities kp))"
    then obtain p' r where r: "p' \<in> set (kp_priorities kp)" "r \<in> set (kprio_nexthops p')" "redist r" "x = route_id r"
      by (auto simp: flagged_def all_nodes_def)
    obtain l where l: "l < length (kp_priorities kp)" "p' = kp_priorities kp ! l" using r(1) by (auto simp: in_set_conv_nth)
    obtain m where m: "m < length (kprio_nexthops p')" "r = kprio_nexthops p' ! m" using r(2) by (auto simp: in_set_conv_nth)
    show "x \<in> insert (route_id kr) (flagged (all_nodes ps))"
    proof (cases "l = i \<and> m = j")
      case True
      then have "route_id r = route_id kr" using kr m l pk j by (auto simp: route_id_def kprio_ok_def)
      with r show ?thesis by simp
    next
      case False
      then have "kprio_nexthops (ps ! l) ! m = r" "m < length (kprio_nexthops (ps ! l))" "l < length ps"
        using l m by (cases "l = i"; simp add: ps)+
      then have "r \<in> all_nodes ps" using nth_in_all_nodes [of l ps m] by auto
      with r show ?thesis by (auto simp: flagged_def)
    qed
  qed
qed

lemma kroute_update_ok:
  assumes inv: "kr_inv s" and kp: "fec_find (k_krt s) k = Some kp" and i: "i < length (kp_priorities kp)"
    and j: "j < length (kprio_nexthops (kp_priorities kp ! i))"
    and kr: "kr_af kr = kp_af kp" "class_of kr = Some k" "kr_priority kr = kprio_priority (kp_priorities kp ! i)"
      "nh_id (kp_af kp) (kr_nexthop (kprio_nexthops (kp_priorities kp ! i) ! j)) = nh_id (kp_af kp) (kr_nexthop kr)"
    and nr: "\<not> redist kr"
  shows "okE (kr_redistribute (set_kn s k i j kr) k)
    (\<lambda>s'. kr_inv s' \<and> k_kit s' = k_kit s \<and> (view_ok s \<and> stale_free s kr \<longrightarrow> view_ok s'))"
proof -
  note ok = kr_invD [OF inv kp]
  define kp2 where "kp2 = set_node i j kr kp"
  define s2 where "s2 = set_kn s k i j kr"
  note n = set_node_replace [OF ok i j kr, folded kp2_def]
  have s2: "fec_find (k_krt s2) k = Some kp2" "\<And>l. l \<noteq> k \<Longrightarrow> fec_find (k_krt s2) l = fec_find (k_krt s) l"
    "k_out s2 = k_out s" "k_kit s2 = k_kit s" "kp_af kp2 = kp_af kp" "kp_class kp2 = Some k"
    using kp kp_okD(1) [OF ok] by (simp_all add: s2_def set_kn_def kp2_def set_node_def)
  have kn: "known s2 = known s" by (simp add: known_def s2(3) fun_eq_iff)
  have o: "others_ok s2 k" "view_ok s \<Longrightarrow> others_view s2 k"
    using others_frame [of k s2 s, OF s2(2)] kn inv_others [of s k] inv by simp_all
  have len: "length (kp_priorities kp2) = length (kp_priorities kp)" by (simp add: kp2_def set_node_def)
  then obtain p ps where c: "kp_priorities kp2 = p # ps" using i by (cases "kp_priorities kp2") auto
  have sound: "\<forall>r\<in>all_nodes (p # ps). redist r \<longrightarrow> redistributable r = Inr True"
    using n(2) nr flags_ok_sound [OF kp_okD(4) [OF ok]] unfolding c by blast
  have sub: "flagged (all_nodes (p # ps)) \<subseteq> flagged (all_nodes (kp_priorities kp))"
    using n(2) nr unfolding c flagged_def by blast
  have first: "route_id kr \<in> flagged (all_nodes (kp_priorities kp)) \<Longrightarrow> kr \<in> set (kprio_nexthops p)"
  proof -
    assume "route_id kr \<in> flagged (all_nodes (kp_priorities kp))"
    then obtain r where r: "r \<in> all_nodes (kp_priorities kp)" "redist r" "route_id r = route_id kr"
      by (auto simp: flagged_def)
    obtain q qs where q: "kp_priorities kp = q # qs" using i by (cases "kp_priorities kp") auto
    have "r \<in> set (kprio_nexthops q)" using kp_okD(4) [OF ok] r(1,2) by (auto simp: flags_ok_def q)
    then have "kr_priority kr = kprio_priority q"
      using kp_okD(3) [OF ok] r(3) by (auto simp: q prios_ok_def kprio_ok_def route_id_def)
    then have "i = 0" using kr(3) sorted_prio_unique [of "kp_priorities kp" i 0] kp_okD(3) [OF ok] i
      by (auto simp: q prios_ok_def)
    with n(3) c show "kr \<in> set (kprio_nexthops p)" by simp
  qed
  have "okE (kr_redistribute s2 k) (\<lambda>s'. kr_inv s' \<and> k_kit s' = k_kit s2 \<and> k_pid s' = k_pid s2 \<and>
      (others_view s2 k \<and> flagged (all_nodes (p # ps)) \<subseteq> known s2 (Some k) \<and>
       known s2 (Some k) \<subseteq> flagged (all_nodes (p # ps)) \<union>
        route_id ` {r \<in> set (kprio_nexthops p). redistributable r = Inr True} \<longrightarrow> view_ok s'))"
    by (rule kr_redistribute_ok [OF s2(1) kp_okD(6) [OF ok] s2(6) c])
      (use n(1) s2(5) sound o(1) c in auto)
  moreover have "flagged (all_nodes (p # ps)) \<subseteq> known s2 (Some k) \<and>
       known s2 (Some k) \<subseteq> flagged (all_nodes (p # ps)) \<union>
        route_id ` {r \<in> set (kprio_nexthops p). redistributable r = Inr True}" if v: "view_ok s" "stale_free s kr"
  proof -
    have e: "known s2 (Some k) = flagged (all_nodes (kp_priorities kp))"
      using v(1) kp by (simp add: kn view_ok_def marked_def)
    have "marked s (class_of kr) = flagged (all_nodes (kp_priorities kp))" using kp kr(2) by (simp add: marked_def)
    then have "route_id kr \<in> flagged (all_nodes (kp_priorities kp)) \<longrightarrow>
        route_id kr \<in> route_id ` {r \<in> set (kprio_nexthops p). redistributable r = Inr True}"
      using v(2) first by (auto simp: stale_free_def)
    with n(4) sub show ?thesis unfolding e c by blast
  qed
  ultimately show ?thesis unfolding s2_def [symmetric]
    by (elim okE_mono) (use o(2) s2(4) in auto)
qed

section \<open>A message about a route\<close>

definition route_clean :: "ksys \<Rightarrow> kr_state \<Rightarrow> rtm_type \<Rightarrow> kroute_r \<Rightarrow> bool" where
  "route_clean y s kind kr \<longleftrightarrow>
     kind = RTM_DELETE \<or>
     (case (if kind = RTM_CHANGE then change_remove y s kr else Inr s) of Inl _ \<Rightarrow> True | Inr s1 \<Rightarrow> stale_free s1 kr)"

lemma change_remove_ok:
  assumes inv: "kr_inv s"
  shows "okE (change_remove y s kr) (\<lambda>s'. kr_inv s' \<and> k_kit s' = k_kit s \<and> (view_ok s \<longrightarrow> view_ok s'))"
  unfolding change_remove_def
  by (auto simp: inv split: option.split list.split intro!: okE_bind [OF kroute_remove_ok [OF inv]])

lemma kroute_process_ok:
  assumes inv: "kr_inv s" and kr: "new_route kr"
  shows "okE (kroute_process y s kind kr) (\<lambda>(_, s'). kr_inv s' \<and> k_kit s' = k_kit s \<and>
    (view_ok s \<and> route_clean y s kind kr \<longrightarrow> view_ok s'))"
proof -
  let ?P = "\<lambda>s'. kr_inv s' \<and> k_kit s' = k_kit s \<and> (view_ok s \<and> route_clean y s kind kr \<longrightarrow> view_ok s')"
  have "okE (if kind = RTM_CHANGE then change_remove y s kr else Inr s)
      (\<lambda>s'. kr_inv s' \<and> k_kit s' = k_kit s \<and> (view_ok s \<longrightarrow> view_ok s'))"
    using change_remove_ok [OF inv] inv by auto
  then obtain s1 where c: "(if kind = RTM_CHANGE then change_remove y s kr else Inr s) = Inr s1"
    and s1: "kr_inv s1" "k_kit s1 = k_kit s" "view_ok s \<Longrightarrow> view_ok s1"
    unfolding okE_def by blast
  have clean: "route_clean y s kind kr \<Longrightarrow> kind \<noteq> RTM_DELETE \<Longrightarrow> stale_free s1 kr" unfolding route_clean_def c by simp
  have kr': "new_route (kr\<lparr>kr_local_label := l, kr_remote_label := m\<rparr>)" for l m
    using kr by (simp add: new_route_def)
  show ?thesis unfolding kroute_process_def c bindE_simps
  proof (rule okE_bind [OF kroute_lookup_ok [OF s1(1)]], goal_cases)
    case (1 x)
    show ?case
    proof (cases "kind = RTM_DELETE")
      case True
      then show ?thesis using s1 by (auto intro: okE_mono [OF kroute_remove_ok [OF s1(1)]])
    next
      case nd: False
      show ?thesis
      proof (cases x)
        case None
        have "okE (kroute_insert s1 (kr\<lparr>kr_local_label := NO_LABEL, kr_remote_label := NO_LABEL\<rparr>)) ?P"
          by (rule okE_mono [OF kroute_insert_ok [OF s1(1) kr']]) (use s1 in auto)
        then show ?thesis using nd None s1 by (auto simp: okE_bind_iff)
      next
        case (Some z)
        obtain k i j where z: "z = (k, i, j)" by (cases z)
        with 1 Some kr obtain kp where kp: "class_of kr = Some k" "fec_find (k_krt s1) k = Some kp" "kp_af kp = kr_af kr"
          and ij: "i < length (kp_priorities kp)" "j < length (kprio_nexthops (kp_priorities kp ! i))"
          and e: "kprio_priority (kp_priorities kp ! i) = kr_priority kr"
            "nh_id (kr_af kr) (kr_nexthop (kprio_nexthops (kp_priorities kp ! i) ! j)) = nh_id (kr_af kr) (kr_nexthop kr)"
          by (auto simp: class_of_def new_route_def)
        have "okE (kr_redistribute (set_kn s1 k i j kr) k) ?P"
          by (rule okE_mono [OF kroute_update_ok [OF s1(1) kp(2) ij]])
            (use kp e kr s1 clean nd in \<open>auto simp: new_route_def\<close>)
        then show ?thesis using nd Some z s1 by (auto simp: okE_bind_iff)
      qed
    qed
  qed
qed

section \<open>Clearing the table\<close>

lemma clear_nodes_ok:
  assumes "\<forall>r\<in>set rs. sendable r"
  shows "okE (foldE (clear_node y) rs s)
    (\<lambda>s'. k_krt s' = k_krt s \<and> k_kit s' = k_kit s \<and> lde_view (k_out s') = lde_view (k_out s) - flagged (set rs))"
  using assms
proof (induction rs arbitrary: s)
  case (Cons r rs)
  obtain r1 os where rr: "kr_redist_remove r (k_out s) = (r1, os)" by fastforce
  note v = kr_redist_remove_node [OF rr]
  have "okE (clear_node y s r) (\<lambda>s'. k_krt s' = k_krt s \<and> k_kit s' = k_kit s \<and> lde_view (k_out s') = lde_view (k_out s) - flagged {r})"
    unfolding clear_node_def rr Let_def prod.case
    by (rule okE_bind [OF kroute_uninstall_unseen]) (use v Cons.prems in \<open>auto simp: unseen_def\<close>)
  then show ?case
    unfolding foldE.simps
    by (rule okE_bind, intro okE_mono [OF Cons.IH]) (use Cons.prems in auto)
qed simp

lemma all_nodes_concat: "set (concat (map kprio_nexthops ps)) = all_nodes ps"
  by (auto simp: all_nodes_def)

lemma kroute_clear_ok:
  assumes inv: "kr_inv s"
  shows "okE (kroute_clear y s) (\<lambda>s'. (\<forall>k. fec_find (k_krt s') k = None) \<and> k_kit s' = k_kit s \<and>
    (view_ok s \<longrightarrow> lde_view (k_out s') = {}))"
proof -
  let ?f = "\<lambda>s k. bindE (get_kp s k) (\<lambda>kp.
       bindE (foldE (clear_node y) (concat (map kprio_nexthops (kp_priorities kp))) s) (\<lambda>s1.
       Inr (s1\<lparr>k_krt := rb_remove (k_krt s1) k\<rparr>)))"
  have step: "okE (foldE ?f ks t) (\<lambda>s'. kr_inv s' \<and> k_kit s' = k_kit t \<and> (view_ok t \<longrightarrow> view_ok s') \<and>
      (\<forall>k. fec_find (k_krt s') k = (if k \<in> set ks then None else fec_find (k_krt t) k)))"
    if "distinct ks" "\<forall>k\<in>set ks. fec_find (k_krt t) k \<noteq> None" "kr_inv t" for ks t
    using that
  proof (induction ks arbitrary: t)
    case (Cons k ks)
    then obtain kp where kp: "fec_find (k_krt t) k = Some kp" by auto
    note ok = kr_invD [OF Cons.prems(3) kp]
    have snd: "\<forall>r\<in>set (concat (map kprio_nexthops (kp_priorities kp))). sendable r"
      unfolding all_nodes_concat using node_sendable [OF ok] by blast
    have one: "okE (?f t k) (\<lambda>u. kr_inv u \<and> k_kit u = k_kit t \<and> (view_ok t \<longrightarrow> view_ok u) \<and>
        (\<forall>j. fec_find (k_krt u) j = (if j = k then None else fec_find (k_krt t) j)))"
      unfolding get_kp_def kp option.case bindE_simps
    proof (rule okE_bind [OF clear_nodes_ok [OF snd]], unfold okE_Inr, goal_cases)
      case (1 u)
      let ?u = "u\<lparr>k_krt := rb_remove (k_krt u) k\<rparr>"
      have f: "fec_find (k_krt ?u) j = (if j = k then None else fec_find (k_krt t) j)" for j
        using 1 by (simp add: fec_find_def)
      have "view_ok ?u" if v: "view_ok t"
        unfolding view_ok_def
      proof
        fix c
        have kn: "known ?u c = known t c - flagged (all_nodes (kp_priorities kp))"
          using 1 by (auto simp: known_def all_nodes_concat simp del: set_concat)
        show "known ?u c = marked ?u c"
        proof (cases "c = Some k")
          case True
          then have "known t c = flagged (all_nodes (kp_priorities kp))" using v kp by (simp add: view_ok_def marked_def)
          with kn True show ?thesis by (simp add: marked_def fec_find_def)
        next
          case False
          have "known t c \<inter> flagged (all_nodes (kp_priorities kp)) = {}"
            using flagged_class [OF kp_okD(3) [OF ok]] False by (auto simp: known_def)
          with kn marked_others [of k ?u t c] False v f show ?thesis by (auto simp: view_ok_def)
        qed
      qed
      moreover have "kr_inv ?u" unfolding kr_inv_def f using Cons.prems(3) by (auto simp: kr_inv_def)
      ultimately show ?case using f 1 by simp
    qed
    show ?case unfolding foldE.simps
      by (rule okE_bind [OF one], rule okE_mono [OF Cons.IH]) (use Cons.prems in auto)
  qed simp
  have "okE (foldE ?f (rb_keys (k_krt s)) s) (\<lambda>s'. kr_inv s' \<and> k_kit s' = k_kit s \<and> (view_ok s \<longrightarrow> view_ok s') \<and>
      (\<forall>k. fec_find (k_krt s') k = (if k \<in> set (rb_keys (k_krt s)) then None else fec_find (k_krt s) k)))"
    by (rule step) (use inv rb.keys_ordered [of "k_krt s"] in \<open>auto simp: fec_find_def\<close>)
  then show ?thesis unfolding kroute_clear_def
  proof (rule okE_mono, goal_cases)
    case (1 u)
    then have n: "fec_find (k_krt u) k = None" for k by (auto simp: fec_find_def)
    then have "marked u c = {}" for c by (cases c) (simp_all add: marked_def)
    with n 1 show ?case by (simp add: view_ok_iff)
  qed
qed

end
