(* ===== verification/Kr_Match.thy ===== *)
theory Kr_Match
  imports Kr_Inv
begin

text \<open>
  \<^verbatim>\<open>kroute_match\<close> tries every prefix length from the longest down; the reference is the set of
  prefixes of the table that cover the address.
\<close>

definition maxprefixlen :: "af \<Rightarrow> nat" where
  "maxprefixlen af = (if af = AF_INET then 32 else 128)"

definition masked_class :: "af \<Rightarrow> ldpd_addr \<Rightarrow> nat \<Rightarrow> fec option" where
  "masked_class af key l =
     (case ldp_applymask af key key l of Inl _ \<Rightarrow> None | Inr a \<Rightarrow> kp_key af a (of_nat l))"

text \<open>A prefix covers an address if it is the address cut to the length of the prefix.\<close>

definition covers :: "fec \<Rightarrow> af \<Rightarrow> ldpd_addr \<Rightarrow> bool" where
  "covers k af key \<longleftrightarrow> (\<exists>l\<le>maxprefixlen af. masked_class af key l = Some k)"

fun fec_len :: "fec \<Rightarrow> nat" where
  "fec_len (FEC_IPV4 _ l) = unat l"
| "fec_len (FEC_IPV6 _ l) = unat l"
| "fec_len (FEC_PWID _ _ _) = 0"

lemma ldp_applymask_class:
  assumes "l \<le> maxprefixlen af" "af \<noteq> AF_UNSPEC"
  shows "\<exists>a k. ldp_applymask af dest key l = Inr a \<and> kp_key af a (of_nat l) = Some k \<and> masked_class af key l = Some k"
proof (cases af)
  case AF_INET
  with assms obtain m where "prefixlen2mask l = Inr m"
    by (cases "l = 0") (auto simp: prefixlen2mask_def maxprefixlen_def)
  with AF_INET show ?thesis by (simp add: masked_class_def ldp_applymask_def kp_key_def)
next
  case AF_INET6
  with assms have "prefixlen2mask6 l = Inr (map (mask6_byte l) [0..<16])"
    by (simp add: prefixlen2mask6_eq maxprefixlen_def)
  with AF_INET6 show ?thesis by (simp add: masked_class_def ldp_applymask_def kp_key_def)
qed (use assms in simp)

lemma masked_class_len:
  assumes "masked_class af key l = Some k" "l \<le> maxprefixlen af"
  shows "fec_len k = l"
proof -
  have "unat (of_nat l :: u8) = l" using assms(2) by (auto simp: maxprefixlen_def unsigned_of_nat take_bit_nat_eq_self split: if_splits)
  with assms(1) show ?thesis by (auto simp: masked_class_def kp_key_def split: sum.splits af.splits)
qed

lemma match_loop_step:
  assumes inv: "kr_inv s" and i: "i \<le> maxprefixlen af" and af: "af \<noteq> AF_UNSPEC"
  shows "\<exists>addr1 k. masked_class af key i = Some k \<and> match_loop s af key addr i =
    (case fec_find (k_krt s) k of
       Some kp \<Rightarrow> Inr (Some (k, hd (kp_priorities kp)))
     | None \<Rightarrow> (case i of 0 \<Rightarrow> Inr None | Suc i1 \<Rightarrow> match_loop s af key addr1 i1))"
proof -
  obtain a k where a: "ldp_applymask af addr key i = Inr a" "kp_key af a (of_nat i) = Some k" "masked_class af key i = Some k"
    using ldp_applymask_class [OF i af] by blast
  show ?thesis
  proof (cases "fec_find (k_krt s) k")
    case None
    with a show ?thesis
      by (intro exI [of _ a]) (subst match_loop.simps, simp add: kroute_find_prefix_def)
  next
    case (Some kp)
    then have "kp_priorities kp \<noteq> []" using kp_okD(2) [OF kr_invD [OF inv]] by blast
    with a Some show ?thesis
      by (intro exI [of _ a] exI [of _ k]) (subst match_loop.simps, simp add: kroute_find_prefix_def kroute_find_prio_def hd_conv_nth)
  qed
qed

definition best :: "kr_state \<Rightarrow> af \<Rightarrow> ldpd_addr \<Rightarrow> nat \<Rightarrow> (fec \<times> kroute_priority) option \<Rightarrow> bool" where
  "best s af key i r \<longleftrightarrow>
     (case r of
        None \<Rightarrow> \<forall>l\<le>i. \<forall>k. masked_class af key l = Some k \<longrightarrow> fec_find (k_krt s) k = None
      | Some (k, p) \<Rightarrow> \<exists>l\<le>i. masked_class af key l = Some k \<and>
          (\<exists>kp. fec_find (k_krt s) k = Some kp \<and> p = hd (kp_priorities kp)) \<and>
          (\<forall>m\<le>i. l < m \<longrightarrow> (\<forall>k'. masked_class af key m = Some k' \<longrightarrow> fec_find (k_krt s) k' = None)))"

lemma match_loop_best:
  assumes inv: "kr_inv s" and i: "i \<le> maxprefixlen af" and af: "af \<noteq> AF_UNSPEC"
  shows "okE (match_loop s af key addr i) (best s af key i)"
  using i
proof (induction i arbitrary: addr)
  case 0
  then show ?case using match_loop_step [OF inv 0 af, of key addr]
    by (auto simp: best_def split: option.splits)
next
  case (Suc i)
  obtain addr1 k where k: "masked_class af key (Suc i) = Some k" and e: "match_loop s af key addr (Suc i) =
      (case fec_find (k_krt s) k of Some kp \<Rightarrow> Inr (Some (k, hd (kp_priorities kp))) | None \<Rightarrow> match_loop s af key addr1 i)"
    using match_loop_step [OF inv Suc.prems af, of key addr] unfolding nat.case by blast
  show ?case
  proof (cases "fec_find (k_krt s) k")
    case None
    have "okE (match_loop s af key addr1 i) (best s af key i)" using Suc by simp
    then have "okE (match_loop s af key addr1 i) (best s af key (Suc i))"
    proof (rule okE_mono)
      fix r assume b: "best s af key i r"
      show "best s af key (Suc i) r"
      proof (cases r)
        case None
        with b \<open>fec_find (k_krt s) k = None\<close> k show ?thesis by (auto simp: best_def le_Suc_eq)
      next
        case (Some x)
        with b obtain l where "l \<le> i" "masked_class af key l = Some (fst x)"
          "\<exists>kp. fec_find (k_krt s) (fst x) = Some kp \<and> snd x = hd (kp_priorities kp)"
          "\<forall>m\<le>i. l < m \<longrightarrow> (\<forall>k'. masked_class af key m = Some k' \<longrightarrow> fec_find (k_krt s) k' = None)"
          by (auto simp: best_def)
        with Some None k show ?thesis
          by (auto simp: best_def split_beta le_Suc_eq intro!: exI [of _ l])
      qed
    qed
    with e None show ?thesis by simp
  next
    case (Some kp)
    with k e show ?thesis by (auto simp: best_def intro!: exI [of _ "Suc i"])
  qed
qed

text \<open>What is returned for an address covered by no prefix, and for one that is.\<close>

lemma hd_prio_least:
  assumes "prios_ok af k ps" "q \<in> set ps"
  shows "kprio_priority (hd ps) \<le> kprio_priority q"
  using assms by (cases ps) (auto simp: prios_ok_def less_imp_le)

lemma kroute_match_ok:
  assumes inv: "kr_inv s" and af: "af \<noteq> AF_UNSPEC"
  shows "okE (kroute_match s addr af key) (best s af key (maxprefixlen af))"
  using match_loop_best [OF inv le_refl af, of key addr] af
  by (cases af) (simp_all add: kroute_match_def maxprefixlen_def)

end
