(* ===== verification/Kr_Reach.thy ===== *)
theory Kr_Reach
  imports Kr_Routes Kr_Match
begin

text \<open>
  The parent's routing tables as a transition system: the messages of the kernel, the requests of
  the label decision engine (labels and pseudowires), the commands of the control program and the
  shutdown. No event the kernel and the engines can produce makes the tables fault, and every
  reachable state satisfies the invariants.
\<close>

section \<open>Interfaces do not touch the routes\<close>

definition kif_step :: "kr_state \<Rightarrow> kr_state \<Rightarrow> bool" where
  "kif_step s s' \<longleftrightarrow> k_krt s' = k_krt s \<and> lde_view (k_out s') = lde_view (k_out s) \<and> (kif_inv s \<longrightarrow> kif_inv s')"

lemma kif_step_refl [simp]: "kif_step s s"
  by (simp add: kif_step_def)

lemma kif_step_trans: "kif_step s t \<Longrightarrow> kif_step t u \<Longrightarrow> kif_step s u"
  by (simp add: kif_step_def)

lemma kif_step_quiet: "kif_step s s' \<Longrightarrow> quiet s s'"
  by (simp add: kif_step_def quiet_krt)

lemma kif_step_unseen: "unseen s s' \<Longrightarrow> kif_step s s'"
  by (auto simp: unseen_def kif_step_def kif_inv_def kif_find_def)

lemma kif_step_upd:
  assumes "\<And>kif. kif_kpw (f kif) = kif_kpw kif"
  shows "kif_step s (upd_kif s i f)"
  using assms by (auto simp: kif_step_def upd_kif_def kif_inv_def kif_find_def)

lemma kif_step_emit: "kif_step s (kr_emit s (To_ldpe m))"
  by (rule kif_step_unseen [OF unseen_emit(3)])

lemma kif_step_send_addrs: "kif_step s (send_addrs f as s)"
proof -
  have "foldl view_step V (map (\<lambda>a. To_ldpe (f a)) as) = V" for V by (induction as) simp_all
  then show ?thesis by (simp add: kif_step_def send_addrs_def lde_view_append kif_inv_def kif_find_def)
qed

lemma kif_insert_step:
  assumes "kif_find s i = None"
  shows "okE (kif_insert s i) (\<lambda>s'. kif_step s s' \<and> kif_find s' i \<noteq> None)"
  using assms
  by (auto simp: kif_insert_def Let_def split_beta kif_step_def kif_inv_def kif_find_def split: if_splits)

lemma kif_remove_step: "kif_step s (snd (kif_remove s i))"
proof (cases "kif_find s i")
  case (Some kif)
  have "kif_step s (s\<lparr>k_kit := rb_remove (k_kit s) i\<rparr>)"
    by (auto simp: kif_step_def kif_inv_def kif_find_def)
  with Some show ?thesis by (auto simp: kif_remove_def intro: kif_step_trans kif_step_send_addrs)
qed (simp add: kif_remove_def)

lemma foldl_kif_step: "(\<And>s i. kif_step s (f s i)) \<Longrightarrow> kif_step s (foldl f s is)"
  by (induction "is" arbitrary: s) (auto intro: kif_step_trans)

lemma kif_clear_step: "kif_step s (kif_clear s)"
  unfolding kif_clear_def by (rule foldl_kif_step) (rule kif_remove_step)

lemma kif_redistribute_step: "kif_step s (kif_redistribute s n)"
  unfolding kif_redistribute_def by (rule foldl_kif_step) (auto simp: kif_step_send_addrs split: option.split)

lemma kif_update_step: "okE (kif_update s i fl ifd sdl) (\<lambda>(_, s'). kif_step s s' \<and> kif_find s' i \<noteq> None)"
proof -
  let ?u = "\<lambda>kif. kif\<lparr>kif_k := (kif_k kif)\<lparr>kif_flags := fl, kif_link_state := ifi_link_state ifd,
    kif_if_type := ifi_type ifd, kif_baudrate := ifi_baudrate ifd, kif_mtu := ifi_mtu ifd,
    kif_ifname := kif_name (kif_ifname (kif_k kif)) sdl\<rparr>\<rparr>"
  have u: "kif_step s (upd_kif t i ?u) \<and> kif_find (upd_kif t i ?u) i \<noteq> None" if "kif_step s t" "kif_find t i \<noteq> None" for t
    using kif_step_trans [OF that(1) kif_step_upd [of ?u t i]] that(2) by (auto simp: upd_kif_def kif_find_def)
  show ?thesis
  proof (cases "kif_find s i")
    case None
    then obtain t where "kif_insert s i = Inr t" "kif_step s t" "kif_find t i \<noteq> None"
      using kif_insert_step [OF None] by (auto simp: okE_def)
    with None u [of t] show ?thesis by (simp add: kif_update_def)
  next
    case (Some kif)
    with u [of s] show ?thesis by (simp add: kif_update_def)
  qed
qed

lemma if_change_step: "okE (if_change s i fl ifd sdl) (kif_step s)"
  unfolding if_change_def
proof (rule okE_bind [OF kif_update_step], goal_cases)
  case (1 x)
  obtain b t where x: "x = (b, t)" by (cases x)
  with 1 obtain kif where kif: "kif_step s t" "kif_find t i = Some kif" by auto
  then have "kif_step s (send_addrs f as (kr_emit t (To_ldpe m)))" for f as m
    by (blast intro: kif_step_trans kif_step_emit kif_step_send_addrs)
  with kif x show ?case by (simp add: Let_def)
qed

lemma if_newaddr_step:
  assumes "\<And>sa. ifa = Some sa \<Longrightarrow> \<exists>r. if_kaddr i sa msk brd = Inr r"
  shows "okE (if_newaddr s i ifa msk brd) (kif_step s)"
proof (cases ifa)
  case (Some sa)
  then obtain r where r: "if_kaddr i sa msk brd = Inr r" using assms by blast
  have "kif_step s (kr_emit (upd_kif s i (\<lambda>kif. kif\<lparr>kif_addrs := kif_addrs kif @ [ka]\<rparr>)) (To_ldpe m))" for ka m
    by (rule kif_step_trans [OF kif_step_upd kif_step_emit]) simp
  with Some r show ?thesis by (auto simp: if_newaddr_def split: option.split)
qed (simp add: if_newaddr_def)

text \<open>The addresses of an interface have a family, so that they can be compared.\<close>

lemma if_kaddr_af: "if_kaddr i sa msk brd = Inr (Some ka) \<Longrightarrow> ka_af ka \<noteq> AF_UNSPEC"
  by (auto simp: if_kaddr_def bindE_Inr_iff split: sa_family.splits if_splits)

lemma same_addr_total: "ka_af k \<noteq> AF_UNSPEC \<Longrightarrow> \<exists>b. same_addr a k = Inr b"
  by (cases "ka_af k") (auto simp: same_addr_def ldp_addrcmp_def)

lemma if_deladdr_step:
  assumes "\<And>sa. ifa = Some sa \<Longrightarrow> \<exists>r. if_kaddr 0 sa msk brd = Inr r"
  shows "okE (if_deladdr s i ifa msk brd) (kif_step s)"
proof (cases ifa)
  case (Some sa)
  then obtain r where r: "if_kaddr 0 sa msk brd = Inr r" using assms by blast
  have st: "kif_step s (upd_kif (kr_emit s (To_ldpe m)) i (\<lambda>kif. kif\<lparr>kif_addrs := del_nth j (kif_addrs kif)\<rparr>))" for j m
    by (rule kif_step_trans [OF kif_step_emit kif_step_upd]) simp
  show ?thesis
  proof (cases r)
    case k: (Some k)
    have "\<exists>x. findE (\<lambda>j. same_addr (as ! j) k) js = Inr x" for as js
      using same_addr_total [of k] if_kaddr_af [OF r [unfolded k]]
      by (induction js) (auto, metis bindE_simps(1))
    with Some r k st show ?thesis by (auto simp: if_deladdr_def okE_bind_iff split: option.split) (metis okE_Inr)
  qed (use Some r in \<open>auto simp: if_deladdr_def split: option.split\<close>)
qed (simp add: if_deladdr_def)

lemma if_announce_step:
  assumes "what = IFAN_ARRIVAL \<Longrightarrow> kif_find s i = None"
  shows "okE (if_announce s what i name) (kif_step s)"
proof (cases what)
  case IFAN_ARRIVAL
  with assms kif_insert_step [of s i] obtain t where "kif_insert s i = Inr t" "kif_step s t" by (auto simp: okE_def)
  moreover have "kif_step t (upd_kif t i (\<lambda>kif. kif\<lparr>kif_k := (kif_k kif)\<lparr>kif_ifname := n\<rparr>\<rparr>))" for n
    by (rule kif_step_upd) simp
  ultimately show ?thesis using IFAN_ARRIVAL by (auto simp: if_announce_def intro: kif_step_trans)
qed (simp_all add: if_announce_def kif_remove_step)

section \<open>The route of a message\<close>

lemma mask2prefixlen_bound: "mask2prefixlen ina \<le> 32"
proof (cases "ina = 0")
  case False
  then have "ntohl ina \<noteq> ntohl 0" by simp
  then have "ntohl ina \<noteq> 0" by (simp add: ntohl_def ntohs_def load16_def hi8_def lo8_def join32_def lo16_def hi16_def)
  then obtain n where "n < 32" "bit (ntohl ina) n" using bit_word_eqI [of "ntohl ina" 0] by auto
  then have "find (bit (ntohl ina)) [0..<32] \<noteq> None" by (auto simp: find_None_iff)
  then have "ffs (ntohl ina) \<ge> 1" by (auto simp: ffs_def)
  then show ?thesis unfolding mask2prefixlen_def by (auto split: if_split)
qed (simp add: mask2prefixlen_def)

lemma rtm_prefix_plen:
  assumes "rtm_prefix rtm sa msk = Inr (Some (af, prefix, l))"
  shows "af \<noteq> AF_UNSPEC" "af = AF_INET \<Longrightarrow> unat l \<le> 32"
proof -
  have "unat (of_nat (mask2prefixlen a) :: u8) \<le> 32" for a
    using mask2prefixlen_bound [of a] by (simp add: unsigned_of_nat take_bit_nat_eq_self)
  moreover have "unat (prefixlen_classful a) \<le> 32" for a by (simp add: prefixlen_classful_def)
  ultimately show "af \<noteq> AF_UNSPEC" "af = AF_INET \<Longrightarrow> unat l \<le> 32"
    using assms by (auto simp: rtm_prefix_def bindE_Inr_iff sa_deref_def split: sa_family.splits if_splits)
qed

lemma no_redist_flags:
  "\<not> has_flag f F_REDISTRIBUTED \<Longrightarrow> g \<in> {F_CONNECTED, F_STATIC, F_BLACKHOLE, F_REJECT, F_DYNAMIC} \<Longrightarrow>
   \<not> has_flag (f OR g) F_REDISTRIBUTED"
  using has_flag_set_other [of g F_REDISTRIBUTED f] by (auto simp: set_flag_def const_defs)

lemma rtm_gateway_flag: "\<not> has_flag (snd (snd (rtm_gateway rtm gw))) F_REDISTRIBUTED"
  by (auto simp: rtm_gateway_def Let_def has_flag_def const_defs split: option.split sa_family.split)

lemma rtm_kroute_new:
  assumes "rtm_kroute rtm dst msk gw = Inr (Some kr)" "rtm_priority rtm \<noteq> RTP_ANY"
  shows "new_route kr"
proof -
  obtain af prefix l where p: "rtm_prefix rtm dst msk = Inr (Some (af, prefix, l))"
    using assms(1) by (auto simp: rtm_kroute_def bindE_Inr_iff split: option.splits)
  obtain nh ix f0 where g: "rtm_gateway rtm gw = (nh, ix, f0)" by (metis prod_cases3)
  have f0: "\<not> has_flag f0 F_REDISTRIBUTED" using rtm_gateway_flag [of rtm gw] g by simp
  define f4 where "f4 =
    (let f1 = (if has_flag (rtm_flags rtm) RTF_STATIC then f0 OR F_STATIC else f0);
         f2 = (if has_flag (rtm_flags rtm) RTF_BLACKHOLE then f1 OR F_BLACKHOLE else f1);
         f3 = (if has_flag (rtm_flags rtm) RTF_REJECT then f2 OR F_REJECT else f2)
     in if has_flag (rtm_flags rtm) RTF_DYNAMIC then f3 OR F_DYNAMIC else f3)"
  have f4: "\<not> has_flag f4 F_REDISTRIBUTED" "\<not> has_flag (f4 OR F_CONNECTED) F_REDISTRIBUTED"
    unfolding f4_def Let_def using f0 by (simp_all add: no_redist_flags)
  have "kr_af kr = af" "kr_prefixlen kr = l" "kr_priority kr = rtm_priority rtm" "kr_flags kr = f4 \<or> kr_flags kr = f4 OR F_CONNECTED"
    using assms(1) unfolding rtm_kroute_def p g f4_def by (auto simp: bindE_Inr_iff Let_def)
  with f4 rtm_prefix_plen [OF p] assms(2) show ?thesis by (auto simp: new_route_def sendable_def)
qed

lemma rtm_kroute_total:
  assumes "\<exists>x. rtm_prefix rtm dst msk = Inr x"
  shows "\<exists>x. rtm_kroute rtm dst msk gw = Inr x"
proof -
  obtain x where x: "rtm_prefix rtm dst msk = Inr x" using assms by blast
  show ?thesis
  proof (cases x)
    case (Some z)
    obtain af prefix l where z: "z = (af, prefix, l)" by (cases z)
    have af: "af \<noteq> AF_UNSPEC" using rtm_prefix_plen(1) x Some z by blast
    obtain nh ix f0 where g: "rtm_gateway rtm gw = (nh, ix, f0)" by (metis prod_cases3)
    obtain c where "ldp_addrcmp af prefix nh = Inr c" using ldp_addrcmp_eq_0 [OF af] by blast
    then show ?thesis by (simp add: rtm_kroute_def x Some z g Let_def)
  qed (simp add: rtm_kroute_def x)
qed

section \<open>Events\<close>

datatype kr_event =
    Rt_msg rt_msghdr "rt_sockaddr option list"   \<comment> \<open>one message of the routing socket\<close>
  | Klabel_change kroute                         \<comment> \<open>\<^verbatim>\<open>IMSG_KLABEL_CHANGE\<close> of the label decision engine\<close>
  | Klabel_delete kroute
  | Kpwlabel_change kpw
  | Kpwlabel_delete kpw
  | Fib_couple
  | Fib_decouple
  | Egress_label af bool
  | If_redistribute "string option"
  | Show_route ldpd_addr int show_req
  | Show_ifinfo "string option" int
  | Kr_shutdown

definition kr_run :: "ksys \<Rightarrow> kr_state \<Rightarrow> kr_event \<Rightarrow> kr_state res" where
  "kr_run y s e =
     (case e of
        Rt_msg rtm rti \<Rightarrow> bindE (rtmsg_process_one y s rtm rti) (\<lambda>(_, s1). Inr s1)
      | Klabel_change kr \<Rightarrow> bindE (kr_change y s kr) (\<lambda>(_, s1). Inr s1)
      | Klabel_delete kr \<Rightarrow> bindE (kr_delete y s kr) (\<lambda>(_, s1). Inr s1)
      | Kpwlabel_change kpw \<Rightarrow> bindE (kmpw_set y s kpw) (\<lambda>(_, s1). Inr s1)
      | Kpwlabel_delete kpw \<Rightarrow> Inr (snd (kmpw_unset y s kpw))
      | Fib_couple \<Rightarrow> kr_fib_couple y s
      | Fib_decouple \<Rightarrow> kr_fib_decouple y s
      | Egress_label af was_implicit \<Rightarrow> Inr (kr_change_egress_label s af was_implicit)
      | If_redistribute ifname \<Rightarrow> Inr (kif_redistribute s ifname)
      | Show_route addr pid req \<Rightarrow> kr_show_route s addr pid req
      | Show_ifinfo ifname pid \<Rightarrow> Inr (kr_ifinfo s ifname pid)
      | Kr_shutdown \<Rightarrow> kr_shutdown y s)"

text \<open>
  What the kernel guarantees of its messages. The priority of a route is a value and not the
  wildcard. An IPv6 mask is contiguous: bytes 0xff, at most one byte of leading ones, then zeros. The
  message of an IPv6 route that is neither a host route nor the default route carries a mask. An interface
  arrives only when it is not there yet. Nothing is asked of IPv4 masks and of the other addresses,
  which may all be missing.
\<close>

definition is_route :: "rt_msghdr \<Rightarrow> bool" where
  "is_route rtm \<longleftrightarrow> rtm_kind rtm \<in> {RTM_ADD, RTM_GET, RTM_CHANGE, RTM_DELETE}"

definition contiguous :: "bytes \<Rightarrow> bool" where
  "contiguous bs \<longleftrightarrow>
     (case dropWhile (\<lambda>b. b = 0xff) bs of
        [] \<Rightarrow> True
      | b # rest \<Rightarrow> b \<in> {0xfe, 0xfc, 0xf8, 0xf0, 0xe0, 0xc0, 0x80, 0} \<and> list_all (\<lambda>c. c = 0) rest)"

definition mask6_ok :: "rt_sockaddr option \<Rightarrow> bool" where
  "mask6_ok msk \<longleftrightarrow> (case msk of None \<Rightarrow> True | Some m \<Rightarrow> contiguous (take (unat (sa_len m) - 8) (sa_in6 m)))"

definition route_addrs_ok :: "rt_msghdr \<Rightarrow> rt_sockaddr \<Rightarrow> rt_sockaddr option \<Rightarrow> bool" where
  "route_addrs_ok rtm dst msk \<longleftrightarrow>
     (sa_family dst = SAF_INET6 \<longrightarrow> mask6_ok msk \<and>
        (has_flag (rtm_flags rtm) RTF_HOST \<or> sa_in6_addr dst = replicate 16 0 \<or>
         (case msk of None \<Rightarrow> False | Some m \<Rightarrow> sa_len m \<noteq> 0)))"

definition rtmsg_ok :: "kr_state \<Rightarrow> rt_msghdr \<Rightarrow> rt_sockaddr option list \<Rightarrow> bool" where
  "rtmsg_ok s rtm rti \<longleftrightarrow>
     (is_route rtm \<longrightarrow> rtm_priority rtm \<noteq> RTP_ANY \<and>
        (case rti ! RTAX_DST of None \<Rightarrow> True | Some dst \<Rightarrow> route_addrs_ok rtm dst (rti ! RTAX_NETMASK))) \<and>
     (rtm_kind rtm = RTM_NEWADDR \<or> rtm_kind rtm = RTM_DELADDR \<longrightarrow>
        (case rti ! RTAX_IFA of
           None \<Rightarrow> True
         | Some sa \<Rightarrow> sa_family sa = SAF_INET6 \<longrightarrow> mask6_ok (rti ! RTAX_NETMASK))) \<and>
     (rtm_kind rtm = RTM_IFANNOUNCE \<and> ifan_what rtm = IFAN_ARRIVAL \<longrightarrow> kif_find s (rtm_index rtm) = None)"

text \<open>Such messages describe a route, or an address, without a fault.\<close>

lemma contiguous_total: "contiguous bs \<Longrightarrow> \<exists>l. mask2prefixlen6 k bs = Inr l"
  by (induction bs arbitrary: k) (auto simp: contiguous_def split: if_splits)

lemma mask6_total: "mask6_ok (Some m) \<Longrightarrow> \<exists>l. sa_mask6 m = Inr l"
  using contiguous_total by (simp add: mask6_ok_def sa_mask6_def)

lemma rtm_prefix_total:
  assumes "route_addrs_ok rtm dst msk"
  shows "\<exists>x. rtm_prefix rtm dst msk = Inr x"
proof (cases msk)
  case None
  with assms show ?thesis
    by (cases "sa_family dst") (auto simp: rtm_prefix_def rtm_has_mask_def route_addrs_ok_def)
next
  case (Some m)
  have "\<exists>l. sa_mask6 m = Inr l" if "sa_family dst = SAF_INET6"
    using assms that mask6_total [of m] Some by (simp add: route_addrs_ok_def)
  with Some assms show ?thesis
    by (cases "sa_family dst") (auto simp: rtm_prefix_def rtm_has_mask_def sa_deref_def route_addrs_ok_def)
qed

lemma if_kaddr_total:
  assumes "sa_family sa = SAF_INET6 \<Longrightarrow> mask6_ok msk"
  shows "\<exists>x. if_kaddr i sa msk brd = Inr x"
proof (cases msk)
  case None
  then show ?thesis by (cases "sa_family sa"; cases brd) (simp_all add: if_kaddr_def sa_deref_def)
next
  case (Some m)
  have "\<exists>l. sa_mask6 m = Inr l" if "sa_family sa = SAF_INET6" using assms [OF that] mask6_total [of m] Some by simp
  with Some show ?thesis by (cases "sa_family sa"; cases brd) (auto simp: if_kaddr_def sa_deref_def)
qed

definition kr_event_ok :: "kr_state \<Rightarrow> kr_event \<Rightarrow> bool" where
  "kr_event_ok s e \<longleftrightarrow>
     (case e of
        Rt_msg rtm rti \<Rightarrow> rtmsg_ok s rtm rti
      | Kpwlabel_change kpw \<Rightarrow> kpw_af kpw \<noteq> AF_UNSPEC
      | _ \<Rightarrow> True)"

text \<open>No update of the event turns a marked route into one that is not redistributable.\<close>

definition kr_event_clean :: "ksys \<Rightarrow> kr_state \<Rightarrow> kr_event \<Rightarrow> bool" where
  "kr_event_clean y s e \<longleftrightarrow>
     (case e of
        Rt_msg rtm rti \<Rightarrow>
          is_route rtm \<longrightarrow> (\<forall>dst kr. rti ! RTAX_DST = Some dst \<and>
            rtm_kroute rtm dst (rti ! RTAX_NETMASK) (rti ! RTAX_GATEWAY) = Inr (Some kr) \<longrightarrow>
            route_clean y s (rtm_kind rtm) kr)
      | _ \<Rightarrow> True)"

definition keeps_kr :: "bool \<Rightarrow> kr_state \<Rightarrow> kr_state \<Rightarrow> bool" where
  "keeps_kr c s s' \<longleftrightarrow> kr_inv s' \<and> kif_inv s' \<and> (c \<and> view_ok s \<longrightarrow> view_ok s')"

lemma keeps_quiet: "kr_inv s \<Longrightarrow> kif_inv s' \<Longrightarrow> quiet s s' \<Longrightarrow> keeps_kr c s s'"
  using quiet_inv [of s s'] by (simp add: keeps_kr_def)

lemma keeps_kif_step: "kr_inv s \<Longrightarrow> kif_inv s \<Longrightarrow> kif_step s s' \<Longrightarrow> keeps_kr c s s'"
  by (rule keeps_quiet) (auto simp: kif_step_quiet, simp add: kif_step_def)

lemma kif_inv_kit: "kif_inv s \<Longrightarrow> k_kit s' = k_kit s \<Longrightarrow> kif_inv s'"
  by (simp add: kif_inv_def kif_find_def)

lemma rtmsg_process_route_keeps:
  assumes inv: "kr_inv s" "kif_inv s" and ok: "rtmsg_ok s rtm rti" and r: "is_route rtm"
  shows "okE (rtmsg_process_route y s rtm rti) (\<lambda>(_, s'). keeps_kr (kr_event_clean y s (Rt_msg rtm rti)) s s')"
proof (cases "rti ! RTAX_DST")
  case None
  with inv show ?thesis by (simp add: rtmsg_process_route_def keeps_kr_def)
next
  case (Some dst)
  with ok r have p: "\<exists>x. rtm_prefix rtm dst (rti ! RTAX_NETMASK) = Inr x" and pr: "rtm_priority rtm \<noteq> RTP_ANY"
    by (auto simp: rtmsg_ok_def intro: rtm_prefix_total)
  obtain x where x: "rtm_kroute rtm dst (rti ! RTAX_NETMASK) (rti ! RTAX_GATEWAY) = Inr x"
    using rtm_kroute_total [OF p] by blast
  show ?thesis
  proof (cases x)
    case None
    with Some x inv show ?thesis by (simp add: rtmsg_process_route_def keeps_kr_def)
  next
    case kr: (Some kr)
    have new: "new_route kr" by (rule rtm_kroute_new [OF x [unfolded kr] pr])
    have "kr_event_clean y s (Rt_msg rtm rti) \<Longrightarrow> route_clean y s (rtm_kind rtm) kr"
      using Some x kr r by (simp add: kr_event_clean_def)
    then have "okE (kroute_process y s (rtm_kind rtm) kr) (\<lambda>(_, s'). keeps_kr (kr_event_clean y s (Rt_msg rtm rti)) s s')"
      by (intro okE_mono [OF kroute_process_ok [OF inv(1) new]]) (auto simp: keeps_kr_def intro: kif_inv_kit [OF inv(2)])
    with Some x kr show ?thesis by (simp add: rtmsg_process_route_def)
  qed
qed

lemma rtmsg_process_one_keeps:
  assumes inv: "kr_inv s" "kif_inv s" and ok: "rtmsg_ok s rtm rti"
  shows "okE (rtmsg_process_one y s rtm rti) (\<lambda>(_, s'). keeps_kr (kr_event_clean y s (Rt_msg rtm rti)) s s')"
proof -
  let ?c = "kr_event_clean y s (Rt_msg rtm rti)"
  have st: "okE r (kif_step s) \<Longrightarrow> okE (bindE r (\<lambda>s1. Inr (0 :: int, s1))) (\<lambda>(_, s'). keeps_kr ?c s s')" for r
    by (erule okE_bind) (simp add: keeps_kif_step inv)
  have self: "keeps_kr ?c s s" using inv by (simp add: keeps_kr_def)
  have route: "is_route rtm \<Longrightarrow> okE (if rtm_skip s rtm then Inr (0, s) else rtmsg_process_route y s rtm rti) (\<lambda>(_, s'). keeps_kr ?c s s')"
    using rtmsg_process_route_keeps [OF inv ok] self by simp
  show ?thesis
  proof (cases "rtm_kind rtm")
    case RTM_NEWADDR
    with ok have "okE (if_newaddr s (rtm_index rtm) (rti ! RTAX_IFA) (rti ! RTAX_NETMASK) (rti ! RTAX_BRD)) (kif_step s)"
      by (intro if_newaddr_step if_kaddr_total) (auto simp: rtmsg_ok_def)
    with RTM_NEWADDR self st show ?thesis by (simp add: rtmsg_process_one_def)
  next
    case RTM_DELADDR
    with ok have "okE (if_deladdr s (rtm_index rtm) (rti ! RTAX_IFA) (rti ! RTAX_NETMASK) (rti ! RTAX_BRD)) (kif_step s)"
      by (intro if_deladdr_step if_kaddr_total) (auto simp: rtmsg_ok_def)
    with RTM_DELADDR self st show ?thesis by (simp add: rtmsg_process_one_def)
  next
    case RTM_IFANNOUNCE
    with ok have "okE (if_announce s (ifan_what rtm) (rtm_index rtm) (ifan_name rtm)) (kif_step s)"
      by (intro if_announce_step) (simp add: rtmsg_ok_def)
    with RTM_IFANNOUNCE st show ?thesis by (simp add: rtmsg_process_one_def)
  next
    case RTM_IFINFO
    then show ?thesis using st [OF if_change_step] by (simp add: rtmsg_process_one_def)
  qed (use route self in \<open>simp_all add: rtmsg_process_one_def is_route_def\<close>)
qed

lemma foldl_emit_unseen:
  "(\<And>s x. unseen s (f s x)) \<Longrightarrow> unseen s (foldl f s xs)"
  by (induction xs arbitrary: s) (auto intro: unseen_trans)

lemma kr_show_route_unseen:
  assumes inv: "kr_inv s"
  shows "okE (kr_show_route s addr pid req) (unseen s)"
proof -
  have fin: "unseen s t \<Longrightarrow> unseen s (kr_emit t (Ctl_end pid))" for t
    by (blast intro: unseen_trans unseen_emit)
  have nodes: "unseen t (foldl (\<lambda>s r. kr_emit s (Ctl_kroute pid r)) t rs)" for t rs
    by (rule foldl_emit_unseen) (rule unseen_emit)
  show ?thesis
  proof (cases req)
    case (Show_kroute fl)
    show ?thesis
    proof (cases fl)
      case (Some flags)
      let ?f = "\<lambda>s r. if flags \<noteq> 0 \<and> \<not> has_flag (ucast (kr_flags r)) flags then s else kr_emit s (Ctl_kroute pid r)"
      have "okE (foldE (\<lambda>s k. bindE (get_kp s k) (\<lambda>kp. Inr (foldl ?f s (prefix_nodes kp)))) (rb_keys (k_krt s)) s) (unseen s)"
      proof (rule okE_foldE, simp)
        fix t k assume k: "k \<in> set (rb_keys (k_krt s))" and u: "unseen s t"
        then obtain kp where "get_kp t k = Inr kp" by (auto simp: get_kp_def unseen_def fec_find_def)
        moreover have "unseen t (foldl ?f t rs)" for rs by (rule foldl_emit_unseen) (simp add: unseen_emit)
        ultimately show "okE (bindE (get_kp t k) (\<lambda>kp. Inr (foldl ?f t (prefix_nodes kp)))) (unseen s)"
          using u by (auto intro: unseen_trans)
      qed
      then show ?thesis unfolding kr_show_route_def Show_kroute Some show_req.case option.case
        by (rule okE_bind) (simp add: fin)
    qed (simp add: kr_show_route_def Show_kroute)
  next
    case (Show_kroute_addr x)
    show ?thesis
    proof (cases x)
      case (Some z)
      obtain af prefix where z: "z = (af, prefix)" by (cases z)
      obtain r where "kroute_match s addr af prefix = Inr r"
        using kroute_match_ok [OF inv, of af addr prefix] by (cases "af = AF_UNSPEC") (auto simp: kroute_match_def okE_def)
      then show ?thesis using fin nodes [of s]
        by (auto simp: kr_show_route_def Show_kroute_addr Some z split: option.split)
    qed (simp add: kr_show_route_def Show_kroute_addr)
  qed (simp add: kr_show_route_def fin)
qed

lemma kr_ifinfo_unseen: "unseen s (kr_ifinfo s n pid)"
  unfolding kr_ifinfo_def
  by (rule unseen_trans [OF foldl_emit_unseen unseen_emit(6)]) (auto simp: unseen_emit split: option.split)

lemma kmpw_set_step:
  assumes "kif_inv s" "kpw_af kpw \<noteq> AF_UNSPEC"
  shows "okE (kmpw_set y s kpw) (\<lambda>(_, s'). quiet s s' \<and> kif_inv s')"
proof (cases "kif_find s (kpw_ifindex kpw)")
  case (Some kif)
  let ?t = "upd_kif s (kpw_ifindex kpw) (\<lambda>kif. kif\<lparr>kif_kpw := Some kpw\<rparr>)"
  have t: "quiet s ?t" "kif_inv ?t"
    using assms by (auto simp: quiet_krt upd_kif_def kif_inv_def kif_find_def)
  have "okE (kmpw_install y ?t (kif_ifname (kif_k kif)) kpw) (\<lambda>(_, s'). quiet s s' \<and> kif_inv s')"
    by (rule okE_mono [OF kmpw_install_unseen [OF assms(2)]])
      (auto simp: unseen_def intro: quiet_trans [OF t(1) quiet_krt] kif_inv_kit [OF t(2)])
  with Some show ?thesis by (simp add: kmpw_set_def)
qed (simp add: kmpw_set_def assms)

lemma kmpw_unset_step:
  assumes "kif_inv s"
  shows "quiet s (snd (kmpw_unset y s kpw)) \<and> kif_inv (snd (kmpw_unset y s kpw))"
proof (cases "kif_find s (kpw_ifindex kpw)")
  case (Some kif)
  let ?t = "upd_kif s (kpw_ifindex kpw) (\<lambda>kif. kif\<lparr>kif_kpw := None\<rparr>)"
  have t: "quiet s ?t" "kif_inv ?t"
    using assms by (auto simp: quiet_krt upd_kif_def kif_inv_def kif_find_def)
  define u where "u = snd (kmpw_uninstall y ?t (kif_ifname (kif_k kif)))"
  have u: "unseen ?t u" unfolding u_def by (rule kmpw_uninstall_unseen)
  have "quiet s u" by (rule quiet_trans [OF t(1) unseen_quiet [OF u]])
  moreover have "kif_inv u" by (rule kif_inv_kit [OF t(2)]) (use u in \<open>simp add: unseen_def\<close>)
  ultimately show ?thesis using Some assms by (auto simp: kmpw_unset_def u_def)
qed (simp add: kmpw_unset_def assms)

lemma kr_shutdown_ok:
  assumes "kr_inv s" "kif_inv s"
  shows "okE (kr_shutdown y s) (\<lambda>s'. keeps_kr c s s' \<and> (\<forall>k. fec_find (k_krt s') k = None) \<and>
    (view_ok s \<longrightarrow> lde_view (k_out s') = {}))"
  unfolding kr_shutdown_def
proof (rule okE_bind [OF kr_fib_decouple_ok [OF assms]])
  fix t assume u: "unseen s t"
  have t: "kr_inv t" "kif_inv t" "view_ok s \<Longrightarrow> view_ok t"
    using assms quiet_inv [OF unseen_quiet [OF u]] kif_inv_kit [OF assms(2), of t] u by (auto simp: unseen_def)
  show "okE (bindE (kroute_clear y t) (\<lambda>s2. Inr (kif_clear s2)))
     (\<lambda>s'. keeps_kr c s s' \<and> (\<forall>k. fec_find (k_krt s') k = None) \<and> (view_ok s \<longrightarrow> lde_view (k_out s') = {}))"
  proof (rule okE_bind [OF kroute_clear_ok [OF t(1)]], unfold okE_Inr, goal_cases)
    case (1 v)
    have k: "k_krt (kif_clear v) = k_krt v" "lde_view (k_out (kif_clear v)) = lde_view (k_out v)" "kif_inv v \<longrightarrow> kif_inv (kif_clear v)"
      using kif_clear_step [of v] by (auto simp: kif_step_def)
    have v: "kif_inv v" by (rule kif_inv_kit [OF t(2)]) (use 1 in simp)
    have n: "fec_find (k_krt (kif_clear v)) k = None" for k using 1 k(1) by simp
    have m: "marked (kif_clear v) c = {}" for c by (cases c) (simp_all add: marked_def n)
    have e: "view_ok s \<Longrightarrow> lde_view (k_out (kif_clear v)) = {}" using 1 t(3) k(2) by simp
    then show ?case using n m v k(3) by (auto simp: keeps_kr_def kr_inv_def view_ok_def known_def)
  qed
qed

lemma kr_run_ok:
  assumes inv: "kr_inv s" "kif_inv s" and ok: "kr_event_ok s e"
  shows "okE (kr_run y s e) (keeps_kr (kr_event_clean y s e) s)"
proof -
  have q: "quiet s s' \<and> kif_inv s' \<Longrightarrow> keeps_kr c s s'" for s' c using keeps_quiet [OF inv(1)] by blast
  have u: "unseen s s' \<Longrightarrow> keeps_kr c s s'" for s' c
    using keeps_kif_step [OF inv kif_step_unseen] by blast
  note kq = kr_change_quiet_kit [OF inv(1), of y, unfolded quiet_kit_def]
  note dq = kr_delete_quiet_kit [OF inv(1), of y, unfolded quiet_kit_def]
  show ?thesis
  proof (cases e)
    case (Rt_msg rtm rti)
    with ok have "rtmsg_ok s rtm rti" by (simp add: kr_event_ok_def)
    from rtmsg_process_one_keeps [OF inv this] show ?thesis
      unfolding Rt_msg kr_run_def kr_event.case by (rule okE_bind) auto
  next
    case (Klabel_change kr)
    show ?thesis unfolding Klabel_change kr_run_def kr_event.case
      by (rule okE_bind [OF kq]) (auto intro!: q intro: kif_inv_kit [OF inv(2)])
  next
    case (Klabel_delete kr)
    show ?thesis unfolding Klabel_delete kr_run_def kr_event.case
      by (rule okE_bind [OF dq]) (auto intro!: q intro: kif_inv_kit [OF inv(2)])
  next
    case (Kpwlabel_change kpw)
    with ok have "kpw_af kpw \<noteq> AF_UNSPEC" by (simp add: kr_event_ok_def)
    from kmpw_set_step [OF inv(2) this] show ?thesis
      unfolding Kpwlabel_change kr_run_def kr_event.case by (rule okE_bind) (auto intro!: q)
  next
    case (Kpwlabel_delete kpw)
    then show ?thesis using kmpw_unset_step [OF inv(2)] q by (simp add: kr_run_def)
  next
    case Fib_couple
    then show ?thesis using kr_fib_couple_ok [OF inv] u by (auto simp: kr_run_def intro: okE_mono)
  next
    case Fib_decouple
    then show ?thesis using kr_fib_decouple_ok [OF inv] u by (auto simp: kr_run_def intro: okE_mono)
  next
    case (Egress_label af w)
    then show ?thesis using kr_change_egress_label_quiet [of s af w] kr_change_egress_label_kit [of s af w] kif_inv_kit [OF inv(2)] q
      by (simp add: kr_run_def)
  next
    case (If_redistribute n)
    then show ?thesis using keeps_kif_step [OF inv kif_redistribute_step] by (simp add: kr_run_def)
  next
    case (Show_route addr pid req)
    then show ?thesis using okE_mono [OF kr_show_route_unseen [OF inv(1)] u] by (simp add: kr_run_def)
  next
    case (Show_ifinfo n pid)
    then show ?thesis using u [OF kr_ifinfo_unseen] by (simp add: kr_run_def)
  next
    case Kr_shutdown
    then show ?thesis using kr_shutdown_ok [OF inv] by (auto simp: kr_run_def intro: okE_mono)
  qed
qed

section \<open>Reachable states\<close>

text \<open>\<^verbatim>\<open>kif_init\<close> and \<^verbatim>\<open>kr_init\<close> start from empty tables and read the kernel's as messages.\<close>

definition kr_start :: "bool \<Rightarrow> int \<Rightarrow> kr_state" where
  "kr_start fs pid = \<lparr>k_krt = rb_init, k_kit = rb_init, k_fib_sync = fs, k_rtseq = 1, k_pid = pid, k_out = []\<rparr>"

text \<open>The flag \<open>c\<close> asks for runs without a stale update.\<close>

inductive kr_reach :: "ksys \<Rightarrow> bool \<Rightarrow> kr_state \<Rightarrow> bool" for y c where
  start: "kr_reach y c (kr_start fs pid)"
| step: "kr_reach y c s \<Longrightarrow> kr_event_ok s e \<Longrightarrow> (c \<longrightarrow> kr_event_clean y s e) \<Longrightarrow> kr_run y s e = Inr s' \<Longrightarrow> kr_reach y c s'"

lemma kr_reach_inv: "kr_reach y c s \<Longrightarrow> kr_inv s \<and> kif_inv s \<and> (c \<longrightarrow> view_ok s)"
proof (induction rule: kr_reach.induct)
  case (start fs pid)
  have "marked (kr_start fs pid) d = {}" for d by (cases d) (simp_all add: marked_def kr_start_def fec_find_def)
  then show ?case by (simp add: kr_start_def kr_inv_def fec_find_def kif_inv_def kif_find_def view_ok_def known_def lde_view_def)
next
  case (step s e s')
  then show ?case using kr_run_ok [of s e y] by (auto simp: keeps_kr_def)
qed

end
