(* ===== verification/Kr_Theorems.thy ===== *)
theory Kr_Theorems
  imports Kr_Reach
begin

text \<open>
  The properties of the routing tables of the parent process, and the state after a message of the
  kernel on which they are exercised: 10.1.0.0/16 over 192.168.0.1 with priority 32.
\<close>

section \<open>A run\<close>

definition demo_kernel :: ksys where
  "demo_kernel = \<lparr>ks_writev = \<lambda>_ _. Wr_ok, ks_ioctl = \<lambda>_ _ _. True\<rparr>"

definition demo_sockaddr :: "u32 \<Rightarrow> rt_sockaddr" where
  "demo_sockaddr a = \<lparr>sa_len = 16, sa_family = SAF_INET, sa_in = a, sa_in6 = [], sa_scope_id = 0, sdl_nlen = 0, sdl_data = []\<rparr>"

definition demo_rtm :: "rtm_type \<Rightarrow> u8 \<Rightarrow> u32 \<Rightarrow> rt_msghdr" where
  "demo_rtm kind prio fl = \<lparr>rtm_msglen = 144, rtm_version_ok = True, rtm_kind = kind, rtm_hdrlen = 96,
     rtm_index = 1, rtm_tableid = 0, rtm_priority = prio, rtm_addrs = 7, rtm_flags = fl, rtm_pid = 0, rtm_errno = 0,
     ifm_data = \<lparr>ifi_link_state = 0, ifi_type = 0, ifi_baudrate = 0, ifi_mtu = 0\<rparr>, ifan_what = IFAN_OTHER, ifan_name = []\<rparr>"

definition demo_route :: "rtm_type \<Rightarrow> u8 \<Rightarrow> u32 \<Rightarrow> u32 \<Rightarrow> kr_event" where
  "demo_route kind prio fl gw = Rt_msg (demo_rtm kind prio fl)
     [Some (demo_sockaddr 0x0000010a), Some (demo_sockaddr gw), Some (demo_sockaddr 0x0000ffff)]"

definition demo_k1 :: kr_state where
  "demo_k1 = sum.projr (kr_run demo_kernel (kr_start True 1) (demo_route RTM_ADD 32 3 0x0100a8c0))"

lemmas demo_route_defs = demo_route_def demo_rtm_def demo_sockaddr_def

lemma demo_route_ok: "prio \<noteq> RTP_ANY \<Longrightarrow> kr_event_ok s (demo_route RTM_ADD prio fl gw)"
  by (auto simp: demo_route_defs kr_event_ok_def rtmsg_ok_def is_route_def route_addrs_ok_def const_defs)

lemma kr_run_projr:
  assumes "kr_reach y c s" "kr_event_ok s e"
  shows "kr_run y s e = Inr (sum.projr (kr_run y s e))"
  using kr_run_ok [of s e y] kr_reach_inv [OF assms(1)] assms(2) by (auto simp: okE_def)

lemma demo_k1_reach: "kr_reach demo_kernel True demo_k1"
proof (rule kr_reach.step [OF kr_reach.start demo_route_ok])
  have "marked (kr_start fs pid) d = {}" for fs pid d by (cases d) (simp_all add: marked_def kr_start_def fec_find_def)
  then show "True \<longrightarrow> kr_event_clean demo_kernel (kr_start True 1) (demo_route RTM_ADD 32 3 0x0100a8c0)"
    by (simp add: kr_event_clean_def demo_route_defs route_clean_def stale_free_def)
  show "kr_run demo_kernel (kr_start True 1) (demo_route RTM_ADD 32 3 0x0100a8c0) = Inr demo_k1"
    unfolding demo_k1_def by (rule kr_run_projr [OF kr_reach.start [where c = True] demo_route_ok]) (simp add: const_defs)
qed (simp add: const_defs)

lemma demo_k1_find:
  "map_option (\<lambda>kp. map kprio_priority (kp_priorities kp)) (fec_find (k_krt demo_k1) (FEC_IPV4 266 16)) = Some [32]"
  by code_simp

lemma demo_k1_kp:
  obtains kp where "fec_find (k_krt demo_k1) (FEC_IPV4 266 16) = Some kp" "map kprio_priority (kp_priorities kp) = [32]"
  using demo_k1_find by (auto simp: map_option_eq_Some)

section \<open>The tables do not fault\<close>

text \<open>
  C23: in every state the routing tables can reach, every message of the kernel and
  every request of the label decision engine and of the control program is processed without a
  fault: no null address is read, no unknown address family reaches a \<^verbatim>\<open>fatalx\<close>, no prefix, priority or
  node is used that is not in the tables. What is asked of the kernel (\<open>rtmsg_ok\<close>) is that IPv6 masks
  are contiguous, that an IPv6 route that is neither a host route nor the default route comes with a mask,
  that the priority of a route is not the wildcard, and that an interface arrives only when it is
  not there; what is asked of the other processes, that a pseudowire has a family.
\<close>

theorem kr_never_faults:
  assumes "kr_reach y c s" "kr_event_ok s e"
  shows "\<exists>s'. kr_run y s e = Inr s'"
  using kr_run_projr [OF assms] by blast

theorem kr_never_faults_witness:
  "kr_reach demo_kernel True demo_k1 \<and> (\<exists>s'. kr_run demo_kernel demo_k1 (demo_route RTM_ADD 8 3 0x0200a8c0) = Inr s')"
  using kr_never_faults [OF demo_k1_reach demo_route_ok, of 8 3 "0x0200a8c0"] demo_k1_reach
  by (simp add: const_defs)

section \<open>The table of kernel routes\<close>

text \<open>
  C9: in every state the tables can reach, the prefixes are found under their own key; the priorities
  of a prefix are in strictly ascending order and none is empty; the next hops of a priority are
  pairwise distinct and belong to it; and a node carries \<^verbatim>\<open>F_REDISTRIBUTED\<close> exactly when it is of the
  first priority and passes the filter of \<^verbatim>\<open>kr_redist_eval\<close>.
\<close>

theorem kr_table_invariant:
  assumes "kr_reach y c s" "fec_find (k_krt s) k = Some kp"
  shows "kp_key (kp_af kp) (kp_prefix kp) (kp_prefixlen kp) = Some k \<and> kp_priorities kp \<noteq> [] \<and>
    sorted_wrt (<) (map kprio_priority (kp_priorities kp)) \<and>
    (\<forall>p\<in>set (kp_priorities kp). kprio_nexthops p \<noteq> [] \<and>
       distinct (map (nh_id (kp_af kp) \<circ> kr_nexthop) (kprio_nexthops p)) \<and>
       (\<forall>r\<in>set (kprio_nexthops p). kp_key (kr_af r) (kr_prefix r) (kr_prefixlen r) = Some k \<and>
          kr_priority r = kprio_priority p \<and>
          (has_flag (kr_flags r) F_REDISTRIBUTED \<longleftrightarrow>
             p = hd (kp_priorities kp) \<and> redistributable r = Inr True)))"
proof -
  have ok: "kp_ok k kp" using kr_reach_inv [OF assms(1)] kr_invD assms(2) by blast
  obtain q qs where ps: "kp_priorities kp = q # qs" using kp_okD(2) [OF ok] by (cases "kp_priorities kp") auto
  note pr = kp_okD(3) [OF ok, unfolded ps]
  have "redist r \<longleftrightarrow> p = q \<and> redistributable r = Inr True"
    if "p \<in> set (q # qs)" "r \<in> set (kprio_nexthops p)" for p r
  proof (cases "p = q")
    case True
    with that kp_okD(4) [OF ok] show ?thesis by (auto simp: flags_ok_def ps)
  next
    case False
    with that have "r \<in> all_nodes qs" by (auto simp: all_nodes_def)
    with False kp_okD(4) [OF ok] show ?thesis by (auto simp: flags_ok_def ps)
  qed
  then show ?thesis unfolding ps using pr kp_okD(1) [OF ok]
    by (intro conjI ballI) (auto simp: prios_ok_def kprio_ok_def class_of_def)
qed

theorem kr_table_invariant_witness:
  "\<exists>kp. kr_reach demo_kernel True demo_k1 \<and> fec_find (k_krt demo_k1) (FEC_IPV4 266 16) = Some kp \<and>
     map kprio_priority (kp_priorities kp) = [32] \<and> sorted_wrt (<) (map kprio_priority (kp_priorities kp))"
proof -
  obtain kp where kp: "fec_find (k_krt demo_k1) (FEC_IPV4 266 16) = Some kp" "map kprio_priority (kp_priorities kp) = [32]"
    by (rule demo_k1_kp)
  with kr_table_invariant [OF demo_k1_reach kp(1)] demo_k1_reach show ?thesis by (intro exI [of _ kp]) blast
qed

section \<open>What the label decision engine is told\<close>



text \<open>
  shutting the tables down withdraws from the engine every route it was told of and leaves no
  prefix behind.
\<close>

theorem kr_shutdown_withdraws:
  assumes "kr_reach y True s"
  shows "\<exists>s'. kr_run y s Kr_shutdown = Inr s' \<and> lde_view (k_out s') = {} \<and> (\<forall>k. fec_find (k_krt s') k = None)"
  using kr_shutdown_ok [of s y True] kr_reach_inv [OF assms] by (auto simp: kr_run_def okE_def)

theorem kr_shutdown_withdraws_witness:
  "lde_view (k_out demo_k1) \<noteq> {} \<and> (\<exists>s'. kr_run demo_kernel demo_k1 Kr_shutdown = Inr s' \<and> lde_view (k_out s') = {})"
proof -
  have "length (k_out demo_k1) = 1 \<and> (case k_out demo_k1 of [To_lde (NETWORK_ADD _ _)] \<Rightarrow> True | _ \<Rightarrow> False)" by code_simp
  then have "lde_view (k_out demo_k1) \<noteq> {}"
    by (auto simp: lde_view_def split: list.splits kr_out.splits parent_imsg.splits)
  with kr_shutdown_withdraws [OF demo_k1_reach] show ?thesis by blast
qed

section \<open>Longest-prefix match\<close>

text \<open>
  C21: for an address of either family, \<^verbatim>\<open>kroute_match\<close> returns nothing exactly when no prefix of the table
  covers the address; otherwise it returns the list of next hops of the lowest priority of the
  prefix of greatest length among those that do. Its loop of at most 129 lookups so equals the
  search through the whole table.
\<close>

theorem kroute_match_longest:
  assumes "kr_reach y c s" "af \<noteq> AF_UNSPEC"
  shows "(kroute_match s addr af key = Inr None \<and> (\<forall>k kp. fec_find (k_krt s) k = Some kp \<longrightarrow> \<not> covers k af key)) \<or>
    (\<exists>k kp p. kroute_match s addr af key = Inr (Some (k, p)) \<and> fec_find (k_krt s) k = Some kp \<and> covers k af key \<and>
       p \<in> set (kp_priorities kp) \<and> (\<forall>q\<in>set (kp_priorities kp). kprio_priority p \<le> kprio_priority q) \<and>
       (\<forall>k' kp'. fec_find (k_krt s) k' = Some kp' \<and> covers k' af key \<longrightarrow> fec_len k' \<le> fec_len k))"
proof -
  have inv: "kr_inv s" using kr_reach_inv [OF assms(1)] by blast
  obtain x where x: "kroute_match s addr af key = Inr x" and b: "best s af key (maxprefixlen af) x"
    using kroute_match_ok [OF inv assms(2), of addr key] by (auto simp: okE_def)
  show ?thesis
  proof (cases x)
    case None
    with x b show ?thesis by (fastforce simp: best_def covers_def)
  next
    case (Some z)
    obtain k p where z: "z = (k, p)" by (cases z)
    from b Some z obtain l kp where l: "l \<le> maxprefixlen af" "masked_class af key l = Some k"
      and kp: "fec_find (k_krt s) k = Some kp" "p = hd (kp_priorities kp)"
      and longest: "\<And>m k'. m \<le> maxprefixlen af \<Longrightarrow> l < m \<Longrightarrow> masked_class af key m = Some k' \<Longrightarrow> fec_find (k_krt s) k' = None"
      by (auto simp: best_def)
    note ok = kr_invD [OF inv kp(1)]
    have "fec_len k' \<le> fec_len k" if f': "fec_find (k_krt s) k' = Some kp'" and c': "covers k' af key" for k' kp'
    proof -
      obtain m where m: "m \<le> maxprefixlen af" "masked_class af key m = Some k'" using c' by (auto simp: covers_def)
      have "\<not> l < m" using longest [OF m(1) _ m(2)] f' by auto
      then show ?thesis using masked_class_len [OF m(2,1)] masked_class_len [OF l(2,1)] by simp
    qed
    moreover have "covers k af key" using l by (auto simp: covers_def)
    moreover have "p \<in> set (kp_priorities kp)" using kp kp_okD(2) [OF ok] by simp
    moreover have "\<forall>q\<in>set (kp_priorities kp). kprio_priority p \<le> kprio_priority q"
      using hd_prio_least [OF kp_okD(3) [OF ok]] kp(2) by blast
    ultimately show ?thesis using x Some z kp(1) by blast
  qed
qed

theorem kroute_match_longest_witness:
  "kr_reach demo_kernel True demo_k1 \<and>
   (\<exists>k kp p. kroute_match demo_k1 (replicate 16 0) AF_INET (of_v4 0x0405010a) = Inr (Some (k, p)) \<and>
      fec_find (k_krt demo_k1) k = Some kp \<and> covers k AF_INET (of_v4 0x0405010a) \<and> p \<in> set (kp_priorities kp))"
proof -
  have "masked_class AF_INET (of_v4 0x0405010a) 16 = Some (FEC_IPV4 266 16)" by code_simp
  then have "covers (FEC_IPV4 266 16) AF_INET (of_v4 0x0405010a)"
    by (auto simp: covers_def maxprefixlen_def intro!: exI [of _ 16])
  moreover obtain kp where "fec_find (k_krt demo_k1) (FEC_IPV4 266 16) = Some kp" by (rule demo_k1_kp)
  ultimately show ?thesis
    using kroute_match_longest [OF demo_k1_reach, of AF_INET "replicate 16 0" "of_v4 0x0405010a"] demo_k1_reach by blast
qed

section \<open>The loop over a buffer of messages\<close>

text \<open>
  C32: \<^verbatim>\<open>rtmsg_process\<close> returns on every buffer whose messages have a length, with the offset of the
  end of the buffer, the error or the fault it met; a message of length zero that it skips is read
  forever.
\<close>

theorem rtmsg_process_returns:
  "((\<forall>n. rtm_msglen (b_hdr b n) \<noteq> 0) \<longrightarrow> (\<exists>r. rtmsg_process y s b len = Some r)) \<and>
   (2 \<le> len \<and> rtm_msglen (b_hdr b 0) = 0 \<and> \<not> rtm_version_ok (b_hdr b 0) \<longrightarrow> rtmsg_process y s b len = None)"
proof (intro conjI impI)
  assume pos: "\<forall>n. rtm_msglen (b_hdr b n) \<noteq> 0"
  have "\<exists>r. rtmsg_loop y b len off s = Some r" for off
  proof (induction "len - off" arbitrary: off s rule: less_induct)
    case less
    have lt: "len - (off + unat (rtm_msglen (b_hdr b off))) < len - off" if "off < len"
      using that pos unat_gt_0 [of "rtm_msglen (b_hdr b off)"] by (simp add: diff_less_mono2)
    show ?case using less.hyps [OF lt] by (subst rtmsg_loop.simps) (auto simp: Let_def split: sum.split)
  qed
  then show "\<exists>r. rtmsg_process y s b len = Some r" by (simp add: rtmsg_process_def)
next
  assume z: "2 \<le> len \<and> rtm_msglen (b_hdr b 0) = 0 \<and> \<not> rtm_version_ok (b_hdr b 0)"
  let ?P = "\<lambda>(y :: ksys) (b :: rtbuf) (len :: nat) off (s :: kr_state) (r :: (int \<times> kr_state) res).
      \<not> (off + 2 \<le> len \<and> rtm_msglen (b_hdr b off) = 0 \<and> \<not> rtm_version_ok (b_hdr b off))"
  have "?P y' b' len' off s' r" if "rtmsg_loop y' b' len' off s' = Some r" for y' b' len' off s' r
    using that
  proof (rule rtmsg_loop.raw_induct [where P = ?P, rotated], goal_cases)
    case (1 loop y b len off s r)
    show ?case
    proof
      assume c: "off + 2 \<le> len \<and> rtm_msglen (b_hdr b off) = 0 \<and> \<not> rtm_version_ok (b_hdr b off)"
      then have "loop y b len off s = Some r" using 1(2) by (simp add: Let_def)
      from 1(1) [OF this] c show False by simp
    qed
  qed
  from this [of y b len 0 s] z show "rtmsg_process y s b len = None"
    unfolding rtmsg_process_def by (cases "rtmsg_loop y b len 0 s") auto
qed

theorem rtmsg_process_returns_witness:
  "(\<exists>r. rtmsg_process demo_kernel demo_k1 \<lparr>b_hdr = \<lambda>_. demo_rtm RTM_OTHER 0 0, b_sa = \<lambda>_. demo_sockaddr 0\<rparr> 288 = Some r) \<and>
   rtmsg_process demo_kernel demo_k1
     \<lparr>b_hdr = \<lambda>_. (demo_rtm RTM_OTHER 0 0)\<lparr>rtm_msglen := 0, rtm_version_ok := False\<rparr>, b_sa = \<lambda>_. demo_sockaddr 0\<rparr> 288 = None"
  using rtmsg_process_returns [of "\<lparr>b_hdr = \<lambda>_. demo_rtm RTM_OTHER 0 0, b_sa = \<lambda>_. demo_sockaddr 0\<rparr>" demo_kernel demo_k1 288]
    rtmsg_process_returns [of "\<lparr>b_hdr = \<lambda>_. (demo_rtm RTM_OTHER 0 0)\<lparr>rtm_msglen := 0, rtm_version_ok := False\<rparr>,
      b_sa = \<lambda>_. demo_sockaddr 0\<rparr>" demo_kernel demo_k1 288]
  by (simp add: demo_rtm_def)

section \<open>Re-announced routes\<close>

lemma find_upt_cong: "(\<And>i. i < n \<Longrightarrow> P i = Q i) \<Longrightarrow> find P [0..<n] = find Q [0..<n]"
  by (rule find_cong) simp_all

lemma kroute_find_prio_cong:
  assumes "map kprio_priority (kp_priorities a) = map kprio_priority (kp_priorities b)"
  shows "kroute_find_prio a prio = kroute_find_prio b prio"
proof -
  have l: "length (kp_priorities a) = length (kp_priorities b)" using assms by (metis length_map)
  have "kprio_priority (kp_priorities a ! i) = kprio_priority (kp_priorities b ! i)" if "i < length (kp_priorities b)" for i
    using arg_cong [OF assms, of "\<lambda>xs. xs ! i"] that l by simp
  then have "find (\<lambda>i. kprio_priority (kp_priorities a ! i) = prio) [0..<length (kp_priorities b)] =
      find (\<lambda>i. kprio_priority (kp_priorities b ! i) = prio) [0..<length (kp_priorities b)]"
    by (intro find_upt_cong) simp
  with l show ?thesis by (auto simp: kroute_find_prio_def)
qed

lemma kroute_find_gw_cong:
  assumes "kp_af a \<noteq> AF_UNSPEC" "kp_af b = kp_af a"
    and m: "map (nh_id (kp_af a) \<circ> kr_nexthop) (kprio_nexthops p) = map (nh_id (kp_af a) \<circ> kr_nexthop) (kprio_nexthops q)"
  shows "kroute_find_gw a p nh = kroute_find_gw b q nh"
proof -
  have l: "length (kprio_nexthops p) = length (kprio_nexthops q)" using m by (metis length_map)
  have e: "nh_id (kp_af a) (kr_nexthop (kprio_nexthops p ! i)) = nh_id (kp_af a) (kr_nexthop (kprio_nexthops q ! i))"
    if "i < length (kprio_nexthops q)" for i
    using arg_cong [OF m, of "\<lambda>xs. xs ! i"] that l by simp
  show ?thesis using assms(1,2)
    by (simp add: kroute_find_gw_eq l) (intro find_upt_cong, simp add: e)
qed

text \<open>The update leaves a node without the flag \<^verbatim>\<open>F_LDPD_INSERTED\<close> where the lookup finds it.\<close>

lemma redist_insert_flag:
  "has_flag (kr_flags (redist_if r)) F_LDPD_INSERTED = has_flag (kr_flags r) F_LDPD_INSERTED"
  "has_flag (kr_flags (unredist_if r)) F_LDPD_INSERTED = has_flag (kr_flags r) F_LDPD_INSERTED"
  by (auto simp: redist_if_def unredist_if_def unredist_def has_flag_set_other has_flag_clear_other const_defs)

lemma update_node:
  assumes inv: "kr_inv s" and kr: "new_route kr" "\<not> has_flag (kr_flags kr) F_LDPD_INSERTED"
    and lk: "kroute_lookup s (kr_af kr) (kr_prefix kr) (kr_prefixlen kr) (kr_priority kr) (kr_nexthop kr) = Inr (Some (k, i, j))"
    and run: "kr_redistribute (set_kn s k i j kr) k = Inr s1"
  shows "kroute_lookup s1 (kr_af kr) (kr_prefix kr) (kr_prefixlen kr) (kr_priority kr) (kr_nexthop kr) = Inr (Some (k, i, j)) \<and>
    (\<exists>r. get_kn s1 k i j = Inr r \<and> \<not> has_flag (kr_flags r) F_LDPD_INSERTED)"
proof -
  obtain kp where kp: "kp_key (kr_af kr) (kr_prefix kr) (kr_prefixlen kr) = Some k" "fec_find (k_krt s) k = Some kp" "kp_ok k kp"
      "kp_af kp = kr_af kr" and ij: "i < length (kp_priorities kp)" "j < length (kprio_nexthops (kp_priorities kp ! i))"
    and e: "kprio_priority (kp_priorities kp ! i) = kr_priority kr"
      "nh_id (kr_af kr) (kr_nexthop (kprio_nexthops (kp_priorities kp ! i) ! j)) = nh_id (kr_af kr) (kr_nexthop kr)"
    using kroute_lookup_ok [OF inv, of "kr_af kr" "kr_prefix kr" "kr_prefixlen kr" "kr_priority kr" "kr_nexthop kr"] lk kr(1)
    by (auto simp: new_route_def)
  have af: "kr_af kr \<noteq> AF_UNSPEC" using kr(1) by (simp add: new_route_def sendable_def)
  define kp2 where "kp2 = set_node i j kr kp"
  have p2: "kp_priorities kp2 = (kp_priorities kp)[i := (kp_priorities kp ! i)\<lparr>kprio_nexthops := (kprio_nexthops (kp_priorities kp ! i))[j := kr]\<rparr>]"
    "kp_af kp2 = kr_af kr" using kp(4) by (simp_all add: kp2_def set_node_def)
  have f2: "fec_find (k_krt (set_kn s k i j kr)) k = Some kp2" using kp(2) by (simp add: set_kn_def kp2_def)
  have l2: "length (kp_priorities kp2) = length (kp_priorities kp)" by (simp add: p2(1))
  then have "kp_priorities kp2 \<noteq> []" using ij(1) by (metis length_0_conv not_less_zero)
  then obtain p ps where c: "kp_priorities kp2 = p # ps" by (meson neq_Nil_conv)
  have pok: "prios_ok (kr_af kr) k (p # ps)"
    using set_node_replace(1) [OF kp(3) ij kp(4) [symmetric]] kp(1,4) e c by (simp add: class_of_def kp2_def)
  have na: "\<forall>r\<in>all_nodes (p # ps). kr_af r \<noteq> AF_UNSPEC" using prios_ok_nodes(1) [OF pok] af by metis
  obtain os where r: "redist_prios (p # ps) (k_out s) = Inr (with_nodes redist_if p # map (with_nodes unredist_if) ps, os)"
    using redist_prios_eq [OF na, of "k_out s"] by blast
  define kp3 where "kp3 = kp2\<lparr>kp_priorities := with_nodes redist_if p # map (with_nodes unredist_if) ps\<rparr>"
  have o2: "k_out (set_kn s k i j kr) = k_out s" by (simp add: set_kn_def)
  have "get_kp (set_kn s k i j kr) k = Inr kp2" by (simp add: get_kp_def f2)
  with run r have "s1 = (upd_kp (set_kn s k i j kr) k (\<lambda>kp. kp\<lparr>kp_priorities := with_nodes redist_if p # map (with_nodes unredist_if) ps\<rparr>))\<lparr>k_out := os\<rparr>"
    by (simp add: kr_redistribute_def c o2)
  then have s1: "fec_find (k_krt s1) k = Some kp3" by (simp add: f2 kp3_def)
  let ?f = "if i = 0 then redist_if else unredist_if"
  have lc: "length (kp_priorities kp) = Suc (length ps)" using l2 c by simp
  then have len: "length (kp_priorities kp3) = length (kp_priorities kp)" by (simp add: kp3_def)
  have pi: "kp_priorities kp3 ! i = with_nodes ?f (kp_priorities kp2 ! i)"
    unfolding c using ij(1) lc by (cases i) (simp_all add: kp3_def)
  have pi2: "kp_priorities kp2 ! i = (kp_priorities kp ! i)\<lparr>kprio_nexthops := (kprio_nexthops (kp_priorities kp ! i))[j := kr]\<rparr>"
    using ij(1) p2 by simp
  have "map kprio_priority (kp_priorities kp3) = map kprio_priority (kp_priorities kp2)" by (simp add: kp3_def c comp_def)
  also have "\<dots> = map kprio_priority (kp_priorities kp)"
    unfolding p2 using ij(1) by (simp add: map_update) (metis list_update_id nth_map)
  finally have prio: "kroute_find_prio kp3 (kr_priority kr) = kroute_find_prio kp (kr_priority kr)" by (rule kroute_find_prio_cong)
  have "map (nh_id (kr_af kr) \<circ> kr_nexthop) (kprio_nexthops (kp_priorities kp3 ! i)) =
      map (nh_id (kr_af kr) \<circ> kr_nexthop) ((kprio_nexthops (kp_priorities kp ! i))[j := kr])"
    by (simp add: pi pi2)
  also have "\<dots> = map (nh_id (kr_af kr) \<circ> kr_nexthop) (kprio_nexthops (kp_priorities kp ! i))"
    using ij(2) e(2) by (simp add: map_update) (metis comp_apply list_update_id nth_map)
  finally have gw: "kroute_find_gw kp3 (kp_priorities kp3 ! i) (kr_nexthop kr) = kroute_find_gw kp (kp_priorities kp ! i) (kr_nexthop kr)"
    by (intro kroute_find_gw_cong) (use af kp(4) p2 in \<open>simp_all add: kp3_def\<close>)
  have "kroute_find_prio kp (kr_priority kr) = Some i" "kroute_find_gw kp (kp_priorities kp ! i) (kr_nexthop kr) = Inr (Some j)"
    using lk kp(1,2) by (auto simp: kroute_lookup_def kroute_find_prefix_def bindE_Inr_iff split: option.splits)
  then have "kroute_lookup s1 (kr_af kr) (kr_prefix kr) (kr_prefixlen kr) (kr_priority kr) (kr_nexthop kr) = Inr (Some (k, i, j))"
    using kp(1) s1 prio gw by (simp add: kroute_lookup_def kroute_find_prefix_def)
  moreover have "get_kn s1 k i j = Inr (?f kr)" using s1 ij len by (simp add: get_kn_def get_kp_def pi pi2)
  ultimately show ?thesis using kr(2) by (simp add: redist_insert_flag)
qed

text \<open>
  C39: when the kernel announces again a route that is in the table, the update overwrites the node,
  its labels and its flag \<^verbatim>\<open>F_LDPD_INSERTED\<close> with it: whatever label was installed for the route, the
  request to remove it, \<^verbatim>\<open>kr_delete\<close>, then returns success without telling the kernel anything.
\<close>

theorem update_forgets_label:
  assumes "kr_reach y c s" "new_route kr" "\<not> has_flag (kr_flags kr) F_LDPD_INSERTED"
    and "ldp_addrisset (kr_af kr) (kr_nexthop kr) \<or> has_flag (kr_flags kr) F_CONNECTED"
    and "kroute_lookup s (kr_af kr) (kr_prefix kr) (kr_prefixlen kr) (kr_priority kr) (kr_nexthop kr) = Inr (Some (k, i, j))"
  shows "\<exists>s1. kroute_process y s RTM_ADD kr = Inr (0, s1) \<and> kr_delete y s1 kr = Inr (0, s1)"
proof -
  have inv: "kr_inv s" using kr_reach_inv [OF assms(1)] by blast
  have "okE (kroute_process y s RTM_ADD kr) (\<lambda>_. True)" using kroute_process_ok [OF inv assms(2), of y RTM_ADD] by (rule okE_mono) simp
  then obtain s1 where s1: "kr_redistribute (set_kn s k i j kr) k = Inr s1"
    using assms(4,5) by (auto simp: kroute_process_def okE_def bindE_Inr_iff)
  from update_node [OF inv assms(2,3,5) s1] obtain r where
    "kroute_lookup s1 (kr_af kr) (kr_prefix kr) (kr_prefixlen kr) (kr_priority kr) (kr_nexthop kr) = Inr (Some (k, i, j))"
    "get_kn s1 k i j = Inr r" "\<not> has_flag (kr_flags r) F_LDPD_INSERTED" by blast
  then have "kr_delete y s1 kr = Inr (0, s1)" by (simp add: kr_delete_def)
  moreover have "kroute_process y s RTM_ADD kr = Inr (0, s1)" using assms(4,5) s1 by (auto simp: kroute_process_def)
  ultimately show ?thesis by blast
qed

definition demo_kr :: kroute_r where
  "demo_kr = \<lparr>kr_af = AF_INET, kr_prefix = of_v4 0x0000010a, kr_prefixlen = 16, kr_nexthop = of_v4 0x0100a8c0,
     kr_local_label = 0, kr_remote_label = 0, kr_priority = 32, kr_ifindex = 1, kr_flags = 0\<rparr>"

lemma demo_kr_lookup:
  "kroute_lookup demo_k1 (kr_af demo_kr) (kr_prefix demo_kr) (kr_prefixlen demo_kr) (kr_priority demo_kr) (kr_nexthop demo_kr) =
     Inr (Some (FEC_IPV4 266 16, 0, 0))"
  by code_simp

theorem update_forgets_label_witness:
  "kr_reach demo_kernel True demo_k1 \<and>
   (\<exists>s1. kroute_process demo_kernel demo_k1 RTM_ADD demo_kr = Inr (0, s1) \<and> kr_delete demo_kernel s1 demo_kr = Inr (0, s1))"
proof -
  have "new_route demo_kr" by (simp add: demo_kr_def new_route_def sendable_def const_defs)
  moreover have "ldp_addrisset (kr_af demo_kr) (kr_nexthop demo_kr)" by code_simp
  moreover have "\<not> has_flag (kr_flags demo_kr) F_LDPD_INSERTED" by (simp add: demo_kr_def)
  ultimately show ?thesis
    using update_forgets_label [OF demo_k1_reach _ _ _ demo_kr_lookup] demo_k1_reach by blast
qed

end
