(* ===== verification/Kr_Log.thy ===== *)
theory Kr_Log
  imports Kr_Reach
begin

text \<open>
  What the parent tells the label decision engine: every route in the messages \<^verbatim>\<open>IMSG_NETWORK_ADD\<close> and
  \<^verbatim>\<open>IMSG_NETWORK_DEL\<close> has an address family, since every route in the table has one. The rules go through
  every operation on the table, as rules of partial correctness.
\<close>

section \<open>Routes with a family\<close>

named_theorems kr_sounds \<open>the operations of the parent keep sound tables sound\<close>

definition kp_fam :: "kroute_prefix \<Rightarrow> bool" where
  "kp_fam kp \<longleftrightarrow> (\<forall>p\<in>set (kp_priorities kp). \<forall>r\<in>set (kprio_nexthops p). kr_af r \<noteq> AF_UNSPEC)"

definition log_fam :: "kr_out list \<Rightarrow> bool" where
  "log_fam os \<longleftrightarrow>
     (\<forall>kr c. To_lde (NETWORK_ADD kr c) \<in> set os \<longrightarrow> kr_af kr \<noteq> AF_UNSPEC) \<and>
     (\<forall>kr. To_lde (NETWORK_DEL kr) \<in> set os \<longrightarrow> kr_af kr \<noteq> AF_UNSPEC)"

definition kr_sound :: "kr_state \<Rightarrow> bool" where
  "kr_sound s \<longleftrightarrow> (\<forall>k kp. fec_find (k_krt s) k = Some kp \<longrightarrow> kp_fam kp) \<and> log_fam (k_out s)"

lemma log_fam_simps [simp]:
  "log_fam []" "log_fam (os @ os') \<longleftrightarrow> log_fam os \<and> log_fam os'"
  "log_fam (To_lde (NETWORK_ADD kr c) # os) \<longleftrightarrow> kr_af kr \<noteq> AF_UNSPEC \<and> log_fam os"
  "log_fam (To_lde (NETWORK_DEL kr) # os) \<longleftrightarrow> kr_af kr \<noteq> AF_UNSPEC \<and> log_fam os"
  "log_fam (To_ldpe m # os) = log_fam os" "log_fam (Ctl_kroute p r # os) = log_fam os" "log_fam (Ctl_ifinfo p i # os) = log_fam os"
  "log_fam (Ctl_end p # os) = log_fam os" "log_fam (Rt_write w b # os) = log_fam os" "log_fam (Set_mpw n q c # os) = log_fam os"
  by (auto simp: log_fam_def)

lemma kr_sound_frame: "kr_sound s \<Longrightarrow> k_krt s' = k_krt s \<Longrightarrow> k_out s' = k_out s @ os \<Longrightarrow> log_fam os \<Longrightarrow> kr_sound s'"
  by (simp add: kr_sound_def)

lemma kr_sound_emit [kr_sounds]: "kr_sound s \<Longrightarrow> log_fam [m] \<Longrightarrow> kr_sound (kr_emit s m)"
  by (rule kr_sound_frame [of s]) (simp_all add: kr_emit_def)

lemma kr_sound_upd [simp]:
  "kr_sound (s\<lparr>k_kit := t\<rparr>) = kr_sound s" "kr_sound (s\<lparr>k_fib_sync := b\<rparr>) = kr_sound s" "kr_sound (s\<lparr>k_rtseq := n\<rparr>) = kr_sound s"
  "kr_sound (upd_kif s i f) = kr_sound s"
  by (simp_all add: kr_sound_def upd_kif_def)

lemma kr_sound_upd_kp [kr_sounds]: "kr_sound s \<Longrightarrow> (\<And>kp. kp_fam kp \<Longrightarrow> kp_fam (f kp)) \<Longrightarrow> kr_sound (upd_kp s k f)"
  by (auto simp: kr_sound_def upd_kp_def fec_find_def split: if_splits)

lemma kr_sound_remove [kr_sounds]: "kr_sound s \<Longrightarrow> kr_sound (s\<lparr>k_krt := rb_remove (k_krt s) k\<rparr>)"
  by (auto simp: kr_sound_def fec_find_def split: if_splits)

section \<open>Redistribution\<close>

lemma redist_remove_fam:
  "kr_redist_remove r os = (r1, os1) \<Longrightarrow> kr_af r \<noteq> AF_UNSPEC \<Longrightarrow> log_fam os \<Longrightarrow> kr_af r1 \<noteq> AF_UNSPEC \<and> log_fam os1"
  by (auto simp: kr_redist_remove_def Let_def kroute.defs split: if_splits)

lemma redist_eval_fam:
  "kr_redist_eval r os = Inr (r1, os1) \<Longrightarrow> kr_af r \<noteq> AF_UNSPEC \<Longrightarrow> log_fam os \<Longrightarrow> kr_af r1 \<noteq> AF_UNSPEC \<and> log_fam os1"
  by (auto simp: kr_redist_eval_def Let_def kroute.defs bindE_Inr_iff split: if_splits)

lemma remove_nodes_fam:
  "remove_nodes rs os = (rs1, os1) \<Longrightarrow> \<forall>r\<in>set rs. kr_af r \<noteq> AF_UNSPEC \<Longrightarrow> log_fam os \<Longrightarrow>
    (\<forall>r\<in>set rs1. kr_af r \<noteq> AF_UNSPEC) \<and> log_fam os1"
proof (induction rs arbitrary: os rs1)
  case (Cons r rs)
  obtain r1 o1 where r: "kr_redist_remove r os = (r1, o1)" by fastforce
  obtain rs2 where "remove_nodes rs o1 = (rs2, os1)" "rs1 = r1 # rs2" using Cons.prems(1) r by (auto split: prod.splits)
  then show ?case using Cons.IH [of o1 rs2] Cons.prems(2,3) redist_remove_fam [OF r] by simp
qed simp

lemma eval_nodes_fam:
  "eval_nodes rs os = Inr (rs1, os1) \<Longrightarrow> \<forall>r\<in>set rs. kr_af r \<noteq> AF_UNSPEC \<Longrightarrow> log_fam os \<Longrightarrow>
    (\<forall>r\<in>set rs1. kr_af r \<noteq> AF_UNSPEC) \<and> log_fam os1"
proof (induction rs arbitrary: os rs1)
  case (Cons r rs)
  obtain r1 o1 where r: "kr_redist_eval r os = Inr (r1, o1)" using Cons.prems(1) by (auto simp: bindE_Inr_iff)
  obtain rs2 where "eval_nodes rs o1 = Inr (rs2, os1)" "rs1 = r1 # rs2" using Cons.prems(1) r by (auto simp: bindE_Inr_iff)
  then show ?case using Cons.IH [of o1 rs2] Cons.prems(2,3) redist_eval_fam [OF r] by simp
qed simp

lemma remove_prios_fam:
  "remove_prios ps os = (ps1, os1) \<Longrightarrow> \<forall>p\<in>set ps. \<forall>r\<in>set (kprio_nexthops p). kr_af r \<noteq> AF_UNSPEC \<Longrightarrow> log_fam os \<Longrightarrow>
    (\<forall>p\<in>set ps1. \<forall>r\<in>set (kprio_nexthops p). kr_af r \<noteq> AF_UNSPEC) \<and> log_fam os1"
proof (induction ps arbitrary: ps1 os1)
  case (Cons p ps)
  obtain ps2 o1 where r: "remove_prios ps os = (ps2, o1)" by fastforce
  obtain ns o2 where n: "remove_nodes (kprio_nexthops p) o1 = (ns, o2)" by fastforce
  have "ps1 = p\<lparr>kprio_nexthops := ns\<rparr> # ps2" "os1 = o2" using Cons.prems(1) r n by (simp_all add: Let_def)
  then show ?case using Cons.IH [OF r] Cons.prems(2,3) remove_nodes_fam [OF n] by simp
qed simp

lemma kr_redistribute_sound [kr_sounds]: "kr_sound s \<Longrightarrow> partE (kr_redistribute s k) kr_sound"
proof -
  assume s: "kr_sound s"
  have "kp_fam (kp'\<lparr>kp_priorities := ps'\<rparr>) \<and> log_fam os"
    if kp: "fec_find (k_krt s) k = Some kp" and r: "redist_prios (kp_priorities kp) (k_out s) = Inr (ps', os)" for kp kp' ps' os
  proof (cases "kp_priorities kp")
    case Nil
    with r s show ?thesis by (simp add: redist_prios_def kp_fam_def kr_sound_def)
  next
    case (Cons p ps)
    obtain ps1 o1 where 1: "remove_prios ps (k_out s) = (ps1, o1)" by fastforce
    obtain ns where 2: "eval_nodes (kprio_nexthops p) o1 = Inr (ns, os)" "ps' = p\<lparr>kprio_nexthops := ns\<rparr> # ps1"
      using r Cons 1 by (auto simp: redist_prios_def bindE_Inr_iff)
    have "kp_fam kp" "log_fam (k_out s)" using s kp by (auto simp: kr_sound_def)
    then show ?thesis using remove_prios_fam [OF 1] eval_nodes_fam [OF 2(1)] 2(2) Cons by (simp add: kp_fam_def)
  qed
  with s show ?thesis
    by (auto simp: kr_redistribute_def get_kp_def partE_def bindE_Inr_iff kr_sound_def upd_kp_def fec_find_def split: option.splits if_splits)
qed

section \<open>The table\<close>

lemma partE_pair:
  fixes r :: "(int \<times> kr_state) res"
  assumes "partE r (\<lambda>(_, s). kr_sound s)" "\<And>i s. kr_sound s \<Longrightarrow> partE (f (i, s)) P"
  shows "partE (bindE r f) P"
  by (rule partE_bind [OF assms(1)]) (auto intro: assms(2))

lemmas kr_binds [kr_sounds] = partE_pair partE_bind [where Q = kr_sound] partE_fold [where P = kr_sound]

lemmas kr_reads =
  partE_any [where 'a = "rtmsg option"] partE_any [where 'a = kroute_prefix]
  partE_any [where 'a = "nat option"] partE_any [where 'a = "(fec \<times> nat \<times> nat) option"] partE_any [where 'a = sockaddr]

lemma rt_writev_sound [kr_sounds]: "kr_sound s \<Longrightarrow> kr_sound (snd (rt_writev y s hdr fam))"
proof (induction y s hdr fam rule: rt_writev.induct)
  case (1 y s hdr fam)
  have "kr_sound (kr_emit s (Rt_write hdr b))" for b using "1.prems" by (rule kr_sound_emit) simp
  with "1.IH" [OF refl refl] show ?case by (subst rt_writev.simps) (auto simp: Let_def split: wr_result.splits)
qed

lemma send_rtmsg_sound [kr_sounds]: "kr_sound s \<Longrightarrow> partE (send_rtmsg y s a r f) (\<lambda>(_, s). kr_sound s)"
  using rt_writev_sound
  by (auto simp: send_rtmsg_def send_rtmsg_v4_def send_rtmsg_v6_def Let_def split_beta intro!: kr_reads kr_sounds split: af.splits option.splits)

lemma kp_fam_nth: "kp_fam kp \<Longrightarrow> i < length (kp_priorities kp) \<Longrightarrow> r \<in> set (kprio_nexthops (kp_priorities kp ! i)) \<Longrightarrow> kr_af r \<noteq> AF_UNSPEC"
  unfolding kp_fam_def by (meson nth_mem)

lemma get_kn_fam: "kr_sound s \<Longrightarrow> get_kn s k i j = Inr r \<Longrightarrow> kr_af r \<noteq> AF_UNSPEC"
proof -
  assume s: "kr_sound s" and r: "get_kn s k i j = Inr r"
  then obtain kp where "fec_find (k_krt s) k = Some kp" "i < length (kp_priorities kp)" "r \<in> set (kprio_nexthops (kp_priorities kp ! i))"
    by (auto simp: get_kn_def get_kp_def bindE_Inr_iff split: option.splits if_splits)
  moreover from this(1) s have "kp_fam kp" by (simp add: kr_sound_def)
  ultimately show ?thesis using kp_fam_nth by blast
qed

lemma get_kn_sound [kr_sounds]:
  "kr_sound s \<Longrightarrow> (\<And>r. kr_af r \<noteq> AF_UNSPEC \<Longrightarrow> partE (f r) P) \<Longrightarrow> partE (bindE (get_kn s k i j) f) P"
  by (rule partE_any) (blast dest: get_kn_fam)

lemma kp_fam_update:
  assumes kp: "kp_fam kp" and p: "i < length (kp_priorities kp) \<Longrightarrow> \<forall>r\<in>set (kprio_nexthops p). kr_af r \<noteq> AF_UNSPEC"
  shows "kp_fam (kp\<lparr>kp_priorities := (kp_priorities kp)[i := p]\<rparr>)"
proof (cases "i < length (kp_priorities kp)")
  case True
  with kp p show ?thesis unfolding kp_fam_def by (auto dest!: set_update_subset_insert [THEN subsetD])
qed (use kp in \<open>simp add: list_update_beyond kp_fam_def\<close>)

lemma kp_fam_set_node: "kr_af r \<noteq> AF_UNSPEC \<Longrightarrow> kp_fam kp \<Longrightarrow> kp_fam (set_node i j r kp)"
  unfolding set_node_def
  by (rule kp_fam_update) (auto dest!: set_update_subset_insert [THEN subsetD] dest: kp_fam_nth)

lemma kp_fam_drop: "kp_fam kp \<Longrightarrow> kp_fam (drop_node i j kp)"
proof -
  assume kp: "kp_fam kp"
  then have "kp_fam (kp\<lparr>kp_priorities := del_nth i (kp_priorities kp)\<rparr>)"
    unfolding kp_fam_def del_nth_def by (auto dest: in_set_takeD in_set_dropD)
  moreover have "kp_fam (kp\<lparr>kp_priorities := (kp_priorities kp)[i := (kp_priorities kp ! i)\<lparr>kprio_nexthops :=
      del_nth j (kprio_nexthops (kp_priorities kp ! i))\<rparr>]\<rparr>)"
    by (rule kp_fam_update [OF kp]) (auto simp: del_nth_def dest!: in_set_takeD in_set_dropD dest: kp_fam_nth [OF kp])
  ultimately show ?thesis by (simp add: drop_node_def Let_def)
qed

lemma kp_fam_map: "kp_fam kp \<Longrightarrow> (\<And>r. kr_af (f r) = kr_af r) \<Longrightarrow> kp_fam (map_nodes f kp)"
  by (auto simp: kp_fam_def map_nodes_def)

lemma set_kn_sound [kr_sounds]: "kr_sound s \<Longrightarrow> kr_af r \<noteq> AF_UNSPEC \<Longrightarrow> kr_sound (set_kn s k i j r)"
  unfolding set_kn_def by (intro kr_sounds kp_fam_set_node)

lemma ensure_sound [kr_sounds]: "kr_sound s \<Longrightarrow> kr_sound (upd_kp (ensure_prefix s kr k) k (ensure_prio pr))"
proof (rule kr_sound_upd_kp)
  have "set (insert_prio p ps) = insert p (set ps)" for p ps by (induction ps) auto
  then show "kp_fam kp \<Longrightarrow> kp_fam (ensure_prio pr kp)" for kp by (auto simp: kp_fam_def ensure_prio_def)
  show "kr_sound s \<Longrightarrow> kr_sound (ensure_prefix s kr k)"
    by (auto simp: ensure_prefix_def kr_sound_def fec_find_def kp_fam_def split: if_splits)
qed

lemma kroute_insert_sound [kr_sounds]: "kr_sound s \<Longrightarrow> kr_af kr \<noteq> AF_UNSPEC \<Longrightarrow> partE (kroute_insert s kr) kr_sound"
proof -
  assume s: "kr_sound s" and af: "kr_af kr \<noteq> AF_UNSPEC"
  have "kp_fam (kp\<lparr>kp_priorities := (kp_priorities kp)[i := (kp_priorities kp ! i)\<lparr>kprio_nexthops :=
      kprio_nexthops (kp_priorities kp ! i) @ [kr]\<rparr>]\<rparr>)" if "kp_fam kp" for kp i
    by (rule kp_fam_update [OF that]) (use af kp_fam_nth [OF that] in auto)
  with s show ?thesis
    by (auto simp: kroute_insert_def Let_def intro!: kr_reads kr_sounds split: option.splits)
qed

lemma uninstall_sound [kr_sounds]: "kr_sound s \<Longrightarrow> partE (kroute_uninstall y s r) (\<lambda>(_, s). kr_sound s)"
  by (auto simp: kroute_uninstall_def intro!: kr_sounds)

lemma out_sound: "kr_sound s \<Longrightarrow> log_fam os \<Longrightarrow> kr_sound (s\<lparr>k_out := os\<rparr>)"
  by (simp add: kr_sound_def)

lemma redist_remove_sound [kr_sounds]:
  "kr_sound s \<Longrightarrow> kr_af r \<noteq> AF_UNSPEC \<Longrightarrow> kr_sound (s\<lparr>k_out := snd (kr_redist_remove r (k_out s))\<rparr>)"
  using redist_remove_fam [OF surjective_pairing, of r "k_out s"] by (intro out_sound) (simp_all add: kr_sound_def)

lemma kroute_remove_sound [kr_sounds]: "kr_sound s \<Longrightarrow> partE (kroute_remove y s kr) (\<lambda>(_, s). kr_sound s)"
  unfolding kroute_remove_def Let_def split_beta
  by (auto intro!: kr_reads kr_sounds kp_fam_drop split: option.splits)

lemma clear_node_sound: "kr_sound s \<Longrightarrow> kr_af r \<noteq> AF_UNSPEC \<Longrightarrow> partE (clear_node y s r) kr_sound"
  unfolding clear_node_def split_beta Let_def by (auto intro!: kr_sounds)

lemma partE_fold_in: "P s \<Longrightarrow> (\<And>s x. x \<in> set xs \<Longrightarrow> P s \<Longrightarrow> partE (f s x) P) \<Longrightarrow> partE (foldE f xs s) P"
  by (induction xs arbitrary: s) (auto intro: partE_bind)

lemma kroute_clear_sound [kr_sounds]: "kr_sound s \<Longrightarrow> partE (kroute_clear y s) kr_sound"
proof -
  assume s: "kr_sound s"
  have "partE (foldE (clear_node y) (concat (map kprio_nexthops (kp_priorities kp))) t) kr_sound"
    if "kr_sound t" "get_kp t k = Inr kp" for t k kp
  proof (rule partE_fold_in [where P = kr_sound, OF that(1)])
    fix u r assume r: "r \<in> set (concat (map kprio_nexthops (kp_priorities kp)))" and u: "kr_sound u"
    have "kp_fam kp" using that by (auto simp: get_kp_def kr_sound_def split: option.splits)
    with r have "kr_af r \<noteq> AF_UNSPEC" by (auto simp: kp_fam_def)
    with u show "partE (clear_node y u r) kr_sound" by (rule clear_node_sound)
  qed
  then show ?thesis unfolding kroute_clear_def
    by (intro partE_fold [where P = kr_sound, OF s] partE_any partE_bind [where Q = kr_sound]) (auto intro: kr_sounds)
qed

section \<open>Labels and interfaces\<close>

lemma kr_change_sound [kr_sounds]: "kr_sound s \<Longrightarrow> partE (kr_change y s kr) (\<lambda>(_, s). kr_sound s)"
  unfolding kr_change_def Let_def by (auto intro!: kr_reads kr_sounds split: option.splits)

lemma kr_delete_sound [kr_sounds]: "kr_sound s \<Longrightarrow> partE (kr_delete y s kr) (\<lambda>(_, s). kr_sound s)"
  unfolding kr_delete_def Let_def by (auto intro!: kr_reads kr_sounds split: option.splits)

lemma mpw_sound [kr_sounds]: "kr_sound s \<Longrightarrow> kr_sound (snd (set_mpwcfg y s n q))"
  by (auto simp: set_mpwcfg_def Let_def intro: kr_sounds)

lemma kmpw_sound [kr_sounds]:
  "kr_sound s \<Longrightarrow> partE (kmpw_install y s n kpw) (\<lambda>(_, s). kr_sound s)" "kr_sound s \<Longrightarrow> kr_sound (snd (kmpw_uninstall y s n))"
  by (auto simp: kmpw_install_def kmpw_uninstall_def split_beta intro!: kr_reads kr_sounds)

lemma kmpw_set_sound [kr_sounds]:
  "kr_sound s \<Longrightarrow> partE (kmpw_set y s kpw) (\<lambda>(_, s). kr_sound s)" "kr_sound s \<Longrightarrow> kr_sound (snd (kmpw_unset y s kpw))"
  by (auto simp: kmpw_set_def kmpw_unset_def intro!: kr_sounds split: option.splits)

lemma foldl_sound: "kr_sound s \<Longrightarrow> (\<And>s x. kr_sound s \<Longrightarrow> kr_sound (f s x)) \<Longrightarrow> kr_sound (foldl f s xs)"
  by (induction xs arbitrary: s) auto

lemma egress_sound [kr_sounds]: "kr_sound s \<Longrightarrow> kr_sound (kr_change_egress_label s af b)"
  unfolding kr_change_egress_label_def
  by (rule foldl_sound) (auto simp: egress_label_def intro!: kr_sounds kp_fam_map split: af.splits)

lemma nodes_sound [kr_sounds]:
  "kr_sound s \<Longrightarrow> partE (couple_node y s r) kr_sound" "kr_sound s \<Longrightarrow> partE (decouple_node y s r) kr_sound"
  by (auto simp: couple_node_def decouple_node_def intro!: kr_sounds)

lemma fib_sound [kr_sounds]: "kr_sound s \<Longrightarrow> partE (kr_fib_couple y s) kr_sound" "kr_sound s \<Longrightarrow> partE (kr_fib_decouple y s) kr_sound"
  by (auto simp: kr_fib_couple_def kr_fib_decouple_def each_first_node_def each_kpw_def intro!: kr_sounds kr_reads split: option.splits)

lemma send_addrs_sound [kr_sounds]: "kr_sound s \<Longrightarrow> kr_sound (send_addrs f as s)"
  by (rule kr_sound_frame [of s]) (auto simp: send_addrs_def log_fam_def)

lemma kif_sound [kr_sounds]:
  "kr_sound s \<Longrightarrow> partE (kif_insert s i) kr_sound" "kr_sound s \<Longrightarrow> kr_sound (snd (kif_remove s i))"
  by (auto simp: kif_insert_def kif_remove_def split_beta Let_def intro!: kr_sounds split: option.splits)

lemma kif_loops_sound [kr_sounds]: "kr_sound s \<Longrightarrow> kr_sound (kif_clear s)" "kr_sound s \<Longrightarrow> kr_sound (kif_redistribute s n)"
  by (auto simp: kif_clear_def kif_redistribute_def intro!: foldl_sound kr_sounds split: option.splits)

lemma if_sound [kr_sounds]:
  "kr_sound s \<Longrightarrow> partE (if_change s i fl ifd sdl) kr_sound" "kr_sound s \<Longrightarrow> partE (if_newaddr s i ifa msk brd) kr_sound"
  "kr_sound s \<Longrightarrow> partE (if_deladdr s i ifa msk brd) kr_sound" "kr_sound s \<Longrightarrow> partE (if_announce s w i nm) kr_sound"
  by (auto simp: if_change_def kif_update_def if_newaddr_def if_deladdr_def if_announce_def Let_def bindE_assoc
      intro!: kr_sounds kr_reads partE_any [where 'a = "kaddr option"] split: option.splits ifan_what.splits)

lemma show_sound [kr_sounds]: "kr_sound s \<Longrightarrow> partE (kr_show_route s a pid req) kr_sound" "kr_sound s \<Longrightarrow> kr_sound (kr_ifinfo s n pid)"
  by (auto simp: kr_show_route_def kr_ifinfo_def intro!: kr_sounds foldl_sound kr_reads
      partE_any [where 'a = "(fec \<times> kroute_priority) option"] split: show_req.splits option.splits)

section \<open>Messages of the kernel\<close>

lemma kroute_process_sound: "kr_sound s \<Longrightarrow> kr_af kr \<noteq> AF_UNSPEC \<Longrightarrow> partE (kroute_process y s kind kr) (\<lambda>(_, s). kr_sound s)"
proof -
  assume s: "kr_sound s" and af: "kr_af kr \<noteq> AF_UNSPEC"
  have "partE (if kind = RTM_CHANGE then change_remove y s kr else Inr s) kr_sound"
    using s by (auto simp: change_remove_def intro!: kr_sounds split: option.splits list.splits)
  then show ?thesis unfolding kroute_process_def
    by (rule partE_bind) (use af in \<open>auto intro!: kr_reads kr_sounds split: option.splits\<close>)
qed

lemma rtm_kroute_af: "rtm_kroute rtm dst msk gw = Inr (Some kr) \<Longrightarrow> kr_af kr \<noteq> AF_UNSPEC"
proof -
  assume kr: "rtm_kroute rtm dst msk gw = Inr (Some kr)"
  then have "\<exists>l. rtm_prefix rtm dst msk = Inr (Some (kr_af kr, l))"
    by (cases "rtm_gateway rtm gw") (auto simp: rtm_kroute_def bindE_Inr_iff Let_def split: option.splits prod.splits)
  then show ?thesis using rtm_prefix_plen(1) by (metis surj_pair)
qed

lemma kr_run_sound:
  assumes s: "kr_sound s"
  shows "partE (kr_run y s e) kr_sound"
proof -
  have "partE (rtmsg_process_route y s rtm rti) (\<lambda>(_, s). kr_sound s)" for rtm rti
    using s by (auto simp: rtmsg_process_route_def intro!: partE_any [where 'a = "kroute_r option"] kroute_process_sound
        dest: rtm_kroute_af split: option.splits)
  with s show ?thesis
    by (cases e) (auto simp: kr_run_def rtmsg_process_one_def kr_shutdown_def intro!: kr_sounds split: rtm_type.splits)
qed

lemma kr_reach_sound: "kr_reach y c s \<Longrightarrow> kr_sound s"
proof (induction rule: kr_reach.induct)
  case (step s e s')
  then show ?case using kr_run_sound [of s y e] by simp
qed (simp add: kr_start_def kr_sound_def fec_find_def)

end
