(* ===== verification/System.thy ===== *)
theory System
  imports Lde_ReloadTheorems Lde_Links Ldpe_Theorems Kr_Theorems Kr_Log
begin

text \<open>
  The three processes together. The protocol engine and the parent log what they send; the label
  decision engine reads the two streams in their order and in any interleaving, between its own timer
  and the reloads. \<open>main_dispatch_lde\<close> is the parent's end of the stream the label decision engine sends.
  The messages of the label decision engine to the protocol engine are the hypothesis \<open>lde_imsg_good\<close> on
  the events of the latter.
\<close>

section \<open>The streams\<close>

definition ldpe_stream :: "ldpe_out list \<Rightarrow> (u32 \<times> ldpe_imsg) list" where
  "ldpe_stream outs = List.map_filter (\<lambda>x. case x of Out_lde pid m \<Rightarrow> Some (pid, m) | _ \<Rightarrow> None) outs"

definition parent_stream :: "kr_out list \<Rightarrow> parent_imsg list" where
  "parent_stream outs = List.map_filter (\<lambda>x. case x of To_lde m \<Rightarrow> Some m | _ \<Rightarrow> None) outs"

definition from_ldpe :: "u32 \<times> ldpe_imsg \<Rightarrow> lde_proc_event" where
  "from_ldpe x = Lde_message (FromLdpe (fst x) (snd x))"

definition from_parent :: "parent_imsg \<Rightarrow> lde_proc_event" where
  "from_parent m = Lde_message (FromParent m)"

text \<open>The messages of the label decision engine to the parent.\<close>

definition main_dispatch_lde :: "ksys \<Rightarrow> kr_state \<Rightarrow> lde_imsg \<Rightarrow> kr_state res" where
  "main_dispatch_lde y s m =
     (case m of
        IMSG_KLABEL_CHANGE kr \<Rightarrow> bindE (kr_change y s kr) (\<lambda>(_, s1). Inr s1)
      | IMSG_KLABEL_DELETE kr \<Rightarrow> bindE (kr_delete y s kr) (\<lambda>(_, s1). Inr s1)
      | IMSG_KPWLABEL_CHANGE kpw \<Rightarrow> bindE (kmpw_set y s kpw) (\<lambda>(_, s1). Inr s1)
      | IMSG_KPWLABEL_DELETE kpw \<Rightarrow> Inr (snd (kmpw_unset y s kpw))
      | _ \<Rightarrow> Inr s)"

text \<open>
  The label decision engine fed with two logs: \<open>i\<close> and \<open>j\<close> count the messages it has read of each. What it
  does on its own account is the timer and the reload.
\<close>

definition own_event :: "lde_proc_event \<Rightarrow> bool" where
  "own_event e \<longleftrightarrow> (case e of Lde_message m \<Rightarrow> m = GcTimer | Lde_reconf _ \<Rightarrow> True)"

inductive lde_fed :: "ldpe_out list \<Rightarrow> kr_out list \<Rightarrow> nat \<Rightarrow> nat \<Rightarrow> lde_proc \<Rightarrow> bool" for ps ks where
  fed_start: "lde_fed ps ks 0 0 lde_proc_start"
| fed_ldpe: "lde_fed ps ks i j q \<Longrightarrow> i < length (ldpe_stream ps) \<Longrightarrow> lde_proc_run q (from_ldpe (ldpe_stream ps ! i)) = Inr q' \<Longrightarrow>
    lde_fed ps ks (Suc i) j q'"
| fed_parent: "lde_fed ps ks i j q \<Longrightarrow> j < length (parent_stream ks) \<Longrightarrow> lde_proc_run q (from_parent (parent_stream ks ! j)) = Inr q' \<Longrightarrow>
    lde_fed ps ks i (Suc j) q'"
| fed_own: "lde_fed ps ks i j q \<Longrightarrow> own_event e \<Longrightarrow> lde_proc_event_ok q e \<Longrightarrow> lde_proc_run q e = Inr q' \<Longrightarrow> lde_fed ps ks i j q'"

inductive_cases lde_fedE: "lde_fed ps ks i j q"

section \<open>What the streams hold\<close>

definition ups :: "(u32 \<times> ldpe_imsg) list \<Rightarrow> u32 list" where
  "ups xs = concat (map (\<lambda>x. case x of (pid, NEIGHBOR_UP _ _ _) \<Rightarrow> [pid] | _ \<Rightarrow> []) xs)"

lemma ups_stream: "ups (ldpe_stream outs) = ups_of outs"
proof (induction outs)
  case (Cons x outs)
  then show ?case
    by (cases x) (auto simp: ups_def ups_of_def ldpe_stream_def List.map_filter_simps split: ldpe_imsg.splits)
qed (simp add: ups_def ups_of_def ldpe_stream_def List.map_filter_simps)

lemma stream_mem: "(pid, m) \<in> set (ldpe_stream outs) \<Longrightarrow> Out_lde pid m \<in> set outs"
  by (induction outs) (auto simp: ldpe_stream_def List.map_filter_simps split: ldpe_out.splits)

lemma parent_mem: "m \<in> set (parent_stream outs) \<Longrightarrow> To_lde m \<in> set outs"
  by (induction outs) (auto simp: parent_stream_def List.map_filter_simps split: kr_out.splits)

lemma ups_new:
  assumes d: "distinct (ups xs)" and i: "i < length xs" and x: "xs ! i = (pid, NEIGHBOR_UP a b c)"
  shows "pid \<notin> set (ups (take i xs))"
proof -
  have "xs = take i xs @ (pid, NEIGHBOR_UP a b c) # drop (Suc i) xs" using id_take_nth_drop [OF i] x by simp
  then have "ups xs = ups (take i xs) @ pid # ups (drop (Suc i) xs)"
    by (metis (no_types, lifting) append_Cons append_Nil case_prod_conv concat.simps(2) concat_append ldpe_imsg.simps list.simps(9) map_append ups_def)
  with d show ?thesis by simp
qed

text \<open>A message that may be read is one the label decision engine can handle.\<close>

lemma ldpe_msg_ok:
  assumes o: "outs_ok s" and l: "linked (set (ups (take i (ldpe_stream (e_out s))))) (lp_lde q)" and i: "i < length (ldpe_stream (e_out s))"
  shows "lde_proc_event_ok q (from_ldpe (ldpe_stream (e_out s) ! i))"
proof -
  obtain pid m where x: "ldpe_stream (e_out s) ! i = (pid, m)" by fastforce
  have "Out_lde pid m \<in> set (e_out s)" using stream_mem x i by (metis nth_mem)
  then have g: "imsg_good m" using o by (simp add: outs_ok_def)
  have "rb_find (lde_nbrs (lp_lde q)) pid = None" if "m = NEIGHBOR_UP a b c" for a b c
  proof -
    have "distinct (ups (ldpe_stream (e_out s)))" using o by (simp add: outs_ok_def ups_stream)
    then have "pid \<notin> set (ups (take i (ldpe_stream (e_out s))))" using ups_new i x that by blast
    then show ?thesis using l unfolding linked_def by blast
  qed
  with g have "imsg_ok (lp_lde q) pid m" by (cases m) (simp_all add: imsg_ok_def imsg_good_def)
  then show ?thesis by (simp add: x from_ldpe_def lde_proc_event_ok_def event_ok_def is_message_def)
qed

lemma parent_msg_ok:
  assumes k: "log_fam ks" and j: "j < length (parent_stream ks)"
  shows "lde_proc_event_ok q (from_parent (parent_stream ks ! j))"
proof -
  have "To_lde (parent_stream ks ! j) \<in> set ks" using parent_mem j by (metis nth_mem)
  with k show ?thesis
    by (cases "parent_stream ks ! j") (auto simp: from_parent_def lde_proc_event_ok_def event_ok_def is_message_def log_fam_def)
qed

section \<open>The invariant of the fed engine\<close>

lemma ups_take_Suc:
  "i < length xs \<Longrightarrow> ups (take (Suc i) xs) = ups (take i xs) @ (case xs ! i of (pid, NEIGHBOR_UP _ _ _) \<Rightarrow> [pid] | _ \<Rightarrow> [])"
  by (simp add: ups_def take_Suc_conv_app_nth)

lemma lde_fed_inv:
  assumes "lde_fed ps ks i j q" and o: "outs_ok s" "ps = e_out s" and k: "log_fam ks"
  shows "lde_ok (lp_lde q) \<and> linked (set (ups (take i (ldpe_stream ps)))) (lp_lde q)"
  using assms(1)
proof (induction rule: lde_fed.induct)
  case fed_start
  have "linked {} (lp_lde lde_proc_start)" by (simp add: linked_def lde_proc_start_def lde_start_def)
  then show ?case using lde_proc_start_ok by (simp add: ups_def)
next
  case (fed_ldpe i j q q')
  let ?x = "ldpe_stream ps ! i"
  have ok: "lde_proc_event_ok q (from_ldpe ?x)" using ldpe_msg_ok [OF o(1)] fed_ldpe o(2) by simp
  have "lde_ok (lp_lde q')" using lde_proc_run_ok [OF _ ok] fed_ldpe by simp
  moreover have "linked (set (ups (take i (ldpe_stream ps))) \<union> ups_in (FromLdpe (fst ?x) (snd ?x))) (lp_lde q')"
    using proc_run_linked [OF _ ok] fed_ldpe by (auto simp: from_ldpe_def)
  moreover have "set (ups (take (Suc i) (ldpe_stream ps))) = set (ups (take i (ldpe_stream ps))) \<union> ups_in (FromLdpe (fst ?x) (snd ?x))"
    using fed_ldpe(2) by (cases ?x; cases "snd ?x") (simp_all add: ups_take_Suc ups_in_def)
  ultimately show ?case by simp
next
  case (fed_parent i j q q')
  have ok: "lde_proc_event_ok q (from_parent (parent_stream ks ! j))" using parent_msg_ok [OF k] fed_parent by simp
  show ?case using lde_proc_run_ok [OF _ ok] proc_run_linked [OF _ ok] fed_parent by (force simp: from_parent_def ups_in_def)
next
  case (fed_own i j q e q')
  have "(case e of Lde_message m \<Rightarrow> ups_in m | _ \<Rightarrow> {}) = {}"
    using fed_own(2) by (auto simp: own_event_def ups_in_def split: lde_proc_event.splits)
  then show ?case using lde_proc_run_ok [OF _ fed_own(3)] proc_run_linked [OF _ fed_own(3)] fed_own by force
qed

lemma main_dispatch_lde_ok:
  assumes k: "kr_inv s" "kif_inv s" and m: "\<And>w. m = IMSG_KPWLABEL_CHANGE w \<Longrightarrow> kpw_af w \<noteq> AF_UNSPEC"
  shows "\<exists>s'. main_dispatch_lde y s m = Inr s'"
proof -
  have "\<exists>s'. kr_run y s e = Inr s'" if "kr_event_ok s e" for e using kr_run_ok [OF k that, of y] by (auto simp: okE_def)
  note run = this [of "Klabel_change _"] this [of "Klabel_delete _"] this [of "Kpwlabel_change _"]
  from run m show ?thesis by (cases m) (simp_all add: main_dispatch_lde_def kr_run_def kr_event_ok_def)
qed

text \<open>A route of the kernel, as the parent announces it, and the label the engine asks for in return.\<close>

definition demo_net :: parent_imsg where
  "demo_net = NETWORK_ADD \<lparr>kr_af = AF_INET, kr_prefix = [10, 1] @ replicate 14 0, kr_prefixlen = 16,
     kr_nexthop = [192, 168, 0, 1] @ replicate 12 0, kr_local_label = NO_LABEL, kr_remote_label = NO_LABEL, kr_priority = 32\<rparr> False"

lemma demo_net_out: "k_out demo_k1 = [To_lde demo_net]"
  unfolding demo_net_def by code_simp

lemma demo_net_read: "\<exists>s m. lde_dispatch_parent (lp_lde lde_proc_start) demo_net = Inr s \<and> out s = [m]"
proof -
  have "(case lde_dispatch_parent (lp_lde lde_proc_start) demo_net of Inr s \<Rightarrow> length (out s) = 1 | _ \<Rightarrow> False)" by code_simp
  then show ?thesis by (auto simp: length_Suc_conv split: sum.splits)
qed

section \<open>The composition\<close>

text \<open>
  C1: The label decision engine handles every message of the two other processes. For every state the
  protocol engine and the parent can reach, and for every state of the label decision engine that has read
  a part of what they sent, in any interleaving with its timer and with clean reloads, the next message of
  either stream is handled without a fault; nothing is assumed of the messages themselves.
\<close>

theorem engine_links_never_fault:
  assumes "ldpe_reachable pr" and "kr_reach y c k" and "lde_fed (e_out (pr_engine pr)) (k_out k) i j q"
  shows "(i < length (ldpe_stream (e_out (pr_engine pr))) \<longrightarrow>
      (\<exists>q'. lde_proc_run q (from_ldpe (ldpe_stream (e_out (pr_engine pr)) ! i)) = Inr q')) \<and>
    (j < length (parent_stream (k_out k)) \<longrightarrow> (\<exists>q'. lde_proc_run q (from_parent (parent_stream (k_out k) ! j)) = Inr q'))"
proof -
  have o: "outs_ok (pr_engine pr)" by (rule reachable_outs [OF assms(1)])
  have l: "log_fam (k_out k)" using kr_reach_sound [OF assms(2)] by (simp add: kr_sound_def)
  have inv: "lde_ok (lp_lde q)" "linked (set (ups (take i (ldpe_stream (e_out (pr_engine pr)))))) (lp_lde q)"
    using lde_fed_inv [OF assms(3) o refl l] by simp_all
  have "\<exists>q'. lde_proc_run q e = Inr q'" if "lde_proc_event_ok q e" for e
    using lde_proc_run_ok [OF inv(1) that] by (auto simp: okE_def)
  then show ?thesis using ldpe_msg_ok [OF o inv(2)] parent_msg_ok [OF l] by blast
qed

theorem engine_links_never_fault_witness:
  "\<exists>pr n m. ldpe_reachable pr \<and> rb_find (e_nbrs (pr_engine pr)) 0x0a000002 = Some n \<and> parent_stream (k_out demo_k1) = [m] \<and>
    (\<exists>q'. lde_proc_run lde_proc_start (from_parent m) = Inr q')"
proof -
  obtain pr n where pr: "ldpe_reachable pr" "rb_find (e_nbrs (pr_engine pr)) 0x0a000002 = Some n" by (rule demo_run)
  have "parent_stream (k_out demo_k1) = [demo_net]" by (simp add: demo_net_out parent_stream_def List.map_filter_simps)
  with engine_links_never_fault [OF pr(1) demo_k1_reach fed_start] pr show ?thesis by auto
qed

text \<open>
  C4: The parent handles every message of the label decision engine: whatever that engine has sent so far,
  fed with the streams of the two others, each of its messages leaves the parent, in every state of its
  tables, without a fault.
\<close>

theorem parent_link_never_faults:
  assumes "ldpe_reachable pr" and "kr_reach y c k" and "lde_fed (e_out (pr_engine pr)) (k_out k) i j q"
    and "m \<in> set (out (lp_lde q))" and "kr_reach y' c' k'"
  shows "\<exists>k''. main_dispatch_lde y' k' m = Inr k''"
proof (rule main_dispatch_lde_ok)
  show "kr_inv k'" "kif_inv k'" using kr_reach_inv [OF assms(5)] by auto
  have "log_fam (k_out k)" using kr_reach_sound [OF assms(2)] by (simp add: kr_sound_def)
  then have "linked (set (ups (take i (ldpe_stream (e_out (pr_engine pr)))))) (lp_lde q)"
    using lde_fed_inv [OF assms(3) reachable_outs [OF assms(1)] refl] by simp
  then show "m = IMSG_KPWLABEL_CHANGE w \<Longrightarrow> kpw_af w \<noteq> AF_UNSPEC" for w using assms(4) by (auto simp: linked_def)
qed

theorem parent_link_never_faults_witness:
  "\<exists>q m k''. lde_proc_run lde_proc_start (from_parent demo_net) = Inr q \<and> out (lp_lde q) = [m] \<and>
    main_dispatch_lde demo_kernel demo_k1 m = Inr k''"
proof -
  obtain pr n where pr: "ldpe_reachable pr" "rb_find (e_nbrs (pr_engine pr)) 0x0a000002 = Some n" by (rule demo_run)
  obtain s m where s: "lde_dispatch_parent (lp_lde lde_proc_start) demo_net = Inr s" "out s = [m]" using demo_net_read by blast
  define q where "q = lde_proc_start\<lparr>lp_lde := s\<rparr>"
  have run: "lde_proc_run lde_proc_start (from_parent demo_net) = Inr q"
    using s by (simp add: lde_proc_run_def from_parent_def lde_run_def q_def)
  have "parent_stream (k_out demo_k1) = [demo_net]" by (simp add: demo_net_out parent_stream_def List.map_filter_simps)
  with run have "lde_fed (e_out (pr_engine pr)) (k_out demo_k1) 0 (Suc 0) q" by (intro fed_parent [OF fed_start]) simp_all
  from parent_link_never_faults [OF pr(1) demo_k1_reach this _ demo_k1_reach, of m] run s show ?thesis by (auto simp: q_def)
qed

end
