(* ===== verification/Lde_Props.thy ===== *)
theory Lde_Props
  imports Lde_Reach
begin

text \<open>
  What the label decision engine achieves: mappings are recorded and installed, withdraws and lost
  neighbours leave no label in use, the garbage collector frees exactly the dead classes, requests
  are answered, and local labels are handed out once.
\<close>

section \<open>What the forwarding-table messages leave alone\<close>

definition same_lib :: "lde \<Rightarrow> lde \<Rightarrow> bool" where
  "same_lib s t \<longleftrightarrow> ft t = ft s \<and> lde_nbrs t = lde_nbrs s \<and> last_label t = last_label s \<and>
     (\<exists>ms. out t = out s @ ms)"

lemma same_lib_refl [simp]: "same_lib s s"
  by (simp add: same_lib_def)

lemma same_lib_trans: "same_lib s t \<Longrightarrow> same_lib t u \<Longrightarrow> same_lib s u"
  by (auto simp: same_lib_def)

lemma same_lib_emit: "same_lib s (emit s m)"
  by (simp add: same_lib_def)

lemma same_lib_pw: "same_lib s (upd_pw s d g)" "same_lib s (emit (upd_pw s d g) m)"
  by (simp_all add: same_lib_def)

lemma foldE_same_lib:
  assumes "\<And>s t x. f s x = Inr t \<Longrightarrow> same_lib s t" and "foldE f xs s = Inr t"
  shows "same_lib s t"
  using assms(2)
proof (induction xs arbitrary: s)
  case (Cons x xs)
  then obtain u where "f s x = Inr u" "foldE f xs u = Inr t" by (auto simp: bindE_Inr_iff)
  with Cons.IH assms(1) show ?case by (blast intro: same_lib_trans)
qed simp

lemma change_klabel_pw_lib: "change_klabel_pw s f i = Inr t \<Longrightarrow> same_lib s t"
  by (auto simp: change_klabel_pw_def bindE_Inr_iff Let_def same_lib_pw split: if_splits)

lemma delete_klabel_pw_lib: "delete_klabel_pw s f i = Inr t \<Longrightarrow> same_lib s t"
  by (auto simp: delete_klabel_pw_def bindE_Inr_iff Let_def same_lib_pw split: if_splits)

lemma sync_pw_lib: "sync_pw af a s d = Inr t \<Longrightarrow> same_lib s t"
  by (auto simp: sync_pw_def bindE_Inr_iff split: if_splits option.splits)
     (erule change_klabel_pw_lib delete_klabel_pw_lib)+

lemma l2vpn_sync_pws_lib: "l2vpn_sync_pws s af a = Inr t \<Longrightarrow> same_lib s t"
  unfolding l2vpn_sync_pws_def
  by (erule foldE_same_lib [rotated]) (auto simp: bindE_Inr_iff intro: foldE_same_lib [OF sync_pw_lib])

lemma send_klabel_lib:
  "lde_send_change_klabel s f i = Inr t \<Longrightarrow> same_lib s t"
  "lde_send_delete_klabel s f i = Inr t \<Longrightarrow> same_lib s t"
  by (auto simp: lde_send_change_klabel_def lde_send_delete_klabel_def bindE_Inr_iff Let_def same_lib_emit
      split: fec.splits if_splits
      dest: change_klabel_pw_lib delete_klabel_pw_lib l2vpn_sync_pws_lib intro: same_lib_trans [OF same_lib_emit])

section \<open>Labels on next hops\<close>

text \<open>
  \<open>nh_after s t f i Q l\<close>: from \<open>s\<close> to \<open>t\<close> only the label of next hop \<open>i\<close> of class \<open>f\<close> changes, and
  it becomes \<open>l\<close> when \<open>Q\<close> holds of the next hop.
\<close>

definition label_step :: "fec \<Rightarrow> nat \<Rightarrow> (fec_nh \<Rightarrow> bool) \<Rightarrow> u32 \<Rightarrow> lde \<Rightarrow> lde \<Rightarrow> bool" where
  "label_step f i Q l s t \<longleftrightarrow> lde_nbrs t = lde_nbrs s \<and> last_label t = last_label s \<and>
     (\<exists>ms. out t = out s @ ms) \<and>
     (\<forall>g. fec_find (ft t) g = (if g = f then map_option (\<lambda>fn. fn\<lparr>fn_nexthops :=
        (if i < length (fn_nexthops fn) \<and> Q (fn_nexthops fn ! i)
         then (fn_nexthops fn)[i := (fn_nexthops fn ! i)\<lparr>nh_remote_label := l\<rparr>]
         else fn_nexthops fn)\<rparr>) (fec_find (ft s) g) else fec_find (ft s) g))"

definition relabel :: "(fec_nh \<Rightarrow> bool) \<Rightarrow> u32 \<Rightarrow> fec_nh \<Rightarrow> fec_nh" where
  "relabel Q l nh = (if Q nh then nh\<lparr>nh_remote_label := l\<rparr> else nh)"

lemma label_loop_aux:
  assumes step: "\<And>s t i. lde_nbrs s = N \<Longrightarrow> b s i = Inr t \<Longrightarrow> label_step f i Q l s t"
    and N: "lde_nbrs s = N" and run: "foldE b [k..<n] s = Inr t" and k: "k \<le> n"
    and fn: "fec_find (ft s) f = Some fn" "n = length (fn_nexthops fn)"
  shows "lde_nbrs t = lde_nbrs s \<and> last_label t = last_label s \<and> (\<exists>ms. out t = out s @ ms) \<and>
    (\<forall>g. fec_find (ft t) g = (if g = f then Some (fn\<lparr>fn_nexthops :=
      take k (fn_nexthops fn) @ map (relabel Q l) (drop k (fn_nexthops fn))\<rparr>) else fec_find (ft s) g))"
  using N run k fn
proof (induction "n - k" arbitrary: k s fn)
  case 0
  then show ?case by auto
next
  case (Suc m)
  let ?xs = "fn_nexthops fn"
  have k: "k < length ?xs" using Suc.hyps(2) Suc.prems(5) by simp
  then have "[k..<n] = k # [Suc k..<n]" using Suc.prems(5) by (simp add: upt_conv_Cons)
  with Suc.prems(2) obtain u where u: "b s k = Inr u" "foldE b [Suc k..<n] u = Inr t"
    by (auto simp: bindE_Inr_iff)
  let ?ys = "?xs[k := relabel Q l (?xs ! k)]"
  have fu: "fec_find (ft u) f = Some (fn\<lparr>fn_nexthops := ?ys\<rparr>)" "\<And>g. g \<noteq> f \<Longrightarrow> fec_find (ft u) g = fec_find (ft s) g"
    and un: "lde_nbrs u = lde_nbrs s" "last_label u = last_label s" "\<exists>ms. out u = out s @ ms"
    using step [OF Suc.prems(1) u(1)] k Suc.prems(4) by (auto simp: label_step_def relabel_def)
  have "m = n - Suc k" "lde_nbrs u = N" "Suc k \<le> n" using un(1) Suc.prems(1) Suc.hyps(2) Suc.prems(5) k by auto
  from Suc.hyps(1) [OF this(1,2) u(2) this(3) fu(1)] Suc.prems(5)
  have IH: "lde_nbrs t = lde_nbrs u \<and> last_label t = last_label u \<and> (\<exists>ms. out t = out u @ ms) \<and>
    (\<forall>g. fec_find (ft t) g = (if g = f then Some (fn\<lparr>fn_nexthops :=
      take (Suc k) ?ys @ map (relabel Q l) (drop (Suc k) ?ys)\<rparr>) else fec_find (ft u) g))"
    by simp
  have "take (Suc k) ?ys @ map (relabel Q l) (drop (Suc k) ?ys) = take k ?xs @ map (relabel Q l) (drop k ?xs)"
    using k by (simp add: take_Suc_conv_app_nth Cons_nth_drop_Suc [symmetric])
  with IH un fu(2) show ?case by auto
qed

lemma label_loop:
  assumes "\<And>s t i. lde_nbrs s = N \<Longrightarrow> b s i = Inr t \<Longrightarrow> label_step f i Q l s t" "lde_nbrs s = N"
    and "foldE b (nh_positions s f) s = Inr t" and fn: "fec_find (ft s) f = Some fn"
  shows "lde_nbrs t = lde_nbrs s \<and> last_label t = last_label s \<and> (\<exists>ms. out t = out s @ ms) \<and>
    (\<forall>g. fec_find (ft t) g = (if g = f then Some (fn\<lparr>fn_nexthops := map (relabel Q l) (fn_nexthops fn)\<rparr>)
      else fec_find (ft s) g))"
  using label_loop_aux [OF assms(1,2), where k = 0 and n = "length (fn_nexthops fn)" and t = t and fn = fn] assms(3) fn
  by (simp add: nh_positions_def)

lemma address_find_Inr: "lde_address_find ln af a = Inr r \<Longrightarrow> (r \<noteq> None) = has_address ln af a"
proof (cases "af = AF_UNSPEC")
  case True
  assume run: "lde_address_find ln af a = Inr r"
  have "r = None \<and> (\<forall>la\<in>set xs. la_af la \<noteq> AF_UNSPEC)"
    if "findE (\<lambda>la. if la_af la = AF_UNSPEC then bindE (ldp_addrcmp AF_UNSPEC (la_addr la) a) (\<lambda>c. Inr (c = 0))
                 else Inr False) xs = Inr r" for xs
    using that by (induction xs) (auto simp: ldp_addrcmp_def split: if_splits)
  with run True show ?thesis by (auto simp: lde_address_find_def has_address_def)
next
  case False
  assume "lde_address_find ln af a = Inr r"
  with lde_address_find_has_address [OF False, of ln a Inr] show ?thesis by simp
qed

abbreviation owns :: "lde_nbr \<Rightarrow> fec_nh \<Rightarrow> bool" where
  "owns ln nh \<equiv> has_address ln (nh_af nh) (nh_nexthop nh)"

lemma label_step_id:
  "same_lib s t \<Longrightarrow> get_nh s f i = Inr nh \<Longrightarrow> \<not> Q nh \<Longrightarrow> label_step f i Q l s t"
  by (auto simp: label_step_def same_lib_def get_nh_def bindE_Inr_iff split: if_splits)

lemma label_step_set:
  assumes "same_lib s u" "get_nh s f i = Inr nh" "Q nh" "same_lib (set_remote_label u f i l) t"
  shows "label_step f i Q l s t"
  using assms
  by (auto simp: label_step_def same_lib_def get_nh_def bindE_Inr_iff set_remote_label_def upd_nh_def
      split: if_splits)

lemma owned_step:
  assumes nh: "get_nh s f i = Inr nh" and r: "lde_address_find ln (nh_af nh) (nh_nexthop nh) = Inr r"
    and run: "(if r = None then Inr s else X) = Inr t" and X: "X = Inr t \<Longrightarrow> \<exists>u. same_lib s u \<and> same_lib (set_remote_label u f i l) t"
  shows "label_step f i (owns ln) l s t"
proof (cases "r = None")
  case True
  with run address_find_Inr [OF r] have "\<not> owns ln nh" "t = s" by simp_all
  then show ?thesis using label_step_id [OF _ nh] by simp
next
  case False
  with run X obtain u where u: "same_lib s u" "same_lib (set_remote_label u f i l) t" by auto
  have "owns ln nh" using address_find_Inr [OF r] False by simp
  then show ?thesis using label_step_set [of s u f i nh "owns ln" l t] u nh by blast
qed

lemma drop_label_lib:
  "bindE (lde_send_delete_klabel s f i) (\<lambda>s1. Inr (set_remote_label s1 f i l)) = Inr t \<Longrightarrow>
   \<exists>u. same_lib s u \<and> same_lib (set_remote_label u f i l) t"
  using send_klabel_lib(2) same_lib_refl unfolding bindE_Inr_iff by (metis sum.inject(2))

lemma set_label_lib:
  "lde_send_change_klabel (set_remote_label s f i l) f i = Inr t \<Longrightarrow>
   \<exists>u. same_lib s u \<and> same_lib (set_remote_label u f i l) t"
  using send_klabel_lib(1) same_lib_refl by blast

definition is_prefix_fec :: "fec \<Rightarrow> bool" where
  "is_prefix_fec f \<longleftrightarrow> fec_get_type f \<noteq> FEC_TYPE_PWID"

lemma unuse_nh_step:
  assumes "rb_find (lde_nbrs s) p = Some ln" "unuse_nh p f s i = Inr t"
  shows "label_step f i (owns ln) NO_LABEL s t"
proof -
  from assms obtain nh r where *: "get_nh s f i = Inr nh" "lde_address_find ln (nh_af nh) (nh_nexthop nh) = Inr r"
    "(if r = None then Inr s else bindE (lde_send_delete_klabel s f i) (\<lambda>s1. Inr (set_remote_label s1 f i NO_LABEL))) = Inr t"
    unfolding unuse_nh_def get_Some(1) [OF assms(1)] by (auto simp only: bindE_simps bindE_Inr_iff)
  show ?thesis by (rule owned_step [OF * drop_label_lib])
qed

lemma install_nh_step:
  assumes "rb_find (lde_nbrs s) p = Some ln" "install_nh m p f s i = Inr t" "is_prefix_fec f"
  shows "label_step f i (owns ln) (map_label m) s t"
proof -
  from assms(2,3) obtain nh r where *: "get_nh s f i = Inr nh" "lde_address_find ln (nh_af nh) (nh_nexthop nh) = Inr r"
    "(if r = None then Inr s else lde_send_change_klabel (set_remote_label s f i (map_label m)) f i) = Inr t"
    unfolding install_nh_def get_Some(1) [OF assms(1)] by (cases f) (auto simp: bindE_Inr_iff is_prefix_fec_def)
  show ?thesis by (rule owned_step [OF * set_label_lib])
qed

lemma withdraw_nh_step:
  assumes "rb_find (lde_nbrs s) p = Some ln" "withdraw_nh p f s i = Inr t" "is_prefix_fec f"
  shows "label_step f i (owns ln) NO_LABEL s t"
proof -
  from assms(2,3) obtain nh r where *: "get_nh s f i = Inr nh" "lde_address_find ln (nh_af nh) (nh_nexthop nh) = Inr r"
    "(if r = None then Inr s else bindE (lde_send_delete_klabel s f i) (\<lambda>s1. Inr (set_remote_label s1 f i NO_LABEL))) = Inr t"
    unfolding withdraw_nh_def get_Some(1) [OF assms(1)] by (cases f) (auto simp: bindE_Inr_iff is_prefix_fec_def)
  show ?thesis by (rule owned_step [OF * drop_label_lib])
qed

section \<open>A mapping is recorded and installed\<close>

lemma release_lib: "lde_send_labelrelease s p (Some f) l = Inr t \<Longrightarrow> same_lib s t"
  by (auto simp: lde_send_labelrelease_def bindE_Inr_iff Let_def same_lib_def split: if_splits)

lemma lde_map2fec_prefix:
  "map_type m = MAP_TYPE_PREFIX \<Longrightarrow> lde_map2fec m r = Inr f \<Longrightarrow> is_prefix_fec f"
  by (auto simp: lde_map2fec_def is_prefix_fec_def split: af.splits)

lemma relabel_relabel: "relabel Q l (relabel Q l' nh) = relabel Q l nh" if "\<And>nh l. Q (nh\<lparr>nh_remote_label := l\<rparr>) = Q nh"
  using that by (simp add: relabel_def)

lemma fec_find_update:
  "fec_find (rb_update t f g) x = (if x = f then map_option g (fec_find t f) else fec_find t x)"
  by (simp add: fec_find_def)

lemma mapping_run:
  assumes ln: "rb_find (lde_nbrs s) p = Some ln" and f: "lde_map2fec m (ln_id ln) = Inr f"
    and pre: "is_prefix_fec f" "map_type m \<noteq> MAP_TYPE_PWID" and run: "lde_check_mapping s m p = Inr t"
    and fn: "fec_find (ft (fec_find_or_add s f)) f = Some fn"
  shows "map_option (\<lambda>ln. fec_find (ln_recv_map ln) f) (rb_find (lde_nbrs t) p) = Some (Some m) \<and>
    map_option fn_nexthops (fec_find (ft t) f) =
      Some (map (relabel (owns ln) (map_label m)) (fn_nexthops fn)) \<and>
    map_option fn_local_label (fec_find (ft t) f) = Some (fn_local_label fn) \<and> (\<exists>ms. out t = out s @ ms)"
proof -
  define lre where "lre = (fec_find (ln_sent_req ln) f \<noteq> None)"
  define s2 where "s2 = (if lre then lde_req_del (fec_find_or_add s f) p f True else fec_find_or_add s f)"
  define me where "me = fec_find (ln_recv_map ln) f"
  have s2: "fec_find (ft s2) f = Some fn" "\<exists>ln2. rb_find (lde_nbrs s2) p = Some ln2 \<and>
      ln_addr_list ln2 = ln_addr_list ln \<and> ln_recv_map ln2 = ln_recv_map ln"
    using fn ln by (simp_all add: s2_def lde_req_del_def)
  then obtain ln2 where ln2: "rb_find (lde_nbrs s2) p = Some ln2" "ln_addr_list ln2 = ln_addr_list ln"
    "ln_recv_map ln2 = ln_recv_map ln" by blast
  have owns2: "owns ln2 = owns ln" by (simp add: fun_eq_iff has_address_def ln2(2))
  have "bindE (case me of
               Some old \<Rightarrow>
                 if map_label old \<noteq> map_label m \<and> \<not> lre then
                   bindE (lde_send_labelrelease s2 p (Some f) (map_label old)) (\<lambda>s4.
                   foldE (unuse_nh p f) (nh_positions s4 f) s4)
                 else Inr s2
             | None \<Rightarrow> Inr s2) (\<lambda>s5. bindE (foldE (install_nh m p f) (nh_positions s5 f) s5) (\<lambda>s6.
             Inr (lde_map_set (if me = None then lde_map_add s6 p f False else s6) p f False m))) = Inr t"
    using run unfolding lde_check_mapping_def get_Some(1) [OF ln] f bindE_simps Let_def lre_def [symmetric]
      s2_def [symmetric] me_def [symmetric] if_not_P [OF pre(2)] prod.case by (simp only: if_False)
  then obtain s5 s6 where s5: "(case me of
               Some old \<Rightarrow>
                 if map_label old \<noteq> map_label m \<and> \<not> lre then
                   bindE (lde_send_labelrelease s2 p (Some f) (map_label old)) (\<lambda>s4.
                   foldE (unuse_nh p f) (nh_positions s4 f) s4)
                 else Inr s2
             | None \<Rightarrow> Inr s2) = Inr s5"
    and s6: "foldE (install_nh m p f) (nh_positions s5 f) s5 = Inr s6"
    and t: "t = lde_map_set (if me = None then lde_map_add s6 p f False else s6) p f False m"
    unfolding bindE_Inr_iff by auto
  have out2: "out s2 = out s" by (simp add: s2_def lde_req_del_def fec_find_or_add_def fec_add_def)
  have fn5: "lde_nbrs s5 = lde_nbrs s2 \<and> (\<exists>ms. out s5 = out s2 @ ms) \<and> (\<exists>l. fec_find (ft s5) f = Some (fn\<lparr>fn_nexthops := map (relabel (owns ln) l) (fn_nexthops fn)\<rparr>)
      \<or> fec_find (ft s5) f = Some fn)"
  proof (cases "s5 = s2")
    case False
    with s5 obtain s4 l where s4: "lde_send_labelrelease s2 p (Some f) l = Inr s4"
      "foldE (unuse_nh p f) (nh_positions s4 f) s4 = Inr s5"
      by (auto simp: bindE_Inr_iff split: option.splits if_splits)
    from release_lib [OF s4(1)] have "lde_nbrs s4 = lde_nbrs s2" "fec_find (ft s4) f = Some fn"
      "\<exists>ms. out s4 = out s2 @ ms" using s2(1) by (simp_all add: same_lib_def)
    with label_loop [OF unuse_nh_step [of _ p ln2] this(1) s4(2) this(2)] ln2 owns2 show ?thesis by auto
  qed (simp add: s2)
  then obtain fn' where fn': "fec_find (ft s5) f = Some fn'" "fn_local_label fn' = fn_local_label fn"
      "map (relabel (owns ln) (map_label m)) (fn_nexthops fn') = map (relabel (owns ln) (map_label m)) (fn_nexthops fn)"
    by (auto simp: relabel_relabel)
  from label_loop [OF install_nh_step [of _ p ln2], where N = "lde_nbrs s2", OF _ _ pre(1) _ s6 fn'(1)] fn5 ln2(1)
  have "lde_nbrs s6 = lde_nbrs s2" "\<exists>ms. out s6 = out s5 @ ms" "fec_find (ft s6) f = Some (fn'\<lparr>fn_nexthops := map (relabel (owns ln2) (map_label m)) (fn_nexthops fn')\<rparr>)"
    by auto
  moreover have "out t = out s6" using t by (simp add: lde_map_set_def lde_map_add_def)
  ultimately show ?thesis
    using t ln2 fn'(2,3) owns2 fn5 out2
    by (auto simp: lde_map_set_def lde_map_add_def me_def fec_find_update)
qed

section \<open>A withdraw takes the label out of use\<close>

lemma withdraw_run:
  assumes ln: "rb_find (lde_nbrs s) p = Some ln" and f: "lde_map2fec m (ln_id ln) = Inr f"
    and pre: "is_prefix_fec f" "map_type m \<noteq> MAP_TYPE_PWID" and run: "lde_check_withdraw s m p = Inr t"
    and fn: "fec_find (ft (fec_find_or_add s f)) f = Some fn"
  shows "(\<exists>ln'. rb_find (lde_nbrs t) p = Some ln' \<and> fec_find (ln_recv_map ln') f =
      (case fec_find (ln_recv_map ln) f of Some me \<Rightarrow>
         if map_label m = NO_LABEL \<or> map_label m = map_label me then None else Some me | None \<Rightarrow> None)) \<and>
    map_option fn_nexthops (fec_find (ft t) f) = Some (map (relabel (owns ln) NO_LABEL) (fn_nexthops fn)) \<and>
    ((case f of FEC_IPV4 _ _ \<Rightarrow> ln_v4_enabled ln | _ \<Rightarrow> ln_v6_enabled ln) \<longrightarrow>
      IMSG_RELEASE_ADD p ((lde_fec2map f)\<lparr>map_label := map_label m\<rparr>) \<in> set (out t))"
proof -
  let ?s1 = "fec_find_or_add s f"
  from run ln f pre obtain s2 s3 where s2: "foldE (withdraw_nh p f) (nh_positions ?s1 f) ?s1 = Inr s2"
    and s3: "lde_send_labelrelease s2 p (Some f) (map_label m) = Inr s3"
    and t: "withdraw_recv_map m p f s3 = Inr t"
    by (auto simp: lde_check_withdraw_def Let_def bindE_Inr_iff)
  have "lde_nbrs s2 = lde_nbrs s" "fec_find (ft s2) f =
      Some (fn\<lparr>fn_nexthops := map (relabel (owns ln) NO_LABEL) (fn_nexthops fn)\<rparr>)"
    using label_loop [OF withdraw_nh_step [of _ p ln], where N = "lde_nbrs s", OF _ _ pre(1) _ s2 fn] ln by simp_all
  moreover have "ft s3 = ft s2" "lde_nbrs s3 = lde_nbrs s2" using release_lib [OF s3] by (simp_all add: same_lib_def)
  moreover have "IMSG_RELEASE_ADD p ((lde_fec2map f)\<lparr>map_label := map_label m\<rparr>) \<in> set (out s3)"
    if "case f of FEC_IPV4 _ _ \<Rightarrow> ln_v4_enabled ln | _ \<Rightarrow> ln_v6_enabled ln"
    using s3 ln that pre(1) calculation(1,2)
    by (cases f) (auto simp: lde_send_labelrelease_def nbr_guard_def add_cword_def Let_def is_prefix_fec_def)
  moreover have "out t = out s3" "map_option fn_nexthops (fec_find (ft t) f) = map_option fn_nexthops (fec_find (ft s3) f)"
    using t by (auto simp: withdraw_recv_map_def bindE_Inr_iff lde_map_del_def lde_map_free_def option.map_comp o_def
        split: option.splits if_splits)
  moreover have "\<exists>ln'. rb_find (lde_nbrs t) p = Some ln' \<and> fec_find (ln_recv_map ln') f =
      (case fec_find (ln_recv_map ln) f of Some me \<Rightarrow>
         if map_label m = NO_LABEL \<or> map_label m = map_label me then None else Some me | None \<Rightarrow> None)"
    using t ln calculation(1,4) by (auto simp: withdraw_recv_map_def lde_map_del_def lde_map_free_def
        split: option.splits if_splits)
  ultimately show ?thesis by auto
qed

section \<open>A lost neighbour leaves nothing behind\<close>

fun uses :: "lde_nbr \<Rightarrow> fec \<Rightarrow> fec_nh \<Rightarrow> bool" where
  "uses ln (FEC_PWID _ _ lsr_id) nh = (lsr_id = ln_id ln)"
| "uses ln _ nh = owns ln nh"

lemma nbr_uses_nh_Inr: "nbr_uses_nh ln f nh = Inr b \<Longrightarrow> b = uses ln f nh"
  by (cases f) (auto simp: nbr_uses_nh_def bindE_Inr_iff dest: address_find_Inr)

lemma uninstall_nh_step:
  assumes "rb_find (lde_nbrs s) p = Some ln" "uninstall_nh p f s i = Inr t"
  shows "label_step f i (uses ln f) NO_LABEL s t"
proof -
  from assms obtain nh b where nh: "get_nh s f i = Inr nh" and b: "nbr_uses_nh ln f nh = Inr b"
    and run: "(if \<not> b then Inr s
     else bindE (case f of
                   FEC_PWID _ _ _ \<Rightarrow> bindE (get_fn s f) (\<lambda>fn.
                     Inr (case fn_data fn of None \<Rightarrow> s | Some d \<Rightarrow> l2vpn_pw_reset s d))
                 | _ \<Rightarrow> Inr s) (\<lambda>s1.
          bindE (lde_send_delete_klabel s1 f i) (\<lambda>s2. Inr (set_remote_label s2 f i NO_LABEL)))) = Inr t"
    unfolding uninstall_nh_def get_Some(1) [OF assms(1)] by (auto simp only: bindE_simps bindE_Inr_iff)
  show ?thesis
  proof (cases b)
    case False
    with run nbr_uses_nh_Inr [OF b] show ?thesis using label_step_id [OF _ nh] by auto
  next
    case True
    with run obtain s1 s2 where s1: "(case f of
                   FEC_PWID _ _ _ \<Rightarrow> bindE (get_fn s f) (\<lambda>fn.
                     Inr (case fn_data fn of None \<Rightarrow> s | Some d \<Rightarrow> l2vpn_pw_reset s d))
                 | _ \<Rightarrow> Inr s) = Inr s1"
      and s2: "lde_send_delete_klabel s1 f i = Inr s2" and t: "t = set_remote_label s2 f i NO_LABEL"
      by (auto simp: bindE_Inr_iff)
    have "same_lib s s1" using s1
      by (auto simp: bindE_Inr_iff l2vpn_pw_reset_def same_lib_pw split: fec.splits option.splits)
    then have "same_lib s s2" using send_klabel_lib(2) [OF s2] by (rule same_lib_trans)
    moreover have "uses ln f nh" using nbr_uses_nh_Inr [OF b] True by simp
    ultimately show ?thesis using label_step_set [of s s2 f i nh "uses ln f" NO_LABEL t] nh t by simp
  qed
qed

lemma uninstall_all_run:
  assumes "foldE (\<lambda>s f. foldE (uninstall_nh p f) (nh_positions s f) s) fs s = Inr t"
    and "distinct fs" "rb_find (lde_nbrs s) p = Some ln" "\<forall>f\<in>set fs. fec_find (ft s) f \<noteq> None"
  shows "lde_nbrs t = lde_nbrs s \<and> (\<forall>f. fec_find (ft t) f = map_option (\<lambda>fn.
    if f \<in> set fs then fn\<lparr>fn_nexthops := map (relabel (uses ln f) NO_LABEL) (fn_nexthops fn)\<rparr> else fn) (fec_find (ft s) f))"
  using assms
proof (induction fs arbitrary: s)
  case Nil
  then show ?case by (simp add: option.map_ident)
next
  case (Cons f fs)
  then obtain u where u: "foldE (uninstall_nh p f) (nh_positions s f) s = Inr u"
    "foldE (\<lambda>s f. foldE (uninstall_nh p f) (nh_positions s f) s) fs u = Inr t" by (auto simp: bindE_Inr_iff)
  from Cons.prems obtain fn where fn: "fec_find (ft s) f = Some fn" by auto
  have un: "lde_nbrs u = lde_nbrs s" and fu: "\<And>g. fec_find (ft u) g = (if g = f then
      Some (fn\<lparr>fn_nexthops := map (relabel (uses ln f) NO_LABEL) (fn_nexthops fn)\<rparr>) else fec_find (ft s) g)"
    using label_loop [OF uninstall_nh_step [of _ p ln], where N = "lde_nbrs s", OF _ _ _ u(1) fn] Cons.prems(3) by simp_all
  with Cons.IH [OF u(2)] Cons.prems un have "lde_nbrs t = lde_nbrs s" "fec_find (ft t) g = map_option (\<lambda>fn.
    if g \<in> set fs then fn\<lparr>fn_nexthops := map (relabel (uses ln g) NO_LABEL) (fn_nexthops fn)\<rparr> else fn) (fec_find (ft u) g)" for g
    by auto
  with Cons.prems(2) fn show ?case by (auto simp: fu)
qed

lemma inv_no_ref:
  assumes "lde_inv t" "rb_find (lde_nbrs t) p = None" "fec_find (ft t) f = Some fn"
  shows "p \<notin> set (fn_downstream fn) \<and> p \<notin> set (fn_upstream fn)"
  using inv_node [OF assms(1,3)] assms(2) by (simp add: node_ok_def has_recv_map_def has_sent_map_def)

lemma nbr_del_run:
  assumes inv: "lde_inv s" and ln: "rb_find (lde_nbrs s) p = Some ln" and run: "lde_nbr_del s p = Inr t"
  shows "rb_find (lde_nbrs t) p = None \<and> (\<forall>f fn. fec_find (ft t) f = Some fn \<longrightarrow>
    (\<forall>nh\<in>set (fn_nexthops fn). uses ln f nh \<longrightarrow> nh_remote_label nh = NO_LABEL))"
proof -
  from run ln obtain s1 s2 where s1: "foldE (\<lambda>s f. foldE (uninstall_nh p f) (nh_positions s f) s) (rb_keys (ft s)) s = Inr s1"
    and s2: "lde_nbr_clear_trees (lde_address_list_free s1 p) p = Inr s2"
    and t: "t = s2\<lparr>lde_nbrs := rb_remove (lde_nbrs s2) p\<rparr>"
    by (auto simp: lde_nbr_del_def lde_nbr_find_def bindE_Inr_iff)
  have n1: "lde_nbrs s1 = lde_nbrs s" and f1: "\<And>f. fec_find (ft s1) f = map_option (\<lambda>fn.
      fn\<lparr>fn_nexthops := map (relabel (uses ln f) NO_LABEL) (fn_nexthops fn)\<rparr>) (fec_find (ft s) f)"
    using uninstall_all_run [OF s1 rb.keys_ordered [THEN conjunct2] ln] by (auto simp: in_keys_fec simp del: rb_simps
        intro!: option.map_cong)
  have "rb_find (lde_nbrs (lde_address_list_free s1 p)) p = Some (ln\<lparr>ln_addr_list := []\<rparr>)"
    using ln n1 by (simp add: lde_address_list_free_def)
  then have "map_option fn_nexthops (fec_find (ft s2) f) = map_option fn_nexthops (fec_find (ft s1) f)" for f
    by (rule lde_nbr_clear_trees_spec) (use s2 in \<open>auto simp: lde_address_list_free_def option.map_comp o_def\<close>)
  then have nhs: "map_option fn_nexthops (fec_find (ft t) f) =
      map_option (\<lambda>fn. map (relabel (uses ln f) NO_LABEL) (fn_nexthops fn)) (fec_find (ft s) f)" for f
    by (simp add: t f1 option.map_comp o_def)
  have "fec_find (ft t) f = Some fn \<Longrightarrow> nh \<in> set (fn_nexthops fn) \<Longrightarrow>
      \<exists>nh'. nh = relabel (uses ln f) NO_LABEL nh'" for f fn nh
    using nhs [of f] by (cases "fec_find (ft s) f") auto
  moreover have "uses ln f (relabel (uses ln f) NO_LABEL nh) = uses ln f nh" for f nh
    by (cases f) (simp_all add: relabel_def)
  ultimately show ?thesis by (auto simp: t) (metis relabel_def fec_nh.select_convs(3) fec_nh.update_convs(3) fec_nh.surjective)
qed

section \<open>The garbage collector\<close>

lemma lde_gc_timer_find:
  "fec_find (ft (lde_gc_timer s)) f =
     (case fec_find (ft s) f of None \<Rightarrow> None | Some fn \<Rightarrow> if gc_dead fn then None else Some fn)"
proof -
  let ?g = "\<lambda>s f. case fec_find (ft s) f of
      Some fn \<Rightarrow> if gc_dead fn then s\<lparr>ft := fst (fec_remove (ft s) f)\<rparr> else s | None \<Rightarrow> s"
  have "fec_find (ft (foldl ?g s fs)) f = (if f \<in> set fs
      then (case fec_find (ft s) f of None \<Rightarrow> None | Some fn \<Rightarrow> if gc_dead fn then None else Some fn)
      else fec_find (ft s) f)" for fs
    by (induction fs arbitrary: s) (auto split: option.split)
  then show ?thesis
    by (simp add: lde_gc_timer_def in_keys_fec del: rb_simps split: option.split)
qed

section \<open>Labels\<close>

text \<open>The labels of the first \<open>n\<close> calls of \<^verbatim>\<open>lde_assign_label\<close>.\<close>

fun assign_labels :: "lde \<Rightarrow> nat \<Rightarrow> u32 list" where
  "assign_labels s 0 = []"
| "assign_labels s (Suc n) = (let (s', l) = lde_assign_label s in l # assign_labels s' n)"

lemma assign_labels_eq: "assign_labels s n = map (\<lambda>i. last_label s + of_nat (Suc i)) [0..<n]"
proof (induction n arbitrary: s)
  case (Suc n)
  have "assign_labels s (Suc n) = (last_label s + 1) # map (\<lambda>i. last_label s + 1 + of_nat (Suc i)) [0..<n]"
    using Suc [of "s\<lparr>last_label := last_label s + 1\<rparr>"] by (simp add: lde_assign_label_def Let_def)
  also have "\<dots> = map (\<lambda>i. last_label s + of_nat (Suc i)) (0 # map Suc [0..<n])"
    by (simp add: add.assoc)
  finally show ?case by (simp add: map_Suc_upt upt_conv_Cons del: upt_Suc)
qed simp

section \<open>Sending a mapping\<close>

definition enabled :: "lde_nbr \<Rightarrow> fec \<Rightarrow> bool" where
  "enabled ln f \<longleftrightarrow> (case f of FEC_IPV4 _ _ \<Rightarrow> ln_v4_enabled ln | FEC_IPV6 _ _ \<Rightarrow> ln_v6_enabled ln | _ \<Rightarrow> False)"

lemma send_mapping_prefix:
  assumes ln: "rb_find (lde_nbrs s) p = Some ln" and fn: "fec_find (ft s) f = Some fn"
    and pre: "is_prefix_fec f" and run: "lde_send_labelmapping s p f single = Inr t"
  shows "if enabled ln f then
      let m = (case fec_find (ln_recv_req ln) f of
           Some i \<Rightarrow> (lde_fec2map f)\<lparr>map_label := fn_local_label fn, map_requestid := i, map_flags := F_MAP_REQ_ID\<rparr>
         | None \<Rightarrow> (lde_fec2map f)\<lparr>map_label := fn_local_label fn\<rparr>)
      in out t = out s @ IMSG_MAPPING_ADD p m # (if single then [IMSG_MAPPING_ADD_END p] else []) \<and>
         map_option (\<lambda>ln. (fec_find (ln_recv_req ln) f, fec_find (ln_sent_map ln) f)) (rb_find (lde_nbrs t) p) =
           Some (None, Some m)
    else t = s"
  using assms
  by (cases f; cases "fec_find (ln_recv_req ln) f")
    (auto simp: lde_send_labelmapping_def nbr_guard_def map_pw_flags_def enabled_def is_prefix_fec_def Let_def
      lde_req_del_def lde_map_add_def lde_map_set_def fec_find_update)

definition map_frame :: "u32 \<Rightarrow> lde \<Rightarrow> lde \<Rightarrow> bool" where
  "map_frame p s t \<longleftrightarrow>
     (\<forall>g. map_option fn_local_label (fec_find (ft t) g) = map_option fn_local_label (fec_find (ft s) g)) \<and>
     (\<forall>q. q \<noteq> p \<longrightarrow> rb_find (lde_nbrs t) q = rb_find (lde_nbrs s) q) \<and> (\<exists>ms. out t = out s @ ms)"

lemma map_frame_refl: "map_frame p s s"
  by (simp add: map_frame_def)

lemma map_frame_rules:
  "map_frame p s t \<Longrightarrow> map_frame p s (emit t m)"
  "map_frame p s t \<Longrightarrow> map_frame p s (lde_req_del t p f b)"
  "map_frame p s t \<Longrightarrow> map_frame p s (lde_map_add t p f True)"
  "map_frame p s t \<Longrightarrow> map_frame p s (lde_map_set t p f True mm)"
  by (auto simp: map_frame_def lde_req_del_def lde_map_add_def lde_map_set_def option.map_comp o_def)

lemma send_mapping_frame:
  assumes "lde_send_labelmapping s p f single = Inr t"
  shows "map_frame p s t"
proof -
  from assms obtain ln fn go pwo where ln: "get_ln s p = Inr ln" "get_fn s f = Inr fn"
    "nbr_guard s ln f fn = Inr (go, pwo)"
    by (auto simp: lde_send_labelmapping_def bindE_Inr_iff)
  show ?thesis
  proof (cases go)
    case True
    with assms ln obtain m0 where "map_pw_flags s pwo (lde_fec2map f) = Inr m0"
      unfolding lde_send_labelmapping_def by (auto simp: bindE_Inr_iff simp del: get_simps)
    with assms ln True show ?thesis
      unfolding lde_send_labelmapping_def Let_def
      by (cases "fec_find (ln_recv_req ln) f"; cases "fec_find (ln_sent_map ln) f"; cases single)
        (auto simp del: get_simps intro!: map_frame_rules map_frame_refl)
  next
    case False
    with assms ln show ?thesis unfolding lde_send_labelmapping_def by (simp add: map_frame_refl del: get_simps)
  qed
qed

lemma announce_all:
  assumes "foldE (\<lambda>s p. lde_send_labelmapping s p f True) ps s = Inr t" "distinct ps"
    and "is_prefix_fec f" "map_option fn_local_label (fec_find (ft s) f) = Some l"
    and "p \<in> set ps" "rb_find (lde_nbrs s) p = Some ln" "enabled ln f" "fec_find (ln_recv_req ln) f = None"
  shows "IMSG_MAPPING_ADD p ((lde_fec2map f)\<lparr>map_label := l\<rparr>) \<in> set (out t)"
  using assms
proof (induction ps arbitrary: s)
  case (Cons q ps)
  from Cons.prems(1) obtain u where u: "lde_send_labelmapping s q f True = Inr u"
    "foldE (\<lambda>s p. lde_send_labelmapping s p f True) ps u = Inr t" by (auto simp: bindE_Inr_iff)
  note fr = send_mapping_frame [OF u(1), unfolded map_frame_def]
  show ?case
  proof (cases "p = q")
    case True
    from Cons.prems(4) obtain fn where fn: "fec_find (ft s) f = Some fn" "fn_local_label fn = l" by auto
    with send_mapping_prefix [OF _ fn(1) Cons.prems(3), of p ln True u] Cons.prems True u(1)
    have "IMSG_MAPPING_ADD p ((lde_fec2map f)\<lparr>map_label := l\<rparr>) \<in> set (out u)" by (simp add: Let_def)
    moreover have "\<exists>ms. out t = out u @ ms"
      using u(2)
    proof (induction ps arbitrary: u)
      case (Cons r rs)
      then obtain v where v: "lde_send_labelmapping u r f True = Inr v"
        "foldE (\<lambda>s p. lde_send_labelmapping s p f True) rs v = Inr t" by (auto simp: bindE_Inr_iff)
      from Cons.IH [OF v(2)] send_mapping_frame [OF v(1)] show ?case by (auto simp: map_frame_def)
    qed simp
    ultimately show ?thesis by auto
  next
    case False
    with Cons.prems fr show ?thesis by (intro Cons.IH [OF u(2)]) auto
  qed
qed simp

lemma bindE_InrE:
  assumes "bindE m f = Inr y"
  obtains x where "m = Inr x" "f x = Inr y"
  using assms by (auto simp: bindE_Inr_iff)

lemma announce_loop_keeps:
  assumes "lde_inv s" "fec_valid s f"
  shows "okE (foldE (\<lambda>s p. lde_send_labelmapping s p f True) (rb_keys (lde_nbrs s)) s) (keeps s)"
  using assms
  by (intro okE_keeps_foldE lde_send_labelmapping_keeps)
    (auto simp: keys_valid keeps_valid simp del: rb_simps intro: keeps_inv)

lemma announce_frame:
  assumes "foldE (\<lambda>s p. lde_send_labelmapping s p f True) ps s = Inr t"
  shows "map_option fn_local_label (fec_find (ft t) g) = map_option fn_local_label (fec_find (ft s) g)"
  using assms
proof (induction ps arbitrary: s)
  case (Cons q ps)
  then obtain u where u: "lde_send_labelmapping s q f True = Inr u"
    "foldE (\<lambda>s p. lde_send_labelmapping s p f True) ps u = Inr t" by (auto simp: bindE_Inr_iff)
  from Cons.IH [OF u(2)] send_mapping_frame [OF u(1)] show ?case by (simp add: map_frame_def)
qed simp

lemma reapply_run:
  assumes inv: "lde_inv s" and pre: "is_prefix_fec f" and fn: "fec_find (ft s) f = Some fn"
    and run: "bindE (case f of FEC_PWID _ _ lsr_id \<Rightarrow> Inr (lde_nbr_find_by_lsrid s lsr_id)
               | _ \<Rightarrow> lde_nbr_find_by_addr s af nexthop) (\<lambda>lno.
        case lno of
          None \<Rightarrow> Inr s
        | Some p \<Rightarrow>
            bindE (get_ln s p) (\<lambda>ln.
            case fec_find (ln_recv_map ln) f of
              None \<Rightarrow> Inr s
            | Some m \<Rightarrow> lde_check_mapping s m p)) = Inr t"
  shows "map_option fn_local_label (fec_find (ft t) f) = Some (fn_local_label fn) \<and> (\<exists>ms. out t = out s @ ms)"
proof (cases "t = s")
  case False
  with run obtain p ln m where ln: "rb_find (lde_nbrs s) p = Some ln" and m: "fec_find (ln_recv_map ln) f = Some m"
    and t: "lde_check_mapping s m p = Inr t"
    by (auto simp: bindE_Inr_iff split: option.splits)
  have f: "lde_map2fec m (ln_id ln) = Inr f" using inv ln m unfolding lde_inv_def recv_ok_def by blast
  then have "map_type m \<noteq> MAP_TYPE_PWID" using pre by (auto simp: lde_map2fec_def is_prefix_fec_def const_defs)
  moreover have "fec_find (ft (fec_find_or_add s f)) f = Some fn" by (simp add: fec_find_or_add_def fn)
  ultimately show ?thesis using mapping_run [OF ln f pre _ t] by auto
qed (simp add: fn)

lemma kernel_insert_run:
  assumes inv: "lde_inv s" and pre: "is_prefix_fec f" and new: "fec_find (ft s) f = None" and af: "af \<noteq> AF_UNSPEC"
    and run: "lde_kernel_insert s f af nexthop prio connected None = Inr t"
  shows "\<exists>l. (if connected then egress_label s (fec_get_type f) = Inr l else l = last_label s + 1) \<and>
    map_option fn_local_label (fec_find (ft t) f) = Some l \<and>
    (\<forall>p ln. rb_find (lde_nbrs s) p = Some ln \<and> enabled ln f \<and> fec_find (ln_recv_req ln) f = None \<longrightarrow>
      IMSG_MAPPING_ADD p ((lde_fec2map f)\<lparr>map_label := l\<rparr>) \<in> set (out t))"
proof -
  let ?s1 = "fec_add s f"
  have s1: "fec_find_or_add s f = ?s1" "fec_find (ft ?s1) f = Some empty_node"
    using new by (simp_all add: fec_find_or_add_def fec_add_def)
  have inv1: "lde_inv ?s1" "fec_valid ?s1 f" using fec_find_or_add_inv [OF inv, of f] s1(1) by simp_all
  have c2: "(case f of FEC_PWID _ _ _ \<Rightarrow> upd_fn ?s1 f (\<lambda>fn. fn\<lparr>fn_data := None\<rparr>) | _ \<Rightarrow> ?s1) = ?s1"
    using pre by (cases f) (simp_all add: is_prefix_fec_def)
  have nh0: "fec_nh_find empty_node af nexthop prio = Inr None" by (simp add: fec_nh_find_def empty_node_def)
  have nl: "fn_local_label empty_node = NO_LABEL" by (simp add: empty_node_def)
  define R where "R = (\<lambda>s7. bindE (case f of FEC_PWID _ _ lsr_id \<Rightarrow> Inr (lde_nbr_find_by_lsrid s7 lsr_id)
               | _ \<Rightarrow> lde_nbr_find_by_addr s7 af nexthop) (\<lambda>lno.
        case lno of
          None \<Rightarrow> Inr s7
        | Some p \<Rightarrow>
            bindE (get_ln s7 p) (\<lambda>ln.
            case fec_find (ln_recv_map ln) f of
              None \<Rightarrow> Inr s7
            | Some m \<Rightarrow> lde_check_mapping s7 m p)))"
  from run obtain s3 l s5 s7 where
    l: "(if connected then bindE (egress_label ?s1 (fec_get_type f)) (\<lambda>l. Inr (?s1, l)) else Inr (lde_assign_label ?s1)) = Inr (s3, l)"
    and s5: "foldE (\<lambda>s p. lde_send_labelmapping s p f True) (rb_keys (lde_nbrs (upd_fn s3 f (\<lambda>fn. fn\<lparr>fn_local_label := l\<rparr>))))
        (upd_fn s3 f (\<lambda>fn. fn\<lparr>fn_local_label := l\<rparr>)) = Inr s5"
    and s7: "lde_send_change_klabel (fec_nh_add s5 f af nexthop prio) f 0 = Inr s7"
    and t: "R s7 = Inr t"
    unfolding lde_kernel_insert_def Let_def s1(1) get_Some(2) [OF s1(2)] bindE_simps nh0 c2 nl simp_thms if_True if_False
      R_def [symmetric]
    by (auto simp only: bindE_Inr_iff [of "bindE _ _"] bindE_Inr_iff [of "if _ then _ else _"]
        bindE_Inr_iff [of "lde_send_change_klabel _ _ _"] split_paired_Ex prod.case)
  have el: "egress_label ?s1 = egress_label s"
    by (simp add: fun_eq_iff egress_label_def fec_add_def split: fec_type.split)
  have fa: "lde_nbrs ?s1 = lde_nbrs s" "last_label ?s1 = last_label s" by (simp_all add: fec_add_def)
  have s3: "lde_nbrs s3 = lde_nbrs s" "ft s3 = ft ?s1" "lde_inv s3"
    "if connected then egress_label s (fec_get_type f) = Inr l else l = last_label s + 1"
    using l inv1(1) keeps_inv [OF inv1(1) keeps_assign_label [OF keeps_refl]]
    by (auto simp: bindE_Inr_iff el lde_assign_label_def Let_def fa split: if_splits)
  let ?s4 = "upd_fn s3 f (\<lambda>fn. fn\<lparr>fn_local_label := l\<rparr>)"
  have l4: "map_option fn_local_label (fec_find (ft ?s4) f) = Some l" using s3(2) s1(2) by simp
  have l5: "map_option fn_local_label (fec_find (ft s5) f) = Some l" using announce_frame [OF s5] l4 by simp
  note s7' = send_klabel_lib(1) [OF s7]
  have ann: "IMSG_MAPPING_ADD p ((lde_fec2map f)\<lparr>map_label := l\<rparr>) \<in> set (out s7)"
    if "rb_find (lde_nbrs s) p = Some ln" "enabled ln f" "fec_find (ln_recv_req ln) f = None" for p ln
  proof -
    have "IMSG_MAPPING_ADD p ((lde_fec2map f)\<lparr>map_label := l\<rparr>) \<in> set (out s5)"
      using announce_all [OF s5 rb.keys_ordered [THEN conjunct2] pre l4, of p ln] that s3(1) by simp
    with s7' show ?thesis by (auto simp: same_lib_def fec_nh_add_def)
  qed
  obtain fn7 where fn7: "fec_find (ft s7) f = Some fn7" "fn_local_label fn7 = l"
    using l5 s7' by (auto simp: same_lib_def fec_nh_add_def)
  have "lde_inv ?s4" "fec_valid ?s4 f"
    using keeps_inv [OF s3(3)] s3(2) inv1(2) by (auto intro: keeps_local_label simp: fec_valid_def)
  then have inv5: "lde_inv s5" "fec_valid s5 f"
    using announce_loop_keeps [of ?s4 f] s5 by (auto simp: keeps_valid intro: keeps_inv)
  have "lde_inv (fec_nh_add s5 f af nexthop prio)"
    using inv5(1) af pre by (intro fec_nh_add_inv) (simp_all add: is_prefix_fec_def)
  moreover have "nh_valid (fec_nh_add s5 f af nexthop prio) f 0"
    using inv5(2) by (auto simp: nh_valid_def fec_nh_add_def fec_valid_def)
  ultimately have "lde_inv s7"
    using lde_send_change_klabel_keeps s7 keeps_inv by (metis okE_Inr)
  from reapply_run [OF this pre fn7(1) t [unfolded R_def]] ann fn7(2) s3(4) show ?thesis by (intro exI [of _ l]) auto
qed

section \<open>Requests\<close>

lemma lde_nbr_is_nexthop_eq:
  assumes "lde_inv s" "fec_find (ft s) f = Some fn"
  shows "lde_nbr_is_nexthop fn ln = Inr (\<exists>nh\<in>set (fn_nexthops fn). owns ln nh)"
proof -
  have "findE (\<lambda>nh. bindE (lde_address_find ln (nh_af nh) (nh_nexthop nh)) (\<lambda>r. Inr (r \<noteq> None))) (fn_nexthops fn) =
      Inr (find (owns ln) (fn_nexthops fn))"
    using inv_node [OF assms]
    by (intro findE_total) (simp add: node_ok_def lde_address_find_has_address [where f = Inr] del: not_None_eq)
  moreover have "find (owns ln) xs \<noteq> None \<longleftrightarrow> (\<exists>x\<in>set xs. owns ln x)" for xs
    by (auto simp: find_None_iff simp del: not_None_eq)
  ultimately show ?thesis by (simp add: lde_nbr_is_nexthop_def del: not_None_eq)
qed

lemma request_run:
  assumes inv: "lde_inv s" and ln: "rb_find (lde_nbrs s) p = Some ln" and f: "lde_map2fec m (ln_id ln) = Inr f"
    and pre: "is_prefix_fec f" and fn: "fec_find (ft s) f = Some fn" and run: "lde_check_request s m p = Inr t"
  shows "if fn_nexthops fn = [] then t = lde_send_notification s p S_NO_ROUTE (map_msg_id m) (ntohs MSG_TYPE_LABELREQUEST)
     else if \<exists>nh\<in>set (fn_nexthops fn). owns ln nh
     then t = lde_send_notification s p S_LOOP_DETECTED (map_msg_id m) (ntohs MSG_TYPE_LABELREQUEST)
     else if fec_find (ln_recv_req ln) f \<noteq> None then t = s
     else enabled ln f \<longrightarrow>
       out t = out s @ [IMSG_MAPPING_ADD p ((lde_fec2map f)\<lparr>map_label := fn_local_label fn,
         map_requestid := ntohl (map_msg_id m), map_flags := F_MAP_REQ_ID\<rparr>), IMSG_MAPPING_ADD_END p] \<and>
       map_option (\<lambda>ln. fec_find (ln_recv_req ln) f) (rb_find (lde_nbrs t) p) = Some None"
proof -
  have loop: "(case f of FEC_PWID _ _ _ \<Rightarrow> Inr False | _ \<Rightarrow> lde_nbr_is_nexthop fn ln) =
      Inr (\<exists>nh\<in>set (fn_nexthops fn). owns ln nh)"
    using pre lde_nbr_is_nexthop_eq [OF inv fn, of ln] by (cases f) (simp_all add: is_prefix_fec_def)
  show ?thesis
  proof (cases "fn_nexthops fn = [] \<or> (\<exists>nh\<in>set (fn_nexthops fn). owns ln nh) \<or> fec_find (ln_recv_req ln) f \<noteq> None")
    case True
    then show ?thesis
      using run unfolding lde_check_request_def get_Some(1) [OF ln] f bindE_simps fn option.case loop
      by (auto split: if_splits)
  next
    case False
    let ?ln = "ln\<lparr>ln_recv_req := rb_update (fst (fec_insert (ln_recv_req ln) f 0)) f (\<lambda>_. ntohl (map_msg_id m))\<rparr>"
    obtain u where u: "lde_send_labelmapping u p f True = Inr t" "out u = out s" "ft u = ft s"
      "rb_find (lde_nbrs u) p = Some ?ln"
      using run False ln fec_insert_code [of "ln_recv_req ln" f 0] unfolding lde_check_request_def get_Some(1) [OF ln] f bindE_simps fn option.case loop
      by (auto simp: lde_req_add_def lde_req_set_def Let_def split_beta split: if_splits)
    have "fec_find (ln_recv_req ?ln) f = Some (ntohl (map_msg_id m))" using False by (simp add: fec_find_update)
    then have "enabled ln f \<longrightarrow>
       out t = out s @ [IMSG_MAPPING_ADD p ((lde_fec2map f)\<lparr>map_label := fn_local_label fn,
         map_requestid := ntohl (map_msg_id m), map_flags := F_MAP_REQ_ID\<rparr>), IMSG_MAPPING_ADD_END p] \<and>
       map_option (\<lambda>ln. fec_find (ln_recv_req ln) f) (rb_find (lde_nbrs t) p) = Some None"
      using send_mapping_prefix [OF u(4) _ pre u(1)] fn u(2,3)
      by (auto simp: enabled_def Let_def option.map_comp o_def split: fec.splits)
    with False show ?thesis by auto
  qed
qed

section \<open>Pseudowires\<close>

lemma pw_ok_run:
  assumes "l2vpn_pw_ok s pw nh = Inr True"
  shows "\<exists>l lsp. l2vpns s (pw_l2vpn pw) = Some l \<and> l2_mtu l = uint (pw_remote_mtu pw) \<and>
    (has_flag (pw_flags pw) F_PW_STATUSTLV \<longrightarrow> pw_remote_status pw = PW_FORWARDING) \<and>
    fec_find (ft s) (if pw_af pw = AF_INET then FEC_IPV4 (v4 (pw_addr pw)) 32 else FEC_IPV6 (pw_addr pw) 128) = Some lsp \<and>
    fn_local_label lsp \<noteq> NO_LABEL \<and> (\<forall>nh\<in>set (fn_nexthops lsp). nh_remote_label nh \<noteq> NO_LABEL)"
  using assms
  by (cases "pw_af pw") (auto simp: l2vpn_pw_ok_def bindE_Inr_iff split: if_splits option.splits)

lemma change_pw_run:
  assumes "change_klabel_pw s f i = Inr t" "get_nh s f i = Inr nh" "map_option fn_data (fec_find (ft s) f) = Some (Some d)"
    "pws s d = Some pw"
  shows "t = s \<or> (ft t = ft s \<and> l2vpns t = l2vpns s \<and> pws t d = Some (pw\<lparr>pw_flags := set_flag (pw_flags pw) F_PW_STATUS_UP\<rparr>) \<and>
    (\<exists>k. out t = out s @ [IMSG_KPWLABEL_CHANGE k] \<and> kpw_local_label k \<noteq> NO_LABEL \<and> kpw_remote_label k \<noteq> NO_LABEL))"
  using assms
  by (auto simp: change_klabel_pw_def fn_pw_def bindE_Inr_iff Let_def kpw_of_def split: if_splits)

lemma install_pw_run:
  assumes v: "nh_valid s f i" "fec_get_type f = FEC_TYPE_PWID" and run: "install_nh m p f s i = Inr t"
  shows "t = s \<or> (\<exists>s4 d pw nh ok. out s4 = out s \<and> pws s4 d = Some pw \<and> get_nh s4 f i = Inr nh \<and>
    l2vpn_pw_ok s4 pw nh = Inr ok \<and> (if ok then change_klabel_pw s4 f i else Inr s4) = Inr t \<and>
    map_option fn_data (fec_find (ft s4) f) = Some (Some d))"
proof -
  from nh_validE [OF v(1)] obtain fn where fn: "fec_find (ft s) f = Some fn" "get_nh s f i = Inr (fn_nexthops fn ! i)" by metis
  have fold: "lde_send_change_klabel s f i = change_klabel_pw s f i" for s
    using v(2) by (cases f) (simp_all add: lde_send_change_klabel_def)
  show ?thesis
  proof (cases "fn_data fn")
    case None
    with run v fn show ?thesis by (cases f) (auto simp: install_nh_def)
  next
    case (Some d)
    define s3 where "s3 = (let s1 = upd_pw s d (\<lambda>pw. pw\<lparr>pw_remote_group := map_group_id m\<rparr>);
                 s2 = (if has_flag (map_flags m) F_MAP_PW_IFMTU
                       then upd_pw s1 d (\<lambda>pw. pw\<lparr>pw_remote_mtu := map_ifmtu m\<rparr>) else s1)
             in if has_flag (map_flags m) F_MAP_PW_STATUS
                       then upd_pw s2 d (\<lambda>pw. pw\<lparr>pw_remote_status := map_pw_status m\<rparr>) else s2)"
    let ?s4 = "set_remote_label s3 f i (map_label m)"
    have s3: "out s3 = out s" "ft s3 = ft s" by (simp_all add: s3_def Let_def)
    from run v(2) fn Some have "bindE (get_pw ?s4 d) (\<lambda>pw. bindE (get_nh ?s4 f i) (\<lambda>fnh.
        bindE (l2vpn_pw_ok ?s4 pw fnh) (\<lambda>ok. if ok then lde_send_change_klabel ?s4 f i else Inr ?s4))) = Inr t"
      by (cases f) (simp_all add: install_nh_def s3_def Let_def split del: if_split cong: if_cong)
    then obtain pw nh ok where "pws ?s4 d = Some pw" "get_nh ?s4 f i = Inr nh" "l2vpn_pw_ok ?s4 pw nh = Inr ok"
      "(if ok then change_klabel_pw ?s4 f i else Inr ?s4) = Inr t"
      unfolding fold bindE_Inr_iff by auto
    moreover have "out ?s4 = out s" "map_option fn_data (fec_find (ft ?s4) f) = Some (Some d)"
      using s3 fn Some by (simp_all add: set_remote_label_def upd_nh_def)
    ultimately show ?thesis by blast
  qed
qed

end
