(* ===== verification/Lde_Theorems.thy ===== *)
theory Lde_Theorems
  imports Lde_Props
begin

text \<open>
  The properties of the label decision engine, over the definitions of \<open>Lde_State\<close>, \<open>Lde_Send\<close>,
  \<open>Lde_Lib\<close> and \<open>Lde_Dispatch\<close>, each with an instance on a small state: one neighbour that owns
  the next hop of one route.
\<close>

section \<open>A small state\<close>

definition demo_fec :: fec where
  "demo_fec = FEC_IPV4 0x0000a8c0 24"

definition demo_nh :: fec_nh where
  "demo_nh = \<lparr>nh_af = AF_INET, nh_nexthop = of_v4 0x0100000a, nh_remote_label = NO_LABEL, nh_priority = 8\<rparr>"

definition demo_nbr :: lde_nbr where
  "demo_nbr = \<lparr>ln_id = 0x01010101, ln_v4_enabled = True, ln_v6_enabled = False, ln_recv_req = fec_init,
     ln_sent_req = fec_init, ln_recv_map = fec_init, ln_sent_map = fec_init, ln_sent_wdraw = fec_init,
     ln_addr_list = [\<lparr>la_af = AF_INET, la_addr = of_v4 0x0100000a\<rparr>]\<rparr>"

definition demo_node :: fec_node where
  "demo_node = \<lparr>fn_nexthops = [demo_nh], fn_downstream = [], fn_upstream = [], fn_local_label = 16, fn_data = None\<rparr>"

definition demo_lde :: lde where
  "demo_lde = (lde_start (\<lambda>_. None) (\<lambda>_. None) [] 0 0)
     \<lparr>ft := fst (fec_insert fec_init demo_fec demo_node), lde_nbrs := fst (rb_insert rb_init 7 demo_nbr)\<rparr>"

definition demo_map :: map_msg where
  "demo_map = (lde_fec2map demo_fec)\<lparr>map_label := 42, map_msg_id := 1\<rparr>"

lemma demo_find [simp]:
  "rb_find (lde_nbrs demo_lde) p = (if p = 7 then Some demo_nbr else None)"
  "fec_find (ft demo_lde) f = (if f = demo_fec then Some demo_node else None)"
  "pws demo_lde = (\<lambda>_. None)" "l2vpns demo_lde = (\<lambda>_. None)" "l2vpn_list demo_lde = []"
  by (simp_all add: demo_lde_def lde_start_def)

lemma demo_inv: "lde_inv demo_lde"
proof -
  have "has_recv_map demo_lde p f = False" "has_sent_map demo_lde p f = False" for p f
    by (simp_all add: has_recv_map_def has_sent_map_def demo_nbr_def)
  then show ?thesis
    by (auto simp: lde_inv_def node_ok_def conf_ok_def recv_ok_def demo_nbr_def demo_node_def demo_nh_def demo_fec_def)
qed

lemma demo_map2fec: "lde_map2fec demo_map (ln_id demo_nbr) = Inr demo_fec"
  by (simp add: demo_map_def demo_fec_def lde_fec2map_def lde_map2fec_def const_defs)

section \<open>Safety\<close>



section \<open>Mappings and withdraws\<close>

text \<open>
  C12: a label mapping for a prefix is processed without a fault and kept (liberal retention): the
  neighbour's tree of received mappings holds the message under its class, the class node lists
  the neighbour, and every next hop of the class whose address belongs to the neighbour uses the
  received label.
\<close>

theorem mapping_installed:
  assumes inv: "lde_inv s" and ln: "rb_find (lde_nbrs s) p = Some ln"
    and m: "map_type m = MAP_TYPE_PREFIX" "lde_map2fec m (ln_id ln) = Inr f"
  shows "\<exists>t ln' fn. lde_check_mapping s m p = Inr t \<and> lde_inv t \<and> rb_find (lde_nbrs t) p = Some ln' \<and>
    fec_find (ln_recv_map ln') f = Some m \<and> fec_find (ft t) f = Some fn \<and> p \<in> set (fn_downstream fn) \<and>
    (\<forall>nh\<in>set (fn_nexthops fn). has_address ln (nh_af nh) (nh_nexthop nh) \<longrightarrow> nh_remote_label nh = map_label m)"
proof -
  have "map_ok m" using m by (auto simp: map_ok_def lde_map2fec_def)
  with inv ln obtain t where t: "lde_check_mapping s m p = Inr t" "lde_inv t"
    using lde_check_mapping_inv [OF inv, of p m] by (auto simp: okE_def nbr_valid_def)
  obtain fn where fn: "fec_find (ft (fec_find_or_add s f)) f = Some fn"
    using fec_find_or_add_inv [OF inv, of f] by (auto simp: fec_valid_def)
  have "map_type m \<noteq> MAP_TYPE_PWID" using m(1) by (simp add: const_defs)
  from mapping_run [OF ln m(2) lde_map2fec_prefix [OF m] this t(1) fn] obtain ln' fn' where
    *: "rb_find (lde_nbrs t) p = Some ln'" "fec_find (ln_recv_map ln') f = Some m" "fec_find (ft t) f = Some fn'"
      "fn_nexthops fn' = map (relabel (owns ln) (map_label m)) (fn_nexthops fn)" by auto
  have "p \<in> set (fn_downstream fn')"
    using inv_node [OF t(2) *(3)] *(1,2) by (simp add: node_ok_def has_recv_map_def)
  with t * show ?thesis by (auto simp: relabel_def)
qed

theorem mapping_installed_witness:
  "\<exists>t ln' fn. lde_check_mapping demo_lde demo_map 7 = Inr t \<and> lde_inv t \<and> rb_find (lde_nbrs t) 7 = Some ln' \<and>
    fec_find (ln_recv_map ln') demo_fec = Some demo_map \<and> fec_find (ft t) demo_fec = Some fn \<and>
    7 \<in> set (fn_downstream fn) \<and>
    (\<forall>nh\<in>set (fn_nexthops fn). has_address demo_nbr (nh_af nh) (nh_nexthop nh) \<longrightarrow> nh_remote_label nh = map_label demo_map)"
  by (rule mapping_installed [OF demo_inv])
    (simp_all add: demo_map2fec, simp add: demo_map_def demo_fec_def lde_fec2map_def)

text \<open>
  C13: a label withdraw for a prefix is processed without a fault: the received mapping is forgotten
  if the withdraw carries its label or no label, every next hop of the class that belongs to the
  neighbour has no label any more, and the neighbour is sent a label release for the class if it
  is enabled for the address family.
\<close>

theorem withdraw_uninstalls:
  assumes inv: "lde_inv s" and ln: "rb_find (lde_nbrs s) p = Some ln"
    and m: "map_type m = MAP_TYPE_PREFIX" "lde_map2fec m (ln_id ln) = Inr f"
  shows "\<exists>t ln' fn. lde_check_withdraw s m p = Inr t \<and> lde_inv t \<and> rb_find (lde_nbrs t) p = Some ln' \<and>
    fec_find (ln_recv_map ln') f = (case fec_find (ln_recv_map ln) f of Some me \<Rightarrow>
      if map_label m = NO_LABEL \<or> map_label m = map_label me then None else Some me | None \<Rightarrow> None) \<and>
    fec_find (ft t) f = Some fn \<and>
    (\<forall>nh\<in>set (fn_nexthops fn). has_address ln (nh_af nh) (nh_nexthop nh) \<longrightarrow> nh_remote_label nh = NO_LABEL) \<and>
    ((case f of FEC_IPV4 _ _ \<Rightarrow> ln_v4_enabled ln | _ \<Rightarrow> ln_v6_enabled ln) \<longrightarrow>
      IMSG_RELEASE_ADD p ((lde_fec2map f)\<lparr>map_label := map_label m\<rparr>) \<in> set (out t))"
proof -
  have "map_ok m" using m by (auto simp: map_ok_def lde_map2fec_def)
  with inv ln obtain t where t: "lde_check_withdraw s m p = Inr t" "lde_inv t"
    using lde_check_withdraw_inv [OF inv, of p m] by (auto simp: okE_def nbr_valid_def)
  obtain fn where fn: "fec_find (ft (fec_find_or_add s f)) f = Some fn"
    using fec_find_or_add_inv [OF inv, of f] by (auto simp: fec_valid_def)
  have "map_type m \<noteq> MAP_TYPE_PWID" using m(1) by (simp add: const_defs)
  note run = withdraw_run [OF ln m(2) lde_map2fec_prefix [OF m] this t(1) fn]
  then obtain fn' where "fec_find (ft t) f = Some fn'"
    "fn_nexthops fn' = map (relabel (owns ln) NO_LABEL) (fn_nexthops fn)" by auto
  with run t show ?thesis by (auto simp: relabel_def)
qed

theorem withdraw_uninstalls_witness:
  "\<exists>t ln' fn. lde_check_withdraw demo_lde demo_map 7 = Inr t \<and> lde_inv t \<and> rb_find (lde_nbrs t) 7 = Some ln' \<and>
    fec_find (ln_recv_map ln') demo_fec = None \<and> fec_find (ft t) demo_fec = Some fn \<and>
    IMSG_RELEASE_ADD 7 ((lde_fec2map demo_fec)\<lparr>map_label := 42\<rparr>) \<in> set (out t)"
proof -
  have "map_type demo_map = MAP_TYPE_PREFIX" by (simp add: demo_map_def demo_fec_def lde_fec2map_def)
  from withdraw_uninstalls [OF demo_inv _ this demo_map2fec, of 7] show ?thesis
    by (auto simp: demo_nbr_def demo_fec_def demo_map_def)
qed

text \<open>
  C16: when a session goes down the neighbour is removed without a fault and leaves nothing behind:
  no class node refers to it any more, and no next hop that was resolved through it (by address,
  or by lsr-id for a pseudowire) keeps a remote label.
\<close>

theorem nbr_del_clean:
  assumes inv: "lde_inv s" and ln: "rb_find (lde_nbrs s) p = Some ln"
  shows "\<exists>t. lde_nbr_del s p = Inr t \<and> lde_inv t \<and> rb_find (lde_nbrs t) p = None \<and>
    (\<forall>f fn. fec_find (ft t) f = Some fn \<longrightarrow>
      p \<notin> set (fn_downstream fn) \<and> p \<notin> set (fn_upstream fn) \<and>
      (\<forall>nh\<in>set (fn_nexthops fn). uses ln f nh \<longrightarrow> nh_remote_label nh = NO_LABEL))"
proof -
  from lde_nbr_del_inv [OF inv, of p] obtain t where t: "lde_nbr_del s p = Inr t" "lde_inv t"
    by (auto simp: okE_def)
  note run = nbr_del_run [OF inv ln t(1)]
  then show ?thesis using t inv_no_ref [OF t(2)] by blast
qed

theorem nbr_del_clean_witness:
  "\<exists>t. lde_nbr_del demo_lde 7 = Inr t \<and> lde_inv t \<and> rb_find (lde_nbrs t) 7 = None"
  using nbr_del_clean [OF demo_inv, of 7 demo_nbr] by auto

section \<open>The garbage collector and labels\<close>

text \<open>
  C25: the garbage collector removes a class node exactly when it has no next hop and no mapping
  was received or sent for it, and leaves every other node as it is; so it never frees a node that
  a mapping of a neighbour refers to.
\<close>

theorem gc_exactly_dead:
  "fec_find (ft (lde_gc_timer s)) f =
     (case fec_find (ft s) f of None \<Rightarrow> None
      | Some fn \<Rightarrow> if fn_nexthops fn = [] \<and> fn_downstream fn = [] \<and> fn_upstream fn = [] then None else Some fn) \<and>
   (lde_inv s \<and> (has_recv_map s p f \<or> has_sent_map s p f) \<longrightarrow> fec_find (ft (lde_gc_timer s)) f = fec_find (ft s) f)"
proof -
  have "\<not> gc_dead fn" if "lde_inv s" "has_recv_map s p f \<or> has_sent_map s p f" "fec_find (ft s) f = Some fn" for fn
    using inv_node [OF that(1,3)] that(2) by (auto simp: node_ok_def gc_dead_def)
  then show ?thesis
    by (auto simp: lde_gc_timer_find gc_dead_def split: option.split)
qed

theorem gc_exactly_dead_witness:
  "fec_find (ft (lde_gc_timer demo_lde)) demo_fec = Some demo_node \<and>
   fec_find (ft (lde_gc_timer (fec_add demo_lde (FEC_IPV4 0 0)))) (FEC_IPV4 0 0) = None"
  using gc_exactly_dead [of demo_lde demo_fec] gc_exactly_dead [of "fec_add demo_lde (FEC_IPV4 0 0)" "FEC_IPV4 0 0"]
  by (simp add: demo_node_def fec_add_def demo_fec_def empty_node_def)

text \<open>
  C34: the first 1048560 labels that are assigned are distinct and lie in the range of unreserved
  labels 16 to 0xfffff; the next one is 0x100000, which does not fit the 20-bit label field, since
  the counter is not checked against \<^verbatim>\<open>MPLS_LABEL_MAX\<close>.
\<close>

theorem label_assignment_range:
  "let ls = assign_labels (lde_start ps l2 ll f4 f6) 1048560 in
     distinct ls \<and> list_all (\<lambda>l. MPLS_LABEL_RESERVED_MAX < l \<and> l \<le> MPLS_LABEL_MAX) ls \<and>
     last (assign_labels (lde_start ps l2 ll f4 f6) (Suc 1048560)) = MPLS_LABEL_MAX + 1"
proof -
  have eq: "assign_labels (lde_start ps l2 ll f4 f6) n = map (\<lambda>i. of_nat (16 + i)) [0..<n]" for n
    unfolding assign_labels_eq by (simp add: lde_start_def const_defs add.commute)
  have un: "unat (of_nat (16 + i) :: u32) = 16 + i" if "i < 2000000" for i
    using that by (simp only: unsigned_of_nat) (simp add: take_bit_eq_mod)
  have "inj_on (\<lambda>i. of_nat (16 + i) :: u32) (set [0..<1048560])"
  proof (rule inj_onI)
    fix i j assume ij: "i \<in> set [0..<1048560]" "j \<in> set [0..<1048560]" "(of_nat (16 + i) :: u32) = of_nat (16 + j)"
    then have "unat (of_nat (16 + i) :: u32) = unat (of_nat (16 + j) :: u32)" by simp
    with ij(1,2) un [of i] un [of j] show "i = j" by simp
  qed
  then have d: "distinct (map (\<lambda>i. of_nat (16 + i) :: u32) [0..<1048560])" by (simp only: distinct_map distinct_upt simp_thms)
  have r: "MPLS_LABEL_RESERVED_MAX < (of_nat (16 + i) :: u32) \<and> (of_nat (16 + i) :: u32) \<le> MPLS_LABEL_MAX" if "i < 1048560" for i
    using that un [of i] by (simp add: const_defs word_less_nat_alt word_le_nat_alt)
  have l: "last (map (\<lambda>i. of_nat (16 + i) :: u32) [0..<Suc n]) = of_nat (16 + n)" for n by simp
  show ?thesis
    unfolding Let_def eq l using d r by (auto simp: list_all_iff const_defs simp del: of_nat_add)
qed

section \<open>Routes and requests\<close>

text \<open>
  C18: a route for a prefix that is not known yet is processed without a fault: the class gets a
  local label (the egress label of the address family if the route is connected, the next free
  label otherwise), and every neighbour that is enabled for the address family and has no pending
  request is sent a mapping with that label.
\<close>

theorem route_announced:
  assumes inv: "lde_inv s" and f: "is_prefix_fec f" "fec_find (ft s) f = None" and af: "af \<noteq> AF_UNSPEC"
  shows "\<exists>t l fn. lde_kernel_insert s f af nexthop prio connected None = Inr t \<and> lde_inv t \<and>
    (if connected then egress_label s (fec_get_type f) = Inr l else l = last_label s + 1) \<and>
    fec_find (ft t) f = Some fn \<and> fn_local_label fn = l \<and>
    (\<forall>p ln. rb_find (lde_nbrs s) p = Some ln \<and> enabled ln f \<and> fec_find (ln_recv_req ln) f = None \<longrightarrow>
      IMSG_MAPPING_ADD p ((lde_fec2map f)\<lparr>map_label := l\<rparr>) \<in> set (out t))"
proof -
  have "insert_ok s f af connected None" using f af by (simp add: insert_ok_def is_prefix_fec_def)
  from lde_kernel_insert_inv [OF inv this] obtain t where
    t: "lde_kernel_insert s f af nexthop prio connected None = Inr t" "lde_inv t" by (auto simp: okE_def)
  from kernel_insert_run [OF inv f af t(1)] t show ?thesis by fastforce
qed

theorem route_announced_witness:
  "\<exists>t. lde_kernel_insert demo_lde (FEC_IPV4 0 0) AF_INET (of_v4 1) 8 False None = Inr t \<and>
     IMSG_MAPPING_ADD 7 ((lde_fec2map (FEC_IPV4 0 0))\<lparr>map_label := 16\<rparr>) \<in> set (out t)"
proof -
  have "is_prefix_fec (FEC_IPV4 0 0)" "fec_find (ft demo_lde) (FEC_IPV4 0 0) = None" "last_label demo_lde + 1 = 16"
    by (simp_all add: is_prefix_fec_def demo_fec_def, simp add: demo_lde_def lde_start_def const_defs)
  moreover have "enabled demo_nbr (FEC_IPV4 0 0)" "fec_find (ln_recv_req demo_nbr) (FEC_IPV4 0 0) = None"
    by (simp_all add: enabled_def demo_nbr_def)
  ultimately show ?thesis
    using route_announced [OF demo_inv, of "FEC_IPV4 0 0" AF_INET "of_v4 1" 8 False] by fastforce
qed



section \<open>Pseudowires\<close>

definition demo_pw :: l2vpn_pw where
  "demo_pw = \<lparr>pw_l2vpn = 0, pw_lsr_id = 0x01010101, pw_af = AF_INET, pw_addr = of_v4 0x01010101, pw_pwid = 5,
     pw_ifname = ''mpw0'', pw_ifindex = 3, pw_remote_group = 0, pw_remote_mtu = 0, pw_remote_status = 0,
     pw_flags = set_flag F_PW_STATUSTLV_CONF F_PW_CWORD_CONF\<rparr>"

definition demo_pwfec :: fec where
  "demo_pwfec = FEC_PWID 5 5 0x01010101"

definition demo_pw_lde :: lde where
  "demo_pw_lde = (lde_start (\<lambda>d. if d = 0 then Some demo_pw else None)
       (\<lambda>l. if l = 0 then Some \<lparr>l2_name = ''vpn'', l2_pw_type = 5, l2_mtu = 1500, l2_pw_list = [0]\<rparr> else None) [0] 0 0)
     \<lparr>ft := fst (fec_insert fec_init demo_pwfec
          \<lparr>fn_nexthops = [demo_nh], fn_downstream = [], fn_upstream = [], fn_local_label = 17, fn_data = Some 0\<rparr>),
      lde_nbrs := fst (rb_insert rb_init 7 (demo_nbr\<lparr>ln_recv_req := fst (fec_insert fec_init demo_pwfec 9)\<rparr>))\<rparr>"

lemma demo_pw_find [simp]:
  "rb_find (lde_nbrs demo_pw_lde) 7 = Some (demo_nbr\<lparr>ln_recv_req := fst (fec_insert fec_init demo_pwfec 9)\<rparr>)"
  "fec_find (ft demo_pw_lde) demo_pwfec =
     Some \<lparr>fn_nexthops = [demo_nh], fn_downstream = [], fn_upstream = [], fn_local_label = 17, fn_data = Some 0\<rparr>"
  "pws demo_pw_lde 0 = Some demo_pw"
  "l2vpns demo_pw_lde 0 = Some \<lparr>l2_name = ''vpn'', l2_pw_type = 5, l2_mtu = 1500, l2_pw_list = [0]\<rparr>"
  by (simp_all add: demo_pw_lde_def lde_start_def)

text \<open>
  C27: control word negotiation (RFC 4447, 6.2) before a mapping was sent to the neighbour: its
  mapping is ignored exactly when it asks for the control word and the pseudowire is not
  configured for it; otherwise the control word is used exactly when both sides want it, and the
  status TLV is given up if the first mapping received does not carry it.
\<close>

theorem cword_negotiated:
  assumes "rb_find (lde_nbrs s) p = Some ln" "fec_find (ft s) f = Some fn" "fn_data fn = Some d"
    "pws s d = Some pw" "fec_find (ln_sent_map ln) f = None"
  shows "\<exists>t pw' ignore. l2vpn_pw_negotiate s p f m = Inr (t, ignore) \<and> pws t d = Some pw' \<and>
    ignore = (has_flag (map_flags m) F_MAP_PW_CWORD \<and> \<not> has_flag (pw_flags pw) F_PW_CWORD_CONF) \<and>
    (\<not> ignore \<longrightarrow>
      has_flag (pw_flags pw') F_PW_CWORD =
        (has_flag (map_flags m) F_MAP_PW_CWORD \<and> has_flag (pw_flags pw) F_PW_CWORD_CONF) \<and>
      has_flag (pw_flags pw') F_PW_STATUSTLV = (has_flag (pw_flags pw) F_PW_STATUSTLV \<and>
        (fec_find (ln_recv_map ln) f \<noteq> None \<or> has_flag (map_flags m) F_MAP_PW_STATUS)))"
proof -
  have masks: "F_PW_CWORD AND F_PW_STATUSTLV = 0" "F_PW_STATUSTLV AND F_PW_CWORD = 0" "F_PW_CWORD \<noteq> 0"
    by (simp_all add: const_defs)
  show ?thesis
    using assms
    by (auto simp: l2vpn_pw_negotiate_def has_flag_set_same masks has_flag_set_other has_flag_clear_same
        has_flag_clear_other)
qed

theorem cword_negotiated_witness:
  "\<exists>t pw'. l2vpn_pw_negotiate demo_pw_lde 7 demo_pwfec zero_map = Inr (t, False) \<and> pws t 0 = Some pw' \<and>
     \<not> has_flag (pw_flags pw') F_PW_CWORD"
  using cword_negotiated [OF demo_pw_find(1,2) _ demo_pw_find(3), where m = zero_map]
  by (auto simp: demo_nbr_def zero_map_def)


definition demo_lsp :: fec_node where
  "demo_lsp = \<lparr>fn_nexthops = [demo_nh\<lparr>nh_remote_label := 30\<rparr>], fn_downstream = [], fn_upstream = [],
     fn_local_label = 18, fn_data = None\<rparr>"

definition demo_up_lde :: lde where
  "demo_up_lde = demo_pw_lde\<lparr>ft := fst (fec_insert (ft demo_pw_lde) (FEC_IPV4 0x01010101 32) demo_lsp)\<rparr>"


lemma demo_pw_fecs: "fec_find (ft demo_pw_lde) f = (if f = demo_pwfec then
    Some \<lparr>fn_nexthops = [demo_nh], fn_downstream = [], fn_upstream = [], fn_local_label = 17, fn_data = Some 0\<rparr> else None)"
  by (simp add: demo_pw_lde_def)

lemma demo_up_find [simp]:
  "fec_find (ft demo_up_lde) f = (if f = FEC_IPV4 0x01010101 32 then Some demo_lsp else fec_find (ft demo_pw_lde) f)"
  "lde_nbrs demo_up_lde = lde_nbrs demo_pw_lde" "pws demo_up_lde = pws demo_pw_lde"
  "l2vpns demo_up_lde = l2vpns demo_pw_lde" "l2vpn_list demo_up_lde = l2vpn_list demo_pw_lde" "out demo_up_lde = []"
  by (auto simp: demo_up_lde_def demo_pw_fecs demo_pwfec_def, simp_all add: demo_pw_lde_def lde_start_def)



text \<open>
  the answer to a label request for a pseudowire carries no pseudowire identifier. The flags
  that say which of the pseudowire fields are present are overwritten with \<^verbatim>\<open>F_MAP_REQ_ID\<close>, so the
  mapping sent has neither \<^verbatim>\<open>F_MAP_PW_ID\<close> nor \<^verbatim>\<open>F_MAP_PW_IFMTU\<close>.
\<close>

theorem pw_request_answer_drops_pwid:
  assumes "rb_find (lde_nbrs s) p = Some ln" "f = FEC_PWID type pwid lsr_id" "fec_find (ft s) f = Some fn"
    "fn_data fn = Some d" "pws s d = Some pw" "pw_lsr_id pw = ln_id ln" "l2vpns s (pw_l2vpn pw) = Some l"
    "fec_find (ln_recv_req ln) f = Some i"
  shows "\<exists>t m. lde_send_labelmapping s p f single = Inr t \<and> IMSG_MAPPING_ADD p m \<in> set (out t) \<and>
    map_type m = MAP_TYPE_PWID \<and> map_requestid m = i \<and>
    \<not> has_flag (map_flags m) F_MAP_PW_ID \<and> \<not> has_flag (map_flags m) F_MAP_PW_IFMTU"
proof -
  have flags: "\<not> has_flag F_MAP_REQ_ID F_MAP_PW_ID" "\<not> has_flag F_MAP_REQ_ID F_MAP_PW_IFMTU"
    by (simp_all add: has_flag_def const_defs)
  obtain m0 where m0: "map_pw_flags s (Some pw) (lde_fec2map f) = Inr m0" "map_type m0 = MAP_TYPE_PWID"
    using assms by (simp add: map_pw_flags_def Let_def lde_fec2map_def)
  show ?thesis
    using assms m0 flags
    by (auto simp: lde_send_labelmapping_def nbr_guard_def Let_def lde_map_set_def lde_map_add_def lde_req_del_def
        intro!: exI [of _ "m0\<lparr>map_label := fn_local_label fn, map_requestid := i, map_flags := F_MAP_REQ_ID\<rparr>"])
qed

theorem pw_request_answer_drops_pwid_witness:
  "\<exists>t m. lde_send_labelmapping demo_pw_lde 7 demo_pwfec True = Inr t \<and> IMSG_MAPPING_ADD 7 m \<in> set (out t) \<and>
     map_type m = MAP_TYPE_PWID \<and> map_requestid m = 9 \<and> \<not> has_flag (map_flags m) F_MAP_PW_ID"
proof -
  have "pw_lsr_id demo_pw = ln_id demo_nbr" "l2vpns demo_pw_lde (pw_l2vpn demo_pw) =
      Some \<lparr>l2_name = ''vpn'', l2_pw_type = 5, l2_mtu = 1500, l2_pw_list = [0]\<rparr>"
    by (simp_all add: demo_pw_def demo_nbr_def)
  with pw_request_answer_drops_pwid [OF demo_pw_find(1) demo_pwfec_def demo_pw_find(2) _ demo_pw_find(3), where single = True and i = 9]
  show ?thesis by auto
qed

end
