(* ===== verification/Ldpe_ConfTheorems.thy ===== *)
theory Ldpe_ConfTheorems
  imports Ldpe_Reach Conf_Transfer
begin

text \<open>
  The properties of the reload of the configuration in the protocol engine: a configuration arrives as
  it was sent, and two defects of the merge.
\<close>

section \<open>The transfer\<close>

text \<open>
  C22: The configuration the parent sends is the configuration the engine merges: after the messages of
  \<^verbatim>\<open>main_imsg_send_config\<close> the engine merges \<^verbatim>\<open>received_conf\<close>, the same configuration with every list
  reversed and the interfaces without the addresses and adjacencies of the sender, and it has counted one
  more configuration. Nothing else of the engine is touched by the transfer.
\<close>

theorem reload_roundtrip:
  "foldE (ldpe_reconf y) (main_imsg_send_config x) pr =
    bindE (merge_config y (pr_engine pr, pr_l2vpn_list pr) (received_conf x)) (\<lambda>(s, ls).
      Inr \<lparr>pr_engine = s\<lparr>e_conf_seqnum := e_conf_seqnum s + 1\<rparr>, pr_l2vpn_list = ls, pr_nconf = None\<rparr>)"
  unfolding ldpe_receiver.received by (simp add: ldpe_reconf_def)

section \<open>A new router identifier\<close>

definition idle :: "ldpe \<Rightarrow> bool" where
  "idle s \<longleftrightarrow>
     (\<forall>i\<in>set (e_iface_list s). \<exists>ifc. e_ifaces s i = Some ifc \<and> \<not> ia_active (if_ipv4 ifc) \<and> \<not> ia_active (if_ipv6 ifc)) \<and>
     (\<forall>t\<in>set (e_tnbr_list s). \<exists>tn. e_tnbrs s t = Some tn \<and> \<not> t_active tn \<and> t_af tn \<noteq> AF_UNSPEC)"

lemma foldE_stays: "(\<And>x. x \<in> set xs \<Longrightarrow> f s x = Inr s) \<Longrightarrow> foldE f xs s = Inr s"
  by (induction xs) simp_all

lemma no_rtr_id_idle:
  assumes "e_rtr_id s = 0" "idle s"
  shows "if_update_all y s af = Inr s" "tnbr_update_all s af = Inr s"
proof -
  have "if_update y s i af = Inr s" if i: "i \<in> set (e_iface_list s)" for i
  proof -
    obtain ifc where "e_ifaces s i = Some ifc" "\<not> ia_active (if_ipv4 ifc)" "\<not> ia_active (if_ipv6 ifc)"
      using assms(2) i by (auto simp: idle_def)
    then show ?thesis using assms(1)
      by (simp add: if_update_def Let_def if_update_af_def get_iface_def iface_af_get_def ldp_af_global_get_def)
  qed
  then show "if_update_all y s af = Inr s" unfolding if_update_all_def by (rule foldE_stays)
  have "bindE (get_tnbr s t) (\<lambda>tn. if t_af tn = af \<or> af = AF_UNSPEC then tnbr_update s t else Inr s) = Inr s"
    if t: "t \<in> set (e_tnbr_list s)" for t
  proof -
    obtain tn where "e_tnbrs s t = Some tn" "\<not> t_active tn" "t_af tn \<noteq> AF_UNSPEC" using assms(2) t by (auto simp: idle_def)
    then show ?thesis using assms(1)
      by (cases "t_af tn") (simp_all add: get_tnbr_def tnbr_update_def ldp_af_global_get_def)
  qed
  then show "tnbr_update_all s af = Inr s" unfolding tnbr_update_all_def by (rule foldE_stays)
qed

lemma no_nbrs_reset: "rb_keys (e_nbrs s) = [] \<Longrightarrow> ldpe_reset_nbrs s af = Inr s \<and> ldpe_reset_ds_nbrs s = Inr s"
  by (simp add: nbrs_by_id_def ldpe_reset_nbrs_def ldpe_reset_ds_nbrs_def)

text \<open>
  C38: When the router identifier becomes known (from 0 to a value), \<^verbatim>\<open>merge_global\<close> asks the interfaces and
  targeted neighbours to start while \<^verbatim>\<open>leconf\<close> still has the old identifier, so none of them starts: an
  interface that is enabled, up, addressed and has its socket stays down although the new identifier is
  in force.
\<close>

theorem router_id_starts_nothing:
  assumes "e_rtr_id s = 0" and "xc_rtr_id x \<noteq> 0" and "idle s" and "rb_keys (e_nbrs s) = []"
  shows "\<exists>t. merge_global y s x = Inr t \<and> e_rtr_id t = xc_rtr_id x \<and> e_ifaces t = e_ifaces s \<and> e_tnbrs t = e_tnbrs s \<and>
    e_out t = e_out s"
proof -
  have "if_update_all y s AF_UNSPEC = Inr s" "tnbr_update_all s AF_UNSPEC = Inr s" by (rule no_rtr_id_idle [OF assms(1,3)])+
  moreover have "rb_keys (e_nbrs (s\<lparr>e_rtr_id := r\<rparr>)) = []" "rb_keys (e_nbrs (s\<lparr>e_rtr_id := r, e_trans_pref := p\<rparr>)) = []" for r p
    using assms(4) by simp_all
  ultimately show ?thesis
    using assms(1,2) by (simp add: merge_global_def no_nbrs_reset [OF assms(4)] no_nbrs_reset)
qed

text \<open>An interface that only waits for the router identifier.\<close>

definition demo_ready :: ldpe where
  "demo_ready = (pr_engine (ldpe_start True True))
     \<lparr>e_global4 := \<lparr>ag_disc_socket = 3, ag_edisc_socket = 4, ag_session_socket = 5\<rparr>, e_iface_list := [1],
      e_ifaces := [1 \<mapsto> \<lparr>if_name = ''em0'', if_ifindex = 1, if_addr_list = [\<lparr>ifa_af = AF_INET, ifa_addr = [10, 0, 0, 1] @ replicate 12 0,
        ifa_prefixlen = 24, ifa_dstbrd = replicate 16 0\<rparr>],
       if_linklocal = replicate 16 0, if_kind = IF_TYPE_BROADCAST, if_if_type = 6, if_flags = F_IFF_UP, if_linkstate = 4,
       if_ipv4 = new_iface_af\<lparr>ia_enabled := True\<rparr>, if_ipv6 = new_iface_af\<rparr>]\<rparr>"

theorem router_id_starts_nothing_witness:
  "\<forall>y. \<exists>t. merge_global y demo_ready (config_new_empty\<lparr>xc_rtr_id := 7\<rparr>) = Inr t \<and> e_rtr_id t = 7 \<and>
    e_ifaces t = e_ifaces demo_ready \<and> e_tnbrs t = e_tnbrs demo_ready \<and> e_out t = []"
proof
  fix y
  have "idle demo_ready" "e_rtr_id demo_ready = 0" "rb_keys (e_nbrs demo_ready) = []" "e_out demo_ready = []"
    by (simp_all add: demo_ready_def idle_def ldpe_start_def Let_def config_new_empty_def new_iface_af_def rb_keys_def)
  then show "\<exists>t. merge_global y demo_ready (config_new_empty\<lparr>xc_rtr_id := 7\<rparr>) = Inr t \<and> e_rtr_id t = 7 \<and>
    e_ifaces t = e_ifaces demo_ready \<and> e_tnbrs t = e_tnbrs demo_ready \<and> e_out t = []"
    using router_id_starts_nothing [of demo_ready "config_new_empty\<lparr>xc_rtr_id := 7\<rparr>" y] by simp
qed

section \<open>A removed interface\<close>

text \<open>
  C37: When the reload removes an interface, \<^verbatim>\<open>if_exit\<close> drops the adjacencies of its active families only. An
  adjacency on a family that is not active (\<^verbatim>\<open>disc_find_iface\<close> accepts hellos on it) outlives the
  interface, and the expiry of its timer then follows a pointer to freed memory.
\<close>

theorem removed_iface_dangling_adj:
  assumes l: "e_iface_list s = [i]" and ifc: "e_ifaces s i = Some ifc"
    and down: "\<not> ia_active (if_ipv4 ifc)" "\<not> ia_active (if_ipv6 ifc)"
    and x: "xc_iface_list x = []" and adj: "e_adjs s a = Some adj" "a_source adj = HELLO_LINK i af src"
  shows "\<exists>t. merge_ifaces y s x = Inr t \<and> e_ifaces t i = None \<and> e_adjs t a = Some adj \<and> adj_itimer y t a = Inl NullDeref"
proof -
  have "merge_ifaces y s x = Inr (s\<lparr>e_iface_list := [], e_ifaces := (e_ifaces s)(i := None)\<rparr>)"
    using down by (simp add: merge_ifaces_def l x remove_iface_def get_iface_def ifc xc_if_lookup_def if_exit_def upd_if_def)
  moreover have "adj_itimer y t a = Inl NullDeref" if t: "e_ifaces t i = None" "e_adjs t a = Some adj" for t
  proof -
    have "adj_del_single u a = Inl NullDeref" if "e_ifaces u i = None" "e_adjs u a = Some adj'" "a_source adj' = HELLO_LINK i af src" for u adj'
      using that by (auto simp: adj_del_single_def Let_def get_adj_def get_ia_def get_iface_def get_nbr_def upd_n_def split: option.splits)
    then show ?thesis using t adj(2)
      by (simp add: adj_itimer_def adj_stop_itimer_def upd_adj_def get_adj_def adj_del_def)
  qed
  ultimately show ?thesis using adj(1) by simp
qed

text \<open>An interface with an adjacency to 10.0.0.2 and no active family.\<close>

definition demo_dangling :: ldpe where
  "demo_dangling = demo_ready\<lparr>e_adj_list := [1], e_adjs := [1 \<mapsto> \<lparr>a_lsr_id = 0x0200000a, a_nbr = None, a_ds_tlv = False,
     a_source = HELLO_LINK 1 AF_INET ([10, 0, 0, 2] @ replicate 12 0), a_inactivity_timer = Some 15, a_holdtime = 15,
     a_trans_addr = [10, 0, 0, 2] @ replicate 12 0\<rparr>]\<rparr>"

theorem removed_iface_dangling_adj_witness:
  "\<forall>y. \<exists>t. merge_ifaces y demo_dangling config_new_empty = Inr t \<and> e_ifaces t 1 = None \<and> adj_itimer y t 1 = Inl NullDeref"
proof
  fix y
  obtain ifc where ifc: "e_ifaces demo_dangling 1 = Some ifc" "\<not> ia_active (if_ipv4 ifc)" "\<not> ia_active (if_ipv6 ifc)"
    by (simp add: demo_dangling_def demo_ready_def new_iface_af_def)
  obtain adj src where adj: "e_adjs demo_dangling 1 = Some adj" "a_source adj = HELLO_LINK 1 AF_INET src"
    by (simp add: demo_dangling_def)
  have l: "e_iface_list demo_dangling = [1]" "xc_iface_list config_new_empty = []"
    by (simp_all add: demo_dangling_def demo_ready_def config_new_empty_def)
  show "\<exists>t. merge_ifaces y demo_dangling config_new_empty = Inr t \<and> e_ifaces t 1 = None \<and> adj_itimer y t 1 = Inl NullDeref"
    using removed_iface_dangling_adj [OF l(1) ifc l(2) adj, of y] by blast
qed

end
