(* ===== verification/Parent_Socket.thy ===== *)
theory Parent_Socket
  imports Ldpe_Reload
begin

text \<open>
  The sockets of the daemon (\<^verbatim>\<open>socket.c\<close>), which the parent creates and hands to the protocol engine
  (\<^verbatim>\<open>main_imsg_send_net_sockets\<close> of \<^verbatim>\<open>ldpd.c\<close>). The calls of the system and their results are logged; the
  answers of the system are a parameter and may depend on everything called before. The values of the
  constants of the system's headers are those of OpenBSD.
\<close>

section \<open>System calls\<close>

datatype sock_opt =
    SO_REUSEADDR | SO_BINDANY | SO_RCVBUF | IP_TOS | IP_RECVIF | IP_MINTTL | IP_TTL | IP_MULTICAST_TTL | IP_MULTICAST_LOOP
  | IPV6_TCLASS | IPV6_RECVPKTINFO | IPV6_MINHOPCOUNT | IPV6_UNICAST_HOPS | IPV6_MULTICAST_HOPS | IPV6_MULTICAST_LOOP
  | TCP_MD5SIG

datatype opt_result = Opt_ok | Opt_ENOPROTOOPT | Opt_failed

datatype sock_call =
    Call_socket af socket_type int
  | Call_setsockopt int sock_opt int opt_result
  | Call_bind int sockaddr bool
  | Call_listen int int bool
  | Call_close int

record sock_sys =
  sk_socket :: "sock_call list \<Rightarrow> af \<Rightarrow> socket_type \<Rightarrow> int"
  sk_setsockopt :: "sock_call list \<Rightarrow> int \<Rightarrow> sock_opt \<Rightarrow> int \<Rightarrow> opt_result"
  sk_bind :: "sock_call list \<Rightarrow> int \<Rightarrow> sockaddr \<Rightarrow> bool"
  sk_listen :: "sock_call list \<Rightarrow> int \<Rightarrow> int \<Rightarrow> bool"

record sock_state =
  ss_calls :: "sock_call list"
  ss_no_md5sig :: bool

definition call :: "sock_state \<Rightarrow> sock_call \<Rightarrow> sock_state" where
  "call s c = s\<lparr>ss_calls := ss_calls s @ [c]\<rparr>"

definition setsockopt :: "sock_sys \<Rightarrow> sock_state \<Rightarrow> int \<Rightarrow> sock_opt \<Rightarrow> int \<Rightarrow> opt_result \<times> sock_state" where
  "setsockopt k s fd opt v = (let r = sk_setsockopt k (ss_calls s) fd opt v in (r, call s (Call_setsockopt fd opt v r)))"

text \<open>The functions \<^verbatim>\<open>sock_set_*\<close>: -1 when the option is refused.\<close>

definition sock_set :: "sock_sys \<Rightarrow> sock_state \<Rightarrow> int \<Rightarrow> sock_opt \<Rightarrow> int \<Rightarrow> int \<times> sock_state" where
  "sock_set k s fd opt v = (let (r, s1) = setsockopt k s fd opt v in (if r = Opt_ok then 0 else -1, s1))"

definition sock_set_reuse :: "sock_sys \<Rightarrow> int \<Rightarrow> int \<Rightarrow> sock_state \<Rightarrow> int \<times> sock_state" where
  "sock_set_reuse k fd enable s = sock_set k s fd SO_REUSEADDR enable"

definition sock_set_bindany :: "sock_sys \<Rightarrow> int \<Rightarrow> int \<Rightarrow> sock_state \<Rightarrow> int \<times> sock_state" where
  "sock_set_bindany k fd enable s = sock_set k s fd SO_BINDANY enable"

definition sock_set_ipv4_tos :: "sock_sys \<Rightarrow> int \<Rightarrow> int \<Rightarrow> sock_state \<Rightarrow> int \<times> sock_state" where
  "sock_set_ipv4_tos k fd tos s = sock_set k s fd IP_TOS tos"

definition sock_set_ipv4_recvif :: "sock_sys \<Rightarrow> int \<Rightarrow> int \<Rightarrow> sock_state \<Rightarrow> int \<times> sock_state" where
  "sock_set_ipv4_recvif k fd enable s = sock_set k s fd IP_RECVIF enable"

definition sock_set_ipv4_minttl :: "sock_sys \<Rightarrow> int \<Rightarrow> int \<Rightarrow> sock_state \<Rightarrow> int \<times> sock_state" where
  "sock_set_ipv4_minttl k fd ttl s = sock_set k s fd IP_MINTTL ttl"

definition sock_set_ipv4_ucast_ttl :: "sock_sys \<Rightarrow> int \<Rightarrow> int \<Rightarrow> sock_state \<Rightarrow> int \<times> sock_state" where
  "sock_set_ipv4_ucast_ttl k fd ttl s = sock_set k s fd IP_TTL ttl"

definition sock_set_ipv4_mcast_ttl :: "sock_sys \<Rightarrow> int \<Rightarrow> u8 \<Rightarrow> sock_state \<Rightarrow> int \<times> sock_state" where
  "sock_set_ipv4_mcast_ttl k fd ttl s = sock_set k s fd IP_MULTICAST_TTL (uint ttl)"

definition sock_set_ipv4_mcast_loop :: "sock_sys \<Rightarrow> int \<Rightarrow> sock_state \<Rightarrow> int \<times> sock_state" where
  "sock_set_ipv4_mcast_loop k fd s = sock_set k s fd IP_MULTICAST_LOOP 0"

definition sock_set_ipv6_dscp :: "sock_sys \<Rightarrow> int \<Rightarrow> int \<Rightarrow> sock_state \<Rightarrow> int \<times> sock_state" where
  "sock_set_ipv6_dscp k fd dscp s = sock_set k s fd IPV6_TCLASS dscp"

definition sock_set_ipv6_pktinfo :: "sock_sys \<Rightarrow> int \<Rightarrow> int \<Rightarrow> sock_state \<Rightarrow> int \<times> sock_state" where
  "sock_set_ipv6_pktinfo k fd enable s = sock_set k s fd IPV6_RECVPKTINFO enable"

definition sock_set_ipv6_minhopcount :: "sock_sys \<Rightarrow> int \<Rightarrow> int \<Rightarrow> sock_state \<Rightarrow> int \<times> sock_state" where
  "sock_set_ipv6_minhopcount k fd hoplimit s = sock_set k s fd IPV6_MINHOPCOUNT hoplimit"

definition sock_set_ipv6_ucast_hops :: "sock_sys \<Rightarrow> int \<Rightarrow> int \<Rightarrow> sock_state \<Rightarrow> int \<times> sock_state" where
  "sock_set_ipv6_ucast_hops k fd hoplimit s = sock_set k s fd IPV6_UNICAST_HOPS hoplimit"

definition sock_set_ipv6_mcast_hops :: "sock_sys \<Rightarrow> int \<Rightarrow> int \<Rightarrow> sock_state \<Rightarrow> int \<times> sock_state" where
  "sock_set_ipv6_mcast_hops k fd hoplimit s = sock_set k s fd IPV6_MULTICAST_HOPS hoplimit"

definition sock_set_ipv6_mcast_loop :: "sock_sys \<Rightarrow> int \<Rightarrow> sock_state \<Rightarrow> int \<times> sock_state" where
  "sock_set_ipv6_mcast_loop k fd s = sock_set k s fd IPV6_MULTICAST_LOOP 0"

text \<open>
  \<^verbatim>\<open>while (setsockopt(...) == -1) bsize /= 2;\<close> has no other exit: \<open>None\<close> is a loop that does not end.
\<close>

partial_function (option) recvbuf_loop :: "sock_sys \<Rightarrow> int \<Rightarrow> int \<Rightarrow> sock_state \<Rightarrow> sock_state option" where
  "recvbuf_loop k fd bsize s =
     (let (r, s1) = setsockopt k s fd SO_RCVBUF bsize
      in if r = Opt_ok then Some s1 else recvbuf_loop k fd (bsize div 2) s1)"

definition sock_set_recvbuf :: "sock_sys \<Rightarrow> int \<Rightarrow> sock_state \<Rightarrow> sock_state option" where
  "sock_set_recvbuf k fd s = recvbuf_loop k fd 65535 s"

section \<open>Creating a socket\<close>

text \<open>\<open>if (f == -1) { close(fd); return (-1); }\<close>: the caller closes when a step of the sequence has failed.\<close>

definition and_then :: "int \<times> sock_state \<Rightarrow> (sock_state \<Rightarrow> int \<times> sock_state) \<Rightarrow> int \<times> sock_state" where
  "and_then r f = (if fst r = -1 then r else f (snd r))"

definition only_if :: "bool \<Rightarrow> (sock_state \<Rightarrow> int \<times> sock_state) \<Rightarrow> sock_state \<Rightarrow> int \<times> sock_state" where
  "only_if b f s = (if b then f s else (0, s))"

definition IPTOS_PREC_INTERNETCONTROL :: int where [const_defs]: "IPTOS_PREC_INTERNETCONTROL = 0xc0"
definition IP_DEFAULT_MULTICAST_TTL :: u8 where [const_defs]: "IP_DEFAULT_MULTICAST_TTL = 1"
definition LDP_PORT :: u16 where [const_defs]: "LDP_PORT = 646"
definition LDP_BACKLOG :: int where [const_defs]: "LDP_BACKLOG = 128"

definition af_options :: "sock_sys \<Rightarrow> ldpd_conf \<Rightarrow> int \<Rightarrow> af \<Rightarrow> socket_type \<Rightarrow> sock_state \<Rightarrow> int \<times> sock_state" where
  "af_options k c fd af type s =
     (case af of
        AF_INET \<Rightarrow>
          and_then (sock_set_ipv4_tos k fd IPTOS_PREC_INTERNETCONTROL s) (\<lambda>s.
          and_then (only_if (type = LDP_SOCKET_DISC) (\<lambda>s.
            and_then (sock_set_ipv4_mcast_ttl k fd IP_DEFAULT_MULTICAST_TTL s) (sock_set_ipv4_mcast_loop k fd)) s) (\<lambda>s.
          and_then (only_if (type = LDP_SOCKET_DISC \<or> type = LDP_SOCKET_EDISC) (sock_set_ipv4_recvif k fd 1) s)
            (only_if (type = LDP_SOCKET_SESSION) (sock_set_ipv4_ucast_ttl k fd 255))))
      | AF_INET6 \<Rightarrow>
          and_then (sock_set_ipv6_dscp k fd IPTOS_PREC_INTERNETCONTROL s) (\<lambda>s.
          and_then (only_if (type = LDP_SOCKET_DISC) (\<lambda>s.
            and_then (sock_set_ipv6_mcast_loop k fd s) (\<lambda>s.
            and_then (sock_set_ipv6_mcast_hops k fd 255 s)
              (only_if (\<not> has_flag (ac_flags (xc_ipv6 c)) F_LDPD_AF_NO_GTSM) (sock_set_ipv6_minhopcount k fd 255)))) s) (\<lambda>s.
          and_then (only_if (type = LDP_SOCKET_DISC \<or> type = LDP_SOCKET_EDISC) (sock_set_ipv6_pktinfo k fd 1) s)
            (only_if (type = LDP_SOCKET_SESSION) (sock_set_ipv6_ucast_hops k fd 255))))
      | AF_UNSPEC \<Rightarrow> (0, s))"

definition local_sa :: "ldpd_conf \<Rightarrow> af \<Rightarrow> socket_type \<Rightarrow> sockaddr res" where
  "local_sa c af type =
     (case type of
        LDP_SOCKET_DISC \<Rightarrow> addr2sa af (replicate 16 0) LDP_PORT
      | _ \<Rightarrow>
          bindE (case af of AF_INET \<Rightarrow> Inr (xc_ipv4 c) | AF_INET6 \<Rightarrow> Inr (xc_ipv6 c)
                 | AF_UNSPEC \<Rightarrow> Inl (Fatalx ''ldp_af_conf_get: unknown af'')) (\<lambda>a.
          addr2sa af (ac_trans_addr a) LDP_PORT))"

definition sock_bind :: "sock_sys \<Rightarrow> int \<Rightarrow> sockaddr \<Rightarrow> sock_state \<Rightarrow> int \<times> sock_state" where
  "sock_bind k fd sa s = (let r = sk_bind k (ss_calls s) fd sa in (if r then 0 else -1, call s (Call_bind fd sa r)))"

definition sock_listen :: "sock_sys \<Rightarrow> int \<Rightarrow> sock_state \<Rightarrow> sock_state" where
  "sock_listen k fd s = call s (Call_listen fd LDP_BACKLOG (sk_listen k (ss_calls s) fd LDP_BACKLOG))"

text \<open>The last part of \<^verbatim>\<open>ldp_create_socket\<close>, by the type of socket.\<close>

definition finish_socket :: "sock_sys \<Rightarrow> int \<Rightarrow> socket_type \<Rightarrow> sock_state \<Rightarrow> (int \<times> sock_state) option" where
  "finish_socket k fd type s =
     (case type of
        LDP_SOCKET_SESSION \<Rightarrow>
          let (r, s1) = setsockopt k (sock_listen k fd s) fd TCP_MD5SIG 1
          in Some (case r of
                Opt_ok \<Rightarrow> (fd, s1)
              | Opt_ENOPROTOOPT \<Rightarrow> (fd, s1\<lparr>ss_no_md5sig := True\<rparr>)
              | Opt_failed \<Rightarrow> (-1, call s1 (Call_close fd)))
      | _ \<Rightarrow> map_option (Pair fd) (sock_set_recvbuf k fd s))"

definition ldp_create_socket :: "sock_sys \<Rightarrow> ldpd_conf \<Rightarrow> af \<Rightarrow> socket_type \<Rightarrow> sock_state \<Rightarrow> (int \<times> sock_state) res option" where
  "ldp_create_socket k c af type s =
     (let fd = sk_socket k (ss_calls s) af type; s1 = call s (Call_socket af type fd) in
      if fd = -1 then Some (Inr (-1, s1))
      else
        (case local_sa c af type of
           Inl e \<Rightarrow> Some (Inl e)
         | Inr sa \<Rightarrow>
             let (rc, s2) =
               and_then (only_if (type \<noteq> LDP_SOCKET_DISC) (sock_set_bindany k fd 1) s1) (\<lambda>s.
               and_then (sock_set_reuse k fd 1 s) (\<lambda>s.
               and_then (sock_bind k fd sa s) (af_options k c fd af type)))
             in if rc = -1 then Some (Inr (-1, call s2 (Call_close fd)))
                else map_option Inr (finish_socket k fd type s2)))"

section \<open>Handing the sockets over\<close>

text \<open>The messages to the protocol engine; a socket that could not be created is left out.\<close>

definition main_imsg_send_net_socket ::
    "sock_sys \<Rightarrow> ldpd_conf \<Rightarrow> af \<Rightarrow> socket_type \<Rightarrow> sock_state \<times> main_imsg list \<Rightarrow> (sock_state \<times> main_imsg list) res option" where
  "main_imsg_send_net_socket k c af type x =
     (case ldp_create_socket k c af type (fst x) of
        None \<Rightarrow> None
      | Some (Inl e) \<Rightarrow> Some (Inl e)
      | Some (Inr (fd, s)) \<Rightarrow> Some (Inr (s, if fd = -1 then snd x else snd x @ [IMSG_SOCKET_NET type fd])))"

definition next_socket :: "(sock_state \<times> main_imsg list) res option \<Rightarrow> (sock_state \<times> main_imsg list \<Rightarrow> (sock_state \<times> main_imsg list) res option) \<Rightarrow>
    (sock_state \<times> main_imsg list) res option" where
  "next_socket r f = (case r of Some (Inr x) \<Rightarrow> f x | _ \<Rightarrow> r)"

definition main_imsg_send_net_sockets ::
    "sock_sys \<Rightarrow> ldpd_conf \<Rightarrow> af \<Rightarrow> sock_state \<Rightarrow> (sock_state \<times> main_imsg list) res option" where
  "main_imsg_send_net_sockets k c af s =
     next_socket (main_imsg_send_net_socket k c af LDP_SOCKET_DISC (s, [])) (\<lambda>x.
     next_socket (main_imsg_send_net_socket k c af LDP_SOCKET_EDISC x) (\<lambda>x.
     next_socket (main_imsg_send_net_socket k c af LDP_SOCKET_SESSION x) (\<lambda>(s, ms).
     Some (Inr (s, ms @ [IMSG_SETUP_SOCKETS af])))))"

section \<open>What the calls did\<close>

definition on_socket :: "int \<Rightarrow> sock_call \<Rightarrow> bool" where
  "on_socket fd c \<longleftrightarrow>
     (case c of Call_setsockopt fd' _ _ _ \<Rightarrow> fd' = fd | Call_bind fd' _ _ \<Rightarrow> fd' = fd | Call_listen fd' _ _ \<Rightarrow> fd' = fd | _ \<Rightarrow> False)"

text \<open>
  \<open>grows fd P s r\<close>: the result \<open>r\<close> has added calls on the socket \<open>fd\<close> only, none of which closes it; unless it
  is a failure, the calls \<open>P\<close> are among them.
\<close>

definition grows :: "int \<Rightarrow> sock_call set \<Rightarrow> sock_state \<Rightarrow> int \<times> sock_state \<Rightarrow> bool" where
  "grows fd P s r \<longleftrightarrow>
     (\<exists>cs. ss_calls (snd r) = ss_calls s @ cs \<and> (\<forall>c\<in>set cs. on_socket fd c) \<and> (fst r \<noteq> -1 \<longrightarrow> P \<subseteq> set cs))"

lemma grows_and_then:
  assumes "grows fd P s r" "\<And>t. grows fd Q t (f t)"
  shows "grows fd (P \<union> Q) s (and_then r f)"
proof -
  obtain cs where 1: "ss_calls (snd r) = ss_calls s @ cs" "\<forall>c\<in>set cs. on_socket fd c" "fst r \<noteq> -1 \<longrightarrow> P \<subseteq> set cs"
    using assms(1) by (auto simp: grows_def)
  obtain ds where 2: "ss_calls (snd (f (snd r))) = ss_calls (snd r) @ ds" "\<forall>c\<in>set ds. on_socket fd c"
      "fst (f (snd r)) \<noteq> -1 \<longrightarrow> Q \<subseteq> set ds"
    using assms(2) [of "snd r"] by (auto simp: grows_def)
  from 1 2 show ?thesis
    unfolding grows_def and_then_def by (cases "fst r = -1") (auto intro!: exI [of _ "cs @ ds"])
qed

lemma grows_only_if: "(\<And>t. b \<Longrightarrow> grows fd P t (f t)) \<Longrightarrow> grows fd (if b then P else {}) s (only_if b f s)"
  by (auto simp: only_if_def grows_def)

lemma grows_set: "grows fd {Call_setsockopt fd opt v Opt_ok} s (sock_set k s fd opt v)"
  by (auto simp: grows_def sock_set_def setsockopt_def call_def Let_def on_socket_def)

lemma grows_bind: "grows fd {Call_bind fd sa True} s (sock_bind k fd sa s)"
  by (auto simp: grows_def sock_bind_def call_def Let_def on_socket_def)

lemmas sock_sets =
  sock_set_reuse_def sock_set_bindany_def sock_set_ipv4_tos_def sock_set_ipv4_recvif_def sock_set_ipv4_minttl_def
  sock_set_ipv4_ucast_ttl_def sock_set_ipv4_mcast_ttl_def sock_set_ipv4_mcast_loop_def sock_set_ipv6_dscp_def
  sock_set_ipv6_pktinfo_def sock_set_ipv6_minhopcount_def sock_set_ipv6_ucast_hops_def sock_set_ipv6_mcast_hops_def
  sock_set_ipv6_mcast_loop_def

text \<open>The protection of the hop count (GTSM): what a packet from further away cannot pass.\<close>

definition gtsm_calls :: "ldpd_conf \<Rightarrow> int \<Rightarrow> af \<Rightarrow> socket_type \<Rightarrow> sock_call set" where
  "gtsm_calls c fd af type =
     (case (af, type) of
        (AF_INET6, LDP_SOCKET_DISC) \<Rightarrow>
          if has_flag (ac_flags (xc_ipv6 c)) F_LDPD_AF_NO_GTSM then {} else {Call_setsockopt fd IPV6_MINHOPCOUNT 255 Opt_ok}
      | (AF_INET, LDP_SOCKET_SESSION) \<Rightarrow> {Call_setsockopt fd IP_TTL 255 Opt_ok}
      | (AF_INET6, LDP_SOCKET_SESSION) \<Rightarrow> {Call_setsockopt fd IPV6_UNICAST_HOPS 255 Opt_ok}
      | _ \<Rightarrow> {})"

lemma grows_mono: "grows fd P s r \<Longrightarrow> Q \<subseteq> P \<Longrightarrow> grows fd Q s r"
  by (force simp: grows_def)

lemma af_options_grows: "grows fd (gtsm_calls c fd af type) s (af_options k c fd af type s)"
proof (cases af)
  case AF_INET
  show ?thesis unfolding AF_INET af_options_def af.case sock_sets
    by (rule grows_mono, (rule grows_and_then grows_only_if grows_set)+) (auto simp: gtsm_calls_def split: socket_type.split)
next
  case AF_INET6
  show ?thesis unfolding AF_INET6 af_options_def af.case sock_sets
    by (rule grows_mono, (rule grows_and_then grows_only_if grows_set)+) (auto simp: gtsm_calls_def split: socket_type.split)
qed (auto simp: af_options_def gtsm_calls_def grows_def)

lemma recvbuf_calls:
  assumes "recvbuf_loop k fd n s = Some s'"
  shows "\<exists>cs. ss_calls s' = ss_calls s @ cs \<and> (\<forall>c\<in>set cs. on_socket fd c)"
proof (rule recvbuf_loop.raw_induct [OF _ assms])
  fix f k fd n s s'
  assume IH: "\<And>k fd n s s'. f k fd n s = Some s' \<Longrightarrow> \<exists>cs. ss_calls s' = ss_calls s @ cs \<and> (\<forall>c\<in>set cs. on_socket fd c)"
    and run: "(let (r, s1) = setsockopt k s fd SO_RCVBUF n in if r = Opt_ok then Some s1 else f k fd (n div 2) s1) = Some s'"
  obtain r s1 where r: "setsockopt k s fd SO_RCVBUF n = (r, s1)" by fastforce
  then have s1: "ss_calls s1 = ss_calls s @ [Call_setsockopt fd SO_RCVBUF n r]" by (auto simp: setsockopt_def call_def Let_def)
  show "\<exists>cs. ss_calls s' = ss_calls s @ cs \<and> (\<forall>c\<in>set cs. on_socket fd c)"
  proof (cases "r = Opt_ok")
    case True
    with run r s1 show ?thesis by (auto simp: on_socket_def)
  next
    case False
    with run r have "f k fd (n div 2) s1 = Some s'" by simp
    from IH [OF this] obtain cs where "ss_calls s' = ss_calls s1 @ cs" "\<forall>c\<in>set cs. on_socket fd c" by blast
    with s1 show ?thesis by (auto simp: on_socket_def)
  qed
qed

text \<open>Sockets that were made and not closed.\<close>

fun open_after :: "int list \<Rightarrow> sock_call list \<Rightarrow> int list" where
  "open_after fds [] = fds"
| "open_after fds (c # cs) =
     open_after (case c of
         Call_socket _ _ fd \<Rightarrow> if fd = -1 then fds else fd # fds
       | Call_close fd \<Rightarrow> remove1 fd fds
       | _ \<Rightarrow> fds) cs"

lemma open_after_append: "open_after fds (cs @ ds) = open_after (open_after fds cs) ds"
  by (induction fds cs rule: open_after.induct) auto

lemma open_after_on: "\<forall>c\<in>set cs. on_socket fd c \<Longrightarrow> open_after fds cs = fds"
  by (induction cs) (auto simp: on_socket_def split: sock_call.splits)

lemma local_sa_total: "af \<noteq> AF_UNSPEC \<Longrightarrow> \<exists>sa. local_sa c af type = Inr sa"
  by (cases af; cases type) (simp_all add: local_sa_def addr2sa_def)

lemma finish_calls:
  assumes "finish_socket k fd type s = Some (r, s')"
  shows "\<exists>cs. (\<forall>c\<in>set cs. on_socket fd c) \<and>
    (r = fd \<and> ss_calls s' = ss_calls s @ cs \<and> (type = LDP_SOCKET_SESSION \<longrightarrow> (\<exists>b. Call_listen fd LDP_BACKLOG b \<in> set cs)) \<or>
     r = -1 \<and> ss_calls s' = ss_calls s @ cs @ [Call_close fd])"
proof (cases "type = LDP_SOCKET_SESSION")
  case True
  obtain b where l: "ss_calls (sock_listen k fd s) = ss_calls s @ [Call_listen fd LDP_BACKLOG b]"
    by (simp add: sock_listen_def call_def)
  obtain x s1 where x: "setsockopt k (sock_listen k fd s) fd TCP_MD5SIG 1 = (x, s1)" by fastforce
  then have s1: "ss_calls s1 = ss_calls s @ [Call_listen fd LDP_BACKLOG b, Call_setsockopt fd TCP_MD5SIG 1 x]"
    using l by (auto simp: setsockopt_def call_def Let_def)
  show ?thesis
    by (rule exI [of _ "[Call_listen fd LDP_BACKLOG b, Call_setsockopt fd TCP_MD5SIG 1 x]"])
      (use assms True x s1 in \<open>auto simp: finish_socket_def on_socket_def call_def split: opt_result.splits\<close>)
next
  case False
  then have "sock_set_recvbuf k fd s = Some s'" "r = fd" using assms by (cases type; auto simp: finish_socket_def)+
  moreover from this(1) obtain cs where "ss_calls s' = ss_calls s @ cs" "\<forall>c\<in>set cs. on_socket fd c"
    using recvbuf_calls unfolding sock_set_recvbuf_def by blast
  ultimately show ?thesis using False by blast
qed

text \<open>
  C29: \<^verbatim>\<open>ldp_create_socket\<close> leaks no descriptor: when it returns a socket, that socket and no other is open
  in addition to those open before, it is bound to the port of the protocol, a session socket listens, and
  the hop count that protects the protocol is set as configured; when it returns -1, the same descriptors
  are open as before, on every path of failure.
\<close>

theorem create_socket_no_leak:
  assumes "ldp_create_socket k c af type s = Some (Inr (fd, s'))"
  shows "\<exists>cs. ss_calls s' = ss_calls s @ cs \<and>
    (if fd = -1 then open_after fds cs = fds
     else open_after fds cs = fd # fds \<and>
       (\<exists>sa. local_sa c af type = Inr sa \<and> Call_bind fd sa True \<in> set cs) \<and> gtsm_calls c fd af type \<subseteq> set cs \<and>
       (type = LDP_SOCKET_SESSION \<longrightarrow> (\<exists>b. Call_listen fd LDP_BACKLOG b \<in> set cs)))"
proof -
  define d where "d = sk_socket k (ss_calls s) af type"
  define s1 where "s1 = call s (Call_socket af type d)"
  have s1: "ss_calls s1 = ss_calls s @ [Call_socket af type d]" by (simp add: s1_def call_def)
  note run = assms [unfolded ldp_create_socket_def, folded d_def, unfolded Let_def, folded s1_def]
  show ?thesis
  proof (cases "d = -1")
    case True
    with run s1 show ?thesis by (auto intro!: exI [of _ "[Call_socket af type d]"])
  next
    case False
    then obtain sa where sa: "local_sa c af type = Inr sa" using run by (auto split: sum.splits)
    define r where "r = and_then (only_if (type \<noteq> LDP_SOCKET_DISC) (sock_set_bindany k d 1) s1) (\<lambda>s.
               and_then (sock_set_reuse k d 1 s) (\<lambda>s. and_then (sock_bind k d sa s) (af_options k c d af type)))"
    have "grows d ((if type \<noteq> LDP_SOCKET_DISC then {Call_setsockopt d SO_BINDANY 1 Opt_ok} else {}) \<union>
        ({Call_setsockopt d SO_REUSEADDR 1 Opt_ok} \<union> ({Call_bind d sa True} \<union> gtsm_calls c d af type))) s1 r"
      unfolding r_def sock_set_bindany_def sock_set_reuse_def
      by (intro grows_and_then grows_only_if grows_set grows_bind af_options_grows)
    then obtain cs where cs: "ss_calls (snd r) = ss_calls s1 @ cs" "\<forall>c\<in>set cs. on_socket d c"
        "fst r \<noteq> -1 \<longrightarrow> Call_bind d sa True \<in> set cs \<and> gtsm_calls c d af type \<subseteq> set cs"
      by (auto simp: grows_def)
    show ?thesis
    proof (cases "fst r = -1")
      case True
      with run False sa have "fd = -1" "s' = call (snd r) (Call_close d)" by (simp_all add: r_def [symmetric] split_beta)
      with cs s1 False show ?thesis
        by (auto simp: call_def open_after_append open_after_on intro!: exI [of _ "Call_socket af type d # cs @ [Call_close d]"])
    next
      case ok: False
      with run False sa have "finish_socket k d type (snd r) = Some (fd, s')" by (simp add: r_def [symmetric] split_beta)
      from finish_calls [OF this] obtain ds where ds: "\<forall>c\<in>set ds. on_socket d c"
        "fd = d \<and> ss_calls s' = ss_calls (snd r) @ ds \<and> (type = LDP_SOCKET_SESSION \<longrightarrow> (\<exists>b. Call_listen d LDP_BACKLOG b \<in> set ds)) \<or>
         fd = -1 \<and> ss_calls s' = ss_calls (snd r) @ ds @ [Call_close d]" by blast
      then show ?thesis
      proof (elim disjE conjE)
        assume "fd = d" "ss_calls s' = ss_calls (snd r) @ ds" "type = LDP_SOCKET_SESSION \<longrightarrow> (\<exists>b. Call_listen d LDP_BACKLOG b \<in> set ds)"
        with cs ds(1) s1 False ok sa show ?thesis
          by (auto simp: open_after_append open_after_on intro!: exI [of _ "Call_socket af type d # cs @ ds"])
      next
        assume "fd = -1" "ss_calls s' = ss_calls (snd r) @ ds @ [Call_close d]"
        with cs ds(1) s1 False show ?thesis
          by (auto simp: open_after_append open_after_on intro!: exI [of _ "Call_socket af type d # cs @ ds @ [Call_close d]"])
      qed
    qed
  qed
qed

text \<open>A system that grants every request, and one that refuses the options of version 6.\<close>

definition demo_sockets :: sock_sys where
  "demo_sockets = \<lparr>sk_socket = \<lambda>_ _ _. 9, sk_setsockopt = \<lambda>_ _ _ _. Opt_ok, sk_bind = \<lambda>_ _ _. True, sk_listen = \<lambda>_ _ _. True\<rparr>"

definition demo_sock_conf :: ldpd_conf where
  "demo_sock_conf =
     (let a = \<lparr>ac_keepalive = 0, ac_thello_holdtime = 0, ac_thello_interval = 0, ac_trans_addr = replicate 16 0, ac_flags = 0\<rparr>
      in \<lparr>xc_rtr_id = 0, xc_ipv4 = a, xc_ipv6 = a, xc_iface_list = [], xc_tnbr_list = [], xc_nbrp_list = [], xc_l2vpn_list = [],
          xc_trans_pref = 0, xc_flags = 0\<rparr>)"

theorem create_socket_no_leak_witness:
  "\<exists>s' cs. ldp_create_socket demo_sockets demo_sock_conf AF_INET6 LDP_SOCKET_SESSION \<lparr>ss_calls = [], ss_no_md5sig = False\<rparr> = Some (Inr (9, s')) \<and>
    ss_calls s' = cs \<and> open_after [4] cs = [9, 4] \<and> Call_setsockopt 9 IPV6_UNICAST_HOPS 255 Opt_ok \<in> set cs \<and>
    (\<exists>b. Call_listen 9 LDP_BACKLOG b \<in> set cs)"
proof -
  obtain s' where s': "ldp_create_socket demo_sockets demo_sock_conf AF_INET6 LDP_SOCKET_SESSION \<lparr>ss_calls = [], ss_no_md5sig = False\<rparr> = Some (Inr (9, s'))"
    by (simp add: ldp_create_socket_def demo_sockets_def local_sa_def demo_sock_conf_def addr2sa_def Let_def and_then_def only_if_def sock_sets
        sock_set_def setsockopt_def sock_bind_def af_options_def finish_socket_def)
  from create_socket_no_leak [OF this, of "[4]"] s' show ?thesis by (auto simp: gtsm_calls_def)
qed

section \<open>The receive buffer\<close>

lemma recvbuf_step:
  "recvbuf_loop k fd n s = (if sk_setsockopt k (ss_calls s) fd SO_RCVBUF n = Opt_ok
     then Some (call s (Call_setsockopt fd SO_RCVBUF n Opt_ok))
     else recvbuf_loop k fd (n div 2) (call s (Call_setsockopt fd SO_RCVBUF n (sk_setsockopt k (ss_calls s) fd SO_RCVBUF n))))"
  by (subst recvbuf_loop.simps) (simp add: setsockopt_def Let_def)

lemma recvbuf_accepts:
  assumes "\<And>cs. sk_setsockopt k cs fd SO_RCVBUF (n div 2 ^ i) = Opt_ok"
  shows "\<exists>s'. recvbuf_loop k fd n s = Some s'"
  using assms
proof (induction i arbitrary: n s)
  case 0
  then show ?case by (subst recvbuf_step) simp
next
  case (Suc i)
  have "n div 2 div 2 ^ i = n div 2 ^ Suc i" by (simp add: zdiv_zmult2_eq)
  then have "\<exists>s'. recvbuf_loop k fd (n div 2) t = Some s'" for t using Suc.IH [of "n div 2" t] Suc.prems by simp
  then show ?case by (subst recvbuf_step) simp
qed

lemma recvbuf_accepted:
  assumes "recvbuf_loop k fd n s = Some s'"
  shows "\<exists>cs v. sk_setsockopt k cs fd SO_RCVBUF v = Opt_ok"
proof (rule recvbuf_loop.raw_induct [OF _ assms])
  fix f k fd n s s'
  assume IH: "\<And>k fd n s s'. f k fd n s = Some s' \<Longrightarrow> \<exists>cs v. sk_setsockopt k cs fd SO_RCVBUF v = Opt_ok"
    and run: "(let (r, s1) = setsockopt k s fd SO_RCVBUF n in if r = Opt_ok then Some s1 else f k fd (n div 2) s1) = Some s'"
  show "\<exists>cs v. sk_setsockopt k cs fd SO_RCVBUF v = Opt_ok"
  proof (cases "sk_setsockopt k (ss_calls s) fd SO_RCVBUF n = Opt_ok")
    case False
    with run IH show ?thesis by (simp add: setsockopt_def Let_def)
  qed blast
qed

text \<open>
  The loop that sets the receive buffer ends as soon as the system accepts one of the sizes 65535,
  32767, ..., 1, 0, and never ends when the system refuses every size: nothing stops it at size 0.
\<close>

theorem recvbuf_returns:
  "((\<exists>i. \<forall>cs. sk_setsockopt k cs fd SO_RCVBUF (65535 div 2 ^ i) = Opt_ok) \<longrightarrow> (\<exists>s'. sock_set_recvbuf k fd s = Some s')) \<and>
   ((\<forall>cs v. sk_setsockopt k cs fd SO_RCVBUF v \<noteq> Opt_ok) \<longrightarrow> sock_set_recvbuf k fd s = None)"
  using recvbuf_accepts [of k fd 65535] recvbuf_accepted [of k fd 65535 s]
  by (auto simp: sock_set_recvbuf_def simp del: not_None_eq) (metis not_None_eq)

definition demo_refusing :: sock_sys where
  "demo_refusing = demo_sockets\<lparr>sk_setsockopt := \<lambda>_ _ opt _. if opt = SO_RCVBUF then Opt_failed else Opt_ok\<rparr>"

theorem recvbuf_returns_witness:
  "(\<exists>s'. sock_set_recvbuf demo_sockets 9 \<lparr>ss_calls = [], ss_no_md5sig = False\<rparr> = Some s') \<and>
   sock_set_recvbuf demo_refusing 9 \<lparr>ss_calls = [], ss_no_md5sig = False\<rparr> = None"
  using recvbuf_returns [of demo_sockets 9 "\<lparr>ss_calls = [], ss_no_md5sig = False\<rparr>"]
    recvbuf_returns [of demo_refusing 9 "\<lparr>ss_calls = [], ss_no_md5sig = False\<rparr>"]
  by (simp add: demo_sockets_def demo_refusing_def)

end
