(* ===== verification/Parent_Conf.thy ===== *)
theory Parent_Conf
  imports Conf_Transfer Parent_Socket Kr_Rtsock
begin

text \<open>
  The parent process: the reload of the configuration (\<^verbatim>\<open>ldp_reload\<close> and \<^verbatim>\<open>merge_config\<close> of \<^verbatim>\<open>ldpd.c\<close> as it runs
  in the process \<^verbatim>\<open>PROC_MAIN\<close>) and the requests of the protocol engine (\<^verbatim>\<open>main_dispatch_ldpe\<close>). The parser
  (\<^verbatim>\<open>parse.y\<close>) is generated code: the configuration it returns, or its failure, is an argument. What the
  parent sends to the protocol engine alone goes through the log of its tables; the messages of a
  configuration, which go to both engines, are a list of their own.

  Each list of the configuration is merged in the same way: entries of the running configuration that
  are not in the new one go, and each entry of the new one goes to the head of the list or updates the
  entry with its key. \<open>merge_list\<close> is this pattern, and the interface \<open>keyed_merge\<close> its contract.
\<close>

section \<open>Merging lists by key\<close>

definition merge_entry :: "('a \<Rightarrow> 'k) \<Rightarrow> ('a \<Rightarrow> 'a \<Rightarrow> 'a) \<Rightarrow> 'a list \<Rightarrow> 'a \<Rightarrow> 'a list" where
  "merge_entry key upd l x =
     (if find (\<lambda>a. key a = key x) l = None then x # l else upd_first (\<lambda>a. key a = key x) (\<lambda>a. upd a x) l)"

definition merge_list :: "('a \<Rightarrow> 'k) \<Rightarrow> ('a \<Rightarrow> 'a \<Rightarrow> 'a) \<Rightarrow> 'a list \<Rightarrow> 'a list \<Rightarrow> 'a list" where
  "merge_list key upd old new =
     foldl (merge_entry key upd) (filter (\<lambda>a. find (\<lambda>x. key x = key a) new \<noteq> None) old) new"

text \<open>
  \<open>view\<close> is what the configuration says of an entry: an entry that is updated has the view of the new one,
  and stays \<open>good\<close>.
\<close>

locale keyed_merge =
  fixes key :: "'a \<Rightarrow> 'k" and upd :: "'a \<Rightarrow> 'a \<Rightarrow> 'a" and view :: "'a \<Rightarrow> 'v" and kv :: "'v \<Rightarrow> 'k" and good :: "'a \<Rightarrow> bool"
  assumes view_upd: "good a \<Longrightarrow> good x \<Longrightarrow> key a = key x \<Longrightarrow> view (upd a x) = view x \<and> good (upd a x)"
    and kv: "kv (view a) = key a"
begin

definition goods :: "'a list \<Rightarrow> bool" where
  "goods l \<longleftrightarrow> distinct (map key l) \<and> (\<forall>a\<in>set l. good a)"

lemma key_upd: "good a \<Longrightarrow> good x \<Longrightarrow> key a = key x \<Longrightarrow> key (upd a x) = key x"
  using view_upd kv by metis

lemma updates_first:
  assumes "goods l" "key x \<in> key ` set l" and x: "good x"
  shows "goods (upd_first (\<lambda>a. key a = key x) (\<lambda>a. upd a x) l) \<and> key ` set (upd_first (\<lambda>a. key a = key x) (\<lambda>a. upd a x) l) = key ` set l \<and>
    view ` set (upd_first (\<lambda>a. key a = key x) (\<lambda>a. upd a x) l) = insert (view x) {v \<in> view ` set l. kv v \<noteq> key x}"
  using assms(1,2)
proof (induction l)
  case (Cons a l)
  show ?case
  proof (cases "key a = key x")
    case True
    then have no: "key x \<notin> key ` set l" using Cons.prems(1) by (simp add: goods_def)
    then have "\<forall>b\<in>set l. key b \<noteq> key x" by (metis image_eqI)
    then have "{v \<in> view ` set (a # l). kv v \<noteq> key x} = view ` set l" using True by (auto simp: kv)
    with True Cons.prems(1) x show ?thesis by (simp add: goods_def key_upd view_upd)
  next
    case False
    with Cons.prems have l: "goods l" "key x \<in> key ` set l" "key a \<notin> key ` set l" "good a" by (auto simp: goods_def)
    then show ?thesis using Cons.IH False by (auto simp: kv goods_def)
  qed
qed simp

lemma entry:
  assumes d: "goods l" and x: "good x"
  shows "goods (merge_entry key upd l x) \<and> view ` set (merge_entry key upd l x) = insert (view x) {v \<in> view ` set l. kv v \<noteq> key x}"
proof (cases "find (\<lambda>a. key a = key x) l")
  case None
  then have no: "\<forall>a\<in>set l. key a \<noteq> key x" by (simp add: find_None_iff)
  then have "{v \<in> view ` set l. kv v \<noteq> key x} = view ` set l" "key x \<notin> key ` set l" by (auto simp: kv)
  with None d x show ?thesis by (simp add: merge_entry_def goods_def)
next
  case (Some a)
  then have "a \<in> set l" "key a = key x" by (auto simp: find_Some_iff)
  then have "key x \<in> key ` set l" by (metis image_eqI)
  with Some updates_first [OF d _ x] show ?thesis by (simp add: merge_entry_def)
qed

lemma entries:
  assumes "goods l" "goods xs"
  shows "goods (foldl (merge_entry key upd) l xs) \<and>
    view ` set (foldl (merge_entry key upd) l xs) = view ` set xs \<union> {v \<in> view ` set l. kv v \<notin> key ` set xs}"
  using assms
proof (induction xs arbitrary: l)
  case (Cons x xs)
  let ?m = "merge_entry key upd l x"
  have m: "goods ?m" "view ` set ?m = insert (view x) {v \<in> view ` set l. kv v \<noteq> key x}"
    using entry [OF Cons.prems(1), of x] Cons.prems(2) by (simp_all add: goods_def)
  have x: "key x \<notin> key ` set xs" using Cons.prems(2) by (simp add: goods_def)
  have "{v \<in> view ` set ?m. kv v \<notin> key ` set xs} = insert (view x) {v \<in> view ` set l. kv v \<notin> key ` set (x # xs)}"
    using x unfolding m(2) by (auto simp: kv)
  then show ?case using Cons.IH [OF m(1)] Cons.prems(2) by (simp add: goods_def)
qed simp

lemma merges:
  assumes "goods old" "goods new"
  shows "view ` set (merge_list key upd old new) = view ` set new" "goods (merge_list key upd old new)"
proof -
  define l where "l = filter (\<lambda>a. find (\<lambda>x. key x = key a) new \<noteq> None) old"
  have g: "goods l" unfolding l_def using assms(1) by (simp add: goods_def distinct_map_filter)
  have "key a \<in> key ` set new" if "a \<in> set l" for a
  proof -
    have "find (\<lambda>x. key x = key a) new \<noteq> None" using that by (simp add: l_def)
    then obtain x where "x \<in> set new" "key x = key a" unfolding find_None_iff by blast
    then show ?thesis by (metis image_eqI)
  qed
  then have "{v \<in> view ` set l. kv v \<notin> key ` set new} = {}" by (auto simp: kv)
  then show "view ` set (merge_list key upd old new) = view ` set new" "goods (merge_list key upd old new)"
    using entries [OF g assms(2)] unfolding merge_list_def l_def [symmetric] by (metis Un_empty_right)+
qed

end

section \<open>Merging the configuration\<close>

record parent =
  pa_conf :: ldpd_conf
  pa_kr :: kr_state
  pa_socks :: sock_state
  pa_verbose :: int
  pa_reconf :: "reconf_imsg list"

definition main_merge_global :: "ldpd_conf \<Rightarrow> ldpd_conf \<Rightarrow> ldpd_conf" where
  "main_merge_global c x = c\<lparr>xc_rtr_id := xc_rtr_id x, xc_trans_pref := xc_trans_pref x, xc_flags := xc_flags x\<rparr>"

text \<open>The new parameters of a family, and what else the parent does: the egress labels of its routes and the sockets.\<close>

definition main_merge_af_conf :: "af \<Rightarrow> ldpd_af_conf \<Rightarrow> ldpd_af_conf \<Rightarrow> (ldpd_af_conf \<times> bool) res" where
  "main_merge_af_conf af c xa =
     (let gtsm_changed = (ac_flags c AND F_LDPD_AF_NO_GTSM \<noteq> ac_flags xa AND F_LDPD_AF_NO_GTSM \<and> af = AF_INET6);
          c1 = c\<lparr>ac_keepalive := ac_keepalive xa, ac_thello_holdtime := ac_thello_holdtime xa,
                 ac_thello_interval := ac_thello_interval xa, ac_flags := ac_flags xa\<rparr>
      in bindE (ldp_addrcmp af (ac_trans_addr c1) (ac_trans_addr xa)) (\<lambda>d.
         if d \<noteq> 0 then Inr (c1\<lparr>ac_trans_addr := ac_trans_addr xa\<rparr>, True) else Inr (c1, gtsm_changed)))"

definition main_merge_af :: "af \<Rightarrow> kr_state \<Rightarrow> ldpd_af_conf \<Rightarrow> ldpd_af_conf \<Rightarrow> (kr_state \<times> ldpd_af_conf) res" where
  "main_merge_af af k c xa =
     (let k1 = (if ac_flags c AND F_LDPD_AF_EXPNULL \<noteq> ac_flags xa AND F_LDPD_AF_EXPNULL
                then kr_change_egress_label k af (has_flag (ac_flags xa) F_LDPD_AF_EXPNULL) else k)
      in bindE (main_merge_af_conf af c xa) (\<lambda>(c1, update_sockets).
         Inr (if update_sockets then kr_emit k1 (To_ldpe (IMSG_CLOSE_SOCKETS af)) else k1, c1)))"

definition main_merge_iface_af :: "iface_af \<Rightarrow> iface_af \<Rightarrow> iface_af" where
  "main_merge_iface_af ia xi =
     ia\<lparr>ia_enabled := ia_enabled xi, ia_hello_holdtime := ia_hello_holdtime xi, ia_hello_interval := ia_hello_interval xi\<rparr>"

definition merged_iface :: "iface \<Rightarrow> iface \<Rightarrow> iface" where
  "merged_iface ifc xi =
     ifc\<lparr>if_ipv4 := main_merge_iface_af (if_ipv4 ifc) (if_ipv4 xi), if_ipv6 := main_merge_iface_af (if_ipv6 ifc) (if_ipv6 xi)\<rparr>"

definition main_merge_iface :: "kr_state \<times> iface list \<Rightarrow> iface \<Rightarrow> kr_state \<times> iface list" where
  "main_merge_iface st xi =
     (case st of (k, ifs) \<Rightarrow>
        if xc_if_lookup ifs (ucast (if_ifindex xi)) = None then (kif_redistribute k (Some (if_name xi)), xi # ifs)
        else (k, upd_first (\<lambda>ifc. if_ifindex ifc = ucast (ucast (if_ifindex xi) :: u16)) (\<lambda>ifc. merged_iface ifc xi) ifs))"

definition main_merge_ifaces :: "kr_state \<Rightarrow> iface list \<Rightarrow> iface list \<Rightarrow> kr_state \<times> iface list" where
  "main_merge_ifaces k ifs xifs =
     foldl main_merge_iface (k, filter (\<lambda>ifc. xc_if_lookup xifs (ucast (if_ifindex ifc)) \<noteq> None) ifs) xifs"

text \<open>In the parent every targeted neighbour that is no longer configured is freed.\<close>

definition merged_tnbr :: "tnbr \<Rightarrow> tnbr \<Rightarrow> tnbr" where
  "merged_tnbr tn xt =
     tn\<lparr>t_flags := set_flag (t_flags tn) F_TNBR_CONFIGURED, t_hello_holdtime := t_hello_holdtime xt,
        t_hello_interval := t_hello_interval xt\<rparr>"

definition keep_tnbr :: "tnbr list \<Rightarrow> tnbr list \<Rightarrow> tnbr \<Rightarrow> tnbr list res" where
  "keep_tnbr xts ts tn =
     (if \<not> has_flag (t_flags tn) F_TNBR_CONFIGURED then Inr (ts @ [tn])
      else bindE (xc_tnbr_find xts (t_af tn) (t_addr tn)) (\<lambda>r. Inr (if r = None then ts else ts @ [tn])))"

definition same_tnbr :: "tnbr \<Rightarrow> tnbr \<Rightarrow> bool" where
  "same_tnbr xt tn \<longleftrightarrow>
     t_af xt = t_af tn \<and> (if t_af tn = AF_INET then v4 (t_addr xt) = v4 (t_addr tn) else t_addr xt = t_addr tn)"

definition main_merge_tnbr :: "tnbr list \<Rightarrow> tnbr \<Rightarrow> tnbr list res" where
  "main_merge_tnbr ts xt =
     bindE (xc_tnbr_find ts (t_af xt) (t_addr xt)) (\<lambda>r.
     Inr (if r = None then xt # ts else upd_first (same_tnbr xt) (\<lambda>tn. merged_tnbr tn xt) ts))"

definition main_merge_tnbrs :: "tnbr list \<Rightarrow> tnbr list \<Rightarrow> tnbr list res" where
  "main_merge_tnbrs ts xts = bindE (foldE (keep_tnbr xts) ts []) (\<lambda>ts1. foldE main_merge_tnbr xts ts1)"

definition main_merge_nbrps :: "nbr_params list \<Rightarrow> nbr_params list \<Rightarrow> nbr_params list" where
  "main_merge_nbrps ns xns = merge_list np_lsr_id (\<lambda>_ xn. xn) ns xns"

text \<open>
  The pseudowires: \<^verbatim>\<open>ldp_addrcmp\<close> compares the addresses of an existing one in every process, though the
  parent does not use the result.
\<close>

definition main_take_pw :: "l2vpn_pw list \<Rightarrow> l2vpn_pw \<Rightarrow> l2vpn_pw list res" where
  "main_take_pw ps xp =
     (case l2vpn_pw_find ps (pw_ifindex xp) of
        None \<Rightarrow> Inr (xp # ps)
      | Some pw \<Rightarrow>
          bindE (if pw_af pw \<noteq> pw_af xp then Inr 0 else ldp_addrcmp (pw_af pw) (pw_addr pw) (pw_addr xp)) (\<lambda>_.
          Inr (upd_first (\<lambda>p. pw_ifindex p = pw_ifindex xp) (\<lambda>p. merged_pw p xp) ps)))"

definition main_merge_l2vpn :: "conf_l2vpn \<Rightarrow> conf_l2vpn \<Rightarrow> conf_l2vpn res" where
  "main_merge_l2vpn l xl =
     bindE (foldE main_take_pw (cl_pw_list xl) (filter (\<lambda>pw. l2vpn_pw_find (cl_pw_list xl) (pw_ifindex pw) \<noteq> None) (cl_pw_list l))) (\<lambda>ps.
     Inr (l\<lparr>cl_if_list := merge_l2vpn_ifs (cl_if_list l) (cl_if_list xl), cl_pw_list := ps, cl_pw_type := cl_pw_type xl,
            cl_mtu := cl_mtu xl, cl_br_ifname := cl_br_ifname xl, cl_br_ifindex := cl_br_ifindex xl\<rparr>))"

definition main_take_l2vpn :: "conf_l2vpn list \<Rightarrow> conf_l2vpn \<Rightarrow> conf_l2vpn list res" where
  "main_take_l2vpn ls xl =
     (case l2vpn_find ls (cl_name xl) of
        None \<Rightarrow> Inr (xl # ls)
      | Some l \<Rightarrow> bindE (main_merge_l2vpn l xl) (\<lambda>l1. Inr (upd_first (\<lambda>l. cl_name l = cl_name xl) (\<lambda>_. l1) ls)))"

definition main_merge_l2vpns :: "conf_l2vpn list \<Rightarrow> conf_l2vpn list \<Rightarrow> conf_l2vpn list res" where
  "main_merge_l2vpns ls xls = foldE main_take_l2vpn xls (filter (\<lambda>l. l2vpn_find xls (cl_name l) \<noteq> None) ls)"

definition main_merge_config :: "kr_state \<Rightarrow> ldpd_conf \<Rightarrow> ldpd_conf \<Rightarrow> (kr_state \<times> ldpd_conf) res" where
  "main_merge_config k c x =
     (let c1 = main_merge_global c x in
      bindE (main_merge_af AF_INET k (xc_ipv4 c1) (xc_ipv4 x)) (\<lambda>(k1, a4).
      bindE (main_merge_af AF_INET6 k1 (xc_ipv6 c1) (xc_ipv6 x)) (\<lambda>(k2, a6).
      let (k3, ifs) = main_merge_ifaces k2 (xc_iface_list c1) (xc_iface_list x) in
      bindE (main_merge_tnbrs (xc_tnbr_list c1) (xc_tnbr_list x)) (\<lambda>ts.
      bindE (main_merge_l2vpns (xc_l2vpn_list c1) (xc_l2vpn_list x)) (\<lambda>ls.
      Inr (k3, c1\<lparr>xc_ipv4 := a4, xc_ipv6 := a6, xc_iface_list := ifs, xc_tnbr_list := ts,
                  xc_nbrp_list := main_merge_nbrps (xc_nbrp_list c1) (xc_nbrp_list x), xc_l2vpn_list := ls\<rparr>))))))"

text \<open>The result of the parser is an argument; a failure leaves everything as it is.\<close>

definition ldp_reload :: "parent \<Rightarrow> ldpd_conf option \<Rightarrow> (int \<times> parent) res" where
  "ldp_reload p parsed =
     (case parsed of
        None \<Rightarrow> Inr (-1, p)
      | Some x \<Rightarrow>
          bindE (main_merge_config (pa_kr p) (pa_conf p) x) (\<lambda>(k, c).
          Inr (0, p\<lparr>pa_conf := c, pa_kr := k, pa_reconf := pa_reconf p @ main_imsg_send_config x\<rparr>)))"

section \<open>Requests of the protocol engine\<close>

datatype ifinfo_req = Ifinfo_all | Ifinfo_name string | Ifinfo_bad

datatype ldpe_request =
    REQUEST_SOCKETS af
  | CTL_RELOAD
  | CTL_FIB_COUPLE
  | CTL_FIB_DECOUPLE
  | CTL_KROUTE int show_req          \<comment> \<open>also \<^verbatim>\<open>IMSG_CTL_KROUTE_ADDR\<close>\<close>
  | CTL_IFINFO int ifinfo_req
  | CTL_LOG_VERBOSE int
  | CTL_OTHER

definition on_kr :: "parent \<Rightarrow> (kr_state \<Rightarrow> kr_state res) \<Rightarrow> parent res option" where
  "on_kr p f = Some (bindE (f (pa_kr p)) (\<lambda>k. Inr (p\<lparr>pa_kr := k\<rparr>)))"

text \<open>The sockets are sent through the log of messages to the protocol engine.\<close>

definition main_dispatch_ldpe ::
    "ksys \<Rightarrow> sock_sys \<Rightarrow> ldpd_conf option \<Rightarrow> ldpd_addr \<Rightarrow> parent \<Rightarrow> ldpe_request \<Rightarrow> parent res option" where
  "main_dispatch_ldpe y ks parsed addr p m =
     (case m of
        REQUEST_SOCKETS af \<Rightarrow>
          map_option (\<lambda>r. bindE r (\<lambda>(ss, ms).
            Inr (p\<lparr>pa_socks := ss, pa_kr := foldl (\<lambda>k m. kr_emit k (To_ldpe m)) (pa_kr p) ms\<rparr>)))
            (main_imsg_send_net_sockets ks (pa_conf p) af (pa_socks p))
      | CTL_RELOAD \<Rightarrow> Some (bindE (ldp_reload p parsed) (\<lambda>(_, q). Inr q))
      | CTL_FIB_COUPLE \<Rightarrow> on_kr p (kr_fib_couple y)
      | CTL_FIB_DECOUPLE \<Rightarrow> on_kr p (kr_fib_decouple y)
      | CTL_KROUTE pid req \<Rightarrow> on_kr p (\<lambda>k. kr_show_route k addr pid req)
      | CTL_IFINFO pid req \<Rightarrow>
          on_kr p (\<lambda>k. Inr (case req of
              Ifinfo_all \<Rightarrow> kr_ifinfo k None pid
            | Ifinfo_name n \<Rightarrow> kr_ifinfo k (Some n) pid
            | Ifinfo_bad \<Rightarrow> k))
      | CTL_LOG_VERBOSE v \<Rightarrow> Some (Inr (p\<lparr>pa_verbose := v\<rparr>))
      | CTL_OTHER \<Rightarrow> Some (Inr p))"

text \<open>\<^verbatim>\<open>config_clear\<close>: the empty configuration with the parameters of the running one.\<close>

definition main_config_clear :: "kr_state \<Rightarrow> ldpd_conf \<Rightarrow> (kr_state \<times> ldpd_conf) res" where
  "main_config_clear k c =
     main_merge_config k c (c\<lparr>xc_iface_list := [], xc_tnbr_list := [], xc_nbrp_list := [], xc_l2vpn_list := []\<rparr>)"

end
