(* ===== verification/Parent_Theorems.thy ===== *)
theory Parent_Theorems
  imports Parent_Conf Kr_Reach
begin

text \<open>
  The properties of the parent's reload: the running configuration becomes the one of the file, whatever
  was configured before, and both engines are sent that configuration.
\<close>

section \<open>What a configuration says\<close>

definition iface_af_view :: "iface_af \<Rightarrow> bool \<times> u16 \<times> u16" where
  "iface_af_view ia = (ia_enabled ia, ia_hello_holdtime ia, ia_hello_interval ia)"

definition iface_view :: "iface \<Rightarrow> u32 \<times> (bool \<times> u16 \<times> u16) \<times> (bool \<times> u16 \<times> u16)" where
  "iface_view ifc = (if_ifindex ifc, iface_af_view (if_ipv4 ifc), iface_af_view (if_ipv6 ifc))"

definition tnbr_key :: "tnbr \<Rightarrow> af \<times> ldpd_addr" where
  "tnbr_key tn = (t_af tn, if t_af tn = AF_INET then of_v4 (v4 (t_addr tn)) else t_addr tn)"

definition tnbr_view :: "tnbr \<Rightarrow> (af \<times> ldpd_addr) \<times> u16 \<times> u16" where
  "tnbr_view tn = (tnbr_key tn, t_hello_holdtime tn, t_hello_interval tn)"

definition pw_view :: "l2vpn_pw \<Rightarrow> u32 \<times> in_addr \<times> af \<times> ldpd_addr \<times> u32 \<times> string \<times> bool \<times> bool" where
  "pw_view pw = (pw_ifindex pw, pw_lsr_id pw, pw_af pw, pw_addr pw, pw_pwid pw, pw_ifname pw,
     has_flag (pw_flags pw) F_PW_CWORD_CONF, has_flag (pw_flags pw) F_PW_STATUSTLV_CONF)"

definition l2vpn_view where
  "l2vpn_view l = (cl_name l, cl_pw_type l, cl_mtu l, cl_br_ifname l, cl_br_ifindex l,
     lif_ifindex ` set (cl_if_list l), pw_view ` set (cl_pw_list l))"

definition af_view :: "af \<Rightarrow> ldpd_af_conf \<Rightarrow> u16 \<times> u16 \<times> u16 \<times> u32 \<times> ldpd_addr" where
  "af_view af c = (ac_keepalive c, ac_thello_holdtime c, ac_thello_interval c, ac_flags c,
     if af = AF_INET then of_v4 (v4 (ac_trans_addr c)) else ac_trans_addr c)"

definition conf_view where
  "conf_view c = ((xc_rtr_id c, xc_trans_pref c, xc_flags c), af_view AF_INET (xc_ipv4 c), af_view AF_INET6 (xc_ipv6 c),
     iface_view ` set (xc_iface_list c), tnbr_view ` set (xc_tnbr_list c), set (xc_nbrp_list c), l2vpn_view ` set (xc_l2vpn_list c))"

text \<open>
  What the parser guarantees: one entry of a key in each list, families that are set, configured targeted
  neighbours, and interfaces whose index fits the \<^verbatim>\<open>unsigned short\<close> of \<^verbatim>\<open>if_lookup\<close>.
\<close>

definition idx16 :: "iface \<Rightarrow> bool" where
  "idx16 ifc \<longleftrightarrow> ucast (ucast (if_ifindex ifc) :: u16) = if_ifindex ifc"

definition tnbr_good :: "tnbr \<Rightarrow> bool" where
  "tnbr_good tn \<longleftrightarrow> t_af tn \<noteq> AF_UNSPEC \<and> has_flag (t_flags tn) F_TNBR_CONFIGURED"

definition pw_good :: "l2vpn_pw \<Rightarrow> bool" where
  "pw_good pw \<longleftrightarrow> pw_af pw \<noteq> AF_UNSPEC"

definition l2vpn_good :: "conf_l2vpn \<Rightarrow> bool" where
  "l2vpn_good l \<longleftrightarrow>
     distinct (map lif_ifindex (cl_if_list l)) \<and> distinct (map pw_ifindex (cl_pw_list l)) \<and> (\<forall>pw\<in>set (cl_pw_list l). pw_good pw)"

definition conf_wf :: "ldpd_conf \<Rightarrow> bool" where
  "conf_wf c \<longleftrightarrow>
     distinct (map if_ifindex (xc_iface_list c)) \<and> (\<forall>ifc\<in>set (xc_iface_list c). idx16 ifc) \<and>
     distinct (map tnbr_key (xc_tnbr_list c)) \<and> (\<forall>tn\<in>set (xc_tnbr_list c). tnbr_good tn) \<and>
     distinct (map np_lsr_id (xc_nbrp_list c)) \<and>
     distinct (map cl_name (xc_l2vpn_list c)) \<and> (\<forall>l\<in>set (xc_l2vpn_list c). l2vpn_good l)"

section \<open>The lists\<close>

interpretation ifm: keyed_merge if_ifindex merged_iface iface_view fst idx16
  by unfold_locales (simp_all add: iface_view_def merged_iface_def main_merge_iface_af_def iface_af_view_def idx16_def)

interpretation tnm: keyed_merge tnbr_key merged_tnbr tnbr_view fst tnbr_good
  by unfold_locales (auto simp: tnbr_view_def tnbr_key_def merged_tnbr_def tnbr_good_def has_flag_def set_flag_def const_defs)

interpretation npm: keyed_merge np_lsr_id "\<lambda>_ xn. xn" "\<lambda>x. x" np_lsr_id "\<lambda>_. True"
  by unfold_locales simp_all

interpretation lfm: keyed_merge lif_ifindex "\<lambda>a _. a" lif_ifindex "\<lambda>x. x" "\<lambda>_. True"
  by unfold_locales simp_all

interpretation pwm: keyed_merge pw_ifindex merged_pw pw_view fst pw_good
proof
  have bits: "F_PW_CWORD_CONF \<noteq> 0" "F_PW_STATUSTLV_CONF \<noteq> 0" "F_PW_STATUSTLV_CONF AND F_PW_CWORD_CONF = 0"
    by (simp_all add: const_defs)
  show "pw_good a \<Longrightarrow> pw_good x \<Longrightarrow> pw_ifindex a = pw_ifindex x \<Longrightarrow> pw_view (merged_pw a x) = pw_view x \<and> pw_good (merged_pw a x)" for a x
    by (simp add: pw_view_def merged_pw_def Let_def pw_good_def bits has_flag_set_same has_flag_set_other has_flag_clear_same has_flag_clear_other)
qed (simp add: pw_view_def)

definition merged_l2vpn :: "conf_l2vpn \<Rightarrow> conf_l2vpn \<Rightarrow> conf_l2vpn" where
  "merged_l2vpn l xl = l\<lparr>cl_if_list := merge_list lif_ifindex (\<lambda>a _. a) (cl_if_list l) (cl_if_list xl),
     cl_pw_list := merge_list pw_ifindex merged_pw (cl_pw_list l) (cl_pw_list xl), cl_pw_type := cl_pw_type xl,
     cl_mtu := cl_mtu xl, cl_br_ifname := cl_br_ifname xl, cl_br_ifindex := cl_br_ifindex xl\<rparr>"

lemma goods_l2vpn:
  "l2vpn_good l \<Longrightarrow> lfm.goods (cl_if_list l)" "l2vpn_good l \<Longrightarrow> pwm.goods (cl_pw_list l)"
  by (simp_all add: l2vpn_good_def lfm.goods_def pwm.goods_def)

interpretation l2m: keyed_merge cl_name merged_l2vpn l2vpn_view fst l2vpn_good
proof
  fix a x assume g: "l2vpn_good a" "l2vpn_good x" "cl_name a = cl_name x"
  note m = lfm.merges [OF goods_l2vpn(1) [OF g(1)] goods_l2vpn(1) [OF g(2)]] pwm.merges [OF goods_l2vpn(2) [OF g(1)] goods_l2vpn(2) [OF g(2)]]
  then show "l2vpn_view (merged_l2vpn a x) = l2vpn_view x \<and> l2vpn_good (merged_l2vpn a x)"
    using g(3) by (simp add: l2vpn_view_def merged_l2vpn_def l2vpn_good_def lfm.goods_def pwm.goods_def)
qed (simp add: l2vpn_view_def)

lemma conf_wf_goods:
  "conf_wf c \<longleftrightarrow> ifm.goods (xc_iface_list c) \<and> tnm.goods (xc_tnbr_list c) \<and> npm.goods (xc_nbrp_list c) \<and> l2m.goods (xc_l2vpn_list c)"
  by (auto simp: conf_wf_def ifm.goods_def tnm.goods_def npm.goods_def l2m.goods_def)

section \<open>The code merges by key\<close>

lemma upd_first_id: "upd_first P (\<lambda>a. a) l = l"
  by (induction l) auto

lemma merge_l2vpn_ifs_list: "merge_l2vpn_ifs fs xfs = merge_list lif_ifindex (\<lambda>a _. a) fs xfs"
proof -
  have "merge_entry lif_ifindex (\<lambda>a _. a) = (\<lambda>fs xf. if l2vpn_if_find fs (lif_ifindex xf) = None then xf # fs else fs)"
    by (simp add: fun_eq_iff merge_entry_def l2vpn_if_find_def upd_first_id)
  then show ?thesis by (simp add: merge_l2vpn_ifs_def merge_list_def l2vpn_if_find_def)
qed

lemma merge_ifaces_list:
  assumes "\<forall>ifc\<in>set ifs. idx16 ifc" "\<forall>xi\<in>set xifs. idx16 xi"
  shows "snd (main_merge_ifaces k ifs xifs) = merge_list if_ifindex merged_iface ifs xifs"
proof -
  have l: "xc_if_lookup l (ucast (if_ifindex x)) = find (\<lambda>a. if_ifindex a = if_ifindex x) l" if "idx16 x" for l x
    using that by (simp add: xc_if_lookup_def idx16_def)
  have "snd (foldl main_merge_iface (k, l) xs) = foldl (merge_entry if_ifindex merged_iface) l xs" if "\<forall>x\<in>set xs. idx16 x" for k l xs
    using that
  proof (induction xs arbitrary: k l)
    case (Cons x xs)
    have x: "idx16 x" using Cons.prems by simp
    have "snd (main_merge_iface (k, l) x) = merge_entry if_ifindex merged_iface l x"
      using x by (simp add: main_merge_iface_def merge_entry_def l [OF x] idx16_def)
    then show ?case using Cons by (cases "main_merge_iface (k, l) x") simp
  qed simp
  moreover have "filter (\<lambda>ifc. xc_if_lookup xifs (ucast (if_ifindex ifc)) \<noteq> None) ifs =
      filter (\<lambda>a. find (\<lambda>x. if_ifindex x = if_ifindex a) xifs \<noteq> None) ifs"
    by (rule filter_cong) (use assms(1) l in auto)
  ultimately show ?thesis using assms(2) by (simp add: main_merge_ifaces_def merge_list_def)
qed

lemma same_tnbr_key: "same_tnbr xt tn \<longleftrightarrow> tnbr_key tn = tnbr_key xt"
  by (auto simp: same_tnbr_def tnbr_key_def dest: arg_cong [where f = v4])

lemma tnbr_find_key: "t_af xt \<noteq> AF_UNSPEC \<Longrightarrow> xc_tnbr_find ts (t_af xt) (t_addr xt) = Inr (find (\<lambda>tn. tnbr_key tn = tnbr_key xt) ts)"
  unfolding xc_tnbr_find_def
proof (rule findE_total)
  fix tn :: tnbr assume af: "t_af xt \<noteq> AF_UNSPEC"
  obtain c where c: "ldp_addrcmp (t_af xt) (t_addr xt) (t_addr tn) = Inr c"
    "c = 0 \<longleftrightarrow> (if t_af xt = AF_INET then v4 (t_addr xt) = v4 (t_addr tn) else t_addr xt = t_addr tn)"
    using ldp_addrcmp_eq_0 [OF af] by blast
  then show "(if t_af xt = t_af tn then bindE (ldp_addrcmp (t_af xt) (t_addr xt) (t_addr tn)) (\<lambda>c. Inr (c = 0)) else Inr False) =
      Inr (tnbr_key tn = tnbr_key xt)"
    by (auto simp: same_tnbr_key [symmetric] same_tnbr_def)
qed

lemma merge_tnbrs_list:
  assumes "\<forall>tn\<in>set ts. tnbr_good tn" "\<forall>xt\<in>set xts. tnbr_good xt"
  shows "main_merge_tnbrs ts xts = Inr (merge_list tnbr_key merged_tnbr ts xts)"
proof -
  have "foldE (keep_tnbr xts) ts acc = Inr (acc @ filter (\<lambda>a. find (\<lambda>x. tnbr_key x = tnbr_key a) xts \<noteq> None) ts)" for acc
    using assms(1) by (induction ts arbitrary: acc) (simp_all add: keep_tnbr_def tnbr_good_def tnbr_find_key)
  moreover have "foldE main_merge_tnbr xts l = Inr (foldl (merge_entry tnbr_key merged_tnbr) l xts)" for l
    using assms(2)
    by (induction xts arbitrary: l) (simp_all add: main_merge_tnbr_def tnbr_find_key tnbr_good_def merge_entry_def same_tnbr_key [abs_def])
  ultimately show ?thesis by (simp add: main_merge_tnbrs_def merge_list_def)
qed

lemma upd_first_cong: "(\<And>a. a \<in> set l \<Longrightarrow> P a \<Longrightarrow> f a = g a) \<Longrightarrow> upd_first P f l = upd_first P g l"
  by (induction l) auto

lemma main_take_pws:
  assumes "pwm.goods l" "pwm.goods xs"
  shows "foldE main_take_pw xs l = Inr (foldl (merge_entry pw_ifindex merged_pw) l xs)"
  using assms
proof (induction xs arbitrary: l)
  case (Cons xp xs)
  have x: "pw_good xp" using Cons.prems(2) by (simp add: pwm.goods_def)
  have "main_take_pw l xp = Inr (merge_entry pw_ifindex merged_pw l xp)"
  proof (cases "find (\<lambda>a. pw_ifindex a = pw_ifindex xp) l")
    case (Some pw)
    then have "pw \<in> set l" by (auto simp: find_Some_iff)
    then have "pw_good pw" using Cons.prems(1) by (simp add: pwm.goods_def)
    then have "pw_af pw \<noteq> AF_UNSPEC" by (simp add: pw_good_def)
    then obtain c where "ldp_addrcmp (pw_af pw) (pw_addr pw) (pw_addr xp) = Inr c" using ldp_addrcmp_eq_0 by blast
    with Some show ?thesis by (cases "pw_af pw = pw_af xp") (auto simp: main_take_pw_def merge_entry_def l2vpn_pw_find_def)
  qed (simp add: main_take_pw_def merge_entry_def l2vpn_pw_find_def)
  moreover have "pwm.goods (merge_entry pw_ifindex merged_pw l xp)" using pwm.entry [OF Cons.prems(1) x] by simp
  moreover have "pwm.goods xs" using Cons.prems(2) by (simp add: pwm.goods_def)
  ultimately show ?case using Cons.IH by simp
qed simp

lemma main_merge_l2vpn_pure:
  assumes "l2vpn_good l" "l2vpn_good xl"
  shows "main_merge_l2vpn l xl = Inr (merged_l2vpn l xl)"
proof -
  have "pwm.goods (filter (\<lambda>a. find (\<lambda>x. pw_ifindex x = pw_ifindex a) (cl_pw_list xl) \<noteq> None) (cl_pw_list l))"
    using goods_l2vpn(2) [OF assms(1)] by (simp add: pwm.goods_def distinct_map_filter)
  from main_take_pws [OF this goods_l2vpn(2) [OF assms(2)]] show ?thesis
    by (simp add: main_merge_l2vpn_def merged_l2vpn_def merge_l2vpn_ifs_list l2vpn_pw_find_def merge_list_def)
qed

lemma merge_l2vpns_list:
  assumes "l2m.goods ls" "l2m.goods xls"
  shows "main_merge_l2vpns ls xls = Inr (merge_list cl_name merged_l2vpn ls xls)"
proof -
  have "foldE main_take_l2vpn xs l = Inr (foldl (merge_entry cl_name merged_l2vpn) l xs)" if "l2m.goods l" "l2m.goods xs" for l xs
    using that
  proof (induction xs arbitrary: l)
    case (Cons xl xs)
    have x: "l2vpn_good xl" using Cons.prems(2) by (simp add: l2m.goods_def)
    have "main_take_l2vpn l xl = Inr (merge_entry cl_name merged_l2vpn l xl)"
    proof (cases "find (\<lambda>a. cl_name a = cl_name xl) l")
      case (Some a)
      then have a: "a \<in> set l" "cl_name a = cl_name xl" by (auto simp: find_Some_iff)
      then have "main_merge_l2vpn a xl = Inr (merged_l2vpn a xl)" using Cons.prems(1) x by (intro main_merge_l2vpn_pure) (auto simp: l2m.goods_def)
      moreover have "b = a" if "b \<in> set l" "cl_name b = cl_name xl" for b
        using a that Cons.prems(1) by (metis inj_onD distinct_map l2m.goods_def)
      then have "upd_first (\<lambda>a. cl_name a = cl_name xl) (\<lambda>_. merged_l2vpn a xl) l = upd_first (\<lambda>a. cl_name a = cl_name xl) (\<lambda>a. merged_l2vpn a xl) l"
        by (intro upd_first_cong) metis
      ultimately show ?thesis using Some by (simp add: main_take_l2vpn_def merge_entry_def l2vpn_find_def)
    qed (simp add: main_take_l2vpn_def merge_entry_def l2vpn_find_def)
    moreover have "l2m.goods (merge_entry cl_name merged_l2vpn l xl)" using l2m.entry [OF Cons.prems(1) x] by simp
    moreover have "l2m.goods xs" using Cons.prems(2) by (simp add: l2m.goods_def)
    ultimately show ?case using Cons.IH by simp
  qed simp
  moreover have "l2m.goods (filter (\<lambda>a. find (\<lambda>x. cl_name x = cl_name a) xls \<noteq> None) ls)"
    using assms(1) by (simp add: l2m.goods_def distinct_map_filter)
  ultimately show ?thesis using assms(2) by (simp add: main_merge_l2vpns_def merge_list_def l2vpn_find_def)
qed

lemma main_merge_af_view:
  assumes "af \<noteq> AF_UNSPEC"
  shows "\<exists>k' c'. main_merge_af af k c xa = Inr (k', c') \<and> af_view af c' = af_view af xa"
proof -
  obtain d where d: "ldp_addrcmp af (ac_trans_addr c) (ac_trans_addr xa) = Inr d"
    "d = 0 \<longleftrightarrow> (if af = AF_INET then v4 (ac_trans_addr c) = v4 (ac_trans_addr xa) else ac_trans_addr c = ac_trans_addr xa)"
    using ldp_addrcmp_eq_0 [OF assms] by blast
  then show ?thesis by (auto simp: main_merge_af_def main_merge_af_conf_def Let_def af_view_def)
qed

section \<open>The reload\<close>

text \<open>
  C6: After a reload the parent runs the configuration of the file: whatever the configuration was before,
  each parameter, each list of interfaces, targeted neighbours, neighbour parameters and layer-2 VPNs with
  their pseudowires says what the file says, no entry is left over or missing, and both engines are sent
  the configuration of the file. The merged configuration satisfies what the parser guarantees, so that
  this holds of the next reload too.
\<close>

theorem reload_installs_conf:
  assumes "conf_wf (pa_conf p)" and "conf_wf x"
  shows "\<exists>q. ldp_reload p (Some x) = Inr (0, q) \<and> conf_view (pa_conf q) = conf_view x \<and> conf_wf (pa_conf q) \<and>
    pa_reconf q = pa_reconf p @ main_imsg_send_config x"
proof -
  let ?c = "pa_conf p"
  obtain k1 a4 where 4: "main_merge_af AF_INET (pa_kr p) (xc_ipv4 ?c) (xc_ipv4 x) = Inr (k1, a4)" "af_view AF_INET a4 = af_view AF_INET (xc_ipv4 x)"
    using main_merge_af_view [of AF_INET] by blast
  obtain k2 a6 where 6: "main_merge_af AF_INET6 k1 (xc_ipv6 ?c) (xc_ipv6 x) = Inr (k2, a6)" "af_view AF_INET6 a6 = af_view AF_INET6 (xc_ipv6 x)"
    using main_merge_af_view [of AF_INET6] by blast
  have c: "ifm.goods (xc_iface_list ?c)" "tnm.goods (xc_tnbr_list ?c)" "npm.goods (xc_nbrp_list ?c)" "l2m.goods (xc_l2vpn_list ?c)"
    and n: "ifm.goods (xc_iface_list x)" "tnm.goods (xc_tnbr_list x)" "npm.goods (xc_nbrp_list x)" "l2m.goods (xc_l2vpn_list x)"
    using assms by (simp_all add: conf_wf_goods)
  obtain k3 ifs where i: "main_merge_ifaces k2 (xc_iface_list ?c) (xc_iface_list x) = (k3, ifs)" by fastforce
  then have ifs: "ifs = merge_list if_ifindex merged_iface (xc_iface_list ?c) (xc_iface_list x)"
    using merge_ifaces_list [of "xc_iface_list ?c" "xc_iface_list x" k2] c(1) n(1) by (simp add: ifm.goods_def)
  have ts: "main_merge_tnbrs (xc_tnbr_list ?c) (xc_tnbr_list x) = Inr (merge_list tnbr_key merged_tnbr (xc_tnbr_list ?c) (xc_tnbr_list x))"
    by (rule merge_tnbrs_list) (use c(2) n(2) in \<open>simp_all add: tnm.goods_def\<close>)
  note ls = merge_l2vpns_list [OF c(4) n(4)]
  note m = ifm.merges [OF c(1) n(1)] tnm.merges [OF c(2) n(2)] npm.merges [OF c(3) n(3)] l2m.merges [OF c(4) n(4)]
  show ?thesis
    using m 4 6 by (simp add: ldp_reload_def main_merge_config_def main_merge_global_def i ts ls Let_def conf_wf_goods
        conf_view_def main_merge_nbrps_def ifs)
qed

definition demo_running :: parent where
  "demo_running = \<lparr>pa_conf = demo_sock_conf\<lparr>xc_nbrp_list := [\<lparr>np_lsr_id = 1, np_keepalive = 180, np_gtsm_enabled = False, np_gtsm_hops = 0,
       np_auth_method = AUTH_NONE, np_md5key = [], np_flags = 0\<rparr>]\<rparr>, pa_kr = kr_start True 1, pa_socks = \<lparr>ss_calls = [], ss_no_md5sig = False\<rparr>,
     pa_verbose = 0, pa_reconf = []\<rparr>"

theorem reload_installs_conf_witness:
  "\<exists>q. ldp_reload demo_running (Some (demo_sock_conf\<lparr>xc_rtr_id := 7\<rparr>)) = Inr (0, q) \<and> xc_rtr_id (pa_conf q) = 7 \<and> xc_nbrp_list (pa_conf q) = []"
proof -
  have "conf_wf (pa_conf demo_running)" "conf_wf (demo_sock_conf\<lparr>xc_rtr_id := 7\<rparr>)"
    by (simp_all add: conf_wf_def demo_running_def demo_sock_conf_def Let_def)
  from reload_installs_conf [OF this] obtain q where
    "ldp_reload demo_running (Some (demo_sock_conf\<lparr>xc_rtr_id := 7\<rparr>)) = Inr (0, q)"
    "conf_view (pa_conf q) = conf_view (demo_sock_conf\<lparr>xc_rtr_id := 7\<rparr>)" by blast
  then show ?thesis by (auto simp: conf_view_def demo_sock_conf_def Let_def)
qed

end
