(* ===== verification/Spec2Isabelle.thy ===== *)
theory Spec2Isabelle
  imports System Lde_Theorems Ldpe_ConfTheorems Parent_Theorems
begin

text \<open>
  A verification library for \<^verbatim>\<open>ldpd\<close>, the OpenBSD daemon of the Label Distribution Protocol
  (RFC 5036, with the IPv6 extensions of RFC 7552 and the pseudowires of RFC 4447).

  \<^bold>\<open>The program.\<close> Three processes exchange messages over pipes. The \<^emph>\<open>protocol engine\<close>
  (\<^verbatim>\<open>ldpe.c\<close>, \<^verbatim>\<open>packet.c\<close>, \<^verbatim>\<open>hello.c\<close>, \<^verbatim>\<open>adjacency.c\<close>, \<^verbatim>\<open>interface.c\<close>, \<^verbatim>\<open>neighbor.c\<close>, \<^verbatim>\<open>init.c\<close>,
  \<^verbatim>\<open>keepalive.c\<close>, \<^verbatim>\<open>notification.c\<close>, \<^verbatim>\<open>address.c\<close>, \<^verbatim>\<open>labelmapping.c\<close>, \<^verbatim>\<open>accept.c\<close>, \<^verbatim>\<open>pfkey.c\<close>)
  discovers neighbours with hello packets, keeps a TCP session with each and translates between the
  bytes on the wire and messages to the other processes. The \<^emph>\<open>label decision engine\<close> (\<^verbatim>\<open>lde.c\<close>,
  \<^verbatim>\<open>lde_lib.c\<close>, \<^verbatim>\<open>l2vpn.c\<close>) keeps the label information base: for every forwarding equivalence class
  the local label, the labels received from the neighbours and the mappings sent to them. The
  \<^emph>\<open>parent\<close> (\<^verbatim>\<open>ldpd.c\<close>, \<^verbatim>\<open>kroute.c\<close>, \<^verbatim>\<open>socket.c\<close>) follows the routes and interfaces of the kernel, tells the label
  decision engine of the best routes, the protocol engine of interfaces and addresses, installs
  labels in the kernel, makes the sockets and distributes the configuration.

  \<^bold>\<open>Conventions.\<close> A C function is a HOL function on the state of its process that returns
  \<open>fault + 'a\<close>: \<open>Inl\<close> for a null dereference, an access out of bounds, a use after free or
  \<^verbatim>\<open>fatalx\<close>, \<open>Inr\<close> for a normal return (\<open>Ldp_Prelude\<close>, with the combinators \<open>bindE\<close>, \<open>foldE\<close>, \<open>findE\<close> and
  the rule \<open>okE\<close> for \<^emph>\<open>ends without a fault in a state with the property\<close>). Integers have their
  width (\<open>u8\<close>, \<open>u16\<close>, \<open>u32\<close>); addresses are lists of 16 bytes; byte order is written out. A pointer to
  an element of a tree is its key; elements that several structures point to live in stores addressed
  by numbers. What a process sends is appended to a log in its state, which the theorems read off.
  Memory allocation does not fail, as its failure is \<^verbatim>\<open>fatal\<close> nearly everywhere.

  \<^bold>\<open>The theories.\<close>
  \<^item> \<open>Ldp_Prelude\<close>, \<open>Rb_Tree\<close>: the error monad, byte orders, flags; the red-black trees of
    \<^verbatim>\<open>sys/tree.h\<close> as the interface \<open>rb_tree\<close>, interpreted on the trees of the library.
  \<^item> \<open>Ldp_Addr\<close> (\<^verbatim>\<open>util.c\<close>), \<open>Ldp_Fec\<close> (classes of \<^verbatim>\<open>lde.h\<close> and \<^verbatim>\<open>lde_lib.c\<close>): masks and prefixes, the
    order of the classes (an instance of \<open>linorder\<close>), their conversion to and from messages.
  \<^item> \<open>Lde_State\<close>, \<open>Lde_Send\<close>, \<open>Lde_Lib\<close>, \<open>Lde_Dispatch\<close>: the label decision engine. \<open>Lde_Inv\<close>,
    \<open>Lde_Frame\<close>, \<open>Lde_Safe\<close>, \<open>Lde_Handlers\<close>, \<open>Lde_Reach\<close>: its invariant, that every handler keeps it,
    and its reachable states. \<open>Lde_Props\<close>, \<open>Lde_Theorems\<close>: what the handlers achieve. \<open>Lde_Closed\<close>: the
    interface \<open>lde_closed\<close> of a predicate that the elementary changes of the state keep, from which every
    handler keeps it; the theories below interpret it. \<open>Lde_Reload\<close>: the configuration of this engine,
    its merge and the shutdown. \<open>Lde_ReloadSafe\<close>, \<open>Lde_ReloadReach\<close>, \<open>Lde_ReloadTheorems\<close>: clean reloads keep
    the classes of the pseudowires in step with the configuration, and what an unclean one does.
  \<^item> \<open>Ldp_Wire\<close>, \<open>Ldp_LabelMsg\<close> (\<^verbatim>\<open>labelmapping.c\<close> and the TLVs it uses): encoders and decoders on byte
    lists; a decoder returns the actions on its neighbour. \<open>Ldp_LabelProps\<close>, \<open>Ldp_LabelSafe\<close>,
    \<open>Ldp_LabelTheorems\<close>: round trips, packing into PDUs, exactly which elements make the decoder fault.
  \<^item> \<open>Ldpe_State\<close>, \<open>Ldpe_Send\<close>, \<open>Ldpe_Hello\<close>, \<open>Ldpe_Nbr\<close>, \<open>Ldpe_Conn\<close>, \<open>Ldpe_Read\<close>, \<open>Ldpe_Disc\<close>,
    \<open>Ldpe_Iface\<close>, \<open>Ldpe_Reload\<close>: the protocol engine, bottom up: state, senders, hellos, the session
    state machine, connections, received streams, adjacencies, interfaces, configuration reload.
    \<open>Ldpe_Fsm\<close>, \<open>Ldpe_Sess\<close>, \<open>Ldpe_ReadSafe\<close>, \<open>Ldpe_Stream\<close> show that sessions keep their invariant;
    \<open>Ldpe_View\<close>, \<open>Ldpe_Adj\<close>, \<open>Ldpe_DiscSafe\<close>, \<open>Ldpe_HelloSafe\<close>, \<open>Ldpe_IfSafe\<close>, \<open>Ldpe_Engine\<close>,
    \<open>Ldpe_ReloadSafe\<close> do so for the tables of discovery, on an abstraction (\<open>view\<close>) of the state;
    \<open>Ldpe_Reach\<close> has the reachable states, \<open>Ldpe_Handshake\<close> and \<open>Ldpe_Demo\<close> runs of two engines and of
    one; \<open>Ldpe_Theorems\<close> and \<open>Ldpe_ConfTheorems\<close> the properties. \<open>Conf_Transfer\<close>: the interface
    \<open>conf_receiver\<close> of a process that is sent a configuration, interpreted by both engines.
  \<^item> \<open>Kr_State\<close>, \<open>Kr_Table\<close>, \<open>Kr_Rtsock\<close> (\<^verbatim>\<open>kroute.c\<close>): the routing tables of the parent. \<open>Kr_Inv\<close>,
    \<open>Kr_Ops\<close>, \<open>Kr_Match\<close>, \<open>Kr_Routes\<close>, \<open>Kr_Reach\<close>, \<open>Kr_Theorems\<close>: their invariant, the view the label
    decision engine gets of them, the longest-prefix match, reachable states and properties.
    \<open>Kr_Log\<close>: what is true of every message it has logged.
  \<^item> \<open>Parent_Socket\<close> (\<^verbatim>\<open>socket.c\<close>): the sockets the parent makes and hands over; no descriptor leaks, and
    when the loop for the receive buffer ends. \<open>Parent_Conf\<close> (\<^verbatim>\<open>ldpd.c\<close>): the reload in the parent and the
    requests of the protocol engine; its lists are merged by one pattern, the interface \<open>keyed_merge\<close>.
    \<open>Parent_Theorems\<close> interprets it for each list: a reload installs what the file says.
  \<^item> \<open>Lde_Links\<close>, \<open>System\<close>: the processes together. The label decision engine reads the logs of the two
    others in any interleaving (\<open>lde_fed\<close>), and the parent reads its log; no message makes the reader fault,
    where what the component theorems assume of the messages is proved of the senders.

  \<^bold>\<open>Parameters.\<close> Code outside the sources is an argument: \<open>sys\<close> (sockets, the key socket) and
  \<open>ksys\<close> (writes to the routing socket, \<^verbatim>\<open>ioctl\<close>) answer the system calls, and \<open>sock_sys\<close>, which may depend on all calls before, those
  of \<^verbatim>\<open>socket.c\<close>; \<open>sys_ok\<close> asks that reading the option for TCP signatures and adding keys succeed. The contents of routing messages are given by what the code reads
  through the structures of the system headers; \<open>rtmsg_ok\<close> is what the kernel promises of them.

  \<^bold>\<open>Loops.\<close> Loops over lists and trees are folds. The loops over a received buffer end because each
  round consumes bytes, and are functions with a measure; \<open>rtmsg_loop\<close>, which need not end, is a
  \<^verbatim>\<open>partial_function\<close>, and \<open>rtmsg_process_returns\<close> says when it does. \<^verbatim>\<open>nbr_fsm\<close> and the senders call each
  other; the depth of these calls is bounded by 2 (\<open>nbr_fsm_n\<close>), which is enough because the nested events raise
  no further ones. The sub-TLV loop of \<^verbatim>\<open>tlv_decode_fec_elm\<close>, which hangs on a parameter of length 0,
  yields a fault there.

  \<^bold>\<open>Not modelled.\<close> The grammar \<^verbatim>\<open>parse.y\<close> and \<^verbatim>\<open>printconf.c\<close> (a yacc parser and text output: the
  configuration, or the failure to read one, is an argument, and \<open>conf_wf\<close> states what the parser
  guarantees of it); \<^verbatim>\<open>log.c\<close> (text for syslog); \<^verbatim>\<open>control.c\<close> and the copies of the state for \<^verbatim>\<open>ldpctl\<close>; the
  encoding of key-socket messages in \<^verbatim>\<open>pfkey.c\<close>, whose layout is that of system headers; the set-up of
  the processes and of their pipes, and the shutdown of the protocol engine and the parent. The label
  decision engine's messages to the protocol engine are the hypothesis \<open>lde_imsg_good\<close> of the events of
  the latter, and are not linked to the log of their sender.
\<close>

end
